(* ===== verification/Prelude.thy ===== *)
theory Prelude
  imports
    Complex_Main
    "HOL-Library.AList"
    "HOL-Library.Char_ord"
    "HOL-Library.List_Lexorder"
    "HOL-Library.Product_Lexorder"
    "HOL-Library.Sublist"
begin

text \<open>
  Shared vocabulary of the development: the failures the application raises, results that
  are a failure or a value, Python dictionaries as association lists in insertion order, the
  JSON values the document store holds, and the string operations the code uses.

  Strings are lists of 8-bit characters; case mapping and white space are those of ASCII
  (Python agrees with them on ASCII text, which is what identifiers, MAC addresses, keys and
  modes are in this program).
\<close>

named_theorems dict_simps \<open>lookups in updated and reduced dictionaries\<close>
named_theorems inv_intros \<open>operations keep the invariants of their component\<close>

section \<open>Failures and results\<close>

datatype failure =
    ValidationError string
  | ValueError string
  | Conflict string
  | NotFound string
  | Forbidden string
  | AuthenticationRequired
  | UpstreamUnavailable string
  | StoreError string
  | AttributeError
  | TypeError
  | KeyError string
  | IndexError
  | RuntimeError string

type_synonym 'a result = "failure + 'a"

definition rbind :: "'a result \<Rightarrow> ('a \<Rightarrow> 'b result) \<Rightarrow> 'b result" where
  "rbind m f = (case m of Inl e \<Rightarrow> Inl e | Inr x \<Rightarrow> f x)"

lemma rbind_simps [simp]:
  "rbind (Inl e) f = Inl e"
  "rbind (Inr x) f = f x"
  by (simp_all add: rbind_def)

lemma rbind_Inr_iff: "rbind m f = Inr y \<longleftrightarrow> (\<exists>x. m = Inr x \<and> f x = Inr y)"
  by (cases m) simp_all

lemma rbind_Inl_iff: "rbind m f = Inl e \<longleftrightarrow> m = Inl e \<or> (\<exists>x. m = Inr x \<and> f x = Inl e)"
  by (cases m) simp_all

lemma rbind_split:
  "P (rbind m f) \<longleftrightarrow> (\<forall>e. m = Inl e \<longrightarrow> P (Inl e)) \<and> (\<forall>x. m = Inr x \<longrightarrow> P (f x))"
  by (cases m) simp_all

lemma rbind_cong [fundef_cong]:
  "m = m' \<Longrightarrow> (\<And>x. m' = Inr x \<Longrightarrow> f x = g x) \<Longrightarrow> rbind m f = rbind m' g"
  by (cases m') simp_all

definition is_error :: "'a result \<Rightarrow> bool" where
  "is_error r = (case r of Inl _ \<Rightarrow> True | Inr _ \<Rightarrow> False)"

lemma is_error_simps [simp]: "is_error (Inl e)" "\<not> is_error (Inr x)"
  by (simp_all add: is_error_def)

text \<open>A loop whose body may raise: the first failure ends it.\<close>

fun rmap :: "('a \<Rightarrow> 'b result) \<Rightarrow> 'a list \<Rightarrow> 'b list result" where
  "rmap f [] = Inr []"
| "rmap f (x # xs) = rbind (f x) (\<lambda>y. rbind (rmap f xs) (\<lambda>ys. Inr (y # ys)))"

lemma rmap_cong [fundef_cong]:
  "xs = ys \<Longrightarrow> (\<And>x. x \<in> set ys \<Longrightarrow> f x = g x) \<Longrightarrow> rmap f xs = rmap g ys"
proof (induction ys arbitrary: xs)
  case Nil
  then show ?case by simp
next
  case (Cons y ys)
  then have "f y = g y" and "rmap f ys = rmap g ys" by simp_all
  with Cons.prems(1) show ?case by simp
qed

lemma rmap_length: "rmap f xs = Inr ys \<Longrightarrow> length ys = length xs"
  by (induction xs arbitrary: ys) (auto simp: rbind_Inr_iff)

lemma rmap_total: "(\<And>x. x \<in> set xs \<Longrightarrow> f x = Inr (g x)) \<Longrightarrow> rmap f xs = Inr (map g xs)"
  by (induction xs) auto

section \<open>Dictionaries in insertion order\<close>

type_synonym ('k, 'v) dict = "('k \<times> 'v) list"

abbreviation dget :: "('k, 'v) dict \<Rightarrow> 'k \<Rightarrow> 'v option" where
  "dget d k \<equiv> map_of d k"

abbreviation dput :: "'k \<Rightarrow> 'v \<Rightarrow> ('k, 'v) dict \<Rightarrow> ('k, 'v) dict" where
  "dput k v d \<equiv> AList.update k v d"

abbreviation ddel :: "'k \<Rightarrow> ('k, 'v) dict \<Rightarrow> ('k, 'v) dict" where
  "ddel k d \<equiv> AList.delete k d"

abbreviation dkeys :: "('k, 'v) dict \<Rightarrow> 'k list" where
  "dkeys d \<equiv> map fst d"

abbreviation dvals :: "('k, 'v) dict \<Rightarrow> 'v list" where
  "dvals d \<equiv> map snd d"

abbreviation dict_ok :: "('k, 'v) dict \<Rightarrow> bool" where
  "dict_ok d \<equiv> distinct (map fst d)"

definition dget_or :: "('k, 'v) dict \<Rightarrow> 'k \<Rightarrow> 'v \<Rightarrow> 'v" where
  "dget_or d k v = (case dget d k of None \<Rightarrow> v | Some x \<Rightarrow> x)"

definition setdefault :: "'k \<Rightarrow> 'v \<Rightarrow> ('k, 'v) dict \<Rightarrow> ('k, 'v) dict" where
  "setdefault k v d = (case dget d k of None \<Rightarrow> dput k v d | Some _ \<Rightarrow> d)"

definition dmap :: "('v \<Rightarrow> 'w) \<Rightarrow> ('k, 'v) dict \<Rightarrow> ('k, 'w) dict" where
  "dmap f d = map (\<lambda>(k, v). (k, f v)) d"

definition dmapk :: "('k \<Rightarrow> 'v \<Rightarrow> 'w) \<Rightarrow> ('k, 'v) dict \<Rightarrow> ('k, 'w) dict" where
  "dmapk f d = map (\<lambda>(k, v). (k, f k v)) d"

definition dfilter :: "('k \<Rightarrow> 'v \<Rightarrow> bool) \<Rightarrow> ('k, 'v) dict \<Rightarrow> ('k, 'v) dict" where
  "dfilter P d = filter (\<lambda>(k, v). P k v) d"

lemma dget_dput [simp, dict_simps]: "dget (dput k v d) k' = (if k' = k then Some v else dget d k')"
  by (simp add: update_conv')

lemma dget_or_dput: "dget_or (dput k v d) k' x = (if k' = k then v else dget_or d k' x)"
  by (simp add: dget_or_def)

lemma dget_ddel [simp, dict_simps]: "dget (ddel k d) k' = (if k' = k then None else dget d k')"
  by (simp add: delete_conv')

lemma dget_setdefault [simp, dict_simps]:
  "dget (setdefault k v d) k' = (if k' = k \<and> dget d k = None then Some v else dget d k')"
  by (auto simp: setdefault_def split: option.splits)

lemma dget_dmap [simp, dict_simps]: "dget (dmap f d) k = map_option f (dget d k)"
  by (induction d) (auto simp: dmap_def)

lemma dget_dmapk [simp, dict_simps]: "dget (dmapk f d) k = map_option (f k) (dget d k)"
  by (induction d) (auto simp: dmapk_def)

lemma dkeys_dmap [simp]: "dkeys (dmap f d) = dkeys d"
  by (induction d) (auto simp: dmap_def)

lemma dkeys_dmapk [simp]: "dkeys (dmapk f d) = dkeys d"
  by (induction d) (auto simp: dmapk_def)

lemma dkeys_dput: "set (dkeys (dput k v d)) = insert k (set (dkeys d))"
  by (simp add: dom_update)

lemma dkeys_ddel: "set (dkeys (ddel k d)) = set (dkeys d) - {k}"
  by (simp add: delete_keys)

lemma dict_ok_dput [simp, intro]: "dict_ok d \<Longrightarrow> dict_ok (dput k v d)"
  by (rule distinct_update)

lemma dict_ok_ddel [simp, intro]: "dict_ok d \<Longrightarrow> dict_ok (ddel k d)"
  by (rule distinct_delete)

lemma dict_ok_setdefault [simp, intro]: "dict_ok d \<Longrightarrow> dict_ok (setdefault k v d)"
  by (simp add: setdefault_def split: option.split)

lemma dict_ok_dfilter [simp, intro]: "dict_ok d \<Longrightarrow> dict_ok (dfilter P d)"
  by (simp add: dfilter_def distinct_map_filter)

lemma dget_None_iff: "dget d k = None \<longleftrightarrow> k \<notin> set (dkeys d)"
  by (simp add: map_of_eq_None_iff)

lemma dget_mem: "dget d k = Some v \<Longrightarrow> (k, v) \<in> set d"
  by (rule map_of_SomeD)

lemma dget_mem_iff: "dict_ok d \<Longrightarrow> dget d k = Some v \<longleftrightarrow> (k, v) \<in> set d"
  by (rule map_of_eq_Some_iff)

declare map_of_eq_Some_iff [simp del] Some_eq_map_of_iff [simp del]

lemma dget_dfilter [dict_simps]:
  "dict_ok d \<Longrightarrow> dget (dfilter P d) k = (case dget d k of None \<Rightarrow> None
     | Some v \<Rightarrow> if P k v then Some v else None)"
proof (induction d)
  case Nil
  then show ?case by (simp add: dfilter_def)
next
  case (Cons kv d)
  obtain k0 v0 where kv: "kv = (k0, v0)" by (cases kv)
  with Cons.prems have "dget d k0 = None" by (auto simp: dget_None_iff)
  with Cons kv show ?case by (auto simp: dfilter_def split: option.splits)
qed

lemma dput_new: "k \<notin> set (dkeys d) \<Longrightarrow> dput k v d = d @ [(k, v)]"
  by (induction d) auto

lemma length_dput: "length (dput k v d) = (if k \<in> set (dkeys d) then length d else Suc (length d))"
  by (induction d) auto

lemma length_ddel_mem: "dict_ok d \<Longrightarrow> k \<in> set (dkeys d) \<Longrightarrow> length (ddel k d) = length d - 1"
proof (induction d)
  case Nil
  then show ?case by simp
next
  case (Cons kv d)
  show ?case
  proof (cases "fst kv = k")
    case True
    with Cons.prems show ?thesis by (cases kv) simp
  next
    case False
    with Cons.prems have "k \<in> set (dkeys d)" by auto
    with Cons have "length (ddel k d) = length d - 1" by simp
    moreover from \<open>k \<in> set (dkeys d)\<close> have "d \<noteq> []" by auto
    ultimately show ?thesis using False by (cases kv) simp
  qed
qed

text \<open>Removing several keys, one \<open>pop\<close> after the other.\<close>

fun ddel_all :: "'k list \<Rightarrow> ('k, 'v) dict \<Rightarrow> ('k, 'v) dict" where
  "ddel_all [] d = d"
| "ddel_all (k # ks) d = ddel_all ks (ddel k d)"

lemma dget_ddel_all [simp, dict_simps]:
  "dget (ddel_all ks d) k = (if k \<in> set ks then None else dget d k)"
  by (induction ks arbitrary: d) auto

lemma dict_ok_ddel_all [simp, intro]: "dict_ok d \<Longrightarrow> dict_ok (ddel_all ks d)"
  by (induction ks arbitrary: d) auto

lemma dkeys_ddel_all: "set (dkeys (ddel_all ks d)) = set (dkeys d) - set ks"
proof (induction ks arbitrary: d)
  case Nil
  then show ?case by simp
next
  case (Cons k ks)
  then show ?case by (auto simp del: set_map simp: dkeys_ddel)
qed

lemma length_ddel_all:
  "dict_ok d \<Longrightarrow> distinct ks \<Longrightarrow> set ks \<subseteq> set (dkeys d) \<Longrightarrow>
   length (ddel_all ks d) = length d - length ks"
proof (induction ks arbitrary: d)
  case Nil
  then show ?case by simp
next
  case (Cons k ks)
  then have sub: "set ks \<subseteq> set (dkeys (ddel k d))"
    by (auto simp del: set_map simp: dkeys_ddel)
  from Cons.prems have k: "k \<in> set (dkeys d)" by simp
  from Cons.IH [OF _ _ sub] Cons.prems length_ddel_mem [OF _ k]
  show ?case by simp
qed

lemma length_dict_keys: "dict_ok d \<Longrightarrow> length d = card (set (dkeys d))"
  using distinct_card [of "dkeys d"] by simp

text \<open>A predicate that holds for every entry of a dictionary.\<close>

definition dict_all :: "('k \<Rightarrow> 'v \<Rightarrow> bool) \<Rightarrow> ('k, 'v) dict \<Rightarrow> bool" where
  "dict_all P d \<longleftrightarrow> dict_ok d \<and> (\<forall>k v. dget d k = Some v \<longrightarrow> P k v)"

lemma dict_allI: "dict_ok d \<Longrightarrow> (\<And>k v. dget d k = Some v \<Longrightarrow> P k v) \<Longrightarrow> dict_all P d"
  by (simp add: dict_all_def)

lemma dict_allD: "dict_all P d \<Longrightarrow> dget d k = Some v \<Longrightarrow> P k v"
  by (simp add: dict_all_def)

lemma dict_all_ok: "dict_all P d \<Longrightarrow> dict_ok d"
  by (simp add: dict_all_def)

lemma dict_all_Nil [simp, inv_intros]: "dict_all P []"
  by (simp add: dict_all_def)

lemma dict_all_dput [inv_intros]: "dict_all P d \<Longrightarrow> P k v \<Longrightarrow> dict_all P (dput k v d)"
  by (auto simp: dict_all_def)

lemma dict_all_ddel [inv_intros]: "dict_all P d \<Longrightarrow> dict_all P (ddel k d)"
  by (auto simp: dict_all_def split: if_splits)

lemma dict_all_ddel_all [inv_intros]: "dict_all P d \<Longrightarrow> dict_all P (ddel_all ks d)"
  by (auto simp: dict_all_def split: if_splits)

lemma dict_all_dfilter [inv_intros]: "dict_all P d \<Longrightarrow> dict_all P (dfilter Q d)"
  by (auto simp: dict_all_def dget_dfilter split: option.splits if_splits)

lemma dict_all_dmapk [inv_intros]:
  "dict_all P d \<Longrightarrow> (\<And>k v. dget d k = Some v \<Longrightarrow> P k v \<Longrightarrow> Q k (f k v)) \<Longrightarrow> dict_all Q (dmapk f d)"
  by (auto simp: dict_all_def)

lemma dict_all_dget_or: "dict_all P d \<Longrightarrow> P k v \<Longrightarrow> P k (dget_or d k v)"
  by (auto simp: dict_all_def dget_or_def split: option.splits)

lemma dict_all_mono: "dict_all P d \<Longrightarrow> (\<And>k v. P k v \<Longrightarrow> Q k v) \<Longrightarrow> dict_all Q d"
  by (auto simp: dict_all_def)

lemma dict_all_mem: "dict_all P d \<Longrightarrow> (k, v) \<in> set d \<Longrightarrow> P k v"
  by (auto simp: dict_all_def dget_mem_iff)

section \<open>Bounded logs and bounded mappings\<close>

text \<open>\<open>del xs[:-n]\<close> after an append: the newest \<open>n\<close> entries stay.\<close>

definition keep_last :: "nat \<Rightarrow> 'a list \<Rightarrow> 'a list" where
  "keep_last n xs = drop (length xs - n) xs"

lemma length_keep_last [simp]: "length (keep_last n xs) = min n (length xs)"
  by (auto simp: keep_last_def)

lemma keep_last_id [simp]: "length xs \<le> n \<Longrightarrow> keep_last n xs = xs"
  by (simp add: keep_last_def)

lemma set_keep_last: "set (keep_last n xs) \<subseteq> set xs"
  by (simp add: keep_last_def set_drop_subset)

lemma last_keep_last: "0 < n \<Longrightarrow> xs \<noteq> [] \<Longrightarrow> last (keep_last n xs) = last xs"
  by (simp add: keep_last_def)

lemma keep_last_snoc: "0 < n \<Longrightarrow> keep_last n (xs @ [x]) = keep_last (n - 1) xs @ [x]"
  by (cases n) (auto simp: keep_last_def Suc_diff_le not_less_eq_eq)

text \<open>
  Sorting is stable, as Python's is; a mapping that grew past its limit loses the keys that
  come first in the order of a rank function.
\<close>

definition oldest_keys :: "('k \<Rightarrow> 'v \<Rightarrow> 'r::linorder) \<Rightarrow> nat \<Rightarrow> ('k, 'v) dict \<Rightarrow> 'k list" where
  "oldest_keys rank limit d =
     take (length d - limit) (sort_key (\<lambda>k. rank k (snd (hd (filter (\<lambda>kv. fst kv = k) d)))) (dkeys d))"

definition prune_by :: "('k \<Rightarrow> 'v \<Rightarrow> 'r::linorder) \<Rightarrow> nat \<Rightarrow> ('k, 'v) dict \<Rightarrow> ('k, 'v) dict" where
  "prune_by rank limit d = ddel_all (oldest_keys rank limit d) d"

lemma set_oldest_keys: "set (oldest_keys rank limit d) \<subseteq> set (dkeys d)"
  by (auto simp: oldest_keys_def simp del: set_map dest!: in_set_takeD)

lemma distinct_oldest_keys: "dict_ok d \<Longrightarrow> distinct (oldest_keys rank limit d)"
  unfolding oldest_keys_def by (simp add: distinct_take)

lemma length_prune_by: "dict_ok d \<Longrightarrow> length (prune_by rank limit d) = min limit (length d)"
proof -
  assume ok: "dict_ok d"
  have "length (oldest_keys rank limit d) = length d - limit"
    by (simp add: oldest_keys_def)
  with ok have "length (prune_by rank limit d) = length d - (length d - limit)"
    unfolding prune_by_def
    by (simp only: length_ddel_all [OF ok distinct_oldest_keys [OF ok] set_oldest_keys])
  then show ?thesis by simp
qed

lemma dict_ok_prune_by [simp, intro]: "dict_ok d \<Longrightarrow> dict_ok (prune_by rank limit d)"
  by (simp add: prune_by_def)

lemma dget_prune_by:
  "dget (prune_by rank limit d) k = (if k \<in> set (oldest_keys rank limit d) then None else dget d k)"
  by (simp add: prune_by_def)

lemma hd_filter_key: "dget d k = Some v \<Longrightarrow> snd (hd (filter (\<lambda>kv. fst kv = k) d)) = v"
  by (induction d) (auto split: if_splits)

text \<open>What a pruned mapping drops never ranks above what it keeps.\<close>

lemma sorted_take_le:
  assumes "sorted (map f ys)" and "x \<in> set (take n ys)" and "y \<in> set ys - set (take n ys)"
  shows "f x \<le> f y"
proof -
  from assms(3) have "y \<in> set (drop n ys)"
    by (metis DiffD1 DiffD2 Un_iff append_take_drop_id set_append)
  moreover from assms(1) have "sorted (map f (take n ys) @ map f (drop n ys))"
    by (simp flip: map_append)
  ultimately show ?thesis using assms(2) by (auto simp: sorted_append)
qed

lemma prune_by_order:
  assumes x: "x \<in> set (oldest_keys rank limit d)" "dget d x = Some v"
    and y: "dget (prune_by rank limit d) y = Some w"
  shows "rank x v \<le> rank y w"
proof -
  let ?f = "\<lambda>k. rank k (snd (hd (filter (\<lambda>kv. fst kv = k) d)))"
  from y have yd: "dget d y = Some w" and yn: "y \<notin> set (oldest_keys rank limit d)"
    by (auto simp: dget_prune_by split: if_splits)
  let ?ys = "sort_key ?f (dkeys d)"
  have "y \<in> set (dkeys d)" using yd by (metis dget_None_iff option.distinct(1))
  then have "y \<in> set ?ys - set (take (length d - limit) ?ys)"
    using yn by (simp add: oldest_keys_def)
  moreover have "x \<in> set (take (length d - limit) ?ys)"
    using x(1) by (simp add: oldest_keys_def)
  ultimately have "?f x \<le> ?f y"
    by (intro sorted_take_le [OF sorted_sort_key])
  with x(2) yd show ?thesis by (simp add: hd_filter_key)
qed

section \<open>Strings\<close>

definition is_space :: "char \<Rightarrow> bool" where
  "is_space c \<longleftrightarrow> c \<in> {CHR '' '', CHR 0x09, CHR 0x0A, CHR 0x0B, CHR 0x0C, CHR 0x0D}"

definition strip :: "string \<Rightarrow> string" where
  "strip s = rev (dropWhile is_space (rev (dropWhile is_space s)))"

definition lower_char :: "char \<Rightarrow> char" where
  "lower_char c = (let n = of_char c :: nat in
     if 65 \<le> n \<and> n \<le> 90 then char_of (n + 32) else c)"

definition upper_char :: "char \<Rightarrow> char" where
  "upper_char c = (let n = of_char c :: nat in
     if 97 \<le> n \<and> n \<le> 122 then char_of (n - 32) else c)"

definition lower :: "string \<Rightarrow> string" where
  "lower s = map lower_char s"

definition upper :: "string \<Rightarrow> string" where
  "upper s = map upper_char s"

definition is_digit_char :: "char \<Rightarrow> bool" where
  "is_digit_char c = (let n = of_char c :: nat in 48 \<le> n \<and> n \<le> 57)"

definition startswith :: "string \<Rightarrow> string \<Rightarrow> bool" where
  "startswith s p = (take (length p) s = p)"

text \<open>\<open>s.split(c)\<close> for a one-character separator.\<close>

fun split_on :: "char \<Rightarrow> string \<Rightarrow> string list" where
  "split_on c [] = [[]]"
| "split_on c (x # xs) =
     (if x = c then [] # split_on c xs
      else case split_on c xs of [] \<Rightarrow> [[x]] | w # ws \<Rightarrow> (x # w) # ws)"

fun join_with :: "string \<Rightarrow> string list \<Rightarrow> string" where
  "join_with sep [] = []"
| "join_with sep [w] = w"
| "join_with sep (w # ws) = w @ sep @ join_with sep ws"

fun digits_of_nat :: "nat \<Rightarrow> string" where
  "digits_of_nat n =
     (if n < 10 then [char_of (48 + n)]
      else digits_of_nat (n div 10) @ [char_of (48 + n mod 10)])"

declare digits_of_nat.simps [simp del]

definition str_of_int :: "int \<Rightarrow> string" where
  "str_of_int i = (if i < 0 then ''-'' @ digits_of_nat (nat (- i)) else digits_of_nat (nat i))"

definition nat_of_digits :: "string \<Rightarrow> nat" where
  "nat_of_digits s = foldl (\<lambda>n c. 10 * n + (of_char c - 48)) 0 s"

lemma digit_chars:
  "char_of (48::nat) = CHR ''0''" "char_of (49::nat) = CHR ''1''" "char_of (50::nat) = CHR ''2''"
  "char_of (51::nat) = CHR ''3''" "char_of (52::nat) = CHR ''4''" "char_of (53::nat) = CHR ''5''"
  "char_of (54::nat) = CHR ''6''" "char_of (55::nat) = CHR ''7''" "char_of (56::nat) = CHR ''8''"
  "char_of (57::nat) = CHR ''9''"
  by (simp_all add: char_of_eq_iff)

lemma upper_char_idem [simp]: "upper_char (upper_char c) = upper_char c"
proof -
  have "of_char c < (256::nat)" by simp
  then show ?thesis by (auto simp: upper_char_def Let_def)
qed

lemma upper_idem [simp]: "upper (upper s) = upper s"
  by (simp add: upper_def)

lemma lower_char_idem [simp]: "lower_char (lower_char c) = lower_char c"
proof -
  have "of_char c < (256::nat)" by simp
  then show ?thesis by (auto simp: lower_char_def Let_def)
qed

lemma lower_idem [simp]: "lower (lower s) = lower s"
  by (simp add: lower_def)

lemma strip_ends:
  "strip s \<noteq> [] \<Longrightarrow> \<not> is_space (hd (strip s)) \<and> \<not> is_space (last (strip s))"
proof -
  assume ne: "strip s \<noteq> []"
  let ?t = "dropWhile is_space s"
  let ?u = "dropWhile is_space (rev ?t)"
  have u: "strip s = rev ?u" by (simp add: strip_def)
  from ne u have une: "?u \<noteq> []" by simp
  then have "\<not> is_space (hd ?u)" using hd_dropWhile by blast
  then have l: "\<not> is_space (last (strip s))" using une by (simp add: u last_rev)
  have tne: "?t \<noteq> []" using une by (cases ?t) auto
  then have ht: "\<not> is_space (hd ?t)" using hd_dropWhile by blast
  have "rev ?t = takeWhile is_space (rev ?t) @ ?u" by simp
  then have "?t = rev ?u @ rev (takeWhile is_space (rev ?t))"
    by (metis rev_append rev_rev_ident)
  then have "hd ?t = hd (rev ?u)" using une by (metis hd_append2 rev_is_Nil_conv)
  with ht l u show ?thesis by simp
qed

lemma split_on_nonempty [simp]: "split_on c s \<noteq> []"
  by (induction s) (auto split: list.splits)

lemma join_split [simp]: "join_with [c] (split_on c s) = s"
proof (induction s)
  case Nil
  then show ?case by simp
next
  case (Cons x xs)
  obtain w ws where w: "split_on c xs = w # ws" by (cases "split_on c xs") auto
  with Cons show ?case by (cases ws) auto
qed

lemma split_on_no_sep: "c \<notin> set s \<Longrightarrow> split_on c s = [s]"
  by (induction s) auto

lemma split_on_append: "c \<notin> set w \<Longrightarrow> split_on c (w @ c # s) = w # split_on c s"
  by (induction w) auto

lemma digits_of_nat_nonempty [simp]: "digits_of_nat n \<noteq> []"
  by (subst digits_of_nat.simps) simp

lemma digits_of_nat_digit: "c \<in> set (digits_of_nat n) \<Longrightarrow> is_digit_char c"
proof (induction n rule: digits_of_nat.induct)
  case (1 n)
  show ?case
  proof (cases "n < 10")
    case True
    with 1 show ?thesis
      by (subst (asm) digits_of_nat.simps) (simp add: is_digit_char_def Let_def)
  next
    case False
    have "n mod 10 < 10" by simp
    then have d: "is_digit_char (char_of (48 + n mod 10))"
      by (simp add: is_digit_char_def Let_def)
    from 1(2) False have "c \<in> set (digits_of_nat (n div 10) @ [char_of (48 + n mod 10)])"
      by (simp only: digits_of_nat.simps [of n] if_False)
    then have "c \<in> set (digits_of_nat (n div 10)) \<or> c = char_of (48 + n mod 10)"
      by (simp only: set_append set_simps Un_iff insert_iff empty_iff) blast
    with 1(1) False d show ?thesis by blast
  qed
qed

lemma nat_of_digits_of_nat [simp]: "nat_of_digits (digits_of_nat n) = n"
proof (induction n rule: digits_of_nat.induct)
  case (1 n)
  show ?case
  proof (cases "n < 10")
    case True
    then show ?thesis by (subst digits_of_nat.simps) (simp add: nat_of_digits_def)
  next
    case False
    have "n mod 10 < 10" by simp
    then have m: "of_char (char_of (48 + n mod 10) :: char) - 48 = n mod 10" by simp
    have "nat_of_digits (digits_of_nat n) = 10 * nat_of_digits (digits_of_nat (n div 10)) + n mod 10"
      using False m by (subst digits_of_nat.simps) (simp add: nat_of_digits_def)
    with 1 False show ?thesis by simp
  qed
qed

end
