(* ===== verification/Json.thy ===== *)
theory Json
  imports Prelude
begin

text \<open>
  The values of a parsed JSON document and what Python does with them: truth values, equality
  across number types, attribute access that raises on a value that is not a dictionary, and
  loops over the entries of a nested dictionary that change the entries in place. A document
  read from a file has no sharing, so a value stands for itself.

  A finite float is its exact rational value. The rendering of floats and containers by
  \<open>str\<close> is an argument where a definition needs it.
\<close>

section \<open>Values\<close>

datatype pyfloat = Fin rat | PosInf | NegInf | NaN

datatype json =
    JNull
  | JBool bool
  | JInt int
  | JFloat pyfloat
  | JStr string
  | JArr "json list"
  | JObj "(string \<times> json) list"

type_synonym doc = "(string, json) dict"

fun truthy :: "json \<Rightarrow> bool" where
  "truthy JNull = False"
| "truthy (JBool b) = b"
| "truthy (JInt i) = (i \<noteq> 0)"
| "truthy (JFloat f) = (f \<noteq> Fin 0)"
| "truthy (JStr s) = (s \<noteq> [])"
| "truthy (JArr xs) = (xs \<noteq> [])"
| "truthy (JObj d) = (d \<noteq> [])"

definition py_or :: "json \<Rightarrow> json \<Rightarrow> json" where
  "py_or a b = (if truthy a then a else b)"

datatype pytype = TNone | TBool | TInt | TFloat | TStr | TList | TDict

fun type_of :: "json \<Rightarrow> pytype" where
  "type_of JNull = TNone"
| "type_of (JBool b) = TBool"
| "type_of (JInt i) = TInt"
| "type_of (JFloat f) = TFloat"
| "type_of (JStr s) = TStr"
| "type_of (JArr xs) = TList"
| "type_of (JObj d) = TDict"

text \<open>
  Python's \<open>==\<close>: booleans, integers and floats compare by value, lists element by element,
  dictionaries as mappings. Two structurally equal values are equal, which for containers is
  the identity shortcut of the interpreter.
\<close>

fun number_of :: "json \<Rightarrow> pyfloat option" where
  "number_of (JBool b) = Some (Fin (if b then 1 else 0))"
| "number_of (JInt i) = Some (Fin (of_int i))"
| "number_of (JFloat f) = Some f"
| "number_of _ = None"

definition scalar_eq :: "json \<Rightarrow> json \<Rightarrow> bool" where
  "scalar_eq v w = (case (number_of v, number_of w) of
     (Some x, Some y) \<Rightarrow> x = y \<and> x \<noteq> NaN
   | (None, None) \<Rightarrow> v = w
   | _ \<Rightarrow> False)"

fun loose_eq :: "json \<Rightarrow> json \<Rightarrow> bool" where
  "loose_eq (JArr xs) w = (case w of JArr ys \<Rightarrow> list_all2 loose_eq xs ys | _ \<Rightarrow> False)"
| "loose_eq (JObj d) w = (case w of
     JObj e \<Rightarrow> length d = length e \<and>
       list_all (\<lambda>kv. case dget e (fst kv) of None \<Rightarrow> False | Some y \<Rightarrow> loose_eq (snd kv) y) d
   | _ \<Rightarrow> False)"
| "loose_eq v w = scalar_eq v w"

definition py_eq :: "json \<Rightarrow> json \<Rightarrow> bool" where
  "py_eq v w \<longleftrightarrow> v = w \<or> loose_eq v w"

lemma py_eq_refl [simp]: "py_eq v v"
  by (simp add: py_eq_def)

section \<open>Access that may raise\<close>

definition obj_of :: "json \<Rightarrow> doc result" where
  "obj_of v = (case v of JObj d \<Rightarrow> Inr d | _ \<Rightarrow> Inl AttributeError)"

lemma obj_of_simps [simp]: "obj_of (JObj d) = Inr d"
  by (simp add: obj_of_def)

lemma obj_of_Inr_iff: "obj_of v = Inr d \<longleftrightarrow> v = JObj d"
  by (cases v) (auto simp: obj_of_def)

text \<open>\<open>d.get(k)\<close> with the missing key and the stored null both \<open>None\<close>.\<close>

definition getn :: "doc \<Rightarrow> string \<Rightarrow> json" where
  "getn d k = (case dget d k of None \<Rightarrow> JNull | Some v \<Rightarrow> v)"

lemma getn_dput [simp]: "getn (dput k v d) k' = (if k' = k then v else getn d k')"
  by (simp add: getn_def)

lemma getn_setdefault [simp]:
  "getn (setdefault k v d) k' = (if k' = k \<and> dget d k = None then v else getn d k')"
  by (simp add: getn_def)

text \<open>
  \<open>(d.get(key) or {}).get(sub)\<close>: a missing, null or empty member reads as an empty
  dictionary, another value of a different type has no \<open>get\<close>.
\<close>

definition sub_obj :: "doc \<Rightarrow> string \<Rightarrow> doc result" where
  "sub_obj d key = (let v = getn d key in if truthy v then obj_of v else Inr [])"

text \<open>
  \<open>for k, v in (d.get(key) or {}).items()\<close> where the body changes \<open>v\<close> in place.
\<close>

definition each_item :: "(string \<Rightarrow> json \<Rightarrow> json result) \<Rightarrow> doc \<Rightarrow> doc result" where
  "each_item f d = rmap (\<lambda>(k, v). rbind (f k v) (\<lambda>w. Inr (k, w))) d"

definition over_items :: "(string \<Rightarrow> json \<Rightarrow> json result) \<Rightarrow> string \<Rightarrow> doc \<Rightarrow> doc result" where
  "over_items f key d = (let v = getn d key in
     if truthy v
     then rbind (obj_of v) (\<lambda>inner. rbind (each_item f inner) (\<lambda>inner'. Inr (dput key (JObj inner') d)))
     else Inr d)"

lemma each_item_keys: "each_item f d = Inr e \<Longrightarrow> dkeys e = dkeys d"
  by (induction d arbitrary: e) (auto simp: each_item_def rbind_Inr_iff)

lemma over_items_other:
  "over_items f key d = Inr e \<Longrightarrow> k \<noteq> key \<Longrightarrow> dget e k = dget d k"
  by (auto simp: over_items_def Let_def rbind_Inr_iff split: if_splits)

lemma over_items_type:
  "over_items f key d = Inr e \<Longrightarrow> truthy (getn d key) \<Longrightarrow> \<exists>o'. dget e key = Some (JObj o')"
  by (auto simp: over_items_def Let_def rbind_Inr_iff)

lemma over_items_falsy: "\<not> truthy (getn d key) \<Longrightarrow> over_items f key d = Inr d"
  by (simp add: over_items_def)

lemma over_items_present:
  "over_items f key d = Inr e \<Longrightarrow> dget d k \<noteq> None \<Longrightarrow> dget e k \<noteq> None"
  by (auto simp: over_items_def Let_def rbind_Inr_iff split: if_splits)

definition str_json :: "(json \<Rightarrow> string) \<Rightarrow> json \<Rightarrow> string" where
  "str_json rendering v = (case v of
     JNull \<Rightarrow> ''None'' | JBool b \<Rightarrow> (if b then ''True'' else ''False'')
   | JInt i \<Rightarrow> str_of_int i | JStr s \<Rightarrow> s | _ \<Rightarrow> rendering v)"

lemma str_json_str [simp]: "str_json r (JStr s) = s"
  by (simp add: str_json_def)

text \<open>\<open>for x in value or []\<close>\<close>

definition items_of :: "json \<Rightarrow> json list result" where
  "items_of v = (if \<not> truthy v then Inr []
     else (case v of JArr xs \<Rightarrow> Inr xs | JObj d \<Rightarrow> Inr (map (JStr \<circ> fst) d) | JStr s \<Rightarrow> Inr (map (\<lambda>c. JStr [c]) s) | _ \<Rightarrow> Inl TypeError))"

text \<open>The entries of a dictionary under the keys another one has: \<open>{**base, **{k: d[k] for k in base if k in d}}\<close>.\<close>

definition overlay :: "doc \<Rightarrow> doc \<Rightarrow> doc" where
  "overlay d base = map (\<lambda>(k, v). (k, case dget d k of None \<Rightarrow> v | Some w \<Rightarrow> w)) base"

text \<open>Python rounds halves to the even neighbour.\<close>

definition py_round :: "rat \<Rightarrow> int" where
  "py_round x = (let f = \<lfloor>x\<rfloor>; r = x - of_int f in
     if r < 1 / 2 then f else if 1 / 2 < r then f + 1 else if even f then f else f + 1)"

end
