(* ===== verification/Store.thy ===== *)
theory Store
  imports Json
begin

text \<open>
  The document store (\<open>backend/store.py\<close>): the default document, its validation, the chain
  of schema migrations, the compaction of superseded discovery jobs, the bounded SSH host key
  table, and the file protocol behind \<open>load\<close>, \<open>save\<close> and \<open>update\<close>.
\<close>

section \<open>The document and its validation\<close>

definition schema_version :: nat where
  "schema_version = 8"

definition default_doc :: doc where
  "default_doc =
    [(''schemaVersion'', JInt 8),
     (''users'', JObj []), (''sessions'', JObj []), (''devices'', JObj []),
     (''dashboards'', JObj []), (''credentials'', JObj []), (''push_subs'', JObj []),
     (''meta'', JObj []), (''sshHostKeys'', JObj []), (''clientRosters'', JObj []),
     (''vpnEndpointHistory'', JObj []), (''computeInstances'', JObj []),
     (''ansibleControllers'', JObj []), (''computeJobs'', JObj []),
     (''morningUpdateRuns'', JObj []), (''notifications'', JObj [])]"

definition quoted :: "string \<Rightarrow> string" where
  "quoted k = [CHR 0x27] @ k @ [CHR 0x27]"

definition required_msg :: "string \<Rightarrow> failure" where
  "required_msg k = StoreError (''store field '' @ quoted k @ '' is required'')"

definition type_msg :: "string \<Rightarrow> failure" where
  "type_msg k = StoreError (''store field '' @ quoted k @ '' has an invalid type'')"

fun validate_fields :: "bool \<Rightarrow> doc \<Rightarrow> doc \<Rightarrow> doc result" where
  "validate_fields fill [] d = Inr d"
| "validate_fields fill ((k, dv) # ks) d =
     (if getn d k = JNull
      then if fill then validate_fields fill ks (dput k dv d) else Inl (required_msg k)
      else if type_of (getn d k) \<noteq> type_of dv then Inl (type_msg k)
      else validate_fields fill ks d)"

definition validate_doc :: "bool \<Rightarrow> doc \<Rightarrow> doc result" where
  "validate_doc fill d = validate_fields fill default_doc d"

section \<open>Compaction of superseded discovery jobs\<close>

type_synonym ts_key = "nat \<times> (int \<times> rat) \<times> string"

fun float_rank :: "pyfloat \<Rightarrow> int \<times> rat" where
  "float_rank (Fin r) = (0, r)"
| "float_rank PosInf = (1, 0)"
| "float_rank NegInf = (-1, 0)"
| "float_rank NaN = (-1, 0)"

fun history_timestamp_key :: "json \<Rightarrow> ts_key" where
  "history_timestamp_key (JInt i) = (2, float_rank (Fin (of_int i)), [])"
| "history_timestamp_key (JFloat f) = (2, float_rank f, [])"
| "history_timestamp_key (JStr s) = (1, (0, 0), s)"
| "history_timestamp_key _ = (0, (0, 0), [])"

type_synonym job_order = "ts_key \<times> ts_key \<times> string \<times> string"

definition job_order :: "(json \<Rightarrow> string) \<Rightarrow> string \<Rightarrow> doc \<Rightarrow> job_order" where
  "job_order rendering record_key job =
     (history_timestamp_key (getn job ''finishedAt''),
      history_timestamp_key (getn job ''createdAt''),
      (if getn job ''id'' \<noteq> JNull then str_json rendering (getn job ''id'') else record_key),
      record_key)"

text \<open>The instance whose discovery history a job belongs to, if it qualifies.\<close>

definition discovery_instance :: "json \<Rightarrow> string option" where
  "discovery_instance j = (case j of
     JObj job \<Rightarrow>
       (if getn job ''operation'' = JStr ''docker_discovery'' \<and> getn job ''state'' = JStr ''successful''
        then case getn job ''computeInstanceId'' of
               JStr i \<Rightarrow> (if i \<noteq> [] then Some i else None)
             | _ \<Rightarrow> None
        else None)
   | _ \<Rightarrow> None)"

definition job_of :: "json \<Rightarrow> doc" where
  "job_of j = (case j of JObj d \<Rightarrow> d | _ \<Rightarrow> [])"

fun newest_by_instance ::
  "(json \<Rightarrow> string) \<Rightarrow> doc \<Rightarrow> (string, job_order \<times> string) dict \<Rightarrow> (string, job_order \<times> string) dict" where
  "newest_by_instance rendering [] acc = acc"
| "newest_by_instance rendering ((record_key, j) # jobs) acc =
     newest_by_instance rendering jobs
       (case discovery_instance j of
          None \<Rightarrow> acc
        | Some i \<Rightarrow>
            (let ord = job_order rendering record_key (job_of j) in
             case dget acc i of
               None \<Rightarrow> dput i (ord, record_key) acc
             | Some cur \<Rightarrow> if fst cur < ord then dput i (ord, record_key) acc else acc))"

definition compact_values :: doc where
  "compact_values = [(''stdout'', JStr []), (''stderr'', JStr []),
     (''structuredResult'', JNull), (''detailsRetained'', JBool False)]"

definition needs_compaction :: "doc \<Rightarrow> bool" where
  "needs_compaction job = list_ex (\<lambda>(f, v). \<not> py_eq (getn job f) v) compact_values"

definition compact_job :: "doc \<Rightarrow> doc" where
  "compact_job job = fold (\<lambda>(f, v) j. dput f v j) compact_values job"

definition superseded :: "(string, job_order \<times> string) dict \<Rightarrow> string \<Rightarrow> json \<Rightarrow> bool" where
  "superseded newest record_key j = (case discovery_instance j of
     None \<Rightarrow> False
   | Some i \<Rightarrow> (case dget newest i of None \<Rightarrow> False | Some cur \<Rightarrow> snd cur \<noteq> record_key))"

definition compact_entry :: "(string, job_order \<times> string) dict \<Rightarrow> string \<Rightarrow> json \<Rightarrow> json" where
  "compact_entry newest record_key j =
     (if superseded newest record_key j \<and> needs_compaction (job_of j)
      then JObj (compact_job (job_of j)) else j)"

definition compact_compute_discovery_history :: "(json \<Rightarrow> string) \<Rightarrow> doc \<Rightarrow> doc \<times> nat" where
  "compact_compute_discovery_history rendering d = (case dget d ''computeJobs'' of
     Some (JObj jobs) \<Rightarrow>
       (let newest = newest_by_instance rendering jobs [] in
        (dput ''computeJobs'' (JObj (dmapk (compact_entry newest) jobs)) d,
         length (filter (\<lambda>(k, j). superseded newest k j \<and> needs_compaction (job_of j)) jobs)))
   | _ \<Rightarrow> (d, 0))"

section \<open>Migrations\<close>

definition set_version :: "nat \<Rightarrow> doc \<Rightarrow> doc" where
  "set_version n d = dput ''schemaVersion'' (JInt (int n)) d"

definition setdefaults :: "doc \<Rightarrow> doc \<Rightarrow> doc" where
  "setdefaults defaults d = fold (\<lambda>(k, v) e. setdefault k v e) defaults d"

definition migrate_v0_to_v1 :: "doc \<Rightarrow> doc result" where
  "migrate_v0_to_v1 d =
     Inr (set_version 1 (setdefaults (filter (\<lambda>(k, v). k \<noteq> ''schemaVersion'') default_doc) d))"

definition migrate_v1_to_v2 :: "doc \<Rightarrow> doc result" where
  "migrate_v1_to_v2 d = Inr (set_version 2 (setdefault ''vpnEndpointHistory'' (JObj []) d))"

definition migrate_v2_to_v3 :: "doc \<Rightarrow> doc result" where
  "migrate_v2_to_v3 d = Inr (set_version 3 (setdefaults
     [(''computeInstances'', JObj []), (''ansibleControllers'', JObj []), (''computeJobs'', JObj [])] d))"

text \<open>Version 4: approvals of the controllers, Docker projects of the instances, job modes.\<close>

definition operation_labels :: "(string, string) dict" where
  "operation_labels =
    [(''os_check'', ''OS update check''), (''os_update'', ''OS update''),
     (''docker_discovery'', ''Docker discovery''), (''docker_check'', ''Docker update check''),
     (''docker_update'', ''Docker update''),
     (''docker_update_pull'', ''Docker update '' @ [CHR 0xB7] @ '' pull and recreate''),
     (''docker_update_local_build'', ''Docker update '' @ [CHR 0xB7] @ '' local build and recreate'')]"

definition default_maintenance :: doc where
  "default_maintenance =
    [(''osCheckOperation'', JStr ''os_check''), (''osUpdateOperation'', JStr ''os_update''),
     (''dockerDiscoveryEnabled'', JBool True),
     (''dockerDiscoveryOperation'', JStr ''docker_discovery''),
     (''dockerCheckOperation'', JStr ''docker_check''),
     (''dockerUpdateOperation'', JStr ''docker_update'')]"

definition migrate_approval :: "string \<Rightarrow> json \<Rightarrow> json result" where
  "migrate_approval operation approval = (case approval of
     JObj a \<Rightarrow>
       (let a' = setdefaults
              [(''label'', JStr (dget_or operation_labels operation operation)),
               (''operationType'', JStr operation), (''checkModeSupported'', JBool False),
               (''allowedTargets'', JArr []), (''allowedGroups'', JArr []),
               (''allowedExtraVariables'', JArr [])] a in
        Inr (JObj (if operation = ''docker_update_pull''
                   then setdefault ''supportedModes'' (JArr [JStr ''pull'']) a'
                   else if operation = ''docker_update_local_build''
                   then setdefault ''supportedModes'' (JArr [JStr ''build'']) a'
                   else a')))
   | v \<Rightarrow> Inr v)"

definition migrate_controller :: "string \<Rightarrow> json \<Rightarrow> json result" where
  "migrate_controller cid c =
     rbind (obj_of c) (\<lambda>d. rbind (over_items migrate_approval ''playbooks'' d) (\<lambda>d'. Inr (JObj d')))"

text \<open>An unhashable mode (a list or a dictionary) raises in the lookup of the old mode.\<close>

definition canonical_mode :: "json \<Rightarrow> string result" where
  "canonical_mode old = (case old of
     JArr _ \<Rightarrow> Inl TypeError
   | JObj _ \<Rightarrow> Inl TypeError
   | JStr s \<Rightarrow>
       (let m = (if s = ''local_build'' then ''build'' else if s = ''unmanaged'' then ''read_only'' else s)
        in Inr (if m \<in> set [''pull'', ''build'', ''read_only''] then m else ''read_only''))
   | _ \<Rightarrow> Inr ''read_only'')"

definition migrate_project :: "json \<Rightarrow> json result" where
  "migrate_project p = rbind (obj_of p) (\<lambda>d.
     rbind (canonical_mode (dget_or d ''updateMode'' (dget_or d ''updateStrategy'' (JStr ''unmanaged''))))
       (\<lambda>mode. let configured = truthy (getn d ''strategyConfigured'');
            d1 = dput ''updateMode'' (JStr mode) d;
            d2 = setdefault ''managed'' (JBool (configured \<and> mode \<noteq> ''read_only'')) d1;
            d3 = setdefault ''managementConfigured'' (JBool configured) d2
        in Inr (JObj (if dget d3 ''configFiles'' = None
                      then dput ''configFiles'' (JArr (if truthy (getn d3 ''path'') then [getn d3 ''path''] else [])) d3
                      else d3))))"

definition migrate_projects :: "doc \<Rightarrow> doc result" where
  "migrate_projects docker = (let ps = getn docker ''projects'' in
     if \<not> truthy ps then Inr docker
     else case ps of
       JArr xs \<Rightarrow> rbind (rmap migrate_project xs) (\<lambda>ys. Inr (dput ''projects'' (JArr ys) docker))
     | JObj _ \<Rightarrow> Inl AttributeError
     | JStr _ \<Rightarrow> Inl AttributeError
     | _ \<Rightarrow> Inl TypeError)"

definition migrate_instance_v4 :: "string \<Rightarrow> json \<Rightarrow> json result" where
  "migrate_instance_v4 iid inst = rbind (obj_of inst) (\<lambda>d.
     rbind (sub_obj d ''ansible'') (\<lambda>mapping.
     let d1 = (if getn mapping ''enabled'' = JBool True
               then dput ''ansible'' (JObj (setdefault ''maintenance'' (JObj default_maintenance) mapping)) d
               else d)
     in rbind (sub_obj d1 ''docker'') (\<lambda>docker.
        rbind (migrate_projects docker) (\<lambda>docker'.
          Inr (JObj (if truthy (getn d1 ''docker'') then dput ''docker'' (JObj docker') d1 else d1))))))"

definition migrate_job_mode :: "string \<Rightarrow> json \<Rightarrow> json result" where
  "migrate_job_mode jid j = rbind (obj_of j) (\<lambda>d. Inr (JObj (setdefault ''mode'' JNull d)))"

definition migrate_v3_to_v4 :: "doc \<Rightarrow> doc result" where
  "migrate_v3_to_v4 d =
     rbind (over_items migrate_controller ''ansibleControllers'' d) (\<lambda>d1.
     rbind (over_items migrate_instance_v4 ''computeInstances'' d1) (\<lambda>d2.
     rbind (over_items migrate_job_mode ''computeJobs'' d2) (\<lambda>d3.
       Inr (set_version 4 d3))))"

text \<open>Version 5: the morning check, its per-user preferences and the device flag.\<close>

definition default_morning_check :: doc where
  "default_morning_check =
    [(''enabled'', JBool True), (''runTime'', JStr ''07:00''), (''timezone'', JStr ''Europe/London''),
     (''runAnsibleChecks'', JBool True), (''runDeviceNativeChecks'', JBool True),
     (''deviceTimeoutSeconds'', JInt 30)]"

definition default_user_preferences :: doc where
  "default_user_preferences =
    [(''notifyUpdates'', JBool True), (''notifyFailures'', JBool True), (''notifySuccess'', JBool True)]"

definition with_member :: "string \<Rightarrow> json \<Rightarrow> string \<Rightarrow> json \<Rightarrow> json result" where
  "with_member member v key x = rbind (obj_of x) (\<lambda>d. Inr (JObj (setdefault member v d)))"

definition migrate_v4_to_v5 :: "doc \<Rightarrow> doc result" where
  "migrate_v4_to_v5 d =
     (let d1 = setdefault ''meta'' (JObj []) (setdefault ''morningUpdateRuns'' (JObj []) d) in
      rbind (obj_of (getn d1 ''meta'')) (\<lambda>meta.
      let d2 = dput ''meta'' (JObj (setdefault ''morningUpdateCheck'' (JObj default_morning_check) meta)) d1 in
      rbind (over_items (with_member ''morningUpdateNotifications'' (JObj default_user_preferences)) ''users'' d2) (\<lambda>d3.
      rbind (over_items (with_member ''includeInScheduledUpdateChecks'' (JBool True)) ''devices'' d3) (\<lambda>d4.
        Inr (set_version 5 d4)))))"

definition migrate_v5_to_v6 :: "doc \<Rightarrow> doc result" where
  "migrate_v5_to_v6 d = Inr (set_version 6 (setdefault ''notifications'' (JObj []) d))"

definition migrate_instance_v7 :: "string \<Rightarrow> json \<Rightarrow> json result" where
  "migrate_instance_v7 iid inst = rbind (obj_of inst) (\<lambda>d.
     rbind (sub_obj d ''ansible'') (\<lambda>mapping.
       Inr (JObj (case dget mapping ''maintenance'' of
         Some (JObj m) \<Rightarrow>
           (if getn mapping ''enabled'' = JBool True
            then dput ''ansible'' (JObj (dput ''maintenance''
                   (JObj (setdefault ''applianceHealthOperation'' (JStr ''appliance_health'') m)) mapping)) d
            else d)
       | _ \<Rightarrow> d))))"

definition migrate_v6_to_v7 :: "doc \<Rightarrow> doc result" where
  "migrate_v6_to_v7 d =
     rbind (over_items migrate_instance_v7 ''computeInstances'' d) (\<lambda>d1. Inr (set_version 7 d1))"

definition migrate_v7_to_v8 :: "(json \<Rightarrow> string) \<Rightarrow> doc \<Rightarrow> doc result" where
  "migrate_v7_to_v8 rendering d =
     Inr (set_version 8 (fst (compact_compute_discovery_history rendering d)))"

definition migration :: "(json \<Rightarrow> string) \<Rightarrow> nat \<Rightarrow> doc \<Rightarrow> doc result" where
  "migration rendering n =
     (if n = 0 then migrate_v0_to_v1 else if n = 1 then migrate_v1_to_v2
      else if n = 2 then migrate_v2_to_v3 else if n = 3 then migrate_v3_to_v4
      else if n = 4 then migrate_v4_to_v5 else if n = 5 then migrate_v5_to_v6
      else if n = 6 then migrate_v6_to_v7 else if n = 7 then migrate_v7_to_v8 rendering
      else (\<lambda>d. Inl (StoreError (''no migration from store schema version '' @ str_of_int (int n)))))"

function migrate_from :: "(json \<Rightarrow> string) \<Rightarrow> nat \<Rightarrow> doc \<Rightarrow> doc result" where
  "migrate_from rendering version d =
     (if version < schema_version
      then rbind (migration rendering version d) (\<lambda>d'. migrate_from rendering (Suc version) d')
      else Inr d)"
  by pat_completeness auto
termination
  by (relation "measure (\<lambda>(r, v, d). schema_version - v)") auto

declare migrate_from.simps [simp del]

definition migrate_doc :: "(json \<Rightarrow> string) \<Rightarrow> json \<Rightarrow> (doc \<times> bool) result" where
  "migrate_doc rendering j = (case j of
     JObj d \<Rightarrow>
       (case dget_or d ''schemaVersion'' (JInt 0) of
          JInt v \<Rightarrow>
            (if v < 0 then Inl (StoreError ''store schema version is invalid'')
             else if int schema_version < v
             then Inl (StoreError (''store schema version '' @ str_of_int v
                        @ '' is newer than this HomelabHQ version''))
             else rbind (migrate_from rendering (nat v) d) (\<lambda>d'.
                  rbind (validate_doc True d') (\<lambda>d''.
                    Inr (d'', nat v < schema_version \<or> \<not> py_eq (JObj d'') (JObj d')))))
        | _ \<Rightarrow> Inl (StoreError ''store schema version is invalid''))
   | _ \<Rightarrow> Inl (StoreError ''store document must be a JSON object''))"


section \<open>What validation establishes\<close>

definition field_ok :: "doc \<Rightarrow> string \<times> json \<Rightarrow> bool" where
  "field_ok d f \<longleftrightarrow> getn d (fst f) \<noteq> JNull \<and> type_of (getn d (fst f)) = type_of (snd f)"

definition doc_valid :: "doc \<Rightarrow> bool" where
  "doc_valid d \<longleftrightarrow> list_all (field_ok d) default_doc"

lemma validate_fields_other:
  "validate_fields fill fs d = Inr e \<Longrightarrow> k \<notin> set (dkeys fs) \<Longrightarrow> dget e k = dget d k"
  by (induction fill fs d rule: validate_fields.induct) (auto split: if_splits)

lemma validate_fields_keeps:
  "validate_fields fill fs d = Inr e \<Longrightarrow> getn d k \<noteq> JNull \<Longrightarrow> dget e k = dget d k"
proof (induction fill fs d rule: validate_fields.induct)
  case (1 fill d)
  then show ?case by simp
next
  case (2 fill ka dv ks d)
  show ?case
  proof (cases "getn d ka = JNull")
    case True
    with 2(4) have "k \<noteq> ka" by auto
    with 2 True show ?thesis by (auto split: if_splits)
  next
    case False
    with 2 show ?thesis by (auto split: if_splits)
  qed
qed

lemma validate_fields_ok:
  "validate_fields fill fs d = Inr e \<Longrightarrow> dict_ok fs \<Longrightarrow> \<forall>f \<in> set fs. snd f \<noteq> JNull \<Longrightarrow>
   f \<in> set fs \<Longrightarrow> field_ok e f"
proof (induction fill fs d rule: validate_fields.induct)
  case (1 fill d)
  then show ?case by simp
next
  case (2 fill k dv ks d)
  show ?case
  proof (cases "f = (k, dv)")
    case False
    with 2 show ?thesis by (auto split: if_splits)
  next
    case True
    from 2 have k: "k \<notin> set (dkeys ks)" by simp
    show ?thesis
    proof (cases "getn d k = JNull")
      case nul: True
      with 2(3) have "fill" and "validate_fields fill ks (dput k dv d) = Inr e"
        by (auto split: if_splits)
      then have "dget e k = Some dv" using validate_fields_other [OF _ k] by fastforce
      with 2(5) True show ?thesis by (simp add: field_ok_def getn_def)
    next
      case False
      with 2(3) have t: "type_of (getn d k) = type_of dv" and "validate_fields fill ks d = Inr e"
        by (auto split: if_splits)
      then have "dget e k = dget d k" using validate_fields_other [OF _ k] by fastforce
      with t False True show ?thesis by (simp add: field_ok_def getn_def)
    qed
  qed
qed

lemma validate_fields_id:
  "list_all (field_ok d) fs \<Longrightarrow> validate_fields fill fs d = Inr d"
  by (induction fs) (auto simp: field_ok_def)

lemma default_doc_ok: "dict_ok default_doc" "\<forall>f \<in> set default_doc. snd f \<noteq> JNull"
  by (simp_all add: default_doc_def)

lemma validate_doc_valid: "validate_doc fill d = Inr e \<Longrightarrow> doc_valid e"
  using validate_fields_ok [OF _ default_doc_ok]
  by (auto simp: validate_doc_def doc_valid_def list_all_iff)

lemma validate_doc_id: "doc_valid d \<Longrightarrow> validate_doc fill d = Inr d"
  by (simp add: validate_doc_def doc_valid_def validate_fields_id)

lemma validate_doc_keeps: "validate_doc fill d = Inr e \<Longrightarrow> getn d k \<noteq> JNull \<Longrightarrow> dget e k = dget d k"
  unfolding validate_doc_def by (rule validate_fields_keeps)

lemma validate_doc_refuses_missing:
  "getn d ''users'' = JNull \<Longrightarrow> getn d ''schemaVersion'' = JInt v \<Longrightarrow>
   validate_doc False d = Inl (required_msg ''users'')"
  by (simp add: validate_doc_def default_doc_def)

section \<open>What the migrations establish\<close>

lemma set_version_get [simp]:
  "dget (set_version n d) k = (if k = ''schemaVersion'' then Some (JInt (int n)) else dget d k)"
  by (simp add: set_version_def)

lemma setdefaults_keeps: "dget d k \<noteq> None \<Longrightarrow> dget (setdefaults fs d) k = dget d k"
  by (induction fs arbitrary: d) (auto simp: setdefaults_def)

lemma setdefaults_other: "k \<notin> set (dkeys fs) \<Longrightarrow> dget (setdefaults fs d) k = dget d k"
  by (induction fs arbitrary: d) (auto simp: setdefaults_def)

lemmas migration_defs = migrate_v0_to_v1_def migrate_v1_to_v2_def migrate_v2_to_v3_def
  migrate_v3_to_v4_def migrate_v4_to_v5_def migrate_v5_to_v6_def migrate_v6_to_v7_def
  migrate_v7_to_v8_def

lemma migration_version:
  "migration r n d = Inr e \<Longrightarrow> dget e ''schemaVersion'' = Some (JInt (int (Suc n)))"
  by (auto simp: migration_def migration_defs rbind_Inr_iff Let_def split: if_splits)

lemma migrate_from_version:
  "migrate_from r v d = Inr e \<Longrightarrow> v \<le> schema_version \<Longrightarrow>
   dget d ''schemaVersion'' = Some (JInt (int v)) \<or> v < schema_version \<Longrightarrow>
   dget e ''schemaVersion'' = Some (JInt (int schema_version))"
proof (induction r v d rule: migrate_from.induct)
  case (1 r v d)
  show ?case
  proof (cases "v < schema_version")
    case False
    with 1 show ?thesis by (subst (asm) migrate_from.simps) (auto simp: le_less)
  next
    case True
    with 1(2) obtain d' where d': "migration r v d = Inr d'" "migrate_from r (Suc v) d' = Inr e"
      by (subst (asm) migrate_from.simps) (auto simp: rbind_Inr_iff)
    from d' True show ?thesis
      by (intro 1(1) [OF True d'(1)]) (auto dest: migration_version)
  qed
qed

text \<open>Collections no migration writes: a migrated document keeps them as they were.\<close>

definition untouched :: "string list" where
  "untouched = [''sessions'', ''dashboards'', ''credentials'', ''push_subs'', ''sshHostKeys'',
     ''clientRosters'']"

lemma compact_other:
  "k \<noteq> ''computeJobs'' \<Longrightarrow> dget (fst (compact_compute_discovery_history r d)) k = dget d k"
  by (auto simp: compact_compute_discovery_history_def Let_def split: option.splits json.splits)

lemma migration_untouched:
  "migration r n d = Inr e \<Longrightarrow> k \<in> set untouched \<Longrightarrow> dget d k \<noteq> None \<Longrightarrow> dget e k = dget d k"
  by (auto simp: migration_def migration_defs rbind_Inr_iff Let_def untouched_def compact_other
        setdefaults_keeps setdefaults_other over_items_other split: if_splits)

lemma migrate_from_untouched:
  "migrate_from r v d = Inr e \<Longrightarrow> k \<in> set untouched \<Longrightarrow> dget d k \<noteq> None \<Longrightarrow> dget e k = dget d k"
proof (induction r v d rule: migrate_from.induct)
  case (1 r v d)
  show ?case
  proof (cases "v < schema_version")
    case False
    with 1 show ?thesis by (subst (asm) migrate_from.simps) simp
  next
    case True
    with 1(2) obtain d' where d': "migration r v d = Inr d'" "migrate_from r (Suc v) d' = Inr e"
      by (subst (asm) migrate_from.simps) (auto simp: rbind_Inr_iff)
    then have "dget d' k = dget d k" by (rule_tac migration_untouched [OF d'(1) 1(3) 1(4)])
    with 1(1) [OF True d'(1) d'(2) 1(3)] 1(4) show ?thesis by simp
  qed
qed


lemma migrate_doc_cases:
  assumes "migrate_doc r j = Inr (e, changed)"
  obtains d v d' where "j = JObj d" "dget_or d ''schemaVersion'' (JInt 0) = JInt (int v)"
    "v \<le> schema_version" "migrate_from r v d = Inr d'" "validate_doc True d' = Inr e"
    "changed \<longleftrightarrow> v < schema_version \<or> \<not> py_eq (JObj e) (JObj d')"
proof -
  from assms obtain d v where d: "j = JObj d" and v: "dget_or d ''schemaVersion'' (JInt 0) = JInt v"
    and "\<not> v < 0" "\<not> int schema_version < v"
    by (auto simp: migrate_doc_def split: json.splits if_splits)
  moreover from this assms obtain d' where "migrate_from r (nat v) d = Inr d'"
    "validate_doc True d' = Inr e"
    "changed \<longleftrightarrow> nat v < schema_version \<or> \<not> py_eq (JObj e) (JObj d')"
    by (auto simp: migrate_doc_def rbind_Inr_iff)
  ultimately show thesis by (intro that [of d "nat v" d']) auto
qed

lemma migrate_doc_version:
  assumes "migrate_doc r j = Inr (e, changed)"
  shows "dget e ''schemaVersion'' = Some (JInt (int schema_version))" and "doc_valid e"
proof -
  from assms obtain d v d' where d: "j = JObj d"
    "dget_or d ''schemaVersion'' (JInt 0) = JInt (int v)" "v \<le> schema_version"
    "migrate_from r v d = Inr d'" "validate_doc True d' = Inr e"
    by (rule migrate_doc_cases)
  have "dget d ''schemaVersion'' = Some (JInt (int v)) \<or> v < schema_version"
    using d(2) by (auto simp: dget_or_def schema_version_def split: option.splits)
  with d have v8: "dget d' ''schemaVersion'' = Some (JInt (int schema_version))"
    by (intro migrate_from_version [of r v d])
  with d(5) show "dget e ''schemaVersion'' = Some (JInt (int schema_version))"
    using validate_doc_keeps [of True d' e "''schemaVersion''"] by (simp add: getn_def)
  from d(5) show "doc_valid e" by (rule validate_doc_valid)
qed

lemma migrate_doc_fixed:
  assumes "dget e ''schemaVersion'' = Some (JInt (int schema_version))" and "doc_valid e"
  shows "migrate_doc r (JObj e) = Inr (e, False)"
  using assms by (simp add: migrate_doc_def dget_or_def schema_version_def validate_doc_id
      migrate_from.simps)

lemma migrate_doc_untouched:
  assumes "migrate_doc r (JObj d) = Inr (e, changed)" and "k \<in> set untouched"
    and "getn d k \<noteq> JNull"
  shows "dget e k = dget d k"
proof -
  from assms(1) obtain v d' where "migrate_from r v d = Inr d'" "validate_doc True d' = Inr e"
    by (rule migrate_doc_cases) auto
  moreover from assms(3) have "dget d k \<noteq> None" by (cases "dget d k") (simp_all add: getn_def)
  ultimately show ?thesis
    using migrate_from_untouched [of r v d d' k] validate_doc_keeps [of True d' e k] assms(2,3)
    by (simp add: getn_def)
qed

section \<open>What compaction establishes\<close>

definition qualifies :: "doc \<Rightarrow> string \<Rightarrow> string \<Rightarrow> json \<Rightarrow> bool" where
  "qualifies jobs i k j \<longleftrightarrow> (k, j) \<in> set jobs \<and> discovery_instance j = Some i"

definition newest_ok :: "(json \<Rightarrow> string) \<Rightarrow> doc \<Rightarrow> (string, job_order \<times> string) dict \<Rightarrow> bool" where
  "newest_ok r jobs acc \<longleftrightarrow> (\<forall>i. case dget acc i of
     None \<Rightarrow> (\<forall>k j. \<not> qualifies jobs i k j)
   | Some c \<Rightarrow> (\<exists>j. qualifies jobs i (snd c) j \<and> fst c = job_order r (snd c) (job_of j)) \<and>
       (\<forall>k j. qualifies jobs i k j \<longrightarrow> job_order r k (job_of j) \<le> fst c))"

lemma newest_ok_step:
  assumes "newest_ok r prev acc"
  shows "newest_ok r (prev @ [(k, j)])
    (case discovery_instance j of None \<Rightarrow> acc
     | Some i \<Rightarrow> (let ord = job_order r k (job_of j) in
         case dget acc i of None \<Rightarrow> dput i (ord, k) acc
         | Some cur \<Rightarrow> if fst cur < ord then dput i (ord, k) acc else acc))"
proof (cases "discovery_instance j")
  case None
  with assms show ?thesis by (fastforce simp: newest_ok_def qualifies_def split: option.splits)
next
  case (Some i)
  show ?thesis unfolding newest_ok_def
  proof
    fix i'
    from assms have A: "case dget acc i' of
        None \<Rightarrow> (\<forall>k j. \<not> qualifies prev i' k j)
      | Some c \<Rightarrow> (\<exists>j. qualifies prev i' (snd c) j \<and> fst c = job_order r (snd c) (job_of j)) \<and>
          (\<forall>k j. qualifies prev i' k j \<longrightarrow> job_order r k (job_of j) \<le> fst c)"
      by (simp add: newest_ok_def)
    show "case dget (case discovery_instance j of None \<Rightarrow> acc
         | Some i \<Rightarrow> (let ord = job_order r k (job_of j) in
             case dget acc i of None \<Rightarrow> dput i (ord, k) acc
             | Some cur \<Rightarrow> if fst cur < ord then dput i (ord, k) acc else acc)) i' of
        None \<Rightarrow> (\<forall>k' j'. \<not> qualifies (prev @ [(k, j)]) i' k' j')
      | Some c \<Rightarrow> (\<exists>j'. qualifies (prev @ [(k, j)]) i' (snd c) j' \<and> fst c = job_order r (snd c) (job_of j')) \<and>
          (\<forall>k' j'. qualifies (prev @ [(k, j)]) i' k' j' \<longrightarrow> job_order r k' (job_of j') \<le> fst c)"
    proof (cases "i' = i")
      case False
      with A Some show ?thesis
        by (auto simp: qualifies_def Let_def split: option.splits)
    next
      case True
      show ?thesis
      proof (cases "dget acc i")
        case None
        with A Some True show ?thesis by (auto simp: qualifies_def Let_def)
      next
        case (Some c)
        let ?ord = "job_order r k (job_of j)"
        have q: "qualifies (prev @ [(k, j)]) i k' j' \<longleftrightarrow> qualifies prev i k' j' \<or> (k', j') = (k, j)" for k' j'
          using \<open>discovery_instance j = Some i\<close> by (auto simp: qualifies_def)
        from A True Some have m: "\<And>k' j'. qualifies prev i k' j' \<Longrightarrow> job_order r k' (job_of j') \<le> fst c"
          and e: "\<exists>j'. qualifies prev i (snd c) j' \<and> fst c = job_order r (snd c) (job_of j')"
          by simp_all
        show ?thesis
        proof (cases "fst c < ?ord")
          case lt: True
          have "job_order r k' (job_of j') \<le> ?ord" if "qualifies prev i k' j'" for k' j'
            using m [OF that] lt by (rule order_trans [OF _ less_imp_le])
          with lt Some True \<open>discovery_instance j = Some i\<close> show ?thesis
            by (simp add: Let_def q) blast
        next
          case False
          then have "?ord \<le> fst c" by (simp add: not_less)
          with m e False Some True \<open>discovery_instance j = Some i\<close> show ?thesis
            by (simp add: Let_def q) blast
        qed
      qed
    qed
  qed
qed

lemma newest_ok_run:
  "newest_ok r prev acc \<Longrightarrow> newest_ok r (prev @ jobs) (newest_by_instance r jobs acc)"
proof (induction jobs arbitrary: prev acc)
  case Nil
  then show ?case by simp
next
  case (Cons kj jobs)
  obtain k j where "kj = (k, j)" by (cases kj)
  with Cons.IH [OF newest_ok_step [OF Cons.prems, of k j]] show ?case by simp
qed

lemma newest_ok: "newest_ok r jobs (newest_by_instance r jobs [])"
  using newest_ok_run [of r "[]" "[]" jobs] by (simp add: newest_ok_def qualifies_def)

lemma job_order_key: "job_order r k d = job_order r k' d' \<Longrightarrow> k = k'"
  by (simp add: job_order_def)

lemma superseded_iff:
  assumes "dict_ok jobs" and "(k, j) \<in> set jobs"
  shows "superseded (newest_by_instance r jobs []) k j \<longleftrightarrow>
    (\<exists>i k' j'. discovery_instance j = Some i \<and> (k', j') \<in> set jobs \<and>
       discovery_instance j' = Some i \<and> job_order r k (job_of j) < job_order r k' (job_of j'))"
proof (cases "discovery_instance j")
  case None
  then show ?thesis by (simp add: superseded_def)
next
  case (Some i)
  with assms(2) have q: "qualifies jobs i k j" by (simp add: qualifies_def)
  have N: "newest_ok r jobs (newest_by_instance r jobs [])" by (rule newest_ok)
  then have "dget (newest_by_instance r jobs []) i \<noteq> None"
    using q unfolding newest_ok_def by (metis (mono_tags, lifting) option.case(1))
  then obtain ord k0 where c: "dget (newest_by_instance r jobs []) i = Some (ord, k0)"
    by auto
  from N [unfolded newest_ok_def, rule_format, of i] c
  obtain j0 where j0: "qualifies jobs i k0 j0" "ord = job_order r k0 (job_of j0)"
    and m: "\<And>k j. qualifies jobs i k j \<Longrightarrow> job_order r k (job_of j) \<le> ord"
    by auto
  have eq: "k0 = k \<Longrightarrow> job_order r k (job_of j) = ord"
    using q j0 assms(1) by (auto simp: qualifies_def dest: eq_key_imp_eq_value)
  have "superseded (newest_by_instance r jobs []) k j \<longleftrightarrow> k0 \<noteq> k"
    using Some c by (simp add: superseded_def)
  also have "\<dots> \<longleftrightarrow> job_order r k (job_of j) < ord"
  proof (cases "k0 = k")
    case True
    with eq show ?thesis by simp
  next
    case False
    then have "job_order r k (job_of j) \<noteq> ord" using j0(2) job_order_key by blast
    with m [OF q] False show ?thesis by (simp add: order_less_le)
  qed
  also have "\<dots> \<longleftrightarrow> (\<exists>k' j'. qualifies jobs i k' j' \<and> job_order r k (job_of j) < job_order r k' (job_of j'))"
  proof
    assume "job_order r k (job_of j) < ord"
    with j0 show "\<exists>k' j'. qualifies jobs i k' j' \<and> job_order r k (job_of j) < job_order r k' (job_of j')"
      by (intro exI [of _ k0] exI [of _ j0]) simp
  next
    assume "\<exists>k' j'. qualifies jobs i k' j' \<and> job_order r k (job_of j) < job_order r k' (job_of j')"
    then obtain k' j' where q': "qualifies jobs i k' j'"
      and lt: "job_order r k (job_of j) < job_order r k' (job_of j')" by blast
    from lt m [OF q'] show "job_order r k (job_of j) < ord" by (rule less_le_trans)
  qed
  finally show ?thesis using Some by (auto simp: qualifies_def)
qed


lemma getn_compact_job [simp]:
  "getn (compact_job d) f = (if f = ''stdout'' \<or> f = ''stderr'' then JStr []
     else if f = ''structuredResult'' then JNull
     else if f = ''detailsRetained'' then JBool False else getn d f)"
  by (simp add: compact_job_def compact_values_def)

lemma compact_job_done: "\<not> needs_compaction (compact_job d)"
  by (simp add: needs_compaction_def compact_values_def)

lemma superseded_obj: "superseded n k j \<Longrightarrow> \<exists>d. j = JObj d"
  by (cases j) (auto simp: superseded_def discovery_instance_def)

lemma discovery_instance_compact [simp]:
  "discovery_instance (compact_entry n k j) = discovery_instance j"
  by (auto simp: compact_entry_def discovery_instance_def job_of_def dest!: superseded_obj)

lemma job_order_compact [simp]:
  "job_order r k (job_of (compact_entry n k' j)) = job_order r k (job_of j)"
  by (auto simp: compact_entry_def job_order_def job_of_def)

lemma newest_by_instance_compact:
  "newest_by_instance r (dmapk (compact_entry n) jobs) acc = newest_by_instance r jobs acc"
  by (induction jobs arbitrary: acc) (auto simp: dmapk_def Let_def split: option.splits)

lemma compact_unfold:
  "dget d ''computeJobs'' = Some (JObj jobs) \<Longrightarrow> compact_compute_discovery_history r d =
     (dput ''computeJobs'' (JObj (dmapk (compact_entry (newest_by_instance r jobs [])) jobs)) d,
      length (filter (\<lambda>(k, j). superseded (newest_by_instance r jobs []) k j \<and>
        needs_compaction (job_of j)) jobs))"
  by (simp add: compact_compute_discovery_history_def Let_def)

lemma superseded_compact [simp]: "superseded n k (compact_entry m k' j) = superseded n k j"
  by (simp add: superseded_def)

lemma compact_entry_done: "superseded n k j \<Longrightarrow> \<not> needs_compaction (job_of (compact_entry n k j))"
  by (auto simp: compact_entry_def job_of_def compact_job_done)

lemma compact_entry_idem [simp]: "compact_entry n k (compact_entry n k j) = compact_entry n k j"
  using compact_entry_done [of n k j] by (auto simp: compact_entry_def [of n k "compact_entry n k j"])

section \<open>Properties\<close>

text \<open>
  Property C3: a document that the migration chain accepts comes out at the current schema
  version with every top-level field present and of its type, and running the chain again
  changes nothing and reports no change.
\<close>

theorem migrate_doc_idempotent:
  assumes "migrate_doc r j = Inr (e, changed)"
  shows "dget e ''schemaVersion'' = Some (JInt (int schema_version)) \<and> doc_valid e \<and>
    migrate_doc r (JObj e) = Inr (e, False)"
  using migrate_doc_version [OF assms] migrate_doc_fixed by blast

text \<open>
  Migrating keeps the sessions, dashboards, encrypted credentials, push
  subscriptions, pinned host keys and client rosters exactly as the old document had them.
\<close>

theorem migrate_doc_preserves:
  assumes "migrate_doc r (JObj d) = Inr (e, changed)"
    and "k \<in> {''sessions'', ''dashboards'', ''credentials'', ''push_subs'', ''sshHostKeys'', ''clientRosters''}"
    and "getn d k \<noteq> JNull"
  shows "dget e k = dget d k"
  using assms by (intro migrate_doc_untouched) (auto simp: untouched_def)

definition legacy_doc :: doc where
  "legacy_doc = [(''schemaVersion'', JInt 3), (''users'', JObj [(''u1'', JObj [])]),
     (''credentials'', JObj [(''c1'', JStr ''x'')]),
     (''computeInstances'', JObj [(''i1'', JObj [(''docker'', JObj [(''projects'',
        JArr [JObj [(''updateMode'', JStr ''local_build''), (''path'', JStr ''/srv'')]])])])])]"

lemma legacy_doc_migrates: "\<exists>e. migrate_doc (\<lambda>_. []) (JObj legacy_doc) = Inr (e, True)"
  by (simp add: migrate_doc_def legacy_doc_def dget_or_def schema_version_def migrate_from.simps
      migration_def migration_defs over_items_def each_item_def getn_def Let_def set_version_def
      setdefault_def migrate_instance_v4_def sub_obj_def migrate_projects_def migrate_project_def
      canonical_mode_def with_member_def migrate_instance_v7_def validate_doc_def default_doc_def
      compact_compute_discovery_history_def)

theorem migrate_doc_idempotent_witness:
  "\<exists>e. migrate_doc (\<lambda>_. []) (JObj legacy_doc) = Inr (e, True) \<and>
     migrate_doc (\<lambda>_. []) (JObj e) = Inr (e, False)"
  using legacy_doc_migrates migrate_doc_idempotent by blast

theorem migrate_doc_preserves_witness:
  "\<exists>e. migrate_doc (\<lambda>_. []) (JObj legacy_doc) = Inr (e, True) \<and>
     dget e ''credentials'' = dget legacy_doc ''credentials''"
proof -
  obtain e where e: "migrate_doc (\<lambda>_. []) (JObj legacy_doc) = Inr (e, True)"
    using legacy_doc_migrates by blast
  have "dget e ''credentials'' = dget legacy_doc ''credentials''"
    by (rule migrate_doc_preserves [OF e]) (simp_all add: legacy_doc_def getn_def)
  with e show ?thesis by blast
qed

text \<open>
  A document written by a newer version is refused and never downgraded.
\<close>

theorem migrate_doc_refuses_newer:
  assumes "dget d ''schemaVersion'' = Some (JInt v)" and "8 < v"
  shows "migrate_doc r (JObj d) = Inl (StoreError (''store schema version '' @ str_of_int v
    @ '' is newer than this HomelabHQ version''))"
  using assms by (simp add: migrate_doc_def dget_or_def schema_version_def)

theorem migrate_doc_refuses_newer_witness:
  "is_error (migrate_doc (\<lambda>_. []) (JObj [(''schemaVersion'', JInt 9)]))"
  by (subst migrate_doc_refuses_newer [of _ 9]) simp_all

text \<open>
  Property C4: compaction strips exactly the successful discovery jobs for which the same
  instance has a job with a greater order, keeps every other job untouched, and a second
  compaction finds nothing left to do.
\<close>

theorem compaction_exact:
  assumes "dget d ''computeJobs'' = Some (JObj jobs)" and "dict_ok jobs"
  shows "\<exists>jobs'. dget (fst (compact_compute_discovery_history r d)) ''computeJobs'' = Some (JObj jobs') \<and>
      dkeys jobs' = dkeys jobs \<and>
      (\<forall>k j. dget jobs k = Some j \<longrightarrow> dget jobs' k = Some
        (if (\<exists>i k' j'. discovery_instance j = Some i \<and> (k', j') \<in> set jobs \<and>
               discovery_instance j' = Some i \<and> job_order r k (job_of j) < job_order r k' (job_of j')) \<and>
            needs_compaction (job_of j)
         then JObj (compact_job (job_of j)) else j)) \<and>
      snd (compact_compute_discovery_history r (fst (compact_compute_discovery_history r d))) = 0"
proof -
  let ?n = "newest_by_instance r jobs []"
  let ?jobs' = "dmapk (compact_entry ?n) jobs"
  have c: "compact_compute_discovery_history r d = (dput ''computeJobs'' (JObj ?jobs') d,
      length (filter (\<lambda>(k, j). superseded ?n k j \<and> needs_compaction (job_of j)) jobs))"
    using assms(1) by (rule compact_unfold)
  have again: "snd (compact_compute_discovery_history r (dput ''computeJobs'' (JObj ?jobs') d)) = 0"
    unfolding compact_unfold [of "dput ''computeJobs'' (JObj ?jobs') d" ?jobs', simplified]
      newest_by_instance_compact
    by (auto simp: dmapk_def filter_empty_conv compact_entry_done)
  have "dget ?jobs' k = Some (compact_entry ?n k j)" if "dget jobs k = Some j" for k j
    using that by simp
  with c again superseded_iff [OF assms(2) dget_mem] show ?thesis
    by (auto simp: compact_entry_def)
qed

definition sample_job :: "string \<Rightarrow> int \<Rightarrow> json" where
  "sample_job iid t = JObj [(''operation'', JStr ''docker_discovery''), (''state'', JStr ''successful''),
     (''computeInstanceId'', JStr iid), (''finishedAt'', JInt t), (''stdout'', JStr ''log'')]"

theorem compaction_exact_witness:
  "\<exists>jobs'. dget (fst (compact_compute_discovery_history (\<lambda>_. [])
      [(''computeJobs'', JObj [(''a'', sample_job ''i'' 1), (''b'', sample_job ''i'' 2)])]))
      ''computeJobs'' = Some (JObj jobs')"
  using compaction_exact [of "[(''computeJobs'', JObj [(''a'', sample_job ''i'' 1), (''b'', sample_job ''i'' 2)])]"
      "[(''a'', sample_job ''i'' 1), (''b'', sample_job ''i'' 2)]" "\<lambda>_. []"]
  by auto

end
