(* ===== verification/Transact.thy ===== *)
theory Transact
  imports Json
begin

text \<open>
  The contract between the document store and the feature modules. Every module changes the
  document through \<open>store.update(mutator)\<close>; the locale states what that promises, its lemmas
  lift a property of single mutators to every sequence of updates. Modules whose collections
  have a fixed shape are modelled on records of those collections; \<open>transact\<close> is the update of
  such a record.
\<close>

text \<open>
  What the feature modules rely on: a mutator that raises changes nothing, and one that
  returns is applied to the stored document as a whole. \<open>good\<close> is what a mutator owes in
  return.
\<close>

locale transactional =
  fixes stored :: "'s \<Rightarrow> 'd result"
    and upd :: "('d \<Rightarrow> ('d \<times> 'a) result) \<Rightarrow> 's \<Rightarrow> 'a result \<times> 's"
    and good :: "('d \<Rightarrow> ('d \<times> 'a) result) \<Rightarrow> bool"
  assumes upd_fail: "good f \<Longrightarrow> upd f s = (Inl e, s') \<Longrightarrow> stored s' = stored s"
    and upd_ok: "good f \<Longrightarrow> upd f s = (Inr x, s') \<Longrightarrow>
      \<exists>d d'. stored s = Inr d \<and> f d = Inr (d', x) \<and> (stored s' = Inr d' \<or> stored s' = Inr d)"
begin

lemma upd_invariant:
  assumes "good f" and "\<And>d d' x. P d \<Longrightarrow> f d = Inr (d', x) \<Longrightarrow> P d'"
    and "\<And>d. stored s = Inr d \<Longrightarrow> P d"
  shows "\<And>d. stored (snd (upd f s)) = Inr d \<Longrightarrow> P d"
proof -
  fix d
  assume d: "stored (snd (upd f s)) = Inr d"
  obtain res s' where u: "upd f s = (res, s')" by (cases "upd f s")
  show "P d"
  proof (cases res)
    case (Inl e)
    with u d upd_fail [OF assms(1), of s e s'] assms(3) show ?thesis by simp
  next
    case (Inr x)
    with u d upd_ok [OF assms(1), of s x s'] assms(2,3) show ?thesis by auto
  qed
qed

lemma upd_readable:
  assumes "good f" and "stored s = Inr d"
  shows "\<exists>d'. stored (snd (upd f s)) = Inr d'"
proof (cases "upd f s")
  case (Pair res s')
  with assms upd_fail [OF assms(1), of s _ s'] upd_ok [OF assms(1), of s _ s']
  show ?thesis by (cases res) auto
qed

lemma run_invariant:
  assumes "\<And>f. f \<in> set fs \<Longrightarrow> good f"
    and "\<And>f d d' x. f \<in> set fs \<Longrightarrow> P d \<Longrightarrow> f d = Inr (d', x) \<Longrightarrow> P d'"
    and "\<And>d. stored s = Inr d \<Longrightarrow> P d"
    and "stored (fold (\<lambda>f s. snd (upd f s)) fs s) = Inr d"
  shows "P d"
  using assms
proof (induction fs arbitrary: s)
  case Nil
  then show ?case by simp
next
  case (Cons f fs)
  have "P d" if "stored (snd (upd f s)) = Inr d" for d
    by (rule upd_invariant [OF _ _ _ that, where P = P])
       (use Cons.prems(1,2) [of f] Cons.prems(3) in auto)
  moreover have "stored (fold (\<lambda>f s. snd (upd f s)) fs (snd (upd f s))) = Inr d"
    using Cons.prems(4) by simp
  ultimately show ?case
    using Cons.prems(1,2) Cons.IH [of "snd (upd f s)"] by (meson list.set_intros(2))
qed

end


section \<open>Updates of a typed document\<close>

definition transact :: "('d \<Rightarrow> ('d \<times> 'a) result) \<Rightarrow> 'd \<Rightarrow> 'a result \<times> 'd" where
  "transact f d = (case f d of Inl e \<Rightarrow> (Inl e, d) | Inr (d', x) \<Rightarrow> (Inr x, d'))"

lemma transact_Inl [simp]: "f d = Inl e \<Longrightarrow> transact f d = (Inl e, d)"
  by (simp add: transact_def)

lemma transact_Inr [simp]: "f d = Inr (d', x) \<Longrightarrow> transact f d = (Inr x, d')"
  by (simp add: transact_def)

lemma transact_cases:
  assumes "transact f d = (res, d')"
  obtains (raised) e where "f d = Inl e" "res = Inl e" "d' = d"
  | (returned) x where "f d = Inr (d', x)" "res = Inr x"
  using assms by (auto simp: transact_def split: sum.splits prod.splits)

interpretation typed: transactional Inr transact "\<lambda>_. True"
  by unfold_locales (auto simp: transact_def split: sum.splits prod.splits)

lemma transact_invariant:
  assumes "P d" and "\<And>d' x. f d = Inr (d', x) \<Longrightarrow> P d'"
  shows "P (snd (transact f d))"
  using assms by (auto simp: transact_def split: sum.split prod.split)

end
