(* ===== verification/StoreFile.thy ===== *)
theory StoreFile
  imports Store Transact
begin

text \<open>
  The file protocol of \<open>backend/store.py\<close>: reading the document, the steps of the atomic
  write with a fault or a crash at any of them, the in-process cache, and \<open>update\<close> as a
  transaction over them. A file holds either the complete serialisation of a JSON value or a
  torn prefix, which does not parse. The modification time counts the replacements of the
  data file.
\<close>

section \<open>Files\<close>

datatype content = Whole json | Torn

record disk =
  db_file :: "content option"
  bak_file :: "content option"
  tmp_file :: "content option"
  bak_tmp :: "content option"
  db_mtime :: nat

definition file_mtime :: "disk \<Rightarrow> nat option" where
  "file_mtime d = (case db_file d of None \<Rightarrow> None | Some _ \<Rightarrow> Some (db_mtime d))"

definition read_doc :: "(json \<Rightarrow> string) \<Rightarrow> disk \<Rightarrow> (doc \<times> bool) result" where
  "read_doc r d = (case db_file d of
     None \<Rightarrow> migrate_doc r (JObj [])
   | Some (Whole j) \<Rightarrow> migrate_doc r j
   | Some Torn \<Rightarrow> Inl (StoreError ''cannot read the existing store safely''))"

text \<open>
  The system calls of \<open>_write_locked\<close>, in order. Writing a file is two steps, because a crash
  between them leaves a torn file; renaming is one.
\<close>

datatype wstep = CreateTmp | ChmodTmp | BeginWrite | EndWrite json
  | CreateBak | BeginCopy | EndCopy | ReplaceBak | ReplaceDb | FsyncDir

fun wstep_effect :: "wstep \<Rightarrow> disk \<Rightarrow> disk" where
  "wstep_effect CreateTmp d = d\<lparr>tmp_file := Some Torn\<rparr>"
| "wstep_effect ChmodTmp d = d"
| "wstep_effect BeginWrite d = d\<lparr>tmp_file := Some Torn\<rparr>"
| "wstep_effect (EndWrite j) d = d\<lparr>tmp_file := Some (Whole j)\<rparr>"
| "wstep_effect CreateBak d = d\<lparr>bak_tmp := Some Torn\<rparr>"
| "wstep_effect BeginCopy d = d\<lparr>bak_tmp := Some Torn\<rparr>"
| "wstep_effect EndCopy d = d\<lparr>bak_tmp := db_file d\<rparr>"
| "wstep_effect ReplaceBak d = d\<lparr>bak_file := bak_tmp d, bak_tmp := None\<rparr>"
| "wstep_effect ReplaceDb d = d\<lparr>db_file := tmp_file d, tmp_file := None, db_mtime := Suc (db_mtime d)\<rparr>"
| "wstep_effect FsyncDir d = d"

definition write_plan :: "json \<Rightarrow> disk \<Rightarrow> wstep list" where
  "write_plan j d = [CreateTmp, ChmodTmp, BeginWrite, EndWrite j]
     @ (if db_file d = None then [] else [CreateBak, BeginCopy, EndCopy, ReplaceBak])
     @ [ReplaceDb, FsyncDir]"

definition run_steps :: "wstep list \<Rightarrow> disk \<Rightarrow> disk" where
  "run_steps steps d = fold wstep_effect steps d"

text \<open>A crash after \<open>n\<close> system calls leaves what they did.\<close>

definition crash_after :: "nat \<Rightarrow> json \<Rightarrow> disk \<Rightarrow> disk" where
  "crash_after n j d = run_steps (take n (write_plan j d)) d"

text \<open>
  A failing call raises after the ones before it: the handler removes the temporary files.
\<close>

definition cleanup :: "disk \<Rightarrow> disk" where
  "cleanup d = d\<lparr>tmp_file := None, bak_tmp := None\<rparr>"

definition write_locked :: "nat option \<Rightarrow> doc \<Rightarrow> disk \<Rightarrow> unit result \<times> disk" where
  "write_locked fault d k = (case validate_doc True d of
     Inl e \<Rightarrow> (Inl e, k)
   | Inr d' \<Rightarrow>
       (let plan = write_plan (JObj d') k in
        case fault of
          Some n \<Rightarrow> (if n < length plan
                     then (Inl (RuntimeError ''OSError''), cleanup (crash_after n (JObj d') k))
                     else (Inr (), run_steps plan k))
        | None \<Rightarrow> (Inr (), run_steps plan k)))"

section \<open>The store process: cache and transactions\<close>

record store_state =
  disk_of :: disk
  cached :: "(doc \<times> nat option) option"
  writes :: nat
  no_op_updates :: nat

definition load_doc :: "(json \<Rightarrow> string) \<Rightarrow> store_state \<Rightarrow> doc result \<times> store_state" where
  "load_doc r s = (case cached s of
     Some (doc, m) \<Rightarrow>
       (if m = file_mtime (disk_of s) then (Inr doc, s)
        else case read_doc r (disk_of s) of
               Inl e \<Rightarrow> (Inl e, s)
             | Inr (doc', _) \<Rightarrow> (Inr doc', s\<lparr>cached := Some (doc', file_mtime (disk_of s))\<rparr>))
   | None \<Rightarrow> (case read_doc r (disk_of s) of
               Inl e \<Rightarrow> (Inl e, s)
             | Inr (doc', _) \<Rightarrow> (Inr doc', s\<lparr>cached := Some (doc', file_mtime (disk_of s))\<rparr>)))"

definition commit :: "doc \<Rightarrow> disk \<Rightarrow> store_state \<Rightarrow> store_state" where
  "commit doc d s = s\<lparr>disk_of := d, cached := Some (doc, file_mtime d)\<rparr>"

definition save_doc :: "(json \<Rightarrow> string) \<Rightarrow> nat option \<Rightarrow> doc \<Rightarrow> store_state \<Rightarrow> unit result \<times> store_state" where
  "save_doc r fault doc s =
     (case (if db_file (disk_of s) = None then Inr () else rbind (read_doc r (disk_of s)) (\<lambda>_. Inr ())) of
        Inl e \<Rightarrow> (Inl e, s)
      | Inr _ \<Rightarrow>
          (case write_locked fault doc (disk_of s) of
             (Inl e, d) \<Rightarrow> (Inl e, s\<lparr>disk_of := d\<rparr>)
           | (Inr _, d) \<Rightarrow>
               (case validate_doc True doc of
                  Inl e \<Rightarrow> (Inl e, s)
                | Inr doc' \<Rightarrow> (Inr (), (commit doc' d s)\<lparr>writes := Suc (writes s)\<rparr>))))"

definition update_doc ::
  "(json \<Rightarrow> string) \<Rightarrow> nat option \<Rightarrow> (doc \<Rightarrow> (doc \<times> 'a) result) \<Rightarrow> store_state \<Rightarrow> 'a result \<times> store_state" where
  "update_doc r fault mutator s = (case read_doc r (disk_of s) of
     Inl e \<Rightarrow> (Inl e, s)
   | Inr (before, migrated) \<Rightarrow>
       (case mutator before of
          Inl e \<Rightarrow> (Inl e, s)
        | Inr (doc, result) \<Rightarrow>
            (case validate_doc True doc of
               Inl e \<Rightarrow> (Inl e, s)
             | Inr doc' \<Rightarrow>
                 if migrated \<or> \<not> py_eq (JObj doc') (JObj before)
                 then (case write_locked fault doc' (disk_of s) of
                         (Inl e, d) \<Rightarrow> (Inl e, s\<lparr>disk_of := d\<rparr>)
                       | (Inr _, d) \<Rightarrow> (Inr result, (commit doc' d s)\<lparr>writes := Suc (writes s)\<rparr>))
                 else (Inr result, (commit doc' (disk_of s) s)\<lparr>no_op_updates := Suc (no_op_updates s)\<rparr>))))"

definition startup_integrity_check ::
  "(json \<Rightarrow> string) \<Rightarrow> nat option \<Rightarrow> store_state \<Rightarrow> (json \<times> bool) result \<times> store_state" where
  "startup_integrity_check r fault s = (case read_doc r (disk_of s) of
     Inl e \<Rightarrow> (Inl e, s)
   | Inr (doc, migrated) \<Rightarrow>
       (if migrated
        then (case write_locked fault doc (disk_of s) of
                (Inl e, d) \<Rightarrow> (Inl e, s\<lparr>disk_of := d\<rparr>)
              | (Inr _, d) \<Rightarrow> (Inr (getn doc ''schemaVersion'', migrated),
                              (commit doc d s)\<lparr>writes := Suc (writes s)\<rparr>))
        else (Inr (getn doc ''schemaVersion'', migrated), commit doc (disk_of s) s)))"

section \<open>Pinned SSH host keys\<close>

definition host_port :: "string \<Rightarrow> int \<Rightarrow> string" where
  "host_port host port = host @ '':'' @ str_of_int port"

definition ssh_host_key :: "string \<Rightarrow> int \<Rightarrow> doc \<Rightarrow> json result" where
  "ssh_host_key host port d =
     rbind (obj_of (getn d ''sshHostKeys'')) (\<lambda>keys. Inr (getn keys (host_port host port)))"

text \<open>The rank of \<open>_prune_oldest\<close> for integer time stamps: age first, the key second.\<close>

definition stored_at :: "string \<Rightarrow> json \<Rightarrow> int \<times> string" where
  "stored_at key v = (case v of
     JObj rec \<Rightarrow> (case dget rec ''storedAt'' of Some (JInt t) \<Rightarrow> t | _ \<Rightarrow> 0)
   | _ \<Rightarrow> 0, key)"

definition prune_oldest :: "nat \<Rightarrow> doc \<Rightarrow> doc" where
  "prune_oldest limit records = prune_by stored_at limit records"

definition pin_ssh_host_key ::
  "nat \<Rightarrow> int \<Rightarrow> string \<Rightarrow> int \<Rightarrow> string \<Rightarrow> string \<Rightarrow> doc \<Rightarrow> (doc \<times> unit) result" where
  "pin_ssh_host_key limit now host port key_type fingerprint d =
     rbind (obj_of (getn d ''sshHostKeys'')) (\<lambda>keys.
       Inr (dput ''sshHostKeys'' (JObj (prune_oldest limit
              (dput (host_port host port)
                 (JObj [(''keyType'', JStr key_type), (''fingerprint'', JStr fingerprint),
                        (''storedAt'', JInt now)]) keys))) d, ()))"

section \<open>Atomicity of the write\<close>

lemma plan_steps [simp]:
  "run_steps (write_plan j d) d = d\<lparr>db_file := Some (Whole j), tmp_file := None,
     bak_file := (if db_file d = None then bak_file d else db_file d),
     bak_tmp := (if db_file d = None then bak_tmp d else None), db_mtime := Suc (db_mtime d)\<rparr>"
  by (simp add: run_steps_def write_plan_def)

lemma crash_states:
  "(db_file (crash_after n j d) = db_file d \<and> db_mtime (crash_after n j d) = db_mtime d \<or>
    db_file (crash_after n j d) = Some (Whole j) \<and> db_mtime (crash_after n j d) = Suc (db_mtime d)) \<and>
   bak_file (crash_after n j d) \<in> {bak_file d, db_file d}"
proof (cases "db_file d = None")
  case True
  have "n \<in> {0, 1, 2, 3, 4, 5} \<or> 6 \<le> n" by auto
  with True show ?thesis
    by (auto simp: crash_after_def run_steps_def write_plan_def numeral_eq_Suc take_Cons')
next
  case False
  have "n \<in> {0, 1, 2, 3, 4, 5, 6, 7, 8, 9} \<or> 10 \<le> n" by auto
  with False show ?thesis
    by (auto simp: crash_after_def run_steps_def write_plan_def numeral_eq_Suc take_Cons')
qed


lemma read_doc_cong: "db_file d = db_file d' \<Longrightarrow> read_doc r d = read_doc r d'"
  by (simp add: read_doc_def)

lemma cleanup_simps [simp]:
  "db_file (cleanup d) = db_file d" "bak_file (cleanup d) = bak_file d"
  "db_mtime (cleanup d) = db_mtime d" "tmp_file (cleanup d) = None" "bak_tmp (cleanup d) = None"
  by (simp_all add: cleanup_def)

definition doc_current :: "doc \<Rightarrow> bool" where
  "doc_current d \<longleftrightarrow> dget d ''schemaVersion'' = Some (JInt (int schema_version)) \<and> doc_valid d"

lemma read_doc_current: "read_doc r d = Inr (doc, m) \<Longrightarrow> doc_current doc"
  by (auto simp: read_doc_def doc_current_def dest: migrate_doc_version split: option.splits content.splits)

lemma read_doc_fixed: "db_file d = Some (Whole (JObj doc)) \<Longrightarrow> doc_current doc \<Longrightarrow> read_doc r d = Inr (doc, False)"
  by (simp add: read_doc_def doc_current_def migrate_doc_fixed)

lemma write_locked_ok:
  assumes "write_locked fault doc d = (Inr u, d')" and "doc_valid doc"
  shows "db_file d' = Some (Whole (JObj doc))" and "db_mtime d' = Suc (db_mtime d)"
    and "bak_file d' = (if db_file d = None then bak_file d else db_file d)"
  using assms by (auto simp: write_locked_def validate_doc_id Let_def split: option.splits if_splits)

lemma write_locked_fail:
  assumes "write_locked fault doc d = (Inl e, d')" and "doc_valid doc"
  shows "(db_file d' = db_file d \<and> db_mtime d' = db_mtime d \<or>
      db_file d' = Some (Whole (JObj doc)) \<and> db_mtime d' = Suc (db_mtime d)) \<and>
    tmp_file d' = None \<and> bak_tmp d' = None \<and> bak_file d' \<in> {bak_file d, db_file d}"
proof -
  from assms obtain n where "d' = cleanup (crash_after n (JObj doc) d)"
    by (auto simp: write_locked_def validate_doc_id Let_def split: option.splits if_splits)
  with crash_states [of n "JObj doc" d] show ?thesis by simp
qed

lemma write_locked_no_fault: "doc_valid doc \<Longrightarrow> fst (write_locked None doc d) = Inr ()"
  by (simp add: write_locked_def validate_doc_id)

section \<open>The store provides the transactional interface\<close>

definition stored_doc :: "(json \<Rightarrow> string) \<Rightarrow> store_state \<Rightarrow> doc result" where
  "stored_doc r s = rbind (read_doc r (disk_of s)) (\<lambda>p. Inr (fst p))"

definition good_mutator :: "(doc \<Rightarrow> (doc \<times> 'a) result) \<Rightarrow> bool" where
  "good_mutator f \<longleftrightarrow> (\<forall>d d' x. doc_current d \<longrightarrow> f d = Inr (d', x) \<longrightarrow> doc_current d')"

lemma update_doc_cases:
  assumes "update_doc r fault f s = (res, s')" and "good_mutator f"
  obtains
    (unread) e where "read_doc r (disk_of s) = Inl e" "res = Inl e" "s' = s"
  | (raised) before m e where "read_doc r (disk_of s) = Inr (before, m)" "f before = Inl e"
      "res = Inl e" "s' = s"
  | (noop) before doc x where "read_doc r (disk_of s) = Inr (before, False)" "f before = Inr (doc, x)"
      "res = Inr x" "py_eq (JObj doc) (JObj before)" "doc_current doc"
      "s' = (commit doc (disk_of s) s)\<lparr>no_op_updates := Suc (no_op_updates s)\<rparr>"
  | (failed) before m doc x e d where "read_doc r (disk_of s) = Inr (before, m)" "f before = Inr (doc, x)"
      "doc_current doc" "write_locked fault doc (disk_of s) = (Inl e, d)" "res = Inl e"
      "s' = s\<lparr>disk_of := d\<rparr>"
  | (written) before m doc x d where "read_doc r (disk_of s) = Inr (before, m)" "f before = Inr (doc, x)"
      "doc_current doc" "write_locked fault doc (disk_of s) = (Inr (), d)" "res = Inr x"
      "s' = (commit doc d s)\<lparr>writes := Suc (writes s)\<rparr>"
proof (cases "read_doc r (disk_of s)")
  case (Inl e)
  show thesis by (rule unread [OF Inl]) (use assms(1) Inl in \<open>simp_all add: update_doc_def\<close>)
next
  case (Inr p)
  obtain before m where p: "p = (before, m)" by (cases p)
  with Inr have rd: "read_doc r (disk_of s) = Inr (before, m)" by simp
  show thesis
  proof (cases "f before")
    case (Inl e)
    show thesis by (rule raised [OF rd Inl]) (use assms(1) rd Inl in \<open>simp_all add: update_doc_def\<close>)
  next
    case (Inr q)
    obtain doc x where q: "q = (doc, x)" by (cases q)
    with Inr have fb: "f before = Inr (doc, x)" by simp
    have cur: "doc_current doc"
      using assms(2) read_doc_current [OF rd] fb unfolding good_mutator_def by blast
    then have val: "validate_doc True doc = Inr doc" by (simp add: doc_current_def validate_doc_id)
    obtain wr d where wr: "write_locked fault doc (disk_of s) = (wr, d)"
      by (cases "write_locked fault doc (disk_of s)")
    show thesis
    proof (cases "m \<or> \<not> py_eq (JObj doc) (JObj before)")
      case False
      with rd fb val assms(1) noop [of before doc x] cur show thesis by (simp add: update_doc_def)
    next
      case True
      with rd fb val assms(1) cur wr failed [of before m doc x] written [of before m doc x d]
      show thesis by (cases wr) (auto simp: update_doc_def)
    qed
  qed
qed

lemma stored_commit: "stored_doc r (commit doc d s) = rbind (read_doc r d) (\<lambda>p. Inr (fst p))"
  by (simp add: stored_doc_def commit_def)

lemma stored_doc_ext [simp]:
  "stored_doc r (s\<lparr>no_op_updates := n\<rparr>) = stored_doc r s"
  "stored_doc r (s\<lparr>writes := n\<rparr>) = stored_doc r s"
  by (simp_all add: stored_doc_def)

lemma stored_written:
  "write_locked fault doc d0 = (Inr u, d) \<Longrightarrow> doc_current doc \<Longrightarrow> read_doc r d = Inr (doc, False)"
  by (rule read_doc_fixed) (auto dest: write_locked_ok simp: doc_current_def)

interpretation store: transactional "stored_doc r" "update_doc r None" good_mutator for r
proof
  fix f :: "doc \<Rightarrow> (doc \<times> 'a) result" and s e s'
  assume g: "good_mutator f" and u: "update_doc r None f s = (Inl e, s')"
  from u g show "stored_doc r s' = stored_doc r s"
  proof (cases rule: update_doc_cases)
    case (failed before m doc x e' d)
    with write_locked_no_fault [of doc "disk_of s"] show ?thesis by (simp add: doc_current_def)
  qed (simp_all add: stored_commit)
next
  fix f :: "doc \<Rightarrow> (doc \<times> 'a) result" and s x s'
  assume g: "good_mutator f" and u: "update_doc r None f s = (Inr x, s')"
  from u g show "\<exists>d d'. stored_doc r s = Inr d \<and> f d = Inr (d', x) \<and>
      (stored_doc r s' = Inr d' \<or> stored_doc r s' = Inr d)"
  proof (cases rule: update_doc_cases)
    case (noop before doc y)
    then show ?thesis by (simp add: stored_doc_def commit_def)
  next
    case (written before m doc y d)
    then show ?thesis using stored_written [OF written(4,3)]
      by (auto simp: stored_commit) (simp add: stored_doc_def)
  qed simp_all
qed


section \<open>Coherence of the cache\<close>

text \<open>
  A cached document whose modification time is that of the file stands for the document on
  disk; the recorded time never runs ahead of the file's.
\<close>

definition cache_coherent :: "(json \<Rightarrow> string) \<Rightarrow> store_state \<Rightarrow> bool" where
  "cache_coherent r s \<longleftrightarrow> (case cached s of None \<Rightarrow> True
   | Some (doc, m) \<Rightarrow>
       (case m of None \<Rightarrow> True | Some t \<Rightarrow> t \<le> db_mtime (disk_of s)) \<and>
       (m = file_mtime (disk_of s) \<longrightarrow>
         (\<exists>d b. read_doc r (disk_of s) = Inr (d, b) \<and> py_eq (JObj doc) (JObj d))))"

lemma file_mtime_le: "case file_mtime d of None \<Rightarrow> True | Some t \<Rightarrow> t \<le> db_mtime d"
  by (simp add: file_mtime_def split: option.split)

lemma cache_coherent_commit:
  "read_doc r d = Inr (d0, b) \<Longrightarrow> py_eq (JObj doc) (JObj d0) \<Longrightarrow> cache_coherent r (commit doc d s)"
  using file_mtime_le [of d] by (simp add: cache_coherent_def commit_def split: option.splits)

lemma cache_coherent_ext [simp]:
  "cache_coherent r (s\<lparr>no_op_updates := n\<rparr>) = cache_coherent r s"
  "cache_coherent r (s\<lparr>writes := n\<rparr>) = cache_coherent r s"
  by (simp_all add: cache_coherent_def split: option.split)

lemma cache_coherent_failed_write:
  assumes "cache_coherent r s" and "write_locked fault doc (disk_of s) = (Inl e, d)" and "doc_valid doc"
  shows "cache_coherent r (s\<lparr>disk_of := d\<rparr>)"
  using write_locked_fail [OF assms(2,3)] assms(1) read_doc_cong [of d "disk_of s" r]
  by (auto simp: cache_coherent_def file_mtime_def split: option.splits prod.splits)

lemma cache_coherent_load:
  assumes "cache_coherent r s"
  shows "cache_coherent r (snd (load_doc r s))"
  using assms file_mtime_le [of "disk_of s"]
  by (auto simp: load_doc_def cache_coherent_def split: option.splits sum.splits prod.splits if_splits)

lemma cache_coherent_update:
  assumes "cache_coherent r s" and "good_mutator f"
  shows "cache_coherent r (snd (update_doc r fault f s))"
proof -
  obtain res s' where u: "update_doc r fault f s = (res, s')" by (cases "update_doc r fault f s")
  from u assms(2) show ?thesis
  proof (cases rule: update_doc_cases)
    case (noop before doc x)
    with u show ?thesis by (simp add: cache_coherent_commit [OF noop(1)])
  next
    case (failed before m doc x e d)
    with u assms(1) show ?thesis by (simp add: cache_coherent_failed_write doc_current_def)
  next
    case (written before m doc x d)
    with u show ?thesis by (simp add: cache_coherent_commit [OF stored_written [OF written(4,3)]])
  qed (use u assms(1) in simp_all)
qed

lemma load_current:
  "cache_coherent r s \<Longrightarrow> read_doc r (disk_of s) = Inr (d, b) \<Longrightarrow>
   \<exists>doc. fst (load_doc r s) = Inr doc \<and> py_eq (JObj doc) (JObj d)"
  by (auto simp: load_doc_def cache_coherent_def split: option.splits)

section \<open>Properties\<close>

text \<open>
  Property C1: whatever system call of the atomic write the process dies at, the data file is
  the old one or the complete new one, the backup is the old backup or the old data file, and
  so a reader finds the old or the new document and never a torn one.
\<close>

theorem write_crash_atomic:
  "read_doc r (crash_after n j d) \<in> {read_doc r d, migrate_doc r j} \<and>
   bak_file (crash_after n j d) \<in> {bak_file d, db_file d}"
  using crash_states [of n j d] read_doc_cong [of "crash_after n j d" d r]
  by (auto simp: read_doc_def)

text \<open>
  Property C2: with a coherent cache, an update that returns has applied its mutator to the
  document on disk, and a later load sees the result; an update that raises, with the system
  calls succeeding, leaves the stored document as it was.
\<close>

theorem update_doc_transactional:
  assumes "good_mutator f" and "update_doc r None f s = (res, s')"
  shows "case res of
     Inl e \<Rightarrow> stored_doc r s' = stored_doc r s
   | Inr x \<Rightarrow> \<exists>d d' doc. stored_doc r s = Inr d \<and> f d = Inr (d', x) \<and>
       fst (load_doc r s') = Inr doc \<and> doc = d' \<and>
       (stored_doc r s' = Inr d' \<or> stored_doc r s' = Inr d \<and> py_eq (JObj d') (JObj d))"
  using assms(2,1)
proof (cases rule: update_doc_cases)
  case (noop before doc x)
  then show ?thesis
    by (simp add: stored_doc_def commit_def load_doc_def file_mtime_def)
next
  case (failed before m doc x e d)
  with write_locked_no_fault [of doc "disk_of s"] show ?thesis by (simp add: doc_current_def)
next
  case (written before m doc x d)
  with stored_written [OF written(4,3), of r] show ?thesis
    by (simp add: stored_doc_def commit_def load_doc_def file_mtime_def)
qed (simp_all add: stored_doc_def)

text \<open>
  The cache stays coherent through loads and updates, a failing system call at
  any point of a write included.
\<close>

theorem cache_stays_coherent:
  assumes "cache_coherent r s" and "good_mutator f"
  shows "cache_coherent r (snd (update_doc r fault f s)) \<and> cache_coherent r (snd (load_doc r s))"
  using assms by (simp add: cache_coherent_update cache_coherent_load)

lemma doc_current_dput_obj:
  "doc_current d \<Longrightarrow> k \<noteq> ''schemaVersion'' \<Longrightarrow> doc_current (dput k (JObj v) d)"
  by (simp add: doc_current_def doc_valid_def field_ok_def default_doc_def)

lemma good_pin: "good_mutator (pin_ssh_host_key limit now host port kt fp)"
  by (auto simp: good_mutator_def pin_ssh_host_key_def rbind_Inr_iff intro: doc_current_dput_obj)

definition keys_bounded :: "nat \<Rightarrow> doc \<Rightarrow> bool" where
  "keys_bounded limit d \<longleftrightarrow> (case getn d ''sshHostKeys'' of
     JObj keys \<Rightarrow> dict_ok keys \<and> length keys \<le> limit | _ \<Rightarrow> True)"

lemma pin_keys_bounded:
  "keys_bounded limit d \<Longrightarrow> pin_ssh_host_key limit now host port kt fp d = Inr (d', x) \<Longrightarrow>
   keys_bounded limit d'"
  by (auto simp: keys_bounded_def pin_ssh_host_key_def rbind_Inr_iff obj_of_Inr_iff
      prune_oldest_def length_prune_by)

text \<open>
  After any sequence of pinned connections the stored host key table holds at
  most the configured number of entries.
\<close>

theorem pinned_host_keys_bounded:
  assumes "\<And>d. stored_doc r s = Inr d \<Longrightarrow> keys_bounded limit d"
    and "stored_doc r (fold (\<lambda>(now, host, port, kt, fp) s.
      snd (update_doc r None (pin_ssh_host_key limit now host port kt fp) s)) pins s) = Inr d"
  shows "keys_bounded limit d"
proof -
  let ?fs = "map (\<lambda>(now, host, port, kt, fp). pin_ssh_host_key limit now host port kt fp) pins"
  have "fold (\<lambda>(now, host, port, kt, fp) s.
      snd (update_doc r None (pin_ssh_host_key limit now host port kt fp) s)) pins s =
    fold (\<lambda>f s. snd (update_doc r None f s)) ?fs s"
    by (induction pins arbitrary: s) auto
  with assms(2) have d: "stored_doc r (fold (\<lambda>f s. snd (update_doc r None f s)) ?fs s) = Inr d"
    by simp
  show ?thesis
  proof (rule store.run_invariant [OF _ _ _ d])
    show "good_mutator f" if "f \<in> set ?fs" for f
      using that by (auto simp: good_pin)
    show "keys_bounded limit e'" if "f \<in> set ?fs" "keys_bounded limit e" "f e = Inr (e', x)" for f e e' x
      using that by (auto dest: pin_keys_bounded)
  qed (use assms(1) in auto)
qed

text \<open>
  Pruning keeps exactly the limit's number of records, unchanged, and drops
  only records that were stored no later than every record it keeps.
\<close>

theorem prune_oldest_keeps_newest:
  assumes "dict_ok records"
  shows "length (prune_oldest limit records) = min limit (length records) \<and>
    (\<forall>k v. dget (prune_oldest limit records) k = Some v \<longrightarrow> dget records k = Some v \<and>
      (\<forall>k' v'. dget records k' = Some v' \<longrightarrow> dget (prune_oldest limit records) k' = None \<longrightarrow>
        stored_at k' v' \<le> stored_at k v))"
  using assms prune_by_order [of _ stored_at limit records]
  by (auto simp: prune_oldest_def length_prune_by dget_prune_by split: if_splits)

section \<open>Witnesses\<close>

definition empty_disk :: disk where
  "empty_disk = \<lparr>db_file = None, bak_file = None, tmp_file = None, bak_tmp = None, db_mtime = 0\<rparr>"

definition fresh_store :: store_state where
  "fresh_store = \<lparr>disk_of = empty_disk\<lparr>db_file := Some (Whole (JObj default_doc))\<rparr>, cached = None,
     writes = 0, no_op_updates = 0\<rparr>"

lemma default_doc_current: "doc_current default_doc"
  by (simp add: doc_current_def doc_valid_def default_doc_def field_ok_def getn_def schema_version_def)

lemma fresh_store_stored: "stored_doc r fresh_store = Inr default_doc"
  using read_doc_fixed [OF _ default_doc_current, of "disk_of fresh_store" r]
  by (simp add: stored_doc_def fresh_store_def)

theorem update_doc_transactional_witness:
  "case fst (update_doc (\<lambda>_. []) None (pin_ssh_host_key 5 7 ''h'' 22 ''rsa'' ''fp'') fresh_store) of
     Inl e \<Rightarrow> True
   | Inr x \<Rightarrow> fst (load_doc (\<lambda>_. []) (snd (update_doc (\<lambda>_. []) None
       (pin_ssh_host_key 5 7 ''h'' 22 ''rsa'' ''fp'') fresh_store))) =
       Inr (fst (projr (pin_ssh_host_key 5 7 ''h'' 22 ''rsa'' ''fp'' default_doc)))"
  using update_doc_transactional [OF good_pin, of "\<lambda>_. []" 5 7 "''h''" 22 "''rsa''" "''fp''"
      fresh_store "fst (update_doc (\<lambda>_. []) None (pin_ssh_host_key 5 7 ''h'' 22 ''rsa'' ''fp'') fresh_store)"
      "snd (update_doc (\<lambda>_. []) None (pin_ssh_host_key 5 7 ''h'' 22 ''rsa'' ''fp'') fresh_store)"]
  by (auto simp: fresh_store_stored split: sum.splits)

theorem cache_stays_coherent_witness:
  "cache_coherent (\<lambda>_. []) (snd (update_doc (\<lambda>_. []) (Some 9)
     (pin_ssh_host_key 5 7 ''h'' 22 ''rsa'' ''fp'') fresh_store))"
  using cache_stays_coherent [OF _ good_pin, of "\<lambda>_. []" fresh_store]
  by (simp add: cache_coherent_def fresh_store_def)

theorem pinned_host_keys_bounded_witness:
  "\<exists>d. stored_doc (\<lambda>_. []) (fold (\<lambda>(now, host, port, kt, fp) s.
      snd (update_doc (\<lambda>_. []) None (pin_ssh_host_key 1 now host port kt fp) s))
     [(7, ''h'', 22, ''rsa'', ''fp''), (8, ''g'', 22, ''rsa'', ''fp'')] fresh_store) = Inr d
     \<and> keys_bounded 1 d"
proof -
  let ?s1 = "snd (update_doc (\<lambda>_. []) None (pin_ssh_host_key 1 7 ''h'' 22 ''rsa'' ''fp'') fresh_store)"
  let ?s2 = "snd (update_doc (\<lambda>_. []) None (pin_ssh_host_key 1 8 ''g'' 22 ''rsa'' ''fp'') ?s1)"
  obtain d1 where "stored_doc (\<lambda>_. []) ?s1 = Inr d1"
    using store.upd_readable [OF good_pin fresh_store_stored] by blast
  then obtain d2 where d2: "stored_doc (\<lambda>_. []) ?s2 = Inr d2"
    using store.upd_readable [OF good_pin] by blast
  then have "stored_doc (\<lambda>_. []) (fold (\<lambda>(now, host, port, kt, fp) s.
      snd (update_doc (\<lambda>_. []) None (pin_ssh_host_key 1 now host port kt fp) s))
     [(7, ''h'', 22, ''rsa'', ''fp''), (8, ''g'', 22, ''rsa'', ''fp'')] fresh_store) = Inr d2"
    by simp
  moreover from this have "keys_bounded 1 d2"
    by (rule pinned_host_keys_bounded [rotated])
       (auto simp: fresh_store_stored keys_bounded_def default_doc_def getn_def)
  ultimately show ?thesis by blast
qed

theorem prune_oldest_keeps_newest_witness:
  "length (prune_oldest 1 [(''a'', JObj [(''storedAt'', JInt 1)]), (''b'', JObj [(''storedAt'', JInt 2)])]) = 1"
  using prune_oldest_keeps_newest
    [of "[(''a'', JObj [(''storedAt'', JInt 1)]), (''b'', JObj [(''storedAt'', JInt 2)])]" 1]
  by simp

end
