(* ===== verification/Auth.thy ===== *)
theory Auth
  imports Transact
begin

text \<open>
  Multi-user authentication (\<open>backend/auth.py\<close>) and the visibility policy
  (\<open>backend/authorization.py\<close>, \<open>backend/context.py\<close>): password hashes with their base64
  fields, the brute-force throttle, user accounts and cookie sessions.

  The key derivation function (scrypt), the token digest (SHA-256) and the random values are
  arguments. Passwords and tokens are byte strings.
\<close>

section \<open>Base64, as the standard library codes it\<close>

definition b64_char :: "nat \<Rightarrow> char" where
  "b64_char n = (if n < 26 then char_of (65 + n) else if n < 52 then char_of (71 + n)
     else if n < 62 then char_of (n - 4) else if n = 62 then CHR ''+'' else CHR ''/'')"

definition b64_index :: "char \<Rightarrow> nat option" where
  "b64_index c = (let n = of_char c :: nat in
     if 65 \<le> n \<and> n \<le> 90 then Some (n - 65) else if 97 \<le> n \<and> n \<le> 122 then Some (n - 71)
     else if 48 \<le> n \<and> n \<le> 57 then Some (n + 4) else if c = CHR ''+'' then Some 62
     else if c = CHR ''/'' then Some 63 else None)"

fun b64encode :: "string \<Rightarrow> string" where
  "b64encode [] = []"
| "b64encode [a] = (let x = of_char a in
     [b64_char (x div 4), b64_char (x mod 4 * 16), CHR ''='', CHR ''=''])"
| "b64encode [a, b] = (let x = of_char a; y = of_char b in
     [b64_char (x div 4), b64_char (x mod 4 * 16 + y div 16), b64_char (y mod 16 * 4), CHR ''=''])"
| "b64encode (a # b # c # rest) = (let x = of_char a; y = of_char b; z = of_char c in
     [b64_char (x div 4), b64_char (x mod 4 * 16 + y div 16), b64_char (y mod 16 * 4 + z div 64),
      b64_char (z mod 64)] @ b64encode rest)"

text \<open>
  The decoder skips characters outside the alphabet, stops at sufficient padding, and fails
  when the input ends inside a group of four.
\<close>

fun b64decode_loop :: "nat \<Rightarrow> nat \<Rightarrow> nat \<Rightarrow> string \<Rightarrow> string option" where
  "b64decode_loop quad pads leftover [] = (if quad = 0 then Some [] else None)"
| "b64decode_loop quad pads leftover (c # cs) =
     (if c = CHR ''=''
      then if 2 \<le> quad then (if 4 \<le> quad + Suc pads then Some [] else b64decode_loop quad (Suc pads) leftover cs)
           else b64decode_loop quad pads leftover cs
      else case b64_index c of
        None \<Rightarrow> b64decode_loop quad pads leftover cs
      | Some v \<Rightarrow>
          if quad = 0 then b64decode_loop 1 0 v cs
          else if quad = 1 then map_option ((#) (char_of (leftover * 4 + v div 16))) (b64decode_loop 2 0 (v mod 16) cs)
          else if quad = 2 then map_option ((#) (char_of (leftover * 16 + v div 4))) (b64decode_loop 3 0 (v mod 4) cs)
          else map_option ((#) (char_of (leftover * 64 + v))) (b64decode_loop 0 0 0 cs))"

definition b64decode :: "string \<Rightarrow> string option" where
  "b64decode s = b64decode_loop 0 0 0 s"

text \<open>\<open>int(s)\<close>: surrounding white space, a sign, digits with single underscores between them.\<close>

definition parse_digits :: "string \<Rightarrow> nat option" where
  "parse_digits s = (let parts = split_on CHR ''_'' s in
     if list_all (\<lambda>w. w \<noteq> [] \<and> list_all is_digit_char w) parts then Some (nat_of_digits (concat parts)) else None)"

definition parse_int :: "string \<Rightarrow> int option" where
  "parse_int s = (case strip s of
     [] \<Rightarrow> None
   | c # cs \<Rightarrow> if c = CHR ''-'' then map_option (\<lambda>n. - int n) (parse_digits cs)
              else if c = CHR ''+'' then map_option int (parse_digits cs)
              else map_option int (parse_digits (c # cs)))"

section \<open>Password hashes\<close>

type_synonym kdf = "string \<Rightarrow> string \<Rightarrow> int \<Rightarrow> int \<Rightarrow> int \<Rightarrow> nat \<Rightarrow> string option"

definition min_password_length :: nat where
  "min_password_length = 15"

definition password_msg :: failure where
  "password_msg = ValidationError (''password must be at least '' @ str_of_int (int min_password_length) @ '' characters'')"

definition validate_password :: "string option \<Rightarrow> unit result" where
  "validate_password p = (case p of
     None \<Rightarrow> Inl password_msg
   | Some s \<Rightarrow> if length s < min_password_length then Inl password_msg else Inr ())"

definition scrypt_n :: int where "scrypt_n = 16384"
definition scrypt_r :: int where "scrypt_r = 8"
definition scrypt_p :: int where "scrypt_p = 1"

definition hash_password :: "kdf \<Rightarrow> string \<Rightarrow> string \<Rightarrow> string result" where
  "hash_password kdf salt password = (case kdf password salt scrypt_n scrypt_r scrypt_p 32 of
     None \<Rightarrow> Inl (ValueError ''scrypt'')
   | Some dk \<Rightarrow> Inr (''scrypt$'' @ str_of_int scrypt_n @ ''$'' @ str_of_int scrypt_r @ ''$''
       @ str_of_int scrypt_p @ ''$'' @ b64encode salt @ ''$'' @ b64encode dk))"

definition verify_password :: "kdf \<Rightarrow> string \<Rightarrow> string \<Rightarrow> bool" where
  "verify_password kdf password stored = (case split_on CHR ''$'' stored of
     [_, n, r, p, salt_b64, hash_b64] \<Rightarrow>
       (case (b64decode salt_b64, b64decode hash_b64, parse_int n, parse_int r, parse_int p) of
          (Some salt, Some expected, Some n', Some r', Some p') \<Rightarrow>
            (case kdf password salt n' r' p' (length expected) of
               None \<Rightarrow> False
             | Some dk \<Rightarrow> dk = expected)
        | _ \<Rightarrow> False)
   | _ \<Rightarrow> False)"

section \<open>The login throttle\<close>

type_synonym fail_table = "(string, rat list) dict"

definition auth_fail_window :: rat where "auth_fail_window = 300"
definition auth_fail_max :: nat where "auth_fail_max = 10"

definition ip_key :: "string option \<Rightarrow> string" where
  "ip_key ip = take 128 (case ip of None \<Rightarrow> [] | Some s \<Rightarrow> s)"

definition move_to_end :: "'k \<Rightarrow> ('k, 'v) dict \<Rightarrow> ('k, 'v) dict" where
  "move_to_end k d = (case dget d k of None \<Rightarrow> d | Some v \<Rightarrow> ddel k d @ [(k, v)])"

definition login_locked :: "string option \<Rightarrow> rat \<Rightarrow> fail_table \<Rightarrow> bool \<times> fail_table" where
  "login_locked ip now fails =
     (let key = ip_key ip;
          recent = filter (\<lambda>t. now - t < auth_fail_window) (dget_or fails key [])
      in (auth_fail_max \<le> length recent,
          if recent \<noteq> [] then move_to_end key (dput key recent fails) else ddel key fails))"

definition record_login_fail :: "nat \<Rightarrow> string option \<Rightarrow> rat \<Rightarrow> fail_table \<Rightarrow> fail_table" where
  "record_login_fail keys_max ip now fails =
     (let key = ip_key ip;
          fails' = move_to_end key (dput key (dget_or fails key [] @ [now]) fails)
      in drop (length fails' - keys_max) fails')"

definition clear_login_fails :: "string option \<Rightarrow> fail_table \<Rightarrow> fail_table" where
  "clear_login_fails ip fails = ddel (ip_key ip) fails"

section \<open>Users\<close>

record user =
  user_id :: string
  username :: string
  pass_hash :: string
  role :: string
  created :: int
  notify_updates :: bool
  notify_failures :: bool
  notify_success :: bool

record session =
  sess_user :: string
  sess_created :: int
  sess_expires :: int

record 'r accounts =
  users :: "(string, user) dict"
  sessions :: "(string, session) dict"
  push_subs :: "(string, string) dict"
  device_owner :: "(string, string) dict"
  dashboard_owner :: "(string, string) dict"
  client_rosters :: "(string, 'r) dict"

record public_user =
  pub_id :: string
  pub_username :: string
  pub_role :: string

definition public_user_of :: "user \<Rightarrow> public_user" where
  "public_user_of u = \<lparr>pub_id = user_id u, pub_username = username u, pub_role = role u\<rparr>"

definition has_any_user :: "'r accounts \<Rightarrow> bool" where
  "has_any_user d \<longleftrightarrow> users d \<noteq> []"

definition new_user :: "string \<Rightarrow> string \<Rightarrow> string \<Rightarrow> string \<Rightarrow> int \<Rightarrow> user" where
  "new_user uid name hash rl now = \<lparr>user_id = uid, username = name, pass_hash = hash, role = rl,
     created = now, notify_updates = True, notify_failures = True, notify_success = True\<rparr>"

definition create_user ::
  "kdf \<Rightarrow> string \<Rightarrow> string \<Rightarrow> int \<Rightarrow> string option \<Rightarrow> string option \<Rightarrow> string \<Rightarrow> 'r accounts
   \<Rightarrow> public_user result \<times> 'r accounts" where
  "create_user kdf uid salt now name password rl d =
     (let name' = strip (case name of None \<Rightarrow> [] | Some s \<Rightarrow> s) in
      if name' = [] then (Inl (ValidationError ''username is required''), d)
      else case validate_password password of
        Inl e \<Rightarrow> (Inl e, d)
      | Inr _ \<Rightarrow>
          if rl \<notin> set [''admin'', ''member''] then (Inl (ValidationError ''invalid role''), d)
          else transact (\<lambda>d.
            if list_ex (\<lambda>u. lower (username u) = lower name') (dvals (users d))
            then Inl (Conflict ''username already taken'')
            else rbind (hash_password kdf salt (the password)) (\<lambda>hash.
              Inr (d\<lparr>users := dput uid (new_user uid name' hash rl now) (users d)\<rparr>,
                   public_user_of (new_user uid name' hash rl now)))) d)"

definition create_initial_admin ::
  "kdf \<Rightarrow> string \<Rightarrow> string \<Rightarrow> int \<Rightarrow> string option \<Rightarrow> string option \<Rightarrow> 'r accounts
   \<Rightarrow> public_user result \<times> 'r accounts" where
  "create_initial_admin kdf uid salt now name password d =
     (let name' = strip (case name of None \<Rightarrow> [] | Some s \<Rightarrow> s) in
      if name' = [] then (Inl (ValidationError ''username is required''), d)
      else case validate_password password of
        Inl e \<Rightarrow> (Inl e, d)
      | Inr _ \<Rightarrow> transact (\<lambda>d.
            if users d \<noteq> [] then Inl (Conflict ''already set up'')
            else rbind (hash_password kdf salt (the password)) (\<lambda>hash.
              Inr (d\<lparr>users := dput uid (new_user uid name' hash ''admin'' now) (users d)\<rparr>,
                   public_user_of (new_user uid name' hash ''admin'' now)))) d)"

definition list_users :: "'r accounts \<Rightarrow> public_user list" where
  "list_users d = map public_user_of (dvals (users d))"

definition count_owned :: "string \<Rightarrow> (string, string) dict \<Rightarrow> nat" where
  "count_owned uid owners = length (filter (\<lambda>o'. o' = uid) (dvals owners))"

definition admin_count :: "'r accounts \<Rightarrow> nat" where
  "admin_count d = length (filter (\<lambda>u. role u = ''admin'') (dvals (users d)))"

text \<open>The mutator's result: no such user, or how many devices and dashboards block it.\<close>

definition delete_user_mut :: "string \<Rightarrow> 'r accounts \<Rightarrow> ('r accounts \<times> (nat \<times> nat) option) result" where
  "delete_user_mut uid d = (case dget (users d) uid of
     None \<Rightarrow> Inr (d, None)
   | Some target \<Rightarrow>
       if role target = ''admin'' \<and> admin_count d \<le> 1 then Inl (Conflict ''cannot delete last admin'')
       else
         (let d1 = d\<lparr>sessions := dfilter (\<lambda>_ s. sess_user s \<noteq> uid) (sessions d),
                     push_subs := dfilter (\<lambda>_ o'. o' \<noteq> uid) (push_subs d)\<rparr>;
              devices = count_owned uid (device_owner d);
              dashboards = count_owned uid (dashboard_owner d)
          in if devices \<noteq> 0 \<or> dashboards \<noteq> 0 then Inr (d1, Some (devices, dashboards))
             else Inr (d1\<lparr>client_rosters := ddel uid (client_rosters d),
                          users := ddel uid (users d)\<rparr>, Some (0, 0))))"

definition owned_part :: "nat \<Rightarrow> string \<Rightarrow> string list" where
  "owned_part n kind = (if n = 0 then [] else [str_of_int (int n) @ '' '' @ (if n = 1 then butlast kind else kind)])"

definition delete_user :: "string \<Rightarrow> 'r accounts \<Rightarrow> unit result \<times> 'r accounts" where
  "delete_user uid d = (case transact (delete_user_mut uid) d of
     (Inl e, d') \<Rightarrow> (Inl e, d')
   | (Inr None, d') \<Rightarrow> (Inr (), d')
   | (Inr (Some (m, n)), d') \<Rightarrow>
       (if m = 0 \<and> n = 0 then (Inr (), d')
        else (Inl (Conflict (''cannot delete user while they own ''
                @ join_with '', '' (owned_part m ''devices'' @ owned_part n ''dashboards'')
                @ ''; delete those resources first'')), d')))"

definition set_password ::
  "kdf \<Rightarrow> (string \<Rightarrow> string) \<Rightarrow> string \<Rightarrow> string \<Rightarrow> string \<Rightarrow> string option \<Rightarrow> string option \<Rightarrow> 'r accounts
   \<Rightarrow> nat result \<times> 'r accounts" where
  "set_password kdf digest salt uid current_password password current_token d =
     (case validate_password password of
        Inl e \<Rightarrow> (Inl e, d)
      | Inr _ \<Rightarrow>
          (case hash_password kdf salt (the password) of
             Inl e \<Rightarrow> (Inl e, d)
           | Inr new_hash \<Rightarrow>
               (let current_session = (case current_token of
                      None \<Rightarrow> None | Some t \<Rightarrow> if t = [] then None else Some (digest t))
                in transact (\<lambda>d. case dget (users d) uid of
                     None \<Rightarrow> Inl (ValidationError ''current password is incorrect'')
                   | Some u \<Rightarrow>
                       if \<not> verify_password kdf current_password (pass_hash u)
                       then Inl (ValidationError ''current password is incorrect'')
                       else (let keep = (\<lambda>token s. \<not> (sess_user s = uid \<and> Some token \<noteq> current_session))
                             in Inr (d\<lparr>users := dput uid (u\<lparr>pass_hash := new_hash\<rparr>) (users d),
                                       sessions := dfilter keep (sessions d)\<rparr>,
                                     length (sessions d) - length (dfilter keep (sessions d))))) d)))"

section \<open>Sessions\<close>

definition session_ttl :: int where
  "session_ttl = 30 * 24 * 3600"

definition session_rank :: "string \<Rightarrow> session \<Rightarrow> int \<times> string" where
  "session_rank key s = (sess_created s, key)"

definition login_mut :: "nat \<Rightarrow> string \<Rightarrow> session \<Rightarrow> int \<Rightarrow> 'r accounts \<Rightarrow> ('r accounts \<times> unit) result" where
  "login_mut max_sessions key rec now d =
     (let stored = dput key rec (sessions d);
          live = dfilter (\<lambda>_ s. \<not> sess_expires s < now) stored
      in Inr (d\<lparr>sessions := prune_by session_rank max_sessions live\<rparr>, ()))"

definition login ::
  "kdf \<Rightarrow> (string \<Rightarrow> string) \<Rightarrow> nat \<Rightarrow> string \<Rightarrow> string \<Rightarrow> int \<Rightarrow> string option \<Rightarrow> string \<Rightarrow> 'r accounts
   \<Rightarrow> (string \<times> public_user) option \<times> 'r accounts" where
  "login kdf digest max_sessions dummy_hash token now name password d =
     (let norm = lower (strip (case name of None \<Rightarrow> [] | Some s \<Rightarrow> s));
          found = find (\<lambda>u. lower (username u) = norm) (dvals (users d));
          ok = verify_password kdf password (case found of Some u \<Rightarrow> pass_hash u | None \<Rightarrow> dummy_hash)
      in case found of
           None \<Rightarrow> (None, d)
         | Some u \<Rightarrow>
             if \<not> ok then (None, d)
             else (Some (token, public_user_of u),
                   snd (transact (login_mut max_sessions (digest token)
                     \<lparr>sess_user = user_id u, sess_created = now, sess_expires = now + session_ttl\<rparr> now) d)))"

definition logout :: "(string \<Rightarrow> string) \<Rightarrow> string option \<Rightarrow> 'r accounts \<Rightarrow> 'r accounts" where
  "logout digest token d = (case token of
     None \<Rightarrow> d
   | Some t \<Rightarrow> if t = [] then d else d\<lparr>sessions := ddel (digest t) (sessions d)\<rparr>)"

definition user_for_token ::
  "(string \<Rightarrow> string) \<Rightarrow> rat \<Rightarrow> string option \<Rightarrow> 'r accounts \<Rightarrow> public_user option \<times> 'r accounts" where
  "user_for_token digest now token d = (case token of
     None \<Rightarrow> (None, d)
   | Some t \<Rightarrow>
       if t = [] then (None, d)
       else (case dget (sessions d) (digest t) of
          None \<Rightarrow> (None, d)
        | Some s \<Rightarrow>
            if of_int (sess_expires s) < now
            then (None, d\<lparr>sessions := ddel (digest t) (sessions d)\<rparr>)
            else (map_option public_user_of (dget (users d) (sess_user s)), d)))"

section \<open>Actors and visibility\<close>

datatype actor_role = Admin | Member

record actor =
  actor_id :: string
  actor_role :: actor_role

definition role_of_string :: "string \<Rightarrow> actor_role result" where
  "role_of_string s = (if s = ''admin'' then Inr Admin else if s = ''member'' then Inr Member
     else Inl (ValueError (s @ '' is not a valid Role'')))"

definition actor_from_user :: "public_user \<Rightarrow> actor result" where
  "actor_from_user u = rbind (role_of_string (pub_role u)) (\<lambda>r. Inr \<lparr>actor_id = pub_id u, actor_role = r\<rparr>)"

definition is_admin :: "actor \<Rightarrow> bool" where
  "is_admin a \<longleftrightarrow> actor_role a = Admin"

definition require_admin :: "actor \<Rightarrow> actor result" where
  "require_admin a = (if is_admin a then Inr a else Inl (Forbidden ''admin only''))"

text \<open>A resource is found by its id; another tenant's resource answers as a missing one.\<close>

definition visible_resource :: "('v \<Rightarrow> string) \<Rightarrow> actor \<Rightarrow> string \<Rightarrow> (string, 'v) dict \<Rightarrow> 'v result" where
  "visible_resource owner a rid resources = (case dget resources rid of
     None \<Rightarrow> Inl (NotFound ''not found'')
   | Some v \<Rightarrow> if \<not> is_admin a \<and> owner v \<noteq> actor_id a then Inl (NotFound ''not found'') else Inr v)"

definition visible_dashboard ::
  "('v \<Rightarrow> string) \<Rightarrow> actor \<Rightarrow> string option \<Rightarrow> bool \<Rightarrow> (string, 'v) dict \<Rightarrow> 'v option result" where
  "visible_dashboard owner a rid allow_unassigned resources =
     (let given = (case rid of None \<Rightarrow> None | Some i \<Rightarrow> if i = [] then None else Some i) in
      case given of
        None \<Rightarrow> (if allow_unassigned then Inr None else Inl (NotFound ''not found''))
      | Some i \<Rightarrow> rbind (visible_resource owner a i resources) (\<lambda>v. Inr (Some v)))"


section \<open>Round trip of a password hash\<close>

lemma b64_index_char: "n < 64 \<Longrightarrow> b64_index (b64_char n) = Some n"
  by (auto simp: b64_index_def b64_char_def Let_def)

lemma b64_char_plain: "n < 64 \<Longrightarrow> b64_char n \<noteq> CHR ''='' \<and> b64_char n \<noteq> CHR ''$''"
proof -
  assume n: "n < 64"
  have "b64_index (CHR ''='') = None" "b64_index (CHR ''$'') = None"
    by (simp_all add: b64_index_def)
  with b64_index_char [OF n] show ?thesis by (metis option.distinct(1))
qed

lemma b64_loop_value:
  "n < 64 \<Longrightarrow> b64decode_loop quad pads left (b64_char n # cs) =
     (if quad = 0 then b64decode_loop 1 0 n cs
      else if quad = 1 then map_option ((#) (char_of (left * 4 + n div 16))) (b64decode_loop 2 0 (n mod 16) cs)
      else if quad = 2 then map_option ((#) (char_of (left * 16 + n div 4))) (b64decode_loop 3 0 (n mod 4) cs)
      else map_option ((#) (char_of (left * 64 + n))) (b64decode_loop 0 0 0 cs))"
  by (simp add: b64_index_char b64_char_plain)

lemma b64_loop_pad:
  "2 \<le> quad \<Longrightarrow> b64decode_loop quad pads left (CHR ''='' # cs) =
     (if 4 \<le> quad + Suc pads then Some [] else b64decode_loop quad (Suc pads) left cs)"
  by simp

declare b64decode_loop.simps(2) [simp del]

lemma b64_parts:
  fixes x y z :: nat
  assumes "x < 256" "y < 256" "z < 256"
  shows "x div 4 < 64" "x mod 4 * 16 + y div 16 < 64" "y mod 16 * 4 + z div 64 < 64" "z mod 64 < 64"
    "x div 4 * 4 + (x mod 4 * 16 + y div 16) div 16 = x"
    "(x mod 4 * 16 + y div 16) mod 16 * 16 + (y mod 16 * 4 + z div 64) div 4 = y"
    "(y mod 16 * 4 + z div 64) mod 4 * 64 + z mod 64 = z"
proof -
  have b: "y div 16 < 16" "z div 64 < 4" "x mod 4 < 4" "y mod 16 < 16"
    using assms by simp_all
  then show "x div 4 < 64" "x mod 4 * 16 + y div 16 < 64" "y mod 16 * 4 + z div 64 < 64" "z mod 64 < 64"
    using assms by linarith+
  from b have "(x mod 4 * 16 + y div 16) div 16 = x mod 4" "(x mod 4 * 16 + y div 16) mod 16 = y div 16"
    "(y mod 16 * 4 + z div 64) div 4 = y mod 16" "(y mod 16 * 4 + z div 64) mod 4 = z div 64"
    by simp_all
  then show "x div 4 * 4 + (x mod 4 * 16 + y div 16) div 16 = x"
    "(x mod 4 * 16 + y div 16) mod 16 * 16 + (y mod 16 * 4 + z div 64) div 4 = y"
    "(y mod 16 * 4 + z div 64) mod 4 * 64 + z mod 64 = z"
    by simp_all
qed

lemma b64_roundtrip: "b64decode (b64encode s) = Some s"
proof -
  have "b64decode_loop 0 0 0 (b64encode s) = Some s"
  proof (induction s rule: b64encode.induct)
    case 1
    then show ?case by simp
  next
    case (2 a)
    have a: "of_char a < (256::nat)" by simp
    note p = b64_parts [OF a, of 0 0, simplified]
    show ?case
      using p by (simp add: Let_def b64_loop_value b64_loop_pad)
  next
    case (3 a b)
    have a: "of_char a < (256::nat)" and b: "of_char b < (256::nat)" by simp_all
    note p = b64_parts [OF a b, of 0, simplified]
    show ?case
      using p by (simp add: Let_def b64_loop_value b64_loop_pad)
  next
    case (4 a b c rest)
    have a: "of_char a < (256::nat)" and b: "of_char b < (256::nat)" and c: "of_char c < (256::nat)"
      by simp_all
    note p = b64_parts [OF a b c]
    show ?case
      using p 4 by (simp add: Let_def b64_loop_value b64_loop_pad)
  qed
  then show ?thesis by (simp add: b64decode_def)
qed

lemma b64_no_dollar: "CHR ''$'' \<notin> set (b64encode s)"
proof (induction s rule: b64encode.induct)
  case (2 a)
  have a: "of_char a < (256::nat)" by simp
  note p = b64_parts [OF a, of 0 0, simplified]
  from p show ?case
    by (simp add: Let_def b64_char_plain [THEN conjunct2, symmetric])
next
  case (3 a b)
  have a: "of_char a < (256::nat)" and b: "of_char b < (256::nat)" by simp_all
  note p = b64_parts [OF a b, of 0, simplified]
  from p show ?case
    by (simp add: Let_def b64_char_plain [THEN conjunct2, symmetric])
next
  case (4 a b c rest)
  have a: "of_char a < (256::nat)" and b: "of_char b < (256::nat)" and c: "of_char c < (256::nat)"
    by simp_all
  note p = b64_parts [OF a b c]
  from p 4 show ?case
    by (simp add: Let_def b64_char_plain [THEN conjunct2, symmetric])
qed simp

lemma scrypt_fields:
  "str_of_int scrypt_n = ''16384''" "str_of_int scrypt_r = ''8''" "str_of_int scrypt_p = ''1''"
  by (simp_all add: scrypt_n_def scrypt_r_def scrypt_p_def str_of_int_def digits_of_nat.simps digit_chars)

lemma parse_scrypt_fields:
  "parse_int ''16384'' = Some scrypt_n" "parse_int ''8'' = Some scrypt_r" "parse_int ''1'' = Some scrypt_p"
  by (simp_all add: parse_int_def strip_def is_space_def parse_digits_def is_digit_char_def
      nat_of_digits_def scrypt_n_def scrypt_r_def scrypt_p_def Let_def)

lemma split_hash_fields:
  "split_on CHR ''$'' (''scrypt$16384$8$1$'' @ b64encode a @ ''$'' @ b64encode b) =
     [''scrypt'', ''16384'', ''8'', ''1'', b64encode a, b64encode b]"
  by (simp add: split_on_append split_on_no_sep b64_no_dollar)

lemma verify_hash_eq:
  assumes "hash_password kdf salt pw = Inr h"
  shows "\<exists>dk. kdf pw salt scrypt_n scrypt_r scrypt_p 32 = Some dk \<and>
    (\<forall>pw'. verify_password kdf pw' h \<longleftrightarrow> kdf pw' salt scrypt_n scrypt_r scrypt_p (length dk) = Some dk)"
proof -
  from assms obtain dk where dk: "kdf pw salt scrypt_n scrypt_r scrypt_p 32 = Some dk"
    and h: "h = ''scrypt$16384$8$1$'' @ b64encode salt @ ''$'' @ b64encode dk"
    by (auto simp: hash_password_def scrypt_fields split: option.splits)
  have "verify_password kdf pw' h \<longleftrightarrow> kdf pw' salt scrypt_n scrypt_r scrypt_p (length dk) = Some dk" for pw'
    unfolding verify_password_def h split_hash_fields
    by (simp add: b64_roundtrip parse_scrypt_fields split: option.split)
  with dk show ?thesis by blast
qed


section \<open>The throttle\<close>

lemma dkeys_move_to_end: "k \<in> set (dkeys d) \<Longrightarrow> set (dkeys (move_to_end k d)) = set (dkeys d)"
  by (auto simp: move_to_end_def dkeys_ddel simp del: set_map split: option.split)

lemma length_move_to_end: "dict_ok d \<Longrightarrow> length (move_to_end k d) = length d"
proof (cases "dget d k")
  case None
  then show ?thesis by (simp add: move_to_end_def)
next
  case (Some v)
  assume ok: "dict_ok d"
  from Some have k: "k \<in> set (dkeys d)" by (metis dget_None_iff option.distinct(1))
  then have "d \<noteq> []" by auto
  with Some length_ddel_mem [OF ok k] show ?thesis by (simp add: move_to_end_def Suc_diff_1)
qed

lemma dict_ok_move_to_end: "dict_ok d \<Longrightarrow> dict_ok (move_to_end k d)"
  by (auto simp: move_to_end_def dget_None_iff [symmetric] simp del: set_map split: option.split)

lemma dict_ok_drop: "dict_ok d \<Longrightarrow> dict_ok (drop n d)"
  by (simp flip: drop_map)

lemma record_login_fail_last:
  assumes "0 < m"
  shows "\<exists>rest. record_login_fail m ip now fails =
    rest @ [(ip_key ip, dget_or fails (ip_key ip) [] @ [now])]"
proof -
  let ?new = "dget_or fails (ip_key ip) [] @ [now]"
  let ?d = "move_to_end (ip_key ip) (dput (ip_key ip) ?new fails)"
  have d: "?d = ddel (ip_key ip) (dput (ip_key ip) ?new fails) @ [(ip_key ip, ?new)]"
    by (simp add: move_to_end_def)
  have "length ?d - m \<le> length (ddel (ip_key ip) (dput (ip_key ip) ?new fails))"
    using assms by (simp add: d)
  then show ?thesis
    by (simp add: record_login_fail_def Let_def d)
qed

lemma dget_snoc_dict_ok: "dict_ok (rest @ [(k, v)]) \<Longrightarrow> dget (rest @ [(k, v)]) k = Some v"
  by (induction rest) auto

lemma dict_ok_record: "dict_ok fails \<Longrightarrow> dict_ok (record_login_fail m ip now fails)"
  by (simp add: record_login_fail_def Let_def dict_ok_move_to_end dict_ok_drop)

lemma record_login_fail_get:
  assumes "0 < m" and "dict_ok fails"
  shows "dget (record_login_fail m ip now fails) (ip_key ip) =
    Some (dget_or fails (ip_key ip) [] @ [now])"
proof -
  obtain rest where r: "record_login_fail m ip now fails =
    rest @ [(ip_key ip, dget_or fails (ip_key ip) [] @ [now])]"
    using record_login_fail_last [OF assms(1)] by blast
  with dict_ok_record [OF assms(2), of m ip now] show ?thesis
    by (simp only: dget_snoc_dict_ok)
qed

lemma record_run_get:
  "0 < m \<Longrightarrow> dict_ok fails \<Longrightarrow>
   dget_or (fold (record_login_fail m ip) ts fails) (ip_key ip) [] = dget_or fails (ip_key ip) [] @ ts \<and>
   dict_ok (fold (record_login_fail m ip) ts fails)"
proof (induction ts arbitrary: fails)
  case Nil
  then show ?case by simp
next
  case (Cons t ts)
  have "dget_or (record_login_fail m ip t fails) (ip_key ip) [] = dget_or fails (ip_key ip) [] @ [t]"
    using record_login_fail_get [OF Cons.prems] by (simp add: dget_or_def)
  with Cons.IH [OF Cons.prems(1) dict_ok_record [OF Cons.prems(2)]] show ?case by simp
qed

text \<open>
  Failed attempts of one address lock it exactly when at least ten of them fall
  into the last five minutes, the table of addresses never grows past its limit, and clearing
  the address unlocks it.
\<close>

theorem throttle_locks:
  assumes "0 < m" and "dict_ok fails"
  shows "(fst (login_locked ip now (fold (record_login_fail m ip) ts fails)) \<longleftrightarrow>
      10 \<le> length (filter (\<lambda>t. now - t < 300) (dget_or fails (ip_key ip) [] @ ts))) \<and>
    length (record_login_fail m ip now fails) \<le> m \<and>
    \<not> fst (login_locked ip now (clear_login_fails ip fails))"
proof (intro conjI)
  show "fst (login_locked ip now (fold (record_login_fail m ip) ts fails)) \<longleftrightarrow>
      10 \<le> length (filter (\<lambda>t. now - t < 300) (dget_or fails (ip_key ip) [] @ ts))"
    using record_run_get [OF assms, of ip ts]
    by (simp add: login_locked_def Let_def auth_fail_max_def auth_fail_window_def)
  show "length (record_login_fail m ip now fails) \<le> m"
    by (simp add: record_login_fail_def Let_def)
  show "\<not> fst (login_locked ip now (clear_login_fails ip fails))"
    by (simp add: login_locked_def clear_login_fails_def Let_def dget_or_def auth_fail_max_def)
qed

theorem throttle_locks_witness:
  "fst (login_locked (Some ''10.0.0.9'') 100
     (fold (record_login_fail 100 (Some ''10.0.0.9'')) [1, 2, 3, 4, 5, 6, 7, 8, 9, 10] []))"
  using throttle_locks [of 100 "[]" "Some ''10.0.0.9''" 100 "[1, 2, 3, 4, 5, 6, 7, 8, 9, 10]"]
  by (simp add: dget_or_def)

section \<open>Passwords\<close>

text \<open>
  Property C7: the stored form of a password verifies that password, and another password
  verifies exactly when the key derivation gives it the same key under the stored salt and
  parameters; the base64 fields and the dollar separators lose nothing.
\<close>

theorem password_hash_roundtrip:
  assumes "hash_password kdf salt pw = Inr h"
    and "\<And>p s n r q k dk. kdf p s n r q k = Some dk \<Longrightarrow> length dk = k"
  shows "verify_password kdf pw h \<and>
    (\<forall>pw'. verify_password kdf pw' h \<longleftrightarrow> kdf pw' salt 16384 8 1 32 = kdf pw salt 16384 8 1 32)"
proof -
  obtain dk where dk: "kdf pw salt scrypt_n scrypt_r scrypt_p 32 = Some dk"
    and v: "\<And>pw'. verify_password kdf pw' h \<longleftrightarrow>
      kdf pw' salt scrypt_n scrypt_r scrypt_p (length dk) = Some dk"
    using verify_hash_eq [OF assms(1)] by blast
  from assms(2) [OF dk] dk v show ?thesis by (auto simp: scrypt_n_def scrypt_r_def scrypt_p_def)
qed

definition toy_kdf :: kdf where
  "toy_kdf p s n r q k = Some (take k (p @ s @ replicate k (CHR ''x'')))"

theorem password_hash_roundtrip_witness:
  "\<exists>h. hash_password toy_kdf ''salt'' ''secret'' = Inr h \<and> verify_password toy_kdf ''secret'' h \<and>
     \<not> verify_password toy_kdf ''other'' h"
proof -
  obtain h where h: "hash_password toy_kdf ''salt'' ''secret'' = Inr h"
    by (simp add: hash_password_def toy_kdf_def)
  have len: "length dk = k" if "toy_kdf p s n r q k = Some dk" for p s n r q k dk
    using that by (auto simp: toy_kdf_def)
  have "verify_password toy_kdf ''secret'' h \<and> (\<forall>pw'. verify_password toy_kdf pw' h \<longleftrightarrow>
      toy_kdf pw' ''salt'' 16384 8 1 32 = toy_kdf ''secret'' ''salt'' 16384 8 1 32)"
    by (rule password_hash_roundtrip [OF h]) (rule len)
  with h show ?thesis by (auto simp: toy_kdf_def numeral_eq_Suc)
qed


section \<open>Well-formed accounts\<close>

definition accounts_ok :: "'r accounts \<Rightarrow> bool" where
  "accounts_ok d \<longleftrightarrow> dict_ok (users d) \<and> dict_ok (sessions d) \<and>
     (\<forall>k u. dget (users d) k = Some u \<longrightarrow> user_id u = k) \<and>
     (\<forall>k k' u u'. dget (users d) k = Some u \<longrightarrow> dget (users d) k' = Some u' \<longrightarrow>
        lower (username u) = lower (username u') \<longrightarrow> k = k')"

definition has_admin :: "'r accounts \<Rightarrow> bool" where
  "has_admin d \<longleftrightarrow> (\<exists>k u. dget (users d) k = Some u \<and> role u = ''admin'')"

lemma dget_dvals: "dget d k = Some v \<Longrightarrow> v \<in> set (dvals d)"
  by (auto dest: dget_mem simp: rev_image_eqI)

lemma dvals_dget: "dict_ok d \<Longrightarrow> v \<in> set (dvals d) \<Longrightarrow> \<exists>k. dget d k = Some v"
  by (auto simp: image_iff dget_mem_iff)

lemma length_filter_ddel:
  "dict_ok d \<Longrightarrow> length (filter P (dvals d)) \<le> Suc (length (filter P (dvals (ddel k d))))"
proof (induction d)
  case Nil
  then show ?case by simp
next
  case (Cons kv d)
  then show ?case by (cases kv) (auto simp: delete_id)
qed

lemma has_admin_count: "dict_ok (users d) \<Longrightarrow> has_admin d \<longleftrightarrow> 0 < admin_count d"
  unfolding has_admin_def admin_count_def
  by (force simp: filter_empty_conv dget_mem_iff)

lemma has_admin_ddel:
  assumes "dict_ok (users d)" and "has_admin d" and "dget (users d) uid = Some u"
    and "\<not> (role u = ''admin'' \<and> admin_count d \<le> 1)"
  shows "\<exists>k u'. k \<noteq> uid \<and> dget (users d) k = Some u' \<and> role u' = ''admin''"
proof (cases "role u = ''admin''")
  case False
  from assms(2) obtain k u' where k: "dget (users d) k = Some u'" "role u' = ''admin''"
    by (auto simp: has_admin_def)
  with False assms(3) have "k \<noteq> uid" by auto
  with k show ?thesis by blast
next
  case True
  let ?d = "d\<lparr>users := ddel uid (users d)\<rparr>"
  from True assms(4) have "2 \<le> admin_count d" by simp
  moreover have "admin_count d \<le> Suc (admin_count ?d)"
    using length_filter_ddel [OF assms(1), of "\<lambda>u. role u = ''admin''" uid]
    unfolding admin_count_def by simp
  ultimately have "0 < admin_count ?d" by linarith
  with has_admin_count [of ?d] assms(1) have "has_admin ?d" by simp
  then show ?thesis by (auto simp: has_admin_def split: if_splits)
qed

section \<open>Sessions\<close>

lemma login_mut_sessions:
  "login_mut m k rec now d = Inr (d', u) \<Longrightarrow> dict_ok (sessions d) \<Longrightarrow>
   dict_ok (sessions d') \<and> length (sessions d') \<le> m \<and> users d' = users d \<and>
   (\<forall>key s. dget (sessions d') key = Some s \<longrightarrow> now \<le> sess_expires s)"
  by (auto simp: login_mut_def Let_def length_prune_by dget_prune_by dget_dfilter
      split: if_splits option.splits)

lemma newest_session_survives:
  assumes ok: "dict_ok d" and m: "0 < m" and k: "dget d k = Some rec"
    and newest: "\<And>k' s. dget d k' = Some s \<Longrightarrow> k' \<noteq> k \<Longrightarrow> sess_created s < sess_created rec"
  shows "dget (prune_by session_rank m d) k = Some rec"
proof (rule ccontr)
  assume "dget (prune_by session_rank m d) k \<noteq> Some rec"
  with k have gone: "k \<in> set (oldest_keys session_rank m d)"
    by (auto simp: dget_prune_by split: if_splits)
  from k have "d \<noteq> []" by auto
  with m ok have "0 < length (prune_by session_rank m d)" by (simp add: length_prune_by)
  then obtain y w where "(y, w) \<in> set (prune_by session_rank m d)"
    by (metis length_greater_0_conv list.set_sel(1) prod.exhaust)
  with ok have y: "dget (prune_by session_rank m d) y = Some w" by (simp add: dget_mem_iff)
  then have "y \<noteq> k" "dget d y = Some w" using gone by (auto simp: dget_prune_by split: if_splits)
  with newest have "sess_created w < sess_created rec" by blast
  moreover have "session_rank k rec \<le> session_rank y w" by (rule prune_by_order [OF gone k y])
  ultimately show False by (auto simp: session_rank_def)
qed

lemma find_user:
  "accounts_ok d \<Longrightarrow> find P (dvals (users d)) = Some u \<Longrightarrow> P u \<and> dget (users d) (user_id u) = Some u"
proof -
  assume ok: "accounts_ok d" and f: "find P (dvals (users d)) = Some u"
  then have "P u" and "u \<in> set (dvals (users d))"
    unfolding find_Some_iff by (metis nth_mem)+
  moreover from this ok obtain k where "dget (users d) k = Some u"
    using dvals_dget [of "users d" u] by (auto simp: accounts_ok_def simp del: set_map)
  ultimately show ?thesis using ok by (auto simp: accounts_ok_def)
qed

lemma login_cases:
  assumes "login kdf digest m dummy token now name password d = (Some r, d')"
  obtains u where "find (\<lambda>u. lower (username u) = lower (strip (case name of None \<Rightarrow> [] | Some s \<Rightarrow> s))) (dvals (users d)) = Some u"
    "verify_password kdf password (pass_hash u)" "r = (token, public_user_of u)"
    "login_mut m (digest token) \<lparr>sess_user = user_id u, sess_created = now, sess_expires = now + session_ttl\<rparr> now d = Inr (d', ())"
  using assms by (auto simp: login_def Let_def transact_def login_mut_def split: option.splits if_splits)

text \<open>
  Property C6: a login succeeds only for a stored user whose name matches up to case and
  whose hash verifies the password; its token then names that user until the session expires,
  names nobody afterwards, and names nobody after a logout.
\<close>

theorem login_session_lifecycle:
  assumes ok: "accounts_ok d" and m: "0 < m" and t: "token \<noteq> []"
    and later: "\<And>k s. dget (sessions d) k = Some s \<Longrightarrow> sess_created s < now"
    and l: "login kdf digest m dummy token now name password d = (Some (token', pu), d')"
  shows "token' = token \<and>
    (\<exists>u. dget (users d) (pub_id pu) = Some u \<and> pu = public_user_of u \<and>
       verify_password kdf password (pass_hash u) \<and>
       lower (username u) = lower (strip (case name of None \<Rightarrow> [] | Some s \<Rightarrow> s))) \<and>
    (\<forall>clock. fst (user_for_token digest clock (Some token) d') =
       (if of_int (now + session_ttl) < clock then None else Some pu)) \<and>
    (\<forall>clock. fst (user_for_token digest clock (Some token) (logout digest (Some token) d')) = None)"
proof -
  from l obtain u where u: "find (\<lambda>u. lower (username u) = lower (strip (case name of None \<Rightarrow> [] | Some s \<Rightarrow> s))) (dvals (users d)) = Some u"
    "verify_password kdf password (pass_hash u)" "token' = token" "pu = public_user_of u"
    and lm: "login_mut m (digest token) \<lparr>sess_user = user_id u, sess_created = now, sess_expires = now + session_ttl\<rparr> now d = Inr (d', ())"
    by (rule login_cases) auto
  from find_user [OF ok u(1)] have nm: "lower (username u) = lower (strip (case name of None \<Rightarrow> [] | Some s \<Rightarrow> s))"
    and us: "dget (users d) (user_id u) = Some u" by auto
  let ?rec = "\<lparr>sess_user = user_id u, sess_created = now, sess_expires = now + session_ttl\<rparr>"
  let ?live = "dfilter (\<lambda>_ s. \<not> sess_expires s < now) (dput (digest token) ?rec (sessions d))"
  from ok have so: "dict_ok (sessions d)" by (simp add: accounts_ok_def)
  then have lo: "dict_ok ?live" by simp
  have k: "dget ?live (digest token) = Some ?rec"
    using so by (simp add: dget_dfilter session_ttl_def)
  have "dget (prune_by session_rank m ?live) (digest token) = Some ?rec"
  proof (rule newest_session_survives [OF lo m k])
    show "sess_created s < sess_created ?rec" if "dget ?live k' = Some s" "k' \<noteq> digest token" for k' s
      using that so later by (auto simp: dget_dfilter split: option.splits if_splits)
  qed
  with lm have se: "dget (sessions d') (digest token) = Some ?rec" and ud: "users d' = users d"
    by (auto simp: login_mut_def Let_def)
  show ?thesis using u nm us se ud t
    by (auto simp: user_for_token_def logout_def public_user_of_def)
qed


section \<open>Every run of the account operations\<close>

text \<open>
  One step is one operation with any arguments, or a change of the collections other modules
  own. New identifiers are random and not in use.
\<close>

inductive auth_step :: "kdf \<Rightarrow> (string \<Rightarrow> string) \<Rightarrow> nat \<Rightarrow> string \<Rightarrow> 'r accounts \<Rightarrow> 'r accounts \<Rightarrow> bool"
  for kdf digest m dummy where
  step_create: "dget (users d) uid = None \<Longrightarrow>
    auth_step kdf digest m dummy d (snd (create_user kdf uid salt now name pw rl d))"
| step_initial: "dget (users d) uid = None \<Longrightarrow>
    auth_step kdf digest m dummy d (snd (create_initial_admin kdf uid salt now name pw d))"
| step_delete: "auth_step kdf digest m dummy d (snd (delete_user uid d))"
| step_password: "auth_step kdf digest m dummy d (snd (set_password kdf digest salt uid cur pw tok d))"
| step_login: "auth_step kdf digest m dummy d (snd (login kdf digest m dummy token now name pw2 d))"
| step_logout: "auth_step kdf digest m dummy d (logout digest tok d)"
| step_token: "auth_step kdf digest m dummy d (snd (user_for_token digest clock tok d))"
| step_other: "auth_step kdf digest m dummy d (d\<lparr>push_subs := ps, device_owner := dv,
    dashboard_owner := db, client_rosters := cr\<rparr>)"

inductive auth_run :: "kdf \<Rightarrow> (string \<Rightarrow> string) \<Rightarrow> nat \<Rightarrow> string \<Rightarrow> 'r accounts \<Rightarrow> 'r accounts \<Rightarrow> bool"
  for kdf digest m dummy where
  run_refl: "auth_run kdf digest m dummy d d"
| run_step: "auth_run kdf digest m dummy d d1 \<Longrightarrow> auth_step kdf digest m dummy d1 d2 \<Longrightarrow>
    auth_run kdf digest m dummy d d2"

inductive_cases auth_stepE: "auth_step kdf digest m dummy d d'"

definition account_inv :: "nat \<Rightarrow> 'r accounts \<Rightarrow> bool" where
  "account_inv m d \<longleftrightarrow> accounts_ok d \<and> length (sessions d) \<le> m"

lemma accounts_ok_add:
  "accounts_ok d \<Longrightarrow> dget (users d) uid = None \<Longrightarrow>
   \<not> list_ex (\<lambda>u. lower (username u) = lower name) (dvals (users d)) \<Longrightarrow>
   accounts_ok (d\<lparr>users := dput uid (new_user uid name hash rl now) (users d)\<rparr>)"
  by (auto simp: accounts_ok_def list_ex_iff new_user_def dest!: dget_dvals)

lemma has_admin_dput:
  assumes "has_admin d" and "\<And>u0. dget (users d) uid = Some u0 \<Longrightarrow> role u = role u0"
  shows "has_admin (d\<lparr>users := dput uid u (users d)\<rparr>)"
proof -
  from assms(1) obtain k u' where k: "dget (users d) k = Some u'" "role u' = ''admin''"
    by (auto simp: has_admin_def)
  show ?thesis
  proof (cases "k = uid")
    case True
    with k assms(2) have "role u = ''admin''" by simp
    then show ?thesis unfolding has_admin_def by (intro exI [of _ uid] exI [of _ u]) simp
  next
    case False
    with k show ?thesis unfolding has_admin_def by (intro exI [of _ k] exI [of _ u']) simp
  qed
qed

lemma has_admin_sessions [simp]: "has_admin (d\<lparr>sessions := ss\<rparr>) = has_admin d"
  by (simp add: has_admin_def)

lemma accounts_ok_first:
  "accounts_ok d \<Longrightarrow> users d = [] \<Longrightarrow>
   accounts_ok (d\<lparr>users := [(uid, new_user uid name hash rl now)]\<rparr>) \<and> \<not> has_admin d"
  by (auto simp: accounts_ok_def new_user_def has_admin_def split: if_splits)

lemma length_dfilter: "length (dfilter P d) \<le> length d"
  by (simp add: dfilter_def)

lemma create_user_inv:
  "account_inv m d \<Longrightarrow> dget (users d) uid = None \<Longrightarrow>
   account_inv m (snd (create_user kdf uid salt now name pw rl d)) \<and>
   (has_admin d \<longrightarrow> has_admin (snd (create_user kdf uid salt now name pw rl d)))"
  by (auto simp: create_user_def Let_def transact_def rbind_def account_inv_def accounts_ok_add
      split: sum.split prod.split intro!: has_admin_dput)

lemma create_initial_inv:
  "account_inv m d \<Longrightarrow> dget (users d) uid = None \<Longrightarrow>
   account_inv m (snd (create_initial_admin kdf uid salt now name pw d)) \<and>
   (has_admin d \<longrightarrow> has_admin (snd (create_initial_admin kdf uid salt now name pw d)))"
  by (auto simp: create_initial_admin_def Let_def transact_def rbind_def account_inv_def
      accounts_ok_first split: sum.split prod.split)

lemma delete_user_snd: "snd (delete_user uid d) = snd (transact (delete_user_mut uid) d)"
  by (auto simp: delete_user_def split: prod.split sum.split option.split)

lemma accounts_ok_sub:
  assumes "accounts_ok d" and "dict_ok (users e)" "dict_ok (sessions e)"
    and sub: "\<And>k u. dget (users e) k = Some u \<Longrightarrow> dget (users d) k = Some u"
  shows "accounts_ok e"
  using assms(1-3) unfolding accounts_ok_def by (blast dest: sub)

lemma delete_user_inv:
  assumes "account_inv m d"
  shows "account_inv m (snd (delete_user uid d)) \<and> (has_admin d \<longrightarrow> has_admin (snd (delete_user uid d)))"
proof (cases "dget (users d) uid")
  case None
  with assms show ?thesis by (simp add: delete_user_snd delete_user_mut_def transact_def)
next
  case (Some u)
  let ?refused = "role u = ''admin'' \<and> admin_count d \<le> 1"
  have lf: "length (dfilter (\<lambda>_ s. sess_user s \<noteq> uid) (sessions d)) \<le> length (sessions d)"
    by (rule length_dfilter)
  show ?thesis
  proof (cases ?refused)
    case True
    with Some assms show ?thesis by (simp add: delete_user_snd delete_user_mut_def transact_def)
  next
    case False
    from assms have du: "dict_ok (users d)" by (simp add: account_inv_def accounts_ok_def)
    have adm: "has_admin d \<Longrightarrow> \<exists>k u'. k \<noteq> uid \<and> dget (users d) k = Some u' \<and> role u' = ''admin''"
      using has_admin_ddel [OF du _ Some False] by blast
    have "has_admin d \<longrightarrow> has_admin (snd (delete_user uid d))"
      using adm False Some
      by (auto simp: delete_user_snd delete_user_mut_def transact_def Let_def has_admin_def)
    moreover have "accounts_ok (snd (delete_user uid d))"
    proof (rule accounts_ok_sub)
      show "accounts_ok d" using assms by (simp add: account_inv_def)
      show "dict_ok (users (snd (delete_user uid d)))" "dict_ok (sessions (snd (delete_user uid d)))"
        using False Some du assms
        by (simp_all add: delete_user_snd delete_user_mut_def transact_def Let_def account_inv_def
            accounts_ok_def)
      show "dget (users d) k = Some v" if "dget (users (snd (delete_user uid d))) k = Some v" for k v
        using that False Some
        by (simp add: delete_user_snd delete_user_mut_def transact_def Let_def split: if_splits)
    qed
    moreover have "length (sessions (snd (delete_user uid d))) \<le> m"
      using assms lf False Some
      by (simp add: delete_user_snd delete_user_mut_def transact_def Let_def account_inv_def)
    ultimately have "(has_admin d \<longrightarrow> has_admin (snd (delete_user uid d))) \<and>
        account_inv m (snd (delete_user uid d))"
      by (simp add: account_inv_def)
    then show ?thesis by blast
  qed
qed

lemma set_password_inv:
  assumes "account_inv m d"
  shows "account_inv m (snd (set_password kdf digest salt uid cur pw tok d)) \<and>
    (has_admin d \<longrightarrow> has_admin (snd (set_password kdf digest salt uid cur pw tok d)))"
proof -
  have "account_inv m (d\<lparr>users := dput uid (u\<lparr>pass_hash := h\<rparr>) (users d), sessions := dfilter P (sessions d)\<rparr>)"
    if "dget (users d) uid = Some u" for u h P
    using assms that length_dfilter [of P "sessions d"]
    by (auto simp: account_inv_def accounts_ok_def)
  moreover have "has_admin (d\<lparr>users := dput uid (u\<lparr>pass_hash := h\<rparr>) (users d), sessions := ss\<rparr>)"
    if "dget (users d) uid = Some u" "has_admin d" for u h ss
    using has_admin_dput [OF that(2), of uid "u\<lparr>pass_hash := h\<rparr>"] that(1)
    by (simp add: has_admin_def)
  ultimately show ?thesis using assms
    by (auto simp: set_password_def Let_def transact_def split: sum.split option.split)
qed

lemma login_inv:
  assumes "account_inv m d"
  shows "account_inv m (snd (login kdf digest m dummy token now name pw d)) \<and>
    (has_admin d \<longrightarrow> has_admin (snd (login kdf digest m dummy token now name pw d)))"
proof -
  have "account_inv m d' \<and> users d' = users d" if "login_mut m k rec now d = Inr (d', u)" for k rec d' u
    using login_mut_sessions [OF that] assms by (auto simp: account_inv_def accounts_ok_def)
  with assms show ?thesis
    by (auto simp: login_def Let_def transact_def has_admin_def split: option.split sum.split)
qed

lemma session_drop_inv:
  "account_inv m d \<Longrightarrow> account_inv m (d\<lparr>sessions := ddel k (sessions d)\<rparr>)"
  using length_delete_le [of k "sessions d"] by (auto simp: account_inv_def accounts_ok_def)

lemma auth_step_inv:
  assumes "auth_step kdf digest m dummy d d'" and "account_inv m d"
  shows "account_inv m d' \<and> (has_admin d \<longrightarrow> has_admin d')"
  using assms
proof (cases rule: auth_step.cases)
  case (step_logout tok)
  with assms(2) session_drop_inv show ?thesis
    by (auto simp: logout_def has_admin_def split: option.split)
next
  case (step_token clock tok)
  with assms(2) session_drop_inv show ?thesis
    by (auto simp: user_for_token_def has_admin_def split: option.split)
next
  case (step_other ps dv db cr)
  with assms(2) show ?thesis by (simp add: account_inv_def accounts_ok_def has_admin_def)
qed (simp_all add: create_user_inv create_initial_inv delete_user_inv set_password_inv login_inv)


lemma account_inv_initial:
  "account_inv m \<lparr>users = [], sessions = [], push_subs = [], device_owner = [], dashboard_owner = [],
     client_rosters = []\<rparr>"
  by (simp add: account_inv_def accounts_ok_def)

text \<open>
  Property C5: in every run of the account operations user names stay unique up to case, every
  record is stored under its own id, the sessions never exceed their limit, and once an
  administrator exists there is always one.
\<close>

theorem auth_run_invariant:
  assumes "auth_run kdf digest m dummy d d'" and "account_inv m d"
  shows "account_inv m d' \<and> (has_admin d \<longrightarrow> has_admin d')"
  using assms
proof (induction rule: auth_run.induct)
  case run_refl
  then show ?case by simp
next
  case (run_step d d1 d2)
  then show ?case using auth_step_inv [of kdf digest m dummy d1 d2] by blast
qed

lemma delete_user_cases:
  assumes "delete_user uid d = (res, d')" and "dget (users d) uid = Some u"
  obtains (last_admin) "role u = ''admin''" "admin_count d \<le> 1"
      "res = Inl (Conflict ''cannot delete last admin'')" "d' = d"
  | (blocked) c where "count_owned uid (device_owner d) \<noteq> 0 \<or> count_owned uid (dashboard_owner d) \<noteq> 0"
      "res = Inl (Conflict c)" "d' = d\<lparr>sessions := dfilter (\<lambda>_ s. sess_user s \<noteq> uid) (sessions d),
                     push_subs := dfilter (\<lambda>_ o'. o' \<noteq> uid) (push_subs d)\<rparr>"
  | (deleted) "count_owned uid (device_owner d) = 0" "count_owned uid (dashboard_owner d) = 0"
      "res = Inr ()" "d' = d\<lparr>sessions := dfilter (\<lambda>_ s. sess_user s \<noteq> uid) (sessions d),
                     push_subs := dfilter (\<lambda>_ o'. o' \<noteq> uid) (push_subs d),
                     client_rosters := ddel uid (client_rosters d), users := ddel uid (users d)\<rparr>"
proof (cases "role u = ''admin'' \<and> admin_count d \<le> 1")
  case True
  show thesis
    by (rule last_admin) (use True assms in \<open>simp_all add: delete_user_def transact_def delete_user_mut_def\<close>)
next
  case False
  show thesis
  proof (cases "count_owned uid (device_owner d) \<noteq> 0 \<or> count_owned uid (dashboard_owner d) \<noteq> 0")
    case True
    show thesis
      by (rule blocked [OF True])
         (use False True assms in \<open>auto simp: delete_user_def transact_def delete_user_mut_def Let_def\<close>)
  next
    case no: False
    show thesis
      by (rule deleted)
         (use False no assms in \<open>auto simp: delete_user_def transact_def delete_user_mut_def Let_def\<close>)
  qed
qed

text \<open>
  Deleting a user who is not the last administrator revokes all of the user's
  sessions and push subscriptions in any case; the account and its roster go exactly when the
  user owns no device and no dashboard, and everybody else's records stay.
\<close>

theorem delete_user_exact:
  assumes "delete_user uid d = (res, d')" and "dget (users d) uid = Some u"
    and "\<not> (role u = ''admin'' \<and> admin_count d \<le> 1)"
    and "dict_ok (sessions d)" and "dict_ok (push_subs d)"
  shows "(\<forall>k s. dget (sessions d') k = Some s \<longleftrightarrow> dget (sessions d) k = Some s \<and> sess_user s \<noteq> uid) \<and>
    (\<forall>k o'. dget (push_subs d') k = Some o' \<longleftrightarrow> dget (push_subs d) k = Some o' \<and> o' \<noteq> uid) \<and>
    (res = Inr () \<longleftrightarrow> uid \<notin> set (dvals (device_owner d)) \<and> uid \<notin> set (dvals (dashboard_owner d))) \<and>
    (\<forall>k. dget (users d') k = (if res = Inr () \<and> k = uid then None else dget (users d) k)) \<and>
    (\<forall>k. dget (client_rosters d') k = (if res = Inr () \<and> k = uid then None else dget (client_rosters d) k))"
proof -
  have owned: "count_owned uid os = 0 \<longleftrightarrow> uid \<notin> set (dvals os)" for os
    by (auto simp: count_owned_def filter_empty_conv)
  from assms(1,2) show ?thesis
  proof (cases rule: delete_user_cases)
    case last_admin
    with assms(3) show ?thesis by simp
  next
    case (blocked c)
    with assms(4,5) owned show ?thesis
      by (auto simp: dget_dfilter simp del: set_map split: option.splits if_splits)
  next
    case deleted
    with assms(4,5) owned show ?thesis
      by (auto simp: dget_dfilter simp del: set_map split: option.splits if_splits)
  qed
qed

text \<open>
  A password changes only after the current one verifies; the new password then
  verifies, every session of the user except the requesting one is gone, and no other session
  is touched.
\<close>

theorem set_password_revokes:
  assumes "set_password kdf digest salt uid current password token d = (Inr revoked, d')"
    and "dict_ok (sessions d)"
  shows "\<exists>u h p. dget (users d) uid = Some u \<and> verify_password kdf current (pass_hash u) \<and>
      password = Some p \<and> 15 \<le> length p \<and> hash_password kdf salt p = Inr h \<and>
      dget (users d') uid = Some (u\<lparr>pass_hash := h\<rparr>) \<and>
      (\<forall>k s. dget (sessions d') k = Some s \<longleftrightarrow> dget (sessions d) k = Some s \<and>
         (sess_user s = uid \<longrightarrow> (\<exists>t. token = Some t \<and> t \<noteq> [] \<and> k = digest t))) \<and>
      length (sessions d') + revoked = length (sessions d)"
  using assms length_dfilter [of _ "sessions d"]
  by (auto simp: set_password_def Let_def transact_def validate_password_def min_password_length_def
      dget_dfilter split: sum.splits option.splits if_splits prod.splits)


section \<open>Witnesses\<close>

definition demo_hash :: string where
  "demo_hash = projr (hash_password toy_kdf ''salt'' ''correct horse battery'')"

definition demo_user :: "string \<Rightarrow> string \<Rightarrow> string \<Rightarrow> user" where
  "demo_user uid name rl = new_user uid name demo_hash rl 5"

definition demo_accounts :: "unit accounts" where
  "demo_accounts = \<lparr>users = [(''u1'', demo_user ''u1'' ''Ann'' ''admin''), (''u2'', demo_user ''u2'' ''Bob'' ''member'')],
     sessions = [(''s1'', \<lparr>sess_user = ''u2'', sess_created = 1, sess_expires = 100\<rparr>),
                 (''s2'', \<lparr>sess_user = ''u1'', sess_created = 2, sess_expires = 100\<rparr>)],
     push_subs = [(''e'', ''u2'')], device_owner = [], dashboard_owner = [], client_rosters = [(''u2'', ())]\<rparr>"

lemma demo_accounts_inv: "account_inv 10 demo_accounts"
  by (simp add: account_inv_def accounts_ok_def demo_accounts_def demo_user_def new_user_def
      lower_def lower_char_def)

lemma demo_verify: "verify_password toy_kdf ''correct horse battery'' demo_hash"
proof -
  obtain h where h: "hash_password toy_kdf ''salt'' ''correct horse battery'' = Inr h"
    by (simp add: hash_password_def toy_kdf_def)
  with verify_hash_eq [OF h] show ?thesis by (auto simp: demo_hash_def toy_kdf_def)
qed

theorem auth_run_invariant_witness:
  "account_inv 10 (snd (delete_user ''u2'' demo_accounts)) \<and>
   has_admin (snd (delete_user ''u2'' demo_accounts))"
proof -
  have "auth_run toy_kdf id 10 [] demo_accounts (snd (delete_user ''u2'' demo_accounts))"
    by (rule run_step [OF run_refl step_delete])
  moreover have "has_admin demo_accounts"
    unfolding has_admin_def
    by (intro exI [of _ "''u1''"]) (simp add: demo_accounts_def demo_user_def new_user_def)
  ultimately show ?thesis using auth_run_invariant [OF _ demo_accounts_inv] by blast
qed

theorem delete_user_exact_witness:
  "dget (users (snd (delete_user ''u2'' demo_accounts))) ''u2'' = None \<and>
   dget (sessions (snd (delete_user ''u2'' demo_accounts))) ''s1'' = None"
proof -
  have u: "dget (users demo_accounts) ''u2'' = Some (demo_user ''u2'' ''Bob'' ''member'')"
    by (simp add: demo_accounts_def)
  obtain res d' where r: "delete_user ''u2'' demo_accounts = (res, d')"
    by (cases "delete_user ''u2'' demo_accounts")
  have "\<not> (role (demo_user ''u2'' ''Bob'' ''member'') = ''admin'' \<and> admin_count demo_accounts \<le> 1)"
    "dict_ok (sessions demo_accounts)" "dict_ok (push_subs demo_accounts)"
    by (simp_all add: demo_accounts_def demo_user_def new_user_def)
  from delete_user_exact [OF r u this] r show ?thesis
    by (cases "dget (sessions d') ''s1''") (auto simp: demo_accounts_def)
qed

theorem set_password_revokes_witness:
  "dget (sessions (snd (set_password toy_kdf id ''new'' ''u1'' ''correct horse battery''
     (Some ''an even longer password'') (Some ''tok'') demo_accounts))) ''s2'' = None"
proof -
  have u: "dget (users demo_accounts) ''u1'' = Some (demo_user ''u1'' ''Ann'' ''admin'')"
    by (simp add: demo_accounts_def)
  obtain res d' where r: "set_password toy_kdf id ''new'' ''u1'' ''correct horse battery''
     (Some ''an even longer password'') (Some ''tok'') demo_accounts = (res, d')"
    by (cases "set_password toy_kdf id ''new'' ''u1'' ''correct horse battery''
     (Some ''an even longer password'') (Some ''tok'') demo_accounts")
  have "\<exists>n. res = Inr n"
    using r u demo_verify
    by (auto simp: set_password_def validate_password_def min_password_length_def hash_password_def
        toy_kdf_def transact_def Let_def demo_user_def new_user_def)
  then obtain n where n: "res = Inr n" by blast
  have ok: "dict_ok (sessions demo_accounts)" by (simp add: demo_accounts_def)
  from set_password_revokes [OF r [unfolded n] ok] r show ?thesis
    by (cases "dget (sessions d') ''s2''") (auto simp: demo_accounts_def)
qed

theorem login_session_lifecycle_witness:
  "\<exists>pu d'. login toy_kdf id 10 [] ''tok'' 50 (Some ''  ANN '') ''correct horse battery'' demo_accounts =
      (Some (''tok'', pu), d') \<and> fst (user_for_token id 51 (Some ''tok'') d') = Some pu"
proof -
  have f: "find (\<lambda>u. lower (username u) = ''ann'') (dvals (users demo_accounts)) =
      Some (demo_user ''u1'' ''Ann'' ''admin'')"
    by (simp add: demo_accounts_def demo_user_def new_user_def lower_def lower_char_def digit_chars
        char_of_eq_iff)
  have n: "lower (strip ''  ANN '') = ''ann''"
    by (simp add: strip_def is_space_def lower_def lower_char_def char_of_eq_iff)
  obtain d' where l: "login toy_kdf id 10 [] ''tok'' 50 (Some ''  ANN '') ''correct horse battery'' demo_accounts =
      (Some (''tok'', public_user_of (demo_user ''u1'' ''Ann'' ''admin'')), d')"
    using f n demo_verify by (simp add: login_def demo_user_def new_user_def)
  have ok: "accounts_ok demo_accounts" using demo_accounts_inv by (simp add: account_inv_def)
  have later: "sess_created s < 50" if "dget (sessions demo_accounts) k = Some s" for k s
    using that by (auto simp: demo_accounts_def split: if_splits)
  from login_session_lifecycle [OF ok _ _ later l] have
    "fst (user_for_token id 51 (Some ''tok'') d') = Some (public_user_of (demo_user ''u1'' ''Ann'' ''admin''))"
    by (simp add: session_ttl_def)
  with l show ?thesis by blast
qed

end
