(* ===== verification/Discovery.thy ===== *)
theory Discovery
  imports Json
begin

text \<open>
  Client discovery: the normalised observation of \<open>backend/domain.py\<close>, the merge of
  \<open>backend/client_merge.py\<close>, the per-device read with its retry and the collection of
  observations of \<open>backend/client_discovery.py\<close>, and the address helpers of
  \<open>backend/netutil.py\<close> and \<open>backend/nac_service.py\<close>. What a driver answers and what reverse DNS
  resolves are arguments.
\<close>

section \<open>Addresses\<close>

definition is_hex_upper :: "char \<Rightarrow> bool" where
  "is_hex_upper c \<longleftrightarrow> is_digit_char c \<or> c \<in> set ''ABCDEF''"

fun mac_groups :: "nat \<Rightarrow> string \<Rightarrow> bool" where
  "mac_groups 0 s = (s = [])"
| "mac_groups (Suc n) s = (case s of
     sep # a # b # rest \<Rightarrow> sep = CHR '':'' \<and> is_hex_upper a \<and> is_hex_upper b \<and> mac_groups n rest
   | _ \<Rightarrow> False)"

text \<open>The pattern of \<open>devices._MAC_RE\<close> on a stripped string.\<close>

definition valid_mac :: "string \<Rightarrow> bool" where
  "valid_mac s = mac_groups 6 (CHR '':'' # s)"

definition normal_mac :: "string option \<Rightarrow> string" where
  "normal_mac m = upper (strip (case m of None \<Rightarrow> [] | Some s \<Rightarrow> s))"

fun pairs_with_colons :: "string \<Rightarrow> string" where
  "pairs_with_colons (a # b # c # rest) = [a, b, CHR '':''] @ pairs_with_colons (c # rest)"
| "pairs_with_colons s = s"

definition mac_key :: "string option \<Rightarrow> string" where
  "mac_key m = (let raw = normal_mac m; compact = filter is_hex_upper raw in
     if length compact = 12 then pairs_with_colons compact else raw)"

definition approved_macs :: "string option list \<Rightarrow> string list" where
  "approved_macs members = filter (\<lambda>m. m \<noteq> []) (map mac_key members)"

definition int_of_string :: "string \<Rightarrow> int option" where
  "int_of_string s = (case strip s of
     [] \<Rightarrow> None
   | c # cs \<Rightarrow>
       if (c = CHR ''-'' \<or> c = CHR ''+'') \<and> cs \<noteq> [] \<and> list_all is_digit_char cs
       then Some (if c = CHR ''-'' then - int (nat_of_digits cs) else int (nat_of_digits cs))
       else if list_all is_digit_char (c # cs) then Some (int (nat_of_digits (c # cs))) else None)"

text \<open>\<open>int(value)\<close>: a fraction is cut towards zero, an infinity overflows.\<close>

definition int_of_json :: "json \<Rightarrow> int result" where
  "int_of_json v = (case v of
     JInt i \<Rightarrow> Inr i
   | JBool b \<Rightarrow> Inr (if b then 1 else 0)
   | JFloat (Fin q) \<Rightarrow> Inr (if q < 0 then \<lceil>q\<rceil> else \<lfloor>q\<rfloor>)
   | JFloat NaN \<Rightarrow> Inl (ValueError ''cannot convert float NaN to integer'')
   | JFloat _ \<Rightarrow> Inl (RuntimeError ''OverflowError'')
   | JStr s \<Rightarrow> (case int_of_string s of Some i \<Rightarrow> Inr i | None \<Rightarrow> Inl (ValueError ''invalid literal for int()''))
   | _ \<Rightarrow> Inl TypeError)"

definition is_private_ip :: "string option \<Rightarrow> bool" where
  "is_private_ip ip = (let s = strip (case ip of None \<Rightarrow> [] | Some x \<Rightarrow> x) in
     if startswith s ''10.'' \<or> startswith s ''192.168.'' \<or> startswith s ''169.254.'' then True
     else if startswith s ''172.''
     then (case split_on CHR ''.'' s of
             _ # octet # _ \<Rightarrow> (case int_of_string octet of None \<Rightarrow> False | Some n \<Rightarrow> 16 \<le> n \<and> n \<le> 31)
           | _ \<Rightarrow> False)
     else False)"

section \<open>Cached reverse DNS\<close>

type_synonym rdns_cache = "(string, rat \<times> string) dict"

text \<open>
  One pass over the distinct, stripped, non-empty addresses: a fresh cache entry answers,
  anything else is looked up and cached. \<open>lookup\<close> is the resolver, \<open>[]\<close> when it knows no name.
\<close>

definition rdns_wanted :: "string list \<Rightarrow> string list" where
  "rdns_wanted ips = remdups (filter (\<lambda>i. i \<noteq> []) (map strip ips))"

definition rdns_hit :: "rat \<Rightarrow> rat \<Rightarrow> rdns_cache \<Rightarrow> string \<Rightarrow> string option" where
  "rdns_hit now ttl cache ip = (case dget cache ip of
     None \<Rightarrow> None | Some (t, name) \<Rightarrow> if now - t < ttl then Some name else None)"

fun rdns_fill :: "(string \<Rightarrow> string) \<Rightarrow> rat \<Rightarrow> string list \<Rightarrow> rdns_cache \<times> (string, string) dict
    \<Rightarrow> rdns_cache \<times> (string, string) dict" where
  "rdns_fill lookup done_at [] acc = acc"
| "rdns_fill lookup done_at (ip # ips) (cache, out) =
     rdns_fill lookup done_at ips (dput ip (done_at, lookup ip) cache, dput ip (lookup ip) out)"

definition resolve_hostnames ::
  "(string \<Rightarrow> string) \<Rightarrow> rat \<Rightarrow> rat \<Rightarrow> rat \<Rightarrow> rdns_cache \<Rightarrow> string list \<Rightarrow> rdns_cache \<times> (string, string) dict" where
  "resolve_hostnames lookup now done_at ttl cache ips =
     (let wanted = rdns_wanted ips;
          hits = filter (\<lambda>ip. rdns_hit now ttl cache ip \<noteq> None) wanted;
          todo = filter (\<lambda>ip. rdns_hit now ttl cache ip = None) wanted
      in rdns_fill lookup done_at todo (cache, map (\<lambda>ip. (ip, the (rdns_hit now ttl cache ip))) hits))"

section \<open>Observations\<close>

record observation =
  o_mac :: string
  o_source_id :: string
  o_source_name :: string
  o_ip :: string
  o_hostname :: string
  o_authoritative :: bool
  o_vendor :: string
  o_kind :: string
  o_signal :: json
  o_where :: string

text \<open>\<open>ClientObservation.__post_init__\<close>: the MAC in upper case, three fields not empty.\<close>

definition make_observation :: "observation \<Rightarrow> observation result" where
  "make_observation ob =
     (let ob' = ob\<lparr>o_mac := upper (o_mac ob)\<rparr> in
      if o_mac ob' = [] \<or> o_source_id ob' = [] \<or> o_source_name ob' = []
      then Inl (ValueError ''client observation requires a MAC and source'') else Inr ob')"

section \<open>Merging observations\<close>

record sighting =
  s_via :: string
  s_where :: string
  s_kind :: string
  s_signal :: json

record client =
  c_mac :: string
  c_ip :: string
  c_hostname :: string
  c_vendor :: string
  c_kind :: string
  c_signal :: json
  c_seen :: "sighting list"
  c_where :: string

record merge_entry =
  m_client :: client
  m_authoritative :: bool

definition new_entry :: "string \<Rightarrow> merge_entry" where
  "new_entry mac = \<lparr>m_client = \<lparr>c_mac = mac, c_ip = [], c_hostname = [], c_vendor = [],
     c_kind = ''wired'', c_signal = JNull, c_seen = [], c_where = []\<rparr>, m_authoritative = False\<rparr>"

definition sighting_of :: "observation \<Rightarrow> sighting" where
  "sighting_of ob = \<lparr>s_via = o_source_name ob, s_where = o_where ob,
     s_kind = (if o_kind ob \<noteq> [] then o_kind ob else ''wired''), s_signal = o_signal ob\<rparr>"

definition takes_hostname :: "observation \<Rightarrow> merge_entry \<Rightarrow> bool" where
  "takes_hostname ob e \<longleftrightarrow> strip (o_hostname ob) \<noteq> [] \<and>
     (o_authoritative ob \<or> c_hostname (m_client e) = []) \<and>
     (o_authoritative ob \<or> \<not> m_authoritative e)"

definition merge_step :: "observation \<Rightarrow> merge_entry \<Rightarrow> merge_entry" where
  "merge_step ob e =
     (let c = m_client e;
          c1 = (if c_ip c = [] \<and> o_ip ob \<noteq> [] then c\<lparr>c_ip := o_ip ob\<rparr> else c);
          c2 = (if c_vendor c1 = [] \<and> o_vendor ob \<noteq> [] then c1\<lparr>c_vendor := o_vendor ob\<rparr> else c1);
          named = takes_hostname ob e;
          c3 = (if named then c2\<lparr>c_hostname := strip (o_hostname ob)\<rparr> else c2);
          auth = (if named then o_authoritative ob else m_authoritative e);
          c4 = (if o_kind ob = ''wifi''
                then (if o_signal ob \<noteq> JNull then c3\<lparr>c_kind := ''wifi'', c_signal := o_signal ob\<rparr>
                      else c3\<lparr>c_kind := ''wifi''\<rparr>)
                else c3)
      in \<lparr>m_client = c4\<lparr>c_seen := c_seen c4 @ [sighting_of ob]\<rparr>, m_authoritative = auth\<rparr>)"

fun merge_into :: "observation list \<Rightarrow> (string, merge_entry) dict \<Rightarrow> (string, merge_entry) dict" where
  "merge_into [] merged = merged"
| "merge_into (ob # obs) merged =
     (let mac = upper (o_mac ob) in
      merge_into obs
        (if mac = [] then merged
         else dput mac (merge_step ob (dget_or merged mac (new_entry mac))) merged))"

definition merge_observations :: "observation list \<Rightarrow> client list" where
  "merge_observations obs = map m_client (dvals (merge_into obs []))"

section \<open>Reading the devices\<close>

record client_source =
  d_id :: string
  d_name :: string
  d_host :: string
  d_driver :: string

text \<open>One connection attempt: rows, a connection error, another error.\<close>

datatype read_outcome = Rows "json list" | ConnectionFailed string | OtherFailed string

definition keeplink_driver :: string where
  "keeplink_driver = ''keeplink.switch''"

fun read_attempts :: "nat \<Rightarrow> read_outcome list \<Rightarrow> json list \<times> string option" where
  "read_attempts 0 outcomes = ([], Some ''client discovery failed'')"
| "read_attempts (Suc n) [] = ([], Some ''client discovery failed'')"
| "read_attempts (Suc n) (oc # rest) = (case oc of
     Rows rows \<Rightarrow> (rows, None)
   | ConnectionFailed e \<Rightarrow> (if n > 0 then read_attempts n rest else ([], Some e))
   | OtherFailed e \<Rightarrow> ([], Some e))"

definition read_device ::
  "(string \<Rightarrow> bool) \<Rightarrow> (client_source \<Rightarrow> read_outcome list) \<Rightarrow> client_source \<Rightarrow> json list \<times> string option" where
  "read_device known outcomes dev =
     (if \<not> known (d_driver dev) then ([], Some ''driver gone'')
      else read_attempts (if d_driver dev = keeplink_driver then 2 else 1) (outcomes dev))"

record source_report =
  src_device :: string
  src_count :: nat
  src_error :: "string option"

definition str_or_empty :: "(json \<Rightarrow> string) \<Rightarrow> json \<Rightarrow> string" where
  "str_or_empty rendering v = (if truthy v then str_json rendering v else [])"

definition observation_of_row :: "(json \<Rightarrow> string) \<Rightarrow> client_source \<Rightarrow> string \<Rightarrow> doc \<Rightarrow> observation result" where
  "observation_of_row r dev name row = make_observation
     \<lparr>o_mac = str_or_empty r (getn row ''mac''), o_source_id = d_id dev, o_source_name = name,
      o_ip = str_or_empty r (getn row ''ip''), o_hostname = str_or_empty r (getn row ''hostname''),
      o_authoritative = truthy (getn row ''hostname_authoritative''),
      o_vendor = str_or_empty r (getn row ''vendor''),
      o_kind = (if truthy (getn row ''kind'') then str_json r (getn row ''kind'') else ''wired''),
      o_signal = getn row ''signal'', o_where = str_or_empty r (getn row ''where'')\<rparr>"

fun observations_of_rows :: "(json \<Rightarrow> string) \<Rightarrow> client_source \<Rightarrow> string \<Rightarrow> json list \<Rightarrow> observation list" where
  "observations_of_rows r dev name [] = []"
| "observations_of_rows r dev name (row # rows) = (case row of
     JObj d \<Rightarrow> (case observation_of_row r dev name d of
        Inl _ \<Rightarrow> observations_of_rows r dev name rows
      | Inr ob \<Rightarrow> ob # observations_of_rows r dev name rows)
   | _ \<Rightarrow> observations_of_rows r dev name rows)"

definition source_name :: "client_source \<Rightarrow> string" where
  "source_name dev = (if d_name dev \<noteq> [] then d_name dev else d_host dev)"

definition discover ::
  "(json \<Rightarrow> string) \<Rightarrow> (string \<Rightarrow> bool) \<Rightarrow> (client_source \<Rightarrow> read_outcome list) \<Rightarrow> client_source list
   \<Rightarrow> observation list \<times> source_report list" where
  "discover r known outcomes devs =
     (concat (map (\<lambda>dev. observations_of_rows r dev (source_name dev) (fst (read_device known outcomes dev))) devs),
      map (\<lambda>dev. let res = read_device known outcomes dev in
        \<lparr>src_device = source_name dev, src_count = length (fst res),
         src_error = (case snd res of Some e \<Rightarrow> if e = [] then None else Some e | None \<Rightarrow> None)\<rparr>) devs)"

definition resolve_missing_hostnames :: "(string list \<Rightarrow> (string, string) dict) \<Rightarrow> client list \<Rightarrow> client list" where
  "resolve_missing_hostnames resolver clients =
     (let needed = map c_ip (filter (\<lambda>c. c_ip c \<noteq> [] \<and> c_hostname c = []) clients) in
      if needed = [] then clients
      else (let resolved = resolver needed in
        map (\<lambda>c. if c_hostname c = [] \<and> c_ip c \<noteq> []
                 then c\<lparr>c_hostname := dget_or resolved (c_ip c) []\<rparr> else c) clients))"

section \<open>Facts about the merge\<close>

definition for_mac :: "string \<Rightarrow> observation list \<Rightarrow> observation list" where
  "for_mac mac obs = filter (\<lambda>ob. upper (o_mac ob) = mac) obs"

lemma merge_into_get:
  "mac \<noteq> [] \<Longrightarrow> dget (merge_into obs merged) mac =
     (if for_mac mac obs = [] then dget merged mac
      else Some (fold merge_step (for_mac mac obs) (dget_or merged mac (new_entry mac))))"
proof (induction obs merged rule: merge_into.induct)
  case (1 merged)
  then show ?case by (simp add: for_mac_def)
next
  case (2 ob obs merged)
  then show ?case
    by (auto simp: for_mac_def Let_def dget_or_def split: option.splits)
qed

lemma merge_into_ok: "dict_ok merged \<Longrightarrow> dict_ok (merge_into obs merged)"
  by (induction obs merged rule: merge_into.induct) (auto simp: Let_def)

lemma merge_into_keys: "set (dkeys (merge_into obs merged)) = set (dkeys merged) \<union> ((upper \<circ> o_mac) ` set obs - {[]})"
proof (induction obs merged rule: merge_into.induct)
  case (1 merged)
  then show ?case by simp
next
  case (2 ob obs merged)
  then show ?case by (auto simp: Let_def dkeys_dput simp del: set_map)
qed

lemma merge_step_mac [simp]: "c_mac (m_client (merge_step ob e)) = c_mac (m_client e)"
  by (simp add: merge_step_def Let_def)

lemma merge_fold_mac [simp]: "c_mac (m_client (fold merge_step obs e)) = c_mac (m_client e)"
  by (induction obs arbitrary: e) simp_all

lemma merge_step_seen [simp]:
  "c_seen (m_client (merge_step ob e)) = c_seen (m_client e) @ [sighting_of ob]"
  by (simp add: merge_step_def Let_def)

lemma merge_fold_seen:
  "c_seen (m_client (fold merge_step obs e)) = c_seen (m_client e) @ map sighting_of obs"
  by (induction obs arbitrary: e) simp_all

lemma merge_fold_kind:
  "c_kind (m_client (fold merge_step obs e)) =
     (if \<exists>ob \<in> set obs. o_kind ob = ''wifi'' then ''wifi'' else c_kind (m_client e))"
  by (induction obs arbitrary: e) (auto simp: merge_step_def Let_def)

definition first_nonempty :: "string list \<Rightarrow> string" where
  "first_nonempty xs = (case find (\<lambda>x. x \<noteq> []) xs of None \<Rightarrow> [] | Some x \<Rightarrow> x)"

lemma merge_fold_ip:
  "c_ip (m_client (fold merge_step obs e)) = first_nonempty (c_ip (m_client e) # map o_ip obs)"
  by (induction obs arbitrary: e) (auto simp: merge_step_def Let_def first_nonempty_def)

text \<open>The name: the last authoritative one if there is any, the first name otherwise.\<close>

definition names_of :: "observation list \<Rightarrow> string list" where
  "names_of obs = filter (\<lambda>n. n \<noteq> []) (map (\<lambda>ob. strip (o_hostname ob)) obs)"

definition best_hostname :: "observation list \<Rightarrow> string" where
  "best_hostname obs =
     (let auth = names_of (filter o_authoritative obs) in
      if auth \<noteq> [] then last auth else first_nonempty (map (\<lambda>ob. strip (o_hostname ob)) obs))"

lemma names_of_snoc: "names_of (obs @ [ob]) =
    names_of obs @ (if strip (o_hostname ob) = [] then [] else [strip (o_hostname ob)])"
  by (simp add: names_of_def)

lemma first_nonempty_snoc:
  "first_nonempty (xs @ [x]) = (if first_nonempty xs = [] then x else first_nonempty xs)"
  by (induction xs) (auto simp: first_nonempty_def)

lemma merge_fold_hostname:
  "c_hostname (m_client (fold merge_step obs (new_entry mac))) = best_hostname obs \<and>
   (m_authoritative (fold merge_step obs (new_entry mac)) \<longleftrightarrow> names_of (filter o_authoritative obs) \<noteq> [])"
proof (induction obs rule: rev_induct)
  case Nil
  then show ?case by (simp add: new_entry_def best_hostname_def names_of_def first_nonempty_def)
next
  case (snoc ob obs)
  let ?e = "fold merge_step obs (new_entry mac)"
  let ?h = "strip (o_hostname ob)"
  have n: "last (names_of (filter o_authoritative obs)) \<noteq> []" if "names_of (filter o_authoritative obs) \<noteq> []"
    using last_in_set [OF that] by (auto simp: names_of_def)
  have step: "c_hostname (m_client (merge_step ob ?e)) = (if takes_hostname ob ?e then ?h else c_hostname (m_client ?e))"
    "m_authoritative (merge_step ob ?e) = (if takes_hostname ob ?e then o_authoritative ob else m_authoritative ?e)"
    by (simp_all add: merge_step_def Let_def)
  have fold: "fold merge_step (obs @ [ob]) (new_entry mac) = merge_step ob ?e" by simp
  show ?case
  proof (cases "?h = []")
    case True
    then have "\<not> takes_hostname ob ?e" by (simp add: takes_hostname_def)
    with True snoc show ?thesis
      unfolding fold step by (simp add: best_hostname_def Let_def names_of_snoc first_nonempty_snoc)
  next
    case False
    show ?thesis
    proof (cases "o_authoritative ob")
      case True
      with False have "takes_hostname ob ?e" by (simp add: takes_hostname_def)
      with True False show ?thesis
        unfolding fold step by (simp add: best_hostname_def names_of_snoc)
    next
      case auth: False
      show ?thesis
      proof (cases "names_of (filter o_authoritative obs) = []")
        case True
        with snoc have "c_hostname (m_client ?e) = first_nonempty (map (\<lambda>ob. strip (o_hostname ob)) obs)"
          "\<not> m_authoritative ?e" by (simp_all add: best_hostname_def)
        with True False auth show ?thesis
          unfolding fold step by (simp add: takes_hostname_def best_hostname_def first_nonempty_snoc)
      next
        case named: False
        with snoc auth have "\<not> takes_hostname ob ?e" by (simp add: takes_hostname_def)
        with named auth snoc show ?thesis
          unfolding fold step by (simp add: best_hostname_def)
      qed
    qed
  qed
qed

section \<open>Properties\<close>

text \<open>
  Property C37: the merge yields one client per MAC of the observations, with every sighting of
  that MAC in order, the first known address, Wi-Fi as its kind as soon as one source saw it
  there, and as its name the last authoritative name or else the first name.
\<close>

theorem merge_observations_exact:
  "distinct (map c_mac (merge_observations obs)) \<and>
   set (map c_mac (merge_observations obs)) = (upper \<circ> o_mac) ` set obs - {[]} \<and>
   (\<forall>c \<in> set (merge_observations obs). let own = for_mac (c_mac c) obs in
      c_seen c = map sighting_of own \<and>
      c_ip c = first_nonempty (map o_ip own) \<and>
      c_kind c = (if \<exists>ob \<in> set own. o_kind ob = ''wifi'' then ''wifi'' else ''wired'') \<and>
      c_hostname c = best_hostname own)"
proof -
  let ?m = "merge_into obs []"
  have ok: "dict_ok ?m" by (rule merge_into_ok) simp
  have keys: "set (dkeys ?m) = (upper \<circ> o_mac) ` set obs - {[]}" by (simp only: merge_into_keys) simp
  have entry: "m_client e = m_client (fold merge_step (for_mac k obs) (new_entry k)) \<and> c_mac (m_client e) = k"
    if "(k, e) \<in> set ?m" for k e
  proof -
    from that ok have g: "dget ?m k = Some e" by (simp add: dget_mem_iff)
    from that have "k \<in> set (dkeys ?m)" by force
    with keys have "k \<noteq> []" by auto
    from merge_into_get [OF this, of obs "[]"] g
    have "e = fold merge_step (for_mac k obs) (new_entry k)"
      by (auto simp: dget_or_def split: if_splits)
    then show ?thesis by (simp add: new_entry_def)
  qed
  then have macs: "map c_mac (merge_observations obs) = dkeys ?m"
    unfolding merge_observations_def by auto
  have "c_seen c = map sighting_of (for_mac (c_mac c) obs) \<and>
      c_ip c = first_nonempty (map o_ip (for_mac (c_mac c) obs)) \<and>
      c_kind c = (if \<exists>ob \<in> set (for_mac (c_mac c) obs). o_kind ob = ''wifi'' then ''wifi'' else ''wired'') \<and>
      c_hostname c = best_hostname (for_mac (c_mac c) obs)"
    if "c \<in> set (merge_observations obs)" for c
  proof -
    from that obtain k e where "(k, e) \<in> set ?m" "c = m_client e"
      by (auto simp: merge_observations_def)
    with entry have c: "c = m_client (fold merge_step (for_mac (c_mac c) obs) (new_entry (c_mac c)))"
      by metis
    have new: "c_seen (m_client (new_entry k)) = []" "c_ip (m_client (new_entry k)) = []"
      "c_kind (m_client (new_entry k)) = ''wired''" for k by (simp_all add: new_entry_def)
    show ?thesis
      using merge_fold_seen [of "for_mac (c_mac c) obs" "new_entry (c_mac c)"]
        merge_fold_ip [of "for_mac (c_mac c) obs" "new_entry (c_mac c)"]
        merge_fold_kind [of "for_mac (c_mac c) obs" "new_entry (c_mac c)"]
        merge_fold_hostname [of "for_mac (c_mac c) obs" "c_mac c"]
      unfolding c [symmetric] new by (simp add: first_nonempty_def)
  qed
  with macs ok keys show ?thesis by (simp add: Let_def del: set_map)
qed

text \<open>
  A device is read again only after a connection error and only for the one
  driver that needs it; a source that failed contributes no observation and its error is
  reported, and a malformed row never hides the other rows of its source.
\<close>

theorem discover_isolates_failures:
  "discover r known outcomes devs =
    (concat (map (\<lambda>dev. concat (map (\<lambda>row. case row of
         JObj d \<Rightarrow> (case observation_of_row r dev (source_name dev) d of Inl _ \<Rightarrow> [] | Inr ob \<Rightarrow> [ob])
       | _ \<Rightarrow> []) (fst (read_device known outcomes dev)))) devs),
     map (\<lambda>dev. \<lparr>src_device = source_name dev, src_count = length (fst (read_device known outcomes dev)),
       src_error = (case snd (read_device known outcomes dev) of Some [] \<Rightarrow> None | e \<Rightarrow> e)\<rparr>) devs) \<and>
   (\<forall>dev. snd (read_device known outcomes dev) \<noteq> None \<longrightarrow> fst (read_device known outcomes dev) = [])"
proof -
  have rows: "observations_of_rows r dev name rs = concat (map (\<lambda>row. case row of
      JObj d \<Rightarrow> (case observation_of_row r dev name d of Inl _ \<Rightarrow> [] | Inr ob \<Rightarrow> [ob]) | _ \<Rightarrow> []) rs)" for dev name rs
    by (induction rs) (auto split: json.splits sum.splits)
  have att: "snd (read_attempts n os) \<noteq> None \<Longrightarrow> fst (read_attempts n os) = []" for n os
    by (induction n os rule: read_attempts.induct) (auto split: read_outcome.splits)
  show ?thesis
    using att by (auto simp: discover_def rows Let_def read_device_def split: option.splits list.splits)
qed

section \<open>Witnesses\<close>

definition demo_observation :: "string \<Rightarrow> string \<Rightarrow> bool \<Rightarrow> string \<Rightarrow> observation" where
  "demo_observation ip name auth k = \<lparr>o_mac = ''aa'', o_source_id = ''d1'', o_source_name = ''router'',
     o_ip = ip, o_hostname = name, o_authoritative = auth, o_vendor = [], o_kind = k,
     o_signal = JNull, o_where = ''lab''\<rparr>"

definition demo_observations :: "observation list" where
  "demo_observations = [demo_observation [] ''guest'' False ''wired'',
     demo_observation ''10.0.0.2'' ''tv'' True ''wifi'', demo_observation ''10.0.0.3'' ''other'' False ''wired'']"

theorem merge_observations_exact_witness:
  "\<exists>c. merge_observations demo_observations = [c] \<and> c_mac c = ''AA'' \<and> c_hostname c = ''tv'' \<and>
     c_ip c = ''10.0.0.2'' \<and> c_kind c = ''wifi'' \<and> length (c_seen c) = 3"
proof -
  have "map c_mac (merge_observations demo_observations) = [''AA'']" by code_simp
  then obtain c where c: "merge_observations demo_observations = [c]" "c_mac c = ''AA''" by auto
  have own: "for_mac ''AA'' demo_observations = demo_observations" by code_simp
  have names: "best_hostname demo_observations = ''tv''"
    "first_nonempty (map o_ip demo_observations) = ''10.0.0.2''"
    "(\<exists>ob \<in> set demo_observations. o_kind ob = ''wifi'') = True" "length demo_observations = 3"
    by code_simp+
  have "c \<in> set (merge_observations demo_observations)" by (simp add: c)
  from merge_observations_exact [of demo_observations, THEN conjunct2, THEN conjunct2, THEN bspec, OF this]
  show ?thesis using c by (simp only: own names Let_def) (simp add: names)
qed

definition demo_source :: "string \<Rightarrow> client_source" where
  "demo_source i = \<lparr>d_id = i, d_name = i, d_host = ''10.0.0.1'', d_driver = keeplink_driver\<rparr>"

definition demo_outcomes :: "client_source \<Rightarrow> read_outcome list" where
  "demo_outcomes dev = (if d_id dev = ''d1'' then [ConnectionFailed ''refused'', ConnectionFailed ''timeout'']
     else [ConnectionFailed ''refused'', Rows [JNull, JObj [(''mac'', JStr ''aa'')]]])"

theorem discover_isolates_failures_witness:
  "fst (read_device (\<lambda>_. True) demo_outcomes (demo_source ''d1'')) = [] \<and>
   map o_mac (fst (discover (\<lambda>_. []) (\<lambda>_. True) demo_outcomes [demo_source ''d1'', demo_source ''d2''])) = [''AA''] \<and>
   map src_error (snd (discover (\<lambda>_. []) (\<lambda>_. True) demo_outcomes [demo_source ''d1'', demo_source ''d2''])) =
     [Some ''timeout'', None]"
proof -
  have "snd (read_device (\<lambda>_. True) demo_outcomes (demo_source ''d1'')) \<noteq> None" by code_simp
  with discover_isolates_failures [where r = "\<lambda>_. []" and known = "\<lambda>_. True" and outcomes = demo_outcomes
      and devs = "[demo_source ''d1'', demo_source ''d2'']", THEN conjunct2, rule_format]
  have "fst (read_device (\<lambda>_. True) demo_outcomes (demo_source ''d1'')) = []" by blast
  moreover have "map o_mac (fst (discover (\<lambda>_. []) (\<lambda>_. True) demo_outcomes [demo_source ''d1'', demo_source ''d2''])) = [''AA'']"
    by code_simp
  moreover have "map src_error (snd (discover (\<lambda>_. []) (\<lambda>_. True) demo_outcomes [demo_source ''d1'', demo_source ''d2''])) =
     [Some ''timeout'', None]" by code_simp
  ultimately show ?thesis by blast
qed

end
