(* ===== verification/Devices.thy ===== *)
theory Devices
  imports Discovery Transact
begin

text \<open>
  Device records and their operations: \<open>backend/devices.py\<close>, the capability flags of
  \<open>backend/drivers/base.py\<close>, the alert rule of \<open>backend/domain.py\<close> and the managed rule list of
  \<open>backend/firewall.py\<close>. What happens on a connection is an argument, as are random
  identifiers, the clock, and the conversion of text and integers to floats.
\<close>

section \<open>Drivers and devices\<close>

record driver_info =
  drv_transports :: "string list"
  drv_binding :: bool
  drv_nac :: bool
  drv_firewall :: bool
  drv_updates :: bool
  drv_compute :: bool
  drv_clients :: bool
  drv_status_keys :: "string list"

type_synonym registry = "string \<Rightarrow> driver_info option"

datatype alert_op = Above | Below

record alert_rule =
  ar_key :: string
  ar_op :: alert_op
  ar_value :: pyfloat
  ar_label :: string

record managed_alias =
  ma_uuid :: string
  ma_name :: string
  ma_type :: string

record dns_sync =
  ds_enabled :: bool
  ds_domain :: string

record nac_config =
  nx_alias :: string
  nx_alias_uuid :: "string option"
  nx_alias_type :: "string option"
  nx_mode :: string
  nx_interface :: "string option"
  nx_pass :: "string option"
  nx_block :: "string option"
  nx_enabled :: bool
  nx_external :: bool
  nx_managed :: "managed_alias list"
  nx_dns :: "dns_sync option"

record poll_state =
  ps_online :: bool
  ps_confirmed :: bool
  ps_miss :: nat
  ps_values :: doc
  ps_errors :: "(string, string) dict"
  ps_ts :: int
  ps_since :: int
  ps_checked :: int
  ps_reach_checked :: "int option"
  ps_source_checked :: "int option"

record managed_rule =
  mr_uuid :: string
  mr_name :: string
  mr_renamed :: bool

record device =
  dv_id :: string
  dv_owner :: string
  dv_name :: "string option"
  dv_host :: string
  dv_port :: json
  dv_transport :: string
  dv_driver :: string
  dv_cred :: "string option"
  dv_entities :: "json list"
  dv_dashboard :: "string option"
  dv_ap_binding :: bool
  dv_scheduled :: bool
  dv_order :: int
  dv_created :: int
  dv_hidden :: "string list"
  dv_bound :: "string list"
  dv_nac :: "nac_config option"
  dv_alerts :: "alert_rule list"
  dv_alert_state :: "(string, bool) dict"
  dv_state :: "poll_state option"
  dv_firewall :: "managed_rule list"

record update_lock =
  ul_token :: string
  ul_expires :: int

text \<open>
  The collections the device operations touch. Of a workload only its parent device and of a
  job only its workload matter here; a history file is the id of its device.
\<close>

record device_doc =
  dd_devices :: "(string, device) dict"
  dd_credentials :: "(string, string) dict"
  dd_parents :: "(string, string) dict"
  dd_jobs :: "(string, string) dict"
  dd_locks :: "(string, update_lock) dict"
  dd_histories :: "string list"

definition not_found :: failure where "not_found = ValueError ''device not found''"

definition some_nonempty :: "string option \<Rightarrow> string option" where
  "some_nonempty s = (case s of None \<Rightarrow> None | Some x \<Rightarrow> if x = [] then None else Some x)"

definition device_name :: "device \<Rightarrow> string" where
  "device_name d = (case some_nonempty (dv_name d) of None \<Rightarrow> dv_host d | Some n \<Rightarrow> n)"

section \<open>Creation, update, order, deletion\<close>

text \<open>\<open>_verify_binding\<close>: the outcome of the connection attempt and its check is \<open>ready\<close>.\<close>

definition verify_binding :: "driver_info \<Rightarrow> string option \<Rightarrow> bool \<times> string option" where
  "verify_binding drv ready =
     (if \<not> drv_binding drv then (False, Some (''This device type doesn'' @ [CHR 0x27] @ ''t support roam-binding.''))
      else case ready of None \<Rightarrow> (True, None) | Some e \<Rightarrow> (False, Some e))"

record new_device =
  nd_owner :: string
  nd_host :: string
  nd_transport :: string
  nd_port :: json
  nd_driver :: string
  nd_name :: "string option"
  nd_entities :: "json list"
  nd_dashboard :: "string option"
  nd_ap_binding :: bool

definition owned_count :: "string \<Rightarrow> (string, device) dict \<Rightarrow> nat" where
  "owned_count owner devs = length (filter (\<lambda>d. dv_owner d = owner) (dvals devs))"

definition create_mut :: "new_device \<Rightarrow> string \<Rightarrow> string \<Rightarrow> string \<Rightarrow> bool \<Rightarrow> int \<Rightarrow> device_doc \<Rightarrow> (device_doc \<times> device) result" where
  "create_mut n dev_id cred_ref blob binding now d =
     (let rec = \<lparr>dv_id = dev_id, dv_owner = nd_owner n, dv_name = nd_name n, dv_host = nd_host n, dv_port = nd_port n,
          dv_transport = nd_transport n, dv_driver = nd_driver n, dv_cred = Some cred_ref, dv_entities = nd_entities n,
          dv_dashboard = some_nonempty (nd_dashboard n), dv_ap_binding = binding, dv_scheduled = True,
          dv_order = int (owned_count (nd_owner n) (dd_devices d)), dv_created = now, dv_hidden = [], dv_bound = [],
          dv_nac = None, dv_alerts = [], dv_alert_state = [], dv_state = None, dv_firewall = []\<rparr>
      in Inr (d\<lparr>dd_credentials := dput cred_ref blob (dd_credentials d),
                dd_devices := dput dev_id rec (dd_devices d)\<rparr>, rec))"

definition create_device ::
  "registry \<Rightarrow> string option \<Rightarrow> new_device \<Rightarrow> string \<Rightarrow> string \<Rightarrow> string \<Rightarrow> int \<Rightarrow> device_doc
   \<Rightarrow> (device \<times> string option) result \<times> device_doc" where
  "create_device reg ready n dev_id cred_ref blob now d =
     (if nd_host n = [] \<or> nd_transport n = [] then (Inl (ValueError ''host and transport are required''), d)
      else case reg (nd_driver n) of
        None \<Rightarrow> (Inl (ValueError (''unknown driver: '' @ nd_driver n)), d)
      | Some drv \<Rightarrow>
          (let (binding, warning) = (if nd_ap_binding n then verify_binding drv ready else (False, None)) in
           case transact (create_mut n dev_id cred_ref blob binding now) d of
             (Inl e, d') \<Rightarrow> (Inl e, d') | (Inr rec, d') \<Rightarrow> (Inr (rec, warning), d')))"

text \<open>\<open>AlertRule.from_mapping\<close> and \<open>_clean_alerts\<close>.\<close>

record float_conv =
  fc_str :: "string \<Rightarrow> pyfloat option"
  fc_int :: "int \<Rightarrow> pyfloat option"
  fc_text :: "json \<Rightarrow> string"

definition float_of :: "float_conv \<Rightarrow> json \<Rightarrow> pyfloat result" where
  "float_of fc v = (case v of
     JBool b \<Rightarrow> Inr (Fin (if b then 1 else 0))
   | JInt i \<Rightarrow> (case fc_int fc i of None \<Rightarrow> Inl (RuntimeError ''OverflowError'') | Some f \<Rightarrow> Inr f)
   | JFloat f \<Rightarrow> Inr f
   | JStr s \<Rightarrow> (case fc_str fc s of None \<Rightarrow> Inl (ValueError ''could not convert string to float'') | Some f \<Rightarrow> Inr f)
   | _ \<Rightarrow> Inl TypeError)"

definition alert_op_of :: "json \<Rightarrow> alert_op option result" where
  "alert_op_of v = (case v of
     JStr s \<Rightarrow> Inr (if s = ''above'' then Some Above else if s = ''below'' then Some Below else None)
   | JArr _ \<Rightarrow> Inl TypeError | JObj _ \<Rightarrow> Inl TypeError | _ \<Rightarrow> Inr None)"

definition alert_rule_of :: "float_conv \<Rightarrow> doc \<Rightarrow> alert_rule result" where
  "alert_rule_of fc a =
     (let key = str_or_empty (fc_text fc) (getn a ''key'') in
      if key = [] then Inl (ValueError ''invalid alert rule'')
      else rbind (alert_op_of (getn a ''op'')) (\<lambda>op. case op of
        None \<Rightarrow> Inl (ValueError ''invalid alert rule'')
      | Some o' \<Rightarrow>
          if getn a ''value'' = JNull then Inl (ValueError ''invalid alert rule value'')
          else rbind (float_of fc (getn a ''value'')) (\<lambda>v.
            Inr \<lparr>ar_key = key, ar_op = o', ar_value = v,
                 ar_label = (if truthy (getn a ''label'') then str_json (fc_text fc) (getn a ''label'') else key)\<rparr>)))"

fun is_caught :: "failure \<Rightarrow> bool" where
  "is_caught TypeError = True"
| "is_caught (ValueError _) = True"
| "is_caught _ = False"

fun clean_alerts :: "float_conv \<Rightarrow> json list \<Rightarrow> alert_rule list result" where
  "clean_alerts fc [] = Inr []"
| "clean_alerts fc (a # as) =
     (case (case a of JObj o' \<Rightarrow> alert_rule_of fc o' | _ \<Rightarrow> Inl (ValueError ''alert must be an object'')) of
        Inl e \<Rightarrow> (if is_caught e then clean_alerts fc as else Inl e)
      | Inr r \<Rightarrow> rbind (clean_alerts fc as) (\<lambda>rs. Inr (r # rs)))"

text \<open>\<open>None\<close> is the \<open>_UNSET\<close> sentinel of a field that was not passed.\<close>

record device_patch =
  dp_driver :: "string option"
  dp_name :: "string option option"
  dp_dashboard :: "string option option"
  dp_entities :: "json list option"
  dp_hidden :: "json list option"
  dp_alerts :: "json list option"
  dp_scheduled :: "json option"

definition key_entity :: "json \<Rightarrow> json list" where
  "key_entity e = (case e of JObj o' \<Rightarrow> if truthy (getn o' ''key'') then [JObj [(''key'', getn o' ''key'')]] else [] | _ \<Rightarrow> [])"

definition patch_driver :: "registry \<Rightarrow> device_patch \<Rightarrow> device \<Rightarrow> device result" where
  "patch_driver reg p dev = (case dp_driver p of
     None \<Rightarrow> Inr dev
   | Some drv_id \<Rightarrow> (case reg drv_id of
       None \<Rightarrow> Inl (ValueError (''unknown driver: '' @ drv_id))
     | Some drv \<Rightarrow>
         if dv_transport dev \<notin> set (drv_transports drv)
         then Inl (ValueError (''driver '' @ drv_id @ '' does not speak '' @ dv_transport dev))
         else Inr (if drv_id \<noteq> dv_driver dev then dev\<lparr>dv_driver := drv_id, dv_entities := []\<rparr> else dev)))"

definition patch_plain :: "float_conv \<Rightarrow> device_patch \<Rightarrow> device \<Rightarrow> device" where
  "patch_plain fc p dev =
     (let d1 = (case dp_name p of None \<Rightarrow> dev
                | Some n \<Rightarrow> dev\<lparr>dv_name := some_nonempty (map_option strip n)\<rparr>);
          d2 = (case dp_dashboard p of None \<Rightarrow> d1 | Some x \<Rightarrow> d1\<lparr>dv_dashboard := some_nonempty x\<rparr>);
          d3 = (case dp_entities p of None \<Rightarrow> d2 | Some es \<Rightarrow> d2\<lparr>dv_entities := concat (map key_entity es)\<rparr>)
      in (case dp_hidden p of None \<Rightarrow> d3 | Some hs \<Rightarrow> d3\<lparr>dv_hidden := map (str_json (fc_text fc)) hs\<rparr>))"

definition patch_alerts :: "float_conv \<Rightarrow> device_patch \<Rightarrow> device \<Rightarrow> device result" where
  "patch_alerts fc p dev = (case dp_alerts p of None \<Rightarrow> Inr dev
     | Some as \<Rightarrow> rbind (clean_alerts fc as) (\<lambda>rs. Inr (dev\<lparr>dv_alerts := rs\<rparr>)))"

definition patch_scheduled :: "device_patch \<Rightarrow> device \<Rightarrow> device result" where
  "patch_scheduled p dev = (case dp_scheduled p of None \<Rightarrow> Inr dev
     | Some (JBool b) \<Rightarrow> Inr (dev\<lparr>dv_scheduled := b\<rparr>)
     | Some _ \<Rightarrow> Inl (ValueError ''scheduled update check setting must be a boolean''))"

definition patch_fields :: "float_conv \<Rightarrow> device_patch \<Rightarrow> device \<Rightarrow> device result" where
  "patch_fields fc p dev = rbind (patch_alerts fc p (patch_plain fc p dev)) (patch_scheduled p)"

definition update_mut :: "registry \<Rightarrow> float_conv \<Rightarrow> string \<Rightarrow> device_patch \<Rightarrow> device_doc \<Rightarrow> (device_doc \<times> device option) result" where
  "update_mut reg fc dev_id p d = (case dget (dd_devices d) dev_id of
     None \<Rightarrow> Inr (d, None)
   | Some dev \<Rightarrow> rbind (patch_driver reg p dev) (\<lambda>d1. rbind (patch_fields fc p d1) (\<lambda>d2.
       Inr (d\<lparr>dd_devices := dput dev_id d2 (dd_devices d)\<rparr>, Some d2))))"

definition update_device :: "registry \<Rightarrow> float_conv \<Rightarrow> string \<Rightarrow> device_patch \<Rightarrow> device_doc \<Rightarrow> device option result \<times> device_doc" where
  "update_device reg fc dev_id p d = transact (update_mut reg fc dev_id p) d"

definition device_rank :: "device \<Rightarrow> int \<times> int" where
  "device_rank d = (dv_order d, dv_created d)"

definition list_devices :: "string \<Rightarrow> bool \<Rightarrow> device_doc \<Rightarrow> device list" where
  "list_devices owner admin d =
     sort_key device_rank (filter (\<lambda>v. admin \<or> dv_owner v = owner) (dvals (dd_devices d)))"

fun reorder_loop :: "string \<Rightarrow> bool \<Rightarrow> int \<Rightarrow> string list \<Rightarrow> (string, device) dict \<Rightarrow> (string, device) dict \<times> nat" where
  "reorder_loop owner admin i [] devs = (devs, 0)"
| "reorder_loop owner admin i (x # xs) devs = (case dget devs x of
     Some v \<Rightarrow> (if admin \<or> dv_owner v = owner
       then (let (devs', n) = reorder_loop owner admin (i + 1) xs (dput x (v\<lparr>dv_order := i\<rparr>) devs) in (devs', Suc n))
       else reorder_loop owner admin (i + 1) xs devs)
   | None \<Rightarrow> reorder_loop owner admin (i + 1) xs devs)"

definition reorder :: "string \<Rightarrow> string list \<Rightarrow> bool \<Rightarrow> device_doc \<Rightarrow> nat \<times> device_doc" where
  "reorder owner ids admin d = (let (devs, n) = reorder_loop owner admin 0 ids (dd_devices d) in
     (n, d\<lparr>dd_devices := devs\<rparr>))"

definition delete_device :: "string \<Rightarrow> device_doc \<Rightarrow> device_doc" where
  "delete_device dev_id d =
     (let creds = (case dget (dd_devices d) dev_id of
            Some v \<Rightarrow> (case some_nonempty (dv_cred v) of Some c \<Rightarrow> ddel c (dd_credentials d) | None \<Rightarrow> dd_credentials d)
          | None \<Rightarrow> dd_credentials d);
          computes = map fst (filter (\<lambda>kv. snd kv = dev_id) (dd_parents d));
          jobs = map fst (filter (\<lambda>kv. snd kv \<in> set computes) (dd_jobs d))
      in d\<lparr>dd_devices := ddel dev_id (dd_devices d), dd_credentials := creds,
           dd_parents := ddel_all computes (dd_parents d), dd_jobs := ddel_all jobs (dd_jobs d),
           dd_histories := removeAll dev_id (dd_histories d)\<rparr>)"

section \<open>Connections\<close>

datatype capability = NacCapability | FirewallCapability

definition has_capability :: "capability \<Rightarrow> driver_info \<Rightarrow> bool" where
  "has_capability c drv = (case c of NacCapability \<Rightarrow> drv_nac drv | FirewallCapability \<Rightarrow> drv_firewall drv)"

definition capability_msg :: "capability \<Rightarrow> string" where
  "capability_msg c = (case c of NacCapability \<Rightarrow> ''device does not support access control''
     | FirewallCapability \<Rightarrow> ''device does not manage firewall rules'')"

text \<open>
  The context manager \<open>device_conn\<close>: \<open>body\<close> opens the connection to the device and does the work.
  It is reached only when the device exists and its driver can do what is required.
\<close>

definition device_conn :: "registry \<Rightarrow> capability option \<Rightarrow> (device \<Rightarrow> driver_info \<Rightarrow> 'a result) \<Rightarrow> string \<Rightarrow> device_doc \<Rightarrow> 'a result" where
  "device_conn reg require body dev_id d = (case dget (dd_devices d) dev_id of
     None \<Rightarrow> Inl not_found
   | Some dev \<Rightarrow> (case reg (dv_driver dev) of
       None \<Rightarrow> Inl (ValueError (''driver gone: '' @ dv_driver dev))
     | Some drv \<Rightarrow> (case require of
         Some c \<Rightarrow> if has_capability c drv then body dev drv else Inl (ValueError (capability_msg c))
       | None \<Rightarrow> body dev drv)))"

section \<open>Client bindings\<close>

definition rebind :: "string \<Rightarrow> string \<Rightarrow> bool \<Rightarrow> device \<Rightarrow> device" where
  "rebind dev_id mac bound v =
     v\<lparr>dv_bound := filter (\<lambda>m. upper m \<noteq> mac) (dv_bound v) @ (if dv_id v = dev_id \<and> bound then [mac] else [])\<rparr>"

definition bind_mut :: "string \<Rightarrow> string \<Rightarrow> bool \<Rightarrow> device_doc \<Rightarrow> (device_doc \<times> device option) result" where
  "bind_mut dev_id mac bound d = (case dget (dd_devices d) dev_id of
     None \<Rightarrow> Inr (d, None)
   | Some target \<Rightarrow>
       (let devs = dmap (\<lambda>v. if dv_owner v = dv_owner target then rebind dev_id mac bound v else v) (dd_devices d)
        in Inr (d\<lparr>dd_devices := devs\<rparr>, dget devs dev_id)))"

definition set_client_binding :: "string \<Rightarrow> string option \<Rightarrow> bool \<Rightarrow> device_doc \<Rightarrow> device option result \<times> device_doc" where
  "set_client_binding dev_id mac bound d = (let m = normal_mac mac in
     if \<not> valid_mac m then (Inl (ValueError ''invalid MAC address''), d)
     else transact (bind_mut dev_id m bound) d)"

definition binding_map :: "string \<Rightarrow> (string, device) dict \<Rightarrow> (string, string) dict" where
  "binding_map owner devs =
     fold (\<lambda>v pref. fold (\<lambda>mac. dput (upper mac) (dv_id v)) (dv_bound v) pref)
       (filter (\<lambda>v. dv_owner v = owner) (dvals devs)) []"

definition ap_mut :: "string \<Rightarrow> bool \<Rightarrow> device_doc \<Rightarrow> (device_doc \<times> device option) result" where
  "ap_mut dev_id enabled d = (case dget (dd_devices d) dev_id of
     None \<Rightarrow> Inr (d, None)
   | Some v \<Rightarrow> (let v' = v\<lparr>dv_ap_binding := enabled, dv_bound := (if enabled then dv_bound v else [])\<rparr> in
       Inr (d\<lparr>dd_devices := dput dev_id v' (dd_devices d)\<rparr>, Some v')))"

definition set_ap_binding :: "registry \<Rightarrow> string option \<Rightarrow> string \<Rightarrow> bool \<Rightarrow> device_doc
    \<Rightarrow> (device option \<times> string option) result \<times> device_doc" where
  "set_ap_binding reg ready dev_id enabled d = (case dget (dd_devices d) dev_id of
     None \<Rightarrow> (Inl not_found, d)
   | Some dev \<Rightarrow> (case reg (dv_driver dev) of
       None \<Rightarrow> (Inl (ValueError (''driver gone: '' @ dv_driver dev)), d)
     | Some drv \<Rightarrow> (let (ok, warning) = (if enabled then verify_binding drv ready else (False, None)) in
         case transact (ap_mut dev_id ok) d of
           (Inl e, d') \<Rightarrow> (Inl e, d') | (Inr r, d') \<Rightarrow> (Inr (r, warning), d'))))"

section \<open>Leases on update checks\<close>

definition update_check_lease :: int where "update_check_lease = 3600"

definition acquire_lock :: "string \<Rightarrow> string \<Rightarrow> int \<Rightarrow> device_doc \<Rightarrow> (device_doc \<times> unit) result" where
  "acquire_lock dev_id token now d =
     (let live = dfilter (\<lambda>_ l. \<not> ul_expires l \<le> now) (dd_locks d) in
      if dget live dev_id \<noteq> None then Inl (Conflict ''an update check is already active for this device'')
      else Inr (d\<lparr>dd_locks := dput dev_id \<lparr>ul_token = token, ul_expires = now + update_check_lease\<rparr> live\<rparr>, ()))"

definition release_lock :: "string \<Rightarrow> string \<Rightarrow> device_doc \<Rightarrow> (device_doc \<times> unit) result" where
  "release_lock dev_id token d =
     (case dget (dd_locks d) dev_id of
        Some l \<Rightarrow> Inr (if ul_token l = token then d\<lparr>dd_locks := ddel dev_id (dd_locks d)\<rparr> else d, ())
      | None \<Rightarrow> Inr (d, ()))"

section \<open>Reading sensors\<close>

record entity =
  en_key :: string
  en_kind :: string
  en_read :: "json result option"

definition wanted_keys :: "string list \<Rightarrow> string list \<Rightarrow> string list option" where
  "wanted_keys opted status = (if opted = [] then None else Some (opted @ status))"

definition failure_text :: "failure \<Rightarrow> string" where
  "failure_text e = (case e of
     ValidationError m \<Rightarrow> m | ValueError m \<Rightarrow> m | Conflict m \<Rightarrow> m | NotFound m \<Rightarrow> m | Forbidden m \<Rightarrow> m
   | UpstreamUnavailable m \<Rightarrow> m | StoreError m \<Rightarrow> m | KeyError m \<Rightarrow> m | RuntimeError m \<Rightarrow> m
   | AuthenticationRequired \<Rightarrow> ''authentication required'' | AttributeError \<Rightarrow> ''AttributeError''
   | TypeError \<Rightarrow> ''TypeError'' | IndexError \<Rightarrow> ''IndexError'')"

fun read_entities :: "(string \<Rightarrow> string) \<Rightarrow> string list option \<Rightarrow> entity list \<Rightarrow> doc \<times> (string, string) dict
    \<Rightarrow> doc \<times> (string, string) dict" where
  "read_entities safe wanted [] acc = acc"
| "read_entities safe wanted (e # es) (values, errors) =
     (if (case wanted of None \<Rightarrow> False | Some ks \<Rightarrow> en_key e \<notin> set ks) \<or> en_kind e \<noteq> ''sensor''
      then read_entities safe wanted es (values, errors)
      else case en_read e of
        None \<Rightarrow> read_entities safe wanted es (values, errors)
      | Some (Inr v) \<Rightarrow> read_entities safe wanted es (dput (en_key e) v values, errors)
      | Some (Inl f) \<Rightarrow> read_entities safe wanted es (values, dput (en_key e) (safe (failure_text f)) errors))"

section \<open>Managed firewall rules\<close>

definition is_hex_or_dash :: "char \<Rightarrow> bool" where
  "is_hex_or_dash c \<longleftrightarrow> is_digit_char c \<or> c \<in> set ''abcdefABCDEF-''"

definition valid_uuid :: "string \<Rightarrow> bool" where
  "valid_uuid s \<longleftrightarrow> 8 \<le> length s \<and> length s \<le> 64 \<and> list_all is_hex_or_dash s"

fun clean_rules :: "(json \<Rightarrow> string) \<Rightarrow> json list \<Rightarrow> string list \<Rightarrow> managed_rule list" where
  "clean_rules r [] seen = []"
| "clean_rules r (x # xs) seen = (case x of
     JObj o' \<Rightarrow>
       (let uuid = strip (str_or_empty r (getn o' ''uuid'')); nm = strip (str_or_empty r (getn o' ''name'')) in
        if uuid = [] \<or> \<not> valid_uuid uuid \<or> uuid \<in> set seen then clean_rules r xs seen
        else \<lparr>mr_uuid = uuid, mr_name = take 120 (if nm = [] then uuid else nm), mr_renamed = truthy (getn o' ''renamed'')\<rparr>
             # clean_rules r xs (uuid # seen))
   | _ \<Rightarrow> clean_rules r xs seen)"

definition firewall_mut :: "string \<Rightarrow> managed_rule list \<Rightarrow> device_doc \<Rightarrow> (device_doc \<times> device option) result" where
  "firewall_mut dev_id rules d = (case dget (dd_devices d) dev_id of
     None \<Rightarrow> Inr (d, None)
   | Some v \<Rightarrow> (let v' = v\<lparr>dv_firewall := rules\<rparr> in Inr (d\<lparr>dd_devices := dput dev_id v' (dd_devices d)\<rparr>, Some v')))"

definition firewall_set_managed ::
  "registry \<Rightarrow> (json \<Rightarrow> string) \<Rightarrow> (device \<Rightarrow> driver_info \<Rightarrow> 'a result) \<Rightarrow> string \<Rightarrow> json list \<Rightarrow> device_doc
   \<Rightarrow> 'a result \<times> device_doc" where
  "firewall_set_managed reg r states dev_id rules d =
     (case transact (firewall_mut dev_id (clean_rules r rules [])) d of
        (Inl e, d') \<Rightarrow> (Inl e, d')
      | (Inr None, d') \<Rightarrow> (Inl not_found, d')
      | (Inr (Some _), d') \<Rightarrow> (device_conn reg (Some FirewallCapability) states dev_id d', d'))"

section \<open>The device invariant\<close>

text \<open>
  Records are keyed by their id, a client is bound to one device of an owner at most, every
  device has its own stored credential, and workloads and jobs refer to what exists.
\<close>

definition bindings_unique :: "(string, device) dict \<Rightarrow> bool" where
  "bindings_unique devs \<longleftrightarrow>
     (\<forall>k v. dget devs k = Some v \<longrightarrow> distinct (map upper (dv_bound v))) \<and>
     (\<forall>k1 k2 v1 v2 m1 m2. dget devs k1 = Some v1 \<longrightarrow> dget devs k2 = Some v2 \<longrightarrow> dv_owner v1 = dv_owner v2 \<longrightarrow>
        m1 \<in> set (dv_bound v1) \<longrightarrow> m2 \<in> set (dv_bound v2) \<longrightarrow> upper m1 = upper m2 \<longrightarrow> k1 = k2)"

definition credentials_own :: "device_doc \<Rightarrow> bool" where
  "credentials_own d \<longleftrightarrow> dict_ok (dd_credentials d) \<and>
     (\<forall>k v. dget (dd_devices d) k = Some v \<longrightarrow> (\<exists>c. dv_cred v = Some c \<and> c \<noteq> [] \<and> dget (dd_credentials d) c \<noteq> None)) \<and>
     (\<forall>k1 k2 v1 v2. dget (dd_devices d) k1 = Some v1 \<longrightarrow> dget (dd_devices d) k2 = Some v2 \<longrightarrow>
        dv_cred v1 = dv_cred v2 \<longrightarrow> k1 = k2)"

definition references_ok :: "device_doc \<Rightarrow> bool" where
  "references_ok d \<longleftrightarrow>
     dict_all (\<lambda>_ p. dget (dd_devices d) p \<noteq> None) (dd_parents d) \<and>
     dict_all (\<lambda>_ i. dget (dd_parents d) i \<noteq> None) (dd_jobs d)"

definition device_inv :: "device_doc \<Rightarrow> bool" where
  "device_inv d \<longleftrightarrow> dict_all (\<lambda>k v. dv_id v = k) (dd_devices d) \<and>
     bindings_unique (dd_devices d) \<and> credentials_own d \<and> references_ok d"

lemma credential_of:
  "device_inv d \<Longrightarrow> dget (dd_devices d) k = Some v \<Longrightarrow>
   \<exists>c. dv_cred v = Some c \<and> c \<noteq> [] \<and> dget (dd_credentials d) c \<noteq> None"
  unfolding device_inv_def credentials_own_def by blast

lemma credential_inj:
  "device_inv d \<Longrightarrow> dget (dd_devices d) k1 = Some v1 \<Longrightarrow> dget (dd_devices d) k2 = Some v2 \<Longrightarrow>
   dv_cred v1 = dv_cred v2 \<Longrightarrow> k1 = k2"
  unfolding device_inv_def credentials_own_def by blast

lemma credentials_ownI:
  assumes "dict_ok (dd_credentials d)"
    and "\<And>k v. dget (dd_devices d) k = Some v \<Longrightarrow> \<exists>c. dv_cred v = Some c \<and> c \<noteq> [] \<and> dget (dd_credentials d) c \<noteq> None"
    and "\<And>k1 k2 v1 v2. dget (dd_devices d) k1 = Some v1 \<Longrightarrow> dget (dd_devices d) k2 = Some v2 \<Longrightarrow>
        dv_cred v1 = dv_cred v2 \<Longrightarrow> k1 = k2"
  shows "credentials_own d"
  unfolding credentials_own_def using assms by blast

lemma bindings_uniqueD:
  "bindings_unique devs \<Longrightarrow> dget devs k1 = Some v1 \<Longrightarrow> dget devs k2 = Some v2 \<Longrightarrow> dv_owner v1 = dv_owner v2 \<Longrightarrow>
   m1 \<in> set (dv_bound v1) \<Longrightarrow> m2 \<in> set (dv_bound v2) \<Longrightarrow> upper m1 = upper m2 \<Longrightarrow> k1 = k2"
  unfolding bindings_unique_def by blast

text \<open>Bindings stay unique when lists are kept or emptied.\<close>

lemma bindings_unique_sub:
  assumes "bindings_unique devs"
    and sub: "\<And>k v'. dget devs' k = Some v' \<Longrightarrow> dv_bound v' \<noteq> [] \<Longrightarrow>
      \<exists>v. dget devs k = Some v \<and> dv_owner v = dv_owner v' \<and> dv_bound v = dv_bound v'"
  shows "bindings_unique devs'"
  unfolding bindings_unique_def
proof (intro conjI allI impI)
  fix k v'
  assume a: "dget devs' k = Some v'"
  show "distinct (map upper (dv_bound v'))"
  proof (cases "dv_bound v' = []")
    case True
    then show ?thesis by simp
  next
    case False
    from sub [OF a this] assms(1) show ?thesis unfolding bindings_unique_def by metis
  qed
next
  fix k1 k2 v1 v2 m1 m2
  assume a: "dget devs' k1 = Some v1" "dget devs' k2 = Some v2" and rest: "dv_owner v1 = dv_owner v2"
    "m1 \<in> set (dv_bound v1)" "m2 \<in> set (dv_bound v2)" "upper m1 = upper m2"
  from rest have "dv_bound v1 \<noteq> []" "dv_bound v2 \<noteq> []" by auto
  from sub [OF a(1) this(1)] sub [OF a(2) this(2)] rest assms(1) show "k1 = k2"
    unfolding bindings_unique_def by metis
qed

definition device_core :: "device \<Rightarrow> string \<times> string \<times> string option \<times> string list" where
  "device_core v = (dv_id v, dv_owner v, dv_cred v, dv_bound v)"

lemma map_option_core_Some:
  "map_option device_core x = map_option device_core y \<Longrightarrow> x = Some v \<Longrightarrow>
   \<exists>w. y = Some w \<and> dv_id w = dv_id v \<and> dv_owner w = dv_owner v \<and> dv_cred w = dv_cred v \<and> dv_bound w = dv_bound v"
  by (cases y) (auto simp: device_core_def)

text \<open>An operation that keeps identity, owner, credential and bindings keeps the invariant.\<close>

lemma device_inv_core:
  assumes inv: "device_inv d" and ok: "dict_ok devs"
    and core: "\<And>k. map_option device_core (dget devs k) = map_option device_core (dget (dd_devices d) k)"
  shows "device_inv (d\<lparr>dd_devices := devs\<rparr>)"
proof -
  note D = map_option_core_Some [OF core]
  have none: "dget devs k \<noteq> None \<longleftrightarrow> dget (dd_devices d) k \<noteq> None" for k
    using core [of k] by (metis option.map_disc_iff)
  have "dict_all (\<lambda>k v. dv_id v = k) devs"
    using inv ok D unfolding device_inv_def dict_all_def by metis
  moreover have "bindings_unique devs"
    unfolding bindings_unique_def
  proof (intro conjI allI impI)
    fix k v
    assume "dget devs k = Some v"
    from D [OF this] inv show "distinct (map upper (dv_bound v))"
      unfolding device_inv_def bindings_unique_def by metis
  next
    fix k1 k2 v1 v2 m1 m2
    assume "dget devs k1 = Some v1" "dget devs k2 = Some v2" "dv_owner v1 = dv_owner v2"
      "m1 \<in> set (dv_bound v1)" "m2 \<in> set (dv_bound v2)" "upper m1 = upper m2"
    with D [of k1 v1] D [of k2 v2] inv show "k1 = k2"
      unfolding device_inv_def bindings_unique_def by metis
  qed
  moreover have "credentials_own (d\<lparr>dd_devices := devs\<rparr>)"
    unfolding credentials_own_def
  proof (intro conjI allI impI)
    show "dict_ok (dd_credentials (d\<lparr>dd_devices := devs\<rparr>))"
      using inv by (simp add: device_inv_def credentials_own_def)
    fix k v
    assume "dget (dd_devices (d\<lparr>dd_devices := devs\<rparr>)) k = Some v"
    with D [of k v] inv show "\<exists>c. dv_cred v = Some c \<and> c \<noteq> [] \<and> dget (dd_credentials (d\<lparr>dd_devices := devs\<rparr>)) c \<noteq> None"
      unfolding device_inv_def credentials_own_def by (simp, metis)
  next
    fix k1 k2 v1 v2
    assume "dget (dd_devices (d\<lparr>dd_devices := devs\<rparr>)) k1 = Some v1"
      "dget (dd_devices (d\<lparr>dd_devices := devs\<rparr>)) k2 = Some v2" "dv_cred v1 = dv_cred v2"
    with D [of k1 v1] D [of k2 v2] inv show "k1 = k2"
      unfolding device_inv_def credentials_own_def by (simp, metis)
  qed
  moreover have "references_ok (d\<lparr>dd_devices := devs\<rparr>)"
    using inv none by (simp add: device_inv_def references_ok_def)
  ultimately show ?thesis by (simp add: device_inv_def)
qed

lemma device_inv_dput:
  assumes "device_inv d" and "dget (dd_devices d) k = Some v" and "device_core v' = device_core v"
  shows "device_inv (d\<lparr>dd_devices := dput k v' (dd_devices d)\<rparr>)"
  using assms(1)
proof (rule device_inv_core)
  show "dict_ok (dput k v' (dd_devices d))"
    using assms(1) by (auto simp: device_inv_def dict_all_def)
qed (simp add: assms(2,3))

lemma patch_driver_core: "patch_driver reg p v = Inr v' \<Longrightarrow> device_core v' = device_core v"
  by (auto simp: patch_driver_def device_core_def split: option.splits if_splits)

lemma device_core_simps [simp]:
  "device_core (v\<lparr>dv_name := a\<rparr>) = device_core v" "device_core (v\<lparr>dv_dashboard := b\<rparr>) = device_core v"
  "device_core (v\<lparr>dv_entities := c\<rparr>) = device_core v" "device_core (v\<lparr>dv_hidden := e\<rparr>) = device_core v"
  "device_core (v\<lparr>dv_alerts := f\<rparr>) = device_core v" "device_core (v\<lparr>dv_scheduled := g\<rparr>) = device_core v"
  "device_core (v\<lparr>dv_order := i\<rparr>) = device_core v" "device_core (v\<lparr>dv_firewall := j\<rparr>) = device_core v"
  "device_core (v\<lparr>dv_nac := l\<rparr>) = device_core v" "device_core (v\<lparr>dv_state := h\<rparr>) = device_core v"
  "device_core (v\<lparr>dv_alert_state := m\<rparr>) = device_core v"
  by (simp_all add: device_core_def)

lemma case_option_const: "(case x of None \<Rightarrow> c | Some _ \<Rightarrow> c) = c"
  by (cases x) simp_all

lemma patch_plain_core: "device_core (patch_plain fc p v) = device_core v"
  by (simp add: patch_plain_def Let_def option.case_distrib [of device_core] case_option_const cong: option.case_cong)

lemma patch_fields_core: "patch_fields fc p v = Inr v' \<Longrightarrow> device_core v' = device_core v"
proof -
  assume "patch_fields fc p v = Inr v'"
  then obtain w where "patch_alerts fc p (patch_plain fc p v) = Inr w" "patch_scheduled p w = Inr v'"
    by (auto simp: patch_fields_def rbind_Inr_iff)
  then have "device_core w = device_core (patch_plain fc p v)" "device_core v' = device_core w"
    by (auto simp: patch_alerts_def patch_scheduled_def rbind_Inr_iff split: option.splits json.splits)
  then show ?thesis by (simp add: patch_plain_core)
qed

lemma update_mut_inv: "device_inv d \<Longrightarrow> update_mut reg fc dev_id p d = Inr (d', r) \<Longrightarrow> device_inv d'"
  by (auto simp: update_mut_def rbind_Inr_iff split: option.splits
      intro!: device_inv_dput dest!: patch_driver_core patch_fields_core)

lemma reorder_loop_core:
  assumes "dict_ok devs"
  shows "dict_ok (fst (reorder_loop owner admin i xs devs)) \<and>
     map_option device_core (dget (fst (reorder_loop owner admin i xs devs)) k) = map_option device_core (dget devs k)"
  using assms
proof (induction owner admin i xs devs rule: reorder_loop.induct)
  case (1 owner admin i devs)
  then show ?case by simp
next
  case (2 owner admin i x xs devs)
  show ?case
  proof (cases "dget devs x")
    case None
    with 2 show ?thesis by simp
  next
    case (Some v)
    show ?thesis
    proof (cases "admin \<or> dv_owner v = owner")
      case True
      have ok: "dict_ok (dput x (v\<lparr>dv_order := i\<rparr>) devs)" using "2.prems" by simp
      from "2.IH"(2) [OF Some True ok] Some True show ?thesis
        by (auto simp: case_prod_unfold Let_def device_core_def split: if_splits)
    next
      case False
      from "2.IH"(3) [OF Some False "2.prems"] Some False show ?thesis by simp
    qed
  qed
qed

lemma reorder_inv: "device_inv d \<Longrightarrow> device_inv (snd (reorder owner ids admin d))"
  by (simp add: reorder_def case_prod_unfold Let_def)
     (rule device_inv_core, simp, auto simp: reorder_loop_core device_inv_def dict_all_def)

lemma create_mut_inv:
  assumes "device_inv d" and "dget (dd_devices d) dev_id = None" and "dget (dd_credentials d) cred = None" and "cred \<noteq> []"
    and "create_mut n dev_id cred blob b now d = Inr (d', r)"
  shows "device_inv d'"
proof -
  let ?devs = "dput dev_id r (dd_devices d)"
  have d': "d' = d\<lparr>dd_credentials := dput cred blob (dd_credentials d), dd_devices := ?devs\<rparr>"
    and r: "dv_id r = dev_id" "dv_cred r = Some cred" "dv_bound r = []"
    using assms(5) by (auto simp: create_mut_def Let_def)
  have "dict_all (\<lambda>k v. dv_id v = k) ?devs"
    using assms(1) r by (auto simp: device_inv_def intro: dict_all_dput)
  moreover have "bindings_unique ?devs"
    by (rule bindings_unique_sub [where devs = "dd_devices d"])
       (use assms(1) r in \<open>auto simp: device_inv_def split: if_splits\<close>)
  moreover have "credentials_own d'"
  proof (rule credentials_ownI)
    show "dict_ok (dd_credentials d')" using assms(1) by (auto simp: d' device_inv_def credentials_own_def)
    fix k v
    assume "dget (dd_devices d') k = Some v"
    with credential_of [OF assms(1), of k v] r assms(4)
    show "\<exists>c. dv_cred v = Some c \<and> c \<noteq> [] \<and> dget (dd_credentials d') c \<noteq> None"
      by (cases "k = dev_id") (auto simp: d')
  next
    fix k1 k2 v1 v2
    assume v: "dget (dd_devices d') k1 = Some v1" "dget (dd_devices d') k2 = Some v2" "dv_cred v1 = dv_cred v2"
    have new: "dv_cred v \<noteq> Some cred" if "dget (dd_devices d) k = Some v" for k v
      using credential_of [OF assms(1) that] assms(3) by auto
    show "k1 = k2"
    proof (cases "k1 = dev_id \<or> k2 = dev_id")
      case True
      with v r new [of k1 v1] new [of k2 v2] show ?thesis by (auto simp: d' split: if_splits)
    next
      case False
      with v show ?thesis using credential_inj [OF assms(1), of k1 v1 k2 v2] by (simp add: d')
    qed
  qed
  moreover have "references_ok d'"
    using assms(1) unfolding device_inv_def references_ok_def d' dict_all_def by auto
  ultimately show ?thesis by (simp add: device_inv_def d')
qed

text \<open>Removing the keys whose values satisfy a condition.\<close>

lemma dget_ddel_where:
  assumes "dict_ok d"
  shows "dget (ddel_all (map fst (filter (\<lambda>kv. P (snd kv)) d)) d) k =
     (case dget d k of None \<Rightarrow> None | Some v \<Rightarrow> if P v then None else Some v)"
proof -
  have "k \<in> set (map fst (filter (\<lambda>kv. P (snd kv)) d)) \<longleftrightarrow> (\<exists>v. dget d k = Some v \<and> P v)"
    using assms by (force simp: dget_mem_iff)
  then show ?thesis by (auto simp del: set_map split: option.split)
qed

lemma delete_device_fields:
  assumes "device_inv d"
  shows "dd_devices (delete_device dev_id d) = ddel dev_id (dd_devices d)"
    and "dget (dd_parents (delete_device dev_id d)) i =
      (case dget (dd_parents d) i of None \<Rightarrow> None | Some p \<Rightarrow> if p = dev_id then None else Some p)"
    and "dget (dd_jobs (delete_device dev_id d)) j = (case dget (dd_jobs d) j of None \<Rightarrow> None
      | Some i \<Rightarrow> if dget (dd_parents d) i = Some dev_id then None else Some i)"
    and "dict_ok (dd_parents (delete_device dev_id d))" "dict_ok (dd_jobs (delete_device dev_id d))"
    and "dd_credentials (delete_device dev_id d) = (case dget (dd_devices d) dev_id of None \<Rightarrow> dd_credentials d
      | Some v \<Rightarrow> ddel (the (dv_cred v)) (dd_credentials d))"
proof -
  have pok: "dict_ok (dd_parents d)" and jok: "dict_ok (dd_jobs d)"
    using assms by (auto simp: device_inv_def references_ok_def dict_all_ok)
  show "dd_devices (delete_device dev_id d) = ddel dev_id (dd_devices d)"
    by (simp add: delete_device_def Let_def)
  show "dget (dd_parents (delete_device dev_id d)) i =
      (case dget (dd_parents d) i of None \<Rightarrow> None | Some p \<Rightarrow> if p = dev_id then None else Some p)"
    using dget_ddel_where [OF pok, of "\<lambda>p. p = dev_id" i] by (simp add: delete_device_def Let_def)
  have mem: "x \<in> set (map fst (filter (\<lambda>kv. snd kv = dev_id) (dd_parents d))) \<longleftrightarrow> dget (dd_parents d) x = Some dev_id" for x
    using pok by (force simp: dget_mem_iff)
  show "dget (dd_jobs (delete_device dev_id d)) j = (case dget (dd_jobs d) j of None \<Rightarrow> None
      | Some i \<Rightarrow> if dget (dd_parents d) i = Some dev_id then None else Some i)"
  proof -
    have "dd_jobs (delete_device dev_id d) = ddel_all (map fst (filter (\<lambda>kv. snd kv \<in>
        set (map fst (filter (\<lambda>kv. snd kv = dev_id) (dd_parents d)))) (dd_jobs d))) (dd_jobs d)"
      by (simp add: delete_device_def Let_def)
    then show ?thesis
      using dget_ddel_where [OF jok, of "\<lambda>i. i \<in> set (map fst (filter (\<lambda>kv. snd kv = dev_id) (dd_parents d)))" j]
      unfolding mem by (simp only:)
  qed
  show "dict_ok (dd_parents (delete_device dev_id d))" "dict_ok (dd_jobs (delete_device dev_id d))"
    using pok jok by (simp_all add: delete_device_def Let_def)
  show "dd_credentials (delete_device dev_id d) = (case dget (dd_devices d) dev_id of None \<Rightarrow> dd_credentials d
      | Some v \<Rightarrow> ddel (the (dv_cred v)) (dd_credentials d))"
    using credential_of [OF assms, of dev_id]
    by (auto simp: delete_device_def Let_def some_nonempty_def split: option.split)
qed

lemma delete_device_inv:
  assumes "device_inv d"
  shows "device_inv (delete_device dev_id d)"
proof -
  let ?d = "delete_device dev_id d"
  note fields = delete_device_fields [OF assms, of dev_id]
  have "bindings_unique (dd_devices ?d)"
    by (rule bindings_unique_sub [where devs = "dd_devices d"])
       (use assms in \<open>auto simp: device_inv_def fields split: if_splits\<close>)
  moreover have "credentials_own ?d"
  proof (rule credentials_ownI)
    show "dict_ok (dd_credentials ?d)"
      using assms by (auto simp: fields device_inv_def credentials_own_def split: option.split)
    fix k v
    assume "dget (dd_devices ?d) k = Some v"
    then have k: "k \<noteq> dev_id" "dget (dd_devices d) k = Some v" by (auto simp: fields split: if_splits)
    obtain c where c: "dv_cred v = Some c" "c \<noteq> []" "dget (dd_credentials d) c \<noteq> None"
      using credential_of [OF assms k(2)] by blast
    have "the (dv_cred w) \<noteq> c" if "dget (dd_devices d) dev_id = Some w" for w
      using credential_of [OF assms that] credential_inj [OF assms k(2) that] k(1) c(1) by auto
    with c show "\<exists>c. dv_cred v = Some c \<and> c \<noteq> [] \<and> dget (dd_credentials ?d) c \<noteq> None"
      by (auto simp: fields split: option.split)
  next
    fix k1 k2 v1 v2
    assume "dget (dd_devices ?d) k1 = Some v1" "dget (dd_devices ?d) k2 = Some v2" "dv_cred v1 = dv_cred v2"
    then show "k1 = k2" using credential_inj [OF assms, of k1 v1 k2 v2] by (auto simp: fields split: if_splits)
  qed
  moreover have "references_ok ?d"
    unfolding references_ok_def
  proof (intro conjI dict_allI fields(4,5))
    fix i p
    assume "dget (dd_parents ?d) i = Some p"
    with assms show "dget (dd_devices ?d) p \<noteq> None"
      by (auto simp: fields device_inv_def references_ok_def split: option.splits if_splits dest: dict_allD)
  next
    fix j i
    assume "dget (dd_jobs ?d) j = Some i"
    then have "dget (dd_jobs d) j = Some i" "dget (dd_parents d) i \<noteq> Some dev_id"
      by (auto simp: fields split: option.splits if_splits)
    with assms show "dget (dd_parents ?d) i \<noteq> None"
      by (auto simp: fields device_inv_def references_ok_def split: option.splits dest: dict_allD)
  qed
  moreover have "dict_all (\<lambda>k v. dv_id v = k) (dd_devices ?d)"
    using assms by (auto simp: device_inv_def fields intro: dict_all_ddel)
  ultimately show ?thesis by (simp add: device_inv_def)
qed

lemma rebind_core [simp]:
  "dv_id (rebind i m b v) = dv_id v" "dv_owner (rebind i m b v) = dv_owner v" "dv_cred (rebind i m b v) = dv_cred v"
  by (simp_all add: rebind_def)

definition bind_all :: "string \<Rightarrow> string \<Rightarrow> string \<Rightarrow> bool \<Rightarrow> (string, device) dict \<Rightarrow> (string, device) dict" where
  "bind_all owner dev_id mac bound devs =
     dmap (\<lambda>v. if dv_owner v = owner then rebind dev_id mac bound v else v) devs"

lemma bind_all_bindings:
  assumes keys: "dict_all (\<lambda>k v. dv_id v = k) devs" and uniq: "bindings_unique devs" and up: "upper mac = mac"
  shows "bindings_unique (bind_all owner dev_id mac bound devs)"
  unfolding bindings_unique_def
proof (intro conjI allI impI)
  fix k v
  assume "dget (bind_all owner dev_id mac bound devs) k = Some v"
  then obtain w where w: "dget devs k = Some w" "v = (if dv_owner w = owner then rebind dev_id mac bound w else w)"
    by (auto simp: bind_all_def)
  from uniq w(1) have "distinct (map upper (dv_bound w))" unfolding bindings_unique_def by blast
  then have "distinct (map upper (filter (\<lambda>m. upper m \<noteq> mac) (dv_bound w)))" by (rule distinct_map_filter)
  with \<open>distinct (map upper (dv_bound w))\<close> w(2) up show "distinct (map upper (dv_bound v))"
    by (auto simp: rebind_def)
next
  fix k1 k2 v1 v2 m1 m2
  assume v: "dget (bind_all owner dev_id mac bound devs) k1 = Some v1" "dget (bind_all owner dev_id mac bound devs) k2 = Some v2"
    and own: "dv_owner v1 = dv_owner v2" and m: "m1 \<in> set (dv_bound v1)" "m2 \<in> set (dv_bound v2)" "upper m1 = upper m2"
  obtain w1 w2 where w1: "dget devs k1 = Some w1" "v1 = (if dv_owner w1 = owner then rebind dev_id mac bound w1 else w1)"
    and w2: "dget devs k2 = Some w2" "v2 = (if dv_owner w2 = owner then rebind dev_id mac bound w2 else w2)"
    using v by (auto simp: bind_all_def)
  have o': "dv_owner w1 = dv_owner w2" using own w1(2) w2(2) by (auto split: if_splits)
  have ids: "dv_id w1 = k1" "dv_id w2 = k2" using dict_allD [OF keys] w1(1) w2(1) by auto
  have old: "k1 = k2" if "m1 \<in> set (dv_bound w1)" "m2 \<in> set (dv_bound w2)"
    using uniq w1(1) w2(1) o' that m(3) unfolding bindings_unique_def by metis
  show "k1 = k2"
  proof (cases "dv_owner w1 = owner")
    case True
    with o' w1(2) w2(2) m(1,2) ids
    have "m1 \<in> set (dv_bound w1) \<and> upper m1 \<noteq> mac \<or> m1 = mac \<and> k1 = dev_id"
      "m2 \<in> set (dv_bound w2) \<and> upper m2 \<noteq> mac \<or> m2 = mac \<and> k2 = dev_id"
      by (simp_all add: rebind_def split: if_splits)
    with old up m(3) show ?thesis by auto
  next
    case False
    with o' w1(2) w2(2) m(1,2) old show ?thesis by simp
  qed
qed

lemma bind_mut_eq:
  "bind_mut dev_id mac bound d = Inr (case dget (dd_devices d) dev_id of None \<Rightarrow> (d, None)
     | Some t \<Rightarrow> (d\<lparr>dd_devices := bind_all (dv_owner t) dev_id mac bound (dd_devices d)\<rparr>,
        dget (bind_all (dv_owner t) dev_id mac bound (dd_devices d)) dev_id))"
  by (simp add: bind_mut_def bind_all_def Let_def split: option.split)

lemma device_inv_bindings:
  assumes "device_inv d" and "dict_ok devs"
    and "\<And>k. map_option (\<lambda>v. (dv_id v, dv_owner v, dv_cred v)) (dget devs k) =
      map_option (\<lambda>v. (dv_id v, dv_owner v, dv_cred v)) (dget (dd_devices d) k)"
    and "bindings_unique devs"
  shows "device_inv (d\<lparr>dd_devices := devs\<rparr>)"
proof -
  have D: "\<exists>w. dget (dd_devices d) k = Some w \<and> dv_id w = dv_id v \<and> dv_cred w = dv_cred v" if "dget devs k = Some v" for k v
    using assms(3) [of k] that by (cases "dget (dd_devices d) k") auto
  have none: "dget devs k \<noteq> None \<longleftrightarrow> dget (dd_devices d) k \<noteq> None" for k
    using assms(3) [of k] by (cases "dget devs k"; cases "dget (dd_devices d) k") auto
  have "dict_all (\<lambda>k v. dv_id v = k) devs"
    using assms(1,2) D unfolding device_inv_def dict_all_def by metis
  moreover have "credentials_own (d\<lparr>dd_devices := devs\<rparr>)"
  proof (rule credentials_ownI)
    show "dict_ok (dd_credentials (d\<lparr>dd_devices := devs\<rparr>))"
      using assms(1) by (simp add: device_inv_def credentials_own_def)
    fix k v
    assume "dget (dd_devices (d\<lparr>dd_devices := devs\<rparr>)) k = Some v"
    with D [of k v] credential_of [OF assms(1), of k]
    show "\<exists>c. dv_cred v = Some c \<and> c \<noteq> [] \<and> dget (dd_credentials (d\<lparr>dd_devices := devs\<rparr>)) c \<noteq> None"
      by fastforce
  next
    fix k1 k2 v1 v2
    assume v: "dget (dd_devices (d\<lparr>dd_devices := devs\<rparr>)) k1 = Some v1"
      "dget (dd_devices (d\<lparr>dd_devices := devs\<rparr>)) k2 = Some v2" "dv_cred v1 = dv_cred v2"
    from v(1,2) obtain w1 w2 where "dget (dd_devices d) k1 = Some w1" "dv_cred w1 = dv_cred v1"
      "dget (dd_devices d) k2 = Some w2" "dv_cred w2 = dv_cred v2" using D by simp blast
    with v(3) credential_inj [OF assms(1), of k1 w1 k2 w2] show "k1 = k2" by simp
  qed
  moreover have "references_ok (d\<lparr>dd_devices := devs\<rparr>)"
    using assms(1) none by (simp add: device_inv_def references_ok_def)
  ultimately show ?thesis using assms(4) by (simp add: device_inv_def)
qed

lemma bind_mut_inv:
  assumes "device_inv d" and "upper mac = mac" and "bind_mut dev_id mac bound d = Inr (d', r)"
  shows "device_inv d'"
proof (cases "dget (dd_devices d) dev_id")
  case None
  with assms show ?thesis by (simp add: bind_mut_eq)
next
  case (Some t)
  have keys: "dict_all (\<lambda>k v. dv_id v = k) (dd_devices d)" and uniq: "bindings_unique (dd_devices d)"
    using assms(1) by (auto simp: device_inv_def)
  let ?devs = "bind_all (dv_owner t) dev_id mac bound (dd_devices d)"
  have "device_inv (d\<lparr>dd_devices := ?devs\<rparr>)"
  proof (rule device_inv_bindings [OF assms(1)])
    show "dict_ok ?devs" using dict_all_ok [OF keys] by (simp add: bind_all_def)
    show "map_option (\<lambda>v. (dv_id v, dv_owner v, dv_cred v)) (dget ?devs k) =
      map_option (\<lambda>v. (dv_id v, dv_owner v, dv_cred v)) (dget (dd_devices d) k)" for k
      by (cases "dget (dd_devices d) k") (simp_all add: bind_all_def)
    show "bindings_unique ?devs" by (rule bind_all_bindings [OF keys uniq assms(2)])
  qed
  with Some assms(3) show ?thesis by (auto simp: bind_mut_eq)
qed

lemma ap_mut_inv: "device_inv d \<Longrightarrow> ap_mut dev_id enabled d = Inr (d', r) \<Longrightarrow> device_inv d'"
proof -
  assume inv: "device_inv d" and m: "ap_mut dev_id enabled d = Inr (d', r)"
  show ?thesis
  proof (cases "dget (dd_devices d) dev_id")
    case None
    with inv m show ?thesis by (simp add: ap_mut_def)
  next
    case (Some v)
    let ?v = "v\<lparr>dv_ap_binding := enabled, dv_bound := (if enabled then dv_bound v else [])\<rparr>"
    have "device_inv (d\<lparr>dd_devices := dput dev_id ?v (dd_devices d)\<rparr>)"
    proof (rule device_inv_bindings [OF inv])
      show "dict_ok (dput dev_id ?v (dd_devices d))" using inv by (auto simp: device_inv_def dict_all_def)
      show "bindings_unique (dput dev_id ?v (dd_devices d))"
        by (rule bindings_unique_sub [where devs = "dd_devices d"])
           (use inv Some in \<open>auto simp: device_inv_def split: if_splits\<close>)
    qed (simp add: Some)
    with Some m show ?thesis by (auto simp: ap_mut_def Let_def)
  qed
qed

lemma firewall_mut_inv: "device_inv d \<Longrightarrow> firewall_mut dev_id rules d = Inr (d', r) \<Longrightarrow> device_inv d'"
  by (auto simp: firewall_mut_def Let_def split: option.splits intro!: device_inv_dput)

lemma normal_mac_upper [simp]: "upper (normal_mac m) = normal_mac m"
  by (simp add: normal_mac_def)

section \<open>The preferred device of a client\<close>

lemma fold_bound_get:
  "dget (fold (\<lambda>m. dput (upper m) i) ms pref) M = (if M \<in> upper ` set ms then Some i else dget pref M)"
  by (induction ms arbitrary: pref) auto

lemma fold_devices_get:
  "dget (fold (\<lambda>v pref. fold (\<lambda>mac. dput (upper mac) (dv_id v)) (dv_bound v) pref) vs pref) M =
     (case filter (\<lambda>v. M \<in> upper ` set (dv_bound v)) vs of [] \<Rightarrow> dget pref M
      | ws \<Rightarrow> Some (dv_id (last ws)))"
  by (induction vs arbitrary: pref) (auto simp: fold_bound_get split: list.splits)

lemma binding_map_get:
  assumes "device_inv d"
  shows "dget (binding_map owner (dd_devices d)) M = Some i \<longleftrightarrow>
    (\<exists>v. dget (dd_devices d) i = Some v \<and> dv_owner v = owner \<and> M \<in> upper ` set (dv_bound v))"
proof -
  have keys: "dict_all (\<lambda>k v. dv_id v = k) (dd_devices d)" and uniq: "bindings_unique (dd_devices d)"
    using assms by (auto simp: device_inv_def)
  let ?ws = "filter (\<lambda>v. M \<in> upper ` set (dv_bound v)) (filter (\<lambda>v. dv_owner v = owner) (dvals (dd_devices d)))"
  have map: "dget (binding_map owner (dd_devices d)) M = (case ?ws of [] \<Rightarrow> None | ws \<Rightarrow> Some (dv_id (last ws)))"
    unfolding binding_map_def fold_devices_get by (simp cong: list.case_cong)
  have mem: "v \<in> set ?ws \<longleftrightarrow> dget (dd_devices d) (dv_id v) = Some v \<and> dv_owner v = owner \<and> M \<in> upper ` set (dv_bound v)" for v
  proof -
    have "v \<in> snd ` set (dd_devices d) \<longleftrightarrow> dget (dd_devices d) (dv_id v) = Some v"
    proof
      assume "v \<in> snd ` set (dd_devices d)"
      then obtain k where "(k, v) \<in> set (dd_devices d)" by auto
      then have "dget (dd_devices d) k = Some v" using dict_all_ok [OF keys] by (simp add: dget_mem_iff)
      moreover from dict_allD [OF keys this] have "dv_id v = k" .
      ultimately show "dget (dd_devices d) (dv_id v) = Some v" by simp
    next
      assume "dget (dd_devices d) (dv_id v) = Some v"
      then show "v \<in> snd ` set (dd_devices d)" by (force dest: dget_mem)
    qed
    then show ?thesis by auto
  qed
  show ?thesis
  proof (cases "?ws = []")
    case True
    then have "v \<notin> set ?ws" for v by simp
    with True map mem dict_allD [OF keys] show ?thesis by fastforce
  next
    case False
    then obtain w where w: "w = last ?ws" "w \<in> set ?ws" by (meson last_in_set)
    then have res: "dget (binding_map owner (dd_devices d)) M = Some (dv_id w)"
      using False map by (auto split: list.splits)
    have wd: "dget (dd_devices d) (dv_id w) = Some w" "dv_owner w = owner" "M \<in> upper ` set (dv_bound w)"
      using w(2) mem by blast+
    have "i = dv_id w" if "dget (dd_devices d) i = Some v" "dv_owner v = owner" "M \<in> upper ` set (dv_bound v)" for v
    proof -
      from that(3) wd(3) obtain m1 m2 where "m1 \<in> set (dv_bound v)" "upper m1 = M" "m2 \<in> set (dv_bound w)" "upper m2 = M"
        by (auto simp: image_iff)
      with that wd show ?thesis by (intro bindings_uniqueD [OF uniq that(1) wd(1), of m1 m2]) simp_all
    qed
    with res wd show ?thesis by auto
  qed
qed

section \<open>Every sequence of device operations\<close>

text \<open>The identifiers of a new device are fresh: the code draws them at random.\<close>

inductive device_step :: "registry \<Rightarrow> float_conv \<Rightarrow> device_doc \<Rightarrow> device_doc \<Rightarrow> bool" for reg fc where
  created: "dget (dd_devices d) dev_id = None \<Longrightarrow> dget (dd_credentials d) cred = None \<Longrightarrow> cred \<noteq> [] \<Longrightarrow>
    create_device reg ready n dev_id cred blob now d = (res, d') \<Longrightarrow> device_step reg fc d d'"
| updated: "update_device reg fc dev_id p d = (res, d') \<Longrightarrow> device_step reg fc d d'"
| reordered: "reorder owner ids admin d = (n, d') \<Longrightarrow> device_step reg fc d d'"
| deleted: "device_step reg fc d (delete_device dev_id d)"
| bound: "set_client_binding dev_id mac b d = (res, d') \<Longrightarrow> device_step reg fc d d'"
| ap_bound: "set_ap_binding reg ready dev_id enabled d = (res, d') \<Longrightarrow> device_step reg fc d d'"
| rules_set: "transact (firewall_mut dev_id rules) d = (res, d') \<Longrightarrow> device_step reg fc d d'"

lemma create_device_inv:
  assumes "device_inv d" "dget (dd_devices d) dev_id = None" "dget (dd_credentials d) cred = None" "cred \<noteq> []"
    and "create_device reg ready n dev_id cred blob now d = (res, d')"
  shows "device_inv d'"
proof -
  have "d' = d \<or> (\<exists>b r. create_mut n dev_id cred blob b now d = Inr (d', r))"
    using assms(5) by (auto simp: create_device_def create_mut_def Let_def split: if_splits option.splits prod.splits)
  then show ?thesis using create_mut_inv [OF assms(1-4)] assms(1) by blast
qed

lemma device_step_inv: "device_step reg fc d d' \<Longrightarrow> device_inv d \<Longrightarrow> device_inv d'"
proof (induction rule: device_step.induct)
  case (created d dev_id cred ready n blob now res d')
  show ?case by (rule create_device_inv [OF created(5,1,2,3,4)])
next
  case (updated dev_id p d res d')
  then show ?case by (auto simp: update_device_def elim!: transact_cases intro: update_mut_inv)
next
  case (reordered owner ids admin d n d')
  then show ?case using reorder_inv [of d owner ids admin] by simp
next
  case (deleted d dev_id)
  then show ?case by (rule delete_device_inv)
next
  case (bound dev_id mac b d res d')
  then show ?case
    by (auto simp: set_client_binding_def Let_def split: if_splits elim!: transact_cases
        intro: bind_mut_inv [OF _ normal_mac_upper])
next
  case (ap_bound ready dev_id enabled d res d')
  have "d' = d \<or> (\<exists>b r. ap_mut dev_id b d = Inr (d', r))"
    using ap_bound(1) by (auto simp: set_ap_binding_def ap_mut_def Let_def split: if_splits option.splits prod.splits)
  then show ?case using ap_mut_inv ap_bound(2) by blast
next
  case (rules_set dev_id rules d res d')
  then show ?case by (auto elim!: transact_cases intro: firewall_mut_inv)
qed

section \<open>Properties\<close>

text \<open>
  Over every sequence of device operations records stay keyed by their id, no client
  is bound to two devices of one owner, every device has a stored credential that no other device
  shares, and every workload and every job refers to a device and a workload that exist.
\<close>

theorem device_run_invariant:
  assumes "(device_step reg fc)\<^sup>*\<^sup>* d d'" and "device_inv d"
  shows "device_inv d'"
  using assms by (induction rule: rtranclp_induct) (auto intro: device_step_inv)

text \<open>
  Binding a client makes the chosen device its preferred one and unbinding leaves it
  without one, whatever the owner's other devices had; the preferences for other clients and the
  bindings of other owners stay as they were.
\<close>

theorem set_client_binding_exact:
  assumes "device_inv d" and "valid_mac (normal_mac mac)" and "dget (dd_devices d) dev_id = Some target"
    and "set_client_binding dev_id mac bound d = (res, d')"
  shows "dget (binding_map (dv_owner target) (dd_devices d')) (normal_mac mac) = (if bound then Some dev_id else None) \<and>
    (\<forall>m. m \<noteq> normal_mac mac \<longrightarrow>
      dget (binding_map (dv_owner target) (dd_devices d')) m = dget (binding_map (dv_owner target) (dd_devices d)) m) \<and>
    (\<forall>k v. dget (dd_devices d) k = Some v \<longrightarrow> dv_owner v \<noteq> dv_owner target \<longrightarrow> dget (dd_devices d') k = Some v)"
proof -
  let ?m = "normal_mac mac" and ?o = "dv_owner target"
  have d': "d' = d\<lparr>dd_devices := bind_all ?o dev_id ?m bound (dd_devices d)\<rparr>"
    using assms(2-4) by (auto simp: set_client_binding_def Let_def bind_mut_eq transact_def)
  have inv': "device_inv d'"
    using assms(1,2,4) by (auto simp: set_client_binding_def Let_def elim!: transact_cases
        intro: bind_mut_inv [OF _ normal_mac_upper])
  have id: "dv_id v = k" if "dget (dd_devices d) k = Some v" for k v
    using assms(1) that by (auto simp: device_inv_def dest: dict_allD)
  have get: "dget (dd_devices d') k = map_option (\<lambda>v. if dv_owner v = ?o then rebind dev_id ?m bound v else v) (dget (dd_devices d) k)" for k
    by (simp add: d' bind_all_def)
  have bound_mem: "M \<in> upper ` set (dv_bound (rebind dev_id ?m bound v)) \<longleftrightarrow>
      (if M = ?m then k = dev_id \<and> bound else M \<in> upper ` set (dv_bound v))"
    if "dget (dd_devices d) k = Some v" for M k v
    using id [OF that] by (force simp: rebind_def)
  have key: "dget (binding_map ?o (dd_devices d')) M = Some i \<longleftrightarrow>
      (if M = ?m then i = dev_id \<and> bound else dget (binding_map ?o (dd_devices d)) M = Some i)" for M i
  proof (cases "dget (dd_devices d) i")
    case None
    then have "i \<noteq> dev_id" using assms(3) by auto
    with None show ?thesis by (simp add: binding_map_get [OF inv'] binding_map_get [OF assms(1)] get)
  next
    case (Some v)
    show ?thesis
    proof (cases "dv_owner v = ?o")
      case True
      then show ?thesis
        by (simp add: binding_map_get [OF inv'] binding_map_get [OF assms(1)] get Some bound_mem [OF Some] del: set_map)
    next
      case False
      with Some assms(3) have "i \<noteq> dev_id" by auto
      with False show ?thesis
        by (simp add: binding_map_get [OF inv'] binding_map_get [OF assms(1)] get Some)
    qed
  qed
  have some: "x = y" if "\<And>i. x = Some i \<longleftrightarrow> y = Some i" for x y :: "string option"
    using that [of "the x"] that [of "the y"] by (cases x; cases y) simp_all
  show ?thesis
  proof (intro conjI allI impI)
    show "dget (binding_map ?o (dd_devices d')) ?m = (if bound then Some dev_id else None)"
      by (rule some, simp only: key) auto
    show "dget (binding_map ?o (dd_devices d')) m = dget (binding_map ?o (dd_devices d)) m" if "m \<noteq> ?m" for m
      by (rule some, simp only: key) (simp add: that)
    show "dget (dd_devices d') k = Some v" if "dget (dd_devices d) k = Some v" "dv_owner v \<noteq> ?o" for k v
      using that by (simp add: get)
  qed
qed

text \<open>
  Deleting a device removes its record, its credential, its workloads and their jobs,
  its history file, and nothing else.
\<close>

theorem delete_device_exact:
  assumes "device_inv d" and "dget (dd_devices d) dev_id = Some v"
  shows "dget (dd_devices (delete_device dev_id d)) k = (if k = dev_id then None else dget (dd_devices d) k) \<and>
    dget (dd_credentials (delete_device dev_id d)) c = (if dv_cred v = Some c then None else dget (dd_credentials d) c) \<and>
    dget (dd_parents (delete_device dev_id d)) i = (if dget (dd_parents d) i = Some dev_id then None else dget (dd_parents d) i) \<and>
    dget (dd_jobs (delete_device dev_id d)) j =
      (if \<exists>i. dget (dd_jobs d) j = Some i \<and> dget (dd_parents d) i = Some dev_id then None else dget (dd_jobs d) j) \<and>
    dd_histories (delete_device dev_id d) = removeAll dev_id (dd_histories d)"
proof -
  have "dd_histories (delete_device dev_id d) = removeAll dev_id (dd_histories d)"
    by (simp add: delete_device_def Let_def)
  then show ?thesis
    using credential_of [OF assms] assms(2)
    by (auto simp: delete_device_fields [OF assms(1)] split: option.split)
qed

text \<open>
  While a lease on the update check of a device has not expired, no sequence of other
  acquisitions and releases takes it away, and a second check of that device is refused.
\<close>

inductive lock_step :: "string \<Rightarrow> string \<Rightarrow> int \<Rightarrow> device_doc \<Rightarrow> device_doc \<Rightarrow> bool" for dev_id token expires where
  lock_acquire: "now < expires \<Longrightarrow> transact (acquire_lock dev tok now) d = (res, d') \<Longrightarrow> lock_step dev_id token expires d d'"
| lock_release: "(dev, tok) \<noteq> (dev_id, token) \<Longrightarrow> transact (release_lock dev tok) d = (res, d') \<Longrightarrow>
    lock_step dev_id token expires d d'"

lemma lock_step_keeps:
  assumes "lock_step dev_id token expires d d'" and "dict_ok (dd_locks d)"
    and "dget (dd_locks d) dev_id = Some \<lparr>ul_token = token, ul_expires = expires\<rparr>"
  shows "dict_ok (dd_locks d') \<and> dget (dd_locks d') dev_id = Some \<lparr>ul_token = token, ul_expires = expires\<rparr>"
  using assms
proof (induction rule: lock_step.induct)
  case (lock_acquire now dev tok d res d')
  have live: "dget (dfilter (\<lambda>_ l. \<not> ul_expires l \<le> now) (dd_locks d)) dev_id = Some \<lparr>ul_token = token, ul_expires = expires\<rparr>"
    using lock_acquire(1,3,4) by (simp add: dget_dfilter)
  from lock_acquire(2) show ?case
  proof (cases rule: transact_cases)
    case (raised e)
    then show ?thesis using lock_acquire(3,4) by simp
  next
    case (returned x)
    with live lock_acquire(3) show ?thesis
      by (auto simp: acquire_lock_def Let_def split: if_splits)
  qed
next
  case (lock_release dev tok d res d')
  then show ?case
    by (auto simp: release_lock_def transact_def split: option.splits if_splits)
qed

theorem update_check_lease_exclusive:
  assumes "dict_ok (dd_locks d0)" and "transact (acquire_lock dev_id token t0) d0 = (Inr (), d1)"
    and "(lock_step dev_id token (t0 + update_check_lease))\<^sup>*\<^sup>* d1 d" and "now < t0 + update_check_lease"
  shows "transact (acquire_lock dev_id other now) d =
    (Inl (Conflict ''an update check is already active for this device''), d)"
proof -
  have "dict_ok (dd_locks d1) \<and> dget (dd_locks d1) dev_id = Some \<lparr>ul_token = token, ul_expires = t0 + update_check_lease\<rparr>"
    using assms(1,2) by (auto simp: acquire_lock_def Let_def transact_def split: if_splits)
  with assms(3) have "dict_ok (dd_locks d) \<and> dget (dd_locks d) dev_id = Some \<lparr>ul_token = token, ul_expires = t0 + update_check_lease\<rparr>"
    by (induction rule: rtranclp_induct) (auto dest: lock_step_keeps)
  with assms(4) show ?thesis
    by (simp add: acquire_lock_def Let_def dget_dfilter)
qed

lemma insort_key_snoc: "f a \<le> f x \<Longrightarrow> insort_key f a (ys @ [x]) = insort_key f a ys @ [x]"
  by (induction ys) simp_all

lemma sort_key_snoc_max:
  "\<forall>y \<in> set xs. f y \<le> f x \<Longrightarrow> sort_key f (xs @ [x]) = sort_key f xs @ [x]"
  by (induction xs) (simp_all add: insort_key_snoc)

text \<open>
  A new device is the last of its owner's list when the positions of the owner's
  devices do not exceed their number and none of them was created later.
\<close>

theorem created_device_sorts_last:
  assumes "dget (dd_devices d) dev_id = None" and "create_device reg ready n dev_id cred blob now d = (Inr (rec, w), d')"
    and "\<forall>v \<in> set (list_devices (nd_owner n) False d).
      dv_order v \<le> int (owned_count (nd_owner n) (dd_devices d)) \<and> dv_created v \<le> now"
  shows "list_devices (nd_owner n) False d' = list_devices (nd_owner n) False d @ [rec]"
proof -
  have d': "dd_devices d' = dput dev_id rec (dd_devices d)" and r: "dv_owner rec = nd_owner n"
    "dv_order rec = int (owned_count (nd_owner n) (dd_devices d))" "dv_created rec = now"
    using assms(2) by (auto simp: create_device_def create_mut_def Let_def split: if_splits option.splits prod.splits)
  let ?vs = "filter (\<lambda>v. dv_owner v = nd_owner n) (dvals (dd_devices d))"
  have le: "device_rank y \<le> device_rank rec" if "y \<in> set ?vs" for y
    using assms(3) that r by (auto simp: list_devices_def device_rank_def less_eq_prod_def)
  have "list_devices (nd_owner n) False d' = sort_key device_rank (?vs @ [rec])"
    by (simp add: list_devices_def d' dput_new [OF dget_None_iff [THEN iffD1, OF assms(1)]] r)
  also have "\<dots> = sort_key device_rank ?vs @ [rec]" by (rule sort_key_snoc_max) (use le in blast)
  finally show ?thesis by (simp add: list_devices_def)
qed

section \<open>Concrete devices\<close>

definition demo_device :: "string \<Rightarrow> string \<Rightarrow> int \<Rightarrow> string list \<Rightarrow> device" where
  "demo_device i cred order bound = \<lparr>dv_id = i, dv_owner = ''u'', dv_name = None, dv_host = ''h'', dv_port = JNull,
     dv_transport = ''http'', dv_driver = ''g'', dv_cred = Some cred, dv_entities = [], dv_dashboard = None,
     dv_ap_binding = True, dv_scheduled = True, dv_order = order, dv_created = order, dv_hidden = [], dv_bound = bound,
     dv_nac = None, dv_alerts = [], dv_alert_state = [], dv_state = None, dv_firewall = []\<rparr>"

definition demo_devices :: "device_doc" where
  "demo_devices = \<lparr>dd_devices = [(''a'', demo_device ''a'' ''c1'' 0 [''AA:BB:CC:DD:EE:FF'']), (''b'', demo_device ''b'' ''c2'' 1 [])],
     dd_credentials = [(''c1'', ''x''), (''c2'', ''y'')], dd_parents = [(''w'', ''a'')], dd_jobs = [(''j'', ''w'')], dd_locks = [], dd_histories = [''a'', ''b'']\<rparr>"

definition demo_registry :: registry where
  "demo_registry g = Some \<lparr>drv_transports = [''http''], drv_binding = True, drv_nac = True, drv_firewall = True,
     drv_updates = True, drv_compute = True, drv_clients = True, drv_status_keys = []\<rparr>"

definition demo_new :: new_device where
  "demo_new = \<lparr>nd_owner = ''u'', nd_host = ''h'', nd_transport = ''http'', nd_port = JNull, nd_driver = ''g'', nd_name = None,
     nd_entities = [], nd_dashboard = None, nd_ap_binding = False\<rparr>"

lemmas demo_device_defs = demo_devices_def demo_device_def

lemma demo_devices_inv: "device_inv demo_devices"
proof -
  have g: "k = ''a'' \<and> dv_bound v = [''AA:BB:CC:DD:EE:FF''] \<and> dv_cred v = Some ''c1'' \<or>
      k = ''b'' \<and> dv_bound v = [] \<and> dv_cred v = Some ''c2''"
    if "dget (dd_devices demo_devices) k = Some v" for k v
    using that by (auto simp: demo_devices_def demo_device_def split: if_splits)
  have "bindings_unique (dd_devices demo_devices)"
    unfolding bindings_unique_def
  proof (intro conjI allI impI)
    fix k v
    assume "dget (dd_devices demo_devices) k = Some v"
    from g [OF this] show "distinct (map upper (dv_bound v))" by auto
  next
    fix k1 k2 v1 v2 m1 m2
    assume "dget (dd_devices demo_devices) k1 = Some v1" "dget (dd_devices demo_devices) k2 = Some v2"
      "m1 \<in> set (dv_bound v1)" "m2 \<in> set (dv_bound v2)"
    with g [of k1 v1] g [of k2 v2] show "k1 = k2" by auto
  qed
  moreover have "credentials_own demo_devices"
  proof (rule credentials_ownI)
    show "dict_ok (dd_credentials demo_devices)" by (simp add: demo_devices_def)
    fix k v
    assume "dget (dd_devices demo_devices) k = Some v"
    from g [OF this] show "\<exists>c. dv_cred v = Some c \<and> c \<noteq> [] \<and> dget (dd_credentials demo_devices) c \<noteq> None"
      by (elim disjE) (simp_all add: demo_devices_def)
  next
    fix k1 k2 v1 v2
    assume "dget (dd_devices demo_devices) k1 = Some v1" "dget (dd_devices demo_devices) k2 = Some v2" "dv_cred v1 = dv_cred v2"
    with g [of k1 v1] g [of k2 v2] show "k1 = k2" by auto
  qed
  moreover have "references_ok demo_devices" by (simp add: references_ok_def dict_all_def demo_device_defs)
  ultimately show ?thesis by (auto simp: device_inv_def dict_all_def demo_device_defs split: if_splits)
qed

theorem device_run_invariant_witness: "device_inv (delete_device ''a'' demo_devices)"
proof -
  have "device_step demo_registry fc demo_devices (delete_device ''a'' demo_devices)" for fc
    by (rule device_step.deleted)
  then show ?thesis using device_run_invariant [OF r_into_rtranclp demo_devices_inv] by blast
qed

theorem delete_device_exact_witness:
  "dget (dd_credentials (delete_device ''a'' demo_devices)) ''c1'' = None \<and>
   dget (dd_jobs (delete_device ''a'' demo_devices)) ''j'' = None \<and>
   dget (dd_devices (delete_device ''a'' demo_devices)) ''b'' \<noteq> None"
proof -
  have a: "dget (dd_devices demo_devices) ''a'' = Some (demo_device ''a'' ''c1'' 0 [''AA:BB:CC:DD:EE:FF''])"
    by (simp add: demo_devices_def)
  from delete_device_exact [OF demo_devices_inv a, of "''b''" "''c1''" "''w''" "''j''"] show ?thesis
    by (simp add: demo_device_defs)
qed

lemma demo_mac_normal: "normal_mac (Some ''aa:bb:cc:dd:ee:ff'') = ''AA:BB:CC:DD:EE:FF''" "valid_mac ''AA:BB:CC:DD:EE:FF''"
  by code_simp+

theorem set_client_binding_exact_witness:
  "dget (binding_map ''u'' (dd_devices (snd (set_client_binding ''b'' (Some ''aa:bb:cc:dd:ee:ff'') True demo_devices))))
     ''AA:BB:CC:DD:EE:FF'' = Some ''b''"
proof -
  have b: "dget (dd_devices demo_devices) ''b'' = Some (demo_device ''b'' ''c2'' 1 [])"
    by (simp add: demo_devices_def)
  have v: "valid_mac (normal_mac (Some ''aa:bb:cc:dd:ee:ff''))" by (simp only: demo_mac_normal)
  from set_client_binding_exact [OF demo_devices_inv v b, of True, OF prod.collapse [symmetric]] show ?thesis
    by (simp add: demo_mac_normal demo_device_def)
qed

theorem update_check_lease_exclusive_witness:
  "transact (acquire_lock ''a'' ''t2'' 100) (snd (transact (acquire_lock ''a'' ''t1'' 0) demo_devices)) =
    (Inl (Conflict ''an update check is already active for this device''),
     snd (transact (acquire_lock ''a'' ''t1'' 0) demo_devices))"
proof -
  have ok: "dict_ok (dd_locks demo_devices)" by (simp add: demo_devices_def)
  have "transact (acquire_lock ''a'' ''t1'' 0) demo_devices = (Inr (), snd (transact (acquire_lock ''a'' ''t1'' 0) demo_devices))"
    by (simp add: acquire_lock_def transact_def Let_def demo_devices_def dfilter_def)
  from update_check_lease_exclusive [OF ok this rtranclp.rtrancl_refl] show ?thesis
    by (simp add: update_check_lease_def)
qed

theorem created_device_sorts_last_witness:
  "\<exists>r. list_devices ''u'' False (snd (create_device demo_registry None demo_new ''n'' ''c3'' ''z'' 7 demo_devices)) =
     list_devices ''u'' False demo_devices @ [r]"
proof -
  obtain rec w d' where c: "create_device demo_registry None demo_new ''n'' ''c3'' ''z'' 7 demo_devices = (Inr (rec, w), d')"
    by (simp add: create_device_def create_mut_def demo_registry_def demo_new_def Let_def transact_def)
  have n: "dget (dd_devices demo_devices) ''n'' = None" "nd_owner demo_new = ''u''"
    by (simp_all add: demo_devices_def demo_new_def)
  have le: "\<forall>v \<in> set (list_devices (nd_owner demo_new) False demo_devices).
      dv_order v \<le> int (owned_count (nd_owner demo_new) (dd_devices demo_devices)) \<and> dv_created v \<le> 7"
    by (simp add: n list_devices_def demo_device_defs owned_count_def)
  from created_device_sorts_last [OF n(1) c le] show ?thesis by (simp add: c n)
qed

text \<open>
  The comment in \<open>create_device\<close> says that a new device sorts to the end of the owner's list. The
  position it gets is the number of the owner's devices, so after deletions it may sort before a
  device that was there already.
\<close>

lemma created_device_not_last:
  "map dv_id (list_devices ''u'' False (snd (create_device demo_registry None demo_new ''n'' ''c3'' ''z'' 7
     (demo_devices\<lparr>dd_devices := [(''a'', demo_device ''a'' ''c1'' 2 []), (''b'', demo_device ''b'' ''c2'' 3 [])]\<rparr>))))
   = [''a'', ''n'', ''b'']"
  by (simp add: create_device_def create_mut_def demo_registry_def demo_new_def Let_def transact_def
      list_devices_def demo_device_defs owned_count_def device_rank_def some_nonempty_def)

end
