(* ===== verification/Firewall.thy ===== *)
theory Firewall
  imports Devices
begin

text \<open>
  The alias operations of the firewall driver, \<open>backend/drivers/opnsense.py\<close>, that access
  control is built on. The firewall is its table of aliases; which read requests it answers and
  which writes it accepts are arguments, as is the identifier it gives a new alias.
\<close>

section \<open>The firewall\<close>

text \<open>An alias is written as lines and read back as lines or as options with a selected mark.\<close>

datatype alias_content = Lines string | Options "(string \<times> string) list"

record fw_alias =
  fa_name :: string
  fa_type :: string
  fa_description :: string
  fa_enabled :: bool
  fa_content :: alias_content

type_synonym firewall = "(string, fw_alias) dict"

datatype fw_read = AliasUuidOf string | AliasGet string

record fw_api =
  answers :: "fw_read \<Rightarrow> bool"
  saves :: "string \<Rightarrow> fw_alias \<Rightarrow> bool"

text \<open>\<open>str.splitlines\<close> for the line ends that occur in an alias, then strip and drop blanks.\<close>

definition newline :: char where "newline = CHR 0x0A"

definition parse_members :: "alias_content \<Rightarrow> string list" where
  "parse_members content = (case content of
     Lines s \<Rightarrow> filter (\<lambda>x. x \<noteq> []) (map strip (split_on newline s))
   | Options kvs \<Rightarrow> map fst (filter (\<lambda>kv. lower (snd kv) \<in> {''1'', ''true'', ''yes'', ''on''}) kvs))"

section \<open>Reading\<close>

definition alias_uuid :: "fw_api \<Rightarrow> string \<Rightarrow> firewall \<Rightarrow> string option" where
  "alias_uuid api name f = (if \<not> answers api (AliasUuidOf name) then None
     else case find (\<lambda>(u, a). fa_name a = name) f of None \<Rightarrow> None | Some (u, _) \<Rightarrow> if u = [] then None else Some u)"

record alias_info =
  ai_name :: string
  ai_type :: string
  ai_description :: string
  ai_enabled :: bool
  ai_members :: "string list"

definition alias_members :: "fw_api \<Rightarrow> string \<Rightarrow> firewall \<Rightarrow> string list" where
  "alias_members api uuid f = (if \<not> answers api (AliasGet uuid) then []
     else case dget f uuid of None \<Rightarrow> [] | Some a \<Rightarrow> parse_members (fa_content a))"

definition alias_info :: "fw_api \<Rightarrow> string \<Rightarrow> firewall \<Rightarrow> alias_info option" where
  "alias_info api uuid f = (if \<not> answers api (AliasGet uuid) then None
     else map_option (\<lambda>a. \<lparr>ai_name = fa_name a, ai_type = (if fa_type a = [] then ''mac'' else fa_type a),
       ai_description = fa_description a, ai_enabled = fa_enabled a, ai_members = parse_members (fa_content a)\<rparr>) (dget f uuid))"

definition nac_members :: "fw_api \<Rightarrow> string \<Rightarrow> firewall \<Rightarrow> string list" where
  "nac_members api name f = (case alias_uuid api name f of
     None \<Rightarrow> [] | Some uuid \<Rightarrow> map upper (alias_members api uuid f))"

definition alias_membership :: "fw_api \<Rightarrow> string list \<Rightarrow> string \<Rightarrow> string \<Rightarrow> firewall \<Rightarrow> (string, bool) dict" where
  "alias_membership api uuids ip mac f = fold (\<lambda>uuid out.
     dput uuid (case alias_info api uuid f of None \<Rightarrow> False
       | Some info \<Rightarrow> (let entry = (if ai_type info = ''mac'' then mac else ip) in
           entry \<noteq> [] \<and> upper entry \<in> set (map upper (ai_members info)))) out) uuids []"

record alias_index_entry =
  ax_name :: string
  ax_type :: string
  ax_members :: "string list"

definition alias_member_index :: "fw_api \<Rightarrow> managed_alias list \<Rightarrow> firewall \<Rightarrow> (string, alias_index_entry) dict" where
  "alias_member_index api aliases f = fold (\<lambda>a idx.
     if ma_uuid a = [] then idx
     else case alias_info api (ma_uuid a) f of None \<Rightarrow> idx
       | Some info \<Rightarrow> dput (ma_uuid a) \<lparr>ax_name = (if ma_name a \<noteq> [] then ma_name a else ai_name info),
           ax_type = ai_type info, ax_members = map upper (ai_members info)\<rparr> idx) aliases []"

section \<open>Writing\<close>

definition alias_write :: "fw_api \<Rightarrow> string \<Rightarrow> alias_info \<Rightarrow> string list \<Rightarrow> firewall \<Rightarrow> unit result \<times> firewall" where
  "alias_write api uuid info members f =
     (let a = \<lparr>fa_name = ai_name info, fa_type = ai_type info, fa_description = ai_description info,
               fa_enabled = ai_enabled info, fa_content = Lines (join_with [newline] members)\<rparr> in
      if saves api uuid a then (Inr (), dput uuid a f) else (Inl (ValueError ''alias save failed''), f))"

text \<open>Adding and removing by the upper-case form of the entry; nothing to change is success.\<close>

definition edited_members :: "string \<Rightarrow> bool \<Rightarrow> string list \<Rightarrow> string list option" where
  "edited_members entry add members =
     (let present = upper entry \<in> set (map upper members) in
      if add \<and> \<not> present then Some (members @ [entry])
      else if \<not> add \<and> present then Some (filter (\<lambda>m. upper m \<noteq> upper entry) members) else None)"

definition nac_set_member :: "fw_api \<Rightarrow> string \<Rightarrow> string \<Rightarrow> bool \<Rightarrow> firewall \<Rightarrow> (string \<times> bool) result \<times> firewall" where
  "nac_set_member api name mac approved f =
     (let m = strip mac in
      if m = [] then (Inl (ValueError ''mac required''), f)
      else case alias_uuid api name f of
        None \<Rightarrow> (Inl (ValueError (''alias not found: '' @ name)), f)
      | Some uuid \<Rightarrow> (case alias_info api uuid f of
          None \<Rightarrow> (Inl TypeError, f)
        | Some info \<Rightarrow> (case edited_members m approved (ai_members info) of
            None \<Rightarrow> (Inr (upper m, approved), f)
          | Some ms \<Rightarrow> (case alias_write api uuid info ms f of
              (Inl e, f') \<Rightarrow> (Inl e, f') | (Inr _, f') \<Rightarrow> (Inr (upper m, approved), f')))))"

definition alias_set_member :: "fw_api \<Rightarrow> string \<Rightarrow> string \<Rightarrow> string \<Rightarrow> bool \<Rightarrow> firewall \<Rightarrow> (string \<times> bool) result \<times> firewall" where
  "alias_set_member api uuid ip mac add f = (case alias_info api uuid f of
     None \<Rightarrow> (Inl (ValueError ''alias not found''), f)
   | Some info \<Rightarrow>
       (let entry = (if ai_type info = ''mac'' then mac else ip) in
        if entry = [] then (Inl (ValueError (if ai_type info = ''mac'' then ''this client has no MAC''
          else ''this client has no IP address'')), f)
        else case edited_members entry add (ai_members info) of
          None \<Rightarrow> (Inr (uuid, add), f)
        | Some ms \<Rightarrow> (case alias_write api uuid info ms f of
            (Inl e, f') \<Rightarrow> (Inl e, f') | (Inr _, f') \<Rightarrow> (Inr (uuid, add), f'))))"

definition is_name_char :: "char \<Rightarrow> bool" where
  "is_name_char c = (let n = of_char c :: nat in 65 \<le> n \<and> n \<le> 90 \<or> 97 \<le> n \<and> n \<le> 122)"

definition valid_alias_name :: "string \<Rightarrow> bool" where
  "valid_alias_name s = (case s of [] \<Rightarrow> False
     | c # cs \<Rightarrow> is_name_char c \<and> length cs \<le> 31 \<and>
         list_all (\<lambda>x. is_name_char x \<or> is_digit_char x \<or> x = CHR ''_'') cs)"

record created_alias =
  ca_uuid :: string
  ca_name :: string
  ca_type :: string
  ca_existed :: bool

definition alias_create :: "fw_api \<Rightarrow> string \<Rightarrow> string \<Rightarrow> string \<Rightarrow> firewall \<Rightarrow> created_alias result \<times> firewall" where
  "alias_create api new_uuid name atype f =
     (let nm = strip name; ty = (if atype \<in> {''host'', ''mac'', ''network''} then atype else ''host'') in
      if \<not> valid_alias_name nm
      then (Inl (ValueError ''alias name must start with a letter and use only letters, digits or underscore (max 32 chars)''), f)
      else case alias_uuid api nm f of
        Some uuid \<Rightarrow> (Inr \<lparr>ca_uuid = uuid, ca_name = nm,
          ca_type = (case alias_info api uuid f of None \<Rightarrow> ty | Some info \<Rightarrow> ai_type info), ca_existed = True\<rparr>, f)
      | None \<Rightarrow>
          (let a = \<lparr>fa_name = nm, fa_type = ty, fa_description = ''HomelabHQ'', fa_enabled = True, fa_content = Lines []\<rparr> in
           if saves api new_uuid a
           then (Inr \<lparr>ca_uuid = new_uuid, ca_name = nm, ca_type = ty, ca_existed = False\<rparr>, dput new_uuid a f)
           else (Inl (ValueError ''alias create failed''), f)))"

section \<open>The content of an alias\<close>

definition clean_entry :: "string \<Rightarrow> bool" where
  "clean_entry s \<longleftrightarrow> s \<noteq> [] \<and> newline \<notin> set s \<and> \<not> is_space (hd s) \<and> \<not> is_space (last s)"

lemma strip_clean: "s \<noteq> [] \<Longrightarrow> \<not> is_space (hd s) \<Longrightarrow> \<not> is_space (last s) \<Longrightarrow> strip s = s"
  by (simp add: strip_def dropWhile_eq_self_iff [THEN iffD2] hd_rev)

lemma split_join:
  "list_all (\<lambda>w. c \<notin> set w) ws \<Longrightarrow> ws \<noteq> [] \<Longrightarrow> split_on c (join_with [c] ws) = ws"
proof (induction ws)
  case (Cons w ws)
  then show ?case by (cases ws) (simp_all add: split_on_append split_on_no_sep)
qed simp

lemma parse_members_join:
  assumes "list_all clean_entry ms"
  shows "parse_members (Lines (join_with [newline] ms)) = ms"
proof (cases "ms = []")
  case True
  then show ?thesis by (simp add: parse_members_def strip_def)
next
  case False
  have "split_on newline (join_with [newline] ms) = ms"
    by (rule split_join [OF _ False]) (use assms in \<open>auto simp: list_all_iff clean_entry_def\<close>)
  moreover have "map strip ms = ms"
    by (rule map_idI) (use assms in \<open>auto simp: list_all_iff clean_entry_def strip_clean\<close>)
  moreover have "filter (\<lambda>x. x \<noteq> []) ms = ms"
    using assms by (auto simp: list_all_iff clean_entry_def intro: filter_True)
  ultimately show ?thesis by (simp add: parse_members_def)
qed

section \<open>The contract of an allow list\<close>

text \<open>
  What access control relies on: a successful edit adds or removes exactly that entry, a failed
  edit changes nothing, and the list stays readable.
\<close>

locale allow_list =
  fixes members :: "'f \<Rightarrow> string set"
    and put :: "string \<Rightarrow> bool \<Rightarrow> 'f \<Rightarrow> 'a result \<times> 'f"
    and good :: "'f \<Rightarrow> bool"
    and entry :: "string \<Rightarrow> bool"
  assumes put_good: "good f \<Longrightarrow> entry m \<Longrightarrow> good (snd (put m b f))"
    and put_ok: "good f \<Longrightarrow> entry m \<Longrightarrow> put m b f = (Inr x, f') \<Longrightarrow>
      members f' = (if b then insert (upper m) (members f) else members f - {upper m})"
    and put_fail: "good f \<Longrightarrow> entry m \<Longrightarrow> put m b f = (Inl e, f') \<Longrightarrow> members f' = members f"

text \<open>The loop of a batch edit: the first failure ends it, what was done stays done.\<close>

fun put_all :: "(string \<Rightarrow> bool \<Rightarrow> 'f \<Rightarrow> 'a result \<times> 'f) \<Rightarrow> bool \<Rightarrow> string list \<Rightarrow> 'f \<Rightarrow> unit result \<times> 'f" where
  "put_all put b [] f = (Inr (), f)"
| "put_all put b (m # ms) f = (case put m b f of
     (Inl e, f') \<Rightarrow> (Inl e, f') | (Inr _, f') \<Rightarrow> put_all put b ms f')"

definition edit_set :: "bool \<Rightarrow> string set \<Rightarrow> string list \<Rightarrow> string set" where
  "edit_set b S ms = (if b then S \<union> set (map upper ms) else S - set (map upper ms))"

context allow_list
begin

lemma put_all_ok:
  assumes "good f" and "list_all entry ms" and "put_all put b ms f = (Inr (), f')"
  shows "members f' = edit_set b (members f) ms"
  using assms
proof (induction ms arbitrary: f)
  case Nil
  then show ?case by (simp add: edit_set_def)
next
  case (Cons m ms)
  from Cons.prems(3) obtain x f1 where p: "put m b f = (Inr x, f1)" and rest: "put_all put b ms f1 = (Inr (), f')"
    by (auto split: prod.splits sum.splits)
  have "good f1" using put_good [of f m b] Cons.prems p by simp
  with Cons.IH [of f1] rest Cons.prems put_ok [of f m b x f1] p show ?case
    by (auto simp: edit_set_def split: if_splits)
qed

lemma put_all_partial:
  assumes "good f" and "list_all entry ms" and "put_all put b ms f = (res, f')"
  shows "\<exists>n \<le> length ms. members f' = edit_set b (members f) (take n ms)"
  using assms
proof (induction ms arbitrary: f)
  case Nil
  then show ?case by (simp add: edit_set_def)
next
  case (Cons m ms)
  obtain r f1 where p: "put m b f = (r, f1)" by (cases "put m b f")
  have g1: "good f1" using put_good [of f m b] Cons.prems p by simp
  show ?case
  proof (cases r)
    case (Inl e)
    with p Cons.prems put_fail [of f m b e f1] have "members f' = members f" by simp
    then show ?thesis by (intro exI [of _ 0]) (simp add: edit_set_def)
  next
    case (Inr x)
    with p Cons.prems have "put_all put b ms f1 = (res, f')" by simp
    from Cons.IH [OF g1 _ this] Cons.prems obtain n where n: "n \<le> length ms"
      "members f' = edit_set b (members f1) (take n ms)" by auto
    have "members f' = edit_set b (members f) (take (Suc n) (m # ms))"
      using n(2) put_ok [of f m b x f1] Cons.prems p Inr by (auto simp: edit_set_def split: if_splits)
    with n(1) show ?thesis by (intro exI [of _ "Suc n"]) simp
  qed
qed

end

section \<open>The driver keeps the contract\<close>

definition list_of :: "fw_api \<Rightarrow> string \<Rightarrow> firewall \<Rightarrow> string set" where
  "list_of api name f = set (nac_members api name f)"

text \<open>The alias exists, can be read, and its entries are clean lines.\<close>

definition readable :: "fw_api \<Rightarrow> string \<Rightarrow> firewall \<Rightarrow> bool" where
  "readable api name f \<longleftrightarrow> dict_ok f \<and> answers api (AliasUuidOf name) \<and>
     (\<exists>u a. u \<noteq> [] \<and> find (\<lambda>(u, a). fa_name a = name) f = Some (u, a) \<and> answers api (AliasGet u) \<and>
       list_all clean_entry (parse_members (fa_content a)))"

lemma find_dput:
  assumes "dict_ok f" and "find (\<lambda>(u, a). fa_name a = name) f = Some (u, a)" and "fa_name b = name"
  shows "find (\<lambda>(u, a). fa_name a = name) (dput u b f) = Some (u, b)"
  using assms by (induction f) (auto split: if_splits)

lemma find_get:
  assumes "dict_ok f" and "find (\<lambda>(u, a). fa_name a = name) f = Some (u, a)"
  shows "dget f u = Some a \<and> fa_name a = name"
proof -
  from assms(2) obtain i where "i < length f" "f ! i = (u, a)" "fa_name a = name" by (auto simp: find_Some_iff)
  then have "(u, a) \<in> set f" "fa_name a = name" using nth_mem by metis+
  then show ?thesis using assms(1) by (simp add: dget_mem_iff)
qed

lemma nac_set_member_eq:
  assumes "readable api name f" and "strip m \<noteq> []"
  obtains u a where "u \<noteq> []" "find (\<lambda>(u, a). fa_name a = name) f = Some (u, a)" "dget f u = Some a" "fa_name a = name"
    "list_all clean_entry (parse_members (fa_content a))"
    "list_of api name f = set (map upper (parse_members (fa_content a)))"
    "nac_set_member api name m b f = (case edited_members (strip m) b (parse_members (fa_content a)) of
       None \<Rightarrow> (Inr (upper (strip m), b), f)
     | Some ms \<Rightarrow> (case alias_write api u (the (alias_info api u f)) ms f of
          (Inl e, f') \<Rightarrow> (Inl e, f') | (Inr _, f') \<Rightarrow> (Inr (upper (strip m), b), f')))"
    "alias_info api u f = Some \<lparr>ai_name = name, ai_type = (if fa_type a = [] then ''mac'' else fa_type a),
       ai_description = fa_description a, ai_enabled = fa_enabled a, ai_members = parse_members (fa_content a)\<rparr>"
    "answers api (AliasUuidOf name)" "answers api (AliasGet u)" "dict_ok f"
proof -
  from assms(1) obtain u a where ua: "dict_ok f" "answers api (AliasUuidOf name)" "u \<noteq> []"
    "find (\<lambda>(u, a). fa_name a = name) f = Some (u, a)" "answers api (AliasGet u)"
    "list_all clean_entry (parse_members (fa_content a))" by (auto simp: readable_def)
  note g = find_get [OF ua(1,4)]
  have uuid: "alias_uuid api name f = Some u" using ua by (simp add: alias_uuid_def)
  have info: "alias_info api u f = Some \<lparr>ai_name = name, ai_type = (if fa_type a = [] then ''mac'' else fa_type a),
       ai_description = fa_description a, ai_enabled = fa_enabled a, ai_members = parse_members (fa_content a)\<rparr>"
    using g ua(5) by (simp add: alias_info_def)
  show thesis
  proof (rule that [of u a])
    show "list_of api name f = set (map upper (parse_members (fa_content a)))"
      using uuid ua(5) g by (simp add: list_of_def nac_members_def alias_members_def)
  qed (use ua g info uuid assms(2) in \<open>simp_all add: nac_set_member_def Let_def split: option.split\<close>)
qed

lemma list_of_written:
  assumes "dict_ok f" "answers api (AliasUuidOf name)" "u \<noteq> []" "find (\<lambda>(u, a). fa_name a = name) f = Some (u, a)"
    "answers api (AliasGet u)" "fa_name b = name" "list_all clean_entry (parse_members (fa_content b))"
  shows "readable api name (dput u b f) \<and> list_of api name (dput u b f) = set (map upper (parse_members (fa_content b)))"
proof -
  have f: "find (\<lambda>(u, a). fa_name a = name) (dput u b f) = Some (u, b)" by (rule find_dput [OF assms(1,4,6)])
  with assms show ?thesis
    by (auto simp: readable_def list_of_def nac_members_def alias_uuid_def alias_members_def)
qed

lemma edited_members_spec:
  assumes "edited_members e b ms = Some ms'"
  shows "set (map upper ms') = (if b then insert (upper e) (set (map upper ms)) else set (map upper ms) - {upper e})"
    and "clean_entry e \<Longrightarrow> list_all clean_entry ms \<Longrightarrow> list_all clean_entry ms'"
  using assms by (auto simp: edited_members_def Let_def list_all_iff split: if_splits)

lemma edited_members_None:
  "edited_members e b ms = None \<Longrightarrow>
   set (map upper ms) = (if b then insert (upper e) (set (map upper ms)) else set (map upper ms) - {upper e})"
  by (cases "upper e \<in> set (map upper ms)") (auto simp: edited_members_def Let_def split: if_splits)

lemma nac_set_member_contract:
  assumes "readable api name f" and "clean_entry m" and "nac_set_member api name m b f = (res, f')"
  shows "readable api name f' \<and> (case res of
      Inr _ \<Rightarrow> list_of api name f' = (if b then insert (upper m) (list_of api name f) else list_of api name f - {upper m})
    | Inl _ \<Rightarrow> f' = f)"
proof -
  have sm: "strip m = m" using assms(2) by (simp add: clean_entry_def strip_clean)
  then have ne: "strip m \<noteq> []" using assms(2) by (simp add: clean_entry_def)
  obtain u a where ua: "u \<noteq> []"
    "find (\<lambda>(u, a). fa_name a = name) f = Some (u, a)" "dget f u = Some a" "fa_name a = name"
    "list_all clean_entry (parse_members (fa_content a))"
    and lst: "list_of api name f = set (map upper (parse_members (fa_content a)))"
    and eq: "nac_set_member api name m b f = (case edited_members (strip m) b (parse_members (fa_content a)) of
       None \<Rightarrow> (Inr (upper (strip m), b), f)
     | Some ms \<Rightarrow> (case alias_write api u (the (alias_info api u f)) ms f of
          (Inl e, f') \<Rightarrow> (Inl e, f') | (Inr _, f') \<Rightarrow> (Inr (upper (strip m), b), f')))"
    and info: "alias_info api u f = Some \<lparr>ai_name = name, ai_type = (if fa_type a = [] then ''mac'' else fa_type a),
       ai_description = fa_description a, ai_enabled = fa_enabled a, ai_members = parse_members (fa_content a)\<rparr>"
    and api: "answers api (AliasUuidOf name)" "answers api (AliasGet u)" "dict_ok f"
    by (rule nac_set_member_eq [OF assms(1) ne, where b = b]) (rule that)
  show ?thesis
  proof (cases "edited_members m b (parse_members (fa_content a))")
    case None
    have r: "res = Inr (upper m, b)" "f' = f"
      using assms(3) unfolding eq sm None by simp_all
    have "list_of api name f = (if b then insert (upper m) (list_of api name f) else list_of api name f - {upper m})"
      unfolding lst by (rule edited_members_None [OF None])
    with assms(1) show ?thesis unfolding r sum.case by blast
  next
    case (Some ms)
    let ?w = "\<lparr>fa_name = name, fa_type = (if fa_type a = [] then ''mac'' else fa_type a),
       fa_description = fa_description a, fa_enabled = fa_enabled a, fa_content = Lines (join_with [newline] ms)\<rparr>"
    have clean: "list_all clean_entry ms" using edited_members_spec(2) [OF Some assms(2) ua(5)] .
    show ?thesis
    proof (cases "saves api u ?w")
      case True
      then have "res = Inr (upper m, b)" "f' = dput u ?w f"
        using assms(3) unfolding eq sm Some info by (simp_all add: alias_write_def Let_def)
      moreover have "readable api name (dput u ?w f) \<and> list_of api name (dput u ?w f) = set (map upper ms)"
        using list_of_written [OF api(3,1) ua(1,2) api(2), of ?w] clean by (simp add: parse_members_join)
      ultimately show ?thesis using edited_members_spec(1) [OF Some] lst by simp
    next
      case False
      then have "f' = f" "\<exists>e. res = Inl e"
        using assms(3) unfolding eq sm Some info by (auto simp: alias_write_def Let_def)
      with assms(1) show ?thesis by auto
    qed
  qed
qed

interpretation opnsense: allow_list "list_of api name" "nac_set_member api name" "readable api name" clean_entry
  for api name
proof
  fix f m b
  assume "readable api name f" "clean_entry m"
  then show "readable api name (snd (nac_set_member api name m b f))"
    using nac_set_member_contract [of api name f m b, OF _ _ prod.collapse [symmetric]] by blast
next
  fix f m b x f'
  assume "readable api name f" "clean_entry m" "nac_set_member api name m b f = (Inr x, f')"
  from nac_set_member_contract [OF this]
  show "list_of api name f' = (if b then insert (upper m) (list_of api name f) else list_of api name f - {upper m})"
    by simp
next
  fix f m b e f'
  assume "readable api name f" "clean_entry m" "nac_set_member api name m b f = (Inl e, f')"
  from nac_set_member_contract [OF this] show "list_of api name f' = list_of api name f" by simp
qed

end
