(* ===== verification/Roster.thy ===== *)
theory Roster
  imports Discovery Transact
begin

text \<open>
  The persistent client roster of \<open>backend/client_roster.py\<close>: one record per MAC and owner with
  presence, the bounded event log, notes, and the access-control status, and its boundary type
  \<open>ClientRosterRecord\<close> of \<open>backend/domain.py\<close>. An absent key of a record is the empty string,
  \<open>False\<close>, \<open>JNull\<close> or \<open>None\<close>, which the code reads the same way; \<open>firstSeen\<close> and \<open>lastSeen\<close>,
  whose absence raises or has its own default, are options. The clock is an argument.
\<close>

section \<open>Records\<close>

datatype presence = Up | Down

record roster_event =
  ev_ts :: int
  ev_kind :: presence
  ev_via :: string

record alias_ref =
  al_uuid :: string
  al_name :: string

record roster_record =
  r_first :: "int option"
  r_last :: "int option"
  r_online :: bool
  r_ip :: string
  r_hostname :: string
  r_vendor :: string
  r_kind :: string
  r_signal :: json
  r_seen :: "sighting list"
  r_via :: string
  r_name :: string
  r_notes :: string
  r_notify :: bool
  r_new :: bool
  r_nac :: "bool option"
  r_aliases :: "alias_ref list"
  r_events :: "roster_event list"
  r_ignored :: bool
  r_away :: bool
  r_notified :: bool

type_synonym tracked = "(string, roster_record) dict"

record snapshot_meta =
  sm_sources :: "source_report list"
  sm_updated :: "int option"
  sm_nac :: doc

record roster_doc =
  rd_rosters :: "(string, tracked) dict"
  rd_discovery :: "(string, snapshot_meta) dict"

definition client_events_max :: nat where "client_events_max = 50"
definition nac_new_window :: int where "nac_new_window = 24 * 3600"

text \<open>\<open>CLIENT_OFFLINE_AFTER\<close> and \<open>CLIENT_RECORD_RETENTION_DAYS\<close> are read from the environment.\<close>

record roster_limits =
  offline_after :: int
  retention_days :: int

definition limits_of_env :: "int \<Rightarrow> int \<Rightarrow> roster_limits" where
  "limits_of_env off days = \<lparr>offline_after = max 60 off, retention_days = max 0 days\<rparr>"

definition fresh_record :: "int \<Rightarrow> roster_record" where
  "fresh_record now = \<lparr>r_first = Some now, r_last = Some now, r_online = False, r_ip = [],
     r_hostname = [], r_vendor = [], r_kind = [], r_signal = JNull, r_seen = [], r_via = [],
     r_name = [], r_notes = [], r_notify = False, r_new = False, r_nac = None, r_aliases = [],
     r_events = [], r_ignored = False, r_away = False, r_notified = False\<rparr>"

definition roster_of :: "string \<Rightarrow> roster_doc \<Rightarrow> tracked" where
  "roster_of owner d = dget_or (rd_rosters d) owner []"

definition add_event :: "int \<Rightarrow> presence \<Rightarrow> string \<Rightarrow> roster_record \<Rightarrow> roster_record" where
  "add_event now k via r =
     r\<lparr>r_events := keep_last client_events_max (r_events r @ [\<lparr>ev_ts = now, ev_kind = k, ev_via = via\<rparr>])\<rparr>"

definition via_of :: "sighting list \<Rightarrow> string" where
  "via_of seen = (case seen of [] \<Rightarrow> [] | s0 # _ \<Rightarrow>
     (let s = (case find (\<lambda>i. s_kind i = ''wifi'') seen of Some i \<Rightarrow> i | None \<Rightarrow> s0) in
      if s_via s \<noteq> [] \<and> s_where s \<noteq> [] then s_via s @ [CHR '' '', CHR 0xB7, CHR '' ''] @ s_where s
      else if s_via s \<noteq> [] then s_via s else s_where s))"

section \<open>One discovery result\<close>

definition prune_stale :: "int \<Rightarrow> int \<Rightarrow> string list \<Rightarrow> tracked \<Rightarrow> tracked" where
  "prune_stale days now present tracked =
     (if days = 0 then tracked
      else dfilter (\<lambda>mac r. \<not> (mac \<notin> set present \<and> \<not> r_online r \<and>
             (case r_last r of Some t \<Rightarrow> t | None \<Rightarrow> (case r_first r of Some t \<Rightarrow> t | None \<Rightarrow> now))
               < now - days * 24 * 3600)) tracked)"

definition failed_sources :: "source_report list option \<Rightarrow> string list" where
  "failed_sources sources = map src_device
     (filter (\<lambda>s. (case src_error s of None \<Rightarrow> False | Some e \<Rightarrow> e \<noteq> []) \<and> src_device s \<noteq> [])
       (case sources of None \<Rightarrow> [] | Some ss \<Rightarrow> ss))"

definition sighting_id :: "sighting \<Rightarrow> string \<times> string \<times> string" where
  "sighting_id s = (s_via s, s_where s, s_kind s)"

fun merge_failed_loop :: "string list \<Rightarrow> sighting list \<Rightarrow> (string \<times> string \<times> string) list \<Rightarrow> sighting list
    \<Rightarrow> sighting list" where
  "merge_failed_loop failed [] ids merged = merged"
| "merge_failed_loop failed (s # ss) ids merged =
     (if s_via s \<in> set failed \<and> sighting_id s \<notin> set ids
      then merge_failed_loop failed ss (sighting_id s # ids) (merged @ [s])
      else merge_failed_loop failed ss ids merged)"

definition merge_failed :: "sighting list \<Rightarrow> sighting list \<Rightarrow> string list \<Rightarrow> sighting list" where
  "merge_failed current previous failed = merge_failed_loop failed previous (map sighting_id current) current"

record scan =
  sc_now :: int
  sc_limits :: roster_limits
  sc_approved :: "string list option"
  sc_aliases :: "(string, alias_ref list) dict"
  sc_full :: bool
  sc_failed :: "string list"

record presence_event =
  pe_name :: string
  pe_mac :: string
  pe_kind :: presence
  pe_via :: string

definition presence_name :: "string \<Rightarrow> roster_record \<Rightarrow> string" where
  "presence_name mac r = (if r_name r \<noteq> [] then r_name r else if r_hostname r \<noteq> [] then r_hostname r else mac)"

definition presence_for :: "presence \<Rightarrow> string \<Rightarrow> string \<Rightarrow> roster_record \<Rightarrow> presence_event list" where
  "presence_for k mac via r = (if r_notify r
     then [\<lparr>pe_name = presence_name mac r, pe_mac = mac, pe_kind = k, pe_via = via\<rparr>] else [])"

text \<open>\<open>normalized\<close>: the last row of a MAC wins.\<close>

definition normalized_clients :: "client list \<Rightarrow> (string, client) dict" where
  "normalized_clients clients = fold (\<lambda>c. dput (upper (c_mac c)) c) (filter (\<lambda>c. c_mac c \<noteq> []) clients) []"

definition keep_if_empty :: "string \<Rightarrow> string \<Rightarrow> string" where
  "keep_if_empty new old = (if new = [] then old else new)"

definition preserved_wifi :: "scan \<Rightarrow> roster_record \<Rightarrow> bool" where
  "preserved_wifi sc r = (\<exists>s \<in> set (r_seen r). s_kind s = ''wifi'' \<and> s_via s \<in> set (sc_failed sc))"

definition is_new :: "int \<Rightarrow> string list \<Rightarrow> string \<Rightarrow> int \<Rightarrow> bool" where
  "is_new now approved mac first = (mac \<notin> set approved \<and> now - first < nac_new_window)"

text \<open>The facts of a sighting: presence, addresses, type, topology.\<close>

definition observe_facts :: "scan \<Rightarrow> client \<Rightarrow> roster_record \<Rightarrow> roster_record" where
  "observe_facts sc c r =
     (let via = via_of (c_seen c);
          r1 = (if r_ignored r \<and> r_away r then r\<lparr>r_ignored := False, r_away := False\<rparr> else r);
          r2 = (if r_online r then r1 else add_event (sc_now sc) Up via r1);
          r3 = r2\<lparr>r_online := True, r_last := Some (sc_now sc),
                  r_ip := keep_if_empty (c_ip c) (r_ip r2), r_hostname := keep_if_empty (c_hostname c) (r_hostname r2),
                  r_vendor := keep_if_empty (c_vendor c) (r_vendor r2)\<rparr>;
          r4 = (if c_kind c \<noteq> [] \<and> (sc_full sc \<or> r_kind r3 = []) \<and> \<not> (preserved_wifi sc r \<and> c_kind c \<noteq> ''wifi'')
                then r3\<lparr>r_kind := c_kind c\<rparr> else r3);
          r5 = (if c_signal c \<noteq> JNull then r4\<lparr>r_signal := c_signal c\<rparr> else r4);
          r6 = (if sc_full sc \<or> r_seen r5 = []
                then r5\<lparr>r_seen := merge_failed (c_seen c) (r_seen r) (sc_failed sc)\<rparr> else r5)
      in (if via \<noteq> [] then r6\<lparr>r_via := via\<rparr> else r6))"

definition observe_record :: "scan \<Rightarrow> string \<Rightarrow> client \<Rightarrow> roster_record \<Rightarrow> (roster_record \<times> presence_event list) result" where
  "observe_record sc mac c r =
     (let r1 = observe_facts sc c r;
          evs = (if r_online r then [] else presence_for Up mac (via_of (c_seen c)) r);
          r2 = (case sc_approved sc of
                  None \<Rightarrow> Inr r1
                | Some ms \<Rightarrow> (case r_first r1 of
                    None \<Rightarrow> Inl (KeyError ''firstSeen'')
                  | Some f \<Rightarrow> Inr (r1\<lparr>r_nac := Some (mac \<in> set ms), r_new := is_new (sc_now sc) ms mac f\<rparr>)))
      in rbind r2 (\<lambda>r2'. Inr
           ((case dget (sc_aliases sc) mac of None \<Rightarrow> r2' | Some als \<Rightarrow> r2'\<lparr>r_aliases := als\<rparr>), evs)))"

fun observe_all :: "scan \<Rightarrow> (string, client) dict \<Rightarrow> tracked \<times> presence_event list
    \<Rightarrow> (tracked \<times> presence_event list) result" where
  "observe_all sc [] acc = Inr acc"
| "observe_all sc ((mac, c) # cs) (tracked, evs) =
     rbind (observe_record sc mac c (dget_or tracked mac (fresh_record (sc_now sc)))) (\<lambda>(r, new).
       observe_all sc cs (dput mac r tracked, evs @ new))"

definition mark_away :: "(string, client) dict \<Rightarrow> tracked \<Rightarrow> tracked" where
  "mark_away normalized = dmapk (\<lambda>mac r.
     if r_ignored r \<and> mac \<notin> set (dkeys normalized) then r\<lparr>r_away := True\<rparr> else r)"

definition reconcile_approval :: "scan \<Rightarrow> tracked \<Rightarrow> tracked" where
  "reconcile_approval sc tracked = (case sc_approved sc of
     None \<Rightarrow> tracked
   | Some ms \<Rightarrow> dmapk (\<lambda>mac r. r\<lparr>r_nac := Some (mac \<in> set ms),
       r_new := is_new (sc_now sc) ms mac (case r_first r of Some f \<Rightarrow> f | None \<Rightarrow> sc_now sc)\<rparr>) tracked)"

definition goes_offline :: "scan \<Rightarrow> (string, client) dict \<Rightarrow> string \<Rightarrow> roster_record \<Rightarrow> bool" where
  "goes_offline sc normalized mac r \<longleftrightarrow>
     mac \<notin> set (dkeys normalized) \<and> r_online r \<and>
     \<not> (\<exists>s \<in> set (r_seen r). s_via s \<in> set (sc_failed sc)) \<and>
     sc_now sc - (case r_last r of Some t \<Rightarrow> t | None \<Rightarrow> 0) \<ge> offline_after (sc_limits sc)"

definition offline_record :: "scan \<Rightarrow> (string, client) dict \<Rightarrow> string \<Rightarrow> roster_record \<Rightarrow> roster_record" where
  "offline_record sc normalized mac r = (if goes_offline sc normalized mac r
     then add_event (sc_now sc) Down (r_via r) (r\<lparr>r_online := False\<rparr>) else r)"

definition sweep_offline :: "scan \<Rightarrow> (string, client) dict \<Rightarrow> tracked \<Rightarrow> tracked \<times> presence_event list" where
  "sweep_offline sc normalized tracked = (if sc_full sc
     then (dmapk (offline_record sc normalized) tracked,
           concat (map (\<lambda>(mac, r). if goes_offline sc normalized mac r
             then presence_for Down mac (r_via r) r else []) tracked))
     else (tracked, []))"

definition observe_roster :: "scan \<Rightarrow> (string, client) dict \<Rightarrow> tracked \<Rightarrow> (tracked \<times> presence_event list) result" where
  "observe_roster sc normalized tracked =
     rbind (observe_all sc normalized (mark_away normalized tracked, [])) (\<lambda>(t1, up).
       let (t2, down) = sweep_offline sc normalized (reconcile_approval sc t1) in
       Inr (prune_stale (retention_days (sc_limits sc)) (sc_now sc) (dkeys normalized) t2, up @ down))"

definition empty_meta :: snapshot_meta where
  "empty_meta = \<lparr>sm_sources = [], sm_updated = None, sm_nac = []\<rparr>"

definition record_mut ::
  "scan \<Rightarrow> string \<Rightarrow> client list \<Rightarrow> source_report list option \<Rightarrow> doc option \<Rightarrow> roster_doc
   \<Rightarrow> (roster_doc \<times> presence_event list) result" where
  "record_mut sc owner clients sources nac d =
     rbind (observe_roster sc (normalized_clients clients) (roster_of owner d)) (\<lambda>(t, evs).
       let m = dget_or (rd_discovery d) owner empty_meta;
           m1 = (case sources of None \<Rightarrow> m | Some ss \<Rightarrow> m\<lparr>sm_sources := ss\<rparr>);
           m2 = m1\<lparr>sm_updated := Some (sc_now sc)\<rparr>;
           m3 = (case nac of None \<Rightarrow> m2 | Some n \<Rightarrow> m2\<lparr>sm_nac := n\<rparr>)
       in Inr (d\<lparr>rd_rosters := dput owner t (rd_rosters d), rd_discovery := dput owner m3 (rd_discovery d)\<rparr>, evs))"

definition scan_for ::
  "roster_limits \<Rightarrow> int \<Rightarrow> string list option \<Rightarrow> (string, alias_ref list) dict \<Rightarrow> bool \<Rightarrow> source_report list option \<Rightarrow> scan" where
  "scan_for limits now approved aliases full sources =
     \<lparr>sc_now = now, sc_limits = limits, sc_approved = approved, sc_aliases = aliases, sc_full = full,
      sc_failed = (if full then failed_sources sources else [])\<rparr>"

definition presence_title :: "presence \<Rightarrow> string" where
  "presence_title k = (case k of Up \<Rightarrow> ''Device connected'' | Down \<Rightarrow> ''Device disconnected'')"

definition presence_body :: "presence_event \<Rightarrow> string" where
  "presence_body e = (case pe_kind e of
     Up \<Rightarrow> pe_name e @ '' came home'' @ (if pe_via e \<noteq> [] then '' via '' @ pe_via e else []) @ ''.''
   | Down \<Rightarrow> pe_name e @ '' left the network.'')"

text \<open>The calls to the notification centre, one per event; its failures are only logged.\<close>

definition notify_presence :: "string list \<Rightarrow> string \<Rightarrow> presence_event list \<Rightarrow> (string \<times> string \<times> presence_event) list" where
  "notify_presence users owner evs = (if owner \<notin> set users then []
     else map (\<lambda>e. (presence_title (pe_kind e), presence_body e, e)) evs)"

section \<open>Reading\<close>

record nac_configuration =
  nc_configured :: bool
  nc_enforced :: bool
  nc_device_id :: json
  nc_device_name :: json
  nc_alias :: json
  nc_mode :: json
  nc_managed_externally :: bool

definition nac_from_mapping :: "doc \<Rightarrow> nac_configuration" where
  "nac_from_mapping v = \<lparr>nc_configured = truthy (getn v ''configured''), nc_enforced = truthy (getn v ''enforced''),
     nc_device_id = getn v ''deviceId'', nc_device_name = getn v ''deviceName'', nc_alias = getn v ''alias'',
     nc_mode = getn v ''mode'', nc_managed_externally = truthy (getn v ''managedExternally'')\<rparr>"

definition nac_to_dict :: "nac_configuration \<Rightarrow> doc" where
  "nac_to_dict n = [(''configured'', JBool (nc_configured n)), (''enforced'', JBool (nc_enforced n)),
     (''deviceId'', nc_device_id n), (''deviceName'', nc_device_name n), (''alias'', nc_alias n),
     (''mode'', nc_mode n), (''managedExternally'', JBool (nc_managed_externally n))]"

record client_view =
  v_mac :: string
  v_ip :: string
  v_hostname :: string
  v_vendor :: string
  v_kind :: string
  v_signal :: json
  v_seen :: "sighting list"
  v_via :: string
  v_online :: bool
  v_first :: "int option"
  v_last :: "int option"
  v_name :: string
  v_notes :: string
  v_notify :: bool
  v_new :: bool
  v_nac :: "string option"
  v_aliases :: "alias_ref list"

text \<open>\<open>ClientRosterRecord.from_record(record).to_api(mac)\<close>.\<close>

definition serialize :: "string \<Rightarrow> roster_record \<Rightarrow> client_view" where
  "serialize mac r = \<lparr>v_mac = mac, v_ip = r_ip r, v_hostname = r_hostname r, v_vendor = r_vendor r,
     v_kind = (if r_signal r \<noteq> JNull then ''wifi'' else if r_kind r \<noteq> [] then r_kind r else ''wired''),
     v_signal = r_signal r, v_seen = r_seen r, v_via = r_via r, v_online = r_online r,
     v_first = r_first r, v_last = r_last r, v_name = r_name r, v_notes = r_notes r, v_notify = r_notify r,
     v_new = r_new r, v_nac = map_option (\<lambda>a. if a then ''approved'' else ''blocked'') (r_nac r),
     v_aliases = r_aliases r\<rparr>"

definition view_key :: "client_view \<Rightarrow> string" where
  "view_key v = lower (if v_hostname v \<noteq> [] then v_hostname v else if v_ip v \<noteq> [] then v_ip v else v_mac v)"

record snapshot =
  sn_clients :: "client_view list"
  sn_sources :: "source_report list"
  sn_nac :: nac_configuration
  sn_needs_approval :: "nat option"
  sn_updated :: "int option"

definition visible_views :: "tracked \<Rightarrow> client_view list" where
  "visible_views t = map (\<lambda>(mac, r). serialize mac r) (filter (\<lambda>(_, r). \<not> r_ignored r) t)"

definition read_snapshot :: "string \<Rightarrow> roster_doc \<Rightarrow> snapshot" where
  "read_snapshot owner d =
     (let clients = sort_key view_key (visible_views (roster_of owner d));
          m = dget_or (rd_discovery d) owner empty_meta;
          nac = nac_from_mapping (sm_nac m)
      in \<lparr>sn_clients = clients, sn_sources = sm_sources m, sn_nac = nac,
          sn_needs_approval = (if nc_configured nac
            then Some (length (filter (\<lambda>c. v_online c \<and> v_nac c = Some ''blocked'') clients)) else None),
          sn_updated = sm_updated m\<rparr>)"

definition record_observations ::
  "scan \<Rightarrow> string \<Rightarrow> client list \<Rightarrow> source_report list option \<Rightarrow> doc option \<Rightarrow> roster_doc
   \<Rightarrow> (snapshot \<times> presence_event list) result \<times> roster_doc" where
  "record_observations sc owner clients sources nac d =
     (case transact (record_mut sc owner clients sources nac) d of
        (Inl e, d') \<Rightarrow> (Inl e, d')
      | (Inr evs, d') \<Rightarrow> (Inr (read_snapshot owner d', evs), d'))"

record client_history =
  ch_mac :: string
  ch_online :: bool
  ch_first :: "int option"
  ch_last :: "int option"
  ch_events :: "roster_event list"

definition invalid_mac :: failure where "invalid_mac = ValueError ''invalid MAC address''"

definition history_of_client :: "string \<Rightarrow> string option \<Rightarrow> roster_doc \<Rightarrow> client_history result" where
  "history_of_client owner mac d = (let m = normal_mac mac in
     if \<not> valid_mac m then Inl invalid_mac
     else Inr (case dget (roster_of owner d) m of
        None \<Rightarrow> \<lparr>ch_mac = m, ch_online = False, ch_first = None, ch_last = None, ch_events = []\<rparr>
      | Some r \<Rightarrow> \<lparr>ch_mac = m, ch_online = r_online r, ch_first = r_first r, ch_last = r_last r,
                   ch_events = r_events r\<rparr>))"

record event_counts =
  ec_since :: int
  ec_count :: nat
  ec_new :: nat

definition events_since :: "string \<Rightarrow> int \<Rightarrow> roster_doc \<Rightarrow> event_counts" where
  "events_since owner since d = (let rs = dvals (roster_of owner d) in
     \<lparr>ec_since = since,
      ec_count = length (filter (\<lambda>e. ev_ts e > since) (concat (map r_events rs))),
      ec_new = length (filter (\<lambda>r. \<not> r_ignored r \<and> (case r_first r of None \<Rightarrow> 0 | Some f \<Rightarrow> f) > since) rs)\<rparr>)"

section \<open>Editing\<close>

fun forget_loop :: "string list \<Rightarrow> tracked \<Rightarrow> tracked \<times> nat" where
  "forget_loop [] t = (t, 0)"
| "forget_loop (mac # macs) t =
     (let (t', n) = forget_loop macs (ddel mac t) in (t', if dget t mac = None then n else Suc n))"

definition forget_mut :: "string \<Rightarrow> string list \<Rightarrow> roster_doc \<Rightarrow> (roster_doc \<times> nat) result" where
  "forget_mut owner macs d = (case dget (rd_rosters d) owner of
     None \<Rightarrow> Inr (d, 0)
   | Some t \<Rightarrow> (let (t', n) = forget_loop macs t in
       Inr (d\<lparr>rd_rosters := dput owner t' (rd_rosters d)\<rparr>, n)))"

definition forget :: "string \<Rightarrow> string option list \<Rightarrow> roster_doc \<Rightarrow> nat result \<times> roster_doc" where
  "forget owner macs d = (let ms = map normal_mac macs in
     if ms = [] then (Inl (ValueError ''no MAC addresses given''), d)
     else if \<not> list_all valid_mac ms then (Inl invalid_mac, d)
     else transact (forget_mut owner ms) d)"

text \<open>\<open>roster(...).setdefault(mac, {...})\<close> followed by changes of the record.\<close>

definition edit_record :: "string \<Rightarrow> string \<Rightarrow> int \<Rightarrow> (roster_record \<Rightarrow> roster_record) \<Rightarrow> roster_doc \<Rightarrow> (roster_doc \<times> unit) result" where
  "edit_record owner mac now f d = (let t = roster_of owner d in
     Inr (d\<lparr>rd_rosters := dput owner (dput mac (f (dget_or t mac (fresh_record now))) t) (rd_rosters d)\<rparr>, ()))"

definition ignore_client :: "string \<Rightarrow> string option \<Rightarrow> int \<Rightarrow> roster_doc \<Rightarrow> (string \<times> bool) result \<times> roster_doc" where
  "ignore_client owner mac now d = (let m = normal_mac mac in
     if \<not> valid_mac m then (Inl invalid_mac, d)
     else (case transact (edit_record owner m now (\<lambda>r. r\<lparr>r_ignored := True, r_away := False\<rparr>)) d of
        (Inl e, d') \<Rightarrow> (Inl e, d') | (Inr _, d') \<Rightarrow> (Inr (m, True), d')))"

definition set_metadata ::
  "string \<Rightarrow> string option \<Rightarrow> string option \<Rightarrow> string option \<Rightarrow> bool option \<Rightarrow> int \<Rightarrow> roster_doc
   \<Rightarrow> (string \<times> string \<times> string \<times> bool) result \<times> roster_doc" where
  "set_metadata owner mac name notes notify now d = (let m = normal_mac mac;
       nm = strip (case name of None \<Rightarrow> [] | Some s \<Rightarrow> s); nt = strip (case notes of None \<Rightarrow> [] | Some s \<Rightarrow> s) in
     if \<not> valid_mac m then (Inl invalid_mac, d)
     else (case transact (edit_record owner m now (\<lambda>r. let r' = r\<lparr>r_name := nm, r_notes := nt\<rparr> in
             case notify of None \<Rightarrow> r' | Some b \<Rightarrow> r'\<lparr>r_notify := b\<rparr>)) d of
        (Inl e, d') \<Rightarrow> (Inl e, d')
      | (Inr _, d') \<Rightarrow> (Inr (m, nm, nt,
          (case dget (roster_of owner d') m of None \<Rightarrow> False | Some r \<Rightarrow> r_notify r)), d')))"

section \<open>New clients of a partial firewall scan\<close>

record nac_event =
  ne_mac :: string
  ne_name :: string
  ne_ip :: string
  ne_vendor :: string
  ne_where :: string

definition nac_event_of :: "string \<Rightarrow> client \<Rightarrow> nac_event" where
  "nac_event_of mac c = \<lparr>ne_mac = mac,
     ne_name = (if c_hostname c \<noteq> [] then c_hostname c else if c_ip c \<noteq> [] then c_ip c else mac),
     ne_ip = c_ip c, ne_vendor = c_vendor c, ne_where = c_where c\<rparr>"

text \<open>
  A candidate without a record is judged on an empty one, whose changes are lost
  (\<open>tracked.get(mac) or {}\<close>).
\<close>

fun nac_loop :: "bool \<Rightarrow> string list \<Rightarrow> (string, client) dict \<Rightarrow> tracked \<Rightarrow> tracked \<times> nac_event list" where
  "nac_loop first_run approved [] t = (t, [])"
| "nac_loop first_run approved ((mac, c) # cs) t =
     (let r = dget t mac;
          (t', evs) =
            (if mac \<in> set approved
             then ((case r of None \<Rightarrow> t | Some x \<Rightarrow> dput mac (x\<lparr>r_notified := False\<rparr>) t), [])
             else if \<not> first_run \<and> (case r of None \<Rightarrow> True | Some x \<Rightarrow> \<not> r_ignored x \<and> \<not> r_notified x)
             then ((case r of None \<Rightarrow> t | Some x \<Rightarrow> dput mac (x\<lparr>r_notified := True\<rparr>) t), [nac_event_of mac c])
             else (t, []))
      in let (t'', evs') = nac_loop first_run approved cs t' in (t'', evs @ evs'))"

definition nac_mut :: "bool \<Rightarrow> string list \<Rightarrow> string \<Rightarrow> client list \<Rightarrow> roster_doc \<Rightarrow> (roster_doc \<times> nac_event list) result" where
  "nac_mut first_run approved owner clients d =
     (let (t, evs) = nac_loop first_run approved (normalized_clients clients) (roster_of owner d) in
      Inr (d\<lparr>rd_rosters := dput owner t (rd_rosters d)\<rparr>, evs))"

definition record_nac_observations ::
  "roster_limits \<Rightarrow> int \<Rightarrow> string \<Rightarrow> client list \<Rightarrow> string list \<Rightarrow> roster_doc
   \<Rightarrow> (nac_event list \<times> presence_event list) result \<times> roster_doc" where
  "record_nac_observations limits now owner clients approved d =
     (let first_run = (roster_of owner d = []) in
      case record_observations (scan_for limits now (Some approved) [] False None) owner clients None None d of
        (Inl e, d') \<Rightarrow> (Inl e, d')
      | (Inr (_, pres), d') \<Rightarrow> (case transact (nac_mut first_run approved owner clients) d' of
          (Inl e, d'') \<Rightarrow> (Inl e, d'')
        | (Inr evs, d'') \<Rightarrow> (Inr (evs, pres), d'')))"

section \<open>A scan acts on every record by itself\<close>

definition with_approval :: "scan \<Rightarrow> string \<Rightarrow> roster_record \<Rightarrow> roster_record" where
  "with_approval sc mac r = (case sc_approved sc of None \<Rightarrow> r
     | Some ms \<Rightarrow> r\<lparr>r_nac := Some (mac \<in> set ms),
         r_new := is_new (sc_now sc) ms mac (case r_first r of Some f \<Rightarrow> f | None \<Rightarrow> sc_now sc)\<rparr>)"

definition with_aliases :: "scan \<Rightarrow> string \<Rightarrow> roster_record \<Rightarrow> roster_record" where
  "with_aliases sc mac r = (case dget (sc_aliases sc) mac of None \<Rightarrow> r | Some als \<Rightarrow> r\<lparr>r_aliases := als\<rparr>)"

definition away_record :: "roster_record \<Rightarrow> roster_record" where
  "away_record r = (if r_ignored r then r\<lparr>r_away := True\<rparr> else r)"

definition stale_record :: "scan \<Rightarrow> roster_record \<Rightarrow> bool" where
  "stale_record sc r \<longleftrightarrow> retention_days (sc_limits sc) \<noteq> 0 \<and> \<not> r_online r \<and>
     (case r_last r of Some t \<Rightarrow> t | None \<Rightarrow> (case r_first r of Some t \<Rightarrow> t | None \<Rightarrow> sc_now sc))
       < sc_now sc - retention_days (sc_limits sc) * 24 * 3600"

definition observed_record :: "scan \<Rightarrow> string \<Rightarrow> client \<Rightarrow> roster_record \<Rightarrow> roster_record" where
  "observed_record sc mac c r = with_aliases sc mac (with_approval sc mac (observe_facts sc c r))"

definition unobserved_record :: "scan \<Rightarrow> (string, client) dict \<Rightarrow> string \<Rightarrow> roster_record \<Rightarrow> roster_record" where
  "unobserved_record sc normalized mac r =
     (let r1 = with_approval sc mac (away_record r) in
      if sc_full sc then offline_record sc normalized mac r1 else r1)"

definition record_after :: "scan \<Rightarrow> (string, client) dict \<Rightarrow> string \<Rightarrow> roster_record option \<Rightarrow> roster_record option" where
  "record_after sc normalized mac old = (case dget normalized mac of
     Some c \<Rightarrow> Some (observed_record sc mac c (case old of None \<Rightarrow> fresh_record (sc_now sc) | Some r \<Rightarrow> r))
   | None \<Rightarrow> (case old of None \<Rightarrow> None
     | Some r \<Rightarrow> (let r' = unobserved_record sc normalized mac r in if stale_record sc r' then None else Some r')))"

lemma add_event_fields [simp]:
  "r_online (add_event n k v r) = r_online r" "r_first (add_event n k v r) = r_first r"
  "r_last (add_event n k v r) = r_last r" "r_seen (add_event n k v r) = r_seen r"
  "r_kind (add_event n k v r) = r_kind r" "r_ignored (add_event n k v r) = r_ignored r"
  "r_away (add_event n k v r) = r_away r" "r_name (add_event n k v r) = r_name r"
  "r_hostname (add_event n k v r) = r_hostname r" "r_ip (add_event n k v r) = r_ip r"
  "r_notes (add_event n k v r) = r_notes r" "r_notify (add_event n k v r) = r_notify r"
  "r_notified (add_event n k v r) = r_notified r" "r_nac (add_event n k v r) = r_nac r"
  "r_signal (add_event n k v r) = r_signal r" "r_vendor (add_event n k v r) = r_vendor r"
  by (simp_all add: add_event_def)

lemma observe_facts_fields [simp]:
  "r_online (observe_facts sc c r)" "r_first (observe_facts sc c r) = r_first r"
  "r_last (observe_facts sc c r) = Some (sc_now sc)"
  "r_name (observe_facts sc c r) = r_name r" "r_notes (observe_facts sc c r) = r_notes r"
  "r_notify (observe_facts sc c r) = r_notify r" "r_notified (observe_facts sc c r) = r_notified r"
  "r_ignored (observe_facts sc c r) = (r_ignored r \<and> \<not> r_away r)"
  "r_hostname (observe_facts sc c r) = keep_if_empty (c_hostname c) (r_hostname r)"
  "r_ip (observe_facts sc c r) = keep_if_empty (c_ip c) (r_ip r)"
  "r_events (observe_facts sc c r) = (if r_online r then r_events r
     else r_events (add_event (sc_now sc) Up (via_of (c_seen c)) r))"
  "r_seen (observe_facts sc c r) = (if sc_full sc \<or> r_seen r = []
     then merge_failed (c_seen c) (r_seen r) (sc_failed sc) else r_seen r)"
  "r_kind (observe_facts sc c r) = (if c_kind c \<noteq> [] \<and> (sc_full sc \<or> r_kind r = []) \<and>
     \<not> (preserved_wifi sc r \<and> c_kind c \<noteq> ''wifi'') then c_kind c else r_kind r)"
  "r_signal (observe_facts sc c r) = (if c_signal c \<noteq> JNull then c_signal c else r_signal r)"
  by (simp_all add: observe_facts_def Let_def add_event_def if_distrib [of r_online] if_distrib [of r_first]
      if_distrib [of r_last] if_distrib [of r_name] if_distrib [of r_notes] if_distrib [of r_notify]
      if_distrib [of r_notified] if_distrib [of r_ignored] if_distrib [of r_hostname] if_distrib [of r_ip]
      if_distrib [of r_events] if_distrib [of r_seen] if_distrib [of r_kind] if_distrib [of r_signal]
      if_distrib [of r_away] cong: if_cong split del: if_split) auto

lemma with_approval_fields [simp]:
  "r_online (with_approval sc m r) = r_online r" "r_first (with_approval sc m r) = r_first r"
  "r_last (with_approval sc m r) = r_last r" "r_seen (with_approval sc m r) = r_seen r"
  "r_kind (with_approval sc m r) = r_kind r" "r_ignored (with_approval sc m r) = r_ignored r"
  "r_away (with_approval sc m r) = r_away r" "r_name (with_approval sc m r) = r_name r"
  "r_hostname (with_approval sc m r) = r_hostname r" "r_ip (with_approval sc m r) = r_ip r"
  "r_notes (with_approval sc m r) = r_notes r" "r_notify (with_approval sc m r) = r_notify r"
  "r_notified (with_approval sc m r) = r_notified r" "r_events (with_approval sc m r) = r_events r"
  "r_signal (with_approval sc m r) = r_signal r" "r_via (with_approval sc m r) = r_via r"
  "r_nac (with_approval sc m r) = (case sc_approved sc of None \<Rightarrow> r_nac r | Some ms \<Rightarrow> Some (m \<in> set ms))"
  by (simp_all add: with_approval_def split: option.split)

lemma with_aliases_fields [simp]:
  "r_online (with_aliases sc m r) = r_online r" "r_first (with_aliases sc m r) = r_first r"
  "r_last (with_aliases sc m r) = r_last r" "r_seen (with_aliases sc m r) = r_seen r"
  "r_kind (with_aliases sc m r) = r_kind r" "r_ignored (with_aliases sc m r) = r_ignored r"
  "r_away (with_aliases sc m r) = r_away r" "r_name (with_aliases sc m r) = r_name r"
  "r_hostname (with_aliases sc m r) = r_hostname r" "r_ip (with_aliases sc m r) = r_ip r"
  "r_notes (with_aliases sc m r) = r_notes r" "r_notify (with_aliases sc m r) = r_notify r"
  "r_notified (with_aliases sc m r) = r_notified r" "r_events (with_aliases sc m r) = r_events r"
  "r_signal (with_aliases sc m r) = r_signal r" "r_nac (with_aliases sc m r) = r_nac r"
  by (simp_all add: with_aliases_def split: option.split)

lemma away_record_fields [simp]:
  "r_online (away_record r) = r_online r" "r_first (away_record r) = r_first r"
  "r_last (away_record r) = r_last r" "r_seen (away_record r) = r_seen r"
  "r_kind (away_record r) = r_kind r" "r_ignored (away_record r) = r_ignored r"
  "r_away (away_record r) = (r_ignored r \<or> r_away r)" "r_events (away_record r) = r_events r"
  "r_notified (away_record r) = r_notified r" "r_notify (away_record r) = r_notify r"
  "r_name (away_record r) = r_name r" "r_hostname (away_record r) = r_hostname r"
  by (simp_all add: away_record_def)

lemma offline_record_fields [simp]:
  "r_online (offline_record sc ns m r) = (r_online r \<and> \<not> goes_offline sc ns m r)"
  "r_first (offline_record sc ns m r) = r_first r" "r_last (offline_record sc ns m r) = r_last r"
  "r_seen (offline_record sc ns m r) = r_seen r" "r_kind (offline_record sc ns m r) = r_kind r"
  "r_ignored (offline_record sc ns m r) = r_ignored r" "r_away (offline_record sc ns m r) = r_away r"
  "r_notified (offline_record sc ns m r) = r_notified r"
  "r_nac (offline_record sc ns m r) = r_nac r"
  by (auto simp: offline_record_def goes_offline_def)

lemma goes_offline_approval [simp]: "goes_offline sc ns m (with_approval sc m r) = goes_offline sc ns m r"
  "goes_offline sc ns m (away_record r) = goes_offline sc ns m r"
  by (simp_all add: goes_offline_def)

lemma observe_record_eq:
  assumes "sc_approved sc = None \<or> r_first r \<noteq> None"
  shows "observe_record sc mac c r = Inr (observed_record sc mac c r,
           if r_online r then [] else presence_for Up mac (via_of (c_seen c)) r)"
  using assms
  by (auto simp: observe_record_def observed_record_def with_approval_def with_aliases_def Let_def
      split: option.splits)

lemma with_approval_aliases: "with_approval sc m (with_aliases sc m r) = with_aliases sc m (with_approval sc m r)"
  by (simp add: with_approval_def with_aliases_def split: option.split)

lemma with_approval_idem [simp]: "with_approval sc m (with_approval sc m r) = with_approval sc m r"
  by (simp add: with_approval_def split: option.split)

lemma reconcile_approval_eq: "reconcile_approval sc t = dmapk (with_approval sc) t"
proof -
  have "dmapk (\<lambda>m r. r) t = t" for t :: tracked by (simp add: dmapk_def)
  then show ?thesis
    by (cases "sc_approved sc") (simp_all add: reconcile_approval_def with_approval_def [abs_def])
qed

definition has_first :: "tracked \<Rightarrow> bool" where
  "has_first t \<longleftrightarrow> dict_all (\<lambda>_ r. r_first r \<noteq> None) t"

lemma has_first_dget_or: "has_first t \<Longrightarrow> r_first (dget_or t mac (fresh_record n)) \<noteq> None"
  by (auto simp: has_first_def dict_all_def dget_or_def fresh_record_def split: option.split)

lemma observe_all_total:
  assumes "has_first t"
  shows "\<exists>t' evs'. observe_all sc cs (t, evs) = Inr (t', evs') \<and> has_first t'"
  using assms
proof (induction cs arbitrary: t evs)
  case Nil
  then show ?case by simp
next
  case (Cons kc cs)
  obtain mac c where kc: "kc = (mac, c)" by (cases kc)
  let ?r = "dget_or t mac (fresh_record (sc_now sc))"
  have f: "r_first ?r \<noteq> None" using has_first_dget_or [OF Cons.prems] .
  have "has_first (dput mac (observed_record sc mac c ?r) t)"
    using Cons.prems f unfolding has_first_def
    by (intro dict_all_dput) (auto simp: observed_record_def)
  from Cons.IH [OF this] show ?case
    by (simp add: kc observe_record_eq [OF disjI2 [OF f]])
qed

lemma observe_all_get:
  assumes "has_first t" and "dict_ok cs" and "observe_all sc cs (t, evs) = Inr (t', evs')"
  shows "dget t' mac = (case dget cs mac of None \<Rightarrow> dget t mac
     | Some c \<Rightarrow> Some (observed_record sc mac c (dget_or t mac (fresh_record (sc_now sc)))))"
  using assms
proof (induction cs arbitrary: t evs)
  case Nil
  then show ?case by simp
next
  case (Cons kc cs)
  obtain k c where kc: "kc = (k, c)" by (cases kc)
  let ?r = "dget_or t k (fresh_record (sc_now sc))"
  let ?t = "dput k (observed_record sc k c ?r) t"
  have f: "r_first ?r \<noteq> None" using has_first_dget_or [OF Cons.prems(1)] .
  have hf: "has_first ?t"
    using Cons.prems(1) f unfolding has_first_def
    by (intro dict_all_dput) (auto simp: observed_record_def)
  from Cons.prems(3) have rest: "\<exists>evs. observe_all sc cs (?t, evs) = Inr (t', evs')"
    by (auto simp: kc observe_record_eq [OF disjI2 [OF f]])
  from Cons.prems(2) have "dict_ok cs" "dget cs k = None" by (auto simp: kc dget_None_iff)
  with rest Cons.IH [OF hf] show ?case
    by (auto simp: kc dget_or_def split: option.splits)
qed

lemma normalized_ok [simp]: "dict_ok (normalized_clients clients)"
proof -
  have "dict_ok d \<Longrightarrow> dict_ok (fold (\<lambda>c. dput (upper (c_mac c)) c) cs d)" for d :: "(string, client) dict" and cs
    by (induction cs arbitrary: d) simp_all
  then show ?thesis by (simp add: normalized_clients_def)
qed

lemma mark_away_get: "dget (mark_away ns t) mac =
    map_option (\<lambda>r. if mac \<in> set (dkeys ns) then r else away_record r) (dget t mac)"
  by (cases "dget t mac") (auto simp: mark_away_def away_record_def)

lemma mark_away_first: "has_first t \<Longrightarrow> has_first (mark_away ns t)"
  unfolding has_first_def mark_away_def by (erule dict_all_dmapk) simp

lemma prune_stale_get:
  assumes "dict_ok t"
  shows "dget (prune_stale (retention_days (sc_limits sc)) (sc_now sc) present t) mac = (case dget t mac of
     None \<Rightarrow> None | Some r \<Rightarrow> if mac \<notin> set present \<and> stale_record sc r then None else Some r)"
  using assms by (auto simp: prune_stale_def stale_record_def dget_dfilter split: option.split)

lemma sweep_offline_get: "dget (fst (sweep_offline sc ns t)) mac =
    map_option (\<lambda>r. if sc_full sc then offline_record sc ns mac r else r) (dget t mac)"
  by (cases "dget t mac") (simp_all add: sweep_offline_def)

lemma offline_observed: "mac \<in> set (dkeys ns) \<Longrightarrow> offline_record sc ns mac r = r"
  by (simp add: offline_record_def goes_offline_def)

text \<open>The five loops of a scan, read at one MAC.\<close>

lemma observe_roster_pointwise:
  assumes "has_first t" and "dict_ok ns"
  shows "\<exists>t' evs. observe_roster sc ns t = Inr (t', evs) \<and> dict_ok t' \<and>
    (\<forall>mac. dget t' mac = record_after sc ns mac (dget t mac))"
proof -
  let ?t0 = "mark_away ns t"
  have hf: "has_first ?t0" by (rule mark_away_first [OF assms(1)])
  obtain t1 up where t1: "observe_all sc ns (?t0, []) = Inr (t1, up)" and hf1: "has_first t1"
    using observe_all_total [OF hf] by blast
  let ?t2 = "dmapk (with_approval sc) t1"
  let ?t3 = "fst (sweep_offline sc ns ?t2)"
  let ?t4 = "prune_stale (retention_days (sc_limits sc)) (sc_now sc) (dkeys ns) ?t3"
  have "dict_ok t1" using hf1 by (simp add: has_first_def dict_all_ok)
  then have ok3: "dict_ok ?t3"
    by (simp add: sweep_offline_def)
  then have ok4: "dict_ok ?t4" by (simp add: prune_stale_def)
  have get: "dget ?t4 mac = record_after sc ns mac (dget t mac)" for mac
  proof (cases "dget ns mac")
    case None
    then have "mac \<notin> set (dkeys ns)" by (simp add: dget_None_iff)
    with None show ?thesis
      using observe_all_get [OF hf assms(2) t1, of mac]
      by (simp add: prune_stale_get [OF ok3] sweep_offline_get mark_away_get
          record_after_def unobserved_record_def Let_def split: option.split)
  next
    case (Some c)
    then have k: "mac \<in> set (dkeys ns)" using dget_None_iff [of ns mac] by auto
    have "dget_or ?t0 mac (fresh_record (sc_now sc)) =
        (case dget t mac of None \<Rightarrow> fresh_record (sc_now sc) | Some r \<Rightarrow> r)"
      using k by (simp add: dget_or_def mark_away_get split: option.split)
    with Some k show ?thesis
      using observe_all_get [OF hf assms(2) t1, of mac]
      by (simp add: prune_stale_get [OF ok3] sweep_offline_get
          record_after_def offline_observed observed_record_def with_approval_aliases)
  qed
  have "observe_roster sc ns t = Inr (?t4, up @ snd (sweep_offline sc ns ?t2))"
    by (simp add: observe_roster_def t1 Let_def case_prod_unfold reconcile_approval_eq)
  with ok4 get show ?thesis by blast
qed

lemma record_mut_pointwise:
  assumes "has_first (roster_of owner d)"
  shows "\<exists>d' evs. record_mut sc owner clients sources nac d = Inr (d', evs) \<and>
    dict_ok (roster_of owner d') \<and>
    (\<forall>mac. dget (roster_of owner d') mac = record_after sc (normalized_clients clients) mac (dget (roster_of owner d) mac)) \<and>
    (\<forall>o'. o' \<noteq> owner \<longrightarrow> dget (rd_rosters d') o' = dget (rd_rosters d) o')"
proof -
  obtain t' evs where t': "observe_roster sc (normalized_clients clients) (roster_of owner d) = Inr (t', evs)"
    "dict_ok t'" "\<forall>mac. dget t' mac = record_after sc (normalized_clients clients) mac (dget (roster_of owner d) mac)"
    using observe_roster_pointwise [OF assms normalized_ok] by blast
  then show ?thesis
    by (simp add: record_mut_def roster_of_def dget_or_def Let_def)
qed

end
