(* ===== verification/Presence.thy ===== *)
theory Presence
  imports Roster
begin

text \<open>
  What the roster of theory Roster promises: the presence log of every record alternates and
  agrees with the online flag over every sequence of roster operations, a scan changes
  presence exactly as its evidence allows, partial scans and failed sources take nothing away,
  an ignored client stays hidden until it has left and come back, and an unapproved client is
  announced once.
\<close>

section \<open>The record invariant\<close>

text \<open>Kinds alternate and the newest event is what the online flag says; stamps are in order.\<close>

definition log_ok :: "int \<Rightarrow> roster_record \<Rightarrow> bool" where
  "log_ok T r \<longleftrightarrow> length (r_events r) \<le> client_events_max \<and>
     distinct_adj (map ev_kind (r_events r)) \<and>
     (r_online r \<longleftrightarrow> r_events r \<noteq> [] \<and> ev_kind (last (r_events r)) = Up) \<and>
     sorted (map ev_ts (r_events r)) \<and> (\<forall>e \<in> set (r_events r). ev_ts e \<le> T)"

definition record_ok :: "int \<Rightarrow> roster_record \<Rightarrow> bool" where
  "record_ok T r \<longleftrightarrow> log_ok T r \<and>
     (\<exists>f l. r_first r = Some f \<and> r_last r = Some l \<and> f \<le> l \<and> l \<le> T)"

definition roster_ok :: "int \<Rightarrow> roster_doc \<Rightarrow> bool" where
  "roster_ok T d \<longleftrightarrow> (\<forall>owner. dict_all (\<lambda>_. record_ok T) (roster_of owner d))"

lemma log_ok_mono: "log_ok T r \<Longrightarrow> T \<le> T' \<Longrightarrow> log_ok T' r"
  by (auto simp: log_ok_def)

lemma record_ok_mono: "record_ok T r \<Longrightarrow> T \<le> T' \<Longrightarrow> record_ok T' r"
  by (auto simp: record_ok_def intro: log_ok_mono)

lemma roster_ok_mono: "roster_ok T d \<Longrightarrow> T \<le> T' \<Longrightarrow> roster_ok T' d"
  by (auto simp: roster_ok_def dict_all_def intro: record_ok_mono)

lemma roster_ok_first: "roster_ok T d \<Longrightarrow> has_first (roster_of owner d)"
  unfolding roster_ok_def has_first_def
  by (rule dict_all_mono [where P = "\<lambda>_. record_ok T"]) (auto simp: record_ok_def)

lemma record_ok_fresh [simp]: "record_ok T (fresh_record T)"
  by (simp add: record_ok_def log_ok_def fresh_record_def)

lemma distinct_adj_keep_last: "distinct_adj xs \<Longrightarrow> distinct_adj (keep_last n xs)"
  unfolding keep_last_def by (metis append_take_drop_id distinct_adj_appendD2)

lemma sorted_keep_last: "sorted xs \<Longrightarrow> sorted (keep_last n xs)"
  unfolding keep_last_def by (rule sorted_wrt_drop)

lemma map_keep_last: "map f (keep_last n xs) = keep_last n (map f xs)"
  by (simp add: keep_last_def drop_map)

lemma distinct_adj_snoc: "distinct_adj (xs @ [x]) \<longleftrightarrow> distinct_adj xs \<and> (xs = [] \<or> last xs \<noteq> x)"
  by (simp add: distinct_adj_append_iff)

text \<open>Appending the event that flips the flag keeps the log.\<close>

lemma log_ok_event:
  assumes "log_ok T r" and "T \<le> now" and "r_online r \<longleftrightarrow> k = Down" and "r_online r' \<longleftrightarrow> k = Up"
    and "r_events r' = r_events (add_event now k via r)"
  shows "log_ok now r'"
proof -
  let ?e = "\<lparr>ev_ts = now, ev_kind = k, ev_via = via\<rparr>"
  have ev: "r_events r' = keep_last client_events_max (r_events r @ [?e])"
    using assms(5) by (simp add: add_event_def)
  have pos: "0 < client_events_max" by (simp add: client_events_max_def)
  have adj: "distinct_adj (map ev_kind (r_events r @ [?e]))"
    using assms(1,3) by (cases k) (auto simp: log_ok_def distinct_adj_snoc last_map)
  have srt: "sorted (map ev_ts (r_events r @ [?e]))"
    using assms(1,2) by (fastforce simp: log_ok_def sorted_append)
  have ts: "\<forall>e \<in> set (r_events r @ [?e]). ev_ts e \<le> now"
    using assms(1,2) by (auto simp: log_ok_def)
  have lst: "r_events r' \<noteq> []" "last (r_events r') = ?e"
    using pos by (simp_all add: ev keep_last_snoc)
  show ?thesis
    unfolding log_ok_def
  proof (intro conjI)
    show "length (r_events r') \<le> client_events_max" by (simp add: ev)
    show "distinct_adj (map ev_kind (r_events r'))"
      by (simp only: ev map_keep_last) (rule distinct_adj_keep_last [OF adj])
    show "r_online r' = (r_events r' \<noteq> [] \<and> ev_kind (last (r_events r')) = Up)"
      using lst assms(4) by simp
    show "sorted (map ev_ts (r_events r'))"
      by (simp only: ev map_keep_last) (rule sorted_keep_last [OF srt])
    show "\<forall>e \<in> set (r_events r'). ev_ts e \<le> now"
      using ts set_keep_last [of client_events_max "r_events r @ [?e]"] unfolding ev by blast
  qed
qed

lemma log_ok_same:
  "log_ok T r \<Longrightarrow> r_events r' = r_events r \<Longrightarrow> r_online r' = r_online r \<Longrightarrow> log_ok T r'"
  by (simp add: log_ok_def)

lemma record_ok_same:
  "record_ok T r \<Longrightarrow> r_events r' = r_events r \<Longrightarrow> r_online r' = r_online r \<Longrightarrow>
   r_first r' = r_first r \<Longrightarrow> r_last r' = r_last r \<Longrightarrow> record_ok T r'"
  by (auto simp: record_ok_def intro: log_ok_same)

lemma record_ok_observed:
  assumes "record_ok T r" and "T \<le> sc_now sc"
  shows "record_ok (sc_now sc) (observed_record sc mac c r)"
proof -
  have first: "\<exists>f l. r_first r = Some f \<and> r_last r = Some l \<and> f \<le> l \<and> l \<le> T"
    using assms(1) by (simp add: record_ok_def)
  have log: "log_ok T r" using assms(1) by (simp add: record_ok_def)
  have "log_ok (sc_now sc) (observed_record sc mac c r)"
  proof (cases "r_online r")
    case True
    show ?thesis
      by (rule log_ok_same [OF log_ok_mono [OF log assms(2)]]) (simp_all add: True observed_record_def)
  next
    case False
    show ?thesis
      by (rule log_ok_event [OF log assms(2), where k = Up]) (simp_all add: False observed_record_def)
  qed
  with first assms(2) show ?thesis by (auto simp: record_ok_def observed_record_def)
qed

lemma record_ok_unobserved:
  assumes "record_ok T r" and "T \<le> sc_now sc"
  shows "record_ok (sc_now sc) (unobserved_record sc ns mac r)"
proof -
  let ?r = "with_approval sc mac (away_record r)"
  have ok: "record_ok (sc_now sc) ?r"
    by (rule record_ok_same [OF record_ok_mono [OF assms]]) simp_all
  show ?thesis
  proof (cases "sc_full sc \<and> goes_offline sc ns mac ?r")
    case False
    then have "unobserved_record sc ns mac r = ?r"
      by (auto simp: unobserved_record_def offline_record_def Let_def)
    with ok show ?thesis by simp
  next
    case True
    then have eq: "unobserved_record sc ns mac r = add_event (sc_now sc) Down (r_via ?r) (?r\<lparr>r_online := False\<rparr>)"
      and on: "r_online ?r"
      by (simp_all add: unobserved_record_def offline_record_def goes_offline_def)
    have "log_ok (sc_now sc) (unobserved_record sc ns mac r)"
    proof (rule log_ok_event [where T = "sc_now sc" and r = ?r and k = Down and via = "r_via ?r"])
      show "log_ok (sc_now sc) ?r" using ok by (simp add: record_ok_def)
      show "r_events (unobserved_record sc ns mac r) = r_events (add_event (sc_now sc) Down (r_via ?r) ?r)"
        unfolding eq by (simp add: add_event_def)
    qed (use on in \<open>simp_all add: eq\<close>)
    with ok show ?thesis unfolding eq by (simp add: record_ok_def)
  qed
qed

lemma record_ok_after:
  assumes "\<And>r. old = Some r \<Longrightarrow> record_ok T r" and "T \<le> sc_now sc" and "record_after sc ns mac old = Some r'"
  shows "record_ok (sc_now sc) r'"
proof (cases "dget ns mac")
  case None
  with assms show ?thesis
    by (auto simp: record_after_def Let_def split: option.splits if_splits intro: record_ok_unobserved)
next
  case (Some c)
  show ?thesis
  proof (cases old)
    case None
    with Some assms(3) have "r' = observed_record sc mac c (fresh_record (sc_now sc))"
      by (simp add: record_after_def)
    then show ?thesis using record_ok_observed [OF record_ok_fresh order.refl] by simp
  next
    case (Some r)
    with \<open>dget ns mac = _\<close> assms(3) have "r' = observed_record sc mac c r"
      by (simp add: record_after_def)
    then show ?thesis using record_ok_observed [OF assms(1) [OF Some] assms(2)] by simp
  qed
qed

lemma record_mut_ok:
  assumes "roster_ok T d" and "T \<le> sc_now sc" and "record_mut sc owner clients sources nac d = Inr (d', evs)"
  shows "roster_ok (sc_now sc) d'"
proof -
  from record_mut_pointwise [OF roster_ok_first [OF assms(1)], of sc owner clients sources nac] assms(3)
  have ok: "dict_ok (roster_of owner d')"
    and get: "\<And>mac. dget (roster_of owner d') mac =
      record_after sc (normalized_clients clients) mac (dget (roster_of owner d) mac)"
    and other: "\<And>o'. o' \<noteq> owner \<Longrightarrow> roster_of o' d' = roster_of o' d"
    by (auto simp: roster_of_def dget_or_def)
  have "dict_all (\<lambda>_. record_ok (sc_now sc)) (roster_of owner d')"
  proof (rule dict_allI [OF ok])
    fix mac r
    assume "dget (roster_of owner d') mac = Some r"
    then have after: "record_after sc (normalized_clients clients) mac (dget (roster_of owner d) mac) = Some r"
      by (simp add: get)
    show "record_ok (sc_now sc) r"
      by (rule record_ok_after [OF _ assms(2) after])
         (use assms(1) in \<open>auto simp: roster_ok_def dest: dict_allD\<close>)
  qed
  moreover have "dict_all (\<lambda>_. record_ok (sc_now sc)) (roster_of o' d')" if "o' \<noteq> owner" for o'
    using roster_ok_mono [OF assms(1,2)] other [OF that] by (simp add: roster_ok_def)
  ultimately show ?thesis unfolding roster_ok_def by metis
qed

lemma roster_of_put: "roster_of o' (d\<lparr>rd_rosters := dput owner t rs\<rparr>) =
    (if o' = owner then t else dget_or rs o' [])"
  by (simp add: roster_of_def dget_or_def)

lemma forget_loop_all: "dict_all P t \<Longrightarrow> dict_all P (fst (forget_loop macs t))"
  by (induction macs t rule: forget_loop.induct) (auto simp: Let_def case_prod_unfold intro: dict_all_ddel)

lemma roster_ok_put:
  "roster_ok T d \<Longrightarrow> dict_all (\<lambda>_. record_ok T) t \<Longrightarrow> roster_ok T (d\<lparr>rd_rosters := dput owner t (rd_rosters d)\<rparr>)"
  by (simp add: roster_ok_def roster_of_put) (simp add: roster_of_def)

lemma forget_mut_ok: "roster_ok T d \<Longrightarrow> forget_mut owner macs d = Inr (d', n) \<Longrightarrow> roster_ok T d'"
proof -
  assume ok: "roster_ok T d" and f: "forget_mut owner macs d = Inr (d', n)"
  show ?thesis
  proof (cases "dget (rd_rosters d) owner")
    case None
    with ok f show ?thesis by (simp add: forget_mut_def)
  next
    case (Some t)
    have "dict_all (\<lambda>_. record_ok T) t"
      using ok Some by (auto simp: roster_ok_def roster_of_def dget_or_def dest: spec [of _ owner])
    then show ?thesis
      using Some f forget_loop_all [of "\<lambda>_. record_ok T" t macs] roster_ok_put [OF ok]
      by (auto simp: forget_mut_def case_prod_unfold Let_def)
  qed
qed

lemma edit_record_ok:
  assumes "roster_ok T d" and "T \<le> now" and "\<And>r. record_ok now r \<Longrightarrow> record_ok now (f r)"
    and "edit_record owner mac now f d = Inr (d', x)"
  shows "roster_ok now d'"
proof -
  have now: "roster_ok now d" using roster_ok_mono [OF assms(1,2)] .
  then have all: "dict_all (\<lambda>_. record_ok now) (roster_of owner d)" by (simp add: roster_ok_def)
  have "record_ok now (dget_or (roster_of owner d) mac (fresh_record now))"
    using dict_all_dget_or [OF all, where k = mac and v = "fresh_record now"] by simp
  then have "dict_all (\<lambda>_. record_ok now) (dput mac (f (dget_or (roster_of owner d) mac (fresh_record now))) (roster_of owner d))"
    by (intro dict_all_dput [OF all] assms(3))
  then have "roster_ok now (d\<lparr>rd_rosters := dput owner (dput mac (f (dget_or (roster_of owner d) mac (fresh_record now)))
      (roster_of owner d)) (rd_rosters d)\<rparr>)" by (rule roster_ok_put [OF now])
  then show ?thesis using assms(4) by (simp add: edit_record_def Let_def)
qed

lemma nac_loop_ok: "dict_all (\<lambda>_. record_ok T) t \<Longrightarrow> dict_all (\<lambda>_. record_ok T) (fst (nac_loop fr ap cs t))"
proof (induction fr ap cs t rule: nac_loop.induct)
  case (1 fr ap t)
  then show ?case by simp
next
  case (2 fr ap mac c cs t)
  have put: "dict_all (\<lambda>_. record_ok T) (dput mac (x\<lparr>r_notified := b\<rparr>) t)" if "dget t mac = Some x" for x b
  proof (rule dict_all_dput [OF 2(2)])
    have "record_ok T x" using dict_allD [OF 2(2) that] .
    then show "record_ok T (x\<lparr>r_notified := b\<rparr>)" by (rule record_ok_same) simp_all
  qed
  show ?case
    using 2 put by (auto simp: Let_def case_prod_unfold split: option.splits)
qed

section \<open>Every sequence of roster operations\<close>

inductive roster_step :: "int \<Rightarrow> roster_doc \<Rightarrow> int \<Rightarrow> roster_doc \<Rightarrow> bool" where
  scanned: "T \<le> sc_now sc \<Longrightarrow> record_observations sc owner clients sources nac d = (res, d') \<Longrightarrow>
    roster_step T d (sc_now sc) d'"
| nac_scanned: "T \<le> now \<Longrightarrow> record_nac_observations limits now owner clients approved d = (res, d') \<Longrightarrow>
    roster_step T d now d'"
| forgotten: "T \<le> now \<Longrightarrow> forget owner macs d = (res, d') \<Longrightarrow> roster_step T d now d'"
| ignored: "T \<le> now \<Longrightarrow> ignore_client owner mac now d = (res, d') \<Longrightarrow> roster_step T d now d'"
| edited: "T \<le> now \<Longrightarrow> set_metadata owner mac name notes notify now d = (res, d') \<Longrightarrow> roster_step T d now d'"

inductive roster_run :: "int \<Rightarrow> roster_doc \<Rightarrow> int \<Rightarrow> roster_doc \<Rightarrow> bool" where
  start: "roster_run T d T d"
| step: "roster_run T0 d0 T d \<Longrightarrow> roster_step T d T' d' \<Longrightarrow> roster_run T0 d0 T' d'"

lemma record_observations_ok:
  assumes "roster_ok T d" and "T \<le> sc_now sc" and "record_observations sc owner clients sources nac d = (res, d')"
  shows "roster_ok (sc_now sc) d' \<and> (\<exists>x. res = Inr x)"
proof -
  obtain d1 evs where m: "record_mut sc owner clients sources nac d = Inr (d1, evs)"
    using record_mut_pointwise [OF roster_ok_first [OF assms(1)], of sc owner clients sources nac] by blast
  with assms(3) have "d' = d1" "\<exists>x. res = Inr x" by (auto simp: record_observations_def)
  with record_mut_ok [OF assms(1,2) m] show ?thesis by simp
qed

lemma roster_step_ok:
  assumes "roster_step T d T' d'" and "roster_ok T d"
  shows "roster_ok T' d' \<and> T \<le> T'"
  using assms(1)
proof (cases rule: roster_step.cases)
  case (scanned sc owner clients sources nac res)
  then show ?thesis using record_observations_ok [OF assms(2)] by blast
next
  case (nac_scanned limits owner clients approved res)
  let ?sc = "scan_for limits T' (Some approved) [] False None"
  obtain r1 d1 where r1: "record_observations ?sc owner clients None None d = (r1, d1)"
    by (cases "record_observations ?sc owner clients None None d")
  have now: "sc_now ?sc = T'" by (simp add: scan_for_def)
  from record_observations_ok [OF assms(2) _ r1] nac_scanned(1) now
  have ok1: "roster_ok T' d1" and "\<exists>x. r1 = Inr x" by auto
  then obtain sn pres where "r1 = Inr (sn, pres)" by auto
  with nac_scanned(2) r1
  have "\<exists>evs. transact (nac_mut (roster_of owner d = []) approved owner clients) d1 = (Inr evs, d')"
    by (auto simp: record_nac_observations_def Let_def nac_mut_def case_prod_unfold)
  then have "d' = d1\<lparr>rd_rosters := dput owner (fst (nac_loop (roster_of owner d = []) approved
      (normalized_clients clients) (roster_of owner d1))) (rd_rosters d1)\<rparr>"
    by (auto simp: nac_mut_def case_prod_unfold Let_def elim!: transact_cases)
  with ok1 nac_loop_ok have "roster_ok T' d'"
    by (auto simp: roster_ok_def intro!: roster_ok_put [unfolded roster_ok_def, rule_format])
  with nac_scanned(1) show ?thesis by simp
next
  case (forgotten owner macs res)
  have ok: "roster_ok T' d" by (rule roster_ok_mono [OF assms(2) forgotten(1)])
  with forgotten show ?thesis
    by (auto simp: forget_def Let_def split: if_splits elim!: transact_cases dest: forget_mut_ok)
next
  case (ignored owner mac res)
  have upd: "record_ok T' r \<Longrightarrow> record_ok T' (r\<lparr>r_ignored := True, r_away := False\<rparr>)" for r
    by (erule record_ok_same) simp_all
  have ok: "roster_ok T' d" by (rule roster_ok_mono [OF assms(2) ignored(1)])
  obtain d1 where e: "edit_record owner (normal_mac mac) T' (\<lambda>r. r\<lparr>r_ignored := True, r_away := False\<rparr>) d = Inr (d1, ())"
    by (auto simp: edit_record_def Let_def)
  from edit_record_ok [OF assms(2) ignored(1) upd e] have "roster_ok T' d1" .
  with e ignored ok show ?thesis by (auto simp: ignore_client_def Let_def split: if_splits)
next
  case (edited owner mac name memo notify res)
  let ?f = "\<lambda>r. let r' = r\<lparr>r_name := strip (case name of None \<Rightarrow> [] | Some s \<Rightarrow> s),
      r_notes := strip (case memo of None \<Rightarrow> [] | Some s \<Rightarrow> s)\<rparr> in
      case notify of None \<Rightarrow> r' | Some b \<Rightarrow> r'\<lparr>r_notify := b\<rparr>"
  have upd: "record_ok T' r \<Longrightarrow> record_ok T' (?f r)" for r
    by (erule record_ok_same) (simp_all add: Let_def split: option.split)
  have ok: "roster_ok T' d" by (rule roster_ok_mono [OF assms(2) edited(1)])
  obtain d1 where e: "edit_record owner (normal_mac mac) T' ?f d = Inr (d1, ())"
    by (auto simp: edit_record_def Let_def)
  from edit_record_ok [OF assms(2) edited(1) upd e] have "roster_ok T' d1" .
  with e edited ok show ?thesis by (auto simp: set_metadata_def Let_def split: if_splits)
qed

lemma roster_run_ok: "roster_run T d T' d' \<Longrightarrow> roster_ok T d \<Longrightarrow> roster_ok T' d' \<and> T \<le> T'"
  by (induction rule: roster_run.induct) (use roster_step_ok in \<open>force+\<close>)

section \<open>What one scan does\<close>

lemma record_observations_get:
  assumes "roster_ok T d" and "record_observations sc owner clients sources nac d = (res, d')"
  shows "dget (roster_of owner d') mac = record_after sc (normalized_clients clients) mac (dget (roster_of owner d) mac)"
    and "o' \<noteq> owner \<Longrightarrow> roster_of o' d' = roster_of o' d"
proof -
  obtain d1 evs where m: "record_mut sc owner clients sources nac d = Inr (d1, evs)"
    and get: "\<forall>mac. dget (roster_of owner d1) mac = record_after sc (normalized_clients clients) mac (dget (roster_of owner d) mac)"
    and oth: "\<forall>o'. o' \<noteq> owner \<longrightarrow> dget (rd_rosters d1) o' = dget (rd_rosters d) o'"
    using record_mut_pointwise [OF roster_ok_first [OF assms(1)], of sc owner clients sources nac] by blast
  with assms(2) have "d' = d1" by (auto simp: record_observations_def)
  with get oth show "dget (roster_of owner d') mac = record_after sc (normalized_clients clients) mac (dget (roster_of owner d) mac)"
    "o' \<noteq> owner \<Longrightarrow> roster_of o' d' = roster_of o' d"
    by (simp_all add: roster_of_def dget_or_def)
qed

lemma record_after_observed:
  "dget ns mac = Some c \<Longrightarrow> record_after sc ns mac old =
     Some (observed_record sc mac c (case old of None \<Rightarrow> fresh_record (sc_now sc) | Some r \<Rightarrow> r))"
  by (simp add: record_after_def)

lemma record_after_unobserved:
  "dget ns mac = None \<Longrightarrow> record_after sc ns mac (Some r) =
     (let r' = unobserved_record sc ns mac r in if stale_record sc r' then None else Some r')"
  by (simp add: record_after_def)

lemma unobserved_record_fields [simp]:
  "r_first (unobserved_record sc ns mac r) = r_first r" "r_last (unobserved_record sc ns mac r) = r_last r"
  "r_seen (unobserved_record sc ns mac r) = r_seen r" "r_kind (unobserved_record sc ns mac r) = r_kind r"
  "r_ignored (unobserved_record sc ns mac r) = r_ignored r"
  "r_away (unobserved_record sc ns mac r) = (r_ignored r \<or> r_away r)"
  "r_online (unobserved_record sc ns mac r) = (r_online r \<and> \<not> (sc_full sc \<and> goes_offline sc ns mac r))"
  by (simp_all add: unobserved_record_def Let_def)

lemma observed_record_fields [simp]:
  "r_online (observed_record sc mac c r)" "r_last (observed_record sc mac c r) = Some (sc_now sc)"
  "r_first (observed_record sc mac c r) = r_first r"
  "r_ignored (observed_record sc mac c r) = (r_ignored r \<and> \<not> r_away r)"
  "r_notified (observed_record sc mac c r) = r_notified r"
  "r_seen (observed_record sc mac c r) = r_seen (observe_facts sc c r)"
  "r_kind (observed_record sc mac c r) = r_kind (observe_facts sc c r)"
  by (simp_all add: observed_record_def)

definition seen_by_failed :: "string list \<Rightarrow> roster_record \<Rightarrow> bool" where
  "seen_by_failed failed r \<longleftrightarrow> (\<exists>s \<in> set (r_seen r). s_via s \<in> set failed)"

definition last_seen :: "roster_record \<Rightarrow> int" where
  "last_seen r = (case r_last r of Some t \<Rightarrow> t | None \<Rightarrow> 0)"

lemma goes_offline_iff: "goes_offline sc ns mac r \<longleftrightarrow> dget ns mac = None \<and> r_online r \<and>
    \<not> seen_by_failed (sc_failed sc) r \<and> sc_now sc - last_seen r \<ge> offline_after (sc_limits sc)"
  by (auto simp: goes_offline_def seen_by_failed_def last_seen_def dget_None_iff)

lemma stale_record_last: "record_ok T r \<Longrightarrow> stale_record sc r \<longleftrightarrow> retention_days (sc_limits sc) \<noteq> 0 \<and>
    \<not> r_online r \<and> last_seen r < sc_now sc - retention_days (sc_limits sc) * 24 * 3600"
  by (auto simp: stale_record_def record_ok_def last_seen_def)

lemma merge_failed_loop_keeps:
  "set merged \<subseteq> set (merge_failed_loop failed ss ids merged)"
  by (induction failed ss ids merged rule: merge_failed_loop.induct) auto

lemma merge_failed_loop_ids:
  assumes "set ids = sighting_id ` set merged" and "s \<in> set ss" and "s_via s \<in> set failed"
  shows "sighting_id s \<in> sighting_id ` set (merge_failed_loop failed ss ids merged)"
  using assms
proof (induction failed ss ids merged rule: merge_failed_loop.induct)
  case (1 failed ids merged)
  then show ?case by simp
next
  case (2 failed x ss ids merged)
  show ?case
  proof (cases "s_via x \<in> set failed \<and> sighting_id x \<notin> set ids")
    case True
    show ?thesis
    proof (cases "s = x")
      case eq: True
      have "x \<in> set (merge_failed_loop failed ss (sighting_id x # ids) (merged @ [x]))"
        using merge_failed_loop_keeps [of "merged @ [x]" failed ss "sighting_id x # ids"] by simp
      with True eq show ?thesis by simp
    next
      case False
      with 2 True show ?thesis by simp
    qed
  next
    case False
    then have step: "merge_failed_loop failed (x # ss) ids merged = merge_failed_loop failed ss ids merged"
      by auto
    show ?thesis
    proof (cases "s = x")
      case True
      with False 2(4,5) have "sighting_id s \<in> sighting_id ` set merged" using 2(3) by auto
      then show ?thesis unfolding step using merge_failed_loop_keeps [of merged failed ss ids] by blast
    next
      case neq: False
      with 2 False show ?thesis unfolding step by auto
    qed
  qed
qed

lemma merge_failed_ids:
  "s \<in> set previous \<Longrightarrow> s_via s \<in> set failed \<Longrightarrow>
   sighting_id s \<in> sighting_id ` set (merge_failed current previous failed)"
  unfolding merge_failed_def by (rule merge_failed_loop_ids) simp_all

section \<open>Announcing unapproved clients\<close>

definition notify_due :: "bool \<Rightarrow> string list \<Rightarrow> roster_record option \<Rightarrow> string \<Rightarrow> bool" where
  "notify_due first_run approved r mac \<longleftrightarrow> mac \<notin> set approved \<and> \<not> first_run \<and>
     (case r of None \<Rightarrow> True | Some x \<Rightarrow> \<not> r_ignored x \<and> \<not> r_notified x)"

lemma nac_loop_spec:
  assumes "dict_ok cs" and "nac_loop fr ap cs t = (t', evs)"
  shows "map ne_mac evs = filter (\<lambda>mac. notify_due fr ap (dget t mac) mac) (dkeys cs)"
    and "dget t' mac = (if mac \<in> set (dkeys cs) then map_option (\<lambda>x. x\<lparr>r_notified :=
        (mac \<notin> set ap \<and> (r_notified x \<or> notify_due fr ap (Some x) mac))\<rparr>) (dget t mac) else dget t mac)"
proof -
  have "map ne_mac evs = filter (\<lambda>mac. notify_due fr ap (dget t mac) mac) (dkeys cs) \<and>
    (\<forall>mac. dget t' mac = (if mac \<in> set (dkeys cs) then map_option (\<lambda>x. x\<lparr>r_notified :=
        (mac \<notin> set ap \<and> (r_notified x \<or> notify_due fr ap (Some x) mac))\<rparr>) (dget t mac) else dget t mac))"
    using assms
  proof (induction cs arbitrary: t t' evs)
    case Nil
    then show ?case by simp
  next
    case (Cons kc cs)
    obtain k c where kc: "kc = (k, c)" by (cases kc)
    define due where "due = notify_due fr ap (dget t k) k"
    define t1 where "t1 = (case dget t k of None \<Rightarrow> t | Some x \<Rightarrow>
       if k \<in> set ap then dput k (x\<lparr>r_notified := False\<rparr>) t
       else if due then dput k (x\<lparr>r_notified := True\<rparr>) t else t)"
    define e1 where "e1 = (if due then [nac_event_of k c] else [])"
    obtain t2 e2 where rec: "nac_loop fr ap cs t1 = (t2, e2)" by (cases "nac_loop fr ap cs t1")
    have eq: "nac_loop fr ap ((k, c) # cs) t = (t2, e1 @ e2)"
      using rec by (auto simp: t1_def e1_def due_def notify_due_def Let_def split: option.splits)
    have ih: "map ne_mac e2 = filter (\<lambda>mac. notify_due fr ap (dget t1 mac) mac) (dkeys cs) \<and>
      (\<forall>mac. dget t2 mac = (if mac \<in> set (dkeys cs) then map_option (\<lambda>x. x\<lparr>r_notified :=
        (mac \<notin> set ap \<and> (r_notified x \<or> notify_due fr ap (Some x) mac))\<rparr>) (dget t1 mac) else dget t1 mac))"
      by (rule Cons.IH [OF _ rec]) (use Cons.prems in simp)
    have nk: "k \<notin> set (dkeys cs)" using Cons.prems(1) by (simp add: kc)
    have t1k: "dget t1 k = map_option (\<lambda>x. x\<lparr>r_notified := (k \<notin> set ap \<and> (r_notified x \<or> notify_due fr ap (Some x) k))\<rparr>) (dget t k)"
      by (auto simp: t1_def due_def notify_due_def split: option.splits)
    have t1o: "dget t1 m = dget t m" if "m \<noteq> k" for m
      using that by (simp add: t1_def split: option.split)
    have "filter (\<lambda>mac. notify_due fr ap (dget t1 mac) mac) (dkeys cs) = filter (\<lambda>mac. notify_due fr ap (dget t mac) mac) (dkeys cs)"
      by (rule filter_cong [OF refl]) (use nk t1o in metis)
    with ih have "map ne_mac (e1 @ e2) = filter (\<lambda>mac. notify_due fr ap (dget t mac) mac) (dkeys ((k, c) # cs))"
      by (simp add: e1_def due_def nac_event_of_def)
    moreover have "dget t2 mac = (if mac \<in> set (dkeys ((k, c) # cs)) then map_option (\<lambda>x. x\<lparr>r_notified :=
        (mac \<notin> set ap \<and> (r_notified x \<or> notify_due fr ap (Some x) mac))\<rparr>) (dget t mac) else dget t mac)" for mac
    proof (cases "mac = k")
      case True
      then show ?thesis using ih nk t1k by simp
    next
      case False
      then show ?thesis using ih t1o [OF False] by simp
    qed
    moreover have "t' = t2" "evs = e1 @ e2" using eq Cons.prems(2) unfolding kc by simp_all
    ultimately show ?case unfolding kc by blast
  qed
  then show "map ne_mac evs = filter (\<lambda>mac. notify_due fr ap (dget t mac) mac) (dkeys cs)"
    and "dget t' mac = (if mac \<in> set (dkeys cs) then map_option (\<lambda>x. x\<lparr>r_notified :=
        (mac \<notin> set ap \<and> (r_notified x \<or> notify_due fr ap (Some x) mac))\<rparr>) (dget t mac) else dget t mac)"
    by blast+
qed

section \<open>Properties\<close>

text \<open>
  Over every sequence of scans, firewall scans, deletions, ignores and edits with a
  clock that does not run backwards, every record of every owner has a bounded event log whose
  connects and disconnects alternate, in order of time, its online flag is the newest event,
  its first sighting is not after its last one, and no scan raises.
\<close>

theorem roster_run_invariant:
  assumes "roster_run T d T' d'" and "roster_ok T d"
  shows "roster_ok T' d' \<and> (\<forall>sc owner clients sources nac. T' \<le> sc_now sc \<longrightarrow>
    \<not> is_error (fst (record_observations sc owner clients sources nac d')))"
proof -
  have ok: "roster_ok T' d'" using roster_run_ok [OF assms] by blast
  have "\<not> is_error (fst (record_observations sc owner clients sources nac d'))" if "T' \<le> sc_now sc"
    for sc owner clients sources nac
    using record_observations_ok [OF ok that, of owner clients sources nac] by (metis fst_conv is_error_simps(2) surj_pair)
  with ok show ?thesis by blast
qed


text \<open>
  Missing evidence takes nothing away. A client that is online and was seen through
  a source that failed stays online in a full scan, keeps that sighting, and stays a Wi-Fi client
  if that is how the failed source knew it. A partial scan puts nobody offline and never
  replaces a known connection type or known sightings.
\<close>

theorem missing_evidence_preserves:
  assumes "roster_ok T d" and "T \<le> sc_now sc"
    and "record_observations sc owner clients sources nac d = (res, d')"
    and "dget (roster_of owner d) mac = Some r" and "r_online r"
  shows "(seen_by_failed (sc_failed sc) r \<longrightarrow> (\<exists>r'. dget (roster_of owner d') mac = Some r' \<and> r_online r' \<and>
      (\<forall>s \<in> set (r_seen r). s_via s \<in> set (sc_failed sc) \<longrightarrow> sighting_id s \<in> sighting_id ` set (r_seen r')) \<and>
      (preserved_wifi sc r \<and> r_kind r = ''wifi'' \<longrightarrow> r_kind r' = ''wifi''))) \<and>
    (\<not> sc_full sc \<longrightarrow> (\<exists>r'. dget (roster_of owner d') mac = Some r' \<and> r_online r' \<and>
      (r_kind r \<noteq> [] \<longrightarrow> r_kind r' = r_kind r) \<and> (r_seen r \<noteq> [] \<longrightarrow> r_seen r' = r_seen r)))"
proof -
  note get = record_observations_get(1) [OF assms(1,3), of mac]
  show ?thesis
  proof (cases "dget (normalized_clients clients) mac")
    case None
    then have "\<not> stale_record sc r'" if "r_online r'" for r' using that by (simp add: stale_record_def)
    with None show ?thesis
      by (auto simp: get assms(4,5) record_after_unobserved Let_def goes_offline_iff)
  next
    case (Some c)
    then show ?thesis
      by (auto simp: get assms(4) record_after_observed intro: merge_failed_ids)
  qed
qed

text \<open>
  A client that was ignored is not listed; it stays ignored through every scan that
  sees it without interruption, a scan that misses it marks it as away, and only the first scan
  that sees it again lists it again. Ignoring it a second time never lists it.
\<close>

theorem ignored_until_return:
  assumes "roster_ok T d" and "T \<le> sc_now sc"
    and "record_observations sc owner clients sources nac d = (res, d')"
    and "dget (roster_of owner d) mac = Some r" and "r_ignored r"
  shows "mac \<notin> set (map v_mac (sn_clients (read_snapshot owner d))) \<and>
    (dget (normalized_clients clients) mac = None \<longrightarrow>
      (case dget (roster_of owner d') mac of None \<Rightarrow> True | Some r' \<Rightarrow> r_ignored r' \<and> r_away r')) \<and>
    (\<forall>c. dget (normalized_clients clients) mac = Some c \<longrightarrow>
      (\<exists>r'. dget (roster_of owner d') mac = Some r' \<and> (r_ignored r' \<longleftrightarrow> \<not> r_away r) \<and>
        (mac \<in> set (map v_mac (sn_clients (read_snapshot owner d'))) \<longleftrightarrow> r_away r))) \<and>
    (\<forall>m now. normal_mac m = mac \<longrightarrow> valid_mac mac \<longrightarrow>
      mac \<notin> set (map v_mac (sn_clients (read_snapshot owner (snd (ignore_client owner m now d))))))"
proof -
  have listed: "mac \<in> set (map v_mac (sn_clients (read_snapshot owner e))) \<longleftrightarrow>
      (\<exists>x. dget (roster_of owner e) mac = Some x \<and> \<not> r_ignored x)" if "dict_ok (roster_of owner e)" for e
    using that by (force simp: read_snapshot_def Let_def visible_views_def serialize_def dget_mem_iff)
  have ok: "dict_ok (roster_of owner d)" using assms(1) by (auto simp: roster_ok_def dict_all_def)
  have ok': "dict_ok (roster_of owner d')"
    using record_observations_ok [OF assms(1-3)] by (auto simp: roster_ok_def dict_all_def)
  note get = record_observations_get(1) [OF assms(1,3), of mac]
  have miss: "case dget (roster_of owner d') mac of None \<Rightarrow> True | Some r' \<Rightarrow> r_ignored r' \<and> r_away r'"
    if "dget (normalized_clients clients) mac = None"
    using assms(5) by (simp add: get assms(4) record_after_unobserved [OF that] Let_def)
  have hit: "\<exists>r'. dget (roster_of owner d') mac = Some r' \<and> (r_ignored r' \<longleftrightarrow> \<not> r_away r) \<and>
        (mac \<in> set (map v_mac (sn_clients (read_snapshot owner d'))) \<longleftrightarrow> r_away r)"
    if "dget (normalized_clients clients) mac = Some c" for c
    using assms(5) unfolding listed [OF ok'] get assms(4) record_after_observed [OF that] by simp
  have again: "mac \<notin> set (map v_mac (sn_clients (read_snapshot owner (snd (ignore_client owner m now d)))))"
    if "normal_mac m = mac" "valid_mac mac" for m now
  proof -
    let ?d = "d\<lparr>rd_rosters := dput owner (dput mac (r\<lparr>r_ignored := True, r_away := False\<rparr>) (roster_of owner d)) (rd_rosters d)\<rparr>"
    have "snd (ignore_client owner m now d) = ?d"
      using that assms(4) by (simp add: ignore_client_def edit_record_def Let_def dget_or_def transact_def)
    moreover have "mac \<notin> set (map v_mac (sn_clients (read_snapshot owner ?d)))"
      by (subst listed) (simp_all add: roster_of_put ok)
    ultimately show ?thesis by simp
  qed
  have "mac \<notin> set (map v_mac (sn_clients (read_snapshot owner d)))"
    unfolding listed [OF ok] using assms(4,5) by simp
  with miss hit again show ?thesis by blast
qed

text \<open>
  A firewall scan announces exactly the scanned clients that are not approved, not
  ignored and not announced before, and none at all on the owner's first scan; an announced
  client is not announced again by a later scan unless it was approved in between.
\<close>

theorem nac_announces_once:
  assumes "roster_ok T d" and "T \<le> now"
    and "record_nac_observations limits now owner clients approved d = (Inr (evs, pres), d')"
  shows "map ne_mac evs = filter (\<lambda>mac. mac \<notin> set approved \<and> roster_of owner d \<noteq> [] \<and>
      (case dget (roster_of owner d) mac of None \<Rightarrow> True
       | Some r \<Rightarrow> \<not> (r_ignored r \<and> \<not> r_away r) \<and> \<not> r_notified r)) (dkeys (normalized_clients clients)) \<and>
    (\<forall>mac \<in> set (dkeys (normalized_clients clients)). \<exists>r'. dget (roster_of owner d') mac = Some r' \<and>
      r_notified r' = (mac \<notin> set approved \<and> (mac \<in> set (map ne_mac evs) \<or>
        (case dget (roster_of owner d) mac of None \<Rightarrow> False | Some r \<Rightarrow> r_notified r))))"
proof -
  let ?sc = "scan_for limits now (Some approved) [] False None"
  let ?ns = "normalized_clients clients"
  let ?fr = "roster_of owner d = []"
  obtain r1 d1 where r1: "record_observations ?sc owner clients None None d = (r1, d1)"
    by (cases "record_observations ?sc owner clients None None d")
  have now: "sc_now ?sc = now" by (simp add: scan_for_def)
  from record_observations_ok [OF assms(1) _ r1] assms(2) now obtain sn ps where "r1 = Inr (sn, ps)" by auto
  with assms(3) r1 have "transact (nac_mut ?fr approved owner clients) d1 = (Inr evs, d')"
    by (auto simp: record_nac_observations_def Let_def split: prod.splits sum.splits)
  then have nl: "nac_loop ?fr approved ?ns (roster_of owner d1) = (roster_of owner d', evs)"
    by (auto simp: nac_mut_def case_prod_unfold Let_def roster_of_put elim!: transact_cases)
  have mid: "dget (roster_of owner d1) mac = Some (observed_record ?sc mac c
      (case dget (roster_of owner d) mac of None \<Rightarrow> fresh_record now | Some r \<Rightarrow> r))" if "dget ?ns mac = Some c" for mac c
    using record_observations_get(1) [OF assms(1) r1, of mac] unfolding record_after_observed [OF that] now .
  have due: "notify_due ?fr approved (dget (roster_of owner d1) mac) mac \<longleftrightarrow> mac \<notin> set approved \<and> \<not> ?fr \<and>
      (case dget (roster_of owner d) mac of None \<Rightarrow> True
       | Some r \<Rightarrow> \<not> (r_ignored r \<and> \<not> r_away r) \<and> \<not> r_notified r)" if "mac \<in> set (dkeys ?ns)" for mac
  proof -
    from that obtain c where "dget ?ns mac = Some c" using dget_None_iff by (metis option.exhaust)
    from mid [OF this] show ?thesis
      by (simp add: notify_due_def fresh_record_def split: option.split)
  qed
  have macs: "map ne_mac evs = filter (\<lambda>mac. notify_due ?fr approved (dget (roster_of owner d1) mac) mac) (dkeys ?ns)"
    by (rule nac_loop_spec(1) [OF normalized_ok nl])
  also have "\<dots> = filter (\<lambda>mac. mac \<notin> set approved \<and> \<not> ?fr \<and>
      (case dget (roster_of owner d) mac of None \<Rightarrow> True
       | Some r \<Rightarrow> \<not> (r_ignored r \<and> \<not> r_away r) \<and> \<not> r_notified r)) (dkeys ?ns)"
    by (rule filter_cong [OF refl due])
  finally have evs_eq: "map ne_mac evs = \<dots>" .
  have flags: "\<exists>r'. dget (roster_of owner d') mac = Some r' \<and>
      r_notified r' = (mac \<notin> set approved \<and> (mac \<in> set (map ne_mac evs) \<or>
        (case dget (roster_of owner d) mac of None \<Rightarrow> False | Some r \<Rightarrow> r_notified r)))"
    if k: "mac \<in> set (dkeys ?ns)" for mac
  proof -
    from k obtain c where c: "dget ?ns mac = Some c" using dget_None_iff by (metis option.exhaust)
    let ?x = "observed_record ?sc mac c (case dget (roster_of owner d) mac of None \<Rightarrow> fresh_record now | Some r \<Rightarrow> r)"
    have n: "r_notified ?x = (case dget (roster_of owner d) mac of None \<Rightarrow> False | Some r \<Rightarrow> r_notified r)"
      by (simp add: fresh_record_def split: option.split)
    have "mac \<in> set (map ne_mac evs) \<longleftrightarrow> notify_due ?fr approved (Some ?x) mac"
      using k unfolding macs mid [OF c, symmetric] by simp
    with nac_loop_spec(2) [OF normalized_ok nl, of mac] mid [OF c] k n show ?thesis by (simp add: disj_commute)
  qed
  from evs_eq flags show ?thesis by simp
qed

section \<open>Concrete runs\<close>

definition demo_mac :: string where "demo_mac = ''AA''"

definition demo_sighting :: sighting where
  "demo_sighting = \<lparr>s_via = ''ap'', s_where = ''lab'', s_kind = ''wifi'', s_signal = JInt (-40)\<rparr>"

definition demo_client :: client where
  "demo_client = \<lparr>c_mac = demo_mac, c_ip = ''10.0.0.2'', c_hostname = ''tv'', c_vendor = [], c_kind = ''wifi'',
     c_signal = JInt (-40), c_seen = [demo_sighting], c_where = []\<rparr>"

definition demo_limits :: roster_limits where "demo_limits = limits_of_env 600 180"

definition demo_scan :: "int \<Rightarrow> source_report list option \<Rightarrow> scan" where
  "demo_scan now sources = scan_for demo_limits now None [] True sources"

definition demo_record :: roster_record where
  "demo_record = (fresh_record 100)\<lparr>r_online := True, r_kind := ''wifi'', r_seen := [demo_sighting],
     r_events := [\<lparr>ev_ts = 100, ev_kind = Up, ev_via = ''ap''\<rparr>]\<rparr>"

definition demo_roster :: "roster_record \<Rightarrow> roster_doc" where
  "demo_roster r = \<lparr>rd_rosters = [(''u'', [(demo_mac, r)])], rd_discovery = []\<rparr>"

definition failed_ap :: source_report where
  "failed_ap = \<lparr>src_device = ''ap'', src_count = 0, src_error = Some ''timeout''\<rparr>"

lemma demo_roster_get [simp]:
  "roster_of o' (demo_roster r) = (if o' = ''u'' then [(demo_mac, r)] else [])"
  by (simp add: roster_of_def demo_roster_def dget_or_def)

lemma demo_roster_ok: "record_ok T r \<Longrightarrow> roster_ok T (demo_roster r)"
  by (simp add: roster_ok_def dict_all_def)

lemma demo_record_ok: "record_ok 100 demo_record" "record_ok 100 (demo_record\<lparr>r_ignored := True, r_away := b\<rparr>)"
  by (simp_all add: record_ok_def log_ok_def demo_record_def fresh_record_def client_events_max_def)

lemma demo_normalized: "normalized_clients [demo_client] = [(demo_mac, demo_client)]" "normalized_clients [] = []"
  by (simp_all add: normalized_clients_def demo_client_def demo_mac_def upper_def upper_char_def Let_def)

lemma demo_scan_now [simp]: "sc_now (demo_scan now s) = now"
  by (simp add: demo_scan_def scan_for_def)

theorem roster_run_invariant_witness:
  "\<exists>d'. roster_run 100 (demo_roster demo_record) 900 d' \<and> roster_ok 900 d' \<and>
     \<not> is_error (fst (record_observations (demo_scan 901 None) ''u'' [demo_client] None None d'))"
proof -
  let ?d = "snd (record_observations (demo_scan 900 None) ''u'' [demo_client] None None (demo_roster demo_record))"
  have "roster_step 100 (demo_roster demo_record) (sc_now (demo_scan 900 None)) ?d"
    by (rule roster_step.scanned [OF _ prod.collapse [symmetric]]) simp
  then have run: "roster_run 100 (demo_roster demo_record) 900 ?d"
    using roster_run.step [OF roster_run.start] by simp
  from roster_run_invariant [OF run demo_roster_ok [OF demo_record_ok(1)]] run show ?thesis by auto
qed


theorem missing_evidence_preserves_witness:
  "\<exists>r'. dget (roster_of ''u'' (snd (record_observations (demo_scan 900 (Some [failed_ap])) ''u'' [] None None
      (demo_roster demo_record)))) demo_mac = Some r' \<and> r_online r' \<and> r_kind r' = ''wifi''"
proof -
  have f: "sc_failed (demo_scan 900 (Some [failed_ap])) = [''ap'']"
    by (simp add: demo_scan_def scan_for_def failed_sources_def failed_ap_def)
  have r: "r_seen demo_record = [demo_sighting]" "r_online demo_record" "r_kind demo_record = ''wifi''"
    by (simp_all add: demo_record_def)
  have s: "seen_by_failed (sc_failed (demo_scan 900 (Some [failed_ap]))) demo_record"
    "preserved_wifi (demo_scan 900 (Some [failed_ap])) demo_record"
    by (simp_all add: f r seen_by_failed_def preserved_wifi_def demo_sighting_def)
  have "dget (roster_of ''u'' (demo_roster demo_record)) demo_mac = Some demo_record" by simp
  from missing_evidence_preserves [OF demo_roster_ok [OF demo_record_ok(1)] _ prod.collapse [symmetric] this r(2),
      THEN conjunct1, rule_format, OF _ s(1)] s r(3)
  show ?thesis by fastforce
qed

theorem ignored_until_return_witness:
  "demo_mac \<in> set (map v_mac (sn_clients (read_snapshot ''u'' (snd (record_observations (demo_scan 900 None) ''u''
     [demo_client] None None (demo_roster (demo_record\<lparr>r_ignored := True, r_away := True\<rparr>)))))))"
proof -
  let ?r = "demo_record\<lparr>r_ignored := True, r_away := True\<rparr>"
  have now: "100 \<le> sc_now (demo_scan 900 None)" by simp
  have g: "dget (roster_of ''u'' (demo_roster ?r)) demo_mac = Some ?r" and i: "r_ignored ?r" by simp_all
  have n: "dget (normalized_clients [demo_client]) demo_mac = Some demo_client" by (simp add: demo_normalized)
  from ignored_until_return [where sources = None and nac = None, OF demo_roster_ok [OF demo_record_ok(2)] now prod.collapse [symmetric] g i,
      THEN conjunct2, THEN conjunct2, THEN conjunct1, rule_format, OF n]
  show ?thesis by auto
qed

theorem nac_announces_once_witness:
  "\<exists>evs pres d'. record_nac_observations demo_limits 900 ''u'' [demo_client] [] (demo_roster demo_record)
     = (Inr (evs, pres), d') \<and> map ne_mac evs = [demo_mac]"
proof -
  let ?sc = "scan_for demo_limits 900 (Some []) [] False None"
  have "100 \<le> sc_now ?sc" by (simp add: scan_for_def)
  then obtain sn ps d1 where "record_observations ?sc ''u'' [demo_client] None None (demo_roster demo_record) = (Inr (sn, ps), d1)"
    using record_observations_ok [OF demo_roster_ok [OF demo_record_ok(1)], of ?sc "''u''" "[demo_client]" None None]
    by (metis surj_pair)
  then obtain evs pres d' where
    run: "record_nac_observations demo_limits 900 ''u'' [demo_client] [] (demo_roster demo_record) = (Inr (evs, pres), d')"
    by (auto simp: record_nac_observations_def Let_def nac_mut_def case_prod_unfold transact_def)
  have r: "\<not> r_ignored demo_record" "\<not> r_notified demo_record" by (simp_all add: demo_record_def fresh_record_def)
  from nac_announces_once [OF demo_roster_ok [OF demo_record_ok(1)] _ run] run r show ?thesis
    by (auto simp: demo_normalized)
qed

end
