(* ===== verification/Nac.thy ===== *)
theory Nac
  imports Firewall Presence
begin

text \<open>
  Network access control, \<open>backend/nac.py\<close> and \<open>backend/nac_service.py\<close>, on the firewall of
  theory Firewall, and the orchestration of a client refresh in \<open>backend/client_service.py\<close>.
  Whether a connection to the firewall opens is an argument (\<open>Some e\<close> is the error).
\<close>

section \<open>Set-up and approval\<close>

definition no_nac :: failure where "no_nac = ValueError ''access control is not set up on this device''"

definition change_device :: "string \<Rightarrow> (device \<Rightarrow> device option) \<Rightarrow> device_doc \<Rightarrow> (device_doc \<times> device option) result" where
  "change_device dev_id f d = (case dget (dd_devices d) dev_id of
     None \<Rightarrow> Inr (d, None)
   | Some v \<Rightarrow> (case f v of None \<Rightarrow> Inr (d, None)
      | Some v' \<Rightarrow> Inr (d\<lparr>dd_devices := dput dev_id v' (dd_devices d)\<rparr>, Some v')))"

definition save_nac :: "string \<Rightarrow> nac_config \<Rightarrow> device_doc \<Rightarrow> device result \<times> device_doc" where
  "save_nac dev_id cfg d = (case transact (change_device dev_id (\<lambda>v. Some (v\<lparr>dv_nac := Some cfg\<rparr>))) d of
     (Inl e, d') \<Rightarrow> (Inl e, d') | (Inr None, d') \<Rightarrow> (Inl not_found, d') | (Inr (Some v), d') \<Rightarrow> (Inr v, d'))"

definition nac_ensure_existing :: "fw_api \<Rightarrow> string \<Rightarrow> firewall \<Rightarrow> alias_info result" where
  "nac_ensure_existing api uuid f =
     (case (if uuid = [] then None else alias_info api uuid f) of
        Some info \<Rightarrow> if ai_name info = [] then Inl (ValueError ''alias not found on the firewall'') else Inr info
      | None \<Rightarrow> Inl (ValueError ''alias not found on the firewall''))"

definition connect :: "string option \<Rightarrow> 'a result \<Rightarrow> 'a result" where
  "connect err body = (case err of Some e \<Rightarrow> Inl (UpstreamUnavailable e) | None \<Rightarrow> body)"

definition nac_setup_existing :: "registry \<Rightarrow> string option \<Rightarrow> fw_api \<Rightarrow> string \<Rightarrow> string \<Rightarrow> firewall \<Rightarrow> device_doc \<Rightarrow> device result \<times> device_doc" where
  "nac_setup_existing reg err api dev_id uuid f d =
     (case device_conn reg (Some NacCapability) (\<lambda>_ _. connect err (nac_ensure_existing api uuid f)) dev_id d of
        Inl e \<Rightarrow> (Inl e, d)
      | Inr info \<Rightarrow> save_nac dev_id \<lparr>nx_alias = ai_name info, nx_alias_uuid = Some uuid, nx_alias_type = Some (ai_type info),
          nx_mode = ''existing'', nx_interface = None, nx_pass = None, nx_block = None, nx_enabled = False,
          nx_external = True, nx_managed = [], nx_dns = None\<rparr> d)"

text \<open>\<open>ensured\<close>: the identifiers of the alias and of the two rules the driver made or found.\<close>

definition nac_setup :: "registry \<Rightarrow> (string option \<times> string option \<times> string option) result \<Rightarrow> string \<Rightarrow> string \<Rightarrow> string
    \<Rightarrow> device_doc \<Rightarrow> device result \<times> device_doc" where
  "nac_setup reg ensured dev_id alias interface d =
     (case device_conn reg (Some NacCapability) (\<lambda>_ _. ensured) dev_id d of
        Inl e \<Rightarrow> (Inl e, d)
      | Inr (au, pu, bu) \<Rightarrow> save_nac dev_id \<lparr>nx_alias = strip alias, nx_alias_uuid = au, nx_alias_type = Some ''mac'',
          nx_mode = ''managed'', nx_interface = Some interface, nx_pass = pu, nx_block = bu, nx_enabled = False,
          nx_external = False, nx_managed = [], nx_dns = None\<rparr> d)"

definition nac_alias_of :: "device \<Rightarrow> string option" where
  "nac_alias_of v = (case dv_nac v of None \<Rightarrow> None | Some c \<Rightarrow> some_nonempty (Some (nx_alias c)))"

definition require_alias :: "string \<Rightarrow> device_doc \<Rightarrow> string result" where
  "require_alias dev_id d = (case dget (dd_devices d) dev_id of
     None \<Rightarrow> Inl not_found
   | Some v \<Rightarrow> (case nac_alias_of v of None \<Rightarrow> Inl no_nac | Some a \<Rightarrow> Inr a))"

text \<open>A body that edits the firewall: reached only behind the checks of \<open>device_conn\<close>.\<close>

definition nac_edit :: "registry \<Rightarrow> string option \<Rightarrow> string \<Rightarrow> device_doc \<Rightarrow> (firewall \<Rightarrow> 'a result \<times> firewall) \<Rightarrow> firewall
    \<Rightarrow> 'a result \<times> firewall" where
  "nac_edit reg err dev_id d body f =
     (case device_conn reg (Some NacCapability) (\<lambda>_ _. connect err (Inr ())) dev_id d of
        Inl e \<Rightarrow> (Inl e, f) | Inr _ \<Rightarrow> body f)"

definition nac_approve :: "registry \<Rightarrow> string option \<Rightarrow> fw_api \<Rightarrow> string \<Rightarrow> string \<Rightarrow> bool \<Rightarrow> device_doc \<Rightarrow> firewall
    \<Rightarrow> (string \<times> bool) result \<times> firewall" where
  "nac_approve reg err api dev_id mac approved d f = (case require_alias dev_id d of
     Inl e \<Rightarrow> (Inl e, f)
   | Inr a \<Rightarrow> nac_edit reg err dev_id d (nac_set_member api a mac approved) f)"

definition nac_approve_many :: "registry \<Rightarrow> string option \<Rightarrow> fw_api \<Rightarrow> string \<Rightarrow> string option list \<Rightarrow> bool \<Rightarrow> device_doc \<Rightarrow> firewall
    \<Rightarrow> nat result \<times> firewall" where
  "nac_approve_many reg err api dev_id macs approved d f = (case require_alias dev_id d of
     Inl e \<Rightarrow> (Inl e, f)
   | Inr a \<Rightarrow>
       (let ms = map normal_mac macs in
        if ms = [] then (Inl (ValueError ''no MAC addresses given''), f)
        else case find (\<lambda>m. \<not> valid_mac m) ms of
          Some m \<Rightarrow> (Inl (ValueError (''invalid MAC address: '' @ m)), f)
        | None \<Rightarrow> (case nac_edit reg err dev_id d (put_all (nac_set_member api a) approved ms) f of
            (Inl e, f') \<Rightarrow> (Inl e, f') | (Inr _, f') \<Rightarrow> (Inr (length ms), f'))))"

text \<open>\<open>toggled\<close>: the state of the deny rule the driver reports.\<close>

definition nac_set_enforcement :: "registry \<Rightarrow> bool result \<Rightarrow> string \<Rightarrow> device_doc \<Rightarrow> device result \<times> device_doc" where
  "nac_set_enforcement reg toggled dev_id d = (case dget (dd_devices d) dev_id of
     None \<Rightarrow> (Inl not_found, d)
   | Some v \<Rightarrow>
       (case (case dv_nac v of None \<Rightarrow> None | Some c \<Rightarrow> some_nonempty (nx_block c)) of
          None \<Rightarrow> (Inl no_nac, d)
        | Some _ \<Rightarrow> (case device_conn reg (Some NacCapability) (\<lambda>_ _. toggled) dev_id d of
            Inl e \<Rightarrow> (Inl e, d)
          | Inr on \<Rightarrow> (case transact (change_device dev_id (\<lambda>v. map_option (\<lambda>c. v\<lparr>dv_nac := Some (c\<lparr>nx_enabled := on\<rparr>)\<rparr>) (dv_nac v))) d of
              (Inl e, d') \<Rightarrow> (Inl e, d') | (Inr None, d') \<Rightarrow> (Inl not_found, d') | (Inr (Some v'), d') \<Rightarrow> (Inr v', d')))))"

section \<open>Configuration\<close>

definition nac_device :: "string \<Rightarrow> device_doc \<Rightarrow> device option" where
  "nac_device owner d = find (\<lambda>v. dv_owner v = owner \<and> nac_alias_of v \<noteq> None) (dvals (dd_devices d))"

definition no_dns :: dns_sync where "no_dns = \<lparr>ds_enabled = False, ds_domain = []\<rparr>"

definition dns_of :: "nac_config \<Rightarrow> dns_sync" where
  "dns_of c = (case nx_dns c of None \<Rightarrow> no_dns | Some s \<Rightarrow> s)"

definition get_nac_config :: "string \<Rightarrow> device_doc \<Rightarrow> string option \<times> managed_alias list \<times> dns_sync" where
  "get_nac_config owner d = (case nac_device owner d of
     None \<Rightarrow> (None, [], no_dns)
   | Some v \<Rightarrow> (case dv_nac v of None \<Rightarrow> (Some (dv_id v), [], no_dns)
      | Some c \<Rightarrow> (Some (dv_id v), nx_managed c, dns_of c)))"

definition clean_managed :: "managed_alias list \<Rightarrow> managed_alias list" where
  "clean_managed as = filter (\<lambda>a. ma_uuid a \<noteq> []) (map (\<lambda>a. a\<lparr>ma_uuid := strip (ma_uuid a)\<rparr>) as)"

definition set_nac_config :: "string \<Rightarrow> managed_alias list \<Rightarrow> dns_sync \<Rightarrow> device_doc
    \<Rightarrow> (managed_alias list \<times> dns_sync) result \<times> device_doc" where
  "set_nac_config owner aliases dns d = (case nac_device owner d of
     None \<Rightarrow> (Inl (ValueError ''set up access control before configuring this''), d)
   | Some nd \<Rightarrow>
       (let ma = clean_managed aliases; ds = dns\<lparr>ds_domain := strip (ds_domain dns)\<rparr> in
        case transact (change_device (dv_id nd) (\<lambda>v. map_option (\<lambda>c. v\<lparr>dv_nac := Some (c\<lparr>nx_managed := ma, nx_dns := Some ds\<rparr>)\<rparr>) (dv_nac v))) d of
          (Inl e, d') \<Rightarrow> (Inl e, d')
        | (Inr None, d') \<Rightarrow> (Inl (ValueError ''access control not configured''), d')
        | (Inr (Some _), d') \<Rightarrow> (Inr (ma, ds), d')))"

definition add_managed :: "created_alias \<Rightarrow> nac_config \<Rightarrow> nac_config" where
  "add_managed a c = (if \<exists>m \<in> set (nx_managed c). ma_uuid m = ca_uuid a then c
     else c\<lparr>nx_managed := nx_managed c @ [\<lparr>ma_uuid = ca_uuid a, ma_name = ca_name a, ma_type = ca_type a\<rparr>]\<rparr>)"

definition create_managed_alias ::
  "string option \<Rightarrow> fw_api \<Rightarrow> string \<Rightarrow> string \<Rightarrow> string \<Rightarrow> string \<Rightarrow> device_doc \<Rightarrow> firewall
   \<Rightarrow> created_alias result \<times> device_doc \<times> firewall" where
  "create_managed_alias err api new_uuid owner name atype d f = (case nac_device owner d of
     None \<Rightarrow> (Inl (ValueError ''set up access control before adding aliases''), d, f)
   | Some nd \<Rightarrow> (case err of Some e \<Rightarrow> (Inl (UpstreamUnavailable e), d, f)
      | None \<Rightarrow> (case alias_create api new_uuid name atype f of
          (Inl e, f') \<Rightarrow> (Inl e, d, f')
        | (Inr a, f') \<Rightarrow>
            (case transact (change_device (dv_id nd) (\<lambda>v. map_option (\<lambda>c. v\<lparr>dv_nac := Some (add_managed a c)\<rparr>) (dv_nac v))) d of
               (Inl e, d') \<Rightarrow> (Inl e, d', f')
             | (Inr None, d') \<Rightarrow> (Inl (ValueError ''access control not configured''), d', f')
             | (Inr (Some _), d') \<Rightarrow> (Inr a, d', f')))))"

section \<open>Membership of one client\<close>

fun apply_changes :: "fw_api \<Rightarrow> string list \<Rightarrow> string \<Rightarrow> string \<Rightarrow> (string \<times> bool) list \<Rightarrow> firewall \<times> (string, bool) dict
    \<Rightarrow> (string, bool) dict result \<times> firewall" where
  "apply_changes api allowed ip mac [] (f, done_changes) = (Inr done_changes, f)"
| "apply_changes api allowed ip mac ((uuid, add) # cs) (f, done_changes) =
     (if uuid \<in> set allowed
      then (case alias_set_member api uuid ip mac add f of
          (Inl e, f') \<Rightarrow> (Inl e, f')
        | (Inr _, f') \<Rightarrow> apply_changes api allowed ip mac cs (f', dput uuid add done_changes))
      else apply_changes api allowed ip mac cs (f, done_changes))"

text \<open>The DNS reservation is a call of the driver whose outcome is \<open>dns\<close>.\<close>

definition edit_membership ::
  "string option \<Rightarrow> fw_api \<Rightarrow> string \<Rightarrow> string option \<Rightarrow> string \<Rightarrow> (string \<times> bool) list \<Rightarrow> unit result option \<Rightarrow> device_doc \<Rightarrow> firewall
   \<Rightarrow> (string \<times> (string, bool) dict \<times> bool) result \<times> firewall" where
  "edit_membership err api owner mac ip changes dns d f = (let m = normal_mac mac in
     if \<not> valid_mac m then (Inl (ValueError ''invalid MAC address''), f)
     else case nac_device owner d of
       None \<Rightarrow> (Inl (ValueError ''set up access control before syncing aliases or DNS''), f)
     | Some v \<Rightarrow>
         (let allowed = (case dv_nac v of None \<Rightarrow> [] | Some c \<Rightarrow> map ma_uuid (nx_managed c)) in
          case err of Some e \<Rightarrow> (Inl (UpstreamUnavailable e), f)
          | None \<Rightarrow> (case apply_changes api allowed ip m changes (f, []) of
              (Inl e, f') \<Rightarrow> (Inl e, f')
            | (Inr ch, f') \<Rightarrow> (case dns of
                None \<Rightarrow> (Inr (m, ch, False), f')
              | Some (Inl e) \<Rightarrow> (Inl e, f')
              | Some (Inr _) \<Rightarrow> (Inr (m, ch, True), f')))))"

record client_aliases =
  cl_configured :: bool
  cl_aliases :: "(managed_alias \<times> bool) list"
  cl_dns :: dns_sync
  cl_synced :: bool

definition client_membership :: "string option \<Rightarrow> fw_api \<Rightarrow> bool \<Rightarrow> string \<Rightarrow> string option \<Rightarrow> string \<Rightarrow> device_doc \<Rightarrow> firewall
    \<Rightarrow> client_aliases result" where
  "client_membership err api synced owner mac ip d f = (case nac_device owner d of
     None \<Rightarrow> Inr \<lparr>cl_configured = False, cl_aliases = [], cl_dns = no_dns, cl_synced = False\<rparr>
   | Some v \<Rightarrow>
       (let managed = (case dv_nac v of None \<Rightarrow> [] | Some c \<Rightarrow> nx_managed c);
            ds = (case dv_nac v of None \<Rightarrow> no_dns | Some c \<Rightarrow> dns_of c);
            member = alias_membership api (map ma_uuid managed) ip (normal_mac mac) f
        in connect err (Inr \<lparr>cl_configured = True, cl_aliases = map (\<lambda>a. (a, dget_or member (ma_uuid a) False)) managed,
             cl_dns = ds, cl_synced = (ds_enabled ds \<and> synced)\<rparr>)))"

section \<open>Discovery of membership\<close>

definition json_opt :: "string option \<Rightarrow> json" where
  "json_opt s = (case s of None \<Rightarrow> JNull | Some x \<Rightarrow> JStr x)"

definition nac_info :: "bool \<Rightarrow> bool \<Rightarrow> string option \<Rightarrow> string option \<Rightarrow> string option \<Rightarrow> string option \<Rightarrow> bool \<Rightarrow> doc" where
  "nac_info configured enforced dev_id name alias mode ext =
     [(''configured'', JBool configured), (''enforced'', JBool enforced), (''deviceId'', json_opt dev_id),
      (''deviceName'', json_opt name), (''alias'', json_opt alias), (''mode'', json_opt mode),
      (''managedExternally'', JBool ext)]"

definition nac_summary :: "device \<Rightarrow> nac_config \<Rightarrow> doc" where
  "nac_summary v c = nac_info True (nx_enabled c) (Some (dv_id v)) (Some (device_name v)) (Some (nx_alias c)) (Some (nx_mode c)) (nx_external c) @
     [(''managedAliases'', JArr (map (\<lambda>a. JObj [(''uuid'', JStr (ma_uuid a)), (''name'', JStr (ma_name a)), (''type'', JStr (ma_type a))]) (nx_managed c))),
      (''dnsSync'', JObj [(''enabled'', JBool (ds_enabled (dns_of c))), (''domain'', JStr (ds_domain (dns_of c)))])]"

definition nac_candidate :: "registry \<Rightarrow> string \<Rightarrow> device_doc \<Rightarrow> device option" where
  "nac_candidate reg owner d = find (\<lambda>v. dv_owner v = owner \<and>
     (case reg (dv_driver v) of None \<Rightarrow> False | Some drv \<Rightarrow> drv_nac drv)) (dvals (dd_devices d))"

record membership =
  ms_info :: doc
  ms_approved :: "string list option"
  ms_aliases :: "(string, alias_index_entry) dict"

definition discovery_membership :: "registry \<Rightarrow> string option \<Rightarrow> fw_api \<Rightarrow> string \<Rightarrow> device_doc \<Rightarrow> firewall \<Rightarrow> membership" where
  "discovery_membership reg err api owner d f = (case nac_device owner d of
     None \<Rightarrow> (let c = nac_candidate reg owner d in
       \<lparr>ms_info = nac_info False False (map_option dv_id c) (map_option device_name c) None None False,
        ms_approved = None, ms_aliases = []\<rparr>)
   | Some v \<Rightarrow> (case dv_nac v of
       None \<Rightarrow> \<lparr>ms_info = [], ms_approved = None, ms_aliases = []\<rparr>
     | Some c \<Rightarrow> (case err of
         Some e \<Rightarrow> \<lparr>ms_info = nac_summary v c @ [(''error'', JStr e)], ms_approved = None, ms_aliases = []\<rparr>
       | None \<Rightarrow> if reg (dv_driver v) = None
           then \<lparr>ms_info = nac_summary v c @ [(''error'', JStr (failure_text AttributeError))], ms_approved = None, ms_aliases = []\<rparr>
           else \<lparr>ms_info = nac_summary v c,
           ms_approved = Some (approved_macs (map Some (nac_members api (nx_alias c) f))),
           ms_aliases = (if nx_managed c = [] then [] else alias_member_index api (nx_managed c) f)\<rparr>)))"

text \<open>The background scan of the firewall: the first device with an allow list, whoever owns it.\<close>

definition scan_new_clients ::
  "registry \<Rightarrow> string option \<Rightarrow> fw_api \<Rightarrow> client list result \<Rightarrow> roster_limits \<Rightarrow> int \<Rightarrow> device_doc \<Rightarrow> firewall \<Rightarrow> roster_doc
   \<Rightarrow> (device option \<times> nac_event list) result \<times> roster_doc" where
  "scan_new_clients reg err api rows limits now d f rd =
     (case find (\<lambda>v. nac_alias_of v \<noteq> None) (dvals (dd_devices d)) of
        None \<Rightarrow> (Inr (None, []), rd)
      | Some v \<Rightarrow> (case (reg (dv_driver v), nac_alias_of v) of
          (Some drv, Some a) \<Rightarrow> (case connect err rows of
             Inl _ \<Rightarrow> (Inr (None, []), rd)
           | Inr clients \<Rightarrow> (case record_nac_observations limits now (dv_owner v) clients
                 (approved_macs (map Some (nac_members api a f))) rd of
               (Inl e, rd') \<Rightarrow> (Inl e, rd')
             | (Inr (evs, _), rd') \<Rightarrow> (Inr (Some v, evs), rd')))
        | _ \<Rightarrow> (Inr (None, []), rd)))"

section \<open>Refreshing the clients of an owner\<close>

definition client_sources :: "registry \<Rightarrow> string \<Rightarrow> device_doc \<Rightarrow> client_source list" where
  "client_sources reg owner d = map (\<lambda>v. \<lparr>d_id = dv_id v, d_name = (case dv_name v of None \<Rightarrow> [] | Some n \<Rightarrow> n),
       d_host = dv_host v, d_driver = dv_driver v\<rparr>)
     (filter (\<lambda>v. dv_owner v = owner \<and> (case reg (dv_driver v) of None \<Rightarrow> False | Some drv \<Rightarrow> drv_clients drv))
       (dvals (dd_devices d)))"

definition aliases_of_client :: "(string, alias_index_entry) dict \<Rightarrow> client \<Rightarrow> alias_ref list" where
  "aliases_of_client aliases c = map (\<lambda>(uuid, a). \<lparr>al_uuid = uuid, al_name = ax_name a\<rparr>)
     (filter (\<lambda>(uuid, a). upper (if ax_type a = ''mac'' then c_mac c else c_ip c) \<in> set (ax_members a)) aliases)"

definition aliases_by_mac :: "membership \<Rightarrow> client list \<Rightarrow> (string, alias_ref list) dict" where
  "aliases_by_mac m clients = (case ms_approved m of
     None \<Rightarrow> []
   | Some _ \<Rightarrow> fold (\<lambda>c. dput (c_mac c) (aliases_of_client (ms_aliases m) c)) clients [])"

record refresh_env =
  re_text :: "json \<Rightarrow> string"
  re_registry :: registry
  re_outcomes :: "client_source \<Rightarrow> read_outcome list"
  re_resolver :: "string list \<Rightarrow> (string, string) dict"
  re_conn :: "string option"
  re_api :: fw_api
  re_limits :: roster_limits

definition refresh :: "refresh_env \<Rightarrow> int \<Rightarrow> string \<Rightarrow> device_doc \<Rightarrow> firewall \<Rightarrow> roster_doc
    \<Rightarrow> (snapshot \<times> presence_event list) result \<times> roster_doc" where
  "refresh env now owner d f rd =
     (let (obs, sources) = discover (re_text env) (\<lambda>drv. re_registry env drv \<noteq> None) (re_outcomes env)
            (client_sources (re_registry env) owner d);
          merged = resolve_missing_hostnames (re_resolver env) (merge_observations obs);
          m = discovery_membership (re_registry env) (re_conn env) (re_api env) owner d f
      in record_observations (scan_for (re_limits env) now (ms_approved m) (aliases_by_mac m merged) True (Some sources))
           owner merged (Some sources) (Some (ms_info m)) rd)"

text \<open>Every owner of a device that lists clients, one after the other; a failure ends the loop.\<close>

definition roster_owners :: "registry \<Rightarrow> device_doc \<Rightarrow> string list" where
  "roster_owners reg d = remdups (map dv_owner (filter (\<lambda>v. dv_owner v \<noteq> [] \<and>
     (case reg (dv_driver v) of None \<Rightarrow> False | Some drv \<Rightarrow> drv_clients drv)) (dvals (dd_devices d))))"

fun refresh_all :: "refresh_env \<Rightarrow> int \<Rightarrow> string list \<Rightarrow> device_doc \<Rightarrow> firewall \<Rightarrow> roster_doc \<Rightarrow> unit result \<times> roster_doc" where
  "refresh_all env now [] d f rd = (Inr (), rd)"
| "refresh_all env now (u # us) d f rd = (case refresh env now u d f rd of
     (Inl e, rd') \<Rightarrow> (Inl e, rd') | (Inr _, rd') \<Rightarrow> refresh_all env now us d f rd')"

definition refresh_rosters :: "refresh_env \<Rightarrow> int \<Rightarrow> device_doc \<Rightarrow> firewall \<Rightarrow> roster_doc \<Rightarrow> unit result \<times> roster_doc" where
  "refresh_rosters env now d f rd = refresh_all env now (roster_owners (re_registry env) d) d f rd"

section \<open>Export\<close>

definition csv_cell :: "(json \<Rightarrow> string) \<Rightarrow> json \<Rightarrow> string" where
  "csv_cell r v = (let s = (if v = JNull then [] else str_json r v) in
     case s of c # _ \<Rightarrow> if c \<in> {CHR ''='', CHR ''+'', CHR ''-'', CHR ''@''} then CHR 0x27 # s else s | [] \<Rightarrow> s)"

text \<open>\<open>csv.writer\<close> with its default dialect: minimal quoting, doubled quotes, CR LF.\<close>

definition csv_quote :: "string \<Rightarrow> string" where
  "csv_quote s = (if list_ex (\<lambda>c. c \<in> {CHR '','', CHR 0x22, CHR 0x0A, CHR 0x0D}) s
     then [CHR 0x22] @ concat (map (\<lambda>c. if c = CHR 0x22 then [c, c] else [c]) s) @ [CHR 0x22] else s)"

definition csv_row :: "string list \<Rightarrow> string" where
  "csv_row cells = join_with '','' (map csv_quote cells) @ [CHR 0x0D, CHR 0x0A]"

definition csv_client :: "(json \<Rightarrow> string) \<Rightarrow> (int option \<Rightarrow> string) \<Rightarrow> client_view \<Rightarrow> string list" where
  "csv_client r stamp v = [csv_cell r (JStr (v_name v)), csv_cell r (JStr (v_hostname v)), v_ip v, v_mac v,
     csv_cell r (JStr (v_vendor v)), v_kind v, (if v_online v then ''yes'' else ''no''),
     (if v_signal v = JNull then [] else str_json r (v_signal v)), (case v_nac v of None \<Rightarrow> [] | Some s \<Rightarrow> s),
     stamp (v_first v), stamp (v_last v), csv_cell r (JStr (v_notes v))]"

definition export_csv :: "(json \<Rightarrow> string) \<Rightarrow> (int option \<Rightarrow> string) \<Rightarrow> string \<Rightarrow> roster_doc \<Rightarrow> string" where
  "export_csv r stamp owner rd =
     csv_row [''name'', ''hostname'', ''ip'', ''mac'', ''vendor'', ''kind'', ''online'', ''signal_dbm'', ''access'',
       ''first_seen'', ''last_seen'', ''notes''] @
     concat (map (csv_row \<circ> csv_client r stamp) (sn_clients (read_snapshot owner rd)))"

section \<open>Facts\<close>

lemma mac_groups_chars: "mac_groups n s \<Longrightarrow> list_all (\<lambda>c. c = CHR '':'' \<or> is_hex_upper c) s"
proof (induction n arbitrary: s)
  case 0
  then show ?case by simp
next
  case (Suc n)
  from Suc.prems obtain a b rest where "s = CHR '':'' # a # b # rest" "is_hex_upper a" "is_hex_upper b" "mac_groups n rest"
    by (auto split: list.splits)
  with Suc.IH show ?case by simp
qed

lemma hex_not_space: "is_hex_upper c \<Longrightarrow> \<not> is_space c \<and> c \<noteq> newline"
  by (auto simp: is_hex_upper_def is_digit_char_def is_space_def newline_def Let_def)

lemma valid_mac_clean: "valid_mac m \<Longrightarrow> clean_entry m"
proof -
  assume v: "valid_mac m"
  then have all: "list_all (\<lambda>c. c = CHR '':'' \<or> is_hex_upper c) m"
    using mac_groups_chars [of 6 "CHR '':'' # m"] by (simp add: valid_mac_def)
  have ne: "m \<noteq> []" using v by (auto simp: valid_mac_def eval_nat_numeral)
  have ch: "\<not> is_space c \<and> c \<noteq> newline" if "c \<in> set m" for c
  proof -
    from all that have "c = CHR '':'' \<or> is_hex_upper c" by (simp add: list_all_iff)
    then show ?thesis
    proof
      assume "c = CHR '':''"
      then show ?thesis by (simp add: is_space_def newline_def)
    qed (rule hex_not_space)
  qed
  with ne show ?thesis by (auto simp: clean_entry_def)
qed

lemma require_alias_eq: "require_alias dev_id d = Inr a \<longleftrightarrow>
    (\<exists>v. dget (dd_devices d) dev_id = Some v \<and> nac_alias_of v = Some a)"
  by (auto simp: require_alias_def split: option.splits)

lemma alias_set_member_other:
  "alias_set_member api uuid ip mac add f = (res, f') \<Longrightarrow> u \<noteq> uuid \<Longrightarrow> dget f' u = dget f u"
  by (auto simp: alias_set_member_def alias_write_def Let_def split: option.splits if_splits sum.splits prod.splits)

lemma apply_changes_other:
  assumes "apply_changes api allowed ip mac cs (f, ch) = (res, f')" and "u \<notin> set allowed"
  shows "dget f' u = dget f u"
  using assms
proof (induction cs arbitrary: f ch)
  case Nil
  then show ?case by simp
next
  case (Cons c cs)
  obtain uuid add where c: "c = (uuid, add)" by (cases c)
  show ?case
  proof (cases "uuid \<in> set allowed")
    case False
    with Cons c show ?thesis by auto
  next
    case True
    obtain r f1 where a: "alias_set_member api uuid ip mac add f = (r, f1)"
      by (cases "alias_set_member api uuid ip mac add f")
    from True Cons.prems(2) have "u \<noteq> uuid" by auto
    from alias_set_member_other [OF a this] have "dget f1 u = dget f u" .
    with Cons True c a show ?thesis by (cases r) auto
  qed
qed

lemma record_after_nac:
  assumes "record_after sc ns mac old = Some r'"
  shows "r_nac r' = (case sc_approved sc of Some ms \<Rightarrow> Some (mac \<in> set ms)
     | None \<Rightarrow> (case old of None \<Rightarrow> None | Some r \<Rightarrow> r_nac r))"
proof -
  have facts: "r_nac (observe_facts sc c r) = r_nac r" for c r
    by (simp add: observe_facts_def Let_def add_event_def if_distrib [of r_nac] cong: if_cong)
  have away: "r_nac (away_record r) = r_nac r" for r by (simp add: away_record_def)
  show ?thesis
    using assms
    by (auto simp: record_after_def observed_record_def unobserved_record_def Let_def facts away fresh_record_def
        split: option.splits if_splits)
qed

section \<open>Properties\<close>

text \<open>
  A batch approval with an invalid address, or with none, changes nothing. Otherwise
  the allow list afterwards is the old one with a prefix of the addresses added (or removed), the
  whole batch when the call succeeds.
\<close>

theorem nac_approve_many_exact:
  assumes "require_alias dev_id d = Inr a" and "readable api a f"
    and "nac_approve_many reg err api dev_id macs approved d f = (res, f')"
  shows "(macs = [] \<or> \<not> list_all valid_mac (map normal_mac macs) \<longrightarrow> f' = f \<and> is_error res) \<and>
    (\<exists>n \<le> length macs. list_of api a f' = edit_set approved (list_of api a f) (take n (map normal_mac macs))) \<and>
    (\<not> is_error res \<longrightarrow> list_of api a f' = edit_set approved (list_of api a f) (map normal_mac macs))"
proof -
  let ?ms = "map normal_mac macs"
  have none: "\<exists>n \<le> length macs. list_of api a f = edit_set approved (list_of api a f) (take n ?ms)"
    by (rule exI [of _ 0]) (simp add: edit_set_def)
  show ?thesis
  proof (cases "macs = [] \<or> \<not> list_all valid_mac ?ms")
    case True
    then have "f' = f" "is_error res"
      using assms(1,3) by (auto simp: nac_approve_many_def Let_def list_all_iff find_None_iff split: option.splits if_splits)
    with none show ?thesis by auto
  next
    case False
    then have v: "list_all clean_entry ?ms" by (auto simp: list_all_iff intro: valid_mac_clean)
    have f: "find (\<lambda>m. \<not> valid_mac m) ?ms = None" using False by (simp add: find_None_iff list_all_iff)
    obtain r f1 where e: "nac_edit reg err dev_id d (put_all (nac_set_member api a) approved ?ms) f = (r, f1)"
      by (cases "nac_edit reg err dev_id d (put_all (nac_set_member api a) approved ?ms) f")
    have f1: "f' = f1" "is_error res \<longleftrightarrow> is_error r"
      using assms(1,3) False f e by (auto simp: nac_approve_many_def split: sum.splits)
    show ?thesis
    proof (cases "device_conn reg (Some NacCapability) (\<lambda>_ _. connect err (Inr ())) dev_id d")
      case (Inl x)
      have "f1 = f" "is_error r" using e unfolding nac_edit_def Inl by auto
      with none f1 False show ?thesis by auto
    next
      case (Inr x)
      have p: "put_all (nac_set_member api a) approved ?ms f = (r, f1)" using e unfolding nac_edit_def Inr by simp
      have all: "list_of api a f1 = edit_set approved (list_of api a f) ?ms" if "\<not> is_error r"
      proof -
        from that obtain u where "r = Inr u" by (cases r) auto
        with p show ?thesis using opnsense.put_all_ok [OF assms(2) v] by simp
      qed
      from opnsense.put_all_partial [OF assms(2) v p] all f1 False show ?thesis by auto
    qed
  qed
qed

text \<open>
  Editing a client's membership touches only aliases that the owner's access-control
  device manages; every other alias of the firewall stays as it was, also when the edit fails.
\<close>

theorem edit_membership_only_managed:
  assumes "edit_membership err api owner mac ip changes dns d f = (res, f')"
    and "\<forall>v c. nac_device owner d = Some v \<longrightarrow> dv_nac v = Some c \<longrightarrow> uuid \<notin> ma_uuid ` set (nx_managed c)"
  shows "dget f' uuid = dget f uuid"
proof (cases "valid_mac (normal_mac mac) \<and> err = None")
  case False
  with assms(1) show ?thesis by (auto simp: edit_membership_def Let_def split: option.splits if_splits)
next
  case True
  show ?thesis
  proof (cases "nac_device owner d")
    case None
    with True assms(1) show ?thesis by (simp add: edit_membership_def Let_def)
  next
    case (Some v)
    let ?allowed = "case dv_nac v of None \<Rightarrow> [] | Some c \<Rightarrow> map ma_uuid (nx_managed c)"
    obtain r f1 where a: "apply_changes api ?allowed ip (normal_mac mac) changes (f, []) = (r, f1)"
      by (cases "apply_changes api ?allowed ip (normal_mac mac) changes (f, [])")
    have "uuid \<notin> set ?allowed" using assms(2) Some by (auto split: option.splits)
    from apply_changes_other [OF a this] have "dget f1 uuid = dget f uuid" .
    moreover have "f' = f1"
      using assms(1) True Some a by (auto simp: edit_membership_def Let_def split: option.splits sum.splits)
    ultimately show ?thesis by simp
  qed
qed

text \<open>
  A refresh never raises; when the membership was read every record of the owner is
  marked approved exactly if the allow list holds its MAC, and when it was not available every
  record keeps the status it had.
\<close>

theorem refresh_nac_status:
  assumes "roster_ok T rd" and "T \<le> now" and "refresh env now owner d f rd = (res, rd')"
    and "m = discovery_membership (re_registry env) (re_conn env) (re_api env) owner d f"
  shows "\<not> is_error res \<and> roster_ok now rd' \<and>
    (\<forall>mac r'. dget (roster_of owner rd') mac = Some r' \<longrightarrow> r_nac r' =
      (case ms_approved m of Some ms \<Rightarrow> Some (mac \<in> set ms)
       | None \<Rightarrow> (case dget (roster_of owner rd) mac of None \<Rightarrow> None | Some r \<Rightarrow> r_nac r)))"
proof -
  obtain obs sources where ds: "discover (re_text env) (\<lambda>drv. re_registry env drv \<noteq> None) (re_outcomes env)
      (client_sources (re_registry env) owner d) = (obs, sources)" by fastforce
  let ?merged = "resolve_missing_hostnames (re_resolver env) (merge_observations obs)"
  let ?sc = "scan_for (re_limits env) now (ms_approved m) (aliases_by_mac m ?merged) True (Some sources)"
  have r: "record_observations ?sc owner ?merged (Some sources) (Some (ms_info m)) rd = (res, rd')"
    using assms(3) unfolding refresh_def ds assms(4) by (simp add: Let_def)
  have now: "sc_now ?sc = now" and ap: "sc_approved ?sc = ms_approved m" by (simp_all add: scan_for_def)
  from record_observations_ok [OF assms(1) _ r] assms(2) now have ok: "roster_ok now rd'" "\<not> is_error res" by auto
  have "r_nac r' = (case ms_approved m of Some ms \<Rightarrow> Some (mac \<in> set ms)
       | None \<Rightarrow> (case dget (roster_of owner rd) mac of None \<Rightarrow> None | Some r \<Rightarrow> r_nac r))"
    if "dget (roster_of owner rd') mac = Some r'" for mac r'
    using record_after_nac [of ?sc "normalized_clients ?merged" mac "dget (roster_of owner rd) mac" r']
      record_observations_get(1) [OF assms(1) r, of mac] that unfolding ap by simp
  with ok show ?thesis by blast
qed

section \<open>What a failed read does\<close>

text \<open>
  The driver answers a read that failed with an empty member list, so the membership counts as
  available and empty: a refresh then marks every client of the owner as blocked, although the
  roster is meant to keep the known status when the membership is not available.
\<close>

lemma unreadable_alias_reads_empty: "\<not> answers api (AliasUuidOf name) \<Longrightarrow> nac_members api name f = []"
  by (simp add: nac_members_def alias_uuid_def)

lemma unreadable_alias_blocks_everyone:
  assumes "nac_device owner d = Some v" and "dv_nac v = Some c" and "re_conn env = None" and "re_registry env (dv_driver v) \<noteq> None"
    and "\<not> answers (re_api env) (AliasUuidOf (nx_alias c))"
    and "roster_ok T rd" and "T \<le> now" and "refresh env now owner d f rd = (res, rd')"
    and "dget (roster_of owner rd') mac = Some r'"
  shows "r_nac r' = Some False"
proof -
  let ?m = "discovery_membership (re_registry env) (re_conn env) (re_api env) owner d f"
  have "ms_approved ?m = Some []"
    using assms(1-5) by (simp add: discovery_membership_def unreadable_alias_reads_empty approved_macs_def)
  then show ?thesis
    using record_observations_get(1) [OF assms(6)] record_after_nac assms(8,9)
    unfolding refresh_def Let_def by (auto simp: scan_for_def split: prod.splits)
qed

text \<open>
  Approval compares canonical addresses, revocation compares the text of the entry: an entry
  written with dashes counts as approved and a revocation of that client reports success and
  leaves it approved.
\<close>

lemma revoke_other_notation:
  "let f = [(''u'', \<lparr>fa_name = ''n'', fa_type = ''mac'', fa_description = [], fa_enabled = True, fa_content = Lines ''AA-BB-CC-DD-EE-FF''\<rparr>)];
       api = \<lparr>answers = (\<lambda>_. True), saves = (\<lambda>_ _. True)\<rparr> in
   nac_set_member api ''n'' ''AA:BB:CC:DD:EE:FF'' False f = (Inr (''AA:BB:CC:DD:EE:FF'', False), f) \<and>
   approved_macs (map Some (nac_members api ''n'' f)) = [''AA:BB:CC:DD:EE:FF'']"
  by code_simp

section \<open>A concrete firewall\<close>

definition demo_api :: fw_api where
  "demo_api = \<lparr>answers = (\<lambda>_. True), saves = (\<lambda>_ _. True)\<rparr>"

definition demo_fw :: firewall where
  "demo_fw = [(''u1'', \<lparr>fa_name = ''allow'', fa_type = ''mac'', fa_description = [], fa_enabled = True,
     fa_content = Lines ''AA:BB:CC:DD:EE:FF''\<rparr>)]"

definition demo_nac :: nac_config where
  "demo_nac = \<lparr>nx_alias = ''allow'', nx_alias_uuid = Some ''u1'', nx_alias_type = Some ''mac'', nx_mode = ''managed'',
     nx_interface = Some ''lan'', nx_pass = Some ''p'', nx_block = Some ''b'', nx_enabled = True, nx_external = False,
     nx_managed = [\<lparr>ma_uuid = ''u2'', ma_name = ''kids'', ma_type = ''host''\<rparr>], nx_dns = None\<rparr>"

definition demo_nac_doc :: device_doc where
  "demo_nac_doc = demo_devices\<lparr>dd_devices := [(''a'', (demo_device ''a'' ''c1'' 0 [])\<lparr>dv_nac := Some demo_nac\<rparr>)]\<rparr>"

definition demo_env :: refresh_env where
  "demo_env = \<lparr>re_text = (\<lambda>_. []), re_registry = demo_registry, re_outcomes = (\<lambda>_. [Rows []]), re_resolver = (\<lambda>_. []),
     re_conn = None, re_api = demo_api, re_limits = demo_limits\<rparr>"

lemma demo_readable: "readable demo_api ''allow'' demo_fw"
proof -
  have "list_all clean_entry (parse_members (Lines ''AA:BB:CC:DD:EE:FF''))" by code_simp
  then show ?thesis by (simp add: readable_def demo_api_def demo_fw_def)
qed

lemma demo_alias: "require_alias ''a'' demo_nac_doc = Inr ''allow''"
  by (simp add: require_alias_def demo_nac_doc_def nac_alias_of_def demo_nac_def some_nonempty_def)

theorem nac_approve_many_exact_witness:
  "list_of demo_api ''allow'' (snd (nac_approve_many demo_registry None demo_api ''a'' [Some ''11:22:33:44:55:66''] True demo_nac_doc demo_fw))
     = {''AA:BB:CC:DD:EE:FF'', ''11:22:33:44:55:66''}"
proof -
  have ok: "\<not> is_error (fst (nac_approve_many demo_registry None demo_api ''a'' [Some ''11:22:33:44:55:66''] True demo_nac_doc demo_fw))"
    by code_simp
  have l: "nac_members demo_api ''allow'' demo_fw = [''AA:BB:CC:DD:EE:FF'']"
    "map upper (map normal_mac [Some ''11:22:33:44:55:66'']) = [''11:22:33:44:55:66'']" by code_simp+
  have "list_of demo_api ''allow'' (snd (nac_approve_many demo_registry None demo_api ''a'' [Some ''11:22:33:44:55:66''] True demo_nac_doc demo_fw))
      = edit_set True (list_of demo_api ''allow'' demo_fw) (map normal_mac [Some ''11:22:33:44:55:66''])"
    using nac_approve_many_exact [OF demo_alias demo_readable prod.collapse [symmetric]] ok by blast
  also have "\<dots> = {''AA:BB:CC:DD:EE:FF'', ''11:22:33:44:55:66''}"
    unfolding edit_set_def list_of_def l by auto
  finally show ?thesis .
qed

theorem edit_membership_only_managed_witness:
  "dget (snd (edit_membership None demo_api ''u'' (Some ''11:22:33:44:55:66'') ''10.0.0.9'' [(''u1'', True)] None demo_nac_doc demo_fw)) ''u1''
     = dget demo_fw ''u1''"
proof (rule edit_membership_only_managed [OF prod.collapse [symmetric]])
  show "\<forall>v c. nac_device ''u'' demo_nac_doc = Some v \<longrightarrow> dv_nac v = Some c \<longrightarrow> ''u1'' \<notin> ma_uuid ` set (nx_managed c)"
    by (simp add: nac_device_def demo_nac_doc_def demo_nac_def demo_device_def nac_alias_of_def some_nonempty_def)
qed

theorem refresh_nac_status_witness:
  "\<not> is_error (fst (refresh demo_env 900 ''u'' demo_nac_doc demo_fw (demo_roster demo_record)))"
proof -
  have "(100::int) \<le> 900" by simp
  from refresh_nac_status [OF demo_roster_ok [OF demo_record_ok(1)] this prod.collapse [symmetric] refl, of demo_env "''u''" demo_nac_doc demo_fw]
  show ?thesis by blast
qed

end
