(* ===== verification/History.thy ===== *)
theory History
  imports Devices
begin

text \<open>
  Per-device history: \<open>backend/history.py\<close>, with the append of one poll's samples from
  \<open>backend/poller.py\<close> (\<open>_append_history\<close>). A history file either parses to an object whose keys
  may be missing or does not parse. The write protocol has its faults as arguments; the clock
  is an argument.
\<close>

section \<open>Series\<close>

text \<open>\<open>HistoryPoint.to_wire\<close>: time and value.\<close>

type_synonym point = "int \<times> json"

record if_series =
  ih_name :: string
  ih_rx :: "point list"
  ih_tx :: "point list"

record history_doc =
  h_history :: "(string, point list) dict"
  h_if :: "(string, if_series) dict"
  h_long :: "(string, point list) dict"
  h_online :: "point list"

definition history_max :: nat where "history_max = 120"

definition online_max :: nat where "online_max = 1440"

definition long_interval :: int where "long_interval = 300"

definition long_max :: nat where "long_max = 2016"

definition range_window :: "string \<Rightarrow> int option" where
  "range_window rng = (if rng = ''24h'' then Some (24 * 3600)
     else if rng = ''7d'' then Some (7 * 24 * 3600) else None)"

section \<open>Files\<close>

record raw_history =
  rw_history :: "(string, point list) dict option"
  rw_if :: "(string, if_series) dict option"
  rw_long :: "(string, point list) dict option"
  rw_online :: "point list option"

datatype history_file = Unparsable | Object raw_history

definition or_empty :: "'a list option \<Rightarrow> 'a list" where
  "or_empty x = (case x of None \<Rightarrow> [] | Some xs \<Rightarrow> xs)"

definition default_doc :: history_doc where
  "default_doc = \<lparr>h_history = [], h_if = [], h_long = [], h_online = []\<rparr>"

record history_disk =
  hd_files :: "(string, history_file) dict"
  hd_temps :: nat

definition load_history :: "string \<Rightarrow> history_disk \<Rightarrow> history_doc" where
  "load_history dev_id k = (case dget (hd_files k) dev_id of
     Some (Object raw) \<Rightarrow> \<lparr>h_history = or_empty (rw_history raw), h_if = or_empty (rw_if raw),
       h_long = or_empty (rw_long raw), h_online = or_empty (rw_online raw)\<rparr>
   | _ \<Rightarrow> default_doc)"

definition raw_of :: "history_doc \<Rightarrow> raw_history" where
  "raw_of doc = \<lparr>rw_history = Some (h_history doc), rw_if = Some (h_if doc),
     rw_long = Some (h_long doc), rw_online = Some (h_online doc)\<rparr>"

text \<open>
  What can go wrong in \<open>_write_locked\<close>: a system call raises, or \<open>os.write\<close> returns after fewer
  bytes than it was given. The handler closes the descriptor and removes the temporary file; a
  descriptor that was closed before makes the second \<open>os.close\<close> raise, so the removal after it
  is not reached and that error is what the caller sees.
\<close>

datatype write_fault = NoFault | MkstempFails | WriteFails | ShortWrite | CloseFails | ReplaceFails

definition write_file :: "write_fault \<Rightarrow> string \<Rightarrow> raw_history \<Rightarrow> history_disk \<Rightarrow> unit result \<times> history_disk" where
  "write_file fault dev_id raw k = (case fault of
     NoFault \<Rightarrow> (Inr (), k\<lparr>hd_files := dput dev_id (Object raw) (hd_files k)\<rparr>)
   | ShortWrite \<Rightarrow> (Inr (), k\<lparr>hd_files := dput dev_id Unparsable (hd_files k)\<rparr>)
   | MkstempFails \<Rightarrow> (Inl (RuntimeError ''mkstemp''), k)
   | WriteFails \<Rightarrow> (Inl (RuntimeError ''write''), k)
   | CloseFails \<Rightarrow> (Inl (RuntimeError ''Bad file descriptor''), k\<lparr>hd_temps := Suc (hd_temps k)\<rparr>)
   | ReplaceFails \<Rightarrow> (Inl (RuntimeError ''Bad file descriptor''), k\<lparr>hd_temps := Suc (hd_temps k)\<rparr>))"

definition save_history :: "write_fault \<Rightarrow> string \<Rightarrow> raw_history \<Rightarrow> history_disk \<Rightarrow> unit result \<times> history_disk" where
  "save_history fault dev_id raw k = write_file fault dev_id raw k"

definition update_history ::
  "write_fault \<Rightarrow> string \<Rightarrow> (history_doc \<Rightarrow> history_doc \<times> 'a) \<Rightarrow> history_disk \<Rightarrow> 'a result \<times> history_disk" where
  "update_history fault dev_id mutator k =
     (let (doc, res) = mutator (load_history dev_id k) in
      case write_file fault dev_id (raw_of doc) k of
        (Inl e, k') \<Rightarrow> (Inl e, k') | (Inr _, k') \<Rightarrow> (Inr res, k'))"

definition delete_history :: "string \<Rightarrow> history_disk \<Rightarrow> history_disk" where
  "delete_history dev_id k = k\<lparr>hd_files := ddel dev_id (hd_files k)\<rparr>"

definition series :: "string \<Rightarrow> string \<Rightarrow> string option \<Rightarrow> int \<Rightarrow> history_disk \<Rightarrow> point list" where
  "series dev_id key rng now k =
     (let doc = load_history dev_id k in
      case range_window (or_empty rng) of
        Some window \<Rightarrow> filter (\<lambda>p. now - window \<le> fst p) (dget_or (h_long doc) key [])
      | None \<Rightarrow> dget_or (h_history doc) key [])"

section \<open>Appending one poll\<close>

record if_sample =
  if_name :: string
  if_rx :: "json option"
  if_tx :: "json option"

record poll_samples =
  sm_ts :: int
  sm_values :: "(string, json) dict"
  sm_if :: "(string, if_sample) dict"
  sm_online :: bool

definition append_capped :: "nat \<Rightarrow> point \<Rightarrow> point list \<Rightarrow> point list" where
  "append_capped cap p xs = keep_last cap (xs @ [p])"

definition long_due :: "int \<Rightarrow> point list \<Rightarrow> bool" where
  "long_due ts xs \<longleftrightarrow> xs = [] \<or> long_interval \<le> ts - fst (last xs)"

definition append_long :: "point \<Rightarrow> point list \<Rightarrow> point list" where
  "append_long p xs = (if long_due (fst p) xs then append_capped long_max p xs else xs)"

fun append_values :: "int \<Rightarrow> (string \<times> json) list \<Rightarrow> history_doc \<Rightarrow> history_doc" where
  "append_values ts [] doc = doc"
| "append_values ts ((k, v) # rest) doc = append_values ts rest
     (doc\<lparr>h_history := dput k (append_capped history_max (ts, v) (dget_or (h_history doc) k [])) (h_history doc),
          h_long := dput k (append_long (ts, v) (dget_or (h_long doc) k [])) (h_long doc)\<rparr>)"

definition append_opt :: "int \<Rightarrow> json option \<Rightarrow> point list \<Rightarrow> point list" where
  "append_opt ts v xs = (case v of None \<Rightarrow> xs | Some x \<Rightarrow> append_capped history_max (ts, x) xs)"

definition append_if :: "int \<Rightarrow> if_sample \<Rightarrow> if_series \<Rightarrow> if_series" where
  "append_if ts s rec = \<lparr>ih_name = if_name s, ih_rx = append_opt ts (if_rx s) (ih_rx rec),
     ih_tx = append_opt ts (if_tx s) (ih_tx rec)\<rparr>"

fun append_ifs :: "int \<Rightarrow> (string \<times> if_sample) list \<Rightarrow> (string, if_series) dict \<Rightarrow> (string, if_series) dict" where
  "append_ifs ts [] ifh = ifh"
| "append_ifs ts ((dvc, s) # rest) ifh = append_ifs ts rest
     (dput dvc (append_if ts s (dget_or ifh dvc \<lparr>ih_name = if_name s, ih_rx = [], ih_tx = []\<rparr>)) ifh)"

definition append_mut :: "poll_samples \<Rightarrow> history_doc \<Rightarrow> history_doc" where
  "append_mut s doc =
     (let d1 = doc\<lparr>h_online := append_capped online_max (sm_ts s, JInt (if sm_online s then 1 else 0)) (h_online doc)\<rparr>;
          d2 = append_values (sm_ts s) (sm_values s) d1
      in d2\<lparr>h_if := append_ifs (sm_ts s) (sm_if s) (h_if d2)\<rparr>)"

definition append_history :: "write_fault \<Rightarrow> string \<Rightarrow> poll_samples \<Rightarrow> history_disk \<Rightarrow> unit result \<times> history_disk" where
  "append_history fault dev_id s k = update_history fault dev_id (\<lambda>doc. (append_mut s doc, ())) k"

section \<open>Moving embedded history out of the store\<close>

record legacy_device =
  lg_history :: "(string, point list) dict option"
  lg_if :: "(string, if_series) dict option"

definition legacy_free :: legacy_device where
  "legacy_free = \<lparr>lg_history = None, lg_if = None\<rparr>"

definition carries_legacy :: "legacy_device \<Rightarrow> bool" where
  "carries_legacy v \<longleftrightarrow> lg_history v \<noteq> None \<or> lg_if v \<noteq> None"

definition legacy_raw :: "legacy_device \<Rightarrow> raw_history" where
  "legacy_raw v = \<lparr>rw_history = Some (or_empty (lg_history v)), rw_if = Some (or_empty (lg_if v)),
     rw_long = None, rw_online = None\<rparr>"

text \<open>The mutator of the store: the new document, the files still to write, the moved ids.\<close>

definition migrate_mut :: "history_disk \<Rightarrow> (string, legacy_device) dict
    \<Rightarrow> (string, legacy_device) dict \<times> (string, raw_history) dict \<times> string list" where
  "migrate_mut k devs =
     (let legacy = filter (\<lambda>(i, v). carries_legacy v) devs in
      (dmap (\<lambda>_. legacy_free) devs,
       map (\<lambda>(i, v). (i, legacy_raw v)) (filter (\<lambda>(i, v). dget (hd_files k) i = None) legacy),
       map fst legacy))"

fun save_all :: "(string \<times> raw_history) list \<Rightarrow> history_disk \<Rightarrow> history_disk" where
  "save_all [] k = k"
| "save_all ((i, raw) # rest) k = save_all rest (snd (save_history NoFault i raw k))"

text \<open>A process that stops after the store was written and \<open>n\<close> files were saved.\<close>

definition migrate_stopped :: "nat \<Rightarrow> (string, legacy_device) dict \<times> history_disk \<Rightarrow> (string, legacy_device) dict \<times> history_disk" where
  "migrate_stopped n st = (let (devs, k) = st; (devs', to_save, moved) = migrate_mut k devs in
     (devs', save_all (take n to_save) k))"

definition migrate_from_store :: "(string, legacy_device) dict \<times> history_disk
    \<Rightarrow> string list \<times> (string, legacy_device) dict \<times> history_disk" where
  "migrate_from_store st = (let (devs, k) = st; (devs', to_save, moved) = migrate_mut k devs in
     (moved, devs', save_all to_save k))"

section \<open>Capped series and reference series\<close>

lemma keep_last_twice: "m \<le> n \<Longrightarrow> keep_last m (keep_last n xs) = keep_last m xs"
proof -
  assume "m \<le> n"
  then have "length xs - (length xs - n) - m + (length xs - n) = length xs - m" by arith
  then show ?thesis by (simp add: keep_last_def)
qed

lemma keep_last_keep_last_snoc: "keep_last n (keep_last n xs @ [p]) = keep_last n (xs @ [p])"
proof (cases n)
  case 0
  then show ?thesis by (simp add: keep_last_def)
next
  case (Suc m)
  then show ?thesis by (simp add: keep_last_snoc keep_last_twice)
qed

text \<open>The thinned series without a cap: a point is kept when the last kept one is old enough.\<close>

definition thin_step :: "point \<Rightarrow> point list \<Rightarrow> point list" where
  "thin_step p xs = (if long_due (fst p) xs then xs @ [p] else xs)"

definition thin :: "point list \<Rightarrow> point list" where
  "thin pts = fold thin_step pts []"

lemma thin_snoc: "thin (pts @ [p]) = thin_step p (thin pts)"
  by (simp add: thin_def)

lemma long_max_pos [simp]: "0 < long_max"
  by (simp add: long_max_def)

lemma long_due_keep_last [simp]: "long_due ts (keep_last long_max xs) = long_due ts xs"
proof (cases "xs = []")
  case False
  then have "length xs - long_max < length xs" by simp
  then have "keep_last long_max xs \<noteq> []" by (simp add: keep_last_def)
  with False show ?thesis by (simp add: long_due_def last_keep_last)
qed simp

lemma append_long_keep_last: "append_long p (keep_last long_max xs) = keep_last long_max (thin_step p xs)"
  by (simp add: append_long_def append_capped_def thin_step_def keep_last_keep_last_snoc)

declare dget_or_dput [simp]

lemma append_values_history:
  "distinct (map fst vs) \<Longrightarrow> dget_or (h_history (append_values ts vs doc)) k [] = (case dget vs k of
      None \<Rightarrow> dget_or (h_history doc) k []
    | Some v \<Rightarrow> append_capped history_max (ts, v) (dget_or (h_history doc) k []))"
proof (induction ts vs doc rule: append_values.induct)
  case (2 ts k' v rest doc)
  then have "dget rest k' = None" by (simp add: dget_None_iff)
  with 2 show ?case by (cases "dget rest k") auto
qed simp

lemma append_values_long:
  "distinct (map fst vs) \<Longrightarrow> dget_or (h_long (append_values ts vs doc)) k [] = (case dget vs k of
      None \<Rightarrow> dget_or (h_long doc) k []
    | Some v \<Rightarrow> append_long (ts, v) (dget_or (h_long doc) k []))"
proof (induction ts vs doc rule: append_values.induct)
  case (2 ts k' v rest doc)
  then have "dget rest k' = None" by (simp add: dget_None_iff)
  with 2 show ?case by (cases "dget rest k") auto
qed simp

lemma append_values_online [simp]:
  "h_online (append_values ts vs doc) = h_online doc" "h_if (append_values ts vs doc) = h_if doc"
  by (induction ts vs doc rule: append_values.induct) simp_all

section \<open>What a sequence of polls leaves\<close>

definition run_polls :: "poll_samples list \<Rightarrow> history_doc" where
  "run_polls polls = fold append_mut polls default_doc"

definition points_of :: "string \<Rightarrow> poll_samples list \<Rightarrow> point list" where
  "points_of key polls = concat (map (\<lambda>s. case dget (sm_values s) key of None \<Rightarrow> [] | Some v \<Rightarrow> [(sm_ts s, v)]) polls)"

definition online_points :: "poll_samples list \<Rightarrow> point list" where
  "online_points polls = map (\<lambda>s. (sm_ts s, JInt (if sm_online s then 1 else 0))) polls"

lemma run_polls_snoc: "run_polls (polls @ [s]) = append_mut s (run_polls polls)"
  by (simp add: run_polls_def)

lemma append_mut_fields [simp]:
  "h_online (append_mut s doc) = append_capped online_max (sm_ts s, JInt (if sm_online s then 1 else 0)) (h_online doc)"
  "h_history (append_mut s doc) = h_history (append_values (sm_ts s) (sm_values s)
     (doc\<lparr>h_online := append_capped online_max (sm_ts s, JInt (if sm_online s then 1 else 0)) (h_online doc)\<rparr>))"
  "h_long (append_mut s doc) = h_long (append_values (sm_ts s) (sm_values s)
     (doc\<lparr>h_online := append_capped online_max (sm_ts s, JInt (if sm_online s then 1 else 0)) (h_online doc)\<rparr>))"
  by (simp_all add: append_mut_def Let_def)

lemma run_polls_series:
  assumes "list_all (\<lambda>s. dict_ok (sm_values s)) polls"
  shows "dget_or (h_history (run_polls polls)) key [] = keep_last history_max (points_of key polls)"
    and "dget_or (h_long (run_polls polls)) key [] = keep_last long_max (thin (points_of key polls))"
    and "h_online (run_polls polls) = keep_last online_max (online_points polls)"
  using assms
proof (induction polls rule: rev_induct)
  case Nil
  { case 1 show ?case by (simp add: run_polls_def default_doc_def points_of_def dget_or_def) }
  { case 2 show ?case by (simp add: run_polls_def default_doc_def points_of_def dget_or_def thin_def) }
  { case 3 show ?case by (simp add: run_polls_def default_doc_def online_points_def) }
next
  case (snoc s polls)
  { case 1
    with snoc(1) show ?case
      by (simp add: run_polls_snoc append_values_history append_capped_def keep_last_keep_last_snoc
          points_of_def split: option.split) }
  { case 2
    with snoc(2) show ?case
      by (simp add: run_polls_snoc append_values_long append_long_keep_last thin_snoc
          points_of_def split: option.split) }
  { case 3
    with snoc(3) show ?case
      by (simp add: run_polls_snoc append_capped_def keep_last_keep_last_snoc online_points_def) }
qed

section \<open>The thinned series\<close>

lemma thin_spaced:
  "i \<le> j \<Longrightarrow> j < length (thin pts) \<Longrightarrow> fst (thin pts ! i) + long_interval * int (j - i) \<le> fst (thin pts ! j)"
proof (induction pts arbitrary: i j rule: rev_induct)
  case Nil
  then show ?case by (simp add: thin_def)
next
  case (snoc p pts)
  show ?case
  proof (cases "long_due (fst p) (thin pts) \<and> j = length (thin pts) \<and> i < j")
    case False
    with snoc.prems have "i = j \<or> j < length (thin pts)"
      by (auto simp: thin_snoc thin_step_def split: if_splits)
    with snoc.IH [of i j] snoc.prems show ?thesis
      by (auto simp: thin_snoc thin_step_def nth_append)
  next
    case True
    then have ne: "thin pts \<noteq> []" by auto
    let ?l = "length (thin pts) - 1"
    from True ne have due: "fst (thin pts ! ?l) + long_interval \<le> fst p"
      by (simp add: long_due_def last_conv_nth)
    from True ne have "i \<le> ?l" "?l < length (thin pts)" by auto
    then have "fst (thin pts ! i) + long_interval * int (?l - i) \<le> fst (thin pts ! ?l)"
      by (rule snoc.IH)
    moreover from True have "int (j - i) = int (?l - i) + 1" by simp
    ultimately show ?thesis using True due
      by (simp add: thin_snoc thin_step_def nth_append algebra_simps)
  qed
qed

lemma thin_dropped_old:
  assumes "p \<in> set (thin pts)" and "p \<notin> set (keep_last long_max (thin pts))"
  shows "fst p + 7 * 24 * 3600 \<le> fst (last (thin pts))"
proof -
  from assms(1) obtain i where i: "i < length (thin pts)" "thin pts ! i = p" by (auto simp: in_set_conv_nth)
  let ?l = "length (thin pts) - 1" and ?n = "length (thin pts) - long_max"
  have "i < ?n"
  proof (rule ccontr)
    assume "\<not> i < ?n"
    with i have "drop ?n (thin pts) ! (i - ?n) = p" "i - ?n < length (drop ?n (thin pts))" by simp_all
    then have "p \<in> set (drop ?n (thin pts))" by (metis nth_mem)
    with assms(2) show False by (simp add: keep_last_def)
  qed
  then have gap: "int long_max \<le> int (?l - i)" by simp
  from i thin_spaced [of i ?l pts] have "fst p + long_interval * int (?l - i) \<le> fst (thin pts ! ?l)" by simp
  moreover have "thin pts ! ?l = last (thin pts)"
    using assms(1) last_conv_nth [of "thin pts"] by fastforce
  ultimately show ?thesis using gap by (simp add: long_interval_def long_max_def)
qed

lemma thin_subset: "set (thin pts) \<subseteq> set pts"
  by (induction pts rule: rev_induct) (auto simp: thin_snoc thin_step_def thin_def)

lemma thin_represents:
  "sorted (map fst pts) \<Longrightarrow> p \<in> set pts \<Longrightarrow>
   \<exists>q \<in> set (thin pts). fst q \<le> fst p \<and> fst p < fst q + long_interval"
proof (induction pts rule: rev_induct)
  case Nil
  then show ?case by simp
next
  case (snoc x pts)
  from snoc.prems(1) have srt: "sorted (map fst pts)" and le: "fst q \<le> fst x" if "q \<in> set pts" for q
    using that by (auto simp: sorted_append)
  show ?case
  proof (cases "p = x")
    case False
    with snoc show ?thesis by (auto simp: sorted_append thin_snoc thin_step_def)
  next
    case True
    show ?thesis
    proof (cases "long_due (fst x) (thin pts)")
      case due: True
      with True show ?thesis by (simp add: thin_snoc thin_step_def long_interval_def)
    next
      case False
      then have "thin pts \<noteq> []" and near: "fst x < fst (last (thin pts)) + long_interval"
        by (auto simp: long_due_def)
      then have "last (thin pts) \<in> set (thin pts)" by simp
      with thin_subset le have "fst (last (thin pts)) \<le> fst x" by blast
      with False near \<open>last (thin pts) \<in> set (thin pts)\<close> True show ?thesis
        by (auto simp: thin_snoc thin_step_def)
    qed
  qed
qed

lemma points_of_mem:
  "(t, v) \<in> set (points_of key polls) \<longleftrightarrow> (\<exists>s \<in> set polls. sm_ts s = t \<and> dget (sm_values s) key = Some v)"
proof (induction polls)
  case (Cons s polls)
  then show ?case by (cases "dget (sm_values s) key") (auto simp: points_of_def)
qed (simp add: points_of_def)

lemma points_of_sorted: "sorted (map sm_ts polls) \<Longrightarrow> sorted (map fst (points_of key polls))"
  by (induction polls rule: rev_induct)
    (auto simp: points_of_def sorted_append split: option.splits)

section \<open>Polls written to the file\<close>

definition poll_files :: "string \<Rightarrow> poll_samples list \<Rightarrow> history_disk \<Rightarrow> history_disk" where
  "poll_files dev_id polls k = fold (\<lambda>s k. snd (append_history NoFault dev_id s k)) polls k"

lemma load_raw_of: "load_history dev_id (k\<lparr>hd_files := dput dev_id (Object (raw_of doc)) fs\<rparr>) = doc"
  by (simp add: load_history_def raw_of_def or_empty_def)

lemma load_other: "i \<noteq> dev_id \<Longrightarrow> load_history i (k\<lparr>hd_files := dput dev_id f (hd_files k)\<rparr>) = load_history i k"
  by (simp add: load_history_def)

lemma load_temps [simp]: "load_history i (k\<lparr>hd_temps := n\<rparr>) = load_history i k"
  by (simp add: load_history_def)

lemma append_history_load: "load_history dev_id (snd (append_history NoFault dev_id s k)) = append_mut s (load_history dev_id k)"
  by (simp add: append_history_def update_history_def write_file_def load_raw_of)

lemma poll_files_load: "dget (hd_files k) dev_id = None \<Longrightarrow> load_history dev_id (poll_files dev_id polls k) = run_polls polls"
  by (induction polls rule: rev_induct)
    (simp_all add: poll_files_def run_polls_def append_history_load load_history_def [of _ k])

lemma update_history_faults:
  assumes "update_history fault dev_id f k = (res, k')" and "fault \<noteq> ShortWrite"
  shows "case res of
      Inl e \<Rightarrow> load_history i k' = load_history i k
    | Inr x \<Rightarrow> load_history i k' = (if i = dev_id then fst (f (load_history dev_id k)) else load_history i k)"
  using assms by (cases fault)
    (auto simp: update_history_def write_file_def load_raw_of load_other split: prod.splits)

text \<open>
  A write that stores fewer bytes than it was given is installed as the file: the call reports
  success and the history of the device is gone.
\<close>

lemma short_write_loses_history:
  "fst (append_history ShortWrite dev_id s k) = Inr () \<and>
   load_history dev_id (snd (append_history ShortWrite dev_id s k)) = default_doc"
  by (simp add: append_history_def update_history_def write_file_def load_history_def)

text \<open>A failed rename leaves its temporary file behind and reports another error.\<close>

lemma failed_rename_leaks_temp:
  "append_history ReplaceFails dev_id s k =
   (Inl (RuntimeError ''Bad file descriptor''), k\<lparr>hd_temps := Suc (hd_temps k)\<rparr>)"
  by (simp add: append_history_def update_history_def write_file_def)

section \<open>Migration\<close>

lemma save_all_get:
  "distinct (map fst xs) \<Longrightarrow> dget (hd_files (save_all xs k)) i =
    (case dget xs i of None \<Rightarrow> dget (hd_files k) i | Some raw \<Rightarrow> Some (Object raw))"
proof (induction xs k rule: save_all.induct)
  case (2 j raw rest k)
  then have "dget rest j = None" by (simp add: dget_None_iff)
  with 2 show ?case by (cases "dget rest i") (auto simp: save_history_def write_file_def)
qed simp

lemma migrate_mut_to_save:
  assumes "dict_ok devs"
  shows "dget (fst (snd (migrate_mut k devs))) i = (case dget devs i of
      None \<Rightarrow> None
    | Some v \<Rightarrow> if carries_legacy v \<and> dget (hd_files k) i = None then Some (legacy_raw v) else None)"
    and "distinct (map fst (fst (snd (migrate_mut k devs))))"
proof -
  let ?P = "\<lambda>i v. carries_legacy v \<and> dget (hd_files k) i = None"
  have eq: "fst (snd (migrate_mut k devs)) = dmap legacy_raw (dfilter ?P devs)"
    by (induction devs) (auto simp: migrate_mut_def dmap_def dfilter_def)
  show "distinct (map fst (fst (snd (migrate_mut k devs))))"
    unfolding eq using assms by simp
  show "dget (fst (snd (migrate_mut k devs))) i = (case dget devs i of
      None \<Rightarrow> None
    | Some v \<Rightarrow> if carries_legacy v \<and> dget (hd_files k) i = None then Some (legacy_raw v) else None)"
    unfolding eq using assms by (simp add: dget_dfilter split: option.split)
qed

lemma migrate_exact:
  assumes "dict_ok devs" and "migrate_from_store (devs, k) = (moved, devs', k')"
  shows "dget devs' i = map_option (\<lambda>_. legacy_free) (dget devs i)"
    and "dget (hd_files k') i = (case dget (hd_files k) i of
      Some f \<Rightarrow> Some f
    | None \<Rightarrow> (case dget devs i of
        Some v \<Rightarrow> if carries_legacy v then Some (Object (legacy_raw v)) else None | None \<Rightarrow> None))"
    and "migrate_from_store (devs', k') = ([], devs', k')"
proof -
  have eqs: "devs' = dmap (\<lambda>_. legacy_free) devs" "k' = save_all (fst (snd (migrate_mut k devs))) k"
    using assms(2) by (auto simp: migrate_from_store_def migrate_mut_def Let_def)
  show "dget devs' i = map_option (\<lambda>_. legacy_free) (dget devs i)" by (simp add: eqs)
  show "dget (hd_files k') i = (case dget (hd_files k) i of
      Some f \<Rightarrow> Some f
    | None \<Rightarrow> (case dget devs i of
        Some v \<Rightarrow> if carries_legacy v then Some (Object (legacy_raw v)) else None | None \<Rightarrow> None))"
    unfolding eqs save_all_get [OF migrate_mut_to_save(2) [OF assms(1)]] migrate_mut_to_save(1) [OF assms(1)]
    by (auto split: option.splits)
  have none: "filter (\<lambda>(i, v). carries_legacy v) devs' = []"
    unfolding eqs by (auto simp: dmap_def carries_legacy_def legacy_free_def filter_empty_conv)
  have same: "dmap (\<lambda>_. legacy_free) devs' = devs'" unfolding eqs by (simp add: dmap_def split_def)
  show "migrate_from_store (devs', k') = ([], devs', k')"
    by (simp add: migrate_from_store_def migrate_mut_def none same del: filter_filter)
qed

text \<open>
  A process that stops between the write of the store and the write of the files has lost the
  embedded history: it is in neither place, and the next start finds nothing to move.
\<close>

lemma interrupted_migration_loses:
  assumes "migrate_stopped 0 (devs, k) = (devs', k')"
  shows "k' = k" and "fst (migrate_from_store (devs', k')) = []"
proof -
  from assms have eqs: "devs' = dmap (\<lambda>_. legacy_free) devs" "k' = k"
    by (simp_all add: migrate_stopped_def migrate_mut_def Let_def)
  then show "k' = k" by simp
  have "filter (\<lambda>(i, v). carries_legacy v) devs' = []"
    unfolding eqs by (auto simp: dmap_def carries_legacy_def legacy_free_def filter_empty_conv)
  then show "fst (migrate_from_store (devs', k')) = []"
    by (simp add: migrate_from_store_def migrate_mut_def)
qed

section \<open>Properties\<close>

text \<open>
  Trimming after every poll gives the same series as trimming once at the end.
  After any sequence of polls the recent series of a sensor is the last 120 samples taken of it,
  the long series the last 2016 of its five-minute samples, the availability strip the last
  1440 polls; a range of the chart is the long series cut at the start of the window.
\<close>

theorem history_series_exact:
  assumes "dget (hd_files k) dev_id = None" and "list_all (\<lambda>s. dict_ok (sm_values s)) polls"
  shows "series dev_id key None now (poll_files dev_id polls k) = keep_last 120 (points_of key polls) \<and>
    series dev_id key (Some ''24h'') now (poll_files dev_id polls k) =
      filter (\<lambda>p. now - 86400 \<le> fst p) (keep_last 2016 (thin (points_of key polls))) \<and>
    series dev_id key (Some ''7d'') now (poll_files dev_id polls k) =
      filter (\<lambda>p. now - 604800 \<le> fst p) (keep_last 2016 (thin (points_of key polls))) \<and>
    h_online (load_history dev_id (poll_files dev_id polls k)) = keep_last 1440 (online_points polls)"
  using run_polls_series [OF assms(2)] poll_files_load [OF assms(1), of polls]
  by (simp add: series_def range_window_def or_empty_def history_max_def long_max_def online_max_def)

text \<open>
  The long series covers the whole week. For every sample taken within the seven
  days before now (less one five-minute step) the chart of the week has a point that was taken
  at most five minutes before it: the cap of 2016 points never cuts into the window.
\<close>

theorem long_window_complete:
  assumes "dget (hd_files k) dev_id = None" and "list_all (\<lambda>s. dict_ok (sm_values s)) polls"
    and "sorted (map sm_ts polls)" and "list_all (\<lambda>s. sm_ts s \<le> now) polls"
    and "s \<in> set polls" and "dget (sm_values s) key = Some v" and "now - 604800 + 300 \<le> sm_ts s"
  shows "\<exists>t w. (t, w) \<in> set (series dev_id key (Some ''7d'') now (poll_files dev_id polls k)) \<and>
    t \<le> sm_ts s \<and> sm_ts s < t + 300"
proof -
  let ?pts = "points_of key polls"
  from assms(5,6) have "(sm_ts s, v) \<in> set ?pts" by (auto simp: points_of_mem)
  from thin_represents [OF points_of_sorted [OF assms(3)] this]
  obtain q where q: "q \<in> set (thin ?pts)" "fst q \<le> sm_ts s" "sm_ts s < fst q + 300"
    by (auto simp: long_interval_def)
  from q(1) have ne: "thin ?pts \<noteq> []" by auto
  obtain tl vl where l: "last (thin ?pts) = (tl, vl)" by (cases "last (thin ?pts)")
  with ne have "(tl, vl) \<in> set (thin ?pts)" by (metis last_in_set)
  with thin_subset have "(tl, vl) \<in> set ?pts" by blast
  with assms(4) have "tl \<le> now" by (auto simp: points_of_mem list_all_iff)
  with thin_dropped_old [OF q(1)] q(3) assms(7) l have "q \<in> set (keep_last long_max (thin ?pts))"
    by fastforce
  moreover have "now - 604800 \<le> fst q" using q(3) assms(7) by simp
  ultimately have "(fst q, snd q) \<in> set (series dev_id key (Some ''7d'') now (poll_files dev_id polls k))"
    using run_polls_series(2) [OF assms(2), of key] poll_files_load [OF assms(1), of polls]
    by (simp add: series_def range_window_def or_empty_def)
  with q show ?thesis by blast
qed

section \<open>Witnesses\<close>

definition demo_poll :: "int \<Rightarrow> int \<Rightarrow> poll_samples" where
  "demo_poll ts v = \<lparr>sm_ts = ts, sm_values = [(''cpu'', JInt v)], sm_if = [], sm_online = True\<rparr>"

definition demo_disk :: history_disk where
  "demo_disk = \<lparr>hd_files = [(''d9'', Unparsable)], hd_temps = 0\<rparr>"

theorem history_series_exact_witness:
  "series ''d1'' ''cpu'' (Some ''24h'') 1000 (poll_files ''d1'' [demo_poll 400 1, demo_poll 460 2, demo_poll 700 3] demo_disk)
   = [(400, JInt 1), (700, JInt 3)]"
proof -
  have "filter (\<lambda>p. 1000 - 86400 \<le> fst p) (keep_last 2016 (thin (points_of ''cpu'' [demo_poll 400 1, demo_poll 460 2, demo_poll 700 3])))
    = [(400, JInt 1), (700, JInt 3)]" by code_simp
  with history_series_exact [of demo_disk "''d1''" "[demo_poll 400 1, demo_poll 460 2, demo_poll 700 3]" "''cpu''" 1000]
  show ?thesis by (simp add: demo_disk_def demo_poll_def)
qed

theorem long_window_complete_witness:
  "\<exists>t w. (t, w) \<in> set (series ''d1'' ''cpu'' (Some ''7d'') 1000 (poll_files ''d1'' [demo_poll 400 1, demo_poll 460 2] demo_disk)) \<and>
    t \<le> 460 \<and> 460 < t + 300"
  using long_window_complete [of demo_disk "''d1''" "[demo_poll 400 1, demo_poll 460 2]" 1000 "demo_poll 460 2" "''cpu''" "JInt 2"]
  by (simp add: demo_disk_def demo_poll_def)

end
