(* ===== verification/Push.thy ===== *)
theory Push
  imports Discovery Transact
begin

text \<open>
  Notifications and push subscriptions: \<open>backend/push.py\<close>. The collections of the document the
  module touches are a record; fresh identifiers, the clock, the answers of the push provider
  and the derivation of a public key from a private one are arguments.
\<close>

section \<open>Subscriptions and notifications\<close>

record push_sub =
  sb_user :: string
  sb_subscription :: doc
  sb_created :: int

record notification =
  nt_id :: string
  nt_user :: string
  nt_title :: string
  nt_body :: string
  nt_category :: string
  nt_data :: doc
  nt_created :: int
  nt_read :: "int option"
  nt_dismissed :: "int option"

record push_doc =
  pd_users :: "(string, string) dict"
  pd_subs :: "(string, push_sub) dict"
  pd_notes :: "(string, notification) dict"

record push_limits =
  pl_subs :: nat
  pl_notes :: nat

definition push_limits_of_env :: "int \<Rightarrow> int \<Rightarrow> push_limits" where
  "push_limits_of_env subs ns = \<lparr>pl_subs = nat (max 1 subs), pl_notes = nat (max 20 ns)\<rparr>"

text \<open>A time stamp counts when it is there and not zero.\<close>

definition stamped :: "int option \<Rightarrow> bool" where
  "stamped t = (case t of None \<Rightarrow> False | Some n \<Rightarrow> n \<noteq> 0)"

definition endpoint_of :: "doc \<Rightarrow> string" where
  "endpoint_of sub = (case getn sub ''endpoint'' of JStr s \<Rightarrow> s | _ \<Rightarrow> [])"

definition endpoint_required :: failure where
  "endpoint_required = ValueError ''subscription.endpoint required''"

definition overflow_subs :: "nat \<Rightarrow> string \<Rightarrow> string \<Rightarrow> (string, push_sub) dict \<Rightarrow> string list" where
  "overflow_subs cap user endpoint subs =
     (let owned = filter (\<lambda>(k, v). sb_user v = user \<and> k \<noteq> endpoint) subs in
      take (length owned + 1 - cap) (map snd (sort_key id (map (\<lambda>(k, v). (sb_created v, k)) owned))))"

definition subscribe_mut :: "push_limits \<Rightarrow> int \<Rightarrow> string \<Rightarrow> string \<Rightarrow> doc \<Rightarrow> push_doc \<Rightarrow> (push_doc \<times> unit) result" where
  "subscribe_mut lm now user endpoint sub d =
     (let subs = dput endpoint \<lparr>sb_user = user, sb_subscription = sub, sb_created = now\<rparr> (pd_subs d)
      in Inr (d\<lparr>pd_subs := ddel_all (overflow_subs (pl_subs lm) user endpoint subs) subs\<rparr>, ()))"

definition subscribe :: "push_limits \<Rightarrow> int \<Rightarrow> string \<Rightarrow> doc option \<Rightarrow> push_doc \<Rightarrow> unit result \<times> push_doc" where
  "subscribe lm now user subscription d =
     (let sub = (case subscription of None \<Rightarrow> [] | Some s \<Rightarrow> s); endpoint = endpoint_of sub in
      if endpoint = [] then (Inl endpoint_required, d)
      else transact (subscribe_mut lm now user endpoint sub) d)"

definition unsubscribe_mut :: "string \<Rightarrow> string \<Rightarrow> push_doc \<Rightarrow> (push_doc \<times> bool) result" where
  "unsubscribe_mut user endpoint d = (case dget (pd_subs d) endpoint of
     Some r \<Rightarrow> if sb_user r = user then Inr (d\<lparr>pd_subs := ddel endpoint (pd_subs d)\<rparr>, True) else Inr (d, False)
   | None \<Rightarrow> Inr (d, False))"

definition unsubscribe :: "string \<Rightarrow> string \<Rightarrow> push_doc \<Rightarrow> bool result \<times> push_doc" where
  "unsubscribe user endpoint d =
     (if endpoint = [] then (Inl endpoint_required, d) else transact (unsubscribe_mut user endpoint) d)"

definition subscription_status :: "string \<Rightarrow> push_doc \<Rightarrow> bool \<times> nat" where
  "subscription_status user d =
     (let n = length (filter (\<lambda>v. sb_user v = user) (dvals (pd_subs d))) in (n > 0, n))"

definition remove_endpoints :: "string list \<Rightarrow> push_doc \<Rightarrow> push_doc" where
  "remove_endpoints endpoints d = d\<lparr>pd_subs := ddel_all endpoints (pd_subs d)\<rparr>"

text \<open>The owner and every administrator.\<close>

definition recipients_for_device :: "string \<Rightarrow> push_doc \<Rightarrow> string list" where
  "recipients_for_device owner d =
     filter (\<lambda>i. i \<noteq> []) (remdups (owner # map fst (filter (\<lambda>(u, r). r = ''admin'') (pd_users d))))"

section \<open>Categories\<close>

definition contains :: "string \<Rightarrow> string \<Rightarrow> bool" where
  "contains sub s \<longleftrightarrow> (\<exists>n \<in> set [0..<length s + 1]. take (length sub) (drop n s) = sub)"

definition alert_category :: "string \<Rightarrow> string" where
  "alert_category key =
     (if contains ''cpu'' key then ''high_cpu''
      else if key \<in> set [''mem'', ''memory'', ''mem_used'', ''mem_used_pct''] \<or> contains ''memory'' key then ''high_memory''
      else if list_ex (\<lambda>w. contains w key) [''storage'', ''disk'', ''pool'', ''capacity''] then ''storage_warning''
      else ''alert'')"

definition notification_category :: "(json \<Rightarrow> string) \<Rightarrow> string \<Rightarrow> string \<Rightarrow> doc \<Rightarrow> string" where
  "notification_category r title body data =
     (let field = (\<lambda>k. lower (strip (str_or_empty r (getn data k))));
          explicit = field ''category''; event_type = field ''type''; key = field ''key'';
          text = lower (title @ '' '' @ body) in
      if explicit \<noteq> [] then take 80 explicit
      else if event_type = ''offline'' then ''host_offline''
      else if event_type = ''online'' then ''host_online''
      else if event_type = ''alert'' then alert_category key
      else if event_type \<in> set [''available_updates'', ''updates''] \<or> contains ''updates'' text then ''available_updates''
      else if event_type = ''backup_failure'' \<or> contains ''backup'' text \<and> contains ''fail'' text then ''backup_failure''
      else if event_type \<noteq> [] then take 80 event_type else ''general'')"

section \<open>Durable notifications\<close>

definition unread :: "notification \<Rightarrow> bool" where
  "unread n \<longleftrightarrow> \<not> stamped (nt_read n) \<and> \<not> stamped (nt_dismissed n)"

definition unread_count :: "string \<Rightarrow> (string, notification) dict \<Rightarrow> nat" where
  "unread_count user ns = length (filter (\<lambda>n. nt_user n = user \<and> unread n) (dvals ns))"

record message =
  ms_title :: string
  ms_body :: string
  ms_data :: doc

definition new_notification :: "(json \<Rightarrow> string) \<Rightarrow> int \<Rightarrow> message \<Rightarrow> string \<Rightarrow> string \<Rightarrow> notification" where
  "new_notification r now m user i = \<lparr>nt_id = i, nt_user = user,
     nt_title = take 300 (if ms_title m = [] then ''HomelabHQ'' else ms_title m), nt_body = take 2000 (ms_body m),
     nt_category = notification_category r (ms_title m) (ms_body m) (ms_data m), nt_data = ms_data m,
     nt_created = now, nt_read = None, nt_dismissed = None\<rparr>"

text \<open>The order of eviction: what was read or dismissed first, then the oldest.\<close>

definition evict_rank :: "notification \<Rightarrow> bool \<times> int \<times> string" where
  "evict_rank n = (unread n, nt_created n, nt_id n)"

definition owned_by :: "string \<Rightarrow> (string, notification) dict \<Rightarrow> notification list" where
  "owned_by user ns = filter (\<lambda>n. nt_user n = user) (dvals ns)"

definition evicted :: "nat \<Rightarrow> string \<Rightarrow> (string, notification) dict \<Rightarrow> notification list" where
  "evicted cap user ns =
     (let owned = sort_key evict_rank (owned_by user ns) in take (length owned - cap) owned)"

definition evict :: "nat \<Rightarrow> string \<Rightarrow> (string, notification) dict \<Rightarrow> (string, notification) dict" where
  "evict cap user ns = ddel_all (map nt_id (evicted cap user ns)) ns"

definition recipients_of :: "string list option \<Rightarrow> push_doc \<Rightarrow> string list" where
  "recipients_of user_ids d = sort (remdups (case user_ids of
     None \<Rightarrow> dkeys (pd_users d) | Some us \<Rightarrow> filter (\<lambda>u. u \<in> set (dkeys (pd_users d))) us))"

definition persist_mut :: "(json \<Rightarrow> string) \<Rightarrow> push_limits \<Rightarrow> int \<Rightarrow> (string \<Rightarrow> string) \<Rightarrow> string list option \<Rightarrow> message
    \<Rightarrow> push_doc \<Rightarrow> (push_doc \<times> (string, string \<times> nat) dict) result" where
  "persist_mut r lm now fresh user_ids m d =
     (let recipients = recipients_of user_ids d;
          added = fold (\<lambda>u ns. dput (fresh u) (new_notification r now m u (fresh u)) ns) recipients (pd_notes d);
          kept = fold (evict (pl_notes lm)) recipients added
      in Inr (d\<lparr>pd_notes := kept\<rparr>, map (\<lambda>u. (u, fresh u, unread_count u kept)) recipients))"

definition persist_notifications where
  "persist_notifications r lm now fresh user_ids m d = transact (persist_mut r lm now fresh user_ids m) d"

definition newest_first :: "notification list \<Rightarrow> notification list" where
  "newest_first ns = rev (sort_key (\<lambda>n. (nt_created n, nt_id n)) (rev ns))"

text \<open>\<open>None\<close> is a limit that is not an integer.\<close>

definition notification_center :: "string \<Rightarrow> int option \<Rightarrow> push_doc \<Rightarrow> (notification list \<times> nat) result" where
  "notification_center user lim_arg d = (case lim_arg of
     None \<Rightarrow> Inl (ValueError ''notification limit must be an integer'')
   | Some l \<Rightarrow>
       (let shown = newest_first (filter (\<lambda>n. nt_user n = user \<and> \<not> stamped (nt_dismissed n)) (dvals (pd_notes d)));
            unr = filter (\<lambda>n. \<not> stamped (nt_read n)) shown;
            recent = take (nat (max 1 (min 100 l))) (filter (\<lambda>n. stamped (nt_read n)) shown);
            selected = unr @ filter (\<lambda>n. n \<notin> set unr) recent
        in Inr (newest_first selected, length unr)))"

definition or_stamp :: "int option \<Rightarrow> int \<Rightarrow> int option" where
  "or_stamp t now = (if stamped t then t else Some now)"

definition own_notification :: "string \<Rightarrow> string \<Rightarrow> push_doc \<Rightarrow> notification option" where
  "own_notification user i d = (case dget (pd_notes d) i of
     Some n \<Rightarrow> if nt_user n = user then Some n else None | None \<Rightarrow> None)"

definition mark_read_mut :: "int \<Rightarrow> string \<Rightarrow> string \<Rightarrow> push_doc \<Rightarrow> (push_doc \<times> (notification \<times> nat) option) result" where
  "mark_read_mut now user i d = (case own_notification user i d of
     None \<Rightarrow> Inr (d, None)
   | Some n \<Rightarrow> (let n' = n\<lparr>nt_read := or_stamp (nt_read n) now\<rparr>; ns = dput i n' (pd_notes d) in
       Inr (d\<lparr>pd_notes := ns\<rparr>, Some (n', unread_count user ns))))"

definition mark_notification_read where
  "mark_notification_read now user i d = transact (mark_read_mut now user i) d"

definition dismiss_mut :: "int \<Rightarrow> string \<Rightarrow> string \<Rightarrow> push_doc \<Rightarrow> (push_doc \<times> (string \<times> nat) option) result" where
  "dismiss_mut now user i d = (case own_notification user i d of
     None \<Rightarrow> Inr (d, None)
   | Some n \<Rightarrow> (let n' = n\<lparr>nt_read := or_stamp (nt_read n) now, nt_dismissed := or_stamp (nt_dismissed n) now\<rparr>;
         ns = dput i n' (pd_notes d) in
       Inr (d\<lparr>pd_notes := ns\<rparr>, Some (i, unread_count user ns))))"

definition dismiss_notification where
  "dismiss_notification now user i d = transact (dismiss_mut now user i) d"

definition mark_all_mut :: "int \<Rightarrow> string \<Rightarrow> push_doc \<Rightarrow> (push_doc \<times> nat) result" where
  "mark_all_mut now user d =
     (let ns = dmap (\<lambda>n. if nt_user n = user \<and> unread n then n\<lparr>nt_read := Some now\<rparr> else n) (pd_notes d)
      in Inr (d\<lparr>pd_notes := ns\<rparr>, unread_count user ns))"

definition mark_all_notifications_read where
  "mark_all_notifications_read now user d = transact (mark_all_mut now user) d"

section \<open>Delivery\<close>

text \<open>
  What the provider answers for one endpoint: accepted, gone for good (404 or 410), rejected
  with another status, any other exception.
\<close>

datatype delivery = Accepted | Gone | Rejected "int option" | Broken

record delivery_report =
  dr_sent :: nat
  dr_removed :: nat
  dr_failed :: nat
  dr_persisted :: nat
  dr_unread :: "nat option"
  dr_error :: "string option"

definition delivery_error :: "delivery \<Rightarrow> string option" where
  "delivery_error x = (case x of
     Rejected (Some c) \<Rightarrow> Some (if c \<noteq> 0 then ''push provider rejected delivery ('' @ str_of_int c @ '')''
                                else ''push provider rejected delivery'')
   | Rejected None \<Rightarrow> Some ''push provider rejected delivery''
   | Broken \<Rightarrow> Some ''push delivery failed''
   | _ \<Rightarrow> None)"

fun last_error :: "delivery list \<Rightarrow> string option \<Rightarrow> string option" where
  "last_error [] e = e"
| "last_error (x # xs) e = last_error xs (case delivery_error x of None \<Rightarrow> e | Some m \<Rightarrow> Some m)"

definition deliver :: "bool \<Rightarrow> (string \<Rightarrow> push_sub \<Rightarrow> delivery) \<Rightarrow> (string, push_sub) dict \<Rightarrow> nat \<times> nat \<times> string list \<times> string option" where
  "deliver ready send subs =
     (if subs \<noteq> [] \<and> \<not> ready then (0, length subs, [], Some ''push delivery could not be initialized'')
      else (let results = map (\<lambda>(e, v). (e, send e v)) subs in
        (length (filter (\<lambda>x. snd x = Accepted) results),
         length (filter (\<lambda>x. delivery_error (snd x) \<noteq> None) results),
         map fst (filter (\<lambda>x. snd x = Gone) results), last_error (map snd results) None)))"

definition notify :: "(json \<Rightarrow> string) \<Rightarrow> push_limits \<Rightarrow> int \<Rightarrow> (string \<Rightarrow> string) \<Rightarrow> bool \<Rightarrow> (string \<Rightarrow> push_sub \<Rightarrow> delivery)
    \<Rightarrow> string list option \<Rightarrow> message \<Rightarrow> push_doc \<Rightarrow> delivery_report result \<times> push_doc" where
  "notify r lm now fresh ready send user_ids m d = (case persist_notifications r lm now fresh user_ids m d of
     (Inl e, d') \<Rightarrow> (Inl e, d')
   | (Inr created, d') \<Rightarrow>
       (let subs = dfilter (\<lambda>_ v. case user_ids of None \<Rightarrow> True | Some us \<Rightarrow> sb_user v \<in> set us) (pd_subs d');
            (sent, failed, dead, err) = deliver ready send subs;
            d'' = (if dead = [] then d' else remove_endpoints dead d')
        in (Inr \<lparr>dr_sent = sent, dr_removed = length dead, dr_failed = failed, dr_persisted = length created,
              dr_unread = (case created of [(u, i, c)] \<Rightarrow> Some c | _ \<Rightarrow> None), dr_error = err\<rparr>, d'')))"

record push_metrics =
  pm_attempts :: nat
  pm_sent :: nat
  pm_failures :: nat
  pm_last_attempt :: "int option"
  pm_last_failure :: "int option"
  pm_last_error :: "string option"

definition record_delivery :: "(string \<Rightarrow> string) \<Rightarrow> int \<Rightarrow> delivery_report \<Rightarrow> push_metrics \<Rightarrow> push_metrics" where
  "record_delivery redact now rep m =
     (let failed = dr_failed rep + dr_removed rep;
          m1 = m\<lparr>pm_attempts := pm_attempts m + 1, pm_sent := pm_sent m + dr_sent rep,
                 pm_failures := pm_failures m + failed, pm_last_attempt := Some now\<rparr>
      in if failed > 0
         then m1\<lparr>pm_last_failure := Some now, pm_last_error := Some (redact
                 (case dr_error rep of None \<Rightarrow> ''subscription removed'' | Some e \<Rightarrow> if e = [] then ''subscription removed'' else e))\<rparr>
         else m1)"

section \<open>The key pair of the server\<close>

record vapid_files =
  vf_private :: "string option"
  vf_public :: "string option"

definition vapid_error :: "string \<Rightarrow> failure" where
  "vapid_error what = RuntimeError (''VAPID keypair '' @ what @ ''; restore both files from backup'')"

text \<open>\<open>derive\<close> reads a private key and gives its public key, \<open>None\<close> when it is not a key of the curve.\<close>

definition read_vapid_pair :: "(string \<Rightarrow> string option) \<Rightarrow> vapid_files \<Rightarrow> string option result" where
  "read_vapid_pair derive f = (case (vf_private f, vf_public f) of
     (None, None) \<Rightarrow> Inr None
   | (Some p, Some q) \<Rightarrow> (case derive p of
       None \<Rightarrow> Inl (vapid_error ''is invalid'')
     | Some q' \<Rightarrow> if strip q \<noteq> q' then Inl (vapid_error ''does not match'') else Inr (Some (strip q)))
   | _ \<Rightarrow> Inl (vapid_error ''is incomplete''))"

datatype vapid_step = WritePrivate | WritePublic | LinkPrivate | LinkPublic | SyncDir

definition vapid_fault :: "vapid_step option \<Rightarrow> vapid_step \<Rightarrow> bool" where
  "vapid_fault fault s \<longleftrightarrow> fault = Some s"

definition os_error :: failure where "os_error = RuntimeError ''OSError''"

text \<open>
  Publication: both candidates are complete before the first path is linked; when the second
  link fails the first is taken back. A link never replaces a file.
\<close>

definition publish_vapid_pair :: "vapid_step option \<Rightarrow> string \<Rightarrow> string \<Rightarrow> vapid_files \<Rightarrow> unit result \<times> vapid_files" where
  "publish_vapid_pair fault pem pub f =
     (if vapid_fault fault WritePrivate \<or> vapid_fault fault WritePublic then (Inl os_error, f)
      else if vapid_fault fault LinkPrivate \<or> vf_private f \<noteq> None then (Inl os_error, f)
      else if vapid_fault fault LinkPublic \<or> vf_public f \<noteq> None then (Inl os_error, f\<lparr>vf_private := None\<rparr>)
      else if vapid_fault fault SyncDir then (Inl os_error, f\<lparr>vf_private := Some pem, vf_public := Some pub\<rparr>)
      else (Inr (), f\<lparr>vf_private := Some pem, vf_public := Some pub\<rparr>))"

definition ensure_vapid :: "(string \<Rightarrow> string option) \<Rightarrow> vapid_step option \<Rightarrow> string \<times> string \<Rightarrow> vapid_files \<Rightarrow> unit result \<times> vapid_files" where
  "ensure_vapid derive fault pair f = (case read_vapid_pair derive f of
     Inl e \<Rightarrow> (Inl e, f)
   | Inr (Some _) \<Rightarrow> (Inr (), f)
   | Inr None \<Rightarrow> (case publish_vapid_pair fault (fst pair) (snd pair) f of
       (Inl e, f') \<Rightarrow> (Inl e, f')
     | (Inr _, f') \<Rightarrow> (rbind (read_vapid_pair derive f') (\<lambda>_. Inr ()), f')))"

definition public_key :: "(string \<Rightarrow> string option) \<Rightarrow> vapid_step option \<Rightarrow> string \<times> string \<Rightarrow> vapid_files \<Rightarrow> string result \<times> vapid_files" where
  "public_key derive fault pair f = (case ensure_vapid derive fault pair f of
     (Inl e, f') \<Rightarrow> (Inl e, f')
   | (Inr _, f') \<Rightarrow> (case vf_public f' of None \<Rightarrow> Inl os_error | Some q \<Rightarrow> Inr (strip q), f'))"

section \<open>Eviction\<close>

definition notes_ok :: "(string, notification) dict \<Rightarrow> bool" where
  "notes_ok ns \<longleftrightarrow> dict_all (\<lambda>k n. nt_id n = k) ns"

lemma notes_ok_vals: "notes_ok ns \<Longrightarrow> map nt_id (dvals ns) = dkeys ns"
  by (auto simp: notes_ok_def dest: dict_all_mem)

lemma notes_ok_dput: "notes_ok ns \<Longrightarrow> nt_id n = k \<Longrightarrow> notes_ok (dput k n ns)"
  unfolding notes_ok_def by (rule dict_all_dput)

lemma notes_ok_ddel_all [simp]: "notes_ok ns \<Longrightarrow> notes_ok (ddel_all ks ns)"
  unfolding notes_ok_def by (rule dict_all_ddel_all)

lemma notes_ok_evict [simp]: "notes_ok ns \<Longrightarrow> notes_ok (evict cap u ns)"
  by (simp add: evict_def)

lemma ddel_all_filter: "ddel_all ks d = filter (\<lambda>kv. fst kv \<notin> set ks) d"
  by (induction ks arbitrary: d) (auto simp: AList.delete_eq split_def intro: filter_cong)

lemma owned_by_ddel_all:
  assumes "notes_ok ns"
  shows "owned_by u (ddel_all ks ns) = filter (\<lambda>n. nt_id n \<notin> set ks) (owned_by u ns)"
proof -
  have "fst kv = nt_id (snd kv)" if "kv \<in> set ns" for kv
    using assms that by (cases kv) (auto simp: notes_ok_def dest: dict_all_mem)
  then show ?thesis
    unfolding owned_by_def ddel_all_filter filter_map filter_filter
    by (intro arg_cong [where f = "map snd"] filter_cong) auto
qed

lemma owned_by_ids:
  assumes "notes_ok ns"
  shows "distinct (map nt_id (owned_by u ns))"
    and "n \<in> set (owned_by u ns) \<Longrightarrow> n' \<in> set (owned_by u' ns) \<Longrightarrow> nt_id n = nt_id n' \<Longrightarrow> n = n'"
proof -
  from assms have d: "distinct (map nt_id (dvals ns))"
    unfolding notes_ok_vals [OF assms] by (simp add: notes_ok_def dict_all_def)
  then show "distinct (map nt_id (owned_by u ns))"
    unfolding owned_by_def by (rule distinct_map_filter)
  assume "n \<in> set (owned_by u ns)" "n' \<in> set (owned_by u' ns)" "nt_id n = nt_id n'"
  moreover have "inj_on nt_id (set (dvals ns))" using d by (simp only: distinct_map)
  ultimately show "n = n'" unfolding owned_by_def set_filter by (auto dest: inj_onD simp del: set_map)
qed

lemma filter_take_drop: "distinct (map f xs) \<Longrightarrow> filter (\<lambda>x. f x \<notin> f ` set (take n xs)) xs = drop n xs"
proof -
  assume d: "distinct (map f xs)"
  then have "distinct (map f (take n xs) @ map f (drop n xs))" by (simp flip: map_append)
  then have "filter (\<lambda>x. f x \<notin> f ` set (take n xs)) (drop n xs) = drop n xs"
    by (auto simp: filter_id_conv)
  then have "filter (\<lambda>x. f x \<notin> f ` set (take n xs)) (take n xs @ drop n xs) = drop n xs"
    unfolding filter_append by (simp add: filter_empty_conv)
  then show ?thesis by simp
qed

lemma evict_owned:
  assumes "notes_ok ns"
  shows "sort_key evict_rank (owned_by u (evict cap u ns)) = keep_last cap (sort_key evict_rank (owned_by u ns))"
proof -
  let ?os = "sort_key evict_rank (owned_by u ns)"
  have d: "distinct (map nt_id ?os)" using owned_by_ids(1) [OF assms, of u] by (simp add: distinct_map)
  have "sort_key evict_rank (owned_by u (evict cap u ns)) =
      filter (\<lambda>n. nt_id n \<notin> nt_id ` set (take (length ?os - cap) ?os)) ?os"
    unfolding evict_def owned_by_ddel_all [OF assms] filter_sort [symmetric] by (simp add: evicted_def Let_def)
  then show ?thesis unfolding filter_take_drop [OF d] keep_last_def .
qed

lemma evict_other:
  assumes "notes_ok ns" and "u' \<noteq> u"
  shows "owned_by u' (evict cap u ns) = owned_by u' ns"
proof -
  have "nt_id n \<notin> set (map nt_id (evicted cap u ns))" if n: "n \<in> set (owned_by u' ns)" for n
  proof
    assume "nt_id n \<in> set (map nt_id (evicted cap u ns))"
    then obtain n' where "n' \<in> set (owned_by u ns)" "nt_id n = nt_id n'"
      by (auto simp: evicted_def Let_def dest!: in_set_takeD)
    with owned_by_ids(2) [OF assms(1) n] have "n \<in> set (owned_by u ns)" by blast
    with n assms(2) show False by (simp add: owned_by_def)
  qed
  then show ?thesis unfolding evict_def owned_by_ddel_all [OF assms(1)] by (simp add: filter_id_conv)
qed

lemma fold_evict:
  "notes_ok ns \<Longrightarrow> distinct us \<Longrightarrow> notes_ok (fold (evict cap) us ns) \<and>
   (if u \<in> set us
    then sort_key evict_rank (owned_by u (fold (evict cap) us ns)) = keep_last cap (sort_key evict_rank (owned_by u ns))
    else owned_by u (fold (evict cap) us ns) = owned_by u ns)"
proof (induction us arbitrary: ns)
  case (Cons v us)
  then have IH: "notes_ok (fold (evict cap) us (evict cap v ns)) \<and>
   (if u \<in> set us
    then sort_key evict_rank (owned_by u (fold (evict cap) us (evict cap v ns))) =
      keep_last cap (sort_key evict_rank (owned_by u (evict cap v ns)))
    else owned_by u (fold (evict cap) us (evict cap v ns)) = owned_by u (evict cap v ns))" by simp
  show ?case
  proof (cases "u = v")
    case True
    with IH Cons.prems show ?thesis by (simp add: evict_owned)
  next
    case False
    with IH Cons.prems show ?thesis by (simp add: evict_other)
  qed
qed simp

section \<open>Adding\<close>

lemma owned_by_add:
  "nt_id n = k \<Longrightarrow> k \<notin> set (dkeys ns) \<Longrightarrow> owned_by u (dput k n ns) = owned_by u ns @ (if nt_user n = u then [n] else [])"
  by (simp add: dput_new owned_by_def del: set_map)

lemma fold_add:
  assumes "notes_ok ns" and "distinct us" and "inj_on fresh (set us)" and "fresh ` set us \<inter> set (dkeys ns) = {}"
    and "\<And>v. nt_id (mk v (fresh v)) = fresh v" and "\<And>v. nt_user (mk v (fresh v)) = v"
  shows "notes_ok (fold (\<lambda>u ns. dput (fresh u) (mk u (fresh u)) ns) us ns) \<and>
    owned_by u (fold (\<lambda>u ns. dput (fresh u) (mk u (fresh u)) ns) us ns) =
      owned_by u ns @ (if u \<in> set us then [mk u (fresh u)] else [])"
  using assms(1-4)
proof (induction us arbitrary: ns)
  case (Cons v us)
  let ?ns = "dput (fresh v) (mk v (fresh v)) ns"
  have ok: "notes_ok ?ns" using Cons.prems(1) assms(5) by (rule notes_ok_dput)
  have "fresh ` set us \<inter> set (dkeys ?ns) = {}"
    using Cons.prems unfolding dkeys_dput by (auto simp: inj_on_def simp del: set_map)
  then have IH: "notes_ok (fold (\<lambda>u ns. dput (fresh u) (mk u (fresh u)) ns) us ?ns) \<and>
    owned_by u (fold (\<lambda>u ns. dput (fresh u) (mk u (fresh u)) ns) us ?ns) =
      owned_by u ?ns @ (if u \<in> set us then [mk u (fresh u)] else [])"
    using Cons.prems by (intro Cons.IH [OF ok]) simp_all
  have "fresh v \<notin> set (dkeys ns)" using Cons.prems(4) by auto
  then have "owned_by u ?ns = owned_by u ns @ (if v = u then [mk v (fresh v)] else [])"
    using owned_by_add [OF assms(5), of v ns u] by (simp add: assms(6) del: set_map)
  with IH Cons.prems(2) show ?case by auto
qed simp

lemma new_notification_ids [simp]:
  "nt_id (new_notification r now m u i) = i" "nt_user (new_notification r now m u i) = u"
  "unread (new_notification r now m u i)"
  by (simp_all add: new_notification_def unread_def stamped_def)

definition fresh_for :: "(string \<Rightarrow> string) \<Rightarrow> string list \<Rightarrow> (string, notification) dict \<Rightarrow> bool" where
  "fresh_for fresh us ns \<longleftrightarrow> distinct (map fresh us) \<and> list_all (\<lambda>u. dget ns (fresh u) = None) us"

lemma recipients_distinct: "distinct (recipients_of us d)"
  by (simp add: recipients_of_def)

lemma persist_owned:
  assumes "notes_ok (pd_notes d)" and "fresh_for fresh (recipients_of user_ids d) (pd_notes d)"
    and "persist_notifications r lm now fresh user_ids m d = (res, d')"
  shows "notes_ok (pd_notes d')" and "pd_subs d' = pd_subs d" and "pd_users d' = pd_users d"
    and "u \<in> set (recipients_of user_ids d) \<Longrightarrow> sort_key evict_rank (owned_by u (pd_notes d')) =
      keep_last (pl_notes lm) (sort_key evict_rank (owned_by u (pd_notes d) @ [new_notification r now m u (fresh u)]))"
    and "u \<notin> set (recipients_of user_ids d) \<Longrightarrow> owned_by u (pd_notes d') = owned_by u (pd_notes d)"
    and "res = Inr (map (\<lambda>u. (u, fresh u, unread_count u (pd_notes d'))) (recipients_of user_ids d))"
proof -
  let ?us = "recipients_of user_ids d"
  let ?add = "fold (\<lambda>u ns. dput (fresh u) (new_notification r now m u (fresh u)) ns) ?us (pd_notes d)"
  from assms(3) have d': "d' = d\<lparr>pd_notes := fold (evict (pl_notes lm)) ?us ?add\<rparr>"
    and res: "res = Inr (map (\<lambda>u. (u, fresh u, unread_count u (pd_notes d'))) ?us)"
    by (auto simp: persist_notifications_def persist_mut_def Let_def transact_def)
  have inj: "inj_on fresh (set ?us)" and disj: "fresh ` set ?us \<inter> set (dkeys (pd_notes d)) = {}"
    using assms(2) by (auto simp: fresh_for_def distinct_map list_all_iff dget_None_iff simp del: set_map)
  note added = fold_add [OF assms(1) recipients_distinct inj disj, of "new_notification r now m" u, simplified]
  note kept = fold_evict [OF added [THEN conjunct1] recipients_distinct, where cap = "pl_notes lm" and u = u]
  show "notes_ok (pd_notes d')" "pd_subs d' = pd_subs d" "pd_users d' = pd_users d"
    and "res = Inr (map (\<lambda>u. (u, fresh u, unread_count u (pd_notes d'))) ?us)"
    using kept res by (simp_all add: d')
  show "sort_key evict_rank (owned_by u (pd_notes d')) =
      keep_last (pl_notes lm) (sort_key evict_rank (owned_by u (pd_notes d) @ [new_notification r now m u (fresh u)]))"
    if "u \<in> set ?us"
    using kept added that by (simp add: d')
  show "owned_by u (pd_notes d') = owned_by u (pd_notes d)" if "u \<notin> set ?us"
    using kept added that by (simp add: d')
qed

section \<open>Subscriptions of one user\<close>

definition sub_count :: "string \<Rightarrow> (string, push_sub) dict \<Rightarrow> nat" where
  "sub_count u subs = length (filter (\<lambda>kv. sb_user (snd kv) = u) subs)"

lemma sub_count_status: "snd (subscription_status u d) = sub_count u (pd_subs d)"
  by (simp add: subscription_status_def sub_count_def filter_map o_def Let_def)

lemma length_filter_notin:
  assumes "distinct ks" and "distinct xs" and "set ks \<subseteq> set xs"
  shows "length (filter (\<lambda>x. x \<notin> set ks) xs) = length xs - length ks"
proof -
  have "length (filter (\<lambda>x. x \<notin> set ks) xs) = card (set xs - set ks)"
    using assms(2) by (metis distinct_card distinct_filter set_diff_eq set_filter)
  with assms show ?thesis by (simp add: card_Diff_subset distinct_card)
qed

lemma length_filter_split: "length (filter P xs) \<le> length (filter (\<lambda>x. P x \<and> \<not> Q x) xs) + length (filter Q xs)"
  by (induction xs) auto

lemma overflow_subs_keys:
  fixes u e :: string
  assumes "dict_ok subs"
  defines "owned \<equiv> filter (\<lambda>kv. sb_user (snd kv) = u \<and> fst kv \<noteq> e) subs"
  shows "distinct (overflow_subs cap u e subs)" and "set (overflow_subs cap u e subs) \<subseteq> set (map fst owned)"
    and "length (overflow_subs cap u e subs) = min (length owned) (length owned + 1 - cap)"
proof -
  have ow: "filter (\<lambda>(k, v). sb_user v = u \<and> k \<noteq> e) subs = owned"
    unfolding owned_def by (simp add: split_def)
  let ?l = "map snd (sort_key id (map (\<lambda>(k, v). (sb_created v, k)) owned))"
  have d: "distinct (map fst owned)" unfolding owned_def using assms(1) by (rule distinct_map_filter)
  have "set ?l = set (map fst owned)" by force
  moreover have "length ?l = length (map fst owned)" by simp
  ultimately have "card (set ?l) = length ?l" using distinct_card [OF d] by simp
  then have "distinct ?l" by (rule card_distinct)
  then show "distinct (overflow_subs cap u e subs)"
    unfolding overflow_subs_def ow Let_def by (rule distinct_take)
  show "set (overflow_subs cap u e subs) \<subseteq> set (map fst owned)"
    unfolding overflow_subs_def ow Let_def by (simp only: \<open>set ?l = set (map fst owned)\<close> [symmetric] set_take_subset)
  show "length (overflow_subs cap u e subs) = min (length owned) (length owned + 1 - cap)"
    unfolding overflow_subs_def ow Let_def by simp
qed

lemma sub_count_ddel_all: "sub_count u (ddel_all ks subs) \<le> sub_count u subs"
  unfolding sub_count_def ddel_all_filter filter_filter
  by (induction subs) auto

lemma sub_count_dput_other: "sb_user v \<noteq> u \<Longrightarrow> sub_count u (dput k v subs) \<le> sub_count u subs"
  by (induction subs) (auto simp: sub_count_def)

lemma dict_ok_one: "dict_ok d \<Longrightarrow> length (filter (\<lambda>kv. fst kv = e) d) \<le> 1"
proof (induction d)
  case (Cons kv d)
  show ?case
  proof (cases "fst kv = e")
    case True
    with Cons.prems have "e \<notin> fst ` set d" by auto
    then have "filter (\<lambda>kv. fst kv = e) d = []" by (force simp: filter_empty_conv)
    with True show ?thesis by simp
  next
    case False
    with Cons show ?thesis by simp
  qed
qed simp

lemma sub_count_subscribed:
  assumes "dict_ok subs" and "dget subs e = Some v" and "sb_user v = u" and "0 < cap"
  shows "sub_count u (ddel_all (overflow_subs cap u e subs) subs) \<le> cap"
proof -
  let ?ks = "overflow_subs cap u e subs"
  let ?owned = "filter (\<lambda>kv. sb_user (snd kv) = u \<and> fst kv \<noteq> e) subs"
  note ks = overflow_subs_keys [OF assms(1), where u = u and e = e and cap = cap]
  have d: "distinct (map fst ?owned)" using assms(1) by (rule distinct_map_filter)
  have "sub_count u (ddel_all ?ks subs) \<le> length (filter (\<lambda>kv. sb_user (snd kv) = u \<and> fst kv \<notin> set ?ks \<and> fst kv \<noteq> e) subs)
      + length (filter (\<lambda>kv. fst kv = e) subs)"
    using length_filter_split [of "\<lambda>kv. fst kv \<notin> set ?ks \<and> sb_user (snd kv) = u" subs "\<lambda>kv. fst kv = e"]
    unfolding sub_count_def ddel_all_filter filter_filter by (simp add: conj_commute conj_left_commute)
  also have "length (filter (\<lambda>kv. fst kv = e) subs) \<le> 1"
    using assms(1) by (rule dict_ok_one)
  also have "length (filter (\<lambda>kv. sb_user (snd kv) = u \<and> fst kv \<notin> set ?ks \<and> fst kv \<noteq> e) subs) =
      length (filter (\<lambda>k. k \<notin> set ?ks) (map fst ?owned))"
    by (simp add: filter_map o_def conj_commute conj_left_commute)
  also have "\<dots> = length ?owned - length ?ks"
    using length_filter_notin [OF ks(1) d ks(2)] by simp
  finally show ?thesis using ks(3) assms(4) by (auto simp: min_def split: if_splits)
qed

section \<open>Operations keep the bounds\<close>

definition push_inv :: "push_limits \<Rightarrow> push_doc \<Rightarrow> bool" where
  "push_inv lm d \<longleftrightarrow> notes_ok (pd_notes d) \<and> dict_ok (pd_subs d) \<and>
     (\<forall>u. length (owned_by u (pd_notes d)) \<le> pl_notes lm) \<and> (\<forall>u. sub_count u (pd_subs d) \<le> pl_subs lm)"

lemma subscribe_inv:
  assumes "push_inv lm d" and "0 < pl_subs lm"
  shows "push_inv lm (snd (subscribe lm now u sub d))"
proof (cases "endpoint_of (case sub of None \<Rightarrow> [] | Some s \<Rightarrow> s) = []")
  case True
  with assms show ?thesis by (simp add: subscribe_def)
next
  case False
  let ?s = "case sub of None \<Rightarrow> [] | Some s \<Rightarrow> s"
  let ?v = "\<lparr>sb_user = u, sb_subscription = ?s, sb_created = now\<rparr>"
  let ?subs = "dput (endpoint_of ?s) ?v (pd_subs d)"
  let ?d = "d\<lparr>pd_subs := ddel_all (overflow_subs (pl_subs lm) u (endpoint_of ?s) ?subs) ?subs\<rparr>"
  have eq: "snd (subscribe lm now u sub d) = ?d"
    using False by (simp add: subscribe_def subscribe_mut_def Let_def transact_def)
  have ok: "dict_ok ?subs" using assms by (simp add: push_inv_def)
  have "sub_count u' (pd_subs ?d) \<le> pl_subs lm" for u'
  proof (cases "u' = u")
    case True
    with sub_count_subscribed [OF ok, of "endpoint_of ?s" ?v u] assms(2) show ?thesis by simp
  next
    case False
    then have "sub_count u' ?subs \<le> sub_count u' (pd_subs d)" by (intro sub_count_dput_other) simp
    with sub_count_ddel_all [of u' _ ?subs] assms(1) show ?thesis
      unfolding push_inv_def by (simp, meson le_trans)
  qed
  with assms ok show ?thesis by (simp add: eq push_inv_def)
qed

lemma remove_subs_inv: "push_inv lm d \<Longrightarrow> push_inv lm (d\<lparr>pd_subs := ddel_all ks (pd_subs d)\<rparr>)"
  unfolding push_inv_def by (simp, meson le_trans sub_count_ddel_all)

lemma unsubscribe_inv: "push_inv lm d \<Longrightarrow> push_inv lm (snd (unsubscribe u e d))"
  using remove_subs_inv [of lm d "[e]"]
  by (simp add: unsubscribe_def unsubscribe_mut_def transact_def split: option.split)

lemma persist_inv:
  assumes "push_inv lm d" and "fresh_for fresh (recipients_of us d) (pd_notes d)"
  shows "push_inv lm (snd (persist_notifications r lm now fresh us m d))"
proof -
  obtain res d' where p: "persist_notifications r lm now fresh us m d = (res, d')"
    by (cases "persist_notifications r lm now fresh us m d")
  from assms have ok: "notes_ok (pd_notes d)" by (simp add: push_inv_def)
  note owned = persist_owned [OF ok assms(2) p]
  have "length (owned_by u (pd_notes d')) \<le> pl_notes lm" for u
  proof (cases "u \<in> set (recipients_of us d)")
    case True
    have "length (sort_key evict_rank (owned_by u (pd_notes d'))) \<le> pl_notes lm"
      unfolding owned(4) [OF True] by simp
    then show ?thesis by simp
  next
    case False
    with owned(5) [OF False] assms(1) show ?thesis by (simp add: push_inv_def)
  qed
  with owned(1,2) assms(1) show ?thesis by (simp add: p push_inv_def)
qed

lemma notify_notes:
  "pd_notes (snd (notify r lm now fresh ready send us m d)) =
     pd_notes (snd (persist_notifications r lm now fresh us m d))"
  by (auto simp: notify_def Let_def remove_endpoints_def split: prod.split sum.split)

lemma notify_subs:
  "\<exists>ks. snd (notify r lm now fresh ready send us m d) =
     (snd (persist_notifications r lm now fresh us m d))\<lparr>pd_subs := ddel_all ks (pd_subs (snd (persist_notifications r lm now fresh us m d)))\<rparr>"
proof -
  obtain res d' where p: "persist_notifications r lm now fresh us m d = (res, d')"
    by (cases "persist_notifications r lm now fresh us m d")
  have "\<exists>ks. d' = d'\<lparr>pd_subs := ddel_all ks (pd_subs d')\<rparr>" by (rule exI [of _ "[]"]) simp
  then show ?thesis
    by (auto simp: notify_def p Let_def remove_endpoints_def split: prod.split sum.split)
qed

lemma notify_inv:
  assumes "push_inv lm d" and "fresh_for fresh (recipients_of us d) (pd_notes d)"
  shows "push_inv lm (snd (notify r lm now fresh ready send us m d))"
  using notify_subs [of r lm now fresh ready send us m d] persist_inv [OF assms, of r now m] remove_subs_inv
  by metis

lemma owned_by_dput_same:
  "dget ns k = Some n \<Longrightarrow> nt_user n' = nt_user n \<Longrightarrow> length (owned_by u (dput k n' ns)) = length (owned_by u ns)"
  by (induction ns) (auto simp: owned_by_def split: if_splits)

lemma stamp_inv:
  assumes "push_inv lm d" and "own_notification u i d = Some n" and "nt_user n' = nt_user n" and "nt_id n' = nt_id n"
  shows "push_inv lm (d\<lparr>pd_notes := dput i n' (pd_notes d)\<rparr>)"
proof -
  from assms(2) have g: "dget (pd_notes d) i = Some n"
    by (auto simp: own_notification_def split: option.splits if_splits)
  with assms have "nt_id n' = i" by (auto simp: push_inv_def notes_ok_def dest: dict_allD)
  with assms(1) owned_by_dput_same [OF g assms(3)] show ?thesis
    by (simp add: push_inv_def notes_ok_dput)
qed

lemma mark_read_inv: "push_inv lm d \<Longrightarrow> push_inv lm (snd (mark_notification_read now u i d))"
  by (auto simp: mark_notification_read_def mark_read_mut_def transact_def Let_def intro!: stamp_inv split: option.split)

lemma dismiss_inv: "push_inv lm d \<Longrightarrow> push_inv lm (snd (dismiss_notification now u i d))"
  by (auto simp: dismiss_notification_def dismiss_mut_def transact_def Let_def intro!: stamp_inv split: option.split)

lemma owned_by_dmap: "(\<And>n. nt_user (f n) = nt_user n) \<Longrightarrow> length (owned_by u (dmap f ns)) = length (owned_by u ns)"
  by (induction ns) (auto simp: owned_by_def dmap_def)

lemma mark_all_inv: "push_inv lm d \<Longrightarrow> push_inv lm (snd (mark_all_notifications_read now u d))"
  by (auto simp: mark_all_notifications_read_def mark_all_mut_def transact_def Let_def push_inv_def owned_by_dmap
      notes_ok_def dict_all_def)

inductive push_step :: "push_limits \<Rightarrow> push_doc \<Rightarrow> push_doc \<Rightarrow> bool" for lm where
  Subscribe: "push_step lm d (snd (subscribe lm now u sub d))"
| Unsubscribe: "push_step lm d (snd (unsubscribe u e d))"
| Notify: "fresh_for fresh (recipients_of us d) (pd_notes d) \<Longrightarrow>
    push_step lm d (snd (notify r lm now fresh ready send us m d))"
| MarkRead: "push_step lm d (snd (mark_notification_read now u i d))"
| Dismiss: "push_step lm d (snd (dismiss_notification now u i d))"
| MarkAll: "push_step lm d (snd (mark_all_notifications_read now u d))"

lemma push_step_inv: "push_step lm d d' \<Longrightarrow> push_inv lm d \<Longrightarrow> 0 < pl_subs lm \<Longrightarrow> push_inv lm d'"
  by (induction rule: push_step.induct)
    (simp_all add: subscribe_inv unsubscribe_inv notify_inv mark_read_inv dismiss_inv mark_all_inv)

section \<open>What delivery and the notification center do\<close>

lemma sorted_dropped_le:
  assumes "sorted (map f xs)" and "x \<in> set xs" and "x \<notin> set (keep_last n xs)" and "y \<in> set (keep_last n xs)"
  shows "f x \<le> f y"
proof -
  let ?k = "length xs - n"
  have "x \<in> set (take ?k xs)" using assms(2,3)
    by (metis Un_iff append_take_drop_id keep_last_def set_append)
  moreover have "sorted (map f (take ?k xs) @ map f (drop ?k xs))" using assms(1) by (simp flip: map_append)
  ultimately show ?thesis using assms(4) by (auto simp: sorted_append keep_last_def)
qed

lemma deliver_dead:
  "dict_ok subs \<Longrightarrow> e \<in> set (fst (snd (snd (deliver ready send subs)))) \<longleftrightarrow>
    ready \<and> (\<exists>v. dget subs e = Some v \<and> send e v = Gone)"
  by (cases "subs = []") (force simp: deliver_def Let_def dget_mem_iff)+

lemma notify_subs_get:
  assumes "dict_ok (pd_subs d)" and "notify r lm now fresh ready send us m d = (res, d')"
  shows "dget (pd_subs d') e = (case dget (pd_subs d) e of None \<Rightarrow> None
    | Some v \<Rightarrow> if (case us of None \<Rightarrow> True | Some xs \<Rightarrow> sb_user v \<in> set xs) \<and> ready \<and> send e v = Gone
               then None else Some v)"
proof -
  obtain created d1 where p: "persist_notifications r lm now fresh us m d = (Inr created, d1)" "pd_subs d1 = pd_subs d"
    by (simp add: persist_notifications_def persist_mut_def Let_def transact_def)
  let ?subs = "dfilter (\<lambda>_ v. case us of None \<Rightarrow> True | Some us \<Rightarrow> sb_user v \<in> set us) (pd_subs d)"
  obtain sent failed dead err where q: "deliver ready send ?subs = (sent, failed, dead, err)"
    by (cases "deliver ready send ?subs")
  have dead: "e \<in> set dead \<longleftrightarrow> ready \<and> (\<exists>v. dget ?subs e = Some v \<and> send e v = Gone)"
    using deliver_dead [of ?subs e ready send] assms(1) q by simp
  have d': "dget (pd_subs d') e = (if e \<in> set dead then None else dget (pd_subs d) e)"
    using assms(2) p q by (auto simp: notify_def Let_def remove_endpoints_def split: if_splits)
  show ?thesis
    unfolding d' dead using assms(1) by (auto simp: dget_dfilter split: option.splits)
qed

lemma newest_first_set [simp]: "set (newest_first ns) = set ns" "length (newest_first ns) = length ns"
  by (simp_all add: newest_first_def)

lemma newest_first_sorted: "sorted_wrt (\<lambda>a b. (nt_created b, nt_id b) \<le> (nt_created a, nt_id a)) (newest_first ns)"
  using sorted_sort_key [of "\<lambda>n. (nt_created n, nt_id n)" "rev ns"]
  unfolding newest_first_def sorted_wrt_rev by (simp add: sorted_map)

lemma newest_first_filter: "length (filter P (newest_first ns)) = length (filter P ns)"
  unfolding newest_first_def rev_filter [symmetric] filter_sort by (simp flip: rev_filter)

section \<open>Properties\<close>

text \<open>
  However the operations of the module follow each other, no user ever has more
  than the configured number of stored notifications or of push subscriptions, and notifications
  stay filed under their identifiers.
\<close>

theorem push_run_bounded:
  assumes "(push_step lm)\<^sup>*\<^sup>* d d'" and "push_inv lm d" and "0 < pl_subs lm"
  shows "notes_ok (pd_notes d') \<and> length (owned_by u (pd_notes d')) \<le> pl_notes lm \<and>
    snd (subscription_status u d') \<le> pl_subs lm"
proof -
  from assms(1) have "push_inv lm d'"
    by (induction rule: rtranclp_induct) (use assms(2,3) push_step_inv in blast)+
  then show ?thesis by (simp add: push_inv_def sub_count_status)
qed

text \<open>
  Property C18: a notification is stored for each known recipient whatever the push provider
  answers, and for nobody else. Each recipient keeps the highest ranking notifications up to the
  limit: an unread one is dropped only when nothing read or dismissed is left and it is the
  oldest. A subscription is removed only when it was addressed and the provider says it is gone.
\<close>

theorem notify_exact:
  assumes "notes_ok (pd_notes d)" and "dict_ok (pd_subs d)"
    and "fresh_for fresh (recipients_of us d) (pd_notes d)"
    and "notify r lm now fresh ready send us m d = (res, d')"
  shows "(u \<in> set (recipients_of us d) \<longrightarrow> sort_key evict_rank (owned_by u (pd_notes d')) =
      keep_last (pl_notes lm) (sort_key evict_rank (owned_by u (pd_notes d) @ [new_notification r now m u (fresh u)]))) \<and>
    (u \<notin> set (recipients_of us d) \<longrightarrow> owned_by u (pd_notes d') = owned_by u (pd_notes d)) \<and>
    (n \<in> set (owned_by u (pd_notes d)) \<and> unread n \<and> n \<notin> set (owned_by u (pd_notes d')) \<longrightarrow>
      list_all (\<lambda>k. unread k \<and> (nt_created n, nt_id n) \<le> (nt_created k, nt_id k)) (owned_by u (pd_notes d'))) \<and>
    dget (pd_subs d') e = (case dget (pd_subs d) e of None \<Rightarrow> None
      | Some v \<Rightarrow> if (case us of None \<Rightarrow> True | Some xs \<Rightarrow> sb_user v \<in> set xs) \<and> ready \<and> send e v = Gone
                 then None else Some v)"
proof -
  let ?p = "persist_notifications r lm now fresh us m d"
  have stored: "pd_notes d' = pd_notes (snd ?p)"
    using notify_notes [of r lm now fresh ready send us m d] assms(4) by simp
  note owned = persist_owned [where r = r and lm = lm and now = now and m = m,
      OF assms(1,3) prod.collapse [symmetric], folded stored]
  have "list_all (\<lambda>k. unread k \<and> (nt_created n, nt_id n) \<le> (nt_created k, nt_id k)) (owned_by u (pd_notes d'))"
    if n: "n \<in> set (owned_by u (pd_notes d))" "unread n" "n \<notin> set (owned_by u (pd_notes d'))"
  proof -
    from n owned(5) have u: "u \<in> set (recipients_of us d)" by metis
    let ?xs = "sort_key evict_rank (owned_by u (pd_notes d) @ [new_notification r now m u (fresh u)])"
    have s: "set (owned_by u (pd_notes d')) = set (keep_last (pl_notes lm) ?xs)"
      using owned(4) [OF u] by (metis set_sort)
    have "evict_rank n \<le> evict_rank k" if "k \<in> set (owned_by u (pd_notes d'))" for k
      by (rule sorted_dropped_le [where n = "pl_notes lm", of _ ?xs]) (use that n s in auto)
    with n(2) show ?thesis by (auto simp: list_all_iff evict_rank_def less_eq_prod_def)
  qed
  with owned(4,5) notify_subs_get [OF assms(2,4)] show ?thesis by blast
qed

text \<open>
  The notification center shows a user all unread notifications of that user, at
  most a hundred read ones, none that were dismissed and none of anybody else, newest first; the
  count it reports is the number of unread ones.
\<close>

theorem notification_center_exact:
  assumes "notification_center u (Some l) d = Inr (shown, c)"
  shows "c = unread_count u (pd_notes d) \<and>
    {n \<in> set shown. unread n} = {n \<in> set (owned_by u (pd_notes d)). unread n} \<and>
    set shown \<subseteq> {n \<in> set (owned_by u (pd_notes d)). \<not> stamped (nt_dismissed n)} \<and>
    length (filter (\<lambda>n. \<not> unread n) shown) \<le> 100 \<and>
    sorted_wrt (\<lambda>a b. (nt_created b, nt_id b) \<le> (nt_created a, nt_id a)) shown"
proof -
  let ?shown = "newest_first (filter (\<lambda>n. nt_user n = u \<and> \<not> stamped (nt_dismissed n)) (dvals (pd_notes d)))"
  let ?unr = "filter (\<lambda>n. \<not> stamped (nt_read n)) ?shown"
  let ?recent = "take (nat (max 1 (min 100 l))) (filter (\<lambda>n. stamped (nt_read n)) ?shown)"
  let ?sel = "?unr @ filter (\<lambda>n. n \<notin> set ?unr) ?recent"
  from assms have eqs: "shown = newest_first ?sel" "c = length ?unr"
    unfolding notification_center_def Let_def option.case by (blast dest: sum.inject(2) [THEN iffD1])+
  have members: "n \<in> set ?shown \<longleftrightarrow> n \<in> set (owned_by u (pd_notes d)) \<and> \<not> stamped (nt_dismissed n)" for n
    by (auto simp: owned_by_def)
  have recent: "n \<in> set ?shown \<and> stamped (nt_read n)" if "n \<in> set ?recent" for n
    using in_set_takeD [OF that] by simp
  have "c = unread_count u (pd_notes d)"
    by (simp add: eqs newest_first_filter unread_count_def unread_def conj_ac)
  moreover have "length (filter (\<lambda>n. \<not> unread n) shown) \<le> 100"
  proof -
    have none: "filter (\<lambda>n. \<not> unread n) ?unr = []" by (auto simp: filter_empty_conv unread_def)
    have "length (filter (\<lambda>n. \<not> unread n) shown) = length (filter (\<lambda>n. \<not> unread n) (filter (\<lambda>n. n \<notin> set ?unr) ?recent))"
      unfolding eqs newest_first_filter filter_append none by simp
    also have "\<dots> \<le> length ?recent" by (rule order.trans [OF length_filter_le length_filter_le])
    also have "\<dots> \<le> 100" by simp
    finally show ?thesis .
  qed
  moreover have "{n \<in> set shown. unread n} = {n \<in> set (owned_by u (pd_notes d)). unread n}"
  proof -
    have "n \<in> set shown \<longleftrightarrow> n \<in> set ?shown" if "unread n" for n
    proof -
      have "n \<notin> set ?recent" using recent that unfolding unread_def by blast
      with that show ?thesis unfolding eqs newest_first_set by (simp add: unread_def)
    qed
    with members show ?thesis unfolding unread_def by blast
  qed
  moreover have "set shown \<subseteq> {n \<in> set (owned_by u (pd_notes d)). \<not> stamped (nt_dismissed n)}"
  proof -
    have "n \<in> set ?shown" if "n \<in> set shown" for n
      using that recent [of n] unfolding eqs newest_first_set set_append set_filter by blast
    with members show ?thesis by blast
  qed
  ultimately show ?thesis using newest_first_sorted [of ?sel, folded eqs(1)] by blast
qed

section \<open>Witnesses\<close>

definition demo_note :: "string \<Rightarrow> int \<Rightarrow> int option \<Rightarrow> notification" where
  "demo_note i t rd = (new_notification (\<lambda>_. []) t \<lparr>ms_title = ''disk'', ms_body = ''full'', ms_data = []\<rparr> ''u'' i)\<lparr>nt_read := rd\<rparr>"

definition demo_push :: push_doc where
  "demo_push = \<lparr>pd_users = [(''u'', ''member'')],
     pd_subs = [(''e1'', \<lparr>sb_user = ''u'', sb_subscription = [], sb_created = 1\<rparr>)],
     pd_notes = [(''n1'', demo_note ''n1'' 3 None), (''n2'', demo_note ''n2'' 4 (Some 5))]\<rparr>"

definition demo_push_limits :: push_limits where
  "demo_push_limits = \<lparr>pl_subs = 1, pl_notes = 2\<rparr>"

definition demo_message :: message where
  "demo_message = \<lparr>ms_title = ''nas'', ms_body = ''offline'', ms_data = [(''type'', JStr ''offline'')]\<rparr>"

lemma demo_notes_ok: "notes_ok (pd_notes demo_push)"
  by (simp add: notes_ok_def dict_all_def demo_push_def demo_note_def)

lemma demo_push_inv: "push_inv demo_push_limits demo_push"
  using demo_notes_ok
  by (simp add: push_inv_def demo_push_def demo_push_limits_def owned_by_def sub_count_def demo_note_def)

theorem push_run_bounded_witness:
  "snd (subscription_status ''u'' (snd (subscribe demo_push_limits 9 ''u'' (Some [(''endpoint'', JStr ''e2'')]) demo_push))) \<le> 1"
proof -
  let ?d = "snd (subscribe demo_push_limits 9 ''u'' (Some [(''endpoint'', JStr ''e2'')]) demo_push)"
  have "(push_step demo_push_limits)\<^sup>*\<^sup>* demo_push ?d" by (rule r_into_rtranclp) (rule Subscribe)
  from push_run_bounded [OF this demo_push_inv, of "''u''"] show ?thesis by (simp add: demo_push_limits_def)
qed

theorem notify_exact_witness:
  "map nt_id (sort_key evict_rank (owned_by ''u'' (pd_notes (snd (notify (\<lambda>_. []) demo_push_limits 9 (\<lambda>_. ''n3'') True (\<lambda>_ _. Gone)
     (Some [''u'']) demo_message demo_push))))) = [''n1'', ''n3'']"
proof -
  let ?n = "notify (\<lambda>_. []) demo_push_limits 9 (\<lambda>_. ''n3'') True (\<lambda>_ _. Gone) (Some [''u'']) demo_message demo_push"
  have f: "fresh_for (\<lambda>_. ''n3'') (recipients_of (Some [''u'']) demo_push) (pd_notes demo_push)"
    by (simp add: fresh_for_def recipients_of_def demo_push_def)
  have u: "''u'' \<in> set (recipients_of (Some [''u'']) demo_push)" by (simp add: recipients_of_def demo_push_def)
  have "map nt_id (keep_last 2 (sort_key evict_rank (owned_by ''u'' (pd_notes demo_push) @
      [new_notification (\<lambda>_. []) 9 demo_message ''u'' ''n3'']))) = [''n1'', ''n3'']" by code_simp
  with notify_exact [OF demo_notes_ok _ f prod.collapse [symmetric], where u = "''u''" and r = "\<lambda>_. []" and lm = demo_push_limits
      and now = 9 and ready = True and send = "\<lambda>_ _. Gone" and m = demo_message, THEN conjunct1, rule_format, OF _ u]
  show ?thesis by (simp add: demo_push_limits_def) (simp add: demo_push_def)
qed

theorem notification_center_exact_witness:
  "snd (projr (notification_center ''u'' (Some 50) demo_push)) = 1 \<and>
   {n \<in> set (fst (projr (notification_center ''u'' (Some 50) demo_push))). unread n} =
     {n \<in> set (owned_by ''u'' (pd_notes demo_push)). unread n}"
proof -
  obtain shown c where sc: "notification_center ''u'' (Some 50) demo_push = Inr (shown, c)"
    by (simp add: notification_center_def Let_def)
  have "unread_count ''u'' (pd_notes demo_push) = 1" by code_simp
  with notification_center_exact [OF sc] show ?thesis by (simp add: sc)
qed

end
