(* ===== verification/Scheduler.thy ===== *)
theory Scheduler
  imports Prelude
begin

text \<open>
  The interval scheduler of \<open>backend/monitoring_scheduler.py\<close>. Every job has a lock and a next
  run time; the scheduler thread starts due jobs on worker threads, a worker releases the lock
  when its runner ends and leaves the set of workers after the result callback. Threads
  interleave at the lock operations, which are the steps of the relation below. Times are
  rationals read from an argument.
\<close>

section \<open>Jobs, workers, the state\<close>

record job =
  jb_interval :: rat
  jb_delay :: rat
  jb_next :: rat
  jb_locked :: bool

record worker =
  wk_id :: nat
  wk_job :: string
  wk_running :: bool

record sched =
  sd_jobs :: "(string, job) dict"
  sd_workers :: "worker list"
  sd_fresh :: nat
  sd_stop :: bool
  sd_results :: "(string \<times> failure option) list"

definition min_interval :: rat where "min_interval = 1 / 100"

definition scheduled_job :: "rat \<Rightarrow> rat \<Rightarrow> job" where
  "scheduled_job interval delay = \<lparr>jb_interval = interval, jb_delay = delay, jb_next = 0, jb_locked = False\<rparr>"

text \<open>A job is given by its name, interval and initial delay.\<close>

definition interval_scheduler :: "(string \<times> rat \<times> rat) list \<Rightarrow> sched" where
  "interval_scheduler jobs = \<lparr>sd_jobs = fold (\<lambda>(n, i, d). dput n (scheduled_job i d)) jobs [], sd_workers = [], sd_fresh = 0,
     sd_stop = False, sd_results = []\<rparr>"

definition initialize_jobs :: "rat \<Rightarrow> sched \<Rightarrow> sched" where
  "initialize_jobs now s = s\<lparr>sd_jobs := dmap (\<lambda>j. j\<lparr>jb_next := now + max 0 (jb_delay j)\<rparr>) (sd_jobs s)\<rparr>"

section \<open>Dispatching\<close>

definition due :: "rat \<Rightarrow> job \<Rightarrow> bool" where
  "due now j \<longleftrightarrow> \<not> now < jb_next j"

definition reschedule :: "rat \<Rightarrow> job \<Rightarrow> job" where
  "reschedule now j = j\<lparr>jb_next := now + max min_interval (jb_interval j)\<rparr>"

text \<open>The body of the loop of \<open>dispatch_due\<close> for one job: the names it started.\<close>

definition dispatch_job :: "rat \<Rightarrow> string \<Rightarrow> sched \<Rightarrow> string list \<times> sched" where
  "dispatch_job now name s = (case dget (sd_jobs s) name of
     None \<Rightarrow> ([], s)
   | Some j \<Rightarrow>
       if \<not> due now j then ([], s)
       else if jb_locked j then ([], s\<lparr>sd_jobs := dput name (reschedule now j) (sd_jobs s)\<rparr>)
       else ([name], s\<lparr>sd_jobs := dput name ((reschedule now j)\<lparr>jb_locked := True\<rparr>) (sd_jobs s),
              sd_workers := sd_workers s @ [\<lparr>wk_id = sd_fresh s, wk_job = name, wk_running = True\<rparr>],
              sd_fresh := Suc (sd_fresh s)\<rparr>))"

fun dispatch_all :: "rat \<Rightarrow> string list \<Rightarrow> sched \<Rightarrow> string list \<times> sched" where
  "dispatch_all now [] s = ([], s)"
| "dispatch_all now (n # ns) s =
     (let (a, s1) = dispatch_job now n s; (b, s2) = dispatch_all now ns s1 in (a @ b, s2))"

definition dispatch_due :: "rat \<Rightarrow> sched \<Rightarrow> string list \<times> sched" where
  "dispatch_due now s = dispatch_all now (dkeys (sd_jobs s)) s"

text \<open>How long the loop waits after a pass.\<close>

definition next_wakeup :: "rat \<Rightarrow> sched \<Rightarrow> rat" where
  "next_wakeup now s = (case map jb_next (dvals (sd_jobs s)) of [] \<Rightarrow> now + 1 | t # ts \<Rightarrow> fold min ts t)"

definition loop_wait :: "rat \<Rightarrow> sched \<Rightarrow> rat" where
  "loop_wait now s = max min_interval (next_wakeup now s - now)"

definition loop_pass :: "rat \<Rightarrow> sched \<Rightarrow> (string list \<times> rat) \<times> sched" where
  "loop_pass now s =
     (if sd_stop s then (([], 0), s)
      else let (started, s') = dispatch_due now s in ((started, loop_wait now s'), s'))"

section \<open>Workers\<close>

definition unlock :: "string \<Rightarrow> sched \<Rightarrow> sched" where
  "unlock name s = (case dget (sd_jobs s) name of None \<Rightarrow> s
     | Some j \<Rightarrow> s\<lparr>sd_jobs := dput name (j\<lparr>jb_locked := False\<rparr>) (sd_jobs s)\<rparr>)"

definition set_phase :: "nat \<Rightarrow> worker list \<Rightarrow> worker list" where
  "set_phase i ws = map (\<lambda>w. if wk_id w = i then w\<lparr>wk_running := False\<rparr> else w) ws"

text \<open>\<open>_execute\<close>: the runner ends with or without an error, then the lock is released.\<close>

definition execute_release :: "worker \<Rightarrow> sched \<Rightarrow> sched" where
  "execute_release w s = (unlock (wk_job w) s)\<lparr>sd_workers := set_phase (wk_id w) (sd_workers s)\<rparr>"

text \<open>Then the result is reported and the worker leaves the set.\<close>

definition finished :: "nat \<Rightarrow> worker list \<Rightarrow> worker list" where
  "finished i ws = filter (\<lambda>w. wk_id w \<noteq> i) ws"

definition execute_report :: "failure option \<Rightarrow> worker \<Rightarrow> sched \<Rightarrow> sched" where
  "execute_report err w s = s\<lparr>sd_results := sd_results s @ [(wk_job w, err)],
     sd_workers := finished (wk_id w) (sd_workers s)\<rparr>"

definition stop_sched :: "sched \<Rightarrow> sched" where
  "stop_sched s = s\<lparr>sd_stop := True\<rparr>"

text \<open>
  \<open>wait_for_idle\<close>: round \<open>n\<close> sees the workers \<open>ws n\<close> at time \<open>clock n\<close>; not returning is \<open>None\<close>.
\<close>

partial_function (option) wait_rounds :: "(nat \<Rightarrow> rat) \<Rightarrow> (nat \<Rightarrow> 'w list) \<Rightarrow> rat \<Rightarrow> nat \<Rightarrow> bool option" where
  "wait_rounds clock ws deadline n =
     (if ws n = [] then Some True
      else if deadline - clock n \<le> 0 then Some False
      else wait_rounds clock ws deadline (Suc n))"

definition wait_for_idle :: "(nat \<Rightarrow> rat) \<Rightarrow> (nat \<Rightarrow> 'w list) \<Rightarrow> rat \<Rightarrow> rat \<Rightarrow> bool option" where
  "wait_for_idle clock ws started timeout = wait_rounds clock ws (started + max 0 timeout) 0"

text \<open>
  \<open>stop\<close>: the scheduler thread is joined until \<open>joined_at\<close> and is then \<open>alive\<close> or not; the
  workers get what is left of the time.
\<close>

definition stop_scheduler :: "(nat \<Rightarrow> rat) \<Rightarrow> (nat \<Rightarrow> 'w list) \<Rightarrow> rat \<Rightarrow> rat \<Rightarrow> rat \<Rightarrow> bool \<Rightarrow> bool option" where
  "stop_scheduler clock ws started timeout joined_at alive =
     map_option (\<lambda>idle. idle \<and> \<not> alive) (wait_for_idle clock ws joined_at (max 0 (started + max 0 timeout - joined_at)))"

text \<open>Threads interleave at these steps.\<close>

inductive sched_step :: "sched \<Rightarrow> sched \<Rightarrow> bool" where
  Dispatch: "\<not> sd_stop s \<Longrightarrow> sched_step s (snd (dispatch_job now name s))"
| Release: "w \<in> set (sd_workers s) \<Longrightarrow> wk_running w \<Longrightarrow> sched_step s (execute_release w s)"
| Report: "w \<in> set (sd_workers s) \<Longrightarrow> \<not> wk_running w \<Longrightarrow> sched_step s (execute_report err w s)"
| Stop: "sched_step s (stop_sched s)"

section \<open>One worker per lock\<close>

definition running :: "string \<Rightarrow> sched \<Rightarrow> worker list" where
  "running name s = filter (\<lambda>w. wk_job w = name \<and> wk_running w) (sd_workers s)"

definition locked :: "string \<Rightarrow> sched \<Rightarrow> bool" where
  "locked name s = (case dget (sd_jobs s) name of None \<Rightarrow> False | Some j \<Rightarrow> jb_locked j)"

definition sched_inv :: "sched \<Rightarrow> bool" where
  "sched_inv s \<longleftrightarrow> distinct (map wk_id (sd_workers s)) \<and> list_all (\<lambda>w. wk_id w < sd_fresh s) (sd_workers s) \<and>
     (\<forall>name. length (running name s) = (if locked name s then 1 else 0))"

lemma dispatch_job_inv:
  assumes "sched_inv s"
  shows "sched_inv (snd (dispatch_job now name s))"
proof (cases "dget (sd_jobs s) name")
  case None
  with assms show ?thesis by (simp add: dispatch_job_def)
next
  case (Some j)
  show ?thesis
  proof (cases "due now j \<and> \<not> jb_locked j")
    case False
    with Some assms show ?thesis
      by (auto simp: dispatch_job_def sched_inv_def running_def locked_def reschedule_def split: option.splits)
  next
    case True
    from assms have "length (running name s) = (if locked name s then 1 else 0)" by (simp add: sched_inv_def)
    with Some True have free: "running name s = []" by (simp add: locked_def)
    let ?s = "snd (dispatch_job now name s)"
    have "length (running n ?s) = (if locked n ?s then 1 else 0)" for n
      using True Some assms free
      by (cases "n = name") (auto simp: dispatch_job_def sched_inv_def running_def locked_def)
    moreover have "distinct (map wk_id (sd_workers ?s)) \<and> list_all (\<lambda>w. wk_id w < sd_fresh ?s) (sd_workers ?s)"
      using True Some assms by (auto simp: dispatch_job_def sched_inv_def list_all_iff less_Suc_eq)
    ultimately show ?thesis by (simp add: sched_inv_def)
  qed
qed

lemma set_phase_running:
  assumes "distinct (map wk_id ws)" and "w \<in> set ws" and "wk_running w"
  shows "length (filter (\<lambda>v. wk_job v = n \<and> wk_running v) (set_phase (wk_id w) ws)) =
    length (filter (\<lambda>v. wk_job v = n \<and> wk_running v) ws) - (if wk_job w = n then 1 else 0)"
  using assms
proof (induction ws)
  case (Cons x ws)
  show ?case
  proof (cases "x = w")
    case True
    with Cons.prems(1) have "wk_id w \<notin> wk_id ` set ws" by simp
    then have "wk_id v \<noteq> wk_id w" if "v \<in> set ws" for v using that by (metis imageI)
    then have "set_phase (wk_id w) ws = ws" unfolding set_phase_def by (intro map_idI) simp
    with True Cons.prems show ?thesis by (simp add: set_phase_def)
  next
    case False
    with Cons.prems have w: "w \<in> set ws" and "wk_id x \<noteq> wk_id w" by auto
    moreover have "0 < length (filter (\<lambda>v. wk_job v = n \<and> wk_running v) ws)" if "wk_job w = n"
      using w Cons.prems(3) that by (auto simp: filter_empty_conv)
    ultimately show ?thesis using Cons by (simp add: set_phase_def)
  qed
qed simp

lemma set_phase_ids [simp]: "map wk_id (set_phase i ws) = map wk_id ws"
  by (simp add: set_phase_def)

lemma unlock_fields [simp]:
  "sd_workers (unlock n s) = sd_workers s" "sd_fresh (unlock n s) = sd_fresh s"
  "locked m (unlock n s) = (locked m s \<and> m \<noteq> n)"
  by (auto simp: unlock_def locked_def split: option.split)

lemma execute_release_inv:
  assumes "sched_inv s" and "w \<in> set (sd_workers s)" and "wk_running w"
  shows "sched_inv (execute_release w s)"
proof -
  let ?s = "execute_release w s"
  have "length (running n ?s) = (if locked n ?s then 1 else 0)" for n
  proof -
    have "length (running n ?s) = length (running n s) - (if wk_job w = n then 1 else 0)"
      using set_phase_running [of "sd_workers s" w n] assms by (simp add: execute_release_def running_def sched_inv_def)
    moreover have "length (running n s) = (if locked n s then 1 else 0)" using assms(1) by (simp add: sched_inv_def)
    moreover have "locked n ?s \<longleftrightarrow> locked n s \<and> n \<noteq> wk_job w"
      by (simp add: execute_release_def locked_def [of _ "_\<lparr>sd_workers := _\<rparr>"] unlock_fields(3) [unfolded locked_def] del: unlock_fields)
         (simp add: locked_def unlock_def split: option.split)
    ultimately show ?thesis by auto
  qed
  moreover have "list_all (\<lambda>v. wk_id v < sd_fresh s) (set_phase (wk_id w) (sd_workers s))"
    using assms(1) by (auto simp: sched_inv_def list_all_iff set_phase_def)
  ultimately show ?thesis using assms(1) by (simp add: sched_inv_def execute_release_def)
qed

lemma execute_report_inv:
  assumes "sched_inv s" and "w \<in> set (sd_workers s)" and "\<not> wk_running w"
  shows "sched_inv (execute_report err w s)"
proof -
  have "v = w" if "v \<in> set (sd_workers s)" "wk_id v = wk_id w" for v
    using assms(1,2) that by (auto simp: sched_inv_def distinct_map dest: inj_onD)
  then have "running n (execute_report err w s) = running n s" for n
    using assms(3) by (auto simp: running_def execute_report_def finished_def intro: filter_cong)
  with assms(1) show ?thesis
    by (auto simp: sched_inv_def execute_report_def finished_def locked_def list_all_iff distinct_map_filter)
qed

lemma sched_step_inv: "sched_step s s' \<Longrightarrow> sched_inv s \<Longrightarrow> sched_inv s'"
  by (induction rule: sched_step.induct)
    (simp_all add: dispatch_job_inv execute_release_inv execute_report_inv,
     simp add: sched_inv_def stop_sched_def running_def locked_def)

lemma initial_inv: "sched_inv (initialize_jobs now (interval_scheduler jobs))"
proof -
  have "dict_all (\<lambda>_ j. \<not> jb_locked j) d \<Longrightarrow>
      dict_all (\<lambda>_ j. \<not> jb_locked j) (fold (\<lambda>(n, i, e). dput n (scheduled_job i e)) jobs d)" for d
  proof (induction jobs arbitrary: d)
    case (Cons x jobs)
    obtain n i e where x: "x = (n, i, e)" by (cases x)
    from Cons.IH [OF dict_all_dput [OF Cons.prems, of "scheduled_job i e" n]] show ?case
      by (simp add: x scheduled_job_def)
  qed simp
  from dict_allD [OF this [OF dict_all_Nil]] show ?thesis
    by (auto simp: sched_inv_def initialize_jobs_def interval_scheduler_def running_def locked_def split: option.split)
qed

section \<open>One pass over the jobs\<close>

definition dispatched :: "rat \<Rightarrow> job \<Rightarrow> job" where
  "dispatched now j = (if due now j then (reschedule now j)\<lparr>jb_locked := True\<rparr> else j)"

definition startable :: "rat \<Rightarrow> sched \<Rightarrow> string \<Rightarrow> bool" where
  "startable now s n = (case dget (sd_jobs s) n of None \<Rightarrow> False | Some j \<Rightarrow> due now j \<and> \<not> jb_locked j)"

lemma dispatch_job_get:
  "dget (sd_jobs (snd (dispatch_job now n s))) m =
     (if m = n then map_option (dispatched now) (dget (sd_jobs s) n) else dget (sd_jobs s) m)"
  by (auto simp: dispatch_job_def dispatched_def reschedule_def split: option.split)

lemma dispatch_job_started: "fst (dispatch_job now n s) = (if startable now s n then [n] else [])"
  by (simp add: dispatch_job_def startable_def split: option.split)

lemma dispatch_job_keys: "dkeys (sd_jobs (snd (dispatch_job now n s))) = dkeys (sd_jobs s)"
proof -
  have "dkeys (dput n v d) = dkeys d" if "dget d n \<noteq> None" for v and d :: "(string, job) dict"
    using that by (induction d) (auto split: if_splits)
  then show ?thesis by (simp add: dispatch_job_def split: option.split)
qed

lemma dispatch_all_exact:
  "distinct ns \<Longrightarrow> fst (dispatch_all now ns s) = filter (startable now s) ns \<and>
   dkeys (sd_jobs (snd (dispatch_all now ns s))) = dkeys (sd_jobs s) \<and>
   dget (sd_jobs (snd (dispatch_all now ns s))) m =
     (if m \<in> set ns then map_option (dispatched now) (dget (sd_jobs s) m) else dget (sd_jobs s) m)"
proof (induction ns arbitrary: s)
  case (Cons n ns)
  let ?s = "snd (dispatch_job now n s)"
  from Cons have IH: "fst (dispatch_all now ns ?s) = filter (startable now ?s) ns"
    "dkeys (sd_jobs (snd (dispatch_all now ns ?s))) = dkeys (sd_jobs ?s)"
    "dget (sd_jobs (snd (dispatch_all now ns ?s))) m =
      (if m \<in> set ns then map_option (dispatched now) (dget (sd_jobs ?s) m) else dget (sd_jobs ?s) m)" by auto
  have "startable now ?s k = startable now s k" if "k \<in> set ns" for k
    using that Cons.prems by (auto simp: startable_def dispatch_job_get)
  then have "filter (startable now ?s) ns = filter (startable now s) ns" by (rule filter_cong [OF refl])
  with IH Cons.prems show ?case
    by (simp add: split_def Let_def dispatch_job_started dispatch_job_keys dispatch_job_get)
qed simp

lemma dispatch_due_exact:
  assumes "dict_ok (sd_jobs s)"
  shows "fst (dispatch_due now s) = filter (startable now s) (dkeys (sd_jobs s))"
    and "dkeys (sd_jobs (snd (dispatch_due now s))) = dkeys (sd_jobs s)"
    and "dget (sd_jobs (snd (dispatch_due now s))) m = map_option (dispatched now) (dget (sd_jobs s) m)"
proof -
  note d = dispatch_all_exact [OF assms, of now s m]
  show "fst (dispatch_due now s) = filter (startable now s) (dkeys (sd_jobs s))"
    "dkeys (sd_jobs (snd (dispatch_due now s))) = dkeys (sd_jobs s)"
    using d by (simp_all add: dispatch_due_def del: set_map)
  show "dget (sd_jobs (snd (dispatch_due now s))) m = map_option (dispatched now) (dget (sd_jobs s) m)"
  proof (cases "m \<in> set (dkeys (sd_jobs s))")
    case True
    with d show ?thesis by (simp add: dispatch_due_def del: set_map)
  next
    case False
    then have "dget (sd_jobs s) m = None" by (simp only: dget_None_iff) simp
    with False d show ?thesis by (simp add: dispatch_due_def del: set_map)
  qed
qed

lemma next_wakeup_le: "dget (sd_jobs s) n = Some j \<Longrightarrow> next_wakeup now s \<le> jb_next j"
proof -
  assume "dget (sd_jobs s) n = Some j"
  then have j: "jb_next j \<in> set (map jb_next (dvals (sd_jobs s)))" by (force dest: dget_mem)
  obtain t ts where ts: "map jb_next (dvals (sd_jobs s)) = t # ts"
    using j by (cases "map jb_next (dvals (sd_jobs s))") auto
  have "fold min ts t = Min (set (t # ts))" by (rule Min.set_eq_fold [symmetric])
  then show ?thesis using j unfolding next_wakeup_def ts by simp
qed

section \<open>Runs of the loop\<close>

definition nexts :: "sched \<Rightarrow> (string, rat) dict" where
  "nexts s = dmap jb_next (sd_jobs s)"

text \<open>
  Pass \<open>k\<close> of the loop finds state \<open>s k\<close> at time \<open>t k\<close>. Between passes workers only touch the
  locks; the wait ends when it asked to, or up to \<open>eps\<close> later.
\<close>

definition loop_run :: "(nat \<Rightarrow> sched) \<Rightarrow> (nat \<Rightarrow> rat) \<Rightarrow> rat \<Rightarrow> bool" where
  "loop_run s t eps \<longleftrightarrow> dict_ok (sd_jobs (s 0)) \<and> (\<forall>k. let (r, s') = loop_pass (t k) (s k) in
     \<not> sd_stop (s k) \<and> nexts (s (Suc k)) = nexts s' \<and> t k + snd r \<le> t (Suc k) \<and> t (Suc k) \<le> t k + snd r + eps)"

lemma loop_runD:
  assumes "loop_run s t eps"
  defines "s' k \<equiv> snd (dispatch_due (t k) (s k))"
  shows "nexts (s (Suc k)) = nexts (s' k)"
    and "t k + loop_wait (t k) (s' k) \<le> t (Suc k)" and "t (Suc k) \<le> t k + loop_wait (t k) (s' k) + eps"
  using assms(1) [unfolded loop_run_def, THEN conjunct2, rule_format, of k]
  by (auto simp: loop_pass_def s'_def Let_def split_def)

lemma nexts_get: "nexts s = nexts s' \<Longrightarrow> map_option jb_next (dget (sd_jobs s) n) = map_option jb_next (dget (sd_jobs s') n)"
  by (metis dget_dmap nexts_def)

lemma nexts_keys: "nexts s = nexts s' \<Longrightarrow> dkeys (sd_jobs s) = dkeys (sd_jobs s')"
  by (metis dkeys_dmap nexts_def)

lemma loop_run_keys: "loop_run s t eps \<Longrightarrow> dict_ok (sd_jobs (s k))"
proof (induction k)
  case 0
  then show ?case by (simp add: loop_run_def)
next
  case (Suc k)
  then have "dkeys (sd_jobs (s (Suc k))) = dkeys (sd_jobs (s k))"
    using nexts_keys [OF loop_runD(1)] dispatch_due_exact(2) by metis
  with Suc show ?case by metis
qed

lemma waits_for_due:
  assumes run: "loop_run s t eps" and j: "dget (sd_jobs (s k)) n = Some j" and early: "t k < jb_next j"
  shows "map_option jb_next (dget (sd_jobs (s (Suc k))) n) = Some (jb_next j)"
    and "t k + min_interval \<le> t (Suc k)" and "t (Suc k) \<le> jb_next j + min_interval + eps"
proof -
  let ?s = "snd (dispatch_due (t k) (s k))"
  note ok = loop_run_keys [OF run]
  from early have same: "dget (sd_jobs ?s) n = Some j"
    by (simp add: dispatch_due_exact(3) [OF ok] j dispatched_def due_def)
  with nexts_get [OF loop_runD(1) [OF run]] show "map_option jb_next (dget (sd_jobs (s (Suc k))) n) = Some (jb_next j)"
    by simp
  from loop_runD(2) [OF run, of k] show "t k + min_interval \<le> t (Suc k)"
    by (simp add: loop_wait_def)
  from next_wakeup_le [OF same, of "t k"] have "loop_wait (t k) ?s \<le> max min_interval (jb_next j - t k)"
    by (auto simp: loop_wait_def)
  with loop_runD(3) [OF run, of k] early show "t (Suc k) \<le> jb_next j + min_interval + eps"
    by (auto simp: min_interval_def)
qed

lemma reaches_due:
  assumes run: "loop_run s t eps" and j: "dget (sd_jobs (s k)) n = Some j" and early: "t k < jb_next j"
  shows "\<exists>m j'. k < m \<and> dget (sd_jobs (s m)) n = Some j' \<and> jb_next j' = jb_next j \<and>
    jb_next j \<le> t m \<and> t m \<le> jb_next j + min_interval + eps"
  using j early
proof (induction "nat \<lceil>(jb_next j - t k) / min_interval\<rceil>" arbitrary: k j rule: less_induct)
  case less
  note w = waits_for_due [OF run less.prems]
  from w(1) obtain j' where j': "dget (sd_jobs (s (Suc k))) n = Some j'" "jb_next j' = jb_next j" by auto
  show ?case
  proof (cases "t (Suc k) < jb_next j'")
    case False
    with j' w(3) show ?thesis by (intro exI [of _ "Suc k"] exI [of _ j']) simp
  next
    case True
    let ?a = "(jb_next j' - t (Suc k)) / min_interval" and ?b = "(jb_next j - t k) / min_interval"
    have pos: "0 < ?a" using True by (simp add: min_interval_def)
    have "?a + 1 \<le> ?b" using w(2) j'(2) by (simp add: min_interval_def)
    then have "\<lceil>?a\<rceil> + 1 \<le> \<lceil>?b\<rceil>" by (metis ceiling_add_one ceiling_mono)
    moreover have "0 < \<lceil>?a\<rceil>" using pos by simp
    ultimately have "nat \<lceil>?a\<rceil> < nat \<lceil>?b\<rceil>" by linarith
    from less.hyps [OF this j'(1) True] j'(2) show ?thesis by (metis Suc_lessD)
  qed
qed

section \<open>Waiting ends\<close>

lemma ceiling_step: "(x::rat) \<le> max 0 (y - 1) \<Longrightarrow> \<lceil>x\<rceil> \<le> max 0 (\<lceil>y\<rceil> - 1)"
proof (cases "x \<le> 0")
  case True
  then have "\<lceil>x\<rceil> \<le> 0" by simp
  then show ?thesis by linarith
next
  case False
  assume "x \<le> max 0 (y - 1)"
  with False have "x \<le> y - 1" by (simp add: max_def split: if_splits)
  then have "\<lceil>x\<rceil> \<le> \<lceil>y - 1\<rceil>" by (rule ceiling_mono)
  then show ?thesis by simp
qed

lemma wait_rounds_returns:
  assumes "\<And>n. ws n \<noteq> [] \<Longrightarrow> clock n < deadline \<Longrightarrow>
      min deadline (clock n + 1 / 20) \<le> clock (Suc n) \<or> clock n \<le> clock (Suc n) \<and> length (ws (Suc n)) < length (ws n)"
  shows "\<exists>b m. wait_rounds clock ws deadline n = Some b \<and> n \<le> m \<and>
    (if b then ws m = [] else ws m \<noteq> [] \<and> deadline \<le> clock m)"
proof (induction "(nat \<lceil>(deadline - clock n) * 20\<rceil>, length (ws n))" arbitrary: n
    rule: wf_induct_rule [OF wf_lex_prod [OF wf_less_than wf_less_than]])
  case (1 n)
  consider (idle) "ws n = []" | (late) "ws n \<noteq> []" "deadline \<le> clock n" | (more) "ws n \<noteq> []" "clock n < deadline"
    by fastforce
  then show ?case
  proof cases
    case idle
    then show ?thesis by (subst wait_rounds.simps) auto
  next
    case late
    then show ?thesis by (subst wait_rounds.simps) auto
  next
    case more
    let ?f = "\<lambda>n. nat \<lceil>(deadline - clock n) * 20\<rceil>"
    have "((?f (Suc n), length (ws (Suc n))), (?f n, length (ws n))) \<in> less_than <*lex*> less_than"
    proof (cases "clock n \<le> clock (Suc n) \<and> length (ws (Suc n)) < length (ws n)")
      case True
      then have "?f (Suc n) \<le> ?f n" by (intro nat_mono ceiling_mono) simp
      with True show ?thesis unfolding in_lex_prod less_than_iff using le_neq_implies_less by blast
    next
      case False
      with assms [OF more] have c: "min deadline (clock n + 1 / 20) \<le> clock (Suc n)" by blast
      have "(deadline - clock (Suc n)) * 20 \<le> max 0 ((deadline - clock n) * 20 - 1)"
        using c by (auto simp: min_def max_def split: if_splits)
      then have "\<lceil>(deadline - clock (Suc n)) * 20\<rceil> \<le> max 0 (\<lceil>(deadline - clock n) * 20\<rceil> - 1)"
        by (rule ceiling_step)
      moreover have "0 < \<lceil>(deadline - clock n) * 20\<rceil>" using more by simp
      ultimately have "?f (Suc n) < ?f n" by (auto simp: max_def split: if_splits)
      then show ?thesis by simp
    qed
    from 1 [OF this] obtain b m where "wait_rounds clock ws deadline (Suc n) = Some b" "Suc n \<le> m"
      "if b then ws m = [] else ws m \<noteq> [] \<and> deadline \<le> clock m" by blast
    with more show ?thesis by (subst wait_rounds.simps) (auto intro: exI [of _ m])
  qed
qed

section \<open>Properties\<close>

text \<open>
  Property C13: however the scheduler thread and the workers interleave, a job never runs twice
  at the same time: at most one worker is in the runner of a job, and exactly one while its lock
  is held.
\<close>

theorem no_job_overlap:
  assumes "sched_step\<^sup>*\<^sup>* (initialize_jobs now (interval_scheduler jobs)) s"
  shows "length (running name s) = (if locked name s then 1 else 0)"
proof -
  from assms have "sched_inv s"
    by (induction rule: rtranclp_induct) (simp_all add: initial_inv sched_step_inv)
  then show ?thesis by (simp add: sched_inv_def)
qed

text \<open>
  No due time is missed. In a loop whose waits end when they asked to or at most
  \<open>eps\<close> later, a job whose time has not come is met by a pass no earlier than that time and at
  most a hundredth of a second plus \<open>eps\<close> after it, and that pass starts it unless it is still
  running. Whatever it does with the job, it is due again one interval later.
\<close>

theorem due_jobs_start:
  assumes "loop_run s t eps" and "dget (sd_jobs (s k)) name = Some j" and "t k < jb_next j"
  shows "\<exists>m > k. \<exists>j'. dget (sd_jobs (s m)) name = Some j' \<and> jb_next j \<le> t m \<and> t m \<le> jb_next j + 1 / 100 + eps \<and>
    (name \<in> set (fst (dispatch_due (t m) (s m))) \<longleftrightarrow> \<not> jb_locked j') \<and>
    dget (sd_jobs (snd (dispatch_due (t m) (s m)))) name =
      Some (j'\<lparr>jb_next := t m + max (1 / 100) (jb_interval j'), jb_locked := True\<rparr>)"
proof -
  from reaches_due [OF assms] obtain m j' where m: "k < m" "dget (sd_jobs (s m)) name = Some j'" "jb_next j' = jb_next j"
    "jb_next j \<le> t m" "t m \<le> jb_next j + min_interval + eps" by blast
  note d = dispatch_due_exact [OF loop_run_keys [OF assms(1), of m]]
  from m(2) have "name \<in> set (dkeys (sd_jobs (s m)))" by (force dest: dget_mem)
  then have "name \<in> set (fst (dispatch_due (t m) (s m))) \<longleftrightarrow> \<not> jb_locked j'"
    unfolding d(1) using m by (simp add: startable_def due_def del: set_map)
  moreover have "dget (sd_jobs (snd (dispatch_due (t m) (s m)))) name =
      Some (j'\<lparr>jb_next := t m + max (1 / 100) (jb_interval j'), jb_locked := True\<rparr>)"
    using m by (simp add: d(3) dispatched_def due_def reschedule_def min_interval_def)
  ultimately show ?thesis using m by (auto simp: min_interval_def)
qed

text \<open>
  Property C14: waiting for the workers ends. When every round waits a twentieth of a second, or
  to the deadline, or sees a worker leave, the wait returns; it reports success exactly when it
  saw no worker left, and gives up only after the deadline.
\<close>

theorem wait_for_idle_returns:
  assumes "\<forall>n. ws n \<noteq> [] \<longrightarrow> clock n < started + max 0 timeout \<longrightarrow>
      min (started + max 0 timeout) (clock n + 1 / 20) \<le> clock (Suc n) \<or>
      clock n \<le> clock (Suc n) \<and> length (ws (Suc n)) < length (ws n)"
  shows "\<exists>idle m. wait_for_idle clock ws started timeout = Some idle \<and>
    (if idle then ws m = [] else ws m \<noteq> [] \<and> started + max 0 timeout \<le> clock m)"
  using wait_rounds_returns [of ws clock "started + max 0 timeout" 0] assms
  unfolding wait_for_idle_def by blast

section \<open>Witnesses\<close>

definition demo_jobs :: "(string \<times> rat \<times> rat) list" where
  "demo_jobs = [(''network'', 60, 0), (''clients'', 300, 30)]"

theorem no_job_overlap_witness:
  "length (running ''network'' (snd (dispatch_job 61 ''network'' (snd (dispatch_job 0 ''network''
     (initialize_jobs 0 (interval_scheduler demo_jobs))))))) = 1"
proof -
  let ?s0 = "initialize_jobs 0 (interval_scheduler demo_jobs)"
  let ?s1 = "snd (dispatch_job 0 ''network'' ?s0)" and ?s2 = "snd (dispatch_job 61 ''network'' (snd (dispatch_job 0 ''network'' ?s0)))"
  have "sched_step ?s0 ?s1" by (rule Dispatch) code_simp
  moreover have "sched_step ?s1 ?s2" by (rule Dispatch) code_simp
  ultimately have "sched_step\<^sup>*\<^sup>* ?s0 ?s2" by (rule rtranclp_trans [OF r_into_rtranclp r_into_rtranclp])
  from no_job_overlap [OF this, of "''network''"] have "length (running ''network'' ?s2) = (if locked ''network'' ?s2 then 1 else 0)" .
  moreover have "locked ''network'' ?s2" by code_simp
  ultimately show ?thesis by simp
qed

definition demo_state :: "nat \<Rightarrow> sched" where
  "demo_state k = \<lparr>sd_jobs = [(''network'', \<lparr>jb_interval = 1, jb_delay = 0, jb_next = of_nat (max 1 k), jb_locked = False\<rparr>)],
     sd_workers = [], sd_fresh = 0, sd_stop = False, sd_results = []\<rparr>"

lemma demo_loop_run: "loop_run demo_state of_nat 0"
proof -
  have "let (r, s') = loop_pass (of_nat k) (demo_state k) in
     \<not> sd_stop (demo_state k) \<and> nexts (demo_state (Suc k)) = nexts s' \<and> of_nat k + snd r \<le> of_nat (Suc k) \<and>
     (of_nat (Suc k) :: rat) \<le> of_nat k + snd r + 0" for k
    by (cases k) (simp_all add: demo_state_def loop_pass_def dispatch_due_def dispatch_job_def due_def reschedule_def
        loop_wait_def next_wakeup_def min_interval_def nexts_def dmap_def max_def)
  then show ?thesis by (simp add: loop_run_def demo_state_def)
qed

theorem due_jobs_start_witness:
  "\<exists>m > 0. \<exists>j'. dget (sd_jobs (demo_state m)) ''network'' = Some j' \<and> (1::rat) \<le> of_nat m \<and> of_nat m \<le> (1 + 1 / 100 :: rat) \<and>
    ''network'' \<in> set (fst (dispatch_due (of_nat m) (demo_state m)))"
proof -
  let ?j = "\<lparr>jb_interval = 1, jb_delay = 0, jb_next = 1, jb_locked = False\<rparr>"
  have j: "dget (sd_jobs (demo_state 0)) ''network'' = Some ?j" by (simp add: demo_state_def)
  have free: "\<not> jb_locked j'" if "dget (sd_jobs (demo_state m)) ''network'' = Some j'" for m j'
    using that by (auto simp: demo_state_def)
  from due_jobs_start [OF demo_loop_run j] free show ?thesis by fastforce
qed

theorem wait_for_idle_returns_witness:
  "\<exists>idle. wait_for_idle (\<lambda>n. of_nat n / 20) (\<lambda>_. [''w'']) 0 (1 / 10) = Some idle"
  using wait_for_idle_returns [of "\<lambda>_. [''w'']" "\<lambda>n. of_nat n / 20" 0 "1 / 10"] by (auto simp: field_simps)

end
