(* ===== verification/Poller.thy ===== *)
theory Poller
  imports Nac History Push Scheduler
begin

text \<open>
  The background poller of \<open>backend/poller.py\<close>: reading the devices, the debounced reachability
  state, alert rules, history, notifications, roam enforcement for bound clients, and the metrics
  of jobs and devices. What a device answers, the clock and the rendering of numbers are
  arguments; log entries are values of a datatype instead of formatted lines.
\<close>

section \<open>Configuration\<close>

record poll_config =
  pc_poll :: int
  pc_proxmox :: int
  pc_truenas :: int
  pc_docker :: int
  pc_timeout :: int
  pc_proxmox_timeout :: int
  pc_truenas_timeout :: int
  pc_docker_timeout :: int
  pc_stagger :: int
  pc_offline_after :: nat

type_synonym env = "(string, int) dict"

definition poll_config_of :: "env \<Rightarrow> poll_config" where
  "poll_config_of e =
     (let poll = dget_or e ''HLHQ_POLL_INTERVAL'' 60 in
      \<lparr>pc_poll = poll,
       pc_proxmox = max 1 (dget_or e ''HLHQ_PROXMOX_POLL_INTERVAL'' 120),
       pc_truenas = max 1 (dget_or e ''HLHQ_TRUENAS_POLL_INTERVAL'' 300),
       pc_docker = max 1 (dget_or e ''HLHQ_DOCKER_POLL_INTERVAL'' 300),
       pc_timeout = max 1 (dget_or e ''HLHQ_POLL_TIMEOUT'' 10),
       pc_proxmox_timeout = max 1 (min 60 (dget_or e ''HLHQ_PROXMOX_TIMEOUT'' 20)),
       pc_truenas_timeout = max 1 (min 60 (dget_or e ''HLHQ_TRUENAS_TIMEOUT'' 20)),
       pc_docker_timeout = max 30 (min 240 (dget_or e ''HLHQ_DOCKER_TIMEOUT'' 120)),
       pc_stagger = min 30 (max 1 (poll div 2)),
       pc_offline_after = nat (max 1 (dget_or e ''HLHQ_OFFLINE_AFTER'' 5))\<rparr>)"

definition stale_after :: "env \<Rightarrow> string \<Rightarrow> int result" where
  "stale_after e stack =
     (let c = poll_config_of e;
          limit = (\<lambda>interval var factor. max (interval * 2) (dget_or e var (interval * factor))) in
      if stack = ''network'' then Inr (limit (pc_poll c) ''HLHQ_NETWORK_STALE_AFTER'' 3)
      else if stack = ''proxmox'' then Inr (limit (pc_proxmox c) ''HLHQ_PROXMOX_STALE_AFTER'' 3)
      else if stack = ''truenas'' then Inr (limit (pc_truenas c) ''HLHQ_TRUENAS_STALE_AFTER'' 2)
      else if stack = ''docker'' then Inr (limit (pc_docker c) ''HLHQ_DOCKER_STALE_AFTER'' 2)
      else Inl (KeyError stack))"

definition icmp_monitored :: "string \<Rightarrow> bool" where
  "icmp_monitored drv \<longleftrightarrow> drv = ''keeplink.switch''"

definition dedicated_drivers :: "string list" where
  "dedicated_drivers = [''proxmox.ve'', ''truenas.system'']"

section \<open>Reading\<close>

record if_row =
  ir_device :: string
  ir_name :: string
  ir_rx :: json
  ir_tx :: json

record poll_result =
  pr_values :: doc
  pr_errors :: "(string, string) dict"
  pr_interfaces :: "if_row list"
  pr_elapsed :: "rat option"

definition empty_result :: poll_result where
  "empty_result = \<lparr>pr_values = [], pr_errors = [], pr_interfaces = [], pr_elapsed = None\<rparr>"

text \<open>What the probe or the read of a device ends with.\<close>

datatype probe = Answered poll_result | Unreachable string | Raised string

definition read_one :: "(string \<Rightarrow> string) \<Rightarrow> string option \<Rightarrow> probe \<Rightarrow> rat \<Rightarrow> bool \<times> poll_result" where
  "read_one safe drv p elapsed = (case p of
     Answered r \<Rightarrow>
       (let res = (if (case drv of None \<Rightarrow> False | Some d \<Rightarrow> icmp_monitored d) then empty_result else r)
        in (True, res\<lparr>pr_elapsed := Some elapsed\<rparr>))
   | Unreachable e \<Rightarrow> (False, empty_result\<lparr>pr_errors := [(''_connection'', safe e)], pr_elapsed := Some elapsed\<rparr>)
   | Raised e \<Rightarrow> (False, empty_result\<lparr>pr_errors := [(''_error'', safe e)], pr_elapsed := Some elapsed\<rparr>))"

definition poll_targets :: "string list option \<Rightarrow> string list option \<Rightarrow> (string, device) dict \<Rightarrow> string list" where
  "poll_targets only excluded devs = map fst (filter (\<lambda>(i, v).
     (case only of None \<Rightarrow> True | Some ds \<Rightarrow> dv_driver v \<in> set ds) \<and>
     (case excluded of None \<Rightarrow> True | Some ds \<Rightarrow> dv_driver v \<notin> set ds)) devs)"

text \<open>A poll's errors as one phrase.\<close>

fun before_sub :: "string \<Rightarrow> string \<Rightarrow> string" where
  "before_sub sub [] = []"
| "before_sub sub (c # cs) = (if startswith (c # cs) sub then [] else c # before_sub sub cs)"

definition short_phrase :: "string \<Rightarrow> string" where
  "short_phrase s = (let low = lower s in
     if contains ''connect timeout'' low \<or> contains ''timed out'' low then ''connection timed out''
     else if contains ''refused'' low then ''connection refused''
     else if contains ''no route to host'' low then ''no route to host''
     else if contains ''name or service not known'' low \<or> contains ''nodename nor servname'' low then ''DNS lookup failed''
     else take 120 (strip (before_sub '' (Caused by'' s)))"

definition short_err :: "(string, string) dict \<Rightarrow> string" where
  "short_err errs = join_with ''; '' (map short_phrase (dvals errs))"

section \<open>Numbers\<close>

fun num_of :: "json \<Rightarrow> pyfloat option" where
  "num_of (JInt i) = Some (Fin (of_int i))"
| "num_of (JFloat f) = Some f"
| "num_of _ = None"

fun py_less :: "pyfloat \<Rightarrow> pyfloat \<Rightarrow> bool" where
  "py_less NaN _ = False"
| "py_less _ NaN = False"
| "py_less (Fin a) (Fin b) = (a < b)"
| "py_less NegInf b = (b \<noteq> NegInf)"
| "py_less (Fin a) PosInf = True"
| "py_less _ _ = False"

section \<open>Alert rules\<close>

record alert_event =
  ae_rule :: alert_rule
  ae_current :: json
  ae_breached :: bool

definition op_text :: "alert_op \<Rightarrow> string" where
  "op_text o' = (case o' of Above \<Rightarrow> ''above'' | Below \<Rightarrow> ''below'')"

definition rule_id :: "(pyfloat \<Rightarrow> string) \<Rightarrow> alert_rule \<Rightarrow> string" where
  "rule_id fl r = ar_key r @ '':'' @ op_text (ar_op r) @ '':'' @ fl (ar_value r)"

definition breached :: "alert_rule \<Rightarrow> pyfloat \<Rightarrow> bool" where
  "breached r cur = (case ar_op r of Above \<Rightarrow> py_less (ar_value r) cur | Below \<Rightarrow> py_less cur (ar_value r))"

fun alert_loop :: "(pyfloat \<Rightarrow> string) \<Rightarrow> doc \<Rightarrow> alert_rule list \<Rightarrow> (string, bool) dict \<Rightarrow> (string, bool) dict \<times> alert_event list" where
  "alert_loop fl values [] st = (st, [])"
| "alert_loop fl values (r # rs) st = (case num_of (getn values (ar_key r)) of
     None \<Rightarrow> alert_loop fl values rs st
   | Some cur \<Rightarrow>
       (if dget st (rule_id fl r) \<noteq> Some (breached r cur)
        then (let (st', evs) = alert_loop fl values rs (dput (rule_id fl r) (breached r cur) st) in
              (st', \<lparr>ae_rule = r, ae_current = getn values (ar_key r), ae_breached = breached r cur\<rparr> # evs))
        else alert_loop fl values rs st))"

definition eval_alerts :: "(pyfloat \<Rightarrow> string) \<Rightarrow> doc \<Rightarrow> device \<Rightarrow> device \<times> alert_event list" where
  "eval_alerts fl values dev =
     (if dv_alerts dev = [] then (dev\<lparr>dv_alert_state := []\<rparr>, [])
      else let (st, evs) = alert_loop fl values (dv_alerts dev) (dv_alert_state dev);
               live = map (rule_id fl) (dv_alerts dev)
           in (dev\<lparr>dv_alert_state := dfilter (\<lambda>rid _. rid \<in> set live) st\<rparr>, evs))"

section \<open>Applying one poll to a device\<close>

datatype transition = BecameOnline | BecameOffline

record captured =
  cp_dev :: device
  cp_online :: bool
  cp_miss :: nat
  cp_transition :: "transition option"
  cp_events :: "alert_event list"
  cp_samples :: "(string, json) dict"
  cp_if :: "(string, if_sample) dict"

definition num_opt :: "json \<Rightarrow> json option" where
  "num_opt v = (if num_of v = None then None else Some v)"

definition if_samples :: "if_row list \<Rightarrow> (string, if_sample) dict" where
  "if_samples rows = fold (\<lambda>f. dput (ir_device f)
       \<lparr>if_name = (if ir_name f = [] then ir_device f else ir_name f), if_rx = num_opt (ir_rx f), if_tx = num_opt (ir_tx f)\<rparr>)
     (filter (\<lambda>f. ir_device f \<noteq> []) rows) []"

definition confirm :: "nat \<Rightarrow> bool option \<Rightarrow> bool \<Rightarrow> nat \<Rightarrow> bool" where
  "confirm limit prev online miss =
     (if online then True else if limit \<le> miss then False
      else case prev of None \<Rightarrow> True | Some c \<Rightarrow> c)"

definition changed :: "bool option \<Rightarrow> bool \<Rightarrow> bool" where
  "changed prev c \<longleftrightarrow> prev \<noteq> None \<and> prev \<noteq> Some c"

definition source_checked :: "bool \<Rightarrow> int \<Rightarrow> poll_state option \<Rightarrow> int option" where
  "source_checked fresh ts prev =
     (if fresh then Some ts
      else case prev of None \<Rightarrow> None
        | Some p \<Rightarrow> (case ps_source_checked p of Some t \<Rightarrow> Some t
            | None \<Rightarrow> if ps_online p \<and> ps_ts p \<noteq> 0 then Some (ps_ts p) else None))"

definition new_state :: "nat \<Rightarrow> bool \<Rightarrow> bool \<Rightarrow> poll_result \<Rightarrow> int \<Rightarrow> poll_state option \<Rightarrow> poll_state" where
  "new_state limit availability_only online r ts prev =
     (let prev_confirmed = map_option ps_confirmed prev;
          miss = (if online then 0 else (case prev of None \<Rightarrow> 0 | Some p \<Rightarrow> ps_miss p) + 1);
          confirmed = confirm limit prev_confirmed online miss;
          since = (case prev of None \<Rightarrow> ts | Some p \<Rightarrow> if ps_since p \<noteq> 0 then ps_since p else ts);
          fresh = (online \<and> \<not> availability_only)
      in \<lparr>ps_online = online, ps_confirmed = confirmed, ps_miss = miss,
          ps_values = (if fresh then pr_values r else case prev of None \<Rightarrow> [] | Some p \<Rightarrow> ps_values p),
          ps_errors = pr_errors r, ps_ts = ts,
          ps_since = (if changed prev_confirmed confirmed then ts else since), ps_checked = ts,
          ps_reach_checked = (if availability_only \<and> online then Some ts else case prev of None \<Rightarrow> None | Some p \<Rightarrow> ps_reach_checked p),
          ps_source_checked = source_checked fresh ts prev\<rparr>)"

definition apply_record :: "(pyfloat \<Rightarrow> string) \<Rightarrow> nat \<Rightarrow> bool \<Rightarrow> poll_result \<Rightarrow> int \<Rightarrow> device \<Rightarrow> device \<times> captured" where
  "apply_record fl limit online r ts dev =
     (let availability_only = icmp_monitored (dv_driver dev);
          prev = dv_state dev;
          st = new_state limit availability_only online r ts prev;
          dev1 = dev\<lparr>dv_state := Some st\<rparr>;
          samples = (if availability_only then [] else dfilter (\<lambda>_ v. num_of v \<noteq> None) (pr_values r));
          (dev2, evs) = (if availability_only then (dev1, []) else eval_alerts fl (pr_values r) dev1);
          transition = (if changed (map_option ps_confirmed prev) (ps_confirmed st)
            then Some (if ps_confirmed st then BecameOnline else BecameOffline) else None)
      in (dev2, \<lparr>cp_dev = dev2, cp_online = online, cp_miss = ps_miss st, cp_transition = transition,
            cp_events = evs, cp_samples = samples, cp_if = if_samples (pr_interfaces r)\<rparr>))"

section \<open>Recording a cycle\<close>

type_synonym reads = "(string, bool \<times> poll_result) dict"

fun record_loop :: "(pyfloat \<Rightarrow> string) \<Rightarrow> nat \<Rightarrow> int \<Rightarrow> reads \<Rightarrow> (string, device) dict \<times> (string, captured) dict
    \<Rightarrow> (string, device) dict \<times> (string, captured) dict" where
  "record_loop fl n ts [] acc = acc"
| "record_loop fl n ts ((i, online, r) # rest) (devs, caps) = (case dget devs i of
     None \<Rightarrow> record_loop fl n ts rest (devs, caps)
   | Some v \<Rightarrow> (let (v', c) = apply_record fl n online r ts v in
       record_loop fl n ts rest (dput i v' devs, dput i c caps)))"

definition record_mut_poll :: "(pyfloat \<Rightarrow> string) \<Rightarrow> nat \<Rightarrow> int \<Rightarrow> reads \<Rightarrow> device_doc \<Rightarrow> (device_doc \<times> (string, captured) dict) result" where
  "record_mut_poll fl n ts reads d =
     (let (devs, caps) = record_loop fl n ts reads (dd_devices d, []) in Inr (d\<lparr>dd_devices := devs\<rparr>, caps))"

datatype poll_log =
    PollFailed string string nat nat "rat option" string
  | WentOffline string string nat
  | BackOnline string string
  | Roamed string string string
  | BindingFailed string string
  | PushFailed string string

datatype outgoing = Outgoing "string list" message

definition notify_text :: "string \<Rightarrow> transition \<Rightarrow> string \<times> string" where
  "notify_text name t = (case t of
     BecameOffline \<Rightarrow> (''Device offline'', name @ '' became unreachable.'')
   | BecameOnline \<Rightarrow> (''Device back online'', name @ '' is reachable again.''))"

definition notify_transition :: "push_doc \<Rightarrow> device \<Rightarrow> transition \<Rightarrow> outgoing" where
  "notify_transition pd dev t = (let (title, body) = notify_text (device_name dev) t in
     Outgoing (recipients_for_device (dv_owner dev) pd) \<lparr>ms_title = title, ms_body = body,
       ms_data = [(''deviceId'', JStr (dv_id dev)),
                  (''type'', JStr (case t of BecameOffline \<Rightarrow> ''offline'' | BecameOnline \<Rightarrow> ''online''))]\<rparr>)"

definition notify_alert :: "(json \<Rightarrow> string) \<Rightarrow> (pyfloat \<Rightarrow> string) \<Rightarrow> push_doc \<Rightarrow> device \<Rightarrow> alert_event \<Rightarrow> outgoing" where
  "notify_alert tx fl pd dev e =
     (let r = ae_rule e; label = (if ar_label r = [] then ar_key r else ar_label r);
          sign = (case ar_op r of Above \<Rightarrow> ''>'' | Below \<Rightarrow> ''<'');
          cur = str_json tx (ae_current e);
          (title, body) = (if ae_breached e
            then (''Alert: '' @ device_name dev, label @ '' is '' @ cur @ '' ('' @ sign @ '' '' @ fl (ar_value r) @ '').'')
            else (''Recovered: '' @ device_name dev, label @ '' back to '' @ cur @ ''.''))
      in Outgoing (recipients_for_device (dv_owner dev) pd) \<lparr>ms_title = title, ms_body = body,
           ms_data = [(''deviceId'', JStr (dv_id dev)), (''type'', JStr ''alert''), (''key'', JStr (ar_key r)),
                      (''breached'', JBool (ae_breached e))]\<rparr>)"

definition finish_logs :: "nat \<Rightarrow> string \<Rightarrow> poll_result \<Rightarrow> captured \<Rightarrow> poll_log list" where
  "finish_logs n i r c =
     (let name = device_name (cp_dev c) in
      (if cp_online c then [] else [PollFailed i name (cp_miss c) n (pr_elapsed r) (short_err (pr_errors r))]) @
      (case cp_transition c of Some BecameOffline \<Rightarrow> [WentOffline i name n] | Some BecameOnline \<Rightarrow> [BackOnline i name] | None \<Rightarrow> []))"

definition finish_one :: "(json \<Rightarrow> string) \<Rightarrow> (pyfloat \<Rightarrow> string) \<Rightarrow> push_doc \<Rightarrow> captured \<Rightarrow> outgoing list" where
  "finish_one tx fl pd c =
     (case cp_transition c of None \<Rightarrow> [] | Some t \<Rightarrow> [notify_transition pd (cp_dev c) t]) @
     map (notify_alert tx fl pd (cp_dev c)) (cp_events c)"

definition samples_of :: "int \<Rightarrow> captured \<Rightarrow> poll_samples" where
  "samples_of ts c = \<lparr>sm_ts = ts, sm_values = cp_samples c, sm_if = cp_if c, sm_online = cp_online c\<rparr>"

record poll_world =
  pw_doc :: device_doc
  pw_history :: history_disk
  pw_outbox :: "outgoing list"
  pw_logs :: "poll_log list"

text \<open>After the write of the store, device by device: history, log, notifications.\<close>

record poll_env =
  pe_text :: "json \<Rightarrow> string"
  pe_float :: "pyfloat \<Rightarrow> string"
  pe_limit :: nat
  pe_push :: push_doc
  pe_fault :: "string \<Rightarrow> write_fault"

fun finish_all :: "poll_env \<Rightarrow> int \<Rightarrow> reads \<Rightarrow> (string \<times> captured) list \<Rightarrow> poll_world \<Rightarrow> unit result \<times> poll_world" where
  "finish_all env ts reads [] w = (Inr (), w)"
| "finish_all env ts reads ((i, c) # rest) w = (case append_history (pe_fault env i) i (samples_of ts c) (pw_history w) of
     (Inl e, k) \<Rightarrow> (Inl e, w\<lparr>pw_history := k\<rparr>)
   | (Inr _, k) \<Rightarrow> finish_all env ts reads rest
       (w\<lparr>pw_history := k,
          pw_logs := pw_logs w @ finish_logs (pe_limit env) i (case dget reads i of None \<Rightarrow> empty_result | Some (_, r) \<Rightarrow> r) c,
          pw_outbox := pw_outbox w @ finish_one (pe_text env) (pe_float env) (pe_push env) c\<rparr>))"

definition record_all :: "poll_env \<Rightarrow> int \<Rightarrow> reads \<Rightarrow> poll_world \<Rightarrow> unit result \<times> poll_world" where
  "record_all env ts reads w = (case transact (record_mut_poll (pe_float env) (pe_limit env) ts reads) (pw_doc w) of
     (Inl e, d) \<Rightarrow> (Inl e, w\<lparr>pw_doc := d\<rparr>)
   | (Inr caps, d) \<Rightarrow> finish_all env ts reads caps (w\<lparr>pw_doc := d\<rparr>))"

definition poll_once :: "poll_env \<Rightarrow> int \<Rightarrow> bool \<Rightarrow> string list option \<Rightarrow> string list option
    \<Rightarrow> (string \<Rightarrow> bool \<times> poll_result) \<Rightarrow> poll_world \<Rightarrow> nat result \<times> poll_world" where
  "poll_once env ts stopped only excluded reading w =
     (let ids = poll_targets only excluded (dd_devices (pw_doc w)) in
      if ids = [] then (Inr 0, w)
      else if stopped then (Inr (length ids), w)
      else case record_all env ts (map (\<lambda>i. (i, reading i)) ids) w of
        (Inl e, w') \<Rightarrow> (Inl e, w') | (Inr _, w') \<Rightarrow> (Inr (length ids), w'))"

text \<open>Sending what a cycle produced; a delivery that raises is logged and the next one follows.\<close>

fun flush_outbox :: "(json \<Rightarrow> string) \<Rightarrow> push_limits \<Rightarrow> int \<Rightarrow> (nat \<Rightarrow> string \<Rightarrow> string) \<Rightarrow> bool \<Rightarrow> (string \<Rightarrow> push_sub \<Rightarrow> delivery)
    \<Rightarrow> outgoing list \<Rightarrow> push_doc \<Rightarrow> push_doc" where
  "flush_outbox tx lm now fresh ready send [] pd = pd"
| "flush_outbox tx lm now fresh ready send (Outgoing us m # rest) pd =
     flush_outbox tx lm now (\<lambda>n. fresh (Suc n)) ready send rest
       (snd (notify tx lm now (fresh 0) ready send (Some us) m pd))"

section \<open>Roam enforcement\<close>

definition ap_online :: "(string, device) dict \<Rightarrow> string \<Rightarrow> bool" where
  "ap_online devs i = (case dget devs i of None \<Rightarrow> False
     | Some v \<Rightarrow> (case dv_state v of None \<Rightarrow> False | Some st \<Rightarrow> ps_online st))"

definition preferences :: "(string, device) dict \<Rightarrow> string \<Rightarrow> (string, string) dict" where
  "preferences devs owner = (if owner = [] then [] else binding_map owner devs)"

definition roam_off :: "(string, device) dict \<Rightarrow> device \<Rightarrow> string list" where
  "roam_off devs v = map fst (filter (\<lambda>(m, p). p \<noteq> dv_id v \<and> ap_online devs p) (preferences devs (dv_owner v)))"

definition can_roam :: "registry \<Rightarrow> device \<Rightarrow> bool" where
  "can_roam reg v = (case reg (dv_driver v) of None \<Rightarrow> False | Some drv \<Rightarrow> drv_binding drv)"

text \<open>The requests of one round: for each access point, the clients to send away.\<close>

definition roam_plan :: "registry \<Rightarrow> (string, device) dict \<Rightarrow> (device \<times> string list) list" where
  "roam_plan reg devs = map (\<lambda>v. (v, roam_off devs v))
     (filter (\<lambda>v. dv_ap_binding v \<and> roam_off devs v \<noteq> [] \<and> can_roam reg v) (dvals devs))"

definition ap_name :: "(string, device) dict \<Rightarrow> string \<Rightarrow> string" where
  "ap_name devs i = (case dget devs i of None \<Rightarrow> i
     | Some v \<Rightarrow> (case some_nonempty (dv_name v) of None \<Rightarrow> i | Some n \<Rightarrow> n))"

text \<open>
  What an access point answers: not reachable, the clients it sent away, or an error. A log entry
  has the client, the access point it left and the one it prefers.
\<close>

datatype roam_answer = NotReached | Kicked "string list" | RoamError string

definition roam_logs :: "(string \<Rightarrow> string) \<Rightarrow> (string, device) dict \<Rightarrow> device \<Rightarrow> roam_answer \<Rightarrow> poll_log list" where
  "roam_logs safe devs v a = (case a of
     NotReached \<Rightarrow> []
   | Kicked macs \<Rightarrow> map (\<lambda>m. Roamed m (ap_name devs (dv_id v))
       (case dget (preferences devs (dv_owner v)) (upper m) of None \<Rightarrow> [] | Some p \<Rightarrow> ap_name devs p)) macs
   | RoamError e \<Rightarrow> [BindingFailed (dv_id v) (safe e)])"

definition enforce_bindings :: "registry \<Rightarrow> (string \<Rightarrow> string) \<Rightarrow> (device \<Rightarrow> string list \<Rightarrow> roam_answer) \<Rightarrow> device_doc
    \<Rightarrow> (string \<times> string list) list \<times> poll_log list" where
  "enforce_bindings reg safe answer d =
     (let devs = dd_devices d; plan = roam_plan reg devs in
      (map (\<lambda>(v, ms). (dv_id v, ms)) plan, concat (map (\<lambda>(v, ms). roam_logs safe devs v (answer v ms)) plan)))"

section \<open>New clients\<close>

definition em_dash :: string where "em_dash = [CHR 0xE2, CHR 0x80, CHR 0x94]"

definition new_device_text :: "nac_event \<Rightarrow> string" where
  "new_device_text e = ne_name e @ '' ('' @ ne_mac e @ '')''
     @ (if ne_vendor e = [] then [] else '' '' @ em_dash @ '' '' @ ne_vendor e)
     @ (if ne_where e = [] then [] else '' on '' @ ne_where e)"

definition notify_new_devices :: "(device option \<times> nac_event list) result \<Rightarrow> outgoing list" where
  "notify_new_devices scan_result = (case scan_result of
     Inl _ \<Rightarrow> [] | Inr (None, _) \<Rightarrow> []
   | Inr (Some dev, evs) \<Rightarrow> map (\<lambda>e. Outgoing [dv_owner dev]
       \<lparr>ms_title = ''New device on your network'', ms_body = new_device_text e,
        ms_data = [(''type'', JStr ''new_device''), (''mac'', JStr (ne_mac e)), (''deviceId'', JStr (dv_id dev))]\<rparr>) evs)"

section \<open>The refresh of the network\<close>

text \<open>
  The normal poll, then roam enforcement and the search for new clients; a failure of one of
  these two does not keep the other from running, a failure of the poll ends the job.
\<close>

record network_env =
  nv_poll :: poll_env
  nv_registry :: registry
  nv_safe :: "string \<Rightarrow> string"
  nv_answer :: "device \<Rightarrow> string list \<Rightarrow> roam_answer"
  nv_conn :: "string option"
  nv_api :: fw_api
  nv_clients :: "client list result"
  nv_limits :: roster_limits

definition network_refresh :: "network_env \<Rightarrow> int \<Rightarrow> bool \<Rightarrow> (string \<Rightarrow> bool \<times> poll_result) \<Rightarrow> firewall \<Rightarrow> poll_world \<times> roster_doc
    \<Rightarrow> (string \<times> string list) list result \<times> poll_world \<times> roster_doc" where
  "network_refresh env ts stopped reading f st =
     (let (w, rd) = st in
      case poll_once (nv_poll env) ts stopped None (Some dedicated_drivers) reading w of
        (Inl e, w1) \<Rightarrow> (Inl e, w1, rd)
      | (Inr _, w1) \<Rightarrow>
          (let (requests, logs) = enforce_bindings (nv_registry env) (nv_safe env) (nv_answer env) (pw_doc w1);
               (scan_result, rd') = scan_new_clients (nv_registry env) (nv_conn env) (nv_api env) (nv_clients env)
                  (nv_limits env) ts (pw_doc w1) f rd
           in (Inr requests, w1\<lparr>pw_logs := pw_logs w1 @ logs, pw_outbox := pw_outbox w1 @ notify_new_devices scan_result\<rparr>, rd')))"

definition truenas_refresh :: "poll_env \<Rightarrow> int \<Rightarrow> bool \<Rightarrow> (string \<Rightarrow> bool \<times> poll_result) \<Rightarrow> poll_world \<Rightarrow> nat result \<times> poll_world" where
  "truenas_refresh env ts stopped reading w = poll_once env ts stopped (Some [''truenas.system'']) None reading w"

section \<open>Metrics\<close>

record device_metric =
  dm_last_poll :: int
  dm_duration :: int
  dm_failures :: nat
  dm_success :: "int option"
  dm_failure :: "int option"
  dm_error :: "string option"

definition record_device_metric :: "int \<Rightarrow> string \<Rightarrow> bool \<Rightarrow> poll_result \<Rightarrow> (string, device_metric) dict \<Rightarrow> (string, device_metric) dict" where
  "record_device_metric now i online r ms =
     (let failures = (if online then 0 else (case dget ms i of None \<Rightarrow> 0 | Some m \<Rightarrow> dm_failures m) + 1) in
      dput i \<lparr>dm_last_poll = now, dm_duration = py_round ((case pr_elapsed r of None \<Rightarrow> 0 | Some e \<Rightarrow> e) * 1000),
        dm_failures = failures, dm_success = (if online then Some now else None),
        dm_failure = (if online then None else Some now),
        dm_error = (if online then None else Some (short_err (pr_errors r)))\<rparr> ms)"

record job_metric =
  jm_started :: "int option"
  jm_mono :: "rat option"
  jm_completed :: "int option"
  jm_success :: "int option"
  jm_error :: "string option"

record poller_metrics =
  pmx_jobs :: "(string, job_metric) dict"
  pmx_cycle_started :: "int option"
  pmx_cycle_completed :: "int option"
  pmx_cycle_success :: "int option"
  pmx_cycle_ms :: "int option"
  pmx_cycle_error :: "string option"

definition no_metric :: job_metric where
  "no_metric = \<lparr>jm_started = None, jm_mono = None, jm_completed = None, jm_success = None, jm_error = None\<rparr>"

definition tracked_start :: "string \<Rightarrow> int \<Rightarrow> rat \<Rightarrow> poller_metrics \<Rightarrow> poller_metrics" where
  "tracked_start name now tick m =
     (let m1 = m\<lparr>pmx_jobs := dput name ((dget_or (pmx_jobs m) name no_metric)\<lparr>jm_started := Some now, jm_mono := Some tick\<rparr>) (pmx_jobs m)\<rparr> in
      if name = ''network'' then m1\<lparr>pmx_cycle_started := Some now, pmx_cycle_error := None\<rparr> else m1)"

definition record_job_result :: "(string \<Rightarrow> string) \<Rightarrow> string \<Rightarrow> string option \<Rightarrow> int \<Rightarrow> rat \<Rightarrow> poller_metrics \<Rightarrow> poller_metrics" where
  "record_job_result safe name error now tick m =
     (let j = (dget_or (pmx_jobs m) name no_metric)\<lparr>jm_completed := Some now\<rparr>;
          j' = (case error of None \<Rightarrow> j\<lparr>jm_success := Some now, jm_error := None\<rparr> | Some e \<Rightarrow> j\<lparr>jm_error := Some (safe e)\<rparr>);
          m1 = m\<lparr>pmx_jobs := dput name j' (pmx_jobs m)\<rparr>
      in if name = ''network''
         then m1\<lparr>pmx_cycle_completed := Some now, pmx_cycle_error := map_option safe error,
                 pmx_cycle_ms := Some (py_round ((tick - (case jm_mono j of None \<Rightarrow> tick | Some t \<Rightarrow> t)) * 1000)),
                 pmx_cycle_success := (if error = None then Some now else pmx_cycle_success m)\<rparr>
         else m1)"

definition poller_ready :: "bool \<Rightarrow> poller_metrics \<Rightarrow> bool" where
  "poller_ready alive m \<longleftrightarrow> alive \<and> pmx_cycle_success m \<noteq> None"

section \<open>Jobs of the scheduler\<close>

definition default_scheduler :: "poll_config \<Rightarrow> int \<Rightarrow> sched" where
  "default_scheduler c roster_interval = interval_scheduler
     [(''network'', of_int (pc_poll c), 0), (''proxmox'', of_int (pc_proxmox c), 0),
      (''truenas'', of_int (pc_truenas c), 0), (''docker'', of_int (pc_docker c), 0),
      (''clients'', of_int roster_interval, of_int (pc_stagger c))]"

text \<open>
  The wait of the Docker refresh for its jobs: round \<open>n\<close> reads the clock, the stop flag and
  which jobs have ended; not returning is \<open>None\<close>.
\<close>

partial_function (option) docker_wait :: "(nat \<Rightarrow> rat) \<Rightarrow> (nat \<Rightarrow> bool) \<Rightarrow> (nat \<Rightarrow> string \<Rightarrow> bool) \<Rightarrow> rat \<Rightarrow> nat \<Rightarrow> string list \<Rightarrow> string list option" where
  "docker_wait clock stopped terminal deadline n jobs =
     (if jobs = [] \<or> stopped n \<or> \<not> clock n < deadline then Some jobs
      else docker_wait clock stopped terminal deadline (Suc n) (filter (\<lambda>j. \<not> terminal n j) jobs))"

end
