(* ===== verification/Reachability.thy ===== *)
theory Reachability
  imports Poller
begin

text \<open>
  What the poller of \<open>backend/poller.py\<close> guarantees: the debounced state of a device as a function
  of the outcomes of its polls, the survival of the last good values, edge-triggered alerts, the
  effect of a whole cycle on the devices, and the limits of roam enforcement.
\<close>

section \<open>Sequences of polls of one device\<close>

record poll_event =
  pv_online :: bool
  pv_result :: poll_result
  pv_ts :: int

definition poll_device :: "(pyfloat \<Rightarrow> string) \<Rightarrow> nat \<Rightarrow> poll_event \<Rightarrow> device \<Rightarrow> device \<times> captured" where
  "poll_device fl n e dev = apply_record fl n (pv_online e) (pv_result e) (pv_ts e) dev"

definition run_device :: "(pyfloat \<Rightarrow> string) \<Rightarrow> nat \<Rightarrow> poll_event list \<Rightarrow> device \<Rightarrow> device" where
  "run_device fl n es dev = fold (\<lambda>e d. fst (poll_device fl n e d)) es dev"

lemma run_device_snoc: "run_device fl n (es @ [e]) dev = fst (poll_device fl n e (run_device fl n es dev))"
  by (simp add: run_device_def)

text \<open>The abstract state: how many polls have failed since the last success.\<close>

definition trailing_misses :: "bool list \<Rightarrow> nat" where
  "trailing_misses os = length (takeWhile Not (rev os))"

lemma trailing_snoc [simp]: "trailing_misses (os @ [b]) = (if b then 0 else Suc (trailing_misses os))"
  by (simp add: trailing_misses_def)

lemma trailing_Nil [simp]: "trailing_misses [] = 0" "trailing_misses [b] = (if b then 0 else 1)"
  by (simp_all add: trailing_misses_def)

definition reachable :: "nat \<Rightarrow> bool list \<Rightarrow> bool" where
  "reachable n os \<longleftrightarrow> trailing_misses os < n"

lemma eval_alerts_keeps [simp]:
  "dv_state (fst (eval_alerts fl vs dev)) = dv_state dev" "dv_driver (fst (eval_alerts fl vs dev)) = dv_driver dev"
  "dv_alerts (fst (eval_alerts fl vs dev)) = dv_alerts dev" "device_core (fst (eval_alerts fl vs dev)) = device_core dev"
  by (simp_all add: eval_alerts_def split_def Let_def)

lemma apply_record_fields:
  "dv_state (fst (apply_record fl n online r ts dev)) =
     Some (new_state n (icmp_monitored (dv_driver dev)) online r ts (dv_state dev))"
  "dv_driver (fst (apply_record fl n online r ts dev)) = dv_driver dev"
  "dv_alerts (fst (apply_record fl n online r ts dev)) = dv_alerts dev"
  "device_core (fst (apply_record fl n online r ts dev)) = device_core dev"
  "cp_transition (snd (apply_record fl n online r ts dev)) =
     (let c = ps_confirmed (new_state n (icmp_monitored (dv_driver dev)) online r ts (dv_state dev)) in
      if changed (map_option ps_confirmed (dv_state dev)) c then Some (if c then BecameOnline else BecameOffline) else None)"
  by (auto simp: apply_record_def Let_def split_def)

lemma run_device_keeps [simp]:
  "dv_driver (run_device fl n es dev) = dv_driver dev" "dv_alerts (run_device fl n es dev) = dv_alerts dev"
  by (induction es rule: rev_induct) (simp_all add: run_device_snoc poll_device_def apply_record_fields run_device_def)

lemma run_device_state:
  assumes "dv_state dev = None" and "es \<noteq> []"
  shows "\<exists>st. dv_state (run_device fl n es dev) = Some st \<and> ps_online st = pv_online (last es) \<and>
    ps_miss st = trailing_misses (map pv_online es) \<and> (0 < n \<longrightarrow> ps_confirmed st = reachable n (map pv_online es)) \<and>
    ps_ts st = pv_ts (last es)"
  using assms(2)
proof (induction es rule: rev_induct)
  case (snoc e es)
  show ?case
  proof (cases "es = []")
    case True
    with assms(1) show ?thesis
      by (simp add: run_device_snoc run_device_def poll_device_def apply_record_fields new_state_def Let_def confirm_def reachable_def)
  next
    case False
    with snoc.IH obtain st where st: "dv_state (run_device fl n es dev) = Some st" "ps_miss st = trailing_misses (map pv_online es)"
      "0 < n \<longrightarrow> ps_confirmed st = reachable n (map pv_online es)" by blast
    then show ?thesis
      by (auto simp: run_device_snoc poll_device_def apply_record_fields new_state_def Let_def confirm_def reachable_def)
  qed
qed simp

section \<open>The last good values\<close>

definition last_success :: "poll_event list \<Rightarrow> poll_event option" where
  "last_success es = find pv_online (rev es)"

lemma last_success_snoc [simp]: "last_success (es @ [e]) = (if pv_online e then Some e else last_success es)"
  by (simp add: last_success_def)

lemma last_success_Nil [simp]: "last_success [] = None" "last_success [e] = (if pv_online e then Some e else None)"
  by (simp_all add: last_success_def)

lemma last_success_last: "es \<noteq> [] \<Longrightarrow> pv_online (last es) \<Longrightarrow> last_success es = Some (last es)"
  by (induction es rule: rev_induct) auto

lemma run_device_values:
  assumes "dv_state dev = None" and "\<not> icmp_monitored (dv_driver dev)" and "es \<noteq> []"
  shows "\<exists>st. dv_state (run_device fl n es dev) = Some st \<and>
    ps_values st = (case last_success es of None \<Rightarrow> [] | Some e \<Rightarrow> pr_values (pv_result e)) \<and>
    ps_source_checked st = map_option pv_ts (last_success es)"
  using assms(3)
proof (induction es rule: rev_induct)
  case (snoc e es)
  show ?case
  proof (cases "es = []")
    case True
    with assms(1,2) show ?thesis
      by (simp add: run_device_snoc run_device_def poll_device_def apply_record_fields new_state_def Let_def source_checked_def)
  next
    case False
    with snoc.IH obtain st where st: "dv_state (run_device fl n es dev) = Some st"
      "ps_values st = (case last_success es of None \<Rightarrow> [] | Some e \<Rightarrow> pr_values (pv_result e))"
      "ps_source_checked st = map_option pv_ts (last_success es)" by blast
    from run_device_state [OF assms(1) False, of fl n] st(1)
    have "ps_online st = pv_online (last es)" by auto
    then have "last_success es \<noteq> None" if "ps_online st" using last_success_last [OF False] that by simp
    with st assms(2) show ?thesis
      by (auto simp: run_device_snoc poll_device_def apply_record_fields new_state_def Let_def source_checked_def split: option.splits)
  qed
qed simp

text \<open>
  A device watched by ICMP alone gets the time of its first probe as the time of its last full
  reading, although no reading was ever made.
\<close>

lemma icmp_probe_dates_readings:
  assumes "dv_state dev = None" and "icmp_monitored (dv_driver dev)" and "t1 \<noteq> 0"
  shows "\<exists>st. dv_state (run_device fl n [\<lparr>pv_online = True, pv_result = r1, pv_ts = t1\<rparr>,
      \<lparr>pv_online = True, pv_result = r2, pv_ts = t2\<rparr>] dev) = Some st \<and>
    ps_values st = [] \<and> ps_source_checked st = Some t1"
  using assms
  by (simp add: run_device_def poll_device_def apply_record_fields new_state_def Let_def source_checked_def)

section \<open>Alerts\<close>

lemma alert_loop_state:
  assumes "distinct (map (rule_id fl) rs)"
  shows "dget (fst (alert_loop fl vs rs st)) rid =
    (case find (\<lambda>r. rule_id fl r = rid \<and> num_of (getn vs (ar_key r)) \<noteq> None) rs of
       None \<Rightarrow> dget st rid | Some r \<Rightarrow> Some (breached r (the (num_of (getn vs (ar_key r))))))"
  using assms
proof (induction fl vs rs st rule: alert_loop.induct)
  case (2 fl vs r rs st)
  have none: "find (\<lambda>r'. rule_id fl r' = rule_id fl r \<and> num_of (getn vs (ar_key r')) \<noteq> None) rs = None"
    using 2(4) by (auto simp: find_None_iff) (metis imageI)
  show ?case
  proof (cases "num_of (getn vs (ar_key r))")
    case None
    with 2 show ?thesis by simp
  next
    case (Some c)
    show ?thesis
    proof (cases "dget st (rule_id fl r) = Some (breached r c)")
      case True
      with 2 Some none show ?thesis by auto
    next
      case False
      with 2 Some none show ?thesis by (auto simp: split_def Let_def cong: option.case_cong)
    qed
  qed
qed simp

lemma alert_loop_keys: "dict_ok st \<Longrightarrow> dict_ok (fst (alert_loop fl vs rs st))"
  by (induction fl vs rs st rule: alert_loop.induct) (auto simp: split_def Let_def split: option.split)

lemma alert_loop_events:
  assumes "distinct (map (rule_id fl) rs)"
  shows "snd (alert_loop fl vs rs st) = concat (map (\<lambda>r. case num_of (getn vs (ar_key r)) of
      None \<Rightarrow> []
    | Some c \<Rightarrow> if dget st (rule_id fl r) = Some (breached r c) then []
        else [\<lparr>ae_rule = r, ae_current = getn vs (ar_key r), ae_breached = breached r c\<rparr>]) rs)"
  using assms
proof (induction fl vs rs st rule: alert_loop.induct)
  case (2 fl vs r rs st)
  have other: "rule_id fl x \<noteq> rule_id fl r" if "x \<in> set rs" for x
    using 2(4) that by (metis distinct.simps(2) imageI list.simps(9) set_map)
  show ?case
  proof (cases "num_of (getn vs (ar_key r))")
    case None
    with 2 show ?thesis by simp
  next
    case (Some c)
    show ?thesis
    proof (cases "dget st (rule_id fl r) = Some (breached r c)")
      case True
      with 2 Some show ?thesis by simp
    next
      case False
      have "map (\<lambda>x. case num_of (getn vs (ar_key x)) of None \<Rightarrow> []
          | Some c' \<Rightarrow> if dget (dput (rule_id fl r) (breached r c) st) (rule_id fl x) = Some (breached x c') then []
            else [\<lparr>ae_rule = x, ae_current = getn vs (ar_key x), ae_breached = breached x c'\<rparr>]) rs =
        map (\<lambda>x. case num_of (getn vs (ar_key x)) of None \<Rightarrow> []
          | Some c' \<Rightarrow> if dget st (rule_id fl x) = Some (breached x c') then []
            else [\<lparr>ae_rule = x, ae_current = getn vs (ar_key x), ae_breached = breached x c'\<rparr>]) rs"
        using other by (intro map_cong) (auto split: option.split)
      with 2 Some False show ?thesis by (simp add: split_def Let_def del: dget_dput)
    qed
  qed
qed simp

lemma eval_alerts_state:
  assumes "distinct (map (rule_id fl) (dv_alerts dev))" and "dict_ok (dv_alert_state dev)" and "r \<in> set (dv_alerts dev)"
  shows "dget (dv_alert_state (fst (eval_alerts fl vs dev))) (rule_id fl r) =
    (case num_of (getn vs (ar_key r)) of None \<Rightarrow> dget (dv_alert_state dev) (rule_id fl r) | Some c \<Rightarrow> Some (breached r c))"
proof -
  have own: "x = r" if "x \<in> set (dv_alerts dev)" "rule_id fl x = rule_id fl r" for x
    using assms(1,3) that by (auto simp: distinct_map dest: inj_onD)
  have "find (\<lambda>x. rule_id fl x = rule_id fl r \<and> num_of (getn vs (ar_key x)) \<noteq> None) (dv_alerts dev) =
      (if num_of (getn vs (ar_key r)) = None then None else Some r)"
  proof (cases "find (\<lambda>x. rule_id fl x = rule_id fl r \<and> num_of (getn vs (ar_key x)) \<noteq> None) (dv_alerts dev)")
    case None
    with assms(3) show ?thesis by (auto simp: find_None_iff)
  next
    case (Some x)
    then show ?thesis using own by (auto simp: find_Some_iff) (metis nth_mem option.distinct(1))+
  qed
  then have "dget (fst (alert_loop fl vs (dv_alerts dev) (dv_alert_state dev))) (rule_id fl r) =
      (case num_of (getn vs (ar_key r)) of None \<Rightarrow> dget (dv_alert_state dev) (rule_id fl r) | Some c \<Rightarrow> Some (breached r c))"
    using alert_loop_state [OF assms(1), of vs "dv_alert_state dev" "rule_id fl r"] by (auto split: option.splits)
  with assms(3) alert_loop_keys [OF assms(2), of fl vs "dv_alerts dev"] show ?thesis
    by (auto simp: eval_alerts_def split_def Let_def dget_dfilter split: option.splits)
qed

lemma eval_alerts_events:
  assumes "distinct (map (rule_id fl) (dv_alerts dev))"
  shows "e \<in> set (snd (eval_alerts fl vs dev)) \<longleftrightarrow>
    (\<exists>r c. r \<in> set (dv_alerts dev) \<and> num_of (getn vs (ar_key r)) = Some c \<and>
      dget (dv_alert_state dev) (rule_id fl r) \<noteq> Some (breached r c) \<and>
      e = \<lparr>ae_rule = r, ae_current = getn vs (ar_key r), ae_breached = breached r c\<rparr>)"
proof -
  have "snd (eval_alerts fl vs dev) = snd (alert_loop fl vs (dv_alerts dev) (dv_alert_state dev))"
    by (simp add: eval_alerts_def split_def Let_def)
  then show ?thesis
    unfolding alert_loop_events [OF assms] by (auto split: option.splits if_splits) force+
qed

text \<open>
  The first reading that a new rule meets is reported as a recovery when it is in range: the
  rule has crossed nothing.
\<close>

lemma new_rule_reports_recovery:
  assumes "dv_alerts dev = [r]" and "dv_alert_state dev = []" and "num_of (getn vs (ar_key r)) = Some c" and "\<not> breached r c"
  shows "snd (eval_alerts fl vs dev) = [\<lparr>ae_rule = r, ae_current = getn vs (ar_key r), ae_breached = False\<rparr>]"
    and "\<exists>us body d. notify_alert tx fl pd dev \<lparr>ae_rule = r, ae_current = getn vs (ar_key r), ae_breached = False\<rparr> =
      Outgoing us \<lparr>ms_title = ''Recovered: '' @ device_name dev, ms_body = body, ms_data = d\<rparr>"
  using assms by (simp_all add: eval_alerts_def notify_alert_def Let_def)

section \<open>A cycle over all devices\<close>

lemma record_loop_devices:
  "distinct (map fst reads) \<Longrightarrow> dget (fst (record_loop fl n ts reads (devs, caps))) i = (case dget devs i of
      None \<Rightarrow> None
    | Some v \<Rightarrow> (case dget reads i of None \<Rightarrow> Some v
        | Some (online, r) \<Rightarrow> Some (fst (apply_record fl n online r ts v))))"
proof (induction fl n ts reads "(devs, caps)" arbitrary: devs caps rule: record_loop.induct)
  case (1 fl n ts devs caps)
  then show ?case by (simp split: option.split)
next
  case (2 fl n ts j online r rest devs caps)
  from "2.prems" have j: "dget rest j = None" and d: "distinct (map fst rest)" by (simp_all add: dget_None_iff)
  show ?case
  proof (cases "dget devs j")
    case None
    with "2.hyps"(1) [OF None d] show ?thesis by (cases "i = j") (auto cong: option.case_cong)
  next
    case (Some v)
    note IH = "2.hyps"(2) [OF Some refl prod.collapse d]
    show ?thesis using IH Some j by (cases "i = j") (auto simp: split_def Let_def split: option.split)
  qed
qed

lemma record_loop_keys: "dict_ok devs \<Longrightarrow> dict_ok (fst (record_loop fl n ts reads (devs, caps)))"
  by (induction fl n ts reads "(devs, caps)" arbitrary: devs caps rule: record_loop.induct)
    (auto simp: split_def Let_def split: option.split)

lemma finish_all_doc: "pw_doc (snd (finish_all env ts reads cs w)) = pw_doc w"
  by (induction env ts reads cs w rule: finish_all.induct) (auto split: prod.split sum.split)

lemma record_all_devices:
  "dd_devices (pw_doc (snd (record_all env ts reads w))) =
     fst (record_loop (pe_float env) (pe_limit env) ts reads (dd_devices (pw_doc w), []))"
  "pw_doc (snd (record_all env ts reads w)) = (pw_doc w)\<lparr>dd_devices :=
     fst (record_loop (pe_float env) (pe_limit env) ts reads (dd_devices (pw_doc w), []))\<rparr>"
  by (simp_all add: record_all_def record_mut_poll_def transact_def split_def Let_def finish_all_doc)

lemma record_all_inv:
  assumes "device_inv (pw_doc w)" and "distinct (map fst reads)"
  shows "device_inv (pw_doc (snd (record_all env ts reads w)))"
  unfolding record_all_devices(2)
proof (rule device_inv_core [OF assms(1)])
  show "dict_ok (fst (record_loop (pe_float env) (pe_limit env) ts reads (dd_devices (pw_doc w), [])))"
    by (rule record_loop_keys) (use assms(1) in \<open>simp add: device_inv_def dict_all_def\<close>)
  show "map_option device_core (dget (fst (record_loop (pe_float env) (pe_limit env) ts reads (dd_devices (pw_doc w), []))) k) =
      map_option device_core (dget (dd_devices (pw_doc w)) k)" for k
    unfolding record_loop_devices [OF assms(2)] by (auto simp: apply_record_fields split: option.split)
qed

text \<open>
  When the history file of one device cannot be written the cycle ends there: the state of every
  device is stored already, but nothing is sent for that device and the ones after it.
\<close>

lemma failed_history_silences:
  assumes "pe_fault env i = WriteFails"
  shows "fst (finish_all env ts reads ((i, c) # rest) w) = Inl (RuntimeError ''write'') \<and>
    pw_outbox (snd (finish_all env ts reads ((i, c) # rest) w)) = pw_outbox w"
  using assms by (simp add: append_history_def update_history_def write_file_def)

section \<open>Roam enforcement\<close>

lemma preferences_dict: "dict_ok (preferences devs owner)"
proof -
  have inner: "dict_ok d \<Longrightarrow> dict_ok (fold (\<lambda>mac. dput (upper mac) i) ms d)" for i ms and d :: "(string, string) dict"
    by (induction ms arbitrary: d) auto
  have "dict_ok d \<Longrightarrow> dict_ok (fold (\<lambda>v pref. fold (\<lambda>mac. dput (upper mac) (dv_id v)) (dv_bound v) pref) vs d)"
    for vs :: "device list" and d :: "(string, string) dict"
    by (induction vs arbitrary: d) (auto intro: inner)
  then show ?thesis by (simp add: preferences_def binding_map_def)
qed

lemma roam_off_bound:
  assumes "device_inv d" and "m \<in> set (roam_off (dd_devices d) v)"
  shows "\<exists>p target st. p \<noteq> dv_id v \<and> dget (dd_devices d) p = Some target \<and> dv_owner target = dv_owner v \<and>
    m \<in> upper ` set (dv_bound target) \<and> dv_state target = Some st \<and> ps_online st"
proof -
  from assms(2) obtain p where p: "(m, p) \<in> set (preferences (dd_devices d) (dv_owner v))" "p \<noteq> dv_id v" "ap_online (dd_devices d) p"
    by (auto simp: roam_off_def)
  then have "dget (preferences (dd_devices d) (dv_owner v)) m = Some p"
    by (simp add: dget_mem_iff preferences_dict)
  then have "dget (binding_map (dv_owner v) (dd_devices d)) m = Some p"
    by (auto simp: preferences_def split: if_splits)
  with p show ?thesis
    by (auto simp: binding_map_get [OF assms(1)] ap_online_def split: option.splits)
qed

section \<open>Waiting for discovery jobs\<close>

lemma docker_wait_rounds:
  assumes "\<And>k. \<not> stopped (Suc k) \<Longrightarrow> clock k + 1 / 4 \<le> clock (Suc k)"
  shows "\<exists>m left. docker_wait clock stopped terminal deadline n jobs = Some left \<and> n \<le> m \<and>
    set left \<subseteq> set jobs \<and> (left = [] \<or> stopped m \<or> deadline \<le> clock m) \<and>
    (\<forall>j \<in> set left. \<forall>k \<in> {n..<m}. \<not> terminal k j)"
proof (induction "if stopped n then 0 else Suc (nat \<lceil>(deadline - clock n) * 4\<rceil>)" arbitrary: n jobs rule: less_induct)
  case less
  show ?case
  proof (cases "jobs = [] \<or> stopped n \<or> \<not> clock n < deadline")
    case True
    then have "docker_wait clock stopped terminal deadline n jobs = Some jobs" by (subst docker_wait.simps) simp
    with True show ?thesis by (intro exI [of _ n] exI [of _ jobs]) auto
  next
    case False
    let ?jobs = "filter (\<lambda>j. \<not> terminal n j) jobs"
    let ?f = "\<lambda>n. if stopped n then 0 else Suc (nat \<lceil>(deadline - clock n) * 4\<rceil>)"
    have "?f (Suc n) < ?f n"
    proof (cases "stopped (Suc n)")
      case True
      with False show ?thesis by simp
    next
      case go: False
      with assms [of n] have "(deadline - clock (Suc n)) * 4 \<le> max 0 ((deadline - clock n) * 4 - 1)" by (simp add: max_def)
      then have "\<lceil>(deadline - clock (Suc n)) * 4\<rceil> \<le> max 0 (\<lceil>(deadline - clock n) * 4\<rceil> - 1)" by (rule ceiling_step)
      moreover have "0 < \<lceil>(deadline - clock n) * 4\<rceil>" using False by simp
      ultimately have "nat \<lceil>(deadline - clock (Suc n)) * 4\<rceil> < nat \<lceil>(deadline - clock n) * 4\<rceil>"
        by (auto simp: max_def split: if_splits)
      with False go show ?thesis by simp
    qed
    from less [OF this, of ?jobs] obtain m left where
      ih: "docker_wait clock stopped terminal deadline (Suc n) ?jobs = Some left" "Suc n \<le> m" "set left \<subseteq> set ?jobs"
        "left = [] \<or> stopped m \<or> deadline \<le> clock m" "\<forall>j \<in> set left. \<forall>k \<in> {Suc n..<m}. \<not> terminal k j" by blast
    have "docker_wait clock stopped terminal deadline n jobs = Some left"
      using False ih(1) by (subst docker_wait.simps) simp
    moreover have "\<not> terminal k j" if "j \<in> set left" "k \<in> {n..<m}" for j k
      using ih(3,5) that by (cases "k = n") auto
    ultimately show ?thesis using ih by (intro exI [of _ m] exI [of _ left]) auto
  qed
qed

section \<open>Properties\<close>

text \<open>
  Property C9: the stored reachability of a device refines one number, the misses since its last
  success. After any polls of a new device the state shows the last outcome and that number, it
  counts as offline exactly when the number has reached the limit, and the next poll announces a
  transition exactly when it changes that verdict.
\<close>

theorem debounce_exact:
  assumes "dv_state dev = None" and "es \<noteq> []" and "0 < n"
  shows "\<exists>st. dv_state (run_device fl n es dev) = Some st \<and> ps_online st = pv_online (last es) \<and>
    ps_miss st = trailing_misses (map pv_online es) \<and>
    (ps_confirmed st \<longleftrightarrow> trailing_misses (map pv_online es) < n) \<and>
    cp_transition (snd (poll_device fl n e (run_device fl n es dev))) =
      (if reachable n (map pv_online (es @ [e])) = reachable n (map pv_online es) then None
       else Some (if pv_online e then BecameOnline else BecameOffline))"
proof -
  from run_device_state [OF assms(1,2), of fl n] assms(3) obtain st where
    st: "dv_state (run_device fl n es dev) = Some st" "ps_online st = pv_online (last es)"
      "ps_miss st = trailing_misses (map pv_online es)" "ps_confirmed st = reachable n (map pv_online es)" by blast
  have "cp_transition (snd (poll_device fl n e (run_device fl n es dev))) =
      (if reachable n (map pv_online (es @ [e])) = reachable n (map pv_online es) then None
       else Some (if pv_online e then BecameOnline else BecameOffline))"
    using st assms(3)
    by (auto simp: poll_device_def apply_record_fields new_state_def Let_def confirm_def changed_def reachable_def)
  with st show ?thesis by (auto simp: reachable_def)
qed

text \<open>
  A failed poll never destroys a reading. The values shown for a device are those of
  its last successful poll, with the time of that poll, however many polls have failed since.
\<close>

theorem last_good_values_kept:
  assumes "dv_state dev = None" and "\<not> icmp_monitored (dv_driver dev)" and "es \<noteq> []"
  shows "\<exists>st. dv_state (run_device fl n es dev) = Some st \<and>
    ps_values st = (case last_success es of None \<Rightarrow> [] | Some e \<Rightarrow> pr_values (pv_result e)) \<and>
    ps_source_checked st = map_option pv_ts (last_success es)"
  by (rule run_device_values [OF assms])

text \<open>
  Property C10: alerts are edge-triggered. An evaluation reports a rule exactly when it has a
  number for it and the stored verdict is a different one or missing; it stores the new verdict,
  keeps the old one of a rule without a number, and evaluating the same values again reports
  nothing.
\<close>

theorem alerts_edge_triggered:
  assumes "distinct (map (rule_id fl) (dv_alerts dev))" and "dict_ok (dv_alert_state dev)"
    and "r \<in> set (dv_alerts dev)" and "eval_alerts fl vs dev = (dev', evs)"
  shows "(\<lparr>ae_rule = r, ae_current = getn vs (ar_key r), ae_breached = b\<rparr> \<in> set evs \<longleftrightarrow>
      (\<exists>c. num_of (getn vs (ar_key r)) = Some c \<and> b = breached r c \<and>
        dget (dv_alert_state dev) (rule_id fl r) \<noteq> Some b)) \<and>
    dget (dv_alert_state dev') (rule_id fl r) = (case num_of (getn vs (ar_key r)) of
      None \<Rightarrow> dget (dv_alert_state dev) (rule_id fl r) | Some c \<Rightarrow> Some (breached r c)) \<and>
    snd (eval_alerts fl vs dev') = []"
proof -
  from assms(4) have d: "dev' = fst (eval_alerts fl vs dev)" "evs = snd (eval_alerts fl vs dev)" by simp_all
  have alerts: "dv_alerts dev' = dv_alerts dev" by (simp add: d)
  have st: "dget (dv_alert_state dev') (rule_id fl x) = (case num_of (getn vs (ar_key x)) of
      None \<Rightarrow> dget (dv_alert_state dev) (rule_id fl x) | Some c \<Rightarrow> Some (breached x c))" if "x \<in> set (dv_alerts dev)" for x
    unfolding d(1) by (rule eval_alerts_state [OF assms(1,2) that])
  have "snd (eval_alerts fl vs dev') = []"
  proof (rule ccontr)
    assume "snd (eval_alerts fl vs dev') \<noteq> []"
    then obtain e where "e \<in> set (snd (eval_alerts fl vs dev'))" by (meson last_in_set)
    then obtain x c where "x \<in> set (dv_alerts dev)" "num_of (getn vs (ar_key x)) = Some c"
      "dget (dv_alert_state dev') (rule_id fl x) \<noteq> Some (breached x c)"
      using eval_alerts_events [of fl dev' e vs] assms(1) by (auto simp: alerts)
    with st [of x] show False by simp
  qed
  moreover have "\<lparr>ae_rule = r, ae_current = getn vs (ar_key r), ae_breached = b\<rparr> \<in> set evs \<longleftrightarrow>
      (\<exists>c. num_of (getn vs (ar_key r)) = Some c \<and> b = breached r c \<and> dget (dv_alert_state dev) (rule_id fl r) \<noteq> Some b)"
    unfolding d(2) eval_alerts_events [OF assms(1)] using assms(3) by auto
  ultimately show ?thesis using st [OF assms(3)] by blast
qed

text \<open>
  Property C11: a cycle records every device that was read and still exists with its own result and
  no other, never creates or removes a device, and keeps the invariant of the device records; a
  device that was deleted during the cycle stays deleted.
\<close>

theorem poll_cycle_exact:
  assumes "device_inv (pw_doc w)" and "distinct (map fst reads)" and "record_all env ts reads w = (res, w')"
  shows "device_inv (pw_doc w') \<and>
    dget (dd_devices (pw_doc w')) i = (case dget (dd_devices (pw_doc w)) i of
      None \<Rightarrow> None
    | Some v \<Rightarrow> (case dget reads i of
        None \<Rightarrow> Some v
      | Some (online, r) \<Rightarrow> Some (fst (apply_record (pe_float env) (pe_limit env) online r ts v))))"
  using record_all_inv [OF assms(1,2), of env ts] record_all_devices(1) [of env ts reads w]
    record_loop_devices [OF assms(2), of "pe_float env" "pe_limit env" ts "dd_devices (pw_doc w)" "[]" i] assms(3)
  by simp

text \<open>
  Property C12: roam enforcement sends a client away only from an access point that opted in and
  whose driver can do it, and only when the client is bound to another device of the same owner
  that answered its last poll.
\<close>

theorem roam_only_to_reachable:
  assumes "device_inv d" and "(i, ms) \<in> set (fst (enforce_bindings reg safe answer d))" and "m \<in> set ms"
  shows "\<exists>v p target st. dget (dd_devices d) i = Some v \<and> dv_ap_binding v \<and>
    (\<exists>drv. reg (dv_driver v) = Some drv \<and> drv_binding drv) \<and>
    p \<noteq> i \<and> dget (dd_devices d) p = Some target \<and> dv_owner target = dv_owner v \<and>
    m \<in> upper ` set (dv_bound target) \<and> dv_state target = Some st \<and> ps_online st"
proof -
  from assms(2) obtain v where v: "v \<in> set (dvals (dd_devices d))" "dv_ap_binding v" "can_roam reg v"
    "i = dv_id v" "ms = roam_off (dd_devices d) v"
    by (auto simp: enforce_bindings_def roam_plan_def Let_def)
  have "dict_all (\<lambda>k v. dv_id v = k) (dd_devices d)" using assms(1) by (simp add: device_inv_def)
  with v have "dget (dd_devices d) i = Some v"
    by (auto simp: dict_all_def dget_mem_iff)
  with v roam_off_bound [OF assms(1)] assms(3) show ?thesis
    by (auto simp: can_roam_def split: option.splits)
qed

text \<open>
  The wait for discovery jobs returns. With a clock that advances a quarter of a
  second per round unless the poller is stopped, it ends; the jobs it gives up on had not ended
  in any round, and it gives up only when stopped or after the deadline.
\<close>

theorem docker_wait_returns:
  assumes "\<forall>k. \<not> stopped (Suc k) \<longrightarrow> clock k + 1 / 4 \<le> clock (Suc k)"
  shows "\<exists>m left. docker_wait clock stopped terminal deadline 0 jobs = Some left \<and> set left \<subseteq> set jobs \<and>
    (left = [] \<or> stopped m \<or> deadline \<le> clock m) \<and> (\<forall>j \<in> set left. \<forall>k < m. \<not> terminal k j)"
proof -
  from docker_wait_rounds [of stopped clock terminal deadline 0 jobs] assms obtain m left where
    "docker_wait clock stopped terminal deadline 0 jobs = Some left" "set left \<subseteq> set jobs"
    "left = [] \<or> stopped m \<or> deadline \<le> clock m" "\<forall>j \<in> set left. \<forall>k \<in> {0..<m}. \<not> terminal k j" by blast
  then show ?thesis by (intro exI [of _ m] exI [of _ left]) simp
qed

section \<open>Witnesses\<close>

definition demo_event :: "bool \<Rightarrow> int \<Rightarrow> int \<Rightarrow> poll_event" where
  "demo_event online v ts = \<lparr>pv_online = online, pv_result = empty_result\<lparr>pr_values := [(''cpu'', JInt v)]\<rparr>, pv_ts = ts\<rparr>"

definition demo_polled :: device where
  "demo_polled = demo_device ''a'' ''c1'' 0 []"

definition demo_rule :: alert_rule where
  "demo_rule = \<lparr>ar_key = ''cpu'', ar_op = Above, ar_value = Fin 90, ar_label = ''CPU''\<rparr>"

lemma demo_polled_fields [simp]:
  "dv_state demo_polled = None" "\<not> icmp_monitored (dv_driver demo_polled)"
  by (simp_all add: demo_polled_def demo_device_def icmp_monitored_def)

theorem debounce_exact_witness:
  "\<exists>st. dv_state (run_device (\<lambda>_. []) 2 [demo_event True 5 1, demo_event False 0 2] demo_polled) = Some st \<and>
    ps_miss st = 1 \<and> ps_confirmed st \<and>
    cp_transition (snd (poll_device (\<lambda>_. []) 2 (demo_event False 0 3)
      (run_device (\<lambda>_. []) 2 [demo_event True 5 1, demo_event False 0 2] demo_polled))) = Some BecameOffline"
proof -
  have "trailing_misses (map pv_online [demo_event True 5 1, demo_event False 0 2]) = 1"
    "reachable 2 (map pv_online [demo_event True 5 1, demo_event False 0 2])"
    "\<not> reachable 2 (map pv_online ([demo_event True 5 1, demo_event False 0 2] @ [demo_event False 0 3]))" by code_simp+
  with debounce_exact [of demo_polled "[demo_event True 5 1, demo_event False 0 2]" 2 "\<lambda>_. []" "demo_event False 0 3"]
  show ?thesis by (auto simp: demo_event_def)
qed

theorem last_good_values_kept_witness:
  "\<exists>st. dv_state (run_device (\<lambda>_. []) 2 [demo_event True 5 1, demo_event False 0 2] demo_polled) = Some st \<and>
    ps_values st = [(''cpu'', JInt 5)] \<and> ps_source_checked st = Some 1"
  using last_good_values_kept [of demo_polled "[demo_event True 5 1, demo_event False 0 2]" "\<lambda>_. []" 2]
  by (simp add: demo_event_def last_success_def)

theorem alerts_edge_triggered_witness:
  "\<lparr>ae_rule = demo_rule, ae_current = JInt 95, ae_breached = True\<rparr> \<in>
     set (snd (eval_alerts (\<lambda>_. ''90'') [(''cpu'', JInt 95)] (demo_polled\<lparr>dv_alerts := [demo_rule]\<rparr>))) \<and>
   snd (eval_alerts (\<lambda>_. ''90'') [(''cpu'', JInt 95)]
     (fst (eval_alerts (\<lambda>_. ''90'') [(''cpu'', JInt 95)] (demo_polled\<lparr>dv_alerts := [demo_rule]\<rparr>)))) = []"
  using alerts_edge_triggered [of "\<lambda>_. ''90''" "demo_polled\<lparr>dv_alerts := [demo_rule]\<rparr>" demo_rule
      "[(''cpu'', JInt 95)]" _ _ True, OF _ _ _ prod.collapse [symmetric]]
  by (simp add: demo_polled_def demo_device_def demo_rule_def getn_def breached_def)

definition demo_poll_env :: poll_env where
  "demo_poll_env = \<lparr>pe_text = (\<lambda>_. []), pe_float = (\<lambda>_. []), pe_limit = 5, pe_push = demo_push, pe_fault = (\<lambda>_. NoFault)\<rparr>"

definition demo_world :: "device_doc \<Rightarrow> poll_world" where
  "demo_world d = \<lparr>pw_doc = d, pw_history = demo_disk, pw_outbox = [], pw_logs = []\<rparr>"

theorem poll_cycle_exact_witness:
  "device_inv (pw_doc (snd (record_all demo_poll_env 7 [(''a'', True, empty_result), (''gone'', True, empty_result)] (demo_world demo_devices)))) \<and>
   dget (dd_devices (pw_doc (snd (record_all demo_poll_env 7 [(''a'', True, empty_result), (''gone'', True, empty_result)]
     (demo_world demo_devices))))) ''gone'' = None"
  using poll_cycle_exact [of "demo_world demo_devices" "[(''a'', True, empty_result), (''gone'', True, empty_result)]"
      demo_poll_env 7 _ _ "''gone''", OF _ _ prod.collapse [symmetric]] demo_devices_inv
  by (simp add: demo_world_def demo_device_defs)

definition demo_bound :: device where
  "demo_bound = demo_device ''a'' ''c1'' 0 [''AA:BB:CC:DD:EE:FF'']"

definition demo_roaming :: device_doc where
  "demo_roaming = demo_devices\<lparr>dd_devices := dput ''a'' (demo_bound\<lparr>dv_state :=
     Some (new_state 5 False True empty_result 7 None)\<rparr>) (dd_devices demo_devices)\<rparr>"

theorem roam_only_to_reachable_witness:
  "\<exists>v p target st. dget (dd_devices demo_roaming) ''b'' = Some v \<and> dv_ap_binding v \<and>
    (\<exists>drv. demo_registry (dv_driver v) = Some drv \<and> drv_binding drv) \<and>
    p \<noteq> ''b'' \<and> dget (dd_devices demo_roaming) p = Some target \<and> dv_owner target = dv_owner v \<and>
    ''AA:BB:CC:DD:EE:FF'' \<in> upper ` set (dv_bound target) \<and> dv_state target = Some st \<and> ps_online st"
proof -
  have "device_inv demo_roaming"
    unfolding demo_roaming_def by (rule device_inv_dput [OF demo_devices_inv, where v = demo_bound])
      (simp_all add: demo_devices_def demo_bound_def)
  moreover have "fst (enforce_bindings demo_registry (\<lambda>e. e) (\<lambda>_ _. NotReached) demo_roaming) = [(''b'', [''AA:BB:CC:DD:EE:FF''])]"
    by code_simp
  ultimately show ?thesis
    using roam_only_to_reachable [of demo_roaming "''b''" "[''AA:BB:CC:DD:EE:FF'']" demo_registry "\<lambda>e. e" "\<lambda>_ _. NotReached"
        "''AA:BB:CC:DD:EE:FF''"] by simp
qed

theorem docker_wait_returns_witness:
  "\<exists>left. docker_wait (\<lambda>n. of_nat n / 4) (\<lambda>_. False) (\<lambda>n j. j = ''a'' \<and> 2 \<le> n) 5 0 [''a'', ''b''] = Some left \<and>
     set left \<subseteq> {''a'', ''b''}"
  using docker_wait_returns [of "\<lambda>_. False" "\<lambda>n. of_nat n / 4" "\<lambda>n j. j = ''a'' \<and> 2 \<le> n" 5 "[''a'', ''b'']"]
  by (auto simp: field_simps)

end
