(* ===== verification/JobResults.thy ===== *)
theory JobResults
  imports Devices
begin

text \<open>
  What a maintenance playbook reports: \<open>backend/compute_maintenance.py\<close>, from the PLAY RECAP and the
  structured results in the output to the update contracts, with the project modes of
  \<open>backend/ansible_integration.py\<close>. The JSON decoder of the standard library (\<open>loads\<close> of a whole text,
  \<open>raw\<close> of the value a text starts with and the characters it takes) and the rendering of values by
  \<open>str\<close> are arguments.
\<close>

section \<open>Text\<close>

definition is_break :: "char \<Rightarrow> bool" where
  "is_break c \<longleftrightarrow> c \<in> {CHR 0x0A, CHR 0x0B, CHR 0x0C, CHR 0x0D, CHR 0x1C, CHR 0x1D, CHR 0x1E}"

fun lines_from :: "string \<Rightarrow> string \<Rightarrow> string list" where
  "lines_from acc [] = (if acc = [] then [] else [rev acc])"
| "lines_from acc (c # cs) =
     (if c = CHR 0x0D \<and> cs \<noteq> [] \<and> hd cs = CHR 0x0A then rev acc # lines_from [] (tl cs)
      else if is_break c then rev acc # lines_from [] cs
      else lines_from (c # acc) cs)"

definition splitlines :: "string \<Rightarrow> string list" where
  "splitlines s = lines_from [] s"

text \<open>What follows the first occurrence of a text.\<close>

fun after_sub :: "string \<Rightarrow> string \<Rightarrow> string option" where
  "after_sub p [] = (if p = [] then Some [] else None)"
| "after_sub p (c # cs) = (if startswith (c # cs) p then Some (drop (length p) (c # cs)) else after_sub p cs)"

fun replace_pair :: "char \<Rightarrow> char \<Rightarrow> char \<Rightarrow> string \<Rightarrow> string" where
  "replace_pair a b c (x # y # s) = (if x = a \<and> y = b then c # replace_pair a b c s else x # replace_pair a b c (y # s))"
| "replace_pair a b c s = s"

fun first_some :: "('a \<Rightarrow> 'b option) \<Rightarrow> 'a list \<Rightarrow> 'b option" where
  "first_some f [] = None"
| "first_some f (x # xs) = (case f x of Some y \<Rightarrow> Some y | None \<Rightarrow> first_some f xs)"

section \<open>The PLAY RECAP\<close>

fun skip_space :: "string \<Rightarrow> string option" where
  "skip_space [] = None"
| "skip_space (c # cs) = (if is_space c then Some (dropWhile is_space cs) else None)"

definition read_counter :: "string \<Rightarrow> string \<Rightarrow> (nat \<times> string) option" where
  "read_counter key s =
     (if startswith s (key @ ''='') then
        (let rest = drop (length key + 1) s; ds = takeWhile is_digit_char rest in
         if ds = [] then None else Some (nat_of_digits ds, dropWhile is_digit_char rest))
      else None)"

fun read_counters :: "string list \<Rightarrow> string \<Rightarrow> nat list option" where
  "read_counters [] s = (if list_all is_space s then Some [] else None)"
| "read_counters (k # ks) s = (case skip_space s of None \<Rightarrow> None
     | Some s1 \<Rightarrow> (case read_counter k s1 of None \<Rightarrow> None
       | Some (n, s2) \<Rightarrow> map_option (\<lambda>ns. n # ns) (read_counters ks s2)))"

definition recap_keys :: "string list" where
  "recap_keys = [''ok'', ''changed'', ''unreachable'', ''failed'', ''skipped'', ''rescued'', ''ignored'']"

definition recap_tail :: "string \<Rightarrow> nat list option" where
  "recap_tail s = (case skip_space s of
     Some (c # rest) \<Rightarrow> if c = CHR '':'' then read_counters recap_keys rest else None
   | _ \<Rightarrow> None)"

text \<open>The shortest host name that leaves a complete tail.\<close>

fun recap_split :: "string \<Rightarrow> string \<Rightarrow> (string \<times> nat list) option" where
  "recap_split host [] = None"
| "recap_split host (c # rest) = (let h = host @ [c] in
     case recap_tail rest of Some ns \<Rightarrow> Some (h, ns) | None \<Rightarrow> recap_split h rest)"

definition parse_recap :: "string \<Rightarrow> (string, (string, nat) dict) dict" where
  "parse_recap output = fold (\<lambda>l d. case recap_split [] (strip l) of
     None \<Rightarrow> d | Some (host, ns) \<Rightarrow> dput host (zip recap_keys ns) d) (splitlines output) []"

definition recap_sum :: "string \<Rightarrow> (string, (string, nat) dict) dict \<Rightarrow> nat" where
  "recap_sum key recap = sum_list (map (\<lambda>d. dget_or d key 0) (dvals recap))"

section \<open>The structured result\<close>

definition result_keys :: "string list" where
  "result_keys = [''homelabhq_update'', ''homelabhq_docker'', ''homelabhq_docker_update'']"

definition result_mapping :: "json \<Rightarrow> doc option" where
  "result_mapping v = (case v of
     JObj d \<Rightarrow> (let r = concat (map (\<lambda>k. case dget d k of None \<Rightarrow> [] | Some x \<Rightarrow> [(k, x)]) result_keys) in
       if r = [] then None else Some r)
   | _ \<Rightarrow> None)"

text \<open>Every mapping inside a value, the outer one first.\<close>

fun walk_mappings :: "json \<Rightarrow> doc list" where
  "walk_mappings (JObj d) = d # concat (map (\<lambda>kv. walk_mappings (snd kv)) d)"
| "walk_mappings (JArr xs) = concat (map walk_mappings xs)"
| "walk_mappings _ = []"

definition set_stats_result :: "json \<Rightarrow> doc option" where
  "set_stats_result v = first_some (\<lambda>m. case getn m ''ansible_stats'' of
     JObj s \<Rightarrow> result_mapping (case dget s ''data'' of None \<Rightarrow> JObj s | Some x \<Rightarrow> x)
   | _ \<Rightarrow> None) (walk_mappings v)"

definition direct_result :: "json \<Rightarrow> doc option" where
  "direct_result v = first_some (\<lambda>m. result_mapping (JObj m)) (walk_mappings v)"

section \<open>Results in the output\<close>

definition marker :: string where
  "marker = ''HOMELABHQ_RESULT:''"

definition unescape :: "string \<Rightarrow> string" where
  "unescape s =
     (if after_sub [CHR 0x5C, CHR 0x22] s = None then s
      else replace_pair (CHR 0x5C) (CHR 0x5C) (CHR 0x5C)
        (replace_pair (CHR 0x5C) (CHR 0x22) (CHR 0x22) (if last s = CHR 0x22 then butlast s else s)))"

definition unquote :: "(string \<Rightarrow> json option) \<Rightarrow> string \<Rightarrow> string" where
  "unquote loads s =
     (if s \<noteq> [] \<and> last s = CHR 0x22 \<and> hd s = CHR 0x22
      then (case loads s of Some (JStr t) \<Rightarrow> t | _ \<Rightarrow> s) else s)"

fun first_object :: "(string \<Rightarrow> (json \<times> nat) option) \<Rightarrow> string \<Rightarrow> json option" where
  "first_object raw [] = None"
| "first_object raw (c # cs) =
     (if c = CHR ''{'' then (case raw (c # cs) of Some (v, _) \<Rightarrow> Some v | None \<Rightarrow> first_object raw cs)
      else first_object raw cs)"

definition extract_json_after_marker :: "(string \<Rightarrow> json option) \<Rightarrow> (string \<Rightarrow> (json \<times> nat) option) \<Rightarrow> string \<Rightarrow> json option" where
  "extract_json_after_marker loads raw line = (case after_sub marker line of
     None \<Rightarrow> None
   | Some t \<Rightarrow> first_object raw (unescape (unquote loads (rev (dropWhile (\<lambda>c. c = CHR '','') (rev (strip t)))))))"

definition opens_json :: "string \<Rightarrow> bool" where
  "opens_json s \<longleftrightarrow> s \<noteq> [] \<and> hd s \<in> {CHR ''{'', CHR ''[''}"

definition msg_not_json :: string where
  "msg_not_json = ''JSON in msg could not be decoded''"

definition direct_of :: "json option \<Rightarrow> doc option" where
  "direct_of v = (case v of None \<Rightarrow> None | Some x \<Rightarrow> direct_result x)"

fun debug_msgs :: "(string \<Rightarrow> json option) \<Rightarrow> (string \<Rightarrow> (json \<times> nat) option) \<Rightarrow> string option \<Rightarrow> doc list \<Rightarrow> doc option \<times> string option" where
  "debug_msgs loads raw err [] = (None, err)"
| "debug_msgs loads raw err (m # ms) = (case dget m ''msg'' of
     Some (JObj d) \<Rightarrow> (case direct_result (JObj d) of
       Some r \<Rightarrow> (Some r, None)
     | None \<Rightarrow> debug_msgs loads raw (Some ''HomeLabHQ result key not found in msg object'') ms)
   | Some (JStr s) \<Rightarrow>
       (let c = strip s; given = after_sub marker c \<noteq> None in
        if \<not> given \<and> \<not> opens_json c then debug_msgs loads raw err ms
        else if \<not> given \<and> loads c = None then debug_msgs loads raw (Some msg_not_json) ms
        else (case direct_of (if given then extract_json_after_marker loads raw c else loads c) of
            Some r \<Rightarrow> (Some r, None)
          | None \<Rightarrow> debug_msgs loads raw (Some ''HomeLabHQ result key not found in msg JSON'') ms))
   | _ \<Rightarrow> debug_msgs loads raw err ms)"

definition debug_msg_result :: "(string \<Rightarrow> json option) \<Rightarrow> (string \<Rightarrow> (json \<times> nat) option) \<Rightarrow> json \<Rightarrow> doc option \<times> string option" where
  "debug_msg_result loads raw v = debug_msgs loads raw None (walk_mappings v)"

lemma drop_dropWhile_less: "dropWhile P s \<noteq> [] \<Longrightarrow> 0 < k \<Longrightarrow> length (drop k (dropWhile P s)) < length s"
  using length_dropWhile_le [of P s] by (cases "dropWhile P s") auto

lemma tl_dropWhile_less: "dropWhile P s \<noteq> [] \<Longrightarrow> length (tl (dropWhile P s)) < length s"
  using drop_dropWhile_less [of P s 1] by (simp add: drop_Suc)

text \<open>The complete values in a text; the decoder always takes at least one character.\<close>

function json_values :: "(string \<Rightarrow> (json \<times> nat) option) \<Rightarrow> string \<Rightarrow> json list" where
  "json_values raw s = (let t = dropWhile (\<lambda>c. c \<notin> {CHR ''{'', CHR ''[''}) s in
     if t = [] then []
     else (case raw t of
       None \<Rightarrow> json_values raw (tl t)
     | Some (v, n) \<Rightarrow> v # json_values raw (drop (max 1 n) t)))"
  by pat_completeness auto
termination
  by (relation "measure (\<lambda>(raw, s). length s)")
    (simp_all only: in_measure split wf_measure drop_dropWhile_less tl_dropWhile_less less_max_iff_disj zero_less_one simp_thms)

declare json_values.simps [simp del]

text \<open>
  \<open>extract\<close>: statistics published by any root, then a result anywhere, then a debug message; with
  the diagnostics of the messages met on the way.
\<close>

fun debug_roots :: "(string \<Rightarrow> json option) \<Rightarrow> (string \<Rightarrow> (json \<times> nat) option) \<Rightarrow> (string \<times> json) list \<Rightarrow> (doc \<times> string) option \<times> string list" where
  "debug_roots loads raw [] = (None, [])"
| "debug_roots loads raw ((origin, v) # rest) = (case debug_msg_result loads raw v of
     (Some r, _) \<Rightarrow> (Some (r, origin @ ''.debug_msg''), [])
   | (None, err) \<Rightarrow> apsnd (\<lambda>es. (case err of None \<Rightarrow> [] | Some e \<Rightarrow> [e]) @ es) (debug_roots loads raw rest))"

definition extract_roots :: "(string \<Rightarrow> json option) \<Rightarrow> (string \<Rightarrow> (json \<times> nat) option) \<Rightarrow> (string \<times> json) list \<Rightarrow> (doc \<times> string) option \<times> string list" where
  "extract_roots loads raw roots =
     (case first_some (\<lambda>(p, v). map_option (\<lambda>r. (r, p @ ''.set_stats'')) (set_stats_result v)) roots of
        Some x \<Rightarrow> (Some x, [])
      | None \<Rightarrow> (case first_some (\<lambda>(p, v). map_option (\<lambda>r. (r, p @ ''.result'')) (direct_result v)) roots of
          Some x \<Rightarrow> (Some x, [])
        | None \<Rightarrow> debug_roots loads raw roots))"

record parsed =
  ps_result :: "doc option"
  ps_source :: "string option"
  ps_error :: "string option"

definition parsed_ok :: "doc \<times> string \<Rightarrow> parsed" where
  "parsed_ok x = \<lparr>ps_result = Some (fst x), ps_source = Some (snd x), ps_error = None\<rparr>"

text \<open>The roots in the order they are tried: the callback, the whole output, the values in it.\<close>

definition stdout_root :: "(string \<Rightarrow> json option) \<Rightarrow> string \<Rightarrow> (string \<times> json) list" where
  "stdout_root loads text = (if opens_json (strip text)
     then (case loads (strip text) of None \<Rightarrow> [] | Some v \<Rightarrow> [(''stdout_callback'', v)]) else [])"

fun marker_lines :: "(string \<Rightarrow> json option) \<Rightarrow> (string \<Rightarrow> (json \<times> nat) option) \<Rightarrow> string list \<Rightarrow> doc option \<Rightarrow> doc option \<times> string list" where
  "marker_lines loads raw [] found = (found, [])"
| "marker_lines loads raw (l # ls) found =
     (if after_sub marker l = None then marker_lines loads raw ls found
      else (case direct_of (extract_json_after_marker loads raw l) of
          Some r \<Rightarrow> marker_lines loads raw ls (Some r)
        | None \<Rightarrow> apsnd (\<lambda>es. ''HomeLabHQ result marker payload could not be decoded'' # es) (marker_lines loads raw ls found)))"

fun try_stages :: "(string \<Rightarrow> json option) \<Rightarrow> (string \<Rightarrow> (json \<times> nat) option) \<Rightarrow> (string \<times> json) list list \<Rightarrow> (doc \<times> string) option \<times> string list" where
  "try_stages loads raw [] = (None, [])"
| "try_stages loads raw (roots # rest) = (case extract_roots loads raw roots of
     (Some x, _) \<Rightarrow> (Some x, [])
   | (None, es) \<Rightarrow> apsnd (\<lambda>es'. es @ es') (try_stages loads raw rest))"

definition parse_structured_result_details ::
  "(string \<Rightarrow> json option) \<Rightarrow> (string \<Rightarrow> (json \<times> nat) option) \<Rightarrow> string \<Rightarrow> json option \<Rightarrow> parsed" where
  "parse_structured_result_details loads raw text callback =
     (case try_stages loads raw [(case callback of None \<Rightarrow> [] | Some v \<Rightarrow> [(''callback'', v)]), stdout_root loads text,
         map (\<lambda>v. (''stdout_json'', v)) (json_values raw text)] of
        (Some x, _) \<Rightarrow> parsed_ok x
      | (None, es) \<Rightarrow> (case marker_lines loads raw (splitlines text) None of
          (Some r, _) \<Rightarrow> parsed_ok (r, ''stdout_marker'')
        | (None, es') \<Rightarrow> \<lparr>ps_result = None, ps_source = None,
            ps_error = Some (case es @ es' of [] \<Rightarrow> ''HomeLabHQ result key not found'' | e # _ \<Rightarrow> e)\<rparr>))"

text \<open>The message of a failed run.\<close>

definition failure_messages :: "json list \<Rightarrow> string list" where
  "failure_messages roots = concat (map (\<lambda>m. case dget m ''msg'' of
     Some (JStr s) \<Rightarrow> if strip s \<noteq> [] \<and> after_sub marker s = None then [strip s] else []
   | _ \<Rightarrow> []) (concat (map walk_mappings roots)))"

definition failure_line :: "string \<Rightarrow> bool" where
  "failure_line l \<longleftrightarrow> l \<noteq> [] \<and> (after_sub ''FAILED!'' l \<noteq> None \<or> startswith (lower l) ''error'')"

definition ansible_failure_summary :: "(string \<Rightarrow> (json \<times> nat) option) \<Rightarrow> string \<Rightarrow> string \<Rightarrow> json option \<Rightarrow> string" where
  "ansible_failure_summary raw out err callback =
     (let messages = failure_messages ((case callback of None \<Rightarrow> [] | Some v \<Rightarrow> [v]) @ json_values raw (out @ [CHR 0x0A] @ err)) in
      if messages \<noteq> [] then ''Ansible playbook failed: '' @ take 450 (last messages)
      else (case find failure_line (map strip (rev (splitlines err @ splitlines out))) of
          Some l \<Rightarrow> ''Ansible playbook failed: '' @ take 450 l
        | None \<Rightarrow> ''Ansible playbook failed''))"

section \<open>Contracts of the results\<close>

definition bool_opt :: "json \<Rightarrow> bool option" where
  "bool_opt v = (case v of JBool b \<Rightarrow> Some b | _ \<Rightarrow> None)"

definition text_opt :: "(json \<Rightarrow> string) \<Rightarrow> nat \<Rightarrow> json \<Rightarrow> string option" where
  "text_opt r n v = (let s = take n (str_or_empty r v) in if s = [] then None else Some s)"

definition get_first :: "doc \<Rightarrow> string list \<Rightarrow> json" where
  "get_first d ks = (case first_some (dget d) ks of None \<Rightarrow> JNull | Some v \<Rightarrow> v)"

record update_contract =
  uc_available :: "bool option"
  uc_count :: "int option"
  uc_reboot :: "bool option"
  uc_summary :: "string option"

definition update_contract_of :: "(json \<Rightarrow> string) \<Rightarrow> json \<Rightarrow> update_contract option result" where
  "update_contract_of r v = (case v of
     JObj d \<Rightarrow>
       rbind (if getn d ''count'' = JNull then Inr None
              else (case int_of_json (getn d ''count'') of
                Inr i \<Rightarrow> Inr (Some (max 0 i))
              | Inl e \<Rightarrow> if is_caught e then Inr None else Inl e))
         (\<lambda>count. Inr (Some \<lparr>uc_available = bool_opt (getn d ''available''), uc_count = count,
            uc_reboot = bool_opt (getn d ''reboot_required''), uc_summary = text_opt r 500 (getn d ''summary'')\<rparr>))
   | _ \<Rightarrow> Inr None)"

definition normalize_project_mode :: "json \<Rightarrow> string result" where
  "normalize_project_mode v = (case v of
     JArr _ \<Rightarrow> Inl TypeError | JObj _ \<Rightarrow> Inl TypeError
   | JStr s \<Rightarrow> (let m = (if s = ''local_build'' then ''build''
          else if s = ''unmanaged'' \<or> s = ''read-only'' then ''read_only'' else s) in
       if m \<in> set [''pull'', ''build'', ''read_only''] then Inr m
       else Inl (ValueError ''Docker update mode must be pull, build, or read_only''))
   | _ \<Rightarrow> Inl (ValueError ''Docker update mode must be pull, build, or read_only''))"

record project_update =
  pu_name :: string
  pu_available :: "bool option"
  pu_mode :: "string option"
  pu_summary :: "string option"

record docker_update =
  du_available :: "bool option"
  du_projects :: "project_update list"
  du_summary :: "string option"
  du_supported :: "bool option"

definition project_update_of :: "(json \<Rightarrow> string) \<Rightarrow> json \<Rightarrow> project_update list result" where
  "project_update_of r raw = (case raw of
     JObj d \<Rightarrow>
       (let name = take 200 (strip (str_or_empty r (getn d ''name''))) in
        if name = [] then Inr []
        else (case normalize_project_mode (get_first d [''update_mode'', ''updateMode'']) of
          Inl (ValueError _) \<Rightarrow> Inr [\<lparr>pu_name = name,
            pu_available = bool_opt (get_first d [''updates_available'', ''update_available'', ''updatesAvailable'']),
            pu_mode = None, pu_summary = text_opt r 500 (getn d ''summary'')\<rparr>]
        | Inl e \<Rightarrow> Inl e
        | Inr mode \<Rightarrow> Inr [\<lparr>pu_name = name,
            pu_available = bool_opt (get_first d [''updates_available'', ''update_available'', ''updatesAvailable'']),
            pu_mode = Some mode, pu_summary = text_opt r 500 (getn d ''summary'')\<rparr>]))
   | _ \<Rightarrow> Inr [])"

definition raw_projects :: "doc \<Rightarrow> json list option" where
  "raw_projects d = (case getn d ''projects'' of
     JObj p \<Rightarrow> Some [JObj p] | JNull \<Rightarrow> Some [] | JArr xs \<Rightarrow> Some xs | _ \<Rightarrow> None)"

definition single_project :: "doc \<Rightarrow> json list" where
  "single_project d = (case getn d ''project'' of
     JObj p \<Rightarrow> [JObj p]
   | single \<Rightarrow>
       (case (case single of JStr s \<Rightarrow> JStr s | _ \<Rightarrow> get_first d [''project_name'', ''docker_project'', ''name'']) of
          JStr s \<Rightarrow> if strip s = [] then [] else [JObj (dput ''name'' (JStr s) d)]
        | _ \<Rightarrow> []))"

definition docker_update_of :: "(json \<Rightarrow> string) \<Rightarrow> json \<Rightarrow> docker_update option result" where
  "docker_update_of r v = (case v of
     JObj d \<Rightarrow> (case raw_projects d of
       None \<Rightarrow> Inr None
     | Some xs \<Rightarrow>
         rbind (rmap (project_update_of r) (if xs = [] then single_project d else xs)) (\<lambda>pss.
           let available = bool_opt (get_first d [''updates_available'', ''update_available'', ''available'']);
               projects = concat pss; summary = text_opt r 500 (getn d ''summary''); supported = bool_opt (getn d ''supported'')
           in Inr (if available = None \<and> projects = [] \<and> summary = None \<and> supported = None then None
                   else Some \<lparr>du_available = available, du_projects = projects, du_summary = summary, du_supported = supported\<rparr>)))
   | _ \<Rightarrow> Inr None)"

section \<open>Printing and parsing a recap\<close>

definition counter_text :: "nat \<Rightarrow> string \<Rightarrow> nat \<Rightarrow> string" where
  "counter_text q k n = replicate (Suc q) (CHR '' '') @ k @ ''='' @ digits_of_nat n"

definition recap_text :: "nat \<Rightarrow> nat \<Rightarrow> string \<times> nat list \<Rightarrow> string" where
  "recap_text p q row = fst row @ replicate (Suc p) (CHR '' '') @ '':'' @
     concat (map2 (counter_text q) recap_keys (snd row))"

definition recap_row :: "string \<times> nat list \<Rightarrow> bool" where
  "recap_row row \<longleftrightarrow> fst row \<noteq> [] \<and> list_all (\<lambda>c. \<not> is_space c \<and> \<not> is_break c) (fst row) \<and>
     length (snd row) = length recap_keys"

definition no_digit :: "string \<Rightarrow> bool" where
  "no_digit s \<longleftrightarrow> (s = [] \<or> \<not> is_digit_char (hd s))"

lemma space_facts [simp]: "is_space (CHR '' '')" "\<not> is_digit_char (CHR '' '')" "\<not> is_break (CHR '' '')"
  by (simp_all add: is_space_def is_digit_char_def is_break_def)

lemma digit_not_space: "is_digit_char c \<Longrightarrow> \<not> is_space c \<and> \<not> is_break c"
  by (auto simp: is_digit_char_def is_space_def is_break_def Let_def)

lemma skip_spaces: "skip_space (replicate (Suc n) (CHR '' '') @ s) = Some (dropWhile is_space s)"
  by (induction n) (simp_all add: dropWhile_append)

lemma read_counter_text:
  "no_digit s \<Longrightarrow> read_counter k (k @ ''='' @ digits_of_nat n @ s) = Some (n, s)"
proof -
  assume s: "no_digit s"
  have d: "\<And>c. c \<in> set (digits_of_nat n) \<Longrightarrow> is_digit_char c" by (rule digits_of_nat_digit)
  have "takeWhile is_digit_char (digits_of_nat n @ s) = digits_of_nat n"
    "dropWhile is_digit_char (digits_of_nat n @ s) = s"
    using s d by (cases s; simp add: no_digit_def takeWhile_append2 dropWhile_append2)+
  then show ?thesis by (simp add: read_counter_def startswith_def Let_def)
qed

lemma no_digit_counters: "no_digit (concat (map2 (counter_text q) ks ns))"
  by (cases ks; cases ns) (simp_all add: no_digit_def counter_text_def)

lemma read_counters_text:
  "length ns = length ks \<Longrightarrow> list_all (\<lambda>k. k \<noteq> [] \<and> \<not> is_space (hd k)) ks \<Longrightarrow>
   read_counters ks (concat (map2 (counter_text q) ks ns)) = Some ns"
proof (induction ks arbitrary: ns)
  case (Cons k ks)
  then obtain n ns' where ns: "ns = n # ns'" by (cases ns) auto
  let ?rest = "concat (map2 (counter_text q) ks ns')"
  have "skip_space (replicate (Suc q) (CHR '' '') @ k @ ''='' @ digits_of_nat n @ ?rest) = Some (k @ ''='' @ digits_of_nat n @ ?rest)"
    unfolding skip_spaces using Cons.prems(2) by (cases k) auto
  then show ?case using Cons ns read_counter_text [OF no_digit_counters]
    by (simp add: counter_text_def del: replicate_Suc)
qed simp

lemma recap_split_host:
  "list_all (\<lambda>c. \<not> is_space c) h \<Longrightarrow> h \<noteq> [] \<Longrightarrow> recap_tail t = Some ns \<Longrightarrow> recap_split acc (h @ t) = Some (acc @ h, ns)"
proof (induction h arbitrary: acc)
  case (Cons c h)
  show ?case
  proof (cases h)
    case Nil
    then show ?thesis using Cons.prems by simp
  next
    case (Cons b h')
    then have "recap_tail (h @ t) = None" using Cons.prems(1) by (simp add: recap_tail_def)
    then show ?thesis using Cons Cons.IH [of "acc @ [c]"] Cons.prems by simp
  qed
qed simp

lemma recap_keys_ok: "list_all (\<lambda>k. k \<noteq> [] \<and> list_all (\<lambda>c. \<not> is_space c \<and> \<not> is_break c) k) recap_keys"
  by (simp add: recap_keys_def is_space_def is_break_def)

lemma recap_split_text: "recap_row row \<Longrightarrow> recap_split [] (recap_text p q row) = Some row"
proof -
  assume row: "recap_row row"
  let ?t = "replicate (Suc p) (CHR '' '') @ '':'' @ concat (map2 (counter_text q) recap_keys (snd row))"
  have k: "list_all (\<lambda>k. k \<noteq> [] \<and> \<not> is_space (hd k)) recap_keys"
    using recap_keys_ok by (auto simp: list_all_iff)
  have "skip_space ?t = Some ('':'' @ concat (map2 (counter_text q) recap_keys (snd row)))"
    unfolding skip_spaces by (simp add: is_space_def)
  then have "recap_tail ?t = Some (snd row)"
    using read_counters_text [OF _ k] row by (simp add: recap_tail_def recap_row_def del: replicate_Suc)
  then show ?thesis
    using row recap_split_host [of "fst row" ?t "snd row" "[]"]
    by (simp add: recap_row_def recap_text_def list_all_iff)
qed

lemma strip_id: "s \<noteq> [] \<Longrightarrow> \<not> is_space (hd s) \<Longrightarrow> \<not> is_space (last s) \<Longrightarrow> strip s = s"
proof -
  assume s: "s \<noteq> []" "\<not> is_space (hd s)" "\<not> is_space (last s)"
  then have "dropWhile is_space s = s" by (cases s) auto
  moreover have "dropWhile is_space (rev s) = rev s" using s by (cases "rev s") (auto simp: last_rev hd_rev [symmetric])
  ultimately show ?thesis by (simp add: strip_def)
qed

lemma recap_text_ends: "recap_row row \<Longrightarrow> recap_text p q row \<noteq> [] \<and> \<not> is_space (hd (recap_text p q row)) \<and> \<not> is_space (last (recap_text p q row))"
proof -
  assume row: "recap_row row"
  then have f: "fst row \<noteq> []" "\<not> is_space (hd (fst row))"
    by (auto simp: recap_row_def list_all_iff)
  obtain ks k where ks: "recap_keys = ks @ [k]" "length recap_keys = Suc (length ks)"
    by (cases recap_keys rule: rev_cases) (auto simp: recap_keys_def)
  then obtain ns n where ns: "snd row = ns @ [n]" "length ns = length ks"
    using row by (cases "snd row" rule: rev_cases) (auto simp: recap_row_def)
  have "is_digit_char (last (digits_of_nat n))" using last_in_set [OF digits_of_nat_nonempty] by (rule digits_of_nat_digit)
  then have "\<not> is_space (last (recap_text p q row))"
    using digit_not_space ns(2) unfolding recap_text_def ks(1) ns(1) by (simp add: counter_text_def)
  then show ?thesis using f by (simp add: recap_text_def)
qed

lemma lines_from_text: "list_all (\<lambda>c. \<not> is_break c) s \<Longrightarrow> lines_from acc (s @ CHR 0x0A # t) = (rev acc @ s) # lines_from [] t"
proof (induction s arbitrary: acc)
  case Nil
  then show ?case by (simp add: is_break_def)
next
  case (Cons c s)
  then have "c \<noteq> CHR 0x0D" by (auto simp: is_break_def)
  then show ?case using Cons by simp
qed

lemma splitlines_text:
  "(\<And>l. l \<in> set ls \<Longrightarrow> list_all (\<lambda>c. \<not> is_break c) l) \<Longrightarrow>
   splitlines (concat (map (\<lambda>l. l @ [CHR 0x0A]) ls)) = ls"
  by (induction ls) (simp_all add: splitlines_def lines_from_text)

lemma counter_text_no_break: "list_all (\<lambda>c. \<not> is_break c) k \<Longrightarrow> list_all (\<lambda>c. \<not> is_break c) (counter_text q k n)"
  using digits_of_nat_digit digit_not_space
  by (auto simp: counter_text_def list_all_iff) (simp add: is_break_def)

lemma recap_text_no_break: "recap_row row \<Longrightarrow> list_all (\<lambda>c. \<not> is_break c) (recap_text p q row)"
proof -
  assume row: "recap_row row"
  have "list_all (\<lambda>c. \<not> is_break c) (concat (map2 (counter_text q) recap_keys (snd row)))"
    using recap_keys_ok counter_text_no_break by (fastforce simp: list_all_iff dest!: set_zip_leftD)
  moreover have "\<not> is_break (CHR '':'')" by (simp add: is_break_def)
  ultimately show ?thesis using row by (auto simp: recap_text_def recap_row_def list_all_iff)
qed

lemma fold_dput_new:
  "distinct (map f rows) \<Longrightarrow> set (map f rows) \<inter> set (dkeys d) = {} \<Longrightarrow>
   fold (\<lambda>r. dput (f r) (g r)) rows d = d @ map (\<lambda>r. (f r, g r)) rows"
  by (induction rows arbitrary: d) (auto simp: dput_new)

text \<open>
  Parsing a recap gives back its rows. For hosts without white space, any padding and
  any counters, the recap of the printed lines holds each host with its seven counters, in order.
\<close>

theorem recap_roundtrip:
  assumes "list_all recap_row rows" "distinct (map fst rows)"
  shows "parse_recap (concat (map (\<lambda>row. recap_text p q row @ [CHR 0x0A]) rows)) =
    map (\<lambda>row. (fst row, zip recap_keys (snd row))) rows"
proof -
  have rows: "recap_row row" if "row \<in> set rows" for row using assms(1) that by (simp add: list_all_iff)
  have nb: "list_all (\<lambda>c. \<not> is_break c) l" if "l \<in> set (map (recap_text p q) rows)" for l
    using that recap_text_no_break rows by (auto simp del: split_paired_All)
  have "splitlines (concat (map (\<lambda>row. recap_text p q row @ [CHR 0x0A]) rows)) = map (recap_text p q) rows"
    using splitlines_text [of "map (recap_text p q) rows", OF nb] by (simp add: o_def)
  moreover have "recap_split [] (strip (recap_text p q row)) = Some row" if "row \<in> set rows" for row
    using recap_split_text [OF rows [OF that]] strip_id recap_text_ends [OF rows [OF that]] by metis
  then have "fold (\<lambda>l d. case recap_split [] (strip l) of None \<Rightarrow> d | Some (host, ns) \<Rightarrow> dput host (zip recap_keys ns) d)
      (map (recap_text p q) rows) [] = fold (\<lambda>row. dput (fst row) (zip recap_keys (snd row))) rows []"
    unfolding fold_map by (intro fold_cong) (auto simp: fun_eq_iff split: prod.splits)
  ultimately show ?thesis using fold_dput_new [OF assms(2), of "[]" "\<lambda>row. zip recap_keys (snd row)"] by (simp add: parse_recap_def)
qed

theorem recap_roundtrip_witness:
  "list_all recap_row [(''web1'', [12, 1, 0, 0, 3, 0, 0]), (''db'', [0, 0, 1, 0, 0, 0, 0])] \<and>
   parse_recap (concat (map (\<lambda>row. recap_text 4 2 row @ [CHR 0x0A])
     [(''web1'', [12, 1, 0, 0, 3, 0, 0]), (''db'', [0, 0, 1, 0, 0, 0, 0])])) =
   [(''web1'', zip recap_keys [12, 1, 0, 0, 3, 0, 0]), (''db'', zip recap_keys [0, 0, 1, 0, 0, 0, 0])]"
proof -
  have "list_all recap_row [(''web1'', [12, 1, 0, 0, 3, 0, 0]), (''db'', [0, 0, 1, 0, 0, 0, 0])]"
    by code_simp
  with recap_roundtrip [of "[(''web1'', [12, 1, 0, 0, 3, 0, 0]), (''db'', [0, 0, 1, 0, 0, 0, 0])]" 4 2]
  show ?thesis by simp
qed

end
