(* ===== verification/Jobs.thy ===== *)
theory Jobs
  imports JobResults Store
begin

text \<open>
  Background maintenance of workloads: \<open>backend/compute_maintenance.py\<close>. Jobs and instances are the
  records of the document; the states of an instance and of its Docker projects are dictionaries as
  in the code. Arguments are the JSON decoder and the rendering of values by \<open>str\<close>, the rendering
  of a time (\<open>utc\<close>), the clock, what a playbook run gives, and two steps of a discovery: the
  contract of its payload (\<open>dc\<close>, for \<open>_docker_contract\<close>) and the reconciliation of what it found
  with the inventory (\<open>reconcile\<close>, for \<open>compute.reconcile_docker_projects\<close>).
\<close>

section \<open>Jobs and instances\<close>

datatype job_state = Queued | Running | Successful | Incomplete | Failed | Unreached | Cancelled

definition active :: "job_state \<Rightarrow> bool" where
  "active s \<longleftrightarrow> s = Queued \<or> s = Running"

datatype operation = OsCheck | OsUpdate | DockerCheck | DockerDiscovery | DockerProjectUpdate | ApplianceHealth

record cjob =
  cj_id :: string
  cj_instance :: string
  cj_controller :: string
  cj_target :: string
  cj_op :: operation
  cj_mode :: "string option"
  cj_project :: "string option"
  cj_state :: job_state
  cj_created :: int
  cj_started :: "int option"
  cj_finished :: "int option"
  cj_duration :: "int option"
  cj_exit :: "int option"
  cj_recap :: "(string, (string, nat) dict) dict"
  cj_result :: "doc option"
  cj_source :: "string option"
  cj_error :: "string option"
  cj_stdout :: string
  cj_stderr :: string
  cj_retained :: bool
  cj_summary :: string
  cj_follow_up :: bool

record project =
  pj_name :: string
  pj_approved :: "bool option"
  pj_mode :: string
  pj_state :: doc

record instance_rec =
  in_controller :: "string option"
  in_host :: "string option"
  in_projects :: "project list"
  in_states :: "(string, doc) dict"

record compute_doc =
  cd_jobs :: "(string, cjob) dict"
  cd_instances :: "(string, instance_rec) dict"

definition state_key :: "operation \<Rightarrow> string" where
  "state_key op = (case op of
     OsCheck \<Rightarrow> ''updateState'' | OsUpdate \<Rightarrow> ''updateState'' | DockerDiscovery \<Rightarrow> ''dockerDiscoveryState''
   | DockerCheck \<Rightarrow> ''dockerUpdateState'' | DockerProjectUpdate \<Rightarrow> ''dockerUpdateState''
   | ApplianceHealth \<Rightarrow> ''applianceHealthState'')"

text \<open>\<open>dict.update\<close>: the entries of the second dictionary win.\<close>

definition merge_doc :: "doc \<Rightarrow> doc \<Rightarrow> doc" where
  "merge_doc old changes = fold (\<lambda>(k, v). dput k v) changes old"

definition retain :: "string list \<Rightarrow> doc \<Rightarrow> doc" where
  "retain ks d = concat (map (\<lambda>k. case dget d k of None \<Rightarrow> [] | Some v \<Rightarrow> [(k, v)]) ks)"

definition set_maintenance_state :: "string \<Rightarrow> string \<Rightarrow> doc \<Rightarrow> compute_doc \<Rightarrow> compute_doc" where
  "set_maintenance_state i key changes d = (case dget (cd_instances d) i of
     None \<Rightarrow> d
   | Some v \<Rightarrow> d\<lparr>cd_instances := dput i (v\<lparr>in_states := dput key
       (merge_doc (retain [''lastCheckedAt'', ''lastUpdatedAt'', ''sourceCheckedAt''] (dget_or (in_states v) key [])) changes)
       (in_states v)\<rparr>) (cd_instances d)\<rparr>)"

section \<open>The state of all projects of a host\<close>

definition count_true :: "json list \<Rightarrow> int" where
  "count_true vs = int (length (filter (\<lambda>v. py_eq v (JBool True)) vs))"

definition not_updatable :: "json \<Rightarrow> bool" where
  "not_updatable st \<longleftrightarrow> st \<in> set [JStr ''read_only'', JStr ''not_applicable'', JStr ''unmanaged'']"

definition with_summary :: "string \<Rightarrow> json \<Rightarrow> string \<Rightarrow> doc" where
  "with_summary st n s = [(''state'', JStr st), (''updateCount'', n), (''summary'', JStr s)]"

definition plain_state :: "string \<Rightarrow> json \<Rightarrow> doc" where
  "plain_state st n = [(''state'', JStr st), (''updateCount'', n)]"

definition failed_aggregate :: "json list \<Rightarrow> string option" where
  "failed_aggregate states = find (\<lambda>s. JStr s \<in> set states) [''unreachable'', ''failed'', ''incomplete'']"

definition failed_summary :: "json list \<Rightarrow> string \<Rightarrow> string" where
  "failed_summary states s = (let n = length (filter (\<lambda>v. v = JStr s) states) in
     digits_of_nat n @ '' Docker project check'' @ (if n = 1 then [] else ''s'') @ '' '' @ s)"

definition aggregate_state :: "project list \<Rightarrow> doc" where
  "aggregate_state projects =
     (let approved = filter (\<lambda>p. pj_approved p \<noteq> Some False) projects;
          states = map (\<lambda>p. getn (pj_state p) ''state'') approved;
          vals = map (\<lambda>p. getn (pj_state p) ''updatesAvailable'') approved;
          supported = map snd (filter (\<lambda>sv. \<not> not_updatable (fst sv)) (zip states vals))
      in if projects \<noteq> [] \<and> approved = []
         then with_summary ''not_applicable'' JNull ''No discovered Docker projects are approved in inventory''
         else if JStr ''updating'' \<in> set states then plain_state ''updating'' (JInt (count_true vals))
         else if JStr ''checking'' \<in> set states then plain_state ''checking'' (JInt (count_true vals))
         else if list_ex (\<lambda>v. py_eq v (JBool True)) vals then plain_state ''updates_available'' (JInt (count_true vals))
         else (case failed_aggregate states of
           Some s \<Rightarrow> with_summary s JNull (failed_summary states s)
         | None \<Rightarrow>
             if supported \<noteq> [] \<and> list_all (\<lambda>v. v = JBool False) supported then plain_state ''up_to_date'' (JInt 0)
             else if JStr ''check_recommended'' \<in> set states
             then with_summary ''check_recommended'' JNull ''A Docker project was updated; run a new check''
             else if states \<noteq> [] \<and> list_all not_updatable states
             then with_summary ''not_applicable'' JNull ''Registry update checks are not applicable''
             else if JStr ''unknown'' \<in> set states
             then with_summary ''unknown'' JNull ''A Docker project check could not determine update availability''
             else if JStr ''not_checked'' \<in> set states then plain_state ''not_checked'' JNull
             else plain_state ''unknown'' JNull))"

definition int_values :: "json list \<Rightarrow> int list" where
  "int_values vs = concat (map (\<lambda>v. case v of JInt i \<Rightarrow> [i] | JBool b \<Rightarrow> [if b then 1 else 0] | _ \<Rightarrow> []) vs)"

definition latest :: "string \<Rightarrow> project list \<Rightarrow> doc \<Rightarrow> doc \<Rightarrow> doc" where
  "latest key projects previous agg =
     (case int_values (map (\<lambda>p. getn (pj_state p) key) projects @ [getn previous key]) of
        [] \<Rightarrow> agg | t # ts \<Rightarrow> dput key (JInt (fold max ts t)) agg)"

fun put_project :: "string \<Rightarrow> (project \<Rightarrow> project) \<Rightarrow> project list \<Rightarrow> project list" where
  "put_project name f [] = []"
| "put_project name f (p # ps) = (if pj_name p = name then f p # ps else p # put_project name f ps)"

definition instance_project_state :: "string \<Rightarrow> json \<Rightarrow> doc \<Rightarrow> string \<Rightarrow> instance_rec \<Rightarrow> instance_rec" where
  "instance_project_state job_id job_at changes name v =
     (if \<not> list_ex (\<lambda>p. pj_name p = name) (in_projects v) then v
      else (let projects = put_project name (\<lambda>p. p\<lparr>pj_state :=
                merge_doc (retain [''lastCheckedAt'', ''lastUpdatedAt''] (pj_state p)) changes\<rparr>) (in_projects v);
                previous = dget_or (in_states v) ''dockerUpdateState'' [];
                agg = latest ''lastUpdatedAt'' projects previous (latest ''lastCheckedAt'' projects previous (aggregate_state projects))
            in v\<lparr>in_projects := projects,
                 in_states := dput ''dockerUpdateState''
                   (dput ''lastJobAt'' job_at (dput ''lastJobId'' (JStr job_id) agg)) (in_states v)\<rparr>))"

definition set_docker_project_state :: "cjob \<Rightarrow> doc \<Rightarrow> compute_doc \<Rightarrow> compute_doc" where
  "set_docker_project_state j changes d = (case cj_project j of
     None \<Rightarrow> d
   | Some name \<Rightarrow> if name = [] then d
       else d\<lparr>cd_instances := dmap (\<lambda>v.
         if in_controller v = Some (cj_controller j) \<and> in_host v = Some (cj_target j)
         then instance_project_state (cj_id j) (getn changes ''lastJobAt'') changes name v else v) (cd_instances d)\<rparr>)"

section \<open>The state a result leads to\<close>

definition availability_text :: "bool option \<Rightarrow> string" where
  "availability_text a = (case a of Some True \<Rightarrow> ''updates_available'' | Some False \<Rightarrow> ''up_to_date'' | None \<Rightarrow> ''unknown'')"

definition opt_json :: "('a \<Rightarrow> json) \<Rightarrow> 'a option \<Rightarrow> json" where
  "opt_json f x = (case x of None \<Rightarrow> JNull | Some y \<Rightarrow> f y)"

definition field :: "doc option \<Rightarrow> string \<Rightarrow> json" where
  "field contract k = (case contract of None \<Rightarrow> JNull | Some d \<Rightarrow> getn d k)"

definition or_text :: "string option \<Rightarrow> string option \<Rightarrow> string option" where
  "or_text a b = (case a of None \<Rightarrow> b | Some s \<Rightarrow> if s = [] then b else Some s)"

definition os_state :: "(json \<Rightarrow> string) \<Rightarrow> doc option \<Rightarrow> int \<Rightarrow> string \<Rightarrow> doc result" where
  "os_state r contract now stamp = rbind (update_contract_of r (field contract ''homelabhq_update'')) (\<lambda>u.
     let base = [(''state'', JStr ''unknown''), (''lastJobAt'', JInt now), (stamp, JInt now)] in
     case u of
       None \<Rightarrow> Inr (dput ''summary'' (JStr ''Playbook returned no structured OS update result'') base)
     | Some c \<Rightarrow> Inr (merge_doc base [(''state'', JStr (availability_text (uc_available c))),
         (''updateCount'', opt_json JInt (uc_count c)), (''rebootRequired'', opt_json JBool (uc_reboot c)),
         (''summary'', opt_json JStr (uc_summary c))]))"

text \<open>Availability and summary of one project: its own entry, the whole host's, the old contract.\<close>

definition selected_result :: "(json \<Rightarrow> string) \<Rightarrow> doc option \<Rightarrow> string \<Rightarrow> (string option \<times> bool option) result" where
  "selected_result r contract name = rbind (docker_update_of r (field contract ''homelabhq_docker_update'')) (\<lambda>u.
     rbind (if u = None then update_contract_of r (field contract ''homelabhq_update'') else Inr None) (\<lambda>legacy.
       Inr (case u of
         Some d \<Rightarrow> (case find (\<lambda>p. pu_name p = name) (du_projects d) of
             Some p \<Rightarrow> (or_text (pu_summary p) (du_summary d), pu_available p)
           | None \<Rightarrow> if du_projects d = [] then (du_summary d, du_available d)
               else (Some ''Playbook returned no structured Docker update result'', None))
       | None \<Rightarrow> (case legacy of
             Some c \<Rightarrow> (uc_summary c, uc_available c)
           | None \<Rightarrow> (Some ''Playbook returned no structured Docker update result'', None)))))"

definition project_result_state :: "(json \<Rightarrow> string) \<Rightarrow> doc option \<Rightarrow> string \<Rightarrow> string \<Rightarrow> int \<Rightarrow> doc result" where
  "project_result_state r contract name mode now = rbind (selected_result r contract name) (\<lambda>(summary, available).
     let entry = (\<lambda>st av su. [(''state'', JStr st), (''updatesAvailable'', opt_json JBool av),
            (''lastCheckedAt'', JInt now), (''summary'', opt_json JStr su)]) in
     Inr (if mode = ''read_only''
          then entry ''read_only'' None (or_text summary (Some ''Update checks are read-only for this inventory project''))
          else if mode = ''build''
          then entry ''not_applicable'' None
            (or_text summary (Some ''Registry update availability is not applicable to locally built projects''))
          else entry (availability_text available) available summary))"

text \<open>A name that is there and not empty.\<close>

definition given :: "string option \<Rightarrow> bool" where
  "given x \<longleftrightarrow> x \<noteq> None \<and> x \<noteq> Some []"

text \<open>The state after a check of the projects of a whole host.\<close>

definition host_available :: "docker_update \<Rightarrow> project_update list \<Rightarrow> bool option" where
  "host_available u ps = (case du_available u of
     Some b \<Rightarrow> Some b
   | None \<Rightarrow> if Some True \<in> set (map pu_available ps) then Some True
       else if ps \<noteq> [] \<and> list_all (\<lambda>p. pu_available p = Some False) ps then Some False else None)"

definition project_json :: "project_update \<Rightarrow> json" where
  "project_json p = JObj [(''name'', JStr (pu_name p)), (''updatesAvailable'', opt_json JBool (pu_available p)),
     (''updateMode'', opt_json JStr (pu_mode p)), (''summary'', opt_json JStr (pu_summary p))]"

definition host_state :: "docker_update \<Rightarrow> string option \<Rightarrow> doc" where
  "host_state u name =
     (let ps = (if given name then filter (\<lambda>p. Some (pu_name p) = name) (du_projects u) else du_projects u);
          n = length (filter (\<lambda>p. pu_available p = Some True) ps)
      in [(''state'', JStr (availability_text (host_available u ps))),
          (''updateCount'', if n = 0 then JNull else JInt (int n)),
          (''summary'', opt_json JStr (du_summary u)), (''projects'', JArr (map project_json ps))])"

definition host_result_state :: "(json \<Rightarrow> string) \<Rightarrow> doc option \<Rightarrow> int \<Rightarrow> string option \<Rightarrow> doc result" where
  "host_result_state r contract now name =
     rbind (docker_update_of r (field contract ''homelabhq_docker_update'')) (\<lambda>u.
     rbind (if u = None then update_contract_of r (field contract ''homelabhq_update'') else Inr None) (\<lambda>legacy.
       let base = [(''state'', JStr ''successful''), (''lastJobAt'', JInt now), (''lastCheckedAt'', JInt now)] in
       Inr (case u of
         Some d \<Rightarrow> merge_doc base (host_state d name)
       | None \<Rightarrow> (case legacy of
           Some c \<Rightarrow> merge_doc base [(''state'', JStr (availability_text (uc_available c))),
             (''updateCount'', opt_json JInt (uc_count c)), (''summary'', opt_json JStr (uc_summary c))]
         | None \<Rightarrow> merge_doc base [(''state'', JStr ''unknown''),
             (''summary'', JStr ''Playbook returned no structured Docker update result'')]))))"

definition project_counts :: "doc \<Rightarrow> int \<Rightarrow> doc" where
  "project_counts ps now = [(''state'', getn ps ''state''), (''lastJobAt'', JInt now), (''lastCheckedAt'', JInt now),
     (''updateCount'', if getn ps ''updatesAvailable'' = JBool True then JInt 1
        else if getn ps ''updatesAvailable'' = JBool False then JInt 0 else JNull),
     (''summary'', getn ps ''summary'')]"

definition state_for_result ::
  "(json \<Rightarrow> string) \<Rightarrow> (int \<Rightarrow> string) \<Rightarrow> (json \<Rightarrow> 'p option result) \<Rightarrow> operation \<Rightarrow> doc option \<Rightarrow> int \<Rightarrow>
   string option \<Rightarrow> string option \<Rightarrow> doc result" where
  "state_for_result r utc dc op contract now name mode = (case op of
     OsCheck \<Rightarrow> os_state r contract now ''lastCheckedAt''
   | OsUpdate \<Rightarrow> os_state r contract now ''lastUpdatedAt''
   | DockerCheck \<Rightarrow>
       if given name \<and> given mode
       then rbind (project_result_state r contract (the name) (the mode) now) (\<lambda>ps. Inr (project_counts ps now))
       else host_result_state r contract now name
   | DockerDiscovery \<Rightarrow> rbind (dc (field contract ''homelabhq_docker'')) (\<lambda>docker.
       Inr (if docker = None
         then [(''state'', JStr ''unknown''), (''lastJobAt'', JInt now), (''lastCheckedAt'', JInt now),
               (''summary'', JStr ''Playbook returned no structured Docker discovery result'')]
         else [(''state'', JStr ''successful''), (''lastJobAt'', JInt now), (''lastCheckedAt'', JInt now),
               (''sourceCheckedAt'', JStr (utc now))]))
   | DockerProjectUpdate \<Rightarrow> Inr [(''state'', JStr ''successful''), (''lastJobAt'', JInt now),
       (''lastUpdatedAt'', JInt now), (''checkRecommended'', JBool True)]
   | ApplianceHealth \<Rightarrow> Inr [(''state'', JStr ''available''), (''lastJobAt'', JInt now), (''healthy'', JBool True),
       (''lastCheckedAt'', JInt now), (''summary'', JStr ''Authenticated appliance API health check succeeded'')])"

text \<open>Why a run that succeeded did not complete its operation.\<close>

definition absent :: "doc \<Rightarrow> string list \<Rightarrow> bool \<Rightarrow> string \<Rightarrow> string \<Rightarrow> string" where
  "absent d ks bad_msg invalid missing = ''Playbook completed but '' @
     (if list_ex (\<lambda>k. dget d k \<noteq> None) ks then invalid else if bad_msg then msg_not_json else missing)"

definition os_missing :: "(json \<Rightarrow> string) \<Rightarrow> doc \<Rightarrow> bool \<Rightarrow> string option result" where
  "os_missing r d bad = rbind (update_contract_of r (getn d ''homelabhq_update'')) (\<lambda>u.
     Inr (if u \<noteq> None then None
          else Some (absent d [''homelabhq_update''] bad ''OS update payload schema is invalid'' ''homelabhq_update key not found'')))"

definition not_returned :: "docker_update \<Rightarrow> string option \<Rightarrow> bool" where
  "not_returned u name \<longleftrightarrow> given name \<and> \<not> list_ex (\<lambda>p. Some (pu_name p) = name) (du_projects u) \<and> du_projects u \<noteq> []"

definition missing_summary ::
  "(json \<Rightarrow> string) \<Rightarrow> (json \<Rightarrow> 'p option result) \<Rightarrow> operation \<Rightarrow> doc option \<Rightarrow> string option \<Rightarrow> string option \<Rightarrow>
   string option result" where
  "missing_summary r dc op contract err name =
     (let d = (case contract of None \<Rightarrow> [] | Some x \<Rightarrow> x); bad = (err = Some msg_not_json) in
      case op of
        OsCheck \<Rightarrow> os_missing r d bad
      | OsUpdate \<Rightarrow> os_missing r d bad
      | DockerDiscovery \<Rightarrow> rbind (dc (getn d ''homelabhq_docker'')) (\<lambda>docker.
          Inr (if docker \<noteq> None then None
               else Some (absent d [''homelabhq_docker''] bad ''Docker discovery payload schema is invalid''
                 ''homelabhq_docker key not found'')))
      | DockerCheck \<Rightarrow> rbind (docker_update_of r (getn d ''homelabhq_docker_update'')) (\<lambda>current.
          rbind (update_contract_of r (getn d ''homelabhq_update'')) (\<lambda>legacy.
            Inr (case current of
              Some u \<Rightarrow> if not_returned u name
                then Some ''Playbook completed but the selected Docker project was not returned'' else None
            | None \<Rightarrow> if legacy \<noteq> None then None
                else Some (absent d [''homelabhq_docker_update'', ''homelabhq_update''] bad
                  ''Docker update payload schema is invalid'' ''Docker update result key not found''))))
      | _ \<Rightarrow> Inr None)"

section \<open>Running a job\<close>

text \<open>
  What the remote run gives: the exit status, both output texts and the redacted data of the
  callback, if there is any; or a failure.
\<close>

record run_output =
  ro_code :: int
  ro_stdout :: string
  ro_stderr :: string
  ro_callback :: "json option"

text \<open>The Python interpreter around a job: decoders, \<open>str\<close>, times and the text of an exception.\<close>

record pyenv =
  pe_str :: "json \<Rightarrow> string"
  pe_loads :: "string \<Rightarrow> json option"
  pe_raw :: "string \<Rightarrow> (json \<times> nat) option"
  pe_utc :: "int \<Rightarrow> string"
  pe_error :: "failure \<Rightarrow> string"

definition verdict :: "run_output \<Rightarrow> job_state" where
  "verdict o' = (let recap = parse_recap (ro_stdout o') in
     if recap_sum ''unreachable'' recap \<noteq> 0 then Unreached
     else if ro_code o' \<noteq> 0 \<or> recap_sum ''failed'' recap \<noteq> 0 then Failed else Successful)"

definition details :: "pyenv \<Rightarrow> run_output \<Rightarrow> parsed" where
  "details e o' = parse_structured_result_details (pe_loads e) (pe_raw e) (ro_stdout o') (ro_callback o')"

definition judged :: "pyenv \<Rightarrow> (json \<Rightarrow> 'p option result) \<Rightarrow> cjob \<Rightarrow> run_output \<Rightarrow> (job_state \<times> string) result" where
  "judged e dc j o' = (case verdict o' of
     Unreached \<Rightarrow> Inr (Unreached, ''Ansible target was unreachable'')
   | Failed \<Rightarrow> Inr (Failed, ansible_failure_summary (pe_raw e) (ro_stdout o') (ro_stderr o') (ro_callback o'))
   | _ \<Rightarrow> rbind (missing_summary (pe_str e) dc (cj_op j) (ps_result (details e o')) (ps_error (details e o')) (cj_project j)) (\<lambda>m.
       Inr (case m of None \<Rightarrow> (Successful, ''Maintenance completed successfully'') | Some s \<Rightarrow> (Incomplete, s))))"

definition operation_text :: "operation \<Rightarrow> string" where
  "operation_text op = (case op of OsCheck \<Rightarrow> ''os_check'' | OsUpdate \<Rightarrow> ''os_update'' | DockerCheck \<Rightarrow> ''docker_check''
     | DockerDiscovery \<Rightarrow> ''docker_discovery'' | DockerProjectUpdate \<Rightarrow> ''docker_project_update''
     | ApplianceHealth \<Rightarrow> ''appliance_health'')"

definition state_text :: "job_state \<Rightarrow> string" where
  "state_text s = (case s of Queued \<Rightarrow> ''queued'' | Running \<Rightarrow> ''running'' | Successful \<Rightarrow> ''successful''
     | Incomplete \<Rightarrow> ''incomplete'' | Failed \<Rightarrow> ''failed'' | Unreached \<Rightarrow> ''unreachable'' | Cancelled \<Rightarrow> ''cancelled'')"

text \<open>
  A discovery that becomes successful clears the details of the older ones of its instance, with
  the order of the document store on the fields it reads.
\<close>

definition history_fields :: "cjob \<Rightarrow> json" where
  "history_fields j = JObj [(''id'', JStr (cj_id j)), (''computeInstanceId'', JStr (cj_instance j)),
     (''operation'', JStr (operation_text (cj_op j))), (''state'', JStr (state_text (cj_state j))),
     (''createdAt'', JInt (cj_created j)), (''finishedAt'', opt_json JInt (cj_finished j))]"

definition compact_jobs :: "(json \<Rightarrow> string) \<Rightarrow> (string, cjob) dict \<Rightarrow> (string, cjob) dict" where
  "compact_jobs r jobs = (let newest = newest_by_instance r (dmap history_fields jobs) [] in
     dmapk (\<lambda>k j. if superseded newest k (history_fields j)
       then j\<lparr>cj_stdout := [], cj_stderr := [], cj_result := None, cj_retained := False\<rparr> else j) jobs)"

definition set_job :: "(json \<Rightarrow> string) \<Rightarrow> string \<Rightarrow> (cjob \<Rightarrow> cjob) \<Rightarrow> compute_doc \<Rightarrow> compute_doc" where
  "set_job r i f d = (case dget (cd_jobs d) i of
     None \<Rightarrow> d
   | Some j \<Rightarrow>
       (let jobs = dput i (f j) (cd_jobs d) in
        d\<lparr>cd_jobs := (if cj_op (f j) = DockerDiscovery \<and> cj_state j \<noteq> Successful \<and> cj_state (f j) = Successful
            then compact_jobs r jobs else jobs)\<rparr>))"

definition project_job :: "cjob \<Rightarrow> bool" where
  "project_job j \<longleftrightarrow> (cj_op j = DockerCheck \<or> cj_op j = DockerProjectUpdate) \<and> given (cj_project j)"

definition set_job_state_of :: "cjob \<Rightarrow> doc \<Rightarrow> compute_doc \<Rightarrow> compute_doc" where
  "set_job_state_of j changes d = (if project_job j then set_docker_project_state j changes d
     else set_maintenance_state (cj_instance j) (state_key (cj_op j)) changes d)"

definition running_text :: "operation \<Rightarrow> string" where
  "running_text op = (if op = OsUpdate \<or> op = DockerProjectUpdate then ''updating'' else ''checking'')"

text \<open>The first half of \<open>_run_job\<close>: the job and the state of its target are marked as running.\<close>

definition begin_job :: "pyenv \<Rightarrow> int \<Rightarrow> string \<Rightarrow> compute_doc \<Rightarrow> compute_doc" where
  "begin_job e started i d = (case dget (cd_jobs d) i of
     None \<Rightarrow> d
   | Some j \<Rightarrow> set_job_state_of j [(''state'', JStr (running_text (cj_op j))), (''lastJobId'', JStr i), (''lastJobAt'', JInt started)]
       (set_job (pe_str e) i (\<lambda>x. x\<lparr>cj_state := Running, cj_started := Some started\<rparr>) d))"

definition failed_changes :: "cjob \<Rightarrow> job_state \<Rightarrow> string \<Rightarrow> int \<Rightarrow> doc" where
  "failed_changes j st summary now = [(''state'', JStr (state_text st)), (''lastJobId'', JStr (cj_id j)),
     (''lastErrorSummary'', JStr summary), (''summary'', JStr summary), (''lastJobAt'', JInt now)]
     @ (if cj_op j = ApplianceHealth then [(''healthy'', JBool False)] else [])"

definition error_text :: "job_state \<Rightarrow> string \<Rightarrow> string option \<Rightarrow> string option" where
  "error_text st summary err = (if st = Incomplete
     then Some (if startswith summary ''Playbook completed but '' then drop (length ''Playbook completed but '') summary else summary)
     else err)"

definition end_job :: "pyenv \<Rightarrow> cjob \<Rightarrow> run_output \<Rightarrow> job_state \<Rightarrow> string \<Rightarrow> int \<Rightarrow> int \<Rightarrow> compute_doc \<Rightarrow> compute_doc" where
  "end_job e j o' st summary started now d = set_job (pe_str e) (cj_id j) (\<lambda>x. x\<lparr>cj_state := st, cj_finished := Some now,
     cj_duration := Some (max 0 (now - started)), cj_exit := Some (ro_code o'), cj_recap := parse_recap (ro_stdout o'),
     cj_result := ps_result (details e o'), cj_source := ps_source (details e o'),
     cj_error := error_text st summary (ps_error (details e o')), cj_stdout := ro_stdout o', cj_stderr := ro_stderr o',
     cj_summary := summary\<rparr>) d"

text \<open>The handler of an exception.\<close>

definition crash_job :: "pyenv \<Rightarrow> cjob \<Rightarrow> string \<Rightarrow> int \<Rightarrow> int \<Rightarrow> compute_doc \<Rightarrow> compute_doc" where
  "crash_job e j message started now d = set_job_state_of j (failed_changes j Failed message now)
     (set_job (pe_str e) (cj_id j) (\<lambda>x. x\<lparr>cj_state := Failed, cj_finished := Some now,
        cj_duration := Some (max 0 (now - started)), cj_exit := None, cj_recap := [], cj_result := None, cj_source := None,
        cj_error := Some message, cj_stdout := [], cj_stderr := [], cj_summary := message\<rparr>) d)"

definition apply_discovery :: "cjob \<Rightarrow> project list \<Rightarrow> compute_doc \<Rightarrow> compute_doc" where
  "apply_discovery j found d = (case dget (cd_instances d) (cj_instance j) of
     None \<Rightarrow> d
   | Some v \<Rightarrow>
       (let previous = dget_or (in_states v) ''dockerUpdateState'' [];
            agg = merge_doc (aggregate_state found) (retain [''lastCheckedAt'', ''lastUpdatedAt''] previous)
        in d\<lparr>cd_instances := dput (cj_instance j) (v\<lparr>in_projects := found,
             in_states := dput ''dockerUpdateState'' agg (in_states v)\<rparr>) (cd_instances d)\<rparr>))"

text \<open>What is recorded about the target of a job that ran to its end.\<close>

definition known_projects :: "cjob \<Rightarrow> compute_doc \<Rightarrow> project list" where
  "known_projects j d = (case dget (cd_instances d) (cj_instance j) of None \<Rightarrow> [] | Some v \<Rightarrow> in_projects v)"

definition check_changes :: "pyenv \<Rightarrow> cjob \<Rightarrow> run_output \<Rightarrow> job_state \<Rightarrow> string \<Rightarrow> int \<Rightarrow> doc result" where
  "check_changes e j o' st summary now =
     rbind (project_result_state (pe_str e) (ps_result (details e o')) (the (cj_project j)) (case cj_mode j of None \<Rightarrow> [] | Some m \<Rightarrow> m) now) (\<lambda>ps.
       Inr (merge_doc (if st = Incomplete then merge_doc ps [(''state'', JStr ''incomplete''), (''summary'', JStr summary)] else ps)
              [(''lastJobId'', JStr (cj_id j)), (''lastJobAt'', JInt now)]))"

definition record_result ::
  "pyenv \<Rightarrow> (json \<Rightarrow> 'p option result) \<Rightarrow> ('p \<Rightarrow> project list \<Rightarrow> project list result) \<Rightarrow> cjob \<Rightarrow> run_output \<Rightarrow>
   job_state \<Rightarrow> string \<Rightarrow> int \<Rightarrow> compute_doc \<Rightarrow> compute_doc result" where
  "record_result e dc reconcile j o' st summary now d =
     (let contract = ps_result (details e o') in
      rbind (state_for_result (pe_str e) (pe_utc e) dc (cj_op j) contract now (cj_project j) (cj_mode j)) (\<lambda>changes.
        let updates = merge_doc (if st = Incomplete then dput ''summary'' (JStr summary) changes else changes)
              [(''lastJobId'', JStr (cj_id j)), (''lastJobAt'', JInt now)] in
        if cj_op j = DockerDiscovery
        then rbind (dc (field contract ''homelabhq_docker'')) (\<lambda>docker.
          rbind (case docker of None \<Rightarrow> Inr d
             | Some p \<Rightarrow> rbind (reconcile p (known_projects j d)) (\<lambda>found. Inr (apply_discovery j found d))) (\<lambda>d1.
            Inr (set_job_state_of j updates d1)))
        else if \<not> project_job j then Inr (set_job_state_of j updates d)
        else if cj_op j = DockerCheck
        then rbind (check_changes e j o' st summary now) (\<lambda>changes. Inr (set_job_state_of j changes d))
        else Inr (set_job_state_of j [(''state'', JStr ''check_recommended''), (''updatesAvailable'', JNull),
          (''summary'', JStr ''Update completed; run a new project check''), (''lastUpdatedAt'', JInt now),
          (''lastJobId'', JStr (cj_id j)), (''lastJobAt'', JInt now)] d)))"

text \<open>
  The second half of \<open>_run_job\<close>; an exception anywhere in it, also from an unusable result, ends the
  job as failed.
\<close>

definition finish_job ::
  "pyenv \<Rightarrow> (json \<Rightarrow> 'p option result) \<Rightarrow> ('p \<Rightarrow> project list \<Rightarrow> project list result) \<Rightarrow> int \<Rightarrow> int \<Rightarrow> run_output result \<Rightarrow>
   cjob \<Rightarrow> compute_doc \<Rightarrow> compute_doc" where
  "finish_job e dc reconcile started now out j d =
     (case rbind out (\<lambda>o'. rbind (judged e dc j o') (\<lambda>sv. Inr (o', sv))) of
        Inl x \<Rightarrow> crash_job e j (take 500 (pe_error e x)) started now d
      | Inr (o', st, summary) \<Rightarrow>
          (let d1 = end_job e j o' st summary started now d in
           if st = Successful \<or> st = Incomplete
           then (case record_result e dc reconcile j o' st summary now d1 of
              Inl x \<Rightarrow> crash_job e j (take 500 (pe_error e x)) started now d1
            | Inr d2 \<Rightarrow> if cj_op j = OsUpdate \<and> st = Incomplete
                then set_job (pe_str e) (cj_id j) (\<lambda>x. x\<lparr>cj_follow_up := True\<rparr>) d2 else d2)
           else set_job_state_of j (failed_changes j st summary now) d1))"

text \<open>What one run of a job meets: its times and what the controller gives.\<close>

record run_input =
  ri_started :: int
  ri_now :: int
  ri_out :: "run_output result"

definition run_job ::
  "pyenv \<Rightarrow> (json \<Rightarrow> 'p option result) \<Rightarrow> ('p \<Rightarrow> project list \<Rightarrow> project list result) \<Rightarrow> run_input \<Rightarrow> string \<Rightarrow>
   compute_doc \<Rightarrow> compute_doc" where
  "run_job e dc reconcile x i d = (case dget (cd_jobs d) i of
     None \<Rightarrow> d
   | Some j \<Rightarrow> finish_job e dc reconcile (ri_started x) (ri_now x) (ri_out x) j (begin_job e (ri_started x) i d))"

fun run_job_sequence ::
  "pyenv \<Rightarrow> (json \<Rightarrow> 'p option result) \<Rightarrow> ('p \<Rightarrow> project list \<Rightarrow> project list result) \<Rightarrow> (string \<Rightarrow> run_input) \<Rightarrow> string list \<Rightarrow>
   compute_doc \<Rightarrow> compute_doc" where
  "run_job_sequence e dc reconcile x [] d = d"
| "run_job_sequence e dc reconcile x (i # is) d =
     run_job_sequence e dc reconcile x is (run_job e dc reconcile (x i) i d)"

section \<open>Starting and recovering\<close>

definition job_rank :: "cjob \<Rightarrow> int \<times> string" where
  "job_rank j = ((case cj_finished j of Some t \<Rightarrow> if t \<noteq> 0 then t else cj_created j | None \<Rightarrow> cj_created j), cj_id j)"

definition evicted_jobs :: "nat \<Rightarrow> (string, cjob) dict \<Rightarrow> string list" where
  "evicted_jobs cap jobs = map cj_id (take (length jobs - cap)
     (sort_key job_rank (filter (\<lambda>j. \<not> active (cj_state j)) (dvals jobs))))"

definition start_mut :: "nat \<Rightarrow> string \<Rightarrow> cjob list \<Rightarrow> compute_doc \<Rightarrow> (compute_doc \<times> unit) result" where
  "start_mut cap i js d =
     (if list_ex (\<lambda>x. cj_instance x = i \<and> active (cj_state x)) (dvals (cd_jobs d))
      then Inl (Conflict ''a maintenance job is already active for this compute instance'')
      else (let jobs = fold (\<lambda>j. dput (cj_id j) j) js (cd_jobs d) in
        Inr (d\<lparr>cd_jobs := ddel_all (evicted_jobs cap jobs) jobs\<rparr>, ())))"

definition start_jobs :: "nat \<Rightarrow> cjob list \<Rightarrow> compute_doc \<Rightarrow> cjob list result \<times> compute_doc" where
  "start_jobs cap js d = (case js of
     [] \<Rightarrow> (Inr [], d)
   | j # _ \<Rightarrow>
       if list_ex (\<lambda>x. cj_instance x \<noteq> cj_instance j) js
       then (Inl (ValueError ''maintenance sequences must target one compute instance''), d)
       else (case transact (start_mut cap (cj_instance j) js) d of
         (Inl e, d') \<Rightarrow> (Inl e, d') | (Inr _, d') \<Rightarrow> (Inr js, d')))"

definition recover_job :: "int \<Rightarrow> cjob \<Rightarrow> cjob" where
  "recover_job now j = (if \<not> active (cj_state j) then j
     else j\<lparr>cj_state := Failed, cj_finished := Some now,
            cj_duration := Some (max 0 (now - (case cj_started j of Some t \<Rightarrow> if t \<noteq> 0 then t else now | None \<Rightarrow> now))),
            cj_summary := ''HomelabHQ restarted before the job result was collected''\<rparr>)"

definition recover_interrupted_jobs :: "int \<Rightarrow> compute_doc \<Rightarrow> nat \<times> compute_doc" where
  "recover_interrupted_jobs now d = (length (filter (\<lambda>j. active (cj_state j)) (dvals (cd_jobs d))),
     d\<lparr>cd_jobs := dmap (recover_job now) (cd_jobs d)\<rparr>)"

text \<open>The operations a check sequence may ask for, each once.\<close>

definition sequence_ok :: "(operation \<times> string option) list \<Rightarrow> unit result" where
  "sequence_ok requested =
     (if requested = [] \<or> list_ex (\<lambda>(op, _). op \<notin> set [DockerDiscovery, OsCheck, DockerCheck, ApplianceHealth]) requested
      then Inl (ValueError ''maintenance check sequence is invalid'')
      else if length requested \<noteq> length (remdups requested)
      then Inl (ValueError ''maintenance check sequence contains duplicate operations'')
      else Inr ())"

definition list_jobs :: "string \<Rightarrow> int \<Rightarrow> compute_doc \<Rightarrow> cjob list" where
  "list_jobs i lm d = take (nat (max 1 (min lm 100)))
     (rev (sort_key cj_created (rev (filter (\<lambda>j. cj_instance j = i) (dvals (cd_jobs d))))))"

text \<open>The normalised result of a check, for the orchestration of scheduled checks.\<close>

record check_result =
  cr_job :: string
  cr_state :: json
  cr_updates :: bool
  cr_count :: json
  cr_reboot :: json
  cr_summary :: json
  cr_failure :: "string option"
  cr_project :: "string option"
  cr_source :: "string option"

definition update_check_result :: "pyenv \<Rightarrow> (json \<Rightarrow> 'p option result) \<Rightarrow> int \<Rightarrow> cjob \<Rightarrow> check_result result" where
  "update_check_result e dc clock j =
     (if cj_op j \<noteq> OsCheck \<and> cj_op j \<noteq> DockerCheck then Inl (ValueError ''job is not an update check'')
      else rbind (state_for_result (pe_str e) (pe_utc e) dc (cj_op j) (cj_result j)
          (case cj_finished j of Some t \<Rightarrow> if t \<noteq> 0 then t else clock | None \<Rightarrow> clock) (cj_project j) (cj_mode j)) (\<lambda>n.
        let st = (if cj_state j = Successful then getn n ''state'' else JStr (state_text (cj_state j))) in
        Inr \<lparr>cr_job = cj_id j, cr_state = st, cr_updates = (st = JStr ''updates_available''),
          cr_count = getn n ''updateCount'', cr_reboot = getn n ''rebootRequired'',
          cr_summary = py_or (getn n ''summary'') (JStr (cj_summary j)),
          cr_failure = (if cj_state j = Successful then None else Some (cj_summary j)),
          cr_project = cj_project j, cr_source = cj_source j\<rparr>))"

end
