(* ===== verification/Maintenance.thy ===== *)
theory Maintenance
  imports Jobs
begin

text \<open>
  The maintenance component as a whole: threads that run the jobs of a sequence one after the other,
  requests and restarts between them. A step is one locked section of the code: a request
  (\<open>_start_jobs\<close>), the first and the second half of \<open>_run_job\<close>, a skipped job and a restart, after
  which the recovery has run and no thread is left. The theorems say that an instance has one thread
  at most and one running job at most, that a finished sequence leaves its instance free, what the
  retention keeps, and what the recovery changes.
\<close>

section \<open>Threads and steps\<close>

text \<open>Instance and state of a job, which is all the interleaving depends on.\<close>

definition view :: "compute_doc \<Rightarrow> string \<Rightarrow> (string \<times> job_state) option" where
  "view d i = map_option (\<lambda>j. (cj_instance j, cj_state j)) (dget (cd_jobs d) i)"

text \<open>Jobs are filed under their own identifiers.\<close>

definition jobs_ok :: "compute_doc \<Rightarrow> bool" where
  "jobs_ok d \<longleftrightarrow> dict_all (\<lambda>k j. cj_id j = k) (cd_jobs d)"

text \<open>A thread: its instance, the job it is in with its start time, and the jobs still to run.\<close>

record mthread =
  mt_instance :: string
  mt_running :: "(cjob \<times> int) option"
  mt_todo :: "string list"

record mstate =
  ms_doc :: compute_doc
  ms_threads :: "(string, mthread) dict"

definition thread_ids :: "mthread \<Rightarrow> string list" where
  "thread_ids t = (case mt_running t of None \<Rightarrow> [] | Some (j, _) \<Rightarrow> [cj_id j]) @ mt_todo t"

text \<open>Jobs as \<open>_new_job\<close> makes them: queued, under fresh random identifiers.\<close>

definition new_jobs :: "cjob list \<Rightarrow> compute_doc \<Rightarrow> bool" where
  "new_jobs js d \<longleftrightarrow> distinct (map cj_id js) \<and>
     list_all (\<lambda>j. cj_state j = Queued \<and> dget (cd_jobs d) (cj_id j) = None) js"

text \<open>A thread ends with its last job. It is named after its first one.\<close>

definition put_thread :: "string \<Rightarrow> mthread \<Rightarrow> (string, mthread) dict \<Rightarrow> (string, mthread) dict" where
  "put_thread n t ts = (if thread_ids t = [] then ddel n ts else dput n t ts)"

inductive mstep :: "pyenv \<Rightarrow> (json \<Rightarrow> 'p option result) \<Rightarrow> ('p \<Rightarrow> project list \<Rightarrow> project list result) \<Rightarrow> nat \<Rightarrow>
    mstate \<Rightarrow> mstate \<Rightarrow> bool"
  for e dc reconcile cap where
  request: "new_jobs js (ms_doc s) \<Longrightarrow> js \<noteq> [] \<Longrightarrow> dget (ms_threads s) (cj_id (hd js)) = None \<Longrightarrow> start_jobs cap js (ms_doc s) = (Inr js, d) \<Longrightarrow>
     mstep e dc reconcile cap s \<lparr>ms_doc = d, ms_threads = dput (cj_id (hd js))
       \<lparr>mt_instance = cj_instance (hd js), mt_running = None, mt_todo = map cj_id js\<rparr> (ms_threads s)\<rparr>"
| begins: "dget (ms_threads s) n = Some t \<Longrightarrow> mt_running t = None \<Longrightarrow> mt_todo t = i # rest \<Longrightarrow>
     dget (cd_jobs (ms_doc s)) i = Some j \<Longrightarrow>
     mstep e dc reconcile cap s \<lparr>ms_doc = begin_job e started i (ms_doc s),
       ms_threads = dput n (t\<lparr>mt_running := Some (j, started), mt_todo := rest\<rparr>) (ms_threads s)\<rparr>"
| skips: "dget (ms_threads s) n = Some t \<Longrightarrow> mt_running t = None \<Longrightarrow> mt_todo t = i # rest \<Longrightarrow>
     dget (cd_jobs (ms_doc s)) i = None \<Longrightarrow>
     mstep e dc reconcile cap s (s\<lparr>ms_threads := put_thread n (t\<lparr>mt_todo := rest\<rparr>) (ms_threads s)\<rparr>)"
| finishes: "dget (ms_threads s) n = Some t \<Longrightarrow> mt_running t = Some (j, started) \<Longrightarrow>
     mstep e dc reconcile cap s \<lparr>ms_doc = finish_job e dc reconcile started now out j (ms_doc s),
       ms_threads = put_thread n (t\<lparr>mt_running := None\<rparr>) (ms_threads s)\<rparr>"
| restarts: "mstep e dc reconcile cap s \<lparr>ms_doc = snd (recover_interrupted_jobs now (ms_doc s)), ms_threads = []\<rparr>"

inductive mreach :: "pyenv \<Rightarrow> (json \<Rightarrow> 'p option result) \<Rightarrow> ('p \<Rightarrow> project list \<Rightarrow> project list result) \<Rightarrow> nat \<Rightarrow>
    compute_doc \<Rightarrow> mstate \<Rightarrow> bool"
  for e dc reconcile cap d where
  boot: "mreach e dc reconcile cap d \<lparr>ms_doc = snd (recover_interrupted_jobs now d), ms_threads = []\<rparr>"
| step: "mreach e dc reconcile cap d s \<Longrightarrow> mstep e dc reconcile cap s s' \<Longrightarrow> mreach e dc reconcile cap d s'"

text \<open>What holds between all steps.\<close>

definition thread_ok :: "compute_doc \<Rightarrow> mthread \<Rightarrow> bool" where
  "thread_ok d t \<longleftrightarrow> thread_ids t \<noteq> [] \<and> distinct (thread_ids t) \<and>
     (\<forall>i\<in>set (mt_todo t). view d i = Some (mt_instance t, Queued)) \<and>
     (\<forall>j s. mt_running t = Some (j, s) \<longrightarrow> view d (cj_id j) = Some (mt_instance t, Running))"

definition mstate_ok :: "mstate \<Rightarrow> bool" where
  "mstate_ok s \<longleftrightarrow> jobs_ok (ms_doc s) \<and> dict_all (\<lambda>n t. thread_ok (ms_doc s) t) (ms_threads s) \<and>
     (\<forall>m n t u. dget (ms_threads s) m = Some t \<longrightarrow> dget (ms_threads s) n = Some u \<longrightarrow>
        mt_instance t = mt_instance u \<longrightarrow> m = n) \<and>
     (\<forall>i v st. view (ms_doc s) i = Some (v, st) \<longrightarrow> active st \<longrightarrow>
        (\<exists>n t. dget (ms_threads s) n = Some t \<and> i \<in> set (thread_ids t)))"

section \<open>What the operations do to the jobs\<close>

lemma jobs_set_maintenance [simp]: "cd_jobs (set_maintenance_state i k c d) = cd_jobs d"
  by (simp add: set_maintenance_state_def split: option.split)

lemma jobs_set_project [simp]: "cd_jobs (set_docker_project_state j c d) = cd_jobs d"
  by (simp add: set_docker_project_state_def split: option.split)

lemma jobs_set_state_of [simp]: "cd_jobs (set_job_state_of j c d) = cd_jobs d"
  by (simp add: set_job_state_of_def)

lemma jobs_apply_discovery [simp]: "cd_jobs (apply_discovery j f d) = cd_jobs d"
  by (simp add: apply_discovery_def Let_def split: option.split)

lemma jobs_record_result:
  "record_result e dc reconcile j o' st su now d = Inr d' \<Longrightarrow> cd_jobs d' = cd_jobs d"
  by (auto simp: record_result_def Let_def rbind_Inr_iff split: if_splits option.splits)

lemma jobs_cong: "cd_jobs d = cd_jobs d' \<Longrightarrow> view d = view d' \<and> jobs_ok d = jobs_ok d'"
  by (auto simp: view_def jobs_ok_def fun_eq_iff)

lemma view_set_state_of [simp]: "view (set_job_state_of j c d) = view d"
  and jobs_ok_set_state_of [simp]: "jobs_ok (set_job_state_of j c d) = jobs_ok d"
  using jobs_cong [OF jobs_set_state_of] by blast+

lemma dget_compact_jobs:
  "dget (compact_jobs r js) i = Some j \<Longrightarrow> \<exists>j0. dget js i = Some j0 \<and>
     cj_id j = cj_id j0 \<and> cj_instance j = cj_instance j0 \<and> cj_state j = cj_state j0"
  by (auto simp: compact_jobs_def Let_def)

lemma view_compact: "map_option (\<lambda>j. (cj_instance j, cj_state j)) (dget (compact_jobs r js) i)
   = map_option (\<lambda>j. (cj_instance j, cj_state j)) (dget js i)"
  by (cases "dget js i") (auto simp: compact_jobs_def Let_def)

lemma compact_jobs_ids: "dict_all (\<lambda>k j. cj_id j = k) js \<Longrightarrow> dict_all (\<lambda>k j. cj_id j = k) (compact_jobs r js)"
  by (auto simp: compact_jobs_def Let_def intro!: dict_all_dmapk)

lemma view_set_job:
  assumes "dget (cd_jobs d) i = Some j" "cj_instance (f j) = cj_instance j"
  shows "view (set_job r i f d) = (view d)(i := Some (cj_instance j, cj_state (f j)))"
  using assms by (auto simp: set_job_def view_def view_compact Let_def fun_eq_iff)

lemma jobs_ok_set_job [inv_intros]:
  assumes "jobs_ok d" "\<And>j. cj_id (f j) = cj_id j"
  shows "jobs_ok (set_job r i f d)"
  using assms dict_allD [of "\<lambda>k j. cj_id j = k" "cd_jobs d" i]
  by (auto simp: set_job_def jobs_ok_def Let_def intro!: compact_jobs_ids dict_all_dput split: option.split)

lemma view_begin: "dget (cd_jobs d) i = Some j \<Longrightarrow>
    view (begin_job e s i d) = (view d)(i := Some (cj_instance j, Running))"
  by (simp add: begin_job_def view_set_job)

lemma jobs_ok_begin [inv_intros]: "jobs_ok d \<Longrightarrow> jobs_ok (begin_job e s i d)"
  by (auto simp: begin_job_def intro: inv_intros split: option.split)

lemma viewD: "view d i = Some (v, st) \<Longrightarrow> \<exists>j. dget (cd_jobs d) i = Some j \<and> cj_instance j = v \<and> cj_state j = st"
  by (auto simp: view_def)

lemma view_crash:
  assumes "view d (cj_id j) = Some (v, st)"
  shows "view (crash_job e j m s now d) = (view d)(cj_id j := Some (v, Failed))"
  using viewD [OF assms] by (auto simp: crash_job_def view_set_job)

lemma view_end:
  assumes "view d (cj_id j) = Some (v, st)"
  shows "view (end_job e j o' st' su s now d) = (view d)(cj_id j := Some (v, st'))"
  using viewD [OF assms] by (auto simp: end_job_def view_set_job)

lemma jobs_ok_end [inv_intros]: "jobs_ok d \<Longrightarrow> jobs_ok (end_job e j o' st su s now d)"
  and jobs_ok_crash [inv_intros]: "jobs_ok d \<Longrightarrow> jobs_ok (crash_job e j m s now d)"
  by (auto simp: end_job_def crash_job_def intro!: jobs_ok_set_job)

lemma verdict_terminal: "\<not> active (verdict o')"
  by (simp add: verdict_def Let_def active_def)

lemma judged_terminal: "judged e dc j o' = Inr (st, su) \<Longrightarrow> \<not> active st"
  by (auto simp: judged_def rbind_Inr_iff active_def split: job_state.splits option.splits)

lemma view_record:
  assumes "record_result e dc reconcile j o' st su now d = Inr d'"
  shows "view d' = view d" "jobs_ok d' = jobs_ok d"
  using jobs_cong [OF jobs_record_result [OF assms]] by blast+

lemma view_follow_up: "view (set_job r i (\<lambda>x. x\<lparr>cj_follow_up := True\<rparr>) d) = view d"
proof (cases "dget (cd_jobs d) i")
  case (Some j)
  then have "view d i = Some (cj_instance j, cj_state j)" by (simp add: view_def)
  with Some show ?thesis by (simp add: view_set_job fun_upd_idem)
qed (simp add: set_job_def)

lemma view_finish:
  assumes "view d (cj_id j) = Some (v, st)"
  shows "\<exists>st'. \<not> active st' \<and>
    view (finish_job e dc reconcile s now out j d) = (view d)(cj_id j := Some (v, st'))"
proof (cases "rbind out (\<lambda>o'. rbind (judged e dc j o') (\<lambda>sv. Inr (o', sv)))")
  case (Inl x)
  then show ?thesis using view_crash [OF assms] by (auto simp: finish_job_def active_def)
next
  case (Inr r)
  obtain o' st' su where r: "r = (o', st', su)" by (cases r)
  have t: "\<not> active st'" using Inr r judged_terminal by (fastforce simp: rbind_Inr_iff)
  let ?d1 = "end_job e j o' st' su s now d"
  have v1: "view ?d1 = (view d)(cj_id j := Some (v, st'))" by (rule view_end [OF assms])
  then have "view ?d1 (cj_id j) = Some (v, st')" by simp
  note c = view_crash [OF this]
  have good: "(\<exists>x. record_result e dc reconcile j o' st' su now ?d1 = Inl x) \<or>
      view (finish_job e dc reconcile s now out j d) = (view d)(cj_id j := Some (v, st'))"
    using Inr r v1 by (cases "record_result e dc reconcile j o' st' su now ?d1")
      (auto simp: finish_job_def Let_def view_follow_up view_record)
  show ?thesis
  proof (cases "(st' = Successful \<or> st' = Incomplete) \<and> (\<exists>x. record_result e dc reconcile j o' st' su now ?d1 = Inl x)")
    case True
    then show ?thesis using Inr r c v1 by (auto simp: finish_job_def Let_def active_def)
  next
    case False
    then show ?thesis using good Inr r t v1 by (auto simp: finish_job_def Let_def)
  qed
qed

lemma jobs_ok_finish [inv_intros]: "jobs_ok d \<Longrightarrow> jobs_ok (finish_job e dc reconcile s now out j d)"
  by (auto simp: finish_job_def Let_def view_record(2) intro!: inv_intros split: sum.split)

text \<open>Starting.\<close>

lemma dget_fold_jobs:
  "distinct (map cj_id js) \<Longrightarrow> dget (fold (\<lambda>j. dput (cj_id j) j) js d) k =
     (case find (\<lambda>j. cj_id j = k) js of Some j \<Rightarrow> Some j | None \<Rightarrow> dget d k)"
proof (induction js arbitrary: d)
  case (Cons a js)
  have "k = cj_id a \<Longrightarrow> find (\<lambda>j. cj_id j = k) js = None"
    using Cons.prems by (simp add: find_None_iff) (metis image_eqI)
  then show ?case using Cons by (auto split: option.split)
qed simp

lemma fold_jobs_ids:
  "dict_all (\<lambda>k j. cj_id j = k) d \<Longrightarrow> dict_all (\<lambda>k j. cj_id j = k) (fold (\<lambda>j. dput (cj_id j) j) js d)"
  by (induction js arbitrary: d) (auto intro: dict_all_dput)

lemma evicted_terminal:
  assumes "dict_all (\<lambda>k j. cj_id j = k) jobs" "i \<in> set (evicted_jobs cap jobs)"
  shows "\<exists>j. dget jobs i = Some j \<and> \<not> active (cj_state j)"
proof -
  obtain j where j: "i = cj_id j" "j \<in> set (dvals jobs)" "\<not> active (cj_state j)"
    using assms(2) by (auto simp: evicted_jobs_def dest: in_set_takeD)
  then obtain k where "(k, j) \<in> set jobs" by auto
  with assms(1) j show ?thesis
    using dict_all_mem [OF assms(1)] dget_mem_iff [OF dict_all_ok [OF assms(1)]] by blast
qed

lemma start_jobs_InrD:
  assumes "start_jobs cap js d = (Inr out, d')" "js \<noteq> []"
  shows "out = js" "\<forall>j\<in>set js. cj_instance j = cj_instance (hd js)"
    "\<And>i st. view d i = Some (cj_instance (hd js), st) \<Longrightarrow> \<not> active st"
    "d' = d\<lparr>cd_jobs := ddel_all (evicted_jobs cap (fold (\<lambda>j. dput (cj_id j) j) js (cd_jobs d)))
        (fold (\<lambda>j. dput (cj_id j) j) js (cd_jobs d))\<rparr>"
proof -
  obtain j0 rest where js: "js = j0 # rest" using assms(2) by (cases js) auto
  note u = assms(1) [unfolded js start_jobs_def list.case, folded js]
  have same: "\<not> list_ex (\<lambda>x. cj_instance x \<noteq> cj_instance j0) js"
    using u by (auto split: if_splits)
  have idle: "\<not> list_ex (\<lambda>x. cj_instance x = cj_instance j0 \<and> active (cj_state x)) (dvals (cd_jobs d))"
    using u same by (auto simp: start_mut_def transact_def split: if_splits)
  show "out = js" using u same by (auto split: if_splits prod.splits sum.splits)
  show "\<forall>j\<in>set js. cj_instance j = cj_instance (hd js)" using same by (auto simp: js list_ex_iff)
  show "\<not> active st" if "view d i = Some (cj_instance (hd js), st)" for i st
    using viewD [OF that] idle by (force simp: js list_ex_iff dest: dget_mem)
  show "d' = d\<lparr>cd_jobs := ddel_all (evicted_jobs cap (fold (\<lambda>j. dput (cj_id j) j) js (cd_jobs d)))
        (fold (\<lambda>j. dput (cj_id j) j) js (cd_jobs d))\<rparr>"
    using u same idle by (auto simp: start_mut_def transact_def Let_def)
qed

lemma view_start:
  assumes "start_jobs cap js d = (Inr out, d')" "js \<noteq> []" "new_jobs js d" "jobs_ok d"
  shows "jobs_ok d'"
    "\<And>j. j \<in> set js \<Longrightarrow> view d' (cj_id j) = Some (cj_instance (hd js), Queued)"
    "\<And>i. i \<notin> cj_id ` set js \<Longrightarrow> view d' i = view d i \<or> (view d' i = None \<and> (\<exists>v st. view d i = Some (v, st) \<and> \<not> active st))"
proof -
  let ?J = "fold (\<lambda>j. dput (cj_id j) j) js (cd_jobs d)"
  have dist: "distinct (map cj_id js)" using assms(3) by (simp add: new_jobs_def)
  have ok: "dict_all (\<lambda>k j. cj_id j = k) ?J"
    using assms(4) by (auto simp: jobs_ok_def intro: fold_jobs_ids)
  note D = start_jobs_InrD [OF assms(1,2)]
  have g: "dget (cd_jobs d') k = (if k \<in> set (evicted_jobs cap ?J) then None else dget ?J k)" for k
    by (simp add: D(4))
  show "jobs_ok d'" using ok by (auto simp: D(4) jobs_ok_def intro: dict_all_ddel_all)
  show "view d' (cj_id j) = Some (cj_instance (hd js), Queued)" if j: "j \<in> set js" for j
  proof -
    have "find (\<lambda>x. cj_id x = cj_id j) js = Some j"
      using dist j by (induction js) (auto simp: rev_image_eqI)
    then have J: "dget ?J (cj_id j) = Some j" by (simp add: dget_fold_jobs [OF dist])
    have q: "cj_state j = Queued" using assms(3) j by (auto simp: new_jobs_def list_all_iff)
    then have "cj_id j \<notin> set (evicted_jobs cap ?J)"
      using evicted_terminal [OF ok] J by (fastforce simp: active_def)
    then show ?thesis using J D(2) j q by (simp add: view_def g)
  qed
  show "view d' i = view d i \<or> (view d' i = None \<and> (\<exists>v st. view d i = Some (v, st) \<and> \<not> active st))"
    if i: "i \<notin> cj_id ` set js" for i
  proof -
    have "find (\<lambda>x. cj_id x = i) js = None" using i by (auto simp: find_None_iff)
    then have J: "dget ?J i = dget (cd_jobs d) i" by (simp add: dget_fold_jobs [OF dist])
    then show ?thesis using evicted_terminal [OF ok, of i] by (auto simp: view_def g)
  qed
qed

lemma view_recover: "view (snd (recover_interrupted_jobs now d)) i =
    map_option (\<lambda>(v, st). (v, if active st then Failed else st)) (view d i)"
  by (cases "dget (cd_jobs d) i") (auto simp: recover_interrupted_jobs_def view_def recover_job_def)

lemma jobs_ok_recover: "jobs_ok d \<Longrightarrow> jobs_ok (snd (recover_interrupted_jobs now d))"
  by (auto simp: recover_interrupted_jobs_def jobs_ok_def recover_job_def dict_all_def)

section \<open>One thread per instance\<close>

lemma thread_ids_view:
  "thread_ok d t \<Longrightarrow> i \<in> set (thread_ids t) \<Longrightarrow> \<exists>st. active st \<and> view d i = Some (mt_instance t, st)"
  by (auto simp: thread_ok_def thread_ids_def active_def split: option.splits)

lemma thread_ok_cong:
  "thread_ok d t \<Longrightarrow> (\<And>i. i \<in> set (thread_ids t) \<Longrightarrow> view d' i = view d i) \<Longrightarrow> thread_ok d' t"
  by (auto simp: thread_ok_def thread_ids_def)

lemma mstate_okD:
  assumes "mstate_ok s"
  shows "jobs_ok (ms_doc s)"
    "\<And>n t. dget (ms_threads s) n = Some t \<Longrightarrow> thread_ok (ms_doc s) t"
    "\<And>m n t u. dget (ms_threads s) m = Some t \<Longrightarrow> dget (ms_threads s) n = Some u \<Longrightarrow>
       mt_instance t = mt_instance u \<Longrightarrow> m = n"
    "\<And>i v st. view (ms_doc s) i = Some (v, st) \<Longrightarrow> active st \<Longrightarrow>
       \<exists>n t. dget (ms_threads s) n = Some t \<and> i \<in> set (thread_ids t)"
    "dict_ok (ms_threads s)"
  using assms unfolding mstate_ok_def
  by (blast dest: dict_allD, blast dest: dict_allD, blast, blast, blast dest: dict_all_ok)

lemma mstate_okI:
  assumes "jobs_ok (ms_doc s)" "dict_ok (ms_threads s)"
    "\<And>n t. dget (ms_threads s) n = Some t \<Longrightarrow> thread_ok (ms_doc s) t"
    "\<And>m n t u. dget (ms_threads s) m = Some t \<Longrightarrow> dget (ms_threads s) n = Some u \<Longrightarrow>
       mt_instance t = mt_instance u \<Longrightarrow> m = n"
    "\<And>i v st. view (ms_doc s) i = Some (v, st) \<Longrightarrow> active st \<Longrightarrow>
       \<exists>n t. dget (ms_threads s) n = Some t \<and> i \<in> set (thread_ids t)"
  shows "mstate_ok s"
  using assms unfolding mstate_ok_def by (blast intro: dict_allI)

text \<open>One thread moves: the others keep their jobs.\<close>

lemma mstate_ok_move:
  assumes ok: "mstate_ok s" and t: "dget (ms_threads s) n = Some t"
    and d: "jobs_ok d" "view d = (view (ms_doc s))(i := Some (mt_instance t, st))" and i: "i \<in> set (thread_ids t)"
    and t': "mt_instance t' = mt_instance t" "set (thread_ids t') \<subseteq> set (thread_ids t)"
      "thread_ids t' \<noteq> [] \<Longrightarrow> thread_ok d t'"
      "set (thread_ids t) - set (thread_ids t') \<subseteq> (if active st then {} else {i})"
  shows "mstate_ok \<lparr>ms_doc = d, ms_threads = put_thread n t' (ms_threads s)\<rparr>"
proof (rule mstate_okI)
  note O = mstate_okD [OF ok]
  show "jobs_ok (ms_doc \<lparr>ms_doc = d, ms_threads = put_thread n t' (ms_threads s)\<rparr>)" using d by simp
  show "dict_ok (ms_threads \<lparr>ms_doc = d, ms_threads = put_thread n t' (ms_threads s)\<rparr>)"
    using O(5) by (simp add: put_thread_def)
  have g: "dget (put_thread n t' (ms_threads s)) m = Some u \<longleftrightarrow>
      (if m = n then u = t' \<and> thread_ids t' \<noteq> [] else dget (ms_threads s) m = Some u)" for m u
    by (auto simp: put_thread_def)
  show "thread_ok (ms_doc \<lparr>ms_doc = d, ms_threads = put_thread n t' (ms_threads s)\<rparr>) u"
    if "dget (ms_threads \<lparr>ms_doc = d, ms_threads = put_thread n t' (ms_threads s)\<rparr>) m = Some u" for m u
  proof (cases "m = n")
    case True
    then show ?thesis using that g t'(3) by simp
  next
    case False
    then have u: "dget (ms_threads s) m = Some u" using that g by simp
    have "i \<notin> set (thread_ids u)"
    proof
      assume "i \<in> set (thread_ids u)"
      then have "mt_instance u = mt_instance t"
        using thread_ids_view [OF O(2) [OF u]] thread_ids_view [OF O(2) [OF t] i] by fastforce
      then show False using O(3) [OF u t] False by simp
    qed
    then show ?thesis using O(2) [OF u] by (auto intro: thread_ok_cong simp: d)
  qed
  show "m = k" if "dget (ms_threads \<lparr>ms_doc = d, ms_threads = put_thread n t' (ms_threads s)\<rparr>) m = Some u"
    "dget (ms_threads \<lparr>ms_doc = d, ms_threads = put_thread n t' (ms_threads s)\<rparr>) k = Some w"
    "mt_instance u = mt_instance w" for m k u w
  proof (cases "m = n"; cases "k = n")
    assume "m = n" "k \<noteq> n"
    then show ?thesis using that t'(1) O(3) [OF t, of k w] by (simp add: g)
  next
    assume "m \<noteq> n" "k = n"
    then show ?thesis using that t'(1) O(3) [OF _ t, of m u] by (simp add: g)
  next
    assume "m \<noteq> n" "k \<noteq> n"
    then show ?thesis using that O(3) [of m u k w] by (simp add: g)
  qed simp
  show "\<exists>m u. dget (ms_threads \<lparr>ms_doc = d, ms_threads = put_thread n t' (ms_threads s)\<rparr>) m = Some u \<and> k \<in> set (thread_ids u)"
    if k: "view (ms_doc \<lparr>ms_doc = d, ms_threads = put_thread n t' (ms_threads s)\<rparr>) k = Some (v, st')" "active st'" for k v st'
  proof (cases "k \<in> set (thread_ids t)")
    case True
    then have "k \<in> set (thread_ids t')" using t'(4) k d by (auto split: if_splits)
    then show ?thesis by (intro exI [of _ n] exI [of _ t']) (auto simp: g)
  next
    case False
    then have "view (ms_doc s) k = Some (v, st')" using k d i by (auto split: if_splits)
    then obtain m u where "dget (ms_threads s) m = Some u" "k \<in> set (thread_ids u)" using O(4) k by blast
    then show ?thesis using False t by (intro exI [of _ m] exI [of _ u]) (auto simp: g)
  qed
qed

lemma put_thread_ids: "thread_ids t \<noteq> [] \<Longrightarrow> put_thread n t ts = dput n t ts"
  by (simp add: put_thread_def)

lemma mstate_ok_boot: "jobs_ok d \<Longrightarrow> mstate_ok \<lparr>ms_doc = snd (recover_interrupted_jobs now d), ms_threads = []\<rparr>"
  by (rule mstate_okI) (auto simp: jobs_ok_recover view_recover active_def split: if_splits)

lemma mstate_ok_begin:
  assumes ok: "mstate_ok s" and t: "dget (ms_threads s) n = Some t" "mt_running t = None" "mt_todo t = i # rest"
    and j: "dget (cd_jobs (ms_doc s)) i = Some j"
  shows "mstate_ok \<lparr>ms_doc = begin_job e started i (ms_doc s),
       ms_threads = dput n (t\<lparr>mt_running := Some (j, started), mt_todo := rest\<rparr>) (ms_threads s)\<rparr>"
proof -
  let ?t' = "t\<lparr>mt_running := Some (j, started), mt_todo := rest\<rparr>"
  note O = mstate_okD [OF ok] and T = mstate_okD(2) [OF ok t(1)]
  have id: "cj_id j = i" using O(1) j by (auto simp: jobs_ok_def dest: dict_allD)
  have ids: "thread_ids ?t' = thread_ids t" using t id by (simp add: thread_ids_def)
  have inst: "cj_instance j = mt_instance t" using T j t by (auto simp: thread_ok_def view_def)
  have v: "view (begin_job e started i (ms_doc s)) = (view (ms_doc s))(i := Some (mt_instance t, Running))"
    using view_begin [OF j] inst by simp
  have dist: "distinct (i # rest)" using T t by (simp add: thread_ok_def thread_ids_def)
  have ok': "thread_ok (begin_job e started i (ms_doc s)) ?t'"
    using T t dist id unfolding thread_ok_def v by (auto simp: thread_ids_def)
  show ?thesis
    using mstate_ok_move [OF ok t(1) jobs_ok_begin [OF O(1)] v, of ?t'] ok' ids t
    by (auto simp: put_thread_def thread_ids_def)
qed

lemma mstate_ok_finish:
  assumes ok: "mstate_ok s" and t: "dget (ms_threads s) n = Some t" "mt_running t = Some (j, started)"
  shows "mstate_ok \<lparr>ms_doc = finish_job e dc reconcile started now out j (ms_doc s),
       ms_threads = put_thread n (t\<lparr>mt_running := None\<rparr>) (ms_threads s)\<rparr>"
proof -
  note O = mstate_okD [OF ok] and T = mstate_okD(2) [OF ok t(1)]
  have "view (ms_doc s) (cj_id j) = Some (mt_instance t, Running)" using T t by (simp add: thread_ok_def)
  then obtain st where st: "\<not> active st" and
    v: "view (finish_job e dc reconcile started now out j (ms_doc s)) = (view (ms_doc s))(cj_id j := Some (mt_instance t, st))"
    using view_finish by blast
  show ?thesis
  proof (rule mstate_ok_move [OF ok t(1) jobs_ok_finish [OF O(1)] v])
    show "thread_ok (finish_job e dc reconcile started now out j (ms_doc s)) (t\<lparr>mt_running := None\<rparr>)"
      if "thread_ids (t\<lparr>mt_running := None\<rparr>) \<noteq> []"
      using T t that unfolding thread_ok_def v by (auto simp: thread_ids_def)
  qed (use t st in \<open>auto simp: thread_ids_def\<close>)
qed

lemma mstate_ok_request:
  assumes ok: "mstate_ok s" and js: "new_jobs js (ms_doc s)" "js \<noteq> []" "start_jobs cap js (ms_doc s) = (Inr js, d)"
    and n: "dget (ms_threads s) (cj_id (hd js)) = None"
  shows "mstate_ok \<lparr>ms_doc = d, ms_threads = dput (cj_id (hd js))
       \<lparr>mt_instance = cj_instance (hd js), mt_running = None, mt_todo = map cj_id js\<rparr> (ms_threads s)\<rparr>"
    (is "mstate_ok \<lparr>ms_doc = d, ms_threads = dput ?n ?t (ms_threads s)\<rparr>")
proof (rule mstate_okI; simp only: mstate.simps)
  note O = mstate_okD [OF ok] and V = view_start [OF js(3,2,1) mstate_okD(1) [OF ok]]
    and I = start_jobs_InrD(3) [OF js(3,2)]
  show "jobs_ok d" by (rule V)
  show "dict_ok (dput ?n ?t (ms_threads s))" using O(5) by simp
  have fresh: "i \<in> cj_id ` set js \<Longrightarrow> view (ms_doc s) i = None" for i
    using js(1) by (auto simp: new_jobs_def list_all_iff view_def)
  have new: "thread_ok d ?t" using V(2) js(1,2) by (auto simp: thread_ok_def thread_ids_def new_jobs_def)
  have old: "thread_ok d u" "mt_instance u \<noteq> cj_instance (hd js)" if u: "dget (ms_threads s) m = Some u" for m u
  proof -
    note U = thread_ids_view [OF O(2) [OF u]]
    show "thread_ok d u"
    proof (rule thread_ok_cong [OF O(2) [OF u]])
      fix i assume "i \<in> set (thread_ids u)"
      from U [OF this] obtain st where st: "active st" "view (ms_doc s) i = Some (mt_instance u, st)" by blast
      then have "i \<notin> cj_id ` set js" using fresh by force
      from V(3) [OF this] st show "view d i = view (ms_doc s) i" by auto
    qed
    have "thread_ids u \<noteq> []" using O(2) [OF u] by (simp add: thread_ok_def)
    then obtain i where "i \<in> set (thread_ids u)" by (cases "thread_ids u") auto
    from U [OF this] I [of i] show "mt_instance u \<noteq> cj_instance (hd js)" by auto
  qed
  show "thread_ok d u" if "dget (dput ?n ?t (ms_threads s)) m = Some u" for m u
    using that new old(1) by (auto split: if_splits)
  show "m = k" if "dget (dput ?n ?t (ms_threads s)) m = Some u" "dget (dput ?n ?t (ms_threads s)) k = Some w"
    "mt_instance u = mt_instance w" for m k u w
    using that old(2) [of m u] old(2) [of k w] O(3) [of m u k w] by (auto split: if_splits)
  show "\<exists>m u. dget (dput ?n ?t (ms_threads s)) m = Some u \<and> k \<in> set (thread_ids u)"
    if k: "view d k = Some (v, st)" "active st" for k v st
  proof (cases "k \<in> cj_id ` set js")
    case True
    then show ?thesis by (intro exI [of _ ?n] exI [of _ ?t]) (auto simp: thread_ids_def)
  next
    case False
    then have "view (ms_doc s) k = Some (v, st)" using V(3) [OF False] k by auto
    then obtain m u where u: "dget (ms_threads s) m = Some u" "k \<in> set (thread_ids u)" using O(4) k by blast
    have "m \<noteq> ?n" using n u by auto
    then show ?thesis using u by (intro exI [of _ m] exI [of _ u]) auto
  qed
qed


lemma mstep_ok: "mstep e dc reconcile cap s s' \<Longrightarrow> mstate_ok s \<Longrightarrow> mstate_ok s'"
proof (induction rule: mstep.induct)
  case (request js s d)
  then show ?case using mstate_ok_request by blast
next
  case (begins s n t i rest j started)
  then show ?case using mstate_ok_begin by blast
next
  case (skips s n t i rest)
  then have "view (ms_doc s) i = Some (mt_instance t, Queued)"
    using mstate_okD(2) by (fastforce simp: thread_ok_def)
  with skips show ?case by (simp add: view_def)
next
  case (finishes s n t j started now out)
  then show ?case using mstate_ok_finish by blast
next
  case (restarts s now)
  then show ?case using mstate_ok_boot mstate_okD(1) by blast
qed

lemma mreach_ok: "mreach e dc reconcile cap d s \<Longrightarrow> jobs_ok d \<Longrightarrow> mstate_ok s"
  by (induction rule: mreach.induct) (blast intro: mstate_ok_boot mstep_ok)+

text \<open>
  Property C15: at every reachable moment an active job belongs to exactly one thread, of its own
  instance; it is marked as running just when that thread is in it, every other active job of the
  instance waits in the same thread, and no two jobs of an instance run at once.
\<close>

theorem maintenance_exclusive:
  assumes "mreach e dc reconcile cap d s" "jobs_ok d"
    "dget (cd_jobs (ms_doc s)) a = Some ja" "active (cj_state ja)"
  shows "\<exists>n t. dget (ms_threads s) n = Some t \<and> a \<in> set (thread_ids t) \<and> mt_instance t = cj_instance ja \<and>
      (cj_state ja = Running \<longleftrightarrow> (\<exists>j started. mt_running t = Some (j, started) \<and> cj_id j = a)) \<and>
      (\<forall>b jb. dget (cd_jobs (ms_doc s)) b = Some jb \<longrightarrow> active (cj_state jb) \<longrightarrow> cj_instance jb = cj_instance ja \<longrightarrow>
         b \<in> set (thread_ids t) \<and> (cj_state jb = Running \<longrightarrow> cj_state ja = Running \<longrightarrow> b = a))"
proof -
  note O = mstate_okD [OF mreach_ok [OF assms(1,2)]]
  have own: "\<exists>n t. dget (ms_threads s) n = Some t \<and> b \<in> set (thread_ids t) \<and> mt_instance t = cj_instance jb \<and>
      (cj_state jb = Running \<longleftrightarrow> (\<exists>j started. mt_running t = Some (j, started) \<and> cj_id j = b))"
    if b: "dget (cd_jobs (ms_doc s)) b = Some jb" "active (cj_state jb)" for b jb
  proof -
    have v: "view (ms_doc s) b = Some (cj_instance jb, cj_state jb)" using b by (simp add: view_def)
    from O(4) [OF v b(2)] obtain n t where t: "dget (ms_threads s) n = Some t" "b \<in> set (thread_ids t)" by blast
    show ?thesis using O(2) [OF t(1)] t v
      by (intro exI [of _ n] exI [of _ t]) (auto simp: thread_ok_def thread_ids_def split: option.splits)
  qed
  from own [OF assms(3,4)] obtain n t where t: "dget (ms_threads s) n = Some t" "a \<in> set (thread_ids t)"
    "mt_instance t = cj_instance ja" "cj_state ja = Running \<longleftrightarrow> (\<exists>j started. mt_running t = Some (j, started) \<and> cj_id j = a)"
    by blast
  have "b \<in> set (thread_ids t) \<and> (cj_state jb = Running \<longrightarrow> cj_state ja = Running \<longrightarrow> b = a)"
    if b: "dget (cd_jobs (ms_doc s)) b = Some jb" "active (cj_state jb)" "cj_instance jb = cj_instance ja" for b jb
  proof -
    from own [OF b(1,2)] obtain m u where u: "dget (ms_threads s) m = Some u" "b \<in> set (thread_ids u)"
      "mt_instance u = cj_instance jb" "cj_state jb = Running \<longleftrightarrow> (\<exists>j started. mt_running u = Some (j, started) \<and> cj_id j = b)"
      by blast
    have "m = n" using O(3) [OF u(1) t(1)] u(3) t(3) b(3) by simp
    then show ?thesis using u t by auto
  qed
  with t show ?thesis by blast
qed

section \<open>A finished sequence\<close>

lemma view_run_job:
  assumes "jobs_ok d" "view d i = Some (v, st)"
  shows "\<exists>st'. \<not> active st' \<and> view (run_job e dc reconcile x i d) = (view d)(i := Some (v, st'))"
proof -
  obtain j where j: "dget (cd_jobs d) i = Some j" "cj_instance j = v" using viewD [OF assms(2)] by blast
  have id: "cj_id j = i" using assms(1) j(1) by (auto simp: jobs_ok_def dest: dict_allD)
  let ?d = "begin_job e (ri_started x) i d"
  have b: "view ?d = (view d)(i := Some (v, Running))" using view_begin [OF j(1)] j(2) by simp
  then have "view ?d (cj_id j) = Some (v, Running)" using id by simp
  from view_finish [OF this, of e dc reconcile "ri_started x" "ri_now x" "ri_out x"] obtain st'
    where "\<not> active st'" "view (run_job e dc reconcile x i d) = (view ?d)(i := Some (v, st'))"
    using id j(1) by (auto simp: run_job_def)
  then show ?thesis using b by (intro exI [of _ st']) simp
qed

lemma jobs_ok_run_job [inv_intros]: "jobs_ok d \<Longrightarrow> jobs_ok (run_job e dc reconcile x i d)"
  by (auto simp: run_job_def intro: inv_intros split: option.split)

lemma view_run_sequence:
  assumes "jobs_ok d" "\<And>i. i \<in> set is \<Longrightarrow> \<exists>st. view d i = Some (v, st)"
  shows "jobs_ok (run_job_sequence e dc reconcile x is d) \<and>
    (\<forall>i\<in>set is. \<exists>st. \<not> active st \<and> view (run_job_sequence e dc reconcile x is d) i = Some (v, st)) \<and>
    (\<forall>i. i \<notin> set is \<longrightarrow> view (run_job_sequence e dc reconcile x is d) i = view d i)"
  using assms
proof (induction "is" arbitrary: d)
  case (Cons i "is")
  let ?d = "run_job e dc reconcile (x i) i d"
  obtain st where "view d i = Some (v, st)" using Cons.prems(2) by fastforce
  from view_run_job [OF Cons.prems(1) this, of e dc reconcile "x i"] obtain st'
    where st': "\<not> active st'" "view ?d = (view d)(i := Some (v, st'))" by blast
  have "\<exists>st. view ?d k = Some (v, st)" if "k \<in> set is" for k
    using Cons.prems(2) [of k] that st'(2) by auto
  note IH = Cons.IH [OF jobs_ok_run_job [OF Cons.prems(1)] this]
  show ?case using IH st' by (cases "i \<in> set is") auto
qed simp

lemma start_jobs_idle:
  assumes "\<And>i st. view d i = Some (cj_instance (hd js), st) \<Longrightarrow> \<not> active st" "jobs_ok d"
    "\<forall>j\<in>set js. cj_instance j = cj_instance (hd js)"
  shows "fst (start_jobs cap js d) = Inr js"
proof (cases js)
  case (Cons j rest)
  have "\<not> (cj_instance y = cj_instance j \<and> active (cj_state y))" if y: "y \<in> set (dvals (cd_jobs d))" for y
  proof -
    obtain k where "(k, y) \<in> set (cd_jobs d)" using y by force
    then have "dget (cd_jobs d) k = Some y"
      using assms(2) by (simp add: jobs_ok_def dget_mem_iff dict_all_ok)
    then show ?thesis using assms(1) [of k "cj_state y"] Cons by (auto simp: view_def)
  qed
  then have i: "\<not> list_ex (\<lambda>x. cj_instance x = cj_instance j \<and> active (cj_state x)) (dvals (cd_jobs d))"
    by (auto simp: list_ex_iff)
  have "\<not> list_ex (\<lambda>x. cj_instance x \<noteq> cj_instance j) js" using assms(3) Cons by (auto simp: list_ex_iff)
  then show ?thesis using i unfolding start_jobs_def Cons by (simp add: transact_def start_mut_def Let_def)
qed (simp add: start_jobs_def)

text \<open>
  Property C16: when the thread of an accepted request has run, whatever the playbooks gave, every job
  of it has ended and the next request for the instance is accepted.
\<close>

theorem sequence_leaves_idle:
  fixes js' :: "cjob list"
  assumes "start_jobs cap js d = (Inr out, d')" "new_jobs js d" "jobs_ok d" "js \<noteq> []"
    "\<forall>j\<in>set js'. cj_instance j = cj_instance (hd js)"
  shows "(\<forall>j\<in>set js. \<exists>j'. dget (cd_jobs (run_job_sequence e dc reconcile x (map cj_id js) d')) (cj_id j) = Some j' \<and>
      \<not> active (cj_state j')) \<and>
    fst (start_jobs cap js' (run_job_sequence e dc reconcile x (map cj_id js) d')) = Inr js'"
proof -
  let ?d = "run_job_sequence e dc reconcile x (map cj_id js) d'"
  note V = view_start [OF assms(1,4,2,3)] and I = start_jobs_InrD(3) [OF assms(1,4)]
  have "\<exists>st. view d' i = Some (cj_instance (hd js), st)" if "i \<in> set (map cj_id js)" for i
    using V(2) that by auto
  note R = view_run_sequence [OF V(1) this, of "map cj_id js" e dc reconcile x, simplified]
  have ends: "\<forall>j\<in>set js. \<exists>j'. dget (cd_jobs ?d) (cj_id j) = Some j' \<and> \<not> active (cj_state j')"
  proof
    fix j assume "j \<in> set js"
    with R obtain st where "\<not> active st" "view ?d (cj_id j) = Some (cj_instance (hd js), st)" by blast
    then show "\<exists>j'. dget (cd_jobs ?d) (cj_id j) = Some j' \<and> \<not> active (cj_state j')" using viewD by blast
  qed
  have idle: "\<not> active st" if "view ?d i = Some (cj_instance (hd js), st)" for i st
  proof (cases "i \<in> cj_id ` set js")
    case True
    then show ?thesis using R that by fastforce
  next
    case False
    then show ?thesis using R V(3) [OF False] I [of i st] that by auto
  qed
  have "fst (start_jobs cap js' ?d) = Inr js'"
  proof (cases "js' = []")
    case False
    then have "cj_instance (hd js') = cj_instance (hd js)" using assms(5) by (cases js') auto
    then show ?thesis using assms(5) idle R by (intro start_jobs_idle) auto
  qed (simp add: start_jobs_def)
  with ends show ?thesis by blast
qed

text \<open>Retention.\<close>

lemma length_evicted: "dict_all (\<lambda>k j. cj_id j = k) jobs \<Longrightarrow> distinct (evicted_jobs cap jobs)"
proof -
  assume ok: "dict_all (\<lambda>k j. cj_id j = k) jobs"
  have "map cj_id (dvals jobs) = dkeys jobs"
    using dict_all_mem [OF ok] by (induction jobs) (auto intro!: map_cong)
  then have d: "distinct (map cj_id (dvals jobs))" using dict_all_ok [OF ok] by metis
  let ?f = "filter (\<lambda>j. \<not> active (cj_state j)) (dvals jobs)"
  have "distinct (map cj_id ?f)" using d by (rule distinct_map_filter)
  then have "distinct (map cj_id (sort_key job_rank ?f))"
    by (simp add: distinct_map)
  then show "distinct (evicted_jobs cap jobs)"
    by (simp add: evicted_jobs_def take_map [symmetric])
qed

lemma evicted_mem_iff:
  assumes ok: "dict_all (\<lambda>k j. cj_id j = k) jobs" and j: "dget jobs i = Some j"
  shows "i \<in> set (evicted_jobs cap jobs) \<longleftrightarrow>
    j \<in> set (take (length jobs - cap) (sort_key job_rank (filter (\<lambda>j. \<not> active (cj_state j)) (dvals jobs))))"
proof -
  have "x = j" if x: "x \<in> set (dvals jobs)" "cj_id x = i" for x
  proof -
    obtain k where "(k, x) \<in> set jobs" using x(1) by force
    moreover from dict_all_mem [OF ok this] x(2) have "k = i" by simp
    ultimately have "dget jobs i = Some x" by (simp add: dget_mem_iff [OF dict_all_ok [OF ok]])
    with j show ?thesis by simp
  qed
  moreover have "cj_id j = i" using dict_allD [OF ok j] .
  moreover have "set (take n (sort_key job_rank (filter (\<lambda>j. \<not> active (cj_state j)) (dvals jobs)))) \<subseteq> set (dvals jobs)" for n
    by (auto dest: in_set_takeD)
  ultimately show ?thesis unfolding evicted_jobs_def set_map by blast
qed

lemma terminal_in_sorted:
  "dget jobs i = Some j \<Longrightarrow> \<not> active (cj_state j) \<Longrightarrow>
   j \<in> set (sort_key job_rank (filter (\<lambda>j. \<not> active (cj_state j)) (dvals jobs)))"
  by (force dest: dget_mem)

lemma evicted_order:
  assumes ok: "dict_all (\<lambda>k j. cj_id j = k) jobs"
    and i: "i \<in> set (evicted_jobs cap jobs)" "dget jobs i = Some j"
    and k: "k \<notin> set (evicted_jobs cap jobs)" "dget jobs k = Some m" "\<not> active (cj_state m)"
  shows "job_rank j \<le> job_rank m"
proof -
  let ?ys = "sort_key job_rank (filter (\<lambda>j. \<not> active (cj_state j)) (dvals jobs))"
  have "j \<in> set (take (length jobs - cap) ?ys)"
    using i evicted_mem_iff [OF ok i(2)] by blast
  moreover have "m \<in> set ?ys - set (take (length jobs - cap) ?ys)"
    using k evicted_mem_iff [OF ok k(2)] terminal_in_sorted [OF k(2,3)] by blast
  ultimately show ?thesis by (rule sorted_take_le [OF sorted_sort_key])
qed

lemma retained_length:
  fixes cap :: nat
  assumes ok: "dict_all (\<lambda>k j. cj_id j = k) jobs"
  defines "R \<equiv> ddel_all (evicted_jobs cap jobs) jobs"
  shows "length R \<le> max cap (length (filter (\<lambda>j. active (cj_state j)) (dvals R)))"
proof -
  let ?T = "filter (\<lambda>j. \<not> active (cj_state j)) (dvals jobs)"
  have "set (evicted_jobs cap jobs) \<subseteq> set (dkeys jobs)"
    using evicted_terminal [OF ok] by (metis dget_None_iff option.distinct(1) subsetI)
  then have len: "length R = length jobs - length (evicted_jobs cap jobs)"
    using length_ddel_all [OF dict_all_ok [OF ok] length_evicted [OF ok]] by (simp add: R_def)
  have e: "length (evicted_jobs cap jobs) = min (length ?T) (length jobs - cap)"
    by (simp add: evicted_jobs_def)
  show ?thesis
  proof (cases "length jobs - cap \<le> length ?T")
    case True
    then show ?thesis using len e by linarith
  next
    case False
    have "active (cj_state y)" if y: "y \<in> set (dvals R)" for y
    proof (rule ccontr)
      assume n: "\<not> active (cj_state y)"
      obtain k where "(k, y) \<in> set R" using y by force
      then have "dget R k = Some y" using dget_mem_iff [of R k y] dict_all_ok [OF ok] by (simp only: R_def dict_ok_ddel_all)
      then have k: "dget jobs k = Some y" "k \<notin> set (evicted_jobs cap jobs)" by (auto simp: R_def split: if_splits)
      then show False using terminal_in_sorted [OF k(1) n] False evicted_mem_iff [OF ok k(1), of cap] by (simp del: set_sort)
    qed
    then have "filter (\<lambda>j. active (cj_state j)) (dvals R) = dvals R" by (simp add: filter_id_conv)
    then show ?thesis by simp
  qed
qed

text \<open>
  Property C17: an accepted request stores its jobs and keeps every active one; the history then has at
  most the configured number of jobs, unless the active ones alone are more. What it drops had
  ended and is no newer than any ended job it keeps.
\<close>

theorem start_jobs_retention:
  assumes "start_jobs cap js d = (Inr out, d')" "new_jobs js d" "jobs_ok d" "js \<noteq> []"
  shows "length (cd_jobs d') \<le> max cap (length (filter (\<lambda>j. active (cj_state j)) (dvals (cd_jobs d')))) \<and>
    (\<forall>j\<in>set js. dget (cd_jobs d') (cj_id j) = Some j) \<and>
    (\<forall>i j. dget (cd_jobs d) i = Some j \<longrightarrow> dget (cd_jobs d') i = Some j \<or>
       (dget (cd_jobs d') i = None \<and> \<not> active (cj_state j) \<and>
        (\<forall>k m. dget (cd_jobs d') k = Some m \<longrightarrow> active (cj_state m) \<or> job_rank j \<le> job_rank m))) \<and>
    cd_instances d' = cd_instances d"
proof -
  let ?J = "fold (\<lambda>j. dput (cj_id j) j) js (cd_jobs d)"
  note D = start_jobs_InrD [OF assms(1,4)]
  have dist: "distinct (map cj_id js)" using assms(2) by (simp add: new_jobs_def)
  have ok: "dict_all (\<lambda>k j. cj_id j = k) ?J" using assms(3) by (auto simp: jobs_ok_def intro: fold_jobs_ids)
  have g: "dget (cd_jobs d') k = (if k \<in> set (evicted_jobs cap ?J) then None else dget ?J k)" for k
    by (simp add: D(4))
  have new: "dget (cd_jobs d') (cj_id j) = Some j" if j: "j \<in> set js" for j
  proof -
    have "find (\<lambda>x. cj_id x = cj_id j) js = Some j"
      using dist j by (induction js) (auto simp: rev_image_eqI)
    then have J: "dget ?J (cj_id j) = Some j" by (simp add: dget_fold_jobs [OF dist])
    have "cj_state j = Queued" using assms(2) j by (auto simp: new_jobs_def list_all_iff)
    then have "cj_id j \<notin> set (evicted_jobs cap ?J)"
      using evicted_terminal [OF ok] J by (fastforce simp: active_def)
    then show ?thesis using J by (simp add: g)
  qed
  have old: "dget (cd_jobs d') i = Some j \<or> (dget (cd_jobs d') i = None \<and> \<not> active (cj_state j) \<and>
        (\<forall>k m. dget (cd_jobs d') k = Some m \<longrightarrow> active (cj_state m) \<or> job_rank j \<le> job_rank m))"
    if i: "dget (cd_jobs d) i = Some j" for i j
  proof -
    have "cj_id x \<noteq> i" if x: "x \<in> set js" for x using assms(2) i x by (auto simp: new_jobs_def list_all_iff)
    then have "find (\<lambda>x. cj_id x = i) js = None" by (auto simp: find_None_iff)
    then have J: "dget ?J i = Some j" using i by (simp add: dget_fold_jobs [OF dist])
    show ?thesis
    proof (cases "i \<in> set (evicted_jobs cap ?J)")
      case True
      then show ?thesis using J evicted_terminal [OF ok True] evicted_order [OF ok True J] by (auto simp: g split: if_splits)
    qed (use J in \<open>simp add: g\<close>)
  qed
  have "length (cd_jobs d') \<le> max cap (length (filter (\<lambda>j. active (cj_state j)) (dvals (cd_jobs d'))))"
    using retained_length [OF ok, of cap] by (simp add: D(4))
  moreover have "cd_instances d' = cd_instances d" by (simp add: D(4))
  ultimately show ?thesis using new old by blast
qed

text \<open>
  The recovery after a restart fails exactly the active jobs, counts them, gives them a
  duration that is never negative, and changes nothing else: no ended job, and no state of an
  instance.
\<close>

theorem recover_interrupted_exact:
  "let (n, d') = recover_interrupted_jobs now d in
     n = length (filter (\<lambda>j. active (cj_state j)) (dvals (cd_jobs d))) \<and> cd_instances d' = cd_instances d \<and>
     (\<forall>i. dget (cd_jobs d') i = (case dget (cd_jobs d) i of None \<Rightarrow> None | Some j \<Rightarrow>
        Some (if active (cj_state j) then j\<lparr>cj_state := Failed, cj_finished := Some now,
           cj_duration := Some (case cj_started j of None \<Rightarrow> 0 | Some t \<Rightarrow> if t = 0 then 0 else max 0 (now - t)),
           cj_summary := ''HomelabHQ restarted before the job result was collected''\<rparr> else j)))"
  by (auto simp: recover_interrupted_jobs_def recover_job_def split: option.split)

section \<open>An example\<close>

definition sample_job :: "string \<Rightarrow> job_state \<Rightarrow> int \<Rightarrow> cjob" where
  "sample_job i st t = \<lparr>cj_id = i, cj_instance = ''vm1'', cj_controller = ''c1'', cj_target = ''host1'', cj_op = OsCheck,
     cj_mode = None, cj_project = None, cj_state = st, cj_created = t, cj_started = None, cj_finished = None,
     cj_duration = None, cj_exit = None, cj_recap = [], cj_result = None, cj_source = None, cj_error = None,
     cj_stdout = [], cj_stderr = [], cj_retained = True, cj_summary = ''Queued'', cj_follow_up = False\<rparr>"

definition sample_env :: pyenv where
  "sample_env = \<lparr>pe_str = (\<lambda>_. []), pe_loads = (\<lambda>_. None), pe_raw = (\<lambda>_. None), pe_utc = (\<lambda>_. []), pe_error = (\<lambda>_. ''failed'')\<rparr>"

definition sample_doc :: compute_doc where
  "sample_doc = \<lparr>cd_jobs = [(''a'', sample_job ''a'' Successful 3), (''b'', sample_job ''b'' Failed 2)], cd_instances = []\<rparr>"

definition sample_requested :: mstate where
  "sample_requested = \<lparr>ms_doc = snd (start_jobs 2 [sample_job ''n'' Queued 9] (snd (recover_interrupted_jobs 5 sample_doc))),
     ms_threads = [(''n'', \<lparr>mt_instance = ''vm1'', mt_running = None, mt_todo = [''n'']\<rparr>)]\<rparr>"

definition sample_running :: mstate where
  "sample_running = \<lparr>ms_doc = begin_job sample_env 10 ''n'' (ms_doc sample_requested),
     ms_threads = [(''n'', \<lparr>mt_instance = ''vm1'', mt_running = Some (sample_job ''n'' Queued 9, 10), mt_todo = []\<rparr>)]\<rparr>"

lemma sample_start: "start_jobs 2 [sample_job ''n'' Queued 9] sample_doc =
    (Inr [sample_job ''n'' Queued 9], sample_doc\<lparr>cd_jobs := [(''a'', sample_job ''a'' Successful 3), (''n'', sample_job ''n'' Queued 9)]\<rparr>)"
  by code_simp

lemma sample_recovered: "snd (recover_interrupted_jobs 5 sample_doc) = sample_doc"
  by code_simp

lemma sample_new: "new_jobs [sample_job ''n'' Queued 9] sample_doc"
  by code_simp

lemma sample_ok: "jobs_ok sample_doc"
  unfolding jobs_ok_def sample_doc_def compute_doc.simps
  by (intro dict_allI) (auto simp: sample_job_def split: if_splits)

lemma sample_reach: "mreach sample_env (\<lambda>_. Inr (None :: unit option)) (\<lambda>_ ps. Inr ps) 2 sample_doc sample_running"
proof -
  let ?s = "\<lparr>ms_doc = snd (recover_interrupted_jobs 5 sample_doc), ms_threads = []\<rparr> :: mstate"
  have "mstep sample_env (\<lambda>_. Inr (None :: unit option)) (\<lambda>_ ps. Inr ps) 2 ?s sample_requested"
    using mstep.request [of "[sample_job ''n'' Queued 9]" ?s 2 _ sample_env "\<lambda>_. Inr None" "\<lambda>_ ps. Inr ps"] sample_new
    by (simp add: sample_recovered sample_start sample_requested_def) (simp add: sample_job_def)
  moreover have "mstep sample_env (\<lambda>_. Inr (None :: unit option)) (\<lambda>_ ps. Inr ps) 2 sample_requested sample_running"
    using mstep.begins [of sample_requested "''n''" _ "''n''" "[]" "sample_job ''n'' Queued 9" sample_env "\<lambda>_. Inr None" "\<lambda>_ ps. Inr ps" 2 10]
    by (simp add: sample_requested_def sample_running_def sample_recovered sample_start)
  ultimately show ?thesis using mreach.boot mreach.step by metis
qed

theorem maintenance_exclusive_witness:
  "dget (cd_jobs (ms_doc sample_running)) ''n'' = Some ((sample_job ''n'' Queued 9)\<lparr>cj_state := Running, cj_started := Some 10\<rparr>) \<and>
   (\<exists>n t. dget (ms_threads sample_running) n = Some t \<and> ''n'' \<in> set (thread_ids t) \<and> mt_instance t = ''vm1'')"
proof -
  have j: "dget (cd_jobs (ms_doc sample_running)) ''n'' = Some ((sample_job ''n'' Queued 9)\<lparr>cj_state := Running, cj_started := Some 10\<rparr>)"
    by code_simp
  have "active (cj_state ((sample_job ''n'' Queued 9)\<lparr>cj_state := Running, cj_started := Some 10\<rparr>))" by code_simp
  from maintenance_exclusive [OF sample_reach sample_ok j this] j show ?thesis by (auto simp: sample_job_def)
qed

theorem sequence_leaves_idle_witness:
  "new_jobs [sample_job ''n'' Queued 9] sample_doc \<and>
   fst (start_jobs 2 [sample_job ''m'' Queued 12] (run_job_sequence sample_env (\<lambda>_. Inr (None :: unit option)) (\<lambda>_ ps. Inr ps)
     (\<lambda>_. \<lparr>ri_started = 10, ri_now = 11, ri_out = Inl TypeError\<rparr>) [''n''] (snd (start_jobs 2 [sample_job ''n'' Queued 9] sample_doc)))) =
   Inr [sample_job ''m'' Queued 12]"
  using sequence_leaves_idle [OF sample_start sample_new sample_ok, of "[sample_job ''m'' Queued 12]"
      sample_env "\<lambda>_. Inr (None :: unit option)" "\<lambda>_ ps. Inr ps" "\<lambda>_. \<lparr>ri_started = 10, ri_now = 11, ri_out = Inl TypeError\<rparr>"]
    sample_new
  by (simp add: sample_start) (simp add: sample_job_def)

theorem start_jobs_retention_witness:
  "new_jobs [sample_job ''n'' Queued 9] sample_doc \<and> jobs_ok sample_doc \<and>
   length (cd_jobs (snd (start_jobs 2 [sample_job ''n'' Queued 9] sample_doc))) \<le> 2"
proof -
  let ?d = "snd (start_jobs 2 [sample_job ''n'' Queued 9] sample_doc)"
  have "length (filter (\<lambda>j. active (cj_state j)) (dvals (cd_jobs ?d))) = 1" by code_simp
  moreover have "length (cd_jobs ?d) \<le> max 2 (length (filter (\<lambda>j. active (cj_state j)) (dvals (cd_jobs ?d))))"
    using start_jobs_retention [OF sample_start sample_new sample_ok] by (simp add: sample_start)
  ultimately show ?thesis using sample_new sample_ok by simp
qed

end
