(* ===== verification/Vpn.thy ===== *)
theory Vpn
  imports Devices
begin

text \<open>
  VPN endpoints: the profiles of \<open>backend/vpn_endpoint_service.py\<close>, their validation and storage, and
  the classification of endpoint owners. The rendering of values by \<open>str\<close> and fresh identifiers are
  arguments. A device is the part of its record this component reads: owner, driver and the stored
  profiles, which may be in the shape of an earlier version.
\<close>

section \<open>Owners\<close>

definition is_word_char :: "char \<Rightarrow> bool" where
  "is_word_char c = (let n = of_char c :: nat in (48 \<le> n \<and> n \<le> 57) \<or> (97 \<le> n \<and> n \<le> 122))"

text \<open>\<open>re.findall(r"[a-z0-9]+", s)\<close>\<close>

fun words_from :: "string \<Rightarrow> string \<Rightarrow> string list" where
  "words_from acc [] = (if acc = [] then [] else [rev acc])"
| "words_from acc (c # cs) =
     (if is_word_char c then words_from (c # acc) cs
      else if acc = [] then words_from [] cs else rev acc # words_from [] cs)"

definition words_of :: "string \<Rightarrow> string list" where
  "words_of s = words_from [] (lower s)"

text \<open>\<open>re.search\<close> of a text with no word character next to it; \<open>prev\<close> is the character before.\<close>

fun search_word :: "char option \<Rightarrow> string \<Rightarrow> string \<Rightarrow> bool" where
  "search_word prev p [] = (p = [] \<and> (case prev of None \<Rightarrow> True | Some c \<Rightarrow> \<not> is_word_char c))"
| "search_word prev p (c # cs) =
     ((startswith (c # cs) p \<and> (case prev of None \<Rightarrow> True | Some b \<Rightarrow> \<not> is_word_char b) \<and>
        (case drop (length p) (c # cs) of [] \<Rightarrow> True | a # _ \<Rightarrow> \<not> is_word_char a)) \<or>
      search_word (Some c) p cs)"

definition match_owner :: "string \<Rightarrow> string list \<Rightarrow> bool" where
  "match_owner owner patterns = (let text = join_with '' '' (words_of owner) in
     list_ex (\<lambda>p. words_of p \<noteq> [] \<and> search_word None (join_with '' '' (words_of p)) text) patterns)"

datatype owner_class = Unknown | Excluded | Preferred | Eligible

definition classification :: "string list \<Rightarrow> string list \<Rightarrow> string \<Rightarrow> owner_class" where
  "classification excluded preferred owner =
     (if owner = [] then Unknown
      else if match_owner owner excluded then Excluded
      else if match_owner owner preferred then Preferred else Eligible)"

section \<open>Profiles\<close>

definition bounded_text :: "(json \<Rightarrow> string) \<Rightarrow> json \<Rightarrow> nat \<Rightarrow> string" where
  "bounded_text r v n = take n (strip (str_or_empty r v))"

definition nonempty_or :: "string \<Rightarrow> string \<Rightarrow> string" where
  "nonempty_or s t = (if s = [] then t else s)"

definition patterns_of :: "(json \<Rightarrow> string) \<Rightarrow> json \<Rightarrow> string list" where
  "patterns_of r v = (case v of
     JArr xs \<Rightarrow> take 20 (filter (\<lambda>x. x \<noteq> []) (map (\<lambda>x. bounded_text r x 80) xs)) | _ \<Rightarrow> [])"

definition ident_char :: "char \<Rightarrow> bool" where
  "ident_char c = (is_word_char (lower_char c) \<or> c = CHR ''_'' \<or> c = CHR ''-'')"

definition valid_ident :: "string \<Rightarrow> bool" where
  "valid_ident s \<longleftrightarrow> s \<noteq> [] \<and> is_word_char (lower_char (hd s)) \<and> list_all ident_char s \<and> length s \<le> 80"

record vtarget =
  vt_id :: string
  vt_name :: string
  vt_description :: string

definition target_of :: "(json \<Rightarrow> string) \<Rightarrow> string \<Rightarrow> json \<Rightarrow> vtarget option" where
  "target_of r new v = (case v of
     JObj d \<Rightarrow>
       (let i = bounded_text r (getn d ''id'') 80; name = bounded_text r (getn d ''name'') 120 in
        if name = [] then None
        else Some \<lparr>vt_id = (if valid_ident i then i else new), vt_name = name,
                   vt_description = bounded_text r (getn d ''description'') 500\<rparr>)
   | _ \<Rightarrow> None)"

fun targets_loop :: "(json \<Rightarrow> string) \<Rightarrow> (nat \<Rightarrow> string) \<Rightarrow> nat \<Rightarrow> string list \<Rightarrow> json list \<Rightarrow> vtarget list" where
  "targets_loop r fresh i seen [] = []"
| "targets_loop r fresh i seen (v # vs) = (case target_of r (fresh i) v of
     None \<Rightarrow> targets_loop r fresh (Suc i) seen vs
   | Some t \<Rightarrow> if vt_id t \<in> set seen then targets_loop r fresh (Suc i) seen vs
       else t # targets_loop r fresh (Suc i) (vt_id t # seen) vs)"

definition targets_of :: "(json \<Rightarrow> string) \<Rightarrow> (nat \<Rightarrow> string) \<Rightarrow> json \<Rightarrow> vtarget list" where
  "targets_of r fresh v = (case v of JArr xs \<Rightarrow> targets_loop r fresh 0 [] (take 20 xs) | _ \<Rightarrow> [])"

record vprofile =
  vp_id :: string
  vp_name :: string
  vp_enabled :: bool
  vp_country :: string
  vp_city :: string
  vp_max :: int
  vp_preferred :: "string list"
  vp_excluded :: "string list"
  vp_targets :: "vtarget list"
  vp_handshake :: int
  vp_interval :: int
  vp_unknown :: bool
  vp_peer :: string
  vp_instance :: string
  vp_gateway :: string
  vp_notes :: string

definition legacy_id :: string where "legacy_id = ''default''"

definition default_profile :: doc where
  "default_profile = [(''name'', JStr ''VPN endpoint''), (''enabled'', JBool False), (''country'', JStr ''United Kingdom''),
     (''city'', JStr ''London''), (''maxCandidates'', JInt 20), (''preferredOwners'', JArr []), (''excludedOwners'', JArr []),
     (''compatibilityTargets'', JArr []), (''handshakeWarningSeconds'', JInt 300), (''discoveryIntervalSeconds'', JInt 3600),
     (''includeUnknownOwners'', JBool False), (''peerUuid'', JStr []), (''instanceUuid'', JStr []), (''gatewayUuid'', JStr []),
     (''notes'', JStr [])]"

definition clamp :: "int \<Rightarrow> int \<Rightarrow> int \<Rightarrow> int" where
  "clamp lo hi n = min hi (max lo n)"

definition profile_numbers :: "doc \<Rightarrow> (int \<times> int \<times> int) result" where
  "profile_numbers d =
     (case rbind (int_of_json (getn d ''maxCandidates'')) (\<lambda>a.
           rbind (int_of_json (getn d ''handshakeWarningSeconds'')) (\<lambda>b.
           rbind (int_of_json (getn d ''discoveryIntervalSeconds'')) (\<lambda>c.
             Inr (clamp 1 50 a, clamp 60 86400 b, clamp 300 604800 c)))) of
        Inr x \<Rightarrow> Inr x
      | Inl e \<Rightarrow> if is_caught e then Inr (20, 300, 3600) else Inl e)"

definition profile_fields :: "json \<Rightarrow> doc" where
  "profile_fields v = (case v of
     JObj d \<Rightarrow>
       (let p = overlay d default_profile in
        if dget d ''excludedOwners'' = None \<and> dget d ''rejectedOwners'' \<noteq> None
        then dput ''excludedOwners'' (getn d ''rejectedOwners'') p else p)
   | _ \<Rightarrow> default_profile)"

definition profile_ident :: "(json \<Rightarrow> string) \<Rightarrow> json \<Rightarrow> string \<Rightarrow> string" where
  "profile_ident r v pid = (case v of
     JObj d \<Rightarrow> (let i = bounded_text r (getn d ''id'') 80 in if valid_ident i then i else pid)
   | _ \<Rightarrow> pid)"

definition profile_of :: "(json \<Rightarrow> string) \<Rightarrow> (nat \<Rightarrow> string) \<Rightarrow> json \<Rightarrow> string \<Rightarrow> vprofile result" where
  "profile_of r fresh v pid = (let d = profile_fields v; text = (\<lambda>k n. bounded_text r (getn d k) n) in
     rbind (profile_numbers d) (\<lambda>(mx, hs, iv). Inr
       \<lparr>vp_id = profile_ident r v pid, vp_name = nonempty_or (text ''name'' 120) ''VPN endpoint'',
        vp_enabled = truthy (getn d ''enabled''), vp_country = nonempty_or (text ''country'' 80) ''United Kingdom'',
        vp_city = text ''city'' 80, vp_max = mx, vp_preferred = patterns_of r (getn d ''preferredOwners''),
        vp_excluded = patterns_of r (getn d ''excludedOwners''), vp_targets = targets_of r fresh (getn d ''compatibilityTargets''),
        vp_handshake = hs, vp_interval = iv, vp_unknown = truthy (getn d ''includeUnknownOwners''),
        vp_peer = text ''peerUuid'' 80, vp_instance = text ''instanceUuid'' 80, vp_gateway = text ''gatewayUuid'' 80,
        vp_notes = text ''notes'' 500\<rparr>))"

record vdevice =
  vx_owner :: string
  vx_driver :: string
  vx_profiles :: json
  vx_legacy :: json

text \<open>A stored list of profiles, or the one profile of an earlier version.\<close>

definition stored_profiles :: "(json \<Rightarrow> string) \<Rightarrow> vdevice \<Rightarrow> json list" where
  "stored_profiles r dev = (case vx_profiles dev of
     JArr xs \<Rightarrow> take 10 xs
   | _ \<Rightarrow> (case vx_legacy dev of
       JObj d \<Rightarrow> [JObj (setdefault ''name'' (JStr (nonempty_or (bounded_text r (getn d ''country'') 120) ''VPN endpoint''))
                    (setdefault ''id'' (JStr legacy_id) d))]
     | _ \<Rightarrow> []))"

definition fallback_id :: "nat \<Rightarrow> string" where
  "fallback_id i = (if i = 0 then legacy_id else ''profile-'' @ digits_of_nat (Suc i))"

fun profiles_loop :: "(json \<Rightarrow> string) \<Rightarrow> (nat \<Rightarrow> nat \<Rightarrow> string) \<Rightarrow> nat \<Rightarrow> string list \<Rightarrow> json list \<Rightarrow> vprofile list result" where
  "profiles_loop r fresh i seen [] = Inr []"
| "profiles_loop r fresh i seen (v # vs) = (case v of
     JObj _ \<Rightarrow> rbind (profile_of r (fresh i) v (fallback_id i)) (\<lambda>p.
       if vp_id p \<in> set seen then profiles_loop r fresh (Suc i) seen vs
       else rbind (profiles_loop r fresh (Suc i) (vp_id p # seen) vs) (\<lambda>ps. Inr (p # ps)))
   | _ \<Rightarrow> profiles_loop r fresh (Suc i) seen vs)"

definition profiles_of :: "(json \<Rightarrow> string) \<Rightarrow> (nat \<Rightarrow> nat \<Rightarrow> string) \<Rightarrow> vdevice \<Rightarrow> vprofile list result" where
  "profiles_of r fresh dev = profiles_loop r fresh 0 [] (stored_profiles r dev)"

definition no_profile :: failure where
  "no_profile = ValueError ''VPN endpoint profile not found''"

definition selected_profile :: "vprofile list \<Rightarrow> string option \<Rightarrow> vprofile result" where
  "selected_profile ps pid = (case pid of
     None \<Rightarrow> (case ps of p # _ \<Rightarrow> Inr p | [] \<Rightarrow> Inl no_profile)
   | Some i \<Rightarrow> (case find (\<lambda>p. vp_id p = i) ps of Some p \<Rightarrow> Inr p | None \<Rightarrow> Inl no_profile))"

text \<open>How a profile is written back to the device.\<close>

definition target_json :: "vtarget \<Rightarrow> json" where
  "target_json t = JObj [(''id'', JStr (vt_id t)), (''name'', JStr (vt_name t)), (''description'', JStr (vt_description t)),
     (''state'', JStr ''Unknown''), (''lastValidatedAt'', JNull), (''note'', JStr [])]"

definition profile_doc :: "vprofile \<Rightarrow> doc" where
  "profile_doc p = [(''name'', JStr (vp_name p)), (''enabled'', JBool (vp_enabled p)), (''country'', JStr (vp_country p)),
     (''city'', JStr (vp_city p)), (''maxCandidates'', JInt (vp_max p)),
     (''preferredOwners'', JArr (map JStr (vp_preferred p))), (''excludedOwners'', JArr (map JStr (vp_excluded p))),
     (''compatibilityTargets'', JArr (map target_json (vp_targets p))),
     (''handshakeWarningSeconds'', JInt (vp_handshake p)), (''discoveryIntervalSeconds'', JInt (vp_interval p)),
     (''includeUnknownOwners'', JBool (vp_unknown p)), (''peerUuid'', JStr (vp_peer p)),
     (''instanceUuid'', JStr (vp_instance p)), (''gatewayUuid'', JStr (vp_gateway p)), (''notes'', JStr (vp_notes p)),
     (''id'', JStr (vp_id p))]"

text \<open>The checks on a patch.\<close>

definition bad_number :: "doc \<Rightarrow> string \<times> int \<times> int \<Rightarrow> bool" where
  "bad_number d = (\<lambda>(k, lo, hi). case dget d k of None \<Rightarrow> False | Some (JInt i) \<Rightarrow> i < lo \<or> hi < i | Some _ \<Rightarrow> True)"

definition bad_owners :: "doc \<Rightarrow> string \<Rightarrow> bool" where
  "bad_owners d k = (case dget d k of None \<Rightarrow> False
     | Some (JArr xs) \<Rightarrow> list_ex (\<lambda>x. case x of JStr _ \<Rightarrow> False | _ \<Rightarrow> True) xs | Some _ \<Rightarrow> True)"

definition profile_limits :: "(string \<times> int \<times> int) list" where
  "profile_limits = [(''maxCandidates'', 1, 50), (''handshakeWarningSeconds'', 60, 86400), (''discoveryIntervalSeconds'', 300, 604800)]"

definition validate_targets :: "(json \<Rightarrow> string) \<Rightarrow> (nat \<Rightarrow> string) \<Rightarrow> json \<Rightarrow> unit result" where
  "validate_targets r fresh v = (case v of
     JArr xs \<Rightarrow>
       if 20 < length xs then Inl (ValueError ''compatibilityTargets must be a list with at most 20 items'')
       else (let ts = map (\<lambda>i. target_of r (fresh i) (xs ! i)) [0..<length xs] in
         if None \<in> set ts then Inl (ValueError ''each compatibility target requires a name'')
         else if \<not> distinct (map (\<lambda>t. vt_id (the t)) ts) then Inl (ValueError ''compatibility target IDs must be unique'')
         else Inr ())
   | _ \<Rightarrow> Inl (ValueError ''compatibilityTargets must be a list with at most 20 items''))"

definition validate_profile_patch :: "(json \<Rightarrow> string) \<Rightarrow> (nat \<Rightarrow> string) \<Rightarrow> doc \<Rightarrow> unit result" where
  "validate_profile_patch r fresh d =
     (case find (bad_number d) profile_limits of
        Some (k, lo, hi) \<Rightarrow> Inl (ValueError (k @ '' must be an integer from '' @ str_of_int lo @ '' to '' @ str_of_int hi))
      | None \<Rightarrow> (case find (bad_owners d) [''preferredOwners'', ''excludedOwners'', ''rejectedOwners''] of
          Some k \<Rightarrow> Inl (ValueError (k @ '' must be a list of strings''))
        | None \<Rightarrow>
            if (case dget d ''name'' of None \<Rightarrow> False | Some (JStr s) \<Rightarrow> strip s = [] | Some _ \<Rightarrow> True)
            then Inl (ValueError ''name must be a non-empty string'')
            else (case dget d ''compatibilityTargets'' of None \<Rightarrow> Inr () | Some v \<Rightarrow> validate_targets r fresh v)))"

section \<open>Matching whole words\<close>

definition is_word :: "string \<Rightarrow> bool" where
  "is_word w \<longleftrightarrow> w \<noteq> [] \<and> list_all is_word_char w"

lemma is_word_rev: "list_all is_word_char acc \<Longrightarrow> acc \<noteq> [] \<Longrightarrow> is_word (rev acc)"
  by (simp add: is_word_def list_all_iff)

lemma words_from_words: "list_all is_word_char acc \<Longrightarrow> list_all is_word (words_from acc s)"
  by (induction s arbitrary: acc) (auto simp: is_word_rev)

lemma words_of_words: "list_all is_word (words_of s)"
  by (simp add: words_of_def words_from_words)

lemma space_no_word [simp]: "\<not> is_word_char (CHR '' '')"
  by (simp add: is_word_char_def)

lemma join_Cons: "join_with sep (w # ws) = w @ (if ws = [] then [] else sep @ join_with sep ws)"
  by (cases ws) simp_all

definition ends_word :: "string \<Rightarrow> bool" where
  "ends_word s \<longleftrightarrow> (case s of [] \<Rightarrow> True | c # _ \<Rightarrow> \<not> is_word_char c)"

lemma startswith_iff: "startswith s p \<longleftrightarrow> (\<exists>t. s = p @ t)"
  by (auto simp: startswith_def) (metis append_take_drop_id)

lemma word_then_text:
  assumes "is_word w" "is_word v" "ends_word s" "ends_word t"
  shows "w @ s = v @ t \<longleftrightarrow> w = v \<and> s = t"
proof
  assume e: "w @ s = v @ t"
  have "takeWhile is_word_char (w @ s) = w" "takeWhile is_word_char (v @ t) = v"
    using assms by (cases s; cases t; auto simp: is_word_def ends_word_def list_all_iff takeWhile_append2)+
  with e show "w = v \<and> s = t" by auto
qed simp

lemma ends_word_rest: "ends_word (if ws = [] then [] else '' '' @ join_with '' '' ws)"
  by (simp add: ends_word_def)

lemma join_prefix:
  assumes "list_all is_word ps" "list_all is_word ws" "ps \<noteq> []"
  shows "(\<exists>t. join_with '' '' ws = join_with '' '' ps @ t \<and> ends_word t) \<longleftrightarrow> prefix ps ws"
  using assms
proof (induction ps arbitrary: ws)
  case (Cons p ps)
  show ?case
  proof (cases ws)
    case Nil
    then show ?thesis using Cons.prems by (auto simp: join_Cons is_word_def)
  next
    case (Cons w ws')
    let ?s = "if ws' = [] then [] else '' '' @ join_with '' '' ws'"
    let ?q = "if ps = [] then [] else '' '' @ join_with '' '' ps"
    have w: "is_word p" "is_word w" "list_all is_word ps" "list_all is_word ws'"
      using Cons.prems \<open>ws = w # ws'\<close> by auto
    have e: "ends_word (?q @ t)" if "ends_word t" for t using that by (simp add: ends_word_def)
    have "(\<exists>t. join_with '' '' ws = join_with '' '' (p # ps) @ t \<and> ends_word t) \<longleftrightarrow>
        (\<exists>t. p = w \<and> ?s = ?q @ t \<and> ends_word t)"
      unfolding \<open>ws = w # ws'\<close> join_Cons append_assoc
      using word_then_text [OF w(2,1) ends_word_rest e] by (metis (no_types, lifting))
    also have "\<dots> \<longleftrightarrow> p = w \<and> prefix ps ws'"
    proof (cases "ps = []")
      case False
      have "(\<exists>t. ?s = ?q @ t \<and> ends_word t) \<longleftrightarrow> ws' \<noteq> [] \<and> (\<exists>t. join_with '' '' ws' = join_with '' '' ps @ t \<and> ends_word t)"
        using False by auto
      then show ?thesis using Cons.IH [OF w(3,4) False] False by (cases ws') auto
    qed (use ends_word_rest [of ws'] in auto)
    finally show ?thesis using \<open>ws = w # ws'\<close> by simp
  qed
qed simp

lemma search_skip_word:
  assumes "is_word_char b" "list_all is_word_char w" "p \<noteq> []" "is_word_char (hd p)" "ends_word s"
  shows "search_word (Some b) p (w @ s) = (case s of [] \<Rightarrow> False | c # cs \<Rightarrow> search_word (Some c) p cs)"
  using assms
proof (induction w arbitrary: b)
  case Nil
  then show ?case by (cases s) auto
next
  case (Cons c w)
  then show ?case by simp
qed

lemma search_join:
  assumes "list_all is_word ps" "list_all is_word ws" "ps \<noteq> []" "case prev of None \<Rightarrow> True | Some c \<Rightarrow> \<not> is_word_char c"
  shows "search_word prev (join_with '' '' ps) (join_with '' '' ws) \<longleftrightarrow> sublist ps ws"
  using assms(2,4)
proof (induction ws arbitrary: prev)
  case Nil
  have "join_with '' '' ps \<noteq> []" using assms(1,3) by (cases ps) (auto simp: join_Cons is_word_def)
  then show ?case using assms(3) by simp
next
  case (Cons w ws)
  let ?p = "join_with '' '' ps" and ?s = "if ws = [] then [] else '' '' @ join_with '' '' ws"
  obtain c w' where w: "w = c # w'" "is_word_char c" "list_all is_word_char w'"
    using Cons.prems by (cases w) (auto simp: is_word_def)
  have p: "?p \<noteq> []" "is_word_char (hd ?p)"
    using assms(1,3) by (cases ps; auto simp: join_Cons is_word_def list_all_iff hd_append)+
  have rest: "search_word (Some c) ?p (w' @ ?s) \<longleftrightarrow> sublist ps ws"
    using search_skip_word [OF w(2,3) p ends_word_rest [of ws]] Cons.IH [of "Some (CHR '' '')"] Cons.prems(1) assms(3)
    by (cases "ws = []") simp_all
  have "join_with '' '' (w # ws) = c # (w' @ ?s)" using w by (simp add: join_Cons)
  moreover have "startswith (c # (w' @ ?s)) ?p \<and> (case drop (length ?p) (c # (w' @ ?s)) of [] \<Rightarrow> True | a # _ \<Rightarrow> \<not> is_word_char a)
      \<longleftrightarrow> prefix ps (w # ws)"
    using join_prefix [OF assms(1) Cons.prems(1) assms(3)] calculation
    by (auto simp: startswith_iff ends_word_def)
  ultimately show ?case using rest Cons.prems(2)
    by (auto simp: sublist_Cons_right)
qed

text \<open>
  The regular expression that classifies the owner of an address finds a pattern exactly when
  the words of the pattern occur side by side, as whole words, in the name of the owner.
\<close>

theorem match_owner_words:
  "match_owner owner patterns \<longleftrightarrow> (\<exists>p\<in>set patterns. words_of p \<noteq> [] \<and> sublist (words_of p) (words_of owner))"
  using search_join [OF words_of_words words_of_words] by (auto simp: match_owner_def Let_def list_ex_iff)

end
