(* ===== verification/VpnRecord.thy ===== *)
theory VpnRecord
  imports Vpn
begin

text \<open>
  The record a VPN endpoint profile keeps, \<open>backend/vpn_endpoint_service.py\<close>: candidates and events of
  bounded number, the last discovery of every profile, the utilization series and the alert state.
  Candidates and events are dictionaries as in the code, which also reads those of earlier versions.
  Hashes, the ownership of an address and the candidates a provider recommends are arguments.
\<close>

section \<open>The record\<close>

record vdisc =
  vd_candidates :: "doc list"
  vd_at :: json
  vd_poll :: json

record vobs =
  ob_at :: int
  ob_percent :: rat
  ob_candidate :: string

record vrecord =
  vr_candidates :: "doc list"
  vr_events :: "doc list"
  vr_discoveries :: "(string, vdisc) dict"
  vr_last :: "doc list"
  vr_at :: json
  vr_utilization :: "(string, vobs list) dict"
  vr_alerts :: "(string, (string, nat \<times> bool) dict) dict"

record vdoc =
  vn_devices :: "(string, vdevice) dict"
  vn_history :: "(string, (string, vrecord) dict) dict"

definition empty_record :: vrecord where
  "empty_record = \<lparr>vr_candidates = [], vr_events = [], vr_discoveries = [], vr_last = [], vr_at = JNull,
     vr_utilization = [], vr_alerts = []\<rparr>"

definition history_of :: "vdoc \<Rightarrow> string \<Rightarrow> string \<Rightarrow> vrecord" where
  "history_of d owner dev = dget_or (dget_or (vn_history d) owner []) dev empty_record"

definition put_history :: "string \<Rightarrow> string \<Rightarrow> vrecord \<Rightarrow> vdoc \<Rightarrow> vdoc" where
  "put_history owner dev rec d = d\<lparr>vn_history := dput owner (dput dev rec (dget_or (vn_history d) owner [])) (vn_history d)\<rparr>"

definition is_number :: "json \<Rightarrow> bool" where
  "is_number v = (case v of JInt _ \<Rightarrow> True | JFloat _ \<Rightarrow> True | JBool _ \<Rightarrow> True | _ \<Rightarrow> False)"

definition number_or_null :: "json \<Rightarrow> json" where
  "number_or_null v = (if is_number v then v else JNull)"

definition profile_discovery :: "string \<Rightarrow> vrecord \<Rightarrow> vdisc" where
  "profile_discovery pid rec = (case dget (vr_discoveries rec) pid of
     Some v \<Rightarrow> v\<lparr>vd_at := number_or_null (vd_at v), vd_poll := number_or_null (vd_poll v)\<rparr>
   | None \<Rightarrow> if pid = legacy_id then \<lparr>vd_candidates = vr_last rec, vd_at = number_or_null (vr_at rec), vd_poll = JNull\<rparr>
       else \<lparr>vd_candidates = [], vd_at = JNull, vd_poll = JNull\<rparr>)"

definition put_discovery :: "string \<Rightarrow> vdisc \<Rightarrow> vrecord \<Rightarrow> vrecord" where
  "put_discovery pid v rec = rec\<lparr>vr_discoveries := dput pid v (vr_discoveries rec)\<rparr>"

definition for_profile :: "string \<Rightarrow> doc \<Rightarrow> bool" where
  "for_profile pid c = ((case dget c ''profileId'' of None \<Rightarrow> JStr legacy_id | Some v \<Rightarrow> v) = JStr pid)"

section \<open>Earlier versions\<close>

definition validation_state :: "(json \<Rightarrow> string) \<Rightarrow> json \<Rightarrow> string" where
  "validation_state r v = (if v = JStr ''Assumed from provider'' then ''Assumed''
     else if v \<in> JStr ` {''Verified'', ''Failed'', ''Assumed'', ''Unknown''} then str_json r v else ''Unknown'')"

definition normalise_classification :: "(json \<Rightarrow> string) \<Rightarrow> json \<Rightarrow> string" where
  "normalise_classification r v = (if v = JStr ''Rejected'' then ''Excluded''
     else if truthy v then str_json r v else ''Unknown'')"

definition has_legacy_validation :: "(json \<Rightarrow> string) \<Rightarrow> doc \<Rightarrow> bool" where
  "has_legacy_validation r c \<longleftrightarrow> validation_state r (getn c ''compatibility'') \<noteq> ''Unknown'' \<or>
     bounded_text r (getn c ''compatibilityNote'') 500 \<noteq> [] \<or> is_number (getn c ''compatibilityAt'')"

definition imported_id :: string where
  "imported_id = ''imported-compatibility-check''"

definition imported_validation :: "(json \<Rightarrow> string) \<Rightarrow> doc \<Rightarrow> json" where
  "imported_validation r c = JObj [(''state'', JStr (validation_state r (getn c ''compatibility''))),
     (''lastValidatedAt'', number_or_null (getn c ''compatibilityAt'')),
     (''note'', JStr (bounded_text r (getn c ''compatibilityNote'') 500))]"

definition obj_or_empty :: "json \<Rightarrow> doc" where
  "obj_or_empty v = (case v of JObj d \<Rightarrow> d | _ \<Rightarrow> [])"

definition normalise_candidate :: "(json \<Rightarrow> string) \<Rightarrow> string \<Rightarrow> doc \<Rightarrow> doc" where
  "normalise_candidate r pid c =
     (if \<not> for_profile pid c then c
      else (let vs = obj_or_empty (getn c ''validations'');
                vs' = (if has_legacy_validation r c then setdefault imported_id (imported_validation r c) vs else vs)
            in ddel_all [''compatibility'', ''compatibilityAt'', ''compatibilityNote'']
                 (dput ''validations'' (JObj vs')
                   (dput ''classification'' (JStr (normalise_classification r (getn c ''classification'')))
                     (dput ''profileId'' (JStr pid) c)))))"

definition imported_target :: vtarget where
  "imported_target = \<lparr>vt_id = imported_id, vt_name = ''Imported compatibility check'',
     vt_description = ''Imported from compatibility data saved by an earlier version.''\<rparr>"

definition normalise_record :: "(json \<Rightarrow> string) \<Rightarrow> vprofile \<Rightarrow> vrecord \<Rightarrow> vrecord \<times> vprofile" where
  "normalise_record r p rec =
     (let pid = vp_id p; v = profile_discovery pid rec;
          imported = list_ex (\<lambda>c. for_profile pid c \<and> has_legacy_validation r c) (vr_candidates rec @ vd_candidates v)
      in (put_discovery pid (v\<lparr>vd_candidates := map (normalise_candidate r pid) (vd_candidates v)\<rparr>)
            (rec\<lparr>vr_candidates := map (normalise_candidate r pid) (vr_candidates rec)\<rparr>),
          if imported \<and> imported_id \<notin> vt_id ` set (vp_targets p)
          then p\<lparr>vp_targets := vp_targets p @ [imported_target]\<rparr> else p))"

definition candidate_target :: "(json \<Rightarrow> string) \<Rightarrow> doc \<Rightarrow> vtarget \<Rightarrow> json" where
  "candidate_target r validations t = (let saved = obj_or_empty (getn validations (vt_id t)) in
     JObj [(''id'', JStr (vt_id t)), (''name'', JStr (vt_name t)), (''description'', JStr (vt_description t)),
       (''state'', JStr (validation_state r (getn saved ''state''))),
       (''lastValidatedAt'', number_or_null (getn saved ''lastValidatedAt'')),
       (''note'', JStr (bounded_text r (getn saved ''note'') 500))])"

definition candidate_targets :: "(json \<Rightarrow> string) \<Rightarrow> vprofile \<Rightarrow> doc \<Rightarrow> json" where
  "candidate_targets r p c = JArr (map (candidate_target r (obj_or_empty (getn c ''validations''))) (vp_targets p))"

text \<open>What leaves the server: never the key of the endpoint.\<close>

definition public_candidate :: "(json \<Rightarrow> string) \<Rightarrow> vprofile \<Rightarrow> doc \<Rightarrow> doc" where
  "public_candidate r p c =
     dput ''compatibilityTargets'' (candidate_targets r p c)
       (dput ''classification'' (JStr (normalise_classification r (getn c ''classification'')))
         (ddel_all [''publicKey'', ''validations''] c))"

section \<open>Profiles of a device\<close>

definition owned :: "string \<Rightarrow> string \<Rightarrow> vdoc \<Rightarrow> vdevice result" where
  "owned owner dev d = (case dget (vn_devices d) dev of
     None \<Rightarrow> Inl not_found | Some v \<Rightarrow> if vx_owner v = owner then Inr v else Inl not_found)"

definition put_profiles :: "string \<Rightarrow> vdevice \<Rightarrow> vprofile list \<Rightarrow> vdoc \<Rightarrow> vdoc" where
  "put_profiles dev v ps d = d\<lparr>vn_devices := dput dev (v\<lparr>vx_profiles := JArr (map (\<lambda>p. JObj (profile_doc p)) ps), vx_legacy := JNull\<rparr>) (vn_devices d)\<rparr>"

record vpy =
  py_str :: "json \<Rightarrow> string"
  py_fresh :: "nat \<Rightarrow> nat \<Rightarrow> string"
  py_new :: string

definition patched_fields :: "doc \<Rightarrow> doc" where
  "patched_fields d = ddel ''rejectedOwners''
     (if dget d ''excludedOwners'' = None \<and> dget d ''rejectedOwners'' \<noteq> None
      then dput ''excludedOwners'' (getn d ''rejectedOwners'') d else d)"

definition base_profile :: "vpy \<Rightarrow> bool \<Rightarrow> string option \<Rightarrow> vprofile list \<Rightarrow> vprofile result" where
  "base_profile py create pid ps =
     (if create then (if 10 \<le> length ps then Inl (ValueError ''at most 10 VPN endpoint profiles are supported'')
        else profile_of (py_str py) (py_fresh py 11) (JObj []) (py_new py))
      else if ps \<noteq> [] then selected_profile ps pid
      else if pid \<noteq> None then Inl no_profile
      else profile_of (py_str py) (py_fresh py 11) (JObj []) legacy_id)"

definition removes_history :: "string \<Rightarrow> string set \<Rightarrow> vrecord \<Rightarrow> bool" where
  "removes_history pid removed rec = list_ex (\<lambda>c. for_profile pid c \<and>
     (case getn c ''validations'' of JObj vs \<Rightarrow> list_ex (\<lambda>k. k \<in> removed) (dkeys vs) | _ \<Rightarrow> False)) (vr_candidates rec)"

text \<open>
  The first half of \<open>configure\<close>: the profile to store and the targets it drops, from the document as
  it was read.
\<close>

definition configured :: "vpy \<Rightarrow> string \<Rightarrow> string \<Rightarrow> doc \<Rightarrow> string option \<Rightarrow> bool \<Rightarrow> vdoc \<Rightarrow> (vprofile \<times> string list) result" where
  "configured py owner dev data pid create d =
     rbind (validate_profile_patch (py_str py) (py_fresh py 12) data) (\<lambda>_.
     rbind (owned owner dev d) (\<lambda>v.
     if vx_driver v \<noteq> ''opnsense.firewall'' then Inl (ValueError ''VPN endpoint management requires an OPNsense device'')
     else rbind (profiles_of (py_str py) (py_fresh py) v) (\<lambda>ps.
     rbind (base_profile py create pid ps) (\<lambda>p0.
       let (rec, p1) = normalise_record (py_str py) p0 (history_of d owner dev);
           previous = (if create then [] else map vt_id (vp_targets p1)) in
     rbind (if create then profile_of (py_str py) (py_fresh py 13) (JObj []) (vp_id p1) else Inr p1) (\<lambda>p2.
     rbind (profile_of (py_str py) (py_fresh py 14) (JObj (overlay (ddel ''id'' (patched_fields data)) (profile_doc p2))) legacy_id) (\<lambda>p.
       let removed = filter (\<lambda>i. i \<notin> vt_id ` set (vp_targets p)) previous in
       if removes_history (vp_id p) (set removed) rec \<and> getn data ''confirmTargetRemoval'' \<noteq> JBool True
       then Inl (ValueError ''confirm removal of compatibility targets with saved validation history'')
       else if vp_enabled p \<and> (vp_peer p = [] \<or> vp_instance p = [])
       then Inl (ValueError ''select a WireGuard instance and peer before enabling endpoint management'')
       else if vp_peer p \<noteq> [] \<and> list_ex (\<lambda>q. vp_id q \<noteq> vp_id p \<and> vp_peer q = vp_peer p) ps
       then Inl (ValueError ''the selected WireGuard peer is already managed by another profile'')
       else Inr (p, removed)))))))"


definition too_many :: failure where
  "too_many = ValueError ''at most 10 VPN endpoint profiles are supported''"

fun replace_profile :: "vprofile \<Rightarrow> vprofile list \<Rightarrow> vprofile list" where
  "replace_profile p [] = []"
| "replace_profile p (q # qs) = (if vp_id q = vp_id p then p # qs else q # replace_profile p qs)"

definition place_profile :: "bool \<Rightarrow> vprofile \<Rightarrow> vprofile list \<Rightarrow> vprofile list result" where
  "place_profile create p ps =
     (if create then (if 10 \<le> length ps then Inl too_many else Inr (ps @ [p]))
      else if list_ex (\<lambda>q. vp_id q = vp_id p) ps then Inr (replace_profile p ps)
      else if vp_id p \<noteq> legacy_id \<or> ps \<noteq> [] then Inl no_profile else Inr (ps @ [p]))"

definition drop_validations :: "string \<Rightarrow> string list \<Rightarrow> doc \<Rightarrow> doc" where
  "drop_validations pid removed c = (if \<not> for_profile pid c then c
     else (case getn c ''validations'' of JObj vs \<Rightarrow> dput ''validations'' (JObj (ddel_all removed vs)) c | _ \<Rightarrow> c))"

text \<open>The transaction of \<open>configure\<close>; the imported target is added to the profile that is stored.\<close>

definition configure_mut :: "vpy \<Rightarrow> string \<Rightarrow> string \<Rightarrow> bool \<Rightarrow> vprofile \<Rightarrow> string list \<Rightarrow> vdoc \<Rightarrow> (vdoc \<times> vprofile) result" where
  "configure_mut py owner dev create p removed d =
     rbind (owned owner dev d) (\<lambda>v. rbind (profiles_of (py_str py) (py_fresh py) v) (\<lambda>ps.
       let (rec, p') = normalise_record (py_str py) p (history_of d owner dev) in
       rbind (place_profile create p' ps) (\<lambda>ps'.
         Inr (put_profiles dev v ps' (put_history owner dev
           (rec\<lparr>vr_candidates := map (drop_validations (vp_id p) removed) (vr_candidates rec)\<rparr>) d), p'))))"

definition configure :: "vpy \<Rightarrow> string \<Rightarrow> string \<Rightarrow> doc \<Rightarrow> string option \<Rightarrow> bool \<Rightarrow> vdoc \<Rightarrow> vdoc \<Rightarrow> vprofile result \<times> vdoc" where
  "configure py owner dev data pid create seen d = (case configured py owner dev data pid create seen of
     Inl e \<Rightarrow> (Inl e, d)
   | Inr (p, removed) \<Rightarrow> transact (configure_mut py owner dev create p removed) d)"

definition remove_mut :: "vpy \<Rightarrow> string \<Rightarrow> string \<Rightarrow> string \<Rightarrow> vdoc \<Rightarrow> (vdoc \<times> unit) result" where
  "remove_mut py owner dev pid d =
     rbind (owned owner dev d) (\<lambda>v. rbind (profiles_of (py_str py) (py_fresh py) v) (\<lambda>ps.
       let rest = filter (\<lambda>p. vp_id p \<noteq> pid) ps; rec = history_of d owner dev;
           kept = rec\<lparr>vr_candidates := filter (\<lambda>c. \<not> for_profile pid c) (vr_candidates rec),
                      vr_events := filter (\<lambda>c. \<not> for_profile pid c) (vr_events rec),
                      vr_discoveries := ddel pid (vr_discoveries rec), vr_utilization := ddel pid (vr_utilization rec)\<rparr>
       in if length rest = length ps then Inl no_profile
          else Inr (put_profiles dev v rest (put_history owner dev
            (if pid = legacy_id then kept\<lparr>vr_last := [], vr_at := JNull\<rparr> else kept) d), ())))"

definition remove_profile :: "vpy \<Rightarrow> string \<Rightarrow> string \<Rightarrow> string \<Rightarrow> bool \<Rightarrow> vdoc \<Rightarrow> vdoc \<Rightarrow> unit result \<times> vdoc" where
  "remove_profile py owner dev pid confirmed seen d =
     (if \<not> confirmed then (Inl (ValueError ''explicit confirmation is required before removing a profile''), d)
      else (case rbind (owned owner dev seen) (\<lambda>v. rbind (profiles_of (py_str py) (py_fresh py) v) (\<lambda>ps. selected_profile ps (Some pid))) of
        Inl e \<Rightarrow> (Inl e, d) | Inr _ \<Rightarrow> transact (remove_mut py owner dev pid) d))"

section \<open>Discovery\<close>

record vserver =
  sv_id :: json
  sv_host :: string
  sv_ip :: string
  sv_port :: json
  sv_country :: string
  sv_city :: string
  sv_load :: json
  sv_key :: string
  sv_at :: json

record ownership =
  ow_owner :: string
  ow_asn :: json
  ow_extra :: doc

record vhash =
  vh_candidate :: "string \<Rightarrow> string \<Rightarrow> string"
  vh_print :: "string \<Rightarrow> string"

definition class_text :: "owner_class \<Rightarrow> string" where
  "class_text c = (case c of Unknown \<Rightarrow> ''Unknown'' | Excluded \<Rightarrow> ''Excluded'' | Preferred \<Rightarrow> ''Preferred'' | Eligible \<Rightarrow> ''Eligible'')"

definition found :: "(json \<Rightarrow> string) \<Rightarrow> vhash \<Rightarrow> vprofile \<Rightarrow> vserver \<Rightarrow> ownership \<Rightarrow> doc" where
  "found r h p sv ow = (let owner = (if ow_owner ow \<noteq> [] then ow_owner ow
       else if truthy (ow_asn ow) then ''AS'' @ str_json r (ow_asn ow) else []) in
     [(''serverId'', sv_id sv), (''hostname'', JStr (sv_host sv)), (''endpointIp'', JStr (sv_ip sv)),
      (''endpointPort'', sv_port sv), (''country'', JStr (sv_country sv)), (''city'', JStr (sv_city sv)),
      (''load'', sv_load sv), (''publicKey'', JStr (sv_key sv)), (''publicKeyFingerprint'', JStr (vh_print h (sv_key sv))),
      (''discoveredAt'', sv_at sv), (''owner'', JStr owner), (''asn'', ow_asn ow)] @ ow_extra ow @
     [(''classification'', JStr (class_text (classification (vp_excluded p) (vp_preferred p) owner))),
      (''candidateId'', JStr (vh_candidate h (sv_ip sv) (sv_key sv)))])"

definition load_key :: "json \<Rightarrow> rat" where
  "load_key v = (case number_of v of Some (Fin q) \<Rightarrow> q | _ \<Rightarrow> 10001)"

definition text_at :: "doc \<Rightarrow> string \<Rightarrow> string" where
  "text_at c k = (case getn c k of JStr s \<Rightarrow> s | _ \<Rightarrow> [])"

definition score :: "vprofile \<Rightarrow> doc \<Rightarrow> nat \<times> nat \<times> nat \<times> rat \<times> nat \<times> string \<times> string" where
  "score p c = (if text_at c ''classification'' = ''Preferred'' then 0 else 1,
     if vp_city p \<noteq> [] \<and> lower (text_at c ''city'') = lower (vp_city p) then 0 else 1,
     if text_at c ''publicKey'' \<noteq> [] then 0 else 1, load_key (getn c ''load''),
     if text_at c ''lastVerification'' = ''success'' then 0 else 1, lower (text_at c ''hostname''), text_at c ''endpointIp'')"

definition seen_key :: "doc \<Rightarrow> int" where
  "seen_key c = (case getn c ''lastSeen'' of JInt i \<Rightarrow> i | _ \<Rightarrow> 0)"

text \<open>\<open>sort(reverse=True)\<close> keeps the order of equal keys.\<close>

definition newest_candidates :: "doc list \<Rightarrow> doc list" where
  "newest_candidates cs = take 100 (rev (sort_key seen_key (rev cs)))"

definition history_entry :: "vhash \<Rightarrow> string \<Rightarrow> int \<Rightarrow> doc option \<Rightarrow> doc \<Rightarrow> doc" where
  "history_entry h pid now previous c =
     [(''profileId'', JStr pid), (''candidateId'', getn c ''candidateId''), (''serverId'', getn c ''serverId''),
      (''endpointIp'', getn c ''endpointIp''), (''hostname'', getn c ''hostname''), (''country'', getn c ''country''),
      (''city'', getn c ''city''), (''publicKeyFingerprint'', JStr (vh_print h (text_at c ''publicKey''))),
      (''owner'', getn c ''owner''), (''asn'', getn c ''asn''), (''load'', getn c ''load''),
      (''loadObservedAt'', py_or (getn c ''discoveredAt'') (JInt now)),
      (''firstSeen'', case previous of None \<Rightarrow> JInt now | Some q \<Rightarrow> (case dget q ''firstSeen'' of None \<Rightarrow> JInt now | Some v \<Rightarrow> v)),
      (''lastSeen'', JInt now), (''classification'', getn c ''classification''),
      (''validations'', case previous of None \<Rightarrow> JObj [] | Some q \<Rightarrow> JObj (obj_or_empty (getn q ''validations'')))] @
     (case previous of None \<Rightarrow> []
      | Some q \<Rightarrow> if truthy (getn q ''lastVerification'')
          then [(''lastVerification'', getn q ''lastVerification''), (''lastVerifiedAt'', getn q ''lastVerifiedAt'')] else [])"

definition same_candidate :: "string \<Rightarrow> json \<Rightarrow> doc \<Rightarrow> bool" where
  "same_candidate pid i c \<longleftrightarrow> for_profile pid c \<and> getn c ''candidateId'' = i"

definition update_entry :: "doc \<Rightarrow> doc \<Rightarrow> doc" where
  "update_entry changes c = fold (\<lambda>(k, v). dput k v) changes c"

fun update_last :: "('a \<Rightarrow> bool) \<Rightarrow> ('a \<Rightarrow> 'a) \<Rightarrow> 'a list \<Rightarrow> 'a list" where
  "update_last P f [] = []"
| "update_last P f (x # xs) = (if \<not> list_ex P xs \<and> P x then f x # xs else x # update_last P f xs)"

text \<open>An entry known before is updated in place, a new one comes behind.\<close>

fun merge_found :: "vhash \<Rightarrow> string \<Rightarrow> int \<Rightarrow> doc list \<Rightarrow> doc list \<Rightarrow> doc list \<Rightarrow> doc list" where
  "merge_found h pid now olds news [] = olds @ news"
| "merge_found h pid now olds news (c # cs) = (let P = same_candidate pid (getn c ''candidateId'') in
     if list_ex P olds
     then merge_found h pid now (update_last P (\<lambda>q. update_entry (history_entry h pid now (Some q) c) q) olds) news cs
     else merge_found h pid now olds (news @ [history_entry h pid now None c]) cs)"

definition mark_stale :: "string \<Rightarrow> json list \<Rightarrow> doc \<Rightarrow> doc" where
  "mark_stale pid ids c = (if for_profile pid c \<and> getn c ''candidateId'' \<notin> set ids
     then dput ''classification'' (JStr ''Stale'') c else c)"

definition save_discovery_record :: "(json \<Rightarrow> string) \<Rightarrow> vhash \<Rightarrow> vprofile \<Rightarrow> doc list \<Rightarrow> int \<Rightarrow> vrecord \<Rightarrow> vrecord" where
  "save_discovery_record r h p cs now rec0 = (let pid = vp_id p; rec = fst (normalise_record r p rec0);
       olds = map (mark_stale pid (map (\<lambda>c. getn c ''candidateId'') cs)) (vr_candidates rec)
     in put_discovery pid ((profile_discovery pid rec)\<lparr>vd_candidates := map (dput ''profileId'' (JStr pid)) (take 50 cs), vd_at := JInt now\<rparr>)
          (rec\<lparr>vr_candidates := newest_candidates (merge_found h pid now olds [] cs)\<rparr>))"

definition save_discovery :: "(json \<Rightarrow> string) \<Rightarrow> vhash \<Rightarrow> string \<Rightarrow> string \<Rightarrow> vprofile \<Rightarrow> doc list \<Rightarrow> int \<Rightarrow> vdoc \<Rightarrow> vdoc" where
  "save_discovery r h owner dev p cs now d = put_history owner dev (save_discovery_record r h p cs now (history_of d owner dev)) d"

definition recent :: "int \<Rightarrow> json \<Rightarrow> int \<Rightarrow> bool" where
  "recent now v interval = (case number_of v of
     Some (Fin q) \<Rightarrow> q \<noteq> 0 \<and> of_int now - q < of_int interval | Some PosInf \<Rightarrow> True | _ \<Rightarrow> False)"

datatype discovery = Cached "doc list" | Broken string "doc list" | Found "doc list"

definition discover_profile ::
  "(json \<Rightarrow> string) \<Rightarrow> vhash \<Rightarrow> (string \<Rightarrow> ownership) \<Rightarrow> (vprofile \<Rightarrow> vserver list result) \<Rightarrow> (failure \<Rightarrow> string) \<Rightarrow>
   string \<Rightarrow> string \<Rightarrow> vprofile \<Rightarrow> bool \<Rightarrow> int \<Rightarrow> vdoc \<Rightarrow> discovery \<times> vdoc" where
  "discover_profile r h rdap nord tx owner dev p force now d =
     (let (rec, p') = normalise_record r p (history_of d owner dev); v = profile_discovery (vp_id p) rec;
          saved = map (public_candidate r p') (vd_candidates v)
      in if \<not> force \<and> recent now (vd_at v) (vp_interval p) then (Cached saved, d)
         else (case nord p of
           Inl e \<Rightarrow> (Broken (tx e) saved, d)
         | Inr svs \<Rightarrow>
             (let cs = sort_key (score p) (map (\<lambda>sv. found r h p sv (rdap (sv_ip sv))) svs)
              in (Found (map (public_candidate r p') cs), save_discovery r h owner dev p cs now d))))"

section \<open>Validation of a candidate\<close>

fun update_first :: "('a \<Rightarrow> bool) \<Rightarrow> ('a \<Rightarrow> 'a) \<Rightarrow> 'a list \<Rightarrow> 'a list option" where
  "update_first P f [] = None"
| "update_first P f (x # xs) = (if P x then Some (f x # xs) else map_option (\<lambda>ys. x # ys) (update_first P f xs))"

definition put_validation :: "string \<Rightarrow> json \<Rightarrow> doc \<Rightarrow> doc" where
  "put_validation t v c = dput ''validations'' (JObj (dput t v (obj_or_empty (getn c ''validations'')))) c"

definition validation_mut :: "(json \<Rightarrow> string) \<Rightarrow> string \<Rightarrow> string \<Rightarrow> vprofile \<Rightarrow> string \<Rightarrow> string \<Rightarrow> json \<Rightarrow> vdoc \<Rightarrow> (vdoc \<times> unit) result" where
  "validation_mut r owner dev p cid t v d = (let rec = fst (normalise_record r p (history_of d owner dev)) in
     case update_first (same_candidate (vp_id p) (JStr cid)) (put_validation t v) (vr_candidates rec) of
       None \<Rightarrow> Inl (ValueError ''candidate not found'')
     | Some cs \<Rightarrow> Inr (put_history owner dev (rec\<lparr>vr_candidates := cs\<rparr>) d, ()))"

definition set_validation ::
  "vpy \<Rightarrow> string \<Rightarrow> string \<Rightarrow> string \<Rightarrow> string \<Rightarrow> string \<Rightarrow> json \<Rightarrow> string option \<Rightarrow> int \<Rightarrow> vdoc \<Rightarrow> vdoc \<Rightarrow> unit result \<times> vdoc" where
  "set_validation py owner dev cid t state remark pid now seen d =
     (if state \<notin> set [''Verified'', ''Failed'', ''Assumed'', ''Unknown''] then (Inl (ValueError ''invalid validation state''), d)
      else (case rbind (owned owner dev seen) (\<lambda>v. rbind (profiles_of (py_str py) (py_fresh py) v) (\<lambda>ps. selected_profile ps pid)) of
        Inl e \<Rightarrow> (Inl e, d)
      | Inr p \<Rightarrow> (let p' = snd (normalise_record (py_str py) p (history_of seen owner dev)) in
          if t \<notin> vt_id ` set (vp_targets p') then (Inl (ValueError ''compatibility target not found''), d)
          else transact (validation_mut (py_str py) owner dev p' cid t (JObj [(''state'', JStr state), (''lastValidatedAt'', JInt now),
            (''note'', JStr (bounded_text (py_str py) remark 500))])) d)))"

section \<open>Utilization\<close>

definition utilization_percent :: "json \<Rightarrow> rat option" where
  "utilization_percent v = (case v of
     JInt i \<Rightarrow> if 0 \<le> i \<and> i \<le> 100 then Some (of_int i) else None
   | JFloat (Fin q) \<Rightarrow> if 0 \<le> q \<and> q \<le> 100 then Some q else None
   | _ \<Rightarrow> None)"

definition observations :: "string \<Rightarrow> vrecord \<Rightarrow> vobs list" where
  "observations pid rec = keep_last 2016 (sort_key ob_at (dget_or (vr_utilization rec) pid []))"

definition record_utilization :: "string \<Rightarrow> string \<Rightarrow> int \<Rightarrow> rat \<Rightarrow> vrecord \<Rightarrow> vrecord" where
  "record_utilization pid cid ts percent rec = (let obs = observations pid rec;
       obs' = (case update_first (\<lambda>ob. ob_at ob = ts \<and> ob_candidate ob = cid) (ob_percent_update (\<lambda>_. percent)) obs of
         Some xs \<Rightarrow> xs | None \<Rightarrow> obs @ [\<lparr>ob_at = ts, ob_percent = percent, ob_candidate = cid\<rparr>])
     in rec\<lparr>vr_utilization := dput pid (keep_last 2016 (sort_key ob_at obs')) (vr_utilization rec)\<rparr>)"

definition poll_values :: "vhash \<Rightarrow> string \<Rightarrow> vserver \<Rightarrow> string \<Rightarrow> json \<Rightarrow> int \<Rightarrow> doc" where
  "poll_values h pid sv cid percent ts =
     [(''profileId'', JStr pid), (''candidateId'', JStr cid), (''serverId'', sv_id sv), (''endpointIp'', JStr (sv_ip sv)),
      (''hostname'', JStr (sv_host sv)), (''country'', JStr (sv_country sv)), (''city'', JStr (sv_city sv)),
      (''publicKeyFingerprint'', JStr (vh_print h (sv_key sv))), (''load'', percent), (''loadObservedAt'', JInt ts), (''lastSeen'', JInt ts)]"

definition percent_json :: "rat \<Rightarrow> json" where
  "percent_json q = (if of_int \<lfloor>q\<rfloor> = q then JInt \<lfloor>q\<rfloor> else JFloat (Fin q))"

definition known_server :: "string \<Rightarrow> string \<Rightarrow> string \<Rightarrow> doc \<Rightarrow> bool" where
  "known_server pid cid ip c \<longleftrightarrow> for_profile pid c \<and> (getn c ''candidateId'' = JStr cid \<or> getn c ''endpointIp'' = JStr ip)"

definition new_server :: "int \<Rightarrow> doc" where
  "new_server ts = [(''firstSeen'', JInt ts), (''owner'', JStr []), (''asn'', JNull), (''classification'', JStr ''Unknown''),
     (''validations'', JObj [])]"

definition current_values :: "vserver \<Rightarrow> json \<Rightarrow> int \<Rightarrow> doc" where
  "current_values sv percent ts = [(''serverId'', sv_id sv), (''hostname'', JStr (sv_host sv)), (''endpointIp'', JStr (sv_ip sv)),
     (''endpointPort'', sv_port sv), (''country'', JStr (sv_country sv)), (''city'', JStr (sv_city sv)), (''load'', percent),
     (''discoveredAt'', JInt ts)]"

text \<open>One poll of the server in use: the attempt is noted, a valid load goes to the candidate and the series.\<close>

definition poll_record :: "vhash \<Rightarrow> string \<Rightarrow> vserver option \<Rightarrow> int \<Rightarrow> vrecord \<Rightarrow> vrecord" where
  "poll_record h pid server ts rec =
     (let v = (profile_discovery pid rec)\<lparr>vd_poll := JInt ts\<rparr>; noted = put_discovery pid v rec in
      case server of None \<Rightarrow> noted
      | Some sv \<Rightarrow> (case utilization_percent (sv_load sv) of None \<Rightarrow> noted
        | Some q \<Rightarrow>
            (let cid0 = vh_candidate h (sv_ip sv) (sv_key sv); P = known_server pid cid0 (sv_ip sv);
                 cid = (case find P (vr_candidates rec) of None \<Rightarrow> cid0
                   | Some c \<Rightarrow> (case dget c ''candidateId'' of Some (JStr i) \<Rightarrow> i | _ \<Rightarrow> cid0));
                 vals = poll_values h pid sv cid (percent_json q) ts;
                 cs = (case update_first P (update_entry vals) (vr_candidates rec) of
                   Some cs \<Rightarrow> cs | None \<Rightarrow> vr_candidates rec @ [vals @ new_server ts]);
                 ls = (case update_first (\<lambda>c. getn c ''candidateId'' = JStr cid \<or> getn c ''endpointIp'' = JStr (sv_ip sv))
                     (update_entry (current_values sv (percent_json q) ts)) (vd_candidates v) of
                   Some ls \<Rightarrow> ls | None \<Rightarrow> vd_candidates v)
             in record_utilization pid cid ts q
                  (put_discovery pid (v\<lparr>vd_candidates := ls\<rparr>) (rec\<lparr>vr_candidates := newest_candidates cs\<rparr>)))))"

definition save_utilization_poll :: "vhash \<Rightarrow> string \<Rightarrow> string \<Rightarrow> string \<Rightarrow> vserver option \<Rightarrow> int \<Rightarrow> vdoc \<Rightarrow> vdoc" where
  "save_utilization_poll h owner dev pid server ts d = put_history owner dev (poll_record h pid server ts (history_of d owner dev)) d"

definition save_utilization :: "string \<Rightarrow> string \<Rightarrow> string \<Rightarrow> string \<Rightarrow> int \<Rightarrow> rat \<Rightarrow> vdoc \<Rightarrow> vdoc" where
  "save_utilization owner dev pid cid ts q d = put_history owner dev (record_utilization pid cid ts q (history_of d owner dev)) d"

section \<open>The event of a switch\<close>

definition switch_event :: "string \<Rightarrow> string \<Rightarrow> bool \<Rightarrow> bool option \<Rightarrow> int \<Rightarrow> doc" where
  "switch_event pid cid ok rollback now = [(''profileId'', JStr pid), (''at'', JInt now), (''type'', JStr ''switch''),
     (''candidateId'', JStr cid), (''result'', JStr (if ok then ''success'' else ''failed'')),
     (''rollback'', case rollback of None \<Rightarrow> JNull | Some b \<Rightarrow> JBool b)]"

definition audit_record :: "string \<Rightarrow> string \<Rightarrow> bool \<Rightarrow> bool option \<Rightarrow> int \<Rightarrow> vrecord \<Rightarrow> vrecord" where
  "audit_record pid cid ok rollback now rec =
     (let mark = update_entry [(''lastVerification'', JStr (if ok then ''success'' else ''failed'')), (''lastVerifiedAt'', JInt now)];
          cs = (case update_first (same_candidate pid (JStr cid)) mark (vr_candidates rec) of Some cs \<Rightarrow> cs | None \<Rightarrow> vr_candidates rec)
      in rec\<lparr>vr_candidates := cs, vr_events := keep_last 100 (vr_events rec @ [switch_event pid cid ok rollback now])\<rparr>)"

definition audit :: "string \<Rightarrow> string \<Rightarrow> string \<Rightarrow> string \<Rightarrow> bool \<Rightarrow> bool option \<Rightarrow> int \<Rightarrow> vdoc \<Rightarrow> vdoc" where
  "audit owner dev pid cid ok rollback now d = put_history owner dev (audit_record pid cid ok rollback now (history_of d owner dev)) d"

section \<open>Health and alerts\<close>

record wg_status =
  ws_handshake :: json
  ws_age :: json
  ws_status :: string

datatype health = HUnknown | Offline | Warning | Healthy

definition older :: "json \<Rightarrow> int \<Rightarrow> bool" where
  "older v n = (case number_of v of Some (Fin q) \<Rightarrow> of_int n < q | Some PosInf \<Rightarrow> True | _ \<Rightarrow> False)"

definition is_down :: "wg_status \<Rightarrow> bool" where
  "is_down s \<longleftrightarrow> lower (ws_status s) \<in> set [''offline'', ''down'']"

text \<open>\<open>None\<close>: not configured, or the runtime could not be read.\<close>

definition health_of :: "vprofile \<Rightarrow> wg_status option \<Rightarrow> health" where
  "health_of p st = (case st of
     None \<Rightarrow> HUnknown
   | Some s \<Rightarrow> if is_down s then Offline else if older (ws_age s) (vp_handshake p) then Warning
       else if truthy (ws_handshake s) then Healthy else Offline)"

definition runtime_conditions :: "vprofile \<Rightarrow> wg_status option \<Rightarrow> string list" where
  "runtime_conditions p st = (case st of
     None \<Rightarrow> []
   | Some s \<Rightarrow> if is_down s then [''server_down''] else if \<not> truthy (ws_handshake s) then [''handshake_failed'']
       else if older (ws_age s) (vp_handshake p) then [''stale_handshake''] else [])"

definition owner_conditions :: "vprofile \<Rightarrow> bool \<Rightarrow> doc list \<Rightarrow> doc option \<Rightarrow> string list" where
  "owner_conditions p fresh cs act =
     (if fresh \<and> (case act of None \<Rightarrow> False | Some c \<Rightarrow> text_at c ''classification'' \<in> set [''Excluded'', ''Unknown''])
      then [''owner_not_preferred''] else []) @
     (if fresh \<and> vp_preferred p \<noteq> [] \<and> \<not> list_ex (\<lambda>c. text_at c ''classification'' = ''Preferred'') cs
      then [''no_preferred_candidate''] else [])"

text \<open>The state of the alerts of one profile: how often in a row, and whether it was announced.\<close>

type_synonym alerts = "(string, nat \<times> bool) dict"

definition alert_of :: "alerts \<Rightarrow> string \<Rightarrow> nat \<times> bool" where
  "alert_of st c = (let (n, sent) = dget_or st c (0, False) in (Suc n, sent \<or> 2 \<le> Suc n))"

definition next_alerts :: "string list \<Rightarrow> alerts \<Rightarrow> alerts" where
  "next_alerts conds st = map (\<lambda>c. (c, alert_of st c)) (remdups conds)"

definition emitted :: "string list \<Rightarrow> alerts \<Rightarrow> string list" where
  "emitted conds st = filter (\<lambda>c. let (n, sent) = dget_or st c (0, False) in 2 \<le> Suc n \<and> \<not> sent) (remdups conds)"

definition update_alert_state :: "string \<Rightarrow> string \<Rightarrow> string \<Rightarrow> string list \<Rightarrow> vdoc \<Rightarrow> string list \<times> vdoc" where
  "update_alert_state owner dev pid conds d = (let rec = history_of d owner dev; st = dget_or (vr_alerts rec) pid [] in
     (emitted conds st, put_history owner dev (rec\<lparr>vr_alerts := dput pid (next_alerts conds st) (vr_alerts rec)\<rparr>) d))"


section \<open>What the record keeps\<close>

text \<open>
  Bounded lists, and no key of an endpoint in the durable history. Only the current discovery has
  them, for at most fifty candidates.
\<close>

definition entry_ok :: "doc \<Rightarrow> bool" where
  "entry_ok c \<longleftrightarrow> dget c ''publicKey'' = None"

definition record_inv :: "vrecord \<Rightarrow> bool" where
  "record_inv rec \<longleftrightarrow> list_all entry_ok (vr_candidates rec) \<and> length (vr_candidates rec) \<le> 100 \<and> length (vr_events rec) \<le> 100 \<and>
     (\<forall>pid v. dget (vr_discoveries rec) pid = Some v \<longrightarrow> length (vd_candidates v) \<le> 50) \<and> length (vr_last rec) \<le> 50 \<and>
     (\<forall>pid xs. dget (vr_utilization rec) pid = Some xs \<longrightarrow> length xs \<le> 2016)"

definition profile_count :: "vdevice \<Rightarrow> nat" where
  "profile_count v = (case vx_profiles v of JArr xs \<Rightarrow> length xs | _ \<Rightarrow> 0)"

definition vpn_inv :: "vdoc \<Rightarrow> bool" where
  "vpn_inv d \<longleftrightarrow> (\<forall>owner dev. record_inv (history_of d owner dev)) \<and>
     (\<forall>dev v. dget (vn_devices d) dev = Some v \<longrightarrow> profile_count v \<le> 10)"

inductive vpn_step :: "vpy \<Rightarrow> vhash \<Rightarrow> vdoc \<Rightarrow> vdoc \<Rightarrow> bool" for py h where
  configures: "vpn_step py h d (snd (configure py owner dev data pid create seen d))"
| removes: "vpn_step py h d (snd (remove_profile py owner dev pid confirmed seen d))"
| discovers: "vpn_step py h d (snd (discover_profile (py_str py) h rdap nord tx owner dev p force now d))"
| validates: "vpn_step py h d (snd (set_validation py owner dev cid t state remark pid now seen d))"
| polls: "vpn_step py h d (save_utilization_poll h owner dev pid server ts d)"
| observes: "vpn_step py h d (save_utilization owner dev pid cid ts q d)"
| audits: "vpn_step py h d (audit owner dev pid cid ok rollback now d)"
| alerts: "vpn_step py h d (snd (update_alert_state owner dev pid conds d))"

inductive vpn_run :: "vpy \<Rightarrow> vhash \<Rightarrow> vdoc \<Rightarrow> vdoc \<Rightarrow> bool" for py h where
  vpn_refl: "vpn_run py h d d"
| vpn_more: "vpn_run py h d d1 \<Longrightarrow> vpn_step py h d1 d2 \<Longrightarrow> vpn_run py h d d2"

text \<open>The alerts after a sequence of polls, and how long a condition has held at its end.\<close>

definition alerts_after :: "string list list \<Rightarrow> alerts" where
  "alerts_after polls = fold next_alerts polls []"

definition streak :: "string list list \<Rightarrow> string \<Rightarrow> nat" where
  "streak polls c = length (takeWhile (\<lambda>conds. c \<in> set conds) (rev polls))"

lemma dget_next_alerts: "dget (next_alerts conds st) c = (if c \<in> set conds then Some (alert_of st c) else None)"
proof -
  have "map_of (map (\<lambda>c. (c, f c)) xs) c = (if c \<in> set xs then Some (f c) else None)" for xs and f :: "string \<Rightarrow> nat \<times> bool"
    by (induction xs) auto
  then show ?thesis by (simp add: next_alerts_def)
qed

lemma streak_snoc: "streak (polls @ [conds]) c = (if c \<in> set conds then Suc (streak polls c) else 0)"
  by (simp add: streak_def)

lemma alerts_after_streak:
  "dget (alerts_after polls) c = (let n = streak polls c in if n = 0 then None else Some (n, 2 \<le> n))"
proof (induction polls rule: rev_induct)
  case Nil
  then show ?case by (simp add: alerts_after_def streak_def)
next
  case (snoc conds polls)
  have "alerts_after (polls @ [conds]) = next_alerts conds (alerts_after polls)" by (simp add: alerts_after_def)
  then show ?case using snoc by (auto simp: streak_snoc dget_next_alerts alert_of_def dget_or_def Let_def)
qed

text \<open>The operations on one record.\<close>

lemma update_last_all: "list_all P xs \<Longrightarrow> (\<And>x. P x \<Longrightarrow> P (f x)) \<Longrightarrow> list_all P (update_last Q f xs)"
  by (induction xs) auto

lemma update_first_all: "update_first Q f xs = Some ys \<Longrightarrow> list_all P xs \<Longrightarrow> (\<And>x. P x \<Longrightarrow> P (f x)) \<Longrightarrow> list_all P ys"
  by (induction xs arbitrary: ys) (auto split: if_splits)

lemma update_first_length: "update_first Q f xs = Some ys \<Longrightarrow> length ys = length xs"
  by (induction xs arbitrary: ys) (auto split: if_splits)

lemma update_entry_other: "k \<notin> set (dkeys ch) \<Longrightarrow> dget (update_entry ch c) k = dget c k"
  by (induction ch arbitrary: c) (auto simp: update_entry_def)

lemma entry_ok_update: "''publicKey'' \<notin> set (dkeys ch) \<Longrightarrow> entry_ok c \<Longrightarrow> entry_ok (update_entry ch c)"
  by (simp add: entry_ok_def update_entry_other)

lemma entry_ok_list: "''publicKey'' \<notin> set (dkeys c) \<Longrightarrow> entry_ok c"
  by (simp add: entry_ok_def dget_None_iff del: map_of_eq_None_iff)

lemma entry_keys:
  "''publicKey'' \<notin> set (dkeys (history_entry h pid now q c))"
  "''publicKey'' \<notin> set (dkeys (poll_values h pid sv cid percent ts))"
  "''publicKey'' \<notin> set (dkeys (poll_values h pid sv cid percent ts @ new_server ts))"
  by (auto simp: history_entry_def poll_values_def new_server_def split: option.splits if_splits)

lemma entry_ok_normalise: "entry_ok c \<Longrightarrow> entry_ok (normalise_candidate r pid c)"
  by (auto simp: normalise_candidate_def entry_ok_def Let_def)

lemma merge_found_ok:
  "list_all entry_ok olds \<Longrightarrow> list_all entry_ok news \<Longrightarrow> list_all entry_ok (merge_found h pid now olds news cs)"
proof (induction cs arbitrary: olds news)
  case (Cons c cs)
  have "list_all entry_ok (update_last Q (\<lambda>q. update_entry (history_entry h pid now (Some q) c) q) olds)" for Q
    using Cons.prems(1) by (rule update_last_all) (rule entry_ok_update [OF entry_keys(1)])
  moreover have "entry_ok (history_entry h pid now None c)" by (rule entry_ok_list [OF entry_keys(1)])
  ultimately show ?case using Cons by (simp add: Let_def)
qed simp

lemma newest_candidates_ok: "list_all entry_ok cs \<Longrightarrow> list_all entry_ok (newest_candidates cs)"
  by (auto simp: newest_candidates_def list_all_iff dest: in_set_takeD)

lemma newest_length: "length (newest_candidates cs) \<le> 100"
  by (simp add: newest_candidates_def)

lemma discovery_bounded: "record_inv rec \<Longrightarrow> length (vd_candidates (profile_discovery pid rec)) \<le> 50"
  by (auto simp: record_inv_def profile_discovery_def split: option.split)

lemma record_inv_put_discovery [inv_intros]:
  "record_inv rec \<Longrightarrow> length (vd_candidates v) \<le> 50 \<Longrightarrow> record_inv (put_discovery pid v rec)"
  by (auto simp: record_inv_def put_discovery_def)

lemma record_inv_candidates [inv_intros]:
  "record_inv rec \<Longrightarrow> list_all entry_ok cs \<Longrightarrow> length cs \<le> 100 \<Longrightarrow> record_inv (rec\<lparr>vr_candidates := cs\<rparr>)"
  by (auto simp: record_inv_def)

lemma record_inv_normalise [inv_intros]:
  assumes "record_inv rec"
  shows "record_inv (fst (normalise_record r p rec))"
proof -
  have "list_all entry_ok (map (normalise_candidate r pid) (vr_candidates rec))" for pid
    using assms by (auto simp: record_inv_def list_all_iff entry_ok_normalise)
  moreover have "length (vr_candidates rec) \<le> 100" using assms by (simp add: record_inv_def)
  ultimately show ?thesis using assms discovery_bounded [OF assms]
    by (simp add: normalise_record_def Let_def record_inv_put_discovery record_inv_candidates)
qed

lemma record_inv_utilization [inv_intros]: "record_inv rec \<Longrightarrow> record_inv (record_utilization pid cid ts q rec)"
  by (auto simp: record_utilization_def Let_def record_inv_def)

lemma record_inv_save [inv_intros]: "record_inv rec \<Longrightarrow> record_inv (save_discovery_record r h p cs now rec)"
proof -
  assume "record_inv rec"
  then have n: "record_inv (fst (normalise_record r p rec))" by (rule record_inv_normalise)
  let ?rec = "fst (normalise_record r p rec)"
  have "list_all entry_ok (map (mark_stale pid ids) (vr_candidates ?rec))" for pid ids
    using n by (auto simp: record_inv_def list_all_iff mark_stale_def entry_ok_def)
  then have "list_all entry_ok (newest_candidates (merge_found h pid now (map (mark_stale pid ids) (vr_candidates ?rec)) [] cs))" for pid ids
    by (intro newest_candidates_ok merge_found_ok) auto
  then show ?thesis using n newest_length
    by (auto simp: save_discovery_record_def Let_def intro!: record_inv_put_discovery record_inv_candidates)
qed

lemma record_inv_poll [inv_intros]:
  assumes "record_inv rec"
  shows "record_inv (poll_record h pid server ts rec)"
proof -
  note b = discovery_bounded [OF assms, of pid]
  have noted: "record_inv (put_discovery pid (profile_discovery pid rec\<lparr>vd_poll := JInt ts\<rparr>) rec)"
    using assms b by (auto intro: record_inv_put_discovery)
  have ok: "list_all entry_ok (vr_candidates rec)" using assms by (simp add: record_inv_def)
  have cs: "list_all entry_ok (case update_first P (update_entry (poll_values h pid sv cid v ts)) (vr_candidates rec) of
      Some cs \<Rightarrow> cs | None \<Rightarrow> vr_candidates rec @ [poll_values h pid sv cid v ts @ new_server ts])" for P sv cid v
    using ok update_first_all [OF _ ok entry_ok_update [OF entry_keys(2)]] entry_ok_list [OF entry_keys(3)]
    by (auto split: option.split)
  have ls: "length (case update_first P f (vd_candidates (profile_discovery pid rec)) of
      Some ls \<Rightarrow> ls | None \<Rightarrow> vd_candidates (profile_discovery pid rec)) \<le> 50" for P f
    using b update_first_length by (fastforce split: option.split)
  show ?thesis
  proof (cases "server = None \<or> utilization_percent (sv_load (the server)) = None")
    case True
    then show ?thesis using noted by (auto simp: poll_record_def Let_def split: option.split)
  next
    case False
    then obtain sv q where q: "server = Some sv" "utilization_percent (sv_load sv) = Some q" by auto
    show ?thesis unfolding poll_record_def Let_def q option.case
      by (intro record_inv_utilization record_inv_put_discovery record_inv_candidates newest_candidates_ok cs newest_length assms)
        (simp add: ls cong: option.case_cong)
  qed
qed

lemma record_inv_audit [inv_intros]:
  assumes inv: "record_inv rec"
  shows "record_inv (audit_record pid cid ok rollback now rec)"
proof -
  have ok: "list_all entry_ok (vr_candidates rec)" and len: "length (vr_candidates rec) \<le> 100"
    using inv by (simp_all add: record_inv_def)
  have u: "list_all entry_ok cs \<and> length cs \<le> 100"
    if "update_first P (update_entry [(''lastVerification'', v), (''lastVerifiedAt'', w)]) (vr_candidates rec) = Some cs" for P v w cs
    using update_first_all [OF that ok entry_ok_update] update_first_length [OF that] len by simp
  show ?thesis using inv u
    by (auto simp: audit_record_def Let_def record_inv_def split: option.split)
qed

text \<open>The operations on the document.\<close>

lemma history_put: "history_of (put_history owner dev rec d) o' dev' = (if o' = owner \<and> dev' = dev then rec else history_of d o' dev')"
  by (auto simp: history_of_def put_history_def dget_or_def)

lemma devices_put [simp]: "vn_devices (put_history owner dev rec d) = vn_devices d"
  by (simp add: put_history_def)

lemma vpn_inv_put [inv_intros]: "vpn_inv d \<Longrightarrow> record_inv rec \<Longrightarrow> vpn_inv (put_history owner dev rec d)"
  by (simp add: vpn_inv_def history_put)

lemma vpn_inv_record: "vpn_inv d \<Longrightarrow> record_inv (history_of d owner dev)"
  by (simp add: vpn_inv_def)

lemma vpn_inv_profiles [inv_intros]: "vpn_inv d \<Longrightarrow> length ps \<le> 10 \<Longrightarrow> vpn_inv (put_profiles dev v ps d)"
  by (auto simp: vpn_inv_def put_profiles_def history_of_def profile_count_def split: if_splits)

lemma profiles_loop_length: "profiles_loop r fresh i seen vs = Inr ps \<Longrightarrow> length ps \<le> length vs"
proof (induction vs arbitrary: i seen ps)
  case (Cons v vs)
  then show ?case by (cases v) (fastforce simp: rbind_Inr_iff split: if_splits)+
qed simp

lemma profiles_of_length: "profiles_of r fresh dev = Inr ps \<Longrightarrow> length ps \<le> 10"
  unfolding profiles_of_def
  by (drule profiles_loop_length) (auto simp: stored_profiles_def split: json.splits)

lemma place_profile_length: "place_profile create p ps = Inr qs \<Longrightarrow> length ps \<le> 10 \<Longrightarrow> length qs \<le> 10"
proof -
  have "length (replace_profile p ps) = length ps" by (induction ps) auto
  then show "place_profile create p ps = Inr qs \<Longrightarrow> length ps \<le> 10 \<Longrightarrow> length qs \<le> 10"
    by (auto simp: place_profile_def split: if_splits)
qed

lemma drop_validations_ok: "entry_ok c \<Longrightarrow> entry_ok (drop_validations pid removed c)"
  by (auto simp: drop_validations_def entry_ok_def split: json.split)

lemma configure_inv [inv_intros]: "vpn_inv d \<Longrightarrow> vpn_inv (snd (configure py owner dev data pid create seen d))"
proof (cases "configured py owner dev data pid create seen")
  case (Inr x)
  obtain p removed where x: "x = (p, removed)" by (cases x)
  assume inv: "vpn_inv d"
  have "vpn_inv d'" if m: "configure_mut py owner dev create p removed d = Inr (d', q)" for d' q
  proof -
    obtain rec p' where n: "normalise_record (py_str py) p (history_of d owner dev) = (rec, p')" by fastforce
    have rec: "record_inv rec" using record_inv_normalise [OF vpn_inv_record [OF inv], of "py_str py" p owner dev] n by simp
    then have rec': "record_inv (rec\<lparr>vr_candidates := map (drop_validations (vp_id p) removed) (vr_candidates rec)\<rparr>)"
      by (auto simp: record_inv_def list_all_iff drop_validations_ok)
    obtain v ps qs where q: "profiles_of (py_str py) (py_fresh py) v = Inr ps" "place_profile create p' ps = Inr qs"
      and d': "d' = put_profiles dev v qs (put_history owner dev
        (rec\<lparr>vr_candidates := map (drop_validations (vp_id p) removed) (vr_candidates rec)\<rparr>) d)"
      using m n by (auto simp: configure_mut_def rbind_Inr_iff)
    show ?thesis unfolding d'
      using place_profile_length [OF q(2) profiles_of_length [OF q(1)]] by (intro vpn_inv_profiles vpn_inv_put rec' inv)
  qed
  then show ?thesis using Inr x inv by (auto simp: configure_def transact_def split: sum.split)
qed (simp add: configure_def)

lemma record_inv_without:
  assumes "record_inv rec"
  shows "record_inv (rec\<lparr>vr_candidates := filter P (vr_candidates rec), vr_events := filter Q (vr_events rec),
     vr_discoveries := ddel pid (vr_discoveries rec), vr_utilization := ddel pid (vr_utilization rec)\<rparr>)"
proof -
  have "length (filter P (vr_candidates rec)) \<le> 100" "length (filter Q (vr_events rec)) \<le> 100"
    using assms by (auto simp: record_inv_def intro: le_trans [OF length_filter_le])
  then show ?thesis using assms by (auto simp: record_inv_def list_all_iff)
qed

lemma record_inv_fresh: "record_inv rec \<Longrightarrow> record_inv (rec\<lparr>vr_last := [], vr_at := JNull\<rparr>)"
  by (simp add: record_inv_def)

lemma record_inv_if: "record_inv a \<Longrightarrow> record_inv b \<Longrightarrow> record_inv (if c then a else b)"
  by simp

lemma remove_mut_inv:
  assumes inv: "vpn_inv d" and m: "remove_mut py owner dev pid d = Inr (d', q)"
  shows "vpn_inv d'"
proof -
  let ?kept = "history_of d owner dev\<lparr>vr_candidates := filter (\<lambda>c. \<not> for_profile pid c) (vr_candidates (history_of d owner dev)),
     vr_events := filter (\<lambda>c. \<not> for_profile pid c) (vr_events (history_of d owner dev)),
     vr_discoveries := ddel pid (vr_discoveries (history_of d owner dev)),
     vr_utilization := ddel pid (vr_utilization (history_of d owner dev))\<rparr>"
  obtain v ps where v: "profiles_of (py_str py) (py_fresh py) v = Inr ps"
    and d': "d' = put_profiles dev v (filter (\<lambda>p. vp_id p \<noteq> pid) ps)
       (put_history owner dev (if pid = legacy_id then ?kept\<lparr>vr_last := [], vr_at := JNull\<rparr> else ?kept) d)"
    using m by (auto simp: remove_mut_def rbind_Inr_iff Let_def split: if_splits)
  have len: "length (filter (\<lambda>p. vp_id p \<noteq> pid) ps) \<le> 10"
    using profiles_of_length [OF v] length_filter_le le_trans by blast
  have k: "record_inv ?kept" by (rule record_inv_without [OF vpn_inv_record [OF inv]])
  have "record_inv (if pid = legacy_id then ?kept\<lparr>vr_last := [], vr_at := JNull\<rparr> else ?kept)"
    by (rule record_inv_if [OF record_inv_fresh [OF k] k])
  then show ?thesis unfolding d' by (intro vpn_inv_profiles vpn_inv_put inv len)
qed

lemma remove_inv [inv_intros]: "vpn_inv d \<Longrightarrow> vpn_inv (snd (remove_profile py owner dev pid confirmed seen d))"
  using remove_mut_inv [of d py owner dev pid] by (auto simp: remove_profile_def transact_def split: sum.split)

lemma discover_inv [inv_intros]:
  "vpn_inv d \<Longrightarrow> vpn_inv (snd (discover_profile r h rdap nord tx owner dev p force now d))"
  by (auto simp: discover_profile_def save_discovery_def Let_def intro!: vpn_inv_put record_inv_save vpn_inv_record
      split: prod.split sum.split)

lemma validation_inv [inv_intros]: "vpn_inv d \<Longrightarrow> vpn_inv (snd (set_validation py owner dev cid t state remark pid now seen d))"
proof -
  assume inv: "vpn_inv d"
  have "vpn_inv d'" if m: "validation_mut r owner dev p cid t v d = Inr (d', q)" for r p v d' q
  proof -
    let ?rec = "fst (normalise_record r p (history_of d owner dev))"
    have rec: "record_inv ?rec" by (intro record_inv_normalise vpn_inv_record inv)
    then have ok: "list_all entry_ok (vr_candidates ?rec)" "length (vr_candidates ?rec) \<le> 100" by (simp_all add: record_inv_def)
    obtain cs where cs: "update_first (same_candidate (vp_id p) (JStr cid)) (put_validation t v) (vr_candidates ?rec) = Some cs"
      and d': "d' = put_history owner dev (?rec\<lparr>vr_candidates := cs\<rparr>) d"
      using m by (auto simp: validation_mut_def Let_def split: option.splits)
    have "list_all entry_ok cs" by (rule update_first_all [OF cs ok(1)]) (simp add: put_validation_def entry_ok_def)
    then show ?thesis using d' rec ok(2) update_first_length [OF cs] inv
      by (auto intro!: vpn_inv_put record_inv_candidates)
  qed
  then show ?thesis using inv by (auto simp: set_validation_def Let_def transact_def split: sum.split)
qed

lemma alerts_inv [inv_intros]: "vpn_inv d \<Longrightarrow> vpn_inv (snd (update_alert_state owner dev pid conds d))"
  using vpn_inv_record [of d owner dev]
  by (auto simp: update_alert_state_def Let_def record_inv_def intro!: vpn_inv_put)

lemma vpn_step_inv: "vpn_step py h d d' \<Longrightarrow> vpn_inv d \<Longrightarrow> vpn_inv d'"
  by (cases rule: vpn_step.cases)
    (auto simp: save_utilization_poll_def save_utilization_def audit_def
      intro: inv_intros record_inv_poll record_inv_audit record_inv_utilization vpn_inv_put vpn_inv_record)

text \<open>
  Over every sequence of endpoint operations, with any discoveries and polls between
  them, a device has at most ten profiles, its history at most a hundred candidates and events,
  every discovery at most fifty candidates and every utilization series at most 2016 points; the key
  of an endpoint never gets into the history.
\<close>

theorem vpn_run_bounded:
  assumes "vpn_run py h d d'" and "vpn_inv d"
  shows "vpn_inv d'"
  using assms by (induction rule: vpn_run.induct) (auto intro: vpn_step_inv)

text \<open>
  An alert about an endpoint is announced at the second poll in a row that finds its
  condition, and not again before a poll has not found it.
\<close>

theorem vpn_alert_second_poll:
  "set (emitted conds (alerts_after polls)) = {c \<in> set conds. streak polls c = 1} \<and> distinct (emitted conds (alerts_after polls))"
  by (auto simp: emitted_def Let_def dget_or_def alerts_after_streak split: if_splits)

section \<open>The profiles that come out\<close>

definition target_ok :: "vtarget \<Rightarrow> bool" where
  "target_ok t \<longleftrightarrow> vt_name t \<noteq> [] \<and> length (vt_name t) \<le> 120 \<and> length (vt_description t) \<le> 500"

definition pattern_ok :: "string \<Rightarrow> bool" where
  "pattern_ok s \<longleftrightarrow> s \<noteq> [] \<and> length s \<le> 80"

definition text_ok :: "nat \<Rightarrow> string \<Rightarrow> bool" where
  "text_ok n s \<longleftrightarrow> length s \<le> n"

definition between :: "int \<Rightarrow> int \<Rightarrow> int \<Rightarrow> bool" where
  "between lo hi n \<longleftrightarrow> lo \<le> n \<and> n \<le> hi"

definition profile_ok :: "vprofile \<Rightarrow> bool" where
  "profile_ok p \<longleftrightarrow> vp_id p \<noteq> [] \<and> vp_name p \<noteq> [] \<and> text_ok 120 (vp_name p) \<and> vp_country p \<noteq> [] \<and> text_ok 80 (vp_country p) \<and>
     text_ok 80 (vp_city p) \<and> between 1 50 (vp_max p) \<and> between 60 86400 (vp_handshake p) \<and> between 300 604800 (vp_interval p) \<and>
     length (vp_preferred p) \<le> 20 \<and> list_all pattern_ok (vp_preferred p) \<and>
     length (vp_excluded p) \<le> 20 \<and> list_all pattern_ok (vp_excluded p) \<and>
     length (vp_targets p) \<le> 20 \<and> list_all target_ok (vp_targets p) \<and> distinct (map vt_id (vp_targets p)) \<and>
     text_ok 80 (vp_peer p) \<and> text_ok 80 (vp_instance p) \<and> text_ok 80 (vp_gateway p) \<and> text_ok 500 (vp_notes p)"

lemma bounded_text_length [simp]: "length (bounded_text r v n) \<le> n"
  by (simp add: bounded_text_def)

lemma text_ok_bounded: "text_ok n (bounded_text r v n)"
  by (simp add: text_ok_def)

lemma patterns_ok: "length (patterns_of r v) \<le> 20 \<and> list_all pattern_ok (patterns_of r v)"
  by (auto simp: patterns_of_def pattern_ok_def list_all_iff dest!: in_set_takeD split: json.split)

lemma target_of_ok: "target_of r new v = Some t \<Longrightarrow> target_ok t"
  by (auto simp: target_of_def target_ok_def Let_def split: json.splits if_splits)

lemma targets_loop_ok:
  "list_all target_ok (targets_loop r fresh i seen vs) \<and> distinct (map vt_id (targets_loop r fresh i seen vs)) \<and>
   set (map vt_id (targets_loop r fresh i seen vs)) \<inter> set seen = {} \<and> length (targets_loop r fresh i seen vs) \<le> length vs"
proof (induction vs arbitrary: i seen)
  case (Cons v vs)
  show ?case
  proof (cases "target_of r (fresh i) v")
    case (Some t)
    then show ?thesis using Cons.IH [of "Suc i" seen] Cons.IH [of "Suc i" "vt_id t # seen"] target_of_ok [OF Some]
      by (auto simp: image_iff)
  qed (use Cons.IH [of "Suc i" seen] in auto)
qed simp

lemma targets_ok: "list_all target_ok (targets_of r fresh v) \<and> distinct (map vt_id (targets_of r fresh v)) \<and> length (targets_of r fresh v) \<le> 20"
  unfolding targets_of_def by (cases v) (use targets_loop_ok in \<open>fastforce intro: le_trans\<close>)+

lemma numbers_ok: "profile_numbers d = Inr (a, b, c) \<Longrightarrow> between 1 50 a \<and> between 60 86400 b \<and> between 300 604800 c"
  by (auto simp: profile_numbers_def clamp_def between_def rbind_Inr_iff split: sum.splits if_splits)

lemma nonempty_or_Nil: "nonempty_or s t = [] \<longleftrightarrow> s = [] \<and> t = []"
  and text_ok_or: "length s \<le> n \<Longrightarrow> length t \<le> n \<Longrightarrow> text_ok n (nonempty_or s t)"
  by (simp_all add: nonempty_or_def text_ok_def)

lemma profile_ident_ok: "pid \<noteq> [] \<Longrightarrow> profile_ident r v pid \<noteq> []"
  by (auto simp: profile_ident_def valid_ident_def Let_def split: json.split)

lemma profile_of_ok: "profile_of r fresh v pid = Inr p \<Longrightarrow> pid \<noteq> [] \<Longrightarrow> profile_ok p"
proof -
  assume m: "profile_of r fresh v pid = Inr p" and pid: "pid \<noteq> []"
  obtain mx hs iv where n: "profile_numbers (profile_fields v) = Inr (mx, hs, iv)"
    using m by (auto simp: profile_of_def Let_def rbind_Inr_iff)
  then show ?thesis using m numbers_ok [OF n] profile_ident_ok [OF pid]
    by (auto simp: profile_of_def Let_def profile_ok_def patterns_ok targets_ok nonempty_or_Nil text_ok_or text_ok_bounded)
qed

lemma profiles_loop_ok:
  "profiles_loop r fresh i seen vs = Inr ps \<Longrightarrow> list_all profile_ok ps \<and> distinct (map vp_id ps) \<and> set (map vp_id ps) \<inter> set seen = {}"
proof (induction vs arbitrary: i seen ps)
  case (Cons v vs)
  show ?case
  proof (cases "\<exists>d. v = JObj d")
    case True
    then obtain d p where p: "v = JObj d" "profile_of r (fresh i) v (fallback_id i) = Inr p"
      using Cons.prems by (auto simp: rbind_Inr_iff)
    have ok: "profile_ok p" using profile_of_ok [OF p(2)] by (simp add: fallback_id_def legacy_id_def)
    show ?thesis
    proof (cases "vp_id p \<in> set seen")
      case True
      then show ?thesis using Cons.prems p Cons.IH [of "Suc i" seen ps] by simp
    next
      case False
      then obtain qs where "profiles_loop r fresh (Suc i) (vp_id p # seen) vs = Inr qs" "ps = p # qs"
        using Cons.prems p by (auto simp: rbind_Inr_iff)
      with Cons.IH [of "Suc i" "vp_id p # seen" qs] show ?thesis using ok False by (auto simp: image_iff)
    qed
  next
    case False
    then show ?thesis using Cons by (cases v) auto
  qed
qed simp


section \<open>An example\<close>

definition sample_vpy :: vpy where
  "sample_vpy = \<lparr>py_str = (\<lambda>_. []), py_fresh = (\<lambda>i j. ''t'' @ digits_of_nat i @ digits_of_nat j), py_new = ''p1''\<rparr>"

definition sample_vdoc :: vdoc where
  "sample_vdoc = \<lparr>vn_devices = [(''fw'', \<lparr>vx_owner = ''ann'', vx_driver = ''opnsense.firewall'', vx_profiles = JNull, vx_legacy = JNull\<rparr>)],
     vn_history = []\<rparr>"

definition sample_patch :: "string \<Rightarrow> doc" where
  "sample_patch name = [(''name'', JStr name), (''enabled'', JBool True), (''peerUuid'', JStr ''peer''), (''instanceUuid'', JStr ''wg0'')]"

definition sample_configured :: vdoc where
  "sample_configured = snd (configure sample_vpy ''ann'' ''fw'' (sample_patch ''A'') None True sample_vdoc sample_vdoc)"

definition peer_of :: "vprofile result \<times> vdoc \<Rightarrow> string option" where
  "peer_of x = (case fst x of Inl _ \<Rightarrow> None | Inr p \<Rightarrow> Some (vp_peer p))"

text \<open>
  A profile may not take the peer of another profile, but the check reads the document before the
  transaction: of two requests at the same time both are accepted with the same peer.
\<close>

lemma second_profile_refused:
  "peer_of (configure (sample_vpy\<lparr>py_new := ''p2''\<rparr>) ''ann'' ''fw'' (sample_patch ''B'') None True sample_configured sample_configured) = None"
  by code_simp

lemma concurrent_profiles_share_peer:
  "peer_of (configure (sample_vpy\<lparr>py_new := ''p2''\<rparr>) ''ann'' ''fw'' (sample_patch ''B'') None True sample_vdoc sample_configured) = Some ''peer''"
  by code_simp

lemma sample_vdoc_inv: "vpn_inv sample_vdoc"
  by (simp add: vpn_inv_def sample_vdoc_def history_of_def dget_or_def record_inv_def empty_record_def profile_count_def)

lemma sample_configured_profiles: "vx_profiles (snd (hd (vn_devices sample_configured))) \<noteq> JNull"
  by code_simp

theorem vpn_run_bounded_witness: "vpn_inv sample_configured \<and> vx_profiles (snd (hd (vn_devices sample_configured))) \<noteq> JNull"
proof -
  have "vpn_run sample_vpy \<lparr>vh_candidate = (\<lambda>a b. a), vh_print = id\<rparr> sample_vdoc sample_configured"
    unfolding sample_configured_def by (rule vpn_more [OF vpn_refl configures])
  from vpn_run_bounded [OF this sample_vdoc_inv] show ?thesis using sample_configured_profiles by blast
qed

end
