(* ===== verification/VpnSwitch.thy ===== *)
theory VpnSwitch
  imports VpnRecord
begin

text \<open>
  Switching a WireGuard peer to another endpoint, with rollback: \<open>switch\<close> of
  \<open>backend/vpn_endpoint_service.py\<close> on the WireGuard operations of \<open>backend/drivers/opnsense.py\<close>.
  The firewall is its stored peers and gateways; a request of the driver is accepted, refused, not sent,
  or carried out with its answer lost. How the firewall shows a stored peer, its runtime rows and the
  check of an address are arguments.
\<close>

section \<open>The driver\<close>

datatype reply = Accepted | Refused | Unsent | Lost

record wg_fw =
  wf_peers :: "(string, doc) dict"
  wf_gateways :: "(string, doc) dict"
  wf_calls :: nat

record wg_api =
  wa_str :: "json \<Rightarrow> string"
  wa_net :: "nat \<Rightarrow> reply"
  wa_shown :: "doc \<Rightarrow> doc"
  wa_rows :: "nat \<Rightarrow> doc list"
  wa_live :: "nat \<Rightarrow> string \<Rightarrow> json option"

type_synonym ('a, 'f) act = "'f \<Rightarrow> 'a result \<times> 'f"

definition sbind :: "('a, 'f) act \<Rightarrow> ('a \<Rightarrow> ('b, 'f) act) \<Rightarrow> ('b, 'f) act" where
  "sbind m k f = (case m f of (Inl e, f') \<Rightarrow> (Inl e, f') | (Inr x, f') \<Rightarrow> k x f')"

definition call :: "wg_fw \<Rightarrow> wg_fw" where
  "call f = f\<lparr>wf_calls := Suc (wf_calls f)\<rparr>"

text \<open>A read that is not answered gives nothing.\<close>

definition answered :: "wg_api \<Rightarrow> wg_fw \<Rightarrow> bool" where
  "answered api f \<longleftrightarrow> wa_net api (wf_calls f) = Accepted"

definition post :: "wg_api \<Rightarrow> string \<Rightarrow> (wg_fw \<Rightarrow> wg_fw) \<Rightarrow> (unit, wg_fw) act" where
  "post api what effect f = (case wa_net api (wf_calls f) of
     Accepted \<Rightarrow> (Inr (), effect (call f))
   | Refused \<Rightarrow> (Inl (ValueError (what @ '' failed'')), call f)
   | Unsent \<Rightarrow> (Inl (UpstreamUnavailable what), call f)
   | Lost \<Rightarrow> (Inl (UpstreamUnavailable what), effect (call f)))"

definition is_selected :: "(json \<Rightarrow> string) \<Rightarrow> json \<Rightarrow> bool" where
  "is_selected r v = (case v of
     JObj d \<Rightarrow> lower (case dget d ''selected'' of None \<Rightarrow> [] | Some s \<Rightarrow> str_json r s) \<in> set [''1'', ''true'', ''yes'', ''on'']
   | _ \<Rightarrow> False)"

fun split_words :: "string \<Rightarrow> string \<Rightarrow> string list" where
  "split_words acc [] = (if acc = [] then [] else [rev acc])"
| "split_words acc (c # cs) =
     (if is_space c \<or> c = CHR '','' then (if acc = [] then split_words [] cs else rev acc # split_words [] cs)
      else split_words (c # acc) cs)"

definition selected_values :: "(json \<Rightarrow> string) \<Rightarrow> json \<Rightarrow> string list" where
  "selected_values r v = (case v of
     JObj d \<Rightarrow> map fst (filter (\<lambda>(k, w). is_selected r w) d)
   | JArr xs \<Rightarrow> filter (\<lambda>s. s \<noteq> []) (map (\<lambda>x. strip (str_json r x)) xs)
   | JStr s \<Rightarrow> split_words [] s
   | _ \<Rightarrow> [])"

definition writable :: "string list" where
  "writable = [''enabled'', ''name'', ''pubkey'', ''psk'', ''tunneladdress'', ''serveraddress'', ''serverport'', ''keepalive'', ''servers'']"

definition client_payload :: "(json \<Rightarrow> string) \<Rightarrow> doc \<Rightarrow> doc" where
  "client_payload r peer = map (\<lambda>(k, v). (k, if k = ''tunneladdress'' \<or> k = ''servers''
       then JStr (join_with '','' (selected_values r v)) else v))
     (filter (\<lambda>(k, v). k \<in> set writable) peer)"

definition wireguard_peer :: "wg_api \<Rightarrow> string \<Rightarrow> (doc, wg_fw) act" where
  "wireguard_peer api uuid f =
     (if uuid = [] then (Inl (ValueError ''WireGuard peer is required''), f)
      else (case dget (wf_peers f) uuid of
        Some d \<Rightarrow> if answered api f then (Inr (client_payload (wa_str api) (wa_shown api d)), call f)
          else (Inl (ValueError ''WireGuard peer not found''), call f)
      | None \<Rightarrow> (Inl (ValueError ''WireGuard peer not found''), call f)))"

text \<open>The firewall sets the fields it has.\<close>

definition set_entry :: "string \<Rightarrow> doc \<Rightarrow> (string, doc) dict \<Rightarrow> (string, doc) dict" where
  "set_entry uuid changes d = (case dget d uuid of None \<Rightarrow> d | Some old \<Rightarrow> dput uuid (overlay changes old) d)"

definition wireguard_update_peer :: "wg_api \<Rightarrow> string \<Rightarrow> doc \<Rightarrow> (unit, wg_fw) act" where
  "wireguard_update_peer api uuid peer = post api ''WireGuard peer save''
     (\<lambda>f. f\<lparr>wf_peers := set_entry uuid (client_payload (wa_str api) peer) (wf_peers f)\<rparr>)"

definition wireguard_reconfigure :: "wg_api \<Rightarrow> (unit, wg_fw) act" where
  "wireguard_reconfigure api = post api ''WireGuard configuration generation'' id"

definition wireguard_restart :: "wg_api \<Rightarrow> string \<Rightarrow> (unit, wg_fw) act" where
  "wireguard_restart api inst f = (if inst = [] then (Inl (ValueError ''WireGuard instance is required''), f)
     else post api ''WireGuard instance restart'' id f)"

definition wireguard_status :: "wg_api \<Rightarrow> doc \<Rightarrow> (wg_status, wg_fw) act" where
  "wireguard_status api peer f =
     (case find (\<lambda>row. getn row ''type'' = JStr ''peer'' \<and> getn row ''public-key'' = getn peer ''pubkey'')
         (if answered api f then wa_rows api (wf_calls f) else []) of
        Some row \<Rightarrow> (Inr \<lparr>ws_handshake = getn row ''latest-handshake'', ws_age = getn row ''latest-handshake-age'',
          ws_status = str_or_empty (wa_str api) (getn row ''peer-status'')\<rparr>, call f)
      | None \<Rightarrow> (Inr \<lparr>ws_handshake = JNull, ws_age = JNull, ws_status = ''offline''\<rparr>, call f))"

definition gateway :: "wg_api \<Rightarrow> string \<Rightarrow> (doc option, wg_fw) act" where
  "gateway api uuid f =
     (if uuid = [] then (Inr None, f)
      else (case dget (wf_gateways f) uuid of
        Some g \<Rightarrow> if answered api f
          then (Inr (Some (case wa_live api (Suc (wf_calls f)) uuid of None \<Rightarrow> g
              | Some st \<Rightarrow> if answered api (call f) then dput ''status'' st g else g)), call (call f))
          else (Inl (ValueError ''gateway not found''), call f)
      | None \<Rightarrow> (Inl (ValueError ''gateway not found''), call f)))"

definition gateway_update :: "wg_api \<Rightarrow> string \<Rightarrow> doc \<Rightarrow> (unit, wg_fw) act" where
  "gateway_update api uuid g = sbind
     (post api ''gateway save'' (\<lambda>f. f\<lparr>wf_gateways := set_entry uuid g (wf_gateways f)\<rparr>))
     (\<lambda>_. post api ''gateway reconfigure'' id)"

section \<open>The switch\<close>

text \<open>The driver as the service uses it; opening a connection may fail as well.\<close>

record 'f wg_driver =
  dr_connect :: "(unit, 'f) act"
  dr_peer :: "string \<Rightarrow> (doc, 'f) act"
  dr_set_peer :: "string \<Rightarrow> doc \<Rightarrow> (unit, 'f) act"
  dr_reconfigure :: "(unit, 'f) act"
  dr_restart :: "string \<Rightarrow> (unit, 'f) act"
  dr_status :: "doc \<Rightarrow> (wg_status, 'f) act"
  dr_gateway :: "string \<Rightarrow> (doc option, 'f) act"
  dr_set_gateway :: "string \<Rightarrow> doc \<Rightarrow> (unit, 'f) act"

definition opnsense_driver :: "wg_api \<Rightarrow> (unit, wg_fw) act \<Rightarrow> wg_fw wg_driver" where
  "opnsense_driver api connect = \<lparr>dr_connect = connect, dr_peer = wireguard_peer api, dr_set_peer = wireguard_update_peer api,
     dr_reconfigure = wireguard_reconfigure api, dr_restart = wireguard_restart api, dr_status = wireguard_status api,
     dr_gateway = gateway api, dr_set_gateway = gateway_update api\<rparr>"

text \<open>What the switch knows when it stops: where it was, the snapshots and what it changed.\<close>

record progress =
  sp_stage :: string
  sp_before :: "doc option"
  sp_gateway :: "doc option"
  sp_changed_gateway :: bool
  sp_changed :: bool

definition started :: progress where
  "started = \<lparr>sp_stage = ''connect to OPNsense'', sp_before = None, sp_gateway = None, sp_changed_gateway = False, sp_changed = False\<rparr>"

definition on_device :: "('a, 'f) act \<Rightarrow> ('a, progress \<times> 'f) act" where
  "on_device m s = (case m (snd s) of (x, f) \<Rightarrow> (x, fst s, f))"

definition note_progress :: "(progress \<Rightarrow> progress) \<Rightarrow> (unit, progress \<times> 'f) act" where
  "note_progress g s = (Inr (), g (fst s), snd s)"

definition stage :: "string \<Rightarrow> ('a, 'f) act \<Rightarrow> ('a, progress \<times> 'f) act" where
  "stage name m = sbind (note_progress (\<lambda>p. p\<lparr>sp_stage := name\<rparr>)) (\<lambda>_. on_device m)"

definition fail_with :: "failure \<Rightarrow> ('a, 'f) act" where
  "fail_with e f = (Inl e, f)"

definition give :: "'a \<Rightarrow> ('a, 'f) act" where
  "give x f = (Inr x, f)"

definition peer_instances :: "(json \<Rightarrow> string) \<Rightarrow> doc \<Rightarrow> string list" where
  "peer_instances r before = filter (\<lambda>s. s \<noteq> []) (map strip (split_on CHR '','' (str_or_empty r (getn before ''servers''))))"

definition replacement :: "(json \<Rightarrow> string) \<Rightarrow> doc \<Rightarrow> doc \<Rightarrow> doc" where
  "replacement r cand before = dput ''pubkey'' (getn cand ''publicKey'')
     (dput ''serverport'' (JStr (str_json r (getn cand ''endpointPort'')))
       (dput ''serveraddress'' (getn cand ''endpointIp'') before))"

definition follows :: "doc \<Rightarrow> doc \<Rightarrow> string \<Rightarrow> bool" where
  "follows before g field = py_eq (getn g field) (getn before ''serveraddress'')"

text \<open>A gateway follows the peer in the fields that were exactly the old address.\<close>

definition moved_gateway :: "doc \<Rightarrow> doc \<Rightarrow> doc \<Rightarrow> doc" where
  "moved_gateway cand before g = fold (\<lambda>field h. if follows before g field then dput field (getn cand ''endpointIp'') h else h)
     [''gateway'', ''monitor''] g"

definition gateway_moves :: "doc \<Rightarrow> doc option \<Rightarrow> bool" where
  "gateway_moves before g = (case g of None \<Rightarrow> False | Some g \<Rightarrow> g \<noteq> [] \<and> list_ex (follows before g) [''gateway'', ''monitor''])"

fun await :: "'f wg_driver \<Rightarrow> doc \<Rightarrow> int \<Rightarrow> nat \<Rightarrow> (bool, progress \<times> 'f) act" where
  "await drv peer start 0 = give False"
| "await drv peer start (Suc n) = sbind (on_device (dr_status drv peer)) (\<lambda>live.
     if \<not> truthy (ws_handshake live) then await drv peer start n
     else (case int_of_json (ws_handshake live) of
       Inl e \<Rightarrow> fail_with e
     | Inr t \<Rightarrow> if start \<le> t then give True else await drv peer start n))"

definition save_switch :: "'f wg_driver \<Rightarrow> (json \<Rightarrow> string) \<Rightarrow> vprofile \<Rightarrow> doc \<Rightarrow> doc \<Rightarrow> doc option \<Rightarrow> (unit, progress \<times> 'f) act" where
  "save_switch drv r p cand before g =
     sbind (note_progress (\<lambda>s. s\<lparr>sp_changed_gateway := gateway_moves before g\<rparr>)) (\<lambda>_.
     sbind (stage ''save the replacement WireGuard peer'' (dr_set_peer drv (vp_peer p) (replacement r cand before))) (\<lambda>_.
     sbind (note_progress (\<lambda>s. s\<lparr>sp_changed := True\<rparr>)) (\<lambda>_.
     if gateway_moves before g
     then stage ''save the associated gateway'' (dr_set_gateway drv (vp_gateway p) (moved_gateway cand before (the g)))
     else give ())))"

definition apply_switch :: "'f wg_driver \<Rightarrow> (json \<Rightarrow> string) \<Rightarrow> vprofile \<Rightarrow> doc \<Rightarrow> int \<Rightarrow> (unit, progress \<times> 'f) act" where
  "apply_switch drv r p cand start =
     sbind (stage ''connect to OPNsense'' (dr_connect drv)) (\<lambda>_.
     sbind (stage ''read the WireGuard peer'' (dr_peer drv (vp_peer p))) (\<lambda>before.
     sbind (note_progress (\<lambda>s. s\<lparr>sp_before := Some before\<rparr>)) (\<lambda>_.
     sbind (stage ''validate the WireGuard peer association'' (give ())) (\<lambda>_.
     if peer_instances r before \<noteq> [] \<and> vp_instance p \<notin> set (peer_instances r before)
     then fail_with (ValueError ''selected WireGuard instance is not associated with the selected peer'')
     else
     sbind (stage ''read the associated gateway'' (if vp_gateway p = [] then give None else dr_gateway drv (vp_gateway p))) (\<lambda>g.
     sbind (note_progress (\<lambda>s. s\<lparr>sp_gateway := g\<rparr>)) (\<lambda>_.
     sbind (save_switch drv r p cand before g) (\<lambda>_.
     sbind (stage ''regenerate the WireGuard configuration'' (dr_reconfigure drv)) (\<lambda>_.
     sbind (stage ''restart the WireGuard instance'' (dr_restart drv (vp_instance p))) (\<lambda>_.
     sbind (stage ''verify a new WireGuard handshake'' (give ())) (\<lambda>_.
     sbind (await drv (replacement r cand before) start 6) (\<lambda>verified.
     if verified then give () else fail_with (RuntimeError ''no recent authenticated WireGuard handshake after switch''))))))))))))"

text \<open>The rollback; the last step only observes.\<close>

definition restore :: "'f wg_driver \<Rightarrow> vprofile \<Rightarrow> progress \<Rightarrow> (doc, 'f) act" where
  "restore drv p s = sbind (dr_connect drv) (\<lambda>_.
     case sp_before s of
       None \<Rightarrow> fail_with (RuntimeError ''no peer snapshot available for rollback'')
     | Some before \<Rightarrow>
         sbind (dr_set_peer drv (vp_peer p) before) (\<lambda>_.
         sbind (case (sp_changed_gateway s, sp_gateway s) of
             (True, Some g) \<Rightarrow> dr_set_gateway drv (vp_gateway p) g | _ \<Rightarrow> give ()) (\<lambda>_.
         sbind (dr_reconfigure drv) (\<lambda>_.
         sbind (dr_restart drv (vp_instance p)) (\<lambda>_. give before)))))"

record switch_result =
  sr_ok :: bool
  sr_rollback :: "bool option"
  sr_changed_gateway :: bool
  sr_message :: string

definition failed_message :: "bool option \<Rightarrow> bool \<Rightarrow> string" where
  "failed_message rollback handshake = (case rollback of
     None \<Rightarrow> ''Endpoint change was not applied, so the existing OPNsense configuration was left unchanged. Check the selected WireGuard instance and peer in Settings.''
   | Some True \<Rightarrow> ''Endpoint verification failed; the previous configuration was restored.'' @
       (if handshake then [] else '' A restored-tunnel handshake has not yet been observed.'')
   | Some False \<Rightarrow> ''Endpoint verification and rollback failed. Diagnostic details were recorded in Logs.'')"

definition roll_back :: "'f wg_driver \<Rightarrow> vprofile \<Rightarrow> progress \<Rightarrow> 'f \<Rightarrow> (bool option \<times> bool) \<times> 'f" where
  "roll_back drv p s f =
     (if \<not> sp_changed s then ((None, False), f)
      else (case restore drv p s f of
        (Inl _, f1) \<Rightarrow> ((Some False, False), f1)
      | (Inr before, f1) \<Rightarrow> (case dr_status drv before f1 of
          (Inl _, f2) \<Rightarrow> ((Some True, False), f2)
        | (Inr st, f2) \<Rightarrow> ((Some True, truthy (ws_handshake st)), f2))))"

definition run_switch :: "'f wg_driver \<Rightarrow> (json \<Rightarrow> string) \<Rightarrow> vprofile \<Rightarrow> doc \<Rightarrow> int \<Rightarrow> 'f \<Rightarrow> switch_result \<times> 'f" where
  "run_switch drv r p cand start f = (case apply_switch drv r p cand start (started, f) of
     (Inr _, s, f1) \<Rightarrow> (\<lparr>sr_ok = True, sr_rollback = None, sr_changed_gateway = sp_changed_gateway s,
        sr_message = ''Endpoint switched and authenticated handshake verified.''\<rparr>, f1)
   | (Inl _, s, f1) \<Rightarrow> (case roll_back drv p s f1 of ((rb, hs), f2) \<Rightarrow>
        (\<lparr>sr_ok = False, sr_rollback = rb, sr_changed_gateway = sp_changed_gateway s, sr_message = failed_message rb hs\<rparr>, f2)))"

text \<open>The checks before it, and the event after it.\<close>

definition malformed :: failure where
  "malformed = ValueError ''replacement candidate is malformed''"

definition candidate_ok :: "(json \<Rightarrow> bool) \<Rightarrow> doc \<Rightarrow> unit result" where
  "candidate_ok valid_ip cand =
     (if dget cand ''endpointIp'' = None \<or> \<not> valid_ip (getn cand ''endpointIp'') \<or> dget cand ''endpointPort'' = None then Inl malformed
      else (case int_of_json (getn cand ''endpointPort'') of
        Inl e \<Rightarrow> if is_caught e then Inl malformed else Inl e
      | Inr n \<Rightarrow> if 1 \<le> n \<and> n \<le> 65535 \<and> truthy (getn cand ''publicKey'') then Inr () else Inl malformed))"

definition switchable :: "vpy \<Rightarrow> (json \<Rightarrow> bool) \<Rightarrow> string \<Rightarrow> string \<Rightarrow> string \<Rightarrow> bool \<Rightarrow> string option \<Rightarrow> vdoc \<Rightarrow> (vprofile \<times> doc) result" where
  "switchable py valid_ip owner dev cid confirmed pid d =
     (if \<not> confirmed then Inl (ValueError ''explicit confirmation is required before switching'')
      else rbind (owned owner dev d) (\<lambda>v. rbind (profiles_of (py_str py) (py_fresh py) v) (\<lambda>ps.
        rbind (selected_profile ps pid) (\<lambda>p0.
        if \<not> vp_enabled p0 \<or> vp_peer p0 = [] then Inl (ValueError ''endpoint management is not configured and enabled'')
        else (let (rec, p) = normalise_record (py_str py) p0 (history_of d owner dev) in
          case find (\<lambda>c. getn c ''candidateId'' = JStr cid) (vd_candidates (profile_discovery (vp_id p) rec)) of
            None \<Rightarrow> Inl (ValueError ''only a current preferred or eligible candidate can be switched to'')
          | Some cand \<Rightarrow>
              if normalise_classification (py_str py) (getn cand ''classification'') \<notin> set [''Preferred'', ''Eligible'']
              then Inl (ValueError ''only a current preferred or eligible candidate can be switched to'')
              else rbind (candidate_ok valid_ip cand) (\<lambda>_. Inr (p, cand)))))))"

definition switch ::
  "vpy \<Rightarrow> (json \<Rightarrow> bool) \<Rightarrow> 'f wg_driver \<Rightarrow> string \<Rightarrow> string \<Rightarrow> string \<Rightarrow> bool \<Rightarrow> string option \<Rightarrow> int \<Rightarrow> int \<Rightarrow> vdoc \<Rightarrow> 'f \<Rightarrow>
   switch_result result \<times> vdoc \<times> 'f" where
  "switch py valid_ip drv owner dev cid confirmed pid start now d f =
     (case switchable py valid_ip owner dev cid confirmed pid d of
        Inl e \<Rightarrow> (Inl e, d, f)
      | Inr (p, cand) \<Rightarrow> (case run_switch drv (py_str py) p cand start f of
          (res, f') \<Rightarrow> (Inr res, audit owner dev (vp_id p) cid (sr_ok res) (sr_rollback res) now d, f')))"

section \<open>Reasoning about sequences of requests\<close>

definition spec :: "('s \<Rightarrow> bool) \<Rightarrow> ('a, 's) act \<Rightarrow> ('a \<Rightarrow> 's \<Rightarrow> bool) \<Rightarrow> ('s \<Rightarrow> bool) \<Rightarrow> bool" where
  "spec P m Q E \<longleftrightarrow> (\<forall>s y s'. P s \<longrightarrow> m s = (Inr y, s') \<longrightarrow> Q y s') \<and> (\<forall>s e s'. P s \<longrightarrow> m s = (Inl e, s') \<longrightarrow> E s')"

lemma specI: "(\<And>s y s'. P s \<Longrightarrow> m s = (Inr y, s') \<Longrightarrow> Q y s') \<Longrightarrow> (\<And>s e s'. P s \<Longrightarrow> m s = (Inl e, s') \<Longrightarrow> E s') \<Longrightarrow> spec P m Q E"
  by (auto simp: spec_def)

lemma specD: "spec P m Q E \<Longrightarrow> P s \<Longrightarrow> m s = (Inr y, s') \<Longrightarrow> Q y s'"
  and specD_error: "spec P m Q E \<Longrightarrow> P s \<Longrightarrow> m s = (Inl e, s') \<Longrightarrow> E s'"
  by (auto simp: spec_def)

lemma spec_bind: "spec P m R E \<Longrightarrow> (\<And>y. spec (R y) (k y) Q E) \<Longrightarrow> spec P (sbind m k) Q E"
  unfolding spec_def sbind_def by (fastforce split: prod.splits sum.splits)

lemma spec_pre: "spec P m Q E \<Longrightarrow> (\<And>s. P' s \<Longrightarrow> P s) \<Longrightarrow> spec P' m Q E"
  unfolding spec_def by blast

lemma spec_give: "(\<And>s. P s \<Longrightarrow> Q y s) \<Longrightarrow> spec P (give y) Q E"
  by (auto simp: spec_def give_def)

lemma spec_fail: "(\<And>s. P s \<Longrightarrow> E s) \<Longrightarrow> spec P (fail_with e) Q E"
  by (auto simp: spec_def fail_with_def)

lemma spec_if: "spec P m Q E \<Longrightarrow> spec P n Q E \<Longrightarrow> spec P (if c then m else n) Q E"
  by simp

lemma spec_note: "(\<And>s f. P (s, f) \<Longrightarrow> Q () (g s, f)) \<Longrightarrow> spec P (note_progress g) Q E"
  by (auto simp: spec_def note_progress_def)

lemma spec_device:
  "(\<And>s f y f'. P (s, f) \<Longrightarrow> m f = (Inr y, f') \<Longrightarrow> Q y (s, f')) \<Longrightarrow>
   (\<And>s f e f'. P (s, f) \<Longrightarrow> m f = (Inl e, f') \<Longrightarrow> E (s, f')) \<Longrightarrow> spec P (on_device m) Q E"
  by (auto simp: spec_def on_device_def split: prod.splits sum.splits)

lemma spec_stage:
  "(\<And>s f y f'. P (s, f) \<Longrightarrow> m f = (Inr y, f') \<Longrightarrow> Q y (s\<lparr>sp_stage := name\<rparr>, f')) \<Longrightarrow>
   (\<And>s f e f'. P (s, f) \<Longrightarrow> m f = (Inl e, f') \<Longrightarrow> E (s\<lparr>sp_stage := name\<rparr>, f')) \<Longrightarrow> spec P (stage name m) Q E"
  unfolding stage_def
  by (rule spec_bind [where R = "\<lambda>_ (s, f). \<exists>s0. s = s0\<lparr>sp_stage := name\<rparr> \<and> P (s0, f)"])
    (auto intro!: spec_note spec_device)

lemma spec_post: "(\<And>y s. Q y s \<Longrightarrow> Q' y s) \<Longrightarrow> spec P m Q E \<Longrightarrow> spec P m Q' E"
  by (auto simp: spec_def)

section \<open>The contract of the driver\<close>

definition change_at :: "string \<Rightarrow> (doc \<Rightarrow> doc) \<Rightarrow> (string \<Rightarrow> doc option) \<Rightarrow> string \<Rightarrow> doc option" where
  "change_at u g m = m(u := map_option g (m u))"

definition covers :: "doc \<Rightarrow> doc \<Rightarrow> bool" where
  "covers g c \<longleftrightarrow> list_all (\<lambda>(k, v). dget g k = Some v) c"

lemma overlay_keys: "dkeys (overlay d base) = dkeys base"
  by (auto simp: overlay_def)

lemma overlay_restores: "covers g c \<Longrightarrow> overlay g (overlay d c) = c"
  by (auto simp: overlay_def covers_def list_all_iff intro!: map_idI split: option.splits)

lemma covers_self: "dict_ok d \<Longrightarrow> covers d d"
  by (auto simp: covers_def list_all_iff dget_mem_iff)

lemma change_restores: "m u = Some c \<Longrightarrow> covers g c \<Longrightarrow> change_at u (overlay g) (change_at u (overlay d) m) = m"
  by (auto simp: change_at_def overlay_restores fun_eq_iff)

lemma change_covered: "m u = Some c \<Longrightarrow> covers g c \<Longrightarrow> change_at u (overlay g) m = m"
  using overlay_restores [of g c "[]"] by (auto simp: change_at_def fun_eq_iff overlay_def)

locale wireguard_api =
  fixes drv :: "'f wg_driver"
    and peers :: "'f \<Rightarrow> string \<Rightarrow> doc option"
    and gateways :: "'f \<Rightarrow> string \<Rightarrow> doc option"
    and good :: "'f \<Rightarrow> bool"
    and normal :: "doc \<Rightarrow> bool"
  assumes connect_keeps: "dr_connect drv f = (x, f') \<Longrightarrow> good f \<Longrightarrow> good f' \<and> peers f' = peers f \<and> gateways f' = gateways f"
    and peer_keeps: "dr_peer drv u f = (y, f') \<Longrightarrow> good f \<Longrightarrow> good f' \<and> peers f' = peers f \<and> gateways f' = gateways f"
    and status_keeps: "dr_status drv d f = (z, f') \<Longrightarrow> good f \<Longrightarrow> good f' \<and> peers f' = peers f \<and> gateways f' = gateways f"
    and gateway_keeps: "dr_gateway drv u f = (g, f') \<Longrightarrow> good f \<Longrightarrow> good f' \<and> peers f' = peers f \<and> gateways f' = gateways f"
    and reconfigure_keeps: "dr_reconfigure drv f = (x, f') \<Longrightarrow> good f \<Longrightarrow> good f' \<and> peers f' = peers f \<and> gateways f' = gateways f"
    and restart_keeps: "dr_restart drv u f = (x, f') \<Longrightarrow> good f \<Longrightarrow> good f' \<and> peers f' = peers f \<and> gateways f' = gateways f"
    and peer_reads: "dr_peer drv u f = (Inr d, f') \<Longrightarrow> good f \<Longrightarrow> peers f u = Some d \<and> normal d"
    and gateway_reads: "dr_gateway drv u f = (Inr (Some h), f') \<Longrightarrow> good f \<Longrightarrow> \<exists>c. gateways f u = Some c \<and> covers h c"
    and set_peer: "dr_set_peer drv u d f = (x, f') \<Longrightarrow> good f \<Longrightarrow> normal d \<Longrightarrow>
      good f' \<and> gateways f' = gateways f \<and> (peers f' = change_at u (overlay d) (peers f) \<or> is_error x \<and> peers f' = peers f)"
    and set_gateway: "dr_set_gateway drv u h f = (x, f') \<Longrightarrow> good f \<Longrightarrow>
      good f' \<and> peers f' = peers f \<and> (gateways f' = change_at u (overlay h) (gateways f) \<or> is_error x \<and> gateways f' = gateways f)"
    and normal_dict: "normal d \<Longrightarrow> dict_ok d"
    and normal_put: "normal d \<Longrightarrow> k \<in> set [''serveraddress'', ''serverport'', ''pubkey''] \<Longrightarrow> normal (dput k v d)"
begin

lemma normal_replacement: "normal before \<Longrightarrow> normal (replacement r cand before)"
  by (simp add: replacement_def normal_put)

definition untouched :: "'f \<Rightarrow> progress \<times> 'f \<Rightarrow> bool" where
  "untouched f0 = (\<lambda>(s, f). good f \<and> \<not> sp_changed s \<and> peers f = peers f0 \<and> gateways f = gateways f0)"

definition known :: "'f \<Rightarrow> vprofile \<Rightarrow> doc \<Rightarrow> bool" where
  "known f0 p before \<longleftrightarrow> peers f0 (vp_peer p) = Some before \<and> normal before"

definition gateway_known :: "'f \<Rightarrow> vprofile \<Rightarrow> doc option \<Rightarrow> bool" where
  "gateway_known f0 p g \<longleftrightarrow> (\<forall>h. g = Some h \<longrightarrow> (\<exists>c. gateways f0 (vp_gateway p) = Some c \<and> covers h c))"

definition moved :: "'f \<Rightarrow> (json \<Rightarrow> string) \<Rightarrow> vprofile \<Rightarrow> doc \<Rightarrow> doc \<Rightarrow> 'f \<Rightarrow> bool" where
  "moved f0 r p cand before f \<longleftrightarrow> peers f = change_at (vp_peer p) (overlay (replacement r cand before)) (peers f0)"

definition gateway_moved :: "'f \<Rightarrow> vprofile \<Rightarrow> doc \<Rightarrow> doc \<Rightarrow> doc option \<Rightarrow> 'f \<Rightarrow> bool" where
  "gateway_moved f0 p cand before g f \<longleftrightarrow>
     gateways f = change_at (vp_gateway p) (overlay (moved_gateway cand before (the g))) (gateways f0)"

text \<open>After a failure: nothing changed, the first save was lost on the way back, or there is a snapshot.\<close>

definition failed_state :: "'f \<Rightarrow> (json \<Rightarrow> string) \<Rightarrow> vprofile \<Rightarrow> doc \<Rightarrow> progress \<times> 'f \<Rightarrow> bool" where
  "failed_state f0 r p cand = (\<lambda>(s, f). good f \<and>
     (if sp_changed s
      then \<exists>before g. known f0 p before \<and> gateway_known f0 p g \<and> sp_before s = Some before \<and> sp_gateway s = g \<and>
        sp_changed_gateway s = gateway_moves before g \<and> moved f0 r p cand before f \<and>
        (gateways f = gateways f0 \<or> gateway_moves before g \<and> gateway_moved f0 p cand before g f)
      else gateways f = gateways f0 \<and>
        (peers f = peers f0 \<or> (\<exists>before. known f0 p before \<and> moved f0 r p cand before f))))"

definition done_state :: "'f \<Rightarrow> (json \<Rightarrow> string) \<Rightarrow> vprofile \<Rightarrow> doc \<Rightarrow> doc \<Rightarrow> doc option \<Rightarrow> progress \<times> 'f \<Rightarrow> bool" where
  "done_state f0 r p cand before g = (\<lambda>(s, f). good f \<and> sp_changed s \<and> known f0 p before \<and> gateway_known f0 p g \<and>
     sp_before s = Some before \<and> sp_gateway s = g \<and> sp_changed_gateway s = gateway_moves before g \<and> moved f0 r p cand before f \<and>
     (if gateway_moves before g then gateway_moved f0 p cand before g f else gateways f = gateways f0))"

lemma done_failed: "done_state f0 r p cand before g s \<Longrightarrow> failed_state f0 r p cand s"
  by (auto simp: done_state_def failed_state_def split: if_splits)

lemma untouched_failed: "untouched f0 s \<Longrightarrow> failed_state f0 r p cand s"
  by (auto simp: untouched_def failed_state_def)

lemma keeps_done:
  assumes "\<And>f x f'. m f = (x, f') \<Longrightarrow> good f \<Longrightarrow> good f' \<and> peers f' = peers f \<and> gateways f' = gateways f"
  shows "spec (done_state f0 r p cand before g) (stage name m) (\<lambda>_. done_state f0 r p cand before g) (failed_state f0 r p cand)"
  using assms by (intro spec_stage done_failed)
    (fastforce simp: done_state_def moved_def gateway_moved_def)+

lemma save_switch_spec:
  "spec (\<lambda>(s, f). untouched f0 (s, f) \<and> known f0 p before \<and> gateway_known f0 p g \<and> sp_before s = Some before \<and> sp_gateway s = g)
     (save_switch drv r p cand before g) (\<lambda>_. done_state f0 r p cand before g) (failed_state f0 r p cand)"
proof -
  let ?A = "\<lambda>(s, f). untouched f0 (s, f) \<and> known f0 p before \<and> gateway_known f0 p g \<and> sp_before s = Some before \<and> sp_gateway s = g \<and>
      sp_changed_gateway s = gateway_moves before g"
  let ?B = "\<lambda>_ (s, f). good f \<and> moved f0 r p cand before f \<and> gateways f = gateways f0 \<and> known f0 p before \<and> gateway_known f0 p g \<and>
      sp_before s = Some before \<and> sp_gateway s = g \<and> sp_changed_gateway s = gateway_moves before g"
  let ?C = "\<lambda>_ (s, f). ?B () (s, f) \<and> sp_changed s"
  let ?F = "failed_state f0 r p cand"
  have "spec ?A (stage ''save the replacement WireGuard peer'' (dr_set_peer drv (vp_peer p) (replacement r cand before))) ?B ?F"
  proof (rule spec_stage)
    fix s :: progress and f y f' assume a: "?A (s, f)" and m: "dr_set_peer drv (vp_peer p) (replacement r cand before) f = (Inr y, f')"
    have "normal (replacement r cand before)" using a by (auto simp: known_def normal_replacement)
    then show "?B y (s\<lparr>sp_stage := ''save the replacement WireGuard peer''\<rparr>, f')"
      using set_peer [OF m] a by (auto simp: untouched_def moved_def)
  next
    fix s :: progress and f e f' assume a: "?A (s, f)" and m: "dr_set_peer drv (vp_peer p) (replacement r cand before) f = (Inl e, f')"
    have "normal (replacement r cand before)" using a by (auto simp: known_def normal_replacement)
    then show "?F (s\<lparr>sp_stage := ''save the replacement WireGuard peer''\<rparr>, f')"
      using set_peer [OF m] a by (auto simp: untouched_def moved_def failed_state_def)
  qed
  moreover have "spec (?C ()) (if gateway_moves before g
       then stage ''save the associated gateway'' (dr_set_gateway drv (vp_gateway p) (moved_gateway cand before (the g))) else give ())
     (\<lambda>_. done_state f0 r p cand before g) ?F"
  proof (cases "gateway_moves before g")
    case True
    have "spec (?C ()) (stage ''save the associated gateway'' (dr_set_gateway drv (vp_gateway p) (moved_gateway cand before (the g))))
     (\<lambda>_. done_state f0 r p cand before g) ?F"
    proof (rule spec_stage)
      fix s :: progress and f y f' assume "?C () (s, f)" "dr_set_gateway drv (vp_gateway p) (moved_gateway cand before (the g)) f = (Inr y, f')"
      then show "done_state f0 r p cand before g (s\<lparr>sp_stage := ''save the associated gateway''\<rparr>, f')"
        using set_gateway True by (fastforce simp: done_state_def moved_def gateway_moved_def)
    next
      fix s :: progress and f e f' assume "?C () (s, f)" "dr_set_gateway drv (vp_gateway p) (moved_gateway cand before (the g)) f = (Inl e, f')"
      then show "?F (s\<lparr>sp_stage := ''save the associated gateway''\<rparr>, f')"
        using set_gateway True by (fastforce simp: failed_state_def moved_def gateway_moved_def)
    qed
    with True show ?thesis by simp
  next
    case False
    then show ?thesis by (auto intro!: spec_give simp: done_state_def)
  qed
  ultimately show ?thesis unfolding save_switch_def
    by (intro spec_bind [where R = "\<lambda>_. ?A"] spec_bind [where R = ?B] spec_bind [where R = ?C]) (auto intro!: spec_note simp: untouched_def)
qed

lemma await_spec:
  "spec (done_state f0 r p cand before g) (await drv peer start n) (\<lambda>_. done_state f0 r p cand before g) (failed_state f0 r p cand)"
proof (induction n)
  case 0
  then show ?case by (auto intro: spec_give)
next
  case (Suc n)
  have "spec (done_state f0 r p cand before g) (on_device (dr_status drv peer)) (\<lambda>_. done_state f0 r p cand before g) (failed_state f0 r p cand)"
    by (rule spec_device) (fastforce simp: done_state_def moved_def gateway_moved_def dest: status_keeps intro!: done_failed)+
  moreover have "spec (done_state f0 r p cand before g) (if \<not> truthy (ws_handshake live) then await drv peer start n
     else (case int_of_json (ws_handshake live) of
       Inl e \<Rightarrow> fail_with e | Inr t \<Rightarrow> if start \<le> t then give True else await drv peer start n))
     (\<lambda>_. done_state f0 r p cand before g) (failed_state f0 r p cand)" for live
    using Suc by (auto intro: spec_give spec_fail done_failed split: sum.split)
  ultimately show ?case by (auto intro: spec_bind)
qed

lemma untouched_keeps:
  assumes "\<And>f x f'. m f = (x, f') \<Longrightarrow> good f \<Longrightarrow> good f' \<and> peers f' = peers f \<and> gateways f' = gateways f"
    and "\<And>s f y f'. untouched f0 (s, f) \<Longrightarrow> K (s, f) \<Longrightarrow> m f = (Inr y, f') \<Longrightarrow> Q y (s\<lparr>sp_stage := name\<rparr>, f')"
  shows "spec (\<lambda>s. untouched f0 s \<and> K s) (stage name m) (\<lambda>y s. untouched f0 s \<and> Q y s) (failed_state f0 r p cand)"
  using assms by (intro spec_stage untouched_failed) (fastforce simp: untouched_def)+

lemma apply_switch_spec:
  "spec (untouched f0) (apply_switch drv r p cand start) (\<lambda>_ s. \<exists>before g. done_state f0 r p cand before g s) (failed_state f0 r p cand)"
proof -
  let ?F = "failed_state f0 r p cand"
  let ?U = "\<lambda>s. untouched f0 s \<and> True"
  let ?K = "\<lambda>before (s, f). known f0 p before"
  let ?B = "\<lambda>before (s, f). known f0 p before \<and> sp_before s = Some before"
  let ?G = "\<lambda>before g (s, f). known f0 p before \<and> sp_before s = Some before \<and> gateway_known f0 p g"
  let ?D = "\<lambda>before g. done_state f0 r p cand before g"
  have connect: "spec (untouched f0) (stage ''connect to OPNsense'' (dr_connect drv)) (\<lambda>_. ?U) ?F"
    by (rule spec_pre [OF untouched_keeps [OF connect_keeps, where K = "\<lambda>_. True" and Q = "\<lambda>_ _. True"]]) auto
  have read: "spec ?U (stage ''read the WireGuard peer'' (dr_peer drv (vp_peer p))) (\<lambda>before s. untouched f0 s \<and> ?K before s) ?F"
    by (rule untouched_keeps [OF peer_keeps]) (auto simp: untouched_def known_def dest: peer_reads)
  have note_before: "spec (\<lambda>s. untouched f0 s \<and> ?K before s) (note_progress (\<lambda>s. s\<lparr>sp_before := Some before\<rparr>)) (\<lambda>_ s. untouched f0 s \<and> ?B before s) ?F" for before
    by (rule spec_note) (auto simp: untouched_def)
  have check: "spec (\<lambda>s. untouched f0 s \<and> ?B before s) (stage name (give ())) (\<lambda>_ s. untouched f0 s \<and> ?B before s) ?F" for before name
    by (rule untouched_keeps) (auto simp: give_def)
  have none: "spec (\<lambda>s. untouched f0 s \<and> ?B before s) (stage name (give None)) (\<lambda>g s. untouched f0 s \<and> ?G before g s) ?F" for before name
    by (rule untouched_keeps) (auto simp: give_def gateway_known_def)
  have some: "spec (\<lambda>s. untouched f0 s \<and> ?B before s) (stage name (dr_gateway drv (vp_gateway p))) (\<lambda>g s. untouched f0 s \<and> ?G before g s) ?F" for before name
    by (rule untouched_keeps [OF gateway_keeps]) (auto simp: untouched_def gateway_known_def dest: gateway_reads)
  have gateway: "spec (\<lambda>s. untouched f0 s \<and> ?B before s) (stage name (if vp_gateway p = [] then give None else dr_gateway drv (vp_gateway p)))
      (\<lambda>g s. untouched f0 s \<and> ?G before g s) ?F" for before name
    using none some by auto
  have save: "spec (\<lambda>s. untouched f0 s \<and> ?G before g s) (sbind (note_progress (\<lambda>s. s\<lparr>sp_gateway := g\<rparr>)) (\<lambda>_. save_switch drv r p cand before g))
      (\<lambda>_. ?D before g) ?F" for before g
    by (rule spec_bind [OF spec_note save_switch_spec]) (auto simp: untouched_def)
  have rest: "spec (?D before g)
     (sbind (stage ''regenerate the WireGuard configuration'' (dr_reconfigure drv)) (\<lambda>_.
     sbind (stage ''restart the WireGuard instance'' (dr_restart drv (vp_instance p))) (\<lambda>_.
     sbind (stage ''verify a new WireGuard handshake'' (give ())) (\<lambda>_.
     sbind (await drv (replacement r cand before) start 6) (\<lambda>verified.
     if verified then give () else fail_with e)))))
     (\<lambda>_ s. \<exists>before g. ?D before g s) ?F" for before g e
    by (intro spec_bind [where R = "\<lambda>_. ?D before g"] keeps_done await_spec)
      (auto intro: spec_give spec_fail done_failed simp: give_def dest: reconfigure_keeps restart_keeps)
  have tail: "spec (\<lambda>s. untouched f0 s \<and> ?G before g s)
     (sbind (note_progress (\<lambda>s. s\<lparr>sp_gateway := g\<rparr>)) (\<lambda>_. sbind (save_switch drv r p cand before g) (\<lambda>_.
       sbind (stage ''regenerate the WireGuard configuration'' (dr_reconfigure drv)) (\<lambda>_.
     sbind (stage ''restart the WireGuard instance'' (dr_restart drv (vp_instance p))) (\<lambda>_.
     sbind (stage ''verify a new WireGuard handshake'' (give ())) (\<lambda>_.
     sbind (await drv (replacement r cand before) start 6) (\<lambda>verified.
     if verified then give () else fail_with e)))))))
     (\<lambda>_ s. \<exists>before g. ?D before g s) ?F" for before g e
    by (intro spec_bind [OF spec_note spec_bind [OF save_switch_spec rest]]) (auto simp: untouched_def)
  show ?thesis unfolding apply_switch_def
    by (rule spec_bind [OF connect spec_bind [OF read spec_bind [OF note_before spec_bind [OF check]]]])
      (rule spec_if, rule spec_fail, erule untouched_failed [OF conjunct1], rule spec_bind [OF gateway tail])
qed

lemma restore_exact:
  assumes f: "failed_state f0 r p cand (s, f)" "sp_changed s" and m: "restore drv p s f = (Inr b, f')"
  shows "good f' \<and> peers f' = peers f0 \<and> gateways f' = gateways f0"
proof -
  obtain before g where k: "known f0 p before" "gateway_known f0 p g" "sp_before s = Some before" "sp_gateway s = g"
    "sp_changed_gateway s = gateway_moves before g" "moved f0 r p cand before f" "good f"
    "gateways f = gateways f0 \<or> gateway_moves before g \<and> gateway_moved f0 p cand before g f"
    using f by (auto simp: failed_state_def)
  have n: "normal before" "peers f0 (vp_peer p) = Some before" using k(1) by (auto simp: known_def)
  note cov = covers_self [OF normal_dict [OF n(1)]]
  let ?set = "case (sp_changed_gateway s, sp_gateway s) of (True, Some g) \<Rightarrow> dr_set_gateway drv (vp_gateway p) g | _ \<Rightarrow> give ()"
  from m obtain f1 f2 f3 f4 x1 x2 x3 x4 where c: "dr_connect drv f = (x1, f1)" "dr_set_peer drv (vp_peer p) before f1 = (Inr x2, f2)"
    "?set f2 = (Inr x3, f3)" "dr_reconfigure drv f3 = (x4, f4)" "\<exists>x5. dr_restart drv (vp_instance p) f4 = (x5, f')"
    unfolding restore_def k(3) option.case sbind_def give_def by (fastforce split: prod.splits sum.splits)
  have 1: "good f1" "peers f1 = peers f" "gateways f1 = gateways f" using connect_keeps [OF c(1) k(7)] by auto
  have 2: "good f2" "gateways f2 = gateways f" "peers f2 = peers f0"
    using set_peer [OF c(2) 1(1) n(1)] 1 k(6) change_restores [where m = "peers f0", OF n(2) cov] by (auto simp: moved_def)
  have 3: "good f3 \<and> peers f3 = peers f0 \<and> gateways f3 = gateways f0"
  proof (cases "gateway_moves before g")
    case True
    then obtain h where h: "g = Some h" by (auto simp: gateway_moves_def split: option.splits)
    then obtain q where q: "gateways f0 (vp_gateway p) = Some q" "covers h q" using k(2) by (auto simp: gateway_known_def)
    have "dr_set_gateway drv (vp_gateway p) h f2 = (Inr x3, f3)" using c(3) k(4,5) True h by simp
    from set_gateway [OF this 2(1)] show ?thesis
      using 2 k(8) h change_restores [where m = "gateways f0", OF q] change_covered [where m = "gateways f0", OF q]
      by (auto simp: gateway_moved_def)
  next
    case False
    then show ?thesis using c(3) k(5,8) 2 by (auto simp: give_def)
  qed
  have 4: "good f4 \<and> peers f4 = peers f0 \<and> gateways f4 = gateways f0" using reconfigure_keeps [OF c(4)] 3 by auto
  from c(5) obtain x5 where "dr_restart drv (vp_instance p) f4 = (x5, f')" ..
  from restart_keeps [OF this] 4 show ?thesis by auto
qed

text \<open>The result tells what became of the configuration.\<close>

lemma run_switch_safe:
  assumes g: "good f" and m: "run_switch drv r p cand start f = (res, f')"
  shows "if sr_ok res
    then \<exists>before g. peers f (vp_peer p) = Some before \<and>
      peers f' = change_at (vp_peer p) (overlay (replacement r cand before)) (peers f) \<and>
      gateways f' = (if gateway_moves before g then change_at (vp_gateway p) (overlay (moved_gateway cand before (the g))) (gateways f)
        else gateways f)
    else (case sr_rollback res of
        Some True \<Rightarrow> peers f' = peers f \<and> gateways f' = gateways f
      | None \<Rightarrow> gateways f' = gateways f \<and> (peers f' = peers f \<or> (\<exists>before. peers f (vp_peer p) = Some before \<and>
          peers f' = change_at (vp_peer p) (overlay (replacement r cand before)) (peers f)))
      | Some False \<Rightarrow> True)"
proof -
  have start_ok: "untouched f (started, f)" using g by (simp add: untouched_def started_def)
  obtain x s f1 where a: "apply_switch drv r p cand start (started, f) = (x, s, f1)" by (metis surj_pair)
  show ?thesis
  proof (cases x)
    case (Inr u)
    then obtain before h where "done_state f r p cand before h (s, f1)"
      using specD [OF apply_switch_spec start_ok] a by blast
    then show ?thesis using m a Inr
      by (auto simp: run_switch_def done_state_def known_def moved_def gateway_moved_def intro!: exI [of _ before] exI [of _ h])
  next
    case (Inl err)
    then have e: "failed_state f r p cand (s, f1)" using specD_error [OF apply_switch_spec start_ok] a by blast
    show ?thesis
    proof (cases "sp_changed s")
      case False
      then show ?thesis using m a Inl e by (auto simp: run_switch_def roll_back_def failed_state_def known_def moved_def)
    next
      case True
      obtain y f2 where r: "restore drv p s f1 = (y, f2)" by fastforce
      show ?thesis
      proof (cases y)
        case (Inl z)
        then show ?thesis using m a \<open>x = Inl err\<close> True r by (auto simp: run_switch_def roll_back_def)
      next
        case (Inr b)
        then have k: "good f2 \<and> peers f2 = peers f \<and> gateways f2 = gateways f" using restore_exact [OF e True] r by blast
        obtain z f3 where st: "dr_status drv b f2 = (z, f3)" by fastforce
        then have "good f3 \<and> peers f3 = peers f \<and> gateways f3 = gateways f" using status_keeps [OF st] k by auto
        then show ?thesis using m a Inl True r Inr st by (auto simp: run_switch_def roll_back_def split: sum.splits)
      qed
    qed
  qed
qed

end

section \<open>The firewall keeps the contract\<close>

definition wg_normal :: "(json \<Rightarrow> string) \<Rightarrow> doc \<Rightarrow> bool" where
  "wg_normal r d \<longleftrightarrow> dict_ok d \<and> client_payload r d = d"

definition wg_good :: "wg_api \<Rightarrow> wg_fw \<Rightarrow> bool" where
  "wg_good api f \<longleftrightarrow> (\<forall>d. wg_normal (wa_str api) d \<longrightarrow> client_payload (wa_str api) (wa_shown api d) = d) \<and>
     (\<forall>u d. dget (wf_peers f) u = Some d \<longrightarrow> wg_normal (wa_str api) d) \<and>
     (\<forall>u g. dget (wf_gateways f) u = Some g \<longrightarrow> dict_ok g \<and> dget g ''status'' = None)"

definition normal_entry :: "(json \<Rightarrow> string) \<Rightarrow> string \<Rightarrow> json \<Rightarrow> bool" where
  "normal_entry r k v \<longleftrightarrow> k \<in> set writable \<and> (k = ''tunneladdress'' \<or> k = ''servers'' \<longrightarrow> v = JStr (join_with '','' (selected_values r v)))"

lemma map_filter_id: "map g (filter P xs) = xs \<longleftrightarrow> (\<forall>x\<in>set xs. P x \<and> g x = x)"
proof
  assume e: "map g (filter P xs) = xs"
  then have "length (filter P xs) = length xs" by (metis length_map)
  then have "filter P xs = xs" by (metis filter_id_conv length_filter_less less_irrefl)
  then show "\<forall>x\<in>set xs. P x \<and> g x = x" using e by (metis filter_id_conv map_eq_conv map_idI list.map_ident)
qed (simp add: map_idI cong: filter_cong)

lemma client_payload_id: "client_payload r d = d \<longleftrightarrow> (\<forall>(k, v)\<in>set d. normal_entry r k v)"
  unfolding client_payload_def map_filter_id normal_entry_def by fastforce

lemma wg_normal_iff: "wg_normal r d \<longleftrightarrow> dict_all (normal_entry r) d"
  by (auto simp: wg_normal_def client_payload_id dict_all_def dget_mem_iff)

lemma wg_normal_put:
  "wg_normal r d \<Longrightarrow> k \<in> set [''serveraddress'', ''serverport'', ''pubkey''] \<Longrightarrow> wg_normal r (dput k v d)"
  by (auto simp: wg_normal_iff normal_entry_def writable_def intro!: dict_all_dput)

lemma dget_overlay: "dget (overlay d base) k = (case dget base k of None \<Rightarrow> None | Some v \<Rightarrow> Some (case dget d k of None \<Rightarrow> v | Some w \<Rightarrow> w))"
  by (induction base) (auto simp: overlay_def split: option.split)

lemma dict_all_overlay: "dict_all P d \<Longrightarrow> dict_all P base \<Longrightarrow> dict_all P (overlay d base)"
  unfolding dict_all_def using overlay_keys [of d base] by (auto simp: dget_overlay split: option.splits)

lemma dget_set_entry: "dget (set_entry u d m) = change_at u (overlay d) (dget m)"
  by (auto simp: set_entry_def change_at_def fun_eq_iff split: option.splits)

lemma wg_good_call [simp]: "wg_good api (call f) = wg_good api f"
  by (simp add: wg_good_def call_def)

lemma call_simps [simp]: "wf_peers (call f) = wf_peers f" "wf_gateways (call f) = wf_gateways f"
  by (simp_all add: call_def)

lemma post_keeps:
  "post api what id f = (x, f') \<Longrightarrow> wg_good api f \<Longrightarrow> wg_good api f' \<and> dget (wf_peers f') = dget (wf_peers f) \<and> dget (wf_gateways f') = dget (wf_gateways f)"
  by (auto simp: post_def split: reply.splits)

lemma set_peer_good: "wg_good api f \<Longrightarrow> wg_normal (wa_str api) d \<Longrightarrow> wg_good api (f\<lparr>wf_peers := set_entry u d (wf_peers f)\<rparr>)"
  unfolding wg_good_def by (auto simp: dget_set_entry change_at_def wg_normal_iff intro: dict_all_overlay split: if_splits)

lemma set_gateway_good: "wg_good api f \<Longrightarrow> wg_good api (f\<lparr>wf_gateways := set_entry u d (wf_gateways f)\<rparr>)"
  unfolding wg_good_def using overlay_keys by (auto simp: dget_set_entry change_at_def dget_overlay split: if_splits)

lemma update_peer_law:
  assumes "wireguard_update_peer api u d f = (x, f')" "wg_good api f" "wg_normal (wa_str api) d"
  shows "wg_good api f' \<and> dget (wf_gateways f') = dget (wf_gateways f) \<and>
    (dget (wf_peers f') = change_at u (overlay d) (dget (wf_peers f)) \<or> is_error x \<and> dget (wf_peers f') = dget (wf_peers f))"
  using assms set_peer_good [of api "call f" d u]
  by (auto simp: wireguard_update_peer_def post_def wg_normal_def dget_set_entry split: reply.splits)

lemma gateway_update_law:
  assumes m: "gateway_update api u h f = (x, f')" and g: "wg_good api f"
  shows "wg_good api f' \<and> dget (wf_peers f') = dget (wf_peers f) \<and>
    (dget (wf_gateways f') = change_at u (overlay h) (dget (wf_gateways f)) \<or> is_error x \<and> dget (wf_gateways f') = dget (wf_gateways f))"
  using m g set_gateway_good [of api "call f" u h]
  by (auto simp: gateway_update_def sbind_def post_def dget_set_entry split: reply.splits)

lemma covers_put: "dict_ok c \<Longrightarrow> dget c k = None \<Longrightarrow> covers (dput k v c) c"
  by (auto simp: covers_def list_all_iff dget_mem_iff)

lemma gateway_read:
  "gateway api u f = (Inr (Some h), f') \<Longrightarrow> wg_good api f \<Longrightarrow> \<exists>c. dget (wf_gateways f) u = Some c \<and> covers h c"
  unfolding gateway_def wg_good_def
  by (auto simp: covers_self covers_put split: if_splits option.splits)

interpretation wg: wireguard_api "opnsense_driver api (post api ''connection'' id)" "\<lambda>f. dget (wf_peers f)"
  "\<lambda>f. dget (wf_gateways f)" "wg_good api" "wg_normal (wa_str api)" for api
proof (unfold_locales, goal_cases)
  case 1
  then show ?case using post_keeps by (simp add: opnsense_driver_def)
next
  case 2
  then show ?case by (auto simp: opnsense_driver_def wireguard_peer_def split: if_splits option.splits)
next
  case 3
  then show ?case by (auto simp: opnsense_driver_def wireguard_status_def split: if_splits option.splits)
next
  case 4
  then show ?case by (auto simp: opnsense_driver_def gateway_def split: if_splits option.splits)
next
  case 5
  then show ?case using post_keeps by (simp add: opnsense_driver_def wireguard_reconfigure_def)
next
  case 6
  then show ?case using post_keeps by (auto simp: opnsense_driver_def wireguard_restart_def split: if_splits)
next
  case 7
  then show ?case by (auto simp: opnsense_driver_def wireguard_peer_def wg_good_def split: if_splits option.splits)
next
  case 8
  then show ?case using gateway_read by (simp add: opnsense_driver_def)
next
  case 9
  then show ?case using update_peer_law by (simp add: opnsense_driver_def)
next
  case 10
  then show ?case using gateway_update_law by (simp add: opnsense_driver_def)
next
  case 11
  then show ?case by (simp add: wg_normal_def)
next
  case 12
  then show ?case by (rule wg_normal_put)
qed


section \<open>What the result of a switch tells\<close>

definition switch_left :: "(json \<Rightarrow> string) \<Rightarrow> vprofile \<Rightarrow> doc \<Rightarrow> wg_fw \<Rightarrow> switch_result \<Rightarrow> wg_fw \<Rightarrow> bool" where
  "switch_left r p cand f res f' \<longleftrightarrow> (if sr_ok res
    then \<exists>before g. dget (wf_peers f) (vp_peer p) = Some before \<and>
      dget (wf_peers f') = change_at (vp_peer p) (overlay (replacement r cand before)) (dget (wf_peers f)) \<and>
      dget (wf_gateways f') = (if gateway_moves before g
        then change_at (vp_gateway p) (overlay (moved_gateway cand before (the g))) (dget (wf_gateways f))
        else dget (wf_gateways f))
    else (case sr_rollback res of
        Some True \<Rightarrow> dget (wf_peers f') = dget (wf_peers f) \<and> dget (wf_gateways f') = dget (wf_gateways f)
      | None \<Rightarrow> dget (wf_gateways f') = dget (wf_gateways f) \<and> (dget (wf_peers f') = dget (wf_peers f) \<or>
          (\<exists>before. dget (wf_peers f) (vp_peer p) = Some before \<and>
            dget (wf_peers f') = change_at (vp_peer p) (overlay (replacement r cand before)) (dget (wf_peers f))))
      | Some False \<Rightarrow> True))"


section \<open>An example switch\<close>

definition sample_candidate :: doc where
  "sample_candidate = [(''profileId'', JStr ''p1''), (''candidateId'', JStr ''c1''), (''endpointIp'', JStr ''203.0.113.9''),
     (''endpointPort'', JInt 99), (''publicKey'', JStr ''newkey''), (''classification'', JStr ''Preferred'')]"

definition sample_switchable :: vdoc where
  "sample_switchable = put_history ''ann'' ''fw''
     (put_discovery ''p1'' \<lparr>vd_candidates = [sample_candidate], vd_at = JInt 1, vd_poll = JNull\<rparr> empty_record) sample_configured"

definition sample_fw :: wg_fw where
  "sample_fw = \<lparr>wf_peers = [(''peer'', [(''enabled'', JStr ''1''), (''pubkey'', JStr ''oldkey''), (''serveraddress'', JStr ''198.51.100.7''),
       (''serverport'', JStr ''99''), (''servers'', JStr ''wg0'')])], wf_gateways = [], wf_calls = 0\<rparr>"

text \<open>The requests are numbered: 0 connects, 1 reads, 2 saves the peer, 3 regenerates and 4 restarts.\<close>

definition sample_api :: "(nat \<Rightarrow> reply) \<Rightarrow> wg_api" where
  "sample_api net = \<lparr>wa_str = (\<lambda>_. []), wa_net = net, wa_shown = id,
     wa_rows = (\<lambda>_. [[(''type'', JStr ''peer''), (''public-key'', JStr ''newkey''), (''latest-handshake'', JInt 100)]]), wa_live = (\<lambda>_ _. None)\<rparr>"

definition sample_switch :: "(nat \<Rightarrow> reply) \<Rightarrow> switch_result result \<times> vdoc \<times> wg_fw" where
  "sample_switch net = switch sample_vpy (\<lambda>_. True) (opnsense_driver (sample_api net) (post (sample_api net) ''connection'' id))
     ''ann'' ''fw'' ''c1'' True None 90 91 sample_switchable sample_fw"

definition outcome_of :: "switch_result result \<times> vdoc \<times> wg_fw \<Rightarrow> (bool \<times> bool option \<times> (string, doc) dict) option" where
  "outcome_of x = (case x of (Inr res, _, f) \<Rightarrow> Some (sr_ok res, sr_rollback res, wf_peers f) | _ \<Rightarrow> None)"

definition sample_peer :: "string \<Rightarrow> string \<Rightarrow> (string, doc) dict" where
  "sample_peer key address = [(''peer'', [(''enabled'', JStr ''1''), (''pubkey'', JStr key), (''serveraddress'', JStr address),
     (''serverport'', JStr ''99''), (''servers'', JStr ''wg0'')])]"

lemma sample_switched: "outcome_of (sample_switch (\<lambda>_. Accepted)) = Some (True, None, sample_peer ''newkey'' ''203.0.113.9'')"
  by code_simp

lemma sample_rolled_back:
  "outcome_of (sample_switch (\<lambda>n. if n = 4 then Refused else Accepted)) = Some (False, Some True, sample_peer ''oldkey'' ''198.51.100.7'')"
  by code_simp

text \<open>
  A save whose answer is lost: the switch is reported as not applied, no rollback runs, and the peer has the
  new endpoint.
\<close>

lemma lost_answer_left_applied:
  "outcome_of (sample_switch (\<lambda>n. if n = 2 then Lost else Accepted)) = Some (False, None, sample_peer ''newkey'' ''203.0.113.9'')"
  by code_simp

lemma sample_fw_good: "wg_good (sample_api net) sample_fw"
  by (auto simp: wg_good_def sample_api_def sample_fw_def wg_normal_def client_payload_def writable_def selected_values_def is_space_def
      split: if_splits)


end
