(* ===== verification/VpnPoll.thy ===== *)
theory VpnPoll
  imports VpnSwitch
begin

text \<open>
  The status of an endpoint profile and the background pass over all of them: \<open>_runtime\<close>, \<open>status\<close>,
  \<open>_poll_connected_utilization\<close> and \<open>poll_enabled\<close> of \<open>backend/vpn_endpoint_service.py\<close>, on the
  operations of the record and of the driver. Every device has a firewall of its own.
\<close>

section \<open>What the service calls\<close>

text \<open>\<open>ve_nord\<close> fails with the error of the catalogue, \<open>ve_connected\<close> gives nothing for it.\<close>

record venv =
  ve_py :: vpy
  ve_hash :: vhash
  ve_rdap :: "string \<Rightarrow> ownership"
  ve_nord :: "vprofile \<Rightarrow> vserver list result"
  ve_connected :: "vprofile \<Rightarrow> doc \<Rightarrow> string \<Rightarrow> vserver option result"
  ve_text :: "failure \<Rightarrow> string"
  ve_ip :: "string \<Rightarrow> string"

abbreviation ve_str :: "venv \<Rightarrow> json \<Rightarrow> string" where
  "ve_str env \<equiv> py_str (ve_py env)"

definition device_profiles :: "venv \<Rightarrow> vdevice \<Rightarrow> vprofile list result" where
  "device_profiles env v = profiles_of (ve_str env) (py_fresh (ve_py env)) v"

definition discover_for :: "venv \<Rightarrow> string \<Rightarrow> string option \<Rightarrow> bool \<Rightarrow> int \<Rightarrow> vdoc \<Rightarrow> (discovery \<times> vdoc) result" where
  "discover_for env dev pid force now d = (case dget (vn_devices d) dev of
     None \<Rightarrow> Inl not_found
   | Some v \<Rightarrow> rbind (device_profiles env v) (\<lambda>ps. rbind (selected_profile ps pid) (\<lambda>p.
       Inr (discover_profile (ve_str env) (ve_hash env) (ve_rdap env) (ve_nord env) (ve_text env) (vx_owner v) dev p force now d))))"

section \<open>The endpoint in use\<close>

record vcurrent =
  vc_configured :: bool
  vc_failed :: bool
  vc_status :: "wg_status option"
  vc_fields :: doc

definition gateway_state :: "doc option \<Rightarrow> json" where
  "gateway_state g = (case g of Some h \<Rightarrow> if h = [] then JNull
       else JObj [(''name'', getn h ''name''), (''status'', getn h ''status'')]
   | None \<Rightarrow> JNull)"

definition runtime_fields :: "venv \<Rightarrow> vprofile \<Rightarrow> doc \<Rightarrow> doc option \<Rightarrow> doc" where
  "runtime_fields env p peer g =
     [(''endpointIp'', JStr (ve_ip env (bounded_text (ve_str env) (getn peer ''serveraddress'') 200))),
      (''endpointPort'', py_or (getn peer ''serverport'') (JInt 51820)),
      (''publicKeyFingerprint'', JStr (vh_print (ve_hash env) (str_or_empty (ve_str env) (getn peer ''pubkey'')))),
      (''peerUuid'', JStr (vp_peer p)), (''instanceUuid'', JStr (vp_instance p)), (''gatewayUuid'', JStr (vp_gateway p)),
      (''gateway'', gateway_state g)]"

definition runtime :: "venv \<Rightarrow> 'f wg_driver \<Rightarrow> vprofile \<Rightarrow> (vcurrent, 'f) act" where
  "runtime env drv p =
     (if vp_peer p = [] then give \<lparr>vc_configured = False, vc_failed = False, vc_status = None, vc_fields = []\<rparr>
      else sbind (dr_connect drv) (\<lambda>_. sbind (dr_peer drv (vp_peer p)) (\<lambda>peer.
        sbind (dr_status drv peer) (\<lambda>st.
        sbind (if vp_gateway p = [] then give None else dr_gateway drv (vp_gateway p)) (\<lambda>g.
          give \<lparr>vc_configured = True, vc_failed = False, vc_status = Some st, vc_fields = runtime_fields env p peer g\<rparr>)))))"

definition read_current :: "venv \<Rightarrow> 'f wg_driver \<Rightarrow> vprofile \<Rightarrow> 'f \<Rightarrow> vcurrent \<times> 'f" where
  "read_current env drv p f = (case runtime env drv p f of
     (Inr c, f') \<Rightarrow> (c, f')
   | (Inl e, f') \<Rightarrow> (\<lparr>vc_configured = (vp_peer p \<noteq> []), vc_failed = True, vc_status = None, vc_fields = []\<rparr>, f'))"

definition get_or :: "doc \<Rightarrow> string \<Rightarrow> json \<Rightarrow> json" where
  "get_or d k v = (case dget d k of None \<Rightarrow> v | Some w \<Rightarrow> w)"

definition enrich :: "(json \<Rightarrow> string) \<Rightarrow> vprofile \<Rightarrow> doc \<Rightarrow> doc \<Rightarrow> doc" where
  "enrich r p c flds = update_entry
     [(''serverId'', getn c ''serverId''), (''hostname'', get_or c ''hostname'' (JStr [])), (''country'', get_or c ''country'' (JStr [])),
      (''city'', get_or c ''city'' (JStr [])), (''owner'', get_or c ''owner'' (JStr [])), (''asn'', getn c ''asn''),
      (''asnName'', get_or c ''asnName'' (JStr [])), (''organisation'', get_or c ''organisation'' (JStr [])),
      (''candidateId'', getn c ''candidateId''), (''compatibilityTargets'', candidate_targets r p c),
      (''classification'', JStr (normalise_classification r (getn c ''classification''))), (''load'', getn c ''load''),
      (''loadObservedAt'', py_or (py_or (getn c ''loadObservedAt'') (getn c ''discoveredAt'')) (getn c ''lastSeen''))] flds"

section \<open>The status of a profile\<close>

definition saved_entries :: "string \<Rightarrow> vrecord \<Rightarrow> (json, doc) dict" where
  "saved_entries pid rec = fold (\<lambda>c. dput (getn c ''candidateId'') c) (filter (for_profile pid) (vr_candidates rec)) []"

definition same_endpoint :: "doc \<Rightarrow> doc \<Rightarrow> bool" where
  "same_endpoint flds c \<longleftrightarrow> py_eq (getn flds ''endpointIp'') (getn c ''endpointIp'')"

definition with_saved :: "(json, doc) dict \<Rightarrow> doc \<Rightarrow> doc \<Rightarrow> doc" where
  "with_saved saved flds c = dput ''active'' (JBool (same_endpoint flds c))
     (dput ''validations'' (case dget saved (getn c ''candidateId'') of None \<Rightarrow> JObj [] | Some s \<Rightarrow> get_or s ''validations'' (JObj [])) c)"

text \<open>The endpoint in use is described by the discovery, or by the history when that does not have it.\<close>

definition described :: "(json \<Rightarrow> string) \<Rightarrow> vprofile \<Rightarrow> (json, doc) dict \<Rightarrow> doc list \<Rightarrow> vcurrent \<Rightarrow> doc" where
  "described r p saved cs cur = (let fs = vc_fields cur in
     if list_ex (same_endpoint fs) cs then fold (\<lambda>c g. if same_endpoint fs c then enrich r p c g else g) cs fs
     else if vc_configured cur then (case find (\<lambda>(k, c). same_endpoint fs c) saved of None \<Rightarrow> fs | Some (k, c) \<Rightarrow> enrich r p c fs)
     else fs)"

definition positive :: "json \<Rightarrow> bool" where
  "positive v = (case number_of v of Some (Fin q) \<Rightarrow> 0 < q | Some PosInf \<Rightarrow> True | _ \<Rightarrow> False)"

text \<open>An observation of the load that the series does not have yet.\<close>

definition new_observation :: "string \<Rightarrow> rat option \<Rightarrow> json \<Rightarrow> vobs list \<Rightarrow> vobs option result" where
  "new_observation cid percent ts own = (case percent of
     None \<Rightarrow> Inr None
   | Some q \<Rightarrow> if cid = [] \<or> \<not> positive ts then Inr None
       else rbind (int_of_json ts) (\<lambda>t. Inr (if list_ex (\<lambda>ob. ob_at ob = t) own then None
         else Some \<lparr>ob_at = t, ob_percent = q, ob_candidate = cid\<rparr>)))"

record vutil =
  vu_percent :: rat
  vu_at :: "int option"
  vu_series :: "(int \<times> rat) list"

definition utilization_of :: "rat option \<Rightarrow> json \<Rightarrow> vobs list \<Rightarrow> vutil option result" where
  "utilization_of percent ts own = (let series = map (\<lambda>ob. (ob_at ob, ob_percent ob)) own in
     case percent of
       Some q \<Rightarrow> if is_number ts then rbind (int_of_json ts) (\<lambda>t. Inr (Some \<lparr>vu_percent = q, vu_at = Some t, vu_series = series\<rparr>))
         else Inr (Some \<lparr>vu_percent = q, vu_at = None, vu_series = series\<rparr>)
     | None \<Rightarrow> if own = [] then Inr None
         else Inr (Some \<lparr>vu_percent = ob_percent (last own), vu_at = Some (ob_at (last own)), vu_series = series\<rparr>))"

record vstatus =
  vq_profiles :: bool
  vq_profile :: vprofile
  vq_discovery :: discovery
  vq_candidates :: "doc list"
  vq_at :: json
  vq_current :: vcurrent
  vq_health :: health
  vq_utilization :: "vutil option"
  vq_history :: "doc list"

definition status_profile :: "venv \<Rightarrow> string \<Rightarrow> string \<Rightarrow> string option \<Rightarrow> vdoc \<Rightarrow> (bool \<times> vprofile) result" where
  "status_profile env owner dev pid d = rbind (owned owner dev d) (\<lambda>v. rbind (device_profiles env v) (\<lambda>ps.
     rbind (if ps = [] \<and> pid = None then profile_of (ve_str env) (py_fresh (ve_py env) 11) (JObj []) legacy_id
       else selected_profile ps pid) (\<lambda>p. Inr (ps \<noteq> [], p))))"

definition candidates_of :: "discovery \<Rightarrow> doc list" where
  "candidates_of x = (case x of Cached cs \<Rightarrow> cs | Broken e cs \<Rightarrow> cs | Found cs \<Rightarrow> cs)"

text \<open>The part of \<open>status\<close> after the firewall was read.\<close>

definition finish_status ::
  "venv \<Rightarrow> string \<Rightarrow> string \<Rightarrow> bool \<Rightarrow> vprofile \<Rightarrow> discovery \<Rightarrow> vcurrent \<Rightarrow> vdoc \<Rightarrow> vstatus result \<times> vdoc" where
  "finish_status env owner dev ready p disc cur d =
     (let r = ve_str env; pid = vp_id p; (rec, p') = normalise_record r p (history_of d owner dev);
          v = profile_discovery pid rec; saved = saved_entries pid rec;
          items = map (with_saved saved (vc_fields cur)) (candidates_of disc);
          fs = described r p' saved items cur;
          cid = bounded_text r (getn fs ''candidateId'') 80;
          own = filter (\<lambda>ob. ob_candidate ob = cid) (observations pid rec);
          percent = utilization_percent (getn fs ''load'');
          ts = py_or (getn fs ''loadObservedAt'') (vd_at v)
      in case new_observation cid percent ts own of
           Inl e \<Rightarrow> (Inl e, d)
         | Inr ob \<Rightarrow>
             (let d' = (case ob of None \<Rightarrow> d | Some x \<Rightarrow> save_utilization owner dev pid cid (ob_at x) (ob_percent x) d);
                  own' = (case ob of None \<Rightarrow> own | Some x \<Rightarrow> own @ [x])
              in (rbind (utilization_of percent ts own') (\<lambda>u. Inr
                   \<lparr>vq_profiles = ready, vq_profile = p', vq_discovery = disc,
                    vq_candidates = map (public_candidate r p') items, vq_at = vd_at v,
                    vq_current = cur\<lparr>vc_fields := fs\<rparr>, vq_health = health_of p' (vc_status cur), vq_utilization = u,
                    vq_history = map (public_candidate r p') (filter (for_profile pid) (vr_candidates rec))\<rparr>), d')))"

definition status ::
  "venv \<Rightarrow> 'f wg_driver \<Rightarrow> string \<Rightarrow> string \<Rightarrow> string option \<Rightarrow> bool \<Rightarrow> int \<Rightarrow> vdoc \<Rightarrow> 'f \<Rightarrow> vstatus result \<times> vdoc \<times> 'f" where
  "status env drv owner dev pid refresh now d f = (case status_profile env owner dev pid d of
     Inl e \<Rightarrow> (Inl e, d, f)
   | Inr (ready, p0) \<Rightarrow>
       (let (rec, p) = normalise_record (ve_str env) p0 (history_of d owner dev) in
        case (if refresh then discover_for env dev (Some (vp_id p)) True now d
              else Inr (Cached (map (public_candidate (ve_str env) p) (vd_candidates (profile_discovery (vp_id p) rec))), d)) of
          Inl e \<Rightarrow> (Inl e, d, f)
        | Inr (disc, d1) \<Rightarrow> (case read_current env drv p f of
            (cur, f1) \<Rightarrow> (case finish_status env owner dev ready p disc cur d1 of (x, d2) \<Rightarrow> (x, d2, f1)))))"

text \<open>All the profiles of a device; nothing is returned when one fails.\<close>

fun status_all ::
  "venv \<Rightarrow> 'f wg_driver \<Rightarrow> string \<Rightarrow> string \<Rightarrow> bool \<Rightarrow> int \<Rightarrow> vprofile list \<Rightarrow> vdoc \<Rightarrow> 'f \<Rightarrow> vstatus list result \<times> vdoc \<times> 'f" where
  "status_all env drv owner dev refresh now [] d f = (Inr [], d, f)"
| "status_all env drv owner dev refresh now (p # ps) d f = (case status env drv owner dev (Some (vp_id p)) refresh now d f of
     (Inl e, d1, f1) \<Rightarrow> (Inl e, d1, f1)
   | (Inr st, d1, f1) \<Rightarrow> (case status_all env drv owner dev refresh now ps d1 f1 of
       (Inl e, d2, f2) \<Rightarrow> (Inl e, d2, f2) | (Inr sts, d2, f2) \<Rightarrow> (Inr (st # sts), d2, f2)))"

definition statuses ::
  "venv \<Rightarrow> 'f wg_driver \<Rightarrow> string \<Rightarrow> string \<Rightarrow> bool \<Rightarrow> int \<Rightarrow> vdoc \<Rightarrow> 'f \<Rightarrow> vstatus list result \<times> vdoc \<times> 'f" where
  "statuses env drv owner dev refresh now d f =
     (case rbind (owned owner dev d) (device_profiles env) of
        Inl e \<Rightarrow> (Inl e, d, f) | Inr ps \<Rightarrow> status_all env drv owner dev refresh now ps d f)"

section \<open>The background pass\<close>

definition polled_recently :: "int \<Rightarrow> json \<Rightarrow> int \<Rightarrow> bool" where
  "polled_recently now v interval = (case number_of v of
     Some (Fin q) \<Rightarrow> of_int now - q < of_int interval | Some PosInf \<Rightarrow> True | _ \<Rightarrow> False)"

definition poll_connected_utilization ::
  "venv \<Rightarrow> string \<Rightarrow> string \<Rightarrow> vprofile \<Rightarrow> vcurrent \<Rightarrow> int \<Rightarrow> vdoc \<Rightarrow> vdoc result" where
  "poll_connected_utilization env owner dev p cur now d =
     (let endpoint = bounded_text (ve_str env) (getn (vc_fields cur) ''endpointIp'') 200 in
      if \<not> vc_configured cur \<or> vc_failed cur \<or> endpoint = [] then Inr d
      else if polled_recently now (vd_poll (profile_discovery (vp_id p) (history_of d owner dev))) (vp_interval p) then Inr d
      else rbind (ve_connected env p (vc_fields cur) endpoint) (\<lambda>c.
        Inr (save_utilization_poll (ve_hash env) owner dev (vp_id p) c now d)))"

definition is_fresh :: "discovery \<Rightarrow> bool" where
  "is_fresh x = (case x of Found _ \<Rightarrow> True | _ \<Rightarrow> False)"

definition conditions_of :: "vprofile \<Rightarrow> bool \<Rightarrow> vstatus \<Rightarrow> string list" where
  "conditions_of p fresh st = runtime_conditions p (vc_status (vq_current st)) @
     owner_conditions p fresh (vq_candidates st) (find (\<lambda>c. truthy (getn c ''active'')) (vq_candidates st))"

definition poll_profile ::
  "venv \<Rightarrow> 'f wg_driver \<Rightarrow> string \<Rightarrow> string \<Rightarrow> vprofile \<Rightarrow> int \<Rightarrow> vdoc \<Rightarrow> 'f \<Rightarrow> string list result \<times> vdoc \<times> 'f" where
  "poll_profile env drv owner dev p now d f = (case discover_for env dev (Some (vp_id p)) False now d of
     Inl e \<Rightarrow> (Inl e, d, f)
   | Inr (disc, d1) \<Rightarrow> (case status env drv owner dev (Some (vp_id p)) False now d1 f of
       (Inl e, d2, f2) \<Rightarrow> (Inl e, d2, f2)
     | (Inr st, d2, f2) \<Rightarrow> (case poll_connected_utilization env owner dev p (vq_current st) now d2 of
         Inl e \<Rightarrow> (Inl e, d2, f2)
       | Inr d3 \<Rightarrow> (case update_alert_state owner dev (vp_id p) (conditions_of p (is_fresh disc) st) d3 of
           (em, d4) \<Rightarrow> (Inr em, d4, f2)))))"

text \<open>The failure of one profile leaves the rest to be polled.\<close>

fun poll_profiles ::
  "venv \<Rightarrow> 'f wg_driver \<Rightarrow> string \<Rightarrow> string \<Rightarrow> (string \<Rightarrow> int) \<Rightarrow> vprofile list \<Rightarrow> vdoc \<Rightarrow> 'f \<Rightarrow> (string \<times> string) list \<times> vdoc \<times> 'f" where
  "poll_profiles env drv owner dev tm [] d f = ([], d, f)"
| "poll_profiles env drv owner dev tm (p # ps) d f =
     (if \<not> vp_enabled p then poll_profiles env drv owner dev tm ps d f
      else (case poll_profile env drv owner dev p (tm (vp_id p)) d f of (x, d1, f1) \<Rightarrow>
        (case poll_profiles env drv owner dev tm ps d1 f1 of (em, d2, f2) \<Rightarrow>
          ((case x of Inl _ \<Rightarrow> [] | Inr cs \<Rightarrow> map (\<lambda>c. (vp_id p, c)) cs) @ em, d2, f2))))"

record 'f pass =
  ps_alerts :: "(string \<times> string \<times> string) list"
  ps_error :: "failure option"
  ps_doc :: vdoc
  ps_fw :: "string \<Rightarrow> 'f"

text \<open>Reading the profiles of a device is outside the \<open>try\<close>.\<close>

fun poll_devices ::
  "venv \<Rightarrow> (string \<Rightarrow> 'f wg_driver) \<Rightarrow> (string \<Rightarrow> string \<Rightarrow> int) \<Rightarrow> (string, vdevice) dict \<Rightarrow> vdoc \<Rightarrow> (string \<Rightarrow> 'f) \<Rightarrow> 'f pass" where
  "poll_devices env drvs tm [] d fs = \<lparr>ps_alerts = [], ps_error = None, ps_doc = d, ps_fw = fs\<rparr>"
| "poll_devices env drvs tm ((dev, v) # rest) d fs =
     (if vx_driver v \<noteq> ''opnsense.firewall'' then poll_devices env drvs tm rest d fs
      else (case device_profiles env v of
        Inl e \<Rightarrow> \<lparr>ps_alerts = [], ps_error = Some e, ps_doc = d, ps_fw = fs\<rparr>
      | Inr ps \<Rightarrow> (case poll_profiles env (drvs dev) (vx_owner v) dev (tm dev) ps d (fs dev) of (em, d', f') \<Rightarrow>
          (let next = poll_devices env drvs tm rest d' (fs(dev := f')) in
           next\<lparr>ps_alerts := map (Pair dev) em @ ps_alerts next\<rparr>))))"

definition poll_enabled ::
  "venv \<Rightarrow> (string \<Rightarrow> 'f wg_driver) \<Rightarrow> (string \<Rightarrow> string \<Rightarrow> int) \<Rightarrow> vdoc \<Rightarrow> (string \<Rightarrow> 'f) \<Rightarrow> 'f pass" where
  "poll_enabled env drvs tm d fs = poll_devices env drvs tm (vn_devices d) d fs"

section \<open>One device does not disturb another\<close>

text \<open>Two documents that are the same for a device, and what an operation on it leaves alone.\<close>

definition agree :: "string \<Rightarrow> string \<Rightarrow> vdoc \<Rightarrow> vdoc \<Rightarrow> bool" where
  "agree owner dev d d' \<longleftrightarrow> dget (vn_devices d) dev = dget (vn_devices d') dev \<and> history_of d owner dev = history_of d' owner dev"

definition frame :: "string \<Rightarrow> string \<Rightarrow> vdoc \<Rightarrow> vdoc \<Rightarrow> bool" where
  "frame owner dev d d1 \<longleftrightarrow> vn_devices d1 = vn_devices d \<and>
     (\<forall>o' dev'. (o', dev') \<noteq> (owner, dev) \<longrightarrow> history_of d1 o' dev' = history_of d o' dev')"

definition belongs :: "string \<Rightarrow> string \<Rightarrow> vdoc \<Rightarrow> bool" where
  "belongs owner dev d \<longleftrightarrow> (\<forall>v. dget (vn_devices d) dev = Some v \<longrightarrow> vx_owner v = owner)"

lemma frame_refl [simp]: "frame owner dev d d"
  by (simp add: frame_def)

lemma frame_trans [trans]: "frame owner dev d d1 \<Longrightarrow> frame owner dev d1 d2 \<Longrightarrow> frame owner dev d d2"
  by (simp add: frame_def)

lemma frame_put [simp]: "frame owner dev d (put_history owner dev rec d)"
  by (auto simp: frame_def history_put)

lemma agree_put: "agree owner dev d d' \<Longrightarrow> agree owner dev (put_history owner dev rec d) (put_history owner dev rec d')"
  by (simp add: agree_def history_put)

lemma agree_frame: "frame o' dev' d d1 \<Longrightarrow> (o', dev') \<noteq> (owner, dev) \<Longrightarrow> agree owner dev d d1"
  by (auto simp: frame_def agree_def)

lemma agree_trans [trans]: "agree owner dev d d1 \<Longrightarrow> agree owner dev d1 d2 \<Longrightarrow> agree owner dev d d2"
  by (simp add: agree_def)

lemma belongs_frame: "frame o' dev' d d1 \<Longrightarrow> belongs owner dev d1 = belongs owner dev d"
  by (simp add: frame_def belongs_def)

lemma belongs_agree: "agree owner dev d d' \<Longrightarrow> belongs owner dev d' = belongs owner dev d"
  by (simp add: agree_def belongs_def)

lemma discover_profile_local: "frame owner dev d (snd (discover_profile r h rdap nord tx owner dev p force now d))"
  by (simp add: discover_profile_def save_discovery_def Let_def split: prod.split sum.split)

lemma discover_profile_agree:
  assumes "agree owner dev d d'"
  shows "rel_prod (=) (agree owner dev) (discover_profile r h rdap nord tx owner dev p force now d)
    (discover_profile r h rdap nord tx owner dev p force now d')"
proof -
  have h: "history_of d' owner dev = history_of d owner dev" using assms by (simp add: agree_def)
  show ?thesis using assms unfolding discover_profile_def save_discovery_def h
    by (simp add: Let_def agree_put split: prod.split sum.split)
qed

lemma discover_local:
  assumes "discover_for env dev pid force now d = Inr (x, d1)" "belongs owner dev d"
  shows "frame owner dev d d1"
proof -
  obtain v p where "dget (vn_devices d) dev = Some v"
    "discover_profile (ve_str env) (ve_hash env) (ve_rdap env) (ve_nord env) (ve_text env) (vx_owner v) dev p force now d = (x, d1)"
    using assms(1) by (auto simp: discover_for_def rbind_Inr_iff split: option.splits)
  then show ?thesis using assms(2) discover_profile_local by (metis belongs_def snd_conv)
qed

lemma discover_agree:
  assumes "agree owner dev d d'" "belongs owner dev d"
  shows "rel_sum (=) (rel_prod (=) (agree owner dev)) (discover_for env dev pid force now d) (discover_for env dev pid force now d')"
proof (cases "dget (vn_devices d) dev")
  case None
  then show ?thesis using assms by (simp add: discover_for_def agree_def)
next
  case (Some v)
  then have "dget (vn_devices d') dev = Some v" "vx_owner v = owner" using assms by (auto simp: agree_def belongs_def)
  then show ?thesis using Some discover_profile_agree [OF assms(1)] by (simp add: discover_for_def rbind_def split: sum.split)
qed

lemma finish_local: "frame owner dev d (snd (finish_status env owner dev ready p disc cur d))"
  by (auto simp: finish_status_def save_utilization_def Let_def split: prod.splits sum.splits option.splits)

lemma finish_agree:
  assumes "agree owner dev d d'"
  shows "rel_prod (=) (agree owner dev) (finish_status env owner dev ready p disc cur d) (finish_status env owner dev ready p disc cur d')"
proof -
  have h: "history_of d' owner dev = history_of d owner dev" using assms by (simp add: agree_def)
  show ?thesis using assms unfolding finish_status_def save_utilization_def h
    by (auto simp: Let_def agree_put split: prod.splits sum.splits option.splits)
qed

lemma utilization_local:
  assumes "poll_connected_utilization env owner dev p cur now d = Inr d1"
  shows "frame owner dev d d1"
  using assms by (auto simp: poll_connected_utilization_def save_utilization_poll_def rbind_Inr_iff Let_def split: if_splits)

lemma utilization_agree:
  assumes "agree owner dev d d'"
  shows "rel_sum (=) (agree owner dev) (poll_connected_utilization env owner dev p cur now d) (poll_connected_utilization env owner dev p cur now d')"
proof -
  have h: "history_of d' owner dev = history_of d owner dev" using assms by (simp add: agree_def)
  show ?thesis using assms unfolding poll_connected_utilization_def save_utilization_poll_def h
    by (auto simp: Let_def rbind_def agree_put split: sum.split)
qed

lemma alert_local: "frame owner dev d (snd (update_alert_state owner dev pid conds d))"
  by (simp add: update_alert_state_def Let_def)

lemma alert_agree:
  "agree owner dev d d' \<Longrightarrow> rel_prod (=) (agree owner dev) (update_alert_state owner dev pid conds d) (update_alert_state owner dev pid conds d')"
  by (simp add: update_alert_state_def Let_def agree_put) (simp add: agree_def history_put)

abbreviation same_run :: "string \<Rightarrow> string \<Rightarrow> 'a \<times> vdoc \<times> 'f \<Rightarrow> 'a \<times> vdoc \<times> 'f \<Rightarrow> bool" where
  "same_run owner dev \<equiv> rel_prod (=) (rel_prod (agree owner dev) (=))"

text \<open>Without a refresh the status only adds an observation.\<close>

lemma status_cached: "status env drv owner dev pid False now d f = (case status_profile env owner dev pid d of
     Inl e \<Rightarrow> (Inl e, d, f)
   | Inr (ready, p0) \<Rightarrow>
       (let (rec, p) = normalise_record (ve_str env) p0 (history_of d owner dev) in
        case read_current env drv p f of (cur, f1) \<Rightarrow>
          (case finish_status env owner dev ready p
             (Cached (map (public_candidate (ve_str env) p) (vd_candidates (profile_discovery (vp_id p) rec)))) cur d of
            (x, d2) \<Rightarrow> (x, d2, f1))))"
  by (auto simp: status_def Let_def split: sum.split prod.split)

lemma status_local: "frame owner dev d (fst (snd (status env drv owner dev pid False now d f)))"
  unfolding status_cached by (auto simp: Let_def split: sum.split prod.split) (metis finish_local snd_conv)

lemma status_agree:
  assumes "agree owner dev d d'"
  shows "same_run owner dev (status env drv owner dev pid False now d f) (status env drv owner dev pid False now d' f)"
proof -
  have h: "history_of d' owner dev = history_of d owner dev" using assms by (simp add: agree_def)
  have s: "status_profile env owner dev pid d' = status_profile env owner dev pid d"
    using assms by (simp add: status_profile_def owned_def agree_def)
  show ?thesis
  proof (cases "status_profile env owner dev pid d")
    case (Inl e)
    then show ?thesis using assms unfolding status_cached s by simp
  next
    case (Inr rp)
    obtain ready p0 where rp: "rp = (ready, p0)" by fastforce
    obtain rec p where n: "normalise_record (ve_str env) p0 (history_of d owner dev) = (rec, p)" by fastforce
    obtain cur f1 where c: "read_current env drv p f = (cur, f1)" by fastforce
    show ?thesis unfolding status_cached h s using Inr rp n c
        finish_agree [OF assms, of env ready p "Cached (map (public_candidate (ve_str env) p) (vd_candidates (profile_discovery (vp_id p) rec)))" cur]
      by (auto simp: rel_prod_conv split: prod.splits)
  qed
qed

lemma poll_profile_local:
  assumes "belongs owner dev d"
  shows "frame owner dev d (fst (snd (poll_profile env drv owner dev p now d f)))"
proof (cases "discover_for env dev (Some (vp_id p)) False now d")
  case (Inr xd)
  obtain disc d1 where xd: "xd = (disc, d1)" by fastforce
  have 1: "frame owner dev d d1" using discover_local [OF _ assms] Inr xd by blast
  obtain x d2 f2 where s: "status env drv owner dev (Some (vp_id p)) False now d1 f = (x, d2, f2)" by (metis surj_pair)
  have 2: "frame owner dev d d2" using frame_trans [OF 1 status_local] s by (metis fst_conv snd_conv)
  have 3: "frame owner dev d d3" if "poll_connected_utilization env owner dev p cur now d2 = Inr d3" for cur d3
    using frame_trans [OF 2 utilization_local [OF that]] .
  have 4: "frame owner dev d d4" if "poll_connected_utilization env owner dev p cur now d2 = Inr d3"
    "update_alert_state owner dev pid conds d3 = (em, d4)" for cur d3 pid conds em d4
    using frame_trans [OF 3 [OF that(1)] alert_local] that(2) by (metis snd_conv)
  show ?thesis using Inr xd s 2 4 by (auto simp: poll_profile_def split: sum.split prod.split)
qed (simp add: poll_profile_def)

lemma poll_profile_agree:
  assumes a: "agree owner dev d d'" and b: "belongs owner dev d"
  shows "same_run owner dev (poll_profile env drv owner dev p now d f) (poll_profile env drv owner dev p now d' f)"
proof (cases "discover_for env dev (Some (vp_id p)) False now d")
  case (Inl e)
  then show ?thesis using discover_agree [OF a b, of env "Some (vp_id p)" False now] a by (auto simp: poll_profile_def rel_sum_simps elim: rel_sum.cases)
next
  case (Inr xd)
  obtain disc d1 where xd: "xd = (disc, d1)" by fastforce
  then obtain d1' where 1: "discover_for env dev (Some (vp_id p)) False now d' = Inr (disc, d1')" "agree owner dev d1 d1'"
    using discover_agree [OF a b, of env "Some (vp_id p)" False now] Inr by (auto elim: rel_sum.cases)
  obtain x d2 f2 where s: "status env drv owner dev (Some (vp_id p)) False now d1 f = (x, d2, f2)" by (metis surj_pair)
  then obtain d2' where 2: "status env drv owner dev (Some (vp_id p)) False now d1' f = (x, d2', f2)" "agree owner dev d2 d2'"
    using status_agree [OF 1(2), of env drv "Some (vp_id p)" now f] by (auto simp: rel_prod_conv split: prod.splits)
  have 3: "rel_sum (=) (agree owner dev) (poll_connected_utilization env owner dev p cur now d2) (poll_connected_utilization env owner dev p cur now d2')" for cur
    by (rule utilization_agree [OF 2(2)])
  show ?thesis
  proof (cases x)
    case (Inl e)
    then show ?thesis using Inr xd 1 s 2 by (simp add: poll_profile_def)
  next
    fix st assume st: "x = Inr st"
    show ?thesis
    proof (cases "poll_connected_utilization env owner dev p (vq_current st) now d2")
      case (Inl e)
      then show ?thesis using Inr xd 1 s 2 st 3 [of "vq_current st"] by (auto simp: poll_profile_def elim: rel_sum.cases)
    next
      case (Inr d3)
      then obtain d3' where "poll_connected_utilization env owner dev p (vq_current st) now d2' = Inr d3'" "agree owner dev d3 d3'"
        using 3 [of "vq_current st"] by (auto elim: rel_sum.cases)
      then show ?thesis using Inr \<open>discover_for _ _ _ _ _ d = _\<close> xd 1 s 2 st alert_agree [of owner dev d3 d3' "vp_id p" "conditions_of p (is_fresh disc) st"]
        by (auto simp: poll_profile_def rel_prod_conv split: prod.splits)
    qed
  qed
qed

lemma poll_profiles_local:
  "belongs owner dev d \<Longrightarrow> frame owner dev d (fst (snd (poll_profiles env drv owner dev tm ps d f)))"
proof (induction ps arbitrary: d f)
  case (Cons p ps)
  show ?case
  proof (cases "vp_enabled p")
    case True
    obtain x d1 f1 where m: "poll_profile env drv owner dev p (tm (vp_id p)) d f = (x, d1, f1)" by (metis surj_pair)
    have 1: "frame owner dev d d1" using poll_profile_local [OF Cons.prems] m by (metis fst_conv snd_conv)
    have "frame owner dev d1 (fst (snd (poll_profiles env drv owner dev tm ps d1 f1)))"
      using Cons.IH [of d1 f1] Cons.prems belongs_frame [OF 1] by blast
    then show ?thesis using True m frame_trans [OF 1] by (simp split: prod.split) force
  qed (simp add: Cons)
qed simp

lemma poll_profiles_agree:
  "agree owner dev d d' \<Longrightarrow> belongs owner dev d \<Longrightarrow>
   same_run owner dev (poll_profiles env drv owner dev tm ps d f) (poll_profiles env drv owner dev tm ps d' f)"
proof (induction ps arbitrary: d d' f)
  case (Cons p ps)
  show ?case
  proof (cases "vp_enabled p")
    case True
    obtain x d1 f1 where m: "poll_profile env drv owner dev p (tm (vp_id p)) d f = (x, d1, f1)" by (metis surj_pair)
    then obtain d1' where m': "poll_profile env drv owner dev p (tm (vp_id p)) d' f = (x, d1', f1)" "agree owner dev d1 d1'"
      using poll_profile_agree [OF Cons.prems, of env drv p "tm (vp_id p)" f] by (auto simp: rel_prod_conv split: prod.splits)
    have "belongs owner dev d1" using belongs_frame [OF poll_profile_local [OF Cons.prems(2)]] Cons.prems(2) m by (metis fst_conv snd_conv)
    from Cons.IH [OF m'(2) this, where f = f1] show ?thesis using True m m' by (auto simp: rel_prod_conv split: prod.splits)
  qed (use Cons in simp)
qed simp

text \<open>A device that is not in the pass is left alone.\<close>

definition alerts_for :: "string \<Rightarrow> (string \<times> string \<times> string) list \<Rightarrow> (string \<times> string) list" where
  "alerts_for dev alerts = map snd (filter (\<lambda>a. fst a = dev) alerts)"

lemma alerts_for_append [simp]: "alerts_for dev (xs @ ys) = alerts_for dev xs @ alerts_for dev ys"
  and alerts_for_Pair [simp]: "alerts_for dev (map (Pair dev') em) = (if dev' = dev then em else [])"
  by (simp_all add: alerts_for_def filter_map comp_def)

definition listed :: "(string, vdevice) dict \<Rightarrow> vdoc \<Rightarrow> bool" where
  "listed xs d \<longleftrightarrow> (\<forall>(dev, v)\<in>set xs. dget (vn_devices d) dev = Some v)"

lemma listed_frame: "frame o' dev' d d1 \<Longrightarrow> listed xs d1 = listed xs d"
  by (simp add: listed_def frame_def)

lemma listed_belongs: "listed ((dev, v) # xs) d \<Longrightarrow> belongs (vx_owner v) dev d"
  by (simp add: listed_def belongs_def)

lemma poll_devices_other:
  "listed xs d \<Longrightarrow> dev \<notin> set (dkeys xs) \<Longrightarrow>
   agree owner dev d (ps_doc (poll_devices env drvs tm xs d fs)) \<and> ps_fw (poll_devices env drvs tm xs d fs) dev = fs dev \<and>
   alerts_for dev (ps_alerts (poll_devices env drvs tm xs d fs)) = []"
proof (induction xs arbitrary: d fs)
  case Nil
  then show ?case by (simp add: agree_def alerts_for_def)
next
  case (Cons x xs)
  obtain dev0 v where x: "x = (dev0, v)" by fastforce
  have ne: "dev0 \<noteq> dev" "dev \<notin> set (dkeys xs)" using Cons.prems(2) x by auto
  have l: "listed xs d" using Cons.prems(1) by (simp add: listed_def)
  show ?case
  proof (cases "vx_driver v = ''opnsense.firewall''")
    case True
    show ?thesis
    proof (cases "device_profiles env v")
      case (Inr ps)
      obtain em d1 f1 where m: "poll_profiles env (drvs dev0) (vx_owner v) dev0 (tm dev0) ps d (fs dev0) = (em, d1, f1)" by (metis surj_pair)
      have f: "frame (vx_owner v) dev0 d d1"
        using poll_profiles_local [OF listed_belongs [OF Cons.prems(1) [unfolded x]]] m by (metis fst_conv snd_conv)
      have a: "agree owner dev d d1" using agree_frame [OF f] ne by simp
      obtain fs1 where fs1: "fs1 = fs(dev0 := f1)" by blast
      have p: "poll_devices env drvs tm (x # xs) d fs = (poll_devices env drvs tm xs d1 fs1)
          \<lparr>ps_alerts := map (Pair dev0) em @ ps_alerts (poll_devices env drvs tm xs d1 fs1)\<rparr>"
        using True Inr m x fs1 by (simp add: Let_def)
      have l1: "listed xs d1" using l listed_frame [OF f] by simp
      have same: "fs1 dev = fs dev" using ne(1) fs1 by simp
      show ?thesis using Cons.IH [OF l1 ne(2), of fs1, unfolded same] agree_trans [OF a] ne(1) unfolding p by simp
    qed (use True x in \<open>simp add: agree_def alerts_for_def\<close>)
  qed (use Cons.IH [OF l ne(2)] x in simp)
qed

lemma poll_devices_exact:
  "listed xs d \<Longrightarrow> dict_ok xs \<Longrightarrow> ps_error (poll_devices env drvs tm xs d fs) = None \<Longrightarrow> (dev, v) \<in> set xs \<Longrightarrow>
   vx_driver v = ''opnsense.firewall'' \<Longrightarrow>
   \<exists>ps em d1 f1. device_profiles env v = Inr ps \<and> poll_profiles env (drvs dev) (vx_owner v) dev (tm dev) ps d (fs dev) = (em, d1, f1) \<and>
     agree (vx_owner v) dev d1 (ps_doc (poll_devices env drvs tm xs d fs)) \<and> ps_fw (poll_devices env drvs tm xs d fs) dev = f1 \<and>
     alerts_for dev (ps_alerts (poll_devices env drvs tm xs d fs)) = em"
proof (induction xs arbitrary: d fs)
  case (Cons x xs)
  obtain dev0 w where x: "x = (dev0, w)" by fastforce
  have l: "listed xs d" using Cons.prems(1) by (simp add: listed_def)
  have ok: "dict_ok xs" "dev0 \<notin> set (dkeys xs)" using Cons.prems(2) x by auto
  show ?case
  proof (cases "vx_driver w = ''opnsense.firewall''")
    case True
    then obtain ps where ps: "device_profiles env w = Inr ps" using Cons.prems(3) x by (cases "device_profiles env w") auto
    obtain em d1 f1 where m: "poll_profiles env (drvs dev0) (vx_owner w) dev0 (tm dev0) ps d (fs dev0) = (em, d1, f1)" by (metis surj_pair)
    have f: "frame (vx_owner w) dev0 d d1"
      using poll_profiles_local [OF listed_belongs [OF Cons.prems(1) [unfolded x]]] m by (metis fst_conv snd_conv)
    have l1: "listed xs d1" using l listed_frame [OF f] by simp
    obtain fs1 where fs1: "fs1 = fs(dev0 := f1)" by blast
    have p: "poll_devices env drvs tm (x # xs) d fs = (poll_devices env drvs tm xs d1 fs1)
        \<lparr>ps_alerts := map (Pair dev0) em @ ps_alerts (poll_devices env drvs tm xs d1 fs1)\<rparr>"
      using True ps m x fs1 by (simp add: Let_def)
    show ?thesis
    proof (cases "dev = dev0")
      case same: True
      then have "v = w" using Cons.prems(4) x ok by (auto simp: rev_image_eqI)
      then show ?thesis using same poll_devices_other [OF l1 ok(2), of "vx_owner w" env drvs tm fs1] ps m fs1 unfolding p by simp
    next
      case False
      have mem: "(dev, v) \<in> set xs" using Cons.prems(4) x False by simp
      have e: "ps_error (poll_devices env drvs tm xs d1 fs1) = None" using Cons.prems(3) unfolding p by simp
      obtain qs em' d2 f2 where r: "device_profiles env v = Inr qs"
        "poll_profiles env (drvs dev) (vx_owner v) dev (tm dev) qs d1 (fs1 dev) = (em', d2, f2)"
        "agree (vx_owner v) dev d2 (ps_doc (poll_devices env drvs tm xs d1 fs1))"
        "ps_fw (poll_devices env drvs tm xs d1 fs1) dev = f2" "alerts_for dev (ps_alerts (poll_devices env drvs tm xs d1 fs1)) = em'"
        using Cons.IH [OF l1 ok(1) e mem Cons.prems(5)] by auto
      have b: "belongs (vx_owner v) dev d" using l mem by (auto simp: listed_def belongs_def)
      have "agree (vx_owner v) dev d d1" using agree_frame [OF f] False by simp
      from poll_profiles_agree [OF this b, of env "drvs dev" "tm dev" qs "fs dev"] r(2) False fs1
      obtain d2' where d2': "poll_profiles env (drvs dev) (vx_owner v) dev (tm dev) qs d (fs dev) = (em', d2', f2)" "agree (vx_owner v) dev d2' d2"
        by (auto simp: rel_prod_conv split: prod.splits)
      show ?thesis using r(1,4,5) d2'(1) agree_trans [OF d2'(2) r(3)] False unfolding p by simp
    qed
  next
    case False
    then show ?thesis using Cons.IH [OF l ok(1)] Cons.prems x by auto
  qed
qed simp


section \<open>The pass is a run of the operations\<close>

lemma vpn_run_trans: "vpn_run py h b c \<Longrightarrow> vpn_run py h a b \<Longrightarrow> vpn_run py h a c"
  by (induction rule: vpn_run.induct) (auto intro: vpn_more)

lemma discover_runs: "discover_for env dev pid force now d = Inr (x, d1) \<Longrightarrow> vpn_run (ve_py env) (ve_hash env) d d1"
  unfolding discover_for_def by (auto simp: rbind_Inr_iff split: option.splits) (metis snd_conv discovers vpn_more vpn_refl)

lemma finish_runs: "vpn_run (ve_py env) (ve_hash env) d (snd (finish_status env owner dev ready p disc cur d))"
  by (auto simp: finish_status_def Let_def intro: vpn_refl vpn_more [OF vpn_refl observes] split: prod.split sum.split option.split)

lemma status_runs: "vpn_run (ve_py env) (ve_hash env) d (fst (snd (status env drv owner dev pid False now d f)))"
  unfolding status_cached by (auto simp: Let_def vpn_refl split: sum.split prod.split) (metis finish_runs snd_conv)

lemma utilization_runs:
  "poll_connected_utilization env owner dev p cur now d = Inr d1 \<Longrightarrow> vpn_run (ve_py env) (ve_hash env) d d1"
  by (auto simp: poll_connected_utilization_def rbind_Inr_iff Let_def intro: vpn_refl vpn_more [OF vpn_refl polls] split: if_splits)

lemma alert_runs: "update_alert_state owner dev pid conds d = (em, d1) \<Longrightarrow> vpn_run py h d d1"
  by (metis alerts snd_conv vpn_more vpn_refl)

lemma poll_profile_runs: "vpn_run (ve_py env) (ve_hash env) d (fst (snd (poll_profile env drv owner dev p now d f)))"
proof -
  have s: "vpn_run (ve_py env) (ve_hash env) d d2"
    if "discover_for env dev (Some (vp_id p)) False now d = Inr (disc, d1)"
      "status env drv owner dev (Some (vp_id p)) False now d1 f = (x, d2, f2)" for disc d1 x d2 f2
    using vpn_run_trans [OF status_runs discover_runs [OF that(1)]] that(2) by (metis fst_conv snd_conv)
  show ?thesis unfolding poll_profile_def
    by (auto simp: vpn_refl split: sum.split prod.split
        intro: s vpn_run_trans [OF alert_runs vpn_run_trans [OF utilization_runs s]])
qed

lemma poll_profiles_runs: "vpn_run (ve_py env) (ve_hash env) d (fst (snd (poll_profiles env drv owner dev tm ps d f)))"
proof (induction ps arbitrary: d f)
  case (Cons p ps)
  obtain x d1 f1 where m: "poll_profile env drv owner dev p (tm (vp_id p)) d f = (x, d1, f1)" by (metis surj_pair)
  then have "vpn_run (ve_py env) (ve_hash env) d d1" using poll_profile_runs by (metis fst_conv snd_conv)
  with Cons.IH show ?case using m by (auto split: prod.split) (metis vpn_run_trans fst_conv snd_conv)
qed (simp add: vpn_refl)

lemma poll_runs: "vpn_run (ve_py env) (ve_hash env) d (ps_doc (poll_devices env drvs tm xs d fs))"
proof (induction xs arbitrary: d fs)
  case (Cons x xs)
  obtain dev v where x: "x = (dev, v)" by fastforce
  show ?case
  proof (cases "vx_driver v = ''opnsense.firewall''")
    case True
    show ?thesis
    proof (cases "device_profiles env v")
      case (Inr ps)
      obtain em d1 f1 where m: "poll_profiles env (drvs dev) (vx_owner v) dev (tm dev) ps d (fs dev) = (em, d1, f1)" by (metis surj_pair)
      have "vpn_run (ve_py env) (ve_hash env) d d1" using poll_profiles_runs m by (metis fst_conv snd_conv)
      from vpn_run_trans [OF Cons.IH this] show ?thesis using x True Inr m by (simp add: Let_def)
    qed (simp add: x True vpn_refl)
  qed (simp add: x Cons.IH)
qed (simp add: vpn_refl)

section \<open>Alerts about the owner\<close>

text \<open>
  The conditions about the owner are looked at only in a pass that made a discovery. A pass in between takes
  them for gone, so they are never counted twice within the interval of the discovery.
\<close>

definition owner_alerts :: "string set" where
  "owner_alerts = {''owner_not_preferred'', ''no_preferred_candidate''}"

lemma stale_conditions: "set (conditions_of p False st) \<inter> owner_alerts = {}"
  by (auto simp: conditions_of_def owner_conditions_def runtime_conditions_def owner_alerts_def split: option.splits)

lemma discovered_at:
  assumes "discover_profile r h rdap nord tx owner dev p force now d = (Found cs, d1)"
  shows "vd_at (profile_discovery (vp_id p) (history_of d1 owner dev)) = JInt now"
  using assms by (auto simp: discover_profile_def save_discovery_def history_put save_discovery_record_def put_discovery_def
      profile_discovery_def number_or_null_def is_number_def Let_def split: if_splits sum.splits prod.splits)

lemma normalise_keeps_at: "vd_at (profile_discovery pid (fst (normalise_record r p rec))) = vd_at (profile_discovery pid rec)"
  by (auto simp: normalise_record_def put_discovery_def profile_discovery_def Let_def number_or_null_def split: option.split)

lemma save_utilization_at:
  "vd_at (profile_discovery pid (history_of (save_utilization owner dev q cid ts x d) owner dev)) = vd_at (profile_discovery pid (history_of d owner dev))"
  by (simp add: save_utilization_def history_put record_utilization_def Let_def profile_discovery_def split: option.split)

lemma finish_at:
  "vd_at (profile_discovery pid (history_of (snd (finish_status env owner dev ready p disc cur d)) owner dev)) =
   vd_at (profile_discovery pid (history_of d owner dev))"
  by (auto simp: finish_status_def Let_def save_utilization_at split: prod.split sum.split option.split)

lemma status_at:
  assumes "status env drv owner dev pid' False now d f = (x, d1, f1)"
  shows "vd_at (profile_discovery pid (history_of d1 owner dev)) = vd_at (profile_discovery pid (history_of d owner dev))"
  using assms finish_at [of pid env owner dev] unfolding status_cached
  by (auto simp: Let_def split: sum.splits prod.splits) (metis snd_conv)

lemma profile_discovery_put: "profile_discovery pid (put_discovery pid v rec) =
    v\<lparr>vd_at := number_or_null (vd_at v), vd_poll := number_or_null (vd_poll v)\<rparr>"
  by (simp add: profile_discovery_def put_discovery_def)

lemma profile_discovery_candidates: "profile_discovery pid (rec\<lparr>vr_utilization := u\<rparr>) = profile_discovery pid rec"
  by (simp add: profile_discovery_def split: option.split)

lemma number_or_null_idem: "number_or_null (number_or_null v) = number_or_null v"
  by (simp add: number_or_null_def is_number_def)

lemma profile_discovery_number: "number_or_null (vd_at (profile_discovery pid rec)) = vd_at (profile_discovery pid rec)"
  by (auto simp: profile_discovery_def number_or_null_idem number_or_null_def is_number_def split: option.split)

lemma poll_record_at: "vd_at (profile_discovery pid (poll_record h pid c now rec)) = vd_at (profile_discovery pid rec)"
  by (cases c) (simp_all add: poll_record_def Let_def record_utilization_def profile_discovery_candidates profile_discovery_put
      profile_discovery_number split: option.split)

lemma utilization_at:
  assumes "poll_connected_utilization env owner dev p cur now d = Inr d1"
  shows "vd_at (profile_discovery (vp_id p) (history_of d1 owner dev)) = vd_at (profile_discovery (vp_id p) (history_of d owner dev))"
  using assms by (auto simp: poll_connected_utilization_def save_utilization_poll_def history_put rbind_Inr_iff Let_def
      poll_record_at split: if_splits)

lemma alert_at:
  "vd_at (profile_discovery pid (history_of (snd (update_alert_state owner dev q conds d)) owner dev)) =
   vd_at (profile_discovery pid (history_of d owner dev))"
  by (simp add: update_alert_state_def Let_def history_put profile_discovery_def split: option.split)

text \<open>The alert state is changed by nothing but the alerts.\<close>

definition alerts_of :: "string \<Rightarrow> string \<Rightarrow> string \<Rightarrow> vdoc \<Rightarrow> alerts" where
  "alerts_of owner dev pid d = dget_or (vr_alerts (history_of d owner dev)) pid []"

lemma normalise_alerts: "vr_alerts (fst (normalise_record r p rec)) = vr_alerts rec"
  by (simp add: normalise_record_def put_discovery_def Let_def)

lemma discover_alerts:
  assumes "discover_for env dev pid force now d = Inr (x, d1)" "belongs owner dev d"
  shows "alerts_of owner dev q d1 = alerts_of owner dev q d"
proof -
  have "alerts_of owner dev q (snd (discover_profile r h rdap nord tx owner dev p force now d)) = alerts_of owner dev q d" for r h rdap nord tx p
    using normalise_alerts [of r p "history_of d owner dev"]
    by (auto simp: discover_profile_def save_discovery_def alerts_of_def history_put save_discovery_record_def put_discovery_def
        Let_def split: prod.split sum.split)
  then show ?thesis using assms unfolding discover_for_def
    by (auto simp: rbind_Inr_iff belongs_def split: option.splits) (metis snd_conv)
qed

lemma finish_alerts: "alerts_of owner dev q (snd (finish_status env owner dev ready p disc cur d)) = alerts_of owner dev q d"
  by (auto simp: finish_status_def Let_def save_utilization_def record_utilization_def alerts_of_def history_put
      split: prod.split sum.split option.split)

lemma status_alerts:
  "status env drv owner dev pid False now d f = (x, d1, f1) \<Longrightarrow> alerts_of owner dev q d1 = alerts_of owner dev q d"
  unfolding status_cached by (auto simp: Let_def split: sum.splits prod.splits) (metis finish_alerts snd_conv)

lemma utilization_alerts:
  "poll_connected_utilization env owner dev p cur now d = Inr d1 \<Longrightarrow> alerts_of owner dev q d1 = alerts_of owner dev q d"
  by (auto simp: poll_connected_utilization_def save_utilization_poll_def history_put rbind_Inr_iff Let_def alerts_of_def
      poll_record_def record_utilization_def put_discovery_def split: if_splits option.split)

text \<open>The parts of a poll that got through.\<close>

lemma poll_profile_parts:
  assumes "poll_profile env drv owner dev p now d f = (Inr em, d4, f2)"
  obtains disc d1 st d2 d3 where "discover_for env dev (Some (vp_id p)) False now d = Inr (disc, d1)"
    "status env drv owner dev (Some (vp_id p)) False now d1 f = (Inr st, d2, f2)"
    "poll_connected_utilization env owner dev p (vq_current st) now d2 = Inr d3"
    "update_alert_state owner dev (vp_id p) (conditions_of p (is_fresh disc) st) d3 = (em, d4)"
  using assms by (auto simp: poll_profile_def split: sum.splits prod.splits)

lemma poll_alerts_from:
  assumes "poll_profile env drv owner dev p now d f = (Inr em, d4, f2)" "belongs owner dev d"
  obtains disc d1 st where "discover_for env dev (Some (vp_id p)) False now d = Inr (disc, d1)"
    "em = emitted (conditions_of p (is_fresh disc) st) (alerts_of owner dev (vp_id p) d)"
    "alerts_of owner dev (vp_id p) d4 = next_alerts (conditions_of p (is_fresh disc) st) (alerts_of owner dev (vp_id p) d)"
    "vd_at (profile_discovery (vp_id p) (history_of d4 owner dev)) = vd_at (profile_discovery (vp_id p) (history_of d1 owner dev))"
proof -
  obtain disc d1 st d2 d3 where m: "discover_for env dev (Some (vp_id p)) False now d = Inr (disc, d1)"
    "status env drv owner dev (Some (vp_id p)) False now d1 f = (Inr st, d2, f2)"
    "poll_connected_utilization env owner dev p (vq_current st) now d2 = Inr d3"
    "update_alert_state owner dev (vp_id p) (conditions_of p (is_fresh disc) st) d3 = (em, d4)"
    using assms(1) by (rule poll_profile_parts)
  have a: "alerts_of owner dev (vp_id p) d3 = alerts_of owner dev (vp_id p) d"
    using discover_alerts [OF m(1) assms(2)] status_alerts [OF m(2)] utilization_alerts [OF m(3)] by simp
  have "em = emitted (conditions_of p (is_fresh disc) st) (alerts_of owner dev (vp_id p) d3)"
    "alerts_of owner dev (vp_id p) d4 = next_alerts (conditions_of p (is_fresh disc) st) (alerts_of owner dev (vp_id p) d3)"
    using m(4) by (auto simp: update_alert_state_def Let_def alerts_of_def history_put dget_or_def)
  moreover have "vd_at (profile_discovery (vp_id p) (history_of d4 owner dev)) = vd_at (profile_discovery (vp_id p) (history_of d1 owner dev))"
    using alert_at [of "vp_id p" owner dev "vp_id p" _ d3] m(4) status_at [OF m(2)] utilization_at [OF m(3)] by (metis snd_conv)
  ultimately show ?thesis using that m(1) a by metis
qed

lemma owner_alerts_not_repeated:
  assumes b: "belongs owner dev d" and sel: "dget (vn_devices d) dev = Some v" "device_profiles env v = Inr ps" "selected_profile ps (Some (vp_id p)) = Inr p"
    and m0: "poll_profile env drv owner dev p t0 d f = (Inr em0, d1, f1)"
    and m1: "poll_profile env drv' owner dev p t1 d1 f' = (Inr em1, d2, f2)"
    and t: "0 < t0" "t0 \<le> t1" "t1 - t0 < vp_interval p"
  shows "set em1 \<inter> owner_alerts = {}"
proof -
  obtain disc0 d0 st0 where p0: "discover_for env dev (Some (vp_id p)) False t0 d = Inr (disc0, d0)"
    "alerts_of owner dev (vp_id p) d1 = next_alerts (conditions_of p (is_fresh disc0) st0) (alerts_of owner dev (vp_id p) d)"
    "vd_at (profile_discovery (vp_id p) (history_of d1 owner dev)) = vd_at (profile_discovery (vp_id p) (history_of d0 owner dev))"
    using m0 b by (rule poll_alerts_from)
  have fr: "frame owner dev d d1" using poll_profile_local [OF b] m0 by (metis fst_conv snd_conv)
  have b1: "belongs owner dev d1" and v1: "dget (vn_devices d1) dev = Some v"
    using belongs_frame [OF fr] b sel(1) fr by (auto simp: frame_def)
  have o: "vx_owner v = owner" using b sel(1) by (simp add: belongs_def)
  obtain disc1 d1' st1 where p1: "discover_for env dev (Some (vp_id p)) False t1 d1 = Inr (disc1, d1')"
    "em1 = emitted (conditions_of p (is_fresh disc1) st1) (alerts_of owner dev (vp_id p) d1)"
    using m1 b1 by (rule poll_alerts_from)
  show ?thesis
  proof (cases "is_fresh disc0")
    case True
    then obtain cs where "disc0 = Found cs" by (cases disc0) (auto simp: is_fresh_def)
    with p0(1) sel o have "vd_at (profile_discovery (vp_id p) (history_of d0 owner dev)) = JInt t0"
      by (auto simp: discover_for_def intro: discovered_at)
    then have "recent t1 (vd_at (profile_discovery (vp_id p) (history_of d1 owner dev))) (vp_interval p)"
      using p0(3) t by (simp add: recent_def)
    then have "\<not> is_fresh disc1"
      using p1(1) v1 sel(2,3) o normalise_keeps_at [of "vp_id p" "ve_str env" p "history_of d1 owner dev"]
      by (auto simp: discover_for_def discover_profile_def is_fresh_def Let_def split: prod.splits if_splits)
    then show ?thesis using stale_conditions [of p st1] p1(2) by (auto simp: emitted_def)
  next
    case False
    then have "dget (alerts_of owner dev (vp_id p) d1) c = None" if "c \<in> owner_alerts" for c
      using that stale_conditions [of p st0] p0(2) by (auto simp: dget_next_alerts)
    then show ?thesis using p1(2) by (auto simp: emitted_def dget_or_def)
  qed
qed

section \<open>An example pass\<close>

text \<open>The second firewall holds the same profile as the first; its catalogue cannot be read.\<close>

definition sample_env :: venv where
  "sample_env = \<lparr>ve_py = sample_vpy, ve_hash = \<lparr>vh_candidate = (\<lambda>a b. a), vh_print = id\<rparr>, ve_rdap = (\<lambda>_. \<lparr>ow_owner = [], ow_asn = JNull, ow_extra = []\<rparr>),
     ve_nord = (\<lambda>_. Inl TypeError), ve_connected = (\<lambda>_ _ _. Inl TypeError), ve_text = (\<lambda>_. []), ve_ip = id\<rparr>"

definition sample_two :: vdoc where
  "sample_two = sample_configured\<lparr>vn_devices := (''fw2'', snd (hd (vn_devices sample_configured))) # vn_devices sample_configured\<rparr>"

definition sample_pass :: "wg_fw pass" where
  "sample_pass = poll_enabled sample_env (\<lambda>_. opnsense_driver (sample_api (\<lambda>_. Accepted)) (post (sample_api (\<lambda>_. Accepted)) ''connection'' id))
     (\<lambda>_ _. 1000) sample_two (\<lambda>_. sample_fw)"

lemma sample_pass_through: "ps_error sample_pass = None"
  by code_simp

lemma sample_two_ok: "dict_ok (vn_devices sample_two) \<and> dget (vn_devices sample_two) ''fw'' = Some (snd (hd (vn_devices sample_configured))) \<and>
    vx_driver (snd (hd (vn_devices sample_configured))) = ''opnsense.firewall''"
  by code_simp


end
