(* ===== verification/Morning.thy ===== *)
theory Morning
  imports Jobs Push "HOL-Library.Multiset"
begin

text \<open>
  The daily update check of \<open>backend/morning_updates.py\<close>: its settings and schedule, the results of the
  single checks, their aggregation per device and the notification about them. What a device, a node or a
  maintenance job answers is an argument, and so are the time zones. Characters outside the eight bits of a
  character (the ellipsis, the dash and the dot of the texts) are represented by one character each.
\<close>

section \<open>Settings\<close>

definition default_config :: doc where
  "default_config = [(''enabled'', JBool True), (''runTime'', JStr ''07:00''), (''timezone'', JStr ''Europe/London''),
     (''runAnsibleChecks'', JBool True), (''runDeviceNativeChecks'', JBool True), (''deviceTimeoutSeconds'', JInt 30)]"

definition default_notifications :: doc where
  "default_notifications = [(''notifyUpdates'', JBool True), (''notifyFailures'', JBool True), (''notifySuccess'', JBool True)]"

definition configured_check :: "doc \<Rightarrow> doc" where
  "configured_check raw = overlay raw default_config"

definition is_bool :: "json \<Rightarrow> bool" where
  "is_bool v = (case v of JBool _ \<Rightarrow> True | _ \<Rightarrow> False)"

definition notification_preferences :: "doc \<Rightarrow> doc" where
  "notification_preferences raw = map (\<lambda>(k, v). (k, if is_bool (getn raw k) then getn raw k else v)) default_notifications"

definition digit :: "char \<Rightarrow> nat option" where
  "digit c = (let n = of_char c :: nat in if 48 \<le> n \<and> n \<le> 57 then Some (n - 48) else None)"

text \<open>The minute of the day a run time stands for.\<close>

definition minute_of_day :: "string \<Rightarrow> nat option" where
  "minute_of_day s = (case s of
     [a, b, c, d, e] \<Rightarrow> (case (digit a, digit b, digit d, digit e) of
       (Some w, Some x, Some y, Some z) \<Rightarrow>
         if c = CHR '':'' \<and> 10 * w + x < 24 \<and> y < 6 then Some (60 * (10 * w + x) + 10 * y + z) else None
     | _ \<Rightarrow> None)
   | _ \<Rightarrow> None)"

definition has_unknown :: "doc \<Rightarrow> doc \<Rightarrow> bool" where
  "has_unknown base d = list_ex (\<lambda>k. k \<notin> set (dkeys base)) (dkeys d)"

definition validate_config :: "(string \<Rightarrow> bool) \<Rightarrow> json \<Rightarrow> doc result" where
  "validate_config zone_ok v = (case v of
     JObj d \<Rightarrow>
       if has_unknown default_config d then Inl (ValueError ''morning update settings contain unsupported fields'')
       else (let c = overlay d default_config in
         case find (\<lambda>k. \<not> is_bool (getn c k)) [''enabled'', ''runAnsibleChecks'', ''runDeviceNativeChecks''] of
           Some k \<Rightarrow> Inl (ValueError (k @ '' must be a boolean''))
         | None \<Rightarrow>
             if (case getn c ''runTime'' of JStr s \<Rightarrow> minute_of_day s = None | _ \<Rightarrow> True) then Inl (ValueError ''run time must use HH:MM'')
             else (case getn c ''timezone'' of
               JStr z \<Rightarrow> if \<not> zone_ok z then Inl (ValueError ''timezone must be a valid IANA timezone'')
                 else (case getn c ''deviceTimeoutSeconds'' of
                   JInt n \<Rightarrow> if 5 \<le> n \<and> n \<le> 300 then Inr c else Inl (ValueError ''device timeout must be between 5 and 300 seconds'')
                 | _ \<Rightarrow> Inl (ValueError ''device timeout must be between 5 and 300 seconds''))
             | _ \<Rightarrow> Inl (ValueError ''timezone must be an IANA timezone'')))
   | _ \<Rightarrow> Inl (ValueError ''morning update settings must be an object''))"

definition validate_preferences :: "json \<Rightarrow> doc result" where
  "validate_preferences v = (case v of
     JObj d \<Rightarrow>
       if has_unknown default_notifications d then Inl (ValueError ''notification preferences contain unsupported fields'')
       else (let p = overlay d default_notifications in
         if list_ex (\<lambda>(k, v). \<not> is_bool v) p then Inl (ValueError ''notification preferences must be booleans'') else Inr p)
   | _ \<Rightarrow> Inl (ValueError ''notification preferences must be an object''))"

section \<open>The schedule\<close>

text \<open>The date and the second of the day in a zone, and the instant of a date and a second there.\<close>

record zones =
  zo_local :: "string \<Rightarrow> int \<Rightarrow> int \<times> int"
  zo_instant :: "string \<Rightarrow> int \<Rightarrow> int \<Rightarrow> int"

definition run_second :: "doc \<Rightarrow> int" where
  "run_second c = (case getn c ''runTime'' of JStr s \<Rightarrow> (case minute_of_day s of Some m \<Rightarrow> 60 * int m | None \<Rightarrow> 0) | _ \<Rightarrow> 0)"

definition zone_of :: "doc \<Rightarrow> string" where
  "zone_of c = (case getn c ''timezone'' of JStr z \<Rightarrow> z | _ \<Rightarrow> [])"

definition due_occurrence :: "zones \<Rightarrow> doc \<Rightarrow> int \<Rightarrow> int option" where
  "due_occurrence z c now =
     (if \<not> truthy (getn c ''enabled'') then None
      else (let (day, second) = zo_local z (zone_of c) now in
        if second < run_second c then None else Some (zo_instant z (zone_of c) day (run_second c))))"

definition next_occurrence :: "zones \<Rightarrow> doc \<Rightarrow> int \<Rightarrow> int" where
  "next_occurrence z c now = (let (day, second) = zo_local z (zone_of c) now in
     zo_instant z (zone_of c) (if run_second c \<le> second then day + 1 else day) (run_second c))"

section \<open>The result of one check\<close>

datatype source_kind = AnsibleOs | AnsibleDocker | AnsibleProxmox | DeviceNative

record msource =
  mo_device :: string
  mo_name :: string
  mo_owner :: "string option"
  mo_type :: string
  mo_kind :: source_kind
  mo_status :: string
  mo_count :: json
  mo_reboot :: json
  mo_kernel :: bool
  mo_summary :: json
  mo_error :: "string option"

text \<open>A logical device: its identifier, name, owner and type.\<close>

type_synonym identity = "string \<times> string \<times> string option \<times> string"

definition new_source :: "identity \<Rightarrow> source_kind \<Rightarrow> string \<Rightarrow> msource" where
  "new_source i k status = (case i of (dev, name, owner, type) \<Rightarrow>
     \<lparr>mo_device = dev, mo_name = take 200 (if name = [] then dev else name), mo_owner = owner, mo_type = type, mo_kind = k,
      mo_status = status, mo_count = JNull, mo_reboot = JNull, mo_kernel = False, mo_summary = JNull, mo_error = None\<rparr>)"

definition failed_source :: "identity \<Rightarrow> source_kind \<Rightarrow> string \<Rightarrow> string \<Rightarrow> string \<Rightarrow> msource" where
  "failed_source i k status summary err = (new_source i k status)\<lparr>mo_summary := JStr summary, mo_error := Some (take 500 err)\<rparr>"

text \<open>A workload counts as the device it is mapped to, by identifier or by the one device of its host.\<close>

record minstance =
  mi_id :: string
  mi_owner :: "string option"
  mi_device :: string
  mi_host :: string

record mhost =
  mh_id :: string
  mh_owner :: "string option"
  mh_host :: string

definition identity_by_host :: "minstance \<Rightarrow> (string, mhost) dict \<Rightarrow> string \<times> string" where
  "identity_by_host v devs = (let host = lower (strip (mi_host v)) in
     case filter (\<lambda>g. mh_owner g = mi_owner v \<and> lower (strip (mh_host g)) = host) (dvals devs) of
       [g] \<Rightarrow> if host \<noteq> [] then (mh_id g, ''device'') else (mi_id v, ''compute'')
     | _ \<Rightarrow> (mi_id v, ''compute''))"

definition identity_for_compute :: "minstance \<Rightarrow> (string, mhost) dict \<Rightarrow> string \<times> string" where
  "identity_for_compute v devs = (case dget devs (mi_device v) of
     Some h \<Rightarrow> if mh_owner h = mi_owner v then (mi_device v, ''device'') else identity_by_host v devs
   | None \<Rightarrow> identity_by_host v devs)"

text \<open>A maintenance check of a workload.\<close>

definition job_status :: "check_result \<Rightarrow> string" where
  "job_status n = (if cr_updates n then ''updates_available''
     else if cr_state n = JStr ''up_to_date'' then ''up_to_date''
     else if cr_state n = JStr ''read_only'' \<or> cr_state n = JStr ''not_applicable'' then ''unsupported''
     else if cr_state n = JStr ''unknown'' then ''incomplete''
     else (case cr_state n of JStr s \<Rightarrow> s | _ \<Rightarrow> []))"

definition job_source :: "identity \<Rightarrow> operation \<Rightarrow> check_result \<Rightarrow> msource" where
  "job_source i op n = (let st = job_status n in
     (new_source i (if op = DockerCheck then AnsibleDocker else AnsibleOs) st)
       \<lparr>mo_count := cr_count n, mo_reboot := cr_reboot n, mo_summary := cr_summary n,
        mo_error := (case cr_failure n of
            Some e \<Rightarrow> if e \<noteq> [] then Some e else if st = ''incomplete'' then Some ''Update availability could not be determined'' else Some e
          | None \<Rightarrow> if st = ''incomplete'' then Some ''Update availability could not be determined'' else None)\<rparr>)"

text \<open>Waiting for the jobs of a workload; the rounds see the clock and the jobs.\<close>

definition job_done :: "cjob option \<Rightarrow> bool" where
  "job_done j = (case j of None \<Rightarrow> False | Some x \<Rightarrow> \<not> active (cj_state x))"

definition timed_out :: "(string \<Rightarrow> cjob) \<Rightarrow> string \<Rightarrow> cjob option \<Rightarrow> cjob" where
  "timed_out blank i j = (case j of
     Some x \<Rightarrow> if job_done j then x
       else x\<lparr>cj_state := Incomplete, cj_summary := ''Timed out waiting for maintenance result''\<rparr>
   | None \<Rightarrow> (blank i)\<lparr>cj_id := i, cj_state := Incomplete, cj_summary := ''Timed out waiting for maintenance result''\<rparr>)"

fun wait_for_jobs :: "(string \<Rightarrow> cjob) \<Rightarrow> string list \<Rightarrow> (nat \<Rightarrow> int) \<Rightarrow> (nat \<Rightarrow> string \<Rightarrow> cjob option) \<Rightarrow> int \<Rightarrow> nat \<Rightarrow> nat \<Rightarrow> cjob list option" where
  "wait_for_jobs blank ids clock jobs deadline n 0 = None"
| "wait_for_jobs blank ids clock jobs deadline n (Suc fuel) =
     (if list_all (\<lambda>i. job_done (jobs n i)) ids then Some (map (\<lambda>i. the (jobs n i)) ids)
      else if deadline \<le> clock n then Some (map (\<lambda>i. timed_out blank i (jobs n i)) ids)
      else wait_for_jobs blank ids clock jobs deadline (Suc n) fuel)"

definition compute_check :: "identity \<Rightarrow> cjob list result \<Rightarrow> (cjob list \<Rightarrow> cjob list) \<Rightarrow> (cjob \<Rightarrow> check_result result) \<Rightarrow> (failure \<Rightarrow> string) \<Rightarrow> msource list result" where
  "compute_check i started wait result safe = (case started of
     Inl e \<Rightarrow> Inr [failed_source i AnsibleOs (case e of Conflict _ \<Rightarrow> ''incomplete'' | _ \<Rightarrow> ''failed'') ''Ansible checks could not be started'' (safe e)]
   | Inr js \<Rightarrow> rmap (\<lambda>j. rbind (result j) (\<lambda>n. Inr (job_source i (cj_op j) n))) (wait js))"

text \<open>A word between hyphens or underscores.\<close>

definition at_bound :: "string \<Rightarrow> bool" where
  "at_bound s = (case s of [] \<Rightarrow> True | c # _ \<Rightarrow> c = CHR ''-'' \<or> c = CHR ''_'')"

fun has_part :: "string \<Rightarrow> bool \<Rightarrow> string \<Rightarrow> bool" where
  "has_part w start [] = False"
| "has_part w start (c # cs) = (start \<and> startswith (c # cs) w \<and> at_bound (drop (length w) (c # cs)) \<or> has_part w (c = CHR ''-'' \<or> c = CHR ''_'') cs)"

definition kernel_update :: "(json \<Rightarrow> string) \<Rightarrow> doc list \<Rightarrow> doc \<Rightarrow> bool" where
  "kernel_update r packages reboot \<longleftrightarrow>
     (case getn reboot ''signals'' of JObj s \<Rightarrow> getn s ''kernelMismatch'' = JBool True | _ \<Rightarrow> False) \<or>
     list_ex (\<lambda>p. let name = lower (str_or_empty r (getn p ''name'')) in
        has_part ''kernel'' True name \<or> has_part ''linux-image'' True name) packages"

text \<open>The nodes of a Proxmox cluster.\<close>

record pnode =
  pn_name :: string
  pn_online :: bool
  pn_packages :: "doc list"
  pn_reboot :: doc

definition node_source :: "(json \<Rightarrow> string) \<Rightarrow> identity \<Rightarrow> pnode \<Rightarrow> msource" where
  "node_source r i n = (case i of (dev, name, owner, _) \<Rightarrow>
     let shown = (if pn_name n \<noteq> [] then pn_name n else name); k = length (pn_packages n) in
     (new_source (dev @ '':node:'' @ shown, shown, owner, ''proxmoxNode'') AnsibleProxmox
        (if \<not> pn_online n then ''unreachable'' else if k \<noteq> 0 then ''updates_available'' else ''up_to_date''))
       \<lparr>mo_count := JInt (int k), mo_reboot := getn (pn_reboot n) ''rebootRequired'', mo_kernel := kernel_update r (pn_packages n) (pn_reboot n),
        mo_summary := JStr (if k \<noteq> 0 then digits_of_nat k @ '' Proxmox package updates'' else ''Proxmox packages are up to date''),
        mo_error := (if pn_online n then None else Some ''Proxmox node was not online'')\<rparr>)"

definition proxmox_check :: "(json \<Rightarrow> string) \<Rightarrow> identity \<Rightarrow> pnode list result \<Rightarrow> (failure \<Rightarrow> string) \<Rightarrow> msource list" where
  "proxmox_check r i catalogue safe = (case catalogue of
     Inl e \<Rightarrow> [failed_source i AnsibleProxmox ''failed'' ''Proxmox package check failed'' (safe e)]
   | Inr nodes \<Rightarrow> (if nodes = [] then [failed_source i AnsibleProxmox ''incomplete'' ''Proxmox check incomplete'' ''Proxmox returned no node results'']
       else map (node_source r i) nodes))"

text \<open>The check a device makes by itself.\<close>

definition integer :: "json \<Rightarrow> json result" where
  "integer v = (if v = JNull then Inr JNull else (case int_of_json v of
     Inr n \<Rightarrow> Inr (JInt (max 0 n)) | Inl e \<Rightarrow> if is_caught e then Inr JNull else Inl e))"

definition first_truthy :: "doc \<Rightarrow> string list \<Rightarrow> json" where
  "first_truthy d ks = (case find (\<lambda>k. truthy (getn d k)) ks of Some k \<Rightarrow> getn d k | None \<Rightarrow> (if ks = [] then JNull else getn d (last ks)))"

definition provider_unavailable :: "doc \<Rightarrow> bool" where
  "provider_unavailable p \<longleftrightarrow> dget p ''latestStable'' = Some JNull \<and> dget p ''latestBuild'' = Some JNull"

definition native_status :: "doc \<Rightarrow> string" where
  "native_status p = (if getn p ''ok'' = JBool False \<or> provider_unavailable p then ''failed''
     else (case getn p ''updateAvailable'' of JBool b \<Rightarrow> (if b then ''updates_available'' else ''up_to_date'') | _ \<Rightarrow> ''incomplete''))"

definition native_source :: "(json \<Rightarrow> string) \<Rightarrow> identity \<Rightarrow> doc \<Rightarrow> msource result" where
  "native_source r i p = (let st = native_status p; err = first_truthy p [''error'', ''message''] in
     rbind (integer (case dget p ''updateCount'' of Some v \<Rightarrow> v | None \<Rightarrow> getn p ''count'')) (\<lambda>count. Inr
     ((new_source i DeviceNative st)
       \<lparr>mo_count := count,
        mo_reboot := (if is_bool (getn p ''rebootRequired'') then getn p ''rebootRequired'' else JNull),
        mo_summary := JStr (take 500 (if truthy (getn p ''message'') then str_json r (getn p ''message'') else ''Device update check completed'')),
        mo_error := (if st = ''failed'' \<and> truthy err then Some (take 500 (str_json r err)) else None)\<rparr>)))"

definition native_check :: "(json \<Rightarrow> string) \<Rightarrow> identity \<Rightarrow> bool \<Rightarrow> json result \<Rightarrow> (failure \<Rightarrow> string) \<Rightarrow> msource" where
  "native_check r i capable answer safe =
     (if \<not> capable then (new_source i DeviceNative ''unsupported'')\<lparr>mo_summary := JStr ''Device-native update checks are not supported''\<rparr>
      else (case rbind answer (\<lambda>v. case v of
            JObj p \<Rightarrow> native_source r i p
          | _ \<Rightarrow> Inl (ValueError ''update provider returned an invalid result'')) of
        Inr s \<Rightarrow> s
      | Inl e \<Rightarrow> failed_source i DeviceNative ''failed'' ''Device-native update check failed'' (safe e)))"

text \<open>The checks of a phase in the order they complete; one that raises leaves its fallback.\<close>

definition collect :: "(failure \<Rightarrow> string) \<Rightarrow> (msource \<times> msource list result) list \<Rightarrow> msource list" where
  "collect safe outcomes = concat (map (\<lambda>(fallback, x). case x of
     Inr rs \<Rightarrow> rs | Inl e \<Rightarrow> [fallback\<lparr>mo_error := Some (take 500 (safe e))\<rparr>]) outcomes)"

section \<open>Aggregation per device\<close>

record mdevice =
  md_id :: string
  md_name :: string
  md_owner :: "string option"
  md_type :: string
  md_sources :: "(source_kind, msource list) dict"

definition device_entry :: "msource \<Rightarrow> mdevice" where
  "device_entry s = \<lparr>md_id = mo_device s, md_name = (if mo_name s = [] then mo_device s else mo_name s), md_owner = mo_owner s,
     md_type = mo_type s, md_sources = []\<rparr>"

definition add_source :: "msource \<Rightarrow> (source_kind, msource list) dict \<Rightarrow> (source_kind, msource list) dict" where
  "add_source s m = dput (mo_kind s) (dget_or m (mo_kind s) [] @ [s]) m"

definition merge_source :: "msource \<Rightarrow> (string, mdevice) dict \<Rightarrow> (string, mdevice) dict" where
  "merge_source s m = (let d = dget_or m (mo_device s) (device_entry s) in
     dput (mo_device s) (d\<lparr>md_sources := add_source s (md_sources d)\<rparr>) m)"

text \<open>The flags of a device; the code keeps them beside its sources.\<close>

definition device_checks :: "mdevice \<Rightarrow> msource list" where
  "device_checks d = concat (map snd (md_sources d))"

definition has_status :: "mdevice \<Rightarrow> string \<Rightarrow> bool" where
  "has_status d st = list_ex (\<lambda>s. mo_status s = st) (device_checks d)"

definition requires_updates :: "mdevice \<Rightarrow> bool" where
  "requires_updates d = has_status d ''updates_available''"

definition requires_reboot :: "mdevice \<Rightarrow> bool" where
  "requires_reboot d = list_ex (\<lambda>s. mo_reboot s = JBool True) (device_checks d)"

definition bad_status :: "string \<Rightarrow> bool" where
  "bad_status st \<longleftrightarrow> st \<in> set [''failed'', ''incomplete'', ''unreachable'']"

definition good_status :: "string \<Rightarrow> bool" where
  "good_status st \<longleftrightarrow> st \<in> set [''up_to_date'', ''updates_available'']"

definition check_incomplete :: "mdevice \<Rightarrow> bool" where
  "check_incomplete d = list_ex (\<lambda>s. bad_status (mo_status s)) (device_checks d)"

definition unsupported_device :: "mdevice \<Rightarrow> bool" where
  "unsupported_device d \<longleftrightarrow> device_checks d \<noteq> [] \<and> list_all (\<lambda>s. mo_status s = ''unsupported'') (device_checks d)"

definition up_to_date :: "mdevice \<Rightarrow> bool" where
  "up_to_date d \<longleftrightarrow> has_status d ''up_to_date'' \<and> \<not> requires_updates d \<and> \<not> check_incomplete d"

definition reboot_sources :: "mdevice \<Rightarrow> (source_kind \<times> json \<times> json) list" where
  "reboot_sources d = map (\<lambda>s. (mo_kind s, mo_reboot s, mo_summary s)) (filter (\<lambda>s. mo_reboot s \<noteq> JNull) (device_checks d))"

datatype run_status = RRunning | RSuccessful | RPartial | RFailed

record aggregated =
  ag_status :: run_status
  ag_devices :: "mdevice list"
  ag_checked :: nat
  ag_updates :: nat
  ag_reboots :: nat
  ag_failed :: nat
  ag_unreachable :: nat
  ag_unsupported :: nat

definition device_order :: "mdevice \<Rightarrow> string \<times> string" where
  "device_order d = (lower (md_name d), md_id d)"

definition merged :: "msource list \<Rightarrow> (string, mdevice) dict" where
  "merged xs = fold merge_source xs []"

definition count_checks :: "(string \<Rightarrow> bool) \<Rightarrow> mdevice list \<Rightarrow> nat" where
  "count_checks P ds = length (filter (\<lambda>s. P (mo_status s)) (concat (map device_checks ds)))"

definition status_of :: "mdevice list \<Rightarrow> run_status" where
  "status_of ds = (let failed = count_checks bad_status ds in
     if failed \<noteq> 0 \<and> (count_checks good_status ds \<noteq> 0 \<or> list_ex requires_updates ds) then RPartial
     else if failed \<noteq> 0 then RFailed else RSuccessful)"

definition summarize :: "mdevice list \<Rightarrow> aggregated" where
  "summarize ds = \<lparr>ag_status = status_of ds, ag_devices = ds,
     ag_checked = length (filter (\<lambda>d. \<not> unsupported_device d) ds), ag_updates = length (filter requires_updates ds),
     ag_reboots = length (filter requires_reboot ds), ag_failed = count_checks bad_status ds,
     ag_unreachable = length (filter (\<lambda>d. has_status d ''unreachable'') ds), ag_unsupported = length (filter unsupported_device ds)\<rparr>"

definition aggregate :: "msource list \<Rightarrow> aggregated" where
  "aggregate xs = summarize (sort_key device_order (dvals (merged xs)))"

text \<open>The sources kept with the devices of a run.\<close>

definition kept_sources :: "mdevice list \<Rightarrow> msource list" where
  "kept_sources ds = concat (map device_checks ds)"

section \<open>Aggregating in phases\<close>

definition group :: "msource list \<Rightarrow> (source_kind, msource list) dict" where
  "group xs = fold add_source xs []"

lemma dget_add_source: "dget (add_source s m) k = (if k = mo_kind s then Some (dget_or m k [] @ [s]) else dget m k)"
  by (simp add: add_source_def)

lemma group_snoc: "group (xs @ [s]) = add_source s (group xs)"
  by (simp add: group_def)

lemma dget_group: "dget (group xs) k = (let ys = filter (\<lambda>s. mo_kind s = k) xs in if ys = [] then None else Some ys)"
  by (induction xs rule: rev_induct) (auto simp: group_snoc dget_add_source dget_or_def Let_def group_def)

text \<open>Grouping what is grouped already changes nothing.\<close>

definition grouped :: "(source_kind, msource list) dict \<Rightarrow> bool" where
  "grouped g \<longleftrightarrow> dict_ok g \<and> (\<forall>(k, ss)\<in>set g. ss \<noteq> [] \<and> (\<forall>s\<in>set ss. mo_kind s = k))"

lemma grouped_iff: "grouped g \<longleftrightarrow> dict_all (\<lambda>k ss. ss \<noteq> [] \<and> (\<forall>s\<in>set ss. mo_kind s = k)) g"
  unfolding grouped_def dict_all_def by (fastforce simp: dget_mem_iff)

lemma grouped_snoc: "grouped (g @ [(k, ss)]) \<Longrightarrow> grouped g \<and> k \<notin> set (dkeys g) \<and> ss \<noteq> [] \<and> (\<forall>s\<in>set ss. mo_kind s = k)"
  by (auto simp: grouped_def)

definition flat :: "(source_kind, msource list) dict \<Rightarrow> msource list" where
  "flat g = concat (map snd g)"

lemma add_source_last: "mo_kind s = k \<Longrightarrow> k \<notin> set (dkeys g) \<Longrightarrow> add_source s (g @ [(k, us)]) = g @ [(k, us @ [s])]"
  by (induction g) (auto simp: add_source_def dget_or_def)

lemma add_sources_last:
  "\<forall>s\<in>set ss. mo_kind s = k \<Longrightarrow> k \<notin> set (dkeys g) \<Longrightarrow> fold add_source ss (g @ [(k, us)]) = g @ [(k, us @ ss)]"
  by (induction ss arbitrary: us) (auto simp: add_source_last)

lemma add_source_first: "mo_kind s \<notin> set (dkeys g) \<Longrightarrow> add_source s g = g @ [(mo_kind s, [s])]"
proof -
  assume n: "mo_kind s \<notin> set (dkeys g)"
  then have "dget g (mo_kind s) = None" by (simp add: dget_None_iff)
  with n show ?thesis by (simp add: add_source_def dget_or_def dput_new)
qed

lemma group_flat: "grouped g \<Longrightarrow> group (flat g) = g"
proof (induction g rule: rev_induct)
  case (snoc x g)
  obtain k ss where x: "x = (k, ss)" by fastforce
  have g: "grouped g" "k \<notin> set (dkeys g)" "ss \<noteq> []" "\<forall>s\<in>set ss. mo_kind s = k"
    using grouped_snoc snoc.prems unfolding x by blast+
  obtain s rest where ss: "ss = s # rest" using g(3) by (cases ss) auto
  have "group (flat (g @ [x])) = fold add_source ss g" using snoc.IH [OF g(1)] x by (simp add: flat_def group_def)
  also have "\<dots> = fold add_source rest (g @ [(k, [s])])" using add_source_first [of s g] g(2,4) ss by simp
  also have "\<dots> = g @ [(k, ss)]" using add_sources_last [of rest k g "[s]"] g(2,4) ss by simp
  finally show ?case using x by simp
qed (simp add: flat_def group_def)

lemma grouped_add: "grouped g \<Longrightarrow> grouped (add_source s g)"
  unfolding grouped_iff add_source_def by (auto intro!: dict_all_dput simp: dget_or_def dict_all_def split: option.split)

lemma grouped_group: "grouped (group xs)"
  by (induction xs rule: rev_induct) (simp_all add: group_snoc grouped_add, simp add: group_def grouped_def)

lemma group_append: "group (xs @ ys) = fold add_source ys (group xs)"
  by (simp add: group_def)

lemma group_regroup: "group (flat (group xs) @ ys) = group (xs @ ys)"
  by (simp add: group_append group_flat [OF grouped_group])

lemma set_flat: "set (flat (group xs)) = set xs"
proof (rule set_eqI)
  fix s
  have "s \<in> set (flat (group xs)) \<longleftrightarrow> (\<exists>k ss. dget (group xs) k = Some ss \<and> s \<in> set ss)"
    using grouped_group [of xs] by (force simp: flat_def grouped_def dget_mem_iff)
  also have "\<dots> \<longleftrightarrow> s \<in> set xs"
  proof
    assume "s \<in> set xs"
    then have "dget (group xs) (mo_kind s) = Some (filter (\<lambda>x. mo_kind x = mo_kind s) xs)" by (auto simp: dget_group Let_def filter_empty_conv)
    then show "\<exists>k ss. dget (group xs) k = Some ss \<and> s \<in> set ss" using \<open>s \<in> set xs\<close> by fastforce
  qed (auto simp: dget_group Let_def split: if_splits)
  finally show "s \<in> set (flat (group xs)) \<longleftrightarrow> s \<in> set xs" .
qed

lemma hd_group: "xs \<noteq> [] \<Longrightarrow> group xs \<noteq> [] \<and> fst (hd (group xs)) = mo_kind (hd xs)"
proof (induction xs rule: rev_induct)
  case (snoc s xs)
  show ?case
  proof (cases "xs = []")
    case True
    then show ?thesis by (simp add: group_def add_source_def)
  next
    case False
    then have g: "group xs \<noteq> []" "fst (hd (group xs)) = mo_kind (hd xs)" using snoc.IH by auto
    have "dkeys (add_source s (group xs)) \<noteq> [] \<and> hd (dkeys (add_source s (group xs))) = hd (dkeys (group xs))"
      using g(1) by (cases "group xs") (auto simp: add_source_def AList.update_keys)
    then show ?thesis using g False hd_map [of "add_source s (group xs)" fst] hd_map [of "group xs" fst] by (auto simp: group_snoc)
  qed
qed simp

lemma hd_flat: "xs \<noteq> [] \<Longrightarrow> hd (flat (group xs)) = hd xs"
proof -
  assume ne: "xs \<noteq> []"
  obtain k ss g where g: "group xs = (k, ss) # g" using hd_group [OF ne] by (cases "group xs") auto
  have k: "k = mo_kind (hd xs)" using hd_group [OF ne] g by simp
  have "dget (group xs) k = Some ss" using g by simp
  then have "ss = filter (\<lambda>s. mo_kind s = k) xs" "ss \<noteq> []" by (auto simp: dget_group Let_def split: if_splits)
  then have "hd ss = hd xs" using ne k by (cases xs) auto
  with \<open>ss \<noteq> []\<close> g show ?thesis by (simp add: flat_def)
qed

text \<open>What the merged devices are.\<close>

definition device_from :: "msource list \<Rightarrow> mdevice option" where
  "device_from ys = (if ys = [] then None else Some ((device_entry (hd ys))\<lparr>md_sources := group ys\<rparr>))"

lemma dget_merged: "dget (merged xs) i = device_from (filter (\<lambda>s. mo_device s = i) xs)"
proof (induction xs rule: rev_induct)
  case (snoc s xs)
  have "merged (xs @ [s]) = merge_source s (merged xs)" by (simp add: merged_def)
  then show ?case using snoc by (auto simp: merge_source_def Let_def dget_or_def device_from_def group_snoc device_entry_def group_def hd_append)
qed (simp add: merged_def device_from_def)

lemma merged_ok: "dict_ok (merged xs)"
  by (induction xs rule: rev_induct) (auto simp: merged_def merge_source_def Let_def)

lemma device_from_id: "device_from (filter (\<lambda>s. mo_device s = i) xs) = Some d \<Longrightarrow> md_id d = i"
proof -
  assume "device_from (filter (\<lambda>s. mo_device s = i) xs) = Some d"
  then obtain s ss where "filter (\<lambda>s. mo_device s = i) xs = s # ss" "md_id d = mo_device s"
    by (cases "filter (\<lambda>s. mo_device s = i) xs") (auto simp: device_from_def device_entry_def)
  moreover from this have "mo_device s = i" by (metis (mono_tags, lifting) filter_eq_Cons_iff)
  ultimately show ?thesis by simp
qed

lemma device_of_list: "d \<in> set (dvals (merged xs)) \<longleftrightarrow> dget (merged xs) (md_id d) = Some d"
proof
  assume "d \<in> set (dvals (merged xs))"
  then obtain i where "dget (merged xs) i = Some d" using merged_ok [of xs] by (auto simp: dget_mem_iff)
  then show "dget (merged xs) (md_id d) = Some d" using device_from_id dget_merged by metis
qed (force dest: dget_mem)

lemma distinct_devices: "distinct (map md_id (dvals (merged xs)))"
proof -
  have "md_id d = i" if "(i, d) \<in> set (merged xs)" for i d
    using that merged_ok [of xs] device_from_id dget_merged by (metis dget_mem_iff)
  then have e: "map (md_id \<circ> snd) (merged xs) = map fst (merged xs)" by (intro map_cong) auto
  show ?thesis unfolding map_map e by (rule merged_ok)
qed

text \<open>A list with the devices of \<open>xs\<close> has all their sources, grouped.\<close>

definition lists_devices :: "msource list \<Rightarrow> mdevice list \<Rightarrow> bool" where
  "lists_devices xs ds \<longleftrightarrow> set ds = set (dvals (merged xs)) \<and> distinct (map md_id ds)"

lemma checks_merged: "dget (merged xs) i = Some d \<Longrightarrow> device_checks d = flat (group (filter (\<lambda>s. mo_device s = i) xs))"
  by (auto simp: dget_merged device_from_def device_checks_def flat_def split: if_splits)

lemma filter_checks:
  assumes "d \<in> set (dvals (merged xs))"
  shows "filter (\<lambda>s. mo_device s = i) (device_checks d) = (if md_id d = i then device_checks d else [])"
proof -
  have "device_checks d = flat (group (filter (\<lambda>s. mo_device s = md_id d) xs))" using assms checks_merged device_of_list by blast
  then have "\<forall>s\<in>set (device_checks d). mo_device s = md_id d" by (simp add: set_flat)
  then show ?thesis by (auto simp: filter_empty_conv)
qed

lemma filter_kept_none:
  "set ds \<subseteq> set (dvals (merged xs)) \<Longrightarrow> i \<notin> md_id ` set ds \<Longrightarrow> filter (\<lambda>s. mo_device s = i) (kept_sources ds) = []"
proof (induction ds)
  case (Cons d ds)
  then have "md_id d \<noteq> i" "d \<in> set (dvals (merged xs))" by auto
  with Cons filter_checks [of d xs i] show ?case by (simp add: kept_sources_def)
qed (simp add: kept_sources_def)

lemma filter_kept:
  "set ds \<subseteq> set (dvals (merged xs)) \<Longrightarrow> distinct (map md_id ds) \<Longrightarrow> d \<in> set ds \<Longrightarrow>
   filter (\<lambda>s. mo_device s = md_id d) (kept_sources ds) = device_checks d"
proof (induction ds)
  case (Cons e ds)
  have e: "e \<in> set (dvals (merged xs))" "set ds \<subseteq> set (dvals (merged xs))" using Cons.prems(1) by auto
  have k: "kept_sources (e # ds) = device_checks e @ kept_sources ds" by (simp add: kept_sources_def)
  show ?case
  proof (cases "d = e")
    case True
    then show ?thesis using k filter_checks [OF e(1), of "md_id d"] filter_kept_none [OF e(2), of "md_id d"] Cons.prems(2) by simp
  next
    case False
    then have d: "d \<in> set ds" using Cons.prems(3) by simp
    then have "md_id e \<noteq> md_id d" using Cons.prems(2) by auto
    then show ?thesis using k filter_checks [OF e(1), of "md_id d"] Cons.IH [OF e(2) _ d] Cons.prems(2) by simp
  qed
qed simp

lemma kept_of_device:
  assumes "lists_devices xs ds"
  shows "filter (\<lambda>s. mo_device s = i) (kept_sources ds) = flat (group (filter (\<lambda>s. mo_device s = i) xs))"
proof (cases "dget (merged xs) i")
  case None
  then have "i \<notin> md_id ` set ds" using assms device_of_list by (fastforce simp: lists_devices_def)
  then have "filter (\<lambda>s. mo_device s = i) (kept_sources ds) = []" using filter_kept_none [of ds xs i] assms by (simp add: lists_devices_def)
  moreover have "filter (\<lambda>s. mo_device s = i) xs = []" using None by (simp add: dget_merged device_from_def split: if_splits)
  ultimately show ?thesis by (simp add: group_def flat_def)
next
  case (Some d)
  have i: "md_id d = i" using Some device_from_id dget_merged by metis
  then have "d \<in> set ds" using Some assms device_of_list [of d xs] by (simp add: lists_devices_def)
  then show ?thesis using filter_kept [of ds xs d] assms checks_merged [OF Some] i by (simp add: lists_devices_def)
qed

lemma device_from_kept:
  "device_from (flat (group xs) @ ys) = device_from (xs @ ys)"
proof (cases "xs = []")
  case False
  then have "flat (group xs) \<noteq> []" using set_flat [of xs] by (metis set_empty)
  then show ?thesis using False hd_flat [OF False] by (simp add: device_from_def group_regroup)
qed (simp add: group_def flat_def)

lemma merged_kept: "lists_devices xs ds \<Longrightarrow> dget (merged (kept_sources ds @ ys)) = dget (merged (xs @ ys))"
  by (rule ext) (simp add: dget_merged kept_of_device device_from_kept)

lemma dget_devices: "dget (merged xs) = dget (merged ys) \<Longrightarrow> set (dvals (merged xs)) = set (dvals (merged ys))"
  using device_of_list [of _ xs] device_of_list [of _ ys] by (simp only: set_eq_iff) simp

lemma aggregate_cong: "dget (merged xs) = dget (merged ys) \<Longrightarrow> aggregate xs = aggregate ys"
proof -
  assume e: "dget (merged xs) = dget (merged ys)"
  have "distinct (dvals (merged zs))" for zs using distinct_devices [of zs] by (simp only: distinct_map)
  then have m: "mset (dvals (merged ys)) = mset (dvals (merged xs))"
    using dget_devices [OF e] set_eq_iff_mset_eq_distinct by metis
  have "inj_on device_order (set (dvals (merged xs)))"
    using distinct_devices [of xs] by (auto simp: distinct_map device_order_def inj_on_def)
  then have "sort_key device_order (dvals (merged xs)) = sort_key device_order (dvals (merged ys))"
    using m by (intro sort_key_inj_key_eq) simp_all
  then show ?thesis by (simp add: aggregate_def)
qed

lemma lists_aggregate: "lists_devices xs (ag_devices (aggregate xs))"
  using distinct_devices [of xs] by (auto simp: lists_devices_def aggregate_def summarize_def distinct_map inj_on_def)

text \<open>
  Property C36: aggregating the results phase by phase, from the sources kept with the devices of the run,
  gives exactly what aggregating all results at once gives: devices, order, counts and status.
\<close>

theorem morning_phases_exact:
  "aggregate (kept_sources (ag_devices (aggregate xs)) @ ys) = aggregate (xs @ ys)"
  by (rule aggregate_cong [OF merged_kept [OF lists_aggregate]])

end
