(* ===== verification/MorningRuns.thy ===== *)
theory MorningRuns
  imports Morning
begin

text \<open>
  The runs of the daily update check, \<open>backend/morning_updates.py\<close>: the lease in the document that lets one
  run at a time be active, the phases, the views of a run and the notification about it, and the whole
  execution of a run. Times are seconds; the results of the phases and the delivery are arguments.
\<close>

section \<open>The notification\<close>

text \<open>The characters of HOL have eight bits: these stand for U+2026, U+2014, U+00B7 and the end of a line.\<close>

definition ellipsis :: char where "ellipsis = CHR 0x85"
definition dash :: char where "dash = CHR 0x97"
definition middot :: char where "middot = CHR 0xB7"
definition line_break :: char where "line_break = CHR 0x0A"

definition kind_label :: "source_kind \<Rightarrow> string" where
  "kind_label k = (case k of AnsibleOs \<Rightarrow> ''OS'' | AnsibleDocker \<Rightarrow> ''container'' | AnsibleProxmox \<Rightarrow> ''Proxmox'' | DeviceNative \<Rightarrow> ''device'')"

definition source_parts :: "(json \<Rightarrow> string) \<Rightarrow> source_kind \<Rightarrow> msource \<Rightarrow> string list" where
  "source_parts r k s = (if mo_status s \<noteq> ''updates_available'' then []
     else (if mo_count s = JNull then [kind_label k @ '' update'']
           else [str_json r (mo_count s) @ '' '' @ kind_label k @ '' '' @ (if py_eq (mo_count s) (JInt 1) then ''update'' else ''updates'')]) @
          (if mo_kernel s then [''kernel update''] else []))"

text \<open>\<open>dict.fromkeys\<close> keeps the first of equal parts.\<close>

definition dedup :: "'a list \<Rightarrow> 'a list" where
  "dedup xs = rev (remdups (rev xs))"

definition source_summary :: "(json \<Rightarrow> string) \<Rightarrow> mdevice \<Rightarrow> string" where
  "source_summary r d = (let parts = concat (map (\<lambda>(k, ss). concat (map (source_parts r k) ss)) (md_sources d)) @
       (if requires_reboot d then [''reboot required''] else []);
     text = join_with ''; '' (dedup parts) in if text = [] then ''updates available'' else text)"

definition body_with :: "string \<Rightarrow> string list \<Rightarrow> nat \<Rightarrow> string" where
  "body_with prefix_text es n = join_with [line_break] ((if prefix_text = [] then [] else [prefix_text]) @ take n es) @
     (if n < length es then line_break # ellipsis # ''and '' @ digits_of_nat (length es - n) @ '' more devices'' else [])"

fun fit :: "string \<Rightarrow> string list \<Rightarrow> nat \<Rightarrow> nat \<Rightarrow> string" where
  "fit prefix_text es limit 0 = (if length (body_with prefix_text es 0) \<le> limit then body_with prefix_text es 0 else take limit prefix_text)"
| "fit prefix_text es limit (Suc n) =
     (if length (body_with prefix_text es (Suc n)) \<le> limit then body_with prefix_text es (Suc n) else fit prefix_text es limit n)"

definition bounded_body :: "string \<Rightarrow> string list \<Rightarrow> nat \<Rightarrow> string" where
  "bounded_body prefix_text es limit = (if es = [] then take limit prefix_text else fit prefix_text es limit (length es))"

datatype note_kind = Updates | Failures | Success

record announcement =
  no_title :: string
  no_body :: string
  no_kind :: note_kind

definition check_failed_entry :: "mdevice \<Rightarrow> string" where
  "check_failed_entry d = md_name d @ '' '' @ [dash] @ '' check failed''"

definition format_notification :: "(json \<Rightarrow> string) \<Rightarrow> nat \<Rightarrow> aggregated \<Rightarrow> announcement" where
  "format_notification r limit a =
     (let ds = ag_devices a; updates = filter requires_updates ds; failed = filter check_incomplete ds;
          reboots = length (filter requires_reboot ds); n = digits_of_nat in
      if updates \<noteq> [] then
        \<lparr>no_title = ''HomeLabHQ: '' @ n (length updates) @ '' devices require updates'',
         no_body = bounded_body
           (if failed = [] then [] else n (length updates) @ '' need updates '' @ [middot] @ '' '' @ n reboots @ '' reboot required '' @ [middot] @
              '' '' @ n (ag_failed a) @ '' checks failed'')
           (map (\<lambda>d. md_name d @ '' '' @ [dash] @ '' '' @ source_summary r d) updates @
            map check_failed_entry (filter (\<lambda>d. \<not> requires_updates d) failed)) limit,
         no_kind = Updates\<rparr>
      else if failed \<noteq> [] then
        \<lparr>no_title = ''HomeLabHQ: Morning check incomplete'',
         no_body = bounded_body (n (ag_failed a) @ '' checks failed'') (map check_failed_entry failed) limit, no_kind = Failures\<rparr>
      else if ag_unsupported a \<noteq> 0 then
        \<lparr>no_title = ''HomeLabHQ: Morning check completed'',
         no_body = (if ag_checked a \<noteq> 0 then n (ag_checked a) @ '' devices checked '' @ [middot] @ '' '' @ n (ag_unsupported a) @ '' unsupported.''
           else n (ag_unsupported a) @ '' devices do not support update checks.''), no_kind = Success\<rparr>
      else if ag_checked a \<noteq> 0 then
        \<lparr>no_title = ''HomeLabHQ: Everything is up to date'',
         no_body = ''Morning check completed. '' @ n (ag_checked a) @ '' devices checked.'', no_kind = Success\<rparr>
      else \<lparr>no_title = ''HomeLabHQ: Morning check completed'', no_body = ''No update checks were enabled or applicable.'', no_kind = Success\<rparr>)"

section \<open>Runs and their views\<close>

datatype sent = Skipped string note_kind | Sent string note_kind doc | Undelivered string note_kind string

record mrun =
  ru_id :: string
  ru_scheduled :: bool
  ru_by :: string
  ru_for :: "int option"
  ru_started :: int
  ru_completed :: "int option"
  ru_status :: run_status
  ru_config :: doc
  ru_phases :: "(string, string) dict"
  ru_result :: aggregated
  ru_delivery :: "sent list"
  ru_fatal :: "string option"

record muser =
  mu_admin :: bool
  mu_prefs :: doc

record lease =
  le_run :: string
  le_token :: string
  le_expires :: int

record mdoc =
  mn_runs :: "(string, mrun) dict"
  mn_lock :: "lease option"
  mn_config :: doc
  mn_users :: "(string, muser) dict"
  mn_states :: "(string, msource option) dict"

definition view_aggregate :: "mrun \<Rightarrow> mdevice list \<Rightarrow> mrun" where
  "view_aggregate run ds = (let a = aggregate (kept_sources ds) in
     run\<lparr>ru_result := a, ru_by := [], ru_fatal := None, ru_status := (if ds = [] then ru_status run else ag_status a)\<rparr>)"

definition visible_run :: "mrun \<Rightarrow> string \<Rightarrow> bool \<Rightarrow> mrun" where
  "visible_run run user admin = (if admin then run
     else view_aggregate run (filter (\<lambda>d. md_owner d = Some user) (ag_devices (ru_result run))))"

definition run_order :: "mrun \<Rightarrow> int \<times> string" where
  "run_order run = (ru_started run, ru_id run)"

definition latest_run :: "mdoc \<Rightarrow> mrun option" where
  "latest_run d = (case sort_key run_order (dvals (mn_runs d)) of [] \<Rightarrow> None | x # xs \<Rightarrow> Some (last (x # xs)))"

definition get_run :: "string option \<Rightarrow> string \<Rightarrow> bool \<Rightarrow> mdoc \<Rightarrow> mrun option" where
  "get_run rid user admin d = map_option (\<lambda>run. visible_run run user admin)
     (case rid of Some i \<Rightarrow> dget (mn_runs d) i | None \<Rightarrow> latest_run d)"

definition wants :: "doc \<Rightarrow> string \<Rightarrow> bool" where
  "wants prefs k = truthy (getn prefs k)"

definition should_send :: "doc \<Rightarrow> note_kind \<Rightarrow> nat \<Rightarrow> bool" where
  "should_send prefs k failed = (case k of
     Updates \<Rightarrow> wants prefs ''notifyUpdates'' \<or> failed \<noteq> 0 \<and> wants prefs ''notifyFailures''
   | Failures \<Rightarrow> wants prefs ''notifyFailures'' | Success \<Rightarrow> wants prefs ''notifySuccess'')"

definition notify_user :: "(json \<Rightarrow> string) \<Rightarrow> nat \<Rightarrow> (string \<Rightarrow> announcement \<Rightarrow> doc result) \<Rightarrow> (failure \<Rightarrow> string) \<Rightarrow> mrun \<Rightarrow> string \<times> muser \<Rightarrow> sent" where
  "notify_user r limit send safe run uv = (case uv of (uid, u) \<Rightarrow>
     let a = ru_result (visible_run run uid (mu_admin u)); n = format_notification r limit a in
     if \<not> should_send (notification_preferences (mu_prefs u)) (no_kind n) (ag_failed a) then Skipped uid (no_kind n)
     else (case send uid n of Inr x \<Rightarrow> Sent uid (no_kind n) x | Inl e \<Rightarrow> Undelivered uid (no_kind n) (take 500 (safe e))))"

definition notify_run :: "(json \<Rightarrow> string) \<Rightarrow> nat \<Rightarrow> (string \<Rightarrow> announcement \<Rightarrow> doc result) \<Rightarrow> (failure \<Rightarrow> string) \<Rightarrow> mrun \<Rightarrow> mdoc \<Rightarrow> sent list" where
  "notify_run r limit send safe run d = map (notify_user r limit send safe run) (mn_users d)"

section \<open>Settings in the document\<close>

definition save_settings_mut :: "string \<Rightarrow> doc option \<Rightarrow> doc option \<Rightarrow> mdoc \<Rightarrow> (mdoc \<times> unit) result" where
  "save_settings_mut user cfg prefs d =
     (let d1 = (case cfg of None \<Rightarrow> d | Some c \<Rightarrow> d\<lparr>mn_config := c\<rparr>) in
      case prefs of None \<Rightarrow> Inr (d1, ())
      | Some p \<Rightarrow> (case dget (mn_users d1) user of
          None \<Rightarrow> Inl (ValueError ''user not found'')
        | Some u \<Rightarrow> Inr (d1\<lparr>mn_users := dput user (u\<lparr>mu_prefs := p\<rparr>) (mn_users d1)\<rparr>, ())))"

definition optional :: "('a \<Rightarrow> 'b result) \<Rightarrow> 'a option \<Rightarrow> 'b option result" where
  "optional f x = (case x of None \<Rightarrow> Inr None | Some v \<Rightarrow> rbind (f v) (\<lambda>y. Inr (Some y)))"

definition save_settings :: "(string \<Rightarrow> bool) \<Rightarrow> string \<Rightarrow> bool \<Rightarrow> json option \<Rightarrow> json option \<Rightarrow> mdoc \<Rightarrow> unit result \<times> mdoc" where
  "save_settings zone_ok user admin cfg prefs d =
     (case rbind (optional (validate_config zone_ok) cfg) (\<lambda>c. rbind (optional validate_preferences prefs) (\<lambda>p. Inr (c, p))) of
        Inl e \<Rightarrow> (Inl e, d)
      | Inr (c, p) \<Rightarrow> if c \<noteq> None \<and> \<not> admin then (Inl (Forbidden ''administrator access required''), d)
          else transact (save_settings_mut user c p) d)"

text \<open>The state of a device after its own check; a device that is gone is skipped.\<close>

definition persist_native :: "msource \<Rightarrow> mdoc \<Rightarrow> mdoc" where
  "persist_native s d = (if dget (mn_states d) (mo_device s) = None then d
     else d\<lparr>mn_states := dput (mo_device s) (Some s) (mn_states d)\<rparr>)"

section \<open>The lease\<close>

definition already_active :: failure where
  "already_active = Conflict ''an update check run is already active''"

definition run_finished :: "run_status \<Rightarrow> bool" where
  "run_finished s \<longleftrightarrow> s \<noteq> RRunning"

definition abandon :: "int \<Rightarrow> lease option \<Rightarrow> (string, mrun) dict \<Rightarrow> (string, mrun) dict" where
  "abandon now lock runs = (case lock of
     None \<Rightarrow> runs
   | Some l \<Rightarrow> (case dget runs (le_run l) of
       Some run \<Rightarrow> if ru_status run = RRunning
         then dput (le_run l) (run\<lparr>ru_status := RFailed, ru_completed := Some now,
           ru_fatal := Some ''The previous process stopped before the run completed''\<rparr>) runs
         else runs
     | None \<Rightarrow> runs))"

definition new_run :: "string \<Rightarrow> bool \<Rightarrow> string \<Rightarrow> int option \<Rightarrow> int \<Rightarrow> doc \<Rightarrow> mrun" where
  "new_run rid scheduled by occ now c = \<lparr>ru_id = rid, ru_scheduled = scheduled, ru_by = by, ru_for = occ, ru_started = now,
     ru_completed = None, ru_status = RRunning, ru_config = c,
     ru_phases = [(''ansible'', if truthy (getn c ''runAnsibleChecks'') then ''pending'' else ''disabled''),
       (''deviceNative'', if truthy (getn c ''runDeviceNativeChecks'') then ''pending'' else ''disabled'')],
     ru_result = aggregate [], ru_delivery = [], ru_fatal = None\<rparr>"

definition retention_order :: "mrun \<Rightarrow> int \<times> string" where
  "retention_order run = (case ru_completed run of Some t \<Rightarrow> t | None \<Rightarrow> ru_started run, ru_id run)"

definition expired_runs :: "nat \<Rightarrow> (string, mrun) dict \<Rightarrow> string list" where
  "expired_runs cap runs = map ru_id (take (length runs - cap)
     (sort_key retention_order (filter (\<lambda>run. run_finished (ru_status run)) (dvals runs))))"

definition has_run :: "int option \<Rightarrow> (string, mrun) dict \<Rightarrow> bool" where
  "has_run occ runs \<longleftrightarrow> occ \<noteq> None \<and> list_ex (\<lambda>run. ru_scheduled run \<and> ru_for run = occ) (dvals runs)"

definition acquire_mut :: "nat \<Rightarrow> int \<Rightarrow> bool \<Rightarrow> string \<Rightarrow> int option \<Rightarrow> int \<Rightarrow> string \<Rightarrow> string \<Rightarrow> mdoc \<Rightarrow> (mdoc \<times> mrun) result" where
  "acquire_mut cap term scheduled by occ now rid tok d =
     (if (case mn_lock d of Some l \<Rightarrow> now < le_expires l | None \<Rightarrow> False) then Inl already_active
      else (let runs = abandon now (mn_lock d) (mn_runs d) in
        if has_run occ runs then Inl (Conflict ''this scheduled update check has already run'')
        else (let run = new_run rid scheduled by occ now (configured_check (mn_config d)); runs' = dput rid run runs in
          Inr (d\<lparr>mn_runs := ddel_all (expired_runs cap runs') runs',
                 mn_lock := Some \<lparr>le_run = rid, le_token = tok, le_expires = now + term\<rparr>\<rparr>, run))))"

definition acquire :: "nat \<Rightarrow> int \<Rightarrow> bool \<Rightarrow> string \<Rightarrow> int option \<Rightarrow> int \<Rightarrow> string \<Rightarrow> string \<Rightarrow> mdoc \<Rightarrow> mrun result \<times> mdoc" where
  "acquire cap term scheduled by occ now rid tok d = transact (acquire_mut cap term scheduled by occ now rid tok) d"

definition holds :: "string \<Rightarrow> string \<Rightarrow> mdoc \<Rightarrow> bool" where
  "holds rid tok d \<longleftrightarrow> (case mn_lock d of Some l \<Rightarrow> le_run l = rid \<and> le_token l = tok | None \<Rightarrow> False)"

definition renew_lock :: "int \<Rightarrow> string \<Rightarrow> string \<Rightarrow> int \<Rightarrow> mdoc \<Rightarrow> mdoc" where
  "renew_lock term rid tok now d = (if holds rid tok d then d\<lparr>mn_lock := map_option (\<lambda>l. l\<lparr>le_expires := now + term\<rparr>) (mn_lock d)\<rparr> else d)"

definition release :: "string \<Rightarrow> string \<Rightarrow> mdoc \<Rightarrow> mdoc" where
  "release rid tok d = (if holds rid tok d then d\<lparr>mn_lock := None\<rparr> else d)"

definition change_run :: "string \<Rightarrow> (mrun \<Rightarrow> mrun) \<Rightarrow> mdoc \<Rightarrow> mdoc" where
  "change_run rid g d = (case dget (mn_runs d) rid of None \<Rightarrow> d | Some run \<Rightarrow> d\<lparr>mn_runs := dput rid (g run) (mn_runs d)\<rparr>)"

definition add_phase :: "string \<Rightarrow> msource list \<Rightarrow> mrun \<Rightarrow> mrun" where
  "add_phase phase rs run = (let a = aggregate (kept_sources (ag_devices (ru_result run)) @ rs) in
     run\<lparr>ru_result := a, ru_status := ag_status a, ru_phases := dput phase ''completed'' (ru_phases run)\<rparr>)"

definition persist_phase :: "string \<Rightarrow> string \<Rightarrow> msource list \<Rightarrow> mdoc \<Rightarrow> mdoc" where
  "persist_phase rid phase rs = change_run rid (add_phase phase rs)"

definition complete_run :: "string \<Rightarrow> int \<Rightarrow> sent list \<Rightarrow> mdoc \<Rightarrow> mdoc" where
  "complete_run rid now delivery = change_run rid (\<lambda>run. run\<lparr>ru_completed := Some now,
     ru_status := ag_status (aggregate (kept_sources (ag_devices (ru_result run)))), ru_delivery := delivery\<rparr>)"

definition fail_run :: "string \<Rightarrow> int \<Rightarrow> string \<Rightarrow> mdoc \<Rightarrow> mdoc" where
  "fail_run rid now err = change_run rid (\<lambda>run. run\<lparr>ru_completed := Some now, ru_status := RFailed, ru_fatal := Some (take 500 err)\<rparr>)"

section \<open>The execution of a run\<close>

record menv =
  ex_cap :: nat
  ex_term :: int
  ex_ansible :: "mdoc \<Rightarrow> string \<Rightarrow> msource list result"
  ex_native :: "mdoc \<Rightarrow> json \<Rightarrow> msource list result"
  ex_deliver :: "mrun \<Rightarrow> mdoc \<Rightarrow> sent list result"
  ex_safe :: "failure \<Rightarrow> string"
  ex_time :: "nat \<Rightarrow> int"

definition run_phase :: "string \<Rightarrow> bool \<Rightarrow> string \<Rightarrow> msource list result \<Rightarrow> mdoc \<Rightarrow> unit result \<times> mdoc" where
  "run_phase rid wanted phase x d = (if \<not> wanted then (Inr (), d)
     else (case x of Inl e \<Rightarrow> (Inl e, d) | Inr rs \<Rightarrow> (Inr (), persist_phase rid phase rs d)))"

definition finish_run :: "menv \<Rightarrow> string \<Rightarrow> mdoc \<Rightarrow> unit result \<times> mdoc" where
  "finish_run env rid d = (case dget (mn_runs d) rid of
     None \<Rightarrow> (Inl (KeyError rid), d)
   | Some run \<Rightarrow> (case ex_deliver env run d of
       Inl e \<Rightarrow> (Inl e, d) | Inr sent \<Rightarrow> (Inr (), complete_run rid (ex_time env 2) sent d)))"

definition run_phases :: "menv \<Rightarrow> string \<Rightarrow> string \<Rightarrow> mrun \<Rightarrow> mdoc \<Rightarrow> unit result \<times> mdoc" where
  "run_phases env rid tok initial d =
     (let c = ru_config initial; d0 = renew_lock (ex_term env) rid tok (ex_time env 0) d in
      case run_phase rid (truthy (getn c ''runAnsibleChecks'')) ''ansible'' (ex_ansible env d0 (ru_by initial)) d0 of
        (Inl e, d1) \<Rightarrow> (Inl e, d1)
      | (Inr _, d1) \<Rightarrow> (let d2 = renew_lock (ex_term env) rid tok (ex_time env 1) d1 in
          case run_phase rid (truthy (getn c ''runDeviceNativeChecks'')) ''deviceNative'' (ex_native env d2 (getn c ''deviceTimeoutSeconds'')) d2 of
            (Inl e, d3) \<Rightarrow> (Inl e, d3) | (Inr _, d3) \<Rightarrow> finish_run env rid d3))"

definition execute :: "menv \<Rightarrow> string \<Rightarrow> string \<Rightarrow> mdoc \<Rightarrow> mdoc" where
  "execute env rid tok d = (case dget (mn_runs d) rid of
     None \<Rightarrow> release rid tok d
   | Some initial \<Rightarrow> (case run_phases env rid tok initial d of
       (Inl e, d1) \<Rightarrow> release rid tok (fail_run rid (ex_time env 3) (ex_safe env e) d1)
     | (Inr _, d1) \<Rightarrow> release rid tok d1))"

definition start_run :: "menv \<Rightarrow> string \<Rightarrow> string \<Rightarrow> int option \<Rightarrow> int \<Rightarrow> string \<Rightarrow> string \<Rightarrow> mdoc \<Rightarrow> mrun result \<times> mdoc" where
  "start_run env trigger by occ now rid tok d =
     (if trigger \<notin> set [''scheduled'', ''manual''] then (Inl (ValueError ''invalid update check trigger''), d)
      else acquire (ex_cap env) (ex_term env) (trigger = ''scheduled'') by occ now rid tok d)"

definition scheduler_tick :: "menv \<Rightarrow> zones \<Rightarrow> int \<Rightarrow> string \<Rightarrow> string \<Rightarrow> mdoc \<Rightarrow> mrun option result \<times> mdoc" where
  "scheduler_tick env z now rid tok d = (case due_occurrence z (configured_check (mn_config d)) now of
     None \<Rightarrow> (Inr None, d)
   | Some occ \<Rightarrow> (case start_run env ''scheduled'' ''morning-scheduler'' (Some occ) now rid tok d of
       (Inr run, d') \<Rightarrow> (Inr (Some run), d')
     | (Inl (Conflict m), d') \<Rightarrow> (Inr None, d')
     | (Inl e, d') \<Rightarrow> (Inl e, d')))"

section \<open>The body of a notification\<close>

lemma fit_cases:
  "fit start es limit n = (case find (\<lambda>k. length (body_with start es k) \<le> limit) (rev [0..<Suc n]) of
     Some k \<Rightarrow> body_with start es k | None \<Rightarrow> take limit start)"
  by (induction n) auto

text \<open>
  The body of a notification never exceeds its limit, and it lists as many devices as fit
  with the line that counts the others: no larger number of entries would fit.
\<close>

theorem morning_body_bounded:
  "length (bounded_body start es limit) \<le> limit \<and>
   (\<forall>k. k \<le> length es \<and> es \<noteq> [] \<and> length (body_with start es k) \<le> limit \<longrightarrow>
      (\<exists>n. k \<le> n \<and> n \<le> length es \<and> bounded_body start es limit = body_with start es n))"
proof (cases "es = []")
  case False
  note upt_Suc [simp del]
  let ?P = "\<lambda>k. length (body_with start es k) \<le> limit"
  have b: "bounded_body start es limit = (case find ?P (rev [0..<Suc (length es)]) of
     Some k \<Rightarrow> body_with start es k | None \<Rightarrow> take limit start)"
    using False by (simp add: bounded_body_def fit_cases)
  show ?thesis
  proof (cases "find ?P (rev [0..<Suc (length es)])")
    case None
    then have "\<not> ?P k" if "k \<le> length es" for k using that by (auto simp: find_None_iff simp del: upt_Suc)
    then show ?thesis using b None by (auto simp del: upt_Suc)
  next
    case (Some n)
    then obtain i where i: "i < Suc (length es)" "n = rev [0..<Suc (length es)] ! i" "?P n"
      "\<forall>j<i. \<not> ?P (rev [0..<Suc (length es)] ! j)" by (auto simp: find_Some_iff)
    have at: "rev [0..<Suc (length es)] ! j = length es - j" if "j \<le> length es" for j
      using that by (simp add: rev_nth del: upt_Suc)
    then have n: "n = length es - i" using i(1,2) by simp
    have "k \<le> n" if "k \<le> length es" "?P k" for k
    proof (rule ccontr)
      assume "\<not> k \<le> n"
      then have "length es - k < i" using n that(1) by linarith
      then have "\<not> ?P (rev [0..<Suc (length es)] ! (length es - k))" using i(4) by blast
      then show False using at [of "length es - k"] that by simp
    qed
    moreover have "n \<le> length es" "bounded_body start es limit = body_with start es n" using n b Some by simp_all
    ultimately show ?thesis using i(3) by (auto intro!: exI [of _ n])
  qed
qed (simp add: bounded_body_def)

section \<open>The view of a user\<close>

lemma dget_merged_kept:
  assumes "set ds \<subseteq> set (dvals (merged xs))" "distinct (map md_id ds)"
  shows "dget (merged (kept_sources ds)) i = find (\<lambda>d. md_id d = i) ds"
proof (cases "find (\<lambda>d. md_id d = i) ds")
  case None
  then have "i \<notin> md_id ` set ds" by (auto simp: find_None_iff)
  then show ?thesis using None filter_kept_none [OF assms(1)] by (simp add: dget_merged device_from_def)
next
  case (Some d)
  then have d: "d \<in> set ds" "md_id d = i" by (auto simp: find_Some_iff)
  then have m: "dget (merged xs) i = Some d" using assms(1) device_of_list by auto
  have "filter (\<lambda>s. mo_device s = i) (kept_sources ds) = flat (group (filter (\<lambda>s. mo_device s = i) xs)) @ []"
    using filter_kept [OF assms d(1)] d(2) checks_merged [OF m] by simp
  then show ?thesis using Some m device_from_kept [of "filter (\<lambda>s. mo_device s = i) xs" "[]"] by (simp add: dget_merged)
qed

lemma aggregate_kept:
  assumes "set ds \<subseteq> set (dvals (merged xs))" "distinct (map md_id ds)" "sorted (map device_order ds)"
  shows "aggregate (kept_sources ds) = summarize ds"
proof -
  let ?m = "merged (kept_sources ds)"
  have "d \<in> set (dvals ?m) \<longleftrightarrow> d \<in> set ds" for d
  proof -
    have "d \<in> set (dvals ?m) \<longleftrightarrow> find (\<lambda>e. md_id e = md_id d) ds = Some d"
      using device_of_list [of d "kept_sources ds"] dget_merged_kept [OF assms(1,2)] by simp
    also have "\<dots> \<longleftrightarrow> d \<in> set ds"
    proof
      assume d: "d \<in> set ds"
      then obtain e where e: "find (\<lambda>e. md_id e = md_id d) ds = Some e" by (cases "find (\<lambda>e. md_id e = md_id d) ds") (auto simp: find_None_iff)
      then have "e \<in> set ds" "md_id e = md_id d" by (auto simp: find_Some_iff)
      then have "e = d" using d assms(2) by (auto simp: distinct_map inj_on_def)
      with e show "find (\<lambda>e. md_id e = md_id d) ds = Some d" by simp
    qed (auto simp: find_Some_iff)
    finally show ?thesis .
  qed
  then have "set (dvals ?m) = set ds" by blast
  moreover have "distinct (dvals ?m)" "distinct ds" using distinct_devices [of "kept_sources ds"] assms(2) by (simp_all only: distinct_map)
  ultimately have "mset ds = mset (dvals ?m)" using set_eq_iff_mset_eq_distinct by metis
  moreover have "inj_on device_order (set ds)" using assms(2) by (auto simp: distinct_map device_order_def inj_on_def)
  ultimately have "sort_key device_order (dvals ?m) = ds"
    using assms(3) \<open>set (dvals ?m) = set ds\<close> by (intro sort_key_inj_key_eq) simp_all
  then show ?thesis by (simp add: aggregate_def)
qed

text \<open>
  A user who is not an administrator sees of a run exactly the devices the user owns, with
  all counts computed from these devices alone.
\<close>

theorem morning_view_exact:
  assumes "ru_result run = aggregate xs"
  shows "ru_result (visible_run run user False) = summarize (filter (\<lambda>d. md_owner d = Some user) (ag_devices (ru_result run)))"
proof -
  let ?ds = "ag_devices (aggregate xs)"
  have s: "sorted (map device_order ?ds)" by (simp add: aggregate_def summarize_def)
  have l: "set ?ds = set (dvals (merged xs))" "distinct (map md_id ?ds)" using lists_aggregate [of xs] by (auto simp: lists_devices_def)
  have "aggregate (kept_sources (filter P ?ds)) = summarize (filter P ?ds)" for P
    using l s by (intro aggregate_kept [of _ xs]) (auto simp: distinct_map_filter sorted_filter)
  then show ?thesis using assms by (simp add: visible_run_def view_aggregate_def Let_def)
qed

section \<open>The whole run\<close>

lemma dget_change_run: "dget (mn_runs (change_run rid g d)) i = (if i = rid then map_option g (dget (mn_runs d) i) else dget (mn_runs d) i)"
  by (auto simp: change_run_def split: option.split)

lemma lock_change_run [simp]: "mn_lock (change_run rid g d) = mn_lock d"
  by (simp add: change_run_def split: option.split)

lemma runs_renew [simp]: "mn_runs (renew_lock term rid tok now d) = mn_runs d"
  by (simp add: renew_lock_def)

lemma runs_release [simp]: "mn_runs (release rid tok d) = mn_runs d"
  by (simp add: release_def)

lemma holds_renew [simp]: "holds r t (renew_lock term rid tok now d) = holds r t d"
  by (auto simp: renew_lock_def holds_def split: option.splits)

lemma holds_change [simp]: "holds r t (change_run rid g d) = holds r t d"
  by (simp add: holds_def)

lemma release_lock: "holds rid tok d \<Longrightarrow> mn_lock (release rid tok d) = None"
  by (simp add: release_def)

definition runs_keyed :: "(string, mrun) dict \<Rightarrow> bool" where
  "runs_keyed runs \<longleftrightarrow> dict_all (\<lambda>i run. ru_id run = i) runs"

lemma runs_keyedD: "runs_keyed runs \<Longrightarrow> dget runs i = Some run \<Longrightarrow> ru_id run = i"
  and runs_keyed_ok: "runs_keyed runs \<Longrightarrow> dict_ok runs"
  by (auto simp: runs_keyed_def dict_all_def)

lemma runs_keyed_abandon: "runs_keyed runs \<Longrightarrow> runs_keyed (abandon now lock runs)"
  unfolding runs_keyed_def abandon_def by (auto intro!: dict_all_dput dest: dict_allD split: option.splits)

lemma dkeys_dput_known: "dget d k = Some v \<Longrightarrow> set (dkeys (dput k w d)) = set (dkeys d)"
  and length_dput_known: "dget d k = Some v \<Longrightarrow> length (dput k w d) = length d"
proof -
  assume "dget d k = Some v"
  then have "k \<in> set (dkeys d)" by (metis dget_None_iff option.distinct(1))
  then show "set (dkeys (dput k w d)) = set (dkeys d)" "length (dput k w d) = length d"
    using dkeys_dput [of k w d] length_dput [of k w d] by auto
qed

lemma dkeys_abandon: "set (dkeys (abandon now lock runs)) = set (dkeys runs)" "length (abandon now lock runs) = length runs"
  unfolding abandon_def by (simp_all add: dkeys_dput_known length_dput_known del: set_map split: option.split)

lemma expired_mem:
  assumes "runs_keyed runs" "i \<in> set (expired_runs cap runs)"
  shows "\<exists>run. dget runs i = Some run \<and> run_finished (ru_status run)"
proof -
  obtain run where "run \<in> set (dvals runs)" "run_finished (ru_status run)" "ru_id run = i"
    using assms(2) by (force simp: expired_runs_def dest!: in_set_takeD)
  then show ?thesis using assms(1) by (auto simp: runs_keyed_def dict_all_def dget_mem_iff)
qed

text \<open>What a successful start leaves.\<close>

lemma acquire_cases:
  assumes "acquire cap term scheduled by occ now rid tok d = (Inr run, d1)"
  obtains runs where "runs = abandon now (mn_lock d) (mn_runs d)" "\<not> has_run occ runs"
    "run = new_run rid scheduled by occ now (configured_check (mn_config d))"
    "d1 = d\<lparr>mn_runs := ddel_all (expired_runs cap (dput rid run runs)) (dput rid run runs),
       mn_lock := Some \<lparr>le_run = rid, le_token = tok, le_expires = now + term\<rparr>\<rparr>"
    "\<And>l. mn_lock d = Some l \<Longrightarrow> le_expires l \<le> now"
  using assms by (auto simp: acquire_def acquire_mut_def transact_def Let_def split: if_splits option.splits)

lemma acquire_stores:
  assumes "acquire cap term scheduled by occ now rid tok d = (Inr run, d1)" "runs_keyed (mn_runs d)"
  shows "dget (mn_runs d1) rid = Some run \<and> holds rid tok d1 \<and> ru_status run = RRunning \<and> ru_result run = aggregate [] \<and>
    ru_id run = rid \<and> ru_config run = configured_check (mn_config d) \<and> ru_by run = by \<and> ru_fatal run = None"
proof -
  obtain runs where r: "runs = abandon now (mn_lock d) (mn_runs d)" "run = new_run rid scheduled by occ now (configured_check (mn_config d))"
    "d1 = d\<lparr>mn_runs := ddel_all (expired_runs cap (dput rid run runs)) (dput rid run runs),
       mn_lock := Some \<lparr>le_run = rid, le_token = tok, le_expires = now + term\<rparr>\<rparr>"
    using assms(1) by (rule acquire_cases)
  have k: "runs_keyed (dput rid run runs)"
    using runs_keyed_abandon [OF assms(2)] r(1,2) by (auto simp: runs_keyed_def new_run_def intro!: dict_all_dput)
  have "rid \<notin> set (expired_runs cap (dput rid run runs))"
    using expired_mem [OF k, of rid cap] r(2) by (auto simp: new_run_def run_finished_def)
  then show ?thesis using r by (auto simp: holds_def new_run_def)
qed

definition answered_phase :: "bool \<Rightarrow> msource list result \<Rightarrow> msource list \<Rightarrow> bool" where
  "answered_phase wanted x rs \<longleftrightarrow> (if wanted then x = Inr rs else rs = [])"

lemma run_phase_Inr:
  assumes "run_phase rid wanted phase x d = (Inr u, d')" "dget (mn_runs d) rid = Some run" "ru_result run = aggregate xs"
  shows "\<exists>rs run'. answered_phase wanted x rs \<and> dget (mn_runs d') rid = Some run' \<and> ru_result run' = aggregate (xs @ rs) \<and>
    ru_fatal run' = ru_fatal run \<and> mn_lock d' = mn_lock d \<and> (\<forall>i. i \<noteq> rid \<longrightarrow> dget (mn_runs d') i = dget (mn_runs d) i)"
proof (cases wanted)
  case True
  then obtain rs where x: "x = Inr rs" "d' = persist_phase rid phase rs d"
    using assms(1) by (auto simp: run_phase_def split: sum.splits)
  have "aggregate (kept_sources (ag_devices (ru_result run)) @ rs) = aggregate (xs @ rs)"
    unfolding assms(3) by (rule aggregate_cong [OF merged_kept [OF lists_aggregate]])
  then show ?thesis using True x assms(2) by (auto simp: answered_phase_def persist_phase_def dget_change_run add_phase_def Let_def)
next
  case False
  then show ?thesis using assms by (auto simp: run_phase_def answered_phase_def)
qed

lemma run_phase_Inl: "run_phase rid wanted phase x d = (Inl e, d') \<Longrightarrow> d' = d \<and> x = Inl e"
  by (auto simp: run_phase_def split: if_splits sum.splits)

text \<open>How the execution of a run ends: all its results are in, or what it raised is its fatal error.\<close>

definition run_done :: "menv \<Rightarrow> doc \<Rightarrow> string \<Rightarrow> mrun \<Rightarrow> bool" where
  "run_done env c by run \<longleftrightarrow> (\<exists>D1 D2 D3 before xs ys.
     answered_phase (truthy (getn c ''runAnsibleChecks'')) (ex_ansible env D1 by) xs \<and>
     answered_phase (truthy (getn c ''runDeviceNativeChecks'')) (ex_native env D2 (getn c ''deviceTimeoutSeconds'')) ys \<and>
     ex_deliver env before D3 = Inr (ru_delivery run) \<and> ru_result before = ru_result run \<and>
     ru_result run = aggregate (xs @ ys) \<and> ru_status run = ag_status (aggregate (xs @ ys)) \<and> ru_fatal run = None)"

definition run_failed :: "menv \<Rightarrow> doc \<Rightarrow> string \<Rightarrow> mrun \<Rightarrow> bool" where
  "run_failed env c by run \<longleftrightarrow> ru_status run = RFailed \<and> (\<exists>e D run'. ru_fatal run = Some (take 500 (ex_safe env e)) \<and>
     (ex_ansible env D by = Inl e \<or> ex_native env D (getn c ''deviceTimeoutSeconds'') = Inl e \<or> ex_deliver env run' D = Inl e))"

lemma run_phases_exact:
  assumes run: "dget (mn_runs d) rid = Some run" "ru_result run = aggregate []" "ru_fatal run = None"
    and m: "run_phases env rid tok run d = (x, d')" and h: "holds rid tok d"
  shows "holds rid tok d' \<and> (\<forall>i. i \<noteq> rid \<longrightarrow> dget (mn_runs d') i = dget (mn_runs d) i) \<and> (\<exists>r. dget (mn_runs d') rid = Some r \<and>
    (case x of Inr _ \<Rightarrow> ru_completed r \<noteq> None \<and> run_done env (ru_config run) (ru_by run) r
     | Inl e \<Rightarrow> \<exists>D run'. ex_ansible env D (ru_by run) = Inl e \<or> ex_native env D (getn (ru_config run) ''deviceTimeoutSeconds'') = Inl e \<or>
         ex_deliver env run' D = Inl e))"
proof -
  let ?c = "ru_config run"
  define d0 where "d0 = renew_lock (ex_term env) rid tok (ex_time env 0) d"
  have d0: "dget (mn_runs d0) rid = Some run" "holds rid tok d0" "mn_runs d0 = mn_runs d" using run h by (simp_all add: d0_def)
  obtain x1 d1 where p1: "run_phase rid (truthy (getn ?c ''runAnsibleChecks'')) ''ansible'' (ex_ansible env d0 (ru_by run)) d0 = (x1, d1)" by fastforce
  show ?thesis
  proof (cases x1)
    case (Inl e)
    then have "x = Inl e" "d' = d1" using m p1 by (auto simp: run_phases_def d0_def Let_def)
    then show ?thesis using run_phase_Inl [OF p1 [unfolded Inl]] d0 by auto
  next
    case (Inr u)
    obtain xs r1 where r1: "answered_phase (truthy (getn ?c ''runAnsibleChecks'')) (ex_ansible env d0 (ru_by run)) xs"
      "dget (mn_runs d1) rid = Some r1" "ru_result r1 = aggregate xs" "ru_fatal r1 = None" "mn_lock d1 = mn_lock d0"
      "\<forall>i. i \<noteq> rid \<longrightarrow> dget (mn_runs d1) i = dget (mn_runs d0) i"
      using run_phase_Inr [OF p1 [unfolded Inr] d0(1) run(2)] run(3) by auto
    have h1: "holds rid tok d1" using r1(5) d0(2) by (simp add: holds_def)
    define d2 where "d2 = renew_lock (ex_term env) rid tok (ex_time env 1) d1"
    have d2: "dget (mn_runs d2) rid = Some r1" "holds rid tok d2" "mn_runs d2 = mn_runs d1"
      using r1(2) h1 by (simp_all add: d2_def)
    obtain x2 d3 where p2: "run_phase rid (truthy (getn ?c ''runDeviceNativeChecks'')) ''deviceNative''
        (ex_native env d2 (getn ?c ''deviceTimeoutSeconds'')) d2 = (x2, d3)" by fastforce
    show ?thesis
    proof (cases x2)
      case (Inl e)
      then have "x = Inl e" "d' = d3" using m p1 Inr p2 by (auto simp: run_phases_def d0_def d2_def Let_def)
      then show ?thesis using run_phase_Inl [OF p2 [unfolded Inl]] d2 r1 d0 by auto
    next
      fix u2 assume u2: "x2 = Inr u2"
      obtain ys r2 where r2: "answered_phase (truthy (getn ?c ''runDeviceNativeChecks'')) (ex_native env d2 (getn ?c ''deviceTimeoutSeconds'')) ys"
        "dget (mn_runs d3) rid = Some r2" "ru_result r2 = aggregate (xs @ ys)" "ru_fatal r2 = None" "mn_lock d3 = mn_lock d2"
        "\<forall>i. i \<noteq> rid \<longrightarrow> dget (mn_runs d3) i = dget (mn_runs d2) i"
        using run_phase_Inr [OF p2 [unfolded u2] d2(1) r1(3)] r1(4) by auto
      have f: "finish_run env rid d3 = (x, d')" using m p1 Inr p2 u2 by (auto simp: run_phases_def d0_def d2_def Let_def)
      have h3: "holds rid tok d3" using r2(5) d2(2) by (simp add: holds_def)
      have o3: "\<forall>i. i \<noteq> rid \<longrightarrow> dget (mn_runs d3) i = dget (mn_runs d) i" using r2(6) r1(6) d2(3) d0(3) by simp
      have k: "aggregate (kept_sources (ag_devices (aggregate (xs @ ys)))) = aggregate (xs @ ys)"
        using aggregate_cong [OF merged_kept [OF lists_aggregate], of "xs @ ys" "[]"] by simp
      show ?thesis
      proof (cases "ex_deliver env r2 d3")
        case (Inl e)
        then have "x = Inl e" "d' = d3" using f r2(2) by (auto simp: finish_run_def)
        then show ?thesis using Inl r2(2) h3 o3 by (auto intro!: exI [of _ d3])
      next
        case (Inr sent)
        then have x: "x = Inr ()" "d' = complete_run rid (ex_time env 2) sent d3" using f r2(2) by (auto simp: finish_run_def)
        have "run_done env ?c (ru_by run) (r2\<lparr>ru_completed := Some t, ru_status := ag_status (aggregate (xs @ ys)), ru_delivery := sent\<rparr>)" for t
          unfolding run_done_def using r1(1) r2(1,3,4) Inr
          by (intro exI [of _ d0] exI [of _ d2] exI [of _ d3] exI [of _ r2] exI [of _ xs] exI [of _ ys]) simp
        then show ?thesis using x h3 o3 r2(2,3) k by (simp add: complete_run_def dget_change_run)
      qed
    qed
  qed
qed

text \<open>
  Property C34: a run that is started ends. Its execution, whatever the checks and the delivery answer or
  raise, leaves the run completed and the lease free and touches no other run; the result is the aggregate
  of all that the wanted phases returned, with the status of that aggregate, or the run has failed with the
  error that was raised.
\<close>

theorem morning_run_exact:
  assumes "start_run env trigger by occ now rid tok d = (Inr run, d1)" and "runs_keyed (mn_runs d)"
  shows "mn_lock (execute env rid tok d1) = None \<and>
    (\<forall>i. i \<noteq> rid \<longrightarrow> dget (mn_runs (execute env rid tok d1)) i = dget (mn_runs d1) i) \<and>
    (\<exists>r. dget (mn_runs (execute env rid tok d1)) rid = Some r \<and> ru_completed r \<noteq> None \<and>
       (run_done env (configured_check (mn_config d)) by r \<or> run_failed env (configured_check (mn_config d)) by r))"
proof -
  have "acquire (ex_cap env) (ex_term env) (trigger = ''scheduled'') by occ now rid tok d = (Inr run, d1)"
    using assms(1) by (auto simp: start_run_def split: if_splits)
  from acquire_stores [OF this assms(2)] have s: "dget (mn_runs d1) rid = Some run" "holds rid tok d1" "ru_result run = aggregate []"
    "ru_config run = configured_check (mn_config d)" "ru_by run = by" "ru_fatal run = None" by auto
  obtain x d' where m: "run_phases env rid tok run d1 = (x, d')" by fastforce
  note e = run_phases_exact [OF s(1,3,6) m s(2), unfolded s(4,5)]
  show ?thesis
  proof (cases x)
    case (Inr u)
    then have "execute env rid tok d1 = release rid tok d'" using s(1) m by (simp add: execute_def)
    then show ?thesis using e Inr release_lock [of rid tok d'] by auto
  next
    case (Inl f)
    let ?d = "fail_run rid (ex_time env 3) (ex_safe env f) d'"
    have x: "execute env rid tok d1 = release rid tok ?d" using s(1) m Inl by (simp add: execute_def)
    have "holds rid tok ?d" using e by (simp add: fail_run_def)
    then show ?thesis using e Inl x release_lock [of rid tok ?d]
      by (auto simp: fail_run_def dget_change_run run_failed_def)
  qed
qed

end
