(* ===== verification/MorningLease.thy ===== *)
theory MorningLease
  imports MorningRuns
begin

text \<open>
  Runs of the daily update check side by side, \<open>backend/morning_updates.py\<close>: the threads of runs, started by
  the scheduler or by hand, whose requests to the document interleave, and processes that stop between two
  of them. The lease keeps one run active at a time; a run that lost its lease may still write its results.
\<close>

section \<open>Threads\<close>

text \<open>A thread knows its run and its token; it is over with its run once that is completed or has failed.\<close>

record run_thread =
  mt_run :: string
  mt_token :: string
  mt_over :: bool

record mworld =
  mw_doc :: mdoc
  mw_threads :: "run_thread list"
  mw_now :: int

definition with_doc :: "(mdoc \<Rightarrow> mdoc) \<Rightarrow> mworld \<Rightarrow> mworld" where
  "with_doc g w = w\<lparr>mw_doc := g (mw_doc w)\<rparr>"

definition over :: "run_thread \<Rightarrow> mworld \<Rightarrow> mworld" where
  "over t w = w\<lparr>mw_threads := (t\<lparr>mt_over := True\<rparr>) # remove1 t (mw_threads w)\<rparr>"

definition drop_thread :: "run_thread \<Rightarrow> mworld \<Rightarrow> mworld" where
  "drop_thread t w = w\<lparr>mw_threads := remove1 t (mw_threads w)\<rparr>"

definition fresh_run :: "string \<Rightarrow> string \<Rightarrow> mworld \<Rightarrow> bool" where
  "fresh_run rid tok w \<longleftrightarrow> dget (mn_runs (mw_doc w)) rid = None \<and> rid \<notin> mt_run ` set (mw_threads w) \<and> tok \<notin> mt_token ` set (mw_threads w)"

inductive morning_step :: "nat \<Rightarrow> int \<Rightarrow> mworld \<Rightarrow> mworld \<Rightarrow> bool" for cap :: nat and ttl :: int where
  starts: "fresh_run rid tok w \<Longrightarrow> acquire cap ttl scheduled by occ (mw_now w) rid tok (mw_doc w) = (Inr run, d') \<Longrightarrow>
    morning_step cap ttl w (w\<lparr>mw_doc := d', mw_threads := \<lparr>mt_run = rid, mt_token = tok, mt_over = False\<rparr> # mw_threads w\<rparr>)"
| renews: "t \<in> set (mw_threads w) \<Longrightarrow> morning_step cap ttl w (with_doc (renew_lock ttl (mt_run t) (mt_token t) (mw_now w)) w)"
| persists: "t \<in> set (mw_threads w) \<Longrightarrow> \<not> mt_over t \<Longrightarrow> morning_step cap ttl w (with_doc (persist_phase (mt_run t) phase rs) w)"
| completes: "t \<in> set (mw_threads w) \<Longrightarrow> \<not> mt_over t \<Longrightarrow>
    morning_step cap ttl w (over t (with_doc (complete_run (mt_run t) (mw_now w) delivery) w))"
| fails: "t \<in> set (mw_threads w) \<Longrightarrow> \<not> mt_over t \<Longrightarrow> morning_step cap ttl w (over t (with_doc (fail_run (mt_run t) (mw_now w) err) w))"
| ends: "t \<in> set (mw_threads w) \<Longrightarrow> mt_over t \<or> dget (mn_runs (mw_doc w)) (mt_run t) = None \<Longrightarrow>
    morning_step cap ttl w (drop_thread t (with_doc (release (mt_run t) (mt_token t)) w))"
| crashes: "t \<in> set (mw_threads w) \<Longrightarrow> morning_step cap ttl w (drop_thread t w)"
| states: "morning_step cap ttl w (with_doc (persist_native s) w)"
| saves: "morning_step cap ttl w (with_doc (\<lambda>d. snd (save_settings zone_ok user admin c p d)) w)"
| passes: "mw_now w \<le> now \<Longrightarrow> morning_step cap ttl w (w\<lparr>mw_now := now\<rparr>)"

inductive morning_reachable :: "nat \<Rightarrow> int \<Rightarrow> mworld \<Rightarrow> mworld \<Rightarrow> bool" for cap :: nat and ttl :: int and w0 :: mworld where
  at_start: "morning_reachable cap ttl w0 w0"
| next_step: "morning_reachable cap ttl w0 w \<Longrightarrow> morning_step cap ttl w w' \<Longrightarrow> morning_reachable cap ttl w0 w'"

section \<open>The invariant\<close>

definition marked_running :: "mdoc \<Rightarrow> string \<Rightarrow> bool" where
  "marked_running d i \<longleftrightarrow> (\<exists>run. dget (mn_runs d) i = Some run \<and> ru_status run = RRunning)"

definition leased :: "mdoc \<Rightarrow> string \<Rightarrow> bool" where
  "leased d i \<longleftrightarrow> (\<exists>l. mn_lock d = Some l \<and> le_run l = i)"

definition occurrences_unique :: "mdoc \<Rightarrow> bool" where
  "occurrences_unique d \<longleftrightarrow> (\<forall>i j r s. dget (mn_runs d) i = Some r \<and> dget (mn_runs d) j = Some s \<and>
     ru_scheduled r \<and> ru_scheduled s \<and> ru_for r \<noteq> None \<and> ru_for r = ru_for s \<longrightarrow> i = j)"

definition world_ok :: "nat \<Rightarrow> mworld \<Rightarrow> bool" where
  "world_ok cap w \<longleftrightarrow> runs_keyed (mn_runs (mw_doc w)) \<and> length (mn_runs (mw_doc w)) \<le> cap \<and>
     (\<forall>i. marked_running (mw_doc w) i \<longrightarrow> leased (mw_doc w) i) \<and> occurrences_unique (mw_doc w) \<and>
     (\<forall>t\<in>set (mw_threads w). mt_over t \<longrightarrow> \<not> marked_running (mw_doc w) (mt_run t))"

text \<open>Changing a run in a way that keeps what identifies it.\<close>

definition same_run :: "(mrun \<Rightarrow> mrun) \<Rightarrow> bool" where
  "same_run g \<longleftrightarrow> (\<forall>r. ru_id (g r) = ru_id r \<and> ru_scheduled (g r) = ru_scheduled r \<and> ru_for (g r) = ru_for r \<and> ru_status (g r) \<noteq> RRunning)"

lemma status_of_finished: "status_of ds \<noteq> RRunning"
  by (simp add: status_of_def Let_def)

lemma aggregate_finished: "ag_status (aggregate xs) \<noteq> RRunning"
  by (simp add: aggregate_def summarize_def status_of_finished)

lemma add_phase_same: "same_run (add_phase phase rs)"
  by (simp add: same_run_def add_phase_def Let_def aggregate_finished)

lemma complete_same: "same_run (\<lambda>run. run\<lparr>ru_completed := Some now,
     ru_status := ag_status (aggregate (kept_sources (ag_devices (ru_result run)))), ru_delivery := delivery\<rparr>)"
  by (simp add: same_run_def aggregate_finished)

lemma fail_same: "same_run (\<lambda>run. run\<lparr>ru_completed := Some now, ru_status := RFailed, ru_fatal := err\<rparr>)"
  by (simp add: same_run_def)

lemma leased_change [simp]: "leased (change_run rid g d) i = leased d i"
  by (simp add: leased_def)

lemma running_change: "same_run g \<Longrightarrow> marked_running (change_run rid g d) i \<longleftrightarrow> i \<noteq> rid \<and> marked_running d i"
  by (auto simp: marked_running_def dget_change_run same_run_def)

lemma keyed_change: "same_run g \<Longrightarrow> runs_keyed (mn_runs d) \<Longrightarrow> runs_keyed (mn_runs (change_run rid g d))"
  unfolding runs_keyed_def change_run_def by (auto intro!: dict_all_dput dest: dict_allD simp: same_run_def split: option.split)

lemma length_change: "length (mn_runs (change_run rid g d)) = length (mn_runs d)"
  by (auto simp: change_run_def length_dput_known split: option.split)

lemma unique_change: "same_run g \<Longrightarrow> occurrences_unique d \<Longrightarrow> occurrences_unique (change_run rid g d)"
  unfolding occurrences_unique_def by (auto simp: dget_change_run same_run_def split: if_splits) metis+

lemma world_change:
  assumes "world_ok cap w" "same_run g"
  shows "world_ok cap (with_doc (change_run rid g) w)"
  using assms by (auto simp: world_ok_def with_doc_def keyed_change length_change running_change unique_change)

lemma world_over:
  assumes "world_ok cap w" "same_run g" "t \<in> set (mw_threads w)"
  shows "world_ok cap (over t (with_doc (change_run (mt_run t) g) w))"
  using assms set_remove1_subset [of t "mw_threads w"]
  by (fastforce simp: world_ok_def with_doc_def over_def keyed_change length_change running_change unique_change)

lemma world_same_runs:
  assumes "world_ok cap w" "mn_runs d' = mn_runs (mw_doc w)" "\<And>i. leased (mw_doc w) i \<Longrightarrow> leased d' i"
  shows "world_ok cap (w\<lparr>mw_doc := d'\<rparr>)"
  using assms by (auto simp: world_ok_def marked_running_def occurrences_unique_def)

lemma world_release:
  assumes "world_ok cap w" "\<not> marked_running (mw_doc w) rid"
  shows "world_ok cap (with_doc (release rid tok) w)"
  using assms by (auto simp: world_ok_def with_doc_def marked_running_def occurrences_unique_def leased_def release_def holds_def split: if_splits option.splits)

lemma world_drop: "world_ok cap w \<Longrightarrow> world_ok cap (drop_thread t w)"
  using set_remove1_subset [of t "mw_threads w"] by (auto simp: world_ok_def drop_thread_def)

text \<open>The start of a run: the abandoned run fails, the oldest finished runs go, the new run holds the lease.\<close>

lemma running_abandon:
  assumes "\<And>i. marked_running d i \<Longrightarrow> leased d i"
  shows "dget (abandon now (mn_lock d) (mn_runs d)) i = Some r \<Longrightarrow> ru_status r \<noteq> RRunning"
  using assms [of i] by (auto simp: abandon_def marked_running_def leased_def split: option.splits if_splits)

lemma occurrence_abandon:
  "dget (abandon now lock runs) i = Some r \<Longrightarrow> \<exists>s. dget runs i = Some s \<and> ru_scheduled s = ru_scheduled r \<and> ru_for s = ru_for r"
  by (auto simp: abandon_def split: option.splits if_splits)

lemma runs_retained:
  assumes k: "runs_keyed (dput rid run runs)" and fin: "\<And>i r. dget runs i = Some r \<Longrightarrow> run_finished (ru_status r)"
    and new: "dget runs rid = None" and cap: "0 < cap"
  shows "length (ddel_all (expired_runs cap (dput rid run runs)) (dput rid run runs)) \<le> max cap 1"
proof -
  let ?runs = "dput rid run runs"
  let ?fin = "filter (\<lambda>r. run_finished (ru_status r)) (dvals ?runs)"
  have ok: "dict_ok ?runs" using k by (rule runs_keyed_ok)
  have rid: "rid \<notin> set (dkeys runs)" by (rule iffD1 [OF dget_None_iff new])
  have l: "length ?runs = Suc (length runs)" using length_dput [of rid run runs] rid by (simp only: if_False)
  have d: "?runs = runs @ [(rid, run)]" using rid by (rule dput_new)
  have "dict_ok runs" using ok d by simp
  then have "\<forall>r\<in>set (dvals runs). run_finished (ru_status r)" using fin by (auto simp: dget_mem_iff)
  then have "filter (\<lambda>r. run_finished (ru_status r)) (dvals runs) = dvals runs" by (rule filter_True)
  then have "length runs \<le> length ?fin" unfolding d map_append filter_append length_append by simp
  have "distinct (map ru_id (dvals ?runs))"
  proof -
    have "ru_id r = i" if "(i, r) \<in> set ?runs" for i r using dict_all_mem [OF k [unfolded runs_keyed_def] that] .
    then have e: "map (ru_id \<circ> snd) ?runs = map fst ?runs" by (intro map_cong) auto
    show ?thesis unfolding map_map e by (rule ok)
  qed
  then have "distinct (map ru_id ?fin)" by (rule distinct_map_filter)
  then have dist: "distinct (map ru_id (sort_key retention_order ?fin))" unfolding distinct_map by simp
  have "i \<in> set (dkeys ?runs)" if "i \<in> set (expired_runs cap ?runs)" for i
    using expired_mem [OF k that] by (metis dget_None_iff option.distinct(1))
  then have "set (expired_runs cap ?runs) \<subseteq> set (dkeys ?runs)" by blast
  moreover have "distinct (expired_runs cap ?runs)"
    using dist unfolding expired_runs_def take_map [symmetric] by (rule distinct_take)
  moreover have "length (expired_runs cap ?runs) = min (length ?fin) (length ?runs - cap)"
    by (simp add: expired_runs_def)
  ultimately have "length (ddel_all (expired_runs cap ?runs) ?runs) = length ?runs - min (length ?fin) (length ?runs - cap)"
    using length_ddel_all [OF ok] by simp
  then show ?thesis using l \<open>length runs \<le> length ?fin\<close> by linarith
qed

lemma unique_start:
  assumes u: "occurrences_unique d" and none: "\<not> has_run occ (abandon now (mn_lock d) (mn_runs d))"
    and ok: "dict_ok (abandon now (mn_lock d) (mn_runs d))"
    and r: "ru_for run = occ"
    and sub: "\<And>i r. dget (mn_runs d') i = Some r \<Longrightarrow> i = rid \<and> r = run \<or> dget (abandon now (mn_lock d) (mn_runs d)) i = Some r"
  shows "occurrences_unique d'"
proof -
  have other: "\<not> ru_scheduled s" if "dget (abandon now (mn_lock d) (mn_runs d)) j = Some s" "ru_for s = occ" "occ \<noteq> None" for j s
    using none that ok by (force simp: has_run_def list_ex_iff dest: dget_mem)
  have old: "i = j" if "dget (abandon now (mn_lock d) (mn_runs d)) i = Some a" "dget (abandon now (mn_lock d) (mn_runs d)) j = Some b"
    "ru_scheduled a" "ru_scheduled b" "ru_for a \<noteq> None" "ru_for a = ru_for b" for i j a b
    using occurrence_abandon [OF that(1)] occurrence_abandon [OF that(2)] that(3-) u unfolding occurrences_unique_def by metis
  show ?thesis unfolding occurrences_unique_def
  proof (intro allI impI, elim conjE)
    fix i j a b
    assume a: "dget (mn_runs d') i = Some a" "dget (mn_runs d') j = Some b" "ru_scheduled a" "ru_scheduled b"
      "ru_for a \<noteq> None" "ru_for a = ru_for b"
    show "i = j" using sub [OF a(1)] sub [OF a(2)] a(3-) other old r by metis
  qed
qed

lemma world_start:
  assumes w: "world_ok cap w" and cap: "0 < cap" and fresh: "fresh_run rid tok w"
    and a: "acquire cap ttl scheduled by occ now rid tok (mw_doc w) = (Inr run, d')"
  shows "world_ok cap (w\<lparr>mw_doc := d', mw_threads := \<lparr>mt_run = rid, mt_token = tok, mt_over = False\<rparr> # mw_threads w\<rparr>)"
proof -
  let ?d = "mw_doc w"
  obtain runs where r: "runs = abandon now (mn_lock ?d) (mn_runs ?d)" "\<not> has_run occ runs"
    "run = new_run rid scheduled by occ now (configured_check (mn_config ?d))"
    "d' = ?d\<lparr>mn_runs := ddel_all (expired_runs cap (dput rid run runs)) (dput rid run runs),
       mn_lock := Some \<lparr>le_run = rid, le_token = tok, le_expires = now + ttl\<rparr>\<rparr>"
    using a by (rule acquire_cases)
  have kr: "runs_keyed runs" using w r(1) by (simp add: world_ok_def runs_keyed_abandon)
  have k: "runs_keyed (dput rid run runs)" using kr r(3) by (auto simp: runs_keyed_def new_run_def intro!: dict_all_dput)
  have fin: "run_finished (ru_status s)" if "dget runs i = Some s" for i s
    using running_abandon [of ?d now i s] that w r(1) by (auto simp: world_ok_def run_finished_def)
  have new: "dget runs rid = None"
    using fresh r(1) by (auto simp: fresh_run_def abandon_def split: option.splits if_splits)
  have len: "length (mn_runs d') \<le> cap" using runs_retained [OF k fin new cap] cap r(4) by simp
  have keyed: "runs_keyed (mn_runs d')" using k r(4) by (simp add: runs_keyed_def dict_all_ddel_all)
  have sub: "i = rid \<and> s = run \<or> dget runs i = Some s" if "dget (mn_runs d') i = Some s" for i s
    using that r(4) by (auto split: if_splits)
  then have run: "marked_running d' i \<Longrightarrow> i = rid" for i using fin by (auto simp: marked_running_def run_finished_def)
  have "occurrences_unique ?d" using w by (simp add: world_ok_def)
  moreover have "ru_for run = occ" using r(3) by (simp add: new_run_def)
  ultimately have "occurrences_unique d'"
    by (rule unique_start [OF _ r(2) [unfolded r(1)] runs_keyed_ok [OF kr, unfolded r(1)] _ sub [unfolded r(1)]])
  moreover have "leased d' rid" using r(4) by (simp add: leased_def)
  moreover have "\<not> marked_running d' (mt_run t)" if "t \<in> set (mw_threads w)" for t
    using run [of "mt_run t"] fresh that by (auto simp: fresh_run_def)
  ultimately show ?thesis using len keyed run by (auto simp: world_ok_def)
qed

lemma settings_runs: "mn_runs (snd (save_settings zone_ok user admin c p d)) = mn_runs d \<and> mn_lock (snd (save_settings zone_ok user admin c p d)) = mn_lock d"
  by (auto simp: save_settings_def save_settings_mut_def transact_def Let_def split: sum.split option.split)

lemma morning_step_ok: "morning_step cap ttl w w' \<Longrightarrow> 0 < cap \<Longrightarrow> world_ok cap w \<Longrightarrow> world_ok cap w'"
proof (induction rule: morning_step.induct)
  case (starts rid tok w scheduled occ run d')
  then show ?case by (intro world_start)
next
  case (renews t w)
  then show ?case unfolding with_doc_def by (intro world_same_runs) (auto simp: leased_def renew_lock_def)
next
  case (persists t w phase rs)
  then show ?case unfolding persist_phase_def by (intro world_change add_phase_same)
next
  case (completes t w delivery)
  then show ?case unfolding complete_run_def by (intro world_over complete_same)
next
  case (fails t w err)
  then show ?case unfolding fail_run_def by (intro world_over fail_same)
next
  case (ends t w)
  then show ?case by (intro world_drop world_release) (auto simp: world_ok_def marked_running_def)
next
  case (crashes t w)
  then show ?case by (intro world_drop)
next
  case (states w s)
  then show ?case unfolding with_doc_def by (intro world_same_runs) (auto simp: leased_def persist_native_def)
next
  case (saves w zone_ok user admin c p)
  then show ?case using settings_runs [of zone_ok user admin c p "mw_doc w"] unfolding with_doc_def
    by (intro world_same_runs) (auto simp: leased_def)
next
  case (passes w now)
  then show ?case by (simp add: world_ok_def)
qed

text \<open>
  Property C35: whatever threads of runs do and wherever processes stop, at most one run is marked as running,
  the one that holds the lease; a scheduled occurrence is stored once; the stored runs stay within their limit;
  and while the lease lasts no other run can start.
\<close>

theorem morning_lease_invariant:
  assumes "morning_reachable cap ttl w0 w" and "world_ok cap w0" and "0 < cap"
  shows "length (mn_runs (mw_doc w)) \<le> cap \<and> occurrences_unique (mw_doc w) \<and>
    (\<forall>i. marked_running (mw_doc w) i \<longrightarrow> leased (mw_doc w) i) \<and>
    (\<forall>l scheduled by occ rid tok. mn_lock (mw_doc w) = Some l \<and> mw_now w < le_expires l \<longrightarrow>
       acquire cap ttl scheduled by occ (mw_now w) rid tok (mw_doc w) = (Inl already_active, mw_doc w))"
proof -
  have "world_ok cap w" using assms by (induction rule: morning_reachable.induct) (auto intro: morning_step_ok)
  then show ?thesis by (auto simp: world_ok_def acquire_def acquire_mut_def transact_def)
qed

section \<open>An example\<close>

definition sample_source :: "string \<Rightarrow> msource" where
  "sample_source st = new_source (''nas'', ''nas'', Some ''ann'', ''device'') AnsibleOs st"

definition sample_mdoc :: mdoc where
  "sample_mdoc = \<lparr>mn_runs = [], mn_lock = None, mn_config = [], mn_users = [(''ann'', \<lparr>mu_admin = False, mu_prefs = []\<rparr>)], mn_states = []\<rparr>"

definition sample_world :: mworld where
  "sample_world = \<lparr>mw_doc = sample_mdoc, mw_threads = [], mw_now = 1000\<rparr>"

definition sample_run :: mrun where
  "sample_run = new_run ''r1'' True ''ann'' (Some 500) 1000 (configured_check [])"

definition sample_started :: mdoc where
  "sample_started = snd (acquire 10 300 True ''ann'' (Some 500) 1000 ''r1'' ''t1'' sample_mdoc)"

lemma sample_acquired: "acquire 10 300 True ''ann'' (Some 500) 1000 ''r1'' ''t1'' sample_mdoc = (Inr sample_run, sample_started)"
  by (simp add: sample_started_def sample_run_def acquire_def acquire_mut_def transact_def sample_mdoc_def abandon_def has_run_def Let_def)

lemma sample_lease: "mn_lock sample_started = Some \<lparr>le_run = ''r1'', le_token = ''t1'', le_expires = 1300\<rparr>"
  by (simp add: sample_started_def acquire_def acquire_mut_def transact_def sample_mdoc_def abandon_def has_run_def Let_def)

lemma sample_world_ok: "world_ok 10 sample_world"
  by (simp add: world_ok_def sample_world_def sample_mdoc_def runs_keyed_def marked_running_def occurrences_unique_def)

theorem morning_lease_invariant_witness:
  "acquire 10 300 False ''ann'' None 1000 ''r2'' ''t2'' sample_started = (Inl already_active, sample_started)"
proof -
  have "morning_reachable 10 300 sample_world (sample_world\<lparr>mw_doc := sample_started, mw_threads := [\<lparr>mt_run = ''r1'', mt_token = ''t1'', mt_over = False\<rparr>]\<rparr>)"
    using next_step [OF at_start starts [of "''r1''" "''t1''" sample_world 10 300 True "''ann''" "Some 500" sample_run sample_started]] sample_acquired
    by (simp add: fresh_run_def sample_world_def sample_mdoc_def)
  from morning_lease_invariant [OF this sample_world_ok]
  show ?thesis using sample_lease by (simp add: sample_world_def)
qed

definition sample_menv :: menv where
  "sample_menv = \<lparr>ex_cap = 10, ex_term = 300, ex_ansible = (\<lambda>_ _. Inr [sample_source ''up_to_date'']), ex_native = (\<lambda>_ _. Inl TypeError),
     ex_deliver = (\<lambda>_ _. Inr []), ex_safe = (\<lambda>_. ''no answer''), ex_time = (\<lambda>n. 1001 + int n)\<rparr>"

theorem morning_run_exact_witness:
  "mn_lock (execute sample_menv ''r1'' ''t1'' sample_started) = None \<and>
   (\<exists>r. dget (mn_runs (execute sample_menv ''r1'' ''t1'' sample_started)) ''r1'' = Some r \<and> ru_completed r \<noteq> None)"
proof -
  have "start_run sample_menv ''scheduled'' ''ann'' (Some 500) 1000 ''r1'' ''t1'' sample_mdoc = (Inr sample_run, sample_started)"
    using sample_acquired by (simp add: start_run_def sample_menv_def)
  from morning_run_exact [OF this] show ?thesis by (auto simp: sample_mdoc_def runs_keyed_def)
qed

theorem morning_view_exact_witness:
  "ru_result (visible_run (sample_run\<lparr>ru_result := aggregate [sample_source ''failed'']\<rparr>) ''bob'' False) =
   summarize (filter (\<lambda>d. md_owner d = Some ''bob'') (ag_devices (aggregate [sample_source ''failed''])))"
  using morning_view_exact [of "sample_run\<lparr>ru_result := aggregate [sample_source ''failed'']\<rparr>" "[sample_source ''failed'']" "''bob''"] by simp

theorem morning_body_bounded_witness:
  "\<exists>n. 1 \<le> n \<and> n \<le> 3 \<and> bounded_body [] [''nas'', ''router'', ''switch''] 30 = body_with [] [''nas'', ''router'', ''switch''] n"
proof -
  have "length (body_with [] [''nas'', ''router'', ''switch''] 1) \<le> 30" by code_simp
  then show ?thesis using morning_body_bounded [of "[]" "[''nas'', ''router'', ''switch'']" 30] by fastforce
qed

text \<open>
  The phases write the status of their results into the run, so a run whose process stopped after its first
  phase is not recognised as abandoned: the next run finds it successful, and it never completes.
\<close>

definition sample_stopped :: mdoc where
  "sample_stopped = snd (acquire 10 300 False ''ann'' None 2000 ''r2'' ''t2''
     (persist_phase ''r1'' ''ansible'' [sample_source ''up_to_date''] sample_started))"

lemma abandoned_run_looks_successful:
  "map_option (\<lambda>r. (ru_status r, ru_completed r, ru_fatal r)) (dget (mn_runs sample_stopped) ''r1'') = Some (RSuccessful, None, None)"
  by code_simp

lemma abandoned_run_fails:
  "map_option (\<lambda>r. (ru_status r, ru_completed r)) (dget (mn_runs (snd (acquire 10 300 False ''ann'' None 2000 ''r2'' ''t2'' sample_started))) ''r1'') =
   Some (RFailed, Some 2000)"
  by code_simp

end
