(* ===== verification/Updates.thy ===== *)
theory Updates
  imports JobResults
begin

text \<open>
  Software updates of Proxmox devices, \<open>backend/device_updates.py\<close>, first part: the decision whether a node
  needs a reboot, made from the answers of fixed read-only probes, the check of a device and the snapshot of it
  in the document, and the privileged credentials. An open connection is a function from the fixed commands to
  their exit code and output; a command that fails to run is a failure. Characters are ASCII.
\<close>

section \<open>Commands and their outputs\<close>

datatype command = AptUpdate | AptUpgrade | RunningKernel | KernelPins | BootToolList | NeedrestartKernel | InstalledTarget |
  RebootMarker | RebootNode | IdU

type_synonym shell = "command \<Rightarrow> (int \<times> string) result"

definition run_probe :: "shell \<Rightarrow> command \<Rightarrow> int option \<times> string" where
  "run_probe conn c = (case conn c of Inr (code, out) \<Rightarrow> (Some code, out) | Inl _ \<Rightarrow> (None, []))"

definition is_alnum :: "char \<Rightarrow> bool" where
  "is_alnum c = (let n = of_char c :: nat in 48 \<le> n \<and> n \<le> 57 \<or> 65 \<le> n \<and> n \<le> 90 \<or> 97 \<le> n \<and> n \<le> 122)"

definition kernel_name :: "string \<Rightarrow> bool" where
  "kernel_name s = (case s of [] \<Rightarrow> False
     | c # cs \<Rightarrow> is_alnum c \<and> 1 \<le> length cs \<and> length cs \<le> 199 \<and> list_all (\<lambda>d. is_alnum d \<or> d \<in> set ''.+:~_-'') cs)"

text \<open>The first line of a text that is not blank; a blank one has no line.\<close>

definition kernel_value :: "string \<Rightarrow> string option result" where
  "kernel_value v = (if v = [] then Inr None
     else (case splitlines (strip v) of [] \<Rightarrow> Inl IndexError
       | l # _ \<Rightarrow> Inr (if kernel_name l then Some l else None)))"

fun split_once :: "char \<Rightarrow> string \<Rightarrow> (string \<times> string) option" where
  "split_once c [] = None"
| "split_once c (x # xs) = (if x = c then Some ([], xs) else map_option (\<lambda>(a, b). (x # a, b)) (split_once c xs))"

text \<open>A pinned kernel with the kind of its pin.\<close>

definition parse_pin :: "string \<Rightarrow> (string \<times> string) option result" where
  "parse_pin out = (case split_once (CHR 0x09) (strip out) of
     Some (kind, rest) \<Rightarrow> if kind = ''next'' \<or> kind = ''permanent''
       then rbind (kernel_value rest) (\<lambda>k. Inr (map_option (\<lambda>x. (x, kind)) k)) else Inr None
   | None \<Rightarrow> Inr None)"

datatype boot_section = Manual | Automatic | Pinned

record boot_list =
  bl_recognized :: bool
  bl_pinned :: "string option"
  bl_selected :: "string list"

definition no_boot_list :: boot_list where
  "no_boot_list = \<lparr>bl_recognized = False, bl_pinned = None, bl_selected = []\<rparr>"

definition boot_header :: "string \<Rightarrow> boot_section option" where
  "boot_header low = (if startswith low ''manually selected kernels:'' then Some Manual
     else if startswith low ''automatically selected kernels:'' then Some Automatic
     else if startswith low ''pinned kernel:'' then Some Pinned else None)"

definition boot_entry :: "boot_section option \<Rightarrow> string option \<Rightarrow> boot_list \<Rightarrow> boot_list" where
  "boot_entry sec k b = (case (sec, k) of
     (Some Pinned, Some x) \<Rightarrow> if bl_pinned b = None then b\<lparr>bl_pinned := Some x\<rparr> else b
   | (Some _, Some x) \<Rightarrow> b\<lparr>bl_selected := bl_selected b @ [x]\<rparr>
   | _ \<Rightarrow> b)"

fun boot_lines :: "boot_section option \<Rightarrow> boot_list \<Rightarrow> string list \<Rightarrow> boot_list result" where
  "boot_lines sec b [] = Inr b"
| "boot_lines sec b (raw # ls) = (let line = strip raw in
     case boot_header (lower line) of
       Some Pinned \<Rightarrow> (let same = strip (case split_once (CHR '':'') line of Some (_, r) \<Rightarrow> r | None \<Rightarrow> []) in
         if same \<noteq> [] then rbind (kernel_value same) (\<lambda>k. boot_lines (Some Pinned) (b\<lparr>bl_recognized := True, bl_pinned := k\<rparr>) ls)
         else boot_lines (Some Pinned) (b\<lparr>bl_recognized := True\<rparr>) ls)
     | Some s \<Rightarrow> boot_lines (Some s) (b\<lparr>bl_recognized := True\<rparr>) ls
     | None \<Rightarrow> if line = [] \<or> lower line = ''none'' then boot_lines sec b ls
         else rbind (kernel_value line) (\<lambda>k. boot_lines sec (boot_entry sec k b) ls))"

definition parse_boot_tool :: "string \<Rightarrow> boot_list result" where
  "parse_boot_tool out = boot_lines None no_boot_list (splitlines out)"

record need_list =
  nl_status :: "int option"
  nl_running :: "string option"
  nl_expected :: "string option"

definition no_need_list :: need_list where
  "no_need_list = \<lparr>nl_status = None, nl_running = None, nl_expected = None\<rparr>"

definition need_line :: "string \<Rightarrow> (string \<times> string) option" where
  "need_line line = first_some (\<lambda>k. let p = ''NEEDRESTART-'' @ k @ '':'' in
     if startswith line p then Some (k, strip (drop (length p) line)) else None) [''KCUR'', ''KEXP'', ''KSTA'']"

definition need_values :: "string \<Rightarrow> (string, string) dict" where
  "need_values out = foldl (\<lambda>d line. case need_line line of Some (k, v) \<Rightarrow> dput k v d | None \<Rightarrow> d) [] (splitlines out)"

definition parse_needrestart :: "string \<Rightarrow> need_list result" where
  "parse_needrestart out = (let d = need_values out in
     rbind (kernel_value (dget_or d ''KCUR'' [])) (\<lambda>cur. rbind (kernel_value (dget_or d ''KEXP'' [])) (\<lambda>ex.
     Inr \<lparr>nl_status = (case int_of_string (dget_or d ''KSTA'' []) of
            Some n \<Rightarrow> if 0 \<le> n \<and> n \<le> 3 then Some n else None | None \<Rightarrow> None),
          nl_running = cur, nl_expected = ex\<rparr>)))"

section \<open>The reboot decision\<close>

datatype reboot_state = RebootRequired | RebootNotRequired | RebootUnknown

text \<open>The signals of an undecided check leave out what the boot tool and the pins say.\<close>

record signals =
  sg_mismatch :: "bool option"
  sg_need :: "bool option"
  sg_marker :: "bool option"
  sg_boot :: "(bool option \<times> bool option) option"

record reboot =
  rb_state :: reboot_state
  rb_required :: "bool option"
  rb_reason :: string
  rb_running :: "string option"
  rb_target :: "string option"
  rb_signals :: signals
  rb_checked :: string
  rb_diagnostics :: "string list"

definition unknown_reboot :: "string \<Rightarrow> string \<Rightarrow> reboot" where
  "unknown_reboot reason stamp = \<lparr>rb_state = RebootUnknown, rb_required = None, rb_reason = reason, rb_running = None, rb_target = None,
     rb_signals = \<lparr>sg_mismatch = None, sg_need = None, sg_marker = None, sg_boot = None\<rparr>, rb_checked = stamp, rb_diagnostics = []\<rparr>"

definition if_code0 :: "int option \<times> string \<Rightarrow> 'a \<Rightarrow> (string \<Rightarrow> 'a result) \<Rightarrow> 'a result" where
  "if_code0 p other f = (case p of (code, out) \<Rightarrow> if code = Some 0 then f out else Inr other)"

definition need_signal :: "int option \<Rightarrow> bool option" where
  "need_signal st = (if st = Some 1 then Some False else if st = Some 2 \<or> st = Some 3 then Some True else None)"

definition marker_of :: "int option \<Rightarrow> bool option" where
  "marker_of code = (if code = Some 0 then Some True else if code = Some 1 then Some False else None)"

text \<open>What the probes say; the errors come in the order of the probes.\<close>

record readings =
  rd_running :: "string option"
  rd_pin :: "(string \<times> string) option"
  rd_pin_code :: "int option"
  rd_boot_code :: "int option"
  rd_boot :: boot_list
  rd_need_code :: "int option"
  rd_need :: need_list
  rd_marker :: "bool option"

definition read_node :: "shell \<Rightarrow> readings result" where
  "read_node conn =
     rbind (if_code0 (run_probe conn RunningKernel) None kernel_value) (\<lambda>running.
     rbind (if_code0 (run_probe conn KernelPins) None parse_pin) (\<lambda>pin.
     rbind (if_code0 (run_probe conn BootToolList) no_boot_list parse_boot_tool) (\<lambda>boot.
     rbind (if_code0 (run_probe conn NeedrestartKernel) no_need_list parse_needrestart) (\<lambda>need.
     Inr \<lparr>rd_running = running, rd_pin = pin, rd_pin_code = fst (run_probe conn KernelPins),
       rd_boot_code = fst (run_probe conn BootToolList), rd_boot = boot,
       rd_need_code = fst (run_probe conn NeedrestartKernel), rd_need = need,
       rd_marker = marker_of (fst (run_probe conn RebootMarker))\<rparr>))))"

definition running_kernel :: "readings \<Rightarrow> string option" where
  "running_kernel rd = (if rd_running rd = None then nl_running (rd_need rd) else rd_running rd)"

definition pinned_kernel :: "readings \<Rightarrow> (string \<times> string) option" where
  "pinned_kernel rd = (if rd_pin rd = None then map_option (\<lambda>k. (k, ''boot-tool'')) (bl_pinned (rd_boot rd)) else rd_pin rd)"

definition probe_errors :: "readings \<Rightarrow> string list" where
  "probe_errors rd =
     (if rd_running rd = None then [''running kernel could not be read''] else []) @
     (if rd_pin_code rd = None then [''kernel pin files could not be read''] else []) @
     (if rd_boot_code rd \<noteq> Some 0 then [''proxmox-boot-tool is unavailable'']
      else if \<not> bl_recognized (rd_boot rd) then [''proxmox-boot-tool returned an unrecognized format''] else []) @
     (if rd_need_code rd \<noteq> Some 0 then [''needrestart is unavailable'']
      else if nl_status (rd_need rd) = None \<or> nl_status (rd_need rd) = Some 0 then [''needrestart could not determine kernel status''] else []) @
     (if rd_marker rd = None then [''Debian reboot marker could not be checked''] else [])"

text \<open>Where the expected kernel comes from.\<close>

datatype kernel_source = FromPin string | FromNeedrestart | FromInstalled | NoSource

definition or_kernel :: "string option \<Rightarrow> string option \<Rightarrow> string option" where
  "or_kernel a b = (if a = None then b else a)"

definition installed_kernel :: "shell \<Rightarrow> string option result" where
  "installed_kernel conn = if_code0 (run_probe conn InstalledTarget) None kernel_value"

definition expected_kernel :: "shell \<Rightarrow> readings \<Rightarrow> (kernel_source \<times> string option \<times> bool option \<times> string list) result" where
  "expected_kernel conn rd = (case (running_kernel rd, pinned_kernel rd) of
     (Some run, Some (pin, kind)) \<Rightarrow> Inr (FromPin kind, Some pin, Some (run \<noteq> pin), [])
   | (None, Some (pin, kind)) \<Rightarrow> Inr (FromPin kind, Some pin, None, [])
   | (None, None) \<Rightarrow> Inr (NoSource, None, None, [])
   | (Some run, None) \<Rightarrow> (case need_signal (nl_status (rd_need rd)) of
       Some sig \<Rightarrow> Inr (FromNeedrestart, or_kernel (nl_expected (rd_need rd)) (if sig then None else Some run), Some sig, [])
     | None \<Rightarrow> rbind (installed_kernel conn) (\<lambda>inst. case inst of
         Some k \<Rightarrow> if bl_selected (rd_boot rd) = [] \<or> k \<in> set (bl_selected (rd_boot rd))
           then Inr (FromInstalled, Some k, Some (run \<noteq> k), [])
           else Inr (NoSource, None, None, [''expected boot kernel could not be determined''])
       | None \<Rightarrow> Inr (NoSource, None, None, [''expected boot kernel could not be determined'']))))"

definition decide_state :: "bool option \<Rightarrow> bool option \<Rightarrow> reboot_state" where
  "decide_state mismatch mark = (if mismatch = Some True then RebootRequired else if mark = Some True then RebootRequired
     else if mismatch = Some False then RebootNotRequired else RebootUnknown)"

definition required_flag :: "reboot_state \<Rightarrow> bool option" where
  "required_flag s = (case s of RebootRequired \<Rightarrow> Some True | RebootNotRequired \<Rightarrow> Some False | RebootUnknown \<Rightarrow> None)"

definition decide_reason :: "kernel_source \<Rightarrow> bool option \<Rightarrow> bool option \<Rightarrow> string" where
  "decide_reason src mismatch mark =
     (if mismatch = Some True then
        (case src of FromPin kind \<Rightarrow> ''The '' @ (if kind = [] then ''selected'' else kind) @ '' Proxmox kernel differs from the running kernel''
         | _ \<Rightarrow> ''A newer Proxmox kernel is installed and selected for the next boot'')
      else if mark = Some True then ''Debian reports that a reboot is required after package updates''
      else if mismatch = Some False then ''The running kernel matches the kernel selected for the next boot''
      else ''Could not determine the kernel selected for the next boot'')"

definition node_signals :: "readings \<Rightarrow> bool option \<Rightarrow> signals" where
  "node_signals rd mismatch = (let known = bl_recognized (rd_boot rd) in
     \<lparr>sg_mismatch = mismatch, sg_need = need_signal (nl_status (rd_need rd)), sg_marker = rd_marker rd,
      sg_boot = Some (if rd_boot_code rd = Some 0 \<and> known then Some True else None,
        if rd_pin_code rd = Some 0 \<or> known then Some (pinned_kernel rd \<noteq> None) else None)\<rparr>)"

definition reboot_status :: "shell \<Rightarrow> string \<Rightarrow> reboot result" where
  "reboot_status conn stamp = rbind (read_node conn) (\<lambda>rd. rbind (expected_kernel conn rd) (\<lambda>(src, target, mismatch, errs).
     let st = decide_state mismatch (rd_marker rd) in
     Inr \<lparr>rb_state = st, rb_required = required_flag st, rb_reason = decide_reason src mismatch (rd_marker rd),
       rb_running = running_kernel rd, rb_target = target, rb_signals = node_signals rd mismatch, rb_checked = stamp,
       rb_diagnostics = probe_errors rd @ errs\<rparr>))"

section \<open>The decision rests on evidence\<close>

lemma strip_Nil_iff: "strip s = [] \<longleftrightarrow> list_all is_space s"
  by (simp add: strip_def dropWhile_eq_Nil_conv list_all_iff) (metis set_dropWhileD set_takeWhileD takeWhile_dropWhile_id Un_iff set_append)

lemma strip_Nil [simp]: "strip [] = []"
  by (simp add: strip_def)

lemma strip_strip [simp]: "strip (strip s) = strip s"
  using strip_ends [of s] strip_id [of "strip s"] by (cases "strip s = []") auto

lemma lines_from_Nil: "lines_from acc s = [] \<longleftrightarrow> acc = [] \<and> s = []"
  by (induction acc s rule: lines_from.induct) auto

lemma kernel_value_Inl: "kernel_value v = Inl e \<longleftrightarrow> v \<noteq> [] \<and> strip v = [] \<and> e = IndexError"
  by (auto simp: kernel_value_def splitlines_def lines_from_Nil split: list.splits dest: arg_cong [where f = "\<lambda>x. x = []"])

lemma kernel_value_name: "kernel_value v = Inr (Some k) \<Longrightarrow> kernel_name k"
  by (auto simp: kernel_value_def split: if_splits list.splits)

lemma kernel_value_strip: "\<exists>k. kernel_value (strip v) = Inr k"
  using kernel_value_Inl [of "strip v"] by (cases "kernel_value (strip v)") auto

lemma split_once_append: "split_once c s = Some (a, b) \<Longrightarrow> s = a @ c # b"
  by (induction s arbitrary: a) (auto split: if_splits)

lemma parse_pin_total: "\<exists>k. parse_pin out = Inr k"
proof (cases "split_once (CHR 0x09) (strip out)")
  case (Some ab)
  obtain a b where ab: "ab = (a, b)" by fastforce
  have s: "strip out = a @ CHR 0x09 # b" using Some ab split_once_append by simp
  then have l: "\<not> is_space (last (strip out))" using strip_ends [of out] by simp
  have "b \<noteq> []" using l s by (auto simp: is_space_def)
  moreover from this have "\<not> list_all is_space b" using l s by (auto simp: list_all_iff)
  ultimately have "\<exists>k. kernel_value b = Inr k"
    using kernel_value_Inl [of b] by (cases "kernel_value b") (auto simp: strip_Nil_iff)
  then show ?thesis using Some ab by (auto simp: parse_pin_def)
qed (simp add: parse_pin_def)

lemma parse_pin_name: "parse_pin out = Inr (Some (k, kind)) \<Longrightarrow> kernel_name k \<and> kind \<noteq> []"
  by (auto simp: parse_pin_def rbind_Inr_iff kernel_value_name split: option.splits prod.splits if_splits)

definition boot_names :: "boot_list \<Rightarrow> bool" where
  "boot_names b \<longleftrightarrow> list_all kernel_name (bl_selected b) \<and> pred_option kernel_name (bl_pinned b)"

lemma boot_names_entry: "boot_names b \<Longrightarrow> pred_option kernel_name k \<Longrightarrow> boot_names (boot_entry sec k b)"
  by (auto simp: boot_names_def boot_entry_def list_all_iff split: option.split boot_section.split)

lemma boot_lines_total: "boot_names b \<Longrightarrow> \<exists>b'. boot_lines sec b ls = Inr b' \<and> boot_names b'"
proof (induction ls arbitrary: sec b)
  case (Cons raw ls)
  have names: "pred_option kernel_name k" if "kernel_value v = Inr k" for v k
    using that kernel_value_name [of v] by (cases k) auto
  obtain k where k: "kernel_value (strip raw) = Inr k" using kernel_value_strip by blast
  define same where "same = strip (case split_once (CHR '':'') (strip raw) of Some (_, r) \<Rightarrow> r | None \<Rightarrow> [])"
  obtain p where p: "kernel_value same = Inr p" using kernel_value_strip unfolding same_def by blast
  note IH = Cons.IH
  have n: "boot_names (b\<lparr>bl_recognized := True, bl_pinned := p\<rparr>)" "boot_names (b\<lparr>bl_recognized := True\<rparr>)"
    "boot_names (boot_entry sec k b)"
    using Cons.prems names p k boot_names_entry by (auto simp: boot_names_def)
  show ?case
  proof (cases "boot_header (lower (strip raw))")
    case None
    then show ?thesis using IH [OF n(3), of sec] IH [OF Cons.prems, of sec] k by (simp add: Let_def)
  next
    case (Some s)
    then show ?thesis using IH [OF n(1), of "Some Pinned"] IH [OF n(2), of "Some s"] p
      by (cases s) (simp_all add: Let_def same_def [symmetric])
  qed
qed simp

lemma parse_boot_total: "\<exists>b. parse_boot_tool out = Inr b \<and> boot_names b"
  unfolding parse_boot_tool_def by (rule boot_lines_total) (simp add: boot_names_def no_boot_list_def)

lemma need_line_strip: "need_line l = Some (k, v) \<Longrightarrow> \<exists>u. v = strip u"
  by (auto simp: need_line_def Let_def split: option.splits if_splits)

lemma need_values_strip: "dget (need_values out) k = Some v \<Longrightarrow> \<exists>u. v = strip u"
proof -
  have "\<forall>k v. dget (foldl (\<lambda>d line. case need_line line of Some (k, v) \<Rightarrow> dput k v d | None \<Rightarrow> d) d ls) k = Some v \<longrightarrow> (\<exists>u. v = strip u)"
    if "\<forall>k v. dget d k = Some v \<longrightarrow> (\<exists>u. v = strip u)" for d ls
    using that
  proof (induction ls arbitrary: d)
    case (Cons l ls)
    show ?case unfolding foldl_Cons
      by (rule Cons.IH) (use Cons.prems need_line_strip [of l] in \<open>auto split: option.splits if_splits\<close>)
  qed simp
  from this [of "[]"] show "dget (need_values out) k = Some v \<Longrightarrow> \<exists>u. v = strip u" by (auto simp: need_values_def)
qed

lemma need_value: "\<exists>x. kernel_value (dget_or (need_values out) k []) = Inr x"
proof (cases "dget (need_values out) k")
  case (Some v)
  then obtain u where "v = strip u" using need_values_strip by blast
  then show ?thesis using Some kernel_value_strip [of u] by (simp add: dget_or_def)
qed (simp add: dget_or_def kernel_value_def)

lemma parse_need_total: "\<exists>n. parse_needrestart out = Inr n"
  using need_value [of out "''KCUR''"] need_value [of out "''KEXP''"] by (auto simp: parse_needrestart_def Let_def)

lemma parse_need_names:
  "parse_needrestart out = Inr n \<Longrightarrow> pred_option kernel_name (nl_running n) \<and> pred_option kernel_name (nl_expected n)"
  using kernel_value_name by (auto simp: parse_needrestart_def Let_def rbind_Inr_iff pred_option_def split: option.splits)

text \<open>The readings are in shape, and only a blank answer to a question for one kernel makes the check fail.\<close>

definition blank_answer :: "shell \<Rightarrow> command \<Rightarrow> bool" where
  "blank_answer conn c \<longleftrightarrow> (\<exists>out. conn c = Inr (0, out) \<and> out \<noteq> [] \<and> strip out = [])"

definition readings_ok :: "readings \<Rightarrow> bool" where
  "readings_ok rd \<longleftrightarrow> pred_option kernel_name (rd_running rd) \<and> pred_option (\<lambda>(k, kind). kernel_name k \<and> kind \<noteq> []) (rd_pin rd) \<and>
     boot_names (rd_boot rd) \<and> pred_option kernel_name (nl_running (rd_need rd)) \<and> pred_option kernel_name (nl_expected (rd_need rd))"

lemma if_code0_total: "(\<And>out. \<exists>x. f out = Inr x \<and> P x) \<Longrightarrow> P other \<Longrightarrow> \<exists>x. if_code0 p other f = Inr x \<and> P x"
  by (simp add: if_code0_def split: prod.split)

lemma if_code0_kernel:
  "if_code0 (run_probe conn c) None kernel_value = Inl e \<longleftrightarrow> blank_answer conn c \<and> e = IndexError"
  "if_code0 (run_probe conn c) None kernel_value = Inr k \<Longrightarrow> pred_option kernel_name k"
  by (auto simp: if_code0_def run_probe_def blank_answer_def kernel_value_Inl kernel_value_name pred_option_def
      split: sum.splits prod.splits if_splits)

lemma read_node_cases:
  "(blank_answer conn RunningKernel \<and> read_node conn = Inl IndexError) \<or>
   (\<not> blank_answer conn RunningKernel \<and> (\<exists>rd. read_node conn = Inr rd \<and> readings_ok rd \<and>
      rd_marker rd = marker_of (fst (run_probe conn RebootMarker))))"
proof -
  have "\<exists>x. parse_pin out = Inr x \<and> pred_option (\<lambda>(k, kind). kernel_name k \<and> kind \<noteq> []) x" for out
    using parse_pin_total [of out] parse_pin_name by (auto simp: pred_option_def split: option.splits)
  from if_code0_total [where f = parse_pin and other = None, OF this] obtain pin where pin: "if_code0 (run_probe conn KernelPins) None parse_pin = Inr pin"
    "pred_option (\<lambda>(k, kind). kernel_name k \<and> kind \<noteq> []) pin" by fastforce
  obtain boot where boot: "if_code0 (run_probe conn BootToolList) no_boot_list parse_boot_tool = Inr boot" "boot_names boot"
    using if_code0_total [where f = parse_boot_tool and P = boot_names, OF parse_boot_total, of no_boot_list "run_probe conn BootToolList"]
    by (auto simp: boot_names_def no_boot_list_def)
  have "\<exists>n. parse_needrestart out = Inr n \<and> pred_option kernel_name (nl_running n) \<and> pred_option kernel_name (nl_expected n)" for out
    using parse_need_total [of out] parse_need_names by blast
  from if_code0_total [where f = parse_needrestart and other = no_need_list, OF this] obtain need where need: "if_code0 (run_probe conn NeedrestartKernel) no_need_list parse_needrestart = Inr need"
    "pred_option kernel_name (nl_running need) \<and> pred_option kernel_name (nl_expected need)" by (fastforce simp: no_need_list_def)
  show ?thesis
  proof (cases "if_code0 (run_probe conn RunningKernel) None kernel_value")
    case (Inl e)
    then show ?thesis using if_code0_kernel(1) [of conn RunningKernel e] by (simp add: read_node_def)
  next
    case (Inr k)
    then have "\<not> blank_answer conn RunningKernel" using if_code0_kernel(1) [of conn RunningKernel IndexError] by simp
    moreover have "pred_option kernel_name k" using if_code0_kernel(2) Inr by blast
    ultimately show ?thesis using Inr pin boot need by (simp add: read_node_def readings_ok_def)
  qed
qed

text \<open>The installed kernels are asked for last: when the running kernel is known and nothing selects the next one.\<close>

definition asks_installed :: "readings \<Rightarrow> bool" where
  "asks_installed rd \<longleftrightarrow> running_kernel rd \<noteq> None \<and> pinned_kernel rd = None \<and> need_signal (nl_status (rd_need rd)) = None"

text \<open>What a comparison of the kernels rests on.\<close>

definition kernel_evidence :: "shell \<Rightarrow> readings \<Rightarrow> string option \<Rightarrow> bool option \<Rightarrow> bool" where
  "kernel_evidence conn rd target mismatch \<longleftrightarrow> (case mismatch of None \<Rightarrow> running_kernel rd = None \<or> asks_installed rd
     | Some b \<Rightarrow> \<exists>run. running_kernel rd = Some run \<and>
         (case pinned_kernel rd of Some (pin, _) \<Rightarrow> target = Some pin \<and> b = (run \<noteq> pin)
          | None \<Rightarrow> need_signal (nl_status (rd_need rd)) = Some b \<or>
              need_signal (nl_status (rd_need rd)) = None \<and> installed_kernel conn = Inr target \<and> target \<noteq> None \<and> b = (Some run \<noteq> target)))"

lemma expected_kernel_cases:
  assumes "readings_ok rd"
  shows "(asks_installed rd \<and> blank_answer conn InstalledTarget \<and> expected_kernel conn rd = Inl IndexError) \<or>
    (\<not> (asks_installed rd \<and> blank_answer conn InstalledTarget) \<and> (\<exists>src target mismatch errs.
       expected_kernel conn rd = Inr (src, target, mismatch, errs) \<and> pred_option kernel_name target \<and>
       kernel_evidence conn rd target mismatch))"
proof (cases "asks_installed rd")
  case True
  then obtain run where run: "running_kernel rd = Some run" "pinned_kernel rd = None" "need_signal (nl_status (rd_need rd)) = None"
    by (auto simp: asks_installed_def)
  show ?thesis
  proof (cases "installed_kernel conn")
    case (Inl e)
    then show ?thesis using if_code0_kernel(1) [of conn InstalledTarget e] True run by (simp add: expected_kernel_def installed_kernel_def)
  next
    case (Inr k)
    then have "\<not> blank_answer conn InstalledTarget" "pred_option kernel_name k"
      using if_code0_kernel(1) [of conn InstalledTarget IndexError] if_code0_kernel(2) [of conn InstalledTarget k]
      by (auto simp: installed_kernel_def)
    then show ?thesis using Inr run True by (cases k) (auto simp: expected_kernel_def kernel_evidence_def)
  qed
next
  case False
  have "pred_option kernel_name (running_kernel rd)" "pred_option (\<lambda>p. kernel_name (fst p)) (pinned_kernel rd)"
    "pred_option kernel_name (nl_expected (rd_need rd))"
    using assms by (auto simp: readings_ok_def running_kernel_def pinned_kernel_def boot_names_def pred_option_def split: option.splits)
  then show ?thesis using False
    by (auto simp: asks_installed_def expected_kernel_def or_kernel_def kernel_evidence_def split: option.split prod.split)
qed

definition marker_present :: "shell \<Rightarrow> bool" where
  "marker_present conn \<longleftrightarrow> (\<exists>out. conn RebootMarker = Inr (0, out))"

lemma marker_present_iff: "marker_of (fst (run_probe conn RebootMarker)) = Some True \<longleftrightarrow> marker_present conn"
  by (auto simp: marker_of_def run_probe_def marker_present_def split: sum.split)

text \<open>
  A node needs a reboot exactly when the kernel for its next boot differs from the running one
  or Debian has left its marker, and needs none only when the kernels are known to agree and there is no
  marker; a pinned kernel counts before what needrestart says, and that before the installed kernels.
\<close>

theorem reboot_status_exact:
  assumes "reboot_status conn stamp = Inr r"
  shows "\<exists>rd. read_node conn = Inr rd \<and> rb_running r = running_kernel rd \<and> rb_required r = required_flag (rb_state r) \<and>
    (rb_state r = RebootRequired \<longleftrightarrow> sg_mismatch (rb_signals r) = Some True \<or> marker_present conn) \<and>
    (rb_state r = RebootNotRequired \<longleftrightarrow> sg_mismatch (rb_signals r) = Some False \<and> \<not> marker_present conn) \<and>
    pred_option kernel_name (rb_running r) \<and> pred_option kernel_name (rb_target r) \<and>
    kernel_evidence conn rd (rb_target r) (sg_mismatch (rb_signals r))"
proof -
  obtain rd where rd: "read_node conn = Inr rd" "readings_ok rd" "rd_marker rd = marker_of (fst (run_probe conn RebootMarker))"
    using read_node_cases [of conn] assms by (auto simp: reboot_status_def)
  from expected_kernel_cases [OF rd(2), of conn] obtain src target mismatch errs where
    e: "expected_kernel conn rd = Inr (src, target, mismatch, errs)" "pred_option kernel_name target" "kernel_evidence conn rd target mismatch"
    using assms rd(1) by (auto simp: reboot_status_def)
  have r: "rb_state r = decide_state mismatch (rd_marker rd)" "rb_required r = required_flag (rb_state r)"
    "rb_running r = running_kernel rd" "rb_target r = target" "sg_mismatch (rb_signals r) = mismatch"
    using assms rd(1) e(1) by (auto simp: reboot_status_def Let_def node_signals_def)
  have m: "rd_marker rd = Some True \<longleftrightarrow> marker_present conn" using rd(3) marker_present_iff by simp
  have n: "pred_option kernel_name (running_kernel rd)"
    using rd(2) by (simp add: readings_ok_def running_kernel_def)
  show ?thesis using rd(1) e(2,3) r m n by (intro exI [of _ rd]) (auto simp: decide_state_def)
qed

text \<open>
  The check of a node raises exactly when the question for the running kernel, or the one for the
  installed kernel where it is asked, is answered by blanks only; it then raises an index error.
\<close>

theorem reboot_check_raises:
  "reboot_status conn stamp = Inl e \<longleftrightarrow> e = IndexError \<and> (blank_answer conn RunningKernel \<or>
     (\<exists>rd. read_node conn = Inr rd \<and> asks_installed rd \<and> blank_answer conn InstalledTarget))"
proof (cases "blank_answer conn RunningKernel")
  case True
  then show ?thesis using read_node_cases [of conn] by (auto simp: reboot_status_def)
next
  case False
  then obtain rd where rd: "read_node conn = Inr rd" "readings_ok rd" using read_node_cases [of conn] by blast
  show ?thesis using expected_kernel_cases [OF rd(2), of conn] rd(1) False by (auto simp: reboot_status_def Let_def)
qed

definition silent_shell :: shell where
  "silent_shell c = Inl TypeError"

lemma silent_node_unknown:
  "map_sum id rb_state (reboot_status silent_shell stamp) = Inr RebootUnknown"
  by (simp add: reboot_status_def read_node_def run_probe_def silent_shell_def if_code0_def expected_kernel_def running_kernel_def
      pinned_kernel_def no_boot_list_def no_need_list_def marker_of_def decide_state_def Let_def)

definition demo_shell :: shell where
  "demo_shell c = (case c of
     RunningKernel \<Rightarrow> Inr (0, ''6.8.12-4-pve'' @ [CHR 0x0A])
   | KernelPins \<Rightarrow> Inr (0, ''next'' @ [CHR 0x09] @ ''6.8.12-9-pve'' @ [CHR 0x0A])
   | RebootMarker \<Rightarrow> Inr (1, []) | _ \<Rightarrow> Inr (127, []))"

lemma demo_running: "kernel_value (''6.8.12-4-pve'' @ [CHR 0x0A]) = Inr (Some ''6.8.12-4-pve'')"
  by code_simp

lemma demo_pin: "parse_pin (''next'' @ [CHR 0x09] @ ''6.8.12-9-pve'' @ [CHR 0x0A]) = Inr (Some (''6.8.12-9-pve'', ''next''))"
  by code_simp

definition demo_reboot :: reboot where
  "demo_reboot = (case reboot_status demo_shell ''now'' of Inr r \<Rightarrow> r | Inl _ \<Rightarrow> unknown_reboot [] [])"

lemma demo_status: "reboot_status demo_shell ''now'' = Inr demo_reboot" "rb_target demo_reboot = Some ''6.8.12-9-pve''"
  "sg_mismatch (rb_signals demo_reboot) = Some True" "rb_state demo_reboot = RebootRequired"
  using demo_running demo_pin
  by (simp_all add: demo_reboot_def reboot_status_def read_node_def run_probe_def demo_shell_def if_code0_def expected_kernel_def
      running_kernel_def pinned_kernel_def Let_def node_signals_def decide_state_def)

theorem reboot_status_exact_witness: "rb_state demo_reboot = RebootRequired \<and> rb_required demo_reboot = Some True"
  using reboot_status_exact [OF demo_status(1)] demo_status(3) by (auto simp: required_flag_def)

end
