(* ===== verification/UpdateJobs.thy ===== *)
theory UpdateJobs
  imports Updates
begin

text \<open>
  Software updates of Proxmox devices, \<open>backend/device_updates.py\<close>, second part: the check of a device and its
  snapshot in the document, the privileged credentials, and the update and reboot operations. The program keeps
  the operations of this process in a table and a copy of the last one of each device in the document. The answer
  of the driver, the connections, the clock and encryption are arguments; the transactions of the store succeed.
  A missing field and one that is \<open>None\<close> are both \<open>None\<close>; the field \<open>currentPackage\<close> is always null.
\<close>

section \<open>Catalogues and snapshots\<close>

record node_info =
  un_name :: string
  un_status :: string
  un_host :: string
  un_packages :: "doc list"
  un_reboot :: "reboot option"

record catalogue =
  ca_nodes :: "node_info list"
  ca_total :: nat

record node_snapshot =
  ns_status :: string
  ns_count :: "nat option"
  ns_packages :: "doc list option"
  ns_reboot :: "reboot option"

record maintenance =
  sm_checked :: "string option"
  sm_total :: "nat option"
  sm_ssh :: bool
  sm_nodes :: "(string, node_snapshot) dict"
  sm_error :: "string option"
  sm_failed_at :: "string option"

section \<open>Operations\<close>

datatype update_state = UpPending | UpRunning | UpCompleted | UpFailed

datatype progress_mode = Exact | Indeterminate

datatype update_kind = UpdateOp | RebootOp

datatype outcome = OutPending | OutSucceeded | OutFailed

record job_node =
  jn_node :: string
  jn_packages :: nat
  jn_state :: update_state
  jn_stage :: string
  jn_mode :: progress_mode
  jn_percent :: "int option"
  jn_message :: string
  jn_outcome :: "outcome option"
  jn_reboot_state :: reboot_state
  jn_required :: "bool option"
  jn_reboot :: "reboot option"

datatype package_refresh = RefreshPending | Refreshed nat | RefreshFailed string

record update_job =
  uj_id :: string
  uj_device :: string
  uj_kind :: update_kind
  uj_state :: update_state
  uj_stage :: string
  uj_mode :: progress_mode
  uj_started :: int
  uj_updated :: int
  uj_finished :: "int option"
  uj_total :: nat
  uj_completed :: nat
  uj_failed :: nat
  uj_current :: "string option"
  uj_percent :: "int option"
  uj_message :: string
  uj_requested :: "string option"
  uj_refresh :: "package_refresh option"
  uj_nodes :: "job_node list"

text \<open>The snapshot and the last operation are fields of the device record.\<close>

record updates_doc =
  ud_base :: device_doc
  ud_maintenance :: "(string, maintenance) dict"
  ud_operations :: "(string, update_job) dict"

record update_world =
  uw_doc :: updates_doc
  uw_jobs :: "(string, update_job) dict"

definition has_device :: "string \<Rightarrow> updates_doc \<Rightarrow> bool" where
  "has_device i d \<longleftrightarrow> dget (dd_devices (ud_base d)) i \<noteq> None"

definition stored_operation :: "string \<Rightarrow> updates_doc \<Rightarrow> update_job option" where
  "stored_operation i d = (if has_device i d then dget (ud_operations d) i else None)"

definition snapshot_node :: "node_info \<Rightarrow> node_snapshot" where
  "snapshot_node n = \<lparr>ns_status = (if un_status n = [] then ''unknown'' else un_status n), ns_count = Some (length (un_packages n)),
     ns_packages = Some (un_packages n), ns_reboot = un_reboot n\<rparr>"

definition snapshot_nodes :: "node_info list \<Rightarrow> (string, node_snapshot) dict" where
  "snapshot_nodes ns = foldl (\<lambda>m n. if un_name n = [] then m else dput (un_name n) (snapshot_node n) m) [] ns"

definition persist_maintenance :: "string \<Rightarrow> catalogue \<Rightarrow> bool \<Rightarrow> string \<Rightarrow> updates_doc \<Rightarrow> updates_doc" where
  "persist_maintenance i c configured stamp d = (if has_device i d
     then d\<lparr>ud_maintenance := dput i \<lparr>sm_checked = Some stamp, sm_total = Some (ca_total c), sm_ssh = configured,
       sm_nodes = snapshot_nodes (ca_nodes c), sm_error = None, sm_failed_at = None\<rparr> (ud_maintenance d)\<rparr> else d)"

definition persist_node_reboot :: "string \<Rightarrow> string \<Rightarrow> reboot \<Rightarrow> updates_doc \<Rightarrow> updates_doc" where
  "persist_node_reboot i name rb d = (if has_device i d
     then (let m = dget_or (ud_maintenance d) i \<lparr>sm_checked = Some (rb_checked rb), sm_total = None, sm_ssh = True, sm_nodes = [],
               sm_error = None, sm_failed_at = None\<rparr>;
             n = dget_or (sm_nodes m) name \<lparr>ns_status = ''online'', ns_count = None, ns_packages = None, ns_reboot = None\<rparr> in
           d\<lparr>ud_maintenance := dput i (m\<lparr>sm_checked := Some (rb_checked rb),
               sm_nodes := dput name (n\<lparr>ns_reboot := Some rb\<rparr>) (sm_nodes m)\<rparr>) (ud_maintenance d)\<rparr>)
     else d)"

text \<open>The reason comes with its secrets masked.\<close>

definition record_refresh_failure :: "string \<Rightarrow> string \<Rightarrow> string \<Rightarrow> updates_doc \<Rightarrow> updates_doc" where
  "record_refresh_failure i reason stamp d = (if has_device i d
     then (let m = dget_or (ud_maintenance d) i \<lparr>sm_checked = None, sm_total = None, sm_ssh = False, sm_nodes = [],
               sm_error = None, sm_failed_at = None\<rparr> in
           d\<lparr>ud_maintenance := dput i (m\<lparr>sm_error := Some (take 300 reason), sm_failed_at := Some stamp\<rparr>) (ud_maintenance d)\<rparr>)
     else d)"

section \<open>Credentials and connections\<close>

record update_env =
  ue_registry :: registry
  ue_credentials :: "device \<Rightarrow> doc result"
  ue_answer :: "device \<Rightarrow> driver_info \<Rightarrow> catalogue result"
  ue_open :: "nat \<Rightarrow> string \<Rightarrow> json \<Rightarrow> doc \<Rightarrow> shell result"
  ue_safe :: "failure \<Rightarrow> string"
  ue_stamp :: "nat \<Rightarrow> string"
  ue_token :: string
  ue_now :: int

definition require_driver :: "driver_info \<Rightarrow> unit result" where
  "require_driver drv = (if drv_updates drv then Inr () else Inl (ValueError ''device does not support software updates''))"

definition driver_of :: "registry \<Rightarrow> device \<Rightarrow> unit result" where
  "driver_of reg dev = (case reg (dv_driver dev) of None \<Rightarrow> Inl (ValueError (''driver gone: '' @ dv_driver dev)) | Some drv \<Rightarrow> require_driver drv)"

definition ssh_credentials :: "(device \<Rightarrow> doc result) \<Rightarrow> device \<Rightarrow> doc option result" where
  "ssh_credentials creds dev = rbind (creds dev) (\<lambda>c. rbind (sub_obj c ''updateSsh'') (\<lambda>s.
     Inr (if getn s ''username'' = JStr ''root'' \<and> (truthy (getn s ''password'') \<or> truthy (getn s ''privateKey'')) then Some s else None)))"

definition open_root :: "update_env \<Rightarrow> nat \<Rightarrow> string \<Rightarrow> doc \<Rightarrow> shell result" where
  "open_root env k host ssh = ue_open env k host (py_or (getn ssh ''port'') (JInt 22)) ssh"

section \<open>The check of a device\<close>

definition inspect_node :: "update_env \<Rightarrow> doc option \<Rightarrow> nat \<times> node_info \<Rightarrow> node_info" where
  "inspect_node env ssh kn = (case kn of (k, n) \<Rightarrow> n\<lparr>un_reboot := Some
     (if un_status n \<noteq> ''online'' then unknown_reboot ''Node is offline; reboot status was not checked'' (ue_stamp env k)
      else (case ssh of
        None \<Rightarrow> unknown_reboot ''Configure Proxmox root SSH credentials to check reboot status'' (ue_stamp env k)
      | Some c \<Rightarrow> (case rbind (open_root env k (un_host n) c) (\<lambda>sh. reboot_status sh (ue_stamp env k)) of
          Inr r \<Rightarrow> r
        | Inl e \<Rightarrow> unknown_reboot (''Reboot check failed: '' @ take 220 (ue_safe env e)) (ue_stamp env k))))\<rparr>)"

definition inspect_reboots :: "update_env \<Rightarrow> catalogue \<Rightarrow> doc option \<Rightarrow> catalogue" where
  "inspect_reboots env c ssh = c\<lparr>ca_nodes := map (inspect_node env ssh) (List.enumerate 0 (ca_nodes c))\<rparr>"

definition with_update_lock :: "string \<Rightarrow> string \<Rightarrow> int \<Rightarrow> (update_world \<Rightarrow> 'a result \<times> update_world) \<Rightarrow> update_world \<Rightarrow> 'a result \<times> update_world" where
  "with_update_lock i tok now body w = (case transact (acquire_lock i tok now) (ud_base (uw_doc w)) of
     (Inl e, _) \<Rightarrow> (Inl e, w)
   | (Inr _, b) \<Rightarrow> (case body (w\<lparr>uw_doc := (uw_doc w)\<lparr>ud_base := b\<rparr>\<rparr>) of (x, w') \<Rightarrow>
       (x, w'\<lparr>uw_doc := (uw_doc w')\<lparr>ud_base := snd (transact (release_lock i tok) (ud_base (uw_doc w')))\<rparr>\<rparr>)))"

definition read_catalogue :: "update_env \<Rightarrow> string \<Rightarrow> updates_doc \<Rightarrow> (device \<times> catalogue) result" where
  "read_catalogue env i d = device_conn (ue_registry env) None (\<lambda>dev drv. rbind (ue_answer env dev drv) (\<lambda>c. Inr (dev, c))) i (ud_base d)"

definition checked_catalogue :: "update_env \<Rightarrow> string \<Rightarrow> updates_doc \<Rightarrow> (catalogue \<times> doc option) result" where
  "checked_catalogue env i d = rbind (device_conn (ue_registry env) None
       (\<lambda>dev drv. rbind (require_driver drv) (\<lambda>_. rbind (ue_answer env dev drv) (\<lambda>c. Inr (dev, c)))) i (ud_base d))
     (\<lambda>(dev, c). rbind (ssh_credentials (ue_credentials env) dev) (\<lambda>ssh. Inr (inspect_reboots env c ssh, ssh)))"

text \<open>Stored operations of an earlier process: its threads are gone.\<close>

definition interrupted_node :: "job_node \<Rightarrow> job_node" where
  "interrupted_node n = (if jn_state n = UpPending \<or> jn_state n = UpRunning
     then n\<lparr>jn_state := UpFailed, jn_stage := ''interrupted'', jn_mode := Exact, jn_percent := Some 100, jn_outcome := Some OutFailed,
            jn_message := ''Update interrupted by a backend restart''\<rparr>
     else n)"

definition interrupted :: "int \<Rightarrow> update_job \<Rightarrow> update_job" where
  "interrupted now j = j\<lparr>uj_state := UpFailed, uj_stage := ''interrupted'', uj_mode := Exact, uj_percent := Some 100, uj_finished := Some now,
     uj_updated := now, uj_message := ''Update interrupted because the HomelabHQ backend restarted.'',
     uj_nodes := map interrupted_node (uj_nodes j)\<rparr>"

definition interrupt_mut :: "string \<Rightarrow> string \<Rightarrow> int \<Rightarrow> updates_doc \<Rightarrow> update_job option \<times> updates_doc" where
  "interrupt_mut i jid now d = (case stored_operation i d of
     Some j \<Rightarrow> if uj_id j = jid \<and> uj_state j = UpRunning
       then (Some (interrupted now j), d\<lparr>ud_operations := dput i (interrupted now j) (ud_operations d)\<rparr>) else (Some j, d)
   | None \<Rightarrow> (None, d))"

text \<open>The part of \<open>status\<close> after it has found no operation in the table.\<close>

definition stored_status :: "string \<Rightarrow> int \<Rightarrow> updates_doc \<Rightarrow> update_job option \<times> updates_doc" where
  "stored_status i now d = (case stored_operation i d of
     None \<Rightarrow> (None, d)
   | Some j \<Rightarrow> if uj_state j \<noteq> UpRunning then (Some j, d) else interrupt_mut i (uj_id j) now d)"

definition operation_status :: "string \<Rightarrow> int \<Rightarrow> update_world \<Rightarrow> update_job option \<times> update_world" where
  "operation_status i now w = (case dget (uw_jobs w) i of
     Some j \<Rightarrow> (Some j, w)
   | None \<Rightarrow> (case stored_status i now (uw_doc w) of (x, d) \<Rightarrow> (x, w\<lparr>uw_doc := d\<rparr>)))"

record public_catalogue =
  pc_nodes :: "(string \<times> string \<times> doc list \<times> reboot option) list"
  pc_total :: nat
  pc_ssh :: bool
  pc_operation :: "update_job option"

definition public_of :: "catalogue \<Rightarrow> bool \<Rightarrow> update_job option \<Rightarrow> public_catalogue" where
  "public_of c configured oper = \<lparr>pc_nodes = map (\<lambda>n. (un_name n, un_status n, un_packages n, un_reboot n)) (ca_nodes c),
     pc_total = ca_total c, pc_ssh = configured, pc_operation = oper\<rparr>"

definition check_body :: "update_env \<Rightarrow> string \<Rightarrow> update_world \<Rightarrow> public_catalogue result \<times> update_world" where
  "check_body env i w = (case checked_catalogue env i (uw_doc w) of
     Inl e \<Rightarrow> (Inl e, w)
   | Inr (c, ssh) \<Rightarrow> (case operation_status i (ue_now env)
         (w\<lparr>uw_doc := persist_maintenance i c (ssh \<noteq> None) (ue_stamp env (length (ca_nodes c))) (uw_doc w)\<rparr>) of
       (oper, w') \<Rightarrow> (Inr (public_of c (ssh \<noteq> None) oper), w')))"

definition update_check :: "update_env \<Rightarrow> string \<Rightarrow> update_world \<Rightarrow> public_catalogue result \<times> update_world" where
  "update_check env i w = with_update_lock i (ue_token env) (ue_now env) (check_body env i) w"

section \<open>Progress of an operation\<close>

definition persist_operation :: "string \<Rightarrow> update_job \<Rightarrow> updates_doc \<Rightarrow> updates_doc" where
  "persist_operation i j d = (if has_device i d then d\<lparr>ud_operations := dput i j (ud_operations d)\<rparr> else d)"

definition set_operation :: "string \<Rightarrow> string \<Rightarrow> (update_job \<Rightarrow> update_job) \<Rightarrow> update_world \<Rightarrow> update_world" where
  "set_operation i jid f w = (case dget (uw_jobs w) i of
     Some j \<Rightarrow> if uj_id j = jid
       then w\<lparr>uw_jobs := dput i (f j) (uw_jobs w), uw_doc := persist_operation i (f j) (uw_doc w)\<rparr> else w
   | None \<Rightarrow> w)"

definition change_node :: "nat \<Rightarrow> (job_node \<Rightarrow> job_node) \<Rightarrow> update_job \<Rightarrow> update_job" where
  "change_node k f j = j\<lparr>uj_nodes := (uj_nodes j)[k := f (uj_nodes j ! k)]\<rparr>"

definition set_node :: "string \<Rightarrow> string \<Rightarrow> nat \<Rightarrow> int \<Rightarrow> (job_node \<Rightarrow> job_node) \<Rightarrow> update_world \<Rightarrow> update_world" where
  "set_node i jid k now f w = set_operation i jid (\<lambda>j. (change_node k f j)\<lparr>uj_updated := now\<rparr>) w"

definition node_progress :: "nat \<Rightarrow> string \<Rightarrow> string \<Rightarrow> int \<Rightarrow> update_job \<Rightarrow> update_job" where
  "node_progress k stage msg now j = (let name = jn_node (uj_nodes j ! k) in
     (change_node k (\<lambda>n. n\<lparr>jn_state := UpRunning, jn_stage := stage, jn_mode := Indeterminate, jn_percent := None, jn_message := msg\<rparr>) j)
       \<lparr>uj_current := Some name, uj_stage := stage, uj_mode := Indeterminate, uj_percent := None,
        uj_message := msg @ '' on '' @ name, uj_updated := now\<rparr>)"

definition set_node_progress :: "string \<Rightarrow> string \<Rightarrow> nat \<Rightarrow> string \<Rightarrow> string \<Rightarrow> int \<Rightarrow> update_world \<Rightarrow> update_world" where
  "set_node_progress i jid k stage msg now w = set_operation i jid (node_progress k stage msg now) w"

definition run_command :: "shell \<Rightarrow> command \<Rightarrow> string \<Rightarrow> unit result" where
  "run_command sh c label = rbind (sh c) (\<lambda>(code, _).
     if code \<noteq> 0 then Inl (RuntimeError (label @ '' exited with status '' @ str_of_int code)) else Inr ())"

section \<open>Installing updates\<close>

text \<open>A run: its device and operation, the nodes to update, the credentials and the clock.\<close>

record install_run =
  ir_device :: string
  ir_job :: string
  ir_targets :: "node_info list"
  ir_ssh :: doc
  ir_clock :: "nat \<Rightarrow> nat \<Rightarrow> int"

definition node_percent :: "nat \<Rightarrow> nat \<Rightarrow> int" where
  "node_percent k n = py_round (rat_of_nat k / rat_of_nat n * 100)"

definition node_message :: "reboot_state \<Rightarrow> string" where
  "node_message st = (case st of RebootRequired \<Rightarrow> ''Updates installed; reboot required''
     | RebootNotRequired \<Rightarrow> ''Updates installed; no reboot required''
     | RebootUnknown \<Rightarrow> ''Updates installed; reboot requirement unknown'')"

definition completed_node :: "reboot \<Rightarrow> job_node \<Rightarrow> job_node" where
  "completed_node rb n = n\<lparr>jn_state := UpCompleted, jn_stage := ''completed'', jn_mode := Exact, jn_percent := Some 100,
     jn_outcome := Some OutSucceeded, jn_reboot_state := rb_state rb, jn_required := rb_required rb, jn_reboot := Some rb,
     jn_message := node_message (rb_state rb)\<rparr>"

definition failed_node :: "string \<Rightarrow> job_node \<Rightarrow> job_node" where
  "failed_node msg n = n\<lparr>jn_state := UpFailed, jn_stage := ''failed'', jn_mode := Exact, jn_percent := Some 100,
     jn_outcome := Some OutFailed, jn_message := msg\<rparr>"

definition checked_reboot :: "update_env \<Rightarrow> shell \<Rightarrow> string \<Rightarrow> reboot" where
  "checked_reboot env sh stamp = (case reboot_status sh stamp of
     Inr r \<Rightarrow> r | Inl e \<Rightarrow> unknown_reboot (''Reboot check failed: '' @ take 220 (ue_safe env e)) stamp)"

text \<open>The block whose exceptions fail the node, with the stages it announces.\<close>

definition install_block :: "update_env \<Rightarrow> install_run \<Rightarrow> nat \<Rightarrow> node_info \<Rightarrow> update_world \<Rightarrow> reboot result \<times> update_world" where
  "install_block env r k t w =
     (let stage = set_node_progress (ir_device r) (ir_job r) k in
      case open_root env k (un_host t) (ir_ssh r) of
        Inl e \<Rightarrow> (Inl e, w)
      | Inr sh \<Rightarrow> (let w1 = stage ''downloading'' ''Refreshing package lists'' (ir_clock r k 1) w in
          case run_command sh AptUpdate ''apt-get update'' of
            Inl e \<Rightarrow> (Inl e, w1)
          | Inr _ \<Rightarrow> (let w2 = stage ''installing'' ''Installing updates'' (ir_clock r k 2) w1 in
              case run_command sh AptUpgrade ''apt-get dist-upgrade'' of
                Inl e \<Rightarrow> (Inl e, w2)
              | Inr _ \<Rightarrow> (let w3 = stage ''checking_reboot_status'' ''Checking reboot status'' (ir_clock r k 3) w2;
                    rb = checked_reboot env sh (ue_stamp env k) in
                  (Inr rb, w3\<lparr>uw_doc := persist_node_reboot (ir_device r) (un_name t) rb (uw_doc w3)\<rparr>)))))"

definition install_node :: "update_env \<Rightarrow> install_run \<Rightarrow> nat \<Rightarrow> node_info \<Rightarrow> update_world \<Rightarrow> reboot result \<times> update_world" where
  "install_node env r k t w =
     (case install_block env r k t (set_node_progress (ir_device r) (ir_job r) k ''preparing'' ''Preparing update'' (ir_clock r k 0) w) of
        (Inr rb, w') \<Rightarrow> (Inr rb, set_node (ir_device r) (ir_job r) k (ir_clock r k 4) (completed_node rb) w')
      | (Inl e, w') \<Rightarrow> (Inl e, set_node (ir_device r) (ir_job r) k (ir_clock r k 4) (failed_node (take 300 (ue_safe env e))) w'))"

text \<open>How many nodes failed, which need a reboot, and for how many that is unknown.\<close>

type_synonym tally = "nat \<times> string list \<times> nat"

definition count_node :: "node_info \<Rightarrow> reboot result \<Rightarrow> tally \<Rightarrow> tally" where
  "count_node t x c = (case c of (failed, reboots, unknown) \<Rightarrow> (case x of
     Inl _ \<Rightarrow> (Suc failed, reboots, unknown)
   | Inr rb \<Rightarrow> (case rb_state rb of
       RebootRequired \<Rightarrow> (failed, reboots @ [un_name t], unknown)
     | RebootNotRequired \<Rightarrow> (failed, reboots, unknown)
     | RebootUnknown \<Rightarrow> (failed, reboots, Suc unknown))))"

fun install_nodes :: "update_env \<Rightarrow> install_run \<Rightarrow> nat \<Rightarrow> node_info list \<Rightarrow> tally \<Rightarrow> update_world \<Rightarrow> tally \<times> update_world" where
  "install_nodes env r k [] c w = (c, w)"
| "install_nodes env r k (t # ts) c w = (case install_node env r k t w of (x, w') \<Rightarrow>
     install_nodes env r (Suc k) ts (count_node t x c)
       (set_operation (ir_device r) (ir_job r) (\<lambda>j. j\<lparr>uj_completed := Suc k, uj_mode := Exact,
          uj_percent := Some (node_percent (Suc k) (max 1 (length (ir_targets r)))), uj_updated := ir_clock r k 5\<rparr>) w'))"

definition plural :: "nat \<Rightarrow> string" where
  "plural n = (if n \<noteq> 1 then ''s'' else [])"

definition final_message :: "tally \<Rightarrow> string" where
  "final_message c = (case c of (failed, reboots, unknown) \<Rightarrow>
     if reboots \<noteq> [] then ''Reboot required on '' @ join_with '', '' reboots @ ''.''
     else if unknown \<noteq> 0 then ''All updates installed; reboot requirement unknown on '' @ digits_of_nat unknown @ '' node'' @ plural unknown @ ''.''
     else ''All updates installed; no reboot required.'')"

definition finish_update :: "tally \<Rightarrow> int \<Rightarrow> update_job \<Rightarrow> update_job" where
  "finish_update c now j = (case c of (failed, _, _) \<Rightarrow>
     if failed \<noteq> 0 then j\<lparr>uj_state := UpFailed, uj_stage := ''failed'', uj_current := None, uj_mode := Exact, uj_percent := Some 100,
       uj_failed := failed, uj_finished := Some now, uj_message := ''Updates failed on '' @ digits_of_nat failed @ '' node'' @ plural failed @ ''.''\<rparr>
     else j\<lparr>uj_state := UpCompleted, uj_stage := ''completed'', uj_current := None, uj_mode := Exact, uj_percent := Some 100,
       uj_finished := Some now, uj_message := final_message c\<rparr>)"

definition refresh_of :: "update_env \<Rightarrow> public_catalogue result \<Rightarrow> package_refresh" where
  "refresh_of env x = (case x of Inr p \<Rightarrow> Refreshed (pc_total p) | Inl e \<Rightarrow> RefreshFailed (take 300 (ue_safe env e)))"

definition run_install :: "update_env \<Rightarrow> update_env \<Rightarrow> install_run \<Rightarrow> update_world \<Rightarrow> update_world" where
  "run_install env env' r w =
     (let (c, w1) = install_nodes env r 0 (ir_targets r) (0, [], 0) w;
          (x, w2) = update_check env' (ir_device r) w1;
          w3 = set_operation (ir_device r) (ir_job r) (\<lambda>j. j\<lparr>uj_refresh := Some (refresh_of env x)\<rparr>) w2 in
      set_operation (ir_device r) (ir_job r) (finish_update c (ir_clock r (length (ir_targets r)) 0)) w3)"

section \<open>Starting an update\<close>

definition update_running :: "string \<Rightarrow> update_world \<Rightarrow> bool" where
  "update_running i w = (case dget (uw_jobs w) i of Some j \<Rightarrow> uj_state j = UpRunning | None \<Rightarrow> False)"

definition requested_node :: "string option \<Rightarrow> string option" where
  "requested_node n = (case n of None \<Rightarrow> None | Some s \<Rightarrow> if strip s = [] then None else Some (strip s))"

text \<open>What both operations require before they look at the device: it exists, has updates and root credentials.\<close>

definition root_device :: "update_env \<Rightarrow> string \<Rightarrow> string \<Rightarrow> updates_doc \<Rightarrow> doc result" where
  "root_device env msg i d = (case dget (dd_devices (ud_base d)) i of
     None \<Rightarrow> Inl not_found
   | Some dev \<Rightarrow> rbind (driver_of (ue_registry env) dev) (\<lambda>_. rbind (ssh_credentials (ue_credentials env) dev) (\<lambda>ssh.
       case ssh of None \<Rightarrow> Inl (ValueError msg) | Some c \<Rightarrow> Inr c)))"

definition update_targets :: "string option \<Rightarrow> catalogue \<Rightarrow> node_info list" where
  "update_targets req c = filter (\<lambda>n. un_status n = ''online'' \<and> un_packages n \<noteq> [] \<and> (req = None \<or> Some (un_name n) = req)) (ca_nodes c)"

definition prepare_update :: "update_env \<Rightarrow> string \<Rightarrow> string option \<Rightarrow> updates_doc \<Rightarrow> (node_info list \<times> doc) result" where
  "prepare_update env i node d = rbind (root_device env ''configure root SSH credentials before installing updates'' i d) (\<lambda>ssh.
     rbind (read_catalogue env i d) (\<lambda>(_, c). let req = requested_node node in
       if req \<noteq> None \<and> req \<notin> Some ` un_name ` set (ca_nodes c) then Inl (ValueError ''unknown Proxmox node'')
       else if update_targets req c = [] then Inl (ValueError ''no updates are available on online nodes'')
       else Inr (update_targets req c, ssh)))"

definition new_node :: "node_info \<Rightarrow> job_node" where
  "new_node t = \<lparr>jn_node = un_name t, jn_packages = length (un_packages t), jn_state = UpPending, jn_stage = ''preparing'',
     jn_mode = Indeterminate, jn_percent = None, jn_message = ''Waiting'', jn_outcome = Some OutPending,
     jn_reboot_state = RebootUnknown, jn_required = None, jn_reboot = None\<rparr>"

definition new_update :: "string \<Rightarrow> string \<Rightarrow> int \<Rightarrow> string option \<Rightarrow> node_info list \<Rightarrow> update_job" where
  "new_update i jid now req ts = \<lparr>uj_id = jid, uj_device = i, uj_kind = UpdateOp, uj_state = UpRunning, uj_stage = ''preparing'',
     uj_mode = Indeterminate, uj_started = now, uj_updated = now, uj_finished = None, uj_total = length ts, uj_completed = 0,
     uj_failed = 0, uj_current = None, uj_percent = None, uj_message = ''Starting update installation'', uj_requested = req,
     uj_refresh = Some RefreshPending, uj_nodes = map new_node ts\<rparr>"

text \<open>The sections of a start that hold the lock: the first guard, and the guard with the entry into the table.\<close>

definition not_running :: "string \<Rightarrow> string \<Rightarrow> update_world \<Rightarrow> unit result" where
  "not_running msg i w = (if update_running i w then Inl (Conflict msg) else Inr ())"

definition commit_operation :: "string \<Rightarrow> string \<Rightarrow> update_job \<Rightarrow> update_world \<Rightarrow> update_job result \<times> update_world" where
  "commit_operation msg i j w = (case not_running msg i w of
     Inl e \<Rightarrow> (Inl e, w)
   | Inr _ \<Rightarrow> (Inr j, w\<lparr>uw_jobs := dput i j (uw_jobs w), uw_doc := persist_operation i j (uw_doc w)\<rparr>))"

definition job_ident :: "string \<Rightarrow> nat \<Rightarrow> string" where
  "job_ident i ns = i @ ''-'' @ digits_of_nat ns"

definition start_update :: "update_env \<Rightarrow> string \<Rightarrow> string option \<Rightarrow> nat \<Rightarrow> int \<Rightarrow> update_world \<Rightarrow> (update_job \<times> node_info list \<times> doc) result \<times> update_world" where
  "start_update env i node ns now w = (let msg = ''an update installation is already running'' in
     case rbind (not_running msg i w) (\<lambda>_. prepare_update env i node (uw_doc w)) of
       Inl e \<Rightarrow> (Inl e, w)
     | Inr (ts, ssh) \<Rightarrow> (case commit_operation msg i (new_update i (job_ident i ns) now (requested_node node) ts) w of
         (Inl e, w') \<Rightarrow> (Inl e, w') | (Inr j, w') \<Rightarrow> (Inr (j, ts, ssh), w')))"

section \<open>Rebooting a node\<close>

definition reboot_sent :: "string \<Rightarrow> reboot" where
  "reboot_sent stamp = unknown_reboot ''Reboot requested; refresh after the node returns to verify its kernel'' stamp"

text \<open>The connection, the one command, and what the document then says of the node.\<close>

definition send_reboot :: "update_env \<Rightarrow> install_run \<Rightarrow> node_info \<Rightarrow> update_world \<Rightarrow> reboot result \<times> update_world" where
  "send_reboot env r t w = (case rbind (open_root env 0 (un_host t) (ir_ssh r)) (\<lambda>sh. run_command sh RebootNode ''systemctl reboot'') of
     Inl e \<Rightarrow> (Inl e, w)
   | Inr _ \<Rightarrow> (let rb = reboot_sent (ue_stamp env 0) in
       (Inr rb, w\<lparr>uw_doc := persist_node_reboot (ir_device r) (un_name t) rb (uw_doc w)\<rparr>)))"

definition rebooting_node :: "job_node \<Rightarrow> job_node" where
  "rebooting_node n = n\<lparr>jn_state := UpRunning, jn_stage := ''rebooting'', jn_mode := Indeterminate, jn_percent := None,
     jn_message := ''Sending reboot command''\<rparr>"

definition rebooted_node :: "reboot \<Rightarrow> job_node \<Rightarrow> job_node" where
  "rebooted_node rb n = n\<lparr>jn_state := UpCompleted, jn_stage := ''completed'', jn_mode := Exact, jn_percent := Some 100,
     jn_reboot_state := RebootUnknown, jn_required := None, jn_reboot := Some rb, jn_message := ''Reboot command sent''\<rparr>"

definition unsent_node :: "string \<Rightarrow> job_node \<Rightarrow> job_node" where
  "unsent_node msg n = n\<lparr>jn_state := UpFailed, jn_stage := ''failed'', jn_mode := Exact, jn_percent := Some 100, jn_message := msg\<rparr>"

definition finish_reboot :: "update_env \<Rightarrow> string \<Rightarrow> reboot result \<Rightarrow> int \<Rightarrow> update_job \<Rightarrow> update_job" where
  "finish_reboot env name x now j = (let j1 = j\<lparr>uj_current := None, uj_mode := Exact, uj_completed := 1, uj_percent := Some 100,
       uj_finished := Some now, uj_updated := now\<rparr> in
     case x of
       Inr _ \<Rightarrow> j1\<lparr>uj_state := UpCompleted, uj_stage := ''completed'', uj_message := ''Reboot command sent to '' @ name @ ''.''\<rparr>
     | Inl e \<Rightarrow> j1\<lparr>uj_state := UpFailed, uj_stage := ''failed'', uj_failed := 1,
         uj_message := ''Reboot failed on '' @ name @ '': '' @ take 300 (ue_safe env e)\<rparr>)"

definition reboot_node :: "update_env \<Rightarrow> reboot result \<Rightarrow> job_node \<Rightarrow> job_node" where
  "reboot_node env x = (case x of Inr rb \<Rightarrow> rebooted_node rb | Inl e \<Rightarrow> unsent_node (take 300 (ue_safe env e)))"

definition run_reboot :: "update_env \<Rightarrow> install_run \<Rightarrow> node_info \<Rightarrow> update_world \<Rightarrow> update_world" where
  "run_reboot env r t w =
     (let i = ir_device r; jid = ir_job r; name = un_name t;
          w1 = set_node i jid 0 (ir_clock r 0 0) rebooting_node w;
          w2 = set_operation i jid (\<lambda>j. j\<lparr>uj_current := Some name, uj_stage := ''rebooting'', uj_mode := Indeterminate, uj_percent := None,
            uj_message := ''Sending reboot command to '' @ name, uj_updated := ir_clock r 0 1\<rparr>) w1;
          (x, w3) = send_reboot env r t w2;
          w4 = set_node i jid 0 (ir_clock r 0 2) (reboot_node env x) w3 in
      set_operation i jid (finish_reboot env name x (ir_clock r 0 3)) w4)"

definition new_reboot :: "string \<Rightarrow> string \<Rightarrow> int \<Rightarrow> string \<Rightarrow> update_job" where
  "new_reboot i jid now name = \<lparr>uj_id = jid, uj_device = i, uj_kind = RebootOp, uj_state = UpRunning, uj_stage = ''preparing'',
     uj_mode = Indeterminate, uj_started = now, uj_updated = now, uj_finished = None, uj_total = 1, uj_completed = 0, uj_failed = 0,
     uj_current = None, uj_percent = None, uj_message = ''Starting node reboot'', uj_requested = Some name, uj_refresh = None,
     uj_nodes = [\<lparr>jn_node = name, jn_packages = 0, jn_state = UpPending, jn_stage = ''preparing'', jn_mode = Indeterminate,
       jn_percent = None, jn_message = ''Waiting'', jn_outcome = None, jn_reboot_state = RebootRequired, jn_required = Some True,
       jn_reboot = None\<rparr>]\<rparr>"

text \<open>The fresh inspection of the device, stored like that of a check, under the same lease.\<close>

definition inspect_body :: "update_env \<Rightarrow> string \<Rightarrow> doc \<Rightarrow> update_world \<Rightarrow> catalogue result \<times> update_world" where
  "inspect_body env i ssh w = (case read_catalogue env i (uw_doc w) of
     Inl e \<Rightarrow> (Inl e, w)
   | Inr (_, c) \<Rightarrow> (let c' = inspect_reboots env c (Some ssh) in
       (Inr c', w\<lparr>uw_doc := persist_maintenance i c' True (ue_stamp env (length (ca_nodes c'))) (uw_doc w)\<rparr>)))"

definition reboot_target :: "string \<Rightarrow> catalogue \<Rightarrow> node_info result" where
  "reboot_target name c = (case find (\<lambda>n. un_name n = name) (ca_nodes c) of
     None \<Rightarrow> Inl (ValueError ''unknown Proxmox node'')
   | Some n \<Rightarrow> if un_status n \<noteq> ''online'' then Inl (ValueError ''Proxmox node is not online'')
       else if map_option rb_state (un_reboot n) \<noteq> Some RebootRequired then Inl (ValueError ''Proxmox node does not currently require a reboot'')
       else Inr n)"

definition start_reboot :: "update_env \<Rightarrow> string \<Rightarrow> string option \<Rightarrow> json \<Rightarrow> nat \<Rightarrow> int \<Rightarrow> update_world \<Rightarrow> (update_job \<times> node_info \<times> doc) result \<times> update_world" where
  "start_reboot env i node confirmed ns now w = (let msg = ''a Proxmox maintenance operation is already running'' in
     if confirmed \<noteq> JBool True then (Inl (ValueError ''node reboot requires explicit confirmation''), w)
     else (case requested_node node of
       None \<Rightarrow> (Inl (ValueError ''Proxmox node is required''), w)
     | Some name \<Rightarrow>
       (case rbind (not_running msg i w) (\<lambda>_. root_device env ''configure root SSH credentials before rebooting a node'' i (uw_doc w)) of
          Inl e \<Rightarrow> (Inl e, w)
        | Inr ssh \<Rightarrow> (case with_update_lock i (ue_token env) (ue_now env) (inspect_body env i ssh) w of
            (Inl e, w1) \<Rightarrow> (Inl e, w1)
          | (Inr c, w1) \<Rightarrow> (case reboot_target name c of
              Inl e \<Rightarrow> (Inl e, w1)
            | Inr t \<Rightarrow> (case commit_operation msg i (new_reboot i (job_ident i ns) now name) w1 of
                (Inl e, w2) \<Rightarrow> (Inl e, w2) | (Inr j, w2) \<Rightarrow> (Inr (j, t, ssh), w2)))))))"

section \<open>Privileged credentials\<close>

definition ssh_port :: "json \<Rightarrow> int result" where
  "ssh_port port = (case int_of_json (py_or port (JInt 22)) of
     Inl e \<Rightarrow> if is_caught e then Inl (ValueError ''invalid SSH port'') else Inl e
   | Inr p \<Rightarrow> if p < 1 \<or> 65535 < p then Inl (ValueError ''invalid SSH port'') else Inr p)"

definition ssh_candidate :: "string \<Rightarrow> int \<Rightarrow> string option \<Rightarrow> string option \<Rightarrow> doc" where
  "ssh_candidate user port password key = [(''username'', JStr user), (''port'', JInt port)] @
     (case some_nonempty password of None \<Rightarrow> [] | Some p \<Rightarrow> [(''password'', JStr p)]) @
     (case some_nonempty key of None \<Rightarrow> [] | Some k \<Rightarrow> [(''privateKey'', JStr k)])"

definition validate_ssh :: "string option \<Rightarrow> string option \<Rightarrow> string option \<Rightarrow> json \<Rightarrow> doc result" where
  "validate_ssh user password key port =
     (let name = strip (case some_nonempty user of None \<Rightarrow> ''root'' | Some u \<Rightarrow> u) in
      if name \<noteq> ''root'' then Inl (ValueError ''Proxmox updates require the root SSH account'')
      else if some_nonempty password = None \<and> some_nonempty key = None then Inl (ValueError ''an SSH password or private key is required'')
      else rbind (ssh_port port) (\<lambda>p. Inr (ssh_candidate name p password key)))"

text \<open>The login with the candidate, on the host of the device.\<close>

definition root_login :: "update_env \<Rightarrow> device \<Rightarrow> doc \<Rightarrow> unit result" where
  "root_login env dev cand = rbind (ue_open env 0 (dv_host dev) (getn cand ''port'') cand) (\<lambda>sh. rbind (sh IdU) (\<lambda>(code, out).
     if code \<noteq> 0 \<or> strip out \<noteq> ''0'' then Inl (ValueError ''SSH login did not produce a root shell'') else Inr ()))"

definition ssh_mut :: "string \<Rightarrow> string \<Rightarrow> updates_doc \<Rightarrow> (updates_doc \<times> unit) result" where
  "ssh_mut i blob d = (case dget (dd_devices (ud_base d)) i of
     None \<Rightarrow> Inl not_found
   | Some dev \<Rightarrow> (case some_nonempty (dv_cred dev) of
       None \<Rightarrow> Inl not_found
     | Some ref \<Rightarrow> Inr (d\<lparr>ud_base := (ud_base d)\<lparr>dd_credentials := dput ref blob (dd_credentials (ud_base d))\<rparr>\<rparr>, ())))"

definition configure_ssh :: "update_env \<Rightarrow> (doc \<Rightarrow> string) \<Rightarrow> string \<Rightarrow> string option \<Rightarrow> string option \<Rightarrow> string option \<Rightarrow> json \<Rightarrow> updates_doc \<Rightarrow> unit result \<times> updates_doc" where
  "configure_ssh env encrypt i user password key port d = (case dget (dd_devices (ud_base d)) i of
     None \<Rightarrow> (Inl not_found, d)
   | Some dev \<Rightarrow> (case rbind (driver_of (ue_registry env) dev) (\<lambda>_. rbind (validate_ssh user password key port) (\<lambda>cand.
         rbind (root_login env dev cand) (\<lambda>_. rbind (ue_credentials env dev) (\<lambda>creds.
         Inr (encrypt (dput ''updateSsh'' (JObj cand) creds)))))) of
       Inl e \<Rightarrow> (Inl e, d)
     | Inr blob \<Rightarrow> transact (ssh_mut i blob) d))"

end
