(* ===== verification/UpdateRuns.thy ===== *)
theory UpdateRuns
  imports UpdateJobs
begin

text \<open>
  What the update and reboot operations of \<open>backend/device_updates.py\<close> guarantee: a run takes every node to the
  outcome its connection gave, checks release their lease, at most one operation of a device is at work, and an
  operation left by an earlier process is reported as interrupted.
\<close>

section \<open>Steps on one device\<close>

definition others_same :: "string \<Rightarrow> update_world \<Rightarrow> update_world \<Rightarrow> bool" where
  "others_same i w w' \<longleftrightarrow> dd_devices (ud_base (uw_doc w')) = dd_devices (ud_base (uw_doc w)) \<and>
     (\<forall>k. k \<noteq> i \<longrightarrow> dget (uw_jobs w') k = dget (uw_jobs w) k \<and> dget (ud_operations (uw_doc w')) k = dget (ud_operations (uw_doc w)) k \<and>
        dget (ud_maintenance (uw_doc w')) k = dget (ud_maintenance (uw_doc w)) k)"

lemma others_refl [simp]: "others_same i w w"
  by (simp add: others_same_def)

lemma others_trans: "others_same i w w' \<Longrightarrow> others_same i w' w'' \<Longrightarrow> others_same i w w''"
  by (simp add: others_same_def)

lemma others_device: "others_same i w w' \<Longrightarrow> has_device k (uw_doc w') = has_device k (uw_doc w)"
  by (simp add: others_same_def has_device_def)

definition at_work :: "string \<Rightarrow> string \<Rightarrow> update_job \<Rightarrow> update_world \<Rightarrow> bool" where
  "at_work i jid j w \<longleftrightarrow> dget (uw_jobs w) i = Some j \<and> uj_id j = jid"

lemma set_operation_work:
  assumes "at_work i jid j w" "uj_id (f j) = jid"
  shows "at_work i jid (f j) (set_operation i jid f w)" "others_same i w (set_operation i jid f w)"
    "has_device i (uw_doc w) \<Longrightarrow> stored_operation i (uw_doc (set_operation i jid f w)) = Some (f j)"
  using assms by (auto simp: at_work_def set_operation_def others_same_def persist_operation_def stored_operation_def has_device_def)

lemma others_persist [simp]:
  "others_same i w (w\<lparr>uw_doc := persist_node_reboot i name rb (uw_doc w)\<rparr>)"
  "others_same i w (w\<lparr>uw_doc := persist_maintenance i c b stamp (uw_doc w)\<rparr>)"
  "others_same i w (w\<lparr>uw_doc := record_refresh_failure i reason stamp (uw_doc w)\<rparr>)"
  by (simp_all add: others_same_def persist_node_reboot_def persist_maintenance_def record_refresh_failure_def Let_def)

text \<open>A job that differs at one node and in what it announces.\<close>

definition job_like :: "nat \<Rightarrow> update_job \<Rightarrow> update_job \<Rightarrow> bool" where
  "job_like k j j' \<longleftrightarrow> uj_id j' = uj_id j \<and> uj_state j' = uj_state j \<and> uj_completed j' = uj_completed j \<and> uj_failed j' = uj_failed j \<and>
     (\<exists>n. uj_nodes j' = (uj_nodes j)[k := n] \<and> jn_node n = jn_node (uj_nodes j ! k))"

lemma job_like_refl: "job_like k j j"
  by (auto simp: job_like_def intro: exI [of _ "uj_nodes j ! k"])

lemma job_like_trans: "job_like k j j' \<Longrightarrow> job_like k j' j'' \<Longrightarrow> job_like k j j''"
  unfolding job_like_def by (cases "k < length (uj_nodes j)") (auto simp: list_update_beyond)

lemma node_progress_like: "job_like k j (node_progress k stage msg now j)"
  by (auto simp: job_like_def node_progress_def change_node_def Let_def)

lemma progress_work:
  assumes "at_work i jid j w"
  obtains j' where "at_work i jid j' (set_node_progress i jid k stage msg now w)" "job_like k j j'"
    "others_same i w (set_node_progress i jid k stage msg now w)"
proof -
  have "uj_id (node_progress k stage msg now j) = jid"
    using assms node_progress_like [of k j stage msg now] by (simp add: job_like_def at_work_def)
  then show thesis using that [OF _ node_progress_like] set_operation_work [OF assms] unfolding set_node_progress_def by blast
qed

lemma at_work_doc [simp]: "at_work i jid j (w\<lparr>uw_doc := d\<rparr>) = at_work i jid j w"
  by (simp add: at_work_def)

section \<open>One node\<close>

definition node_result :: "update_env \<Rightarrow> install_run \<Rightarrow> nat \<Rightarrow> node_info \<Rightarrow> reboot result" where
  "node_result env r k t = rbind (open_root env k (un_host t) (ir_ssh r)) (\<lambda>sh. rbind (run_command sh AptUpdate ''apt-get update'') (\<lambda>_.
     rbind (run_command sh AptUpgrade ''apt-get dist-upgrade'') (\<lambda>_. Inr (checked_reboot env sh (ue_stamp env k)))))"

lemma install_block_work:
  assumes "at_work (ir_device r) (ir_job r) j w" "install_block env r k t w = (x, w')"
  shows "x = node_result env r k t \<and> (\<exists>j'. at_work (ir_device r) (ir_job r) j' w' \<and> job_like k j j' \<and> others_same (ir_device r) w w')"
proof (cases "open_root env k (un_host t) (ir_ssh r)")
  case (Inl e)
  then show ?thesis using assms by (auto simp: install_block_def node_result_def intro!: exI [of _ j] job_like_refl)
next
  case (Inr sh)
  let ?i = "ir_device r" and ?jid = "ir_job r"
  define w1 where "w1 = set_node_progress ?i ?jid k ''downloading'' ''Refreshing package lists'' (ir_clock r k 1) w"
  define w2 where "w2 = set_node_progress ?i ?jid k ''installing'' ''Installing updates'' (ir_clock r k 2) w1"
  define w3 where "w3 = set_node_progress ?i ?jid k ''checking_reboot_status'' ''Checking reboot status'' (ir_clock r k 3) w2"
  obtain j1 where j1: "at_work ?i ?jid j1 w1" "job_like k j j1" "others_same ?i w w1"
    using progress_work [OF assms(1)] unfolding w1_def .
  obtain j2 where j2: "at_work ?i ?jid j2 w2" "job_like k j1 j2" "others_same ?i w1 w2"
    using progress_work [OF j1(1)] unfolding w2_def .
  obtain j3 where j3: "at_work ?i ?jid j3 w3" "job_like k j2 j3" "others_same ?i w2 w3"
    using progress_work [OF j2(1)] unfolding w3_def .
  have l: "job_like k j j2" "job_like k j j3" and o': "others_same ?i w w2" "others_same ?i w w3"
    using j1 j2 j3 job_like_trans others_trans by blast+
  let ?rb = "checked_reboot env sh (ue_stamp env k)"
  have p: "others_same ?i w (w3\<lparr>uw_doc := persist_node_reboot ?i (un_name t) ?rb (uw_doc w3)\<rparr>)"
    using others_trans [OF o'(2) others_persist(1)] .
  show ?thesis
  proof (cases "run_command sh AptUpdate ''apt-get update''")
    case (Inl e)
    then show ?thesis using assms(2) Inr j1 by (auto simp: install_block_def node_result_def w1_def Let_def)
  next
    fix u assume u: "run_command sh AptUpdate ''apt-get update'' = Inr u"
    show ?thesis
    proof (cases "run_command sh AptUpgrade ''apt-get dist-upgrade''")
      case (Inl e)
      then show ?thesis using assms(2) Inr u j2 l o' by (auto simp: install_block_def node_result_def w1_def w2_def Let_def)
    next
      fix v assume v: "run_command sh AptUpgrade ''apt-get dist-upgrade'' = Inr v"
      have "x = Inr ?rb" "w' = w3\<lparr>uw_doc := persist_node_reboot ?i (un_name t) ?rb (uw_doc w3)\<rparr>"
        using assms(2) Inr u v by (simp_all add: install_block_def w1_def w2_def w3_def Let_def)
      then show ?thesis using Inr u v j3(1) l(2) p by (auto simp: node_result_def)
    qed
  qed
qed

text \<open>The node as the run leaves it.\<close>

definition settled :: "update_env \<Rightarrow> reboot result \<Rightarrow> job_node \<Rightarrow> bool" where
  "settled env x n \<longleftrightarrow> jn_percent n = Some 100 \<and> (case x of
     Inr rb \<Rightarrow> jn_state n = UpCompleted \<and> jn_outcome n = Some OutSucceeded \<and> jn_reboot n = Some rb \<and> jn_reboot_state n = rb_state rb
   | Inl e \<Rightarrow> jn_state n = UpFailed \<and> jn_outcome n = Some OutFailed \<and> jn_message n = take 300 (ue_safe env e))"

lemma settled_completed: "settled env (Inr rb) (completed_node rb n)" "jn_node (completed_node rb n) = jn_node n"
  and settled_failed: "settled env (Inl e) (failed_node (take 300 (ue_safe env e)) n)" "jn_node (failed_node msg n) = jn_node n"
  by (simp_all add: settled_def completed_node_def failed_node_def)

lemma set_node_work:
  assumes "at_work i jid j w" "k < length (uj_nodes j)" "\<And>n. jn_node (g n) = jn_node n" "\<And>n. P (g n)"
  shows "\<exists>j'. at_work i jid j' (set_node i jid k now g w) \<and> job_like k j j' \<and> P (uj_nodes j' ! k) \<and> others_same i w (set_node i jid k now g w)"
proof -
  let ?f = "\<lambda>j. (change_node k g j)\<lparr>uj_updated := now\<rparr>"
  have "uj_id (?f j) = jid" using assms(1) by (simp add: at_work_def change_node_def)
  moreover have "job_like k j (?f j)" "P (uj_nodes (?f j) ! k)" using assms(2-) by (auto simp: job_like_def change_node_def)
  ultimately show ?thesis using set_operation_work [OF assms(1), of ?f] unfolding set_node_def by blast
qed

lemma install_node_work:
  assumes "at_work (ir_device r) (ir_job r) j w" "install_node env r k t w = (x, w')" "k < length (uj_nodes j)"
  shows "x = node_result env r k t \<and> (\<exists>j'. at_work (ir_device r) (ir_job r) j' w' \<and> job_like k j j' \<and> settled env x (uj_nodes j' ! k) \<and>
    others_same (ir_device r) w w')"
proof -
  let ?i = "ir_device r" and ?jid = "ir_job r"
  define w0 where "w0 = set_node_progress ?i ?jid k ''preparing'' ''Preparing update'' (ir_clock r k 0) w"
  obtain j0 where j0: "at_work ?i ?jid j0 w0" "job_like k j j0" "others_same ?i w w0"
    using progress_work [OF assms(1)] unfolding w0_def .
  obtain y w1 where b: "install_block env r k t w0 = (y, w1)" by fastforce
  from install_block_work [OF j0(1) this] obtain j1 where
    j1: "y = node_result env r k t" "at_work ?i ?jid j1 w1" "job_like k j0 j1" "others_same ?i w0 w1" by blast
  have l: "job_like k j j1" using j0(2) j1(3) by (rule job_like_trans)
  then have k: "k < length (uj_nodes j1)" using assms(3) by (auto simp: job_like_def)
  define g where "g = (case y of Inr rb \<Rightarrow> completed_node rb | Inl e \<Rightarrow> failed_node (take 300 (ue_safe env e)))"
  have x: "x = y" "w' = set_node ?i ?jid k (ir_clock r k 4) g w1"
    using assms(2) b by (auto simp: install_node_def w0_def g_def split: sum.splits)
  have "jn_node (g n) = jn_node n" "settled env y (g n)" for n
    by (simp_all add: g_def settled_completed settled_failed split: sum.split)
  from set_node_work [where P = "settled env y" and g = g and now = "ir_clock r k 4", OF j1(2) k this] obtain j2 where
    "at_work ?i ?jid j2 w'" "job_like k j1 j2" "settled env y (uj_nodes j2 ! k)" "others_same ?i w1 w'" unfolding x(2) by blast
  then show ?thesis using x(1) j1(1,4) j0(3) l job_like_trans others_trans by blast
qed

section \<open>All nodes\<close>

definition count_all :: "update_env \<Rightarrow> install_run \<Rightarrow> nat \<Rightarrow> node_info list \<Rightarrow> tally \<Rightarrow> tally" where
  "count_all env r k ts c = fold (\<lambda>(m, t). count_node t (node_result env r m t)) (List.enumerate k ts) c"

lemma install_nodes_work:
  assumes "at_work (ir_device r) (ir_job r) j w" "k + length ts = length (uj_nodes j)" "uj_completed j = k"
    "install_nodes env r k ts c w = (c', w')"
  shows "c' = count_all env r k ts c \<and> (\<exists>j'. at_work (ir_device r) (ir_job r) j' w' \<and> uj_state j' = uj_state j \<and> uj_failed j' = uj_failed j \<and>
    uj_completed j' = length (uj_nodes j) \<and> map jn_node (uj_nodes j') = map jn_node (uj_nodes j) \<and>
    (\<forall>m<k. uj_nodes j' ! m = uj_nodes j ! m) \<and>
    (\<forall>m<length ts. settled env (node_result env r (k + m) (ts ! m)) (uj_nodes j' ! (k + m))) \<and> others_same (ir_device r) w w')"
  using assms
proof (induction ts arbitrary: j k c w)
  case Nil
  then show ?case by (auto simp: count_all_def intro!: exI [of _ j])
next
  case (Cons t ts)
  let ?i = "ir_device r" and ?jid = "ir_job r"
  obtain x w1 where n: "install_node env r k t w = (x, w1)" by fastforce
  have k: "k < length (uj_nodes j)" using Cons.prems(2) by simp
  from install_node_work [OF Cons.prems(1) n k] obtain j1 where
    j1: "x = node_result env r k t" "at_work ?i ?jid j1 w1" "job_like k j j1" "settled env x (uj_nodes j1 ! k)" "others_same ?i w w1" by blast
  define f :: "update_job \<Rightarrow> update_job" where "f = (\<lambda>j. j\<lparr>uj_completed := Suc k, uj_mode := Exact,
    uj_percent := Some (node_percent (Suc k) (max 1 (length (ir_targets r)))), uj_updated := ir_clock r k 5\<rparr>)"
  define w2 where "w2 = set_operation ?i ?jid f w1"
  have "uj_id (f j1) = ?jid" using j1(2) by (simp add: f_def at_work_def)
  from set_operation_work [OF j1(2), of f, OF this] have f: "at_work ?i ?jid (f j1) w2" "others_same ?i w1 w2"
    by (simp_all add: w2_def)
  obtain u where u: "uj_nodes j1 = (uj_nodes j)[k := u]" "jn_node u = jn_node (uj_nodes j ! k)" using j1(3) by (auto simp: job_like_def)
  have names: "map jn_node (uj_nodes j1) = map jn_node (uj_nodes j)" using u k by (simp add: map_update list_update_same_conv)
  have len: "length (uj_nodes (f j1)) = length (uj_nodes j)" using u by (simp add: f_def)
  have g: "install_nodes env r (Suc k) ts (count_node t x c) w2 = (c', w')" using Cons.prems(4) n by (simp add: w2_def f_def)
  have "Suc k + length ts = length (uj_nodes (f j1))" "uj_completed (f j1) = Suc k" using Cons.prems(2) len by (simp_all add: f_def)
  from Cons.IH [OF f(1) this g] obtain j' where c': "c' = count_all env r (Suc k) ts (count_node t x c)" and
    j': "at_work ?i ?jid j' w'" "uj_state j' = uj_state j1" "uj_failed j' = uj_failed j1" "uj_completed j' = length (uj_nodes j)"
    "map jn_node (uj_nodes j') = map jn_node (uj_nodes j1)" "\<forall>m<Suc k. uj_nodes j' ! m = uj_nodes j1 ! m"
    "\<forall>m<length ts. settled env (node_result env r (Suc k + m) (ts ! m)) (uj_nodes j' ! (Suc k + m))" "others_same ?i w2 w'"
    unfolding len by (auto simp: f_def)
  have "uj_nodes j' ! m = uj_nodes j ! m" if "m < k" for m using j'(6) that u by simp
  moreover have "settled env (node_result env r (k + m) ((t # ts) ! m)) (uj_nodes j' ! (k + m))" if "m < length (t # ts)" for m
    using that j'(6,7) j1(1,4) by (cases m) auto
  moreover have "c' = count_all env r k (t # ts) c" using c' j1(1) by (simp add: count_all_def)
  moreover have "others_same ?i w w'" using j1(5) f(2) j'(8) others_trans by blast
  ultimately show ?case using j'(1-5) j1(3) names by (auto simp: job_like_def)
qed

text \<open>What is counted: failures, and of the others the state of the reboot.\<close>

lemma count_failed: "fst (count_all env r k ts c) = fst c + length (filter is_error (map (\<lambda>(m, t). node_result env r m t) (List.enumerate k ts)))"
proof -
  have "fst (fold (\<lambda>(m, t). count_node t (node_result env r m t)) ps c) =
      fst c + length (filter is_error (map (\<lambda>(m, t). node_result env r m t) ps))" for ps
    by (induction ps arbitrary: c) (auto simp: count_node_def is_error_def split: sum.split prod.split reboot_state.split)
  then show ?thesis by (simp add: count_all_def)
qed

section \<open>The check keeps the operations\<close>

lemma lease_devices: "acquire_lock i tok now b = Inr (b', u) \<Longrightarrow> dd_devices b' = dd_devices b"
  "release_lock i tok b = Inr (b', u) \<Longrightarrow> dd_devices b' = dd_devices b"
  by (auto simp: acquire_lock_def release_lock_def Let_def split: if_split_asm option.split_asm)

lemma release_devices [simp]: "dd_devices (snd (transact (release_lock i tok) b)) = dd_devices b"
  by (auto simp: release_lock_def transact_def split: option.split)

lemma with_lock_work:
  assumes "at_work i jid j w" and body: "\<And>w1 y w2. at_work i jid j w1 \<Longrightarrow> body w1 = (y, w2) \<Longrightarrow> at_work i jid j w2 \<and> others_same i w1 w2"
    and "with_update_lock i tok now body w = (x, w')"
  shows "at_work i jid j w' \<and> others_same i w w'"
proof (cases "acquire_lock i tok now (ud_base (uw_doc w))")
  case (Inl e)
  then show ?thesis using assms by (auto simp: with_update_lock_def)
next
  case (Inr bu)
  obtain b u where bu: "bu = (b, u)" by (cases bu) auto
  let ?w1 = "w\<lparr>uw_doc := (uw_doc w)\<lparr>ud_base := b\<rparr>\<rparr>"
  obtain y w2 where y: "body ?w1 = (y, w2)" by fastforce
  have w': "w' = w2\<lparr>uw_doc := (uw_doc w2)\<lparr>ud_base := snd (transact (release_lock i tok) (ud_base (uw_doc w2)))\<rparr>\<rparr>"
    using assms(3) Inr bu y by (simp add: with_update_lock_def)
  have "at_work i jid j w2 \<and> others_same i ?w1 w2" using body [OF _ y] assms(1) by simp
  then show ?thesis using lease_devices(1) [OF Inr [unfolded bu]] by (simp add: w' others_same_def)
qed

lemma check_body_work:
  assumes "at_work i jid j w" "check_body env i w = (x, w')"
  shows "at_work i jid j w' \<and> others_same i w w'"
  using assms by (auto simp: check_body_def operation_status_def at_work_def split: sum.splits)

lemma update_check_work:
  assumes "at_work i jid j w" "update_check env i w = (x, w')"
  shows "at_work i jid j w' \<and> others_same i w w'"
  using with_lock_work [OF assms(1) _ assms(2) [unfolded update_check_def]] check_body_work by blast

section \<open>A whole update\<close>

lemma commit_work:
  assumes "commit_operation msg i j w = (Inr j', w')"
  shows "j' = j \<and> at_work i (uj_id j) j w' \<and> others_same i w w' \<and> \<not> update_running i w \<and> (has_device i (uw_doc w) \<longrightarrow> stored_operation i (uw_doc w') = Some j)"
  using assms by (auto simp: commit_operation_def not_running_def at_work_def others_same_def persist_operation_def stored_operation_def
      has_device_def split: if_splits)

lemma root_device_exists: "root_device env msg i d = Inr ssh \<Longrightarrow> has_device i d"
  by (auto simp: root_device_def has_device_def split: option.splits)

lemma prepare_update_Inr:
  assumes "prepare_update env i node d = Inr (ts, ssh)"
  shows "has_device i d \<and> ts \<noteq> [] \<and> (\<forall>t\<in>set ts. un_status t = ''online'' \<and> un_packages t \<noteq> [] \<and>
    (\<forall>n. requested_node node = Some n \<longrightarrow> un_name t = n))"
  using assms by (auto simp: prepare_update_def rbind_Inr_iff Let_def update_targets_def root_device_exists split: if_splits)

lemma start_update_Inr:
  assumes "start_update env i node ns now w = (Inr (j, ts, ssh), w1)"
  shows "prepare_update env i node (uw_doc w) = Inr (ts, ssh) \<and> j = new_update i (job_ident i ns) now (requested_node node) ts \<and>
    commit_operation ''an update installation is already running'' i j w = (Inr j, w1)"
  using assms commit_work by (fastforce simp: start_update_def Let_def rbind_Inr_iff split: sum.splits prod.splits)

text \<open>How an operation ends: every node has the outcome of its connection, and the job the state that follows.\<close>

definition update_result :: "update_env \<Rightarrow> install_run \<Rightarrow> update_job \<Rightarrow> bool" where
  "update_result env r j \<longleftrightarrow> (let results = map (\<lambda>(k, t). node_result env r k t) (List.enumerate 0 (ir_targets r)) in
     uj_id j = ir_job r \<and> uj_finished j \<noteq> None \<and> uj_percent j = Some 100 \<and> uj_completed j = length results \<and>
     uj_failed j = length (filter is_error results) \<and> uj_state j = (if list_ex is_error results then UpFailed else UpCompleted) \<and>
     map jn_node (uj_nodes j) = map un_name (ir_targets r) \<and> list_all2 (settled env) results (uj_nodes j))"

lemma finish_update_fields:
  "uj_finished (finish_update c now j) = Some now" "uj_percent (finish_update c now j) = Some 100"
  "uj_id (finish_update c now j) = uj_id j" "uj_completed (finish_update c now j) = uj_completed j"
  "uj_nodes (finish_update c now j) = uj_nodes j"
  "uj_failed (finish_update c now j) = (if fst c \<noteq> 0 then fst c else uj_failed j)"
  "uj_state (finish_update c now j) = (if fst c \<noteq> 0 then UpFailed else UpCompleted)"
  by (auto simp: finish_update_def split: prod.splits)

lemma run_install_work:
  assumes "at_work (ir_device r) (ir_job r) (new_update (ir_device r) (ir_job r) now req (ir_targets r)) w" "has_device (ir_device r) (uw_doc w)"
  shows "\<exists>j. at_work (ir_device r) (ir_job r) j (run_install env env' r w) \<and> update_result env r j \<and>
    stored_operation (ir_device r) (uw_doc (run_install env env' r w)) = Some j \<and> others_same (ir_device r) w (run_install env env' r w)"
proof -
  let ?i = "ir_device r" and ?jid = "ir_job r" and ?ts = "ir_targets r"
  let ?j = "new_update ?i ?jid now req ?ts"
  let ?rs = "map (\<lambda>(k, t). node_result env r k t) (List.enumerate 0 ?ts)"
  obtain c w1 where n: "install_nodes env r 0 ?ts (0, [], 0) w = (c, w1)" by fastforce
  have "0 + length ?ts = length (uj_nodes ?j)" "uj_completed ?j = 0" by (simp_all add: new_update_def)
  from install_nodes_work [OF assms(1) this n] obtain j1 where c: "c = count_all env r 0 ?ts (0, [], 0)" and
    j1: "at_work ?i ?jid j1 w1" "uj_failed j1 = 0" "uj_completed j1 = length ?ts" "map jn_node (uj_nodes j1) = map un_name ?ts"
    "\<forall>m<length ?ts. settled env (node_result env r m (?ts ! m)) (uj_nodes j1 ! m)" "others_same ?i w w1"
    by (auto simp: new_update_def new_node_def)
  obtain x w2 where x: "update_check env' ?i w1 = (x, w2)" by fastforce
  have j2: "at_work ?i ?jid j1 w2" "others_same ?i w1 w2" using update_check_work [OF j1(1) x] by simp_all
  define f where "f = (\<lambda>j :: update_job. j\<lparr>uj_refresh := Some (refresh_of env x)\<rparr>)"
  define w3 where "w3 = set_operation ?i ?jid f w2"
  have "uj_id (f j1) = ?jid" using j2(1) by (simp add: f_def at_work_def)
  from set_operation_work [where f = f, OF j2(1) this] have j3: "at_work ?i ?jid (f j1) w3" "others_same ?i w2 w3" unfolding w3_def by blast+
  define g where "g = finish_update c (ir_clock r (length ?ts) 0)"
  have w4: "run_install env env' r w = set_operation ?i ?jid g w3"
    using n x by (simp add: run_install_def w3_def f_def g_def)
  have "uj_id (g (f j1)) = ?jid" using j3(1) by (simp add: g_def finish_update_fields at_work_def)
  note s = set_operation_work [where f = g, OF j3(1) this, folded w4]
  have o': "others_same ?i w w3" using j1(6) j2(2) j3(2) others_trans by blast
  have d: "has_device ?i (uw_doc w3)" using others_device [OF o'] assms(2) by simp
  have len: "length (uj_nodes j1) = length ?ts" using j1(4) by (metis length_map)
  have l2: "list_all2 (settled env) ?rs (uj_nodes j1)"
    using j1(5) len by (simp add: list_all2_conv_all_nth nth_enumerate_eq)
  have fst: "fst c = length (filter is_error ?rs)" unfolding c by (simp add: count_failed)
  have ex: "list_ex is_error ?rs \<longleftrightarrow> length (filter is_error ?rs) \<noteq> 0" by (auto simp: list_ex_iff filter_empty_conv)
  have "update_result env r (g (f j1))"
    using j1(2,3,4) l2 j3(1) unfolding update_result_def Let_def ex
    by (simp add: g_def finish_update_fields fst f_def at_work_def)
  then show ?thesis using s(1) s(3) [OF d] others_trans [OF o' s(2)] by blast
qed

text \<open>
  Property C30: an update that is started ends. It is started only for nodes that are online, have updates and
  are the requested ones; each then has exactly the outcome its own connection gave, whatever happened to the
  others; the operation has failed when one of them failed, is complete otherwise, counts all nodes and is
  stored as it is shown; nothing of another device changes.
\<close>

theorem update_run_exact:
  assumes "start_update env i node ns now w = (Inr (j, ts, ssh), w1)"
    and "r = \<lparr>ir_device = i, ir_job = job_ident i ns, ir_targets = ts, ir_ssh = ssh, ir_clock = clock\<rparr>"
  shows "ts \<noteq> [] \<and> (\<forall>t\<in>set ts. un_status t = ''online'' \<and> un_packages t \<noteq> [] \<and> (\<forall>n. requested_node node = Some n \<longrightarrow> un_name t = n)) \<and>
    \<not> update_running i w \<and> others_same i w (run_install env' env'' r w1) \<and>
    (\<exists>j'. dget (uw_jobs (run_install env' env'' r w1)) i = Some j' \<and> stored_operation i (uw_doc (run_install env' env'' r w1)) = Some j' \<and>
       update_result env' r j')"
proof -
  have p: "prepare_update env i node (uw_doc w) = Inr (ts, ssh)" "j = new_update i (job_ident i ns) now (requested_node node) ts"
    "commit_operation ''an update installation is already running'' i j w = (Inr j, w1)"
    using start_update_Inr [OF assms(1)] by blast+
  note q = prepare_update_Inr [OF p(1)] and c = commit_work [OF p(3)]
  have "at_work (ir_device r) (ir_job r) (new_update (ir_device r) (ir_job r) now (requested_node node) (ir_targets r)) w1"
    using c p(2) by (simp add: assms(2) new_update_def)
  moreover have "has_device (ir_device r) (uw_doc w1)" using c q others_device [of i w w1 i] by (simp add: assms(2))
  ultimately obtain j' where "at_work i (ir_job r) j' (run_install env' env'' r w1)" "update_result env' r j'"
    "stored_operation i (uw_doc (run_install env' env'' r w1)) = Some j'" "others_same i w1 (run_install env' env'' r w1)"
    using run_install_work [of r now "requested_node node" w1 env' env''] by (auto simp: assms(2))
  then show ?thesis using q c others_trans [of i w w1] by (auto simp: at_work_def)
qed

section \<open>A whole reboot\<close>

lemma inspected_node:
  assumes "n \<in> set (ca_nodes (inspect_reboots env c (Some ssh)))" "map_option rb_state (un_reboot n) = Some RebootRequired"
  shows "\<exists>k sh rb. open_root env k (un_host n) ssh = Inr sh \<and> reboot_status sh (ue_stamp env k) = Inr rb \<and> un_reboot n = Some rb"
proof -
  obtain k m where m: "n = inspect_node env (Some ssh) (k, m)" using assms(1) by (auto simp: inspect_reboots_def)
  have "un_host n = un_host m" using m by (simp add: inspect_node_def)
  moreover have "\<exists>sh rb. open_root env k (un_host m) ssh = Inr sh \<and> reboot_status sh (ue_stamp env k) = Inr rb \<and> un_reboot n = Some rb"
    using assms(2) m by (auto simp: inspect_node_def unknown_reboot_def rbind_Inr_iff split: if_splits sum.splits)
  ultimately show ?thesis by auto
qed

lemma reboot_target_Inr:
  assumes "reboot_target name c = Inr t"
  shows "t \<in> set (ca_nodes c) \<and> un_name t = name \<and> un_status t = ''online'' \<and> map_option rb_state (un_reboot t) = Some RebootRequired"
  using assms by (auto simp: reboot_target_def find_Some_iff split: option.splits if_splits)

lemma with_lock_Inr:
  assumes "with_update_lock i tok now body w = (Inr x, w')"
  shows "\<exists>w1 w2. body w1 = (Inr x, w2)"
  using assms by (auto simp: with_update_lock_def split: prod.splits sum.splits)

lemma with_lock_jobs:
  assumes "with_update_lock i tok now body w = (x, w')" "\<And>v y v'. body v = (y, v') \<Longrightarrow> uw_jobs v' = uw_jobs v \<and> others_same i v v'"
  shows "uw_jobs w' = uw_jobs w \<and> others_same i w w'"
proof (cases "acquire_lock i tok now (ud_base (uw_doc w))")
  case (Inl e)
  then show ?thesis using assms by (auto simp: with_update_lock_def)
next
  case (Inr bu)
  obtain b u where bu: "bu = (b, u)" by (cases bu) auto
  let ?w1 = "w\<lparr>uw_doc := (uw_doc w)\<lparr>ud_base := b\<rparr>\<rparr>"
  obtain y w2 where y: "body ?w1 = (y, w2)" by fastforce
  have w': "w' = w2\<lparr>uw_doc := (uw_doc w2)\<lparr>ud_base := snd (transact (release_lock i tok) (ud_base (uw_doc w2)))\<rparr>\<rparr>"
    using assms(1) Inr bu y by (simp add: with_update_lock_def)
  show ?thesis using assms(2) [OF y] lease_devices(1) [OF Inr [unfolded bu]] by (simp add: w' others_same_def)
qed

lemma inspect_body_work: "inspect_body env i ssh w = (x, w') \<Longrightarrow> uw_jobs w' = uw_jobs w \<and> others_same i w w'"
  by (auto simp: inspect_body_def Let_def split: sum.splits)

lemma start_reboot_Inr:
  assumes "start_reboot env i node confirmed ns now w = (Inr (j, t, ssh), w1)"
  obtains c w0 where "confirmed = JBool True" "requested_node node = Some (un_name t)" "\<not> update_running i w" "has_device i (uw_doc w)"
    "\<exists>v v'. inspect_body env i ssh v = (Inr c, v')" "uw_jobs w0 = uw_jobs w" "others_same i w w0" "reboot_target (un_name t) c = Inr t"
    "j = new_reboot i (job_ident i ns) now (un_name t)"
    "commit_operation ''a Proxmox maintenance operation is already running'' i j w0 = (Inr j, w1)"
proof -
  let ?msg = "''a Proxmox maintenance operation is already running''"
  obtain name c w0 where 1: "confirmed = JBool True" "requested_node node = Some name"
    "rbind (not_running ?msg i w) (\<lambda>_. root_device env ''configure root SSH credentials before rebooting a node'' i (uw_doc w)) = Inr ssh"
    "with_update_lock i (ue_token env) (ue_now env) (inspect_body env i ssh) w = (Inr c, w0)" "reboot_target name c = Inr t"
    "commit_operation ?msg i (new_reboot i (job_ident i ns) now name) w0 = (Inr j, w1)"
    using assms by (auto simp: start_reboot_def Let_def split: if_splits option.splits sum.splits prod.splits)
  have "un_name t = name" using reboot_target_Inr [OF 1(5)] by simp
  moreover have "\<not> update_running i w" "has_device i (uw_doc w)"
    using 1(3) root_device_exists by (auto simp: rbind_Inr_iff not_running_def split: if_splits)
  moreover have "uw_jobs w0 = uw_jobs w \<and> others_same i w w0" using with_lock_jobs [OF 1(4) inspect_body_work] .
  moreover have "j = new_reboot i (job_ident i ns) now name" using commit_work [OF 1(6)] by simp
  ultimately show thesis using that [of c w0] 1 with_lock_Inr [OF 1(4)] by simp
qed

definition reboot_result :: "update_env \<Rightarrow> install_run \<Rightarrow> node_info \<Rightarrow> unit result" where
  "reboot_result env r t = rbind (open_root env 0 (un_host t) (ir_ssh r)) (\<lambda>sh. run_command sh RebootNode ''systemctl reboot'')"

lemma send_reboot_work:
  assumes "send_reboot env r t w = (x, w')"
  shows "is_error x = is_error (reboot_result env r t) \<and> uw_jobs w' = uw_jobs w \<and> others_same (ir_device r) w w'"
  using assms by (auto simp: send_reboot_def reboot_result_def Let_def split: sum.splits)

definition reboot_ended :: "install_run \<Rightarrow> unit result \<Rightarrow> update_job \<Rightarrow> bool" where
  "reboot_ended r x j \<longleftrightarrow> uj_id j = ir_job r \<and> uj_finished j \<noteq> None \<and> uj_completed j = 1 \<and> uj_percent j = Some 100 \<and>
     uj_failed j = (if is_error x then 1 else 0) \<and> uj_state j = (if is_error x then UpFailed else UpCompleted) \<and>
     (\<exists>n. uj_nodes j = [n] \<and> jn_state n = uj_state j)"

lemma run_reboot_work:
  assumes "at_work (ir_device r) (ir_job r) (new_reboot (ir_device r) (ir_job r) now name) w" "has_device (ir_device r) (uw_doc w)"
  shows "\<exists>j. at_work (ir_device r) (ir_job r) j (run_reboot env r t w) \<and> reboot_ended r (reboot_result env r t) j \<and>
    stored_operation (ir_device r) (uw_doc (run_reboot env r t w)) = Some j \<and> others_same (ir_device r) w (run_reboot env r t w)"
proof -
  let ?i = "ir_device r" and ?jid = "ir_job r"
  let ?j = "new_reboot ?i ?jid now name"
  define f0 where "f0 = (\<lambda>j. (change_node 0 rebooting_node j)\<lparr>uj_updated := ir_clock r 0 0\<rparr>)"
  define f1 where "f1 = (\<lambda>j :: update_job. j\<lparr>uj_current := Some (un_name t), uj_stage := ''rebooting'', uj_mode := Indeterminate,
    uj_percent := None, uj_message := ''Sending reboot command to '' @ un_name t, uj_updated := ir_clock r 0 1\<rparr>)"
  define w2 where "w2 = set_operation ?i ?jid f1 (set_operation ?i ?jid f0 w)"
  obtain x w3 where x: "send_reboot env r t w2 = (x, w3)" by fastforce
  define f2 where "f2 = (\<lambda>j. (change_node 0 (reboot_node env x) j)\<lparr>uj_updated := ir_clock r 0 2\<rparr>)"
  define f3 where "f3 = finish_reboot env (un_name t) x (ir_clock r 0 3)"
  have e: "run_reboot env r t w = set_operation ?i ?jid f3 (set_operation ?i ?jid f2 w3)"
    using x by (simp add: run_reboot_def set_node_def w2_def f0_def f1_def f2_def f3_def Let_def)
  have ids: "uj_id (f0 j) = uj_id j" "uj_id (f1 j) = uj_id j" "uj_id (f2 j) = uj_id j" "uj_id (f3 j) = uj_id j" for j
    by (simp_all add: f0_def f1_def f2_def f3_def change_node_def finish_reboot_def Let_def split: sum.split)
  have id: "uj_id ?j = ?jid" by (simp add: new_reboot_def)
  note s0 = set_operation_work [where f = f0, OF assms(1), simplified ids, OF id]
  note s1 = set_operation_work [where f = f1, OF s0(1), simplified ids, OF id, folded w2_def]
  have s: "is_error x = is_error (reboot_result env r t)" "at_work ?i ?jid (f1 (f0 ?j)) w3" "others_same ?i w2 w3"
    using send_reboot_work [OF x] s1(1) by (auto simp: at_work_def)
  note s2 = set_operation_work [where f = f2, OF s(2), simplified ids, OF id]
  note s3 = set_operation_work [where f = f3, OF s2(1), simplified ids, OF id, folded e]
  have o': "others_same ?i w (set_operation ?i ?jid f2 w3)" using s0(2) s1(2) s(3) s2(2) others_trans by blast
  have d: "has_device ?i (uw_doc (set_operation ?i ?jid f2 w3))" using others_device [OF o'] assms(2) by simp
  have "reboot_ended r (reboot_result env r t) (f3 (f2 (f1 (f0 ?j))))"
    unfolding reboot_ended_def s(1) [symmetric]
    by (cases x) (simp_all add: f0_def f1_def f2_def f3_def finish_reboot_def new_reboot_def change_node_def reboot_node_def
        rebooted_node_def unsent_node_def)
  then show ?thesis using s3(1) s3(3) [OF d] others_trans [OF o' s3(2)] by blast
qed

text \<open>
  Property C29: a node is rebooted only after an explicit confirmation, while no operation of the device is
  running, and when an inspection made for this request has found it online and in need of a reboot; the
  operation then ends, completed when the command was accepted and failed otherwise.
\<close>

theorem reboot_run_exact:
  assumes "start_reboot env i node confirmed ns now w = (Inr (j, t, ssh), w1)"
    and "r = \<lparr>ir_device = i, ir_job = job_ident i ns, ir_targets = [t], ir_ssh = ssh, ir_clock = clock\<rparr>"
  shows "confirmed = JBool True \<and> requested_node node = Some (un_name t) \<and> \<not> update_running i w \<and> un_status t = ''online'' \<and>
    (\<exists>k sh rb. open_root env k (un_host t) ssh = Inr sh \<and> reboot_status sh (ue_stamp env k) = Inr rb \<and> rb_state rb = RebootRequired) \<and>
    (\<exists>j'. dget (uw_jobs (run_reboot env' r t w1)) i = Some j' \<and> stored_operation i (uw_doc (run_reboot env' r t w1)) = Some j' \<and>
       reboot_ended r (reboot_result env' r t) j') \<and> others_same i w (run_reboot env' r t w1)"
proof -
  obtain c w0 where s: "confirmed = JBool True" "requested_node node = Some (un_name t)" "\<not> update_running i w" "has_device i (uw_doc w)"
    "\<exists>v v'. inspect_body env i ssh v = (Inr c, v')" "others_same i w w0" "reboot_target (un_name t) c = Inr t"
    "j = new_reboot i (job_ident i ns) now (un_name t)"
    "commit_operation ''a Proxmox maintenance operation is already running'' i j w0 = (Inr j, w1)"
    using start_reboot_Inr [OF assms(1)] by metis
  obtain v v' where b: "inspect_body env i ssh v = (Inr c, v')" using s(5) by blast
  obtain c0 where c: "c = inspect_reboots env c0 (Some ssh)"
    using b by (cases "read_catalogue env i (uw_doc v)") (auto simp: inspect_body_def Let_def)
  note t = reboot_target_Inr [OF s(7)] and q = commit_work [OF s(9)]
  have ev: "\<exists>k sh rb. open_root env k (un_host t) ssh = Inr sh \<and> reboot_status sh (ue_stamp env k) = Inr rb \<and> rb_state rb = RebootRequired"
  proof -
    obtain k sh rb where "open_root env k (un_host t) ssh = Inr sh" "reboot_status sh (ue_stamp env k) = Inr rb" "un_reboot t = Some rb"
      using inspected_node [of t env c0 ssh] t c by auto
    moreover have "rb_state rb = RebootRequired" using t \<open>un_reboot t = Some rb\<close> by simp
    ultimately show ?thesis by blast
  qed
  have a: "at_work (ir_device r) (ir_job r) (new_reboot (ir_device r) (ir_job r) now (un_name t)) w1"
    using q s(8) by (simp add: assms(2) new_reboot_def)
  have d: "has_device (ir_device r) (uw_doc w1)" using q s(4) others_device [OF s(6)] others_device [of i w0 w1] by (simp add: assms(2))
  show ?thesis using run_reboot_work [OF a d, of env' t] s(1-3) t ev q others_trans [OF s(6)] others_trans
    unfolding assms(2) by (simp add: at_work_def) blast
qed

section \<open>The check and its lease\<close>

definition lease_live :: "string \<Rightarrow> int \<Rightarrow> update_world \<Rightarrow> bool" where
  "lease_live i now w \<longleftrightarrow> (\<exists>l. dget (dfilter (\<lambda>_ l. \<not> ul_expires l \<le> now) (dd_locks (ud_base (uw_doc w)))) i = Some l)"

lemma checked_catalogue_base: "dd_devices b = dd_devices (ud_base d) \<Longrightarrow> checked_catalogue env i (d\<lparr>ud_base := b\<rparr>) = checked_catalogue env i d"
  by (simp add: checked_catalogue_def device_conn_def)

lemma status_base: "operation_status i now w = (x, w') \<Longrightarrow> ud_base (uw_doc w') = ud_base (uw_doc w) \<and> ud_maintenance (uw_doc w') = ud_maintenance (uw_doc w)"
  by (auto simp: operation_status_def stored_status_def interrupt_mut_def split: option.splits if_splits prod.splits)

definition snapshot_of :: "catalogue \<Rightarrow> bool \<Rightarrow> string \<Rightarrow> maintenance" where
  "snapshot_of c configured stamp = \<lparr>sm_checked = Some stamp, sm_total = Some (ca_total c), sm_ssh = configured,
     sm_nodes = snapshot_nodes (ca_nodes c), sm_error = None, sm_failed_at = None\<rparr>"

lemma acquire_Inr: "acquire_lock i tok now b = Inr (b', u) \<Longrightarrow>
    dget (dd_locks b') i = Some \<lparr>ul_token = tok, ul_expires = now + update_check_lease\<rparr> \<and> dd_devices b' = dd_devices b"
  by (auto simp: acquire_lock_def Let_def split: if_split_asm)

text \<open>
  A check of a device that is being checked is refused and changes nothing. Any other check leaves
  the device free for the next one; what it raises leaves the snapshot and the operations as they were, and what
  it returns is what it stored.
\<close>

theorem update_check_exact:
  assumes "update_check env i w = (x, w')"
  shows "if lease_live i (ue_now env) w then x = Inl (Conflict ''an update check is already active for this device'') \<and> w' = w
    else dget (dd_locks (ud_base (uw_doc w'))) i = None \<and> (case checked_catalogue env i (uw_doc w) of
       Inl e \<Rightarrow> x = Inl e \<and> ud_maintenance (uw_doc w') = ud_maintenance (uw_doc w) \<and> ud_operations (uw_doc w') = ud_operations (uw_doc w) \<and>
         uw_jobs w' = uw_jobs w
     | Inr (c, ssh) \<Rightarrow> (\<exists>oper. x = Inr (public_of c (ssh \<noteq> None) oper)) \<and>
         dget (ud_maintenance (uw_doc w')) i = Some (snapshot_of c (ssh \<noteq> None) (ue_stamp env (length (ca_nodes c)))))"
proof (cases "acquire_lock i (ue_token env) (ue_now env) (ud_base (uw_doc w))")
  case (Inl e)
  then show ?thesis using assms
    by (auto simp: update_check_def with_update_lock_def acquire_lock_def lease_live_def Let_def split: if_splits)
next
  case (Inr bu)
  obtain b u where bu: "bu = (b, u)" by (cases bu) auto
  have nl: "\<not> lease_live i (ue_now env) w"
    using Inr by (auto simp: acquire_lock_def lease_live_def Let_def split: if_splits)
  note a = acquire_Inr [OF Inr [unfolded bu]]
  define w1 where "w1 = w\<lparr>uw_doc := (uw_doc w)\<lparr>ud_base := b\<rparr>\<rparr>"
  obtain y w2 where y: "check_body env i w1 = (y, w2)" by fastforce
  have w': "x = y" "w' = w2\<lparr>uw_doc := (uw_doc w2)\<lparr>ud_base := snd (transact (release_lock i (ue_token env)) (ud_base (uw_doc w2)))\<rparr>\<rparr>"
    using assms Inr bu y by (simp_all add: update_check_def with_update_lock_def w1_def)
  have cc: "checked_catalogue env i (uw_doc w1) = checked_catalogue env i (uw_doc w)"
    using checked_catalogue_base [of b "uw_doc w"] a by (simp add: w1_def)
  show ?thesis
  proof (cases "checked_catalogue env i (uw_doc w)")
    fix e assume e: "checked_catalogue env i (uw_doc w) = Inl e"
    then have "y = Inl e" "w2 = w1" using y cc by (simp_all add: check_body_def)
    then show ?thesis using nl e w' a by (simp add: w1_def release_lock_def transact_def)
  next
    fix p assume p: "checked_catalogue env i (uw_doc w) = Inr p"
    obtain c ssh where cs: "p = (c, ssh)" by fastforce
    define w0 where "w0 = w1\<lparr>uw_doc := persist_maintenance i c (ssh \<noteq> None) (ue_stamp env (length (ca_nodes c))) (uw_doc w1)\<rparr>"
    obtain oper w3 where o: "operation_status i (ue_now env) w0 = (oper, w3)" by fastforce
    have y2: "y = Inr (public_of c (ssh \<noteq> None) oper)" "w2 = w3" using y cc p cs o by (simp_all add: check_body_def w0_def)
    have "has_device i (uw_doc w)" using p by (auto simp: checked_catalogue_def device_conn_def has_device_def split: option.splits)
    then have "has_device i (uw_doc w1)" using a by (simp add: has_device_def w1_def)
    then have m: "dget (ud_maintenance (uw_doc w0)) i = Some (snapshot_of c (ssh \<noteq> None) (ue_stamp env (length (ca_nodes c))))"
      "ud_base (uw_doc w0) = b"
      by (simp_all add: w0_def persist_maintenance_def snapshot_of_def w1_def)
    show ?thesis using nl p cs w' y2 m a status_base [OF o] by (simp add: release_lock_def transact_def) blast
  qed
qed

section \<open>One operation for each device\<close>

record update_thread =
  wk_device :: string
  wk_job :: string

record process =
  up_world :: update_world
  up_workers :: "update_thread list"

text \<open>The threads of a process between two sections that hold the lock, the requests beside them, and a restart.\<close>

inductive update_step :: "process \<Rightarrow> process \<Rightarrow> bool" where
  begins: "commit_operation msg i j (up_world p) = (Inr j', w) \<Longrightarrow> uj_state j = UpRunning \<Longrightarrow>
    update_step p (p\<lparr>up_world := w, up_workers := \<lparr>wk_device = i, wk_job = uj_id j\<rparr> # up_workers p\<rparr>)"
| works: "k \<in> set (up_workers p) \<Longrightarrow> (\<And>j. uj_id (f j) = uj_id j \<and> uj_state (f j) = uj_state j) \<Longrightarrow>
    update_step p (p\<lparr>up_world := set_operation (wk_device k) (wk_job k) f (up_world p)\<rparr>)"
| settles: "k \<in> set (up_workers p) \<Longrightarrow> (\<And>j. uj_id (f j) = uj_id j \<and> uj_state (f j) \<noteq> UpRunning) \<Longrightarrow>
    update_step p (p\<lparr>up_world := set_operation (wk_device k) (wk_job k) f (up_world p), up_workers := remove1 k (up_workers p)\<rparr>)"
| checks: "update_check env i (up_world p) = (x, w) \<Longrightarrow> update_step p (p\<lparr>up_world := w\<rparr>)"
| asks: "operation_status i now (up_world p) = (x, w) \<Longrightarrow> update_step p (p\<lparr>up_world := w\<rparr>)"
| records: "update_step p (p\<lparr>up_world := (up_world p)\<lparr>uw_doc := d\<rparr>\<rparr>)"
| restarts: "update_step p (p\<lparr>up_world := (up_world p)\<lparr>uw_jobs := []\<rparr>, up_workers := []\<rparr>)"

definition workers_ok :: "process \<Rightarrow> bool" where
  "workers_ok p \<longleftrightarrow> distinct (map wk_device (up_workers p)) \<and>
     (\<forall>k\<in>set (up_workers p). \<exists>j. dget (uw_jobs (up_world p)) (wk_device k) = Some j \<and> uj_id j = wk_job k \<and> uj_state j = UpRunning) \<and>
     (\<forall>i. update_running i (up_world p) \<longrightarrow> i \<in> wk_device ` set (up_workers p))"

lemma workers_ok_jobs: "workers_ok p \<Longrightarrow> uw_jobs w = uw_jobs (up_world p) \<Longrightarrow> workers_ok (p\<lparr>up_world := w\<rparr>)"
  by (simp add: workers_ok_def update_running_def)

lemma status_jobs: "operation_status i now w = (x, w') \<Longrightarrow> uw_jobs w' = uw_jobs w"
  by (auto simp: operation_status_def split: option.splits prod.splits)

lemma check_body_jobs: "check_body env i w = (x, w') \<Longrightarrow> uw_jobs w' = uw_jobs w"
  by (auto simp: check_body_def dest: status_jobs split: sum.splits prod.splits)

lemma update_check_jobs: "update_check env i w = (x, w') \<Longrightarrow> uw_jobs w' = uw_jobs w"
  by (auto simp: update_check_def with_update_lock_def dest!: check_body_jobs split: sum.splits prod.splits)

lemma jobs_set_operation:
  "uw_jobs (set_operation i jid f w) = (case dget (uw_jobs w) i of
     Some j \<Rightarrow> if uj_id j = jid then dput i (f j) (uw_jobs w) else uw_jobs w | None \<Rightarrow> uw_jobs w)"
  by (auto simp: set_operation_def split: option.split)

lemma update_step_ok: "update_step p p' \<Longrightarrow> workers_ok p \<Longrightarrow> workers_ok p'"
proof (induction rule: update_step.induct)
  case (begins msg i j p j' w)
  then have c: "dget (uw_jobs w) i = Some j" "\<forall>k. k \<noteq> i \<longrightarrow> dget (uw_jobs w) k = dget (uw_jobs (up_world p)) k" "\<not> update_running i (up_world p)"
    using commit_work [OF begins(1)] by (auto simp: at_work_def others_same_def)
  have "i \<notin> wk_device ` set (up_workers p)"
    using begins(3) c(3) by (auto simp: workers_ok_def update_running_def split: option.splits)
  then show ?case using begins c by (auto simp: workers_ok_def update_running_def split: option.splits)
next
  case (works k p f)
  then show ?case by (auto simp: workers_ok_def update_running_def jobs_set_operation split: option.splits if_splits)
next
  case (settles k p f)
  then obtain j where j: "dget (uw_jobs (up_world p)) (wk_device k) = Some j" "uj_id j = wk_job k" by (auto simp: workers_ok_def)
  have i: "distinct (up_workers p)" "inj_on wk_device (set (up_workers p))" using settles(3) by (simp_all add: workers_ok_def distinct_map)
  then have d: "distinct (map wk_device (remove1 k (up_workers p)))"
    using inj_on_subset [OF i(2) set_remove1_subset] by (simp add: distinct_map)
  have other: "wk_device l \<noteq> wk_device k" if "l \<in> set (remove1 k (up_workers p))" for l
    using settles(1) that i by (auto simp: inj_on_def)
  show ?case using settles j d other
    by (auto simp: workers_ok_def update_running_def jobs_set_operation image_iff split: option.splits if_splits) (metis in_set_remove1)+
next
  case (checks env i p x w)
  then show ?case by (intro workers_ok_jobs update_check_jobs)
next
  case (asks i now p x w)
  then show ?case by (intro workers_ok_jobs status_jobs)
next
  case (records p d)
  then show ?case by (intro workers_ok_jobs) auto
next
  case (restarts p)
  then show ?case by (simp add: workers_ok_def update_running_def)
qed


text \<open>
  A request for the status that finds no operation in the table and reads the document only after a new
  operation has entered both marks the stored copy of the running operation as interrupted.
\<close>

theorem status_race_interrupts:
  assumes "dget (uw_jobs w) i = None" "start_update env i node ns now w = (Inr (j, ts, ssh), w1)"
  shows "dget (uw_jobs w1) i = Some j \<and> uj_state j = UpRunning \<and>
    (\<exists>d. stored_status i later (uw_doc w1) = (Some (interrupted later j), d) \<and> stored_operation i d = Some (interrupted later j))"
proof -
  have p: "prepare_update env i node (uw_doc w) = Inr (ts, ssh)" "uj_state j = UpRunning"
    "commit_operation ''an update installation is already running'' i j w = (Inr j, w1)"
    using start_update_Inr [OF assms(2)] by (auto simp: new_update_def)
  have d: "has_device i (uw_doc w)" using prepare_update_Inr [OF p(1)] by simp
  note c = commit_work [OF p(3)]
  have "has_device i (uw_doc w1)" using c d others_device [of i w w1 i] by simp
  then show ?thesis using c d p(2)
    by (auto simp: at_work_def stored_status_def interrupt_mut_def stored_operation_def has_device_def split: option.splits)
qed

section \<open>Privileged credentials\<close>

lemma ssh_port_Inr: "ssh_port port = Inr n \<Longrightarrow> 1 \<le> n \<and> n \<le> 65535"
  by (auto simp: ssh_port_def split: sum.splits if_splits)

lemma validate_ssh_Inr:
  assumes "validate_ssh user password key port = Inr cand"
  shows "getn cand ''username'' = JStr ''root'' \<and> (\<exists>n. getn cand ''port'' = JInt n \<and> 1 \<le> n \<and> n \<le> 65535) \<and>
    (truthy (getn cand ''password'') \<or> truthy (getn cand ''privateKey'')) \<and> cand \<noteq> []"
proof -
  have ne: "x \<noteq> []" if "some_nonempty y = Some x" for x y
    using that by (auto simp: some_nonempty_def split: option.splits if_splits)
  obtain n where "ssh_port port = Inr n" "cand = ssh_candidate ''root'' n password key" "some_nonempty password \<noteq> None \<or> some_nonempty key \<noteq> None"
    using assms by (auto simp: validate_ssh_def Let_def rbind_Inr_iff split: if_splits)
  then show ?thesis using ssh_port_Inr [of port n]
    by (auto simp: ssh_candidate_def getn_def dest: ne split: option.splits)
qed

text \<open>
  Privileged credentials are stored only after a login with them has given a root shell, for the
  account root and a valid port; they replace the earlier ones of that device alone and are the ones its
  operations then use. Every other outcome leaves the document as it was.
\<close>

theorem configure_ssh_exact:
  assumes "configure_ssh env encrypt i user password key port d = (x, d')"
  shows "case x of Inl e \<Rightarrow> d' = d
    | Inr _ \<Rightarrow> \<exists>dev ref cand creds sh out. dget (dd_devices (ud_base d)) i = Some dev \<and> dv_cred dev = Some ref \<and>
        ue_credentials env dev = Inr creds \<and> getn cand ''username'' = JStr ''root'' \<and>
        (\<exists>n. getn cand ''port'' = JInt n \<and> 1 \<le> n \<and> n \<le> 65535) \<and>
        ue_open env 0 (dv_host dev) (getn cand ''port'') cand = Inr sh \<and> sh IdU = Inr (0, out) \<and> strip out = ''0'' \<and>
        d' = d\<lparr>ud_base := (ud_base d)\<lparr>dd_credentials :=
          dput ref (encrypt (dput ''updateSsh'' (JObj cand) creds)) (dd_credentials (ud_base d))\<rparr>\<rparr> \<and>
        ssh_credentials (\<lambda>_. Inr (dput ''updateSsh'' (JObj cand) creds)) dev = Inr (Some cand)"
proof (cases x)
  case (Inl e)
  then show ?thesis using assms by (auto simp: configure_ssh_def transact_def split: option.splits sum.splits prod.splits)
next
  case (Inr u)
  obtain dev where dev: "dget (dd_devices (ud_base d)) i = Some dev"
    using assms Inr by (auto simp: configure_ssh_def split: option.splits)
  obtain cand creds where c: "validate_ssh user password key port = Inr cand" "root_login env dev cand = Inr ()"
    "ue_credentials env dev = Inr creds" "transact (ssh_mut i (encrypt (dput ''updateSsh'' (JObj cand) creds))) d = (Inr u, d')"
    using assms Inr dev by (auto simp: configure_ssh_def rbind_Inr_iff split: sum.splits)
  note v = validate_ssh_Inr [OF c(1)]
  obtain sh out where l: "ue_open env 0 (dv_host dev) (getn cand ''port'') cand = Inr sh" "sh IdU = Inr (0, out)" "strip out = ''0''"
    using c(2) by (auto simp: root_login_def rbind_Inr_iff split: if_splits)
  have "\<exists>ref. dv_cred dev = Some ref \<and> d' = d\<lparr>ud_base := (ud_base d)\<lparr>dd_credentials :=
      dput ref (encrypt (dput ''updateSsh'' (JObj cand) creds)) (dd_credentials (ud_base d))\<rparr>\<rparr>"
    using c(4) dev by (auto simp: transact_def ssh_mut_def some_nonempty_def split: option.splits if_splits)
  moreover have "ssh_credentials (\<lambda>_. Inr (dput ''updateSsh'' (JObj cand) creds)) dev = Inr (Some cand)"
    using v by (simp add: ssh_credentials_def sub_obj_def)
  ultimately show ?thesis using Inr dev c(3) v l by auto
qed

section \<open>An example\<close>

definition demo_ssh :: doc where
  "demo_ssh = [(''username'', JStr ''root''), (''port'', JInt 22), (''password'', JStr ''secret'')]"

definition demo_node :: "string \<Rightarrow> node_info" where
  "demo_node name = \<lparr>un_name = name, un_status = ''online'', un_host = name, un_packages = [[(''name'', JStr ''pve-manager'')]], un_reboot = None\<rparr>"

definition demo_updates :: "(nat \<Rightarrow> shell result) \<Rightarrow> update_env" where
  "demo_updates shells = \<lparr>ue_registry = demo_registry, ue_credentials = (\<lambda>_. Inr [(''updateSsh'', JObj demo_ssh)]),
     ue_answer = (\<lambda>_ _. Inr \<lparr>ca_nodes = [demo_node ''p1'', demo_node ''p2''], ca_total = 2\<rparr>), ue_open = (\<lambda>k _ _ _. shells k),
     ue_safe = (\<lambda>_. ''failed''), ue_stamp = (\<lambda>_. ''now''), ue_token = ''t'', ue_now = 100\<rparr>"

definition demo_update_env :: update_env where
  "demo_update_env = demo_updates (\<lambda>k. if k = 0 then Inr demo_shell else Inl TypeError)"

definition demo_update_doc :: updates_doc where
  "demo_update_doc = \<lparr>ud_base = demo_devices, ud_maintenance = [], ud_operations = []\<rparr>"

definition demo_update_world :: update_world where
  "demo_update_world = \<lparr>uw_doc = demo_update_doc, uw_jobs = []\<rparr>"

lemmas demo_update_defs = demo_update_env_def demo_updates_def demo_update_world_def demo_update_doc_def demo_registry_def demo_device_defs
  demo_node_def demo_ssh_def

lemma demo_updates_sel [simp]:
  "ue_registry (demo_updates f) = demo_registry" "ue_token (demo_updates f) = ''t''" "ue_now (demo_updates f) = 100"
  "ue_credentials (demo_updates f) dev = Inr [(''updateSsh'', JObj demo_ssh)]" "ue_open (demo_updates f) k h q c = f k"
  by (simp_all add: demo_updates_def)

lemma demo_root: "root_device demo_update_env msg ''a'' demo_update_doc = Inr demo_ssh"
  by (simp add: root_device_def driver_of_def require_driver_def ssh_credentials_def sub_obj_def getn_def demo_update_defs)

lemma demo_catalogue: "read_catalogue demo_update_env ''a'' demo_update_doc =
    Inr (demo_device ''a'' ''c1'' 0 [''AA:BB:CC:DD:EE:FF''], \<lparr>ca_nodes = [demo_node ''p1'', demo_node ''p2''], ca_total = 2\<rparr>)"
  by (simp add: read_catalogue_def device_conn_def demo_update_defs)

definition demo_started :: update_world where
  "demo_started = snd (start_update demo_update_env ''a'' None 7 100 demo_update_world)"

lemma demo_start: "start_update demo_update_env ''a'' None 7 100 demo_update_world =
    (Inr (new_update ''a'' (job_ident ''a'' 7) 100 None [demo_node ''p1'', demo_node ''p2''], [demo_node ''p1'', demo_node ''p2''], demo_ssh), demo_started)"
proof -
  have "prepare_update demo_update_env ''a'' None demo_update_doc = Inr ([demo_node ''p1'', demo_node ''p2''], demo_ssh)"
    by (simp add: prepare_update_def demo_root demo_catalogue requested_node_def update_targets_def) (simp add: demo_node_def)
  then show ?thesis
    by (simp add: demo_started_def start_update_def demo_update_world_def not_running_def update_running_def commit_operation_def
        requested_node_def Let_def)
qed

definition demo_run :: install_run where
  "demo_run = \<lparr>ir_device = ''a'', ir_job = job_ident ''a'' 7, ir_targets = [demo_node ''p1'', demo_node ''p2''], ir_ssh = demo_ssh, ir_clock = \<lambda>_ _. 101\<rparr>"

theorem update_run_exact_witness:
  "\<exists>j. dget (uw_jobs (run_install demo_update_env demo_update_env demo_run demo_started)) ''a'' = Some j \<and> uj_state j = UpFailed \<and> uj_failed j = 2"
proof -
  have "is_error (node_result demo_update_env demo_run 0 t) \<and> is_error (node_result demo_update_env demo_run 1 t)" for t
    by (simp add: node_result_def open_root_def run_command_def demo_update_env_def demo_updates_def demo_shell_def)
  then have "update_result demo_update_env demo_run j \<Longrightarrow> uj_state j = UpFailed \<and> uj_failed j = 2" for j
    by (auto simp: update_result_def demo_run_def)
  then show ?thesis using update_run_exact [OF demo_start demo_run_def, of demo_update_env demo_update_env] by auto
qed


theorem reboot_run_exact_witness:
  "\<exists>j t ssh w r. start_reboot demo_update_env ''a'' (Some '' p1'') (JBool True) 8 100 demo_update_world = (Inr (j, t, ssh), w) \<and>
     (\<exists>j'. dget (uw_jobs (run_reboot demo_update_env r t w)) ''a'' = Some j' \<and> uj_state j' = UpFailed)"
proof -
  have rq: "requested_node (Some '' p1'') = Some ''p1''" by (simp add: requested_node_def strip_def is_space_def)
  have un: "inspect_reboots demo_update_env \<lparr>ca_nodes = [demo_node ''p1'', demo_node ''p2''], ca_total = 2\<rparr> (Some demo_ssh) =
      \<lparr>ca_nodes = [(demo_node ''p1'')\<lparr>un_reboot := Some demo_reboot\<rparr>,
        (demo_node ''p2'')\<lparr>un_reboot := Some (unknown_reboot ''Reboot check failed: failed'' ''now'')\<rparr>], ca_total = 2\<rparr>"
    using demo_status(1) by (simp add: inspect_reboots_def inspect_node_def open_root_def demo_update_env_def demo_updates_def demo_node_def)
  obtain b where b: "acquire_lock ''a'' ''t'' 100 demo_devices = Inr (b, ())" "dd_devices b = dd_devices demo_devices"
    by (simp add: acquire_lock_def demo_devices_def dfilter_def)
  have c: "read_catalogue demo_update_env ''a'' \<lparr>ud_base = b, ud_maintenance = [], ud_operations = []\<rparr> =
      Inr (demo_device ''a'' ''c1'' 0 [''AA:BB:CC:DD:EE:FF''], \<lparr>ca_nodes = [demo_node ''p1'', demo_node ''p2''], ca_total = 2\<rparr>)"
    using demo_catalogue b(2) by (simp add: read_catalogue_def device_conn_def demo_update_doc_def)
  obtain w0 where w0: "with_update_lock ''a'' (ue_token demo_update_env) (ue_now demo_update_env) (inspect_body demo_update_env ''a'' demo_ssh) demo_update_world =
      (Inr (inspect_reboots demo_update_env \<lparr>ca_nodes = [demo_node ''p1'', demo_node ''p2''], ca_total = 2\<rparr> (Some demo_ssh)), w0)" "uw_jobs w0 = []"
  proof -
    have "ue_token demo_update_env = ''t''" "ue_now demo_update_env = 100" by (simp_all add: demo_update_env_def)
    then show thesis using that b c
      by (simp add: with_update_lock_def inspect_body_def demo_update_world_def demo_update_doc_def Let_def)
  qed
  let ?t = "(demo_node ''p1'')\<lparr>un_reboot := Some demo_reboot\<rparr>"
  let ?r = "\<lparr>ir_device = ''a'', ir_job = job_ident ''a'' 8, ir_targets = [?t], ir_ssh = demo_ssh, ir_clock = \<lambda>_ _. 103\<rparr>"
  have tg: "reboot_target ''p1'' (inspect_reboots demo_update_env \<lparr>ca_nodes = [demo_node ''p1'', demo_node ''p2''], ca_total = 2\<rparr> (Some demo_ssh)) = Inr ?t"
    unfolding un using demo_status(4) by (simp add: reboot_target_def demo_node_def)
  obtain j w where s: "start_reboot demo_update_env ''a'' (Some '' p1'') (JBool True) 8 100 demo_update_world = (Inr (j, ?t, demo_ssh), w)"
    using w0 tg demo_root
    by (simp add: start_reboot_def rq not_running_def update_running_def commit_operation_def demo_update_world_def Let_def)
  have "is_error (reboot_result demo_update_env ?r ?t)"
    by (simp add: reboot_result_def open_root_def run_command_def demo_update_env_def demo_updates_def demo_shell_def)
  then have "reboot_ended ?r (reboot_result demo_update_env ?r ?t) j' \<Longrightarrow> uj_state j' = UpFailed" for j'
    by (simp add: reboot_ended_def)
  then show ?thesis using reboot_run_exact [OF s refl, of demo_update_env] s by blast
qed

theorem update_check_exact_witness:
  "dget (dd_locks (ud_base (uw_doc (snd (update_check demo_update_env ''a'' demo_update_world))))) ''a'' = None"
proof -
  have "\<not> lease_live ''a'' (ue_now demo_update_env) demo_update_world"
    by (simp add: lease_live_def demo_update_world_def demo_update_doc_def demo_devices_def dfilter_def)
  then show ?thesis
    using update_check_exact [of demo_update_env "''a''" demo_update_world, OF surjective_pairing] by simp
qed

definition demo_login_env :: update_env where
  "demo_login_env = demo_updates (\<lambda>k. Inr (\<lambda>_. Inr (0, ''0'')))"

theorem configure_ssh_exact_witness:
  "dget (dd_credentials (ud_base (snd (configure_ssh demo_login_env (\<lambda>_. ''sealed'') ''a'' None (Some ''secret'') None JNull demo_update_doc)))) ''c1'' =
   Some ''sealed''"
proof -
  have v: "validate_ssh None (Some ''secret'') None JNull = Inr demo_ssh"
    by code_simp
  have z: "strip ''0'' = ''0''" by code_simp
  have r: "root_login (demo_updates (\<lambda>k. Inr (\<lambda>_. Inr (0, ''0'')))) dev demo_ssh = Inr ()" for dev
    using z by (simp add: root_login_def)
  obtain d' where "configure_ssh demo_login_env (\<lambda>_. ''sealed'') ''a'' None (Some ''secret'') None JNull demo_update_doc = (Inr (), d')"
    by (simp add: configure_ssh_def v r driver_of_def require_driver_def ssh_mut_def some_nonempty_def demo_login_env_def demo_registry_def
        demo_update_doc_def demo_device_defs)
  from configure_ssh_exact [OF this] this show ?thesis by (auto simp: demo_update_doc_def demo_device_defs)
qed

end
