(* ===== verification/AnsiblePaths.thy ===== *)
theory AnsiblePaths
  imports JobResults
begin

text \<open>
  The validation of paths and the construction of commands in \<open>backend/ansible_integration.py\<close>, with what they use
  of Python's \<open>PurePosixPath\<close> and \<open>shlex\<close>, and a reading of a command line as a POSIX shell divides it into words.
  Text is ASCII.
\<close>

section \<open>Pure POSIX paths\<close>

text \<open>Exactly two leading slashes are a root of their own; empty parts and single dots vanish.\<close>

record posix_path =
  pp_root :: string
  pp_parts :: "string list"

definition path_root :: "string \<Rightarrow> string" where
  "path_root s = (let n = length (takeWhile (\<lambda>c. c = CHR ''/'') s) in if n = 0 then [] else if n = 2 then ''//'' else ''/'')"

definition path_of :: "string \<Rightarrow> posix_path" where
  "path_of s = \<lparr>pp_root = path_root s, pp_parts = filter (\<lambda>p. p \<noteq> [] \<and> p \<noteq> ''.'') (split_on (CHR ''/'') s)\<rparr>"

definition path_text :: "posix_path \<Rightarrow> string" where
  "path_text p = (if pp_root p = [] \<and> pp_parts p = [] then ''.'' else pp_root p @ join_with ''/'' (pp_parts p))"

definition path_join :: "posix_path \<Rightarrow> posix_path \<Rightarrow> posix_path" where
  "path_join a b = (if pp_root b \<noteq> [] then b else \<lparr>pp_root = pp_root a, pp_parts = pp_parts a @ pp_parts b\<rparr>)"

definition path_within :: "posix_path \<Rightarrow> posix_path \<Rightarrow> bool" where
  "path_within base p \<longleftrightarrow> pp_root p = pp_root base \<and> take (length (pp_parts base)) (pp_parts p) = pp_parts base"

definition goes_up :: "posix_path \<Rightarrow> bool" where
  "goes_up p \<longleftrightarrow> ''..'' \<in> set (pp_parts p)"

section \<open>Validation\<close>

definition safe_path :: "(json \<Rightarrow> string) \<Rightarrow> string \<Rightarrow> string option \<Rightarrow> bool \<Rightarrow> json \<Rightarrow> string result" where
  "safe_path r label base directory v =
     (let raw = strip (str_or_empty r v); given = path_of raw in
      if raw = [] then Inl (ValueError (label @ '' is required''))
      else if pp_root given = [] \<and> base = None then Inl (ValueError (label @ '' must be an absolute path''))
      else (let p = (case base of None \<Rightarrow> given | Some b \<Rightarrow> if pp_root given = [] then path_join (path_of b) given else given) in
        if goes_up p \<or> path_text p = ''/'' then Inl (ValueError (label @ '' is not a safe contained path''))
        else if (case base of None \<Rightarrow> False | Some b \<Rightarrow> \<not> path_within (path_of b) p) then Inl (ValueError (label @ '' must be inside the project directory''))
        else Inr (if directory then rev (dropWhile (\<lambda>c. c = CHR ''/'') (rev (path_text p))) else path_text p)))"

definition shell_meta :: "char \<Rightarrow> bool" where
  "shell_meta c \<longleftrightarrow> is_space c \<or> c \<in> set '';&|<>`$(){}[]*?!'' \<or> c = CHR 0x27 \<or> c = CHR 0x22 \<or> c = CHR 0x5C"

definition executable_path :: "(json \<Rightarrow> string) \<Rightarrow> string \<Rightarrow> bool \<Rightarrow> json \<Rightarrow> string result" where
  "executable_path r label required v =
     (let raw = strip (str_or_empty r v); p = path_of raw in
      if raw = [] then (if required then Inl (ValueError (label @ '' is required; run Test Connection to discover it'')) else Inr [])
      else if 4096 < length raw \<or> pp_root p = [] \<or> goes_up p \<or> path_text p = ''/'' then Inl (ValueError (label @ '' must be an absolute remote path''))
      else if list_ex shell_meta raw then Inl (ValueError (label @ '' cannot contain shell metacharacters or whitespace''))
      else Inr (path_text p))"

definition bounded_int :: "string \<Rightarrow> int \<Rightarrow> int \<Rightarrow> json \<Rightarrow> int result" where
  "bounded_int label low high v = (case int_of_json v of
     Inl e \<Rightarrow> if is_caught e then Inl (ValueError (label @ '' must be a number'')) else Inl e
   | Inr n \<Rightarrow> if n < low \<or> high < n then Inl (ValueError (label @ '' must be between '' @ str_of_int low @ '' and '' @ str_of_int high)) else Inr n)"

text \<open>The characters of the patterns for host, project and variable names.\<close>

definition is_letter :: "char \<Rightarrow> bool" where
  "is_letter c = (let n = of_char c :: nat in 65 \<le> n \<and> n \<le> 90 \<or> 97 \<le> n \<and> n \<le> 122)"

definition is_lower_letter :: "char \<Rightarrow> bool" where
  "is_lower_letter c = (let n = of_char c :: nat in 97 \<le> n \<and> n \<le> 122)"

definition host_name :: "string \<Rightarrow> bool" where
  "host_name s \<longleftrightarrow> s \<noteq> [] \<and> length s \<le> 255 \<and> list_all (\<lambda>c. is_letter c \<or> is_digit_char c \<or> c \<in> set ''_.:@+-'') s"

definition project_name :: "string \<Rightarrow> bool" where
  "project_name s = (case s of [] \<Rightarrow> False
     | c # cs \<Rightarrow> (is_lower_letter c \<or> is_digit_char c) \<and> length cs \<le> 199 \<and>
         list_all (\<lambda>d. is_lower_letter d \<or> is_digit_char d \<or> d \<in> set ''_-'') cs)"

definition variable_name :: "string \<Rightarrow> bool" where
  "variable_name s = (case s of [] \<Rightarrow> False
     | c # cs \<Rightarrow> (is_letter c \<or> c = CHR ''_'') \<and> length cs \<le> 127 \<and> list_all (\<lambda>d. is_letter d \<or> is_digit_char d \<or> d = CHR ''_'') cs)"

definition validate_inventory_host :: "(json \<Rightarrow> string) \<Rightarrow> json \<Rightarrow> string result" where
  "validate_inventory_host r v = (let s = str_or_empty r v in
     if host_name s then Inr s else Inl (ValueError ''invalid Ansible inventory host''))"

definition validate_docker_project :: "(json \<Rightarrow> string) \<Rightarrow> json \<Rightarrow> string result" where
  "validate_docker_project r v = (let s = str_or_empty r v in
     if project_name s then Inr s else Inl (ValueError ''invalid Docker Compose project name''))"

text \<open>A list of distinct texts; \<open>allowed\<close> is the discovered allow list where there is one.\<close>

fun string_items :: "(json \<Rightarrow> string) \<Rightarrow> string \<Rightarrow> string list option \<Rightarrow> bool \<Rightarrow> string list \<Rightarrow> json list \<Rightarrow> string list result" where
  "string_items r label allowed variables acc [] = Inr acc"
| "string_items r label allowed variables acc (v # vs) =
     (let item = strip (str_or_empty r v) in
      if item = [] \<or> 255 < length item then Inl (ValueError (label @ '' contains an invalid value''))
      else if variables \<and> \<not> variable_name item then Inl (ValueError (label @ '' contains an invalid variable name''))
      else if (case allowed of None \<Rightarrow> False | Some xs \<Rightarrow> item \<notin> set xs) then
        Inl (ValueError (label @ '' contains a value outside the discovered allowlist''))
      else string_items r label allowed variables (if item \<in> set acc then acc else acc @ [item]) vs)"

definition string_list :: "(json \<Rightarrow> string) \<Rightarrow> string \<Rightarrow> string list option \<Rightarrow> bool \<Rightarrow> json \<Rightarrow> string list result" where
  "string_list r label allowed variables v = (case v of
     JNull \<Rightarrow> Inr [] | JArr xs \<Rightarrow> string_items r label allowed variables [] xs
   | _ \<Rightarrow> Inl (ValueError (label @ '' must be a list'')))"

section \<open>Commands\<close>

definition quote_safe :: "char \<Rightarrow> bool" where
  "quote_safe c \<longleftrightarrow> is_letter c \<or> is_digit_char c \<or> c \<in> set ''_@%+=:,./-''"

definition apos :: char where "apos = CHR 0x27"
definition dquote :: char where "dquote = CHR 0x22"

text \<open>\<open>shlex.quote\<close> and \<open>shlex.join\<close>\<close>

definition shell_quote :: "string \<Rightarrow> string" where
  "shell_quote s = (if s = [] then [apos, apos]
     else if list_all quote_safe s then s
     else [apos] @ concat (map (\<lambda>c. if c = apos then [apos, dquote, apos, dquote, apos] else [c]) s) @ [apos])"

definition shell_join :: "string list \<Rightarrow> string" where
  "shell_join argv = join_with '' '' (map shell_quote argv)"

text \<open>The executables are the configured ones; the project directory is where the command runs.\<close>

record command_config =
  cc_playbook :: json
  cc_inventory :: json
  cc_project :: string

definition command_line :: "(json \<Rightarrow> string) \<Rightarrow> command_config \<Rightarrow> string list \<Rightarrow> bool \<Rightarrow> string result" where
  "command_line r cfg argv cwd =
     rbind (executable_path r ''Ansible Playbook executable'' False (cc_playbook cfg)) (\<lambda>a.
     rbind (executable_path r ''Ansible Inventory executable'' False (cc_inventory cfg)) (\<lambda>b.
     if argv = [] \<or> hd argv \<notin> {x. (x = a \<or> x = b) \<and> x \<noteq> []} \<union> set [''test'', ''find'', ''command''] then Inl (ValueError ''unsupported controller command'')
     else Inr (if cwd then ''cd -- '' @ shell_quote (cc_project cfg) @ '' && '' @ shell_join argv else shell_join argv)))"

section \<open>A path and its text\<close>

definition plain_path :: "posix_path \<Rightarrow> bool" where
  "plain_path p \<longleftrightarrow> pp_root p \<in> {[], ''/'', ''//''} \<and> (\<forall>x\<in>set (pp_parts p). x \<noteq> [] \<and> x \<noteq> ''.'' \<and> CHR ''/'' \<notin> set x)"

lemma split_on_pieces: "x \<in> set (split_on c s) \<Longrightarrow> c \<notin> set x"
  by (induction s arbitrary: x) (auto split: list.splits if_splits)

lemma split_on_join: "ps \<noteq> [] \<Longrightarrow> \<forall>x\<in>set ps. c \<notin> set x \<Longrightarrow> split_on c (join_with [c] ps) = ps"
  by (induction "[c]" ps rule: join_with.induct) (auto simp: split_on_no_sep split_on_append)

lemma plain_path_of: "plain_path (path_of s)"
  by (auto simp: plain_path_def path_of_def path_root_def Let_def dest: split_on_pieces)

lemma plain_path_join: "plain_path a \<Longrightarrow> plain_path b \<Longrightarrow> plain_path (path_join a b)"
  by (auto simp: plain_path_def path_join_def)

lemma join_head: "\<forall>x\<in>set ps. x \<noteq> [] \<and> c \<notin> set x \<Longrightarrow> takeWhile (\<lambda>d. d = c) (join_with [c] ps) = []"
  by (cases "([c], ps)" rule: join_with.cases) (auto simp: neq_Nil_conv)

lemma pieces_join: "\<forall>x\<in>set ps. x \<noteq> [] \<and> x \<noteq> ''.'' \<and> CHR ''/'' \<notin> set x \<Longrightarrow>
    filter (\<lambda>p. p \<noteq> [] \<and> p \<noteq> ''.'') (split_on (CHR ''/'') (join_with ''/'' ps)) = ps"
  by (cases "ps = []") (simp_all add: split_on_join)

text \<open>Reading the text of a path gives the path back.\<close>

lemma path_of_text:
  assumes "plain_path p"
  shows "path_of (path_text p) = p"
proof -
  let ?j = "join_with ''/'' (pp_parts p)"
  have ps: "\<forall>x\<in>set (pp_parts p). x \<noteq> [] \<and> x \<noteq> ''.'' \<and> CHR ''/'' \<notin> set x" using assms by (simp add: plain_path_def)
  have h: "takeWhile (\<lambda>d. d = CHR ''/'') ?j = []" using join_head [of "pp_parts p" "CHR ''/''"] ps by blast
  note f = pieces_join [OF ps]
  consider "pp_root p = []" "pp_parts p = []" | "pp_root p = []" "pp_parts p \<noteq> []" | "pp_root p = ''/''" | "pp_root p = ''//''"
    using assms by (auto simp: plain_path_def)
  then show ?thesis
  proof cases
    case 1
    then show ?thesis by (intro posix_path.equality) (simp_all add: path_text_def path_of_def path_root_def)
  next
    case 2
    then show ?thesis using h f by (intro posix_path.equality) (simp_all add: path_text_def path_of_def path_root_def)
  next
    case 3
    then show ?thesis using h f by (intro posix_path.equality) (simp_all add: path_text_def path_of_def path_root_def)
  next
    case 4
    then show ?thesis using h f by (intro posix_path.equality) (simp_all add: path_text_def path_of_def path_root_def)
  qed
qed

lemma join_last: "ps \<noteq> [] \<Longrightarrow> \<forall>x\<in>set ps. x \<noteq> [] \<and> c \<notin> set x \<Longrightarrow> join_with [c] ps \<noteq> [] \<and> last (join_with [c] ps) \<noteq> c"
  by (induction "[c]" ps rule: join_with.induct) (auto dest: last_in_set)

lemma strip_slash:
  assumes "plain_path p" "path_text p \<noteq> ''/''" "pp_root p \<noteq> ''//''"
  shows "rev (dropWhile (\<lambda>c. c = CHR ''/'') (rev (path_text p))) = path_text p"
proof -
  have "path_text p \<noteq> [] \<and> last (path_text p) \<noteq> CHR ''/''"
  proof (cases "pp_parts p = []")
    case True
    then show ?thesis using assms by (auto simp: path_text_def plain_path_def)
  next
    case False
    then show ?thesis using assms(1) join_last [of "pp_parts p" "CHR ''/''"] by (auto simp: path_text_def plain_path_def)
  qed
  then show ?thesis by (cases "rev (path_text p)") (auto simp: last_rev hd_rev simp flip: last_conv_nth)
qed

lemma safe_path_inside:
  assumes "safe_path r label (Some base) directory v = Inr s" and "path_root base \<noteq> ''//''"
  shows "path_within (path_of base) (path_of s) \<and> \<not> goes_up (path_of s) \<and> path_text (path_of s) = s \<and> s \<noteq> ''/''"
proof -
  let ?given = "path_of (strip (str_or_empty r v))"
  define p where "p = (if pp_root ?given = [] then path_join (path_of base) ?given else ?given)"
  have pl: "plain_path p" by (simp add: p_def plain_path_of plain_path_join)
  have ok: "\<not> goes_up p" "path_text p \<noteq> ''/''" "path_within (path_of base) p"
    and s: "s = (if directory then rev (dropWhile (\<lambda>c. c = CHR ''/'') (rev (path_text p))) else path_text p)"
    using assms(1) by (auto simp: safe_path_def Let_def p_def split: if_splits)
  have "pp_root p \<noteq> ''//''" using ok(3) assms(2) by (simp add: path_within_def path_of_def)
  then have "s = path_text p" using s strip_slash [OF pl ok(2)] by simp
  then show ?thesis using path_of_text [OF pl] ok by simp
qed

text \<open>
  A path that is accepted below a directory lies in that directory: read back, it has the parts of
  the directory first and never goes up, whatever was entered.
\<close>

theorem safe_path_contained:
  assumes "safe_path r label (Some base) directory v = Inr s" and "path_root base \<noteq> ''//''"
  shows "path_within (path_of base) (path_of s) \<and> \<not> goes_up (path_of s) \<and> path_text (path_of s) = s \<and> s \<noteq> ''/''"
  by (rule safe_path_inside [OF assms])

text \<open>
  The root with two slashes passes for a project directory, and its text is then stripped to nothing.
\<close>

theorem double_slash_project: "safe_path r label None True (JStr ''//'') = Inr []"
proof -
  have "strip ''//'' = ''//''" by code_simp
  moreover have "path_of ''//'' = \<lparr>pp_root = ''//'', pp_parts = []\<rparr>" by (simp add: path_of_def path_root_def)
  ultimately show ?thesis by (simp add: safe_path_def str_or_empty_def goes_up_def path_text_def Let_def)
qed

section \<open>Commands are read as they were built\<close>

text \<open>
  The words of a command line: plain characters, single and double quotes, blanks and \<open>&&\<close>. Every other operator,
  expansion or pattern of the shell outside quotes ends the reading with nothing.
\<close>

datatype token = ShWord string | ShAnd

datatype quoting = Unquoted | SingleQuoted | DoubleQuoted

definition emit :: "string option \<Rightarrow> token list" where
  "emit w = (case w of None \<Rightarrow> [] | Some s \<Rightarrow> [ShWord s])"

definition grow :: "string option \<Rightarrow> string \<Rightarrow> string option" where
  "grow w s = Some ((case w of None \<Rightarrow> [] | Some x \<Rightarrow> x) @ s)"

fun shell_tokens :: "quoting \<Rightarrow> string option \<Rightarrow> string \<Rightarrow> token list option" where
  "shell_tokens Unquoted w [] = Some (emit w)"
| "shell_tokens SingleQuoted w [] = None"
| "shell_tokens DoubleQuoted w [] = None"
| "shell_tokens Unquoted w (c # cs) =
     (if c = CHR '' '' then map_option (\<lambda>ts. emit w @ ts) (shell_tokens Unquoted None cs)
      else if c = apos then shell_tokens SingleQuoted (grow w []) cs
      else if c = dquote then shell_tokens DoubleQuoted (grow w []) cs
      else if c = CHR ''&'' then (case cs of
          d # ds \<Rightarrow> if d = CHR ''&'' then map_option (\<lambda>ts. emit w @ [ShAnd] @ ts) (shell_tokens Unquoted None ds) else None
        | [] \<Rightarrow> None)
      else if quote_safe c then shell_tokens Unquoted (grow w [c]) cs else None)"
| "shell_tokens SingleQuoted w (c # cs) =
     (if c = apos then shell_tokens Unquoted w cs else shell_tokens SingleQuoted (grow w [c]) cs)"
| "shell_tokens DoubleQuoted w (c # cs) =
     (if c = dquote then shell_tokens Unquoted w cs
      else if c = CHR ''$'' \<or> c = CHR 0x60 \<or> c = CHR 0x5C then None else shell_tokens DoubleQuoted (grow w [c]) cs)"

lemma emit_simps [simp]: "emit None = []" "emit (Some s) = [ShWord s]"
  by (simp_all add: emit_def)

lemma grow_grow [simp]: "grow (grow w s) t = grow w (s @ t)"
  by (simp add: grow_def)

lemma quote_safe_plain: "quote_safe c \<Longrightarrow> c \<noteq> CHR '' '' \<and> c \<noteq> apos \<and> c \<noteq> dquote \<and> c \<noteq> CHR ''&''"
  by (auto simp: quote_safe_def is_letter_def is_digit_char_def apos_def dquote_def)

lemma tokens_plain: "list_all quote_safe s \<Longrightarrow> shell_tokens Unquoted (Some x) (s @ rest) = shell_tokens Unquoted (Some (x @ s)) rest"
  by (induction s arbitrary: x) (auto simp: quote_safe_plain grow_def)

lemma apos_dquote: "apos \<noteq> dquote" "dquote \<noteq> CHR '' ''" "apos \<noteq> CHR '' ''" "apos \<noteq> CHR ''$''" "apos \<noteq> CHR 0x60" "apos \<noteq> CHR 0x5C"
  by (simp_all add: apos_def dquote_def)

lemma tokens_single:
  "shell_tokens SingleQuoted (Some x) (concat (map (\<lambda>c. if c = apos then [apos, dquote, apos, dquote, apos] else [c]) s) @ apos # rest) =
   shell_tokens Unquoted (Some (x @ s)) rest"
  by (induction s arbitrary: x) (auto simp: grow_def apos_dquote apos_dquote(1) [symmetric])

lemma tokens_quote:
  assumes "rest = [] \<or> hd rest = CHR '' ''"
  shows "shell_tokens Unquoted None (shell_quote s @ rest) = shell_tokens Unquoted (Some s) rest"
proof -
  consider "s = []" | c t where "s = c # t" "list_all quote_safe s" | "s \<noteq> []" "\<not> list_all quote_safe s" by (cases s) auto
  then show ?thesis
  proof cases
    case 1
    then show ?thesis by (simp add: shell_quote_def grow_def apos_dquote)
  next
    case 2
    then show ?thesis using tokens_plain [of t "[c]" rest] by (auto simp: shell_quote_def grow_def quote_safe_plain)
  next
    case 3
    then show ?thesis using tokens_single [of "[]" s rest] by (simp add: shell_quote_def grow_def apos_dquote)
  qed
qed

lemma tokens_space: "shell_tokens Unquoted (Some s) (CHR '' '' # rest) = map_option (\<lambda>ts. ShWord s # ts) (shell_tokens Unquoted None rest)"
  by (cases "shell_tokens Unquoted None rest") simp_all

lemma tokens_join: "argv \<noteq> [] \<Longrightarrow> shell_tokens Unquoted None (shell_join argv) = Some (map ShWord argv)"
proof (induction argv)
  case (Cons s argv)
  show ?case
  proof (cases argv)
    case Nil
    then show ?thesis using tokens_quote [of "[]" s] by (simp add: shell_join_def emit_def)
  next
    case (Cons t ts)
    then have "shell_join (s # argv) = shell_quote s @ CHR '' '' # shell_join argv" by (simp add: shell_join_def)
    then show ?thesis using Cons.IH Cons tokens_quote [of "CHR '' '' # shell_join argv" s] by (simp add: tokens_space)
  qed
qed simp

lemma command_line_reads:
  assumes "command_line r cfg argv cwd = Inr s"
  shows "shell_tokens Unquoted None s = Some ((if cwd then [ShWord ''cd'', ShWord ''--'', ShWord (cc_project cfg), ShAnd] else []) @ map ShWord argv)"
proof -
  have a: "argv \<noteq> []" and s: "s = (if cwd then ''cd -- '' @ shell_quote (cc_project cfg) @ '' && '' @ shell_join argv else shell_join argv)"
    using assms by (auto simp: command_line_def rbind_Inr_iff split: if_splits)
  show ?thesis
  proof (cases cwd)
    case True
    have q: "quote_safe (CHR ''c'')" "quote_safe (CHR ''d'')" "quote_safe (CHR ''-'')" by (simp_all add: quote_safe_def is_letter_def)
    have "shell_tokens Unquoted None ('' && '' @ shell_join argv) = Some (ShAnd # map ShWord argv)"
      using tokens_join [OF a] by (simp add: emit_def apos_def dquote_def)
    then have "shell_tokens Unquoted None (shell_quote (cc_project cfg) @ '' && '' @ shell_join argv) =
        Some (ShWord (cc_project cfg) # ShAnd # map ShWord argv)"
      using tokens_quote [of "'' && '' @ shell_join argv" "cc_project cfg"] by (simp add: emit_def)
    then show ?thesis using True s q by (simp add: emit_def grow_def apos_def dquote_def)
  next
    case False
    then show ?thesis using s tokens_join [OF a] by simp
  qed
qed

text \<open>
  Property C31: a shell reads the command line of the controller as exactly the words it was built from, after
  the change to the project directory, whatever characters they contain: no argument can add a word, an operator
  or an expansion.
\<close>

theorem command_line_words:
  assumes "command_line r cfg argv cwd = Inr s"
  shows "shell_tokens Unquoted None s = Some ((if cwd then [ShWord ''cd'', ShWord ''--'', ShWord (cc_project cfg), ShAnd] else []) @ map ShWord argv)"
  by (rule command_line_reads [OF assms])

theorem safe_path_contained_witness:
  "path_within (path_of ''/srv/ansible'') (path_of ''/srv/ansible/plays/os.yml'') \<and> \<not> goes_up (path_of ''/srv/ansible/plays/os.yml'')"
proof -
  have "safe_path (\<lambda>_. []) ''playbook'' (Some ''/srv/ansible'') False (JStr '' plays//./os.yml '') = Inr ''/srv/ansible/plays/os.yml''"
    by code_simp
  moreover have "path_root ''/srv/ansible'' \<noteq> ''//''" by code_simp
  ultimately show ?thesis using safe_path_contained by blast
qed

theorem command_line_words_witness:
  "\<exists>s. shell_tokens Unquoted None s = Some (map ShWord [''find'', ''/srv/a; rm -rf b'', ''('', ''-name'', ''*.yml'', '')''])"
proof -
  obtain s where "command_line (\<lambda>_. []) \<lparr>cc_playbook = JNull, cc_inventory = JNull, cc_project = ''/srv''\<rparr>
      [''find'', ''/srv/a; rm -rf b'', ''('', ''-name'', ''*.yml'', '')''] False = Inr s"
    by (simp add: command_line_def executable_path_def str_or_empty_def strip_def Let_def)
  from command_line_words [OF this] show ?thesis by auto
qed

end
