(* ===== verification/AnsibleRules.thy ===== *)
theory AnsibleRules
  imports AnsiblePaths
begin

text \<open>
  The Ansible controller of \<open>backend/ansible_integration.py\<close>: its settings, the discovered inventory with the hosts of
  every group, the approved playbooks, which of them may run against which host, and the mapping of workloads to
  hosts. Controllers are records, workloads are JSON objects as the store keeps them. What the remote commands
  answer, the JSON decoder, encryption, the clock and the masking of secrets in errors are arguments.
\<close>

section \<open>The inventory\<close>

definition name_items :: "(json \<Rightarrow> string) \<Rightarrow> json \<Rightarrow> string list result" where
  "name_items r v = rbind (items_of v) (\<lambda>xs. Inr (map (str_json r) xs))"

text \<open>The direct hosts and the children of a group; an unknown group has none.\<close>

definition group_of :: "(json \<Rightarrow> string) \<Rightarrow> doc \<Rightarrow> string \<Rightarrow> (string list \<times> string list) result" where
  "group_of r payload g = rbind (sub_obj payload g) (\<lambda>d. rbind (name_items r (getn d ''hosts'')) (\<lambda>hs.
     rbind (name_items r (getn d ''children'')) (\<lambda>cs. Inr (hs, cs))))"

text \<open>The visit of groups below the groups \<open>path\<close>: the hosts found, and the groups with all their hosts.\<close>

function visit_groups :: "(json \<Rightarrow> string) \<Rightarrow> doc \<Rightarrow> string list \<Rightarrow> string list \<Rightarrow> string list \<Rightarrow> (string, string list) dict \<Rightarrow>
    (string list \<times> (string, string list) dict) result" where
  "visit_groups r payload path [] direct groups = Inr (direct, groups)"
| "visit_groups r payload path (g # gs) direct groups =
     (if g \<in> set path then visit_groups r payload path gs direct groups
      else (case group_of r payload g of
        Inl e \<Rightarrow> Inl e
      | Inr (hs, cs) \<Rightarrow> rbind (visit_groups r payload (g # path) cs hs groups) (\<lambda>(d, m).
          visit_groups r payload path gs (direct @ d) (if g = ''_meta'' then m else dput g (sort (remdups d)) m))))"
  by pat_completeness auto

lemma group_of_unknown: "g \<notin> set (dkeys payload) \<Longrightarrow> group_of r payload g = Inr ([], [])"
  by (simp add: group_of_def sub_obj_def getn_def name_items_def items_of_def dget_None_iff [THEN iffD2] del: set_map)

termination visit_groups
proof (relation "inv_image (finite_psubset <*lex*> less_than) (\<lambda>(r, payload, path, gs, direct, groups). (set (dkeys payload) - set path, length gs))", goal_cases)
  case 1
  then show ?case by auto
next
  case (2 r payload path g gs direct groups)
  then show ?case by simp
next
  case (3 r payload path g gs direct groups hc hs cs)
  then show ?case using group_of_unknown [of g payload r] by (cases "g \<in> set (dkeys payload)") auto
next
  case (4 r payload path g gs direct groups hc hs cs dm d m)
  then show ?case by simp
qed

record inv_host =
  ih_name :: string
  ih_address :: string
  ih_groups :: "string list"
  ih_projects :: "(string \<times> string) list"

record inventory =
  iv_hosts :: "(string, inv_host) dict"
  iv_groups :: "(string, string list) dict"
  iv_at :: "int option"

text \<open>The projects a host lists; what is not well named is skipped.\<close>

fun docker_projects :: "(json \<Rightarrow> string) \<Rightarrow> string list \<Rightarrow> json list \<Rightarrow> (string \<times> string) list result" where
  "docker_projects r seen [] = Inr []"
| "docker_projects r seen (v # vs) = (case v of
     JObj d \<Rightarrow> (case rbind (validate_docker_project r (getn d ''name'')) (\<lambda>n. rbind (normalize_project_mode (getn d ''update_mode'')) (\<lambda>m. Inr (n, m))) of
        Inl (ValueError _) \<Rightarrow> docker_projects r seen vs
      | Inl e \<Rightarrow> Inl e
      | Inr (n, m) \<Rightarrow> if n \<in> set seen then docker_projects r seen vs
          else rbind (docker_projects r (n # seen) vs) (\<lambda>ps. Inr ((n, m) # ps)))
   | _ \<Rightarrow> docker_projects r seen vs)"

definition inventory_projects :: "(json \<Rightarrow> string) \<Rightarrow> doc \<Rightarrow> (string \<times> string) list result" where
  "inventory_projects r variables = (case getn variables ''docker_compose_projects'' of JArr xs \<Rightarrow> docker_projects r [] xs | _ \<Rightarrow> Inr [])"

definition host_groups :: "string \<Rightarrow> (string, string list) dict \<Rightarrow> string list" where
  "host_groups name groups = sort (map fst (filter (\<lambda>(g, hs). name \<in> set hs) groups))"

definition host_record :: "(json \<Rightarrow> string) \<Rightarrow> doc \<Rightarrow> (string, string list) dict \<Rightarrow> string \<Rightarrow> inv_host result" where
  "host_record r hostvars groups name = (let vars = (case getn hostvars name of JObj d \<Rightarrow> d | _ \<Rightarrow> []) in
     rbind (inventory_projects r vars) (\<lambda>ps. Inr
     \<lparr>ih_name = name, ih_address = take 255 (if truthy (getn vars ''ansible_host'') then str_json r (getn vars ''ansible_host'') else name),
      ih_groups = host_groups name groups, ih_projects = ps\<rparr>))"

text \<open>The code goes through a set of names; here they come sorted, which only orders the resulting dictionary.\<close>

definition inventory_records :: "(json \<Rightarrow> string) \<Rightarrow> json \<Rightarrow> ((string, inv_host) dict \<times> (string, string list) dict) result" where
  "inventory_records r v = (case v of
     JObj payload \<Rightarrow> rbind (sub_obj payload ''_meta'') (\<lambda>meta. rbind (sub_obj meta ''hostvars'') (\<lambda>hostvars.
       rbind (visit_groups r payload [] (filter (\<lambda>g. g \<noteq> ''_meta'') (dkeys payload)) [] []) (\<lambda>(_, groups).
       let names = sort (remdups (dkeys hostvars @ concat (dvals groups))) in
       rbind (rmap (host_record r hostvars groups) names) (\<lambda>hs. Inr (zip names hs, groups)))))
   | _ \<Rightarrow> Inl (ValueError ''Ansible inventory did not return a JSON object''))"

section \<open>Controllers\<close>

record approval =
  ap_playbook :: string
  ap_label :: string
  ap_check_mode :: bool
  ap_targets :: "string list"
  ap_groups :: "string list"
  ap_variables :: "string list"
  ap_reboot :: "(string \<times> bool) option"
  ap_project :: "string option"
  ap_mode_variable :: "string option"
  ap_modes :: "string list"

record controller =
  ct_enabled :: bool
  ct_name :: string
  ct_host :: string
  ct_port :: int
  ct_user :: string
  ct_auth :: string
  ct_credential :: string
  ct_project :: string
  ct_inventory_path :: string
  ct_playbooks_dir :: string
  ct_playbook_exe :: string
  ct_inventory_exe :: string
  ct_connect_timeout :: int
  ct_execute_timeout :: int
  ct_inventory :: inventory
  ct_discovered :: "string list"
  ct_approvals :: "(string, approval) dict"
  ct_updated :: int

record ansible_doc =
  an_controllers :: "(string, controller) dict"
  an_credentials :: "(string, string) dict"
  an_instances :: "(string, doc) dict"

definition primary :: string where "primary = ''primary''"

definition not_configured :: failure where
  "not_configured = ValueError ''Ansible controller is not configured''"

definition inventory_host :: "controller \<Rightarrow> string \<Rightarrow> inv_host option" where
  "inventory_host c name = dget (iv_hosts (ct_inventory c)) name"

definition required_groups :: "(string, string) dict" where
  "required_groups = [(''os_check'', ''debian_hosts''), (''os_update'', ''debian_hosts''), (''docker_discovery'', ''docker_hosts''),
     (''docker_check'', ''docker_hosts''), (''docker_update'', ''docker_hosts''), (''docker_update_pull'', ''docker_hosts''),
     (''docker_update_local_build'', ''docker_hosts''), (''docker_project_update'', ''docker_hosts''), (''appliance_health'', ''appliances'')]"

definition required_inventory_group :: "string \<Rightarrow> string option" where
  "required_inventory_group op = dget required_groups op"

definition operation_supported_by_host :: "controller option \<Rightarrow> string \<Rightarrow> string \<Rightarrow> bool" where
  "operation_supported_by_host c op target = (case c of None \<Rightarrow> False
     | Some k \<Rightarrow> (case inventory_host k target of None \<Rightarrow> False
       | Some h \<Rightarrow> (case required_inventory_group op of None \<Rightarrow> True | Some g \<Rightarrow> g \<in> set (ih_groups h))))"

definition require_operation_capability :: "controller \<Rightarrow> string \<Rightarrow> string \<Rightarrow> inv_host result" where
  "require_operation_capability c op target = (case inventory_host c target of
     None \<Rightarrow> Inl (ValueError ''Ansible target is not present in the discovered inventory'')
   | Some h \<Rightarrow> (case required_inventory_group op of
       Some g \<Rightarrow> if g \<in> set (ih_groups h) then Inr h
         else Inl (ValueError (map (\<lambda>c. if c = CHR ''_'' then CHR '' '' else c) op @ '' requires Ansible inventory group '' @ g))
     | None \<Rightarrow> Inr h))"

definition inventory_docker_project :: "(json \<Rightarrow> string) \<Rightarrow> controller \<Rightarrow> json \<Rightarrow> json \<Rightarrow> (string \<times> string) option result" where
  "inventory_docker_project r c host project = rbind (validate_inventory_host r host) (\<lambda>h. rbind (validate_docker_project r project) (\<lambda>p.
     Inr (case inventory_host c h of None \<Rightarrow> None | Some x \<Rightarrow> find (\<lambda>(n, m). n = p) (ih_projects x))))"

text \<open>The stored approval, and the path of its playbook inside the directory of playbooks.\<close>

definition playbook_path :: "controller \<Rightarrow> string \<Rightarrow> string result" where
  "playbook_path c relative = safe_path (\<lambda>_. []) ''playbook'' (Some (ct_playbooks_dir c)) False
     (JStr (path_text (path_join (path_of (ct_playbooks_dir c)) (path_of relative))))"

definition approved_playbook :: "controller \<Rightarrow> string \<Rightarrow> (approval \<times> string) result" where
  "approved_playbook c op = (case dget (ct_approvals c) op of
     None \<Rightarrow> Inl (ValueError (''no approved playbook is configured for '' @ op))
   | Some a \<Rightarrow> if ap_playbook a \<notin> set (ct_discovered c) then Inl (ValueError ''approved playbook is no longer in the discovered allowlist'')
       else rbind (playbook_path c (ap_playbook a)) (\<lambda>full. Inr (a, full)))"

definition operation_is_approved :: "controller option \<Rightarrow> string \<Rightarrow> bool" where
  "operation_is_approved c op = (case c of None \<Rightarrow> False | Some k \<Rightarrow> ct_enabled k \<and> \<not> is_error (approved_playbook k op))"

definition target_allowed :: "approval \<Rightarrow> inv_host \<Rightarrow> string \<Rightarrow> bool" where
  "target_allowed a h target \<longleftrightarrow> ap_targets a = [] \<and> ap_groups a = [] \<or> target \<in> set (ap_targets a) \<or>
     list_ex (\<lambda>g. g \<in> set (ap_groups a)) (ih_groups h)"

definition operation_is_allowed_for_target :: "controller option \<Rightarrow> string \<Rightarrow> string \<Rightarrow> bool" where
  "operation_is_allowed_for_target c op target = (case c of None \<Rightarrow> False
     | Some k \<Rightarrow> ct_enabled k \<and> (case rbind (approved_playbook k op) (\<lambda>(a, _). rbind (require_operation_capability k op target) (\<lambda>h. Inr (a, h))) of
         Inl _ \<Rightarrow> False | Inr (a, h) \<Rightarrow> target_allowed a h target))"

definition docker_update_operation :: "controller \<Rightarrow> json \<Rightarrow> string result" where
  "docker_update_operation c mode = rbind (normalize_project_mode mode) (\<lambda>m.
     if m = ''read_only'' then Inl (ValueError ''Docker Compose project is configured as read-only'')
     else if (case dget (ct_approvals c) ''docker_update'' of Some a \<Rightarrow> m \<in> set (ap_modes a) | None \<Rightarrow> False)
       then rbind (approved_playbook c ''docker_update'') (\<lambda>_. Inr ''docker_update'')
     else (let legacy = (if m = ''pull'' then ''docker_update_pull'' else ''docker_update_local_build'') in
       rbind (approved_playbook c legacy) (\<lambda>_. Inr legacy)))"

definition approved_variables :: "approval \<Rightarrow> string list" where
  "approved_variables a = (case ap_reboot a of Some (v, _) \<Rightarrow> [v] | None \<Rightarrow> []) @ (case ap_project a of Some v \<Rightarrow> [v] | None \<Rightarrow> []) @
     (case ap_mode_variable a of Some v \<Rightarrow> [v] | None \<Rightarrow> []) @ ap_variables a"

definition playbook_command :: "(json \<Rightarrow> string) \<Rightarrow> (doc \<Rightarrow> string) \<Rightarrow> controller \<Rightarrow> string \<Rightarrow> json \<Rightarrow> doc \<Rightarrow> (string list \<times> approval) result" where
  "playbook_command r dumps c op target vars = rbind (approved_playbook c op) (\<lambda>(a, playbook).
     rbind (validate_inventory_host r target) (\<lambda>host. rbind (require_operation_capability c op host) (\<lambda>h.
     if \<not> target_allowed a h host then Inl (ValueError (''Ansible target is outside this playbook'' @ [CHR 0x27] @ ''s approved targets''))
     else rbind (executable_path r ''Ansible Playbook executable'' True (JStr (ct_playbook_exe c))) (\<lambda>exe.
       if vars \<noteq> [] \<and> \<not> list_all (\<lambda>k. k \<in> set (approved_variables a) \<and> k \<noteq> []) (dkeys vars) then Inl (ValueError ''playbook variables are not approved'')
       else Inr ([exe, ''-i'', ct_inventory_path c, playbook, ''--limit'', host] @
         (if vars = [] then [] else [''--extra-vars'', dumps vars]), a)))))"

end
