(* ===== verification/AnsibleControl.thy ===== *)
theory AnsibleControl
  imports AnsibleRules
begin

text \<open>
  The operations that change what the Ansible controller of \<open>backend/ansible_integration.py\<close> knows: its settings, the
  refreshed inventory, the discovered and approved playbooks, and the mapping of workloads to inventory hosts with
  the results that belong to it.
\<close>

section \<open>Settings\<close>

definition field_or :: "doc \<Rightarrow> string \<Rightarrow> json \<Rightarrow> json" where
  "field_or d k v = (case dget d k of Some w \<Rightarrow> w | None \<Rightarrow> v)"

definition credential_doc :: "(json \<Rightarrow> string) \<Rightarrow> string \<Rightarrow> string \<Rightarrow> json \<Rightarrow> doc" where
  "credential_doc r user auth secret = [(''username'', JStr user),
     (if auth = ''password'' then ''password'' else ''privateKey'', JStr (str_json r secret))]"

text \<open>The reference of the credential and, when a secret was entered, the credential itself.\<close>

definition controller_credential :: "(json \<Rightarrow> string) \<Rightarrow> controller option \<Rightarrow> string \<Rightarrow> string \<Rightarrow> json \<Rightarrow> string \<Rightarrow> (string \<times> doc option) result" where
  "controller_credential r current user auth secret fresh =
     (let known = (case current of Some c \<Rightarrow> ct_credential c | None \<Rightarrow> []) in
      if truthy secret then Inr (if known = [] then fresh else known, Some (credential_doc r user auth secret))
      else if known = [] then Inl (ValueError ''a controller password or private key is required'')
      else (case current of
        Some c \<Rightarrow> if ct_auth c \<noteq> auth \<or> ct_user c \<noteq> user
          then Inl (ValueError ''enter a new credential when changing authentication or SSH username'') else Inr (known, None)
      | None \<Rightarrow> Inr (known, None)))"

definition current_field :: "(controller \<Rightarrow> string) \<Rightarrow> controller option \<Rightarrow> json" where
  "current_field f current = (case current of Some c \<Rightarrow> JStr (f c) | None \<Rightarrow> JNull)"

definition controller_paths :: "(json \<Rightarrow> string) \<Rightarrow> doc \<Rightarrow> (string \<times> string \<times> string) result" where
  "controller_paths r cfg =
     rbind (safe_path r ''project directory'' None True (getn cfg ''projectDirectory'')) (\<lambda>project.
     rbind (safe_path r ''inventory path'' (Some project) False (getn cfg ''inventoryPath'')) (\<lambda>inventory.
     rbind (safe_path r ''playbooks directory'' (Some project) True (getn cfg ''playbooksDirectory'')) (\<lambda>playbooks.
     Inr (project, inventory, playbooks))))"

definition controller_login :: "(json \<Rightarrow> string) \<Rightarrow> doc \<Rightarrow> (string \<times> string \<times> string) result" where
  "controller_login r cfg =
     (let host = strip (str_or_empty r (getn cfg ''host'')); user = strip (str_or_empty r (getn cfg ''sshUsername''));
          auth = (if truthy (getn cfg ''authMethod'') then str_json r (getn cfg ''authMethod'') else ''private_key'') in
      if host = [] \<or> 255 < length host then Inl (ValueError ''controller hostname/IP is required'')
      else if user = [] \<or> 128 < length user then Inl (ValueError ''SSH username is required'')
      else if auth \<noteq> ''password'' \<and> auth \<noteq> ''private_key'' then Inl (ValueError ''authentication method must be password or private_key'')
      else Inr (host, user, auth))"

definition controller_limits :: "doc \<Rightarrow> (int \<times> int \<times> int) result" where
  "controller_limits cfg =
     rbind (bounded_int ''SSH port'' 1 65535 (field_or cfg ''sshPort'' (JInt 22))) (\<lambda>port.
     rbind (bounded_int ''connection timeout'' 1 120 (field_or cfg ''connectionTimeout'' (JInt 12))) (\<lambda>ct.
     rbind (bounded_int ''execution timeout'' 30 86400 (field_or cfg ''executionTimeout'' (JInt 1800))) (\<lambda>et. Inr (port, ct, et))))"

definition no_inventory :: inventory where
  "no_inventory = \<lparr>iv_hosts = [], iv_groups = [], iv_at = None\<rparr>"

text \<open>The validated record, with the credential to store.\<close>

definition controller_of :: "(json \<Rightarrow> string) \<Rightarrow> string \<Rightarrow> int \<Rightarrow> controller option \<Rightarrow> json \<Rightarrow> (controller \<times> doc option) result" where
  "controller_of r fresh now current config = (case config of
     JObj cfg \<Rightarrow>
       rbind (controller_paths r cfg) (\<lambda>(project, inventory, playbooks).
       rbind (controller_login r cfg) (\<lambda>(host, user, auth).
       rbind (executable_path r ''Ansible Playbook executable'' False
         (field_or cfg ''ansiblePlaybookExecutable'' (current_field ct_playbook_exe current))) (\<lambda>pexe.
       rbind (executable_path r ''Ansible Inventory executable'' False
         (field_or cfg ''ansibleInventoryExecutable'' (current_field ct_inventory_exe current))) (\<lambda>iexe.
       rbind (controller_credential r current user auth
         (getn cfg (if auth = ''password'' then ''password'' else ''privateKey'')) fresh) (\<lambda>(ref, cred).
       rbind (controller_limits cfg) (\<lambda>(port, ct, et). Inr
       (\<lparr>ct_enabled = truthy (getn cfg ''enabled''),
         ct_name = take 100 (strip (if truthy (getn cfg ''displayName'') then str_json r (getn cfg ''displayName'') else ''Ansible'')),
         ct_host = host, ct_port = port, ct_user = user, ct_auth = auth, ct_credential = ref, ct_project = project,
         ct_inventory_path = inventory, ct_playbooks_dir = playbooks, ct_playbook_exe = pexe, ct_inventory_exe = iexe,
         ct_connect_timeout = ct, ct_execute_timeout = et,
         ct_inventory = (case current of Some c \<Rightarrow> ct_inventory c | None \<Rightarrow> no_inventory),
         ct_discovered = (case current of Some c \<Rightarrow> ct_discovered c | None \<Rightarrow> []),
         ct_approvals = (case current of Some c \<Rightarrow> ct_approvals c | None \<Rightarrow> []), ct_updated = now\<rparr>, cred)))))))
   | _ \<Rightarrow> Inl (ValueError ''Ansible configuration must be an object''))"

definition save_mut :: "(doc \<Rightarrow> string) \<Rightarrow> controller \<Rightarrow> doc option \<Rightarrow> ansible_doc \<Rightarrow> (ansible_doc \<times> controller) result" where
  "save_mut encrypt c cred d = Inr (d\<lparr>an_credentials := (case cred of Some x \<Rightarrow> dput (ct_credential c) (encrypt x) (an_credentials d) | None \<Rightarrow> an_credentials d),
     an_controllers := dput primary c (an_controllers d)\<rparr>, c)"

definition save_controller :: "(json \<Rightarrow> string) \<Rightarrow> (doc \<Rightarrow> string) \<Rightarrow> string \<Rightarrow> int \<Rightarrow> json \<Rightarrow> ansible_doc \<Rightarrow> controller result \<times> ansible_doc" where
  "save_controller r encrypt fresh now config d = (case controller_of r fresh now (dget (an_controllers d) primary) config of
     Inl e \<Rightarrow> (Inl e, d)
   | Inr (c, cred) \<Rightarrow> transact (save_mut encrypt c cred) d)"

section \<open>Inventory and playbooks\<close>

definition change_controller :: "string \<Rightarrow> (controller \<Rightarrow> controller) \<Rightarrow> ansible_doc \<Rightarrow> ansible_doc" where
  "change_controller cid f d = (case dget (an_controllers d) cid of
     Some c \<Rightarrow> d\<lparr>an_controllers := dput cid (f c) (an_controllers d)\<rparr> | None \<Rightarrow> d)"

text \<open>The results of a workload, by the operation whose capability they need.\<close>

definition docker_results :: "string list" where
  "docker_results = [''docker'', ''dockerDiscoveryState'', ''dockerUpdateState'']"

definition clear_results :: "controller option \<Rightarrow> string \<Rightarrow> doc \<Rightarrow> doc" where
  "clear_results c target v =
     ddel_all ((if operation_supported_by_host c ''os_check'' target then [] else [''updateState'']) @
       (if operation_supported_by_host c ''docker_discovery'' target then [] else docker_results) @
       (if operation_supported_by_host c ''appliance_health'' target then [] else [''applianceHealthState''])) v"

definition mapped_to :: "string \<Rightarrow> doc \<Rightarrow> bool" where
  "mapped_to cid mapping \<longleftrightarrow> truthy (getn mapping ''enabled'') \<and> getn mapping ''controllerId'' = JStr cid"

definition clear_instance :: "(json \<Rightarrow> string) \<Rightarrow> controller option \<Rightarrow> string \<Rightarrow> doc \<Rightarrow> doc result" where
  "clear_instance r c cid v = rbind (sub_obj v ''ansible'') (\<lambda>m.
     Inr (if mapped_to cid m then clear_results c (str_or_empty r (getn m ''inventoryHost'')) v else v))"

definition clear_incompatible :: "(json \<Rightarrow> string) \<Rightarrow> string \<Rightarrow> ansible_doc \<Rightarrow> ansible_doc result" where
  "clear_incompatible r cid d = rbind (rmap (\<lambda>(i, v). rbind (clear_instance r (dget (an_controllers d) cid) cid v) (\<lambda>w. Inr (i, w))) (an_instances d))
     (\<lambda>xs. Inr (d\<lparr>an_instances := xs\<rparr>))"

text \<open>What a remote command returned, or how it failed; the text of an error is masked.\<close>

record remote =
  re_connect :: "controller \<Rightarrow> unit result"
  re_run :: "controller \<Rightarrow> (int \<times> string \<times> string) result"
  re_loads :: "string \<Rightarrow> json result"
  re_mask :: "failure \<Rightarrow> string"
  re_now :: int

definition masked :: "remote \<Rightarrow> 'a result \<Rightarrow> 'a result" where
  "masked e x = (case x of Inl f \<Rightarrow> Inl (ValueError (re_mask e f)) | Inr y \<Rightarrow> Inr y)"

definition or_status :: "string \<Rightarrow> string \<Rightarrow> int \<Rightarrow> failure" where
  "or_status err what code = ValueError (if err \<noteq> [] then err else what @ '' exited with status '' @ str_of_int code)"

definition refresh_mut :: "(json \<Rightarrow> string) \<Rightarrow> string \<Rightarrow> inventory \<Rightarrow> ansible_doc \<Rightarrow> (ansible_doc \<times> inventory) result" where
  "refresh_mut r cid found d = rbind (clear_incompatible r cid (change_controller cid (\<lambda>c. c\<lparr>ct_inventory := found\<rparr>) d)) (\<lambda>d'. Inr (d', found))"

definition refresh_inventory :: "(json \<Rightarrow> string) \<Rightarrow> remote \<Rightarrow> string \<Rightarrow> ansible_doc \<Rightarrow> inventory result \<times> ansible_doc" where
  "refresh_inventory r e cid d = (case dget (an_controllers d) cid of
     None \<Rightarrow> (Inl not_configured, d)
   | Some c \<Rightarrow> (case masked e (rbind (re_connect e c) (\<lambda>_.
         rbind (executable_path r ''Ansible Inventory executable'' True (JStr (ct_inventory_exe c))) (\<lambda>_. rbind (re_run e c) (\<lambda>(code, out, err). if code \<noteq> 0 then Inl (or_status err ''ansible-inventory'' code)
           else rbind (re_loads e out) (inventory_records r))))) of
       Inl f \<Rightarrow> (Inl f, d)
     | Inr (hosts, groups) \<Rightarrow> transact (refresh_mut r cid \<lparr>iv_hosts = hosts, iv_groups = groups, iv_at = Some (re_now e)\<rparr>) d))"

definition path_suffix :: "string \<Rightarrow> string" where
  "path_suffix name = (let ext = rev (takeWhile (\<lambda>c. c \<noteq> CHR ''.'') (rev name)) in
     if ext = [] \<or> length name \<le> Suc (length ext) then [] else CHR ''.'' # ext)"

definition found_playbook :: "posix_path \<Rightarrow> string \<Rightarrow> string list" where
  "found_playbook base line = (let p = path_of (strip line); rel = \<lparr>pp_root = [], pp_parts = drop (length (pp_parts base)) (pp_parts p)\<rparr> in
     if path_within base p \<and> pp_parts rel \<noteq> [] \<and> lower (path_suffix (last (pp_parts rel))) \<in> set [''.yml'', ''.yaml''] \<and> \<not> goes_up rel
     then [path_text rel] else [])"

definition found_playbooks :: "controller \<Rightarrow> string \<Rightarrow> string list" where
  "found_playbooks c out = sort (remdups (concat (map (found_playbook (path_of (ct_playbooks_dir c))) (splitlines out))))"

definition discover_playbooks :: "remote \<Rightarrow> string \<Rightarrow> ansible_doc \<Rightarrow> string list result \<times> ansible_doc" where
  "discover_playbooks e cid d = (case dget (an_controllers d) cid of
     None \<Rightarrow> (Inl not_configured, d)
   | Some c \<Rightarrow> (case masked e (rbind (re_connect e c) (\<lambda>_. rbind (re_run e c) (\<lambda>(code, out, err).
         if code \<noteq> 0 then Inl (or_status err ''playbook discovery'' code) else Inr (found_playbooks c out)))) of
       Inl f \<Rightarrow> (Inl f, d)
     | Inr xs \<Rightarrow> (Inr xs, change_controller cid (\<lambda>c. c\<lparr>ct_discovered := xs\<rparr>) d)))"

section \<open>Approvals\<close>

definition operations :: "string list" where
  "operations = [''os_check'', ''os_update'', ''docker_check'', ''docker_discovery'', ''docker_update'', ''appliance_health'',
     ''docker_update_pull'', ''docker_update_local_build'']"

definition legacy_updates :: "string list" where
  "legacy_updates = [''docker_update_pull'', ''docker_update_local_build'']"

text \<open>The middle dot of two labels is the character B7.\<close>

definition approval_labels :: "(string, string) dict" where
  "approval_labels = [(''os_check'', ''OS update check''), (''os_update'', ''OS update''), (''docker_discovery'', ''Docker discovery''),
     (''docker_check'', ''Docker update check''), (''docker_update'', ''Docker update''),
     (''docker_update_pull'', ''Docker update '' @ [CHR 0xB7] @ '' pull and recreate''),
     (''docker_update_local_build'', ''Docker update '' @ [CHR 0xB7] @ '' local build and recreate''),
     (''appliance_health'', ''Appliance health check'')]"

definition optional_variable :: "(json \<Rightarrow> string) \<Rightarrow> string \<Rightarrow> json \<Rightarrow> string option result" where
  "optional_variable r msg v = (let s = strip (str_or_empty r v) in
     if s = [] then Inr None else if variable_name s then Inr (Some s) else Inl (ValueError msg))"

definition update_modes :: "(json \<Rightarrow> string) \<Rightarrow> string \<Rightarrow> doc \<Rightarrow> (string list \<times> string option) result" where
  "update_modes r op cfg =
     (if op = ''docker_update'' then
        rbind (string_list r ''supported Docker update modes'' (Some [''pull'', ''build'']) False (getn cfg ''supportedModes'')) (\<lambda>modes.
        if modes = [] then Inl (ValueError ''Docker update must support pull, build, or both'')
        else if 1 < length modes \<and> strip (str_or_empty r (getn cfg ''modeVariable'')) = [] then
          Inl (ValueError ''a multi-mode Docker update requires an approved mode variable'')
        else rbind (optional_variable r ''mode variable name is invalid'' (getn cfg ''modeVariable'')) (\<lambda>v. Inr (modes, v)))
      else if op \<in> set legacy_updates then Inr ([if op = ''docker_update_pull'' then ''pull'' else ''build''], None)
      else Inr ([], None))"

definition approval_of :: "(json \<Rightarrow> string) \<Rightarrow> controller \<Rightarrow> string \<Rightarrow> doc \<Rightarrow> approval result" where
  "approval_of r c op cfg = (let relative = str_or_empty r (getn cfg ''playbook'') in
     if relative \<notin> set (ct_discovered c) then Inl (ValueError ''playbook must be discovered before it can be approved'')
     else rbind (playbook_path c relative) (\<lambda>_.
       rbind (string_list r ''allowed targets'' (Some (dkeys (iv_hosts (ct_inventory c)))) False (getn cfg ''allowedTargets'')) (\<lambda>targets.
       rbind (string_list r ''allowed groups'' (Some (dkeys (iv_groups (ct_inventory c)))) False (getn cfg ''allowedGroups'')) (\<lambda>groups.
       rbind (string_list r ''allowed extra variables'' None True (getn cfg ''allowedExtraVariables'')) (\<lambda>vars.
       let label = take 100 (strip (if truthy (getn cfg ''label'') then str_json r (getn cfg ''label'') else dget_or approval_labels op [])) in
       if label = [] then Inl (ValueError ''playbook label is required'')
       else rbind (optional_variable r ''reboot variable name is invalid'' (getn cfg ''rebootVariable'')) (\<lambda>reboot.
         rbind (optional_variable r ''project variable name is invalid'' (getn cfg ''projectVariable'')) (\<lambda>project.
         if (op = ''docker_check'' \<or> op = ''docker_update'' \<or> op \<in> set legacy_updates) \<and> project \<noteq> Some ''docker_project''
         then Inl (ValueError ''Docker maintenance requires docker_project as the approved project variable'')
         else rbind (update_modes r op cfg) (\<lambda>(modes, modevar). Inr
           \<lparr>ap_playbook = relative, ap_label = label, ap_check_mode = truthy (getn cfg ''checkModeSupported''), ap_targets = targets,
            ap_groups = groups, ap_variables = vars, ap_reboot = map_option (\<lambda>v. (v, truthy (getn cfg ''supportsReboot''))) reboot,
            ap_project = project, ap_mode_variable = modevar, ap_modes = modes\<rparr>))))))))"

definition approve_playbook :: "(json \<Rightarrow> string) \<Rightarrow> string \<Rightarrow> doc \<Rightarrow> ansible_doc \<Rightarrow> unit result \<times> ansible_doc" where
  "approve_playbook r cid cfg d = (case dget (an_controllers d) cid of
     None \<Rightarrow> (Inl not_configured, d)
   | Some c \<Rightarrow> (let op = str_or_empty r (getn cfg ''operation'') in
       if op \<notin> set operations then (Inl (ValueError ''unsupported maintenance operation''), d)
       else if getn cfg ''operationType'' \<noteq> JNull \<and> getn cfg ''operationType'' \<noteq> JStr op then
         (Inl (ValueError ''operation type must match the approved operation''), d)
       else if \<not> truthy (field_or cfg ''approved'' (JBool True)) then
         (Inr (), change_controller cid (\<lambda>c. c\<lparr>ct_approvals := ddel op (ct_approvals c)\<rparr>) d)
       else (case approval_of r c op cfg of
         Inl e \<Rightarrow> (Inl e, d)
       | Inr a \<Rightarrow> (Inr (), change_controller cid (\<lambda>c. c\<lparr>ct_approvals := dput op a (ct_approvals c)\<rparr>) d))))"

section \<open>The mapping of workloads\<close>

definition maintenance_defaults :: doc where
  "maintenance_defaults = [(''osCheckOperation'', JStr ''os_check''), (''osUpdateOperation'', JStr ''os_update''),
     (''dockerDiscoveryEnabled'', JBool True), (''dockerDiscoveryOperation'', JStr ''docker_discovery''),
     (''dockerCheckOperation'', JStr ''docker_check''), (''dockerUpdateOperation'', JStr ''docker_update''),
     (''applianceHealthOperation'', JStr ''appliance_health'')]"

definition maintenance_mapping :: "doc \<Rightarrow> doc" where
  "maintenance_mapping m = (case getn m ''maintenance'' of JObj c \<Rightarrow> overlay c maintenance_defaults | _ \<Rightarrow> maintenance_defaults)"

definition allowed_operation :: "string \<times> json \<Rightarrow> unit result" where
  "allowed_operation kv = (case kv of (k, v) \<Rightarrow>
     if k = ''dockerDiscoveryEnabled'' \<or> v = JNull \<or> v = getn maintenance_defaults k then Inr ()
     else (case v of JArr _ \<Rightarrow> Inl TypeError | JObj _ \<Rightarrow> Inl TypeError
       | _ \<Rightarrow> Inl (ValueError (k @ '' must reference its approved operation''))))"

definition validate_maintenance :: "json \<Rightarrow> doc result" where
  "validate_maintenance v = (case v of
     JNull \<Rightarrow> Inr maintenance_defaults
   | JObj d \<Rightarrow> if list_ex (\<lambda>k. k \<notin> set (dkeys maintenance_defaults)) (dkeys d) then Inl (ValueError ''maintenance mapping contains unsupported fields'')
       else (let m = overlay d maintenance_defaults in
         if type_of (getn m ''dockerDiscoveryEnabled'') \<noteq> TBool then Inl (ValueError ''Docker discovery enabled must be a boolean'')
         else rbind (rmap allowed_operation m) (\<lambda>_. Inr m))
   | _ \<Rightarrow> Inl (ValueError ''maintenance mapping must be an object''))"

definition new_mapping :: "(json \<Rightarrow> string) \<Rightarrow> bool \<Rightarrow> string option \<Rightarrow> json \<Rightarrow> json \<Rightarrow> int \<Rightarrow> ansible_doc \<Rightarrow> doc result" where
  "new_mapping r enabled cid host maint now d = (if \<not> enabled then Inr [(''enabled'', JBool False)]
     else (let i = (case some_nonempty cid of None \<Rightarrow> primary | Some x \<Rightarrow> x) in
       case dget (an_controllers d) i of
         None \<Rightarrow> Inl not_configured
       | Some c \<Rightarrow> rbind (validate_inventory_host r host) (\<lambda>h.
           if inventory_host c h = None then Inl (ValueError ''inventory host was not discovered by Ansible'')
           else rbind (validate_maintenance maint) (\<lambda>m. Inr [(''enabled'', JBool True), (''controllerId'', JStr i),
             (''inventoryHost'', JStr h), (''maintenance'', JObj m), (''confirmedAt'', JInt now)]))))"

definition same_target :: "doc \<Rightarrow> doc \<Rightarrow> bool" where
  "same_target a b \<longleftrightarrow> py_eq (getn a ''controllerId'') (getn b ''controllerId'') \<and> py_eq (getn a ''inventoryHost'') (getn b ''inventoryHost'')"

definition association_changed :: "bool \<Rightarrow> doc \<Rightarrow> doc \<Rightarrow> bool" where
  "association_changed enabled previous nxt \<longleftrightarrow> truthy (getn previous ''enabled'') \<noteq> enabled \<or> \<not> same_target previous nxt \<or>
     enabled \<and> \<not> py_eq (JObj (maintenance_mapping previous)) (JObj (maintenance_mapping nxt))"

definition keep_maintenance :: "bool \<Rightarrow> bool \<Rightarrow> doc \<Rightarrow> doc \<Rightarrow> doc" where
  "keep_maintenance enabled given previous m =
     (if enabled \<and> \<not> given \<and> same_target previous m \<and> truthy (getn previous ''maintenance'')
      then dput ''maintenance'' (getn previous ''maintenance'') m else m)"

definition result_keys_of :: "string list" where
  "result_keys_of = [''updateState'', ''docker'', ''dockerDiscoveryState'', ''dockerUpdateState'', ''applianceHealthState'']"

definition unknown_state :: json where
  "unknown_state = JObj [(''state'', JStr ''unknown'')]"

definition fresh_states :: "bool \<Rightarrow> controller option \<Rightarrow> string \<Rightarrow> doc \<Rightarrow> doc" where
  "fresh_states enabled c target v =
     (let v1 = (if enabled \<and> operation_supported_by_host c ''os_check'' target then dput ''updateState'' unknown_state v else v) in
      if enabled \<and> operation_supported_by_host c ''appliance_health'' target then dput ''applianceHealthState'' unknown_state v1 else v1)"

definition controller_at :: "json \<Rightarrow> ansible_doc \<Rightarrow> controller option" where
  "controller_at v d = (case v of JStr i \<Rightarrow> dget (an_controllers d) i | _ \<Rightarrow> None)"

definition remap :: "(json \<Rightarrow> string) \<Rightarrow> bool \<Rightarrow> bool \<Rightarrow> doc \<Rightarrow> ansible_doc \<Rightarrow> doc \<Rightarrow> doc result" where
  "remap r enabled given m d v = rbind (sub_obj v ''ansible'') (\<lambda>previous.
     let nxt = keep_maintenance enabled given previous m; v1 = dput ''ansible'' (JObj nxt) v in
     Inr (if association_changed enabled previous nxt
       then fresh_states enabled (controller_at (getn nxt ''controllerId'') d) (str_or_empty r (getn nxt ''inventoryHost'')) (ddel_all result_keys_of v1)
       else v1))"

definition mapping_mut :: "(json \<Rightarrow> string) \<Rightarrow> string \<Rightarrow> bool \<Rightarrow> bool \<Rightarrow> doc \<Rightarrow> ansible_doc \<Rightarrow> (ansible_doc \<times> doc) result" where
  "mapping_mut r i enabled given m d = (case dget (an_instances d) i of
     None \<Rightarrow> Inl (ValueError ''compute instance not found'')
   | Some v \<Rightarrow> if v = [] then Inl (ValueError ''compute instance not found'')
       else rbind (remap r enabled given m d v) (\<lambda>w. Inr (d\<lparr>an_instances := dput i w (an_instances d)\<rparr>, w)))"

definition set_mapping :: "(json \<Rightarrow> string) \<Rightarrow> string \<Rightarrow> json \<Rightarrow> string option \<Rightarrow> json \<Rightarrow> json \<Rightarrow> int \<Rightarrow> ansible_doc \<Rightarrow> doc result \<times> ansible_doc" where
  "set_mapping r i enabled cid host maint now d = (case enabled of
     JBool b \<Rightarrow> (case new_mapping r b cid host maint now d of
         Inl e \<Rightarrow> (Inl e, d) | Inr m \<Rightarrow> transact (mapping_mut r i b (maint \<noteq> JNull) m) d)
   | _ \<Rightarrow> (Inl (ValueError ''enabled must be a boolean''), d))"

definition suggestion :: "string \<Rightarrow> string list \<Rightarrow> inv_host \<Rightarrow> (string \<times> string list) list" where
  "suggestion name addresses h = (let signals = (if name \<noteq> [] \<and> lower (ih_name h) = name then [''exact_hostname''] else []) @
       (if ih_address h \<in> set addresses then [''ip_address''] else []) in
     if signals = [] then [] else [(ih_name h, signals)])"

definition mapping_suggestions :: "(json \<Rightarrow> string) \<Rightarrow> doc \<Rightarrow> ansible_doc \<Rightarrow> (string \<times> string list) list result" where
  "mapping_suggestions r v d = (case dget (an_controllers d) primary of
     None \<Rightarrow> Inr []
   | Some c \<Rightarrow> rbind (items_of (getn v ''ipAddresses'')) (\<lambda>xs.
       let name = lower (strip (str_or_empty r (getn v ''name''))); addresses = concat (map (\<lambda>x. case x of JStr s \<Rightarrow> [s] | _ \<Rightarrow> []) xs) in
       Inr (concat (map (suggestion name addresses) (dvals (iv_hosts (ct_inventory c)))))))"

end
