(* ===== verification/Compute.thy ===== *)
theory Compute
  imports AnsibleControl
begin

text \<open>
  Workloads discovered from the virtualization devices of \<open>backend/compute.py\<close>: what a provider reports, the records
  kept for it, and their refresh, which retains what it no longer finds. Records, devices and jobs are JSON objects
  as the store keeps them; identifiers, providers and states of stored records are texts. Drivers, connections, the
  clock, random identifiers and the text of errors are arguments.
\<close>

section \<open>Reported workloads\<close>

text \<open>\<open>d.update(e)\<close>\<close>

definition doc_update :: "doc \<Rightarrow> doc \<Rightarrow> doc" where
  "doc_update e d = fold (\<lambda>(k, v). dput k v) e d"

definition text_of :: "json \<Rightarrow> string" where
  "text_of v = (case v of JStr s \<Rightarrow> s | _ \<Rightarrow> [])"

definition workload_types :: "string list" where
  "workload_types = [''vm'', ''lxc'']"

definition reported_addresses :: "(json \<Rightarrow> string) \<Rightarrow> json \<Rightarrow> json list result" where
  "reported_addresses r v = rbind (items_of v) (\<lambda>xs. Inr (map (\<lambda>x. JStr (take 255 (str_json r x))) (filter truthy xs)))"

definition normalize_workload :: "(json \<Rightarrow> string) \<Rightarrow> json \<Rightarrow> doc result" where
  "normalize_workload r w = (case w of
     JObj v \<Rightarrow> (let ident = strip (str_or_empty r (getn v ''providerInstanceId'')); kind = lower (str_or_empty r (getn v ''type'')) in
       if ident = [] \<or> kind \<notin> set workload_types then Inl (ValueError ''provider returned an invalid compute workload'')
       else rbind (reported_addresses r (getn v ''ipAddresses'')) (\<lambda>ips. Inr
         ([(''providerInstanceId'', JStr ident), (''type'', JStr kind),
           (''name'', JStr (take 200 (str_json r (py_or (getn v ''name'') (JStr ident))))),
           (''status'', JStr (take 50 (str_json r (py_or (getn v ''status'') (JStr ''unknown''))))),
           (''node'', getn v ''node''), (''cpuCores'', getn v ''cpuCores''), (''memoryBytes'', getn v ''memoryBytes''),
           (''diskBytes'', getn v ''diskBytes''), (''uptimeSeconds'', getn v ''uptimeSeconds''), (''ipAddresses'', JArr ips)] @
          (if truthy (getn v ''os'') then [(''os'', JStr (take 200 (str_json r (getn v ''os''))))] else []))))
   | _ \<Rightarrow> Inl AttributeError)"

section \<open>Providers\<close>

text \<open>What is asked of a driver.\<close>

record provider =
  kp_driver :: string
  kp_compute :: bool
  kp_updates :: bool
  kp_name :: "string option"

record inventory_doc = ansible_doc +
  co_devices :: "(string, doc) dict"
  co_jobs :: "(string, doc) dict"

record discovery_env =
  de_driver :: "doc \<Rightarrow> provider result"
  de_read :: "string \<Rightarrow> json list result"
  de_mask :: "failure \<Rightarrow> string"
  de_now :: int
  de_token :: "nat \<Rightarrow> string"

definition stored_device :: "string \<Rightarrow> inventory_doc \<Rightarrow> doc result" where
  "stored_device i d = (case dget (co_devices d) i of
     None \<Rightarrow> Inl (ValueError ''device not found'') | Some v \<Rightarrow> if v = [] then Inl (ValueError ''device not found'') else Inr v)"

definition discovery_parent :: "(doc \<Rightarrow> provider result) \<Rightarrow> string \<Rightarrow> inventory_doc \<Rightarrow> (doc \<times> provider) result" where
  "discovery_parent driver i d = rbind (stored_device i d) (\<lambda>v. rbind (driver v) (\<lambda>p.
     if kp_compute p then Inr (v, p) else Inl (ValueError ''device does not provide compute workloads'')))"

definition provider_name :: "provider \<Rightarrow> string" where
  "provider_name p = (case some_nonempty (kp_name p) of Some n \<Rightarrow> n | None \<Rightarrow> kp_driver p)"

section \<open>Records\<close>

definition of_parent :: "string \<Rightarrow> doc \<Rightarrow> bool" where
  "of_parent i v \<longleftrightarrow> getn v ''parentDeviceId'' = JStr i"

definition unavailable :: "int \<Rightarrow> string \<Rightarrow> doc \<Rightarrow> doc" where
  "unavailable now message v = doc_update [(''discoveryState'', JStr ''unavailable''), (''lastDiscoveryAttemptAt'', JInt now),
     (''lastDiscoveryError'', JStr message)] v"

definition mark_discovery_failure :: "discovery_env \<Rightarrow> string \<Rightarrow> failure \<Rightarrow> inventory_doc \<Rightarrow> inventory_doc" where
  "mark_discovery_failure e i x d = d\<lparr>an_instances := dmap (\<lambda>v. if of_parent i v then unavailable (de_now e) (take 300 (de_mask e x)) v else v)
     (an_instances d)\<rparr>"

text \<open>The records of a device by provider and identifier; of two with the same the later one counts.\<close>

definition workload_key :: "doc \<Rightarrow> json \<times> json" where
  "workload_key v = (getn v ''provider'', getn v ''providerInstanceId'')"

definition existing_of :: "string \<Rightarrow> (string, doc) dict \<Rightarrow> (json \<times> json, string) dict" where
  "existing_of i m = fold (\<lambda>(k, v) known. if of_parent i v then dput (workload_key v) k known else known) m []"

definition new_instance :: "json \<Rightarrow> string \<Rightarrow> string \<Rightarrow> int \<Rightarrow> string \<Rightarrow> doc" where
  "new_instance owner i provider now ident = [(''id'', JStr ident), (''ownerId'', owner), (''parentDeviceId'', JStr i),
     (''provider'', JStr provider), (''createdAt'', JInt now), (''updateState'', unknown_state)]"

definition found_now :: "json \<Rightarrow> int \<Rightarrow> doc \<Rightarrow> doc \<Rightarrow> doc" where
  "found_now owner now w v = ddel ''lastDiscoveryError'' (doc_update [(''ownerId'', owner), (''discoveryState'', JStr ''current''),
     (''lastDiscoveredAt'', JInt now), (''lastDiscoveryAttemptAt'', JInt now)] (doc_update w v))"

definition stale :: "int \<Rightarrow> doc \<Rightarrow> doc" where
  "stale now v = doc_update [(''discoveryState'', JStr ''stale''), (''lastDiscoveryAttemptAt'', JInt now)] v"

text \<open>The loop over what was found, with the number of records created so far.\<close>

fun enter_workloads :: "json \<Rightarrow> string \<Rightarrow> string \<Rightarrow> int \<Rightarrow> (nat \<Rightarrow> string) \<Rightarrow> (json \<times> json, string) dict \<Rightarrow> nat \<Rightarrow> doc list \<Rightarrow>
    (string, doc) dict \<Rightarrow> (string, doc) dict \<times> nat" where
  "enter_workloads owner i provider now tok known n [] m = (m, n)"
| "enter_workloads owner i provider now tok known n (w # ws) m = (case dget known (JStr provider, getn w ''providerInstanceId'') of
     Some k \<Rightarrow> enter_workloads owner i provider now tok known n ws (dput k (found_now owner now w (dget_or m k [])) m)
   | None \<Rightarrow> enter_workloads owner i provider now tok known (Suc n) ws
       (dput (tok n) (found_now owner now w (new_instance owner i provider now (tok n))) m))"

definition gone :: "string \<Rightarrow> doc list \<Rightarrow> (json \<times> json, string) dict \<Rightarrow> string list" where
  "gone provider ws known = map snd (filter (\<lambda>(key, k). key \<notin> set (map (\<lambda>w. (JStr provider, getn w ''providerInstanceId'')) ws)) known)"

definition discovery_mut :: "json \<Rightarrow> string \<Rightarrow> string \<Rightarrow> int \<Rightarrow> (nat \<Rightarrow> string) \<Rightarrow> doc list \<Rightarrow> inventory_doc \<Rightarrow> (inventory_doc \<times> nat \<times> nat \<times> nat) result" where
  "discovery_mut owner i provider now tok ws d =
     (let known = existing_of i (an_instances d); (m, created) = enter_workloads owner i provider now tok known 0 ws (an_instances d);
          old = gone provider ws known in
      Inr (d\<lparr>an_instances := dmapk (\<lambda>k v. if k \<in> set old then stale now v else v) m\<rparr>, length ws, created, length old))"

definition discover_device :: "(json \<Rightarrow> string) \<Rightarrow> discovery_env \<Rightarrow> string \<Rightarrow> inventory_doc \<Rightarrow> (nat \<times> nat \<times> nat) result \<times> inventory_doc" where
  "discover_device r e i d = (case discovery_parent (de_driver e) i d of
     Inl x \<Rightarrow> (Inl x, d)
   | Inr (v, p) \<Rightarrow> (case rbind (de_read e i) (rmap (normalize_workload r)) of
       Inl x \<Rightarrow> (Inl x, mark_discovery_failure e i x d)
     | Inr ws \<Rightarrow> transact (discovery_mut (getn v ''ownerId'') i (provider_name p) (de_now e) (de_token e) ws) d))"

section \<open>All devices\<close>

definition visible_to :: "bool \<Rightarrow> string \<Rightarrow> doc \<Rightarrow> bool" where
  "visible_to admin owner v \<longleftrightarrow> admin \<or> getn v ''ownerId'' = JStr owner"

definition discovery_candidates :: "(doc \<Rightarrow> provider result) \<Rightarrow> bool \<Rightarrow> string \<Rightarrow> inventory_doc \<Rightarrow> string list" where
  "discovery_candidates driver admin owner d = map (\<lambda>v. text_of (getn v ''id''))
     (filter (\<lambda>v. visible_to admin owner v \<and> (case driver v of Inl _ \<Rightarrow> False | Inr p \<Rightarrow> kp_compute p)) (dvals (co_devices d)))"

fun discover_each :: "(json \<Rightarrow> string) \<Rightarrow> (string \<Rightarrow> discovery_env) \<Rightarrow> string list \<Rightarrow> inventory_doc \<Rightarrow>
    (string \<times> (string + nat \<times> nat \<times> nat)) list \<times> inventory_doc" where
  "discover_each r es [] d = ([], d)"
| "discover_each r es (i # is) d = (let (x, d1) = discover_device r (es i) i d; (ys, d2) = discover_each r es is d1 in
     ((i, map_sum (\<lambda>f. take 300 (de_mask (es i) f)) id x) # ys, d2))"

definition discover_all :: "(json \<Rightarrow> string) \<Rightarrow> (doc \<Rightarrow> provider result) \<Rightarrow> (string \<Rightarrow> discovery_env) \<Rightarrow> bool \<Rightarrow> string \<Rightarrow> inventory_doc \<Rightarrow>
    (string \<times> (string + nat \<times> nat \<times> nat)) list \<times> inventory_doc" where
  "discover_all r driver es admin owner d = discover_each r es (discovery_candidates driver admin owner d) d"

section \<open>The records that refer to a device\<close>

definition parent_public :: "doc option \<Rightarrow> json" where
  "parent_public p = (case p of None \<Rightarrow> JNull | Some v \<Rightarrow> if v = [] then JNull else JObj
     ([(''id'', getn v ''id''), (''name'', py_or (getn v ''name'') (getn v ''host'')), (''host'', getn v ''host''), (''driverId'', getn v ''driverId'')] @
      (if getn v ''state'' = JNull then [] else [(''state'', getn v ''state'')])))"

text \<open>The nodes known from the workloads, and those the maintenance of the device knows.\<close>

definition workload_nodes :: "(json \<Rightarrow> string) \<Rightarrow> bool \<Rightarrow> string \<Rightarrow> json \<Rightarrow> inventory_doc \<Rightarrow> string list" where
  "workload_nodes r admin owner parent d = map (\<lambda>v. str_json r (getn v ''node''))
     (filter (\<lambda>v. visible_to admin owner v \<and> truthy (getn v ''parentDeviceId'') \<and> truthy (getn v ''node'') \<and> getn v ''parentDeviceId'' = parent)
       (dvals (an_instances d)))"

definition host_entry :: "(json \<Rightarrow> string) \<Rightarrow> doc \<Rightarrow> doc \<Rightarrow> doc \<Rightarrow> string \<Rightarrow> doc" where
  "host_entry r v upkeep states name = [(''id'', JStr (str_json r (getn v ''id'') @ '':'' @ (if name = [] then ''parent'' else name))),
     (''node'', if name = [] then JNull else JStr name), (''parentDevice'', parent_public (Some v)),
     (''maintenance'', if name = [] then JNull else getn states name), (''maintenanceCheckedAt'', getn upkeep ''checkedAt''),
     (''maintenanceRefreshError'', getn upkeep ''refreshError''), (''maintenanceRefreshFailedAt'', getn upkeep ''refreshFailedAt''),
     (''sshConfigured'', JBool (truthy (getn upkeep ''sshConfigured'')))]"

definition device_hosts :: "(json \<Rightarrow> string) \<Rightarrow> (doc \<Rightarrow> provider result) \<Rightarrow> bool \<Rightarrow> string \<Rightarrow> inventory_doc \<Rightarrow> doc \<Rightarrow> doc list result" where
  "device_hosts r driver admin owner d v =
     (if \<not> visible_to admin owner v then Inr []
      else (case driver v of
        Inl _ \<Rightarrow> Inr []
      | Inr p \<Rightarrow> if \<not> (kp_compute p \<and> kp_updates p) then Inr []
          else rbind (sub_obj v ''proxmoxMaintenance'') (\<lambda>upkeep. rbind (sub_obj upkeep ''nodes'') (\<lambda>states.
            let names = sort (remdups (workload_nodes r admin owner (getn v ''id'') d @ dkeys states)) in
            Inr (map (host_entry r v upkeep states) (if names = [] then [[]] else names))))))"

definition list_hosts :: "(json \<Rightarrow> string) \<Rightarrow> (doc \<Rightarrow> provider result) \<Rightarrow> bool \<Rightarrow> string \<Rightarrow> inventory_doc \<Rightarrow> doc list result" where
  "list_hosts r driver admin owner d = rbind (rmap (device_hosts r driver admin owner d) (dvals (co_devices d))) (\<lambda>xs. Inr (concat xs))"

section \<open>Lookups\<close>

lemma dget_doc_update: "dict_ok e \<Longrightarrow> dget (doc_update e d) k = (case dget e k of Some v \<Rightarrow> Some v | None \<Rightarrow> dget d k)"
proof (induction e arbitrary: d)
  case Nil
  then show ?case by (simp add: doc_update_def)
next
  case (Cons kv e)
  obtain a b where kv: "kv = (a, b)" by (cases kv)
  then have "dget e a = None" using Cons.prems by (simp add: dget_None_iff)
  then show ?case using Cons.IH [of "dput a b d"] Cons.prems kv by (auto simp: doc_update_def split: option.splits)
qed

lemma normalize_workload_keys:
  assumes "normalize_workload r w = Inr v"
  shows "dict_ok v \<and> dget v ''provider'' = None \<and> dget v ''parentDeviceId'' = None \<and> dget v ''id'' = None \<and> dget v ''ansible'' = None \<and>
    (\<exists>s. dget v ''providerInstanceId'' = Some (JStr s) \<and> s \<noteq> [])"
  using assms by (cases w) (auto simp: normalize_workload_def Let_def rbind_Inr_iff split: if_splits)

end
