(* ===== verification/ComputeRuns.thy ===== *)
theory ComputeRuns
  imports Compute
begin

text \<open>
  What the refresh of workloads guarantees: it equals a reference definition that reads as its purpose, devices do
  not disturb each other, and records stay unique over every run.
\<close>

section \<open>The reference\<close>

definition reported :: "string \<Rightarrow> doc \<Rightarrow> json \<times> json" where
  "reported provider w = (JStr provider, getn w ''providerInstanceId'')"

text \<open>A record of the device takes what was reported for it, or goes stale.\<close>

definition refreshed :: "json \<Rightarrow> string \<Rightarrow> int \<Rightarrow> doc list \<Rightarrow> doc \<Rightarrow> doc" where
  "refreshed owner provider now ws v = (case find (\<lambda>w. reported provider w = workload_key v) ws of
     Some w \<Rightarrow> found_now owner now w v | None \<Rightarrow> stale now v)"

definition unknown_workloads :: "string \<Rightarrow> string \<Rightarrow> doc list \<Rightarrow> (string, doc) dict \<Rightarrow> doc list" where
  "unknown_workloads i provider ws m = filter (\<lambda>w. \<forall>(k, v)\<in>set m. of_parent i v \<longrightarrow> workload_key v \<noteq> reported provider w) ws"

definition discovered_instances :: "json \<Rightarrow> string \<Rightarrow> string \<Rightarrow> int \<Rightarrow> (nat \<Rightarrow> string) \<Rightarrow> doc list \<Rightarrow> (string, doc) dict \<Rightarrow> (string, doc) dict" where
  "discovered_instances owner i provider now tok ws m =
     dmap (\<lambda>v. if of_parent i v then refreshed owner provider now ws v else v) m @
     map (\<lambda>(n, w). (tok n, found_now owner now w (new_instance owner i provider now (tok n))))
       (enumerate 0 (unknown_workloads i provider ws m))"

text \<open>Records are keyed by their identifier, and a device has one record for a workload.\<close>

definition instances_ok :: "(string, doc) dict \<Rightarrow> bool" where
  "instances_ok m \<longleftrightarrow> dict_all (\<lambda>k v. getn v ''id'' = JStr k) m \<and>
     (\<forall>i k v k' v'. dget m k = Some v \<and> dget m k' = Some v' \<and> of_parent i v \<and> of_parent i v' \<and> workload_key v = workload_key v' \<longrightarrow> k = k')"

definition fresh_tokens :: "(nat \<Rightarrow> string) \<Rightarrow> (string, doc) dict \<Rightarrow> bool" where
  "fresh_tokens tok m \<longleftrightarrow> inj tok \<and> (\<forall>n. tok n \<notin> set (dkeys m))"

abbreviation identifiers :: "doc list \<Rightarrow> json list" where
  "identifiers ws \<equiv> map (\<lambda>w. getn w ''providerInstanceId'') ws"

section \<open>The known records\<close>

lemma fold_known:
  "if \<exists>k v. (k, v) \<in> set m \<and> of_parent i v \<and> workload_key v = key
   then \<exists>k v. (k, v) \<in> set m \<and> of_parent i v \<and> workload_key v = key \<and>
     dget (fold (\<lambda>(k, v) known. if of_parent i v then dput (workload_key v) k known else known) m known) key = Some k
   else dget (fold (\<lambda>(k, v) known. if of_parent i v then dput (workload_key v) k known else known) m known) key = dget known key"
proof (induction m rule: rev_induct)
  case Nil
  then show ?case by simp
next
  case (snoc kv m)
  then show ?case by (cases kv) (auto split: if_splits)
qed

lemma dget_existing:
  assumes "instances_ok m"
  shows "dget (existing_of i m) key = Some k \<longleftrightarrow> (\<exists>v. dget m k = Some v \<and> of_parent i v \<and> workload_key v = key)"
proof -
  have ok: "dict_ok m" using assms unfolding instances_ok_def by (blast intro: dict_all_ok)
  have unique: "k = k'" if "dget m k = Some v" "dget m k' = Some v'" "of_parent i v" "of_parent i v'" "workload_key v = workload_key v'" for k v k' v'
    using assms that unfolding instances_ok_def by blast
  show ?thesis using fold_known [of m i key "[]"] unique unfolding existing_of_def dget_mem_iff [OF ok, symmetric]
    by (auto split: if_splits)
qed

lemma dict_ok_existing: "dict_ok (existing_of i m)"
proof -
  have "dict_ok known \<Longrightarrow> dict_ok (fold (\<lambda>(k, v) known. if of_parent i v then dput (workload_key v) k known else known) m known)" for known :: "(json \<times> json, string) dict"
    by (induction m arbitrary: known) auto
  then show ?thesis by (simp add: existing_of_def)
qed

lemma existing_inj:
  assumes "instances_ok m" "dget (existing_of i m) key = Some k" "dget (existing_of i m) key' = Some k"
  shows "key = key'"
  using assms by (auto simp: dget_existing)

section \<open>Entering what was found\<close>

definition enters_new :: "string \<Rightarrow> (json \<times> json, string) dict \<Rightarrow> doc list \<Rightarrow> doc list" where
  "enters_new provider known ws = filter (\<lambda>w. dget known (reported provider w) = None) ws"

definition enters_known :: "string \<Rightarrow> (json \<times> json, string) dict \<Rightarrow> doc list \<Rightarrow> string \<Rightarrow> doc option" where
  "enters_known provider known ws k = find (\<lambda>w. dget known (reported provider w) = Some k) ws"

lemma enters_new_simps [simp]: "enters_new provider known [] = []"
  "enters_new provider known (w # ws) = (if dget known (reported provider w) = None then w # enters_new provider known ws else enters_new provider known ws)"
  by (simp_all add: enters_new_def)

lemma enters_known_simps [simp]: "enters_known provider known [] k = None"
  "enters_known provider known (w # ws) k = (if dget known (reported provider w) = Some k then Some w else enters_known provider known ws k)"
  by (simp_all add: enters_known_def)

lemma dkeys_dput_if: "dkeys (dput k v m) = (if k \<in> set (dkeys m) then dkeys m else dkeys m @ [k])"
  by (simp add: update_keys)

lemma enter_keys:
  assumes "\<forall>key k. dget known key = Some k \<longrightarrow> k \<in> set (dkeys m)" "inj tok" "\<forall>j\<ge>n. tok j \<notin> set (dkeys m)"
  shows "dkeys (fst (enter_workloads owner i provider now tok known n ws m)) = dkeys m @ map tok [n..<n + length (enters_new provider known ws)] \<and>
    snd (enter_workloads owner i provider now tok known n ws m) = n + length (enters_new provider known ws)"
  using assms(1,3)
proof (induction ws arbitrary: n m)
  case Nil
  then show ?case by simp
next
  case (Cons w ws)
  show ?case
  proof (cases "dget known (reported provider w)")
    case (Some k)
    then have k: "k \<in> set (dkeys m)" using Cons.prems(1) by blast
    let ?m = "dput k (found_now owner now w (dget_or m k [])) m"
    have keys: "dkeys ?m = dkeys m" using k by (simp only: dkeys_dput_if if_True)
    have "\<forall>key k. dget known key = Some k \<longrightarrow> k \<in> set (dkeys ?m)" "\<forall>j\<ge>n. tok j \<notin> set (dkeys ?m)"
      unfolding keys using Cons.prems by blast+
    from Cons.IH [OF this] show ?thesis using Some unfolding keys by (simp add: reported_def)
  next
    case None
    let ?m = "dput (tok n) (found_now owner now w (new_instance owner i provider now (tok n))) m"
    have keys: "dkeys ?m = dkeys m @ [tok n]" using Cons.prems(2) by (simp only: dkeys_dput_if if_False order_refl)
    have p1: "\<forall>key k. dget known key = Some k \<longrightarrow> k \<in> set (dkeys ?m)" unfolding keys using Cons.prems(1) by auto
    have p2: "\<forall>j\<ge>Suc n. tok j \<notin> set (dkeys ?m)" unfolding keys using Cons.prems(2) injD [OF assms(2)] by fastforce
    have "map tok [n..<n + Suc l] = tok n # map tok [Suc n..<n + Suc l]" for l by (simp add: upt_conv_Cons del: upt_Suc)
    with Cons.IH [OF p1 p2] show ?thesis using None unfolding keys by (simp add: reported_def del: upt_Suc)
  qed
qed

lemma upt_cons: "[n..<n + length (x # xs)] = n # [Suc n..<Suc n + length xs]"
  by (simp add: upt_conv_Cons del: upt_Suc)

lemma find_upt_ge: "find P [n..<m] = Some j \<Longrightarrow> n \<le> j"
  by (auto simp: find_Some_iff)

lemma enter_get:
  assumes "\<forall>key key' k. dget known key = Some k \<and> dget known key' = Some k \<longrightarrow> key = key'"
    and "inj tok" "\<forall>key j. dget known key \<noteq> Some (tok j)" and "distinct (identifiers ws)"
  shows "dget (fst (enter_workloads owner i provider now tok known n ws m)) k =
    (case enters_known provider known ws k of Some w \<Rightarrow> Some (found_now owner now w (dget_or m k []))
     | None \<Rightarrow> (case find (\<lambda>j. tok j = k) [n..<n + length (enters_new provider known ws)] of
         Some j \<Rightarrow> Some (found_now owner now (enters_new provider known ws ! (j - n)) (new_instance owner i provider now (tok j)))
       | None \<Rightarrow> dget m k))"
  using assms(4)
proof (induction ws arbitrary: n m)
  case Nil
  then show ?case by simp
next
  case (Cons w ws)
  have d: "distinct (identifiers ws)" using Cons.prems by simp
  show ?case
  proof (cases "dget known (reported provider w)")
    case (Some k0)
    have later: "enters_known provider known ws k0 = None"
    proof -
      have "dget known (reported provider w') \<noteq> Some k0" if "w' \<in> set ws" for w'
        using assms(1) Some Cons.prems that by (force simp: reported_def)
      then show ?thesis by (simp add: enters_known_def find_None_iff)
    qed
    have notok: "find (\<lambda>j. tok j = k0) xs = None" for xs using Some assms(3) unfolding find_None_iff by metis
    show ?thesis
    proof (cases "k = k0")
      case True
      then show ?thesis using Some later notok Cons.IH [OF d, of n "dput k0 (found_now owner now w (dget_or m k0 [])) m"] by (simp add: reported_def [symmetric])
    next
      case False
      then show ?thesis using Some Cons.IH [OF d, of n "dput k0 (found_now owner now w (dget_or m k0 [])) m"] by (simp add: reported_def [symmetric] dget_or_dput split: option.split)
    qed
  next
    case None
    let ?m = "dput (tok n) (found_now owner now w (new_instance owner i provider now (tok n))) m"
    note IH = Cons.IH [OF d, of "Suc n" ?m]
    have new: "enters_new provider known (w # ws) = w # enters_new provider known ws" using None by simp
    show ?thesis
    proof (cases "enters_known provider known ws k")
      case (Some w')
      then have "dget known (reported provider w') = Some k" unfolding enters_known_def by (auto simp: find_Some_iff)
      then have "k \<noteq> tok n" using assms(3) by blast
      then show ?thesis using None Some IH by (simp add: reported_def [symmetric] dget_or_dput)
    next
      case later: None
      show ?thesis
      proof (cases "k = tok n")
        case True
        have "find (\<lambda>j. tok j = tok n) [Suc n..<Suc n + l] = None" for l
          using injD [OF assms(2)] by (fastforce simp: find_None_iff simp del: upt_Suc)
        then show ?thesis using None later IH True unfolding new upt_cons
          by (simp add: reported_def [symmetric] del: upt_Suc add_Suc_right add_Suc)
      next
        case False
        show ?thesis
        proof (cases "find (\<lambda>j. tok j = k) [Suc n..<Suc n + length (enters_new provider known ws)]")
          case None
          then show ?thesis using \<open>dget known (reported provider w) = None\<close> later IH False unfolding new upt_cons
            by (simp add: reported_def [symmetric] del: upt_Suc add_Suc)
        next
          case (Some j)
          then have "Suc n \<le> j" by (rule find_upt_ge)
          then show ?thesis using Some \<open>dget known (reported provider w) = None\<close> later IH False unfolding new upt_cons
            by (simp add: reported_def [symmetric] nth_Cons' del: upt_Suc add_Suc)
        qed
      qed
    qed
  qed
qed

section \<open>The refresh equals its reference\<close>

lemma dict_eqI: "dkeys a = dkeys b \<Longrightarrow> dict_ok a \<Longrightarrow> (\<And>k. dget a k = dget b k) \<Longrightarrow> a = b"
proof (induction a arbitrary: b)
  case Nil
  then show ?case by simp
next
  case (Cons x a)
  then obtain y b' where b: "b = y # b'" "fst y = fst x" "dkeys a = dkeys b'" by (cases b) auto
  have "dget a k = dget b' k" for k
  proof (cases "k = fst x")
    case True
    then have a: "k \<notin> set (dkeys a)" using Cons.prems(2) by simp
    then have "k \<notin> set (dkeys b')" unfolding b(3) .
    with a have "dget a k = None" "dget b' k = None" unfolding dget_None_iff .
    then show ?thesis by simp
  next
    case False
    then show ?thesis using Cons.prems(3) [of k] b by (cases x; cases y) simp
  qed
  moreover have "dict_ok a" using Cons.prems(2) by simp
  ultimately have "a = b'" using Cons.IH [OF b(3)] by blast
  moreover have "snd x = snd y" using Cons.prems(3) [of "fst x"] b by (cases x; cases y) simp
  ultimately show ?case using b by (cases x; cases y) simp
qed

lemma map_of_tokens:
  "map_of (map (\<lambda>(n, w). (tok n, F n w)) (enumerate n us)) k =
    (case find (\<lambda>j. tok j = k) [n..<n + length us] of Some j \<Rightarrow> Some (F j (us ! (j - n))) | None \<Rightarrow> None)"
proof (induction us arbitrary: n)
  case Nil
  then show ?case by simp
next
  case (Cons u us)
  note IH = Cons.IH [of "Suc n"]
  show ?case
  proof (cases "find (\<lambda>j. tok j = k) [Suc n..<Suc n + length us]")
    case None
    then show ?thesis using IH unfolding upt_cons by (simp del: upt_Suc add_Suc)
  next
    case (Some j)
    then have "Suc n \<le> j" by (rule find_upt_ge)
    then show ?thesis using IH Some unfolding upt_cons by (simp add: nth_Cons' del: upt_Suc add_Suc)
  qed
qed

lemma token_keys: "dkeys (map (\<lambda>(n, w). (tok n, F n w)) (enumerate n us)) = map tok [n..<n + length us]"
proof (induction us arbitrary: n)
  case Nil
  then show ?case by simp
next
  case (Cons u us)
  then show ?case unfolding upt_cons by (simp del: upt_Suc add_Suc)
qed

lemma gone_iff:
  assumes "instances_ok m"
  shows "k \<in> set (gone provider ws (existing_of i m)) \<longleftrightarrow> (\<exists>v. dget m k = Some v \<and> of_parent i v \<and> workload_key v \<notin> reported provider ` set ws)"
  unfolding gone_def reported_def [symmetric]
  by (force simp: dget_mem_iff [OF dict_ok_existing, symmetric] dget_existing [OF assms])

lemma enters_new_unknown:
  assumes "instances_ok m"
  shows "enters_new provider (existing_of i m) ws = unknown_workloads i provider ws m"
proof -
  have ok: "dict_ok m" using assms unfolding instances_ok_def by (blast intro: dict_all_ok)
  have "dget (existing_of i m) (reported provider w) = None \<longleftrightarrow> (\<forall>(k, v)\<in>set m. of_parent i v \<longrightarrow> workload_key v \<noteq> reported provider w)" for w
  proof -
    have "dget (existing_of i m) key = None \<longleftrightarrow> (\<forall>k. dget (existing_of i m) key \<noteq> Some k)" for key
      by (cases "dget (existing_of i m) key") auto
    then show ?thesis unfolding dget_existing [OF assms] dget_mem_iff [OF ok] by auto
  qed
  then show ?thesis by (simp add: enters_new_def unknown_workloads_def)
qed

lemma enters_known_own:
  assumes "instances_ok m" "dget m k = Some v" "of_parent i v"
  shows "enters_known provider (existing_of i m) ws k = find (\<lambda>w. reported provider w = workload_key v) ws"
proof -
  have "dget (existing_of i m) key = Some k \<longleftrightarrow> key = workload_key v" for key using dget_existing [OF assms(1)] assms(2,3) by auto
  then show ?thesis by (simp add: enters_known_def)
qed

lemma enters_known_other:
  assumes "instances_ok m" "\<And>v. dget m k = Some v \<Longrightarrow> \<not> of_parent i v"
  shows "enters_known provider (existing_of i m) ws k = None"
  using assms by (auto simp: enters_known_def find_None_iff dget_existing)

lemma dget_discovered: "dget (discovered_instances owner i provider now tok ws m) k =
    (case dget m k of Some v \<Rightarrow> Some (if of_parent i v then refreshed owner provider now ws v else v)
     | None \<Rightarrow> (case find (\<lambda>j. tok j = k) [0..<length (unknown_workloads i provider ws m)] of
         Some j \<Rightarrow> Some (found_now owner now (unknown_workloads i provider ws m ! j) (new_instance owner i provider now (tok j))) | None \<Rightarrow> None))"
  by (simp add: discovered_instances_def map_add_def map_of_tokens split: option.split)

lemma discovery_list:
  assumes ok: "instances_ok m" and fresh: "fresh_tokens tok m" and dist: "distinct (identifiers ws)"
  shows "dmapk (\<lambda>k v. if k \<in> set (gone provider ws (existing_of i m)) then stale now v else v)
      (fst (enter_workloads owner i provider now tok (existing_of i m) 0 ws m)) = discovered_instances owner i provider now tok ws m"
    (is "dmapk ?g ?e = ?r")
proof -
  have dok: "dict_ok m" using ok unfolding instances_ok_def by (blast intro: dict_all_ok)
  have inj: "inj tok" and tok: "tok j \<notin> set (dkeys m)" for j using fresh by (simp_all add: fresh_tokens_def)
  have known: "k \<in> set (dkeys m)" if "dget (existing_of i m) key = Some k" for key k
  proof -
    have "dget m k \<noteq> None" using that dget_existing [OF ok] by auto
    then show ?thesis unfolding dget_None_iff by blast
  qed
  let ?u = "unknown_workloads i provider ws m"
  have ek: "dkeys ?e = dkeys m @ map tok [0..<length ?u]"
  proof -
    have a: "\<forall>key k. dget (existing_of i m) key = Some k \<longrightarrow> k \<in> set (dkeys m)" using known by blast
    have b: "\<forall>j\<ge>0. tok j \<notin> set (dkeys m)" using tok by blast
    show ?thesis using enter_keys [OF a inj b] unfolding enters_new_unknown [OF ok] by simp
  qed
  have keys: "dkeys (dmapk ?g ?e) = dkeys ?r"
    unfolding discovered_instances_def map_append token_keys dkeys_dmap dkeys_dmapk using ek by simp
  have "distinct (map tok [0..<length ?u])" using inj by (simp add: distinct_map inj_on_subset [OF inj])
  moreover have "set (dkeys m) \<inter> set (map tok js) = {}" for js using tok by (induction js) (simp_all del: set_map)
  ultimately have de: "dict_ok (dmapk ?g ?e)" unfolding dkeys_dmapk ek distinct_append using dok by blast
  have "dget (dmapk ?g ?e) k = dget ?r k" for k
  proof -
    have notok: "find (\<lambda>j. tok j = k) xs = None" if "dget m k = Some v" for v xs
    proof -
      have "k \<in> set (dkeys m)" using that dget_None_iff [of m k] by fastforce
      then show ?thesis using tok unfolding find_None_iff by metis
    qed
    have g: "dget ?e k = (case enters_known provider (existing_of i m) ws k of Some w \<Rightarrow> Some (found_now owner now w (dget_or m k []))
     | None \<Rightarrow> (case find (\<lambda>j. tok j = k) [0..<length ?u] of
         Some j \<Rightarrow> Some (found_now owner now (?u ! j) (new_instance owner i provider now (tok j))) | None \<Rightarrow> dget m k))"
    proof -
      have a: "\<forall>key key' k. dget (existing_of i m) key = Some k \<and> dget (existing_of i m) key' = Some k \<longrightarrow> key = key'"
        using existing_inj [OF ok] by blast
      have b: "\<forall>key j. dget (existing_of i m) key \<noteq> Some (tok j)" using known tok by blast
      show ?thesis using enter_get [OF a inj b dist, where n = 0 and m = m and k = k and i = i and owner = owner and now = now and provider = provider]
        unfolding enters_new_unknown [OF ok] add_0 minus_nat.diff_0 .
    qed
    note rr = dget_discovered [of owner i provider now tok ws m k]
    show ?thesis
    proof (cases "dget m k")
      case None
      then show ?thesis using g rr enters_known_other [OF ok, of k i] gone_iff [OF ok, of k]
        by (simp split: option.split)
    next
      case (Some v)
      show ?thesis
      proof (cases "of_parent i v")
        case False
        then show ?thesis using Some g rr notok [OF Some] enters_known_other [OF ok, of k i] gone_iff [OF ok, of k] by simp
      next
        case True
        note own = enters_known_own [OF ok Some True, of provider ws]
        show ?thesis
        proof (cases "find (\<lambda>w. reported provider w = workload_key v) ws")
          case None
          then have "workload_key v \<notin> reported provider ` set ws" by (auto simp: find_None_iff)
          then show ?thesis using None Some True g rr own notok [OF Some] gone_iff [OF ok, of k] by (simp add: refreshed_def)
        next
          case (Some w)
          then have "w \<in> set ws" "workload_key v = reported provider w" by (auto simp: find_Some_iff)
          then have "workload_key v \<in> reported provider ` set ws" by simp
          then show ?thesis using Some \<open>dget m k = Some v\<close> True g rr own gone_iff [OF ok, of k] by (simp add: refreshed_def dget_or_def)
        qed
      qed
    qed
  qed
  with keys de show ?thesis by (rule dict_eqI)
qed

lemma length_gone:
  assumes "instances_ok m"
  shows "length (gone provider ws (existing_of i m)) = length (filter (\<lambda>(k, v). of_parent i v \<and> workload_key v \<notin> reported provider ` set ws) m)"
proof -
  let ?f = "filter (\<lambda>(k, v). of_parent i v \<and> workload_key v \<notin> reported provider ` set ws) m"
  have dok: "dict_ok m" using assms unfolding instances_ok_def by (blast intro: dict_all_ok)
  have "distinct (map snd (existing_of i m))"
  proof (rule distinct_map [THEN iffD2], intro conjI inj_onI)
    show "distinct (existing_of i m)" using dict_ok_existing [of i m] by (simp add: distinct_map)
  next
    fix x y
    assume "x \<in> set (existing_of i m)" "y \<in> set (existing_of i m)" and e: "snd x = snd y"
    then have "dget (existing_of i m) (fst x) = Some (snd x)" "dget (existing_of i m) (fst y) = Some (snd x)"
      unfolding dget_mem_iff [OF dict_ok_existing] by (metis prod.collapse)+
    then have "fst x = fst y" by (rule existing_inj [OF assms])
    then show "x = y" using e by (simp add: prod_eq_iff)
  qed
  then have "distinct (gone provider ws (existing_of i m))" unfolding gone_def by (rule distinct_map_filter)
  then have "length (gone provider ws (existing_of i m)) = card (set (gone provider ws (existing_of i m)))" by (rule distinct_card [symmetric])
  also have "set (gone provider ws (existing_of i m)) = set (dkeys ?f)"
    unfolding set_eq_iff gone_iff [OF assms] dget_mem_iff [OF dok] by force
  also have "card (set (dkeys ?f)) = length ?f" using distinct_card [OF distinct_map_filter [OF dok]] by simp
  finally show ?thesis .
qed

lemma discovery_mut_exact:
  assumes "instances_ok (an_instances d)" "fresh_tokens tok (an_instances d)" "distinct (identifiers ws)"
  shows "discovery_mut owner i provider now tok ws d =
    Inr (d\<lparr>an_instances := discovered_instances owner i provider now tok ws (an_instances d)\<rparr>, length ws,
      length (unknown_workloads i provider ws (an_instances d)),
      length (filter (\<lambda>(k, v). of_parent i v \<and> workload_key v \<notin> reported provider ` set ws) (an_instances d)))"
proof -
  let ?m = "an_instances d"
  have dok: "dict_ok ?m" using assms(1) unfolding instances_ok_def by (blast intro: dict_all_ok)
  have known: "k \<in> set (dkeys ?m)" if "dget (existing_of i ?m) key = Some k" for key k
  proof -
    have "dget ?m k \<noteq> None" using that dget_existing [OF assms(1)] by auto
    then show ?thesis unfolding dget_None_iff by blast
  qed
  have "snd (enter_workloads owner i provider now tok (existing_of i ?m) 0 ws ?m) = length (unknown_workloads i provider ws ?m)"
    using enter_keys [of "existing_of i ?m" ?m tok 0 owner i provider now ws] known assms(2) unfolding enters_new_unknown [OF assms(1)]
    by (simp add: fresh_tokens_def)
  then show ?thesis using discovery_list [OF assms, of provider i now owner]
    by (simp add: discovery_mut_def Let_def case_prod_unfold length_gone [OF assms(1)])
qed

definition distinct_report :: "(json \<Rightarrow> string) \<Rightarrow> discovery_env \<Rightarrow> string \<Rightarrow> bool" where
  "distinct_report r e i \<longleftrightarrow> (case rbind (de_read e i) (rmap (normalize_workload r)) of Inl _ \<Rightarrow> True | Inr ws \<Rightarrow> distinct (identifiers ws))"

text \<open>
  Property C25: a refresh that succeeds gives every record of the device what was reported for its workload or marks it
  stale, appends one record for every workload that was unknown, in the reported order, and changes nothing else; its
  counts are those of the report, of the new records and of the stale ones.
\<close>

theorem discovery_exact:
  assumes "discover_device r e i d = (Inr (n, created, old), d')" and "distinct_report r e i"
    and "instances_ok (an_instances d)" and "fresh_tokens (de_token e) (an_instances d)"
  shows "\<exists>v p ws. discovery_parent (de_driver e) i d = Inr (v, p) \<and> rbind (de_read e i) (rmap (normalize_workload r)) = Inr ws \<and>
    d' = d\<lparr>an_instances := discovered_instances (getn v ''ownerId'') i (provider_name p) (de_now e) (de_token e) ws (an_instances d)\<rparr> \<and>
    n = length ws \<and> created = length (unknown_workloads i (provider_name p) ws (an_instances d)) \<and>
    old = length (filter (\<lambda>(k, u). of_parent i u \<and> workload_key u \<notin> reported (provider_name p) ` set ws) (an_instances d))"
  using assms by (auto simp: discover_device_def distinct_report_def discovery_mut_exact split: sum.splits prod.splits)

section \<open>Records stay unique\<close>

definition workload_ok :: "doc \<Rightarrow> bool" where
  "workload_ok w \<longleftrightarrow> dict_ok w \<and> dget w ''provider'' = None \<and> dget w ''parentDeviceId'' = None \<and> dget w ''id'' = None \<and>
    dget w ''providerInstanceId'' \<noteq> None"

lemma normalize_workload_ok: "normalize_workload r w = Inr v \<Longrightarrow> workload_ok v"
  using normalize_workload_keys [of r w v] by (auto simp: workload_ok_def)

lemma reported_workloads_ok: "rmap (normalize_workload r) xs = Inr ws \<Longrightarrow> w \<in> set ws \<Longrightarrow> workload_ok w"
  by (induction xs arbitrary: ws) (auto simp: rbind_Inr_iff dest: normalize_workload_ok)

lemma dget_found_now:
  assumes "dict_ok w"
  shows "dget (found_now owner now w v) k =
    (if k = ''lastDiscoveryError'' then None else if k = ''ownerId'' then Some owner else if k = ''discoveryState'' then Some (JStr ''current'')
     else if k = ''lastDiscoveredAt'' \<or> k = ''lastDiscoveryAttemptAt'' then Some (JInt now)
     else case dget w k of Some x \<Rightarrow> Some x | None \<Rightarrow> dget v k)"
  using assms by (simp add: found_now_def dget_doc_update)

lemma dget_stale: "dget (stale now v) k = (if k = ''discoveryState'' then Some (JStr ''stale'')
    else if k = ''lastDiscoveryAttemptAt'' then Some (JInt now) else dget v k)"
  by (simp add: stale_def dget_doc_update)

lemma dget_unavailable: "dget (unavailable now msg v) k = (if k = ''discoveryState'' then Some (JStr ''unavailable'')
    else if k = ''lastDiscoveryAttemptAt'' then Some (JInt now) else if k = ''lastDiscoveryError'' then Some (JStr msg) else dget v k)"
  by (simp add: unavailable_def dget_doc_update)

text \<open>What identifies a record: its identifier, its device and its workload.\<close>

definition identity :: "doc \<Rightarrow> json \<times> json \<times> json \<times> json" where
  "identity v = (getn v ''id'', getn v ''parentDeviceId'', workload_key v)"

lemma identity_stale [simp]: "identity (stale now v) = identity v"
  by (simp add: identity_def workload_key_def getn_def dget_stale)

lemma identity_unavailable [simp]: "identity (unavailable now msg v) = identity v"
  by (simp add: identity_def workload_key_def getn_def dget_unavailable)

lemma identity_found: "workload_ok w \<Longrightarrow> reported provider w = workload_key v \<Longrightarrow> identity (found_now owner now w v) = identity v"
  by (auto simp: identity_def workload_key_def getn_def dget_found_now workload_ok_def reported_def split: option.splits)

lemma identity_new: "workload_ok w \<Longrightarrow>
    identity (found_now owner now w (new_instance owner i provider now t)) = (JStr t, JStr i, reported provider w)"
  by (auto simp: identity_def workload_key_def getn_def dget_found_now workload_ok_def reported_def new_instance_def split: option.splits)

lemma identity_refreshed:
  assumes "\<forall>w\<in>set ws. workload_ok w"
  shows "identity (refreshed owner provider now ws v) = identity v"
proof (cases "find (\<lambda>w. reported provider w = workload_key v) ws")
  case None
  then show ?thesis by (simp add: refreshed_def)
next
  case (Some w)
  then have "w \<in> set ws" "reported provider w = workload_key v" by (auto simp: find_Some_iff)
  then show ?thesis using Some assms identity_found by (simp add: refreshed_def)
qed

lemma identity_simps: "fst (identity v) = getn v ''id''" "fst (snd (identity v)) = getn v ''parentDeviceId''" "snd (snd (identity v)) = workload_key v"
  by (simp_all add: identity_def)

lemma instances_ok_iff: "instances_ok m \<longleftrightarrow> dict_ok m \<and> (\<forall>k v. dget m k = Some v \<longrightarrow> fst (identity v) = JStr k) \<and>
    (\<forall>i k v k' v'. dget m k = Some v \<longrightarrow> dget m k' = Some v' \<longrightarrow> fst (snd (identity v)) = JStr i \<longrightarrow> snd (identity v) = snd (identity v') \<longrightarrow> k = k')"
proof -
  have "(\<forall>i k v k' v'. dget m k = Some v \<and> dget m k' = Some v' \<and> of_parent i v \<and> of_parent i v' \<and> workload_key v = workload_key v' \<longrightarrow> k = k') \<longleftrightarrow>
    (\<forall>i k v k' v'. dget m k = Some v \<longrightarrow> dget m k' = Some v' \<longrightarrow> fst (snd (identity v)) = JStr i \<longrightarrow> snd (identity v) = snd (identity v') \<longrightarrow> k = k')"
    by (intro iff_allI) (auto simp: identity_def of_parent_def)
  then show ?thesis unfolding instances_ok_def dict_all_def identity_simps by (simp only: conj_assoc)
qed

lemma instances_ok_same:
  assumes "instances_ok m" "dkeys m' = dkeys m" "\<And>k v. dget m k = Some v \<Longrightarrow> \<exists>v'. dget m' k = Some v' \<and> identity v' = identity v"
  shows "instances_ok m'"
proof -
  have prev: "\<exists>v. dget m k = Some v \<and> identity v' = identity v" if "dget m' k = Some v'" for k v'
  proof -
    have "dget m k \<noteq> None" using that assms(2) by (metis dget_None_iff option.distinct(1))
    then show ?thesis using assms(3) [of k] that by auto
  qed
  show ?thesis unfolding instances_ok_iff
  proof (intro conjI allI impI)
    show "dict_ok m'" using assms(1,2) unfolding instances_ok_iff by simp
  next
    fix k v
    assume "dget m' k = Some v"
    then show "fst (identity v) = JStr k" using prev assms(1) unfolding instances_ok_iff by metis
  next
    fix i k v k' v'
    assume a: "dget m' k = Some v" "dget m' k' = Some v'" "fst (snd (identity v)) = JStr i" "snd (identity v) = snd (identity v')"
    obtain u where u: "dget m k = Some u" "identity v = identity u" using prev [OF a(1)] by blast
    obtain u' where u': "dget m k' = Some u'" "identity v' = identity u'" using prev [OF a(2)] by blast
    show "k = k'" using assms(1) u u' a(3,4) unfolding instances_ok_iff by metis
  qed
qed

lemma instances_ok_add:
  assumes "instances_ok m" "k \<notin> set (dkeys m)" "identity v = (JStr k, JStr i, key)"
    "\<And>k' v'. dget m k' = Some v' \<Longrightarrow> of_parent i v' \<Longrightarrow> workload_key v' \<noteq> key"
  shows "instances_ok (m @ [(k, v)])"
proof -
  have "dget m k = None" using assms(2) by (simp only: dget_None_iff not_False_eq_True)
  then have get: "dget (m @ [(k, v)]) k' = (if k' = k then Some v else dget m k')" for k' by (auto simp: map_add_def split: option.split)
  have other: "snd (identity v') \<noteq> snd (identity v)" if "dget m k' = Some v'" for k' v'
    using assms(4) [OF that] assms(3) by (auto simp: identity_def of_parent_def)
  have "dict_ok (m @ [(k, v)])" using assms(1,2) unfolding instances_ok_iff by simp
  moreover have "fst (identity u) = JStr k'" if "dget (m @ [(k, v)]) k' = Some u" for k' u
    using that assms(1,3) unfolding instances_ok_iff get by (metis fst_conv option.inject)
  moreover have "k1 = k2" if "dget (m @ [(k, v)]) k1 = Some u1" "dget (m @ [(k, v)]) k2 = Some u2"
    "fst (snd (identity u1)) = JStr j" "snd (identity u1) = snd (identity u2)" for j k1 u1 k2 u2
    using that assms(1) other unfolding instances_ok_iff get by (metis option.inject)
  ultimately show ?thesis unfolding instances_ok_iff by blast
qed

lemma instances_ok_new:
  assumes "instances_ok m" "fresh_tokens tok m" "distinct (identifiers us)" "\<forall>w\<in>set us. workload_ok w"
    and "\<forall>w\<in>set us. \<forall>k v. dget m k = Some v \<longrightarrow> of_parent i v \<longrightarrow> workload_key v \<noteq> reported provider w"
  shows "instances_ok (m @ map (\<lambda>(n, w). (tok n, found_now owner now w (new_instance owner i provider now (tok n)))) (enumerate 0 us))"
  using assms(3-)
proof (induction us rule: rev_induct)
  case Nil
  then show ?case using assms(1) by simp
next
  case (snoc u us)
  let ?F = "\<lambda>n w. found_now owner now w (new_instance owner i provider now (tok n))"
  let ?m = "m @ map (\<lambda>(n, w). (tok n, ?F n w)) (enumerate 0 us)"
  have ok: "instances_ok ?m" using snoc by simp
  have keys: "dkeys ?m = dkeys m @ map tok [0..<length us]" unfolding map_append token_keys by simp
  have inj: "inj tok" and tok: "tok n \<notin> set (dkeys m)" for n using assms(2) by (simp_all add: fresh_tokens_def)
  have "tok (length us) \<notin> set (map tok [0..<length us])" using injD [OF inj] by fastforce
  then have new: "tok (length us) \<notin> set (dkeys ?m)" unfolding keys using tok by simp
  have other: "workload_key v' \<noteq> reported provider u" if "dget ?m k' = Some v'" "of_parent i v'" for k' v'
  proof (cases "dget m k'")
    case (Some v)
    then have "dget m k' = Some v'" using that(1) by (simp add: map_add_def)
    then show ?thesis using snoc.prems(3) that(2) by simp
  next
    case None
    have "dget ?m k' = Some v'" by (rule that(1))
    with None obtain n where n: "find (\<lambda>j. tok j = k') [0..<0 + length us] = Some n" "v' = ?F n (us ! (n - 0))"
      unfolding map_of_append map_add_def map_of_tokens by (auto split: option.splits)
    then have "n < length us" by (auto simp: find_Some_iff)
    then have w: "us ! n \<in> set us" "v' = ?F n (us ! n)" using n(2) by simp_all
    let ?w = "us ! n"
    have "workload_key v' = reported provider ?w" using identity_new [of ?w owner now i provider "tok n"] snoc.prems(2) w
      by (simp add: identity_def)
    then show ?thesis using snoc.prems(1) w(1) by (force simp: reported_def)
  qed
  have "identity (?F (length us) u) = (JStr (tok (length us)), JStr i, reported provider u)" using identity_new snoc.prems(2) by simp
  from instances_ok_add [OF ok new this other] show ?case by (simp add: enumerate_append_eq)
qed

lemma instances_ok_discovered:
  assumes "instances_ok m" "fresh_tokens tok m" "distinct (identifiers ws)" "\<forall>w\<in>set ws. workload_ok w"
  shows "instances_ok (discovered_instances owner i provider now tok ws m)"
proof -
  let ?m = "dmap (\<lambda>v. if of_parent i v then refreshed owner provider now ws v else v) m"
  let ?u = "unknown_workloads i provider ws m"
  have same: "\<exists>v'. dget ?m k = Some v' \<and> identity v' = identity v" if "dget m k = Some v" for k v
    using that identity_refreshed [OF assms(4)] by simp
  have ok: "instances_ok ?m" by (rule instances_ok_same [OF assms(1)]) (use same in simp_all)
  have fresh: "fresh_tokens tok ?m" using assms(2) unfolding fresh_tokens_def dkeys_dmap .
  have dist: "distinct (identifiers ?u)" using assms(3) by (simp add: unknown_workloads_def distinct_map_filter)
  have new: "workload_key v' \<noteq> reported provider w" if "w \<in> set ?u" "dget ?m k = Some v'" "of_parent i v'" for w k v'
  proof -
    have "dget m k \<noteq> None" using that(2) by auto
    then obtain v where v: "dget m k = Some v" by blast
    then have "identity v' = identity v" using same that(2) by fastforce
    then show ?thesis using that(1,3) dget_mem [OF v] by (auto simp: identity_def of_parent_def unknown_workloads_def)
  qed
  have "\<forall>w\<in>set ?u. workload_ok w" using assms(4) by (simp add: unknown_workloads_def)
  from instances_ok_new [OF ok fresh dist this] new show ?thesis unfolding discovered_instances_def by blast
qed

text \<open>
  The transactions that change workload records: a discovery enters what it read, possibly long before, or marks a
  failure; any other operation changes fields that identify nothing; a deleted device takes its records along.
\<close>

inductive compute_step :: "(json \<Rightarrow> string) \<Rightarrow> inventory_doc \<Rightarrow> inventory_doc \<Rightarrow> bool" for r where
  entered: "rmap (normalize_workload r) xs = Inr ws \<Longrightarrow> distinct (identifiers ws) \<Longrightarrow> fresh_tokens tok (an_instances d) \<Longrightarrow>
    discovery_mut owner i provider now tok ws d = Inr (d', c) \<Longrightarrow> compute_step r d d'"
| failed: "compute_step r d (mark_discovery_failure e i x d)"
| edited: "dget (an_instances d) k = Some v \<Longrightarrow> identity v' = identity v \<Longrightarrow> compute_step r d (d\<lparr>an_instances := dput k v' (an_instances d)\<rparr>)"
| deleted: "compute_step r d (d\<lparr>an_instances := dfilter (\<lambda>k v. \<not> of_parent i v) (an_instances d)\<rparr>)"

lemma instances_ok_failure: "instances_ok (an_instances d) \<Longrightarrow> instances_ok (an_instances (mark_discovery_failure e i x d))"
proof (rule instances_ok_same, assumption)
  show "dkeys (an_instances (mark_discovery_failure e i x d)) = dkeys (an_instances d)" by (simp add: mark_discovery_failure_def)
next
  fix k v
  assume "dget (an_instances d) k = Some v"
  then show "\<exists>v'. dget (an_instances (mark_discovery_failure e i x d)) k = Some v' \<and> identity v' = identity v"
    by (cases "of_parent i v") (auto simp: mark_discovery_failure_def)
qed

lemma instances_ok_filter:
  assumes "instances_ok m"
  shows "instances_ok (dfilter P m)"
proof -
  have ok: "dict_ok m" using assms unfolding instances_ok_iff by blast
  have sub: "dget m k = Some v" if "dget (dfilter P m) k = Some v" for k v
    using that dget_dfilter [OF ok, of P k] by (auto split: option.splits if_splits)
  show ?thesis using assms sub dict_ok_dfilter [OF ok] unfolding instances_ok_iff by meson
qed

lemma compute_step_ok: "compute_step r d d' \<Longrightarrow> instances_ok (an_instances d) \<Longrightarrow> instances_ok (an_instances d')"
proof (induction rule: compute_step.induct)
  case (entered xs ws tok d owner i provider now d' c)
  then have "d' = d\<lparr>an_instances := discovered_instances owner i provider now tok ws (an_instances d)\<rparr>"
    by (simp add: discovery_mut_exact)
  then show ?case using instances_ok_discovered [OF entered(5,3,2)] reported_workloads_ok [OF entered(1)] by simp
next
  case (failed d e i x)
  then show ?case by (rule instances_ok_failure)
next
  case (edited d k v v')
  have "k \<in> set (dkeys (an_instances d))" using edited(1) dget_None_iff [of "an_instances d" k] by fastforce
  then have "dkeys (dput k v' (an_instances d)) = dkeys (an_instances d)" by (simp only: dkeys_dput_if if_True)
  then have "instances_ok (dput k v' (an_instances d))" using edited by (intro instances_ok_same [OF edited(3)]) auto
  then show ?case by simp
next
  case (deleted d i)
  then show ?case using instances_ok_filter by simp
qed

text \<open>
  Through every run of discoveries, failures, edits and deletions, however late a discovery enters what it
  read, records are keyed by their identifier and a device has one record for a workload.
\<close>

theorem compute_run_invariant:
  assumes "(compute_step r)\<^sup>*\<^sup>* d0 d" and "instances_ok (an_instances d0)"
  shows "dict_ok (an_instances d) \<and> (\<forall>k v. dget (an_instances d) k = Some v \<longrightarrow> getn v ''id'' = JStr k) \<and>
    (\<forall>i k v k' v'. dget (an_instances d) k = Some v \<and> dget (an_instances d) k' = Some v' \<and> of_parent i v \<and> of_parent i v' \<and>
       workload_key v = workload_key v' \<longrightarrow> k = k')"
proof -
  have "instances_ok (an_instances d)" using assms by (induction rule: rtranclp_induct) (auto intro: compute_step_ok)
  then show ?thesis unfolding instances_ok_def dict_all_def by blast
qed

section \<open>Devices do not disturb each other\<close>

definition own_records :: "string \<Rightarrow> (string, doc) dict \<Rightarrow> (string, doc) dict" where
  "own_records i m = dfilter (\<lambda>k v. of_parent i v) m"

lemma own_dmap:
  assumes "\<And>v. of_parent j (f v) \<longleftrightarrow> of_parent j v"
  shows "own_records j (dmap f m) = dmap f (own_records j m)"
  using assms by (induction m) (auto simp: own_records_def dfilter_def dmap_def)

lemma dmap_other:
  assumes "\<And>k v. (k, v) \<in> set m \<Longrightarrow> f v = v"
  shows "dmap f m = m"
  using assms by (induction m) (auto simp: dmap_def)

lemma dmap_same:
  assumes "\<And>k v. (k, v) \<in> set m \<Longrightarrow> f v = g v"
  shows "dmap f m = dmap g m"
  using assms by (auto simp: dmap_def)

lemma own_mem: "(k, v) \<in> set (own_records j m) \<longleftrightarrow> (k, v) \<in> set m \<and> of_parent j v"
  by (auto simp: own_records_def dfilter_def)

lemma of_parent_identity: "identity v = identity u \<Longrightarrow> of_parent j v = of_parent j u"
  by (simp add: identity_def of_parent_def)

lemma own_discovered:
  assumes "\<forall>w\<in>set ws. workload_ok w"
  shows "own_records j (discovered_instances owner i provider now tok ws m) =
    (if j = i then discovered_instances owner i provider now tok ws (own_records i m) else own_records j m)"
proof -
  let ?f = "\<lambda>v. if of_parent i v then refreshed owner provider now ws v else v"
  let ?new = "\<lambda>m. map (\<lambda>(n, w). (tok n, found_now owner now w (new_instance owner i provider now (tok n)))) (enumerate 0 (unknown_workloads i provider ws m))"
  have f: "of_parent j (?f v) \<longleftrightarrow> of_parent j v" for v using of_parent_identity [OF identity_refreshed [OF assms]] by simp
  have u: "unknown_workloads i provider ws (own_records i m) = unknown_workloads i provider ws m"
    by (auto simp: unknown_workloads_def own_mem intro!: filter_cong)
  have n: "of_parent j v \<longleftrightarrow> j = i" if "(k, v) \<in> set (?new m)" for k v
  proof -
    let ?u = "unknown_workloads i provider ws m"
    obtain a where a: "a < length ?u" and w: "v = found_now owner now (?u ! a) (new_instance owner i provider now (tok a))"
      using \<open>(k, v) \<in> set (?new m)\<close> by (auto simp: in_set_enumerate_eq)
    have "?u ! a \<in> set ?u" using a by (rule nth_mem)
    then have "workload_ok (?u ! a)" using assms by (simp add: unknown_workloads_def)
    from identity_new [OF this, of owner now i provider "tok a"] show ?thesis unfolding w by (auto simp: identity_def of_parent_def)
  qed
  have "own_records j (?new m) = (if j = i then ?new m else [])"
  proof -
    have "own_records j xs = (if j = i then xs else [])" if "\<And>k v. (k, v) \<in> set xs \<Longrightarrow> of_parent j v \<longleftrightarrow> j = i" for xs
      using that unfolding own_records_def dfilter_def by (auto simp: filter_id_conv filter_empty_conv)
    from this [OF n] show ?thesis .
  qed
  moreover have "dmap ?f (own_records j m) = own_records j m" if "j \<noteq> i"
    using that by (intro dmap_other) (auto simp: own_mem of_parent_def)
  moreover have "own_records j (xs @ ys) = own_records j xs @ own_records j ys" for xs ys by (simp add: own_records_def dfilter_def)
  ultimately show ?thesis unfolding discovered_instances_def by (simp add: own_dmap [where f = ?f, OF f] u)
qed

lemma own_failure: "own_records j (an_instances (mark_discovery_failure e i x d)) =
    (if j = i then dmap (unavailable (de_now e) (take 300 (de_mask e x))) (own_records i (an_instances d)) else own_records j (an_instances d))"
proof -
  let ?f = "\<lambda>v. if of_parent i v then unavailable (de_now e) (take 300 (de_mask e x)) v else v"
  have f: "of_parent j (?f v) \<longleftrightarrow> of_parent j v" for v using of_parent_identity [OF identity_unavailable] by simp
  have "dmap ?f (own_records i m) = dmap (unavailable (de_now e) (take 300 (de_mask e x))) (own_records i m)" for m
    by (rule dmap_same) (auto simp: own_mem)
  moreover have "dmap ?f (own_records j m) = own_records j m" if "j \<noteq> i" for m
    using that by (intro dmap_other) (auto simp: own_mem of_parent_def)
  ultimately have "dmap ?f (own_records j m) = (if j = i then dmap (unavailable (de_now e) (take 300 (de_mask e x))) (own_records j m) else own_records j m)" for m
    by simp
  then show ?thesis unfolding mark_discovery_failure_def by (simp add: own_dmap [where f = ?f, OF f])
qed

text \<open>What one discovery leaves for the others.\<close>

lemma discover_device_step:
  assumes "instances_ok (an_instances d)" "fresh_tokens (de_token e) (an_instances d)" "distinct_report r e i"
  shows "instances_ok (an_instances (snd (discover_device r e i d))) \<and> co_devices (snd (discover_device r e i d)) = co_devices d \<and>
    set (dkeys (an_instances (snd (discover_device r e i d)))) \<subseteq> set (dkeys (an_instances d)) \<union> range (de_token e) \<and>
    (\<forall>j. j \<noteq> i \<longrightarrow> own_records j (an_instances (snd (discover_device r e i d))) = own_records j (an_instances d))"
proof (cases "discovery_parent (de_driver e) i d")
  case (Inl x)
  then show ?thesis using assms(1) by (simp add: discover_device_def)
next
  case (Inr vp)
  obtain v p where vp: "vp = (v, p)" by (cases vp)
  show ?thesis
  proof (cases "rbind (de_read e i) (rmap (normalize_workload r))")
    case (Inl x)
    then have "discover_device r e i d = (Inl x, mark_discovery_failure e i x d)" using Inr vp by (simp add: discover_device_def)
    then show ?thesis using instances_ok_failure [OF assms(1)] own_failure by (simp add: mark_discovery_failure_def)
  next
    case (Inr ws)
    have ws: "distinct (identifiers ws)" using assms(3) Inr by (simp add: distinct_report_def)
    have wok: "\<forall>w\<in>set ws. workload_ok w" using Inr reported_workloads_ok by (auto simp: rbind_Inr_iff)
    let ?m = "discovered_instances (getn v ''ownerId'') i (provider_name p) (de_now e) (de_token e) ws (an_instances d)"
    have "snd (discover_device r e i d) = d\<lparr>an_instances := ?m\<rparr>"
      using Inr \<open>discovery_parent (de_driver e) i d = Inr vp\<close> vp discovery_mut_exact [OF assms(1,2) ws] by (simp add: discover_device_def)
    moreover have "instances_ok ?m" by (rule instances_ok_discovered [OF assms(1,2) ws wok])
    moreover have "set (dkeys ?m) \<subseteq> set (dkeys (an_instances d)) \<union> range (de_token e)"
      unfolding discovered_instances_def map_append token_keys dkeys_dmap by (auto simp del: set_map simp: image_iff set_map [of "de_token e"])
    ultimately show ?thesis using own_discovered [OF wok] by simp
  qed
qed

text \<open>The outcome for a device is a function of the devices and its own records.\<close>

lemma discover_device_local:
  assumes "instances_ok (an_instances d)" "fresh_tokens (de_token e) (an_instances d)"
    and "instances_ok (an_instances d')" "fresh_tokens (de_token e) (an_instances d')"
    and "distinct_report r e i" "co_devices d = co_devices d'" "own_records i (an_instances d) = own_records i (an_instances d')"
  shows "fst (discover_device r e i d) = fst (discover_device r e i d') \<and>
    own_records i (an_instances (snd (discover_device r e i d))) = own_records i (an_instances (snd (discover_device r e i d')))"
proof -
  have same: "discovery_parent (de_driver e) i d' = discovery_parent (de_driver e) i d"
    using assms(6) by (simp add: discovery_parent_def stored_device_def)
  show ?thesis
  proof (cases "discovery_parent (de_driver e) i d")
    case (Inl x)
    then show ?thesis using same assms(7) by (simp add: discover_device_def)
  next
    case (Inr vp)
    obtain v p where vp: "vp = (v, p)" by (cases vp)
    show ?thesis
    proof (cases "rbind (de_read e i) (rmap (normalize_workload r))")
      case (Inl x)
      then show ?thesis using Inr vp same assms(7) own_failure by (simp add: discover_device_def)
    next
      case (Inr ws)
      have ws: "distinct (identifiers ws)" using assms(5) Inr by (simp add: distinct_report_def)
      have wok: "\<forall>w\<in>set ws. workload_ok w" using Inr reported_workloads_ok by (auto simp: rbind_Inr_iff)
      have u: "unknown_workloads i q ws m = unknown_workloads i q ws (own_records i m)" for q m
        by (auto simp: unknown_workloads_def own_mem intro!: filter_cong)
      have c: "filter (\<lambda>(k, u). of_parent i u \<and> Q u) m = filter (\<lambda>(k, u). Q u) (own_records i m)" for Q and m :: "(string, doc) dict"
        by (auto simp: own_records_def dfilter_def intro!: filter_cong)
      show ?thesis
        using Inr \<open>discovery_parent (de_driver e) i d = Inr vp\<close> vp same discovery_mut_exact [OF assms(1,2) ws] discovery_mut_exact [OF assms(3,4) ws]
          own_discovered [OF wok] u [of _ "an_instances d"] u [of _ "an_instances d'"] assms(7)
        by (simp add: discover_device_def c)
    qed
  qed
qed

definition tokens_apart :: "(string \<Rightarrow> discovery_env) \<Rightarrow> string list \<Rightarrow> (string, doc) dict \<Rightarrow> bool" where
  "tokens_apart es ids m \<longleftrightarrow> (\<forall>i\<in>set ids. fresh_tokens (de_token (es i)) m) \<and>
     (\<forall>i\<in>set ids. \<forall>j\<in>set ids. i \<noteq> j \<longrightarrow> range (de_token (es i)) \<inter> range (de_token (es j)) = {})"

text \<open>
  Property C26: when all devices are refreshed, each has the result and the records it would have if it were refreshed
  alone, whatever fails on the others, and the records of devices that are not refreshed stay as they were.
\<close>

theorem discover_all_isolated:
  assumes "distinct ids" and "instances_ok (an_instances d)" and "tokens_apart es ids (an_instances d)" and "\<forall>i\<in>set ids. distinct_report r (es i) i"
  shows "(\<forall>i\<in>set ids. (i, map_sum (\<lambda>f. take 300 (de_mask (es i) f)) id (fst (discover_device r (es i) i d))) \<in> set (fst (discover_each r es ids d)) \<and>
      own_records i (an_instances (snd (discover_each r es ids d))) = own_records i (an_instances (snd (discover_device r (es i) i d)))) \<and>
    (\<forall>j. j \<notin> set ids \<longrightarrow> own_records j (an_instances (snd (discover_each r es ids d))) = own_records j (an_instances d))"
  using assms
proof (induction "ids" arbitrary: d)
  case Nil
  then show ?case by simp
next
  case (Cons i ids)
  let ?d = "snd (discover_device r (es i) i d)"
  have fresh: "fresh_tokens (de_token (es j)) (an_instances d)" if "j \<in> set (i # ids)" for j
    using Cons.prems(3) that unfolding tokens_apart_def by blast
  have rep: "distinct_report r (es j) j" if "j \<in> set (i # ids)" for j using Cons.prems(4) that by blast
  note st = discover_device_step [OF Cons.prems(2) fresh [OF list.set_intros(1)] rep [OF list.set_intros(1)]]
  have fresh': "fresh_tokens (de_token (es j)) (an_instances ?d)" if "j \<in> set ids" for j
  proof -
    have "j \<noteq> i" using that Cons.prems(1) by auto
    then have "range (de_token (es j)) \<inter> range (de_token (es i)) = {}" using Cons.prems(3) that by (simp add: tokens_apart_def)
    then show ?thesis using st fresh [of j] that unfolding fresh_tokens_def by (simp del: set_map) blast
  qed
  have "tokens_apart es ids (an_instances ?d)" using Cons.prems(3) fresh' by (simp add: tokens_apart_def)
  note IH = Cons.IH [OF _ _ this]
  have loc: "fst (discover_device r (es j) j ?d) = fst (discover_device r (es j) j d) \<and>
    own_records j (an_instances (snd (discover_device r (es j) j ?d))) = own_records j (an_instances (snd (discover_device r (es j) j d)))" if "j \<in> set ids" for j
  proof -
    have "j \<noteq> i" using that Cons.prems(1) by auto
    then show ?thesis using discover_device_local [OF _ fresh' [OF that] Cons.prems(2) fresh [of j] rep [of j]] st that by simp
  qed
  show ?case using IH st loc Cons.prems by (auto simp: Let_def case_prod_unfold id_def)
qed

text \<open>
  A discovery that reads a device while the device is deleted still enters what it read: records of a device that does
  not exist, which no later discovery or deletion reaches.
\<close>

theorem discovery_revives_deleted:
  assumes "dget (co_devices d) i = None" and "own_records i (an_instances d) = []" and "instances_ok (an_instances d)"
    and "fresh_tokens tok (an_instances d)" and "workload_ok w"
  shows "\<exists>d' c v. discovery_mut owner i provider now tok [w] d = Inr (d', c) \<and> dget (co_devices d') i = None \<and>
    dget (an_instances d') (tok 0) = Some v \<and> of_parent i v"
proof -
  have "\<not> of_parent i v" if "(k, v) \<in> set (an_instances d)" for k v using that own_mem [of k v i "an_instances d"] assms(2) by simp
  then have u: "unknown_workloads i provider [w] (an_instances d) = [w]" by (auto simp: unknown_workloads_def)
  have "dget (an_instances d) (tok 0) = None" using assms(4) unfolding dget_None_iff fresh_tokens_def by blast
  then have "dget (discovered_instances owner i provider now tok [w] (an_instances d)) (tok 0) =
      Some (found_now owner now w (new_instance owner i provider now (tok 0)))"
    by (simp add: dget_discovered u)
  moreover have "of_parent i (found_now owner now w (new_instance owner i provider now (tok 0)))"
    using identity_new [OF assms(5), of owner now i provider "tok 0"] by (simp add: identity_def of_parent_def)
  ultimately show ?thesis using assms(1) discovery_mut_exact [OF assms(3,4), of "[w]" owner i provider now] by simp
qed

section \<open>An example\<close>

definition demo_provider :: provider where
  "demo_provider = \<lparr>kp_driver = ''proxmox'', kp_compute = True, kp_updates = True, kp_name = None\<rparr>"

definition demo_discovery :: "string \<Rightarrow> discovery_env" where
  "demo_discovery i = \<lparr>de_driver = \<lambda>_. Inr demo_provider,
     de_read = \<lambda>_. Inr [JObj [(''providerInstanceId'', JStr ''101''), (''type'', JStr ''VM'')]],
     de_mask = \<lambda>_. ''failed'', de_now = 100, de_token = \<lambda>n. i @ replicate (Suc n) (CHR ''t'')\<rparr>"

definition demo_workload :: doc where
  "demo_workload = [(''id'', JStr ''k''), (''parentDeviceId'', JStr ''a''), (''provider'', JStr ''proxmox''), (''providerInstanceId'', JStr ''100'')]"

definition demo_compute :: inventory_doc where
  "demo_compute = \<lparr>an_controllers = [], an_credentials = [], an_instances = [(''k'', demo_workload)],
     co_devices = [(''a'', [(''id'', JStr ''a''), (''ownerId'', JStr ''u'')])], co_jobs = []\<rparr>"

lemma demo_instances: "instances_ok (an_instances demo_compute)"
  by (auto simp: instances_ok_def demo_compute_def dict_all_def demo_workload_def getn_def)

lemma demo_fresh: "fresh_tokens (de_token (demo_discovery i)) (an_instances demo_compute)"
  by (auto simp: fresh_tokens_def demo_discovery_def demo_compute_def inj_on_def append_eq_Cons_conv)

lemma demo_read: "map_sum id identifiers (rbind (de_read (demo_discovery i) i) (rmap (normalize_workload (\<lambda>_. [])))) = Inr [JStr ''101'']"
  by code_simp

lemma demo_report: "distinct_report (\<lambda>_. []) (demo_discovery i) i"
  using demo_read [of i] by (cases "rbind (de_read (demo_discovery i) i) (rmap (normalize_workload (\<lambda>_. [])))") (auto simp: distinct_report_def)

lemma demo_discovered: "fst (discover_device (\<lambda>_. []) (demo_discovery ''a'') ''a'' demo_compute) = Inr (1, 1, 1)"
  by code_simp

theorem discovery_exact_witness:
  "dget (an_instances (snd (discover_device (\<lambda>_. []) (demo_discovery ''a'') ''a'' demo_compute))) ''k'' = Some (stale 100 demo_workload)"
proof -
  let ?r = "discover_device (\<lambda>_. []) (demo_discovery ''a'') ''a'' demo_compute"
  have "?r = (Inr (1, 1, 1), snd ?r)" using demo_discovered by (simp add: prod_eq_iff)
  from discovery_exact [OF this demo_report demo_instances demo_fresh] obtain v p ws
    where p: "rbind (de_read (demo_discovery ''a'') ''a'') (rmap (normalize_workload (\<lambda>_. []))) = Inr ws"
      "snd ?r = demo_compute\<lparr>an_instances := discovered_instances (getn v ''ownerId'') ''a'' (provider_name p) (de_now (demo_discovery ''a''))
        (de_token (demo_discovery ''a'')) ws (an_instances demo_compute)\<rparr>" by blast
  have "identifiers ws = [JStr ''101'']" using demo_read [of "''a''"] p(1) by simp
  then have "find (\<lambda>w. reported (provider_name p) w = workload_key demo_workload) ws = None"
    by (auto simp: find_None_iff reported_def workload_key_def demo_workload_def getn_def)
  then show ?thesis unfolding p(2)
    by (simp add: dget_discovered demo_compute_def refreshed_def demo_discovery_def) (simp add: of_parent_def demo_workload_def getn_def)
qed

theorem compute_run_invariant_witness:
  "dict_ok (an_instances (mark_discovery_failure (demo_discovery ''a'') ''a'' TypeError demo_compute))"
proof -
  have "(compute_step (\<lambda>_. []))\<^sup>*\<^sup>* demo_compute (mark_discovery_failure (demo_discovery ''a'') ''a'' TypeError demo_compute)"
    by (rule r_into_rtranclp) (rule compute_step.failed)
  from compute_run_invariant [OF this demo_instances] show ?thesis by blast
qed

theorem discover_all_isolated_witness:
  "(''a'', Inr (1, 1, 1)) \<in> set (fst (discover_each (\<lambda>_. []) demo_discovery [''b'', ''a''] demo_compute))"
proof -
  have "tokens_apart demo_discovery [''b'', ''a''] (an_instances demo_compute)"
    using demo_fresh by (auto simp: tokens_apart_def demo_discovery_def)
  then show ?thesis using discover_all_isolated [of "[''b'', ''a'']" demo_compute demo_discovery "\<lambda>_. []"] demo_instances demo_report demo_discovered
    by simp
qed

end
