(* ===== verification/ComputeView.thy ===== *)
theory ComputeView
  imports Compute
begin

text \<open>
  What \<open>backend/compute.py\<close> shows of the workloads: Docker projects joined with the allow list of the inventory, the
  public view of a workload with the operations it offers, the list of a user and its summary. The modes, states and
  healths in records are texts where the code looks them up in a set.
\<close>

section \<open>Docker projects\<close>

text \<open>
  \<open>for x in d.get(key) or []\<close> where the body changes the dictionary \<open>x\<close>; \<open>err\<close> is what an element of another type raises.
\<close>

definition over_rows :: "failure \<Rightarrow> (doc \<Rightarrow> doc result) \<Rightarrow> string \<Rightarrow> doc \<Rightarrow> doc result" where
  "over_rows err f key d = (if \<not> truthy (getn d key) then Inr d
     else rbind (items_of (getn d key)) (\<lambda>xs.
       rbind (rmap (\<lambda>x. case x of JObj c \<Rightarrow> rbind (f c) (\<lambda>c'. Inr (JObj c')) | _ \<Rightarrow> Inl err) xs) (\<lambda>ys. Inr (dput key (JArr ys) d))))"

definition rows_of :: "json \<Rightarrow> doc list result" where
  "rows_of v = rbind (items_of v) (rmap obj_of)"

definition hashable :: "json \<Rightarrow> bool" where
  "hashable v = (case v of JArr _ \<Rightarrow> False | JObj _ \<Rightarrow> False | _ \<Rightarrow> True)"

definition project_state :: "string \<Rightarrow> string \<Rightarrow> json" where
  "project_state state summary = JObj [(''state'', JStr state), (''updatesAvailable'', JNull), (''summary'', JStr summary)]"

definition inventory_project_state :: "string \<Rightarrow> json option" where
  "inventory_project_state mode =
     (if mode = ''read_only'' then Some (project_state ''read_only'' ''Update checks are read-only for this inventory project'')
      else if mode = ''build'' then
        Some (project_state ''not_applicable'' ''Registry update availability is not applicable to locally built projects'')
      else None)"

definition unmanaged_state :: json where
  "unmanaged_state = project_state ''unmanaged'' ''Not listed in docker_compose_projects for this inventory host''"

definition not_checked :: json where
  "not_checked = JObj [(''state'', JStr ''not_checked''), (''updatesAvailable'', JNull)]"

definition update_strategy :: "string \<Rightarrow> string" where
  "update_strategy mode = (if mode = ''build'' then ''local_build'' else if mode = ''read_only'' then ''unmanaged'' else mode)"

text \<open>The earlier projects by name; of two with the same name the later one counts.\<close>

definition named_projects :: "doc list \<Rightarrow> (json, doc) dict result" where
  "named_projects ps = (if list_all (\<lambda>p. hashable (getn p ''name'')) ps then Inr (fold (\<lambda>p. dput (getn p ''name'') p) ps []) else Inl TypeError)"

text \<open>An unknown state that no check has set counts as none.\<close>

definition never_checked :: "doc \<Rightarrow> bool" where
  "never_checked prior \<longleftrightarrow> getn prior ''state'' = JStr ''unknown'' \<and> \<not> truthy (getn prior ''lastCheckedAt'') \<and> \<not> truthy (getn prior ''lastJobAt'')"

definition prior_state :: "(json, doc) dict \<Rightarrow> json \<Rightarrow> doc result" where
  "prior_state old name = (case dget old name of None \<Rightarrow> Inr []
     | Some q \<Rightarrow> rbind (sub_obj q ''updateState'') (\<lambda>prior.
         Inr (if never_checked prior then [] else prior)))"

definition approved_mode :: "(string \<times> string) list \<Rightarrow> json \<Rightarrow> string option" where
  "approved_mode approved name = (case name of JStr n \<Rightarrow> dget (rev approved) n | _ \<Rightarrow> None)"

definition managed_fields :: "string \<Rightarrow> doc \<Rightarrow> doc" where
  "managed_fields mode prior = [(''approved'', JBool True), (''managed'', JBool (mode \<in> set [''pull'', ''build''])), (''updateMode'', JStr mode),
     (''updateStrategy'', JStr (update_strategy mode)),
     (''updateState'', case inventory_project_state mode of Some s \<Rightarrow> s | None \<Rightarrow> if prior = [] then not_checked else JObj prior)]"

definition unmanaged_fields :: doc where
  "unmanaged_fields = [(''approved'', JBool False), (''managed'', JBool False), (''updateMode'', JStr ''read_only''),
     (''updateStrategy'', JStr ''unmanaged''), (''updateState'', unmanaged_state)]"

definition reconcile_project :: "(string \<times> string) list \<Rightarrow> string \<Rightarrow> (json, doc) dict \<Rightarrow> doc \<Rightarrow> doc result" where
  "reconcile_project approved target old p = (let name = getn p ''name'' in
     if \<not> hashable name then Inl TypeError
     else rbind (over_rows TypeError (\<lambda>c. Inr (dput ''composeProject'' name (dput ''inventoryHost'' (JStr target) c))) ''containers'' p) (\<lambda>p1.
       let p2 = dput ''inventoryHost'' (JStr target) p1 in
       case approved_mode approved name of
         None \<Rightarrow> Inr (doc_update unmanaged_fields p2)
       | Some mode \<Rightarrow> rbind (prior_state old name) (\<lambda>prior. Inr (doc_update (managed_fields mode prior) p2))))"

text \<open>
  In the view the earlier projects are the discovered ones themselves. Each is read before its own state is
  replaced, so that they are passed as they were makes no difference.
\<close>

definition reconcile_docker_projects :: "controller \<Rightarrow> string \<Rightarrow> doc \<Rightarrow> doc \<Rightarrow> doc result" where
  "reconcile_docker_projects c target previous docker =
     rbind (validate_inventory_host (\<lambda>_. []) (JStr target)) (\<lambda>h.
     rbind (rbind (rows_of (getn previous ''projects'')) named_projects) (\<lambda>old.
     rbind (over_rows AttributeError (reconcile_project (case inventory_host c h of None \<Rightarrow> [] | Some x \<Rightarrow> ih_projects x) target old) ''projects'' docker) (\<lambda>d1.
     over_rows TypeError (\<lambda>x. Inr (dput ''inventoryHost'' (JStr target) x)) ''containers'' d1)))"

section \<open>The public view\<close>

text \<open>\<open>d.get(v)\<close> for a dictionary with texts as keys\<close>

definition find_by :: "json \<Rightarrow> (string, 'a) dict \<Rightarrow> 'a option result" where
  "find_by v m = (if \<not> hashable v then Inl TypeError else Inr (case v of JStr i \<Rightarrow> dget m i | _ \<Rightarrow> None))"

definition managed_by_ansible :: "doc \<Rightarrow> bool" where
  "managed_by_ansible m \<longleftrightarrow> getn m ''enabled'' = JBool True \<and> truthy (getn m ''controllerId'') \<and> truthy (getn m ''inventoryHost'')"

text \<open>The mapping of a workload with its controller and target.\<close>

record mapped_view =
  mv_managed :: bool
  mv_controller :: "controller option"
  mv_target :: string
  mv_upkeep :: doc

definition mapped_view_of :: "(string, controller) dict \<Rightarrow> doc \<Rightarrow> mapped_view result" where
  "mapped_view_of cs m = rbind (find_by (getn m ''controllerId'') cs) (\<lambda>c. Inr
     \<lparr>mv_managed = managed_by_ansible m, mv_controller = c, mv_target = text_of (getn m ''inventoryHost''), mv_upkeep = maintenance_mapping m\<rparr>)"

definition capable :: "mapped_view \<Rightarrow> string \<Rightarrow> bool" where
  "capable x op \<longleftrightarrow> mv_managed x \<and> operation_supported_by_host (mv_controller x) op (mv_target x)"

text \<open>An operation that is no text is looked up among the approved ones of an enabled controller.\<close>

definition eligible :: "mapped_view \<Rightarrow> string \<Rightarrow> bool result" where
  "eligible x field = (let v = getn (mv_upkeep x) field in
     if \<not> mv_managed x \<or> \<not> truthy v then Inr False
     else (case v of JStr op \<Rightarrow> Inr (operation_is_allowed_for_target (mv_controller x) op (mv_target x))
       | _ \<Rightarrow> if hashable v then Inr False
              else (case mv_controller x of None \<Rightarrow> Inr False | Some c \<Rightarrow> if ct_enabled c then Inl TypeError else Inr False)))"

definition for_project :: "controller \<Rightarrow> string \<Rightarrow> bool" where
  "for_project c op \<longleftrightarrow> (case dget (ct_approvals c) op of None \<Rightarrow> False | Some a \<Rightarrow> ap_project a = Some ''docker_project'')"

definition offered_update :: "controller \<Rightarrow> string \<Rightarrow> string \<Rightarrow> bool" where
  "offered_update c target op \<longleftrightarrow> operation_is_allowed_for_target (Some c) op target \<and> for_project c op"

definition legacy_mode :: "controller \<Rightarrow> string \<Rightarrow> string \<Rightarrow> string \<Rightarrow> string list \<Rightarrow> string list" where
  "legacy_mode c target mode op modes = (if mode \<notin> set modes \<and> offered_update c target op then modes @ [mode] else modes)"

definition docker_modes :: "mapped_view \<Rightarrow> string list" where
  "docker_modes x = (case mv_controller x of None \<Rightarrow> []
     | Some c \<Rightarrow> if mv_managed x \<and> capable x ''docker_discovery'' \<and> getn (mv_upkeep x) ''dockerUpdateOperation'' = JStr ''docker_update''
       then legacy_mode c (mv_target x) ''build'' ''docker_update_local_build'' (legacy_mode c (mv_target x) ''pull'' ''docker_update_pull''
         (if offered_update c (mv_target x) ''docker_update''
          then filter (\<lambda>m. m \<in> set [''pull'', ''build'']) (case dget (ct_approvals c) ''docker_update'' of None \<Rightarrow> [] | Some a \<Rightarrow> ap_modes a) else []))
       else [])"

text \<open>A mapping that became invalid keeps what was discovered.\<close>

definition view_docker :: "mapped_view \<Rightarrow> doc \<Rightarrow> doc \<Rightarrow> doc result" where
  "view_docker x m v = (case (mv_controller x, getn m ''inventoryHost'', getn v ''docker'') of
     (Some c, JStr target, JObj docker) \<Rightarrow> if \<not> capable x ''docker_discovery'' then Inr v
       else (case reconcile_docker_projects c target docker docker of
         Inl (ValueError _) \<Rightarrow> Inr v | Inl e \<Rightarrow> Inl e | Inr d \<Rightarrow> Inr (dput ''docker'' (JObj d) v))
   | _ \<Rightarrow> Inr v)"

definition has_active_job :: "json \<Rightarrow> (string, doc) dict \<Rightarrow> bool" where
  "has_active_job i jobs \<longleftrightarrow> list_ex (\<lambda>j. getn j ''computeInstanceId'' = i \<and> getn j ''state'' \<in> set [JStr ''queued'', JStr ''running'']) (dvals jobs)"

definition capabilities :: "mapped_view \<Rightarrow> json" where
  "capabilities x = JObj [(''osMaintenance'', JBool (capable x ''os_check'')), (''dockerMaintenance'', JBool (capable x ''docker_discovery'')),
     (''applianceHealth'', JBool (capable x ''appliance_health''))]"

definition project_checks :: "mapped_view \<Rightarrow> bool" where
  "project_checks x = (case (mv_controller x, getn (mv_upkeep x) ''dockerCheckOperation'') of (Some c, JStr op) \<Rightarrow> for_project c op | _ \<Rightarrow> False)"

definition mapping_view :: "mapped_view \<Rightarrow> doc \<Rightarrow> bool \<Rightarrow> doc result" where
  "mapping_view x m busy =
     rbind (eligible x ''osCheckOperation'') (\<lambda>os_check. rbind (eligible x ''osUpdateOperation'') (\<lambda>os_update.
     rbind (if truthy (getn (mv_upkeep x) ''dockerDiscoveryEnabled'') then eligible x ''dockerDiscoveryOperation'' else Inr False) (\<lambda>discovery.
     rbind (eligible x ''dockerCheckOperation'') (\<lambda>check. rbind (eligible x ''applianceHealthOperation'') (\<lambda>health. Inr
       [(''enabled'', JBool (mv_managed x)), (''controllerId'', getn m ''controllerId''), (''inventoryHost'', getn m ''inventoryHost''),
        (''maintenance'', JObj (mv_upkeep x)), (''capabilities'', capabilities x), (''updateCheckEligible'', JBool os_check),
        (''updateEligible'', JBool os_update), (''dockerDiscoveryEligible'', JBool discovery),
        (''dockerUpdateCheckEligible'', JBool (check \<and> project_checks x)), (''dockerUpdateModes'', JArr (map JStr (docker_modes x))),
        (''applianceHealthEligible'', JBool health), (''maintenanceActive'', JBool busy)])))))"

definition public_instance :: "inventory_doc \<Rightarrow> doc \<Rightarrow> doc result" where
  "public_instance d v =
     rbind (find_by (getn v ''parentDeviceId'') (co_devices d)) (\<lambda>parent. rbind (sub_obj v ''ansible'') (\<lambda>m.
     rbind (mapped_view_of (an_controllers d) m) (\<lambda>x.
     let v1 = dput ''parentDevice'' (parent_public parent) v; v2 = (if mv_managed x then clear_results (mv_controller x) (mv_target x) v1 else v1) in
     rbind (view_docker x m v2) (\<lambda>v3. rbind (mapping_view x m (has_active_job (getn v ''id'') (co_jobs d))) (\<lambda>a.
     Inr (dput ''ansible'' (JObj a) v3))))))"

section \<open>The list of a user\<close>

definition lower_name :: "doc \<Rightarrow> string result" where
  "lower_name v = (let n = py_or (getn v ''name'') (JStr []) in case n of JStr s \<Rightarrow> Inr (lower s) | _ \<Rightarrow> Inl AttributeError)"

definition list_instances :: "bool \<Rightarrow> string \<Rightarrow> inventory_doc \<Rightarrow> doc list result" where
  "list_instances admin owner d = rbind (rmap (public_instance d) (filter (visible_to admin owner) (dvals (an_instances d)))) (\<lambda>vs.
     rbind (rmap lower_name vs) (\<lambda>ns.
     Inr (map snd (sort_key (\<lambda>(n, v). (text_of (getn v ''type''), n, text_of (getn v ''id''))) (zip ns vs)))))"

section \<open>The summary\<close>

definition host_key :: "(json \<Rightarrow> string) \<Rightarrow> doc \<Rightarrow> json \<times> string" where
  "host_key r v = (getn v ''parentDeviceId'', strip (str_or_empty r (getn v ''node'')))"

definition summary_hosts :: "(json \<Rightarrow> string) \<Rightarrow> doc list \<Rightarrow> (json \<times> string, json) dict" where
  "summary_hosts r vs = fold (\<lambda>v m. if truthy (getn v ''parentDeviceId'') then dput (host_key r v) (getn v ''parentDevice'') m else m) vs []"

definition host_online :: "json \<Rightarrow> json" where
  "host_online parent = (case parent of JObj p \<Rightarrow> (case getn p ''state'' of
       JObj s \<Rightarrow> (case dget s ''confirmedOnline'' of Some v \<Rightarrow> v | None \<Rightarrow> getn s ''online'') | _ \<Rightarrow> JNull)
   | _ \<Rightarrow> JNull)"

definition has_healthcheck :: "doc \<Rightarrow> bool option" where
  "has_healthcheck c = (case getn c ''hasHealthcheck'' of JBool b \<Rightarrow> Some b
     | _ \<Rightarrow> if getn c ''health'' \<in> set [JStr ''healthy'', JStr ''unhealthy'', JStr ''starting''] then Some True
            else if getn c ''health'' \<in> set [JStr ''no_healthcheck'', JStr ''none''] then Some False else None)"

definition docker_data_current :: "doc \<Rightarrow> bool result" where
  "docker_data_current v = rbind (sub_obj v ''dockerDiscoveryState'') (\<lambda>s. Inr
     (getn v ''discoveryState'' \<notin> set [JStr ''stale'', JStr ''unavailable''] \<and>
      getn s ''state'' \<notin> set [JStr ''failed'', JStr ''unreachable'', JStr ''unknown'', JStr ''incomplete'']))"

definition record_containers :: "doc \<Rightarrow> doc list result" where
  "record_containers v = rbind (sub_obj v ''docker'') (\<lambda>docker. rbind (rows_of (getn docker ''containers'')) (\<lambda>direct.
     rbind (rows_of (getn docker ''projects'')) (\<lambda>ps. rbind (rmap (\<lambda>p. rows_of (getn p ''containers'')) ps) (\<lambda>xs. Inr (direct @ concat xs)))))"

text \<open>
  The code collects the identities of the containers in current records; each container of the list is an object of
  its own in one record, so it is current when that record is.
\<close>

definition record_rows :: "doc \<Rightarrow> (bool \<times> doc) list result" where
  "record_rows v = rbind (docker_data_current v) (\<lambda>b. rbind (record_containers v) (\<lambda>cs. Inr (map (Pair b) cs)))"

definition known_exit :: "doc \<Rightarrow> int option" where
  "known_exit c = (case getn c ''exitCode'' of JInt n \<Rightarrow> Some n | _ \<Rightarrow> None)"

definition lifecycle_unknown :: "doc \<Rightarrow> bool" where
  "lifecycle_unknown c =
     (if getn c ''state'' \<notin> set [JStr ''stopped'', JStr ''exited''] then False
      else (case known_exit c of
        Some n \<Rightarrow> if n \<noteq> 0 \<or> getn c ''oneShot'' = JBool True then False else getn c ''oneShot'' \<noteq> JBool False
      | None \<Rightarrow> getn c ''oneShot'' \<noteq> JBool False))"

definition running_health :: "string \<Rightarrow> bool \<times> doc \<Rightarrow> bool" where
  "running_health health x = (case x of (current, c) \<Rightarrow>
     current \<and> getn c ''state'' = JStr ''running'' \<and> has_healthcheck c = Some True \<and> getn c ''health'' = JStr health)"

definition unknown_container :: "bool \<times> doc \<Rightarrow> bool" where
  "unknown_container x = (case x of (current, c) \<Rightarrow>
     \<not> current \<or> getn c ''state'' = JStr ''unknown'' \<or> getn c ''state'' = JStr ''running'' \<and> has_healthcheck c = None \<or> lifecycle_unknown c)"

record compute_summary =
  su_hosts :: nat
  su_online :: nat
  su_offline :: nat
  su_unknown_hosts :: nat
  su_workloads :: nat
  su_running :: nat
  su_stopped :: nat
  su_containers :: nat
  su_healthy :: nat
  su_unhealthy :: nat
  su_starting :: nat
  su_unchecked :: nat
  su_unknown :: nat
  su_needs_updates :: nat

definition count_if :: "('a \<Rightarrow> bool) \<Rightarrow> 'a list \<Rightarrow> nat" where
  "count_if P xs = length (filter P xs)"

definition update_due :: "doc \<Rightarrow> bool result" where
  "update_due v = rbind (sub_obj v ''updateState'') (\<lambda>s. Inr (getn s ''state'' \<in> set [JStr ''updates_available'', JStr ''reboot_required'']))"

definition summary_of :: "(json \<Rightarrow> string) \<Rightarrow> doc list \<Rightarrow> compute_summary result" where
  "summary_of r vs = (let hosts = map host_online (dvals (summary_hosts r vs)) in
     rbind (rmap record_rows vs) (\<lambda>rows. rbind (rmap update_due vs) (\<lambda>due. let cs = concat rows in Inr
     \<lparr>su_hosts = length hosts, su_online = count_if (\<lambda>o'. o' = JBool True) hosts, su_offline = count_if (\<lambda>o'. o' = JBool False) hosts,
      su_unknown_hosts = count_if (\<lambda>o'. o' = JNull) hosts, su_workloads = length vs,
      su_running = count_if (\<lambda>v. getn v ''status'' = JStr ''running'') vs,
      su_stopped = count_if (\<lambda>v. getn v ''status'' \<in> set [JStr ''stopped'', JStr ''exited'']) vs, su_containers = length cs,
      su_healthy = count_if (running_health ''healthy'') cs, su_unhealthy = count_if (running_health ''unhealthy'') cs,
      su_starting = count_if (running_health ''starting'') cs,
      su_unchecked = count_if (\<lambda>(current, c). has_healthcheck c = Some False) cs, su_unknown = count_if unknown_container cs,
      su_needs_updates = count_if id due\<rparr>)))"

definition compute_summary_for :: "(json \<Rightarrow> string) \<Rightarrow> bool \<Rightarrow> string \<Rightarrow> inventory_doc \<Rightarrow> compute_summary result" where
  "compute_summary_for r admin owner d = rbind (list_instances admin owner d) (summary_of r)"

end
