(* ===== verification/AnsibleSafety.thy ===== *)
theory AnsibleSafety
  imports AnsibleControl
begin

text \<open>
  What the Ansible controller of \<open>backend/ansible_integration.py\<close> guarantees: the hosts of a group are those of all groups
  below it, a command runs only an approved playbook against an approved host, what is offered is what can run, and
  a workload shows only results of operations its host is capable of.
\<close>

section \<open>The hosts of a group\<close>

definition child_of :: "(json \<Rightarrow> string) \<Rightarrow> doc \<Rightarrow> (string \<times> string) set" where
  "child_of r payload = {(g, c). \<exists>hs cs. group_of r payload g = Inr (hs, cs) \<and> c \<in> set cs}"

definition hosts_below :: "(json \<Rightarrow> string) \<Rightarrow> doc \<Rightarrow> string \<Rightarrow> string set" where
  "hosts_below r payload g = {x. \<exists>g' hs cs. (g, g') \<in> (child_of r payload)\<^sup>* \<and> group_of r payload g' = Inr (hs, cs) \<and> x \<in> set hs}"

lemma hosts_below_step:
  assumes "group_of r payload g = Inr (hs, cs)"
  shows "hosts_below r payload g = set hs \<union> (\<Union>c\<in>set cs. hosts_below r payload c)"
proof -
  have "(g, c) \<in> child_of r payload \<longleftrightarrow> c \<in> set cs" for c using assms by (simp add: child_of_def)
  then have "(g, x) \<in> (child_of r payload)\<^sup>* \<longleftrightarrow> x = g \<or> (\<exists>c\<in>set cs. (c, x) \<in> (child_of r payload)\<^sup>*)" for x
    by (auto elim: converse_rtranclE intro: converse_rtrancl_into_rtrancl)
  then show ?thesis using assms by (auto simp: hosts_below_def) blast+
qed

definition groups_right :: "(json \<Rightarrow> string) \<Rightarrow> doc \<Rightarrow> (string, string list) dict \<Rightarrow> bool" where
  "groups_right r payload m \<longleftrightarrow> dict_all (\<lambda>g xs. sorted xs \<and> distinct xs \<and> set xs = hosts_below r payload g) m"

lemma groups_right_put:
  assumes "groups_right r payload m" "set d = hosts_below r payload g"
  shows "groups_right r payload (dput g (sort (remdups d)) m)"
  using assms(1) unfolding groups_right_def by (rule dict_all_dput) (simp add: assms(2))

lemma visit_groups_right:
  "visit_groups r payload path gs direct groups = Inr (d, m) \<Longrightarrow> acyclic (child_of r payload) \<Longrightarrow>
    \<forall>g\<in>set gs. \<forall>p\<in>set path. (p, g) \<in> (child_of r payload)\<^sup>+ \<Longrightarrow> groups_right r payload groups \<Longrightarrow>
    set d = set direct \<union> (\<Union>g\<in>set gs. hosts_below r payload g) \<and> groups_right r payload m \<and>
    set (dkeys groups) \<union> (set gs - {''_meta''}) \<subseteq> set (dkeys m)"
proof (induction r payload path gs direct groups arbitrary: d m rule: visit_groups.induct)
  case (1 r payload path direct groups)
  then show ?case by simp
next
  case (2 r payload path g gs direct groups)
  let ?E = "child_of r payload"
  have g: "g \<notin> set path" using 2(5,6) by (auto simp: acyclic_def)
  obtain hs cs where hc: "group_of r payload g = Inr (hs, cs)" using 2(4) g by (auto split: sum.splits)
  obtain d1 m1 where inner: "visit_groups r payload (g # path) cs hs groups = Inr (d1, m1)"
    using 2(4) g hc by (auto simp: rbind_Inr_iff)
  let ?m = "if g = ''_meta'' then m1 else dput g (sort (remdups d1)) m1"
  have outer: "visit_groups r payload path gs (direct @ d1) ?m = Inr (d, m)" using 2(4) g hc inner by simp
  have edge: "(g, c) \<in> ?E" if "c \<in> set cs" for c using hc that by (auto simp: child_of_def)
  have "(p, c) \<in> ?E\<^sup>+" if "c \<in> set cs" "p \<in> set (g # path)" for p c
  proof (cases "p = g")
    case True
    then show ?thesis using edge [OF that(1)] by (simp add: r_into_trancl)
  next
    case False
    then have "(p, g) \<in> ?E\<^sup>+" using 2(6) that(2) by simp
    then show ?thesis using edge [OF that(1)] by (rule trancl_into_trancl)
  qed
  then have under: "\<forall>c\<in>set cs. \<forall>p\<in>set (g # path). (p, c) \<in> ?E\<^sup>+" by blast
  from 2(2) [OF g hc refl inner 2(5) under 2(7)] have i: "set d1 = set hs \<union> (\<Union>c\<in>set cs. hosts_below r payload c)"
    "groups_right r payload m1" "set (dkeys groups) \<union> (set cs - {''_meta''}) \<subseteq> set (dkeys m1)" by simp_all
  have d1: "set d1 = hosts_below r payload g" using i(1) hosts_below_step [OF hc] by simp
  have right: "groups_right r payload ?m" using i(2) groups_right_put [OF i(2) d1] by simp
  have below: "\<forall>c\<in>set gs. \<forall>p\<in>set path. (p, c) \<in> ?E\<^sup>+" using 2(6) by simp
  have keys: "set (dkeys m1) \<subseteq> set (dkeys ?m)" "g \<noteq> ''_meta'' \<Longrightarrow> g \<in> set (dkeys ?m)"
    using dkeys_dput [of g "sort (remdups d1)" m1] by (simp_all del: set_map) blast
  from 2(3) [OF g hc refl inner refl outer 2(5) below right] have o':
    "set d = set (direct @ d1) \<union> (\<Union>g\<in>set gs. hosts_below r payload g)" "groups_right r payload m"
    "set (dkeys ?m) \<union> (set gs - {''_meta''}) \<subseteq> set (dkeys m)" by blast+
  have "set (dkeys groups) \<union> (set (g # gs) - {''_meta''}) \<subseteq> set (dkeys m)" unfolding list.set using o'(3) i(3) keys by blast
  then show ?case using o'(1,2) d1 by (simp add: Un_assoc)
qed

lemma zip_rmap:
  assumes "rmap f ns = Inr xs" "dget (zip ns xs) n = Some x"
  shows "n \<in> set ns \<and> f n = Inr x"
  using assms by (induction ns arbitrary: xs) (auto simp: rbind_Inr_iff split: if_splits)

text \<open>
  Property C32: where no group is below itself, every group of the payload is recorded with exactly the hosts of all
  groups below it, and every host with exactly the groups it is in; so a host has a capability when it is in the
  required group or in any group under it.
\<close>

theorem inventory_groups_exact:
  assumes "inventory_records r (JObj payload) = Inr (hosts, groups)" and "acyclic (child_of r payload)"
  shows "(\<forall>g\<in>set (dkeys payload). g \<noteq> ''_meta'' \<longrightarrow> dget groups g = Some (sorted_list_of_set (hosts_below r payload g))) \<and>
    (\<forall>name h. dget hosts name = Some h \<longrightarrow> ih_name h = name \<and> (\<forall>g. g \<in> set (ih_groups h) \<longleftrightarrow> g \<in> set (dkeys groups) \<and> name \<in> hosts_below r payload g))"
proof -
  obtain hostvars d hs where v: "visit_groups r payload [] (filter (\<lambda>g. g \<noteq> ''_meta'') (dkeys payload)) [] [] = Inr (d, groups)"
    and h: "rmap (host_record r hostvars groups) (sort (remdups (dkeys hostvars @ concat (dvals groups)))) = Inr hs"
      "hosts = zip (sort (remdups (dkeys hostvars @ concat (dvals groups)))) hs"
    using assms(1) by (auto simp: inventory_records_def rbind_Inr_iff Let_def)
  have g0: "groups_right r payload []" by (simp add: groups_right_def)
  from visit_groups_right [OF v assms(2) _ g0] have right: "groups_right r payload groups"
    and keys: "set (dkeys payload) - {''_meta''} \<subseteq> set (dkeys groups)" by auto
  have entry: "xs = sorted_list_of_set (hosts_below r payload g) \<and> set xs = hosts_below r payload g" if "dget groups g = Some xs" for g xs
    using dict_allD [OF right [unfolded groups_right_def] that] sorted_list_of_set_unique [of "hosts_below r payload g" xs]
    by (metis finite_set length_remdups_card_conv remdups_id_iff_distinct sorted_list_of_set.idem_if_sorted_distinct)
  have one: "dget groups g = Some (sorted_list_of_set (hosts_below r payload g))" if "g \<in> set (dkeys groups)" for g
    using that entry by (metis dget_None_iff not_Some_eq)
  have ok: "dict_ok groups" using right by (simp add: groups_right_def dict_all_ok)
  have two: "ih_name h = name \<and> (\<forall>g. g \<in> set (ih_groups h) \<longleftrightarrow> g \<in> set (dkeys groups) \<and> name \<in> hosts_below r payload g)"
    if "dget hosts name = Some h" for name h
  proof -
    have "host_record r hostvars groups name = Inr h" using zip_rmap [OF h(1)] that h(2) by metis
    then have e: "ih_name h = name" "ih_groups h = host_groups name groups" by (auto simp: host_record_def rbind_Inr_iff Let_def)
    have "g \<in> set (host_groups name groups) \<longleftrightarrow> (\<exists>xs. dget groups g = Some xs \<and> name \<in> set xs)" for g
      using ok by (force simp: host_groups_def dget_mem_iff)
    then show ?thesis using e entry one by (metis dget_None_iff option.distinct(1))
  qed
  show ?thesis using keys one two by blast
qed

section \<open>What may run\<close>

lemma playbook_path_inside:
  assumes "playbook_path c relative = Inr full" "path_root (ct_playbooks_dir c) \<noteq> ''//''"
  shows "path_within (path_of (ct_playbooks_dir c)) (path_of full) \<and> \<not> goes_up (path_of full)"
  using safe_path_inside [OF assms(1) [unfolded playbook_path_def] assms(2)] by blast

lemma capability_Inr: "require_operation_capability c op target = Inr h \<longleftrightarrow>
    inventory_host c target = Some h \<and> (\<forall>g. required_inventory_group op = Some g \<longrightarrow> g \<in> set (ih_groups h))"
  by (auto simp: require_operation_capability_def split: option.split)

lemma executable_absolute: "executable_path r label True v = Inr exe \<Longrightarrow> exe \<noteq> [] \<and> pp_root (path_of exe) \<noteq> []"
  using path_of_text [OF plain_path_of] by (fastforce simp: executable_path_def path_text_def Let_def split: if_splits)

definition command_argv :: "controller \<Rightarrow> string \<Rightarrow> string \<Rightarrow> string \<Rightarrow> string list \<Rightarrow> string list" where
  "command_argv c exe playbook host extra = [exe, ''-i'', ct_inventory_path c, playbook, ''--limit'', host] @ extra"

text \<open>
  Property C22: a playbook command runs the approved playbook of its operation, which is a discovered one inside the
  directory of playbooks, against one host of the inventory that has the capability and that the approval admits,
  with approved variables only; and the line that is sent to the controller is read by a shell as exactly this
  command in the project directory.
\<close>

theorem playbook_command_exact:
  assumes "playbook_command r dumps c op target vars = Inr (argv, a)" and "path_root (ct_playbooks_dir c) \<noteq> ''//''"
  shows "\<exists>exe playbook host h. argv = command_argv c exe playbook host (if vars = [] then [] else [''--extra-vars'', dumps vars]) \<and>
    pp_root (path_of exe) \<noteq> [] \<and> dget (ct_approvals c) op = Some a \<and> ap_playbook a \<in> set (ct_discovered c) \<and>
    path_within (path_of (ct_playbooks_dir c)) (path_of playbook) \<and> \<not> goes_up (path_of playbook) \<and>
    host_name host \<and> inventory_host c host = Some h \<and> (\<forall>g. required_inventory_group op = Some g \<longrightarrow> g \<in> set (ih_groups h)) \<and>
    (ap_targets a = [] \<and> ap_groups a = [] \<or> host \<in> set (ap_targets a) \<or> (\<exists>g\<in>set (ih_groups h). g \<in> set (ap_groups a))) \<and>
    (\<forall>k\<in>set (dkeys vars). k \<in> set (approved_variables a)) \<and>
    (\<forall>cfg s. cc_project cfg = ct_project c \<and> command_line r cfg argv True = Inr s \<longrightarrow>
       shell_tokens Unquoted None s = Some ([ShWord ''cd'', ShWord ''--'', ShWord (ct_project c), ShAnd] @ map ShWord argv))"
proof -
  obtain playbook host h exe where p: "approved_playbook c op = Inr (a, playbook)" "validate_inventory_host r target = Inr host"
    "require_operation_capability c op host = Inr h" "target_allowed a h host"
    "executable_path r ''Ansible Playbook executable'' True (JStr (ct_playbook_exe c)) = Inr exe"
    "vars = [] \<or> list_all (\<lambda>k. k \<in> set (approved_variables a) \<and> k \<noteq> []) (dkeys vars)"
    "argv = command_argv c exe playbook host (if vars = [] then [] else [''--extra-vars'', dumps vars])"
    using assms(1) by (auto simp: playbook_command_def command_argv_def rbind_Inr_iff split: if_splits)
  have a: "dget (ct_approvals c) op = Some a" "ap_playbook a \<in> set (ct_discovered c)" "playbook_path c (ap_playbook a) = Inr playbook"
    using p(1) by (auto simp: approved_playbook_def rbind_Inr_iff split: option.splits if_splits)
  have "ap_targets a = [] \<and> ap_groups a = [] \<or> host \<in> set (ap_targets a) \<or> (\<exists>g\<in>set (ih_groups h). g \<in> set (ap_groups a))"
    using p(4) by (auto simp: target_allowed_def list_ex_iff)
  moreover have "host_name host" using p(2) by (auto simp: validate_inventory_host_def Let_def split: if_splits)
  moreover have "\<forall>k\<in>set (dkeys vars). k \<in> set (approved_variables a)" using p(6) by (auto simp: list_all_iff)
  moreover have "shell_tokens Unquoted None s = Some ([ShWord ''cd'', ShWord ''--'', ShWord (ct_project c), ShAnd] @ map ShWord argv)"
    if "cc_project cfg = ct_project c" "command_line r cfg argv True = Inr s" for cfg s
    using command_line_reads [OF that(2)] that(1) by simp
  ultimately show ?thesis
    using p(3,7) a playbook_path_inside [OF a(3) assms(2)] capability_Inr executable_absolute [OF p(5)] by blast
qed

text \<open>
  An operation is offered for a host exactly when the controller is enabled and its command would be
  built, as far as the executable is configured.
\<close>

theorem offered_iff_runnable:
  assumes "host_name host" and "executable_path r ''Ansible Playbook executable'' True (JStr (ct_playbook_exe c)) = Inr exe"
  shows "operation_is_allowed_for_target (Some c) op host \<longleftrightarrow>
    ct_enabled c \<and> \<not> is_error (playbook_command r dumps c op (JStr host) [])"
proof -
  have "validate_inventory_host r (JStr host) = Inr host"
    using assms(1) by (simp add: validate_inventory_host_def str_or_empty_def host_name_def)
  then show ?thesis using assms(2)
    by (auto simp: operation_is_allowed_for_target_def playbook_command_def is_error_def rbind_def split: sum.split prod.split)
qed

text \<open>A project mode that is a list is no value error, so one such host makes the whole inventory fail.\<close>

theorem list_mode_fails_inventory:
  "docker_projects r seen [JObj [(''name'', JStr ''web''), (''update_mode'', JArr [])]] = Inl TypeError"
proof -
  have "project_name ''web''" by code_simp
  then show ?thesis by (simp add: validate_docker_project_def str_or_empty_def normalize_project_mode_def getn_def)
qed

section \<open>The results a workload shows\<close>

text \<open>A mapping that was accepted: disabled, or to a discovered host of a known controller.\<close>

definition mapping_ok :: "bool \<Rightarrow> ansible_doc \<Rightarrow> doc \<Rightarrow> bool" where
  "mapping_ok b d m \<longleftrightarrow> truthy (getn m ''enabled'') = b \<and> (if b then \<exists>i c h. getn m ''controllerId'' = JStr i \<and> getn m ''inventoryHost'' = JStr h \<and>
     dget (an_controllers d) i = Some c \<and> inventory_host c h \<noteq> None else getn m ''controllerId'' = JNull)"

lemma new_mapping_ok: "new_mapping r b cid host maint now d = Inr m \<Longrightarrow> mapping_ok b d m"
  by (auto simp: new_mapping_def mapping_ok_def getn_def rbind_Inr_iff Let_def split: if_splits option.splits)

lemma keep_maintenance_get: "k \<noteq> ''maintenance'' \<Longrightarrow> getn (keep_maintenance b g p m) k = getn m k"
  by (simp add: keep_maintenance_def)

lemma keep_mapping_ok: "mapping_ok b d m \<Longrightarrow> mapping_ok b d (keep_maintenance b g p m)"
  by (cases b) (auto simp: mapping_ok_def keep_maintenance_get)

lemma set_mapping_Inr:
  assumes "set_mapping r i (JBool b) cid host maint now d = (Inr w, d')"
  obtains v previous nxt where "dget (an_instances d) i = Some v" "sub_obj v ''ansible'' = Inr previous" "mapping_ok b d nxt"
    "d' = d\<lparr>an_instances := dput i w (an_instances d)\<rparr>"
    "w = (if association_changed b previous nxt
      then fresh_states b (controller_at (getn nxt ''controllerId'') d) (str_or_empty r (getn nxt ''inventoryHost''))
        (ddel_all result_keys_of (dput ''ansible'' (JObj nxt) v))
      else dput ''ansible'' (JObj nxt) v)"
proof -
  obtain m where m: "new_mapping r b cid host maint now d = Inr m"
    and t: "transact (mapping_mut r i b (maint \<noteq> JNull) m) d = (Inr w, d')"
    using assms by (auto simp: set_mapping_def split: sum.splits)
  obtain v where v: "dget (an_instances d) i = Some v" "remap r b (maint \<noteq> JNull) m d v = Inr w"
    "d' = d\<lparr>an_instances := dput i w (an_instances d)\<rparr>"
    using t by (auto simp: transact_def mapping_mut_def rbind_Inr_iff split: option.splits if_splits sum.splits)
  obtain previous where p: "sub_obj v ''ansible'' = Inr previous" using v(2) by (auto simp: remap_def rbind_Inr_iff)
  let ?nxt = "keep_maintenance b (maint \<noteq> JNull) previous m"
  have "w = (if association_changed b previous ?nxt
      then fresh_states b (controller_at (getn ?nxt ''controllerId'') d) (str_or_empty r (getn ?nxt ''inventoryHost''))
        (ddel_all result_keys_of (dput ''ansible'' (JObj ?nxt) v))
      else dput ''ansible'' (JObj ?nxt) v)"
    using v(2) p unfolding remap_def by (simp add: Let_def eq_commute [of w])
  then show thesis by (rule that [OF v(1) p keep_mapping_ok [OF new_mapping_ok [OF m]] v(3)])
qed

lemma fresh_get: "dget (fresh_states b c target v) k =
    (if k = ''updateState'' \<and> b \<and> operation_supported_by_host c ''os_check'' target then Some unknown_state
     else if k = ''applianceHealthState'' \<and> b \<and> operation_supported_by_host c ''appliance_health'' target then Some unknown_state else dget v k)"
  by (simp add: fresh_states_def Let_def)

text \<open>
  A mapping is stored for a discovered host of a known controller or is disabled. When it changes what the
  workload is associated with, no earlier result stays, except that capabilities of the new host start as unknown;
  when it does not, the results stay as they are; everything else of the workload and all other workloads are kept.
\<close>

theorem set_mapping_exact:
  assumes "set_mapping r i (JBool b) cid host maint now d = (Inr w, d')"
  shows "\<exists>v previous nxt. dget (an_instances d) i = Some v \<and> sub_obj v ''ansible'' = Inr previous \<and>
    dget w ''ansible'' = Some (JObj nxt) \<and> mapping_ok b d nxt \<and> d' = d\<lparr>an_instances := dput i w (an_instances d)\<rparr> \<and>
    (if association_changed b previous nxt then \<forall>k\<in>set result_keys_of. dget w k = None \<or> dget w k = Some unknown_state
     else \<forall>k\<in>set result_keys_of. dget w k = dget v k) \<and>
    (\<forall>k. k \<noteq> ''ansible'' \<and> k \<notin> set result_keys_of \<longrightarrow> dget w k = dget v k)"
proof -
  obtain v previous nxt where s: "dget (an_instances d) i = Some v" "sub_obj v ''ansible'' = Inr previous" "mapping_ok b d nxt"
    "d' = d\<lparr>an_instances := dput i w (an_instances d)\<rparr>"
    "w = (if association_changed b previous nxt
      then fresh_states b (controller_at (getn nxt ''controllerId'') d) (str_or_empty r (getn nxt ''inventoryHost''))
        (ddel_all result_keys_of (dput ''ansible'' (JObj nxt) v))
      else dput ''ansible'' (JObj nxt) v)"
    by (rule set_mapping_Inr [OF assms])
  have "dget w ''ansible'' = Some (JObj nxt)" using s(5) by (simp add: fresh_get result_keys_of_def)
  moreover have "if association_changed b previous nxt then \<forall>k\<in>set result_keys_of. dget w k = None \<or> dget w k = Some unknown_state
     else \<forall>k\<in>set result_keys_of. dget w k = dget v k"
    using s(5) by (simp add: fresh_get) (simp add: result_keys_of_def)
  moreover have "\<forall>k. k \<noteq> ''ansible'' \<and> k \<notin> set result_keys_of \<longrightarrow> dget w k = dget v k"
    using s(5) by (simp add: fresh_get) (simp add: result_keys_of_def)
  ultimately show ?thesis using s(1-4) by blast
qed

definition results_fit :: "controller option \<Rightarrow> string \<Rightarrow> doc \<Rightarrow> bool" where
  "results_fit c target v \<longleftrightarrow> (dget v ''updateState'' \<noteq> None \<longrightarrow> operation_supported_by_host c ''os_check'' target) \<and>
     (\<forall>k\<in>set docker_results. dget v k \<noteq> None \<longrightarrow> operation_supported_by_host c ''docker_discovery'' target) \<and>
     (dget v ''applianceHealthState'' \<noteq> None \<longrightarrow> operation_supported_by_host c ''appliance_health'' target)"

definition results_ok :: "(json \<Rightarrow> string) \<Rightarrow> ansible_doc \<Rightarrow> bool" where
  "results_ok r d \<longleftrightarrow> (\<forall>i v m cid. dget (an_instances d) i = Some v \<and> sub_obj v ''ansible'' = Inr m \<and> mapped_to cid m \<longrightarrow>
     results_fit (dget (an_controllers d) cid) (str_or_empty r (getn m ''inventoryHost'')) v)"

lemma results_okD: "results_ok r d \<Longrightarrow> dget (an_instances d) i = Some v \<Longrightarrow> sub_obj v ''ansible'' = Inr m \<Longrightarrow> mapped_to cid m \<Longrightarrow>
    results_fit (dget (an_controllers d) cid) (str_or_empty r (getn m ''inventoryHost'')) v"
  by (simp add: results_ok_def)

lemma results_fit_mono: "results_fit c target v \<Longrightarrow> (\<And>op. operation_supported_by_host c op target \<Longrightarrow> operation_supported_by_host c' op target) \<Longrightarrow>
    results_fit c' target v"
  by (simp add: results_fit_def)

lemma results_ok_controllers:
  assumes "results_ok r d" "an_instances d' = an_instances d"
    "\<And>cid op target. operation_supported_by_host (dget (an_controllers d) cid) op target \<Longrightarrow>
      operation_supported_by_host (dget (an_controllers d') cid) op target"
  shows "results_ok r d'"
  using assms(1,2) results_fit_mono [OF _ assms(3)] unfolding results_ok_def by metis

lemma supported_inventory: "ct_inventory c' = ct_inventory c \<Longrightarrow>
    operation_supported_by_host (Some c) op target \<Longrightarrow> operation_supported_by_host (Some c') op target"
  by (simp add: operation_supported_by_host_def inventory_host_def)

lemma supported_None [simp]: "\<not> operation_supported_by_host None op target"
  by (simp add: operation_supported_by_host_def)

lemma change_controller_ok:
  assumes "results_ok r d" "\<And>c. ct_inventory (f c) = ct_inventory c"
  shows "results_ok r (change_controller cid f d)"
  using assms(1)
  by (rule results_ok_controllers) (auto simp: change_controller_def supported_inventory [OF assms(2)] split: option.splits if_splits)

lemma save_controller_ok: "results_ok r d \<Longrightarrow> results_ok r (snd (save_controller r' enc fresh now config d))"
proof (cases "controller_of r' fresh now (dget (an_controllers d) primary) config")
  case (Inr p)
  obtain c cred where p: "p = (c, cred)" by fastforce
  assume ok: "results_ok r d"
  have "ct_inventory c = (case dget (an_controllers d) primary of Some k \<Rightarrow> ct_inventory k | None \<Rightarrow> no_inventory)"
    using Inr p by (cases config) (auto simp: controller_of_def rbind_Inr_iff)
  then have "operation_supported_by_host (dget (an_controllers d) primary) op target \<Longrightarrow> operation_supported_by_host (Some c) op target" for op target
    by (cases "dget (an_controllers d) primary") (auto intro: supported_inventory)
  then show ?thesis using ok Inr p
    by (intro results_ok_controllers [OF ok]) (auto simp: save_controller_def save_mut_def transact_def)
qed (simp add: save_controller_def)

lemma clear_results_fit: "results_fit c target (clear_results c target v)"
  by (auto simp: results_fit_def clear_results_def docker_results_def)

lemma clear_results_ansible: "sub_obj (clear_results c target v) ''ansible'' = sub_obj v ''ansible''"
  by (auto simp: sub_obj_def getn_def clear_results_def docker_results_def)

lemma rmap_items_get:
  assumes "rmap (\<lambda>(i, v). rbind (f v) (\<lambda>w. Inr (i, w))) xs = Inr ys" "dget ys i = Some w"
  shows "\<exists>v. dget xs i = Some v \<and> f v = Inr w"
  using assms by (induction xs arbitrary: ys) (auto simp: rbind_Inr_iff split: if_splits)

lemma clear_incompatible_ok:
  assumes "clear_incompatible r cid d = Inr d'"
    and "\<And>i v m k. dget (an_instances d) i = Some v \<Longrightarrow> sub_obj v ''ansible'' = Inr m \<Longrightarrow> mapped_to k m \<Longrightarrow> k \<noteq> cid \<Longrightarrow>
      results_fit (dget (an_controllers d) k) (str_or_empty r (getn m ''inventoryHost'')) v"
  shows "results_ok r d'"
  unfolding results_ok_def
proof (intro allI impI, elim conjE)
  fix i w m k
  assume w: "dget (an_instances d') i = Some w" and m: "sub_obj w ''ansible'' = Inr m" and k: "mapped_to k m"
  obtain xs where xs: "rmap (\<lambda>(i, v). rbind (clear_instance r (dget (an_controllers d) cid) cid v) (\<lambda>w. Inr (i, w))) (an_instances d) = Inr xs"
    "d' = d\<lparr>an_instances := xs\<rparr>"
    using assms(1) by (auto simp: clear_incompatible_def rbind_Inr_iff)
  obtain v where v: "dget (an_instances d) i = Some v" "clear_instance r (dget (an_controllers d) cid) cid v = Inr w"
    using rmap_items_get [OF xs(1)] w xs(2) by auto
  obtain m0 where m0: "sub_obj v ''ansible'' = Inr m0" using v(2) by (auto simp: clear_instance_def rbind_Inr_iff)
  show "results_fit (dget (an_controllers d') k) (str_or_empty r (getn m ''inventoryHost'')) w"
  proof (cases "mapped_to cid m0")
    case True
    then have e: "w = clear_results (dget (an_controllers d) cid) (str_or_empty r (getn m0 ''inventoryHost'')) v"
      using v(2) m0 by (simp add: clear_instance_def)
    then have "m = m0" using m m0 clear_results_ansible by simp
    then have "k = cid" using True k by (simp add: mapped_to_def)
    then show ?thesis using e \<open>m = m0\<close> clear_results_fit xs(2) by simp
  next
    case False
    then have "w = v" using v(2) m0 by (simp add: clear_instance_def)
    then have "m = m0" using m m0 by simp
    then have "k \<noteq> cid" using False k by auto
    then show ?thesis using assms(2) [OF v(1) m0] k xs(2) \<open>w = v\<close> \<open>m = m0\<close> by simp
  qed
qed

lemma refresh_inventory_ok:
  assumes "results_ok r d"
  shows "results_ok r (snd (refresh_inventory r e cid d))"
proof -
  have "results_ok r (snd (transact (refresh_mut r cid found) d))" for found
  proof (rule transact_invariant)
    fix d' x assume "refresh_mut r cid found d = Inr (d', x)"
    then have c: "clear_incompatible r cid (change_controller cid (\<lambda>c. c\<lparr>ct_inventory := found\<rparr>) d) = Inr d'"
      by (auto simp: refresh_mut_def rbind_Inr_iff)
    have s: "an_instances (change_controller cid f d) = an_instances d"
      "k \<noteq> cid \<Longrightarrow> dget (an_controllers (change_controller cid f d)) k = dget (an_controllers d) k" for f k
      by (auto simp: change_controller_def split: option.split)
    show "results_ok r d'" using c by (rule clear_incompatible_ok) (simp add: s results_okD [OF assms])
  qed (rule assms)
  then show ?thesis using assms by (auto simp: refresh_inventory_def split: option.split sum.split)
qed

lemma py_eq_str: "py_eq v (JStr s) \<longleftrightarrow> v = JStr s"
  by (cases v) (auto simp: py_eq_def scalar_eq_def)

lemma set_mapping_ok:
  assumes "results_ok r d"
  shows "results_ok r (snd (set_mapping r i enabled cid host maint now d))"
proof (cases "fst (set_mapping r i enabled cid host maint now d)")
  case (Inl e)
  then have "snd (set_mapping r i enabled cid host maint now d) = d"
    by (auto simp: set_mapping_def transact_def split: json.splits sum.splits)
  then show ?thesis using assms by simp
next
  case (Inr w)
  then obtain b d' where b: "enabled = JBool b" "set_mapping r i (JBool b) cid host maint now d = (Inr w, d')"
    by (cases enabled) (auto simp: set_mapping_def prod_eq_iff)
  obtain v previous nxt where s: "dget (an_instances d) i = Some v" "sub_obj v ''ansible'' = Inr previous" "mapping_ok b d nxt"
    "d' = d\<lparr>an_instances := dput i w (an_instances d)\<rparr>"
    "w = (if association_changed b previous nxt
      then fresh_states b (controller_at (getn nxt ''controllerId'') d) (str_or_empty r (getn nxt ''inventoryHost''))
        (ddel_all result_keys_of (dput ''ansible'' (JObj nxt) v))
      else dput ''ansible'' (JObj nxt) v)"
    by (rule set_mapping_Inr [OF b(2)])
  have a: "dget w ''ansible'' = Some (JObj nxt)" using s(5) by (auto simp: fresh_get result_keys_of_def)
  have w: "results_fit (dget (an_controllers d) k) (str_or_empty r (getn m ''inventoryHost'')) w"
    if m: "sub_obj w ''ansible'' = Inr m" "mapped_to k m" for m k
  proof -
    have nx: "m = nxt" "nxt \<noteq> []" using a m by (auto simp: sub_obj_def getn_def mapped_to_def split: if_splits)
    have e: "b" "getn nxt ''controllerId'' = JStr k" "truthy (getn nxt ''enabled'')"
      using s(3) m(2) nx by (auto simp: mapping_ok_def mapped_to_def split: if_splits)
    show ?thesis
    proof (cases "association_changed b previous nxt")
      case True
      then show ?thesis using s(5) e nx by (auto simp: results_fit_def fresh_get result_keys_of_def docker_results_def controller_at_def)
    next
      case False
      obtain h where h: "getn nxt ''inventoryHost'' = JStr h" using s(3) e(1) by (auto simp: mapping_ok_def)
      have p: "mapped_to k previous" "getn previous ''inventoryHost'' = JStr h"
        using False e h by (auto simp: association_changed_def same_target_def mapped_to_def py_eq_str)
      have "results_fit (dget (an_controllers d) k) (str_or_empty r (getn nxt ''inventoryHost'')) v"
        using results_okD [OF assms s(1,2) p(1)] p(2) h by simp
      then show ?thesis using False s(5) nx by (simp add: results_fit_def docker_results_def)
    qed
  qed
  have "results_ok r d'" unfolding results_ok_def
    using s(4) w results_okD [OF assms] by (auto split: if_splits)
  then show ?thesis using b by simp
qed

inductive ansible_step :: "(json \<Rightarrow> string) \<Rightarrow> ansible_doc \<Rightarrow> ansible_doc \<Rightarrow> bool" for r :: "json \<Rightarrow> string" where
  saved: "ansible_step r d (snd (save_controller r enc fresh now config d))"
| refreshed: "ansible_step r d (snd (refresh_inventory r e cid d))"
| discovered: "ansible_step r d (snd (discover_playbooks e cid d))"
| approved: "ansible_step r d (snd (approve_playbook r cid cfg d))"
| mapped: "ansible_step r d (snd (set_mapping r i enabled cid host maint now d))"

lemma ansible_step_ok: "ansible_step r d d' \<Longrightarrow> results_ok r d \<Longrightarrow> results_ok r d'"
proof (induction rule: ansible_step.induct)
  case (saved d enc fresh now config)
  then show ?case by (rule save_controller_ok)
next
  case (refreshed d e cid)
  then show ?case by (rule refresh_inventory_ok)
next
  case (discovered d e cid)
  then show ?case by (auto simp: discover_playbooks_def intro: change_controller_ok split: option.split sum.split)
next
  case (approved d cid cfg)
  then show ?case by (auto simp: approve_playbook_def Let_def intro: change_controller_ok split: option.split sum.split)
next
  case (mapped d i enabled cid host maint now)
  then show ?case by (rule set_mapping_ok)
qed

text \<open>
  Property C33: through every run of saving the controller, refreshing its inventory, discovering and approving
  playbooks and mapping workloads, no mapped workload shows a result of an operation its host is not capable of.
\<close>

theorem mapped_results_invariant:
  assumes "(ansible_step r)\<^sup>*\<^sup>* d0 d" and "results_ok r d0" and "dget (an_instances d) i = Some v" and "sub_obj v ''ansible'' = Inr m" and "mapped_to cid m"
  shows "results_fit (dget (an_controllers d) cid) (str_or_empty r (getn m ''inventoryHost'')) v"
proof -
  have "results_ok r d" using assms(1,2) by (induction rule: rtranclp_induct) (auto intro: ansible_step_ok)
  then show ?thesis using assms(3-) by (rule results_okD)
qed

section \<open>An example\<close>

definition demo_render :: "json \<Rightarrow> string" where
  "demo_render v = []"

definition demo_payload :: doc where
  "demo_payload = [(''_meta'', JObj [(''hostvars'', JObj [(''web'', JObj [(''ansible_host'', JStr ''10.0.0.5'')])])]),
     (''lab'', JObj [(''children'', JArr [JStr ''debian_hosts''])]), (''debian_hosts'', JObj [(''hosts'', JArr [JStr ''web''])])]"

definition demo_host :: inv_host where
  "demo_host = \<lparr>ih_name = ''web'', ih_address = ''10.0.0.5'', ih_groups = [''debian_hosts'', ''lab''], ih_projects = []\<rparr>"

lemma demo_inventory: "inventory_records demo_render (JObj demo_payload) =
    Inr ([(''web'', demo_host)], [(''debian_hosts'', [''web'']), (''lab'', [''web''])])"
  by code_simp

lemma demo_acyclic: "acyclic (child_of demo_render demo_payload)"
proof -
  have "group_of demo_render demo_payload g = Inr (hs, cs) \<Longrightarrow> c \<in> set cs \<Longrightarrow> (g, c) = (''lab'', ''debian_hosts'')" for g hs cs c
    by (auto simp: group_of_def demo_payload_def sub_obj_def getn_def name_items_def items_of_def rbind_Inr_iff obj_of_def split: if_splits)
  then have "child_of demo_render demo_payload \<subseteq> {(''lab'', ''debian_hosts'')}" by (auto simp: child_of_def)
  moreover have "acyclic {(''lab'', ''debian_hosts'')}" by (simp add: acyclic_insert) (simp add: acyclic_def)
  ultimately show ?thesis by (rule acyclic_subset [rotated])
qed

theorem inventory_groups_exact_witness: "hosts_below demo_render demo_payload ''lab'' = {''web''}"
proof -
  have "[''web''] = sorted_list_of_set (hosts_below demo_render demo_payload ''lab'')"
    using inventory_groups_exact [OF demo_inventory demo_acyclic] by (simp add: demo_payload_def)
  moreover have "''web'' \<in> hosts_below demo_render demo_payload ''lab''"
    using conjunct2 [OF conjunct2 [OF inventory_groups_exact [OF demo_inventory demo_acyclic], rule_format, of "''web''" demo_host], THEN spec, of "''lab''"]
    by (simp add: demo_host_def)
  ultimately show ?thesis by (metis empty_set list.simps(15) set_sorted_list_of_set sorted_list_of_set.fold_insort_key.infinite emptyE list.discI)
qed

definition demo_controller :: controller where
  "demo_controller = \<lparr>ct_enabled = True, ct_name = ''Ansible'', ct_host = ''10.0.0.2'', ct_port = 22, ct_user = ''ops'', ct_auth = ''password'',
     ct_credential = ''c1'', ct_project = ''/srv/ansible'', ct_inventory_path = ''/srv/ansible/hosts'', ct_playbooks_dir = ''/srv/ansible/plays'',
     ct_playbook_exe = ''/usr/bin/ansible-playbook'', ct_inventory_exe = [], ct_connect_timeout = 12, ct_execute_timeout = 1800,
     ct_inventory = \<lparr>iv_hosts = [(''web'', demo_host)], iv_groups = [(''debian_hosts'', [''web''])], iv_at = None\<rparr>, ct_discovered = [''os.yml''],
     ct_approvals = [(''os_check'', \<lparr>ap_playbook = ''os.yml'', ap_label = ''OS update check'', ap_check_mode = False, ap_targets = [],
       ap_groups = [''lab''], ap_variables = [''limit''], ap_reboot = None, ap_project = None, ap_mode_variable = None, ap_modes = []\<rparr>)],
     ct_updated = 0\<rparr>"

lemma demo_exe: "executable_path demo_render ''Ansible Playbook executable'' True (JStr ''/usr/bin/ansible-playbook'') = Inr ''/usr/bin/ansible-playbook''"
  by code_simp

lemma demo_playbook: "playbook_path demo_controller ''os.yml'' = Inr ''/srv/ansible/plays/os.yml''"
  by code_simp

lemma demo_host_name: "host_name ''web''"
  by code_simp

lemma demo_command: "\<exists>a. playbook_command demo_render (\<lambda>_. ''{}'') demo_controller ''os_check'' (JStr ''web'') [(''limit'', JInt 1)] =
    Inr ([''/usr/bin/ansible-playbook'', ''-i'', ''/srv/ansible/hosts'', ''/srv/ansible/plays/os.yml'', ''--limit'', ''web'', ''--extra-vars'', ''{}''], a)"
  using demo_exe demo_playbook demo_host_name
  by (simp add: playbook_command_def approved_playbook_def validate_inventory_host_def str_or_empty_def require_operation_capability_def
      inventory_host_def required_inventory_group_def required_groups_def target_allowed_def approved_variables_def demo_controller_def demo_host_def)

theorem playbook_command_exact_witness: "\<exists>playbook. path_within (path_of ''/srv/ansible/plays'') (path_of playbook) \<and> \<not> goes_up (path_of playbook)"
proof -
  have "path_root (ct_playbooks_dir demo_controller) \<noteq> ''//''" by (simp add: demo_controller_def path_root_def)
  then show ?thesis using demo_command playbook_command_exact by (fastforce simp: demo_controller_def)
qed

theorem offered_iff_runnable_witness: "operation_is_allowed_for_target (Some demo_controller) ''os_check'' ''web''"
proof -
  have "executable_path demo_render ''Ansible Playbook executable'' True (JStr (ct_playbook_exe demo_controller)) = Inr ''/usr/bin/ansible-playbook''"
    using demo_exe by (simp add: demo_controller_def)
  moreover have "\<not> is_error (playbook_command demo_render (\<lambda>_. []) demo_controller ''os_check'' (JStr ''web'') [])"
    using demo_exe demo_playbook demo_host_name
    by (simp add: playbook_command_def approved_playbook_def validate_inventory_host_def str_or_empty_def require_operation_capability_def
        inventory_host_def required_inventory_group_def required_groups_def target_allowed_def demo_controller_def demo_host_def)
  moreover have "ct_enabled demo_controller" by (simp add: demo_controller_def)
  ultimately show ?thesis using offered_iff_runnable [OF demo_host_name] by blast
qed

definition demo_ansible :: ansible_doc where
  "demo_ansible = \<lparr>an_controllers = [(''primary'', demo_controller)], an_credentials = [],
     an_instances = [(''vm1'', [(''name'', JStr ''web''), (''docker'', JObj [])])]\<rparr>"

definition demo_mapped :: "doc result \<times> ansible_doc" where
  "demo_mapped = set_mapping demo_render ''vm1'' (JBool True) None (JStr ''web'') JNull 100 demo_ansible"

lemma demo_mapped_Inr: "map_prod (map_sum id (\<lambda>w. dget w ''docker'')) (\<lambda>d. map_option (\<lambda>w. dget w ''updateState'') (dget (an_instances d) ''vm1'')) demo_mapped =
    (Inr None, Some (Some unknown_state))"
  by code_simp

lemma demo_mapped_split: "\<exists>w d. demo_mapped = (Inr w, d)"
proof -
  obtain x d where p: "demo_mapped = (x, d)" by fastforce
  show ?thesis using demo_mapped_Inr unfolding p by (cases x) auto
qed

theorem set_mapping_exact_witness: "\<exists>w. dget (an_instances (snd demo_mapped)) ''vm1'' = Some w \<and> dget w ''name'' = Some (JStr ''web'')"
proof -
  obtain w d' where m: "demo_mapped = (Inr w, d')" using demo_mapped_split by blast
  obtain v where v: "dget (an_instances demo_ansible) ''vm1'' = Some v"
    and d: "d' = demo_ansible\<lparr>an_instances := dput ''vm1'' w (an_instances demo_ansible)\<rparr>"
    and k: "\<forall>k. k \<noteq> ''ansible'' \<and> k \<notin> set result_keys_of \<longrightarrow> dget w k = dget v k"
    using set_mapping_exact [OF m [unfolded demo_mapped_def]] by blast
  have "dget w ''name'' = dget v ''name''" using k by (simp add: result_keys_of_def)
  moreover have "dget v ''name'' = Some (JStr ''web'')" using v by (auto simp: demo_ansible_def)
  ultimately show ?thesis by (simp add: m d)
qed

theorem mapped_results_invariant_witness:
  "\<exists>v. dget (an_instances (snd demo_mapped)) ''vm1'' = Some v \<and> results_fit (Some demo_controller) ''web'' v"
proof -
  have ok: "results_ok demo_render demo_ansible"
    by (auto simp: results_ok_def demo_ansible_def sub_obj_def getn_def mapped_to_def split: if_splits)
  have step: "ansible_step demo_render demo_ansible (snd demo_mapped)" unfolding demo_mapped_def by (rule ansible_step.mapped)
  have m: "map_option (\<lambda>w. map_sum id (\<lambda>m. (getn m ''controllerId'', getn m ''inventoryHost'', getn m ''enabled'')) (sub_obj w ''ansible''))
      (dget (an_instances (snd demo_mapped)) ''vm1'') = Some (Inr (JStr ''primary'', JStr ''web'', JBool True))"
    by code_simp
  then obtain v where v: "dget (an_instances (snd demo_mapped)) ''vm1'' = Some v" by auto
  obtain k where k: "sub_obj v ''ansible'' = Inr k" "mapped_to ''primary'' k" "str_or_empty demo_render (getn k ''inventoryHost'') = ''web''"
    using m v by (cases "sub_obj v ''ansible''") (auto simp: mapped_to_def str_or_empty_def)
  have c: "dget (an_controllers (snd demo_mapped)) ''primary'' = Some demo_controller"
  proof -
    obtain w d' where d: "demo_mapped = (Inr w, d')" using demo_mapped_split by blast
    show ?thesis by (rule set_mapping_Inr [OF d [unfolded demo_mapped_def]]) (simp add: d demo_ansible_def)
  qed
  show ?thesis using v mapped_results_invariant [OF r_into_rtranclp [where r = "ansible_step demo_render", OF step] ok v k(1,2)] c k(3) by simp
qed

end
