(* ===== verification/ComputeShown.thy ===== *)
theory ComputeShown
  imports ComputeView AnsibleSafety "HOL-Library.Multiset"
begin

text \<open>
  What the views of \<open>backend/compute.py\<close> guarantee: Docker projects show exactly what the inventory allows on their
  host, joining them again changes nothing, a workload shows only results its host is capable of and offers only what
  is allowed, a user sees the own workloads in order, and the counts of the summary fit together.
\<close>

section \<open>Rows and fields\<close>

lemma rmap_objects: "rmap obj_of (map JObj cs) = Inr cs"
  by (induction cs) simp_all

lemma rows_of_objects [simp]: "rows_of (JArr (map JObj cs)) = Inr cs"
  by (cases cs) (simp_all add: rows_of_def items_of_def rmap_objects)

lemma over_rows_body: "rmap (\<lambda>x. case x of JObj c \<Rightarrow> rbind (f c) (\<lambda>c'. Inr (JObj c')) | _ \<Rightarrow> Inl err) xs = Inr ys \<longleftrightarrow>
    (\<exists>cs cs'. xs = map JObj cs \<and> rmap f cs = Inr cs' \<and> ys = map JObj cs')"
proof (induction xs arbitrary: ys)
  case Nil
  then show ?case by auto
next
  case (Cons x xs)
  show ?case
  proof (cases x)
    case (JObj c)
    then show ?thesis using Cons by (fastforce simp: rbind_Inr_iff map_eq_Cons_conv Cons_eq_map_conv)
  qed (auto simp: Cons_eq_map_conv)
qed

lemma over_rows_Inr: "over_rows err f key d = Inr d' \<longleftrightarrow> \<not> truthy (getn d key) \<and> d' = d \<or>
    (\<exists>cs cs'. cs \<noteq> [] \<and> getn d key = JArr (map JObj cs) \<and> rmap f cs = Inr cs' \<and> d' = dput key (JArr (map JObj cs')) d)"
proof (cases "getn d key")
  case (JArr xs)
  then show ?thesis by (auto simp: over_rows_def items_of_def rbind_Inr_iff over_rows_body)
next
  case (JStr s)
  then show ?thesis by (cases s) (auto simp: over_rows_def items_of_def rbind_Inr_iff over_rows_body Cons_eq_map_conv)
next
  case (JObj e)
  then show ?thesis by (cases e) (auto simp: over_rows_def items_of_def rbind_Inr_iff over_rows_body Cons_eq_map_conv)
qed (auto simp: over_rows_def items_of_def)

lemma rmap_Inr_iff: "rmap f xs = Inr ys \<longleftrightarrow> list_all2 (\<lambda>x y. f x = Inr y) xs ys"
  by (induction xs arbitrary: ys) (auto simp: rbind_Inr_iff list_all2_Cons1)

lemma list_all2_right: "list_all2 R xs ys \<Longrightarrow> y \<in> set ys \<Longrightarrow> \<exists>x\<in>set xs. R x y"
  by (induction rule: list_all2_induct) auto

lemma doc_update_same: "\<forall>(k, v)\<in>set e. dget d k = Some v \<Longrightarrow> doc_update e d = d"
  by (induction e) (auto simp: doc_update_def update_triv)

lemma doc_update_twice:
  assumes "dict_ok e"
  shows "doc_update e (doc_update e d) = doc_update e d"
proof (rule doc_update_same, clarify)
  fix k v
  assume "(k, v) \<in> set e"
  then have "dget e k = Some v" unfolding dget_mem_iff [OF assms] .
  then show "dget (doc_update e d) k = Some v" by (simp add: dget_doc_update [OF assms])
qed

lemma getn_doc_update: "dict_ok e \<Longrightarrow> getn (doc_update e d) k = (case dget e k of Some v \<Rightarrow> v | None \<Rightarrow> getn d k)"
  by (simp add: getn_def dget_doc_update split: option.split)

section \<open>Joining projects with the inventory\<close>

definition host_projects :: "controller \<Rightarrow> string \<Rightarrow> (string \<times> string) list" where
  "host_projects c target = (case inventory_host c target of None \<Rightarrow> [] | Some x \<Rightarrow> ih_projects x)"

definition joined_keys :: "string list" where
  "joined_keys = [''containers'', ''inventoryHost'', ''approved'', ''managed'', ''updateMode'', ''updateStrategy'', ''updateState'']"

text \<open>How a project is shown for a host whose inventory lists projects with their modes.\<close>

definition project_joined :: "(string \<times> string) list \<Rightarrow> string \<Rightarrow> doc \<Rightarrow> doc \<Rightarrow> bool" where
  "project_joined listed target p q \<longleftrightarrow> getn q ''inventoryHost'' = JStr target \<and>
     (case approved_mode listed (getn p ''name'') of
       None \<Rightarrow> getn q ''approved'' = JBool False \<and> getn q ''managed'' = JBool False \<and> getn q ''updateMode'' = JStr ''read_only'' \<and>
         getn q ''updateState'' = unmanaged_state
     | Some mode \<Rightarrow> getn q ''approved'' = JBool True \<and> getn q ''managed'' = JBool (mode \<in> set [''pull'', ''build'']) \<and> getn q ''updateMode'' = JStr mode) \<and>
     (\<forall>k. k \<notin> set joined_keys \<longrightarrow> dget q k = dget p k)"

lemma fields_ok [simp]: "dict_ok unmanaged_fields" "dict_ok (managed_fields mode prior)"
  by (simp_all add: unmanaged_fields_def managed_fields_def)

lemma fields_keys: "dkeys unmanaged_fields = [''approved'', ''managed'', ''updateMode'', ''updateStrategy'', ''updateState'']"
  "dkeys (managed_fields mode prior) = [''approved'', ''managed'', ''updateMode'', ''updateStrategy'', ''updateState'']"
  by (simp_all add: unmanaged_fields_def managed_fields_def)

lemma reconcile_project_joined:
  assumes "reconcile_project listed target old p = Inr q"
  shows "project_joined listed target p q"
proof -
  obtain p1 where p1: "over_rows TypeError (\<lambda>c. Inr (dput ''composeProject'' (getn p ''name'') (dput ''inventoryHost'' (JStr target) c))) ''containers'' p = Inr p1"
    and q: "(case approved_mode listed (getn p ''name'') of None \<Rightarrow> Inr (doc_update unmanaged_fields (dput ''inventoryHost'' (JStr target) p1))
       | Some mode \<Rightarrow> rbind (prior_state old (getn p ''name'')) (\<lambda>prior. Inr (doc_update (managed_fields mode prior) (dput ''inventoryHost'' (JStr target) p1)))) = Inr q"
    using assms by (auto simp: reconcile_project_def Let_def rbind_Inr_iff split: if_splits)
  have other: "dget p1 k = dget p k" if "k \<noteq> ''containers''" for k using p1 that by (auto simp: over_rows_Inr)
  show ?thesis
  proof (cases "approved_mode listed (getn p ''name'')")
    case None
    then have "q = doc_update unmanaged_fields (dput ''inventoryHost'' (JStr target) p1)" using q by simp
    then show ?thesis using None other
      by (simp add: project_joined_def getn_doc_update dget_doc_update) (simp add: unmanaged_fields_def joined_keys_def)
  next
    case (Some mode)
    then obtain prior where "q = doc_update (managed_fields mode prior) (dput ''inventoryHost'' (JStr target) p1)"
      using q by (auto simp: rbind_Inr_iff)
    then show ?thesis using Some other
      by (simp add: project_joined_def getn_doc_update dget_doc_update) (simp add: managed_fields_def joined_keys_def)
  qed
qed

lemma reconcile_docker_Inr:
  assumes "reconcile_docker_projects c target previous docker = Inr d"
  obtains olds old d1 where "host_name target" "rows_of (getn previous ''projects'') = Inr olds" "named_projects olds = Inr old"
    "over_rows AttributeError (reconcile_project (host_projects c target) target old) ''projects'' docker = Inr d1"
    "over_rows TypeError (\<lambda>x. Inr (dput ''inventoryHost'' (JStr target) x)) ''containers'' d1 = Inr d"
proof -
  have h: "validate_inventory_host (\<lambda>_. []) (JStr target) = (if host_name target then Inr target else Inl (ValueError ''invalid Ansible inventory host''))"
    by (cases "target = []") (simp_all add: validate_inventory_host_def str_or_empty_def host_name_def Let_def)
  show ?thesis using assms that unfolding reconcile_docker_projects_def h host_projects_def
    by (auto simp: rbind_Inr_iff split: if_splits)
qed

text \<open>
  After Docker projects are joined with the inventory, each project of the list is shown for its host as the
  inventory of exactly this host lists it: approved if it is listed, with the listed mode, and managed only in a mode
  that updates; everything else a project holds stays.
\<close>

theorem reconcile_exact:
  assumes "reconcile_docker_projects c target previous docker = Inr d" and "truthy (getn docker ''projects'')"
  shows "\<exists>ps qs. getn docker ''projects'' = JArr (map JObj ps) \<and> getn d ''projects'' = JArr (map JObj qs) \<and>
    list_all2 (project_joined (host_projects c target) target) ps qs"
proof -
  obtain olds old d1 where o': "over_rows AttributeError (reconcile_project (host_projects c target) target old) ''projects'' docker = Inr d1"
    "over_rows TypeError (\<lambda>x. Inr (dput ''inventoryHost'' (JStr target) x)) ''containers'' d1 = Inr d"
    by (rule reconcile_docker_Inr [OF assms(1)])
  from o'(1) assms(2) obtain ps qs where p: "getn docker ''projects'' = JArr (map JObj ps)"
    "rmap (reconcile_project (host_projects c target) target old) ps = Inr qs" "d1 = dput ''projects'' (JArr (map JObj qs)) docker"
    by (auto simp: over_rows_Inr)
  have "getn d ''projects'' = getn d1 ''projects''" using o'(2) by (auto simp: over_rows_Inr)
  moreover have "list_all2 (project_joined (host_projects c target) target) ps qs"
    using p(2) unfolding rmap_Inr_iff by (rule list_all2_mono) (rule reconcile_project_joined)
  ultimately show ?thesis using p(1,3) by (intro exI [of _ ps] exI [of _ qs]) simp
qed

section \<open>Joining again\<close>

lemma named_projects_ok: "named_projects ps = Inr old \<Longrightarrow> list_all (\<lambda>p. hashable (getn p ''name'')) ps"
  by (simp add: named_projects_def split: if_splits)

lemma dget_named:
  assumes "named_projects ps = Inr old" "distinct (map (\<lambda>p. getn p ''name'') ps)" "p \<in> set ps"
  shows "dget old (getn p ''name'') = Some p"
proof -
  have "dget (fold (\<lambda>p. dput (getn p ''name'') p) ps m) (getn p ''name'') = Some p" for m :: "(json, doc) dict"
    using assms(2,3)
  proof (induction ps arbitrary: m)
    case Nil
    then show ?case by simp
  next
    case (Cons q ps)
    have other: "dget (fold (\<lambda>p. dput (getn p ''name'') p) qs m) k = dget m k" if "k \<notin> set (map (\<lambda>p. getn p ''name'') qs)" for k qs and m :: "(json, doc) dict"
      using that by (induction qs arbitrary: m) auto
    show ?case
    proof (cases "p = q")
      case True
      then have "getn p ''name'' \<notin> set (map (\<lambda>p. getn p ''name'') ps)" using Cons.prems by simp
      from other [OF this] show ?thesis using True by simp
    next
      case False
      then show ?thesis using Cons by simp
    qed
  qed
  moreover have "old = fold (\<lambda>p. dput (getn p ''name'') p) ps []" using assms(1) by (simp add: named_projects_def split: if_splits)
  ultimately show ?thesis by blast
qed

lemma never_checked_Nil [simp]: "\<not> never_checked []"
  by (simp add: never_checked_def getn_def)

lemma prior_state_settled:
  assumes "dget old name = Some q" "getn q ''updateState'' = (if prior = [] then not_checked else JObj prior)" "\<not> never_checked prior"
  shows "\<exists>prior'. prior' \<noteq> [] \<and> prior_state old name = Inr prior' \<and> JObj prior' = getn q ''updateState''"
proof -
  obtain u where u: "getn q ''updateState'' = JObj u" "u \<noteq> []" "\<not> never_checked u"
    using assms(2,3) by (cases "prior = []") (auto simp: not_checked_def never_checked_def getn_def)
  then have "sub_obj q ''updateState'' = Inr u" by (simp add: sub_obj_def)
  then show ?thesis using u assms(1) by (simp add: prior_state_def)
qed

lemma prior_state_filtered:
  assumes "prior_state old name = Inr prior"
  shows "\<not> never_checked prior"
proof (cases "dget old name")
  case None
  then show ?thesis using assms by (auto simp: prior_state_def)
next
  case (Some q)
  then obtain u where "prior = (if never_checked u then [] else u)" using assms by (auto simp: prior_state_def rbind_Inr_iff)
  then show ?thesis by simp
qed

lemma over_rows_again:
  assumes "over_rows err (\<lambda>c. Inr (f c)) key d = Inr d'" "\<And>c. f (f c) = f c" "getn e key = getn d' key"
  shows "over_rows err' (\<lambda>c. Inr (f c)) key e = Inr e"
proof -
  have r: "rmap (\<lambda>c. Inr (f c)) xs = Inr (map f xs)" for xs :: "doc list" by (induction xs) simp_all
  consider "\<not> truthy (getn d key)" "d' = d" | cs where "cs \<noteq> []" "d' = dput key (JArr (map JObj (map f cs))) d"
    using assms(1) unfolding over_rows_Inr r by auto
  then show ?thesis
  proof cases
    case 1
    then show ?thesis using assms(3) by (simp add: over_rows_def)
  next
    case 2
    then have k: "getn e key = JArr (map JObj (map f cs))" using assms(3) by simp
    then have "dget e key = Some (JArr (map JObj (map f cs)))" by (simp add: getn_def split: option.splits)
    then have "dput key (JArr (map JObj (map f cs))) e = e" by (rule update_triv)
    moreover have "map f (map f cs) = map f cs" using assms(2) by simp
    then have "rmap (\<lambda>c. Inr (f c)) (map f cs) = Inr (map f cs)" unfolding r by simp
    moreover have "map f cs \<noteq> []" using 2(1) by simp
    ultimately show ?thesis unfolding over_rows_Inr using k
      by (intro disjI2 exI [of _ "map f cs"] conjI) (assumption | rule sym)+
  qed
qed

lemma dput_twice: "dput k v (dput k v d) = dput k v d"
  by (rule update_triv) simp

lemma mark_twice:
  assumes "a \<noteq> b"
  shows "dput a v (dput b w (dput a v (dput b w d))) = dput a v (dput b w d)"
proof -
  have "dput b w (dput a v (dput b w d)) = dput a v (dput b w d)" by (rule update_triv) (use assms in simp)
  then show ?thesis by (simp only: dput_twice)
qed

lemma reconcile_project_again:
  assumes "reconcile_project listed target old p = Inr q" "hashable (getn p ''name'')" "dget old' (getn p ''name'') = Some q"
  shows "reconcile_project listed target old' q = Inr q"
proof -
  let ?n = "getn p ''name''"
  let ?f = "\<lambda>c. dput ''composeProject'' ?n (dput ''inventoryHost'' (JStr target) c)"
  obtain p1 where p1: "over_rows TypeError (\<lambda>c. Inr (?f c)) ''containers'' p = Inr p1"
    and q: "(case approved_mode listed ?n of None \<Rightarrow> Inr (doc_update unmanaged_fields (dput ''inventoryHost'' (JStr target) p1))
       | Some mode \<Rightarrow> rbind (prior_state old ?n) (\<lambda>prior. Inr (doc_update (managed_fields mode prior) (dput ''inventoryHost'' (JStr target) p1)))) = Inr q"
    using assms(1) by (auto simp: reconcile_project_def Let_def rbind_Inr_iff split: if_splits)
  have n: "getn p1 ''name'' = ?n" using p1 by (auto simp: over_rows_Inr)
  obtain e where e: "q = doc_update e (dput ''inventoryHost'' (JStr target) p1)" "e = unmanaged_fields \<or> (\<exists>m x. e = managed_fields m x)"
  proof (cases "approved_mode listed ?n")
    case None
    then have "q = doc_update unmanaged_fields (dput ''inventoryHost'' (JStr target) p1)" using q by simp
    then show ?thesis using that by blast
  next
    case (Some mode)
    then obtain prior where "q = doc_update (managed_fields mode prior) (dput ''inventoryHost'' (JStr target) p1)"
      using q by (auto simp: rbind_Inr_iff)
    then show ?thesis using that by blast
  qed
  have keys: "dget e k = None" if "k = ''name'' \<or> k = ''containers'' \<or> k = ''inventoryHost''" for k
  proof -
    have "dkeys e = [''approved'', ''managed'', ''updateMode'', ''updateStrategy'', ''updateState'']" using e(2) fields_keys by metis
    then show ?thesis unfolding dget_None_iff using that by (elim disjE) simp_all
  qed
  have eok: "dict_ok e" using e(2) fields_ok by metis
  have qn: "getn q ''name'' = ?n" "getn q ''containers'' = getn p1 ''containers''" "dget q ''inventoryHost'' = Some (JStr target)"
    unfolding e(1) getn_doc_update [OF eok] dget_doc_update [OF eok] using keys n by simp_all
  have rows: "over_rows TypeError (\<lambda>c. Inr (?f c)) ''containers'' q = Inr q"
    by (rule over_rows_again [OF p1 _ qn(2)]) (rule mark_twice, simp)
  have host: "dput ''inventoryHost'' (JStr target) q = q" using qn(3) by (rule update_triv)
  show ?thesis
  proof (cases "approved_mode listed ?n")
    case None
    then have "doc_update unmanaged_fields q = q" using q doc_update_twice [OF fields_ok(1)] by auto
    then show ?thesis using None assms(2) rows host qn(1) by (simp add: reconcile_project_def)
  next
    case (Some mode)
    then obtain prior where pr: "prior_state old ?n = Inr prior" "q = doc_update (managed_fields mode prior) (dput ''inventoryHost'' (JStr target) p1)"
      using q by (auto simp: rbind_Inr_iff)
    have get: "dget q k = Some v" if "(k, v) \<in> set (managed_fields mode prior)" for k v
      using dget_mem_iff [OF fields_ok(2), THEN iffD2, OF that] unfolding pr(2) by (simp add: dget_doc_update)
    obtain prior' where pr': "prior_state old' ?n = Inr prior'" "managed_fields mode prior' = managed_fields mode prior"
    proof (cases "inventory_project_state mode")
      case None
      then have "getn q ''updateState'' = (if prior = [] then not_checked else JObj prior)"
        using get [of "''updateState''"] by (simp add: managed_fields_def getn_def)
      from prior_state_settled [OF assms(3) this prior_state_filtered [OF pr(1)]] obtain prior'
        where p': "prior' \<noteq> []" "prior_state old' ?n = Inr prior'" "JObj prior' = getn q ''updateState''" by blast
      then have "managed_fields mode prior' = managed_fields mode prior"
        using None \<open>getn q ''updateState'' = _\<close> by (auto simp: managed_fields_def split: if_splits)
      then show ?thesis using that p'(2) by blast
    next
      case (Some s)
      then have "getn q ''updateState'' = s" using get [of "''updateState''" s] by (simp add: managed_fields_def getn_def)
      moreover have "\<exists>u. s = JObj u" using Some by (auto simp: inventory_project_state_def project_state_def split: if_splits)
      ultimately obtain t where "getn q ''updateState'' = JObj t" by blast
      then have "sub_obj q ''updateState'' = Inr t" by (simp add: sub_obj_def)
      then obtain prior' where "prior_state old' ?n = Inr prior'" using assms(3) by (simp add: prior_state_def)
      moreover have "managed_fields mode prior' = managed_fields mode prior" using Some by (simp add: managed_fields_def)
      ultimately show ?thesis using that by blast
    qed
    have "doc_update (managed_fields mode prior) q = q" unfolding pr(2) by (rule doc_update_twice) simp
    then show ?thesis using Some assms(2) rows host qn(1) pr' by (simp add: reconcile_project_def)
  qed
qed

lemma reconcile_project_name:
  assumes "reconcile_project listed target old p = Inr q"
  shows "getn q ''name'' = getn p ''name'' \<and> hashable (getn p ''name'')"
proof -
  have "dget q ''name'' = dget p ''name''" using reconcile_project_joined [OF assms] by (simp add: project_joined_def joined_keys_def)
  then show ?thesis using assms by (simp add: getn_def reconcile_project_def Let_def split: if_splits)
qed

lemma names_of_joined: "rmap (reconcile_project listed target old) ps = Inr qs \<Longrightarrow>
    map (\<lambda>q. getn q ''name'') qs = map (\<lambda>p. getn p ''name'') ps \<and> list_all (\<lambda>q. hashable (getn q ''name'')) qs"
  by (induction ps arbitrary: qs) (auto simp: rbind_Inr_iff reconcile_project_name)


section \<open>The view of a workload\<close>

lemma eligible_True: "eligible x field = Inr True \<longleftrightarrow> mv_managed x \<and>
    (\<exists>op. getn (mv_upkeep x) field = JStr op \<and> op \<noteq> [] \<and> operation_is_allowed_for_target (mv_controller x) op (mv_target x))"
  by (auto simp: eligible_def Let_def split: json.splits option.splits if_splits)

lemma legacy_mode_mem: "mode \<in> set (legacy_mode c target m op modes) \<Longrightarrow> mode \<in> set modes \<or> mode = m \<and> offered_update c target op"
  by (auto simp: legacy_mode_def split: if_splits)

text \<open>An update mode is offered when an approved operation for one project may run in it.\<close>

definition mode_runs :: "controller \<Rightarrow> string \<Rightarrow> string \<Rightarrow> bool" where
  "mode_runs c target mode \<longleftrightarrow> (\<exists>a. dget (ct_approvals c) ''docker_update'' = Some a \<and> mode \<in> set (ap_modes a) \<and> offered_update c target ''docker_update'') \<or>
     mode = ''pull'' \<and> offered_update c target ''docker_update_pull'' \<or> mode = ''build'' \<and> offered_update c target ''docker_update_local_build''"

lemma docker_modes_run:
  assumes "mode \<in> set (docker_modes x)"
  shows "mv_managed x \<and> capable x ''docker_discovery'' \<and> mode \<in> set [''pull'', ''build''] \<and> (\<exists>c. mv_controller x = Some c \<and> mode_runs c (mv_target x) mode)"
proof -
  obtain c where c: "mv_controller x = Some c" and on: "mv_managed x" "capable x ''docker_discovery''"
    and m: "mode \<in> set (legacy_mode c (mv_target x) ''build'' ''docker_update_local_build'' (legacy_mode c (mv_target x) ''pull'' ''docker_update_pull''
      (if offered_update c (mv_target x) ''docker_update''
       then filter (\<lambda>m. m \<in> set [''pull'', ''build'']) (case dget (ct_approvals c) ''docker_update'' of None \<Rightarrow> [] | Some a \<Rightarrow> ap_modes a) else [])))"
    using assms unfolding docker_modes_def by (cases "mv_controller x") (simp_all split: if_splits)
  have "mode \<in> set [''pull'', ''build''] \<and> mode_runs c (mv_target x) mode"
    using legacy_mode_mem [OF m]
  proof (elim disjE)
    assume "mode \<in> set (legacy_mode c (mv_target x) ''pull'' ''docker_update_pull''
      (if offered_update c (mv_target x) ''docker_update''
       then filter (\<lambda>m. m \<in> set [''pull'', ''build'']) (case dget (ct_approvals c) ''docker_update'' of None \<Rightarrow> [] | Some a \<Rightarrow> ap_modes a) else []))"
    from legacy_mode_mem [OF this] show ?thesis
      by (cases "dget (ct_approvals c) ''docker_update''") (auto simp: mode_runs_def split: if_splits)
  qed (simp add: mode_runs_def)
  then show ?thesis using c on by simp
qed

lemma results_fit_other:
  assumes "results_fit c target v"
    and "\<And>k. k \<noteq> ''ansible'' \<Longrightarrow> dget u k = dget v k \<or> k = ''docker'' \<and> operation_supported_by_host c ''docker_discovery'' target"
  shows "results_fit c target u"
  unfolding results_fit_def
proof (intro conjI ballI impI)
  show "operation_supported_by_host c ''os_check'' target" if "dget u ''updateState'' \<noteq> None"
    using assms(2) [of "''updateState''"] assms(1) that by (simp add: results_fit_def)
  show "operation_supported_by_host c ''appliance_health'' target" if "dget u ''applianceHealthState'' \<noteq> None"
    using assms(2) [of "''applianceHealthState''"] assms(1) that by (simp add: results_fit_def)
  fix k
  assume k: "k \<in> set docker_results" "dget u k \<noteq> None"
  then have "k \<noteq> ''ansible''" by (auto simp: docker_results_def)
  from assms(2) [OF this] show "operation_supported_by_host c ''docker_discovery'' target" using assms(1) k by (auto simp: results_fit_def)
qed

lemma view_docker_Inr: "view_docker x m v = Inr w \<Longrightarrow>
    w = v \<or> (\<exists>c e. mv_controller x = Some c \<and> capable x ''docker_discovery'' \<and> w = dput ''docker'' (JObj e) v)"
  by (auto simp: view_docker_def split: option.splits json.splits if_splits sum.splits failure.splits)

lemma view_docker_get: "view_docker x m v = Inr w \<Longrightarrow> dget w k = dget v k \<or> k = ''docker'' \<and> capable x ''docker_discovery''"
  by (drule view_docker_Inr, cases "k = ''docker''") auto

definition offered_fields :: "(string \<times> string) list" where
  "offered_fields = [(''updateCheckEligible'', ''osCheckOperation''), (''updateEligible'', ''osUpdateOperation''),
     (''dockerDiscoveryEligible'', ''dockerDiscoveryOperation''), (''dockerUpdateCheckEligible'', ''dockerCheckOperation''),
     (''applianceHealthEligible'', ''applianceHealthOperation'')]"

lemma mapping_view_offers:
  assumes "mapping_view x m busy = Inr a"
  shows "(\<forall>(flag, field)\<in>set offered_fields. getn a flag = JBool True \<longrightarrow> eligible x field = Inr True) \<and>
    getn a ''dockerUpdateModes'' = JArr (map JStr (docker_modes x)) \<and> getn a ''maintenanceActive'' = JBool busy"
proof -
  obtain b1 b2 b3 b4 b5 where e: "eligible x ''osCheckOperation'' = Inr b1" "eligible x ''osUpdateOperation'' = Inr b2"
    "(if truthy (getn (mv_upkeep x) ''dockerDiscoveryEnabled'') then eligible x ''dockerDiscoveryOperation'' else Inr False) = Inr b3"
    "eligible x ''dockerCheckOperation'' = Inr b4" "eligible x ''applianceHealthOperation'' = Inr b5"
    and a: "a = [(''enabled'', JBool (mv_managed x)), (''controllerId'', getn m ''controllerId''), (''inventoryHost'', getn m ''inventoryHost''),
        (''maintenance'', JObj (mv_upkeep x)), (''capabilities'', capabilities x), (''updateCheckEligible'', JBool b1),
        (''updateEligible'', JBool b2), (''dockerDiscoveryEligible'', JBool b3),
        (''dockerUpdateCheckEligible'', JBool (b4 \<and> project_checks x)), (''dockerUpdateModes'', JArr (map JStr (docker_modes x))),
        (''applianceHealthEligible'', JBool b5), (''maintenanceActive'', JBool busy)]"
    using assms unfolding mapping_view_def rbind_Inr_iff by blast
  have g: "getn a ''updateCheckEligible'' = JBool b1" "getn a ''updateEligible'' = JBool b2" "getn a ''dockerDiscoveryEligible'' = JBool b3"
    "getn a ''dockerUpdateCheckEligible'' = JBool (b4 \<and> project_checks x)" "getn a ''applianceHealthEligible'' = JBool b5"
    "getn a ''dockerUpdateModes'' = JArr (map JStr (docker_modes x))" "getn a ''maintenanceActive'' = JBool busy"
    unfolding a by (simp_all add: getn_def)
  show ?thesis using e g by (auto simp: offered_fields_def split: if_splits)
qed

text \<open>
  Property C24: the public view of a mapped workload shows results only of operations its host is capable of, marks an
  operation as eligible only if the mapping names it and it is approved for this target, offers an update mode only if
  an approved operation for one project may run in it, and says that maintenance is active exactly when a job of the
  workload is queued or running; the owner stays.
\<close>

theorem public_view_exact:
  assumes "public_instance d v = Inr u"
  shows "\<exists>m x a. sub_obj v ''ansible'' = Inr m \<and> mapped_view_of (an_controllers d) m = Inr x \<and> getn u ''ansible'' = JObj a \<and>
    (mv_managed x \<longrightarrow> results_fit (mv_controller x) (mv_target x) u) \<and>
    (\<forall>(flag, field)\<in>set offered_fields. getn a flag = JBool True \<longrightarrow> mv_managed x \<and>
       (\<exists>op. getn (mv_upkeep x) field = JStr op \<and> operation_is_allowed_for_target (mv_controller x) op (mv_target x))) \<and>
    (\<exists>modes. getn a ''dockerUpdateModes'' = JArr (map JStr modes) \<and> (\<forall>mode\<in>set modes. mode \<in> set [''pull'', ''build''] \<and> capable x ''docker_discovery'' \<and>
       (\<exists>c. mv_controller x = Some c \<and> mode_runs c (mv_target x) mode))) \<and>
    getn a ''maintenanceActive'' = JBool (has_active_job (getn v ''id'') (co_jobs d)) \<and> getn u ''ownerId'' = getn v ''ownerId''"
proof -
  obtain parent m x w a where s: "sub_obj v ''ansible'' = Inr m" "mapped_view_of (an_controllers d) m = Inr x"
    "view_docker x m (if mv_managed x then clear_results (mv_controller x) (mv_target x) (dput ''parentDevice'' (parent_public parent) v)
       else dput ''parentDevice'' (parent_public parent) v) = Inr w"
    "mapping_view x m (has_active_job (getn v ''id'') (co_jobs d)) = Inr a" and u: "u = dput ''ansible'' (JObj a) w"
    using assms unfolding public_instance_def Let_def rbind_Inr_iff by blast
  let ?v = "dput ''parentDevice'' (parent_public parent) v"
  let ?c = "if mv_managed x then clear_results (mv_controller x) (mv_target x) ?v else ?v"
  note w = view_docker_Inr [OF s(3)]
  have "results_fit (mv_controller x) (mv_target x) u" if "mv_managed x"
  proof -
    have "results_fit (mv_controller x) (mv_target x) ?c" using that clear_results_fit by simp
    moreover have "dget u k = dget ?c k \<or> k = ''docker'' \<and> operation_supported_by_host (mv_controller x) ''docker_discovery'' (mv_target x)"
      if "k \<noteq> ''ansible''" for k
    proof -
      have "dget u k = dget w k" using that u by simp
      then show ?thesis using view_docker_get [OF s(3), of k] unfolding capable_def by presburger
    qed
    ultimately show ?thesis by (rule results_fit_other)
  qed
  moreover have "getn u ''ownerId'' = getn v ''ownerId''"
  proof -
    have "getn ?c ''ownerId'' = getn v ''ownerId''" by (simp add: getn_def clear_results_def docker_results_def)
    then show ?thesis using w u by auto
  qed
  moreover note o' = mapping_view_offers [OF s(4)]
  ultimately show ?thesis using s(1,2) u docker_modes_run [of _ x] eligible_True [of x]
    by (intro exI [of _ m] exI [of _ x] exI [of _ a]) (fastforce intro!: exI [of _ "docker_modes x"])
qed

section \<open>The list\<close>

definition list_key :: "doc \<Rightarrow> string \<times> string \<times> string" where
  "list_key v = (text_of (getn v ''type''), lower (text_of (py_or (getn v ''name'') (JStr []))), text_of (getn v ''id''))"

lemma lower_name_Inr: "lower_name v = Inr n \<Longrightarrow> n = lower (text_of (py_or (getn v ''name'') (JStr [])))"
  by (auto simp: lower_name_def text_of_def Let_def split: json.splits)

lemma public_owner: "public_instance d v = Inr u \<Longrightarrow> getn u ''ownerId'' = getn v ''ownerId''"
proof -
  assume "public_instance d v = Inr u"
  then obtain parent x m w a where s: "view_docker x m (if mv_managed x then clear_results (mv_controller x) (mv_target x) (dput ''parentDevice'' (parent_public parent) v)
       else dput ''parentDevice'' (parent_public parent) v) = Inr w" and u: "u = dput ''ansible'' (JObj a) w"
    unfolding public_instance_def Let_def rbind_Inr_iff by blast
  show ?thesis using view_docker_get [OF s, of "''ownerId''"] u by (simp add: getn_def clear_results_def docker_results_def split: if_splits)
qed

text \<open>
  A user gets the public views of exactly the workloads that are visible to the user, each once, ordered by
  type, name without case, and identifier.
\<close>

theorem list_instances_exact:
  assumes "list_instances admin owner d = Inr vs"
  shows "\<exists>us. list_all2 (\<lambda>v u. public_instance d v = Inr u) (filter (visible_to admin owner) (dvals (an_instances d))) us \<and>
    mset vs = mset us \<and> sorted (map list_key vs) \<and> (\<forall>v\<in>set vs. admin \<or> getn v ''ownerId'' = JStr owner)"
proof -
  obtain us ns where u: "rmap (public_instance d) (filter (visible_to admin owner) (dvals (an_instances d))) = Inr us"
    and n: "rmap lower_name us = Inr ns"
    and v: "vs = map snd (sort_key (\<lambda>(n, v). (text_of (getn v ''type''), n, text_of (getn v ''id''))) (zip ns us))"
    using assms unfolding list_instances_def rbind_Inr_iff by blast
  let ?k = "\<lambda>(n, v). (text_of (getn v ''type''), n, text_of (getn v ''id''))"
  have l2: "list_all2 (\<lambda>v n. lower_name v = Inr n) us ns" using n unfolding rmap_Inr_iff .
  then have len: "length ns = length us" by (simp add: list_all2_lengthD)
  have key: "?k p = list_key (snd p)" if "p \<in> set (zip ns us)" for p
  proof -
    have "p \<in> set (zip ns us)" by (rule that)
    then obtain k where "k < length us" "p = (ns ! k, us ! k)" unfolding in_set_zip by (metis prod.collapse)
    then show ?thesis using l2 lower_name_Inr by (simp add: list_all2_conv_all_nth list_key_def)
  qed
  have "map list_key vs = map ?k (sort_key ?k (zip ns us))" unfolding v using key by (simp add: comp_def)
  then have "sorted (map list_key vs)" by simp
  moreover have "mset vs = mset us" unfolding v mset_map mset_sort unfolding mset_map [symmetric] map_snd_zip [OF len] ..
  moreover have "admin \<or> getn w ''ownerId'' = JStr owner" if "w \<in> set vs" for w
  proof -
    have "w \<in> set us" using that \<open>mset vs = mset us\<close> mset_eq_setD by blast
    then obtain x where "x \<in> set (filter (visible_to admin owner) (dvals (an_instances d)))" "public_instance d x = Inr w"
      using list_all2_right [OF u [unfolded rmap_Inr_iff]] by blast
    then show ?thesis using public_owner by (auto simp: visible_to_def)
  qed
  ultimately show ?thesis using u unfolding rmap_Inr_iff by blast
qed

section \<open>The summary\<close>

lemma count_disjoint: "(\<And>x. P x \<Longrightarrow> \<not> Q x) \<Longrightarrow> count_if P xs + count_if Q xs = count_if (\<lambda>x. P x \<or> Q x) xs"
  by (induction xs) (auto simp: count_if_def)

lemma count_three: "(\<And>x. P x \<Longrightarrow> \<not> Q x \<and> \<not> R x) \<Longrightarrow> (\<And>x. Q x \<Longrightarrow> \<not> R x) \<Longrightarrow>
    count_if P xs + count_if Q xs + count_if R xs = count_if (\<lambda>x. (P x \<or> Q x) \<or> R x) xs"
  by (induction xs) (auto simp: count_if_def)

lemma count_le: "count_if P xs \<le> length xs"
  by (simp add: count_if_def)

lemma count_all: "(\<And>x. x \<in> set xs \<Longrightarrow> P x) \<Longrightarrow> count_if P xs = length xs"
  by (simp add: count_if_def)

lemma health_known: "running_health h x \<Longrightarrow> \<not> unknown_container x"
  by (auto simp: running_health_def unknown_container_def lifecycle_unknown_def split: prod.splits)

lemma health_one: "running_health h x \<Longrightarrow> running_health h' x \<Longrightarrow> h = h'"
  by (auto simp: running_health_def split: prod.splits)

text \<open>
  The counts of the summary fit together: hosts are online, offline or unknown when their reachability is
  known or missing, no container counts as healthy, unhealthy, starting and unknown at once, one without health check
  counts in none of the three, and no count exceeds its total.
\<close>

theorem summary_counts:
  assumes "summary_of r vs = Inr s"
  shows "su_online s + su_offline s + su_unknown_hosts s \<le> su_hosts s \<and>
    ((\<forall>p\<in>set (dvals (summary_hosts r vs)). host_online p \<in> {JBool True, JBool False, JNull}) \<longrightarrow>
      su_online s + su_offline s + su_unknown_hosts s = su_hosts s) \<and>
    su_healthy s + su_unhealthy s + su_starting s + su_unknown s \<le> su_containers s \<and>
    su_healthy s + su_unhealthy s + su_starting s + su_unchecked s \<le> su_containers s \<and>
    su_running s + su_stopped s \<le> su_workloads s \<and> su_needs_updates s \<le> su_workloads s \<and> su_workloads s = length vs"
proof -
  obtain rows due where "rmap update_due vs = Inr due" and s: "s = (let hosts = map host_online (dvals (summary_hosts r vs)); cs = concat rows in
     \<lparr>su_hosts = length hosts, su_online = count_if (\<lambda>o'. o' = JBool True) hosts, su_offline = count_if (\<lambda>o'. o' = JBool False) hosts,
      su_unknown_hosts = count_if (\<lambda>o'. o' = JNull) hosts, su_workloads = length vs,
      su_running = count_if (\<lambda>v. getn v ''status'' = JStr ''running'') vs,
      su_stopped = count_if (\<lambda>v. getn v ''status'' \<in> set [JStr ''stopped'', JStr ''exited'']) vs, su_containers = length cs,
      su_healthy = count_if (running_health ''healthy'') cs, su_unhealthy = count_if (running_health ''unhealthy'') cs,
      su_starting = count_if (running_health ''starting'') cs,
      su_unchecked = count_if (\<lambda>(current, c). has_healthcheck c = Some False) cs, su_unknown = count_if unknown_container cs,
      su_needs_updates = count_if id due\<rparr>)"
    using assms unfolding summary_of_def Let_def rbind_Inr_iff by auto
  let ?hosts = "map host_online (dvals (summary_hosts r vs))"
  let ?cs = "concat rows"
  have hosts: "count_if (\<lambda>o'. o' = JBool True) ?hosts + count_if (\<lambda>o'. o' = JBool False) ?hosts + count_if (\<lambda>o'. o' = JNull) ?hosts =
      count_if (\<lambda>o'. (o' = JBool True \<or> o' = JBool False) \<or> o' = JNull) ?hosts"
    by (rule count_three) simp_all
  have health: "count_if (running_health ''healthy'') ?cs + count_if (running_health ''unhealthy'') ?cs + count_if (running_health ''starting'') ?cs =
      count_if (\<lambda>x. (running_health ''healthy'' x \<or> running_health ''unhealthy'' x) \<or> running_health ''starting'' x) ?cs"
    by (rule count_three) (auto dest: health_one)
  have "count_if (\<lambda>x. (running_health ''healthy'' x \<or> running_health ''unhealthy'' x) \<or> running_health ''starting'' x) ?cs + count_if Q ?cs \<le> length ?cs"
    if "\<And>h x. running_health h x \<Longrightarrow> \<not> Q x" for Q
    using that by (subst count_disjoint) (auto intro: count_le)
  from this [of unknown_container] this [of "\<lambda>(current, c). has_healthcheck c = Some False"]
  have more: "count_if (running_health ''healthy'') ?cs + count_if (running_health ''unhealthy'') ?cs + count_if (running_health ''starting'') ?cs +
      count_if unknown_container ?cs \<le> length ?cs"
    "count_if (running_health ''healthy'') ?cs + count_if (running_health ''unhealthy'') ?cs + count_if (running_health ''starting'') ?cs +
      count_if (\<lambda>(current, c). has_healthcheck c = Some False) ?cs \<le> length ?cs"
    unfolding health using health_known by (auto simp: running_health_def split: prod.splits)
  have status: "count_if (\<lambda>v. getn v ''status'' = JStr ''running'') vs + count_if (\<lambda>v. getn v ''status'' \<in> set [JStr ''stopped'', JStr ''exited'']) vs \<le> length vs"
    by (subst count_disjoint) (auto intro: count_le)
  have "length due = length vs" using \<open>rmap update_due vs = Inr due\<close> by (rule rmap_length)
  then have "count_if id due \<le> length vs" using count_le [of id due] by simp
  moreover have "count_if (\<lambda>o'. (o' = JBool True \<or> o' = JBool False) \<or> o' = JNull) ?hosts = length ?hosts"
    if "\<forall>p\<in>set (dvals (summary_hosts r vs)). host_online p \<in> {JBool True, JBool False, JNull}"
    using that by (intro count_all) auto
  ultimately show ?thesis using hosts more status count_le [of _ ?hosts] unfolding s Let_def by simp
qed

section \<open>An example\<close>

definition demo_docker_host :: inv_host where
  "demo_docker_host = \<lparr>ih_name = ''web'', ih_address = ''10.0.0.5'', ih_groups = [''docker_hosts''], ih_projects = [(''app'', ''pull'')]\<rparr>"

definition demo_approval :: "string \<Rightarrow> string list \<Rightarrow> string list \<Rightarrow> approval" where
  "demo_approval playbook targets modes = \<lparr>ap_playbook = playbook, ap_label = ''Docker'', ap_check_mode = False, ap_targets = targets, ap_groups = [],
     ap_variables = [], ap_reboot = None, ap_project = Some ''docker_project'', ap_mode_variable = Some ''mode'', ap_modes = modes\<rparr>"

definition demo_docker_controller :: controller where
  "demo_docker_controller = demo_controller\<lparr>ct_inventory := \<lparr>iv_hosts = [(''web'', demo_docker_host)], iv_groups = [], iv_at = None\<rparr>,
     ct_discovered := [''up.yml'', ''pull.yml''],
     ct_approvals := [(''docker_update'', demo_approval ''up.yml'' [''nas''] [''pull'', ''build'']), (''docker_update_pull'', demo_approval ''pull.yml'' [] [''pull''])]\<rparr>"

definition demo_mapping :: doc where
  "demo_mapping = [(''enabled'', JBool True), (''controllerId'', JStr ''primary''), (''inventoryHost'', JStr ''web'')]"

definition demo_projects :: doc where
  "demo_projects = [(''projects'', JArr [JObj [(''name'', JStr ''app'')], JObj [(''name'', JStr ''old'')]])]"

definition demo_instance :: doc where
  "demo_instance = [(''id'', JStr ''k''), (''ownerId'', JStr ''u''), (''type'', JStr ''vm''), (''name'', JStr ''Web''), (''status'', JStr ''running''),
     (''updateState'', JObj [(''state'', JStr ''unknown'')]), (''ansible'', JObj demo_mapping), (''docker'', JObj demo_projects)]"

definition demo_views :: inventory_doc where
  "demo_views = \<lparr>an_controllers = [(''primary'', demo_docker_controller)], an_credentials = [], an_instances = [(''k'', demo_instance)],
     co_devices = [], co_jobs = []\<rparr>"

text \<open>
  The generic approval supports pulling but admits another host only; the older approval for pulling admits every host.
  The view offers to pull, the operation resolves to the generic approval, and its command is refused.
\<close>

theorem offered_mode_refused:
  "map_sum id docker_modes (mapped_view_of [(''primary'', demo_docker_controller)] demo_mapping) = Inr [''pull''] \<and>
   docker_update_operation demo_docker_controller (JStr ''pull'') = Inr ''docker_update'' \<and>
   is_error (playbook_command (\<lambda>_. []) (\<lambda>_. []) demo_docker_controller ''docker_update'' (JStr ''web'') vars)"
proof -
  have "approved_playbook demo_docker_controller ''docker_update'' = Inr (demo_approval ''up.yml'' [''nas''] [''pull'', ''build''], ''/srv/ansible/plays/up.yml'')"
    by code_simp
  then have "is_error (playbook_command (\<lambda>_. []) (\<lambda>_. []) demo_docker_controller ''docker_update'' (JStr ''web'') vars)"
    using demo_host_name by (simp add: playbook_command_def validate_inventory_host_def str_or_empty_def require_operation_capability_def inventory_host_def
        required_inventory_group_def required_groups_def target_allowed_def demo_docker_controller_def demo_docker_host_def demo_approval_def)
  moreover have "map_sum id docker_modes (mapped_view_of [(''primary'', demo_docker_controller)] demo_mapping) = Inr [''pull'']" by code_simp
  moreover have "docker_update_operation demo_docker_controller (JStr ''pull'') = Inr ''docker_update''" by code_simp
  ultimately show ?thesis by blast
qed

lemma demo_joined: "map_sum id (\<lambda>d. map (\<lambda>p. (getn p ''name'', getn p ''approved'')) (case rows_of (getn d ''projects'') of Inr ps \<Rightarrow> ps | Inl _ \<Rightarrow> []))
    (reconcile_docker_projects demo_docker_controller ''web'' [] demo_projects) = Inr [(JStr ''app'', JBool True), (JStr ''old'', JBool False)]"
  by code_simp

lemma demo_joined_Inr: "\<exists>d. reconcile_docker_projects demo_docker_controller ''web'' [] demo_projects = Inr d"
  using demo_joined by (cases "reconcile_docker_projects demo_docker_controller ''web'' [] demo_projects") simp_all

theorem reconcile_exact_witness: "\<exists>qs. list_all2 (project_joined (host_projects demo_docker_controller ''web'') ''web'')
    [[(''name'', JStr ''app'')], [(''name'', JStr ''old'')]] qs"
proof -
  obtain d where d: "reconcile_docker_projects demo_docker_controller ''web'' [] demo_projects = Inr d" using demo_joined_Inr by blast
  have p: "getn demo_projects ''projects'' = JArr (map JObj [[(''name'', JStr ''app'')], [(''name'', JStr ''old'')]])" by (simp add: demo_projects_def getn_def)
  have inj: "map JObj xs = map JObj ys \<longleftrightarrow> xs = ys" for xs ys :: "doc list" by (simp add: inj_map_eq_map inj_on_def)
  from reconcile_exact [OF d] show ?thesis unfolding p json.inject inj by auto
qed


lemma demo_listed: "map_sum id (map (\<lambda>v. getn v ''id'')) (list_instances False ''u'' demo_views) = Inr [JStr ''k'']"
  by code_simp

lemma demo_public: "map_sum id (\<lambda>v. getn v ''updateState'') (public_instance demo_views demo_instance) = Inr JNull"
  by code_simp

theorem public_view_exact_witness:
  "\<exists>u a. public_instance demo_views demo_instance = Inr u \<and> getn u ''ansible'' = JObj a \<and> getn a ''maintenanceActive'' = JBool False"
proof -
  obtain u where u: "public_instance demo_views demo_instance = Inr u" using demo_public by (cases "public_instance demo_views demo_instance") simp_all
  have "\<not> has_active_job (getn demo_instance ''id'') (co_jobs demo_views)" by (simp add: has_active_job_def demo_views_def)
  then show ?thesis using u public_view_exact [OF u] by auto
qed

theorem list_instances_exact_witness: "\<exists>vs. list_instances False ''u'' demo_views = Inr vs \<and> sorted (map list_key vs) \<and> vs \<noteq> []"
proof -
  obtain vs where v: "list_instances False ''u'' demo_views = Inr vs" using demo_listed by (cases "list_instances False ''u'' demo_views") simp_all
  then show ?thesis using list_instances_exact [OF v] demo_listed by auto
qed

lemma demo_summary: "map_sum id su_running (summary_of (\<lambda>_. []) [demo_instance]) = Inr 1"
  by code_simp

theorem summary_counts_witness: "\<exists>s. summary_of (\<lambda>_. []) [demo_instance] = Inr s \<and> su_running s = 1 \<and> su_stopped s = 0"
proof -
  obtain s where s: "summary_of (\<lambda>_. []) [demo_instance] = Inr s" "su_running s = 1"
    using demo_summary by (cases "summary_of (\<lambda>_. []) [demo_instance]") simp_all
  then show ?thesis using summary_counts [OF s(1)] by simp
qed

end
