(* ===== verification/Catalogue.thy ===== *)
theory Catalogue
  imports VpnRecord Auth
begin

text \<open>
  The client of the VPN provider's catalogue, \<open>backend/nordvpn_client.py\<close>: parsing of untrusted recommendations and
  locations, and the search for the server in use, whose pages are shared by the lookups of one background pass. What
  a request answers, the JSON decoder, the canonical form of an IP address, the conversion to floats and the quoting
  of error texts are arguments; folding of case is that of ASCII.
\<close>

section \<open>Recommendations\<close>

text \<open>A key is 32 bytes in strict base64: the alphabet, then at most two signs of padding.\<close>

definition strict_b64 :: "string \<Rightarrow> bool" where
  "strict_b64 s \<longleftrightarrow> (let body = rev (dropWhile (\<lambda>c. c = CHR ''='') (rev s)) in
     length s \<le> length body + 2 \<and> list_all (\<lambda>c. b64_index c \<noteq> None) body)"

definition valid_key :: "string \<Rightarrow> bool" where
  "valid_key s \<longleftrightarrow> length s = 44 \<and> strict_b64 s \<and> map_option length (b64decode s) = Some 32"

fun first_key :: "('a \<Rightarrow> 'b option) \<Rightarrow> 'a list \<Rightarrow> 'b option" where
  "first_key f [] = None"
| "first_key f (x # xs) = (case f x of Some y \<Rightarrow> Some y | None \<Rightarrow> first_key f xs)"

definition value_key :: "json \<Rightarrow> string option" where
  "value_key v = (case v of JObj d \<Rightarrow> (case getn d ''value'' of JStr s \<Rightarrow> if valid_key s then Some s else None | _ \<Rightarrow> None) | _ \<Rightarrow> None)"

definition named_key :: "(json \<Rightarrow> string) \<Rightarrow> json \<Rightarrow> string option" where
  "named_key r v = (case v of
     JObj d \<Rightarrow> if lower (case dget d ''name'' of None \<Rightarrow> [] | Some w \<Rightarrow> str_json r w) \<in> set [''public_key'', ''public key'', ''pubkey''] then value_key v else None
   | _ \<Rightarrow> None)"

definition technology_key :: "(json \<Rightarrow> string) \<Rightarrow> json \<Rightarrow> string option" where
  "technology_key r v = (case v of
     JObj t \<Rightarrow> if getn t ''identifier'' \<noteq> JStr ''wireguard_udp'' then None
       else (case getn t ''metadata'' of
         JArr ms \<Rightarrow> (case first_key (named_key r) ms of Some k \<Rightarrow> Some k | None \<Rightarrow> first_key value_key ms)
       | _ \<Rightarrow> None)
   | _ \<Rightarrow> None)"

definition metadata_key :: "(json \<Rightarrow> string) \<Rightarrow> json \<Rightarrow> string option" where
  "metadata_key r v = (case v of JArr ts \<Rightarrow> first_key (technology_key r) ts | _ \<Rightarrow> None)"

text \<open>What the parser relies on.\<close>

record catalogue_py =
  cp_str :: "json \<Rightarrow> string"
  cp_address :: "string \<Rightarrow> string option"
  cp_float :: float_conv
  cp_repr :: "string \<Rightarrow> string"

text \<open>The first location with a name gives country and city.\<close>

fun row_place :: "(json \<Rightarrow> string) \<Rightarrow> json list \<Rightarrow> string \<times> string" where
  "row_place r [] = ([], [])"
| "row_place r (l # ls) = (case l of
     JObj d \<Rightarrow> (case getn d ''country'' of
       JObj c \<Rightarrow> (let country = strip (str_or_empty r (getn c ''name''));
            city = (case getn c ''city'' of JObj k \<Rightarrow> strip (str_or_empty r (getn k ''name'')) | _ \<Rightarrow> []) in
          if country \<noteq> [] \<or> city \<noteq> [] then (country, city) else row_place r ls)
     | _ \<Rightarrow> row_place r ls)
   | _ \<Rightarrow> row_place r ls)"

definition row_load :: "float_conv \<Rightarrow> json \<Rightarrow> json result" where
  "row_load fc v = (if v = JNull then Inr JNull
     else (case float_of fc v of Inr f \<Rightarrow> Inr (JFloat f) | Inl e \<Rightarrow> if is_caught e then Inr JNull else Inl e))"

definition row_port :: "doc \<Rightarrow> int option result" where
  "row_port d = (case int_of_json (py_or (getn d ''port'') (py_or (getn d ''station_port'') (JInt 51820))) of
     Inr n \<Rightarrow> Inr (Some n) | Inl e \<Rightarrow> if is_caught e then Inr None else Inl e)"

text \<open>The host name, key, address and port of a row, when they are usable.\<close>

definition row_peer :: "catalogue_py \<Rightarrow> doc \<Rightarrow> (string \<times> string \<times> string \<times> int) option result" where
  "row_peer py d = (case (getn d ''hostname'', metadata_key (cp_str py) (getn d ''technologies'')) of
     (JStr host, Some key) \<Rightarrow> if strip host = [] then Inr None
       else (case cp_address py (strip (str_json (cp_str py) (getn d ''station''))) of
         None \<Rightarrow> Inr None
       | Some ip \<Rightarrow> rbind (row_port d) (\<lambda>p. Inr (case p of None \<Rightarrow> None | Some port \<Rightarrow> Some (strip host, key, ip, port))))
   | _ \<Rightarrow> Inr None)"

definition row_server :: "catalogue_py \<Rightarrow> int \<Rightarrow> doc \<Rightarrow> string \<times> string \<times> string \<times> int \<Rightarrow> vserver result" where
  "row_server py now d peer = (case peer of (host, key, ip, port) \<Rightarrow>
     rbind (items_of (getn d ''locations'')) (\<lambda>ls. rbind (row_load (cp_float py) (getn d ''load'')) (\<lambda>load.
     let place = row_place (cp_str py) ls in
     Inr \<lparr>sv_id = (case getn d ''id'' of JInt n \<Rightarrow> if 0 < n then JInt n else JNull | _ \<Rightarrow> JNull), sv_host = host, sv_ip = ip, sv_port = JInt port,
       sv_country = fst place, sv_city = snd place, sv_load = load, sv_key = key, sv_at = JInt now\<rparr>)))"

fun parse_rows :: "catalogue_py \<Rightarrow> int \<Rightarrow> string list \<Rightarrow> string list \<Rightarrow> json list \<Rightarrow> vserver list result" where
  "parse_rows py now ips keys [] = Inr []"
| "parse_rows py now ips keys (row # rows) = (case row of
     JObj d \<Rightarrow> rbind (row_peer py d) (\<lambda>p. case p of
         None \<Rightarrow> parse_rows py now ips keys rows
       | Some (host, key, ip, port) \<Rightarrow>
           if port < 1 \<or> 65535 < port \<or> ip \<in> set ips \<or> key \<in> set keys then parse_rows py now ips keys rows
           else rbind (row_server py now d (host, key, ip, port)) (\<lambda>s.
             rbind (parse_rows py now (ip # ips) (key # keys) rows) (\<lambda>ss. Inr (s # ss))))
   | _ \<Rightarrow> parse_rows py now ips keys rows)"

definition parse_candidates :: "catalogue_py \<Rightarrow> int \<Rightarrow> json \<Rightarrow> vserver list result" where
  "parse_candidates py now payload = (case payload of JArr rows \<Rightarrow> parse_rows py now [] [] rows
     | _ \<Rightarrow> Inl (RuntimeError ''NordVPN returned an unexpected response''))"

section \<open>Locations\<close>

record city_choice =
  cy_id :: int
  cy_name :: string

record country_choice =
  cn_id :: int
  cn_name :: string
  cn_cities :: "city_choice list"

definition place_entry :: "json \<Rightarrow> (int \<times> string \<times> doc) option" where
  "place_entry v = (case v of
     JObj d \<Rightarrow> (case (getn d ''name'', getn d ''id'') of
       (JStr s, JInt i) \<Rightarrow> (let name = take 80 (strip s) in if name = [] \<or> i \<le> 0 then None else Some (i, name, d))
     | _ \<Rightarrow> None)
   | _ \<Rightarrow> None)"

fun distinct_places :: "string list \<Rightarrow> json list \<Rightarrow> (int \<times> string \<times> doc) list" where
  "distinct_places seen [] = []"
| "distinct_places seen (v # vs) = (case place_entry v of
     None \<Rightarrow> distinct_places seen vs
   | Some (i, name, d) \<Rightarrow> if lower name \<in> set seen then distinct_places seen vs
       else (i, name, d) # distinct_places (lower name # seen) vs)"

definition cities_of :: "doc \<Rightarrow> city_choice list" where
  "cities_of d = sort_key (\<lambda>c. lower (cy_name c)) (map (\<lambda>(i, name, _). \<lparr>cy_id = i, cy_name = name\<rparr>)
     (distinct_places [] (case getn d ''cities'' of JArr xs \<Rightarrow> take 500 xs | _ \<Rightarrow> [])))"

definition parse_locations :: "json \<Rightarrow> country_choice list result" where
  "parse_locations payload = (case payload of
     JArr xs \<Rightarrow> Inr (sort_key (\<lambda>c. lower (cn_name c)) (map (\<lambda>(i, name, d). \<lparr>cn_id = i, cn_name = name, cn_cities = cities_of d\<rparr>)
       (distinct_places [] (take 300 xs))))
   | _ \<Rightarrow> Inl (RuntimeError ''NordVPN country catalogue was malformed''))"

section \<open>Requests\<close>

text \<open>The three requests: the countries, recommendations for a country and city, a page of the servers of a country.\<close>

datatype catalogue_request = Countries | Recommendations int "int option" int | Servers int nat

record http_reply =
  hr_status :: int
  hr_chunks :: "string list"

record catalogue_net =
  nt_get :: "catalogue_request \<Rightarrow> http_reply result"
  nt_loads :: "string \<Rightarrow> json result"

definition max_response :: nat where "max_response = 512000"

definition page_limit :: nat where "page_limit = 100"

definition max_pages :: nat where "max_pages = 50"

fun read_chunks :: "nat \<Rightarrow> string list \<Rightarrow> string option" where
  "read_chunks n [] = Some []"
| "read_chunks n (c # cs) = (if max_response < n + length c then None else map_option ((@) c) (read_chunks (n + length c) cs))"

definition unavailable_now :: failure where
  "unavailable_now = RuntimeError ''NordVPN discovery is temporarily unavailable''"

definition get_json :: "catalogue_net \<Rightarrow> catalogue_request \<Rightarrow> json result" where
  "get_json net q = (case nt_get net q of
     Inl e \<Rightarrow> Inl unavailable_now
   | Inr a \<Rightarrow> if hr_status a = 429 then Inl (RuntimeError ''NordVPN rate limited discovery; it will retry later'')
       else if hr_status a \<noteq> 200 then Inl (RuntimeError (''NordVPN discovery failed (HTTP '' @ str_of_int (hr_status a) @ '')''))
       else (case read_chunks 0 (hr_chunks a) of
         None \<Rightarrow> Inl (RuntimeError ''NordVPN response exceeded the safety limit'')
       | Some body \<Rightarrow> (case nt_loads net body of Inl e \<Rightarrow> Inl unavailable_now | Inr v \<Rightarrow> Inr v)))"

definition locations :: "catalogue_net \<Rightarrow> country_choice list result" where
  "locations net = rbind (get_json net Countries) parse_locations"

definition location_ids :: "catalogue_py \<Rightarrow> catalogue_net \<Rightarrow> string \<Rightarrow> string \<Rightarrow> (int \<times> int option) result" where
  "location_ids py net country city = rbind (locations net) (\<lambda>cs.
     case find (\<lambda>c. lower (cn_name c) = strip (lower country)) cs of
       None \<Rightarrow> Inl (RuntimeError (''NordVPN does not recognise country '' @ cp_repr py country))
     | Some c \<Rightarrow> if strip (lower city) = [] then Inr (cn_id c, None)
         else (case find (\<lambda>k. lower (cy_name k) = strip (lower city)) (cn_cities c) of
           Some k \<Rightarrow> Inr (cn_id c, Some (cy_id k))
         | None \<Rightarrow> Inl (RuntimeError (''NordVPN does not recognise city '' @ cp_repr py city @ '' in '' @ cp_repr py country))))"

definition discover_servers :: "catalogue_py \<Rightarrow> catalogue_net \<Rightarrow> int \<Rightarrow> string \<Rightarrow> int \<Rightarrow> string \<Rightarrow> vserver list result" where
  "discover_servers py net now country limit city =
     rbind (location_ids py net country city) (\<lambda>(i, k).
     rbind (get_json net (Recommendations i k (max 1 (min 50 limit)))) (parse_candidates py now))"

section \<open>The server in use\<close>

text \<open>The pages read so far of a country.\<close>

record page_state =
  pg_country :: int
  pg_servers :: "vserver list"
  pg_offset :: nat
  pg_complete :: bool

definition server_matches :: "json \<Rightarrow> string \<Rightarrow> string \<Rightarrow> vserver \<Rightarrow> bool" where
  "server_matches sid hostname endpoint s =
     (let e = lower (strip endpoint); h = lower (strip hostname) in
      if e \<noteq> [] then e = lower (sv_ip s) \<or> e = lower (sv_host s)
      else (case sid of JInt n \<Rightarrow> if 0 < n then sv_id s = JInt n else h \<noteq> [] \<and> lower (sv_host s) = h
        | _ \<Rightarrow> h \<noteq> [] \<and> lower (sv_host s) = h))"

definition read_page :: "catalogue_py \<Rightarrow> catalogue_net \<Rightarrow> int \<Rightarrow> page_state \<Rightarrow> (vserver list \<times> page_state) result" where
  "read_page py net now s = rbind (get_json net (Servers (pg_country s) (pg_offset s))) (\<lambda>v. case v of
     JArr rows \<Rightarrow> rbind (parse_candidates py now v) (\<lambda>page. Inr (page,
       s\<lparr>pg_servers := pg_servers s @ page, pg_offset := pg_offset s + length rows, pg_complete := length rows < page_limit\<rparr>))
   | _ \<Rightarrow> Inl (RuntimeError ''NordVPN server catalogue was malformed''))"

text \<open>The loop, with the number of pages it may still read.\<close>

fun scan_pages :: "catalogue_py \<Rightarrow> catalogue_net \<Rightarrow> int \<Rightarrow> (vserver \<Rightarrow> bool) \<Rightarrow> nat \<Rightarrow> page_state \<Rightarrow> vserver result \<times> page_state" where
  "scan_pages py net now good n s =
     (if pg_complete s then (Inl (RuntimeError ''Connected NordVPN server was not found in the selected country''), s)
      else (case n of
        0 \<Rightarrow> (Inl (RuntimeError ''NordVPN server catalogue exceeded the safety limit''), s)
      | Suc k \<Rightarrow> (case read_page py net now s of
          Inl e \<Rightarrow> (Inl e, s)
        | Inr (page, s') \<Rightarrow> (case find good page of
            Some x \<Rightarrow> (Inr x, s')
          | None \<Rightarrow> scan_pages py net now good k s'))))"

declare scan_pages.simps [simp del]

definition search_state :: "catalogue_py \<Rightarrow> catalogue_net \<Rightarrow> int \<Rightarrow> (vserver \<Rightarrow> bool) \<Rightarrow> page_state \<Rightarrow> vserver result \<times> page_state" where
  "search_state py net now good s = (case find good (pg_servers s) of
     Some x \<Rightarrow> (Inr x, s) | None \<Rightarrow> scan_pages py net now good (max_pages - pg_offset s div page_limit) s)"

definition connected_server :: "catalogue_py \<Rightarrow> catalogue_net \<Rightarrow> int \<Rightarrow> string \<Rightarrow> json \<Rightarrow> string \<Rightarrow> string \<Rightarrow> (string, page_state) dict \<Rightarrow>
    vserver result \<times> (string, page_state) dict" where
  "connected_server py net now country sid hostname endpoint shared =
     (let key = strip (lower country) in
      case (case dget shared key of
          Some s \<Rightarrow> Inr s
        | None \<Rightarrow> rbind (location_ids py net country []) (\<lambda>(i, _). Inr \<lparr>pg_country = i, pg_servers = [], pg_offset = 0, pg_complete = False\<rparr>)) of
        Inl e \<Rightarrow> (Inl e, shared)
      | Inr s \<Rightarrow> (let (x, s') = search_state py net now (server_matches sid hostname endpoint) s in (x, dput key s' shared)))"

section \<open>What the parsers accept\<close>

definition server_ok :: "catalogue_py \<Rightarrow> vserver \<Rightarrow> bool" where
  "server_ok py s \<longleftrightarrow> valid_key (sv_key s) \<and> (\<exists>t. cp_address py t = Some (sv_ip s)) \<and> sv_host s \<noteq> [] \<and>
     (\<exists>p. sv_port s = JInt p \<and> 1 \<le> p \<and> p \<le> 65535) \<and> (sv_id s = JNull \<or> (\<exists>n. sv_id s = JInt n \<and> 0 < n))"

lemma first_key_Some: "first_key f xs = Some y \<Longrightarrow> \<exists>x\<in>set xs. f x = Some y"
  by (induction xs) (auto split: option.splits)

lemma value_key_valid: "value_key v = Some k \<Longrightarrow> valid_key k"
  by (auto simp: value_key_def split: json.splits if_splits)

lemma named_key_valid: "named_key r v = Some k \<Longrightarrow> valid_key k"
  by (auto simp: named_key_def split: json.splits if_splits dest: value_key_valid)

lemma metadata_key_valid: "metadata_key r v = Some k \<Longrightarrow> valid_key k"
  by (auto simp: metadata_key_def technology_key_def split: json.splits if_splits option.splits
      dest!: first_key_Some dest: named_key_valid value_key_valid)

lemma row_peer_Some:
  assumes "row_peer py d = Inr (Some (host, key, ip, port))"
  shows "host \<noteq> [] \<and> valid_key key \<and> (\<exists>t. cp_address py t = Some ip)"
  using assms by (auto simp: row_peer_def rbind_Inr_iff split: json.splits option.splits if_splits dest: metadata_key_valid)

lemma row_server_ok:
  assumes "row_server py now d (host, key, ip, port) = Inr s" "row_peer py d = Inr (Some (host, key, ip, port))" "1 \<le> port" "port \<le> 65535"
  shows "server_ok py s \<and> sv_ip s = ip \<and> sv_key s = key"
  using assms row_peer_Some [OF assms(2)]
  by (auto simp: row_server_def server_ok_def rbind_Inr_iff Let_def split: json.splits if_splits)

lemma parse_rows_ok:
  "parse_rows py now ips keys rows = Inr ss \<Longrightarrow> list_all (server_ok py) ss \<and> distinct (map sv_ip ss) \<and> distinct (map sv_key ss) \<and>
    set (map sv_ip ss) \<inter> set ips = {} \<and> set (map sv_key ss) \<inter> set keys = {} \<and> length ss \<le> length rows"
proof (induction rows arbitrary: ips keys ss)
  case Nil
  then show ?case by simp
next
  case (Cons row rows)
  show ?case
  proof (cases "parse_rows py now ips keys rows = Inr ss")
    case True
    then show ?thesis using Cons.IH [OF True] by simp
  next
    case False
    then obtain d where row: "row = JObj d" using Cons.prems by (cases row) auto
    obtain host key ip port where peer: "row_peer py d = Inr (Some (host, key, ip, port))"
      using Cons.prems False by (auto simp: row rbind_Inr_iff split: option.splits)
    have free: "\<not> (port < 1 \<or> 65535 < port \<or> ip \<in> set ips \<or> key \<in> set keys)"
      using Cons.prems False by (auto simp: row peer)
    obtain s ts where d: "row_server py now d (host, key, ip, port) = Inr s"
      "parse_rows py now (ip # ips) (key # keys) rows = Inr ts" "ss = s # ts"
      using Cons.prems free by (auto simp: row peer rbind_Inr_iff)
    have ok: "server_ok py s" "sv_ip s = ip" "sv_key s = key" using row_server_ok [OF d(1) peer] free by auto
    then show ?thesis using Cons.IH [OF d(2)] d(3) free by auto
  qed
qed

text \<open>
  Whatever the provider answers, an accepted recommendation has a key of 32 bytes, a canonical address, a
  port and a host name, and no address and no key occurs twice.
\<close>

theorem candidates_usable:
  assumes "parse_candidates py now payload = Inr ss"
  shows "list_all (server_ok py) ss \<and> distinct (map sv_ip ss) \<and> distinct (map sv_key ss) \<and>
    (\<exists>rows. payload = JArr rows \<and> length ss \<le> length rows)"
  using assms parse_rows_ok by (auto simp: parse_candidates_def split: json.splits)

lemma distinct_places_ok: "distinct (map (\<lambda>(i, name, d). lower name) (distinct_places seen vs)) \<and>
    set (map (\<lambda>(i, name, d). lower name) (distinct_places seen vs)) \<inter> set seen = {} \<and>
    (\<forall>(i, name, d)\<in>set (distinct_places seen vs). 0 < i \<and> name \<noteq> [] \<and> length name \<le> 80) \<and> length (distinct_places seen vs) \<le> length vs"
proof (induction vs arbitrary: seen)
  case Nil
  then show ?case by simp
next
  case (Cons v vs)
  show ?case
  proof (cases "place_entry v")
    case None
    then show ?thesis using Cons.IH [of seen] by simp
  next
    case (Some e)
    obtain i name d where e: "e = (i, name, d)" by (cases e)
    have ok: "0 < i \<and> name \<noteq> [] \<and> length name \<le> 80"
      using Some e by (auto simp: place_entry_def Let_def split: json.splits if_splits)
    show ?thesis using Cons.IH [of seen] Cons.IH [of "lower name # seen"] Some e ok by auto
  qed
qed

definition choices_ok :: "('a \<Rightarrow> int) \<Rightarrow> ('a \<Rightarrow> string) \<Rightarrow> nat \<Rightarrow> 'a list \<Rightarrow> bool" where
  "choices_ok ident name n xs \<longleftrightarrow> length xs \<le> n \<and> sorted (map (\<lambda>x. lower (name x)) xs) \<and> distinct (map (\<lambda>x. lower (name x)) xs) \<and>
     (\<forall>x\<in>set xs. 0 < ident x \<and> name x \<noteq> [] \<and> length (name x) \<le> 80)"

lemma choices_sorted:
  assumes "\<forall>p\<in>set ps. ident (f p) = fst p \<and> name (f p) = fst (snd p)" "ps = distinct_places [] vs" "length vs \<le> n"
  shows "choices_ok ident name n (sort_key (\<lambda>x. lower (name x)) (map f ps))"
proof -
  note ok = distinct_places_ok [of "[]" vs, folded assms(2)]
  have names: "map (\<lambda>x. lower (name x)) (map f ps) = map (\<lambda>(i, name, d). lower name) ps" using assms(1) by auto
  have "distinct (map (\<lambda>x. lower (name x)) (map f ps))" using ok unfolding names by blast
  then have "distinct (map f ps)" "inj_on (\<lambda>x. lower (name x)) (set (map f ps))" unfolding distinct_map [of _ "map f ps"] by auto
  then have "distinct (map (\<lambda>x. lower (name x)) (sort_key (\<lambda>x. lower (name x)) (map f ps)))"
    unfolding distinct_map [of _ "sort_key g xs" for g xs] by simp
  moreover have "\<forall>x\<in>set (map f ps). 0 < ident x \<and> name x \<noteq> [] \<and> length (name x) \<le> 80" using ok assms(1) by fastforce
  ultimately show ?thesis using ok assms(3) by (simp add: choices_ok_def)
qed

lemma cities_ok: "choices_ok cy_id cy_name 500 (cities_of d)"
  unfolding cities_of_def by (rule choices_sorted [OF _ refl]) (auto split: json.splits)

text \<open>
  The choices of countries and cities are bounded, have names and positive identifiers, are ordered, and
  no name occurs twice whatever its case.
\<close>

theorem locations_bounded:
  assumes "parse_locations payload = Inr cs"
  shows "choices_ok cn_id cn_name 300 cs \<and> (\<forall>c\<in>set cs. choices_ok cy_id cy_name 500 (cn_cities c))"
proof -
  obtain xs where cs: "cs = sort_key (\<lambda>c. lower (cn_name c)) (map (\<lambda>(i, name, d). \<lparr>cn_id = i, cn_name = name, cn_cities = cities_of d\<rparr>)
      (distinct_places [] (take 300 xs)))"
    using assms by (auto simp: parse_locations_def split: json.splits)
  have "choices_ok cn_id cn_name 300 cs" unfolding cs by (rule choices_sorted [OF _ refl]) auto
  then show ?thesis unfolding cs using cities_ok by auto
qed

text \<open>
  Locations that are a number are no list: the parser raises a type error, which no caller expects of the catalogue.
\<close>

definition demo_row :: doc where
  "demo_row = [(''hostname'', JStr ''nl1.example''), (''station'', JStr ''192.0.2.1''),
     (''technologies'', JArr [JObj [(''identifier'', JStr ''wireguard_udp''),
       (''metadata'', JArr [JObj [(''name'', JStr ''public_key''), (''value'', JStr (replicate 43 (CHR ''A'') @ ''=''))]])]])]"

definition demo_py :: catalogue_py where
  "demo_py = \<lparr>cp_str = \<lambda>_. [], cp_address = Some, cp_float = \<lparr>fc_str = \<lambda>_. None, fc_int = \<lambda>_. None, fc_text = \<lambda>_. []\<rparr>, cp_repr = id\<rparr>"

theorem location_number_raises: "parse_candidates demo_py 0 (JArr [JObj ((''locations'', JInt 5) # demo_row)]) = Inl TypeError"
  by code_simp

lemma candidates_usable_witness: "list_all (server_ok demo_py) [] \<and> (\<exists>rows. JArr [JInt 1] = JArr rows)"
  using candidates_usable [of demo_py 0 "JArr [JInt 1]" "[]"] by (simp add: parse_candidates_def)

lemma locations_bounded_witness: "choices_ok cn_id cn_name 300 [\<lparr>cn_id = 1, cn_name = ''Peru'', cn_cities = []\<rparr>]"
proof -
  have "parse_locations (JArr [JObj [(''id'', JInt 1), (''name'', JStr ''Peru'')]]) = Inr [\<lparr>cn_id = 1, cn_name = ''Peru'', cn_cities = []\<rparr>]"
    by code_simp
  from locations_bounded [OF this] show ?thesis by blast
qed

section \<open>Shared pages\<close>

text \<open>The first pages of a country.\<close>

fun read_pages :: "catalogue_py \<Rightarrow> catalogue_net \<Rightarrow> int \<Rightarrow> nat \<Rightarrow> page_state \<Rightarrow> page_state option" where
  "read_pages py net now 0 s = Some s"
| "read_pages py net now (Suc k) s = (if pg_complete s then None
     else (case read_page py net now s of Inl e \<Rightarrow> None | Inr (page, s') \<Rightarrow> read_pages py net now k s'))"

lemma read_page_Inr:
  assumes "read_page py net now s = Inr (page, s')"
  obtains rows where "get_json net (Servers (pg_country s) (pg_offset s)) = Inr (JArr rows)"
    "s' = s\<lparr>pg_servers := pg_servers s @ page, pg_offset := pg_offset s + length rows, pg_complete := length rows < page_limit\<rparr>"
proof -
  obtain v where v: "get_json net (Servers (pg_country s) (pg_offset s)) = Inr v" using assms by (auto simp: read_page_def rbind_Inr_iff)
  then show thesis using assms that by (cases v) (auto simp: read_page_def rbind_Inr_iff)
qed

lemma read_page_servers: "read_page py net now s = Inr (page, s') \<Longrightarrow> pg_servers s' = pg_servers s @ page"
  by (erule read_page_Inr) simp

lemma find_append: "find f (xs @ ys) = (case find f xs of Some x \<Rightarrow> Some x | None \<Rightarrow> find f ys)"
  by (induction xs) auto

lemma scan_resumes:
  assumes "read_pages py net now k s = Some s'" "k \<le> n"
  shows "\<exists>ps. pg_servers s' = pg_servers s @ ps \<and> (case find good ps of
    Some x \<Rightarrow> fst (scan_pages py net now good n s) = Inr x | None \<Rightarrow> scan_pages py net now good n s = scan_pages py net now good (n - k) s')"
  using assms
proof (induction k arbitrary: s n)
  case 0
  then show ?case by simp
next
  case (Suc k)
  obtain m where n: "n = Suc m" "k \<le> m" using Suc.prems(2) by (cases n) auto
  obtain page t where t: "\<not> pg_complete s" "read_page py net now s = Inr (page, t)" "read_pages py net now k t = Some s'"
    using Suc.prems(1) by (auto split: if_splits sum.splits)
  obtain ps where ps: "pg_servers s' = pg_servers t @ ps" "case find good ps of Some x \<Rightarrow> fst (scan_pages py net now good m t) = Inr x
      | None \<Rightarrow> scan_pages py net now good m t = scan_pages py net now good (m - k) s'"
    using Suc.IH [OF t(3) n(2)] by blast
  have "pg_servers s' = pg_servers s @ (page @ ps)" using ps(1) read_page_servers [OF t(2)] by simp
  moreover have "case find good (page @ ps) of Some x \<Rightarrow> fst (scan_pages py net now good n s) = Inr x
      | None \<Rightarrow> scan_pages py net now good n s = scan_pages py net now good (n - Suc k) s'"
    using ps(2) t(1,2) n by (subst (1 2) scan_pages.simps) (auto simp: find_append split: option.splits)
  ultimately show ?case by blast
qed

lemma scan_reads: "scan_pages py net now good n s = (x, s') \<Longrightarrow> \<exists>j\<le>n. read_pages py net now j s = Some s'"
proof (induction n arbitrary: s)
  case 0
  then show ?case by (subst (asm) scan_pages.simps) (auto split: if_splits)
next
  case (Suc n)
  show ?case
  proof (cases "s' = s")
    case True
    then show ?thesis by (intro exI [of _ 0]) simp
  next
    case False
    then obtain page t where t: "\<not> pg_complete s" "read_page py net now s = Inr (page, t)"
      "t = s' \<or> scan_pages py net now good n t = (x, s')"
      using Suc.prems by (subst (asm) scan_pages.simps) (auto split: if_splits sum.splits option.splits)
    then obtain j where "j \<le> n" "read_pages py net now j t = Some s'" using Suc.IH [of t] by (metis le0 read_pages.simps(1))
    then show ?thesis using t by (intro exI [of _ "Suc j"]) simp
  qed
qed

lemma read_pages_add: "read_pages py net now k s = Some t \<Longrightarrow> read_pages py net now (k + j) s = read_pages py net now j t"
  by (induction k arbitrary: s) (auto split: if_splits sum.splits)

text \<open>The catalogue keeps to the limit it is asked for.\<close>

definition bounded_pages :: "catalogue_net \<Rightarrow> bool" where
  "bounded_pages net \<longleftrightarrow> (\<forall>i k rows. get_json net (Servers i k) = Inr (JArr rows) \<longrightarrow> length rows \<le> page_limit)"

lemma read_page_offset:
  "bounded_pages net \<Longrightarrow> read_page py net now s = Inr (page, s') \<Longrightarrow> \<not> pg_complete s' \<Longrightarrow> pg_offset s' = pg_offset s + page_limit"
  by (erule read_page_Inr) (fastforce simp: bounded_pages_def)

lemma read_pages_offset:
  "bounded_pages net \<Longrightarrow> read_pages py net now k s = Some s' \<Longrightarrow> \<not> pg_complete s' \<Longrightarrow> pg_offset s' = pg_offset s + k * page_limit \<and> \<not> pg_complete s"
proof (induction k arbitrary: s)
  case 0
  then show ?case by simp
next
  case (Suc k)
  then obtain page t where t: "\<not> pg_complete s" "read_page py net now s = Inr (page, t)" "read_pages py net now k t = Some s'"
    by (auto split: if_splits sum.splits)
  then show ?case using Suc.IH [OF Suc.prems(1) t(3) Suc.prems(3)] read_page_offset [OF Suc.prems(1) t(2)] by simp
qed

lemma read_pages_complete: "pg_complete s \<Longrightarrow> read_pages py net now j s = Some s' \<Longrightarrow> j = 0 \<and> s' = s"
  by (cases j) auto

definition fresh_pages :: "int \<Rightarrow> page_state" where
  "fresh_pages i = \<lparr>pg_country = i, pg_servers = [], pg_offset = 0, pg_complete = False\<rparr>"

definition pages_of :: "catalogue_py \<Rightarrow> catalogue_net \<Rightarrow> int \<Rightarrow> int \<Rightarrow> page_state \<Rightarrow> bool" where
  "pages_of py net now i s \<longleftrightarrow> (\<exists>k\<le>max_pages. read_pages py net now k (fresh_pages i) = Some s)"

lemma search_resumes:
  assumes "bounded_pages net" "pages_of py net now i s"
  shows "fst (search_state py net now good s) = fst (search_state py net now good (fresh_pages i))"
proof -
  obtain k where k: "k \<le> max_pages" "read_pages py net now k (fresh_pages i) = Some s" using assms(2) by (auto simp: pages_of_def)
  have start: "search_state py net now good (fresh_pages i) = scan_pages py net now good max_pages (fresh_pages i)"
    by (simp add: search_state_def fresh_pages_def)
  have rest: "scan_pages py net now good (max_pages - pg_offset s div page_limit) s = scan_pages py net now good (max_pages - k) s"
  proof (cases "pg_complete s")
    case True
    then show ?thesis by (simp add: scan_pages.simps)
  next
    case False
    then have "pg_offset s = k * page_limit" using read_pages_offset [OF assms(1) k(2)] by (simp add: fresh_pages_def)
    then show ?thesis by (simp add: page_limit_def)
  qed
  show ?thesis using scan_resumes [OF k(2,1), of good] rest unfolding start
    by (auto simp: search_state_def fresh_pages_def split: option.splits)
qed

lemma search_pages:
  assumes "bounded_pages net" "pages_of py net now i s" "search_state py net now good s = (x, s')"
  shows "pages_of py net now i s'"
proof (cases "s' = s")
  case False
  obtain k where k: "k \<le> max_pages" "read_pages py net now k (fresh_pages i) = Some s" using assms(2) by (auto simp: pages_of_def)
  have "scan_pages py net now good (max_pages - pg_offset s div page_limit) s = (x, s')"
    using assms(3) False by (auto simp: search_state_def split: option.splits)
  then obtain j where j: "j \<le> max_pages - pg_offset s div page_limit" "read_pages py net now j s = Some s'" using scan_reads by blast
  have "\<not> pg_complete s" using read_pages_complete j(2) False by blast
  then have "pg_offset s div page_limit = k" using read_pages_offset [OF assms(1) k(2)] by (simp add: fresh_pages_def page_limit_def)
  then show ?thesis using j k read_pages_add [OF k(2), of j] unfolding pages_of_def by (intro exI [of _ "k + j"]) simp
qed (use assms(2) in simp)

definition shared_ok :: "catalogue_py \<Rightarrow> catalogue_net \<Rightarrow> int \<Rightarrow> (string, page_state) dict \<Rightarrow> bool" where
  "shared_ok py net now shared \<longleftrightarrow> (\<forall>key s. dget shared key = Some s \<longrightarrow>
     (\<exists>country i k. key = strip (lower country) \<and> location_ids py net country [] = Inr (i, k) \<and> pages_of py net now i s))"

lemma location_ids_country: "location_ids py net c [] = Inr ik \<longleftrightarrow> (\<exists>cs k. locations net = Inr cs \<and>
    find (\<lambda>x. lower (cn_name x) = strip (lower c)) cs = Some k \<and> ik = (cn_id k, None))"
proof -
  have "strip (lower []) = []" by code_simp
  then show ?thesis by (auto simp: location_ids_def rbind_Inr_iff split: option.splits)
qed

lemma location_ids_key:
  "strip (lower c) = strip (lower d) \<Longrightarrow> location_ids py net c [] = Inr ik \<Longrightarrow> location_ids py net d [] = Inr ik"
  by (simp add: location_ids_country)


definition down_net :: catalogue_net where
  "down_net = \<lparr>nt_get = \<lambda>_. Inl (RuntimeError []), nt_loads = \<lambda>_. Inl (RuntimeError [])\<rparr>"


end
