(* ===== verification/StatusSummary.thy ===== *)
theory StatusSummary
  imports Poller
begin

text \<open>
  The status summary of \<open>backend/asgi/status_service.py\<close>: from the stored results of monitoring, a status of the
  network devices, of Proxmox, of TrueNAS and of Docker, each the worst of what it counts, with an issue for
  everything that is not healthy. The clock, the reading of ISO times, \<open>str\<close> of floats and containers and the
  environment of the poller's limits are arguments. Stored numbers are finite, and identifiers, states and exit codes
  that the code looks up in sets are no lists or dictionaries.
\<close>

section \<open>Status values\<close>

datatype status_value = Healthy | Warning | Critical | Unknown | Stale

fun severity :: "status_value \<Rightarrow> nat" where
  "severity Healthy = 0"
| "severity Unknown = 1"
| "severity Stale = 2"
| "severity Warning = 3"
| "severity Critical = 4"

instantiation status_value :: linorder
begin

definition less_eq_status_value :: "status_value \<Rightarrow> status_value \<Rightarrow> bool" where
  "less_eq_status_value v w \<longleftrightarrow> severity v \<le> severity w"

definition less_status_value :: "status_value \<Rightarrow> status_value \<Rightarrow> bool" where
  "less_status_value v w \<longleftrightarrow> severity v < severity w"

instance
proof
  fix v w :: status_value
  show "v \<le> w \<Longrightarrow> w \<le> v \<Longrightarrow> v = w"
    by (cases v; cases w) (simp_all add: less_eq_status_value_def)
qed (auto simp: less_eq_status_value_def less_status_value_def)

end

definition worst_or :: "status_value \<Rightarrow> status_value list \<Rightarrow> status_value" where
  "worst_or e vs = (case vs of [] \<Rightarrow> e | v # ws \<Rightarrow> fold max ws v)"

abbreviation worst :: "status_value list \<Rightarrow> status_value" where
  "worst \<equiv> worst_or Unknown"

section \<open>Times\<close>

record status_py =
  sp_str :: "json \<Rightarrow> string"
  sp_iso :: "string \<Rightarrow> rat option"
  sp_env :: env

definition replace_z :: "string \<Rightarrow> string" where
  "replace_z s = concat (map (\<lambda>c. if c = CHR ''Z'' then ''+00:00'' else [c]) s)"

definition timestamp :: "status_py \<Rightarrow> json \<Rightarrow> rat option" where
  "timestamp py v = (case v of
     JInt i \<Rightarrow> Some (of_int i) | JFloat (Fin x) \<Rightarrow> Some x | JStr s \<Rightarrow> sp_iso py (replace_z s) | _ \<Rightarrow> None)"

text \<open>\<open>a or b\<close>: the time 0 counts as none.\<close>

definition time_or :: "rat option \<Rightarrow> rat option \<Rightarrow> rat option" where
  "time_or a b = (case a of Some x \<Rightarrow> if x = 0 then b else a | None \<Rightarrow> b)"

definition source_timestamp :: "status_py \<Rightarrow> doc \<Rightarrow> rat option" where
  "source_timestamp py d = time_or (time_or (timestamp py (getn d ''reachabilityCheckedAt'')) (timestamp py (getn d ''sourceCheckedAt'')))
     (timestamp py (getn d ''ts''))"

definition some_times :: "rat option list \<Rightarrow> rat list" where
  "some_times ts = List.map_filter id ts"

definition oldest_timestamp :: "rat option list \<Rightarrow> rat option" where
  "oldest_timestamp ts = (case some_times ts of [] \<Rightarrow> None | x # xs \<Rightarrow> Some (fold min xs x))"

definition state_timestamp :: "status_py \<Rightarrow> doc \<Rightarrow> rat option result" where
  "state_timestamp py d = rbind (sub_obj d ''state'') (\<lambda>s. Inr (source_timestamp py s))"

definition state_timestamps :: "status_py \<Rightarrow> doc list \<Rightarrow> rat option list result" where
  "state_timestamps py ds = rmap (state_timestamp py) ds"

section \<open>Components\<close>

record status_issue =
  si_component :: string
  si_code :: string
  si_message :: string
  si_status :: status_value

record component_status =
  cs_status :: status_value
  cs_checked :: "rat option"
  cs_healthy :: nat
  cs_total :: nat
  cs_components :: "string list"
  cs_issues :: "status_issue list"

record truenas_status =
  ts_status :: status_value
  ts_checked :: "rat option"
  ts_pool :: "string option"
  ts_alerts :: "int option"
  ts_issues :: "status_issue list"

definition issue_if :: "string \<Rightarrow> string \<Rightarrow> string option \<Rightarrow> status_value \<Rightarrow> status_issue list" where
  "issue_if component code message v = (case message of None \<Rightarrow> []
     | Some m \<Rightarrow> [\<lparr>si_component = component, si_code = code, si_message = m, si_status = v\<rparr>])"

text \<open>The status of a device, and why it is not healthy.\<close>

definition device_status :: "status_py \<Rightarrow> rat \<Rightarrow> string \<Rightarrow> doc \<Rightarrow> (status_value \<times> string option) result" where
  "device_status py now stack d = (case getn d ''state'' of
     JObj s \<Rightarrow> (case source_timestamp py s of
       None \<Rightarrow> Inr (Unknown, Some ''the monitoring result has no timestamp'')
     | Some t \<Rightarrow>
         let confirmed = (case dget s ''confirmedOnline'' of Some v \<Rightarrow> v | None \<Rightarrow> getn s ''online'') in
         if confirmed = JBool False then Inr (Critical, Some ''the device is unreachable'')
         else if confirmed \<noteq> JBool True then Inr (Unknown, Some ''device reachability is unknown'')
         else rbind (stale_after (sp_env py) stack) (\<lambda>limit.
           if now - t > of_int limit then Inr (Stale, Some ''the last successful monitoring result is stale'')
           else if getn s ''online'' = JBool False then Inr (Warning, Some ''the latest poll failed but the offline threshold is not met'')
           else Inr (Healthy, None)))
   | _ \<Rightarrow> Inr (Unknown, Some ''no monitoring result is available''))"

definition component_identifier :: "status_py \<Rightarrow> doc \<Rightarrow> string \<Rightarrow> string" where
  "component_identifier py d fallback =
     (let name = strip (str_or_empty (sp_str py) (py_or (getn d ''name'') (getn d ''id'')));
          host = strip (str_or_empty (sp_str py) (getn d ''host'')) in
      if name \<noteq> [] \<and> host \<noteq> [] \<and> lower name \<noteq> lower host then name @ '' ('' @ host @ '')''
      else if name \<noteq> [] then name else if host \<noteq> [] then host else fallback)"

subsection \<open>Network\<close>

definition network_code :: "status_value \<Rightarrow> string" where
  "network_code v = (if v = Critical then ''device_unreachable'' else if v = Stale then ''monitoring_stale'' else ''monitoring_unknown'')"

definition network_device :: "status_py \<Rightarrow> rat \<Rightarrow> doc \<Rightarrow> (status_value \<times> status_issue list) result" where
  "network_device py now d = rbind (device_status py now ''network'' d) (\<lambda>(v, message).
     Inr (v, issue_if (component_identifier py d ''network'') (network_code v) message v))"

definition network_status :: "status_py \<Rightarrow> rat \<Rightarrow> doc list \<Rightarrow> component_status result" where
  "network_status py now ds = rbind (rmap (network_device py now) ds) (\<lambda>rs. rbind (state_timestamps py ds) (\<lambda>ts.
     Inr \<lparr>cs_status = worst (map fst rs), cs_checked = oldest_timestamp ts, cs_healthy = length (filter (\<lambda>v. v = Healthy) (map fst rs)),
       cs_total = length rs, cs_components = map (\<lambda>d. component_identifier py d ''network'') ds, cs_issues = concat (map snd rs)\<rparr>))"

subsection \<open>Proxmox\<close>

definition guest_of :: "doc \<Rightarrow> doc \<Rightarrow> bool" where
  "guest_of d item \<longleftrightarrow> py_eq (getn item ''parentDeviceId'') (getn d ''id'')"

definition node_names :: "status_py \<Rightarrow> doc list \<Rightarrow> doc \<Rightarrow> doc \<Rightarrow> string list" where
  "node_names py instances d nodes =
     (let names = dkeys nodes @ map (\<lambda>i. str_json (sp_str py) (getn i ''node'')) (filter (\<lambda>i. guest_of d i \<and> truthy (getn i ''node'')) instances) in
      if names = [] then [str_json (sp_str py) (py_or (py_or (getn d ''name'') (getn d ''id'')) (JStr ''proxmox''))] else sort (remdups names))"

text \<open>A node: what is known of its device, then the age of the maintenance data, then what the node reported.\<close>

definition node_status :: "bool \<Rightarrow> status_value \<times> string option \<Rightarrow> string \<Rightarrow> status_value \<times> string option \<times> string" where
  "node_status old parent reported = (case parent of (v, message) \<Rightarrow>
     if v = Healthy \<and> old then (Stale, Some ''the cached Proxmox result is stale'', ''monitoring_stale'')
     else if v = Healthy \<and> reported \<in> set [''offline'', ''unreachable'', ''failed''] then (Critical, Some ''the Proxmox node is unreachable'', ''node_unreachable'')
     else if v = Healthy \<and> reported \<in> set [''unknown'', ''unavailable''] then (Unknown, Some ''the Proxmox node state is unknown'', ''monitoring_unknown'')
     else (v, message, if v = Critical then ''node_unreachable'' else ''monitoring_unknown''))"

definition proxmox_node :: "status_py \<Rightarrow> doc \<Rightarrow> bool \<Rightarrow> status_value \<times> string option \<Rightarrow> string \<Rightarrow> (status_value \<times> status_issue list) result" where
  "proxmox_node py nodes old parent n = rbind (sub_obj nodes n) (\<lambda>s.
     let (v, message, code) = node_status old parent (lower (str_or_empty (sp_str py) (getn s ''status''))) in
     Inr (v, issue_if n code message v))"

definition stopped_guest :: "doc \<Rightarrow> bool" where
  "stopped_guest i \<longleftrightarrow> getn i ''expectedToRun'' = JBool True \<and> getn i ''status'' \<in> set [JStr ''stopped'', JStr ''exited'']"

definition guest_issue :: "status_py \<Rightarrow> doc \<Rightarrow> status_issue" where
  "guest_issue py i = \<lparr>si_component = str_json (sp_str py) (py_or (py_or (getn i ''name'') (getn i ''id'')) (JStr ''guest'')),
     si_code = ''guest_unexpectedly_stopped'', si_message = ''a guest configured to remain running is stopped'', si_status = Critical\<rparr>"

definition proxmox_device :: "status_py \<Rightarrow> rat \<Rightarrow> json list \<Rightarrow> doc \<Rightarrow> ((status_value \<times> status_issue list) list \<times> status_issue list) result" where
  "proxmox_device py now vs d = rbind (sub_obj d ''proxmoxMaintenance'') (\<lambda>m. rbind (sub_obj m ''nodes'') (\<lambda>nodes.
     rbind (rmap obj_of vs) (\<lambda>instances. rbind (device_status py now ''proxmox'' d) (\<lambda>parent. rbind (stale_after (sp_env py) ''proxmox'') (\<lambda>limit.
     let old = (case timestamp py (getn m ''checkedAt'') of None \<Rightarrow> False | Some t \<Rightarrow> now - t > of_int limit) in
     rbind (rmap (proxmox_node py nodes old parent) (node_names py instances d nodes)) (\<lambda>rs.
     Inr (rs, map (guest_issue py) (filter (\<lambda>i. guest_of d i \<and> stopped_guest i) instances))))))))"

definition proxmox_timestamp :: "status_py \<Rightarrow> doc \<Rightarrow> rat option result" where
  "proxmox_timestamp py d = rbind (sub_obj d ''proxmoxMaintenance'') (\<lambda>m.
     let t = timestamp py (getn m ''checkedAt'') in
     if t \<noteq> None \<and> t \<noteq> Some 0 then Inr t else state_timestamp py d)"

definition proxmox_status :: "status_py \<Rightarrow> rat \<Rightarrow> json list \<Rightarrow> doc list \<Rightarrow> component_status result" where
  "proxmox_status py now vs ds = rbind (rmap (proxmox_device py now vs) ds) (\<lambda>rs. rbind (rmap (proxmox_timestamp py) ds) (\<lambda>ts.
     Inr \<lparr>cs_status = worst (concat (map (\<lambda>(ns, gs). map fst ns @ map si_status gs) rs)), cs_checked = oldest_timestamp ts,
       cs_healthy = length (filter (\<lambda>v. v = Healthy) (map fst (concat (map fst rs)))), cs_total = length (concat (map fst rs)),
       cs_components = [], cs_issues = concat (map (\<lambda>(ns, gs). concat (map snd ns) @ gs) rs)\<rparr>))"

subsection \<open>TrueNAS\<close>

definition pool_name :: "status_py \<Rightarrow> doc \<Rightarrow> string option" where
  "pool_name py values =
     (let v = (case dget values ''pool_health'' of Some w \<Rightarrow> w | None \<Rightarrow> getn values ''pool_status'');
          s = upper (strip (str_json (sp_str py) v)) in
      if v = JNull \<or> s = [] then None else Some s)"

definition pool_status :: "string option \<Rightarrow> status_value" where
  "pool_status pool = (case pool of None \<Rightarrow> Unknown
   | Some s \<Rightarrow> let parts = filter (\<lambda>p. p \<noteq> []) (map strip (split_on (CHR '','') s)) in
       if set parts \<subseteq> set [''ONLINE'', ''HEALTHY''] then Healthy
       else if list_ex (\<lambda>p. p \<in> set [''UNKNOWN'', ''UNAVAILABLE'']) parts then Unknown
       else if list_ex (\<lambda>p. p \<in> set [''FAULTED'', ''UNAVAIL'', ''OFFLINE'', ''SUSPENDED'']) parts then Critical else Warning)"

definition active_count :: "doc \<Rightarrow> int option" where
  "active_count values = (case getn values ''alerts'' of JInt n \<Rightarrow> Some n | _ \<Rightarrow> None)"

definition alert_status :: "int option \<Rightarrow> string \<Rightarrow> status_value" where
  "alert_status active level = (case active of None \<Rightarrow> Unknown
   | Some n \<Rightarrow> if n \<le> 0 \<or> level \<in> set [''INFO'', ''NOTICE''] then Healthy
       else if level \<in> set [''ERROR'', ''CRITICAL'', ''ALERT'', ''EMERGENCY''] then Critical else Warning)"

definition alert_message :: "int option \<Rightarrow> string" where
  "alert_message active = (case active of None \<Rightarrow> ''None'' | Some n \<Rightarrow> str_of_int n) @ '' active alert(s)''"

text \<open>The verdict on a reachable device, and its code.\<close>

definition truenas_verdict :: "status_value \<times> string option \<Rightarrow> string option \<Rightarrow> int option \<Rightarrow> string \<Rightarrow> status_value \<times> string option" where
  "truenas_verdict parent pool active level = (case parent of (v, message) \<Rightarrow>
     if v \<noteq> Healthy then (v, message)
     else (let p = pool_status pool; a = alert_status active level; w = worst [p, a] in
       (w, if a = Critical then Some (alert_message active)
           else if p \<in> set [Warning, Critical] then Some (''pool state is '' @ (case pool of None \<Rightarrow> ''None'' | Some s \<Rightarrow> s))
           else if a = Warning then Some (alert_message active)
           else if w = Unknown then Some ''current pool and alert monitoring data are unavailable''
           else message)))"

definition truenas_code :: "status_value \<Rightarrow> status_value \<Rightarrow> status_value \<Rightarrow> string" where
  "truenas_code p a v = (if a = Critical then ''active_alerts'' else if p \<in> set [Warning, Critical] then ''pool_degraded''
     else if a = Warning then ''active_alerts'' else if v = Stale then ''monitoring_stale'' else ''monitoring_unavailable'')"

definition truenas_device :: "status_py \<Rightarrow> rat \<Rightarrow> doc \<Rightarrow> (status_value \<times> status_issue list \<times> string option \<times> int option) result" where
  "truenas_device py now d = rbind (device_status py now ''truenas'' d) (\<lambda>parent. rbind (sub_obj d ''state'') (\<lambda>s. rbind (sub_obj s ''values'') (\<lambda>values.
     let pool = pool_name py values; active = active_count values; level = upper (str_or_empty (sp_str py) (getn values ''alert_level''));
         (v, message) = truenas_verdict parent pool active level in
     Inr (v, issue_if (component_identifier py d ''TrueNAS'') (truenas_code (pool_status pool) (alert_status active level) v) message v,
       pool, map_option (max 0) active))))"

definition truenas_status_of :: "status_py \<Rightarrow> rat \<Rightarrow> doc list \<Rightarrow> truenas_status result" where
  "truenas_status_of py now ds =
     (if ds = [] then Inr \<lparr>ts_status = Unknown, ts_checked = None, ts_pool = None, ts_alerts = None, ts_issues = []\<rparr>
      else rbind (rmap (truenas_device py now) ds) (\<lambda>rs. rbind (state_timestamps py ds) (\<lambda>ts.
        let pools = List.map_filter (\<lambda>(_, _, p, _). p) rs; alerts = List.map_filter (\<lambda>(_, _, _, a). a) rs in
        Inr \<lparr>ts_status = worst (map fst rs), ts_checked = oldest_timestamp ts, ts_pool = (if pools = [] then None else Some (join_with '', '' pools)),
          ts_alerts = (if alerts = [] then None else Some (sum_list alerts)), ts_issues = concat (map (\<lambda>(_, i, _). i) rs)\<rparr>)))"

subsection \<open>Docker\<close>

definition json_bool :: "json \<Rightarrow> bool" where
  "json_bool v \<longleftrightarrow> v = JBool True \<or> v = JBool False"

text \<open>A workload's discovery is healthy, stale or unknown.\<close>

definition discovery_time :: "status_py \<Rightarrow> doc \<Rightarrow> rat option" where
  "discovery_time py d = (case timestamp py (getn d ''sourceCheckedAt'') of Some t \<Rightarrow> Some t
   | None \<Rightarrow> if getn d ''state'' = JStr ''successful'' then timestamp py (getn d ''lastJobAt'') else None)"

definition discovery_status :: "rat \<Rightarrow> int \<Rightarrow> rat option \<Rightarrow> status_value" where
  "discovery_status now limit t = (case t of None \<Rightarrow> Unknown | Some x \<Rightarrow> if now - x > of_int limit then Stale else Healthy)"

definition lower_or :: "status_py \<Rightarrow> doc \<Rightarrow> string \<Rightarrow> string \<Rightarrow> string" where
  "lower_or py d key fallback = lower (str_json (sp_str py) (py_or (getn d key) (JStr fallback)))"

definition labelled_one_shot :: "status_py \<Rightarrow> doc \<Rightarrow> bool" where
  "labelled_one_shot py labels \<longleftrightarrow> lower (strip (str_or_empty (sp_str py) (getn labels ''com.homelabhq.lifecycle''))) = ''oneshot''"

text \<open>Whether a container is expected to end: labels, then the inventory, then its restart policy.\<close>

definition one_shot_of :: "status_py \<Rightarrow> doc \<Rightarrow> doc \<Rightarrow> json" where
  "one_shot_of py labels c =
     (let o0 = getn c ''oneShot'';
          o1 = (if labelled_one_shot py labels then JBool True
            else if \<not> json_bool o0 \<and> json_bool (getn c ''expectedToRun'') then JBool (getn c ''expectedToRun'' = JBool False) else o0);
          o2 = (if \<not> json_bool o1 \<and> lower (str_or_empty (sp_str py) (getn labels ''com.docker.compose.oneoff'')) \<in> set [''1'', ''true'', ''yes''] then JBool True else o1) in
      if \<not> json_bool o2 \<and> lower (str_or_empty (sp_str py) (getn c ''restartPolicy'')) \<in> set [''always'', ''unless-stopped''] then JBool False else o2)"

definition ended_badly :: "json \<Rightarrow> bool" where
  "ended_badly code \<longleftrightarrow> \<not> py_eq code (JInt 0) \<and> code \<noteq> JNull"

text \<open>The verdict on a container, none for a one-shot that has ended well.\<close>

definition container_verdict :: "status_value \<Rightarrow> string \<Rightarrow> string \<Rightarrow> json \<Rightarrow> bool \<Rightarrow> json \<Rightarrow> string \<Rightarrow> (status_value \<times> string option \<times> string) option" where
  "container_verdict disc st health one_shot labelled code shown =
     (let stopped = (st \<in> set [''exited'', ''stopped'']) in
      if stopped \<and> one_shot = JBool True \<and> py_eq code (JInt 0) then None
      else if stopped \<and> labelled \<and> ended_badly code then Some (Critical, Some (''one-shot container exited with code '' @ shown), ''oneshot_failed'')
      else if disc \<noteq> Healthy then Some (if disc = Stale then (Stale, Some ''Docker discovery data is stale'', ''monitoring_stale'')
          else (disc, Some ''Docker discovery data is unavailable'', ''monitoring_unknown''))
      else if st = ''restarting'' then Some (Critical, Some ''container is restarting'', ''container_restarting'')
      else if st = ''running'' \<and> health = ''unhealthy'' then Some (Critical, Some ''container health check is failing'', ''container_unhealthy'')
      else if st = ''running'' \<and> health = ''starting'' then Some (Warning, Some ''container health check is starting'', ''container_starting'')
      else if st = ''running'' then Some (Healthy, None, ''container_unknown'')
      else if stopped \<and> (one_shot = JBool False \<or> ended_badly code) then Some (Critical, Some ''container stopped unexpectedly'', ''container_stopped'')
      else if stopped then Some (Unknown, Some ''container lifecycle expectation is unknown'', ''container_unknown'')
      else Some (Unknown, Some ''container state is unknown'', ''container_unknown''))"

definition container_label :: "status_py \<Rightarrow> doc \<Rightarrow> doc \<Rightarrow> string" where
  "container_label py w c =
     str_json (sp_str py) (py_or (py_or (getn c ''name'') (getn c ''composeService'')) (JStr ''container'')) @ '' ('' @
     str_json (sp_str py) (py_or (py_or (py_or (getn w ''host'') (getn w ''name'')) (getn w ''id'')) (JStr ''Docker host'')) @ '')''"

definition container_result :: "status_py \<Rightarrow> status_value \<Rightarrow> doc \<Rightarrow> doc \<Rightarrow> (status_value \<times> status_issue list) list result" where
  "container_result py disc w c = rbind (sub_obj c ''labels'') (\<lambda>labels. Inr (
     case container_verdict disc (lower_or py c ''state'' ''unknown'') (lower_or py c ''health'' ''unknown'') (one_shot_of py labels c)
         (labelled_one_shot py labels) (getn c ''exitCode'') (str_json (sp_str py) (getn c ''exitCode'')) of
       None \<Rightarrow> [] | Some (v, message, code) \<Rightarrow> [(v, issue_if (container_label py w c) code message v)]))"

definition container_key :: "doc \<Rightarrow> doc \<Rightarrow> json list" where
  "container_key w c = [getn w ''id'', getn c ''composeProject'', getn c ''composeService'', getn c ''name'']"

fun docker_loop :: "status_py \<Rightarrow> status_value \<Rightarrow> doc \<Rightarrow> json list list \<Rightarrow> json list \<Rightarrow>
    ((status_value \<times> status_issue list) list \<times> json list list) result" where
  "docker_loop py disc w seen [] = Inr ([], seen)"
| "docker_loop py disc w seen (v # vs) = rbind (obj_of v) (\<lambda>c.
     if list_ex (list_all2 py_eq (container_key w c)) seen then docker_loop py disc w seen vs
     else rbind (container_result py disc w c) (\<lambda>r.
       rbind (docker_loop py disc w (container_key w c # seen) vs) (\<lambda>(rs, s). Inr (r @ rs, s))))"

definition workload_containers :: "doc \<Rightarrow> json list result" where
  "workload_containers w = rbind (sub_obj w ''docker'') (\<lambda>d. rbind (items_of (getn d ''containers'')) (\<lambda>cs. rbind (items_of (getn d ''projects'')) (\<lambda>ps.
     rbind (rmap (\<lambda>p. rbind (obj_of p) (\<lambda>q. items_of (getn q ''containers''))) ps) (\<lambda>qs. Inr (cs @ concat qs)))))"

fun docker_workloads :: "status_py \<Rightarrow> rat \<Rightarrow> int \<Rightarrow> json list list \<Rightarrow> json list \<Rightarrow> (status_value \<times> status_issue list) list result" where
  "docker_workloads py now limit seen [] = Inr []"
| "docker_workloads py now limit seen (v # vs) = rbind (obj_of v) (\<lambda>w. rbind (workload_containers w) (\<lambda>cs.
     rbind (sub_obj w ''dockerDiscoveryState'') (\<lambda>d.
     rbind (docker_loop py (discovery_status now limit (discovery_time py d)) w seen cs) (\<lambda>(rs, seen').
     rbind (docker_workloads py now limit seen' vs) (\<lambda>qs. Inr (rs @ qs))))))"

definition docker_timestamp :: "status_py \<Rightarrow> doc \<Rightarrow> rat option result" where
  "docker_timestamp py w = rbind (sub_obj w ''dockerDiscoveryState'') (\<lambda>d. Inr (time_or (timestamp py (getn d ''sourceCheckedAt''))
     (if getn d ''state'' = JStr ''successful'' then timestamp py (getn d ''lastJobAt'') else None)))"

definition docker_times :: "status_py \<Rightarrow> json list \<Rightarrow> rat option list result" where
  "docker_times py vs = rmap (\<lambda>v. rbind (obj_of v) (\<lambda>w. rbind (sub_obj w ''docker'') (\<lambda>d.
     if truthy (getn d ''containers'') \<or> truthy (getn d ''projects'') then docker_timestamp py w else Inr None))) vs"

definition docker_status :: "status_py \<Rightarrow> rat \<Rightarrow> json list \<Rightarrow> component_status result" where
  "docker_status py now vs = rbind (stale_after (sp_env py) ''docker'') (\<lambda>limit.
     rbind (docker_workloads py now limit [] vs) (\<lambda>rs. rbind (docker_times py vs) (\<lambda>ts.
     Inr \<lparr>cs_status = worst (map fst rs), cs_checked = oldest_timestamp ts, cs_healthy = length (filter (\<lambda>v. v = Healthy) (map fst rs)),
       cs_total = length rs, cs_components = [], cs_issues = concat (map snd rs)\<rparr>)))"

section \<open>The summary\<close>

record summary_response =
  sm_overall :: status_value
  sm_network :: component_status
  sm_proxmox :: component_status
  sm_truenas :: truenas_status
  sm_docker :: component_status
  sm_checked :: rat
  sm_stale :: bool

definition network_drivers :: "string list" where
  "network_drivers = [''opnsense.firewall'', ''openwrt.ubus'', ''keeplink.switch'', ''zyxel.ap'']"

definition driven_by :: "string list \<Rightarrow> doc \<Rightarrow> bool" where
  "driven_by drivers d \<longleftrightarrow> getn d ''driverId'' \<in> set (map JStr drivers)"

definition members :: "doc \<Rightarrow> string \<Rightarrow> json list result" where
  "members document key = (case dget document key of None \<Rightarrow> Inr [] | Some v \<Rightarrow> rbind (obj_of v) (\<lambda>d. Inr (dvals d)))"

definition status_summary :: "status_py \<Rightarrow> rat \<Rightarrow> doc \<Rightarrow> summary_response result" where
  "status_summary py now document =
     rbind (members document ''devices'') (\<lambda>vs. rbind (rmap obj_of vs) (\<lambda>ds.
     rbind (network_status py now (filter (driven_by network_drivers) ds)) (\<lambda>network.
     rbind (members document ''computeInstances'') (\<lambda>ws.
     rbind (proxmox_status py now ws (filter (driven_by [''proxmox.ve'']) ds)) (\<lambda>proxmox.
     rbind (truenas_status_of py now (filter (driven_by [''truenas.system'']) ds)) (\<lambda>truenas.
     rbind (docker_status py now ws) (\<lambda>docker.
     rbind (state_timestamps py ds) (\<lambda>ts. rbind (rmap (\<lambda>v. rbind (obj_of v) (docker_timestamp py)) ws) (\<lambda>us.
     let all = [cs_status network, cs_status proxmox, ts_status truenas, cs_status docker] in
     Inr \<lparr>sm_overall = worst all, sm_network = network, sm_proxmox = proxmox, sm_truenas = truenas, sm_docker = docker,
       sm_checked = (case some_times (ts @ us) of [] \<Rightarrow> now | x # xs \<Rightarrow> fold max xs x), sm_stale = list_ex (\<lambda>v. v = Stale) all\<rparr>)))))))))"

section \<open>What the summary says\<close>

lemma status_value_order [simp]:
  "Healthy \<le> v" "v \<le> Healthy \<longleftrightarrow> v = Healthy" "max Healthy v = v" "max v Healthy = v" "Unknown \<le> v \<longleftrightarrow> v \<noteq> Healthy"
  by (cases v; simp add: less_eq_status_value_def max_def)+

lemma fold_max: "fold max vs (v :: status_value) = max v (fold max vs Healthy)"
proof (induction vs arbitrary: v)
  case (Cons w vs)
  show ?case using Cons.IH [of "max w v"] Cons.IH [of w] by (simp add: ac_simps)
qed simp

lemma worst_fold: "worst vs = fold max vs (if vs = [] then Unknown else Healthy)"
  by (cases vs) (simp_all add: worst_or_def)

lemma fold_max_healthy: "fold max (filter (\<lambda>v. v \<noteq> Healthy) vs) Healthy = fold max vs Healthy"
proof (induction vs)
  case (Cons v vs)
  then show ?case using fold_max [of vs v] fold_max [of "filter (\<lambda>v. v \<noteq> Healthy) vs" v] by simp
qed simp

lemma fold_max_append: "fold max (vs @ ws) (v :: status_value) = max (fold max vs v) (fold max ws Healthy)"
  by (simp add: fold_max [of ws "fold max vs v"])

text \<open>Results with exactly the issues of what is not healthy.\<close>

definition has_issues :: "status_value list \<Rightarrow> status_issue list \<Rightarrow> bool" where
  "has_issues vs ps \<longleftrightarrow> map si_status ps = filter (\<lambda>v. v \<noteq> Healthy) vs"

lemma has_issues_append: "has_issues vs ps \<Longrightarrow> has_issues ws qs \<Longrightarrow> has_issues (vs @ ws) (ps @ qs)"
  by (simp add: has_issues_def)

lemma has_issues_concat: "\<forall>r\<in>set rs. has_issues [fst r] (f r) \<Longrightarrow> has_issues (map fst rs) (concat (map f rs))"
  by (induction rs) (auto simp: has_issues_def)

lemma has_issues_worst: "has_issues vs ps \<Longrightarrow> worst vs = fold max (map si_status ps) (if vs = [] then Unknown else Healthy)"
  by (auto simp: has_issues_def worst_fold fold_max_healthy)

lemma has_issues_count: "has_issues vs ps \<Longrightarrow> length (filter (\<lambda>v. v = Healthy) vs) + length ps = length vs"
  using sum_length_filter_compl [of "\<lambda>v. v = Healthy" vs] by (metis has_issues_def length_map)

lemma issue_if_status: "(message = None \<longleftrightarrow> v = Healthy) \<Longrightarrow> has_issues [v] (issue_if c code message v)"
  by (auto simp: issue_if_def has_issues_def split: option.splits)

lemma rmap_all: "rmap f xs = Inr ys \<Longrightarrow> y \<in> set ys \<Longrightarrow> \<exists>x\<in>set xs. f x = Inr y"
  by (induction xs arbitrary: ys) (auto simp: rbind_Inr_iff)

lemma device_status_message: "device_status py now stack d = Inr (v, message) \<Longrightarrow> message = None \<longleftrightarrow> v = Healthy"
  by (auto simp: device_status_def Let_def rbind_Inr_iff split: json.splits option.splits if_splits)

lemma network_has_issues:
  assumes "network_status py now ds = Inr c"
  obtains vs where "has_issues vs (cs_issues c)" "cs_status c = worst vs" "cs_total c = length vs" "cs_healthy c = length (filter (\<lambda>v. v = Healthy) vs)"
    "length vs = length ds"
proof -
  obtain rs where rs: "rmap (network_device py now) ds = Inr rs" "cs_issues c = concat (map snd rs)" "cs_status c = worst (map fst rs)"
    "cs_total c = length rs" "cs_healthy c = length (filter (\<lambda>v. v = Healthy) (map fst rs))"
    using assms by (auto simp: network_status_def rbind_Inr_iff)
  have "\<forall>r\<in>set rs. has_issues [fst r] (snd r)"
    using rmap_all [OF rs(1)] by (fastforce simp: network_device_def rbind_Inr_iff intro!: issue_if_status device_status_message)
  then show thesis using that [of "map fst rs"] has_issues_concat [of rs snd] rs rmap_length [OF rs(1)] by simp
qed

lemma node_status_message: "fst (snd (node_status old (v, message) reported)) = None \<longleftrightarrow> fst (node_status old (v, message) reported) = Healthy"
  if "message = None \<longleftrightarrow> v = Healthy"
  using that by (auto simp: node_status_def)

lemma node_names_nonempty: "node_names py instances d nodes \<noteq> []"
proof -
  have "sort (remdups xs) \<noteq> []" if "xs \<noteq> []" for xs :: "string list"
    using that by (metis length_0_conv length_sort remdups_eq_nil_iff)
  then show ?thesis by (simp add: node_names_def Let_def del: append_is_Nil_conv)
qed

lemma proxmox_device_issues:
  assumes "proxmox_device py now vs d = Inr (ns, gs)"
  shows "has_issues (map fst ns @ map si_status gs) (concat (map snd ns) @ gs) \<and> ns \<noteq> []"
proof -
  obtain nodes instances parent old where r: "rmap (proxmox_node py nodes old parent) (node_names py instances d nodes) = Inr ns"
    "device_status py now ''proxmox'' d = Inr parent" "gs = map (guest_issue py) (filter (\<lambda>i. guest_of d i \<and> stopped_guest i) instances)"
    using assms by (auto simp: proxmox_device_def rbind_Inr_iff Let_def)
  have "\<forall>r\<in>set ns. has_issues [fst r] (snd r)"
    using rmap_all [OF r(1)] device_status_message [of py now "''proxmox''" d] r(2)
    by (cases parent) (force simp: proxmox_node_def rbind_Inr_iff Let_def split_beta intro!: issue_if_status node_status_message)
  moreover have "has_issues (map si_status gs) gs" using r(3) by (auto simp: has_issues_def guest_issue_def)
  moreover have "ns \<noteq> []" using rmap_length [OF r(1)] node_names_nonempty [of py instances d nodes] by auto
  ultimately show ?thesis using has_issues_append has_issues_concat by blast
qed

lemma proxmox_has_issues:
  assumes "proxmox_status py now vs ds = Inr c"
  obtains ws where "has_issues ws (cs_issues c)" "cs_status c = worst ws" "ws = [] \<longleftrightarrow> cs_total c = 0" "ws = [] \<longleftrightarrow> ds = []"
proof -
  obtain rs where rs: "rmap (proxmox_device py now vs) ds = Inr rs" "cs_issues c = concat (map (\<lambda>(ns, gs). concat (map snd ns) @ gs) rs)"
    "cs_status c = worst (concat (map (\<lambda>(ns, gs). map fst ns @ map si_status gs) rs))" "cs_total c = length (concat (map fst rs))"
    using assms by (auto simp: proxmox_status_def rbind_Inr_iff)
  have ok: "\<forall>(ns, gs)\<in>set rs. has_issues (map fst ns @ map si_status gs) (concat (map snd ns) @ gs) \<and> ns \<noteq> []"
    using rmap_all [OF rs(1)] proxmox_device_issues by fastforce
  then have "has_issues (concat (map (\<lambda>(ns, gs). map fst ns @ map si_status gs) rs)) (concat (map (\<lambda>(ns, gs). concat (map snd ns) @ gs) rs))"
    by (induction rs) (auto simp: has_issues_def)
  moreover have "concat (map (\<lambda>(ns, gs). map fst ns @ map si_status gs) rs) = [] \<longleftrightarrow> rs = []" "concat (map fst rs) = [] \<longleftrightarrow> rs = []"
    using ok by (cases rs; fastforce)+
  moreover have "rs = [] \<longleftrightarrow> ds = []" using rmap_length [OF rs(1)] by (cases rs; cases ds) auto
  ultimately show thesis using that rs by (metis length_0_conv)
qed

lemma worst_pair: "worst [p, a] = max p a"
  by (simp add: worst_or_def max.commute)

lemma pool_not_stale: "pool_status pool \<noteq> Stale"
  by (auto simp: pool_status_def Let_def split: option.splits)

lemma alert_not_stale: "alert_status active level \<noteq> Stale"
  by (auto simp: alert_status_def split: option.splits)

lemma truenas_verdict_message:
  assumes "message = None \<longleftrightarrow> v = Healthy" "truenas_verdict (v, message) pool active level = (w, m)"
  shows "m = None \<longleftrightarrow> w = Healthy"
  using assms pool_not_stale [of pool] alert_not_stale [of active level]
  by (cases "pool_status pool"; cases "alert_status active level")
    (auto simp: truenas_verdict_def Let_def worst_or_def max_def less_eq_status_value_def split: if_splits)

lemma truenas_has_issues:
  assumes "truenas_status_of py now ds = Inr c"
  obtains vs where "has_issues vs (ts_issues c)" "ts_status c = worst vs" "vs = [] \<longleftrightarrow> ds = []"
proof (cases "ds = []")
  case True
  then show thesis using assms that [of "[]"] by (auto simp: truenas_status_of_def has_issues_def worst_or_def)
next
  case False
  obtain rs where rs: "rmap (truenas_device py now) ds = Inr rs" "ts_issues c = concat (map (\<lambda>(_, i, _). i) rs)" "ts_status c = worst (map fst rs)"
    using assms False by (auto simp: truenas_status_of_def rbind_Inr_iff Let_def)
  have each: "has_issues [fst r] (fst (snd r))" if r: "r \<in> set rs" for r
  proof -
    obtain d where d: "truenas_device py now d = Inr r" using rmap_all [OF rs(1) r] by blast
    then obtain v m pool active level where v: "device_status py now ''truenas'' d = Inr (v, m)"
      "fst r = fst (truenas_verdict (v, m) pool active level)"
      "fst (snd r) = issue_if (component_identifier py d ''TrueNAS'')
        (truenas_code (pool_status pool) (alert_status active level) (fst r)) (snd (truenas_verdict (v, m) pool active level)) (fst r)"
      by (auto simp: truenas_device_def rbind_Inr_iff Let_def split_beta)
    show ?thesis unfolding v(3) using truenas_verdict_message [OF device_status_message [OF v(1)]] v(2)
      by (intro issue_if_status) (metis prod.collapse)
  qed
  then have "has_issues (map fst rs) (concat (map (\<lambda>(_, i, _). i) rs))"
    using has_issues_concat [of rs "\<lambda>(_, i, _). i"] by (simp add: split_beta)
  then show thesis using that rs False rmap_length [OF rs(1)] by (metis length_0_conv length_map)
qed

lemma container_verdict_message: "container_verdict disc st health one_shot labelled code shown = Some (v, m, k) \<Longrightarrow> m = None \<longleftrightarrow> v = Healthy"
proof -
  have "pred_option (\<lambda>(v, m, k). m = None \<longleftrightarrow> v = Healthy) (container_verdict disc st health one_shot labelled code shown)"
    by (simp add: container_verdict_def Let_def)
  then show "container_verdict disc st health one_shot labelled code shown = Some (v, m, k) \<Longrightarrow> m = None \<longleftrightarrow> v = Healthy" by simp
qed

lemma container_result_issues: "container_result py disc w c = Inr r \<Longrightarrow> \<forall>x\<in>set r. has_issues [fst x] (snd x)"
  by (auto simp: container_result_def rbind_Inr_iff split: option.splits intro!: issue_if_status [OF container_verdict_message])

lemma docker_loop_issues: "docker_loop py disc w seen vs = Inr (rs, seen') \<Longrightarrow> \<forall>r\<in>set rs. has_issues [fst r] (snd r)"
proof (induction vs arbitrary: seen rs)
  case (Cons v vs)
  obtain c where c: "v = JObj c" using Cons.prems by (auto simp: rbind_Inr_iff obj_of_Inr_iff)
  show ?case
  proof (cases "list_ex (list_all2 py_eq (container_key w c)) seen")
    case True
    then show ?thesis using Cons c by auto
  next
    case False
    then obtain r qs where r: "container_result py disc w c = Inr r" "docker_loop py disc w (container_key w c # seen) vs = Inr (qs, seen')" "rs = r @ qs"
      using Cons.prems c by (auto simp: rbind_Inr_iff)
    show ?thesis using Cons.IH [OF r(2)] container_result_issues [OF r(1)] r(3) by auto
  qed
qed simp

lemma docker_workloads_issues: "docker_workloads py now limit seen vs = Inr rs \<Longrightarrow> \<forall>r\<in>set rs. has_issues [fst r] (snd r)"
proof (induction vs arbitrary: seen rs)
  case (Cons v vs)
  obtain w d cs qs seen' ps where w: "docker_loop py (discovery_status now limit (discovery_time py d)) w seen cs = Inr (qs, seen')"
    "docker_workloads py now limit seen' vs = Inr ps" "rs = qs @ ps"
    using Cons.prems by (auto simp: rbind_Inr_iff)
  show ?case using Cons.IH [OF w(2)] docker_loop_issues [OF w(1)] w(3) by auto
qed simp

lemma docker_has_issues:
  assumes "docker_status py now ws = Inr c"
  obtains vs where "has_issues vs (cs_issues c)" "cs_status c = worst vs" "cs_total c = length vs" "cs_healthy c = length (filter (\<lambda>v. v = Healthy) vs)"
proof -
  obtain limit rs where rs: "docker_workloads py now limit [] ws = Inr rs" "cs_issues c = concat (map snd rs)" "cs_status c = worst (map fst rs)"
    "cs_total c = length rs" "cs_healthy c = length (filter (\<lambda>v. v = Healthy) (map fst rs))"
    using assms by (auto simp: docker_status_def rbind_Inr_iff)
  show thesis using that [of "map fst rs"] has_issues_concat [OF docker_workloads_issues [OF rs(1)]] rs by simp
qed

lemma summary_parts:
  assumes "status_summary py now document = Inr r"
  obtains vs ds ws where "members document ''devices'' = Inr vs" "vs = map JObj ds" "members document ''computeInstances'' = Inr ws"
    "network_status py now (filter (driven_by network_drivers) ds) = Inr (sm_network r)"
    "proxmox_status py now ws (filter (driven_by [''proxmox.ve'']) ds) = Inr (sm_proxmox r)"
    "truenas_status_of py now (filter (driven_by [''truenas.system'']) ds) = Inr (sm_truenas r)"
    "docker_status py now ws = Inr (sm_docker r)"
    "sm_overall r = worst [cs_status (sm_network r), cs_status (sm_proxmox r), ts_status (sm_truenas r), cs_status (sm_docker r)]"
    "sm_stale r = list_ex (\<lambda>v. v = Stale) [cs_status (sm_network r), cs_status (sm_proxmox r), ts_status (sm_truenas r), cs_status (sm_docker r)]"
proof -
  have objs: "rmap obj_of us = Inr ds \<Longrightarrow> us = map JObj ds" for us ds
    by (induction us arbitrary: ds) (auto simp: rbind_Inr_iff obj_of_Inr_iff)
  show thesis using assms that by (auto simp: status_summary_def rbind_Inr_iff Let_def dest!: objs)
qed

lemma four_max:
  fixes p q x y :: status_value
  shows "max (max (if A then Unknown else Healthy) p) (max (max (if B then Unknown else Healthy) q)
      (max (max (if C then Unknown else Healthy) x) (max (if D then Unknown else Healthy) y))) =
    max (if A \<or> B \<or> C \<or> D then Unknown else Healthy) (max p (max q (max x y)))"
  by (cases A; cases B; cases C; cases D) (simp_all add: ac_simps)


section \<open>Healthy means fresh\<close>

lemma max_healthy: "max v w = Healthy \<longleftrightarrow> v = Healthy \<and> w = Healthy"
  by (cases v; cases w; simp add: max_def less_eq_status_value_def)

lemma worst_healthy: "worst vs = Healthy \<longleftrightarrow> vs \<noteq> [] \<and> (\<forall>v\<in>set vs. v = Healthy)"
proof -
  have "fold max vs (v :: status_value) = Healthy \<longleftrightarrow> v = Healthy \<and> (\<forall>w\<in>set vs. w = Healthy)" for v
    by (induction vs arbitrary: v) (auto simp: max_healthy)
  then show ?thesis by (simp add: worst_fold)
qed

lemma rmap_each: "rmap f xs = Inr ys \<Longrightarrow> x \<in> set xs \<Longrightarrow> \<exists>y\<in>set ys. f x = Inr y"
  by (induction xs arbitrary: ys) (auto simp: rbind_Inr_iff)

text \<open>The last result of a device is not older than the limit of its stack, and says that it is online.\<close>

definition fresh_device :: "status_py \<Rightarrow> rat \<Rightarrow> string \<Rightarrow> doc \<Rightarrow> bool" where
  "fresh_device py now stack d \<longleftrightarrow> (\<exists>s t limit. getn d ''state'' = JObj s \<and> source_timestamp py s = Some t \<and>
     stale_after (sp_env py) stack = Inr limit \<and> now - t \<le> of_int limit \<and>
     (case dget s ''confirmedOnline'' of Some v \<Rightarrow> v | None \<Rightarrow> getn s ''online'') = JBool True \<and> getn s ''online'' \<noteq> JBool False)"

lemma device_status_fresh: "device_status py now stack d = Inr (Healthy, m) \<Longrightarrow> fresh_device py now stack d"
  by (auto simp: device_status_def fresh_device_def Let_def rbind_Inr_iff split: json.splits option.splits if_splits)

lemma network_fresh:
  assumes "network_status py now ds = Inr c" "cs_status c = Healthy"
  shows "ds \<noteq> [] \<and> (\<forall>d\<in>set ds. fresh_device py now ''network'' d)"
proof -
  obtain rs where rs: "rmap (network_device py now) ds = Inr rs" "cs_status c = worst (map fst rs)"
    using assms(1) by (auto simp: network_status_def rbind_Inr_iff)
  have all: "map fst rs \<noteq> []" "\<forall>r\<in>set rs. fst r = Healthy" using assms(2) unfolding rs(2) worst_healthy by auto
  have "fresh_device py now ''network'' d" if d: "d \<in> set ds" for d
    using rmap_each [OF rs(1) d] all(2) device_status_fresh by (fastforce simp: network_device_def rbind_Inr_iff)
  then show ?thesis using all(1) rmap_length [OF rs(1)] by auto
qed

lemma node_status_healthy: "fst (node_status old parent reported) = Healthy \<Longrightarrow> fst parent = Healthy"
  by (auto simp: node_status_def split: prod.splits if_splits)

lemma proxmox_fresh:
  assumes "proxmox_status py now vs ds = Inr c" "cs_status c = Healthy"
  shows "ds \<noteq> [] \<and> (\<forall>d\<in>set ds. fresh_device py now ''proxmox'' d)"
proof -
  obtain rs where rs: "rmap (proxmox_device py now vs) ds = Inr rs"
    "cs_status c = worst (concat (map (\<lambda>(ns, gs). map fst ns @ map si_status gs) rs))"
    using assms(1) by (auto simp: proxmox_status_def rbind_Inr_iff)
  have "concat (map (\<lambda>(ns, gs). map fst ns @ map si_status gs) rs) \<noteq> []"
    and each: "\<forall>v\<in>set (concat (map (\<lambda>(ns, gs). map fst ns @ map si_status gs) rs)). v = Healthy"
    using assms(2) unfolding rs(2) worst_healthy by simp_all
  then have all: "rs \<noteq> []" "\<forall>(ns, gs)\<in>set rs. \<forall>r\<in>set ns. fst r = Healthy" by fastforce+
  have "fresh_device py now ''proxmox'' d" if d: "d \<in> set ds" for d
  proof -
    obtain ns gs where y: "(ns, gs) \<in> set rs" "proxmox_device py now vs d = Inr (ns, gs)" using rmap_each [OF rs(1) d] by auto
    obtain nodes instances parent old where r: "rmap (proxmox_node py nodes old parent) (node_names py instances d nodes) = Inr ns"
      "device_status py now ''proxmox'' d = Inr parent" using y(2) by (auto simp: proxmox_device_def rbind_Inr_iff Let_def)
    obtain n where "n \<in> set (node_names py instances d nodes)" using node_names_nonempty by (metis hd_in_set)
    then obtain q where "q \<in> set ns" "proxmox_node py nodes old parent n = Inr q" using rmap_each [OF r(1)] by blast
    then have "fst parent = Healthy" using all(2) y(1) node_status_healthy
      by (fastforce simp: proxmox_node_def rbind_Inr_iff Let_def split_beta)
    then show ?thesis using r(2) device_status_fresh by (metis prod.collapse)
  qed
  then show ?thesis using all(1) rmap_length [OF rs(1)] by auto
qed

lemma truenas_verdict_healthy: "fst (truenas_verdict parent pool active level) = Healthy \<Longrightarrow> fst parent = Healthy"
  by (auto simp: truenas_verdict_def split: prod.splits if_splits)

lemma truenas_fresh:
  assumes "truenas_status_of py now ds = Inr c" "ts_status c = Healthy"
  shows "ds \<noteq> [] \<and> (\<forall>d\<in>set ds. fresh_device py now ''truenas'' d)"
proof -
  have ne: "ds \<noteq> []" using assms by (auto simp: truenas_status_of_def)
  then obtain rs where rs: "rmap (truenas_device py now) ds = Inr rs" "ts_status c = worst (map fst rs)"
    using assms(1) by (auto simp: truenas_status_of_def rbind_Inr_iff Let_def)
  have all: "\<forall>r\<in>set rs. fst r = Healthy" using assms(2) unfolding rs(2) worst_healthy by auto
  have "fresh_device py now ''truenas'' d" if d: "d \<in> set ds" for d
  proof -
    obtain q where q: "q \<in> set rs" "truenas_device py now d = Inr q" using rmap_each [OF rs(1) d] by blast
    then obtain parent pool active level where "device_status py now ''truenas'' d = Inr parent" "fst q = fst (truenas_verdict parent pool active level)"
      by (auto simp: truenas_device_def rbind_Inr_iff Let_def split_beta)
    then show ?thesis using all q(1) truenas_verdict_healthy device_status_fresh by (metis prod.collapse)
  qed
  then show ?thesis using ne by blast
qed

text \<open>
  Property C23: a healthy summary is fresh. When the overall status is healthy there are devices of each stack, and the
  last result of each of them is not older than the limit of its stack and has confirmed that it is online.
\<close>

theorem healthy_summary_fresh:
  assumes "status_summary py now document = Inr r" "sm_overall r = Healthy"
  shows "\<exists>ds. members document ''devices'' = Inr (map JObj ds) \<and>
    (\<forall>(drivers, stack)\<in>set [(network_drivers, ''network''), ([''proxmox.ve''], ''proxmox''), ([''truenas.system''], ''truenas'')].
      (\<exists>d\<in>set ds. driven_by drivers d) \<and> (\<forall>d\<in>set ds. driven_by drivers d \<longrightarrow> fresh_device py now stack d)) \<and>
    cs_healthy (sm_docker r) = cs_total (sm_docker r) \<and> 0 < cs_total (sm_docker r)"
proof -
  obtain vs ds ws where p: "members document ''devices'' = Inr vs" "vs = map JObj ds"
    "network_status py now (filter (driven_by network_drivers) ds) = Inr (sm_network r)"
    "proxmox_status py now ws (filter (driven_by [''proxmox.ve'']) ds) = Inr (sm_proxmox r)"
    "truenas_status_of py now (filter (driven_by [''truenas.system'']) ds) = Inr (sm_truenas r)"
    "docker_status py now ws = Inr (sm_docker r)"
    "sm_overall r = worst [cs_status (sm_network r), cs_status (sm_proxmox r), ts_status (sm_truenas r), cs_status (sm_docker r)]"
    using summary_parts [OF assms(1)] by metis
  have h: "cs_status (sm_network r) = Healthy" "cs_status (sm_proxmox r) = Healthy" "ts_status (sm_truenas r) = Healthy" "cs_status (sm_docker r) = Healthy"
    using assms(2) unfolding p(7) worst_healthy by auto
  obtain e where e: "cs_status (sm_docker r) = worst e" "cs_total (sm_docker r) = length e"
    "cs_healthy (sm_docker r) = length (filter (\<lambda>v. v = Healthy) e)" using docker_has_issues [OF p(6)] by metis
  have docker: "e \<noteq> []" "filter (\<lambda>v. v = Healthy) e = e" using h(4) unfolding e(1) worst_healthy by (auto simp: filter_id_conv)
  have network: "(\<exists>d\<in>set ds. driven_by network_drivers d) \<and> (\<forall>d\<in>set ds. driven_by network_drivers d \<longrightarrow> fresh_device py now ''network'' d)"
    using network_fresh [OF p(3) h(1)] by (auto simp: filter_empty_conv)
  have proxmox: "(\<exists>d\<in>set ds. driven_by [''proxmox.ve''] d) \<and> (\<forall>d\<in>set ds. driven_by [''proxmox.ve''] d \<longrightarrow> fresh_device py now ''proxmox'' d)"
    using proxmox_fresh [OF p(4) h(2)] by (auto simp: filter_empty_conv)
  have truenas: "(\<exists>d\<in>set ds. driven_by [''truenas.system''] d) \<and> (\<forall>d\<in>set ds. driven_by [''truenas.system''] d \<longrightarrow> fresh_device py now ''truenas'' d)"
    using truenas_fresh [OF p(5) h(3)] by (auto simp: filter_empty_conv)
  show ?thesis using p(1,2) network proxmox truenas docker e(2,3) by (intro exI [of _ ds]) simp
qed

definition demo_status_py :: status_py where
  "demo_status_py = \<lparr>sp_str = \<lambda>_. [], sp_iso = \<lambda>_. None, sp_env = []\<rparr>"

definition demo_monitored :: "string \<Rightarrow> doc \<Rightarrow> json" where
  "demo_monitored driver st = JObj [(''id'', JStr driver), (''driverId'', JStr driver), (''state'', JObj ([(''ts'', JInt 100), (''online'', JBool True)] @ st))]"

definition demo_status_doc :: doc where
  "demo_status_doc = [(''devices'', JObj [(''a'', demo_monitored ''zyxel.ap'' []), (''b'', demo_monitored ''proxmox.ve'' []),
      (''c'', demo_monitored ''truenas.system'' [(''values'', JObj [(''pool_health'', JStr ''ONLINE''), (''alerts'', JInt 0)])])]),
     (''computeInstances'', JObj [(''w'', JObj [(''id'', JStr ''w''), (''dockerDiscoveryState'', JObj [(''sourceCheckedAt'', JInt 100)]),
       (''docker'', JObj [(''containers'', JArr [JObj [(''name'', JStr ''web''), (''state'', JStr ''running'')]])])])])]"

lemma demo_summary_healthy: "\<exists>r. status_summary demo_status_py 110 demo_status_doc = Inr r \<and> sm_overall r = Healthy"
proof -
  have "(case status_summary demo_status_py 110 demo_status_doc of Inl e \<Rightarrow> False | Inr r \<Rightarrow> sm_overall r = Healthy)" by code_simp
  then show ?thesis by (cases "status_summary demo_status_py 110 demo_status_doc") auto
qed


lemma healthy_summary_fresh_witness:
  "\<exists>ds. members demo_status_doc ''devices'' = Inr (map JObj ds) \<and> (\<exists>d\<in>set ds. driven_by network_drivers d \<and> fresh_device demo_status_py 110 ''network'' d)"
proof -
  obtain r where r: "status_summary demo_status_py 110 demo_status_doc = Inr r" "sm_overall r = Healthy" using demo_summary_healthy by blast
  show ?thesis using healthy_summary_fresh [OF r] by auto
qed

section \<open>Where code and message differ\<close>

text \<open>An unreachable TrueNAS is reported under the code of the alerts it had when it was last read.\<close>

theorem unreachable_with_alert_code:
  "truenas_device demo_status_py 110 [(''id'', JStr ''t''), (''state'', JObj [(''ts'', JInt 100), (''online'', JBool False),
     (''values'', JObj [(''alerts'', JInt 2), (''alert_level'', JStr ''CRITICAL'')])])] =
   Inr (Critical, [\<lparr>si_component = ''t'', si_code = ''active_alerts'', si_message = ''the device is unreachable'', si_status = Critical\<rparr>], None, Some 2)"
  by code_simp

text \<open>A stale Proxmox device is reported as unknown monitoring, although the same status of its nodes has its own code.\<close>

theorem stale_node_code:
  "snd (snd (node_status old (Stale, Some m) reported)) = ''monitoring_unknown''"
  by (simp add: node_status_def)

end
