(* ===== verification/Spec2Isabelle.thy ===== *)
theory Spec2Isabelle
  imports StoreFile Auth Reachability Maintenance VpnPoll MorningLease UpdateRuns ComputeRuns ComputeShown Catalogue StatusSummary
begin

text \<open>
  Verification library of HomelabHQ, a self-hosted dashboard for the devices of a home network. The
  program is a Python service (\<open>src/backend\<close>) that keeps all its data in one JSON document, polls the
  devices of its users from background threads, keeps a roster of the clients it sees, controls
  network access through a firewall, notifies its users and runs maintenance playbooks. This library
  translates the components that decide what the service stores and does, and proves what they promise.

  \<^bold>\<open>How the parts interact.\<close> Every feature module changes the document only through
  \<open>store.update(mutator)\<close>: the mutator gets a private copy and either returns, and the copy is
  written atomically, or raises, and nothing changes. The interval scheduler starts the jobs of the
  poller; a poll reads the devices, records their state in one transaction, appends their samples to
  the history files and notifies their owners. The network refresh gathers observations of clients
  from the drivers, merges them, updates the roster, enforces bindings of roaming clients and checks
  the allow lists of the firewall. Maintenance jobs run in threads of their own. A request acts for
  an actor, whom the visibility policy confines to what he owns or shares.

  \<^bold>\<open>Theories, in the order of their imports.\<close>

  \<^item> \<open>Prelude\<close>: failures and results, dictionaries as association lists in insertion order, logs and
    mappings of bounded size, ASCII strings. \<open>Json\<close>: JSON values and Python's operations on them.
  \<^item> \<open>Transact\<close>: the contract of \<open>store.update\<close> as the locale \<open>transactional\<close>, interpreted by the typed
    transactions the feature modules use and, in \<open>StoreFile\<close>, by the document store itself.
  \<^item> \<open>Store\<close>, \<open>StoreFile\<close> (\<open>store.py\<close>): validation, migrations between schema versions, compaction of
    discovery jobs; the steps of the atomic write with a crash between any two of them, the cached
    copy and its fingerprint, update transactions, the start-up check and the table of SSH host keys.
  \<^item> \<open>Auth\<close> (\<open>auth.py\<close>, \<open>authorization.py\<close>, \<open>context.py\<close>): password hashes down to base64, the login
    throttle, users, sessions, the visibility of objects.
  \<^item> \<open>Discovery\<close> (\<open>client_merge.py\<close>, \<open>client_discovery.py\<close>, \<open>netutil.py\<close>), \<open>Roster\<close> and \<open>Presence\<close>
    (\<open>client_roster.py\<close>): observations, their merge, and the records with their presence logs.
  \<^item> \<open>Devices\<close> (\<open>devices.py\<close>, \<open>firewall.py\<close>): device records, bindings of clients, leases on update
    checks, managed firewall rules.
  \<^item> \<open>Firewall\<close> (\<open>drivers/opnsense.py\<close>) and \<open>Nac\<close> (\<open>nac.py\<close>, \<open>nac_service.py\<close>, \<open>client_service.py\<close>): the
    alias operations of the driver, the locale \<open>allow_list\<close> with the laws access control relies on,
    and access control on it.
  \<^item> \<open>History\<close> (\<open>history.py\<close>): the two series of every reading and their files.
  \<^item> \<open>Push\<close> (\<open>push.py\<close>): subscriptions, durable notifications, delivery.
  \<^item> \<open>Scheduler\<close> (\<open>monitoring_scheduler.py\<close>): jobs with their locks, workers, the loop.
  \<^item> \<open>Poller\<close> and \<open>Reachability\<close> (\<open>poller.py\<close>): the poll cycle, and what it guarantees.
  \<^item> \<open>JobResults\<close>, \<open>Jobs\<close> and \<open>Maintenance\<close> (\<open>compute_maintenance.py\<close>): what a playbook reports, the
    jobs and the states they lead to, and the threads that run them.
  \<^item> \<open>Morning\<close>, \<open>MorningRuns\<close> and \<open>MorningLease\<close> (\<open>morning_updates.py\<close>): the results of daily checks and
    their aggregate, one run with its checks and deliveries, and the lease that keeps runs apart.
  \<^item> \<open>Vpn\<close>, \<open>VpnRecord\<close>, \<open>VpnSwitch\<close> and \<open>VpnPoll\<close> (\<open>vpn_endpoints.py\<close>): profiles of VPN peers, the bounded
    record of their state, switching with its rollback, and the background pass.
  \<^item> \<open>Updates\<close>, \<open>UpdateJobs\<close> and \<open>UpdateRuns\<close> (\<open>device_updates.py\<close>): the decision whether a node needs a
    reboot, checks and operations, and the threads that install and reboot.
  \<^item> \<open>AnsiblePaths\<close>, \<open>AnsibleRules\<close>, \<open>AnsibleControl\<close> and \<open>AnsibleSafety\<close> (\<open>ansible_integration.py\<close>): paths and
    quoted commands, the inventory and what may run against which host, the operations of the controller,
    and what they guarantee.
  \<^item> \<open>Compute\<close>, \<open>ComputeRuns\<close>, \<open>ComputeView\<close> and \<open>ComputeShown\<close> (\<open>compute.py\<close>): the refresh of workload records
    from their devices and its reference definition; Docker projects joined with the inventory, the public view
    of a workload, lists and summary, and what they show.
  \<^item> \<open>Catalogue\<close> (\<open>nordvpn_client.py\<close>): what is accepted of the answers of the VPN provider, and the search for
    the server in use. \<open>StatusSummary\<close> (\<open>asgi/status_service.py\<close>): the status of the four stacks and overall.

  \<^bold>\<open>How code is translated.\<close> A dictionary of the document with fixed keys is a record, one with free
  keys a dictionary in insertion order, a free-form value a JSON value. An operation is a function from
  its arguments and the state to a result and the new state; every \<open>raise\<close> and early return is a branch.
  Integers are unbounded, as in Python; a float is an exact rational or one of the special values.
  Threads are step relations whose steps are the sections of the code that hold a lock or run one store
  transaction (\<open>Scheduler\<close>, \<open>Maintenance\<close>, \<open>MorningLease\<close>, \<open>UpdateRuns\<close>, \<open>AnsibleSafety\<close>, \<open>ComputeRuns\<close>), or explicit sequences of operations
  (\<open>Auth\<close>, \<open>Presence\<close>, \<open>Devices\<close>, \<open>Push\<close>). Loops are structural recursion or have a measure; where a
  loop waits for something outside the program it takes the readings of the clock as an argument, and its
  end is a theorem.

  \<^bold>\<open>What stands outside.\<close> Arguments are the clock, random tokens, the digest of passwords, the rendering
  of floats and containers by \<open>str\<close>, the JSON decoder, DNS, the answers of devices, of the push service
  and of playbook runs. Hypotheses about them are named where they are used: random identifiers are new,
  clocks do not run backwards, a timed wait of the scheduler ends within a given delay.

  \<^bold>\<open>What is shown.\<close>

  \<^item> Store: a crash at any point of a write leaves the old or the new document; an update either takes
    effect as a whole or not at all; migration is idempotent, ends at the current version and keeps what
    it does not name; the cache agrees with the file; compaction clears exactly the superseded details.
  \<^item> Accounts: over every run of the operations user names stay unique, sessions stay bounded and an
    administrator remains; a login gives a session until it expires, and a new password or a deletion ends all sessions;
    hashes verify exactly their password; the throttle locks after its limit; visibility is exact.
  \<^item> Monitoring: the debounced state is a function of the polls; failed polls keep the last good values;
    alerts fire at edges; a cycle records, appends and notifies for exactly the devices it read; jobs do
    not overlap themselves and start on time; waiting ends; series equal their reference definition.
  \<^item> Clients: the merge takes the best evidence; presence logs alternate; a scan changes presence as its
    evidence allows and missing evidence takes nothing away; a roaming client is sent only to access points
    that answer; access control edits only the allow lists it manages.
  \<^item> Devices: positions and bindings stay consistent; deletion removes every reference; a lease on an
    update check has one holder.
  \<^item> Notifications: each is stored for its recipients, bounded for each user, newest kept.
  \<^item> Maintenance: an instance has one thread and one running job at most; a finished sequence leaves it free
    for the next; retention keeps active and newest jobs; recaps parse back; recovery fails exactly the
    interrupted jobs.
  \<^item> Daily checks: a run ends with the aggregate of what was checked, whatever fails; one run at most holds the
    lease; the aggregate is the same phase by phase and at once; a user sees the own devices only.
  \<^item> VPN endpoints: a switch ends with the new endpoint or with the old one restored, as its result says; records
    stay bounded and typed; the failure of one device leaves the others as they would be alone.
  \<^item> Device updates: a node is rebooted only on evidence and confirmation; an operation ends with the outcome of
    every node; a device has one operation at most, and what a restart interrupted is reported.
  \<^item> Ansible controller: accepted paths stay inside their directory; a shell reads the line sent as the command
    built; only approved playbooks run, against capable and admitted hosts, and what is offered is what can run;
    groups contain the hosts of all groups below; a workload shows only results its host is capable of.
  \<^item> Workloads: a refresh equals its reference, which retains what was not found; devices do not disturb each
    other; a device has one record for a workload; joining projects with the inventory is exact and idempotent;
    a view offers only what is approved; a list is complete and ordered; the counts of the summary fit together.
  \<^item> Catalogue: accepted servers are usable and unique, choices bounded; pages shared by the lookups of a pass change
    no answer.
  \<^item> Status: the overall status is the worst of the listed issues, and exactly what is not healthy has one; a healthy
    summary means that every device of each stack was confirmed online within its limit.

  \<^bold>\<open>Bounds.\<close> Limits the code reads from its environment are arguments with the clamping of the code; no
  theorem fixes them. Recursion that follows a text or a clock has a measure and no fuel.

  \<^bold>\<open>Not modelled.\<close> The HTTP layer and its models (\<open>asgi\<close>, \<open>api\<close>, \<open>app.py\<close>) and the actor-scoped services
  over the components are glue; drivers other than the aliases of the firewall, detection, transports,
  TLS, encryption and logging are protocols and input or output. Of the components with logic of their
  own these are left: the client of address registries, the refresh of all workloads in \<open>services.py\<close>, and of the Ansible controller the test of a connection with its search for executables and
  the masking of secrets, which are patterns over the text of remote answers. Of the poller, thread lifecycle and
  the text of log lines are left out; of the document store, directory creation and file modes; its locks appear
  as operations that run one at a time.
\<close>

end
